(* ===== verification/Annot_Prelude.thy ===== *)
theory Annot_Prelude
  imports Complex_Main "HOL-Library.Word" "HOL-Library.Signed_Division"
begin

text \<open>
  Shared vocabulary of the development: the C library functions every component uses
  (\<open>MIN\<close>, \<open>MAX\<close>, stable list sorting), the theorem collections the component
  theories fill, and generic facts on lists.

  Conventions. A C \<open>int\<close> is modelled as an \<^typ>\<open>int\<close>: signed overflow is undefined
  behaviour in C, and \<open>Mtk_Rectangle\<close> proves bounds under which no intermediate value of
  the rectangle operations leaves the 32-bit range. Unsigned bit masks are words of their
  width. \<open>float\<close> and \<open>double\<close> values are \<^typ>\<open>real\<close> numbers: every finite value is a
  real, comparisons are exact, and the rounding of arithmetic is idealised away.
\<close>

named_theorems rect_defs \<open>definitions of the rectangle operations and their accessors\<close>
named_theorems layer_defs \<open>definitions of the annotation layer's operations\<close>
named_theorems ink_simps \<open>how the ink store changes under each operation\<close>

text \<open>The C preprocessor macros \<open>MIN\<close> and \<open>MAX\<close> are HOL's \<open>min\<close> and \<open>max\<close>; the
  following bundles unfold them where arithmetic needs the comparison.\<close>

lemmas minmax_defs = min_def max_def

text \<open>\<open>CLAMP\<close>-style helper: a limit applied from below and then from above.\<close>

definition clampf :: "real \<Rightarrow> real \<Rightarrow> real \<Rightarrow> real" where
  "clampf lo hi v = (let v1 = (if v < lo then lo else v) in if v1 > hi then hi else v1)"

lemma clampf_bounds: "lo \<le> hi \<Longrightarrow> lo \<le> clampf lo hi v \<and> clampf lo hi v \<le> hi"
  by (simp add: clampf_def Let_def)

lemma clampf_id: "lo \<le> v \<Longrightarrow> v \<le> hi \<Longrightarrow> clampf lo hi v = v"
  by (simp add: clampf_def Let_def)

text \<open>The macro \<open>CLAMP\<close> of GLib; its bounds need not be in order.\<close>

definition CLAMP :: "'a::linorder \<Rightarrow> 'a \<Rightarrow> 'a \<Rightarrow> 'a" where
  "CLAMP x low high = (if x > high then high else if x < low then low else x)"

lemma CLAMP_bounds: "low \<le> high \<Longrightarrow> low \<le> CLAMP x low high \<and> CLAMP x low high \<le> high"
  by (auto simp: CLAMP_def)

text \<open>\<open>roundf\<close> rounds half away from zero; \<open>ceilf\<close> and \<open>floorf\<close> are HOL's functions.\<close>

definition roundf :: "real \<Rightarrow> int" where
  "roundf v = (if v \<ge> 0 then \<lfloor>v + 1 / 2\<rfloor> else \<lceil>v - 1 / 2\<rceil>)"

text \<open>Remove the element at index \<open>i\<close> of a list, as \<open>g_ptr_array_remove_index\<close> does; an
  index out of range leaves the array unchanged (the library only logs a critical).\<close>

definition remove_index :: "nat \<Rightarrow> 'a list \<Rightarrow> 'a list" where
  "remove_index i xs = take i xs @ drop (Suc i) xs"

lemma remove_index_length: "i < length xs \<Longrightarrow> length (remove_index i xs) = length xs - 1"
  by (simp add: remove_index_def min_def)

lemma remove_index_last: "xs \<noteq> [] \<Longrightarrow> remove_index (length xs - 1) xs = butlast xs"
  by (simp add: remove_index_def butlast_conv_take)

lemma remove_index_append_Cons [simp]: "remove_index (length xs) (xs @ y # ys) = xs @ ys"
  by (simp add: remove_index_def)

lemma set_remove_index: "set (remove_index i xs) \<subseteq> set xs"
  by (auto simp: remove_index_def dest: in_set_takeD in_set_dropD)

lemma distinct_map_inj_on: "distinct (map f xs) \<Longrightarrow> inj_on f (set xs)"
  by (simp add: distinct_map)

lemma last_in_list: "xs \<noteq> [] \<Longrightarrow> last xs \<in> set xs"
  by simp

lemma set_butlast_subset: "set (butlast xs) \<subseteq> set xs"
  by (auto dest: in_set_butlastD)

text \<open>A loop whose body may fail: the C code would read outside an array or fail an assertion.\<close>

fun fold_opt :: "('a \<Rightarrow> 's \<Rightarrow> 's option) \<Rightarrow> 'a list \<Rightarrow> 's \<Rightarrow> 's option" where
  "fold_opt f [] s = Some s"
| "fold_opt f (x # xs) s = Option.bind (f x s) (fold_opt f xs)"

lemma fold_opt_append:
  "fold_opt f (xs @ ys) s = Option.bind (fold_opt f xs s) (fold_opt f ys)"
  by (induction xs arbitrary: s) (simp_all add: bind_assoc split: Option.bind_split)

text \<open>An invariant that every step establishes, with its success.\<close>

lemma fold_opt_invariant:
  assumes "P s" and "\<And>x s. x \<in> set xs \<Longrightarrow> P s \<Longrightarrow> \<exists>s'. f x s = Some s' \<and> P s'"
  shows "\<exists>s'. fold_opt f xs s = Some s' \<and> P s'"
  using assms
proof (induction xs arbitrary: s)
  case (Cons x xs)
  then obtain s' where "f x s = Some s'" "P s'" by (meson list.set_intros(1))
  with Cons show ?case by auto
qed simp

text \<open>\<open>g_list_sort\<close> is a stable sort by its comparison function.\<close>

fun insert_sorted :: "('a \<Rightarrow> 'a \<Rightarrow> int) \<Rightarrow> 'a \<Rightarrow> 'a list \<Rightarrow> 'a list" where
  "insert_sorted cmp x [] = [x]"
| "insert_sorted cmp x (y # ys) =
     (if cmp x y \<le> 0 then x # y # ys else y # insert_sorted cmp x ys)"

definition g_list_sort :: "('a \<Rightarrow> 'a \<Rightarrow> int) \<Rightarrow> 'a list \<Rightarrow> 'a list" where
  "g_list_sort cmp xs = foldr (insert_sorted cmp) xs []"

lemma set_insert_sorted [simp]: "set (insert_sorted cmp x ys) = insert x (set ys)"
  by (induction ys) auto

lemma set_g_list_sort [simp]: "set (g_list_sort cmp xs) = set xs"
  unfolding g_list_sort_def by (induction xs) simp_all

text \<open>The result is in the order of the comparison, and elements that compare equal stay in the
  order they had.\<close>

lemma sorted_insert_stable:
  assumes "\<And>x y. cmp x y \<le> 0 \<or> cmp y x < 0" "\<And>x y z. cmp x y \<le> 0 \<Longrightarrow> cmp y z \<le> 0 \<Longrightarrow> cmp x z \<le> 0"
    and "sorted_wrt (\<lambda>x y. cmp x y \<le> 0 \<and> (cmp y x \<le> 0 \<longrightarrow> R x y)) ys" "\<forall>y\<in>set ys. R x y"
  shows "sorted_wrt (\<lambda>x y. cmp x y \<le> 0 \<and> (cmp y x \<le> 0 \<longrightarrow> R x y)) (insert_sorted cmp x ys)"
  using assms(3,4)
proof (induction ys)
  case (Cons y ys)
  show ?case
  proof (cases "cmp x y \<le> 0")
    case True
    then show ?thesis using Cons.prems assms(2) by (simp; blast)
  next
    case False
    then have "cmp y x \<le> 0" using assms(1) [of x y] by simp
    then show ?thesis using False Cons by auto
  qed
qed simp

lemma sorted_g_list_sort_stable:
  assumes "\<And>x y. cmp x y \<le> 0 \<or> cmp y x < 0" "\<And>x y z. cmp x y \<le> 0 \<Longrightarrow> cmp y z \<le> 0 \<Longrightarrow> cmp x z \<le> 0"
    and "sorted_wrt R xs"
  shows "sorted_wrt (\<lambda>x y. cmp x y \<le> 0 \<and> (cmp y x \<le> 0 \<longrightarrow> R x y)) (g_list_sort cmp xs)"
  using assms(3)
proof (induction xs)
  case (Cons x xs)
  then have "\<forall>y\<in>set (g_list_sort cmp xs). R x y" by simp
  then show ?case using Cons sorted_insert_stable [OF assms(1,2)] by (simp add: g_list_sort_def)
qed (simp add: g_list_sort_def)

lemma sorted_g_list_sort:
  assumes "\<And>x y. cmp x y \<le> 0 \<or> cmp y x \<le> 0" "\<And>x y z. cmp x y \<le> 0 \<Longrightarrow> cmp y z \<le> 0 \<Longrightarrow> cmp x z \<le> 0"
  shows "sorted_wrt (\<lambda>x y. cmp x y \<le> 0) (g_list_sort cmp xs)"
proof (induction xs)
  case (Cons x xs)
  have "sorted_wrt (\<lambda>x y. cmp x y \<le> 0) ys \<Longrightarrow> sorted_wrt (\<lambda>x y. cmp x y \<le> 0) (insert_sorted cmp x ys)" for ys
  proof (induction ys)
    case (Cons y ys)
    then show ?case using assms(1) [of x y] assms(2) by auto
  qed simp
  then show ?case using Cons by (simp add: g_list_sort_def)
qed (simp add: g_list_sort_def)

lemma count_list_distinct: "distinct xs \<Longrightarrow> count_list xs x = (if x \<in> set xs then 1 else 0)"
  by (induction xs) auto

end
