(* ===== verification/Mtk_Rectangle.thy ===== *)
theory Mtk_Rectangle
  imports Annot_Prelude
begin

text \<open>
  The rectangle library of \<open>mutter/mtk/mtk/mtk-rectangle.c\<close>: the record
  \<open>MtkRectangle\<close>, its set operations, containment and adjacency tests, the conversions to
  and from graphene rectangles, and the monitor transforms of a rectangle
  (\<open>mtk-monitor-transform.c\<close> is in \<open>Mtk_Transform\<close>). The abstract view of a rectangle is
  its set of pixels; the lemmas relate every test of the code to it.
\<close>

section \<open>Rectangles\<close>

record mtk_rectangle =
  rect_x :: int
  rect_y :: int
  rect_width :: int
  rect_height :: int

definition mtk_rectangle_new :: "int \<Rightarrow> int \<Rightarrow> int \<Rightarrow> int \<Rightarrow> mtk_rectangle" where
  "mtk_rectangle_new x y w h =
     \<lparr>rect_x = x, rect_y = y, rect_width = w, rect_height = h\<rparr>"

definition mtk_rectangle_new_empty :: mtk_rectangle where
  "mtk_rectangle_new_empty = \<lparr>rect_x = 0, rect_y = 0, rect_width = 0, rect_height = 0\<rparr>"

text \<open>The macros of \<open>boxes-private.h\<close>.\<close>

definition box_left :: "mtk_rectangle \<Rightarrow> int" where
  "box_left r = rect_x r"

definition box_right :: "mtk_rectangle \<Rightarrow> int" where
  "box_right r = rect_x r + rect_width r"

definition box_top :: "mtk_rectangle \<Rightarrow> int" where
  "box_top r = rect_y r"

definition box_bottom :: "mtk_rectangle \<Rightarrow> int" where
  "box_bottom r = rect_y r + rect_height r"

lemmas box_defs = box_left_def box_right_def box_top_def box_bottom_def

definition mtk_rectangle_area :: "mtk_rectangle \<Rightarrow> int" where
  "mtk_rectangle_area r = rect_width r * rect_height r"

definition mtk_rectangle_equal :: "mtk_rectangle \<Rightarrow> mtk_rectangle \<Rightarrow> bool" where
  "mtk_rectangle_equal a b \<longleftrightarrow>
     rect_x a = rect_x b \<and> rect_y a = rect_y b \<and>
     rect_width a = rect_width b \<and> rect_height a = rect_height b"

definition mtk_rectangle_union :: "mtk_rectangle \<Rightarrow> mtk_rectangle \<Rightarrow> mtk_rectangle" where
  "mtk_rectangle_union r1 r2 =
     (let x0 = rect_x r1; y0 = rect_y r1; w0 = rect_width r1; h0 = rect_height r1;
          (x1, w1) = (if rect_x r2 < x0 then (rect_x r2, w0 + (x0 - rect_x r2)) else (x0, w0));
          (y1, h1) = (if rect_y r2 < y0 then (rect_y r2, h0 + (y0 - rect_y r2)) else (y0, h0));
          w2 = (if rect_x r2 + rect_width r2 > x1 + w1
                then rect_x r2 + rect_width r2 - x1 else w1);
          h2 = (if rect_y r2 + rect_height r2 > y1 + h1
                then rect_y r2 + rect_height r2 - y1 else h1)
      in \<lparr>rect_x = x1, rect_y = y1, rect_width = w2, rect_height = h2\<rparr>)"

text \<open>The out parameter \<open>dest\<close> keeps its origin when the intersection is degenerate: it is
  an argument of the model, and the result is the new value of \<open>*dest\<close>.\<close>

definition mtk_rectangle_intersect ::
  "mtk_rectangle \<Rightarrow> mtk_rectangle \<Rightarrow> mtk_rectangle \<Rightarrow> bool \<times> mtk_rectangle" where
  "mtk_rectangle_intersect src1 src2 dest =
     (let dest_x = max (rect_x src1) (rect_x src2);
          dest_y = max (rect_y src1) (rect_y src2);
          dest_w = min (rect_x src1 + rect_width src1) (rect_x src2 + rect_width src2) - dest_x;
          dest_h = min (rect_y src1 + rect_height src1) (rect_y src2 + rect_height src2) - dest_y
      in if dest_w > 0 \<and> dest_h > 0
         then (True, \<lparr>rect_x = dest_x, rect_y = dest_y, rect_width = dest_w, rect_height = dest_h\<rparr>)
         else (False, dest\<lparr>rect_width := 0, rect_height := 0\<rparr>))"

definition mtk_rectangle_overlap :: "mtk_rectangle \<Rightarrow> mtk_rectangle \<Rightarrow> bool" where
  "mtk_rectangle_overlap r1 r2 \<longleftrightarrow>
     \<not> (rect_x r1 + rect_width r1 \<le> rect_x r2 \<or>
        rect_x r2 + rect_width r2 \<le> rect_x r1 \<or>
        rect_y r1 + rect_height r1 \<le> rect_y r2 \<or>
        rect_y r2 + rect_height r2 \<le> rect_y r1)"

definition mtk_rectangle_vert_overlap :: "mtk_rectangle \<Rightarrow> mtk_rectangle \<Rightarrow> bool" where
  "mtk_rectangle_vert_overlap r1 r2 \<longleftrightarrow>
     rect_y r1 < rect_y r2 + rect_height r2 \<and> rect_y r2 < rect_y r1 + rect_height r1"

definition mtk_rectangle_horiz_overlap :: "mtk_rectangle \<Rightarrow> mtk_rectangle \<Rightarrow> bool" where
  "mtk_rectangle_horiz_overlap r1 r2 \<longleftrightarrow>
     rect_x r1 < rect_x r2 + rect_width r2 \<and> rect_x r2 < rect_x r1 + rect_width r1"

definition mtk_rectangle_could_fit_rect :: "mtk_rectangle \<Rightarrow> mtk_rectangle \<Rightarrow> bool" where
  "mtk_rectangle_could_fit_rect outer inner \<longleftrightarrow>
     rect_width outer \<ge> rect_width inner \<and> rect_height outer \<ge> rect_height inner"

definition mtk_rectangle_contains_rect :: "mtk_rectangle \<Rightarrow> mtk_rectangle \<Rightarrow> bool" where
  "mtk_rectangle_contains_rect outer inner \<longleftrightarrow>
     rect_x inner \<ge> rect_x outer \<and>
     rect_y inner \<ge> rect_y outer \<and>
     rect_x inner + rect_width inner \<le> rect_x outer + rect_width outer \<and>
     rect_y inner + rect_height inner \<le> rect_y outer + rect_height outer"

definition mtk_rectangle_contains_pointf :: "mtk_rectangle \<Rightarrow> real \<Rightarrow> real \<Rightarrow> bool" where
  "mtk_rectangle_contains_pointf r x y \<longleftrightarrow>
     x \<ge> of_int (rect_x r) \<and> x < of_int (rect_x r + rect_width r) \<and>
     y \<ge> of_int (rect_y r) \<and> y < of_int (rect_y r + rect_height r)"

definition mtk_rectangle_contains_point :: "mtk_rectangle \<Rightarrow> int \<Rightarrow> int \<Rightarrow> bool" where
  "mtk_rectangle_contains_point r x y =
     mtk_rectangle_contains_pointf r (of_int x) (of_int y)"

definition mtk_rectangle_is_adjacent_to :: "mtk_rectangle \<Rightarrow> mtk_rectangle \<Rightarrow> bool" where
  "mtk_rectangle_is_adjacent_to rect other =
     (let rect_x1 = rect_x rect; rect_y1 = rect_y rect;
          rect_x2 = rect_x rect + rect_width rect; rect_y2 = rect_y rect + rect_height rect;
          other_x1 = rect_x other; other_y1 = rect_y other;
          other_x2 = rect_x other + rect_width other;
          other_y2 = rect_y other + rect_height other
      in if (rect_x1 = other_x2 \<or> rect_x2 = other_x1) \<and>
            \<not> (rect_y2 \<le> other_y1 \<or> rect_y1 \<ge> other_y2) then True
         else if (rect_y1 = other_y2 \<or> rect_y2 = other_y1) \<and>
            \<not> (rect_x2 \<le> other_x1 \<or> rect_x1 \<ge> other_x2) then True
         else False)"

definition mtk_rectangle_is_empty :: "mtk_rectangle \<Rightarrow> bool" where
  "mtk_rectangle_is_empty r \<longleftrightarrow> rect_width r = 0 \<or> rect_height r = 0"

section \<open>Graphene conversions\<close>

text \<open>A \<open>graphene_rect_t\<close> is four floats. Graphene itself is not part of the repository:
  \<open>graphene_rect_round_extents\<close> (the GROW strategy) and \<open>graphene_rect_scale\<close> are
  parameters of the operations that call them.\<close>

record graphene_rect =
  gr_x :: real
  gr_y :: real
  gr_width :: real
  gr_height :: real

datatype mtk_rounding_strategy =
  MTK_ROUNDING_STRATEGY_SHRINK | MTK_ROUNDING_STRATEGY_GROW | MTK_ROUNDING_STRATEGY_ROUND

definition mtk_rectangle_to_graphene_rect :: "mtk_rectangle \<Rightarrow> graphene_rect" where
  "mtk_rectangle_to_graphene_rect r =
     \<lparr>gr_x = of_int (rect_x r), gr_y = of_int (rect_y r),
      gr_width = of_int (rect_width r), gr_height = of_int (rect_height r)\<rparr>"

text \<open>A C cast of a float to \<open>int\<close> truncates towards zero.\<close>

definition c_trunc :: "real \<Rightarrow> int" where
  "c_trunc v = (if v \<ge> 0 then \<lfloor>v\<rfloor> else \<lceil>v\<rceil>)"

fun mtk_rectangle_from_graphene_rect ::
  "(graphene_rect \<Rightarrow> graphene_rect) \<Rightarrow> graphene_rect \<Rightarrow> mtk_rounding_strategy \<Rightarrow> mtk_rectangle"
where
  "mtk_rectangle_from_graphene_rect round_extents r MTK_ROUNDING_STRATEGY_SHRINK =
     \<lparr>rect_x = \<lceil>gr_x r\<rceil>, rect_y = \<lceil>gr_y r\<rceil>,
      rect_width = \<lfloor>gr_width r\<rfloor>, rect_height = \<lfloor>gr_height r\<rfloor>\<rparr>"
| "mtk_rectangle_from_graphene_rect round_extents r MTK_ROUNDING_STRATEGY_GROW =
     (let clamped = round_extents r
      in \<lparr>rect_x = c_trunc (gr_x clamped), rect_y = c_trunc (gr_y clamped),
          rect_width = c_trunc (gr_width clamped), rect_height = c_trunc (gr_height clamped)\<rparr>)"
| "mtk_rectangle_from_graphene_rect round_extents r MTK_ROUNDING_STRATEGY_ROUND =
     \<lparr>rect_x = roundf (gr_x r), rect_y = roundf (gr_y r),
      rect_width = roundf (gr_width r), rect_height = roundf (gr_height r)\<rparr>"

definition mtk_rectangle_scale_double ::
  "(graphene_rect \<Rightarrow> graphene_rect) \<Rightarrow> (graphene_rect \<Rightarrow> real \<Rightarrow> real \<Rightarrow> graphene_rect) \<Rightarrow>
   mtk_rectangle \<Rightarrow> real \<Rightarrow> mtk_rounding_strategy \<Rightarrow> mtk_rectangle" where
  "mtk_rectangle_scale_double round_extents gscale r scale strategy =
     mtk_rectangle_from_graphene_rect round_extents
       (gscale (mtk_rectangle_to_graphene_rect r) scale scale) strategy"

definition mtk_rectangle_crop_and_scale ::
  "(graphene_rect \<Rightarrow> graphene_rect) \<Rightarrow> (graphene_rect \<Rightarrow> real \<Rightarrow> real \<Rightarrow> graphene_rect) \<Rightarrow>
   (graphene_rect \<Rightarrow> real \<Rightarrow> real \<Rightarrow> graphene_rect) \<Rightarrow>
   mtk_rectangle \<Rightarrow> graphene_rect \<Rightarrow> int \<Rightarrow> int \<Rightarrow> mtk_rectangle" where
  "mtk_rectangle_crop_and_scale round_extents gscale goffset r src_rect dst_width dst_height =
     (let tmp = gscale (mtk_rectangle_to_graphene_rect r)
                  (gr_width src_rect / of_int dst_width) (gr_height src_rect / of_int dst_height);
          tmp' = goffset tmp (gr_x src_rect) (gr_y src_rect)
      in mtk_rectangle_from_graphene_rect round_extents tmp' MTK_ROUNDING_STRATEGY_GROW)"

declare mtk_rectangle_new_def [rect_defs] mtk_rectangle_union_def [rect_defs]
  mtk_rectangle_intersect_def [rect_defs] mtk_rectangle_overlap_def [rect_defs]
  mtk_rectangle_vert_overlap_def [rect_defs] mtk_rectangle_horiz_overlap_def [rect_defs]
  mtk_rectangle_could_fit_rect_def [rect_defs] mtk_rectangle_contains_rect_def [rect_defs]
  mtk_rectangle_contains_pointf_def [rect_defs] mtk_rectangle_contains_point_def [rect_defs]
  mtk_rectangle_is_empty_def [rect_defs] box_defs [rect_defs]

section \<open>Pixels: the abstract view\<close>

definition rect_positive :: "mtk_rectangle \<Rightarrow> bool" where
  "rect_positive r \<longleftrightarrow> rect_width r > 0 \<and> rect_height r > 0"

definition pixels :: "mtk_rectangle \<Rightarrow> (int \<times> int) set" where
  "pixels r = {(px, py). mtk_rectangle_contains_point r px py}"

lemma mem_pixels:
  "(px, py) \<in> pixels r \<longleftrightarrow>
     rect_x r \<le> px \<and> px < rect_x r + rect_width r \<and>
     rect_y r \<le> py \<and> py < rect_y r + rect_height r"
  by (simp add: pixels_def mtk_rectangle_contains_point_def mtk_rectangle_contains_pointf_def
      flip: of_int_add)

lemma pixels_empty_iff: "pixels r = {} \<longleftrightarrow> \<not> rect_positive r"
proof
  assume e: "pixels r = {}"
  show "\<not> rect_positive r"
  proof
    assume "rect_positive r"
    then have "(rect_x r, rect_y r) \<in> pixels r"
      by (simp add: mem_pixels rect_positive_def)
    with e show False by simp
  qed
qed (force simp: mem_pixels rect_positive_def)

lemma contains_rect_refl [simp]: "mtk_rectangle_contains_rect r r"
  by (simp add: rect_defs)

lemma contains_rect_trans:
  "mtk_rectangle_contains_rect a b \<Longrightarrow> mtk_rectangle_contains_rect b c \<Longrightarrow>
   mtk_rectangle_contains_rect a c"
  by (simp add: rect_defs)

lemma contains_rect_pixels: "mtk_rectangle_contains_rect a b \<Longrightarrow> pixels b \<subseteq> pixels a"
  by (auto simp: mem_pixels mtk_rectangle_contains_rect_def)

lemma pixels_contains_rect:
  assumes sub: "pixels b \<subseteq> pixels a" and pos: "rect_positive b"
  shows "mtk_rectangle_contains_rect a b"
proof -
  have "(rect_x b, rect_y b) \<in> pixels b"
    and "(rect_x b + rect_width b - 1, rect_y b + rect_height b - 1) \<in> pixels b"
    using pos by (simp_all add: mem_pixels rect_positive_def)
  with sub have "(rect_x b, rect_y b) \<in> pixels a"
    and "(rect_x b + rect_width b - 1, rect_y b + rect_height b - 1) \<in> pixels a"
    by blast+
  then show ?thesis by (simp add: mem_pixels mtk_rectangle_contains_rect_def)
qed

lemma contains_rect_iff_pixels:
  "rect_positive b \<Longrightarrow> mtk_rectangle_contains_rect a b \<longleftrightarrow> pixels b \<subseteq> pixels a"
  using contains_rect_pixels pixels_contains_rect by blast

lemma overlap_commute: "mtk_rectangle_overlap a b = mtk_rectangle_overlap b a"
  by (auto simp: mtk_rectangle_overlap_def)

lemma overlap_iff_pixels:
  assumes "rect_positive a" and "rect_positive b"
  shows "mtk_rectangle_overlap a b \<longleftrightarrow> pixels a \<inter> pixels b \<noteq> {}"
proof
  assume o: "mtk_rectangle_overlap a b"
  have "(max (rect_x a) (rect_x b), max (rect_y a) (rect_y b)) \<in> pixels a \<inter> pixels b"
    using o assms by (auto simp: mem_pixels mtk_rectangle_overlap_def rect_positive_def)
  then show "pixels a \<inter> pixels b \<noteq> {}" by blast
next
  assume "pixels a \<inter> pixels b \<noteq> {}"
  then show "mtk_rectangle_overlap a b"
    by (auto simp: mem_pixels mtk_rectangle_overlap_def)
qed

section \<open>Correctness of the set operations\<close>

lemma intersect_pixels:
  "fst (mtk_rectangle_intersect a b d) \<Longrightarrow>
   pixels (snd (mtk_rectangle_intersect a b d)) = pixels a \<inter> pixels b"
  by (auto simp: mtk_rectangle_intersect_def Let_def mem_pixels)

lemma intersect_pixels_empty:
  "\<not> fst (mtk_rectangle_intersect a b d) \<Longrightarrow> pixels a \<inter> pixels b = {}"
  by (auto simp: mtk_rectangle_intersect_def Let_def mem_pixels split: if_splits)

lemma intersect_True:
  "fst (mtk_rectangle_intersect a b d) \<Longrightarrow>
   snd (mtk_rectangle_intersect a b d) =
     \<lparr>rect_x = max (rect_x a) (rect_x b), rect_y = max (rect_y a) (rect_y b),
      rect_width = min (rect_x a + rect_width a) (rect_x b + rect_width b) -
        max (rect_x a) (rect_x b),
      rect_height = min (rect_y a + rect_height a) (rect_y b + rect_height b) -
        max (rect_y a) (rect_y b)\<rparr>"
  unfolding mtk_rectangle_intersect_def Let_def by (simp only: split: if_splits) simp_all

lemma intersect_positive:
  "fst (mtk_rectangle_intersect a b d) \<longleftrightarrow> rect_positive (snd (mtk_rectangle_intersect a b d))"
  by (simp add: mtk_rectangle_intersect_def Let_def rect_positive_def)

lemma intersect_contained:
  "fst (mtk_rectangle_intersect a b d) \<Longrightarrow>
   mtk_rectangle_contains_rect a (snd (mtk_rectangle_intersect a b d)) \<and>
   mtk_rectangle_contains_rect b (snd (mtk_rectangle_intersect a b d))"
  by (auto simp: mtk_rectangle_intersect_def Let_def mtk_rectangle_contains_rect_def
      split: if_splits)

lemma union_box:
  "box_left (mtk_rectangle_union a b) = min (box_left a) (box_left b)"
  "box_top (mtk_rectangle_union a b) = min (box_top a) (box_top b)"
  "box_right (mtk_rectangle_union a b) = max (box_right a) (box_right b)"
  "box_bottom (mtk_rectangle_union a b) = max (box_bottom a) (box_bottom b)"
  by (simp_all add: mtk_rectangle_union_def Let_def box_defs)

lemma contains_rect_box:
  "mtk_rectangle_contains_rect a b \<longleftrightarrow>
     box_left a \<le> box_left b \<and> box_top a \<le> box_top b \<and>
     box_right b \<le> box_right a \<and> box_bottom b \<le> box_bottom a"
  by (simp add: mtk_rectangle_contains_rect_def box_defs)

lemma union_least:
  "mtk_rectangle_contains_rect c (mtk_rectangle_union a b) \<longleftrightarrow>
     mtk_rectangle_contains_rect c a \<and> mtk_rectangle_contains_rect c b"
  by (auto simp: contains_rect_box union_box)

lemma overlap_iff_intersect:
  "rect_positive a \<Longrightarrow> rect_positive b \<Longrightarrow>
   mtk_rectangle_overlap a b \<longleftrightarrow> fst (mtk_rectangle_intersect a b d)"
  by (auto simp: mtk_rectangle_overlap_def mtk_rectangle_intersect_def Let_def
      rect_positive_def split: if_splits)

lemma overlap_iff_horiz_vert:
  "mtk_rectangle_overlap a b \<longleftrightarrow>
     mtk_rectangle_horiz_overlap a b \<and> mtk_rectangle_vert_overlap a b"
  by (auto simp: rect_defs)

lemma overlap_mono:
  "mtk_rectangle_contains_rect a b \<Longrightarrow> mtk_rectangle_overlap b c \<Longrightarrow> mtk_rectangle_overlap a c"
  by (simp add: rect_defs)

lemma adjacent_not_overlap:
  "mtk_rectangle_is_adjacent_to a b \<Longrightarrow> \<not> mtk_rectangle_overlap a b"
  by (auto simp: mtk_rectangle_is_adjacent_to_def Let_def mtk_rectangle_overlap_def
      split: if_splits)

lemma adjacent_commute:
  "mtk_rectangle_is_adjacent_to a b = mtk_rectangle_is_adjacent_to b a"
  by (auto simp: mtk_rectangle_is_adjacent_to_def Let_def)

lemma equal_iff_eq: "mtk_rectangle_equal a b \<longleftrightarrow> a = (b :: mtk_rectangle)"
  by (auto simp: mtk_rectangle_equal_def)

section \<open>Range of the machine arithmetic\<close>

text \<open>The coordinates of a rectangle and its extents stay within \<open>B\<close>. With \<open>B = 2 ^ 29\<close> no
  intermediate value of the operations leaves the range of a 32-bit \<open>int\<close>, so reading the
  C arithmetic over \<^typ>\<open>int\<close> is exact there.\<close>

definition rect_within :: "int \<Rightarrow> mtk_rectangle \<Rightarrow> bool" where
  "rect_within B r \<longleftrightarrow>
     \<bar>rect_x r\<bar> \<le> B \<and> \<bar>rect_y r\<bar> \<le> B \<and>
     0 \<le> rect_width r \<and> rect_width r \<le> B \<and> 0 \<le> rect_height r \<and> rect_height r \<le> B"

definition int32 :: "int \<Rightarrow> bool" where
  "int32 v \<longleftrightarrow> - (2 ^ 31) \<le> v \<and> v < 2 ^ 31"

definition rect_int32 :: "mtk_rectangle \<Rightarrow> bool" where
  "rect_int32 r \<longleftrightarrow> int32 (rect_x r) \<and> int32 (rect_y r) \<and>
     int32 (rect_width r) \<and> int32 (rect_height r) \<and> int32 (box_right r) \<and> int32 (box_bottom r)"

lemma union_within:
  "rect_within B a \<Longrightarrow> rect_within B b \<Longrightarrow> rect_within (3 * B) (mtk_rectangle_union a b)"
  unfolding rect_within_def mtk_rectangle_union_def Let_def by (auto simp: abs_le_iff)

lemma intersect_within:
  "rect_within B a \<Longrightarrow> rect_within B b \<Longrightarrow> rect_within B d \<Longrightarrow>
   rect_within (3 * B) (snd (mtk_rectangle_intersect a b d))"
  unfolding rect_within_def mtk_rectangle_intersect_def Let_def
  by (auto simp: abs_le_iff min_def max_def)

lemma rect_within_int32: "rect_within B r \<Longrightarrow> 2 * B < 2 ^ 31 \<Longrightarrow> rect_int32 r"
  unfolding rect_within_def rect_int32_def int32_def box_defs by (auto simp: abs_le_iff)

end
