(* ===== verification/Mtk_Transform.thy ===== *)
theory Mtk_Transform
  imports Mtk_Rectangle
begin

text \<open>
  Monitor transforms: the eight-element enumeration of
  \<open>mutter/mtk/mtk/mtk-monitor-transform.h\<close>, its composition and inverse, the action on
  points and on rectangles, and the textual names. The matrix form
  (\<open>mtk_monitor_transform_transform_matrix\<close>) only drives graphene and is not modelled.
\<close>

section \<open>The enumeration\<close>

datatype mtk_monitor_transform =
    MTK_MONITOR_TRANSFORM_NORMAL
  | MTK_MONITOR_TRANSFORM_90
  | MTK_MONITOR_TRANSFORM_180
  | MTK_MONITOR_TRANSFORM_270
  | MTK_MONITOR_TRANSFORM_FLIPPED
  | MTK_MONITOR_TRANSFORM_FLIPPED_90
  | MTK_MONITOR_TRANSFORM_FLIPPED_180
  | MTK_MONITOR_TRANSFORM_FLIPPED_270

text \<open>The C enumerators are the integers 0 to 7; the code computes with them.\<close>

fun transform_index :: "mtk_monitor_transform \<Rightarrow> nat" where
  "transform_index MTK_MONITOR_TRANSFORM_NORMAL = 0"
| "transform_index MTK_MONITOR_TRANSFORM_90 = 1"
| "transform_index MTK_MONITOR_TRANSFORM_180 = 2"
| "transform_index MTK_MONITOR_TRANSFORM_270 = 3"
| "transform_index MTK_MONITOR_TRANSFORM_FLIPPED = 4"
| "transform_index MTK_MONITOR_TRANSFORM_FLIPPED_90 = 5"
| "transform_index MTK_MONITOR_TRANSFORM_FLIPPED_180 = 6"
| "transform_index MTK_MONITOR_TRANSFORM_FLIPPED_270 = 7"

definition all_transforms :: "mtk_monitor_transform list" where
  "all_transforms =
     [MTK_MONITOR_TRANSFORM_NORMAL, MTK_MONITOR_TRANSFORM_90, MTK_MONITOR_TRANSFORM_180,
      MTK_MONITOR_TRANSFORM_270, MTK_MONITOR_TRANSFORM_FLIPPED, MTK_MONITOR_TRANSFORM_FLIPPED_90,
      MTK_MONITOR_TRANSFORM_FLIPPED_180, MTK_MONITOR_TRANSFORM_FLIPPED_270]"

definition transform_of_index :: "nat \<Rightarrow> mtk_monitor_transform" where
  "transform_of_index i = all_transforms ! i"

instantiation mtk_monitor_transform :: linorder
begin

definition less_eq_mtk_monitor_transform ::
  "mtk_monitor_transform \<Rightarrow> mtk_monitor_transform \<Rightarrow> bool" where
  "less_eq_mtk_monitor_transform a b \<longleftrightarrow> transform_index a \<le> transform_index b"

definition less_mtk_monitor_transform ::
  "mtk_monitor_transform \<Rightarrow> mtk_monitor_transform \<Rightarrow> bool" where
  "less_mtk_monitor_transform a b \<longleftrightarrow> transform_index a < transform_index b"

instance
proof
  fix a b :: mtk_monitor_transform
  show "a \<le> b \<Longrightarrow> b \<le> a \<Longrightarrow> a = b"
    by (cases a; cases b; simp add: less_eq_mtk_monitor_transform_def)
qed (auto simp: less_eq_mtk_monitor_transform_def less_mtk_monitor_transform_def)

end

definition mtk_monitor_transform_is_rotated :: "mtk_monitor_transform \<Rightarrow> bool" where
  "mtk_monitor_transform_is_rotated t \<longleftrightarrow> transform_index t mod 2 \<noteq> 0"

definition mtk_monitor_transform_is_flipped :: "mtk_monitor_transform \<Rightarrow> bool" where
  "mtk_monitor_transform_is_flipped t \<longleftrightarrow> t \<ge> MTK_MONITOR_TRANSFORM_FLIPPED"

fun mtk_monitor_transform_invert :: "mtk_monitor_transform \<Rightarrow> mtk_monitor_transform" where
  "mtk_monitor_transform_invert MTK_MONITOR_TRANSFORM_90 = MTK_MONITOR_TRANSFORM_270"
| "mtk_monitor_transform_invert MTK_MONITOR_TRANSFORM_270 = MTK_MONITOR_TRANSFORM_90"
| "mtk_monitor_transform_invert t = t"

fun mtk_monitor_transform_flip :: "mtk_monitor_transform \<Rightarrow> mtk_monitor_transform" where
  "mtk_monitor_transform_flip MTK_MONITOR_TRANSFORM_NORMAL = MTK_MONITOR_TRANSFORM_FLIPPED"
| "mtk_monitor_transform_flip MTK_MONITOR_TRANSFORM_90 = MTK_MONITOR_TRANSFORM_FLIPPED_270"
| "mtk_monitor_transform_flip MTK_MONITOR_TRANSFORM_180 = MTK_MONITOR_TRANSFORM_FLIPPED_180"
| "mtk_monitor_transform_flip MTK_MONITOR_TRANSFORM_270 = MTK_MONITOR_TRANSFORM_FLIPPED_90"
| "mtk_monitor_transform_flip MTK_MONITOR_TRANSFORM_FLIPPED = MTK_MONITOR_TRANSFORM_NORMAL"
| "mtk_monitor_transform_flip MTK_MONITOR_TRANSFORM_FLIPPED_90 = MTK_MONITOR_TRANSFORM_270"
| "mtk_monitor_transform_flip MTK_MONITOR_TRANSFORM_FLIPPED_180 = MTK_MONITOR_TRANSFORM_180"
| "mtk_monitor_transform_flip MTK_MONITOR_TRANSFORM_FLIPPED_270 = MTK_MONITOR_TRANSFORM_90"

definition mtk_monitor_transform_transform ::
  "mtk_monitor_transform \<Rightarrow> mtk_monitor_transform \<Rightarrow> mtk_monitor_transform" where
  "mtk_monitor_transform_transform t other =
     (let new_transform =
            (if mtk_monitor_transform_is_flipped other then mtk_monitor_transform_flip t else t);
          needs_flip = mtk_monitor_transform_is_flipped new_transform;
          n = (transform_index new_transform + transform_index other)
                mod transform_index MTK_MONITOR_TRANSFORM_FLIPPED
      in transform_of_index
           (if needs_flip then n + transform_index MTK_MONITOR_TRANSFORM_FLIPPED else n))"

section \<open>The action on points and rectangles\<close>

text \<open>The in/out parameters \<open>(area_width, area_height, point_x, point_y)\<close> are a tuple.\<close>

fun mtk_monitor_transform_transform_point ::
  "mtk_monitor_transform \<Rightarrow> int \<times> int \<times> int \<times> int \<Rightarrow> int \<times> int \<times> int \<times> int" where
  "mtk_monitor_transform_transform_point MTK_MONITOR_TRANSFORM_NORMAL (w, h, px, py) =
     (w, h, px, py)"
| "mtk_monitor_transform_transform_point MTK_MONITOR_TRANSFORM_90 (w, h, px, py) =
     (h, w, py, w - px)"
| "mtk_monitor_transform_transform_point MTK_MONITOR_TRANSFORM_180 (w, h, px, py) =
     (w, h, w - px, h - py)"
| "mtk_monitor_transform_transform_point MTK_MONITOR_TRANSFORM_270 (w, h, px, py) =
     (h, w, h - py, px)"
| "mtk_monitor_transform_transform_point MTK_MONITOR_TRANSFORM_FLIPPED (w, h, px, py) =
     (w, h, w - px, py)"
| "mtk_monitor_transform_transform_point MTK_MONITOR_TRANSFORM_FLIPPED_90 (w, h, px, py) =
     (h, w, py, px)"
| "mtk_monitor_transform_transform_point MTK_MONITOR_TRANSFORM_FLIPPED_180 (w, h, px, py) =
     (w, h, px, h - py)"
| "mtk_monitor_transform_transform_point MTK_MONITOR_TRANSFORM_FLIPPED_270 (w, h, px, py) =
     (h, w, h - py, w - px)"

fun mtk_rectangle_transform ::
  "mtk_rectangle \<Rightarrow> mtk_monitor_transform \<Rightarrow> int \<Rightarrow> int \<Rightarrow> mtk_rectangle" where
  "mtk_rectangle_transform r MTK_MONITOR_TRANSFORM_NORMAL w h = r"
| "mtk_rectangle_transform r MTK_MONITOR_TRANSFORM_90 w h =
     \<lparr>rect_x = rect_y r, rect_y = h - (rect_x r + rect_width r),
      rect_width = rect_height r, rect_height = rect_width r\<rparr>"
| "mtk_rectangle_transform r MTK_MONITOR_TRANSFORM_180 w h =
     \<lparr>rect_x = w - (rect_x r + rect_width r), rect_y = h - (rect_y r + rect_height r),
      rect_width = rect_width r, rect_height = rect_height r\<rparr>"
| "mtk_rectangle_transform r MTK_MONITOR_TRANSFORM_270 w h =
     \<lparr>rect_x = w - (rect_y r + rect_height r), rect_y = rect_x r,
      rect_width = rect_height r, rect_height = rect_width r\<rparr>"
| "mtk_rectangle_transform r MTK_MONITOR_TRANSFORM_FLIPPED w h =
     \<lparr>rect_x = w - (rect_x r + rect_width r), rect_y = rect_y r,
      rect_width = rect_width r, rect_height = rect_height r\<rparr>"
| "mtk_rectangle_transform r MTK_MONITOR_TRANSFORM_FLIPPED_90 w h =
     \<lparr>rect_x = rect_y r, rect_y = rect_x r,
      rect_width = rect_height r, rect_height = rect_width r\<rparr>"
| "mtk_rectangle_transform r MTK_MONITOR_TRANSFORM_FLIPPED_180 w h =
     \<lparr>rect_x = rect_x r, rect_y = h - (rect_y r + rect_height r),
      rect_width = rect_width r, rect_height = rect_height r\<rparr>"
| "mtk_rectangle_transform r MTK_MONITOR_TRANSFORM_FLIPPED_270 w h =
     \<lparr>rect_x = w - (rect_y r + rect_height r), rect_y = h - (rect_x r + rect_width r),
      rect_width = rect_height r, rect_height = rect_width r\<rparr>"

section \<open>Names\<close>

fun mtk_monitor_transform_to_string :: "mtk_monitor_transform \<Rightarrow> string" where
  "mtk_monitor_transform_to_string MTK_MONITOR_TRANSFORM_90 = ''90''"
| "mtk_monitor_transform_to_string MTK_MONITOR_TRANSFORM_270 = ''270''"
| "mtk_monitor_transform_to_string MTK_MONITOR_TRANSFORM_NORMAL = ''normal''"
| "mtk_monitor_transform_to_string MTK_MONITOR_TRANSFORM_180 = ''180''"
| "mtk_monitor_transform_to_string MTK_MONITOR_TRANSFORM_FLIPPED = ''flipped''"
| "mtk_monitor_transform_to_string MTK_MONITOR_TRANSFORM_FLIPPED_90 = ''flipped-90''"
| "mtk_monitor_transform_to_string MTK_MONITOR_TRANSFORM_FLIPPED_180 = ''flipped-180''"
| "mtk_monitor_transform_to_string MTK_MONITOR_TRANSFORM_FLIPPED_270 = ''flipped-270''"

text \<open>An unknown name reaches \<open>g_assert_not_reached\<close>: the abort is \<^const>\<open>None\<close>.\<close>

definition mtk_monitor_transform_from_string :: "string \<Rightarrow> mtk_monitor_transform option" where
  "mtk_monitor_transform_from_string name =
     (if name = ''90'' then Some MTK_MONITOR_TRANSFORM_90
      else if name = ''270'' then Some MTK_MONITOR_TRANSFORM_270
      else if name = ''normal'' then Some MTK_MONITOR_TRANSFORM_NORMAL
      else if name = ''180'' then Some MTK_MONITOR_TRANSFORM_180
      else if name = ''flipped'' then Some MTK_MONITOR_TRANSFORM_FLIPPED
      else if name = ''flipped-90'' then Some MTK_MONITOR_TRANSFORM_FLIPPED_90
      else if name = ''flipped-180'' then Some MTK_MONITOR_TRANSFORM_FLIPPED_180
      else if name = ''flipped-270'' then Some MTK_MONITOR_TRANSFORM_FLIPPED_270
      else None)"

section \<open>The transforms act as a group\<close>

text \<open>The interface a user of transforms relies on: an operation set with a neutral element,
  an inverse and an action, in which composition acts as one transform after the other.\<close>

locale transform_action =
  fixes comp :: "'t \<Rightarrow> 't \<Rightarrow> 't" and unit :: 't and inv :: "'t \<Rightarrow> 't"
    and act :: "'t \<Rightarrow> 'p \<Rightarrow> 'p"
  assumes comp_unit: "comp unit t = t"
    and comp_inv: "comp t (inv t) = unit"
    and act_unit: "act unit p = p"
    and act_comp: "act (comp s t) p = act t (act s p)"
begin

lemma act_inv_left: "act (inv t) (act t p) = p"
  by (simp add: comp_inv act_unit flip: act_comp)

lemma act_injective: "act t p = act t q \<Longrightarrow> p = q"
  by (metis act_inv_left)

end

lemma is_flipped_simps [simp]:
  "mtk_monitor_transform_is_flipped t \<longleftrightarrow> 4 \<le> transform_index t"
  by (simp add: mtk_monitor_transform_is_flipped_def less_eq_mtk_monitor_transform_def)

lemmas transform_eval = mtk_monitor_transform_transform_def transform_of_index_def
  all_transforms_def Let_def

lemma transform_point_comp:
  "mtk_monitor_transform_transform_point (mtk_monitor_transform_transform s t) p =
   mtk_monitor_transform_transform_point t (mtk_monitor_transform_transform_point s p)"
  by (cases p; cases s; cases t; simp add: transform_eval)

lemma transform_comp_inv:
  "mtk_monitor_transform_transform t (mtk_monitor_transform_invert t) =
   MTK_MONITOR_TRANSFORM_NORMAL"
  by (cases t; simp add: transform_eval)

lemma transform_comp_unit:
  "mtk_monitor_transform_transform MTK_MONITOR_TRANSFORM_NORMAL t = t"
  by (cases t; simp add: transform_eval)

interpretation mtf: transform_action mtk_monitor_transform_transform
  MTK_MONITOR_TRANSFORM_NORMAL mtk_monitor_transform_invert mtk_monitor_transform_transform_point
proof
  fix p :: "int \<times> int \<times> int \<times> int"
  show "mtk_monitor_transform_transform_point MTK_MONITOR_TRANSFORM_NORMAL p = p"
    by (cases p) simp
qed (rule transform_comp_unit transform_comp_inv transform_point_comp)+

text \<open>Composition is associative because one probe point already tells all transforms
  apart.\<close>

locale faithful_action = transform_action +
  fixes probe :: 'b
  assumes faithful: "act s probe = act t probe \<Longrightarrow> s = t"
begin

lemma comp_assoc: "comp (comp s t) u = comp s (comp t u)"
  by (rule faithful) (simp add: act_comp)

lemma comp_inv_left: "comp (inv t) t = unit"
proof (rule faithful)
  have "act t (act (inv t) probe) = act t (act (inv t) (act t (act (inv t) probe)))"
    by (simp add: act_inv_left)
  then have "act (inv t) probe = act (inv t) (act t (act (inv t) probe))"
    by (rule act_injective)
  then have "act t (act (inv t) probe) = probe"
    by (metis act_comp act_inv_left comp_inv)
  then show "act (comp (inv t) t) probe = act unit probe"
    by (simp add: act_comp act_unit)
qed

end

interpretation mtf: faithful_action mtk_monitor_transform_transform
  MTK_MONITOR_TRANSFORM_NORMAL mtk_monitor_transform_invert mtk_monitor_transform_transform_point
  "(5, 7, 1, 2)"
proof
  fix s t :: mtk_monitor_transform
  assume "mtk_monitor_transform_transform_point s (5, 7, 1, 2) =
    mtk_monitor_transform_transform_point t (5, 7, 1, 2)"
  then show "s = t" by (cases s; cases t; simp)
qed

lemma rect_transform_comp_dims:
  "mtk_rectangle_transform
     (mtk_rectangle_transform r t
        (if mtk_monitor_transform_is_rotated t then h else w)
        (if mtk_monitor_transform_is_rotated t then w else h))
     (mtk_monitor_transform_invert t) w h = r"
  by (cases t) (simp_all add: mtk_monitor_transform_is_rotated_def)

end
