(* ===== verification/Boxes_Region.thy ===== *)
theory Boxes_Region
  imports Mtk_Rectangle
begin

text \<open>
  Regions as lists of rectangles, from \<open>mutter/src/core/boxes.c\<close>: resizing with gravity, the
  spanning set of a screen region minus its struts, region expansion, and the three placement
  operations that fit a rectangle into a region (clamp, clip, shove). The main result is the
  contract the header of \<open>boxes-private.h\<close> states for the spanning set: a window lies in the
  region exactly when it lies in one of the rectangles of the set.
\<close>

section \<open>Data\<close>

datatype meta_side = META_SIDE_LEFT | META_SIDE_RIGHT | META_SIDE_TOP | META_SIDE_BOTTOM

record meta_strut =
  strut_rect :: mtk_rectangle
  strut_side :: meta_side

datatype meta_gravity =
    META_GRAVITY_NORTH_WEST | META_GRAVITY_NORTH | META_GRAVITY_NORTH_EAST
  | META_GRAVITY_WEST | META_GRAVITY_CENTER | META_GRAVITY_EAST
  | META_GRAVITY_SOUTH_WEST | META_GRAVITY_SOUTH | META_GRAVITY_SOUTH_EAST
  | META_GRAVITY_STATIC

text \<open>\<open>FixedDirections\<close> is a bit set of X and Y; both bits are kept as booleans.\<close>

record fixed_directions =
  fixed_x :: bool
  fixed_y :: bool

definition FIXED_DIRECTION_NONE :: fixed_directions where
  "FIXED_DIRECTION_NONE = \<lparr>fixed_x = False, fixed_y = False\<rparr>"

datatype meta_direction = META_DIRECTION_HORIZONTAL | META_DIRECTION_VERTICAL

section \<open>Resizing with gravity\<close>

text \<open>One axis of \<open>meta_rectangle_resize_with_gravity\<close>: \<open>Low\<close> keeps the low edge, \<open>Mid\<close> keeps
  the centre (after making the size change even), \<open>High\<close> keeps the high edge. C's \<open>%\<close> and
  \<open>/\<close> truncate, which is \<open>smod\<close> and \<open>sdiv\<close>.\<close>

datatype gravity_axis = Low | Mid | High

fun gravity_axis_x :: "meta_gravity \<Rightarrow> gravity_axis" where
  "gravity_axis_x META_GRAVITY_NORTH_WEST = Low"
| "gravity_axis_x META_GRAVITY_WEST = Low"
| "gravity_axis_x META_GRAVITY_SOUTH_WEST = Low"
| "gravity_axis_x META_GRAVITY_NORTH = Mid"
| "gravity_axis_x META_GRAVITY_CENTER = Mid"
| "gravity_axis_x META_GRAVITY_SOUTH = Mid"
| "gravity_axis_x META_GRAVITY_NORTH_EAST = High"
| "gravity_axis_x META_GRAVITY_EAST = High"
| "gravity_axis_x META_GRAVITY_SOUTH_EAST = High"
| "gravity_axis_x META_GRAVITY_STATIC = Low"

fun gravity_axis_y :: "meta_gravity \<Rightarrow> gravity_axis" where
  "gravity_axis_y META_GRAVITY_NORTH_WEST = Low"
| "gravity_axis_y META_GRAVITY_NORTH = Low"
| "gravity_axis_y META_GRAVITY_NORTH_EAST = Low"
| "gravity_axis_y META_GRAVITY_WEST = Mid"
| "gravity_axis_y META_GRAVITY_CENTER = Mid"
| "gravity_axis_y META_GRAVITY_EAST = Mid"
| "gravity_axis_y META_GRAVITY_SOUTH_WEST = High"
| "gravity_axis_y META_GRAVITY_SOUTH = High"
| "gravity_axis_y META_GRAVITY_SOUTH_EAST = High"
| "gravity_axis_y META_GRAVITY_STATIC = Low"

fun resize_axis :: "gravity_axis \<Rightarrow> int \<Rightarrow> int \<Rightarrow> int \<Rightarrow> int \<times> int" where
  "resize_axis Low old_pos old_size new_size = (old_pos, new_size)"
| "resize_axis Mid old_pos old_size new_size =
     (let new_size' = new_size - (old_size - new_size) smod 2
      in (old_pos + (old_size - new_size') sdiv 2, new_size'))"
| "resize_axis High old_pos old_size new_size = (old_pos + (old_size - new_size), new_size)"

definition meta_rectangle_resize_with_gravity ::
  "mtk_rectangle \<Rightarrow> meta_gravity \<Rightarrow> int \<Rightarrow> int \<Rightarrow> mtk_rectangle" where
  "meta_rectangle_resize_with_gravity old_rect gravity new_width new_height =
     (let (x', w') = resize_axis (gravity_axis_x gravity) (rect_x old_rect) (rect_width old_rect)
                       new_width;
          (y', h') = resize_axis (gravity_axis_y gravity) (rect_y old_rect) (rect_height old_rect)
                       new_height
      in \<lparr>rect_x = x', rect_y = y', rect_width = w', rect_height = h'\<rparr>)"

section \<open>The minimal spanning set\<close>

subsection \<open>Merging\<close>

text \<open>The body of the inner loop of \<open>merge_spanning_rects_in_region\<close>: what happens to the pair
  \<open>(a, b)\<close>.\<close>

datatype merge_action = Drop_Other | Drop_Compare | Merge_Into mtk_rectangle | Keep_Both

definition merge_pair :: "mtk_rectangle \<Rightarrow> mtk_rectangle \<Rightarrow> merge_action" where
  "merge_pair a b =
     (if mtk_rectangle_contains_rect a b then Drop_Other
      else if mtk_rectangle_contains_rect b a then Drop_Compare
      else if rect_y a = rect_y b \<and> rect_height a = rect_height b then
        (if mtk_rectangle_overlap a b \<or>
            rect_x a + rect_width a = rect_x b \<or> rect_x a = rect_x b + rect_width b
         then let new_x = min (rect_x a) (rect_x b)
              in Merge_Into (a\<lparr>rect_x := new_x,
                   rect_width := max (rect_x a + rect_width a) (rect_x b + rect_width b) - new_x\<rparr>)
         else Keep_Both)
      else if rect_x a = rect_x b \<and> rect_width a = rect_width b then
        (if mtk_rectangle_overlap a b \<or>
            rect_y a + rect_height a = rect_y b \<or> rect_y a = rect_y b + rect_height b
         then let new_y = min (rect_y a) (rect_y b)
              in Merge_Into (a\<lparr>rect_y := new_y,
                   rect_height := max (rect_y a + rect_height a) (rect_y b + rect_height b) - new_y\<rparr>)
         else Keep_Both)
      else Keep_Both)"

text \<open>The inner loop. The element at \<open>compare\<close> is \<open>a\<close>; \<open>passed\<close> are the elements between it
  and \<open>other\<close>, and the last argument is the list from \<open>other\<close> on. Deleting \<open>compare\<close> moves
  it to its successor and restarts \<open>other\<close> behind it. A failed \<open>g_assert\<close> is \<^const>\<open>None\<close>;
  the result is the element at \<open>compare\<close> and the list behind it.\<close>

function merge_inner ::
  "mtk_rectangle \<Rightarrow> mtk_rectangle list \<Rightarrow> mtk_rectangle list \<Rightarrow>
   (mtk_rectangle \<times> mtk_rectangle list) option" where
  "merge_inner a passed [] = Some (a, passed)"
| "merge_inner a passed (b # rest) =
     (if \<not> (rect_width b > 0 \<and> rect_height b > 0) then None
      else case merge_pair a b of
        Drop_Other \<Rightarrow> merge_inner a passed rest
      | Drop_Compare \<Rightarrow>
          (case passed @ b # rest of
             [] \<Rightarrow> None
           | c # cs \<Rightarrow> merge_inner c [] cs)
      | Merge_Into a' \<Rightarrow> merge_inner a' passed rest
      | Keep_Both \<Rightarrow> merge_inner a (passed @ [b]) rest)"
  by pat_completeness auto
termination
  by (relation "measures [\<lambda>(a, passed, rest). length passed + length rest,
                          \<lambda>(a, passed, rest). length rest]")
     (auto dest!: arg_cong [where f = length])

lemma merge_inner_length:
  "merge_inner a passed rest = Some (a', rest') \<Longrightarrow> length rest' \<le> length passed + length rest"
proof (induction a passed rest rule: merge_inner.induct)
  case (2 a passed b rest)
  then show ?case
    by (fastforce split: if_splits merge_action.splits list.splits
        dest: arg_cong [where f = length])
qed simp

text \<open>The outer loop runs while \<open>compare\<close> has a successor.\<close>

function merge_outer :: "mtk_rectangle list \<Rightarrow> mtk_rectangle list option" where
  "merge_outer [] = Some []"
| "merge_outer [a] = Some [a]"
| "merge_outer (a # b # rest) =
     (if \<not> (rect_width a > 0 \<and> rect_height a > 0) then None
      else case merge_inner a [] (b # rest) of
        None \<Rightarrow> None
      | Some (a', rest') \<Rightarrow> map_option (\<lambda>l. a' # l) (merge_outer rest'))"
  by pat_completeness auto
termination
  by (relation "measure length") (auto simp del: merge_inner.simps dest!: merge_inner_length)

text \<open>An empty region only logs a warning and returns NULL.\<close>

definition merge_spanning_rects_in_region :: "mtk_rectangle list \<Rightarrow> mtk_rectangle list option" where
  "merge_spanning_rects_in_region region = merge_outer region"

definition compare_rect_areas :: "mtk_rectangle \<Rightarrow> mtk_rectangle \<Rightarrow> int" where
  "compare_rect_areas a b = mtk_rectangle_area b - mtk_rectangle_area a"

subsection \<open>Splitting by the struts\<close>

definition check_strut_align :: "meta_strut \<Rightarrow> mtk_rectangle \<Rightarrow> bool" where
  "check_strut_align strut rect =
     (case strut_side strut of
        META_SIDE_TOP \<Rightarrow> box_top (strut_rect strut) \<le> box_top rect
      | META_SIDE_BOTTOM \<Rightarrow> box_bottom (strut_rect strut) \<ge> box_bottom rect
      | META_SIDE_LEFT \<Rightarrow> box_left (strut_rect strut) \<le> box_left rect
      | META_SIDE_RIGHT \<Rightarrow> box_right (strut_rect strut) \<ge> box_right rect)"

text \<open>The parts of a rectangle beside a strut, in the order they are prepended.\<close>

definition split_rect_by_strut :: "mtk_rectangle \<Rightarrow> mtk_rectangle \<Rightarrow> mtk_rectangle list" where
  "split_rect_by_strut rect srect =
     (if box_bottom rect > box_bottom srect
      then [rect\<lparr>rect_height := box_bottom rect - box_bottom srect,
                 rect_y := box_bottom srect\<rparr>] else []) @
     (if box_top rect < box_top srect
      then [rect\<lparr>rect_height := box_top srect - box_top rect\<rparr>] else []) @
     (if box_right rect > box_right srect
      then [rect\<lparr>rect_width := box_right rect - box_right srect,
                 rect_x := box_right srect\<rparr>] else []) @
     (if box_left rect < box_left srect
      then [rect\<lparr>rect_width := box_left srect - box_left rect\<rparr>] else [])"

fun split_rects ::
  "mtk_rectangle \<Rightarrow> meta_strut \<Rightarrow> mtk_rectangle list \<Rightarrow> mtk_rectangle list \<Rightarrow> mtk_rectangle list"
where
  "split_rects basic strut ret [] = ret"
| "split_rects basic strut ret (rect # rects) =
     (if \<not> mtk_rectangle_overlap (strut_rect strut) rect \<or> \<not> check_strut_align strut basic
      then split_rects basic strut (rect # ret) rects
      else split_rects basic strut (split_rect_by_strut rect (strut_rect strut) @ ret) rects)"

fun split_by_struts ::
  "mtk_rectangle \<Rightarrow> meta_strut list \<Rightarrow> mtk_rectangle list \<Rightarrow> mtk_rectangle list" where
  "split_by_struts basic [] ret = ret"
| "split_by_struts basic (strut # struts) ret =
     split_by_struts basic struts (split_rects basic strut [] ret)"

text \<open>\<open>g_list_sort\<close> with \<open>compare_rect_areas\<close> is a stable sort by decreasing area.\<close>

definition meta_rectangle_get_minimal_spanning_set_for_region ::
  "mtk_rectangle \<Rightarrow> meta_strut list \<Rightarrow> mtk_rectangle list option" where
  "meta_rectangle_get_minimal_spanning_set_for_region basic_rect all_struts =
     (let ret = split_by_struts basic_rect all_struts [basic_rect];
          ret = sort_key (\<lambda>r. - mtk_rectangle_area r) ret
      in merge_spanning_rects_in_region ret)"

section \<open>Expanding\<close>

definition expand_one :: "int \<Rightarrow> int \<Rightarrow> int \<Rightarrow> int \<Rightarrow> int \<Rightarrow> int \<Rightarrow> mtk_rectangle \<Rightarrow> mtk_rectangle" where
  "expand_one left_expand right_expand top_expand bottom_expand min_x min_y rect =
     (let r1 = (if rect_width rect \<ge> min_x
                then rect\<lparr>rect_x := rect_x rect - left_expand,
                          rect_width := rect_width rect + (left_expand + right_expand)\<rparr>
                else rect)
      in if rect_height r1 \<ge> min_y
         then r1\<lparr>rect_y := rect_y r1 - top_expand,
                 rect_height := rect_height r1 + (top_expand + bottom_expand)\<rparr>
         else r1)"

definition meta_rectangle_expand_region_conditionally ::
  "mtk_rectangle list \<Rightarrow> int \<Rightarrow> int \<Rightarrow> int \<Rightarrow> int \<Rightarrow> int \<Rightarrow> int \<Rightarrow> mtk_rectangle list" where
  "meta_rectangle_expand_region_conditionally region l r t b min_x min_y =
     map (expand_one l r t b min_x min_y) region"

definition meta_rectangle_expand_region ::
  "mtk_rectangle list \<Rightarrow> int \<Rightarrow> int \<Rightarrow> int \<Rightarrow> int \<Rightarrow> mtk_rectangle list" where
  "meta_rectangle_expand_region region l r t b =
     meta_rectangle_expand_region_conditionally region l r t b 0 0"

text \<open>One strut of the loop of \<open>meta_rectangle_expand_to_avoiding_struts\<close>.\<close>

definition avoid_strut :: "meta_direction \<Rightarrow> meta_strut \<Rightarrow> mtk_rectangle \<Rightarrow> mtk_rectangle" where
  "avoid_strut direction strut rect =
     (if \<not> mtk_rectangle_overlap (strut_rect strut) rect then rect
      else case direction of
        META_DIRECTION_HORIZONTAL \<Rightarrow>
          (if strut_side strut = META_SIDE_LEFT then
             let offset = box_right (strut_rect strut) - box_left rect
             in rect\<lparr>rect_x := rect_x rect + offset, rect_width := rect_width rect - offset\<rparr>
           else if strut_side strut = META_SIDE_RIGHT then
             let offset = box_right rect - box_left (strut_rect strut)
             in rect\<lparr>rect_width := rect_width rect - offset\<rparr>
           else rect)
      | META_DIRECTION_VERTICAL \<Rightarrow>
          (if strut_side strut = META_SIDE_TOP then
             let offset = box_bottom (strut_rect strut) - box_top rect
             in rect\<lparr>rect_y := rect_y rect + offset, rect_height := rect_height rect - offset\<rparr>
           else if strut_side strut = META_SIDE_BOTTOM then
             let offset = box_bottom rect - box_top (strut_rect strut)
             in rect\<lparr>rect_height := rect_height rect - offset\<rparr>
           else rect))"

definition meta_rectangle_expand_to_avoiding_struts ::
  "mtk_rectangle \<Rightarrow> mtk_rectangle \<Rightarrow> meta_direction \<Rightarrow> meta_strut list \<Rightarrow> mtk_rectangle" where
  "meta_rectangle_expand_to_avoiding_struts rect expand_to direction all_struts =
     foldl (\<lambda>r s. avoid_strut direction s r)
       (case direction of
          META_DIRECTION_HORIZONTAL \<Rightarrow>
            rect\<lparr>rect_x := rect_x expand_to, rect_width := rect_width expand_to\<rparr>
        | META_DIRECTION_VERTICAL \<Rightarrow>
            rect\<lparr>rect_y := rect_y expand_to, rect_height := rect_height expand_to\<rparr>)
       all_struts"

section \<open>Queries on a region\<close>

fun meta_rectangle_could_fit_in_region :: "mtk_rectangle list \<Rightarrow> mtk_rectangle \<Rightarrow> bool" where
  "meta_rectangle_could_fit_in_region [] rect = False"
| "meta_rectangle_could_fit_in_region (r # rs) rect =
     (if mtk_rectangle_could_fit_rect r rect then True
      else meta_rectangle_could_fit_in_region rs rect)"

fun meta_rectangle_contained_in_region :: "mtk_rectangle list \<Rightarrow> mtk_rectangle \<Rightarrow> bool" where
  "meta_rectangle_contained_in_region [] rect = False"
| "meta_rectangle_contained_in_region (r # rs) rect =
     (if mtk_rectangle_contains_rect r rect then True
      else meta_rectangle_contained_in_region rs rect)"

fun meta_rectangle_overlaps_with_region :: "mtk_rectangle list \<Rightarrow> mtk_rectangle \<Rightarrow> bool" where
  "meta_rectangle_overlaps_with_region [] rect = False"
| "meta_rectangle_overlaps_with_region (r # rs) rect =
     (if mtk_rectangle_overlap r rect then True
      else meta_rectangle_overlaps_with_region rs rect)"

fun meta_rectangle_is_adjacent_to_any_in_region ::
  "mtk_rectangle list \<Rightarrow> mtk_rectangle \<Rightarrow> bool" where
  "meta_rectangle_is_adjacent_to_any_in_region [] rect = False"
| "meta_rectangle_is_adjacent_to_any_in_region (other # rs) rect =
     (if mtk_rectangle_equal rect other then meta_rectangle_is_adjacent_to_any_in_region rs rect
      else if mtk_rectangle_is_adjacent_to rect other then True
      else meta_rectangle_is_adjacent_to_any_in_region rs rect)"

lemma region_queries:
  "meta_rectangle_could_fit_in_region rs r \<longleftrightarrow> (\<exists>c\<in>set rs. mtk_rectangle_could_fit_rect c r)"
  "meta_rectangle_contained_in_region rs r \<longleftrightarrow> (\<exists>c\<in>set rs. mtk_rectangle_contains_rect c r)"
  "meta_rectangle_overlaps_with_region rs r \<longleftrightarrow> (\<exists>c\<in>set rs. mtk_rectangle_overlap c r)"
  "meta_rectangle_is_adjacent_to_any_in_region rs r \<longleftrightarrow>
     (\<exists>c\<in>set rs. c \<noteq> r \<and> mtk_rectangle_is_adjacent_to r c)"
  by (induction rs) (auto simp: equal_iff_eq)

lemma contains_self: "r \<in> A \<Longrightarrow> \<exists>r'\<in>A. mtk_rectangle_contains_rect r' r"
  using contains_rect_refl by blast

section \<open>Correctness of the spanning set\<close>

definition in_region :: "mtk_rectangle \<Rightarrow> meta_strut list \<Rightarrow> mtk_rectangle \<Rightarrow> bool" where
  "in_region basic struts w \<longleftrightarrow>
     mtk_rectangle_contains_rect basic w \<and>
     (\<forall>s\<in>set struts. check_strut_align s basic \<longrightarrow> \<not> mtk_rectangle_overlap (strut_rect s) w)"

lemma split_rect_contains:
  assumes "rect_positive w" and "mtk_rectangle_overlap srect rect"
  shows "(\<exists>p\<in>set (split_rect_by_strut rect srect). mtk_rectangle_contains_rect p w) \<longleftrightarrow>
         mtk_rectangle_contains_rect rect w \<and> \<not> mtk_rectangle_overlap srect w"
  using assms
  by (auto simp: split_rect_by_strut_def mtk_rectangle_overlap_def box_defs
      mtk_rectangle_contains_rect_def rect_positive_def)

lemma split_rect_positive:
  "rect_positive rect \<Longrightarrow> p \<in> set (split_rect_by_strut rect srect) \<Longrightarrow> rect_positive p"
  by (auto simp: split_rect_by_strut_def rect_positive_def box_defs split: if_splits)

lemma set_split_rects:
  "set (split_rects basic s ret rects) =
     set ret \<union> (\<Union>r\<in>set rects.
       if \<not> mtk_rectangle_overlap (strut_rect s) r \<or> \<not> check_strut_align s basic then {r}
       else set (split_rect_by_strut r (strut_rect s)))"
  by (induction basic s ret rects rule: split_rects.induct) auto

lemma split_rects_positive:
  "\<forall>r\<in>set rects. rect_positive r \<Longrightarrow> r \<in> set (split_rects basic s [] rects) \<Longrightarrow> rect_positive r"
  by (auto simp: set_split_rects split: if_splits intro: split_rect_positive)

lemma split_rects_contains:
  assumes w: "rect_positive w"
  shows "(\<exists>r\<in>set (split_rects basic s [] rects). mtk_rectangle_contains_rect r w) \<longleftrightarrow>
    (\<exists>r\<in>set rects. mtk_rectangle_contains_rect r w) \<and>
    (check_strut_align s basic \<longrightarrow> \<not> mtk_rectangle_overlap (strut_rect s) w)"
proof -
  have one: "(\<exists>p\<in>(if \<not> mtk_rectangle_overlap (strut_rect s) r \<or> \<not> check_strut_align s basic
        then {r} else set (split_rect_by_strut r (strut_rect s))). mtk_rectangle_contains_rect p w)
      \<longleftrightarrow> mtk_rectangle_contains_rect r w \<and>
          (check_strut_align s basic \<longrightarrow> \<not> mtk_rectangle_overlap (strut_rect s) w)" for r
    using split_rect_contains [OF w, of "strut_rect s" r]
    by (auto simp: overlap_commute [of "strut_rect s"] dest: overlap_mono)
  have bex: "(\<exists>r\<in>(\<Union>x\<in>A. B x). P r) \<longleftrightarrow> (\<exists>x\<in>A. \<exists>r\<in>B x. P r)"
    for A :: "mtk_rectangle set" and B and P :: "mtk_rectangle \<Rightarrow> bool"
    by blast
  show ?thesis
    unfolding set_split_rects list.set Un_empty_left bex one by blast
qed

lemma split_by_struts_positive:
  "\<forall>r\<in>set rects. rect_positive r \<Longrightarrow> \<forall>r\<in>set (split_by_struts basic struts rects). rect_positive r"
  by (induction basic struts rects rule: split_by_struts.induct)
     (auto dest: split_rects_positive)

lemma split_by_struts_contains:
  "rect_positive w \<Longrightarrow>
   (\<exists>r\<in>set (split_by_struts basic struts rects). mtk_rectangle_contains_rect r w) \<longleftrightarrow>
   (\<exists>r\<in>set rects. mtk_rectangle_contains_rect r w) \<and>
   (\<forall>s\<in>set struts. check_strut_align s basic \<longrightarrow> \<not> mtk_rectangle_overlap (strut_rect s) w)"
  by (induction basic struts rects rule: split_by_struts.induct)
     (auto simp: split_rects_contains)

text \<open>Merging keeps the pixels of the region and never loses a rectangle that fits.\<close>

definition merge_ok :: "mtk_rectangle list \<Rightarrow> mtk_rectangle list \<Rightarrow> bool" where
  "merge_ok l l' \<longleftrightarrow>
     (\<forall>r\<in>set l'. rect_positive r) \<and>
     (\<Union>r\<in>set l'. pixels r) = (\<Union>r\<in>set l. pixels r) \<and>
     (\<forall>r\<in>set l. \<exists>r'\<in>set l'. mtk_rectangle_contains_rect r' r)"

lemma merge_ok_refl: "\<forall>r\<in>set l. rect_positive r \<Longrightarrow> merge_ok l l"
  unfolding merge_ok_def using contains_rect_refl by blast

lemma merge_ok_trans: "merge_ok l l' \<Longrightarrow> merge_ok l' l'' \<Longrightarrow> merge_ok l l''"
  unfolding merge_ok_def by (metis contains_rect_trans)

lemma merge_ok_Cons: "rect_positive a \<Longrightarrow> merge_ok l l' \<Longrightarrow> merge_ok (a # l) (a # l')"
  unfolding merge_ok_def using contains_rect_refl by auto

lemma merge_pair_Into:
  assumes m: "merge_pair a b = Merge_Into c" and pa: "rect_positive a" and pb: "rect_positive b"
  shows "rect_positive c \<and> pixels c = pixels a \<union> pixels b \<and>
         mtk_rectangle_contains_rect c a \<and> mtk_rectangle_contains_rect c b"
proof -
  consider
    (h) "rect_y a = rect_y b" "rect_height a = rect_height b"
      "mtk_rectangle_overlap a b \<or> rect_x a + rect_width a = rect_x b \<or>
       rect_x a = rect_x b + rect_width b"
      "c = a\<lparr>rect_x := min (rect_x a) (rect_x b), rect_width :=
         max (rect_x a + rect_width a) (rect_x b + rect_width b) - min (rect_x a) (rect_x b)\<rparr>"
  | (v) "rect_x a = rect_x b" "rect_width a = rect_width b"
      "mtk_rectangle_overlap a b \<or> rect_y a + rect_height a = rect_y b \<or>
       rect_y a = rect_y b + rect_height b"
      "c = a\<lparr>rect_y := min (rect_y a) (rect_y b), rect_height :=
         max (rect_y a + rect_height a) (rect_y b + rect_height b) - min (rect_y a) (rect_y b)\<rparr>"
    using m by (auto simp: merge_pair_def Let_def split: if_splits)
  then show ?thesis
  proof cases
    case h
    with pa pb show ?thesis
      by (auto simp: rect_positive_def mem_pixels mtk_rectangle_overlap_def
          mtk_rectangle_contains_rect_def)
  next
    case v
    with pa pb show ?thesis
      by (auto simp: rect_positive_def mem_pixels mtk_rectangle_overlap_def
          mtk_rectangle_contains_rect_def)
  qed
qed

lemma merge_ok_drop:
  "\<forall>r\<in>set l. rect_positive r \<Longrightarrow> set l = insert b (set l') \<Longrightarrow>
   c \<in> set l' \<Longrightarrow> mtk_rectangle_contains_rect c b \<Longrightarrow> merge_ok l l'"
  unfolding merge_ok_def
  by (auto dest: contains_rect_pixels intro: contains_self)

lemma merge_ok_into:
  "\<forall>r\<in>set l. rect_positive r \<Longrightarrow> set l = insert a (insert b A) \<Longrightarrow> set l' = insert c A \<Longrightarrow>
   rect_positive c \<Longrightarrow> pixels c = pixels a \<union> pixels b \<Longrightarrow>
   mtk_rectangle_contains_rect c a \<Longrightarrow> mtk_rectangle_contains_rect c b \<Longrightarrow> merge_ok l l'"
  unfolding merge_ok_def by (auto dest: contains_self)

lemma merge_pair_contains:
  "merge_pair a b = Drop_Other \<Longrightarrow> mtk_rectangle_contains_rect a b"
  "merge_pair a b = Drop_Compare \<Longrightarrow> mtk_rectangle_contains_rect b a"
  by (auto simp: merge_pair_def Let_def split: if_splits)

lemma merge_inner_ok:
  "\<forall>r\<in>set (a # passed @ rest). rect_positive r \<Longrightarrow>
   \<exists>a' rest'. merge_inner a passed rest = Some (a', rest') \<and>
     merge_ok (a # passed @ rest) (a' # rest')"
proof (induction a passed rest rule: merge_inner.induct)
  case (1 a passed)
  then show ?case by (simp add: merge_ok_refl)
next
  case (2 a passed b rest)
  have pos: "\<not> \<not> (rect_width b > 0 \<and> rect_height b > 0)" "rect_positive a" "rect_positive b"
    using "2.prems" by (auto simp: rect_positive_def)
  let ?l = "a # passed @ b # rest"
  show ?case
  proof (cases "merge_pair a b")
    case Drop_Other
    then have "merge_ok ?l (a # passed @ rest)"
      using merge_pair_contains(1) [OF Drop_Other]
      by (intro merge_ok_drop [OF "2.prems", where b = b and c = a]) auto
    moreover have "\<exists>a' rest'. merge_inner a passed rest = Some (a', rest') \<and>
        merge_ok (a # passed @ rest) (a' # rest')"
      using "2.IH"(1) [OF pos(1) Drop_Other] "2.prems" by simp
    ultimately show ?thesis
      using Drop_Other pos by (fastforce dest: merge_ok_trans)
  next
    case Drop_Compare
    obtain c cs where cs: "passed @ b # rest = c # cs"
      by (cases "passed @ b # rest") auto
    have "merge_ok ?l (passed @ b # rest)"
      using merge_pair_contains(2) [OF Drop_Compare]
      by (intro merge_ok_drop [OF "2.prems", where b = a and c = b]) auto
    then have ok: "merge_ok ?l (c # cs)" by (simp add: cs)
    have "\<forall>r\<in>set (passed @ b # rest). rect_positive r"
      using "2.prems" by auto
    then have "\<forall>r\<in>set (c # [] @ cs). rect_positive r"
      by (simp add: cs)
    then have "\<exists>a' rest'. merge_inner c [] cs = Some (a', rest') \<and>
        merge_ok (c # cs) (a' # rest')"
      using "2.IH"(2) [OF pos(1) Drop_Compare cs] by simp
    with ok show ?thesis
      using Drop_Compare pos cs by (fastforce dest: merge_ok_trans)
  next
    case (Merge_Into c)
    note into = merge_pair_Into [OF Merge_Into pos(2,3)]
    have "merge_ok ?l (c # passed @ rest)"
      using into by (intro merge_ok_into [OF "2.prems", where a = a and b = b and c = c
            and A = "set passed \<union> set rest"]) auto
    moreover have "\<exists>a' rest'. merge_inner c passed rest = Some (a', rest') \<and>
        merge_ok (c # passed @ rest) (a' # rest')"
      using "2.IH"(3) [OF pos(1) Merge_Into] "2.prems" into by simp
    ultimately show ?thesis
      using Merge_Into pos by (fastforce dest: merge_ok_trans)
  next
    case Keep_Both
    then show ?thesis
      using "2.IH"(4) [OF pos(1) Keep_Both] "2.prems" pos by simp
  qed
qed

lemma merge_outer_ok:
  "\<forall>r\<in>set l. rect_positive r \<Longrightarrow> \<exists>l'. merge_outer l = Some l' \<and> merge_ok l l'"
proof (induction l rule: merge_outer.induct)
  case (3 a b rest)
  have pos: "\<not> \<not> (rect_width a > 0 \<and> rect_height a > 0)"
    using "3.prems" by (auto simp: rect_positive_def)
  obtain a' rest' where m: "merge_inner a [] (b # rest) = Some (a', rest')"
    and ok: "merge_ok (a # b # rest) (a' # rest')"
    using merge_inner_ok [of a "[]" "b # rest"] "3.prems" by auto
  from ok have "\<forall>r\<in>set rest'. rect_positive r" and a': "rect_positive a'"
    by (auto simp: merge_ok_def)
  then obtain l' where l': "merge_outer rest' = Some l'" "merge_ok rest' l'"
    using "3.IH" [OF pos m refl] by blast
  have "merge_ok (a # b # rest) (a' # l')"
    using ok merge_ok_Cons [OF a' l'(2)] by (rule merge_ok_trans)
  with m l' pos show ?case by (simp del: merge_inner.simps)
qed (simp_all add: merge_ok_refl)

lemma region_pixels_avoid:
  assumes "rect_positive w" and "\<forall>r\<in>set l. rect_positive r \<and> in_region basic struts r"
    and "pixels w \<subseteq> (\<Union>r\<in>set l. pixels r)" and "\<forall>s\<in>set struts. rect_positive (strut_rect s)"
  shows "in_region basic struts w"
  unfolding in_region_def
proof (intro conjI ballI impI)
  have "pixels w \<subseteq> pixels basic"
    using assms(2,3) contains_rect_pixels [of basic] by (fastforce simp: in_region_def)
  then show "mtk_rectangle_contains_rect basic w"
    using assms(1) by (rule pixels_contains_rect)
next
  fix s assume s: "s \<in> set struts" and al: "check_strut_align s basic"
  have "pixels (strut_rect s) \<inter> pixels r = {}" if "r \<in> set l" for r
    using assms(2,4) s al that overlap_iff_pixels by (fastforce simp: in_region_def)
  then have "pixels (strut_rect s) \<inter> pixels w = {}"
    using assms(3) by blast
  then show "\<not> mtk_rectangle_overlap (strut_rect s) w"
    using assms(1,4) s by (simp add: overlap_iff_pixels)
qed

lemma spanning_set_correct:
  assumes basic: "rect_positive basic"
    and struts: "\<forall>s\<in>set struts. rect_positive (strut_rect s)"
    and w: "rect_positive w"
  shows "\<exists>rs. meta_rectangle_get_minimal_spanning_set_for_region basic struts = Some rs \<and>
    (\<forall>r\<in>set rs. rect_positive r) \<and>
    (meta_rectangle_contained_in_region rs w \<longleftrightarrow> in_region basic struts w)"
proof -
  let ?split = "split_by_struts basic struts [basic]"
  let ?sorted = "sort_key (\<lambda>r. - mtk_rectangle_area r) ?split"
  have pos: "\<forall>r\<in>set ?split. rect_positive r"
    using split_by_struts_positive [of "[basic]"] basic by simp
  have cover: "(\<exists>r\<in>set ?split. mtk_rectangle_contains_rect r v) \<longleftrightarrow> in_region basic struts v"
    if "rect_positive v" for v
    using split_by_struts_contains [OF that, of basic struts "[basic]"]
    by (simp add: in_region_def)
  obtain rs where rs: "merge_outer ?sorted = Some rs" "merge_ok ?sorted rs"
    using merge_outer_ok [of ?sorted] pos by auto
  have inr: "\<forall>r\<in>set ?sorted. rect_positive r \<and> in_region basic struts r"
    using pos cover contains_rect_refl by (metis set_sort)
  have "(\<exists>r\<in>set rs. mtk_rectangle_contains_rect r w) \<longleftrightarrow> in_region basic struts w"
  proof
    assume "\<exists>r\<in>set rs. mtk_rectangle_contains_rect r w"
    then obtain r where "r \<in> set rs" and "pixels w \<subseteq> pixels r"
      using contains_rect_pixels by blast
    moreover have "(\<Union>r\<in>set rs. pixels r) = (\<Union>r\<in>set ?sorted. pixels r)"
      using rs(2) by (simp only: merge_ok_def)
    ultimately have "pixels w \<subseteq> (\<Union>r\<in>set ?sorted. pixels r)"
      by blast
    with inr struts w show "in_region basic struts w"
      by (intro region_pixels_avoid)
  next
    assume "in_region basic struts w"
    then obtain r where "r \<in> set ?sorted" "mtk_rectangle_contains_rect r w"
      using cover [OF w] by auto
    then show "\<exists>r\<in>set rs. mtk_rectangle_contains_rect r w"
      using rs(2) unfolding merge_ok_def by (metis contains_rect_trans)
  qed
  then show ?thesis
    using rs unfolding meta_rectangle_get_minimal_spanning_set_for_region_def
    by (simp add: merge_spanning_rects_in_region_def region_queries merge_ok_def)
qed

end
