(* ===== verification/Boxes_Place.thy ===== *)
theory Boxes_Place
  imports Boxes_Region
begin

text \<open>
  Placing a rectangle in a region, from \<open>mutter/src/core/boxes.c\<close>: clamping its size,
  clipping it, and shoving it inside, each by a search for the best rectangle of the region;
  the closest point of a line; and the facts about gravity resizing and strut-avoiding
  expansion whose definitions are in \<open>Boxes_Region\<close>.
\<close>

section \<open>The search for the best rectangle\<close>

text \<open>The candidates every search skips: a fixed direction in which the rectangle does not
  already fit.\<close>

definition fixed_misfit :: "fixed_directions \<Rightarrow> mtk_rectangle \<Rightarrow> mtk_rectangle \<Rightarrow> bool" where
  "fixed_misfit fixed rect cmp \<longleftrightarrow>
     (fixed_x fixed \<and>
        (rect_x cmp > rect_x rect \<or>
         rect_x cmp + rect_width cmp < rect_x rect + rect_width rect)) \<or>
     (fixed_y fixed \<and>
        (rect_y cmp > rect_y rect \<or>
         rect_y cmp + rect_height cmp < rect_y rect + rect_height rect))"

definition maximal_overlap_amount :: "mtk_rectangle \<Rightarrow> mtk_rectangle \<Rightarrow> int" where
  "maximal_overlap_amount rect cmp =
     min (rect_width rect) (rect_width cmp) * min (rect_height rect) (rect_height cmp)"

text \<open>The search loop of clamp and clip: the first rectangle of largest positive score.\<close>

fun best_by :: "(mtk_rectangle \<Rightarrow> bool) \<Rightarrow> (mtk_rectangle \<Rightarrow> int) \<Rightarrow>
  mtk_rectangle option \<times> int \<Rightarrow> mtk_rectangle list \<Rightarrow> mtk_rectangle option \<times> int" where
  "best_by skip score acc [] = acc"
| "best_by skip score (best_rect, best_overlap) (c # cs) =
     (if skip c then best_by skip score (best_rect, best_overlap) cs
      else if score c > best_overlap then best_by skip score (Some c, score c) cs
      else best_by skip score (best_rect, best_overlap) cs)"

section \<open>Clamp\<close>

definition meta_rectangle_clamp_to_fit_into_region ::
  "mtk_rectangle list \<Rightarrow> fixed_directions \<Rightarrow> mtk_rectangle \<Rightarrow> mtk_rectangle \<Rightarrow> mtk_rectangle"
where
  "meta_rectangle_clamp_to_fit_into_region spanning_rects fixed rect min_size =
     (case fst (best_by (\<lambda>c. fixed_misfit fixed rect c \<or>
                   rect_width c < rect_width min_size \<or> rect_height c < rect_height min_size)
                 (maximal_overlap_amount rect) (None, 0) spanning_rects) of
        None \<Rightarrow>
          (let r1 = (if \<not> fixed_x fixed then rect\<lparr>rect_width := rect_width min_size\<rparr> else rect)
           in if \<not> fixed_y fixed then r1\<lparr>rect_height := rect_height min_size\<rparr> else r1)
      | Some best \<Rightarrow>
          rect\<lparr>rect_width := min (rect_width rect) (rect_width best),
               rect_height := min (rect_height rect) (rect_height best)\<rparr>)"

section \<open>Clip\<close>

text \<open>The local \<open>overlap\<close> is uninitialised before \<open>mtk_rectangle_intersect\<close>; only its size is
  read, which the call always sets.\<close>

definition meta_rectangle_clip_to_region ::
  "mtk_rectangle list \<Rightarrow> fixed_directions \<Rightarrow> mtk_rectangle \<Rightarrow> mtk_rectangle" where
  "meta_rectangle_clip_to_region spanning_rects fixed rect =
     (case fst (best_by (fixed_misfit fixed rect)
                 (\<lambda>c. mtk_rectangle_area
                        (snd (mtk_rectangle_intersect rect c mtk_rectangle_new_empty)))
                 (None, 0) spanning_rects) of
        None \<Rightarrow> rect
      | Some best \<Rightarrow>
          (let r1 = (if \<not> fixed_x fixed then
                       let new_x = max (rect_x rect) (rect_x best)
                       in rect\<lparr>rect_width := min ((rect_x rect + rect_width rect) - new_x)
                                                ((rect_x best + rect_width best) - new_x),
                               rect_x := new_x\<rparr>
                     else rect)
           in if \<not> fixed_y fixed then
                let new_y = max (rect_y r1) (rect_y best)
                in r1\<lparr>rect_height := min ((rect_y r1 + rect_height r1) - new_y)
                                        ((rect_y best + rect_height best) - new_y),
                      rect_y := new_y\<rparr>
              else r1))"

section \<open>Shove\<close>

definition dist_to_compare :: "mtk_rectangle \<Rightarrow> mtk_rectangle \<Rightarrow> int" where
  "dist_to_compare rect cmp =
     (if rect_x cmp > rect_x rect then rect_x cmp - rect_x rect else 0) +
     (if rect_x cmp + rect_width cmp < rect_x rect + rect_width rect
      then (rect_x rect + rect_width rect) - (rect_x cmp + rect_width cmp) else 0) +
     (if rect_y cmp > rect_y rect then rect_y cmp - rect_y rect else 0) +
     (if rect_y cmp + rect_height cmp < rect_y rect + rect_height rect
      then (rect_y rect + rect_height rect) - (rect_y cmp + rect_height cmp) else 0)"

definition G_MAXINT :: int where
  "G_MAXINT = 2147483647"

fun best_for_shove :: "fixed_directions \<Rightarrow> mtk_rectangle \<Rightarrow>
  mtk_rectangle option \<times> int \<times> int \<Rightarrow> mtk_rectangle list \<Rightarrow> mtk_rectangle option \<times> int \<times> int"
where
  "best_for_shove fixed rect acc [] = acc"
| "best_for_shove fixed rect (best_rect, best_overlap, shortest_distance) (c # cs) =
     (if fixed_misfit fixed rect c
      then best_for_shove fixed rect (best_rect, best_overlap, shortest_distance) cs
      else if maximal_overlap_amount rect c > best_overlap \<or>
              (maximal_overlap_amount rect c = best_overlap \<and>
               dist_to_compare rect c < shortest_distance)
      then best_for_shove fixed rect
             (Some c, maximal_overlap_amount rect c, dist_to_compare rect c) cs
      else best_for_shove fixed rect (best_rect, best_overlap, shortest_distance) cs)"

text \<open>One axis of the move: first towards the high side, then back towards the low side.\<close>

definition shove_axis :: "int \<Rightarrow> int \<Rightarrow> int \<Rightarrow> int \<Rightarrow> int" where
  "shove_axis best_pos best_size pos len =
     (let p1 = (if best_pos > pos then best_pos else pos)
      in if best_pos + best_size < p1 + len then (best_pos + best_size) - len else p1)"

definition meta_rectangle_shove_into_region ::
  "mtk_rectangle list \<Rightarrow> fixed_directions \<Rightarrow> mtk_rectangle \<Rightarrow> mtk_rectangle" where
  "meta_rectangle_shove_into_region spanning_rects fixed rect =
     (case fst (best_for_shove fixed rect (None, 0, G_MAXINT) spanning_rects) of
        None \<Rightarrow> rect
      | Some best \<Rightarrow>
          (let r1 = (if \<not> fixed_x fixed
                     then rect\<lparr>rect_x := shove_axis (rect_x best) (rect_width best)
                                           (rect_x rect) (rect_width rect)\<rparr>
                     else rect)
           in if \<not> fixed_y fixed
              then r1\<lparr>rect_y := shove_axis (rect_y best) (rect_height best)
                                  (rect_y r1) (rect_height r1)\<rparr>
              else r1))"

section \<open>The closest point of a line\<close>

definition meta_rectangle_find_linepoint_closest_to_point ::
  "real \<Rightarrow> real \<Rightarrow> real \<Rightarrow> real \<Rightarrow> real \<Rightarrow> real \<Rightarrow> real \<times> real" where
  "meta_rectangle_find_linepoint_closest_to_point x1 y1 x2 y2 px py =
     (let diffx = x2 - x1; diffy = y2 - y1;
          den = diffx * diffx + diffy * diffy
      in ((py * diffx * diffy + px * diffx * diffx + y2 * x1 * diffy - y1 * x2 * diffy) / den,
          (px * diffx * diffy + py * diffy * diffy + x2 * y1 * diffx - x1 * y2 * diffx) / den))"

section \<open>The searches find a best candidate\<close>

lemma best_by_sound:
  "best_by skip score (b0, o0) cs = (Some r, ov) \<Longrightarrow>
   (b0 = Some r \<and> ov = o0) \<or> (r \<in> set cs \<and> \<not> skip r \<and> ov = score r)"
  by (induction skip score "(b0, o0)" cs arbitrary: b0 o0 rule: best_by.induct)
     (fastforce split: if_splits)+

lemma best_by_max:
  "best_by skip score (b0, o0) cs = (b, ov) \<Longrightarrow>
   o0 \<le> ov \<and> (\<forall>c\<in>set cs. \<not> skip c \<longrightarrow> score c \<le> ov)"
  by (induction skip score "(b0, o0)" cs arbitrary: b0 o0 rule: best_by.induct)
     (fastforce split: if_splits)+

lemma best_by_None: "best_by skip score (b0, o0) cs = (None, ov) \<Longrightarrow> b0 = None \<and> ov = o0"
  by (induction skip score "(b0, o0)" cs arbitrary: b0 o0 rule: best_by.induct)
     (fastforce split: if_splits)+

lemma best_by_exists:
  assumes "c \<in> set cs" and "\<not> skip c" and "score c > 0"
  obtains r where "fst (best_by skip score (None, 0) cs) = Some r"
    and "r \<in> set cs" and "\<not> skip r" and "score c \<le> score r"
proof -
  obtain b ov where b: "best_by skip score (None, 0) cs = (b, ov)"
    by (cases "best_by skip score (None, 0) cs")
  have le: "score c \<le> ov"
    using best_by_max [OF b] assms by blast
  then obtain r where r: "b = Some r"
    using best_by_None [of skip score None 0 cs ov] b assms(3) by (cases b) auto
  have "r \<in> set cs \<and> \<not> skip r \<and> ov = score r"
    using best_by_sound [of skip score None 0 cs r ov] b r by auto
  with le r b that show thesis by auto
qed

lemma best_for_shove_sound:
  "best_for_shove fixed rect (b0, o0, d0) cs = (Some r, ov, d) \<Longrightarrow>
   (b0 = Some r \<and> ov = o0 \<and> d = d0) \<or>
   (r \<in> set cs \<and> \<not> fixed_misfit fixed rect r \<and> ov = maximal_overlap_amount rect r \<and>
    d = dist_to_compare rect r)"
  by (induction fixed rect "(b0, o0, d0)" cs arbitrary: b0 o0 d0 rule: best_for_shove.induct)
     (fastforce split: if_splits)+

lemma best_for_shove_max:
  "best_for_shove fixed rect (b0, o0, d0) cs = (b, ov, d) \<Longrightarrow>
   o0 \<le> ov \<and> (ov = o0 \<longrightarrow> d \<le> d0) \<and>
   (\<forall>c\<in>set cs. \<not> fixed_misfit fixed rect c \<longrightarrow>
      maximal_overlap_amount rect c \<le> ov \<and>
      (maximal_overlap_amount rect c = ov \<longrightarrow> d \<le> dist_to_compare rect c))"
proof (induction fixed rect "(b0, o0, d0)" cs arbitrary: b0 o0 d0 rule: best_for_shove.induct)
  case (2 fixed rect b0 o0 d0 c cs)
  consider (skip) "fixed_misfit fixed rect c"
    | (take) "\<not> fixed_misfit fixed rect c"
      "maximal_overlap_amount rect c > o0 \<or>
       (maximal_overlap_amount rect c = o0 \<and> dist_to_compare rect c < d0)"
    | (keep) "\<not> fixed_misfit fixed rect c"
      "\<not> (maximal_overlap_amount rect c > o0 \<or>
       (maximal_overlap_amount rect c = o0 \<and> dist_to_compare rect c < d0))"
    by blast
  then show ?case
  proof cases
    case skip
    with 2 show ?thesis by simp
  next
    case take
    then have "best_for_shove fixed rect
        (Some c, maximal_overlap_amount rect c, dist_to_compare rect c) cs = (b, ov, d)"
      using "2.prems" by simp
    from "2.hyps"(2) [OF take this] take show ?thesis by auto
  next
    case keep
    then have "best_for_shove fixed rect (b0, o0, d0) cs = (b, ov, d)"
      using "2.prems" by (simp split: if_splits)
    from "2.hyps"(3) [OF keep this] keep show ?thesis by auto
  qed
qed simp

lemma best_for_shove_None:
  "best_for_shove fixed rect (b0, o0, d0) cs = (None, ov, d) \<Longrightarrow>
   b0 = None \<and> ov = o0 \<and> d = d0"
  by (induction fixed rect "(b0, o0, d0)" cs arbitrary: b0 o0 d0 rule: best_for_shove.induct)
     (fastforce split: if_splits)+

section \<open>Shove: contained, and idempotent\<close>

lemma overlap_amount_fits:
  assumes "rect_positive rect" and "mtk_rectangle_could_fit_rect c rect"
  shows "maximal_overlap_amount rect c = rect_width rect * rect_height rect"
  using assms by (simp add: maximal_overlap_amount_def rect_defs min_def rect_positive_def)

lemma min_product_max:
  fixes w h a b :: int
  assumes "0 < w" "0 < h" "0 \<le> a" "0 \<le> b" "w * h \<le> min w a * min h b"
  shows "w \<le> a \<and> h \<le> b"
proof (rule ccontr)
  assume n: "\<not> (w \<le> a \<and> h \<le> b)"
  then have "min w a * min h b < w * h"
  proof (cases "w \<le> a")
    case True
    with n have "min h b < h" by simp
    with assms(1) True show ?thesis by simp
  next
    case False
    then have "min w a * min h b \<le> a * h"
      using assms by (intro mult_mono) auto
    also have "\<dots> < w * h" using False assms(2) by simp
    finally show ?thesis .
  qed
  with assms(5) show False by simp
qed

lemma overlap_amount_max_fits:
  assumes "rect_positive rect" and "rect_positive c"
    and "rect_width rect * rect_height rect \<le> maximal_overlap_amount rect c"
  shows "mtk_rectangle_could_fit_rect c rect"
  unfolding mtk_rectangle_could_fit_rect_def
  by (rule min_product_max)
     (use assms in \<open>simp_all only: maximal_overlap_amount_def rect_positive_def order_less_imp_le\<close>)

lemma best_for_shove_fits:
  assumes pos: "rect_positive rect" and posc: "\<forall>c\<in>set cs. rect_positive c"
    and c: "c \<in> set cs" "\<not> fixed_misfit fixed rect c" "mtk_rectangle_could_fit_rect c rect"
  obtains r where "fst (best_for_shove fixed rect (None, 0, G_MAXINT) cs) = Some r"
    and "r \<in> set cs" and "\<not> fixed_misfit fixed rect r" and "mtk_rectangle_could_fit_rect r rect"
    and "dist_to_compare rect r \<le> dist_to_compare rect c"
proof -
  let ?area = "rect_width rect * rect_height rect"
  obtain b ov d where b: "best_for_shove fixed rect (None, 0, G_MAXINT) cs = (b, ov, d)"
    by (cases "best_for_shove fixed rect (None, 0, G_MAXINT) cs") auto
  have area: "0 < ?area" using pos by (simp add: rect_positive_def)
  have ov: "?area \<le> ov" and dc: "?area = ov \<longrightarrow> d \<le> dist_to_compare rect c"
    using best_for_shove_max [OF b] c overlap_amount_fits [OF pos c(3)] by auto
  with area obtain r where r: "b = Some r"
    using best_for_shove_None [of fixed rect None 0 G_MAXINT cs ov d] b by (cases b) auto
  then have s: "r \<in> set cs" "\<not> fixed_misfit fixed rect r"
    "ov = maximal_overlap_amount rect r" "d = dist_to_compare rect r"
    using best_for_shove_sound [of fixed rect None 0 G_MAXINT cs r ov d] b by auto
  have fit: "mtk_rectangle_could_fit_rect r rect"
    using overlap_amount_max_fits [OF pos] posc s ov by auto
  with s(3) have "?area = ov" using overlap_amount_fits [OF pos] by simp
  with dc s fit r b that show thesis by auto
qed

lemma shove_axis_inside:
  "0 < len \<Longrightarrow> len \<le> best_size \<Longrightarrow>
   best_pos \<le> shove_axis best_pos best_size pos len \<and>
   shove_axis best_pos best_size pos len + len \<le> best_pos + best_size"
  by (simp add: shove_axis_def Let_def)

lemma shove_axis_id:
  "best_pos \<le> pos \<Longrightarrow> pos + len \<le> best_pos + best_size \<Longrightarrow>
   shove_axis best_pos best_size pos len = pos"
  by (simp add: shove_axis_def Let_def)

lemma shove_into_region_contained:
  assumes pos: "rect_positive rect" and posc: "\<forall>c\<in>set cs. rect_positive c"
    and c: "c \<in> set cs" "\<not> fixed_misfit fixed rect c" "mtk_rectangle_could_fit_rect c rect"
  defines "out \<equiv> meta_rectangle_shove_into_region cs fixed rect"
  shows "meta_rectangle_contained_in_region cs out"
    and "rect_width out = rect_width rect" and "rect_height out = rect_height rect"
proof -
  obtain r where r: "fst (best_for_shove fixed rect (None, 0, G_MAXINT) cs) = Some r"
    "r \<in> set cs" "\<not> fixed_misfit fixed rect r" "mtk_rectangle_could_fit_rect r rect"
    using best_for_shove_fits [OF pos posc c] by blast
  show "rect_width out = rect_width rect" "rect_height out = rect_height rect"
    using r(1) by (simp_all add: out_def meta_rectangle_shove_into_region_def Let_def)
  have "mtk_rectangle_contains_rect r out"
    using r pos shove_axis_inside [of "rect_width rect" "rect_width r" "rect_x r" "rect_x rect"]
      shove_axis_inside [of "rect_height rect" "rect_height r" "rect_y r" "rect_y rect"]
    by (auto simp: out_def meta_rectangle_shove_into_region_def Let_def rect_defs
        rect_positive_def fixed_misfit_def)
  with r(2) show "meta_rectangle_contained_in_region cs out"
    by (auto simp: region_queries)
qed

lemma dist_zero_contained:
  "mtk_rectangle_contains_rect c rect \<longleftrightarrow> dist_to_compare rect c \<le> 0"
  by (auto simp: dist_to_compare_def mtk_rectangle_contains_rect_def)

lemma shove_into_region_stable:
  assumes pos: "rect_positive rect" and posc: "\<forall>c\<in>set cs. rect_positive c"
    and "meta_rectangle_contained_in_region cs rect"
  shows "meta_rectangle_shove_into_region cs fixed rect = rect"
proof -
  obtain c where c: "c \<in> set cs" "mtk_rectangle_contains_rect c rect"
    using assms(3) by (auto simp: region_queries)
  then have fit: "mtk_rectangle_could_fit_rect c rect" "\<not> fixed_misfit fixed rect c"
    by (auto simp: rect_defs fixed_misfit_def)
  obtain r where r: "fst (best_for_shove fixed rect (None, 0, G_MAXINT) cs) = Some r"
    "dist_to_compare rect r \<le> dist_to_compare rect c"
    using best_for_shove_fits [OF pos posc c(1) fit(2,1)] by blast
  then have "mtk_rectangle_contains_rect r rect"
    using c(2) by (simp add: dist_zero_contained)
  with r(1) show ?thesis
    by (simp add: meta_rectangle_shove_into_region_def Let_def mtk_rectangle_contains_rect_def
        shove_axis_id)
qed

section \<open>Clamp and clip\<close>

lemma clamp_fits:
  assumes pos: "rect_positive rect" and posc: "\<forall>c\<in>set cs. rect_positive c"
    and c: "c \<in> set cs" "\<not> fixed_misfit fixed rect c" "mtk_rectangle_could_fit_rect c min_size"
  defines "out \<equiv> meta_rectangle_clamp_to_fit_into_region cs fixed rect min_size"
  shows "meta_rectangle_could_fit_in_region cs out"
    and "rect_width out \<le> rect_width rect" and "rect_height out \<le> rect_height rect"
    and "rect_x out = rect_x rect" and "rect_y out = rect_y rect"
proof -
  let ?skip = "\<lambda>c. fixed_misfit fixed rect c \<or> rect_width c < rect_width min_size \<or>
    rect_height c < rect_height min_size"
  have "0 < maximal_overlap_amount rect c" "\<not> ?skip c"
    using pos posc c by (auto simp: maximal_overlap_amount_def rect_positive_def rect_defs)
  then obtain r where r: "fst (best_by ?skip (maximal_overlap_amount rect) (None, 0) cs) = Some r"
    "r \<in> set cs"
    using best_by_exists [OF c(1), of ?skip "maximal_overlap_amount rect"] by blast
  then have out: "out = rect\<lparr>rect_width := min (rect_width rect) (rect_width r),
      rect_height := min (rect_height rect) (rect_height r)\<rparr>"
    by (simp add: out_def meta_rectangle_clamp_to_fit_into_region_def)
  show "meta_rectangle_could_fit_in_region cs out"
    using r(2) by (fastforce simp: region_queries out mtk_rectangle_could_fit_rect_def
        intro: bexI [of _ r])
  show "rect_width out \<le> rect_width rect" "rect_height out \<le> rect_height rect"
    "rect_x out = rect_x rect" "rect_y out = rect_y rect"
    by (simp_all add: out)
qed

lemma clip_is_intersection:
  assumes c: "c \<in> set cs" "mtk_rectangle_overlap rect c"
    and pos: "rect_positive rect" and posc: "\<forall>c\<in>set cs. rect_positive c"
  obtains r where "r \<in> set cs" and "mtk_rectangle_overlap rect r"
    and "meta_rectangle_clip_to_region cs FIXED_DIRECTION_NONE rect =
         snd (mtk_rectangle_intersect rect r mtk_rectangle_new_empty)"
    and "mtk_rectangle_area (snd (mtk_rectangle_intersect rect c mtk_rectangle_new_empty)) \<le>
         mtk_rectangle_area (meta_rectangle_clip_to_region cs FIXED_DIRECTION_NONE rect)"
proof -
  let ?score = "\<lambda>c. mtk_rectangle_area
    (snd (mtk_rectangle_intersect rect c mtk_rectangle_new_empty))"
  have score_pos: "0 < ?score x \<longleftrightarrow> mtk_rectangle_overlap rect x" if "x \<in> set cs" for x
  proof -
    have "mtk_rectangle_overlap rect x \<longleftrightarrow>
        rect_positive (snd (mtk_rectangle_intersect rect x mtk_rectangle_new_empty))"
      using pos posc that overlap_iff_intersect [of rect x mtk_rectangle_new_empty]
        intersect_positive [of rect x mtk_rectangle_new_empty] by blast
    also have "\<dots> \<longleftrightarrow> 0 < ?score x"
      by (auto simp: rect_positive_def mtk_rectangle_area_def mtk_rectangle_intersect_def Let_def
          split: if_splits)
    finally show ?thesis by simp
  qed
  have nofix: "\<not> fixed_misfit FIXED_DIRECTION_NONE rect x" for x
    by (simp add: fixed_misfit_def FIXED_DIRECTION_NONE_def)
  have sc: "0 < ?score c" using score_pos c by simp
  obtain r where r: "fst (best_by (fixed_misfit FIXED_DIRECTION_NONE rect) ?score (None, 0) cs)
      = Some r" "r \<in> set cs" "?score c \<le> ?score r"
    by (rule best_by_exists [where score = ?score, OF c(1) nofix sc])
  have o: "mtk_rectangle_overlap rect r"
    using score_pos [OF r(2)] r(3) sc by simp
  have "meta_rectangle_clip_to_region cs FIXED_DIRECTION_NONE rect =
      snd (mtk_rectangle_intersect rect r mtk_rectangle_new_empty)"
  proof -
    have i: "fst (mtk_rectangle_intersect rect r mtk_rectangle_new_empty)"
      using o pos posc r(2) overlap_iff_intersect by blast
    show ?thesis
      unfolding intersect_True [OF i] meta_rectangle_clip_to_region_def r(1) option.case
      by (simp add: FIXED_DIRECTION_NONE_def Let_def min_diff_distrib_left)
  qed
  with r o that show thesis by auto
qed

section \<open>Gravity\<close>

lemma resize_axis_spec:
  "resize_axis Low p s n = (p, n)"
  "resize_axis High p s n = (p', n') \<Longrightarrow> p' + n' = p + s"
  "resize_axis Mid p s n = (p', n') \<Longrightarrow> 2 * p' + n' = 2 * p + s \<and> \<bar>n' - n\<bar> \<le> 1"
proof -
  show "resize_axis Mid p s n = (p', n') \<Longrightarrow> 2 * p' + n' = 2 * p + s \<and> \<bar>n' - n\<bar> \<le> 1"
  proof -
    assume a: "resize_axis Mid p s n = (p', n')"
    define m where "m = (s - n) smod 2"
    have n': "n' = n - m" and p': "p' = p + (s - n') sdiv 2"
      using a by (auto simp: m_def Let_def)
    have e: "(s - n) = 2 * ((s - n) sdiv 2) + m"
      unfolding m_def by (metis sdiv_mult_smod_eq mult.commute)
    have m: "\<bar>m\<bar> \<le> 1"
      using smod_int_range [where a = "s - n" and b = 2] by (auto simp: m_def)
    define k where "k = (s - n) sdiv 2 + m"
    have k: "s - n' = 2 * k" using e by (simp add: n' k_def)
    have "(s - n') sdiv 2 = k"
      unfolding k signed_divide_int_def by (simp add: sgn_mult abs_mult mult_sgn_abs)
    with p' k m n' show ?thesis by auto
  qed
qed auto

section \<open>Expansion avoids the struts\<close>

lemma avoid_strut_mono:
  "\<not> mtk_rectangle_overlap s r \<Longrightarrow> \<not> mtk_rectangle_overlap s (avoid_strut d t r)"
  by (auto simp: avoid_strut_def mtk_rectangle_overlap_def box_defs Let_def
      split: meta_direction.splits)

lemma avoid_strut_avoids:
  "strut_side s \<in> (case d of META_DIRECTION_HORIZONTAL \<Rightarrow> {META_SIDE_LEFT, META_SIDE_RIGHT}
      | META_DIRECTION_VERTICAL \<Rightarrow> {META_SIDE_TOP, META_SIDE_BOTTOM}) \<Longrightarrow>
   \<not> mtk_rectangle_overlap (strut_rect s) (avoid_strut d s r)"
  by (auto simp: avoid_strut_def mtk_rectangle_overlap_def box_defs Let_def
      split: meta_direction.splits)

lemma foldl_avoid_mono:
  "\<not> mtk_rectangle_overlap s r \<Longrightarrow>
   \<not> mtk_rectangle_overlap s (foldl (\<lambda>r s. avoid_strut d s r) r ss)"
  by (induction ss arbitrary: r) (simp_all add: avoid_strut_mono)

lemma foldl_avoid:
  "s \<in> set ss \<Longrightarrow>
   strut_side s \<in> (case d of META_DIRECTION_HORIZONTAL \<Rightarrow> {META_SIDE_LEFT, META_SIDE_RIGHT}
      | META_DIRECTION_VERTICAL \<Rightarrow> {META_SIDE_TOP, META_SIDE_BOTTOM}) \<Longrightarrow>
   \<not> mtk_rectangle_overlap (strut_rect s) (foldl (\<lambda>r s. avoid_strut d s r) r ss)"
proof (induction ss arbitrary: r)
  case (Cons t ss)
  then show ?case
    using foldl_avoid_mono avoid_strut_avoids by (cases "s = t") auto
qed simp

section \<open>The closest point\<close>

lemma closest_point_on_line:
  assumes "(x1, y1) \<noteq> (x2, y2)"
    and "meta_rectangle_find_linepoint_closest_to_point x1 y1 x2 y2 px py = (rx, ry)"
  shows "(ry - y1) * (x2 - x1) = (y2 - y1) * (rx - x1)"
    and "(rx - px) * (x2 - x1) + (ry - py) * (y2 - y1) = 0"
proof -
  define dx dy where "dx = x2 - x1" and "dy = y2 - y1"
  define den where "den = dx * dx + dy * dy"
  have den: "den \<noteq> 0"
    using assms(1) unfolding den_def dx_def dy_def
    by (auto simp: sum_squares_eq_zero_iff)
  have x2: "x2 = x1 + dx" and y2: "y2 = y1 + dy" by (simp_all add: dx_def dy_def)
  have r: "rx = (py * dx * dy + px * dx * dx + y2 * x1 * dy - y1 * x2 * dy) / den"
    "ry = (px * dx * dy + py * dy * dy + x2 * y1 * dx - x1 * y2 * dx) / den"
    using assms(2) by (auto simp: meta_rectangle_find_linepoint_closest_to_point_def Let_def
        dx_def dy_def den_def)
  have rx: "rx * den = py * dx * dy + px * dx * dx + y2 * x1 * dy - y1 * x2 * dy"
    and ry: "ry * den = px * dx * dy + py * dy * dy + x2 * y1 * dx - x1 * y2 * dx"
    using den by (simp_all add: r)
  have "((ry - y1) * dx - dy * (rx - x1)) * den = 0"
    using rx ry unfolding x2 y2 den_def by algebra
  then show "(ry - y1) * (x2 - x1) = (y2 - y1) * (rx - x1)"
    using den by (simp add: dx_def dy_def)
  have "((rx - px) * dx + (ry - py) * dy) * den = 0"
    using rx ry unfolding x2 y2 den_def by algebra
  then show "(rx - px) * (x2 - x1) + (ry - py) * (y2 - y1) = 0"
    using den by (simp add: dx_def dy_def)
qed

end
