(* ===== verification/Meta_Display.thy ===== *)
theory Meta_Display
  imports Mtk_Rectangle
begin

text \<open>
  The display as the annotation layer reads it: windows and their stacking order
  (\<open>mutter/src/core/window.c\<close>, \<open>display.c\<close>), the active workspace, and the layer's choice of
  an anchor window (\<open>meta-annotation-layer.c\<close>). A \<open>MetaWindow *\<close> is the number of the
  window object; \<open>win_of\<close> dereferences it.
\<close>

section \<open>Windows\<close>

datatype meta_window_type =
    META_WINDOW_NORMAL | META_WINDOW_DESKTOP | META_WINDOW_DOCK | META_WINDOW_DIALOG
  | META_WINDOW_MODAL_DIALOG | META_WINDOW_TOOLBAR | META_WINDOW_MENU | META_WINDOW_UTILITY
  | META_WINDOW_SPLASHSCREEN | META_WINDOW_DROPDOWN_MENU | META_WINDOW_POPUP_MENU
  | META_WINDOW_TOOLTIP | META_WINDOW_NOTIFICATION | META_WINDOW_COMBO | META_WINDOW_DND
  | META_WINDOW_OVERRIDE_OTHER

type_synonym window = nat
type_synonym workspace = nat

record meta_window =
  frame_rect :: mtk_rectangle
  override_redirect :: bool
  hidden :: bool
  win_type :: meta_window_type
  on_all_workspaces :: bool
  win_workspace :: "workspace option"
  minimized :: bool
  client_pid :: int
  stack_layer :: int
  stack_position :: int

definition meta_window_located_on_workspace :: "meta_window \<Rightarrow> workspace \<Rightarrow> bool" where
  "meta_window_located_on_workspace w ws \<longleftrightarrow> on_all_workspaces w \<or> win_workspace w = Some ws"

text \<open>The result of the comparison function is its sign.\<close>

definition meta_window_stack_position_compare :: "meta_window \<Rightarrow> meta_window \<Rightarrow> int" where
  "meta_window_stack_position_compare a b =
     (if stack_layer a < stack_layer b then - 1
      else if stack_layer a > stack_layer b then 1
      else if stack_position a < stack_position b then - 1
      else if stack_position a > stack_position b then 1
      else 0)"

text \<open>The cairo region type is not part of the repository: its operations are a parameter, a
  record of functions over an arbitrary type.\<close>

record 'r region_ops =
  region_create :: 'r
  region_create_rectangle :: "mtk_rectangle \<Rightarrow> 'r"
  region_subtract :: "'r \<Rightarrow> 'r \<Rightarrow> 'r"
  region_subtract_rectangle :: "'r \<Rightarrow> mtk_rectangle \<Rightarrow> 'r"
  region_union_rectangle :: "'r \<Rightarrow> mtk_rectangle \<Rightarrow> 'r"
  region_rectangles :: "'r \<Rightarrow> mtk_rectangle list"

record 'r display_env =
  win_of :: "window \<Rightarrow> meta_window"
  all_windows :: "window list"
  active_ws :: "workspace option"
  stage_size :: "real \<times> real"
  region_lib :: "'r region_ops"

text \<open>\<open>g_slist_sort\<close> is a stable sort by the comparison function; insertion after the elements
  that compare equal or below is its specification.\<close>

fun insert_by_stacking :: "'r display_env \<Rightarrow> window \<Rightarrow> window list \<Rightarrow> window list" where
  "insert_by_stacking e w [] = [w]"
| "insert_by_stacking e w (v # vs) =
     (if meta_window_stack_position_compare (win_of e w) (win_of e v) \<le> 0 then w # v # vs
      else v # insert_by_stacking e w vs)"

definition meta_display_sort_windows_by_stacking ::
  "'r display_env \<Rightarrow> window list \<Rightarrow> window list" where
  "meta_display_sort_windows_by_stacking e ws = foldr (insert_by_stacking e) ws []"

definition below_or_equal :: "'r display_env \<Rightarrow> window \<Rightarrow> window \<Rightarrow> bool" where
  "below_or_equal e w v \<longleftrightarrow>
     meta_window_stack_position_compare (win_of e w) (win_of e v) \<le> 0"

lemma stack_compare_total: "below_or_equal e w v \<or> below_or_equal e v w"
  by (auto simp: below_or_equal_def meta_window_stack_position_compare_def)

lemma stack_compare_trans:
  "below_or_equal e u v \<Longrightarrow> below_or_equal e v w \<Longrightarrow> below_or_equal e u w"
  by (auto simp: below_or_equal_def meta_window_stack_position_compare_def split: if_splits)

lemma set_insert_by_stacking [simp]: "set (insert_by_stacking e w vs) = insert w (set vs)"
  by (induction vs) auto

lemma set_sort_by_stacking [simp]: "set (meta_display_sort_windows_by_stacking e ws) = set ws"
  unfolding meta_display_sort_windows_by_stacking_def by (induction ws) auto

lemma sorted_insert_by_stacking:
  "sorted_wrt (below_or_equal e) vs \<Longrightarrow> sorted_wrt (below_or_equal e) (insert_by_stacking e w vs)"
proof (induction vs)
  case (Cons v vs)
  show ?case
  proof (cases "below_or_equal e w v")
    case True
    then show ?thesis using Cons.prems by (auto simp: below_or_equal_def intro: stack_compare_trans
      [unfolded below_or_equal_def])
  next
    case False
    then have "below_or_equal e v w" using stack_compare_total by blast
    with False Cons show ?thesis by (auto simp: below_or_equal_def)
  qed
qed simp

lemma sorted_by_stacking:
  "sorted_wrt (below_or_equal e) (meta_display_sort_windows_by_stacking e ws)"
  unfolding meta_display_sort_windows_by_stacking_def
  by (induction ws) (simp_all add: sorted_insert_by_stacking)

lemma distinct_insert_by_stacking:
  "distinct (insert_by_stacking e w vs) \<longleftrightarrow> w \<notin> set vs \<and> distinct vs"
  by (induction vs) auto

lemma distinct_sort_by_stacking [simp]:
  "distinct (meta_display_sort_windows_by_stacking e ws) = distinct ws"
proof -
  have "set (foldr (insert_by_stacking e) ws []) = set ws"
    using set_sort_by_stacking [of e ws] by (simp add: meta_display_sort_windows_by_stacking_def)
  then show ?thesis unfolding meta_display_sort_windows_by_stacking_def
  proof (induction ws)
    case (Cons w ws)
    have "set (foldr (insert_by_stacking e) ws []) = set ws"
      using set_sort_by_stacking [of e ws]
      by (simp add: meta_display_sort_windows_by_stacking_def)
    with Cons.IH show ?case by (simp add: distinct_insert_by_stacking)
  qed simp
qed

section \<open>Anchor windows\<close>

definition window_is_eligible_anchor :: "meta_window \<Rightarrow> workspace option \<Rightarrow> bool" where
  "window_is_eligible_anchor win ws \<longleftrightarrow>
     \<not> override_redirect win \<and> \<not> hidden win \<and>
     win_type win \<noteq> META_WINDOW_DESKTOP \<and> win_type win \<noteq> META_WINDOW_DOCK \<and>
     \<not> (\<not> on_all_workspaces win \<and>
        (case ws of None \<Rightarrow> False | Some s \<Rightarrow> \<not> meta_window_located_on_workspace win s))"

text \<open>The list is copied in reverse (\<open>g_slist_prepend\<close>) before it is sorted, and searched from
  the top of the stack.\<close>

definition pick_anchor_window :: "'r display_env \<Rightarrow> real \<Rightarrow> real \<Rightarrow> window option" where
  "pick_anchor_window e x y =
     find (\<lambda>w. window_is_eligible_anchor (win_of e w) (active_ws e) \<and>
               mtk_rectangle_contains_pointf (frame_rect (win_of e w)) x y)
       (rev (meta_display_sort_windows_by_stacking e (rev (all_windows e))))"

definition collect_windows_for_pid :: "'r display_env \<Rightarrow> 32 word \<Rightarrow> window list" where
  "collect_windows_for_pid e pid =
     (if pid = 0 then []
      else rev (filter (\<lambda>w. word_of_int (client_pid (win_of e w)) = pid) (all_windows e)))"

definition anchor_candidate :: "'r display_env \<Rightarrow> real \<Rightarrow> real \<Rightarrow> window \<Rightarrow> bool" where
  "anchor_candidate e x y w \<longleftrightarrow>
     w \<in> set (all_windows e) \<and> window_is_eligible_anchor (win_of e w) (active_ws e) \<and>
     mtk_rectangle_contains_pointf (frame_rect (win_of e w)) x y"

lemma find_first: "find P xs = Some x \<Longrightarrow> \<exists>ys zs. xs = ys @ x # zs \<and> P x \<and> (\<forall>y \<in> set ys. \<not> P y)"
proof (induction xs)
  case (Cons a xs)
  show ?case
  proof (cases "P a")
    case True
    then show ?thesis using Cons.prems by (intro exI [of _ "[]"] exI [of _ xs]) auto
  next
    case False
    with Cons obtain ys zs where "xs = ys @ x # zs" "P x" "\<forall>y \<in> set ys. \<not> P y" by auto
    with False show ?thesis by (intro exI [of _ "a # ys"] exI [of _ zs]) auto
  qed
qed simp

lemma pick_anchor_none:
  "pick_anchor_window e x y = None \<longleftrightarrow> (\<forall>w. \<not> anchor_candidate e x y w)"
  by (auto simp: pick_anchor_window_def find_None_iff anchor_candidate_def)

lemma pick_anchor_topmost:
  assumes "pick_anchor_window e x y = Some w"
  shows "anchor_candidate e x y w"
    and "anchor_candidate e x y v \<Longrightarrow> v \<noteq> w \<Longrightarrow> below_or_equal e v w"
proof -
  let ?s = "meta_display_sort_windows_by_stacking e (rev (all_windows e))"
  from find_first [OF assms [unfolded pick_anchor_window_def]] obtain ys zs where
    split: "rev ?s = ys @ w # zs"
    and P: "window_is_eligible_anchor (win_of e w) (active_ws e)"
      "mtk_rectangle_contains_pointf (frame_rect (win_of e w)) x y"
    and above: "\<forall>v \<in> set ys. \<not> (window_is_eligible_anchor (win_of e v) (active_ws e) \<and>
      mtk_rectangle_contains_pointf (frame_rect (win_of e v)) x y)"
    by blast
  have s: "?s = rev zs @ w # rev ys" using split by (metis append.assoc append_Cons append_Nil rev.simps(2) rev_append rev_swap)
  have elems: "set (all_windows e) = set zs \<union> {w} \<union> set ys"
    using set_sort_by_stacking [of e "rev (all_windows e)"] unfolding s by auto
  show "anchor_candidate e x y w" using P elems by (auto simp: anchor_candidate_def)
  show "anchor_candidate e x y v \<Longrightarrow> v \<noteq> w \<Longrightarrow> below_or_equal e v w"
    using sorted_by_stacking [of e "rev (all_windows e)"] above elems unfolding s
    by (auto simp: anchor_candidate_def sorted_wrt_append)
qed

text \<open>An anchor's frame is not empty, so ink can always be allocated for it.\<close>

lemma pick_anchor_frame:
  "pick_anchor_window e x y = Some w \<Longrightarrow>
   rect_width (frame_rect (win_of e w)) \<ge> 1 \<and> rect_height (frame_rect (win_of e w)) \<ge> 1"
  by (drule pick_anchor_topmost(1))
     (auto simp: anchor_candidate_def mtk_rectangle_contains_pointf_def)

lemma collect_windows_mem:
  "w \<in> set (collect_windows_for_pid e pid) \<longleftrightarrow>
     pid \<noteq> 0 \<and> w \<in> set (all_windows e) \<and> word_of_int (client_pid (win_of e w)) = pid"
  by (simp add: collect_windows_for_pid_def)

end
