(* ===== verification/Window_Constraints.thy ===== *)
theory Window_Constraints
  imports Boxes_Place Meta_Display
begin

text \<open>
  The constraints on a window's rectangle (\<open>mutter/src/core/constraints.c\<close>), with the conversion
  between client and frame rectangles, the area of a tile (\<open>window.c\<close>) and the position of a
  popup (\<open>place.c\<close>). Monitors, work areas, external constraints and free placement are functions
  of the environment. A constraint returns whether it is satisfied, and the window and the
  constraint information it has changed; a division by zero (of doubles too), a \<open>NULL\<close> parent and a failed
  assertion are \<^const>\<open>None\<close>. A rectangle that the code leaves uninitialised is an argument.
\<close>

section \<open>Windows\<close>

record size_hints =
  min_width :: int
  min_height :: int
  max_width :: int
  max_height :: int
  base_width :: int
  base_height :: int
  width_step :: int
  height_step :: int
  min_aspect :: "int \<times> int"
  max_aspect :: "int \<times> int"

record frame_border =
  fb_left :: int
  fb_right :: int
  fb_top :: int
  fb_bottom :: int

datatype meta_tile_mode = META_TILE_NONE | META_TILE_LEFT | META_TILE_RIGHT | META_TILE_MAXIMIZED

text \<open>The flag sets of a placement rule.\<close>

record placement_sides =
  at_top :: bool
  at_bottom :: bool
  at_left :: bool
  at_right :: bool

record constraint_adjustment =
  slide_x :: bool
  slide_y :: bool
  flip_x :: bool
  flip_y :: bool
  resize_x :: bool
  resize_y :: bool

record placement_rule =
  anchor_rect :: mtk_rectangle
  placement_gravity :: placement_sides
  placement_anchor :: placement_sides
  adjustment :: constraint_adjustment
  offset_x :: int
  offset_y :: int
  rule_width :: int
  rule_height :: int
  is_reactive :: bool
  rule_parent :: mtk_rectangle

datatype placement_state =
    Unconstrained | Constrained_pending | Constrained_configured | Constrained_finished | Invalidated

record window_placement =
  the_rule :: "placement_rule option"
  pl_state :: placement_state
  pending_pos :: "int \<times> int"
  pending_rel :: "int \<times> int"
  current_rel :: "int \<times> int"

text \<open>The window that this one is transient for: the rectangle of its configuration and its frame.\<close>

record parent_window =
  parent_config :: mtk_rectangle
  parent_frame :: mtk_rectangle

record constrained_window = meta_window +
  is_x11_client :: bool
  decorated :: bool
  x11_frame :: "frame_border option"
  custom_extents :: frame_border
  hints :: size_hints
  max_horizontally :: bool
  max_vertically :: bool
  tile_mode :: meta_tile_mode
  is_fullscreen :: bool
  fullscreen_mons :: "(nat \<times> nat \<times> nat \<times> nat) option"
  win_monitor :: "nat option"
  transient_parent :: "parent_window option"
  attached_dialog :: bool
  placement :: window_placement
  placed :: bool
  reparents_pending :: int
  minimize_after_placement :: bool
  require_fully_onscreen :: bool
  require_on_single_monitor :: bool
  require_titlebar_visible :: bool

definition meta_window_is_maximized :: "constrained_window \<Rightarrow> bool" where
  "meta_window_is_maximized w \<longleftrightarrow> max_horizontally w \<and> max_vertically w"

definition meta_window_config_is_any_maximized :: "constrained_window \<Rightarrow> bool" where
  "meta_window_config_is_any_maximized w \<longleftrightarrow> max_horizontally w \<or> max_vertically w"

definition meta_window_is_tiled_side_by_side :: "constrained_window \<Rightarrow> bool" where
  "meta_window_is_tiled_side_by_side w \<longleftrightarrow>
     max_vertically w \<and> \<not> max_horizontally w \<and> tile_mode w \<noteq> META_TILE_NONE"

text \<open>The borders of the frame, if an X11 window has one.\<close>

definition frame_borders :: "constrained_window \<Rightarrow> frame_border option" where
  "frame_borders w = (if is_x11_client w then x11_frame w else None)"

definition meta_window_client_rect_to_frame_rect ::
  "constrained_window \<Rightarrow> mtk_rectangle \<Rightarrow> mtk_rectangle" where
  "meta_window_client_rect_to_frame_rect w r =
     (case frame_borders w of
        Some b \<Rightarrow>
          \<lparr>rect_x = rect_x r - fb_left b, rect_y = rect_y r - fb_top b,
           rect_width = (if rect_width r \<noteq> G_MAXINT then rect_width r + (fb_left b + fb_right b) else rect_width r),
           rect_height = (if rect_height r \<noteq> G_MAXINT then rect_height r + (fb_top b + fb_bottom b) else rect_height r)\<rparr>
      | None \<Rightarrow>
          (let e = custom_extents w
           in \<lparr>rect_x = rect_x r + fb_left e, rect_y = rect_y r + fb_top e,
               rect_width = (if rect_width r \<noteq> G_MAXINT then rect_width r - (fb_left e + fb_right e) else rect_width r),
               rect_height = (if rect_height r \<noteq> G_MAXINT then rect_height r - (fb_top e + fb_bottom e) else rect_height r)\<rparr>))"

definition meta_window_frame_rect_to_client_rect ::
  "constrained_window \<Rightarrow> mtk_rectangle \<Rightarrow> mtk_rectangle" where
  "meta_window_frame_rect_to_client_rect w r =
     (case frame_borders w of
        Some b \<Rightarrow>
          \<lparr>rect_x = rect_x r + fb_left b, rect_y = rect_y r + fb_top b,
           rect_width = rect_width r - (fb_left b + fb_right b),
           rect_height = rect_height r - (fb_top b + fb_bottom b)\<rparr>
      | None \<Rightarrow>
          (let e = custom_extents w
           in \<lparr>rect_x = rect_x r - fb_left e, rect_y = rect_y r - fb_top e,
               rect_width = rect_width r + (fb_left e + fb_right e),
               rect_height = rect_height r + (fb_top e + fb_bottom e)\<rparr>))"

section \<open>The environment and the constraint information\<close>

record move_resize_flags =
  user_action :: bool
  move_action :: bool
  resize_action :: bool
  finish_move_resize :: bool
  rect_invalid :: bool

datatype action_type = ACTION_MOVE | ACTION_RESIZE | ACTION_MOVE_AND_RESIZE

text \<open>Logical monitors are numbers. An external constraint gets the gravity, whether the action
  moves and resizes, and the rectangle. The drag is its two properties that are read:
  unconstrained, and resizing.\<close>

record constrain_env =
  monitor_from_rect :: "mtk_rectangle \<Rightarrow> nat option"
  primary_monitor :: "nat option"
  n_monitors :: int
  monitor_rect :: "nat \<Rightarrow> mtk_rectangle"
  work_area_for :: "nat \<Rightarrow> mtk_rectangle"
  onmonitor_region :: "nat \<Rightarrow> mtk_rectangle list"
  all_struts :: "meta_strut list"
  adjust_fullscreen :: "mtk_rectangle \<Rightarrow> mtk_rectangle"
  tile_work_area :: mtk_rectangle
  tile_fraction :: "meta_tile_mode \<Rightarrow> real"
  external_constraints :: "(meta_gravity \<Rightarrow> bool \<times> bool \<Rightarrow> mtk_rectangle \<Rightarrow> bool \<times> mtk_rectangle) list"
  current_drag :: "(bool \<times> bool) option"
  window_place :: "mtk_rectangle \<Rightarrow> mtk_rectangle \<Rightarrow> int \<times> int"
  uninit_rect :: mtk_rectangle

record constraint_info =
  orig :: mtk_rectangle
  current :: mtk_rectangle
  temporary :: mtk_rectangle
  rel_pos :: "int \<times> int"
  action :: action_type
  is_user_action :: bool
  gravity :: meta_gravity
  fixed_dirs :: fixed_directions
  work_area_monitor :: mtk_rectangle
  entire_monitor :: mtk_rectangle
  usable_screen_region :: "mtk_rectangle list"
  usable_monitor_region :: "mtk_rectangle list"
  info_flags :: move_resize_flags

type_synonym cstate = "constrained_window \<times> constraint_info"
type_synonym cfunc = "constrain_env \<Rightarrow> nat \<Rightarrow> bool \<Rightarrow> cstate \<Rightarrow> (bool \<times> cstate) option"

definition PRIORITY_ASPECT_RATIO :: nat where "PRIORITY_ASPECT_RATIO = 0"
definition PRIORITY_ENTIRELY_VISIBLE_ON_SINGLE_MONITOR :: nat where
  "PRIORITY_ENTIRELY_VISIBLE_ON_SINGLE_MONITOR = 0"
definition PRIORITY_ENTIRELY_VISIBLE_ON_WORKAREA :: nat where
  "PRIORITY_ENTIRELY_VISIBLE_ON_WORKAREA = 1"
definition PRIORITY_SIZE_HINTS_INCREMENTS :: nat where "PRIORITY_SIZE_HINTS_INCREMENTS = 1"
definition PRIORITY_MAXIMIZATION :: nat where "PRIORITY_MAXIMIZATION = 2"
definition PRIORITY_TILING :: nat where "PRIORITY_TILING = 2"
definition PRIORITY_FULLSCREEN :: nat where "PRIORITY_FULLSCREEN = 2"
definition PRIORITY_SIZE_HINTS_LIMITS :: nat where "PRIORITY_SIZE_HINTS_LIMITS = 3"
definition PRIORITY_TITLEBAR_VISIBLE :: nat where "PRIORITY_TITLEBAR_VISIBLE = 4"
definition PRIORITY_PARTIALLY_VISIBLE_ON_WORKAREA :: nat where
  "PRIORITY_PARTIALLY_VISIBLE_ON_WORKAREA = 4"
definition PRIORITY_CUSTOM_RULE :: nat where "PRIORITY_CUSTOM_RULE = 4"
definition PRIORITY_EXTERNAL_CONSTRAINT :: nat where "PRIORITY_EXTERNAL_CONSTRAINT = 5"
definition PRIORITY_MAXIMUM :: nat where "PRIORITY_MAXIMUM = 5"

lemmas priorities = PRIORITY_ASPECT_RATIO_def PRIORITY_ENTIRELY_VISIBLE_ON_SINGLE_MONITOR_def
  PRIORITY_ENTIRELY_VISIBLE_ON_WORKAREA_def PRIORITY_SIZE_HINTS_INCREMENTS_def PRIORITY_MAXIMIZATION_def
  PRIORITY_TILING_def PRIORITY_FULLSCREEN_def PRIORITY_SIZE_HINTS_LIMITS_def PRIORITY_TITLEBAR_VISIBLE_def
  PRIORITY_PARTIALLY_VISIBLE_ON_WORKAREA_def PRIORITY_CUSTOM_RULE_def PRIORITY_EXTERNAL_CONSTRAINT_def
  PRIORITY_MAXIMUM_def

section \<open>Helpers\<close>

definition get_start_rect_for_resize :: "constraint_info \<Rightarrow> mtk_rectangle" where
  "get_start_rect_for_resize info =
     (if \<not> is_user_action info \<and> action info = ACTION_MOVE_AND_RESIZE then current info else orig info)"

definition get_size_limits :: "constrained_window \<Rightarrow> mtk_rectangle \<times> mtk_rectangle" where
  "get_size_limits w =
     (let h = hints w
      in (meta_window_client_rect_to_frame_rect w
            \<lparr>rect_x = 0, rect_y = 0, rect_width = min_width h, rect_height = min_height h\<rparr>,
          meta_window_client_rect_to_frame_rect w
            \<lparr>rect_x = 0, rect_y = 0, rect_width = max_width h, rect_height = max_height h\<rparr>))"

definition meta_window_get_tile_area :: "constrain_env \<Rightarrow> meta_tile_mode \<Rightarrow> mtk_rectangle" where
  "meta_window_get_tile_area env mode =
     (let work_area = tile_work_area env;
          width = roundf (real_of_int (rect_width work_area) * tile_fraction env mode);
          tile_area = work_area\<lparr>rect_width := width\<rparr>
      in if mode = META_TILE_RIGHT
         then tile_area\<lparr>rect_x := rect_x tile_area + (rect_width work_area - width)\<rparr>
         else tile_area)"

definition meta_window_process_placement :: "placement_rule \<Rightarrow> int \<times> int" where
  "meta_window_process_placement rule =
     (let a = anchor_rect rule; anchor = placement_anchor rule; g = placement_gravity rule;
          x = (if at_left anchor then rect_x a
               else if at_right anchor then rect_x a + rect_width a
               else rect_x a + rect_width a sdiv 2);
          y = (if at_top anchor then rect_y a
               else if at_bottom anchor then rect_y a + rect_height a
               else rect_y a + rect_height a sdiv 2);
          x = (if at_left g then x - rule_width rule
               else if at_right g then x else x - rule_width rule sdiv 2);
          y = (if at_top g then y - rule_height rule
               else if at_bottom g then y else y - rule_height rule sdiv 2)
      in (x + offset_x rule, y + offset_y rule))"

definition flip_horizontally :: "placement_sides \<Rightarrow> placement_sides" where
  "flip_horizontally s =
     (if at_left s then s\<lparr>at_left := False, at_right := True\<rparr>
      else if at_right s then s\<lparr>at_right := False, at_left := True\<rparr> else s)"

definition flip_vertically :: "placement_sides \<Rightarrow> placement_sides" where
  "flip_vertically s =
     (if at_top s then s\<lparr>at_top := False, at_bottom := True\<rparr>
      else if at_bottom s then s\<lparr>at_bottom := False, at_top := True\<rparr> else s)"

definition placement_rule_flip_horizontally :: "placement_rule \<Rightarrow> placement_rule" where
  "placement_rule_flip_horizontally r =
     r\<lparr>placement_anchor := flip_horizontally (placement_anchor r),
       placement_gravity := flip_horizontally (placement_gravity r)\<rparr>"

definition placement_rule_flip_vertically :: "placement_rule \<Rightarrow> placement_rule" where
  "placement_rule_flip_vertically r =
     r\<lparr>placement_anchor := flip_vertically (placement_anchor r),
       placement_gravity := flip_vertically (placement_gravity r)\<rparr>"

section \<open>Constraints relative to the screen\<close>

definition do_screen_and_monitor_relative_constraints ::
  "constrained_window \<Rightarrow> mtk_rectangle list \<Rightarrow> constraint_info \<Rightarrow> bool \<Rightarrow> bool \<times> constraint_info" where
  "do_screen_and_monitor_relative_constraints w region info check_only =
     (let min_size = fst (get_size_limits w);
          r = current info;
          resizes = (action info \<noteq> ACTION_MOVE);
          smushed = (if resizes \<and> \<not> fixed_x (fixed_dirs info)
                     then r\<lparr>rect_width := rect_width min_size\<rparr> else r);
          smushed = (if resizes \<and> \<not> fixed_y (fixed_dirs info)
                     then smushed\<lparr>rect_height := rect_height min_size\<rparr> else smushed);
          exit_early = (\<not> meta_rectangle_could_fit_in_region region smushed);
          constraint_satisfied = meta_rectangle_contained_in_region region r
      in if exit_early \<or> constraint_satisfied \<or> check_only then (constraint_satisfied, info)
         else
           (let r1 = (if resizes then meta_rectangle_clamp_to_fit_into_region region (fixed_dirs info) r min_size
                      else r);
                r2 = (if is_user_action info \<and> action info = ACTION_RESIZE
                      then meta_rectangle_clip_to_region region (fixed_dirs info) r1
                      else meta_rectangle_shove_into_region region (fixed_dirs info) r1)
            in (True, info\<lparr>current := r2\<rparr>)))"

definition is_desktop_or_dock :: "constrained_window \<Rightarrow> bool" where
  "is_desktop_or_dock w \<longleftrightarrow> win_type w = META_WINDOW_DESKTOP \<or> win_type w = META_WINDOW_DOCK"

definition constrain_to_single_monitor :: cfunc where
  "constrain_to_single_monitor env priority check_only s =
     (let w = fst s; info = snd s
      in if priority > PRIORITY_ENTIRELY_VISIBLE_ON_SINGLE_MONITOR then Some (True, s)
         else if is_desktop_or_dock w \<or> n_monitors env = 1 \<or> \<not> require_on_single_monitor w \<or>
            (if is_x11_client w then x11_frame w = None else True) \<or> is_user_action info \<or>
            mtk_rectangle_is_empty (current info) \<or> the_rule (placement w) \<noteq> None
         then Some (True, s)
         else
           (let (ok, info) = do_screen_and_monitor_relative_constraints w (usable_monitor_region info) info check_only
            in Some (ok, (w, info))))"

definition constrain_fully_onscreen :: cfunc where
  "constrain_fully_onscreen env priority check_only s =
     (let w = fst s; info = snd s
      in if priority > PRIORITY_ENTIRELY_VISIBLE_ON_WORKAREA then Some (True, s)
         else if is_desktop_or_dock w \<or> is_fullscreen w \<or> \<not> require_fully_onscreen w \<or> is_user_action info \<or>
            mtk_rectangle_is_empty (current info) \<or> the_rule (placement w) \<noteq> None
         then Some (True, s)
         else
           (let (ok, info) = do_screen_and_monitor_relative_constraints w (usable_screen_region info) info check_only
            in Some (ok, (w, info))))"

text \<open>How much must stay on the screen, horizontally and vertically, and how much may leave it.\<close>

definition amount_onscreen :: "int \<Rightarrow> int" where
  "amount_onscreen len = CLAMP (len sdiv 4) 10 75"

definition amount_offscreen :: "int \<Rightarrow> int" where
  "amount_offscreen len = max (len - amount_onscreen len) 0"

text \<open>The region is expanded in place, the constraint applied, and the region shrunk again.\<close>

definition constrain_expanded ::
  "bool \<Rightarrow> bool \<Rightarrow> cstate \<Rightarrow> bool \<times> cstate" where
  "constrain_expanded titlebar_off check_only s =
     (let w = fst s; info = snd s; r = current info;
          horiz_off = amount_offscreen (rect_width r);
          vert_off = amount_offscreen (rect_height r);
          top_amount = (if titlebar_off then vert_off else 0);
          (bottom_amount, vert_on) =
            (case frame_borders w of
               Some b \<Rightarrow> (rect_height r - fb_top b, fb_top b)
             | None \<Rightarrow> (vert_off, amount_onscreen (rect_height r)));
          horiz_on = amount_onscreen (rect_width r);
          info = info\<lparr>usable_screen_region :=
            meta_rectangle_expand_region_conditionally (usable_screen_region info)
              horiz_off horiz_off top_amount bottom_amount horiz_on vert_on\<rparr>;
          (retval, info) =
            do_screen_and_monitor_relative_constraints w (usable_screen_region info) info check_only
      in (retval, (w, info\<lparr>usable_screen_region :=
            meta_rectangle_expand_region_conditionally (usable_screen_region info)
              (- horiz_off) (- horiz_off) (- top_amount) (- bottom_amount) horiz_on vert_on\<rparr>)))"

definition constrain_titlebar_visible :: cfunc where
  "constrain_titlebar_visible env priority check_only s =
     (let w = fst s; info = snd s;
          unconstrained_user_action = (is_user_action info \<and>
            (case current_drag env of None \<Rightarrow> True | Some d \<Rightarrow> fst d));
          user_nonnorthern_resize = (is_user_action info \<and>
            (case current_drag env of None \<Rightarrow> False | Some d \<Rightarrow> snd d) \<and>
            rect_y (orig info) = rect_y (current info))
      in if priority > PRIORITY_TITLEBAR_VISIBLE then Some (True, s)
         else if is_desktop_or_dock w \<or> is_fullscreen w \<or> \<not> require_titlebar_visible w \<or>
            unconstrained_user_action \<or> user_nonnorthern_resize \<or>
            mtk_rectangle_is_empty (current info) \<or> the_rule (placement w) \<noteq> None
         then Some (True, s)
         else Some (constrain_expanded False check_only s))"

definition constrain_partially_onscreen :: cfunc where
  "constrain_partially_onscreen env priority check_only s =
     (if priority > PRIORITY_PARTIALLY_VISIBLE_ON_WORKAREA then Some (True, s)
      else if is_desktop_or_dock (fst s) \<or> mtk_rectangle_is_empty (current (snd s)) \<or>
         the_rule (placement (fst s)) \<noteq> None
      then Some (True, s)
      else Some (constrain_expanded True check_only s))"

end
