(* ===== verification/Constrain_Window.thy ===== *)
theory Constrain_Window
  imports Window_Constraints
begin

text \<open>
  The other constraints of \<open>mutter/src/core/constraints.c\<close>, the passes over all of them, and
  \<open>meta_window_constrain\<close>.
\<close>

section \<open>Dialogs, maximized, tiled and fullscreen windows\<close>

definition constrain_modal_dialog :: cfunc where
  "constrain_modal_dialog env priority check_only s =
     (let w = fst s; info = snd s
      in case transient_parent w of
           None \<Rightarrow> Some (True, s)
         | Some parent \<Rightarrow>
             if \<not> attached_dialog w \<or> the_rule (placement w) \<noteq> None \<or> is_fullscreen w then Some (True, s)
             else
               (let p = parent_frame parent; c = current info;
                    x = rect_x p + (rect_width p sdiv 2 - rect_width c sdiv 2);
                    y = rect_y p + (rect_height p sdiv 2 - rect_height c sdiv 2);
                    constraint_already_satisfied = (x = rect_x c \<and> y = rect_y c)
                in if check_only \<or> constraint_already_satisfied then Some (constraint_already_satisfied, s)
                   else
                     (let info = info\<lparr>current := c\<lparr>rect_y := y, rect_x := x\<rparr>\<rparr>;
                          (ok, info) = do_screen_and_monitor_relative_constraints w (usable_screen_region info) info check_only
                      in Some (ok, (w, info)))))"

definition maximized_target :: "constrain_env \<Rightarrow> cstate \<Rightarrow> mtk_rectangle" where
  "maximized_target env s =
     (let w = fst s; info = snd s
      in if meta_window_is_maximized w \<and> tile_mode w = META_TILE_MAXIMIZED
         then meta_window_get_tile_area env (tile_mode w)
         else if meta_window_is_maximized w then work_area_monitor info
         else meta_rectangle_expand_to_avoiding_struts (current info) (entire_monitor info)
                (if max_horizontally w then META_DIRECTION_HORIZONTAL else META_DIRECTION_VERTICAL)
                (all_struts env))"

definition constrain_maximization :: cfunc where
  "constrain_maximization env priority check_only s =
     (let w = fst s; info = snd s; c = current info
      in if priority > PRIORITY_MAXIMIZATION then Some (True, s)
         else if \<not> meta_window_config_is_any_maximized w \<or> meta_window_is_tiled_side_by_side w
         then Some (True, s)
         else
           (let target_size = maximized_target env s;
                min_size = fst (get_size_limits w);
                hminbad = (rect_width target_size < rect_width min_size \<and> max_horizontally w);
                vminbad = (rect_height target_size < rect_height min_size \<and> max_vertically w);
                horiz_equal = (rect_x target_size = rect_x c \<and> rect_width target_size = rect_width c);
                vert_equal = (rect_y target_size = rect_y c \<and> rect_height target_size = rect_height c);
                constraint_already_satisfied =
                  ((horiz_equal \<or> \<not> max_horizontally w) \<and> (vert_equal \<or> \<not> max_vertically w))
            in if hminbad \<or> vminbad then Some (True, s)
               else if check_only \<or> constraint_already_satisfied then Some (constraint_already_satisfied, s)
               else
                 (let c = (if max_horizontally w
                           then c\<lparr>rect_x := rect_x target_size, rect_width := rect_width target_size\<rparr> else c);
                      c = (if max_vertically w
                           then c\<lparr>rect_y := rect_y target_size, rect_height := rect_height target_size\<rparr> else c)
                  in Some (True, (w, info\<lparr>current := c\<rparr>)))))"

definition constrain_tiling :: cfunc where
  "constrain_tiling env priority check_only s =
     (let w = fst s; info = snd s; c = current info
      in if priority > PRIORITY_TILING then Some (True, s)
         else if \<not> meta_window_is_tiled_side_by_side w then Some (True, s)
         else
           (let target_size = meta_window_get_tile_area env (tile_mode w);
                min_size = fst (get_size_limits w);
                constraint_already_satisfied =
                  (rect_x target_size = rect_x c \<and> rect_width target_size = rect_width c \<and>
                   rect_y target_size = rect_y c \<and> rect_height target_size = rect_height c)
            in if rect_width target_size < rect_width min_size \<or> rect_height target_size < rect_height min_size
               then Some (True, s)
               else if check_only \<or> constraint_already_satisfied then Some (constraint_already_satisfied, s)
               else Some (True, (w, info\<lparr>current := target_size\<rparr>))))"

definition constrain_fullscreen :: cfunc where
  "constrain_fullscreen env priority check_only s =
     (let w = fst s; info = snd s; monitor = entire_monitor info;
          (min_size, max_size) = get_size_limits w
      in if priority > PRIORITY_FULLSCREEN then Some (True, s)
         else if \<not> is_fullscreen w then Some (True, s)
         else if is_x11_client w \<and>
            (\<not> mtk_rectangle_could_fit_rect monitor min_size \<or> \<not> mtk_rectangle_could_fit_rect max_size monitor)
         then Some (True, s)
         else
           (let constraint_already_satisfied = mtk_rectangle_equal (current info) monitor
            in if check_only \<or> constraint_already_satisfied then Some (constraint_already_satisfied, s)
               else Some (True, (w, info\<lparr>current := monitor\<rparr>))))"

section \<open>Size hints\<close>

text \<open>One axis of the increments: the new size of the client.\<close>

definition increment_size :: "int \<Rightarrow> int \<Rightarrow> int \<Rightarrow> int \<Rightarrow> int" where
  "increment_size len extra inc minimum =
     (let new_size = len - extra
      in if new_size < minimum then new_size + ((minimum - new_size) sdiv inc + 1) * inc else new_size)"

definition constrain_size_increments :: cfunc where
  "constrain_size_increments env priority check_only s =
     (let w = fst s; info = snd s; h = hints w
      in if priority > PRIORITY_SIZE_HINTS_INCREMENTS then Some (True, s)
         else if meta_window_is_maximized w \<or> is_fullscreen w \<or> meta_window_is_tiled_side_by_side w \<or>
            action info = ACTION_MOVE
         then Some (True, s)
         else if height_step h = 0 \<or> width_step h = 0 then None
         else
           (let client_rect = meta_window_frame_rect_to_client_rect w (current info);
                extra_height = (if max_vertically w then 0
                  else (rect_height client_rect - base_height h) smod height_step h);
                extra_width = (if max_horizontally w then 0
                  else (rect_width client_rect - base_width h) smod width_step h);
                constraint_already_satisfied = (extra_height = 0 \<and> extra_width = 0)
            in if check_only \<or> constraint_already_satisfied then Some (constraint_already_satisfied, s)
               else
                 (let frame = meta_window_client_rect_to_frame_rect w
                        (client_rect\<lparr>rect_width := increment_size (rect_width client_rect) extra_width (width_step h) (min_width h),
                           rect_height := increment_size (rect_height client_rect) extra_height (height_step h) (min_height h)\<rparr>)
                  in Some (True, (w, info\<lparr>current := meta_rectangle_resize_with_gravity
                       (get_start_rect_for_resize info) (gravity info) (rect_width frame) (rect_height frame)\<rparr>)))))"

text \<open>The limits in force: a maximized direction has no maximum below the size it has.\<close>

definition limits_in_force :: "constrained_window \<Rightarrow> mtk_rectangle \<Rightarrow> mtk_rectangle \<times> mtk_rectangle" where
  "limits_in_force w c =
     (let (min_size, max_size) = get_size_limits w;
          max_size = (if max_horizontally w
            then max_size\<lparr>rect_width := max (rect_width max_size) (rect_width c)\<rparr> else max_size);
          max_size = (if max_vertically w
            then max_size\<lparr>rect_height := max (rect_height max_size) (rect_height c)\<rparr> else max_size)
      in (min_size, max_size))"

definition constrain_size_limits :: cfunc where
  "constrain_size_limits env priority check_only s =
     (let w = fst s; info = snd s; c = current info
      in if priority > PRIORITY_SIZE_HINTS_LIMITS then Some (True, s)
         else if action info = ACTION_MOVE then Some (True, s)
         else if \<not> is_x11_client w \<and> is_fullscreen w then Some (True, s)
         else if mtk_rectangle_is_empty c then Some (True, s)
         else if finish_move_resize (info_flags info) then Some (True, s)
         else
           (let (min_size, max_size) = limits_in_force w c;
                too_small = (\<not> mtk_rectangle_could_fit_rect c min_size);
                too_big = (\<not> mtk_rectangle_could_fit_rect max_size c);
                constraint_already_satisfied = (\<not> too_big \<and> \<not> too_small)
            in if check_only \<or> constraint_already_satisfied then Some (constraint_already_satisfied, s)
               else Some (True, (w, info\<lparr>current := meta_rectangle_resize_with_gravity
                    (get_start_rect_for_resize info) (gravity info)
                    (CLAMP (rect_width c) (rect_width min_size) (rect_width max_size))
                    (CLAMP (rect_height c) (rect_height min_size) (rect_height max_size))\<rparr>))))"

definition aspect_fudge :: "meta_gravity \<Rightarrow> real" where
  "aspect_fudge g =
     (if g \<in> {META_GRAVITY_WEST, META_GRAVITY_NORTH, META_GRAVITY_SOUTH, META_GRAVITY_EAST} then 2 else 1)"

text \<open>The size of the client that the aspect constraint asks for.\<close>

definition aspect_size :: "meta_gravity \<Rightarrow> real \<Rightarrow> real \<Rightarrow> int \<Rightarrow> int \<Rightarrow> int \<times> int" where
  "aspect_size g minr maxr width height =
     (let w = real_of_int width; h = real_of_int height
      in if g \<in> {META_GRAVITY_WEST, META_GRAVITY_EAST}
         then (width, c_trunc (CLAMP h (w / maxr) (w / minr)))
         else if g \<in> {META_GRAVITY_NORTH, META_GRAVITY_SOUTH}
         then (c_trunc (CLAMP w (h * minr) (h * maxr)), height)
         else
           (let alt_width = CLAMP w (h * minr) (h * maxr);
                alt_height = CLAMP h (w / maxr) (w / minr);
                (best_width, best_height) =
                  meta_rectangle_find_linepoint_closest_to_point alt_width h w alt_height w h
            in (c_trunc best_width, c_trunc best_height)))"

text \<open>A quotient of doubles by 0 is infinite or no number; that case is not modelled and gives \<^const>\<open>None\<close>.\<close>

definition constrain_aspect_ratio :: cfunc where
  "constrain_aspect_ratio env priority check_only s =
     (let w = fst s; info = snd s; h = hints w
      in if priority > PRIORITY_ASPECT_RATIO then Some (True, s)
         else if snd (min_aspect h) = 0 \<or> snd (max_aspect h) = 0 then None
         else
           (let minr = real_of_int (fst (min_aspect h)) / real_of_int (snd (min_aspect h));
                maxr = real_of_int (fst (max_aspect h)) / real_of_int (snd (max_aspect h))
            in if minr > maxr \<or> meta_window_is_maximized w \<or> is_fullscreen w \<or>
                  meta_window_is_tiled_side_by_side w \<or> action info = ACTION_MOVE
               then Some (True, s)
               else
                 (let client_rect = meta_window_frame_rect_to_client_rect w (current info);
                      cw = rect_width client_rect; ch = rect_height client_rect;
                      fudge = aspect_fudge (gravity info);
                      constraint_already_satisfied =
                        (real_of_int cw - real_of_int ch * minr > - minr * fudge \<and>
                         real_of_int cw - real_of_int ch * maxr < maxr * fudge)
                  in if check_only \<or> constraint_already_satisfied then Some (constraint_already_satisfied, s)
                     else if gravity info \<notin> {META_GRAVITY_NORTH, META_GRAVITY_SOUTH} \<and> (minr = 0 \<or> maxr = 0) then None
                     else
                       (let (nw, nh) = aspect_size (gravity info) minr maxr cw ch;
                            frame = meta_window_client_rect_to_frame_rect w
                              (client_rect\<lparr>rect_width := nw, rect_height := nh\<rparr>)
                        in Some (True, (w, info\<lparr>current := meta_rectangle_resize_with_gravity
                             (get_start_rect_for_resize info) (gravity info)
                             (rect_width frame) (rect_height frame)\<rparr>))))))"

section \<open>External constraints\<close>

text \<open>The flag starts as TRUE and the results are added to it by a bitwise or.\<close>

definition meta_window_apply_external_constraints ::
  "constrain_env \<Rightarrow> meta_gravity \<Rightarrow> bool \<times> bool \<Rightarrow> mtk_rectangle \<Rightarrow> bool \<times> mtk_rectangle" where
  "meta_window_apply_external_constraints env g fl rect =
     fold (\<lambda>f (ok, r). let (ok', r') = f g fl r in (ok \<or> ok', r')) (external_constraints env) (True, rect)"

definition constrain_external :: cfunc where
  "constrain_external env priority check_only s =
     (let w = fst s; info = snd s
      in if priority > PRIORITY_EXTERNAL_CONSTRAINT then Some (True, s)
         else
           (let (constraint_satisfied, current_rect) =
                  meta_window_apply_external_constraints env (gravity info)
                    (move_action (info_flags info), resize_action (info_flags info)) (current info)
            in if check_only then Some (constraint_satisfied, s)
               else Some (constraint_satisfied, (w, info\<lparr>current := current_rect\<rparr>))))"

section \<open>Popups\<close>

definition is_custom_rule_satisfied :: "mtk_rectangle \<Rightarrow> placement_rule \<Rightarrow> mtk_rectangle \<Rightarrow> bool" where
  "is_custom_rule_satisfied rect rule intersection =
     (let a = adjustment rule
      in \<not> ((slide_x a \<or> resize_x a \<or> flip_x a) \<and> rect_width rect \<noteq> rect_width intersection \<or>
            (slide_y a \<or> resize_y a \<or> flip_y a) \<and> rect_height rect \<noteq> rect_height intersection))"

text \<open>The flipped rule, rectangle, relative position and intersection.\<close>

definition try_flip_window_position ::
  "constrain_env \<Rightarrow> constraint_info \<Rightarrow> (placement_rule \<Rightarrow> placement_rule) \<Rightarrow> placement_rule \<Rightarrow> int \<times> int \<Rightarrow>
   placement_rule \<times> mtk_rectangle \<times> (int \<times> int) \<times> mtk_rectangle" where
  "try_flip_window_position env info flip rule parent_pos =
     (let rule = flip rule;
          rel = meta_window_process_placement rule;
          rect = (current info)\<lparr>rect_x := fst parent_pos + fst rel, rect_y := snd parent_pos + snd rel\<rparr>
      in (rule, rect, rel, snd (mtk_rectangle_intersect rect (work_area_monitor info) (uninit_rect env))))"

text \<open>One flip: taken if it fits, or if more of the window fits.\<close>

definition flip_step ::
  "constrain_env \<Rightarrow> (constraint_adjustment \<Rightarrow> bool) \<Rightarrow> (mtk_rectangle \<Rightarrow> int) \<Rightarrow>
   (placement_rule \<Rightarrow> placement_rule) \<Rightarrow> int \<times> int \<Rightarrow>
   placement_rule \<times> constraint_info \<times> mtk_rectangle \<Rightarrow> placement_rule \<times> constraint_info \<times> mtk_rectangle" where
  "flip_step env allowed len flip parent_pos s =
     (case s of (rule, info, intersection) \<Rightarrow>
       if len (current info) \<noteq> len intersection \<and> allowed (adjustment rule) then
         (case try_flip_window_position env info flip rule parent_pos of
            (flipped_rule, flipped_rect, new_rel, flipped_intersection) \<Rightarrow>
              if len flipped_intersection = len flipped_rect \<or> len flipped_intersection > len intersection
              then (flipped_rule, info\<lparr>current := flipped_rect, rel_pos := new_rel\<rparr>, flipped_intersection)
              else (rule, info, intersection))
       else (rule, info, intersection))"

text \<open>The position one axis slides to.\<close>

definition slide_to :: "int \<Rightarrow> int \<Rightarrow> int \<Rightarrow> int \<Rightarrow> int" where
  "slide_to pos len area_pos area_len =
     (if pos + len > area_pos + area_len then max area_pos (area_pos + area_len - len)
      else if pos < area_pos then area_pos else pos)"

definition slide_info_x :: "constraint_info \<Rightarrow> constraint_info" where
  "slide_info_x info =
     (let c = current info; wa = work_area_monitor info;
          new_x = slide_to (rect_x c) (rect_width c) (rect_x wa) (rect_width wa)
      in info\<lparr>rel_pos := (fst (rel_pos info) + (new_x - rect_x c), snd (rel_pos info)),
              current := c\<lparr>rect_x := new_x\<rparr>\<rparr>)"

definition slide_info_y :: "constraint_info \<Rightarrow> constraint_info" where
  "slide_info_y info =
     (let c = current info; wa = work_area_monitor info;
          new_y = slide_to (rect_y c) (rect_height c) (rect_y wa) (rect_height wa)
      in info\<lparr>rel_pos := (fst (rel_pos info), snd (rel_pos info) + (new_y - rect_y c)),
              current := c\<lparr>rect_y := new_y\<rparr>\<rparr>)"

definition resize_info_x :: "mtk_rectangle \<Rightarrow> constraint_info \<Rightarrow> constraint_info" where
  "resize_info_x intersection info =
     (let c = current info; new_x = rect_x intersection
      in info\<lparr>rel_pos := (fst (rel_pos info) + (new_x - rect_x c), snd (rel_pos info)),
              current := c\<lparr>rect_width := rect_width intersection, rect_x := new_x\<rparr>\<rparr>)"

definition resize_info_y :: "mtk_rectangle \<Rightarrow> constraint_info \<Rightarrow> constraint_info" where
  "resize_info_y intersection info =
     (let c = current info; new_y = rect_y intersection
      in info\<lparr>rel_pos := (fst (rel_pos info), snd (rel_pos info) + (new_y - rect_y c)),
              current := c\<lparr>rect_height := rect_height intersection, rect_y := new_y\<rparr>\<rparr>)"

text \<open>Flip, slide and resize, each only if the rule is not satisfied yet.\<close>

definition adjust_popup ::
  "constrain_env \<Rightarrow> placement_rule \<Rightarrow> int \<times> int \<Rightarrow> constraint_info \<Rightarrow> mtk_rectangle \<Rightarrow> constraint_info" where
  "adjust_popup env rule parent_pos info intersection =
     (let s = flip_step env flip_x rect_width placement_rule_flip_horizontally parent_pos (rule, info, intersection);
          (current_rule, info, intersection) =
            flip_step env flip_y rect_height placement_rule_flip_vertically parent_pos s;
          intersection = snd (mtk_rectangle_intersect (current info) (work_area_monitor info) intersection)
      in if is_custom_rule_satisfied (current info) rule intersection then info
         else
           (let a = adjustment current_rule;
                info = (if slide_x a then slide_info_x info else info);
                info = (if slide_y a then slide_info_y info else info);
                intersection = snd (mtk_rectangle_intersect (current info) (work_area_monitor info) intersection)
            in if is_custom_rule_satisfied (current info) rule intersection then info
               else
                 (let info = (if resize_x a then resize_info_x intersection info else info)
                  in if resize_y a then resize_info_y intersection info else info)))"

definition follow_parent :: "parent_window \<Rightarrow> window_placement \<Rightarrow> placement_rule \<Rightarrow> placement_rule" where
  "follow_parent parent pl rule =
     (if pl_state pl = Constrained_finished
      then rule\<lparr>rule_parent := (rule_parent rule)\<lparr>rect_x := rect_x (parent_config parent),
             rect_y := rect_y (parent_config parent)\<rparr>\<rparr>
      else rule)"

text \<open>Whether the rule is applied anew.\<close>

definition reconstrains :: "window_placement \<Rightarrow> placement_rule \<Rightarrow> bool" where
  "reconstrains pl rule \<longleftrightarrow>
     pl_state pl = Invalidated \<or> pl_state pl = Unconstrained \<or> pl_state pl = Constrained_finished \<and> is_reactive rule"

text \<open>The position that holds until the client has answered.\<close>

definition temporary_position :: "parent_window \<Rightarrow> window_placement \<Rightarrow> mtk_rectangle \<Rightarrow> mtk_rectangle" where
  "temporary_position parent pl c =
     (if pl_state pl = Unconstrained then c
      else c\<lparr>rect_x := rect_x (parent_config parent) + fst (current_rel pl),
             rect_y := rect_y (parent_config parent) + snd (current_rel pl)\<rparr>)"

text \<open>The position before adjustments, and the relative one.\<close>

definition adjusted_unconstrained ::
  "window_placement \<Rightarrow> placement_rule \<Rightarrow> mtk_rectangle \<Rightarrow> mtk_rectangle \<times> (int \<times> int)" where
  "adjusted_unconstrained pl rule temp =
     (if reconstrains pl rule then
        (let rel = meta_window_process_placement rule
         in (temp\<lparr>rect_x := rect_x (rule_parent rule) + fst rel, rect_y := rect_y (rule_parent rule) + snd rel\<rparr>, rel))
      else if pl_state pl = Constrained_pending then
        (temp\<lparr>rect_x := fst (pending_pos pl), rect_y := snd (pending_pos pl)\<rparr>, pending_rel pl)
      else (temp, current_rel pl))"

text \<open>The position is recorded as pending.\<close>

definition record_pending :: "constrained_window \<Rightarrow> constraint_info \<Rightarrow> constrained_window" where
  "record_pending w info =
     w\<lparr>placement := (placement w)\<lparr>pl_state := Constrained_pending, pending_rel := rel_pos info,
         pending_pos := (rect_x (current info), rect_y (current info))\<rparr>\<rparr>"

definition constrain_custom_rule :: cfunc where
  "constrain_custom_rule env priority check_only s =
     (let w = fst s; info = snd s; pl = placement w
      in if priority > PRIORITY_CUSTOM_RULE then Some (True, s)
         else case the_rule pl of
           None \<Rightarrow> Some (True, s)
         | Some rule \<Rightarrow>
         (case transient_parent w of
           None \<Rightarrow> None
         | Some parent \<Rightarrow>
           (let rule = follow_parent parent pl rule;
                w = w\<lparr>placement := pl\<lparr>the_rule := Some rule\<rparr>\<rparr>;
                parent_pos = (rect_x (rule_parent rule), rect_y (rule_parent rule));
                temp = temporary_position parent pl (current info);
                (adjusted, adjusted_rel) = adjusted_unconstrained pl rule temp;
                intersection = snd (mtk_rectangle_intersect adjusted (work_area_monitor info) (uninit_rect env));
                constraint_satisfied = (mtk_rectangle_equal (current info) adjusted \<and>
                  is_custom_rule_satisfied adjusted rule intersection)
            in if check_only then Some (constraint_satisfied, (w, info))
               else
                 (let info = info\<lparr>current := adjusted, rel_pos := adjusted_rel, temporary := temp\<rparr>
                  in if \<not> reconstrains pl rule then Some (True, (w, info))
                     else
                       (let info = (if constraint_satisfied then info
                              else adjust_popup env rule parent_pos info intersection)
                        in Some (True, (record_pending w info, info)))))))"

section \<open>All constraints\<close>

definition all_constraints :: "cfunc list" where
  "all_constraints =
     [constrain_custom_rule, constrain_modal_dialog, constrain_maximization, constrain_tiling,
      constrain_fullscreen, constrain_size_increments, constrain_size_limits, constrain_aspect_ratio,
      constrain_to_single_monitor, constrain_fully_onscreen, constrain_titlebar_visible,
      constrain_partially_onscreen, constrain_external]"

text \<open>After a constraint that is not satisfied no other is called; a pass that enforces returns TRUE.\<close>

fun do_constraints ::
  "cfunc list \<Rightarrow> constrain_env \<Rightarrow> nat \<Rightarrow> bool \<Rightarrow> cstate \<Rightarrow> (bool \<times> cstate) option" where
  "do_constraints [] env priority check_only s = Some (True, s)"
| "do_constraints (f # fs) env priority check_only s =
     Option.bind (f env priority check_only s)
       (\<lambda>(satisfied, s).
          if satisfied then do_constraints fs env priority check_only s
          else Some (\<not> check_only, s))"

definition do_all_constraints :: cfunc where
  "do_all_constraints = do_constraints all_constraints"

fun constrain_loop :: "nat \<Rightarrow> constrain_env \<Rightarrow> nat \<Rightarrow> cstate \<Rightarrow> cstate option" where
  "constrain_loop 0 env priority s = Some s"
| "constrain_loop (Suc n) env priority s =
     Option.bind (do_all_constraints env priority False s) (\<lambda>(_, s).
     Option.bind (do_all_constraints env priority True s) (\<lambda>(satisfied, s).
     if satisfied then Some s else constrain_loop n env (priority + 1) s))"

section \<open>Setting up and finishing\<close>

text \<open>The fixed directions.\<close>

definition fixed_directions_of :: "bool \<Rightarrow> mtk_rectangle \<Rightarrow> mtk_rectangle \<Rightarrow> fixed_directions" where
  "fixed_directions_of user old new =
     (let x_same = (rect_x old = rect_x new \<and> rect_x old + rect_width old = rect_x new + rect_width new);
          y_same = (rect_y old = rect_y new \<and> rect_y old + rect_height old = rect_y new + rect_height new)
      in \<lparr>fixed_x = user \<and> x_same \<and> \<not> y_same, fixed_y = user \<and> y_same \<and> \<not> x_same\<rparr>)"

definition action_of :: "move_resize_flags \<Rightarrow> action_type option" where
  "action_of flags =
     (if move_action flags \<and> resize_action flags then Some ACTION_MOVE_AND_RESIZE
      else if resize_action flags then Some ACTION_RESIZE
      else if move_action flags then Some ACTION_MOVE
      else if finish_move_resize flags then Some ACTION_MOVE
      else None)"

definition constraining_monitor ::
  "constrain_env \<Rightarrow> constrained_window \<Rightarrow> move_resize_flags \<Rightarrow> mtk_rectangle \<Rightarrow> nat option" where
  "constraining_monitor env w flags c =
     (let found =
        (case the_rule (placement w) of
           Some rule \<Rightarrow>
             (let parent = rule_parent rule;
                  rect = (anchor_rect rule)\<lparr>rect_x := rect_x (anchor_rect rule) + rect_x parent,
                           rect_y := rect_y (anchor_rect rule) + rect_y parent\<rparr>
              in case monitor_from_rect env rect of
                   None \<Rightarrow> monitor_from_rect env parent
                 | m \<Rightarrow> m)
         | None \<Rightarrow>
             (case (if rect_invalid flags then None else monitor_from_rect env c) of
                None \<Rightarrow> win_monitor w
              | m \<Rightarrow> m))
      in case found of None \<Rightarrow> primary_monitor env | m \<Rightarrow> m)"

definition entire_monitor_of :: "constrain_env \<Rightarrow> constrained_window \<Rightarrow> nat \<Rightarrow> mtk_rectangle" where
  "entire_monitor_of env w m =
     (case (if is_fullscreen w then fullscreen_mons w else None) of
        Some (t, b, l, r) \<Rightarrow>
          (let u = mtk_rectangle_union (mtk_rectangle_union (mtk_rectangle_union (monitor_rect env t)
                     (monitor_rect env b)) (monitor_rect env l)) (monitor_rect env r)
           in if t = m \<and> b = m \<and> l = m \<and> r = m then adjust_fullscreen env u else u)
      | None \<Rightarrow>
          (if is_fullscreen w then adjust_fullscreen env (monitor_rect env m) else monitor_rect env m))"

definition setup_constraint_info ::
  "constrain_env \<Rightarrow> constrained_window \<Rightarrow> move_resize_flags \<Rightarrow> meta_gravity \<Rightarrow> mtk_rectangle list \<Rightarrow>
   mtk_rectangle \<Rightarrow> mtk_rectangle \<Rightarrow> constraint_info option" where
  "setup_constraint_info env w flags resize_gravity screen_region old new =
     (let c = (if is_x11_client w
               then new\<lparr>rect_width := max 1 (rect_width new), rect_height := max 1 (rect_height new)\<rparr> else new)
      in Option.bind (action_of flags) (\<lambda>act.
         Option.bind (constraining_monitor env w flags c) (\<lambda>m.
         Some \<lparr>orig = old, current = c, temporary = old, rel_pos = (0, 0), action = act,
           is_user_action = user_action flags, gravity = resize_gravity,
           fixed_dirs = fixed_directions_of (user_action flags) old new,
           work_area_monitor = work_area_for env m, entire_monitor = entire_monitor_of env w m,
           usable_screen_region = screen_region, usable_monitor_region = onmonitor_region env m,
           info_flags = flags\<rparr>)))"

definition window_needs_placement :: "constrained_window \<Rightarrow> bool \<Rightarrow> constraint_info \<Rightarrow> bool" where
  "window_needs_placement w calculate info \<longleftrightarrow>
     \<not> placed w \<and> calculate \<and> \<not> meta_window_config_is_any_maximized w \<and> \<not> is_fullscreen w \<and>
     \<not> minimized w \<and> \<not> mtk_rectangle_is_empty (current info)"

text \<open>Free placement may find no monitor at the new place.\<close>

definition place_window_if_needed ::
  "constrain_env \<Rightarrow> bool \<Rightarrow> cstate \<Rightarrow> cstate option" where
  "place_window_if_needed env calculate s =
     (let w = fst s; info = snd s; did_placement = window_needs_placement w calculate info
      in Option.bind
        (if \<not> did_placement then Some info
         else
           (let c = current info
            in map_option (\<lambda>(info, pos). info\<lparr>current := c\<lparr>rect_x := fst pos, rect_y := snd pos\<rparr>,
                                             fixed_dirs := FIXED_DIRECTION_NONE\<rparr>)
              (case the_rule (placement w) of
                 Some rule \<Rightarrow>
                   (let rel = meta_window_process_placement rule
                    in Some (info\<lparr>rel_pos := rel\<rparr>,
                             (rect_x (rule_parent rule) + fst rel, rect_y (rule_parent rule) + snd rel)))
               | None \<Rightarrow>
                   (let pos = window_place env (orig info) c;
                        rect = c\<lparr>rect_x := fst pos, rect_y := snd pos\<rparr>
                    in map_option (\<lambda>m. (info\<lparr>entire_monitor := monitor_rect env m,
                           work_area_monitor := work_area_for env m,
                           usable_monitor_region := onmonitor_region env m\<rparr>, pos))
                         (monitor_from_rect env rect)))))
        (\<lambda>info.
           Some (if reparents_pending w = 0 \<and> (placed w \<or> did_placement) \<and> minimize_after_placement w
                 then (w\<lparr>minimized := True, minimize_after_placement := False\<rparr>, info) else (w, info))))"

definition META_WINDOW_TITLEBAR_HEIGHT :: int where "META_WINDOW_TITLEBAR_HEIGHT = 50"

definition update_onscreen_requirements :: "cstate \<Rightarrow> constrained_window" where
  "update_onscreen_requirements s =
     (let w = fst s; info = snd s
      in if is_desktop_or_dock w \<or> is_fullscreen w then w
         else
           (let w = w\<lparr>require_fully_onscreen :=
                  meta_rectangle_contained_in_region (usable_screen_region info) (current info),
                 require_on_single_monitor :=
                  meta_rectangle_contained_in_region (usable_monitor_region info) (current info)\<rparr>
            in if is_x11_client w \<and> decorated w \<and> x11_frame w \<noteq> None
               then w\<lparr>require_titlebar_visible := meta_rectangle_overlaps_with_region (usable_screen_region info)
                       ((frame_rect w)\<lparr>rect_height := META_WINDOW_TITLEBAR_HEIGHT\<rparr>)\<rparr>
               else w))"

text \<open>The window, the new rectangle, the temporary one, the relative position, and the workspace's
  region, which the constraints change and change back.\<close>

definition meta_window_constrain ::
  "constrain_env \<Rightarrow> constrained_window \<Rightarrow> move_resize_flags \<Rightarrow> bool \<Rightarrow> meta_gravity \<Rightarrow> mtk_rectangle list \<Rightarrow>
   mtk_rectangle \<Rightarrow> mtk_rectangle \<Rightarrow>
   (constrained_window \<times> mtk_rectangle \<times> mtk_rectangle \<times> (int \<times> int) \<times> mtk_rectangle list) option" where
  "meta_window_constrain env w flags calculate resize_gravity screen_region old new =
     Option.bind (setup_constraint_info env w flags resize_gravity screen_region old new) (\<lambda>info.
     Option.bind (place_window_if_needed env calculate (w, info)) (\<lambda>s.
     Option.bind (constrain_loop (PRIORITY_MAXIMUM + 1) env 0 s) (\<lambda>s.
     let info = snd s
     in Some (update_onscreen_requirements s, current info, temporary info, rel_pos info, usable_screen_region info))))"

end
