(* ===== verification/Window_Place.thy ===== *)
theory Window_Place
  imports Constrain_Window
begin

text \<open>
  Where a new window goes (\<open>mutter/src/core/place.c\<close>). A window in a list is its record. The
  preferences, the text direction, the focus window, the monitors and which windows show are
  functions of the environment; sizes are positive, as \<open>window_needs_placement\<close> makes sure.
  A \<open>g_return_if_fail\<close> that fails and a failed assertion are \<^const>\<open>None\<close>.
\<close>

section \<open>The window to place and its surroundings\<close>

record new_window = constrained_window +
  win_id :: window
  user_position :: bool
  program_position :: bool
  showing_for_first_time :: bool
  has_maximize_func :: bool

text \<open>\<open>same_application\<close> tells whether the focus window belongs to the same X11 application.\<close>

record place_env =
  window_of :: "window \<Rightarrow> meta_window"
  listed_windows :: "window list"
  showing_on_its_workspace :: "window \<Rightarrow> bool"
  is_ltr :: bool
  center_new_windows :: bool
  disable_workarounds :: bool
  auto_maximize :: bool
  focus_window :: "window option"
  focus_work_area :: mtk_rectangle
  same_application :: bool
  current_monitor :: "nat option"
  screen :: constrain_env

definition CASCADE_FUZZ :: int where "CASCADE_FUZZ = 15"
definition CASCADE_INTERVAL :: int where "CASCADE_INTERVAL = 50"

section \<open>Orders\<close>

text \<open>A comparison function's result is its sign.\<close>

definition compare_ints :: "int \<Rightarrow> int \<Rightarrow> int" where
  "compare_ints a b = (if a < b then - 1 else if a > b then 1 else 0)"

definition window_distance :: "mtk_rectangle \<Rightarrow> int \<Rightarrow> int \<Rightarrow> bool \<Rightarrow> meta_window \<Rightarrow> int" where
  "window_distance area width height ltr w =
     (let ax = rect_x (frame_rect w) - rect_x area; ay = rect_y (frame_rect w) - rect_y area;
          corner_x = rect_width area sdiv 2 + ((if ltr then - 1 else 1) * width) sdiv 2;
          corner_y = rect_height area sdiv 2 - height sdiv 2
      in (corner_x - ax) * (corner_x - ax) + (corner_y - ay) * (corner_y - ay))"

definition window_distance_cmp ::
  "mtk_rectangle \<Rightarrow> int \<Rightarrow> int \<Rightarrow> bool \<Rightarrow> meta_window \<Rightarrow> meta_window \<Rightarrow> int" where
  "window_distance_cmp area width height ltr a b =
     compare_ints (window_distance area width height ltr a) (window_distance area width height ltr b)"

definition northwest_distance :: "mtk_rectangle \<Rightarrow> meta_window \<Rightarrow> int" where
  "northwest_distance area w =
     (let ax = rect_x (frame_rect w) - rect_x area; ay = rect_y (frame_rect w) - rect_y area
      in ax * ax + ay * ay)"

definition northwest_cmp :: "mtk_rectangle \<Rightarrow> meta_window \<Rightarrow> meta_window \<Rightarrow> int" where
  "northwest_cmp area a b = compare_ints (northwest_distance area a) (northwest_distance area b)"

definition northeast_distance :: "mtk_rectangle \<Rightarrow> meta_window \<Rightarrow> int" where
  "northeast_distance area w =
     (let ax = (rect_x area + rect_width area) - (rect_x (frame_rect w) + rect_width (frame_rect w));
          ay = rect_y (frame_rect w) - rect_y area
      in ax * ax + ay * ay)"

definition northeast_cmp :: "mtk_rectangle \<Rightarrow> meta_window \<Rightarrow> meta_window \<Rightarrow> int" where
  "northeast_cmp area a b = compare_ints (northeast_distance area a) (northeast_distance area b)"

definition leftmost_cmp :: "meta_window \<Rightarrow> meta_window \<Rightarrow> int" where
  "leftmost_cmp a b = compare_ints (rect_x (frame_rect a)) (rect_x (frame_rect b))"

definition rightmost_cmp :: "meta_window \<Rightarrow> meta_window \<Rightarrow> int" where
  "rightmost_cmp a b = - leftmost_cmp a b"

definition topmost_cmp :: "meta_window \<Rightarrow> meta_window \<Rightarrow> int" where
  "topmost_cmp a b = compare_ints (rect_y (frame_rect a)) (rect_y (frame_rect b))"

section \<open>Cascading\<close>

text \<open>What does not change while the cascade is searched: the direction, the work area, the size of
  the window and the first position.\<close>

record cascade =
  c_ltr :: bool
  c_area :: mtk_rectangle
  c_width :: int
  c_height :: int
  c_origin :: "int \<times> int"

definition near_cascade :: "cascade \<Rightarrow> int \<times> int \<Rightarrow> meta_window \<Rightarrow> bool" where
  "near_cascade c pos w =
     (let f = frame_rect w
      in (if c_ltr c then \<bar>rect_x f - fst pos\<bar> < CASCADE_FUZZ
          else \<bar>(rect_x f + rect_width f) - (fst pos + c_width c)\<bar> < CASCADE_FUZZ) \<and>
         \<bar>rect_y f - snd pos\<bar> < CASCADE_FUZZ)"

definition cascade_after :: "cascade \<Rightarrow> meta_window \<Rightarrow> int \<times> int" where
  "cascade_after c w =
     (let f = frame_rect w
      in (if c_ltr c then rect_x f + META_WINDOW_TITLEBAR_HEIGHT
          else rect_x f + rect_width f - META_WINDOW_TITLEBAR_HEIGHT - c_width c,
          rect_y f + META_WINDOW_TITLEBAR_HEIGHT))"

definition off_cascade_area :: "cascade \<Rightarrow> int \<times> int \<Rightarrow> bool" where
  "off_cascade_area c pos \<longleftrightarrow>
     fst pos + c_width c > rect_x (c_area c) + rect_width (c_area c) \<or> fst pos < rect_x (c_area c) \<or>
     snd pos + c_height c > rect_y (c_area c) + rect_height (c_area c)"

definition cascade_start :: "cascade \<Rightarrow> int \<Rightarrow> int \<times> int" where
  "cascade_start c stage =
     (if c_ltr c then fst (c_origin c) + CASCADE_INTERVAL * stage else fst (c_origin c) - CASCADE_INTERVAL * stage,
      snd (c_origin c))"

definition room_for_cascade :: "cascade \<Rightarrow> int \<times> int \<Rightarrow> bool" where
  "room_for_cascade c pos \<longleftrightarrow>
     fst pos + c_width c < rect_x (c_area c) + rect_width (c_area c) \<and> fst pos \<ge> rect_x (c_area c)"

text \<open>The loop over the sorted windows, which starts over for each new cascade.\<close>

function cascade_loop ::
  "cascade \<Rightarrow> meta_window list \<Rightarrow> meta_window list \<Rightarrow> int \<Rightarrow> int \<times> int \<Rightarrow> int \<times> int" where
  "cascade_loop c sorted_list [] stage pos = pos"
| "cascade_loop c sorted_list (w # ws) stage pos =
     (if \<not> near_cascade c pos w then cascade_loop c sorted_list ws stage pos
      else if \<not> off_cascade_area c (cascade_after c w) then
        cascade_loop c sorted_list ws stage (cascade_after c w)
      else if room_for_cascade c (cascade_start c (stage + 1)) then
        cascade_loop c sorted_list sorted_list (stage + 1) (cascade_start c (stage + 1))
      else c_origin c)"
  by pat_completeness auto

definition stages_left :: "cascade \<Rightarrow> int \<Rightarrow> nat" where
  "stages_left c stage =
     (if c_ltr c
      then nat (rect_x (c_area c) + rect_width (c_area c) - c_width c - fst (cascade_start c stage))
      else nat (fst (cascade_start c stage) - rect_x (c_area c) + 1))"

lemma stages_left_decrease:
  "room_for_cascade c (cascade_start c (stage + 1)) \<Longrightarrow> stages_left c (stage + 1) < stages_left c stage"
  by (auto simp: room_for_cascade_def stages_left_def cascade_start_def CASCADE_INTERVAL_def algebra_simps)

termination cascade_loop
  by (relation "measures [\<lambda>(c, xs, ws, stage, pos). stages_left c stage, \<lambda>(c, xs, ws, stage, pos). length ws]")
    (auto simp: stages_left_decrease)

definition cascade_of :: "place_env \<Rightarrow> mtk_rectangle \<Rightarrow> int \<Rightarrow> int \<Rightarrow> bool \<Rightarrow> cascade" where
  "cascade_of p area width height centered =
     (let adjusted_center_x = rect_x area + rect_width area sdiv 2 - width sdiv 2;
          adjusted_center_y = rect_y area + rect_height area sdiv 2 - height sdiv 2;
          origin_x = (if centered then adjusted_center_x
                      else if is_ltr p then max 0 (rect_x area)
                      else rect_x area + rect_width area - width);
          origin_y = max 0 (if centered then adjusted_center_y else rect_y area)
      in \<lparr>c_ltr = is_ltr p, c_area = area, c_width = width, c_height = height, c_origin = (origin_x, origin_y)\<rparr>)"

definition cascade_order :: "place_env \<Rightarrow> mtk_rectangle \<Rightarrow> int \<Rightarrow> int \<Rightarrow> bool \<Rightarrow> meta_window \<Rightarrow> meta_window \<Rightarrow> int" where
  "cascade_order p area width height centered =
     (if centered then window_distance_cmp area width height (is_ltr p)
      else if is_ltr p then northwest_cmp area else northeast_cmp area)"

definition find_next_cascade ::
  "place_env \<Rightarrow> mtk_rectangle \<Rightarrow> meta_window list \<Rightarrow> int \<Rightarrow> int \<Rightarrow> bool \<Rightarrow> int \<times> int" where
  "find_next_cascade p area ws width height centered =
     (let sorted_list = g_list_sort (cascade_order p area width height centered) ws;
          c = cascade_of p area width height centered
      in cascade_loop c sorted_list sorted_list 0 (c_origin c))"

section \<open>First fit\<close>

fun rectangle_overlaps_some_window :: "mtk_rectangle \<Rightarrow> meta_window list \<Rightarrow> bool" where
  "rectangle_overlaps_some_window rect [] = False"
| "rectangle_overlaps_some_window rect (w # ws) =
     (if win_type w \<in> {META_WINDOW_NORMAL, META_WINDOW_UTILITY, META_WINDOW_TOOLBAR, META_WINDOW_MENU} \<and>
         fst (mtk_rectangle_intersect rect (frame_rect w) rect)
      then True else rectangle_overlaps_some_window rect ws)"

definition center_tile_rect_in_area :: "bool \<Rightarrow> mtk_rectangle \<Rightarrow> mtk_rectangle \<Rightarrow> mtk_rectangle" where
  "center_tile_rect_in_area ltr rect area =
     (let fluff_x = (rect_width area smod (rect_width rect + 1)) sdiv 2;
          fluff_y = (rect_height area smod (rect_height rect + 1)) sdiv 3
      in rect\<lparr>rect_x := (if ltr then rect_x area + fluff_x
                          else rect_x area + rect_width area - rect_width rect - fluff_x),
              rect_y := rect_y area + fluff_y\<rparr>)"

definition is_free_place :: "mtk_rectangle \<Rightarrow> meta_window list \<Rightarrow> mtk_rectangle \<Rightarrow> bool" where
  "is_free_place area ws rect \<longleftrightarrow>
     mtk_rectangle_contains_rect area rect \<and> \<not> rectangle_overlaps_some_window rect ws"

definition below_place :: "mtk_rectangle \<Rightarrow> meta_window \<Rightarrow> mtk_rectangle" where
  "below_place rect w =
     (let f = frame_rect w in rect\<lparr>rect_x := rect_x f, rect_y := rect_y f + rect_height f\<rparr>)"

definition beside_place :: "bool \<Rightarrow> mtk_rectangle \<Rightarrow> meta_window \<Rightarrow> mtk_rectangle" where
  "beside_place ltr rect w =
     (let f = frame_rect w
      in rect\<lparr>rect_x := (if ltr then rect_x f + rect_width f else rect_x f - rect_width rect), rect_y := rect_y f\<rparr>)"

text \<open>One loop over a list of windows, \<open>obstacles\<close> being the whole list.\<close>

fun try_places ::
  "mtk_rectangle \<Rightarrow> meta_window list \<Rightarrow> (meta_window \<Rightarrow> mtk_rectangle) \<Rightarrow> meta_window list \<Rightarrow> mtk_rectangle option" where
  "try_places area obstacles place [] = None"
| "try_places area obstacles place (w # ws) =
     (if is_free_place area obstacles (place w) then Some (place w) else try_places area obstacles place ws)"

definition below_sorted :: "bool \<Rightarrow> meta_window list \<Rightarrow> meta_window list" where
  "below_sorted ltr ws = g_list_sort topmost_cmp (g_list_sort (if ltr then leftmost_cmp else rightmost_cmp) ws)"

definition end_sorted :: "bool \<Rightarrow> meta_window list \<Rightarrow> meta_window list" where
  "end_sorted ltr ws = g_list_sort (if ltr then leftmost_cmp else rightmost_cmp) (g_list_sort topmost_cmp ws)"

text \<open>\<^const>\<open>None\<close> when it returns FALSE and leaves the position alone.\<close>

definition find_first_fit ::
  "place_env \<Rightarrow> meta_window list \<Rightarrow> mtk_rectangle \<Rightarrow> int \<Rightarrow> int \<Rightarrow> (int \<times> int) option" where
  "find_first_fit p ws area width height =
     (let rect = center_tile_rect_in_area (is_ltr p) (mtk_rectangle_new 0 0 width height) area
      in map_option (\<lambda>r. (rect_x r, rect_y r))
        (if is_free_place area ws rect then Some rect
         else case try_places area (below_sorted (is_ltr p) ws) (below_place rect) (below_sorted (is_ltr p) ws) of
           Some r \<Rightarrow> Some r
         | None \<Rightarrow>
             try_places area (end_sorted (is_ltr p) ws) (beside_place (is_ltr p) rect) (end_sorted (is_ltr p) ws)))"

section \<open>Beside the focus window\<close>

datatype window_direction = META_LEFT | META_RIGHT | META_TOP | META_BOTTOM

text \<open>The space on a side of \<open>avoid\<close>, and the area of the window that the side can show.\<close>

fun side_space :: "mtk_rectangle \<Rightarrow> mtk_rectangle \<Rightarrow> window_direction \<Rightarrow> int" where
  "side_space area avoid META_LEFT = rect_x avoid - rect_x area"
| "side_space area avoid META_RIGHT = rect_width area - (rect_x avoid + rect_width avoid - rect_x area)"
| "side_space area avoid META_TOP = rect_y avoid - rect_y area"
| "side_space area avoid META_BOTTOM = rect_height area - (rect_y avoid + rect_height avoid - rect_y area)"

definition side_area :: "mtk_rectangle \<Rightarrow> mtk_rectangle \<Rightarrow> mtk_rectangle \<Rightarrow> window_direction \<Rightarrow> int" where
  "side_area area avoid frame side =
     (if side = META_LEFT \<or> side = META_RIGHT
      then min (side_space area avoid side) (rect_width frame) * min (rect_height avoid) (rect_height frame)
      else min (side_space area avoid side) (rect_height frame) * min (rect_width avoid) (rect_width frame))"

definition best_side :: "(window_direction \<Rightarrow> int) \<Rightarrow> window_direction \<times> int" where
  "best_side f =
     (let s = (META_LEFT, f META_LEFT);
          s = (if f META_RIGHT > snd s then (META_RIGHT, f META_RIGHT) else s);
          s = (if f META_TOP > snd s then (META_TOP, f META_TOP) else s)
      in if f META_BOTTOM > snd s then (META_BOTTOM, f META_BOTTOM) else s)"

definition beside :: "mtk_rectangle \<Rightarrow> mtk_rectangle \<Rightarrow> mtk_rectangle \<Rightarrow> window_direction \<Rightarrow> int \<times> int" where
  "beside area avoid frame side =
     (let w = rect_width frame; h = rect_height frame; space = side_space area avoid side
      in case side of
           META_LEFT \<Rightarrow> (if space > w then rect_x avoid - w else rect_x area, rect_y avoid)
         | META_RIGHT \<Rightarrow>
             (if space > w then rect_x avoid + rect_width avoid else rect_x area + rect_width area - w, rect_y avoid)
         | META_TOP \<Rightarrow> (rect_x avoid, if space > h then rect_y avoid - h else rect_y area)
         | META_BOTTOM \<Rightarrow>
             (rect_x avoid,
              if space > h then rect_y avoid + rect_height avoid else rect_y area + rect_height area - h))"

definition find_most_freespace ::
  "mtk_rectangle \<Rightarrow> mtk_rectangle \<Rightarrow> mtk_rectangle \<Rightarrow> int \<times> int \<Rightarrow> int \<times> int" where
  "find_most_freespace area avoid frame pos =
     (let (side, max_area) = best_side (side_area area avoid frame)
      in if max_area = 0 then pos else beside area avoid frame side)"

definition window_overlaps_focus_window :: "place_env \<Rightarrow> new_window \<Rightarrow> int \<times> int \<Rightarrow> bool" where
  "window_overlaps_focus_window p w pos =
     (case focus_window p of
        None \<Rightarrow> False
      | Some f \<Rightarrow> fst (mtk_rectangle_intersect ((frame_rect w)\<lparr>rect_x := fst pos, rect_y := snd pos\<rparr>)
                    (frame_rect (window_of p f)) (frame_rect w)))"

definition window_place_centered :: "place_env \<Rightarrow> new_window \<Rightarrow> bool" where
  "window_place_centered p w \<longleftrightarrow>
     win_type w \<in> {META_WINDOW_DIALOG, META_WINDOW_MODAL_DIALOG, META_WINDOW_SPLASHSCREEN} \<or>
     win_type w = META_WINDOW_NORMAL \<and> center_new_windows p"

definition avoid_being_obscured_as_second_modal_dialog ::
  "place_env \<Rightarrow> new_window \<Rightarrow> bool \<Rightarrow> int \<times> int \<Rightarrow> int \<times> int" where
  "avoid_being_obscured_as_second_modal_dialog p w denied pos =
     (case focus_window p of
        None \<Rightarrow> pos
      | Some f \<Rightarrow>
          (if denied \<and> win_type w = META_WINDOW_MODAL_DIALOG \<and> same_application p \<and>
              window_overlaps_focus_window p w pos
           then find_most_freespace (focus_work_area p) (frame_rect (window_of p f)) (frame_rect w) pos
           else pos))"

section \<open>Placing a window\<close>

text \<open>Each window is prepended.\<close>

definition find_windows_relevant_for_placement :: "place_env \<Rightarrow> new_window \<Rightarrow> meta_window list" where
  "find_windows_relevant_for_placement p w =
     map (window_of p) (rev (filter
       (\<lambda>v. v \<noteq> win_id w \<and> showing_on_its_workspace p v \<and>
         (on_all_workspaces w \<or>
          (case win_workspace w of
             None \<Rightarrow> on_all_workspaces (window_of p v) \<or> win_workspace (window_of p v) = None
           | Some ws \<Rightarrow> meta_window_located_on_workspace (window_of p v) ws)))
       (listed_windows p)))"

definition placing_monitor :: "place_env \<Rightarrow> new_window \<Rightarrow> nat option" where
  "placing_monitor p w =
     (case (if showing_for_first_time w then current_monitor p else win_monitor w) of
        None \<Rightarrow> primary_monitor (screen p)
      | m \<Rightarrow> m)"

text \<open>The types that are placed, and whether the window keeps the position it asks for.\<close>

definition placed_type :: "meta_window_type \<Rightarrow> bool" where
  "placed_type t \<longleftrightarrow>
     t \<in> {META_WINDOW_NORMAL, META_WINDOW_DIALOG, META_WINDOW_MODAL_DIALOG, META_WINDOW_SPLASHSCREEN}"

definition keeps_position :: "place_env \<Rightarrow> new_window \<Rightarrow> bool" where
  "keeps_position p w \<longleftrightarrow>
     (if disable_workarounds p then win_type w = META_WINDOW_NORMAL \<and> user_position w
      else program_position w \<or> user_position w)"

definition centers_over_parent :: "new_window \<Rightarrow> bool" where
  "centers_over_parent w \<longleftrightarrow>
     (win_type w = META_WINDOW_DIALOG \<or> win_type w = META_WINDOW_MODAL_DIALOG \<or>
      \<not> is_x11_client w \<and> win_type w = META_WINDOW_NORMAL) \<and> transient_parent w \<noteq> None"

definition over_parent :: "mtk_rectangle \<Rightarrow> int \<Rightarrow> int \<Rightarrow> int \<times> int" where
  "over_parent f width height =
     (rect_x f + rect_width f sdiv 2 - width sdiv 2, rect_y f + (rect_height f - height) sdiv 3)"

text \<open>The place among the other windows.\<close>

definition origin_place ::
  "place_env \<Rightarrow> new_window \<Rightarrow> meta_window list \<Rightarrow> mtk_rectangle \<Rightarrow> int \<Rightarrow> int \<Rightarrow> int \<times> int" where
  "origin_place p w ws area width height =
     (if window_place_centered p w then find_next_cascade p area ws width height True
      else case find_first_fit p ws area width height of
        Some pos \<Rightarrow> pos
      | None \<Rightarrow> find_next_cascade p area ws width height False)"

text \<open>A window that was denied the focus keeps clear of the focus window.\<close>

definition avoid_focus ::
  "place_env \<Rightarrow> new_window \<Rightarrow> nat \<Rightarrow> mtk_rectangle \<Rightarrow> int \<Rightarrow> int \<Rightarrow> int \<times> int \<Rightarrow> (int \<times> int) option" where
  "avoid_focus p w m area width height pos =
     (case focus_window p of
        None \<Rightarrow> None
      | Some f \<Rightarrow>
          Some (if \<not> window_overlaps_focus_window p w pos then pos
                else case find_first_fit p [window_of p f] area width height of
                  Some pos \<Rightarrow> pos
                | None \<Rightarrow>
                    find_most_freespace (focus_work_area p) (frame_rect (window_of p f)) (frame_rect w)
                      (rect_x (monitor_rect (screen p) m), rect_y (monitor_rect (screen p) m))))"

definition queues_maximize :: "place_env \<Rightarrow> new_window \<Rightarrow> mtk_rectangle \<Rightarrow> int \<Rightarrow> int \<Rightarrow> bool" where
  "queues_maximize p w area width height \<longleftrightarrow>
     auto_maximize p \<and> showing_for_first_time w \<and> has_maximize_func w \<and>
     real_of_int (width * height) > real_of_int (rect_width area * rect_height area) * (8 / 10)"

text \<open>The position, and whether the window is queued to be maximized; \<open>denied\<close> is the flag that the
  window was denied the focus and is no transient of the focus window.\<close>

definition meta_window_place ::
  "place_env \<Rightarrow> new_window \<Rightarrow> bool \<Rightarrow> int \<times> int \<Rightarrow> int \<Rightarrow> int \<Rightarrow> ((int \<times> int) \<times> bool) option" where
  "meta_window_place p w denied pos width height =
     (if the_rule (placement w) \<noteq> None then None
      else if \<not> placed_type (win_type w) then Some (pos, False)
      else if keeps_position p w then
        Some (if disable_workarounds p then pos
              else avoid_being_obscured_as_second_modal_dialog p w denied pos, False)
      else case placing_monitor p w of
        None \<Rightarrow> Some (pos, False)
      | Some m \<Rightarrow>
          (let area = work_area_for (screen p) m
           in map_option (\<lambda>pos. (pos, queues_maximize p w area width height))
             (if centers_over_parent w then
                Some (avoid_being_obscured_as_second_modal_dialog p w denied
                  (over_parent (parent_frame (the (transient_parent w))) width height))
              else
                (let pos = origin_place p w (find_windows_relevant_for_placement p w) area width height
                 in if denied then avoid_focus p w m area width height pos else Some pos))))"

end
