(* ===== verification/Place_Cascade.thy ===== *)
theory Place_Cascade
  imports Window_Place
begin

text \<open>
  The cascade (\<open>find_next_cascade\<close>): unless it runs out of space, no window has its corner near
  the place it finds, and the place is inside the work area. The windows are visited once per
  cascade, in the order of their distance, and the place moves on from the window in the way: the
  locale \<open>cascade_search\<close> states how that distance must fit the cascade for the windows visited
  before to stay clear. It is interpreted for the three orders that do.
\<close>

section \<open>Coordinates along the cascade\<close>

text \<open>How far a position and the corner of a window are from the first position, in the direction
  of the cascade.\<close>

definition along_x :: "cascade \<Rightarrow> int \<Rightarrow> int" where
  "along_x c x = (if c_ltr c then x - fst (c_origin c) else fst (c_origin c) - x)"

definition along_y :: "cascade \<Rightarrow> int \<Rightarrow> int" where
  "along_y c y = y - snd (c_origin c)"

definition corner_x :: "cascade \<Rightarrow> meta_window \<Rightarrow> int" where
  "corner_x c w =
     (if c_ltr c then along_x c (rect_x (frame_rect w))
      else along_x c (rect_x (frame_rect w) + rect_width (frame_rect w) - c_width c))"

definition corner_y :: "cascade \<Rightarrow> meta_window \<Rightarrow> int" where
  "corner_y c w = along_y c (rect_y (frame_rect w))"

definition beyond_origin :: "cascade \<Rightarrow> int \<times> int \<Rightarrow> bool" where
  "beyond_origin c pos \<longleftrightarrow> 0 \<le> along_x c (fst pos) \<and> 0 \<le> along_y c (snd pos)"

lemma near_cascade_iff:
  "near_cascade c pos w \<longleftrightarrow> \<bar>corner_x c w - along_x c (fst pos)\<bar> < 15 \<and> \<bar>corner_y c w - along_y c (snd pos)\<bar> < 15"
  by (auto simp: near_cascade_def corner_x_def corner_y_def along_x_def along_y_def CASCADE_FUZZ_def Let_def)

lemma along_cascade_after:
  "along_x c (fst (cascade_after c w)) = corner_x c w + 50" "along_y c (snd (cascade_after c w)) = corner_y c w + 50"
  by (auto simp: cascade_after_def corner_x_def corner_y_def along_x_def along_y_def META_WINDOW_TITLEBAR_HEIGHT_def Let_def)

lemma beyond_origin_start: "0 \<le> stage \<Longrightarrow> beyond_origin c (cascade_start c stage)"
  by (simp add: beyond_origin_def cascade_start_def along_x_def along_y_def CASCADE_INTERVAL_def)

lemma beyond_origin_origin: "beyond_origin c (c_origin c)"
  by (simp add: beyond_origin_def along_x_def along_y_def)

lemma beyond_origin_after: "beyond_origin c pos \<Longrightarrow> near_cascade c pos w \<Longrightarrow> beyond_origin c (cascade_after c w)"
  by (auto simp: beyond_origin_def near_cascade_iff along_cascade_after)

section \<open>The place is in the work area\<close>

lemma cascade_in_area:
  assumes "beyond_origin c pos" "\<not> off_cascade_area c pos" "\<not> off_cascade_area c (c_origin c)" "0 \<le> stage"
  shows "beyond_origin c (cascade_loop c ws0 ws stage pos) \<and> \<not> off_cascade_area c (cascade_loop c ws0 ws stage pos)"
  using assms
proof (induction c ws0 ws stage pos rule: cascade_loop.induct)
  case (2 c ws0 w ws stage pos)
  have "beyond_origin c (cascade_start c (stage + 1))" using 2(7) by (intro beyond_origin_start) simp
  moreover have "room_for_cascade c (cascade_start c (stage + 1)) \<Longrightarrow> \<not> off_cascade_area c (cascade_start c (stage + 1))"
    using 2(6) by (auto simp: room_for_cascade_def off_cascade_area_def cascade_start_def)
  ultimately show ?case
    using 2 beyond_origin_after [of c pos w] beyond_origin_origin [of c] by auto
qed simp

section \<open>Windows that were visited stay clear\<close>

lemma square_less:
  fixes u v :: int
  assumes "- 15 < u" "u + 35 < v"
  shows "u * u < v * v"
proof -
  have "\<bar>u\<bar> < \<bar>v\<bar>" using assms by linarith
  then show ?thesis by (metis abs_mult_self_eq abs_ge_zero mult_strict_mono' not_less_iff_gr_or_eq)
qed

lemma cascade_loop_clear:
  assumes "\<And>pos v w. beyond_origin c pos \<Longrightarrow> near_cascade c pos v \<Longrightarrow> distance w \<le> (distance v :: int) \<Longrightarrow>
      \<not> near_cascade c (cascade_after c v) w"
    and "ws0 = ds @ ws" "sorted_wrt (\<lambda>v w. distance v \<le> distance w) ws0" "\<forall>w\<in>set ds. \<not> near_cascade c pos w"
    and "beyond_origin c pos" "0 \<le> stage"
  shows "cascade_loop c ws0 ws stage pos = c_origin c \<or>
    (\<forall>w\<in>set ws0. \<not> near_cascade c (cascade_loop c ws0 ws stage pos) w)"
  using assms
proof (induction c ws0 ws stage pos arbitrary: ds rule: cascade_loop.induct)
  case (2 c ws0 w ws stage pos)
  note step = "2.prems"(1)
  have split: "ws0 = (ds @ [w]) @ ws" using "2.prems"(2) by simp
  show ?case
  proof (cases "near_cascade c pos w")
    case False
    then show ?thesis
      using "2.IH"(1) [OF False step split "2.prems"(3) _ "2.prems"(5,6)] "2.prems"(4) by simp
  next
    case near: True
    show ?thesis
    proof (cases "off_cascade_area c (cascade_after c w)")
      case False
      have "\<forall>v\<in>set ds. distance v \<le> distance w"
        using "2.prems"(2,3) by (simp add: sorted_wrt_append)
      then have "\<forall>v\<in>set (ds @ [w]). \<not> near_cascade c (cascade_after c w) v"
        using step [OF "2.prems"(5) near] by auto
      then show ?thesis
        using "2.IH"(2) [OF _ _ step split "2.prems"(3) _ beyond_origin_after [OF "2.prems"(5) near] "2.prems"(6)] near False
        by simp
    next
      case off: True
      show ?thesis
      proof (cases "room_for_cascade c (cascade_start c (stage + 1))")
        case True
        then show ?thesis
          using "2.IH"(3) [OF _ _ True step, where ds = "[]"] "2.prems"(3,6) near off beyond_origin_start [of "stage + 1" c] by simp
      qed (simp add: near off)
    qed
  qed
qed simp

locale cascade_search =
  fixes c :: cascade and distance :: "meta_window \<Rightarrow> int" and a b :: int
  assumes offsets: "0 \<le> a" "0 \<le> b"
    and distance: "distance w = (corner_x c w + a) * (corner_x c w + a) + (corner_y c w + b) * (corner_y c w + b)"
begin

lemma visited_stay_clear:
  assumes "beyond_origin c pos" "near_cascade c pos v" "distance w \<le> distance v"
  shows "\<not> near_cascade c (cascade_after c v) w"
proof
  assume "near_cascade c (cascade_after c v) w"
  then have w: "corner_x c v + 35 < corner_x c w" "corner_y c v + 35 < corner_y c w"
    by (auto simp: near_cascade_iff along_cascade_after)
  have v: "- 15 < corner_x c v" "- 15 < corner_y c v"
    using assms(1,2) by (auto simp: near_cascade_iff beyond_origin_def)
  have "distance v < distance w"
    unfolding distance
    by (rule add_strict_mono; rule square_less) (use v w offsets in linarith)+
  then show False using assms(3) by simp
qed

lemma search_clear:
  assumes "sorted_wrt (\<lambda>v w. distance v \<le> distance w) ws"
  shows "cascade_loop c ws ws 0 (c_origin c) = c_origin c \<or>
    (\<forall>w\<in>set ws. \<not> near_cascade c (cascade_loop c ws ws 0 (c_origin c)) w)"
  by (rule cascade_loop_clear [OF visited_stay_clear, where ds = "[]"]) (use assms beyond_origin_origin in simp_all)

end

section \<open>The orders of the code\<close>

lemma sorted_by_distance:
  "sorted_wrt (\<lambda>v w. f v \<le> f w) (g_list_sort (\<lambda>v w. compare_ints (f v) (f w)) ws)"
proof -
  have le: "compare_ints x y \<le> 0 \<longleftrightarrow> x \<le> y" for x y by (simp add: compare_ints_def)
  have "sorted_wrt (\<lambda>v w. compare_ints (f v) (f w) \<le> 0) (g_list_sort (\<lambda>v w. compare_ints (f v) (f w)) ws)"
    by (rule sorted_g_list_sort) (auto simp: le)
  then show ?thesis by (simp add: le)
qed

text \<open>From the left, from the right, and around the centre.\<close>

definition left_cascade :: "mtk_rectangle \<Rightarrow> int \<Rightarrow> int \<Rightarrow> cascade" where
  "left_cascade area width height =
     \<lparr>c_ltr = True, c_area = area, c_width = width, c_height = height,
      c_origin = (max 0 (rect_x area), max 0 (rect_y area))\<rparr>"

definition right_cascade :: "mtk_rectangle \<Rightarrow> int \<Rightarrow> int \<Rightarrow> cascade" where
  "right_cascade area width height =
     \<lparr>c_ltr = False, c_area = area, c_width = width, c_height = height,
      c_origin = (rect_x area + rect_width area - width, max 0 (rect_y area))\<rparr>"

definition center_cascade :: "bool \<Rightarrow> mtk_rectangle \<Rightarrow> int \<Rightarrow> int \<Rightarrow> cascade" where
  "center_cascade ltr area width height =
     \<lparr>c_ltr = ltr, c_area = area, c_width = width, c_height = height,
      c_origin = (rect_x area + rect_width area sdiv 2 - width sdiv 2,
                  max 0 (rect_y area + rect_height area sdiv 2 - height sdiv 2))\<rparr>"

lemmas cascades = left_cascade_def right_cascade_def center_cascade_def

lemma cascade_of_eq:
  "cascade_of p area width height centered =
     (if centered then center_cascade (is_ltr p) area width height
      else if is_ltr p then left_cascade area width height else right_cascade area width height)"
  by (simp add: cascade_of_def cascades Let_def)

interpretation nw: cascade_search "left_cascade area width height" "northwest_distance area"
    "max 0 (rect_x area) - rect_x area" "max 0 (rect_y area) - rect_y area"
  for area width height
  by unfold_locales
    (auto simp: left_cascade_def northwest_distance_def corner_x_def corner_y_def along_x_def along_y_def Let_def
      algebra_simps)

interpretation ne: cascade_search "right_cascade area width height" "northeast_distance area"
    "0" "max 0 (rect_y area) - rect_y area"
  for area width height
  by unfold_locales
    (auto simp: right_cascade_def northeast_distance_def corner_x_def corner_y_def along_x_def along_y_def Let_def
      algebra_simps)

lemma sdiv_uminus: "(- n) sdiv 2 = - (n sdiv (2 :: int))"
  by (simp add: signed_divide_int_def)

interpretation ce: cascade_search "center_cascade True area width height" "window_distance area width height True"
    "0" "max 0 (rect_y area + rect_height area sdiv 2 - height sdiv 2) -
      (rect_y area + rect_height area sdiv 2 - height sdiv 2)"
  for area width height
  by unfold_locales
    (auto simp: center_cascade_def window_distance_def corner_x_def corner_y_def along_x_def along_y_def Let_def
      sdiv_uminus algebra_simps)

text \<open>Together: the place is the first position or clear of every corner.\<close>

lemma find_next_cascade_clear:
  assumes "is_ltr p \<or> \<not> centered"
  shows "find_next_cascade p area ws width height centered = c_origin (cascade_of p area width height centered) \<or>
    (\<forall>w\<in>set ws. \<not> near_cascade (cascade_of p area width height centered)
      (find_next_cascade p area ws width height centered) w)"
proof -
  have orders: "window_distance_cmp area width height True = (\<lambda>v w. compare_ints (window_distance area width height True v)
      (window_distance area width height True w))"
    "northwest_cmp area = (\<lambda>v w. compare_ints (northwest_distance area v) (northwest_distance area w))"
    "northeast_cmp area = (\<lambda>v w. compare_ints (northeast_distance area v) (northeast_distance area w))"
    by (simp_all add: fun_eq_iff window_distance_cmp_def northwest_cmp_def northeast_cmp_def)
  show ?thesis
    using assms
      nw.search_clear [OF sorted_by_distance [of "northwest_distance area" ws], of width height]
      ne.search_clear [OF sorted_by_distance [of "northeast_distance area" ws], of width height]
      ce.search_clear [OF sorted_by_distance [of "window_distance area width height True" ws]]
    by (cases centered; cases "is_ltr p") (simp_all add: find_next_cascade_def Let_def cascade_of_eq cascade_order_def orders)
qed

text \<open>And inside the work area, if the first position is.\<close>

lemma find_next_cascade_inside:
  assumes "mtk_rectangle_contains_rect area (mtk_rectangle_new x0 y0 width height)"
    and "c_origin (cascade_of p area width height centered) = (x0, y0)"
    and "find_next_cascade p area ws width height centered = (x, y)"
  shows "mtk_rectangle_contains_rect area (mtk_rectangle_new x y width height)"
proof -
  let ?c = "cascade_of p area width height centered"
  have c: "c_area ?c = area" "c_width ?c = width" "c_height ?c = height" by (simp_all add: cascade_of_def Let_def)
  have origin: "\<not> off_cascade_area ?c (c_origin ?c)"
    using assms(1,2) c by (simp add: off_cascade_area_def mtk_rectangle_contains_rect_def mtk_rectangle_new_def)
  have "beyond_origin ?c (x, y) \<and> \<not> off_cascade_area ?c (x, y)"
    using cascade_in_area [OF beyond_origin_origin origin origin, of 0] assms(3)
    by (metis find_next_cascade_def order_refl)
  then show ?thesis
    using assms(1,2) c
    by (auto simp: off_cascade_area_def beyond_origin_def along_y_def mtk_rectangle_contains_rect_def mtk_rectangle_new_def)
qed

end
