(* ===== verification/Place_Fit.thy ===== *)
theory Place_Fit
  imports Place_Cascade
begin

text \<open>
  The first fit and the search beside the focus window: a place that is found is free, one that is
  not found is none of the candidates, and the side chosen shows the most of the window.
\<close>

section \<open>First fit\<close>

text \<open>The windows that a new one must not cover.\<close>

definition is_obstacle :: "meta_window \<Rightarrow> bool" where
  "is_obstacle w \<longleftrightarrow> win_type w \<in> {META_WINDOW_NORMAL, META_WINDOW_UTILITY, META_WINDOW_TOOLBAR, META_WINDOW_MENU}"

lemma intersect_fst_pixels: "fst (mtk_rectangle_intersect a b d) \<longleftrightarrow> pixels a \<inter> pixels b \<noteq> {}"
proof
  assume i: "fst (mtk_rectangle_intersect a b d)"
  have "rect_positive (snd (mtk_rectangle_intersect a b d))" using i by (simp add: intersect_positive [symmetric])
  then have "(rect_x (snd (mtk_rectangle_intersect a b d)), rect_y (snd (mtk_rectangle_intersect a b d)))
      \<in> pixels (snd (mtk_rectangle_intersect a b d))"
    by (simp add: mem_pixels rect_positive_def)
  then show "pixels a \<inter> pixels b \<noteq> {}" using intersect_pixels [OF i] by auto
next
  show "pixels a \<inter> pixels b \<noteq> {} \<Longrightarrow> fst (mtk_rectangle_intersect a b d)"
    using intersect_pixels_empty [of a b d] by blast
qed

lemma overlaps_iff:
  "rectangle_overlaps_some_window rect ws \<longleftrightarrow>
   (\<exists>w\<in>set ws. is_obstacle w \<and> pixels rect \<inter> pixels (frame_rect w) \<noteq> {})"
  by (induction ws) (auto simp: is_obstacle_def intersect_fst_pixels)

lemma is_free_place_set: "set ws = set vs \<Longrightarrow> is_free_place area ws rect \<longleftrightarrow> is_free_place area vs rect"
  by (simp add: is_free_place_def overlaps_iff)

lemma try_places_find:
  "try_places area obstacles place ws = find (is_free_place area obstacles) (map place ws)"
  by (induction ws) simp_all

lemma set_below_sorted [simp]: "set (below_sorted ltr ws) = set ws"
  by (simp add: below_sorted_def)

lemma set_end_sorted [simp]: "set (end_sorted ltr ws) = set ws"
  by (simp add: end_sorted_def)

text \<open>All the places that are tried, in order.\<close>

definition candidates :: "bool \<Rightarrow> meta_window list \<Rightarrow> mtk_rectangle \<Rightarrow> int \<Rightarrow> int \<Rightarrow> mtk_rectangle list" where
  "candidates ltr ws area width height =
     (let tile = center_tile_rect_in_area ltr (mtk_rectangle_new 0 0 width height) area
      in tile # map (below_place tile) (below_sorted ltr ws) @ map (beside_place ltr tile) (end_sorted ltr ws))"

lemma find_append: "find P (xs @ ys) = (case find P xs of Some x \<Rightarrow> Some x | None \<Rightarrow> find P ys)"
  by (induction xs) simp_all

lemma find_first_fit_eq:
  "find_first_fit p ws area width height =
   map_option (\<lambda>r. (rect_x r, rect_y r)) (find (is_free_place area ws) (candidates (is_ltr p) ws area width height))"
proof -
  let ?rect = "center_tile_rect_in_area (is_ltr p) (mtk_rectangle_new 0 0 width height) area"
  have "is_free_place area (below_sorted (is_ltr p) ws) = is_free_place area ws"
    "is_free_place area (end_sorted (is_ltr p) ws) = is_free_place area ws"
    by (rule ext, rule is_free_place_set, simp)+
  then show ?thesis
    by (simp add: find_first_fit_def candidates_def Let_def try_places_find find_append split: option.split)
qed

lemma candidate_size:
  "r \<in> set (candidates ltr ws area width height) \<Longrightarrow> rect_width r = width \<and> rect_height r = height"
  by (auto simp: candidates_def Let_def below_place_def beside_place_def center_tile_rect_in_area_def mtk_rectangle_new_def)

lemma find_first_fit_free:
  assumes "find_first_fit p ws area width height = Some (x, y)"
  shows "mtk_rectangle_contains_rect area (mtk_rectangle_new x y width height)"
    and "\<forall>w\<in>set ws. is_obstacle w \<longrightarrow> pixels (mtk_rectangle_new x y width height) \<inter> pixels (frame_rect w) = {}"
proof -
  obtain r where r: "find (is_free_place area ws) (candidates (is_ltr p) ws area width height) = Some r" "rect_x r = x" "rect_y r = y"
    using assms by (auto simp: find_first_fit_eq)
  then have "r \<in> set (candidates (is_ltr p) ws area width height)" "is_free_place area ws r"
    by (auto simp: find_Some_iff)
  moreover from this(1) have "r = mtk_rectangle_new x y width height"
    using candidate_size r(2,3) by (intro mtk_rectangle.equality) (auto simp: mtk_rectangle_new_def)
  ultimately show "mtk_rectangle_contains_rect area (mtk_rectangle_new x y width height)"
    "\<forall>w\<in>set ws. is_obstacle w \<longrightarrow> pixels (mtk_rectangle_new x y width height) \<inter> pixels (frame_rect w) = {}"
    by (auto simp: is_free_place_def overlaps_iff)
qed

lemma find_first_fit_none:
  "find_first_fit p ws area width height = None \<longleftrightarrow>
   (\<forall>r\<in>set (candidates (is_ltr p) ws area width height). \<not> is_free_place area ws r)"
  by (auto simp: find_first_fit_eq find_None_iff)

text \<open>The windows are visited from the top, and at the same height from the side where a line
  begins; and the other way round.\<close>

lemma compare_ints_le: "compare_ints a b \<le> 0 \<longleftrightarrow> a \<le> b" "compare_ints a b < 0 \<longleftrightarrow> a < b" "0 \<le> compare_ints a b \<longleftrightarrow> b \<le> a"
  by (simp_all add: compare_ints_def)

definition line_start :: "bool \<Rightarrow> meta_window \<Rightarrow> int" where
  "line_start ltr w = (if ltr then rect_x (frame_rect w) else - rect_x (frame_rect w))"

lemma side_cmp_le:
  "(if ltr then leftmost_cmp else rightmost_cmp) a b \<le> 0 \<longleftrightarrow> line_start ltr a \<le> line_start ltr b"
  "(if ltr then leftmost_cmp else rightmost_cmp) a b < 0 \<longleftrightarrow> line_start ltr a < line_start ltr b"
  by (auto simp: leftmost_cmp_def rightmost_cmp_def line_start_def compare_ints_def)

lemma topmost_cmp_le:
  "topmost_cmp a b \<le> 0 \<longleftrightarrow> rect_y (frame_rect a) \<le> rect_y (frame_rect b)"
  "topmost_cmp a b < 0 \<longleftrightarrow> rect_y (frame_rect a) < rect_y (frame_rect b)"
  by (simp_all add: topmost_cmp_def compare_ints_le)

lemma sorted_side:
  "sorted_wrt (\<lambda>v w. line_start ltr v \<le> line_start ltr w) (g_list_sort (if ltr then leftmost_cmp else rightmost_cmp) ws)"
  using sorted_g_list_sort [of "if ltr then leftmost_cmp else rightmost_cmp" ws] unfolding side_cmp_le by fastforce

lemma below_sorted_order:
  "sorted_wrt (\<lambda>v w. rect_y (frame_rect v) \<le> rect_y (frame_rect w) \<and>
     (rect_y (frame_rect w) \<le> rect_y (frame_rect v) \<longrightarrow> line_start ltr v \<le> line_start ltr w)) (below_sorted ltr ws)"
  unfolding below_sorted_def
  using sorted_g_list_sort_stable [of topmost_cmp, OF _ _ sorted_side [of ltr ws]] unfolding topmost_cmp_le by fastforce

lemma sorted_topmost:
  "sorted_wrt (\<lambda>v w. rect_y (frame_rect v) \<le> rect_y (frame_rect w)) (g_list_sort topmost_cmp ws)"
  using sorted_g_list_sort [of topmost_cmp ws] unfolding topmost_cmp_le by fastforce

lemma end_sorted_order:
  "sorted_wrt (\<lambda>v w. line_start ltr v \<le> line_start ltr w \<and>
     (line_start ltr w \<le> line_start ltr v \<longrightarrow> rect_y (frame_rect v) \<le> rect_y (frame_rect w))) (end_sorted ltr ws)"
  unfolding end_sorted_def
  using sorted_g_list_sort_stable [of "if ltr then leftmost_cmp else rightmost_cmp", OF _ _ sorted_topmost [of ws]]
  unfolding side_cmp_le by fastforce

section \<open>The tile in an empty work area\<close>

text \<open>A window that is smaller than the work area is centred in its share of it; one that is exactly
  as wide is moved by half its width, and so does not fit.\<close>

lemma fluff_fits:
  fixes n k d :: int
  assumes "0 < k" "k < n" "2 \<le> d"
  shows "0 \<le> (n smod (k + 1)) sdiv d" "(n smod (k + 1)) sdiv d + k \<le> n"
proof -
  have m: "n smod (k + 1) = n mod (k + 1)" "0 \<le> n mod (k + 1)"
    using assms by (simp_all add: signed_modulo_int_def)
  then have e: "(n smod (k + 1)) sdiv d = (n mod (k + 1)) div d" using assms(3) by (auto simp: signed_divide_int_def sgn_if)
  show "0 \<le> (n smod (k + 1)) sdiv d" using e m(2) assms(3) by (simp add: pos_imp_zdiv_nonneg_iff)
  have "(n mod (k + 1)) div d \<le> n mod (k + 1)" using m(2) assms(3) by (cases "n mod (k + 1) = 0") (simp_all add: int_div_less_self less_imp_le)
  moreover have "n mod (k + 1) + k \<le> n"
  proof -
    have "n = (n div (k + 1)) * (k + 1) + n mod (k + 1)" by (rule div_mult_mod_eq [symmetric])
    moreover have q: "1 \<le> n div (k + 1)" using assms(1,2) zdiv_mono1 [of "k + 1" n "k + 1"] by simp
    moreover have "k + 1 \<le> n div (k + 1) * (k + 1)" using mult_right_mono [OF q, of "k + 1"] assms(1) by simp
    ultimately show ?thesis by linarith
  qed
  ultimately show "(n smod (k + 1)) sdiv d + k \<le> n" using e by linarith
qed

lemma tile_fits:
  assumes "0 < width" "width < rect_width area" "0 < height" "height < rect_height area"
  shows "mtk_rectangle_contains_rect area (center_tile_rect_in_area ltr (mtk_rectangle_new 0 0 width height) area)"
  using fluff_fits [OF assms(1,2), of 2] fluff_fits [OF assms(3,4), of 3]
  by (auto simp: center_tile_rect_in_area_def mtk_rectangle_contains_rect_def mtk_rectangle_new_def Let_def)

lemma full_width_tile_misses:
  assumes "2 \<le> rect_width area"
  shows "\<not> mtk_rectangle_contains_rect area (center_tile_rect_in_area ltr (mtk_rectangle_new 0 0 (rect_width area) height) area)"
proof -
  have "rect_width area smod (rect_width area + 1) = rect_width area"
    using assms by (simp add: signed_modulo_int_def)
  moreover have "1 \<le> rect_width area sdiv 2" using assms by (simp add: signed_divide_int_def)
  ultimately show ?thesis
    by (auto simp: center_tile_rect_in_area_def mtk_rectangle_contains_rect_def mtk_rectangle_new_def Let_def)
qed

section \<open>Beside the focus window\<close>

lemma best_side_max: "best_side f = (side, m) \<Longrightarrow> f side = m \<and> f s \<le> m"
  by (cases s) (auto simp: best_side_def Let_def split: if_splits)

lemma beside_disjoint:
  assumes "(if side = META_LEFT \<or> side = META_RIGHT then rect_width frame else rect_height frame) < side_space area avoid side"
    and "beside area avoid frame side = (x, y)"
  shows "pixels (frame\<lparr>rect_x := x, rect_y := y\<rparr>) \<inter> pixels avoid = {}"
  using assms by (cases side) (auto simp: beside_def mem_pixels Let_def)

lemma most_freespace_disjoint:
  assumes "best_side (side_area area avoid frame) = (side, m)" "m \<noteq> 0"
    and "(if side = META_LEFT \<or> side = META_RIGHT then rect_width frame else rect_height frame) < side_space area avoid side"
    and "find_most_freespace area avoid frame pos = (x, y)"
  shows "pixels (frame\<lparr>rect_x := x, rect_y := y\<rparr>) \<inter> pixels avoid = {}"
  using assms beside_disjoint [OF assms(3)] by (simp add: find_most_freespace_def)

end
