(* ===== verification/Constrain_Region.thy ===== *)
theory Constrain_Region
  imports Constrain_Window
begin

text \<open>
  What the constraints leave alone: the workspace's region, which some of them expand and shrink
  again, and everything of the window but its placement. Constraining a window that has no
  popup rule and no server-side frame always returns.
\<close>

section \<open>Amounts\<close>

lemma amount_onscreen_bounds: "10 \<le> amount_onscreen n" "amount_onscreen n \<le> 75"
  using CLAMP_bounds [of 10 75 "n sdiv 4"] by (simp_all add: amount_onscreen_def)

lemma amount_offscreen_nonneg [simp]: "0 \<le> amount_offscreen n"
  by (simp add: amount_offscreen_def)

lemma amount_onscreen_pos [simp]: "0 < amount_onscreen n" "0 \<le> amount_onscreen n"
  using amount_onscreen_bounds [of n] by simp_all

section \<open>The region is given back\<close>

lemma expand_one_shrink:
  assumes "0 \<le> l" "0 \<le> r" "0 \<le> t" "0 \<le> b"
  shows "expand_one (- l) (- r) (- t) (- b) m n (expand_one l r t b m n c) = c"
  using assms by (cases c) (simp add: expand_one_def Let_def)

lemma region_given_back:
  assumes "0 \<le> l" "0 \<le> r" "0 \<le> t" "0 \<le> b"
  shows "meta_rectangle_expand_region_conditionally
      (meta_rectangle_expand_region_conditionally cs l r t b m n) (- l) (- r) (- t) (- b) m n = cs"
  using expand_one_shrink [OF assms]
  by (simp add: meta_rectangle_expand_region_conditionally_def o_def)

lemma screen_relative_region:
  "do_screen_and_monitor_relative_constraints w cs info c = (ok, info') \<Longrightarrow>
   info' = info\<lparr>current := current info'\<rparr> \<and> (c \<longrightarrow> info' = info)"
  by (auto simp: do_screen_and_monitor_relative_constraints_def Let_def split: if_splits)

lemma constrain_expanded_region:
  assumes "constrain_expanded off c (w, info) = (ok, (w', info'))" "frame_borders w = None"
  shows "w' = w \<and> info' = info\<lparr>current := current info'\<rparr> \<and> (c \<longrightarrow> info' = info)"
proof -
  define r where "r = current info"
  define h v t where "h = amount_offscreen (rect_width r)" and "v = amount_offscreen (rect_height r)"
    and "t = (if off then v else 0)"
  define m n where "m = amount_onscreen (rect_width r)" and "n = amount_onscreen (rect_height r)"
  define cs where "cs = meta_rectangle_expand_region_conditionally (usable_screen_region info) h h t v m n"
  obtain ok2 info2 where d: "do_screen_and_monitor_relative_constraints w cs (info\<lparr>usable_screen_region := cs\<rparr>) c = (ok2, info2)"
    by (metis surj_pair)
  have restored: "meta_rectangle_expand_region_conditionally cs (- h) (- h) (- t) (- v) m n = usable_screen_region info"
    unfolding cs_def by (rule region_given_back) (simp_all add: h_def v_def t_def)
  obtain k where d2: "info2 = info\<lparr>usable_screen_region := cs, current := k\<rparr>" "c \<longrightarrow> k = current info"
    using screen_relative_region [OF d] by (metis constraint_info.select_convs(2) constraint_info.update_convs(2)
        constraint_info.surjective constraint_info.update_convs(11))
  have "constrain_expanded off c (w, info) =
      (case do_screen_and_monitor_relative_constraints w cs (info\<lparr>usable_screen_region := cs\<rparr>) c of
         (retval, info) \<Rightarrow> (retval, (w, info\<lparr>usable_screen_region :=
            meta_rectangle_expand_region_conditionally (usable_screen_region info) (- h) (- h) (- t) (- v) m n\<rparr>)))"
    using assms(2)
    by (simp add: constrain_expanded_def Let_def r_def h_def v_def t_def m_def n_def cs_def)
  then have "(ok, (w', info')) = (ok2, (w, info2\<lparr>usable_screen_region :=
      meta_rectangle_expand_region_conditionally (usable_screen_region info2) (- h) (- h) (- t) (- v) m n\<rparr>))"
    unfolding assms(1) d by simp
  then have "w' = w" "info' = info\<lparr>current := k\<rparr>" using restored d2(1) by auto
  then show ?thesis using d2(2) by simp
qed

section \<open>What a constraint changes\<close>

text \<open>A window without a popup rule and without a frame of the server.\<close>

definition plain_frame :: "constrained_window \<Rightarrow> bool" where
  "plain_frame w \<longleftrightarrow> the_rule (placement w) = None \<and> frame_borders w = None"

text \<open>The sizes a client may hint at: no step and no part of an aspect ratio is 0.\<close>

definition hints_ok :: "constrained_window \<Rightarrow> bool" where
  "hints_ok w \<longleftrightarrow>
     (let h = hints w
      in width_step h \<noteq> 0 \<and> height_step h \<noteq> 0 \<and> fst (min_aspect h) \<noteq> 0 \<and> snd (min_aspect h) \<noteq> 0 \<and>
         fst (max_aspect h) \<noteq> 0 \<and> snd (max_aspect h) \<noteq> 0)"

text \<open>The constraint returns, changes at most the current rectangle, and nothing when it only checks.\<close>

definition step_ok :: "bool \<Rightarrow> constrained_window \<Rightarrow> constraint_info \<Rightarrow> (bool \<times> cstate) option \<Rightarrow> bool" where
  "step_ok c w info res \<longleftrightarrow>
     (\<exists>ok r. res = Some (ok, (w, info\<lparr>current := r\<rparr>)) \<and> (c \<longrightarrow> r = current info))"

definition only_current :: "cfunc \<Rightarrow> bool" where
  "only_current f \<longleftrightarrow>
     (\<forall>env p c w info. plain_frame w \<longrightarrow> hints_ok w \<longrightarrow> step_ok c w info (f env p c (w, info)))"

lemma only_currentI:
  assumes "\<And>env p c w info. plain_frame w \<Longrightarrow> hints_ok w \<Longrightarrow> step_ok c w info (f env p c (w, info))"
  shows "only_current f"
  using assms by (simp add: only_current_def)

lemma step_ok_keep [simp]: "step_ok c w info (Some (b, (w, info)))"
  unfolding step_ok_def by (intro exI [of _ b] exI [of _ "current info"]) simp

lemma step_ok_new [simp]: "step_ok False w info (Some (b, (w, info\<lparr>current := r\<rparr>)))"
  unfolding step_ok_def by (intro exI [of _ b] exI [of _ r]) simp

lemma step_ok_if [simp]:
  "step_ok c w info (if b then x else y) \<longleftrightarrow> (b \<longrightarrow> step_ok c w info x) \<and> (\<not> b \<longrightarrow> step_ok c w info y)"
  by simp

lemma step_ok_screen_relative [simp]:
  "step_ok c w info (case do_screen_and_monitor_relative_constraints w cs info c of (ok, info) \<Rightarrow> Some (ok, (w, info)))"
proof -
  obtain ok info' where d: "do_screen_and_monitor_relative_constraints w cs info c = (ok, info')" by (metis surj_pair)
  from screen_relative_region [OF d] have "info' = info\<lparr>current := current info'\<rparr>" "c \<longrightarrow> current info' = current info"
    by auto
  with d show ?thesis by (auto simp: step_ok_def)
qed

lemma step_ok_expanded:
  assumes "frame_borders w = None"
  shows "step_ok c w info (Some (constrain_expanded off c (w, info)))"
proof -
  obtain ok w' info' where d: "constrain_expanded off c (w, info) = (ok, (w', info'))" by (metis surj_pair)
  from constrain_expanded_region [OF this assms] have "w' = w" "info' = info\<lparr>current := current info'\<rparr>"
    "c \<longrightarrow> current info' = current info" by auto
  with d show ?thesis by (auto simp: step_ok_def)
qed

lemma custom_rule_current: "only_current constrain_custom_rule"
  by (rule only_currentI) (simp add: constrain_custom_rule_def plain_frame_def Let_def [of "placement _"])

lemma single_monitor_current: "only_current constrain_to_single_monitor"
  by (rule only_currentI) (simp add: constrain_to_single_monitor_def)

lemma fully_onscreen_current: "only_current constrain_fully_onscreen"
  by (rule only_currentI) (simp add: constrain_fully_onscreen_def)

lemma titlebar_current: "only_current constrain_titlebar_visible"
  by (rule only_currentI) (simp add: constrain_titlebar_visible_def plain_frame_def step_ok_expanded)

lemma partially_current: "only_current constrain_partially_onscreen"
  by (rule only_currentI) (simp add: constrain_partially_onscreen_def plain_frame_def step_ok_expanded)

lemma maximization_current: "only_current constrain_maximization"
  by (rule only_currentI) (simp add: constrain_maximization_def Let_def)

lemma tiling_current: "only_current constrain_tiling"
  by (rule only_currentI) (simp add: constrain_tiling_def Let_def)

lemma fullscreen_current: "only_current constrain_fullscreen"
  by (rule only_currentI) (simp add: constrain_fullscreen_def Let_def split: prod.split)

lemma increments_current: "only_current constrain_size_increments"
  by (rule only_currentI) (simp add: constrain_size_increments_def Let_def hints_ok_def)

lemma limits_current: "only_current constrain_size_limits"
  by (rule only_currentI) (simp add: constrain_size_limits_def Let_def split: prod.split)

lemma aspect_current: "only_current constrain_aspect_ratio"
  by (rule only_currentI) (simp add: constrain_aspect_ratio_def Let_def hints_ok_def split: prod.split)

lemma external_current: "only_current constrain_external"
  by (rule only_currentI) (simp add: constrain_external_def split: prod.split)

lemma step_ok_screen_relative_moved [simp]:
  "step_ok False w info (case do_screen_and_monitor_relative_constraints w cs (info\<lparr>current := r\<rparr>) c of
     (ok, info) \<Rightarrow> Some (ok, (w, info)))"
proof -
  have "step_ok c w (info\<lparr>current := r\<rparr>) (case do_screen_and_monitor_relative_constraints w cs (info\<lparr>current := r\<rparr>) c of
     (ok, info) \<Rightarrow> Some (ok, (w, info)))" by (rule step_ok_screen_relative)
  then show ?thesis by (auto simp: step_ok_def)
qed

lemma modal_current: "only_current constrain_modal_dialog"
proof (rule only_currentI)
  fix env p c w info
  show "step_ok c w info (constrain_modal_dialog env p c (w, info))"
    by (cases "transient_parent w"; cases c) (simp_all add: constrain_modal_dialog_def Let_def)
qed

section \<open>The passes\<close>

lemmas constraints_current = custom_rule_current modal_current maximization_current tiling_current
  fullscreen_current increments_current limits_current aspect_current single_monitor_current
  fully_onscreen_current titlebar_current partially_current external_current

lemma do_constraints_current:
  assumes "list_all only_current fs" "plain_frame w" "hints_ok w"
  shows "step_ok c w info (do_constraints fs env p c (w, info))"
  using assms(1)
proof (induction fs arbitrary: info)
  case (Cons f fs)
  then have "step_ok c w info (f env p c (w, info))" using assms(2,3) by (simp add: only_current_def)
  then obtain ok r where f: "f env p c (w, info) = Some (ok, (w, info\<lparr>current := r\<rparr>))" "c \<longrightarrow> r = current info"
    by (auto simp: step_ok_def)
  have "step_ok c w (info\<lparr>current := r\<rparr>) (do_constraints fs env p c (w, info\<lparr>current := r\<rparr>))"
    using Cons by simp
  with f show ?case by (auto simp: step_ok_def)
qed simp

lemma all_constraints_current: "list_all only_current all_constraints"
  by (simp add: all_constraints_def constraints_current)

lemma do_all_current:
  assumes "plain_frame w" "hints_ok w"
  shows "step_ok c w info (do_all_constraints env p c (w, info))"
  unfolding do_all_constraints_def by (rule do_constraints_current [OF all_constraints_current assms])

lemma constrain_loop_current:
  assumes "plain_frame w" "hints_ok w"
  shows "\<exists>r. constrain_loop n env p (w, info) = Some (w, info\<lparr>current := r\<rparr>)"
proof (induction n arbitrary: p info)
  case 0
  show ?case by (intro exI [of _ "current info"]) simp
next
  case (Suc n)
  obtain ok r where e: "do_all_constraints env p False (w, info) = Some (ok, (w, info\<lparr>current := r\<rparr>))"
    using do_all_current [OF assms, of False info env p] by (auto simp: step_ok_def)
  obtain ok2 where c: "do_all_constraints env p True (w, info\<lparr>current := r\<rparr>) = Some (ok2, (w, info\<lparr>current := r\<rparr>))"
    using do_all_current [OF assms, of True "info\<lparr>current := r\<rparr>" env p] by (auto simp: step_ok_def)
  obtain r2 where "constrain_loop n env (p + 1) (w, info\<lparr>current := r\<rparr>) = Some (w, info\<lparr>current := r2\<rparr>)"
    using Suc [of "p + 1" "info\<lparr>current := r\<rparr>"] by auto
  with e c show ?case by (cases ok2) auto
qed

text \<open>Setting up, for a window that is placed.\<close>

lemma setup_placed:
  assumes "action_of flags = Some act" "placed w" "\<not> minimize_after_placement w"
    and "constraining_monitor env w flags
      (if is_x11_client w then new\<lparr>rect_width := max 1 (rect_width new), rect_height := max 1 (rect_height new)\<rparr> else new) = Some m"
  obtains info where "setup_constraint_info env w flags g region old new = Some info"
    and "place_window_if_needed env calculate (w, info) = Some (w, info)"
    and "orig info = old" "temporary info = old" "rel_pos info = (0, 0)" "action info = act" "usable_screen_region info = region"
    and "current info = (if is_x11_client w then new\<lparr>rect_width := max 1 (rect_width new), rect_height := max 1 (rect_height new)\<rparr> else new)"
    and "is_user_action info = user_action flags" "fixed_dirs info = fixed_directions_of (user_action flags) old new"
    and "work_area_monitor info = work_area_for env m" "entire_monitor info = entire_monitor_of env w m"
    and "usable_monitor_region info = onmonitor_region env m" "info_flags info = flags" "gravity info = g"
proof -
  define info where "info = \<lparr>orig = old,
    current = (if is_x11_client w then new\<lparr>rect_width := max 1 (rect_width new), rect_height := max 1 (rect_height new)\<rparr> else new),
    temporary = old, rel_pos = (0, 0), action = act,
    is_user_action = user_action flags, gravity = g,
    fixed_dirs = fixed_directions_of (user_action flags) old new,
    work_area_monitor = work_area_for env m, entire_monitor = entire_monitor_of env w m,
    usable_screen_region = region, usable_monitor_region = onmonitor_region env m, info_flags = flags\<rparr>"
  show thesis
  proof (rule that [of info])
    show "setup_constraint_info env w flags g region old new = Some info"
      using assms by (simp add: setup_constraint_info_def info_def)
    show "place_window_if_needed env calculate (w, info) = Some (w, info)"
      using assms(2,3) by (simp add: place_window_if_needed_def window_needs_placement_def Let_def)
  qed (simp_all add: info_def)
qed

text \<open>A window without a frame, and a monitor with a panel of 30 pixels.\<close>

definition free_window :: constrained_window where
  "free_window =
     \<lparr>frame_rect = mtk_rectangle_new 0 0 60 20, override_redirect = False, hidden = False,
      win_type = META_WINDOW_NORMAL, on_all_workspaces = False, win_workspace = Some 0, minimized = False,
      client_pid = 1, stack_layer = 0, stack_position = 0,
      is_x11_client = False, decorated = False, x11_frame = None,
      custom_extents = \<lparr>fb_left = 0, fb_right = 0, fb_top = 0, fb_bottom = 0\<rparr>,
      hints = \<lparr>min_width = 0, min_height = 0, max_width = G_MAXINT, max_height = G_MAXINT,
        base_width = 0, base_height = 0, width_step = 1, height_step = 1,
        min_aspect = (1, G_MAXINT), max_aspect = (G_MAXINT, 1)\<rparr>,
      max_horizontally = False, max_vertically = False, tile_mode = META_TILE_NONE, is_fullscreen = False,
      fullscreen_mons = None, win_monitor = Some 0, transient_parent = None, attached_dialog = False,
      placement = \<lparr>the_rule = None, pl_state = Unconstrained, pending_pos = (0, 0), pending_rel = (0, 0),
        current_rel = (0, 0)\<rparr>,
      placed = True, reparents_pending = 0, minimize_after_placement = False,
      require_fully_onscreen = False, require_on_single_monitor = False, require_titlebar_visible = True\<rparr>"

definition one_monitor :: constrain_env where
  "one_monitor =
     \<lparr>monitor_from_rect = (\<lambda>_. Some 0), primary_monitor = Some 0, n_monitors = 1,
      monitor_rect = (\<lambda>_. mtk_rectangle_new 0 0 800 600), work_area_for = (\<lambda>_. mtk_rectangle_new 0 30 800 570),
      onmonitor_region = (\<lambda>_. [mtk_rectangle_new 0 30 800 570]), all_struts = [], adjust_fullscreen = (\<lambda>r. r),
      tile_work_area = mtk_rectangle_new 0 30 800 570, tile_fraction = (\<lambda>_. 1 / 2), external_constraints = [],
      current_drag = None, window_place = (\<lambda>_ _. (0, 30)), uninit_rect = mtk_rectangle_new_empty\<rparr>"

end
