(* ===== verification/Constrain_Reach.thy ===== *)
theory Constrain_Reach
  imports Constrain_Region
begin

text \<open>
  Two guarantees of \<open>meta_window_constrain\<close>: a window that the user moves stays within reach, and
  a maximized window fills the work area.
\<close>

section \<open>Within reach\<close>

text \<open>The region that a window of the size of \<open>r\<close> must be contained in; \<open>off\<close> tells whether its top
  may leave the region too.\<close>

definition reach_region :: "bool \<Rightarrow> mtk_rectangle list \<Rightarrow> mtk_rectangle \<Rightarrow> mtk_rectangle list" where
  "reach_region off cs r =
     meta_rectangle_expand_region_conditionally cs
       (amount_offscreen (rect_width r)) (amount_offscreen (rect_width r))
       (if off then amount_offscreen (rect_height r) else 0) (amount_offscreen (rect_height r))
       (amount_onscreen (rect_width r)) (amount_onscreen (rect_height r))"

definition within_reach :: "bool \<Rightarrow> mtk_rectangle list \<Rightarrow> mtk_rectangle \<Rightarrow> bool" where
  "within_reach off cs r \<longleftrightarrow> meta_rectangle_contained_in_region (reach_region off cs r) r"

lemma reach_region_size:
  "rect_width r = rect_width r' \<Longrightarrow> rect_height r = rect_height r' \<Longrightarrow> reach_region off cs r = reach_region off cs r'"
  by (simp add: reach_region_def)

lemma contained_iff: "meta_rectangle_contained_in_region cs r \<longleftrightarrow> (\<exists>c\<in>set cs. mtk_rectangle_contains_rect c r)"
  by (induction cs) simp_all

lemma could_fit_iff: "meta_rectangle_could_fit_in_region cs r \<longleftrightarrow> (\<exists>c\<in>set cs. mtk_rectangle_could_fit_rect c r)"
  by (induction cs) simp_all

lemma expand_one_grows:
  assumes "0 \<le> l" "0 \<le> r" "0 \<le> t" "0 \<le> b" "rect_positive c"
  shows "rect_positive (expand_one l r t b m n c)" "mtk_rectangle_contains_rect (expand_one l r t b m n c) c"
  using assms by (auto simp: expand_one_def Let_def rect_positive_def mtk_rectangle_contains_rect_def)

lemma reach_region_positive: "list_all rect_positive cs \<Longrightarrow> \<forall>c\<in>set (reach_region off cs r). rect_positive c"
  unfolding reach_region_def meta_rectangle_expand_region_conditionally_def
  by (auto simp: list_all_iff intro!: expand_one_grows)

lemma contained_within_reach:
  assumes "list_all rect_positive cs" "meta_rectangle_contained_in_region cs r"
  shows "within_reach off cs r"
proof -
  obtain c where c: "c \<in> set cs" "mtk_rectangle_contains_rect c r" using assms(2) by (auto simp: contained_iff)
  let ?c = "expand_one (amount_offscreen (rect_width r)) (amount_offscreen (rect_width r))
       (if off then amount_offscreen (rect_height r) else 0) (amount_offscreen (rect_height r))
       (amount_onscreen (rect_width r)) (amount_onscreen (rect_height r)) c"
  have "rect_positive c" using assms(1) c(1) by (simp add: list_all_iff)
  then have "mtk_rectangle_contains_rect ?c c" by (intro expand_one_grows) simp_all
  then have "mtk_rectangle_contains_rect ?c r" using c(2) by (auto simp: mtk_rectangle_contains_rect_def)
  then show ?thesis
    using c(1) unfolding within_reach_def contained_iff reach_region_def meta_rectangle_expand_region_conditionally_def
    by auto
qed

lemma within_reachE:
  assumes "within_reach off cs r"
  obtains c where "c \<in> set cs"
    "mtk_rectangle_contains_rect (expand_one (amount_offscreen (rect_width r)) (amount_offscreen (rect_width r))
       (if off then amount_offscreen (rect_height r) else 0) (amount_offscreen (rect_height r))
       (amount_onscreen (rect_width r)) (amount_onscreen (rect_height r)) c) r"
  using assms by (auto simp: within_reach_def contained_iff reach_region_def meta_rectangle_expand_region_conditionally_def)

lemma within_reachI:
  assumes "c \<in> set cs"
    "mtk_rectangle_contains_rect (expand_one (amount_offscreen (rect_width r)) (amount_offscreen (rect_width r))
       (if off then amount_offscreen (rect_height r) else 0) (amount_offscreen (rect_height r))
       (amount_onscreen (rect_width r)) (amount_onscreen (rect_height r)) c) r"
  shows "within_reach off cs r"
  using assms by (auto simp: within_reach_def contained_iff reach_region_def meta_rectangle_expand_region_conditionally_def)

lemma expand_one_upwards:
  "0 \<le> v \<Longrightarrow> mtk_rectangle_contains_rect (expand_one h h 0 v m n c) r \<Longrightarrow>
   mtk_rectangle_contains_rect (expand_one h h v v m n c) r"
  by (auto simp: expand_one_def Let_def mtk_rectangle_contains_rect_def split: if_splits)

lemma titlebar_reach_partial:
  assumes "within_reach False cs r"
  shows "within_reach True cs r"
  using assms by (elim within_reachE) (rule within_reachI, assumption, simp add: expand_one_upwards)

text \<open>What it means on the screen: at least a quarter of each side, between 10 and 75 pixels, or
  all of a smaller one, lies beside a rectangle of the region; with the titlebar, the top is not
  above it.\<close>

definition shared :: "int \<Rightarrow> int \<Rightarrow> int \<Rightarrow> int \<Rightarrow> int" where
  "shared pos len pos' len' = min (pos + len) (pos' + len') - max pos pos'"

lemma shared_axis:
  assumes "0 < len" "h = max (len - m) 0" "0 < m"
    and "m \<le> len' \<Longrightarrow> pos' - h \<le> pos \<and> pos + len \<le> pos' + len' + h"
    and "\<not> m \<le> len' \<Longrightarrow> pos' \<le> pos \<and> pos + len \<le> pos' + len'"
  shows "min len m \<le> shared pos len pos' len'"
  using assms by (cases "m \<le> len'") (auto simp: shared_def min_def max_def)

lemma within_reach_visible:
  assumes "rect_positive r" "within_reach off cs r"
  shows "\<exists>c\<in>set cs.
    min (rect_width r) (amount_onscreen (rect_width r)) \<le> shared (rect_x r) (rect_width r) (rect_x c) (rect_width c) \<and>
    min (rect_height r) (amount_onscreen (rect_height r)) \<le> shared (rect_y r) (rect_height r) (rect_y c) (rect_height c) \<and>
    (\<not> off \<longrightarrow> rect_y c \<le> rect_y r)"
proof -
  define h v where "h = amount_offscreen (rect_width r)" and "v = amount_offscreen (rect_height r)"
  define m n where "m = amount_onscreen (rect_width r)" and "n = amount_onscreen (rect_height r)"
  have hv: "h = max (rect_width r - m) 0" "v = max (rect_height r - n) 0" "0 < m" "0 < n"
    by (simp_all add: h_def v_def m_def n_def amount_offscreen_def)
  obtain c where c: "c \<in> set cs" "mtk_rectangle_contains_rect (expand_one h h (if off then v else 0) v m n c) r"
    unfolding h_def v_def m_def n_def by (rule within_reachE [OF assms(2)])
  have e: "rect_x (expand_one h h t v m n c) = rect_x c - (if m \<le> rect_width c then h else 0)"
    "rect_width (expand_one h h t v m n c) = rect_width c + (if m \<le> rect_width c then 2 * h else 0)"
    "rect_y (expand_one h h t v m n c) = rect_y c - (if n \<le> rect_height c then t else 0)"
    "rect_height (expand_one h h t v m n c) = rect_height c + (if n \<le> rect_height c then t + v else 0)" for t
    by (simp_all add: expand_one_def Let_def)
  have pos: "0 < rect_width r" "0 < rect_height r" using assms(1) by (simp_all add: rect_positive_def)
  have t: "0 \<le> (if off then v else 0)" "(if off then v else 0) \<le> v" using hv(2) by simp_all
  note c2 = c(2) [unfolded mtk_rectangle_contains_rect_def e]
  have x: "min (rect_width r) m \<le> shared (rect_x r) (rect_width r) (rect_x c) (rect_width c)"
    using c2 by (intro shared_axis [OF pos(1) hv(1) hv(3)]) auto
  have y: "min (rect_height r) n \<le> shared (rect_y r) (rect_height r) (rect_y c) (rect_height c)"
    using c2 t by (intro shared_axis [OF pos(2) hv(2) hv(4)]) auto
  have "\<not> off \<longrightarrow> rect_y c \<le> rect_y r" using c2 by (cases "n \<le> rect_height c") auto
  then show ?thesis using c(1) x y unfolding m_def n_def by blast
qed

section \<open>A move keeps a window within reach\<close>

lemma screen_relative_move:
  assumes "action info = ACTION_MOVE" "rect_positive (current info)" "\<forall>c\<in>set cs. rect_positive c"
    and "meta_rectangle_contained_in_region cs old" "rect_width old = rect_width (current info)"
    and "rect_height old = rect_height (current info)"
    and "fixed_x (fixed_dirs info) \<longrightarrow> rect_x old = rect_x (current info)"
    and "fixed_y (fixed_dirs info) \<longrightarrow> rect_y old = rect_y (current info)"
  obtains r where "do_screen_and_monitor_relative_constraints w cs info False = (True, info\<lparr>current := r\<rparr>)"
    and "meta_rectangle_contained_in_region cs r" "rect_width r = rect_width old" "rect_height r = rect_height old"
    and "meta_rectangle_contained_in_region cs (current info) \<Longrightarrow> r = current info"
proof -
  obtain c where c: "c \<in> set cs" "mtk_rectangle_contains_rect c old" using assms(4) by (auto simp: contained_iff)
  have fit: "mtk_rectangle_could_fit_rect c (current info)" "\<not> fixed_misfit (fixed_dirs info) (current info) c"
    using c(2) assms(5-8) by (auto simp: mtk_rectangle_contains_rect_def mtk_rectangle_could_fit_rect_def fixed_misfit_def)
  show thesis
  proof (cases "meta_rectangle_contained_in_region cs (current info)")
    case True
    then show thesis
      using that [of "current info"] assms(5,6)
      by (simp add: do_screen_and_monitor_relative_constraints_def Let_def)
  next
    case False
    let ?r = "meta_rectangle_shove_into_region cs (fixed_dirs info) (current info)"
    note S = shove_into_region_contained [OF assms(2,3) c(1) fit(2,1)]
    have "meta_rectangle_could_fit_in_region cs (current info)" using c(1) fit(1) by (auto simp: could_fit_iff)
    then have "do_screen_and_monitor_relative_constraints w cs info False = (True, info\<lparr>current := ?r\<rparr>)"
      using False assms(1) by (simp add: do_screen_and_monitor_relative_constraints_def Let_def)
    with S False assms(5,6) show thesis using that [of ?r] by simp
  qed
qed

lemma expanded_eq:
  assumes "frame_borders w = None"
    and "do_screen_and_monitor_relative_constraints w (reach_region off (usable_screen_region info) (current info))
      (info\<lparr>usable_screen_region := reach_region off (usable_screen_region info) (current info)\<rparr>) c =
      (ok, info\<lparr>usable_screen_region := reach_region off (usable_screen_region info) (current info), current := r\<rparr>)"
  shows "constrain_expanded off c (w, info) = (ok, (w, info\<lparr>current := r\<rparr>))"
proof -
  let ?h = "amount_offscreen (rect_width (current info))" and ?v = "amount_offscreen (rect_height (current info))"
  let ?t = "if off then ?v else 0"
  let ?m = "amount_onscreen (rect_width (current info))" and ?n = "amount_onscreen (rect_height (current info))"
  have "constrain_expanded off c (w, info) =
      (case do_screen_and_monitor_relative_constraints w (reach_region off (usable_screen_region info) (current info))
         (info\<lparr>usable_screen_region := reach_region off (usable_screen_region info) (current info)\<rparr>) c of
         (retval, info) \<Rightarrow> (retval, (w, info\<lparr>usable_screen_region :=
            meta_rectangle_expand_region_conditionally (usable_screen_region info) (- ?h) (- ?h) (- ?t) (- ?v) ?m ?n\<rparr>)))"
    using assms(1) by (simp add: constrain_expanded_def Let_def reach_region_def)
  moreover have "meta_rectangle_expand_region_conditionally (reach_region off (usable_screen_region info) (current info))
      (- ?h) (- ?h) (- ?t) (- ?v) ?m ?n = usable_screen_region info"
    unfolding reach_region_def by (rule region_given_back) simp_all
  ultimately show ?thesis unfolding assms(2) by simp
qed

text \<open>A check tells whether the window is within reach.\<close>

lemma expanded_check:
  assumes "frame_borders w = None"
  shows "constrain_expanded off True (w, info) = (within_reach off (usable_screen_region info) (current info), (w, info))"
  using expanded_eq [OF assms, of off info True "within_reach off (usable_screen_region info) (current info)" "current info"]
  by (simp add: do_screen_and_monitor_relative_constraints_def Let_def within_reach_def)

lemma expanded_move:
  assumes "frame_borders w = None" "action info = ACTION_MOVE" "rect_positive (current info)"
    and "list_all rect_positive (usable_screen_region info)"
    and "within_reach off (usable_screen_region info) old" "rect_width old = rect_width (current info)"
    and "rect_height old = rect_height (current info)"
    and "fixed_x (fixed_dirs info) \<longrightarrow> rect_x old = rect_x (current info)"
    and "fixed_y (fixed_dirs info) \<longrightarrow> rect_y old = rect_y (current info)"
  obtains r where "constrain_expanded off False (w, info) = (True, (w, info\<lparr>current := r\<rparr>))"
    and "within_reach off (usable_screen_region info) r" "rect_width r = rect_width old" "rect_height r = rect_height old"
    and "within_reach off (usable_screen_region info) (current info) \<Longrightarrow> r = current info"
proof -
  define cs where "cs = reach_region off (usable_screen_region info) (current info)"
  define info1 where "info1 = info\<lparr>usable_screen_region := cs\<rparr>"
  have old: "meta_rectangle_contained_in_region cs old"
    using assms(5) reach_region_size [OF assms(6,7)] by (simp add: within_reach_def cs_def)
  have pos: "\<forall>c\<in>set cs. rect_positive c" unfolding cs_def by (rule reach_region_positive [OF assms(4)])
  obtain r where r: "do_screen_and_monitor_relative_constraints w cs info1 False = (True, info1\<lparr>current := r\<rparr>)"
    "meta_rectangle_contained_in_region cs r" "rect_width r = rect_width old" "rect_height r = rect_height old"
    "meta_rectangle_contained_in_region cs (current info1) \<Longrightarrow> r = current info1"
    using screen_relative_move [of info1 cs old w] assms(2,3,6-9) old pos by (auto simp: info1_def)
  have "constrain_expanded off False (w, info) = (True, (w, info\<lparr>current := r\<rparr>))"
    using expanded_eq [OF assms(1), of off info False True r] r(1) by (simp add: cs_def info1_def)
  moreover have "within_reach off (usable_screen_region info) r"
    using r(2) reach_region_size [of r "current info"] r(3,4) assms(6,7) by (simp add: within_reach_def cs_def)
  moreover have "within_reach off (usable_screen_region info) (current info) \<Longrightarrow> r = current info"
    using r(5) by (simp add: within_reach_def cs_def info1_def)
  ultimately show thesis using that r(3,4) by blast
qed

text \<open>A floating window that a user moves, without popup rule, frame of the server and external
  constraints.\<close>

definition floating :: "constrain_env \<Rightarrow> constrained_window \<Rightarrow> bool" where
  "floating env w \<longleftrightarrow>
     plain_frame w \<and> hints_ok w \<and> placed w \<and> \<not> minimize_after_placement w \<and> \<not> is_desktop_or_dock w \<and>
     \<not> max_horizontally w \<and> \<not> max_vertically w \<and> \<not> is_fullscreen w \<and> \<not> attached_dialog w \<and>
     external_constraints env = []"

text \<open>Whether the user must leave the titlebar visible.\<close>

definition titlebar_held :: "constrain_env \<Rightarrow> constrained_window \<Rightarrow> bool" where
  "titlebar_held env w \<longleftrightarrow> require_titlebar_visible w \<and> (\<exists>d. current_drag env = Some d \<and> \<not> fst d)"

definition moved_by_user :: "constrain_env \<Rightarrow> constraint_info \<Rightarrow> bool" where
  "moved_by_user env info \<longleftrightarrow>
     action info = ACTION_MOVE \<and> is_user_action info \<and> rect_positive (current info) \<and>
     (\<forall>d. current_drag env = Some d \<longrightarrow> \<not> snd d)"

lemma not_empty: "rect_positive r \<Longrightarrow> \<not> mtk_rectangle_is_empty r"
  by (simp add: rect_positive_def mtk_rectangle_is_empty_def)

lemma floating_skips:
  assumes "floating env w" "moved_by_user env info"
  shows "constrain_custom_rule env p c (w, info) = Some (True, (w, info))"
    and "constrain_modal_dialog env p c (w, info) = Some (True, (w, info))"
    and "constrain_maximization env p c (w, info) = Some (True, (w, info))"
    and "constrain_tiling env p c (w, info) = Some (True, (w, info))"
    and "constrain_fullscreen env p c (w, info) = Some (True, (w, info))"
    and "constrain_size_increments env p c (w, info) = Some (True, (w, info))"
    and "constrain_size_limits env p c (w, info) = Some (True, (w, info))"
    and "constrain_aspect_ratio env p c (w, info) = Some (True, (w, info))"
    and "constrain_to_single_monitor env p c (w, info) = Some (True, (w, info))"
    and "constrain_fully_onscreen env p c (w, info) = Some (True, (w, info))"
    and "constrain_external env p c (w, info) = Some (True, (w, info))"
proof -
  show "constrain_custom_rule env p c (w, info) = Some (True, (w, info))"
    using assms by (simp add: constrain_custom_rule_def Let_def [of "placement _"] floating_def plain_frame_def)
  show "constrain_modal_dialog env p c (w, info) = Some (True, (w, info))"
    using assms by (simp add: constrain_modal_dialog_def floating_def split: option.split)
  show "constrain_maximization env p c (w, info) = Some (True, (w, info))"
    using assms by (simp add: constrain_maximization_def Let_def floating_def meta_window_config_is_any_maximized_def)
  show "constrain_tiling env p c (w, info) = Some (True, (w, info))"
    using assms by (simp add: constrain_tiling_def Let_def floating_def meta_window_is_tiled_side_by_side_def)
  show "constrain_fullscreen env p c (w, info) = Some (True, (w, info))"
    using assms by (simp add: constrain_fullscreen_def Let_def floating_def split: prod.split)
  show "constrain_size_increments env p c (w, info) = Some (True, (w, info))"
    using assms by (simp add: constrain_size_increments_def Let_def moved_by_user_def)
  show "constrain_size_limits env p c (w, info) = Some (True, (w, info))"
    using assms by (simp add: constrain_size_limits_def Let_def moved_by_user_def)
  show "constrain_aspect_ratio env p c (w, info) = Some (True, (w, info))"
    using assms by (simp add: constrain_aspect_ratio_def Let_def moved_by_user_def floating_def hints_ok_def)
  show "constrain_to_single_monitor env p c (w, info) = Some (True, (w, info))"
    using assms by (simp add: constrain_to_single_monitor_def Let_def moved_by_user_def)
  show "constrain_fully_onscreen env p c (w, info) = Some (True, (w, info))"
    using assms by (simp add: constrain_fully_onscreen_def Let_def moved_by_user_def)
  show "constrain_external env p c (w, info) = Some (True, (w, info))"
    using assms by (simp add: constrain_external_def meta_window_apply_external_constraints_def floating_def)
qed

lemma titlebar_step:
  assumes "floating env w" "moved_by_user env info"
  shows "constrain_titlebar_visible env 0 c (w, info) =
    Some (if titlebar_held env w then constrain_expanded False c (w, info) else (True, (w, info)))"
  using assms not_empty [of "current info"]
  by (auto simp: constrain_titlebar_visible_def Let_def priorities floating_def moved_by_user_def plain_frame_def
      titlebar_held_def split: option.split)

lemma partially_step:
  assumes "floating env w" "moved_by_user env info"
  shows "constrain_partially_onscreen env 0 c (w, info) = Some (constrain_expanded True c (w, info))"
  using assms not_empty [of "current info"]
  by (simp add: constrain_partially_onscreen_def priorities floating_def moved_by_user_def plain_frame_def)

text \<open>Whether both visibility constraints hold.\<close>

definition reachable_at :: "constrain_env \<Rightarrow> constrained_window \<Rightarrow> mtk_rectangle list \<Rightarrow> mtk_rectangle \<Rightarrow> bool" where
  "reachable_at env w cs r \<longleftrightarrow> within_reach True cs r \<and> (titlebar_held env w \<longrightarrow> within_reach False cs r)"

lemma user_move_check:
  assumes "floating env w" "moved_by_user env info"
  shows "do_all_constraints env 0 True (w, info) =
    Some (reachable_at env w (usable_screen_region info) (current info), (w, info))"
proof -
  have "frame_borders w = None" using assms(1) by (simp add: floating_def plain_frame_def)
  note E = expanded_check [OF this]
  show ?thesis
    using titlebar_reach_partial
    by (auto simp: do_all_constraints_def all_constraints_def floating_skips [OF assms] titlebar_step [OF assms]
        partially_step [OF assms] E reachable_at_def)
qed

lemma moved_by_user_current:
  assumes "moved_by_user env info" "rect_width r = rect_width (current info)" "rect_height r = rect_height (current info)"
  shows "moved_by_user env (info\<lparr>current := r\<rparr>)"
  using assms unfolding moved_by_user_def rect_positive_def by auto

lemma user_move_pass:
  assumes "floating env w" "moved_by_user env info"
    and "list_all rect_positive (usable_screen_region info)"
    and "reachable_at env w (usable_screen_region info) old" "rect_width old = rect_width (current info)"
    and "rect_height old = rect_height (current info)"
    and "fixed_x (fixed_dirs info) \<longrightarrow> rect_x old = rect_x (current info)"
    and "fixed_y (fixed_dirs info) \<longrightarrow> rect_y old = rect_y (current info)"
  obtains r where "do_all_constraints env 0 False (w, info) = Some (True, (w, info\<lparr>current := r\<rparr>))"
    and "reachable_at env w (usable_screen_region info) r" "rect_width r = rect_width old" "rect_height r = rect_height old"
    and "reachable_at env w (usable_screen_region info) (current info) \<Longrightarrow> r = current info"
proof -
  let ?cs = "usable_screen_region info"
  have fb: "frame_borders w = None" using assms(1) by (simp add: floating_def plain_frame_def)
  have mv: "action info = ACTION_MOVE" "rect_positive (current info)" using assms(2) by (simp_all add: moved_by_user_def)
  show thesis
  proof (cases "titlebar_held env w")
    case True
    then have "within_reach False ?cs old" using assms(4) by (simp add: reachable_at_def)
    from expanded_move [OF fb mv assms(3) this assms(5-8)] obtain r where
      r: "constrain_expanded False False (w, info) = (True, (w, info\<lparr>current := r\<rparr>))" "within_reach False ?cs r"
        "rect_width r = rect_width old" "rect_height r = rect_height old"
        "within_reach False ?cs (current info) \<Longrightarrow> r = current info" by blast
    define info1 where "info1 = info\<lparr>current := r\<rparr>"
    have mv1: "moved_by_user env info1"
      unfolding info1_def using moved_by_user_current [OF assms(2)] r(3,4) assms(5,6) by simp
    have reach: "within_reach True (usable_screen_region info1) (current info1)"
      using titlebar_reach_partial [OF r(2)] by (simp add: info1_def)
    have "constrain_expanded True False (w, info1) = (True, (w, info1))"
      using reach expanded_eq [OF fb, of True info1 False True "current info1"]
      by (simp add: do_screen_and_monitor_relative_constraints_def Let_def within_reach_def)
    then have "do_all_constraints env 0 False (w, info) = Some (True, (w, info1))"
      using True r(1)
      by (simp add: do_all_constraints_def all_constraints_def floating_skips [OF assms(1,2)]
          titlebar_step [OF assms(1,2)] partially_step [OF assms(1) mv1] floating_skips [OF assms(1) mv1]
          info1_def [symmetric])
    then show thesis
      using that [of r] r titlebar_reach_partial [OF r(2)] True by (simp add: info1_def reachable_at_def)
  next
    case False
    have "within_reach True ?cs old" using assms(4) by (simp add: reachable_at_def)
    from expanded_move [OF fb mv assms(3) this assms(5-8)] obtain r where
      r: "constrain_expanded True False (w, info) = (True, (w, info\<lparr>current := r\<rparr>))" "within_reach True ?cs r"
        "rect_width r = rect_width old" "rect_height r = rect_height old"
        "within_reach True ?cs (current info) \<Longrightarrow> r = current info" by blast
    define info1 where "info1 = info\<lparr>current := r\<rparr>"
    have mv1: "moved_by_user env info1"
      unfolding info1_def using moved_by_user_current [OF assms(2)] r(3,4) assms(5,6) by simp
    have "do_all_constraints env 0 False (w, info) = Some (True, (w, info1))"
      using False r(1)
      by (simp add: do_all_constraints_def all_constraints_def floating_skips [OF assms(1,2)]
          titlebar_step [OF assms(1,2)] partially_step [OF assms(1,2)] floating_skips [OF assms(1) mv1]
          info1_def [symmetric])
    then show thesis using that [of r] r False by (simp add: info1_def reachable_at_def)
  qed
qed

end
