(* ===== verification/Constrain_Move.thy ===== *)
theory Constrain_Move
  imports Constrain_Reach
begin

text \<open>
  \<open>meta_window_constrain\<close> as a whole: it returns and gives the region back, and it keeps a window
  that the user moves within reach.
\<close>

section \<open>The passes that check\<close>

lemma constrain_loop_settled:
  assumes "do_all_constraints env p False s = Some (ok, s')" "do_all_constraints env p True s' = Some (True, s')"
  shows "constrain_loop (Suc n) env p s = Some s'"
  using assms by simp

text \<open>What \<open>meta_window_constrain\<close> gives back of a final state.\<close>

definition constrained_result ::
  "constrained_window \<Rightarrow> constraint_info \<Rightarrow>
   constrained_window \<times> mtk_rectangle \<times> mtk_rectangle \<times> (int \<times> int) \<times> mtk_rectangle list" where
  "constrained_result w info =
     (update_onscreen_requirements (w, info), current info, temporary info, rel_pos info, usable_screen_region info)"

lemma meta_window_constrain_eq:
  assumes "setup_constraint_info env w flags g cs old new = Some info"
    and "place_window_if_needed env calculate (w, info) = Some (w', info')"
    and "constrain_loop (PRIORITY_MAXIMUM + 1) env 0 (w', info') = Some (w'', info'')"
  shows "meta_window_constrain env w flags calculate g cs old new = Some (constrained_result w'' info'')"
  unfolding meta_window_constrain_def assms(1) Option.bind.bind_lunit assms(2) assms(3)
  by (simp add: constrained_result_def)

text \<open>The rectangle the constraints start with.\<close>

definition start_rect :: "constrained_window \<Rightarrow> mtk_rectangle \<Rightarrow> mtk_rectangle" where
  "start_rect w new =
     (if is_x11_client w then new\<lparr>rect_width := max 1 (rect_width new), rect_height := max 1 (rect_height new)\<rparr> else new)"

lemma start_rect_positive: "rect_positive new \<Longrightarrow> start_rect w new = new"
  by (cases new) (simp add: start_rect_def rect_positive_def)

lemmas setup_placed_start = setup_placed [folded start_rect_def]

section \<open>Constraining returns and gives the region back\<close>

lemma constrain_returns_lemma:
  assumes "plain_frame w" "hints_ok w" "placed w" "\<not> minimize_after_placement w"
    and "action_of flags \<noteq> None" "constraining_monitor env w flags (start_rect w new) \<noteq> None"
  shows "\<exists>r. meta_window_constrain env w flags calculate g cs old new =
    Some (update_onscreen_requirements (w, r), current r, old, (0, 0), cs)"
proof -
  obtain act m where a: "action_of flags = Some act" "constraining_monitor env w flags (start_rect w new) = Some m"
    using assms(5,6) by blast
  obtain info where info: "setup_constraint_info env w flags g cs old new = Some info"
    "place_window_if_needed env calculate (w, info) = Some (w, info)" "temporary info = old" "rel_pos info = (0, 0)"
    "usable_screen_region info = cs"
    by (rule setup_placed_start [OF a(1) assms(3,4) a(2), of g cs old calculate])
  obtain r where "constrain_loop (PRIORITY_MAXIMUM + 1) env 0 (w, info) = Some (w, info\<lparr>current := r\<rparr>)"
    using constrain_loop_current [OF assms(1,2)] by blast
  then have "meta_window_constrain env w flags calculate g cs old new = Some (constrained_result w (info\<lparr>current := r\<rparr>))"
    by (rule meta_window_constrain_eq [OF info(1,2)])
  with info(3-5) show ?thesis
    by (intro exI [of _ "info\<lparr>current := r\<rparr>"]) (simp add: constrained_result_def)
qed

section \<open>A window that the user moves\<close>

lemma fixed_directions_of_x:
  "fixed_x (fixed_directions_of user old new) \<Longrightarrow> rect_x old = rect_x new"
  "fixed_y (fixed_directions_of user old new) \<Longrightarrow> rect_y old = rect_y new"
  by (simp_all add: fixed_directions_of_def Let_def)

lemma user_move_lemma:
  assumes "floating env w" "action_of flags = Some ACTION_MOVE" "user_action flags"
    and "\<forall>d. current_drag env = Some d \<longrightarrow> \<not> snd d" "constraining_monitor env w flags new \<noteq> None"
    and "rect_positive new" "rect_width old = rect_width new" "rect_height old = rect_height new"
    and "list_all rect_positive cs" "reachable_at env w cs old"
  obtains w' r where "meta_window_constrain env w flags calculate g cs old new = Some (w', r, old, (0, 0), cs)"
    and "reachable_at env w cs r" "rect_width r = rect_width new" "rect_height r = rect_height new"
    and "reachable_at env w cs new \<Longrightarrow> r = new"
proof -
  have w: "placed w" "\<not> minimize_after_placement w"
    using assms(1) by (simp_all add: floating_def)
  note start = start_rect_positive [OF assms(6), of w]
  obtain m where m: "constraining_monitor env w flags (start_rect w new) = Some m" using assms(5) start by auto
  obtain info where info: "setup_constraint_info env w flags g cs old new = Some info"
    "place_window_if_needed env calculate (w, info) = Some (w, info)" "temporary info = old" "rel_pos info = (0, 0)"
    "action info = ACTION_MOVE" "usable_screen_region info = cs" "current info = start_rect w new"
    "is_user_action info = user_action flags" "fixed_dirs info = fixed_directions_of (user_action flags) old new"
    by (rule setup_placed_start [OF assms(2) w m, of g cs old calculate])
  have cur: "current info = new" using info(7) start by simp
  have mv: "moved_by_user env info"
    using assms(3,4,6) info(5,8) cur by (simp add: moved_by_user_def)
  have pos: "list_all rect_positive (usable_screen_region info)" "reachable_at env w (usable_screen_region info) old"
    "rect_width old = rect_width (current info)" "rect_height old = rect_height (current info)"
    using assms(7-10) info(6) cur by simp_all
  have fixed: "fixed_x (fixed_dirs info) \<longrightarrow> rect_x old = rect_x (current info)"
    "fixed_y (fixed_dirs info) \<longrightarrow> rect_y old = rect_y (current info)"
    unfolding info(9) cur using fixed_directions_of_x by blast+
  obtain r where r: "do_all_constraints env 0 False (w, info) = Some (True, (w, info\<lparr>current := r\<rparr>))"
    "reachable_at env w (usable_screen_region info) r" "rect_width r = rect_width old" "rect_height r = rect_height old"
    "reachable_at env w (usable_screen_region info) (current info) \<Longrightarrow> r = current info"
    by (rule user_move_pass [OF assms(1) mv pos fixed]) blast
  have mv1: "moved_by_user env (info\<lparr>current := r\<rparr>)"
    using moved_by_user_current [OF mv] r(3,4) pos(3,4) by simp
  have "do_all_constraints env 0 True (w, info\<lparr>current := r\<rparr>) = Some (True, (w, info\<lparr>current := r\<rparr>))"
    using user_move_check [OF assms(1) mv1] r(2) by simp
  from constrain_loop_settled [OF r(1) this]
  have "constrain_loop (PRIORITY_MAXIMUM + 1) env 0 (w, info) = Some (w, info\<lparr>current := r\<rparr>)" by simp
  from meta_window_constrain_eq [OF info(1,2) this] show thesis
    using that [of "update_onscreen_requirements (w, info\<lparr>current := r\<rparr>)" r] r info(3,4,6) cur assms(7,8)
    by (simp add: constrained_result_def)
qed

end
