(* ===== verification/Constrain_Maximize.thy ===== *)
theory Constrain_Maximize
  imports Constrain_Move
begin

text \<open>A maximized window ends at the work area of its monitor.\<close>

section \<open>A window at rest\<close>

text \<open>A rectangle within the region satisfies the constraints relative to the screen.\<close>

lemma screen_relative_at_rest:
  assumes "meta_rectangle_contained_in_region cs (current info)"
  shows "do_screen_and_monitor_relative_constraints w cs info c = (True, info)"
  using assms by (simp add: do_screen_and_monitor_relative_constraints_def Let_def)

lemma expanded_at_rest:
  assumes "frame_borders w = None" "within_reach off (usable_screen_region info) (current info)"
  shows "constrain_expanded off c (w, info) = (True, (w, info))"
  using expanded_eq [OF assms(1), of off info c True "current info"] assms(2)
  by (simp add: screen_relative_at_rest within_reach_def)

text \<open>A window that is maximized in both directions, and no dialog, popup or fullscreen window.\<close>

definition plainly_maximized :: "constrain_env \<Rightarrow> constrained_window \<Rightarrow> bool" where
  "plainly_maximized env w \<longleftrightarrow>
     plain_frame w \<and> hints_ok w \<and> placed w \<and> \<not> minimize_after_placement w \<and>
     max_horizontally w \<and> max_vertically w \<and> tile_mode w \<noteq> META_TILE_MAXIMIZED \<and>
     \<not> is_fullscreen w \<and> \<not> attached_dialog w \<and> external_constraints env = []"

text \<open>The work area is big enough for the window's minimum and lies in the regions.\<close>

definition roomy_area :: "constrained_window \<Rightarrow> mtk_rectangle list \<Rightarrow> mtk_rectangle list \<Rightarrow> mtk_rectangle \<Rightarrow> bool" where
  "roomy_area w cs ms area \<longleftrightarrow>
     rect_positive area \<and> mtk_rectangle_could_fit_rect area (fst (get_size_limits w)) \<and>
     list_all rect_positive cs \<and> meta_rectangle_contained_in_region cs area \<and>
     meta_rectangle_contained_in_region ms area"

definition fills_area :: "constraint_info \<Rightarrow> bool" where
  "fills_area info \<longleftrightarrow> current info = work_area_monitor info"

lemma custom_none: "plain_frame w \<Longrightarrow> constrain_custom_rule env p c (w, info) = Some (True, (w, info))"
  by (simp add: constrain_custom_rule_def Let_def [of "placement _"] plain_frame_def)

lemma modal_none: "\<not> attached_dialog w \<Longrightarrow> constrain_modal_dialog env p c (w, info) = Some (True, (w, info))"
  by (simp add: constrain_modal_dialog_def split: option.split)

lemma fullscreen_none: "\<not> is_fullscreen w \<Longrightarrow> constrain_fullscreen env p c (w, info) = Some (True, (w, info))"
  by (simp add: constrain_fullscreen_def Let_def split: prod.split)

lemma external_none:
  "external_constraints env = [] \<Longrightarrow> constrain_external env p c (w, info) = Some (True, (w, info))"
  by (simp add: constrain_external_def meta_window_apply_external_constraints_def)

lemma maximized_target_area:
  "plainly_maximized env w \<Longrightarrow> maximized_target env (w, info) = work_area_monitor info"
  by (simp add: maximized_target_def plainly_maximized_def meta_window_is_maximized_def)

lemma maximization_fills:
  assumes "plainly_maximized env w" "mtk_rectangle_could_fit_rect (work_area_monitor info) (fst (get_size_limits w))"
    and "p \<le> PRIORITY_MAXIMIZATION"
  shows "constrain_maximization env p False (w, info) = Some (True, (w, info\<lparr>current := work_area_monitor info\<rparr>))"
proof -
  define t where "t = work_area_monitor info"
  have tgt: "maximized_target env (w, info) = t" unfolding t_def by (rule maximized_target_area [OF assms(1)])
  have keep: "current info = t \<Longrightarrow> info\<lparr>current := t\<rparr> = info" by (cases info) simp
  have w: "max_horizontally w" "max_vertically w" using assms(1) by (simp_all add: plainly_maximized_def)
  have fit: "\<not> rect_width t < rect_width (fst (get_size_limits w))" "\<not> rect_height t < rect_height (fst (get_size_limits w))"
    using assms(2) by (simp_all add: mtk_rectangle_could_fit_rect_def t_def)
  have same: "(current info)\<lparr>rect_x := rect_x t, rect_width := rect_width t, rect_y := rect_y t, rect_height := rect_height t\<rparr> = t"
    by simp
  show ?thesis
  proof (cases "current info = t")
    case True
    then show ?thesis using w fit assms(3) keep
      by (simp add: constrain_maximization_def Let_def tgt meta_window_config_is_any_maximized_def
          meta_window_is_tiled_side_by_side_def t_def [symmetric])
  next
    case False
    then have "\<not> (rect_x t = rect_x (current info) \<and> rect_width t = rect_width (current info) \<and>
        rect_y t = rect_y (current info) \<and> rect_height t = rect_height (current info))"
      by (metis mtk_rectangle.equality unit.exhaust)
    then show ?thesis using w fit assms(3) same
      by (simp add: constrain_maximization_def Let_def tgt meta_window_config_is_any_maximized_def
          meta_window_is_tiled_side_by_side_def t_def [symmetric])
  qed
qed

lemma maximization_at_rest:
  assumes "plainly_maximized env w" "fills_area info"
  shows "constrain_maximization env p c (w, info) = Some (True, (w, info))"
  using assms(2) by (simp add: constrain_maximization_def Let_def maximized_target_area [OF assms(1)] fills_area_def)

lemma limits_at_rest:
  assumes "plainly_maximized env w" "mtk_rectangle_could_fit_rect (current info) (fst (get_size_limits w))"
  shows "constrain_size_limits env p c (w, info) = Some (True, (w, info))"
proof -
  obtain mn mx where l: "get_size_limits w = (mn, mx)" by (metis surj_pair)
  have "limits_in_force w (current info) =
      (mn, mx\<lparr>rect_width := max (rect_width mx) (rect_width (current info)),
              rect_height := max (rect_height mx) (rect_height (current info))\<rparr>)"
    using assms(1) l by (simp add: limits_in_force_def plainly_maximized_def)
  then show ?thesis
    using assms(2) l by (simp add: constrain_size_limits_def Let_def mtk_rectangle_could_fit_rect_def)
qed

lemma maximized_at_rest:
  assumes "plainly_maximized env w" "roomy_area w (usable_screen_region info) (usable_monitor_region info) (current info)"
    and "fills_area info"
  shows "do_constraints (drop 3 all_constraints) env p c (w, info) = Some (True, (w, info))"
    and "do_all_constraints env p c (w, info) = Some (True, (w, info))"
proof -
  have w: "plain_frame w" "hints_ok w" "max_horizontally w" "max_vertically w" "\<not> is_fullscreen w" "\<not> attached_dialog w"
    "external_constraints env = []" "frame_borders w = None"
    using assms(1) by (simp_all add: plainly_maximized_def plain_frame_def)
  have area: "meta_rectangle_contained_in_region (usable_screen_region info) (current info)"
    "meta_rectangle_contained_in_region (usable_monitor_region info) (current info)"
    "list_all rect_positive (usable_screen_region info)"
    "mtk_rectangle_could_fit_rect (current info) (fst (get_size_limits w))"
    using assms(2) by (simp_all add: roomy_area_def)
  note reach = contained_within_reach [OF area(3,1)]
  have tiling: "constrain_tiling env p c (w, info) = Some (True, (w, info))"
    using w by (simp add: constrain_tiling_def Let_def meta_window_is_tiled_side_by_side_def)
  have increments: "constrain_size_increments env p c (w, info) = Some (True, (w, info))"
    using w by (simp add: constrain_size_increments_def Let_def meta_window_is_maximized_def)
  have aspect: "constrain_aspect_ratio env p c (w, info) = Some (True, (w, info))"
    using w by (simp add: constrain_aspect_ratio_def Let_def meta_window_is_maximized_def hints_ok_def)
  have single: "constrain_to_single_monitor env p c (w, info) = Some (True, (w, info))"
    using area(2) by (simp add: constrain_to_single_monitor_def Let_def screen_relative_at_rest)
  have fully: "constrain_fully_onscreen env p c (w, info) = Some (True, (w, info))"
    using area(1) by (simp add: constrain_fully_onscreen_def Let_def screen_relative_at_rest)
  have titlebar: "constrain_titlebar_visible env p c (w, info) = Some (True, (w, info))"
    by (simp add: constrain_titlebar_visible_def Let_def expanded_at_rest [OF w(8) reach])
  have partially: "constrain_partially_onscreen env p c (w, info) = Some (True, (w, info))"
    by (simp add: constrain_partially_onscreen_def Let_def expanded_at_rest [OF w(8) reach])
  note rest = tiling fullscreen_none [OF w(5)] increments limits_at_rest [OF assms(1) area(4)] aspect single fully
    titlebar partially external_none [OF w(7)]
  show "do_constraints (drop 3 all_constraints) env p c (w, info) = Some (True, (w, info))"
    by (simp add: all_constraints_def rest)
  show "do_all_constraints env p c (w, info) = Some (True, (w, info))"
    by (simp add: do_all_constraints_def all_constraints_def rest custom_none [OF w(1)] modal_none [OF w(6)]
        maximization_at_rest [OF assms(1,3)])
qed

section \<open>Maximizing\<close>

lemma maximized_pass:
  assumes "plainly_maximized env w"
    and "roomy_area w (usable_screen_region info) (usable_monitor_region info) (work_area_monitor info)"
  shows "do_all_constraints env 0 False (w, info) = Some (True, (w, info\<lparr>current := work_area_monitor info\<rparr>))"
proof -
  let ?info = "info\<lparr>current := work_area_monitor info\<rparr>"
  have w: "plain_frame w" "\<not> attached_dialog w" using assms(1) by (simp_all add: plainly_maximized_def)
  have max: "constrain_maximization env 0 False (w, info) = Some (True, (w, ?info))"
    using assms(2) by (intro maximization_fills [OF assms(1)]) (simp_all add: roomy_area_def)
  have rest: "do_constraints (drop 3 all_constraints) env 0 False (w, ?info) = Some (True, (w, ?info))"
    using assms by (intro maximized_at_rest) (simp_all add: fills_area_def)
  show ?thesis
    using rest
    by (simp add: do_all_constraints_def all_constraints_def custom_none [OF w(1)] modal_none [OF w(2)] max)
qed

lemma maximized_fills_lemma:
  assumes "plainly_maximized env w" "action_of flags \<noteq> None"
    and "constraining_monitor env w flags (start_rect w new) = Some m"
    and "roomy_area w cs (onmonitor_region env m) (work_area_for env m)"
  obtains w' where "meta_window_constrain env w flags calculate g cs old new =
    Some (w', work_area_for env m, old, (0, 0), cs)"
proof -
  have w: "placed w" "\<not> minimize_after_placement w"
    using assms(1) by (simp_all add: plainly_maximized_def)
  obtain act where act: "action_of flags = Some act" using assms(2) by blast
  obtain info where info: "setup_constraint_info env w flags g cs old new = Some info"
    "place_window_if_needed env calculate (w, info) = Some (w, info)" "temporary info = old" "rel_pos info = (0, 0)"
    "usable_screen_region info = cs" "work_area_monitor info = work_area_for env m"
    "usable_monitor_region info = onmonitor_region env m"
    by (rule setup_placed_start [OF act w assms(3), of g cs old calculate])
  let ?info = "info\<lparr>current := work_area_monitor info\<rparr>"
  have room: "roomy_area w (usable_screen_region info) (usable_monitor_region info) (work_area_monitor info)"
    using assms(4) info by simp
  have "do_all_constraints env 0 True (w, ?info) = Some (True, (w, ?info))"
    using room by (intro maximized_at_rest(2) [OF assms(1)]) (simp_all add: fills_area_def)
  from constrain_loop_settled [OF maximized_pass [OF assms(1) room] this]
  have "constrain_loop (PRIORITY_MAXIMUM + 1) env 0 (w, info) = Some (w, ?info)" by simp
  from meta_window_constrain_eq [OF info(1,2) this] show thesis
    using that [of "update_onscreen_requirements (w, ?info)"] info by (simp add: constrained_result_def)
qed

section \<open>Sizes that the hints allow\<close>

text \<open>The size satisfies the hints of a client that asks for no steps and no aspect ratio.\<close>

definition free_sized :: "constrained_window \<Rightarrow> mtk_rectangle \<Rightarrow> bool" where
  "free_sized w r \<longleftrightarrow>
     (let h = hints w; c = meta_window_frame_rect_to_client_rect w r
      in width_step h = 1 \<and> height_step h = 1 \<and> min_aspect h = (1, G_MAXINT) \<and> max_aspect h = (G_MAXINT, 1) \<and>
         0 < rect_width c \<and> rect_width c \<le> G_MAXINT \<and> 0 < rect_height c \<and> rect_height c \<le> G_MAXINT) \<and>
     mtk_rectangle_could_fit_rect r (fst (get_size_limits w)) \<and> mtk_rectangle_could_fit_rect (snd (get_size_limits w)) r"

lemma smod_one: "n smod (1 :: int) = 0"
  by (simp add: signed_modulo_int_def)

lemma increments_free: "free_sized w (current info) \<Longrightarrow> constrain_size_increments env p c (w, info) = Some (True, (w, info))"
  using smod_one by (simp add: constrain_size_increments_def free_sized_def Let_def)

lemma limits_free:
  assumes "free_sized w (current info)" "\<not> max_horizontally w" "\<not> max_vertically w"
  shows "constrain_size_limits env p c (w, info) = Some (True, (w, info))"
proof -
  obtain mn mx where l: "get_size_limits w = (mn, mx)" by (metis surj_pair)
  have "limits_in_force w (current info) = (mn, mx)" using assms(2,3) l by (simp add: limits_in_force_def)
  then show ?thesis using assms(1) l by (simp add: constrain_size_limits_def free_sized_def Let_def)
qed

lemma aspect_free:
  assumes "free_sized w (current info)"
  shows "constrain_aspect_ratio env p c (w, info) = Some (True, (w, info))"
proof -
  define cw ch f G where "cw = real_of_int (rect_width (meta_window_frame_rect_to_client_rect w (current info)))"
    and "ch = real_of_int (rect_height (meta_window_frame_rect_to_client_rect w (current info)))"
    and "f = aspect_fudge (gravity info)" and "G = real_of_int G_MAXINT"
  have G: "0 < G" by (simp add: G_def G_MAXINT_def)
  have f: "1 \<le> f" by (simp add: f_def aspect_fudge_def)
  have sizes: "1 \<le> cw" "cw \<le> G" "1 \<le> ch" "ch \<le> G"
    using assms by (simp_all add: free_sized_def Let_def cw_def ch_def G_def)
  have "ch / G \<le> 1" using sizes(4) G by simp
  moreover have "0 < f / G" using f G by simp
  ultimately have lower: "- (f / G) < cw - ch / G" using sizes(1) by linarith
  have "G \<le> ch * G" using sizes(3) G by simp
  moreover have "0 < G * f" using f G by simp
  ultimately have "cw - ch * G < G * f" using sizes(2) by linarith
  then have sat: "real_of_int (rect_width (meta_window_frame_rect_to_client_rect w (current info))) -
      real_of_int (rect_height (meta_window_frame_rect_to_client_rect w (current info))) * (1 / real_of_int G_MAXINT)
      > - (1 / real_of_int G_MAXINT) * aspect_fudge (gravity info)"
    "real_of_int (rect_width (meta_window_frame_rect_to_client_rect w (current info))) -
      real_of_int (rect_height (meta_window_frame_rect_to_client_rect w (current info))) * real_of_int G_MAXINT
      < real_of_int G_MAXINT * aspect_fudge (gravity info)"
    using lower by (simp_all add: cw_def ch_def f_def G_def)
  have h: "min_aspect (hints w) = (1, G_MAXINT)" "max_aspect (hints w) = (G_MAXINT, 1)"
    using assms by (simp_all add: free_sized_def Let_def)
  have "G_MAXINT \<noteq> 0" by (simp add: G_MAXINT_def)
  then show ?thesis
    using sat by (simp add: constrain_aspect_ratio_def Let_def h)
qed

end
