(* ===== verification/Place_Window.thy ===== *)
theory Place_Window
  imports Place_Fit Constrain_Maximize
begin

text \<open>
  Placing a window as a whole: a new window covers no other if there is a free place, and the
  constraints leave it there.
\<close>

section \<open>The place of a normal window\<close>

text \<open>A normal window that is placed by the general rule: it asks for no position, has no parent, and
  was not denied the focus.\<close>

definition placed_freely :: "place_env \<Rightarrow> new_window \<Rightarrow> bool" where
  "placed_freely p w \<longleftrightarrow>
     win_type w = META_WINDOW_NORMAL \<and> the_rule (placement w) = None \<and> \<not> keeps_position p w \<and>
     transient_parent w = None \<and> \<not> center_new_windows p"

text \<open>The work area it is placed in, and the first position of a cascade.\<close>

definition place_area :: "place_env \<Rightarrow> nat \<Rightarrow> mtk_rectangle" where
  "place_area p m = work_area_for (screen p) m"

definition first_corner :: "bool \<Rightarrow> mtk_rectangle \<Rightarrow> int \<Rightarrow> int \<times> int" where
  "first_corner ltr area width =
     (if ltr then max 0 (rect_x area) else rect_x area + rect_width area - width, max 0 (rect_y area))"

lemma cascade_origin: "c_origin (cascade_of p area width height False) = first_corner (is_ltr p) area width"
  by (simp add: cascade_of_def first_corner_def Let_def)

lemma place_freely_eq:
  assumes "placed_freely p w" "placing_monitor p w = Some m"
  shows "meta_window_place p w False pos width height =
    Some (case find_first_fit p (find_windows_relevant_for_placement p w) (place_area p m) width height of
            Some pos \<Rightarrow> pos
          | None \<Rightarrow> find_next_cascade p (place_area p m) (find_windows_relevant_for_placement p w) width height False,
          queues_maximize p w (place_area p m) width height)"
  using assms
  by (simp add: meta_window_place_def placed_freely_def placed_type_def centers_over_parent_def origin_place_def
      window_place_centered_def place_area_def Let_def split: option.split)

text \<open>The corner that a cascade compares: the left one, or the right one from right to left.\<close>

definition leading_corner :: "bool \<Rightarrow> int \<Rightarrow> int \<Rightarrow> int" where
  "leading_corner ltr x width = (if ltr then x else x + width)"

lemma near_cascade_leading:
  "near_cascade (cascade_of p area width height centered) (x, y) v \<longleftrightarrow>
     \<bar>leading_corner (is_ltr p) (rect_x (frame_rect v)) (rect_width (frame_rect v)) - leading_corner (is_ltr p) x width\<bar> < 15 \<and>
     \<bar>rect_y (frame_rect v) - y\<bar> < 15"
  by (auto simp: near_cascade_def cascade_of_def CASCADE_FUZZ_def leading_corner_def Let_def)

lemma new_window_place_lemma:
  assumes "placed_freely p w" "placing_monitor p w = Some m"
  obtains x y q where "meta_window_place p w False pos width height = Some ((x, y), q)"
    and "mtk_rectangle_contains_rect (place_area p m) (mtk_rectangle_new x y width height) \<and>
        (\<forall>v\<in>set (find_windows_relevant_for_placement p w).
           is_obstacle v \<longrightarrow> pixels (mtk_rectangle_new x y width height) \<inter> pixels (frame_rect v) = {}) \<or>
      (\<forall>r\<in>set (candidates (is_ltr p) (find_windows_relevant_for_placement p w) (place_area p m) width height).
         \<not> is_free_place (place_area p m) (find_windows_relevant_for_placement p w) r) \<and>
      ((x, y) = first_corner (is_ltr p) (place_area p m) width \<or>
       (\<forall>v\<in>set (find_windows_relevant_for_placement p w).
          \<not> near_cascade (cascade_of p (place_area p m) width height False) (x, y) v))"
proof -
  let ?ws = "find_windows_relevant_for_placement p w"
  note eq = place_freely_eq [OF assms, of pos width height]
  show thesis
  proof (cases "find_first_fit p ?ws (place_area p m) width height")
    case None
    obtain x y where pos: "find_next_cascade p (place_area p m) ?ws width height False = (x, y)" by (metis surj_pair)
    have "(x, y) = first_corner (is_ltr p) (place_area p m) width \<or>
        (\<forall>v\<in>set ?ws. \<not> near_cascade (cascade_of p (place_area p m) width height False) (x, y) v)"
      using find_next_cascade_clear [of p False "place_area p m" ?ws width height] pos cascade_origin by auto
    then show thesis using that [of x y] eq None pos find_first_fit_none by auto
  next
    case (Some xy)
    then obtain x y where "find_first_fit p ?ws (place_area p m) width height = Some (x, y)" by (metis surj_pair)
    then show thesis using that [of x y] eq find_first_fit_free by auto
  qed
qed

section \<open>The constraints leave a window where it was placed\<close>

text \<open>A floating window within the regions, with a size that its hints allow, is at rest.\<close>

definition plainly_floating :: "constrain_env \<Rightarrow> constrained_window \<Rightarrow> bool" where
  "plainly_floating env w \<longleftrightarrow>
     plain_frame w \<and> \<not> max_horizontally w \<and> \<not> max_vertically w \<and> \<not> is_fullscreen w \<and> \<not> attached_dialog w \<and>
     external_constraints env = []"

lemma floating_at_rest:
  assumes "plainly_floating env w" "free_sized w (current info)" "list_all rect_positive (usable_screen_region info)"
    and "meta_rectangle_contained_in_region (usable_screen_region info) (current info)"
    and "meta_rectangle_contained_in_region (usable_monitor_region info) (current info)"
  shows "do_all_constraints env p c (w, info) = Some (True, (w, info))"
proof -
  have w: "plain_frame w" "\<not> max_horizontally w" "\<not> max_vertically w" "\<not> is_fullscreen w" "\<not> attached_dialog w"
    "external_constraints env = []" "frame_borders w = None"
    using assms(1) by (simp_all add: plainly_floating_def plain_frame_def)
  note reach = contained_within_reach [OF assms(3,4)]
  have maxi: "constrain_maximization env p c (w, info) = Some (True, (w, info))"
    using w by (simp add: constrain_maximization_def Let_def meta_window_config_is_any_maximized_def)
  have tiling: "constrain_tiling env p c (w, info) = Some (True, (w, info))"
    using w by (simp add: constrain_tiling_def Let_def meta_window_is_tiled_side_by_side_def)
  have single: "constrain_to_single_monitor env p c (w, info) = Some (True, (w, info))"
    using assms(5) by (simp add: constrain_to_single_monitor_def Let_def screen_relative_at_rest)
  have fully: "constrain_fully_onscreen env p c (w, info) = Some (True, (w, info))"
    using assms(4) by (simp add: constrain_fully_onscreen_def Let_def screen_relative_at_rest)
  have titlebar: "constrain_titlebar_visible env p c (w, info) = Some (True, (w, info))"
    by (simp add: constrain_titlebar_visible_def Let_def expanded_at_rest [OF w(7) reach])
  have partially: "constrain_partially_onscreen env p c (w, info) = Some (True, (w, info))"
    by (simp add: constrain_partially_onscreen_def Let_def expanded_at_rest [OF w(7) reach])
  show ?thesis
    by (simp add: do_all_constraints_def all_constraints_def custom_none [OF w(1)] modal_none [OF w(5)] maxi tiling
        fullscreen_none [OF w(4)] increments_free [OF assms(2)] limits_free [OF assms(2) w(2,3)]
        aspect_free [OF assms(2)] single fully titlebar partially external_none [OF w(6)])
qed

section \<open>A new window is shown where it was placed\<close>

text \<open>The screen with the placement of \<open>place.c\<close>.\<close>

definition placing_env :: "place_env \<Rightarrow> new_window \<Rightarrow> constrain_env" where
  "placing_env p w = (screen p)\<lparr>window_place :=
     (\<lambda>orig c. fst (the (meta_window_place p w False (rect_x orig, rect_y orig) (rect_width c) (rect_height c))))\<rparr>"

text \<open>A monitor whose rectangles are found to be on it, with a work area that is part of the regions.\<close>

definition sound_monitor :: "constrain_env \<Rightarrow> mtk_rectangle list \<Rightarrow> nat \<Rightarrow> bool" where
  "sound_monitor env cs m \<longleftrightarrow>
     list_all rect_positive cs \<and> meta_rectangle_contained_in_region cs (work_area_for env m) \<and>
     meta_rectangle_contained_in_region (onmonitor_region env m) (work_area_for env m) \<and>
     (\<forall>r. rect_positive r \<and> mtk_rectangle_contains_rect (work_area_for env m) r \<longrightarrow> monitor_from_rect env r = Some m)"

lemma constraining_monitor_place:
  "constraining_monitor (env\<lparr>window_place := f\<rparr>) w flags c = constraining_monitor env w flags c"
  by (simp add: constraining_monitor_def Let_def cong: option.case_cong if_cong)

lemma contained_in_region_trans:
  "meta_rectangle_contained_in_region cs r \<Longrightarrow> mtk_rectangle_contains_rect r r' \<Longrightarrow>
   meta_rectangle_contained_in_region cs r'"
  unfolding contained_iff by (metis contains_rect_trans)

text \<open>The window as the constraints see it: new, not minimized, floating.\<close>

definition mapped_freely :: "place_env \<Rightarrow> new_window \<Rightarrow> bool" where
  "mapped_freely p w \<longleftrightarrow>
     placed_freely p w \<and> plainly_floating (screen p) (constrained_window.truncate w) \<and> \<not> placed w \<and> \<not> minimized w \<and>
     \<not> minimize_after_placement w"

lemma new_window_lemma:
  assumes "mapped_freely p w" "placing_monitor p w = Some m" "sound_monitor (screen p) cs m"
    and "action_of flags \<noteq> None" "constraining_monitor (screen p) (constrained_window.truncate w) flags new \<noteq> None"
    and "rect_positive new" "\<And>x y. free_sized (constrained_window.truncate w) (new\<lparr>rect_x := x, rect_y := y\<rparr>)"
    and "find_first_fit p (find_windows_relevant_for_placement p w) (place_area p m) (rect_width new) (rect_height new) \<noteq> None"
  obtains w' r where "meta_window_constrain (placing_env p w) (constrained_window.truncate w) flags True g cs old new =
      Some (w', r, old, (0, 0), cs)"
    and "rect_width r = rect_width new" "rect_height r = rect_height new"
    and "mtk_rectangle_contains_rect (place_area p m) r"
    and "\<forall>v\<in>set (find_windows_relevant_for_placement p w). is_obstacle v \<longrightarrow> pixels r \<inter> pixels (frame_rect v) = {}"
proof -
  let ?w = "constrained_window.truncate w" and ?env = "placing_env p w"
  have sel: "placed ?w = placed w" "minimized ?w = minimized w" "minimize_after_placement ?w = minimize_after_placement w"
    "placement ?w = placement w"
    by (simp_all add: constrained_window.truncate_def)
  have w: "placed_freely p w" "plainly_floating ?env ?w" "\<not> placed ?w" "\<not> minimized ?w" "\<not> minimize_after_placement ?w"
    "the_rule (placement ?w) = None"
    using assms(1) sel by (simp_all add: mapped_freely_def placing_env_def plainly_floating_def placed_freely_def)
  have flat: "\<not> max_horizontally ?w" "\<not> max_vertically ?w" "\<not> is_fullscreen ?w"
    using w(2) by (simp_all add: plainly_floating_def)
  note start = start_rect_positive [OF assms(6), of ?w]
  obtain act m0 where act: "action_of flags = Some act" "constraining_monitor ?env ?w flags new = Some m0"
    using assms(4,5) unfolding placing_env_def constraining_monitor_place by blast
  define info where "info = \<lparr>orig = old, current = new, temporary = old, rel_pos = (0, 0), action = act,
    is_user_action = user_action flags, gravity = g, fixed_dirs = fixed_directions_of (user_action flags) old new,
    work_area_monitor = work_area_for ?env m0, entire_monitor = entire_monitor_of ?env ?w m0,
    usable_screen_region = cs, usable_monitor_region = onmonitor_region ?env m0, info_flags = flags\<rparr>"
  have start_info: "setup_constraint_info ?env ?w flags g cs old new = Some info"
    using act start unfolding setup_constraint_info_def start_rect_def info_def by (simp add: Let_def)
  obtain x y where fit: "find_first_fit p (find_windows_relevant_for_placement p w) (place_area p m)
      (rect_width new) (rect_height new) = Some (x, y)"
    using assms(8) by auto
  define r where "r = new\<lparr>rect_x := x, rect_y := y\<rparr>"
  have r: "r = mtk_rectangle_new x y (rect_width new) (rect_height new)" by (simp add: r_def mtk_rectangle_new_def)
  have inside: "mtk_rectangle_contains_rect (place_area p m) r"
    and untouched: "\<forall>v\<in>set (find_windows_relevant_for_placement p w). is_obstacle v \<longrightarrow> pixels r \<inter> pixels (frame_rect v) = {}"
    using find_first_fit_free [OF fit] by (simp_all add: r)
  have place: "window_place ?env old new = (x, y)"
    using place_freely_eq [OF w(1) assms(2)] fit by (simp add: placing_env_def)
  have mon: "monitor_from_rect ?env r = Some m"
    using assms(3,6) inside by (simp add: sound_monitor_def placing_env_def place_area_def r_def rect_positive_def)
  define info' where "info' = info\<lparr>entire_monitor := monitor_rect ?env m, work_area_monitor := work_area_for ?env m,
    usable_monitor_region := onmonitor_region ?env m, current := r, fixed_dirs := FIXED_DIRECTION_NONE\<rparr>"
  have needs: "window_needs_placement ?w True info"
    using w(3,4) flat assms(6)
    by (simp add: window_needs_placement_def info_def meta_window_config_is_any_maximized_def not_empty)
  have cur: "current info = new" "orig info = old" by (simp_all add: info_def)
  have did_place: "place_window_if_needed ?env True (?w, info) = Some (?w, info')"
    using needs w(5,6) place mon
    by (simp add: place_window_if_needed_def Let_def cur info'_def r_def)
  have rest: "do_all_constraints ?env 0 c (?w, info') = Some (True, (?w, info'))" for c
    using assms(3) inside
    by (intro floating_at_rest [OF w(2)])
      (auto simp: info'_def info_def r_def assms(7) sound_monitor_def placing_env_def place_area_def
        intro: contained_in_region_trans)
  have "constrain_loop (PRIORITY_MAXIMUM + 1) ?env 0 (?w, info') = Some (?w, info')"
    using constrain_loop_settled [OF rest rest] by simp
  from meta_window_constrain_eq [OF start_info did_place this] show thesis
    using that [of "update_onscreen_requirements (?w, info')" r] inside untouched
    by (simp add: constrained_result_def info'_def info_def r_def)
qed

end
