(* ===== verification/Constrain_Popup.thy ===== *)
theory Constrain_Popup
  imports Constrain_Maximize
begin

text \<open>
  Popups: a popup that may slide in both directions and fits ends inside the work area, and the
  position it is given is its parent's plus the relative one. An external constraint is never
  reported as unsatisfied.
\<close>

section \<open>Sliding\<close>

lemma slide_to_inside:
  assumes "len \<le> area_len"
  shows "area_pos \<le> slide_to pos len area_pos area_len"
    and "slide_to pos len area_pos area_len + len \<le> area_pos + area_len"
  using assms by (auto simp: slide_to_def)

lemma slide_to_stays: "area_pos \<le> pos \<Longrightarrow> pos + len \<le> area_pos + area_len \<Longrightarrow> slide_to pos len area_pos area_len = pos"
  by (simp add: slide_to_def)

lemma satisfied_inside:
  assumes "rect_positive r" "slide_x (adjustment rule)" "slide_y (adjustment rule)"
  shows "is_custom_rule_satisfied r rule (snd (mtk_rectangle_intersect r area d)) \<longleftrightarrow> mtk_rectangle_contains_rect area r"
  using assms
  by (auto simp: is_custom_rule_satisfied_def mtk_rectangle_intersect_def Let_def mtk_rectangle_contains_rect_def
      rect_positive_def)

section \<open>Adjusting keeps a popup at its relative position\<close>

text \<open>The popup has the size and the environment of \<open>info0\<close>, and lies at \<open>pos\<close> plus its relative position.\<close>

definition popup_at :: "int \<times> int \<Rightarrow> constraint_info \<Rightarrow> constraint_info \<Rightarrow> bool" where
  "popup_at pos info0 info \<longleftrightarrow>
     info = info0\<lparr>current := current info, rel_pos := rel_pos info\<rparr> \<and>
     rect_x (current info) = fst pos + fst (rel_pos info) \<and> rect_y (current info) = snd pos + snd (rel_pos info) \<and>
     rect_width (current info) = rect_width (current info0) \<and> rect_height (current info) = rect_height (current info0)"

lemma popup_at_area: "popup_at pos info0 info \<Longrightarrow> work_area_monitor info = work_area_monitor info0"
  unfolding popup_at_def by (metis constraint_info.select_convs(9) constraint_info.surjective
      constraint_info.update_convs(2) constraint_info.update_convs(4))

lemma slide_info_x_at: "popup_at pos info0 info \<Longrightarrow> popup_at pos info0 (slide_info_x info)"
  unfolding popup_at_def slide_info_x_def Let_def by (cases info; cases info0) simp

lemma slide_info_y_at: "popup_at pos info0 info \<Longrightarrow> popup_at pos info0 (slide_info_y info)"
  unfolding popup_at_def slide_info_y_def Let_def by (cases info; cases info0) simp

lemma flip_keeps_adjustment:
  "adjustment (placement_rule_flip_horizontally rule) = adjustment rule"
  "adjustment (placement_rule_flip_vertically rule) = adjustment rule"
  by (simp_all add: placement_rule_flip_horizontally_def placement_rule_flip_vertically_def)

lemma flip_step_at:
  assumes "flip_step env allowed len flip pos (rule, info, isec) = (rule', info', isec')" "popup_at pos info0 info"
    and "\<And>rule. adjustment (flip rule) = adjustment rule"
  shows "popup_at pos info0 info'" "adjustment rule' = adjustment rule"
proof -
  define rel where "rel = meta_window_process_placement (flip rule)"
  define rect where "rect = (current info)\<lparr>rect_x := fst pos + fst rel, rect_y := snd pos + snd rel\<rparr>"
  have tried: "try_flip_window_position env info flip rule pos =
      (flip rule, rect, rel, snd (mtk_rectangle_intersect rect (work_area_monitor info) (uninit_rect env)))"
    by (simp add: try_flip_window_position_def rel_def rect_def Let_def)
  have at: "popup_at pos info0 (info\<lparr>current := rect, rel_pos := rel\<rparr>)"
    using assms(2) unfolding popup_at_def rect_def by (cases info; cases info0) simp
  have "(rule', info') = (rule, info) \<or> (rule', info') = (flip rule, info\<lparr>current := rect, rel_pos := rel\<rparr>)"
    using assms(1) unfolding flip_step_def prod.case tried by (auto split: if_splits)
  then show "popup_at pos info0 info'" "adjustment rule' = adjustment rule"
    using at assms(2,3) by auto
qed

lemma adjust_popup_inside:
  assumes "popup_at pos info0 info" "slide_x (adjustment rule)" "slide_y (adjustment rule)"
    and "rect_positive (current info0)" "mtk_rectangle_could_fit_rect (work_area_monitor info0) (current info0)"
  shows "popup_at pos info0 (adjust_popup env rule pos info isec)"
    and "mtk_rectangle_contains_rect (work_area_monitor info0) (current (adjust_popup env rule pos info isec))"
proof -
  obtain r1 i1 n1 where f1: "flip_step env flip_x rect_width placement_rule_flip_horizontally pos (rule, info, isec) =
      (r1, i1, n1)" by (metis surj_pair)
  obtain r2 i2 n2 where f2: "flip_step env flip_y rect_height placement_rule_flip_vertically pos (r1, i1, n1) =
      (r2, i2, n2)" by (metis surj_pair)
  note F1 = flip_step_at [OF f1 assms(1) flip_keeps_adjustment(1)]
  note F2 = flip_step_at [OF f2 F1(1) flip_keeps_adjustment(2)]
  let ?s = "slide_info_y (slide_info_x i2)"
  have s: "popup_at pos info0 ?s" by (intro slide_info_x_at slide_info_y_at F2(1))
  have pos: "rect_positive (current i2)" "rect_positive (current ?s)"
    using F2(1) s assms(4) by (simp_all add: popup_at_def rect_positive_def)
  have area: "work_area_monitor i2 = work_area_monitor info0" "work_area_monitor ?s = work_area_monitor info0"
    using popup_at_area [OF F2(1)] popup_at_area [OF s] by simp_all
  have fit: "rect_width (current i2) \<le> rect_width (work_area_monitor i2)"
    "rect_height (current i2) \<le> rect_height (work_area_monitor i2)"
    using F2(1) assms(5) area by (simp_all add: popup_at_def mtk_rectangle_could_fit_rect_def)
  have inside: "mtk_rectangle_contains_rect (work_area_monitor info0) (current ?s)"
    using slide_to_inside [OF fit(1)] slide_to_inside [OF fit(2)] unfolding area(1)
    by (simp add: slide_info_x_def slide_info_y_def Let_def mtk_rectangle_contains_rect_def area)
  have adj: "slide_x (adjustment r2)" "slide_y (adjustment r2)" using F1(2) F2(2) assms(2,3) by simp_all
  have "adjust_popup env rule pos info isec =
      (if mtk_rectangle_contains_rect (work_area_monitor i2) (current i2) then i2 else ?s)"
    using inside adj satisfied_inside [OF pos(1) assms(2,3)] satisfied_inside [OF pos(2) assms(2,3)]
    by (simp add: adjust_popup_def f1 f2 Let_def area)
  then show "popup_at pos info0 (adjust_popup env rule pos info isec)"
    "mtk_rectangle_contains_rect (work_area_monitor info0) (current (adjust_popup env rule pos info isec))"
    using F2(1) s inside area by simp_all
qed

section \<open>A popup that slides\<close>

text \<open>The popup is placed anew: its rule allows to slide in both directions and is not settled.\<close>

definition sliding_popup :: "constrained_window \<Rightarrow> placement_rule \<Rightarrow> bool" where
  "sliding_popup w rule \<longleftrightarrow>
     the_rule (placement w) = Some rule \<and> transient_parent w \<noteq> None \<and>
     slide_x (adjustment rule) \<and> slide_y (adjustment rule) \<and> reconstrains (placement w) rule"

text \<open>The rule with its parent's position up to date.\<close>

definition popup_rule :: "constrained_window \<Rightarrow> placement_rule \<Rightarrow> placement_rule" where
  "popup_rule w rule = follow_parent (the (transient_parent w)) (placement w) rule"

definition popup_parent_pos :: "constrained_window \<Rightarrow> placement_rule \<Rightarrow> int \<times> int" where
  "popup_parent_pos w rule = (rect_x (rule_parent (popup_rule w rule)), rect_y (rule_parent (popup_rule w rule)))"

lemma popup_rule_same:
  "adjustment (popup_rule w rule) = adjustment rule" "reconstrains pl (popup_rule w rule) = reconstrains pl rule"
  by (simp_all add: popup_rule_def follow_parent_def reconstrains_def)

text \<open>The constraint information with the position of the rule.\<close>

definition popup_start :: "constrained_window \<Rightarrow> placement_rule \<Rightarrow> constraint_info \<Rightarrow> constraint_info" where
  "popup_start w rule info =
     (let temp = temporary_position (the (transient_parent w)) (placement w) (current info);
          a = adjusted_unconstrained (placement w) (popup_rule w rule) temp
      in info\<lparr>current := fst a, rel_pos := snd a, temporary := temp\<rparr>)"

lemma popup_start_at:
  assumes "sliding_popup w rule"
  shows "popup_at (popup_parent_pos w rule) (popup_start w rule info) (popup_start w rule info)"
    and "rect_width (current (popup_start w rule info)) = rect_width (current info)"
    and "rect_height (current (popup_start w rule info)) = rect_height (current info)"
    and "work_area_monitor (popup_start w rule info) = work_area_monitor info"
  using assms
  by (simp_all add: popup_at_def popup_start_def adjusted_unconstrained_def popup_rule_same sliding_popup_def Let_def
      popup_parent_pos_def temporary_position_def)

lemma popup_pass_eq:
  assumes "sliding_popup w rule" "p \<le> PRIORITY_CUSTOM_RULE"
  obtains sat where "constrain_custom_rule env p False (w, info) =
      (let start = popup_start w rule info;
           info' = (if sat then start
             else adjust_popup env (popup_rule w rule) (popup_parent_pos w rule) start
               (snd (mtk_rectangle_intersect (current start) (work_area_monitor info) (uninit_rect env))))
       in Some (True, (record_pending (w\<lparr>placement := (placement w)\<lparr>the_rule := Some (popup_rule w rule)\<rparr>\<rparr>) info', info')))"
    and "sat \<Longrightarrow> is_custom_rule_satisfied (current (popup_start w rule info)) (popup_rule w rule)
      (snd (mtk_rectangle_intersect (current (popup_start w rule info)) (work_area_monitor info) (uninit_rect env)))"
proof -
  obtain parent where parent: "transient_parent w = Some parent" using assms(1) by (auto simp: sliding_popup_def)
  have rule: "the_rule (placement w) = Some rule" "reconstrains (placement w) (follow_parent parent (placement w) rule)"
    "popup_rule w rule = follow_parent parent (placement w) rule"
    using assms(1) popup_rule_same(2) [of "placement w" w rule] parent by (simp_all add: sliding_popup_def popup_rule_def)
  obtain adj rel where a: "adjusted_unconstrained (placement w) (follow_parent parent (placement w) rule)
      (temporary_position parent (placement w) (current info)) = (adj, rel)" by (metis surj_pair)
  have start: "popup_start w rule info =
      info\<lparr>current := adj, rel_pos := rel, temporary := temporary_position parent (placement w) (current info)\<rparr>"
    by (simp add: popup_start_def Let_def parent rule(3) a)
  define isec where "isec = snd (mtk_rectangle_intersect adj (work_area_monitor info) (uninit_rect env))"
  show thesis
  proof (rule that [of "mtk_rectangle_equal (current info) adj \<and> is_custom_rule_satisfied adj (popup_rule w rule) isec"])
    show "is_custom_rule_satisfied (current (popup_start w rule info)) (popup_rule w rule)
        (snd (mtk_rectangle_intersect (current (popup_start w rule info)) (work_area_monitor info) (uninit_rect env)))"
      if "mtk_rectangle_equal (current info) adj \<and> is_custom_rule_satisfied adj (popup_rule w rule) isec"
      using that by (simp add: start isec_def)
    show "constrain_custom_rule env p False (w, info) =
      (let start = popup_start w rule info;
           info' = (if mtk_rectangle_equal (current info) adj \<and> is_custom_rule_satisfied adj (popup_rule w rule) isec then start
             else adjust_popup env (popup_rule w rule) (popup_parent_pos w rule) start
               (snd (mtk_rectangle_intersect (current start) (work_area_monitor info) (uninit_rect env))))
       in Some (True, (record_pending (w\<lparr>placement := (placement w)\<lparr>the_rule := Some (popup_rule w rule)\<rparr>\<rparr>) info', info')))"
      using assms(2)
      by (simp add: constrain_custom_rule_def rule parent a start Let_def popup_parent_pos_def
          flip: isec_def del: mtk_rectangle.update_convs)
  qed
qed

lemma popup_pass_lemma:
  assumes "sliding_popup w rule" "rect_positive (current info)" "p \<le> PRIORITY_CUSTOM_RULE"
    and "mtk_rectangle_could_fit_rect (work_area_monitor info) (current info)"
  obtains info' where "constrain_custom_rule env p False (w, info) = Some (True,
      (record_pending (w\<lparr>placement := (placement w)\<lparr>the_rule := Some (popup_rule w rule)\<rparr>\<rparr>) info', info'))"
    and "mtk_rectangle_contains_rect (work_area_monitor info) (current info')"
    and "rect_width (current info') = rect_width (current info)" "rect_height (current info') = rect_height (current info)"
    and "popup_at (popup_parent_pos w rule) (popup_start w rule info) info'"
proof -
  let ?start = "popup_start w rule info"
  note S = popup_start_at [OF assms(1), of info]
  have slides: "slide_x (adjustment (popup_rule w rule))" "slide_y (adjustment (popup_rule w rule))"
    using assms(1) by (simp_all add: popup_rule_same sliding_popup_def)
  have pos: "rect_positive (current ?start)" "mtk_rectangle_could_fit_rect (work_area_monitor ?start) (current ?start)"
    using assms(2,4) S by (simp_all add: rect_positive_def mtk_rectangle_could_fit_rect_def)
  note A = adjust_popup_inside [OF S(1) slides pos]
  obtain sat where eq: "constrain_custom_rule env p False (w, info) =
      (let start = ?start;
           info' = (if sat then start
             else adjust_popup env (popup_rule w rule) (popup_parent_pos w rule) start
               (snd (mtk_rectangle_intersect (current start) (work_area_monitor info) (uninit_rect env))))
       in Some (True, (record_pending (w\<lparr>placement := (placement w)\<lparr>the_rule := Some (popup_rule w rule)\<rparr>\<rparr>) info', info')))"
    and sat: "sat \<Longrightarrow> is_custom_rule_satisfied (current ?start) (popup_rule w rule)
      (snd (mtk_rectangle_intersect (current ?start) (work_area_monitor info) (uninit_rect env)))"
    by (rule popup_pass_eq [OF assms(1,3)]) blast
  show thesis
  proof (cases sat)
    case True
    then have "mtk_rectangle_contains_rect (work_area_monitor info) (current ?start)"
      using sat satisfied_inside [OF pos(1) slides] by simp
    then show thesis using that [of ?start] eq True S by (simp add: Let_def)
  next
    case False
    let ?info = "adjust_popup env (popup_rule w rule) (popup_parent_pos w rule) ?start
      (snd (mtk_rectangle_intersect (current ?start) (work_area_monitor info) (uninit_rect env)))"
    have "rect_width (current ?info) = rect_width (current info)" "rect_height (current ?info) = rect_height (current info)"
      using A(1) S(2,3) by (simp_all add: popup_at_def)
    then show thesis using that [of ?info] eq False A S(4) by (simp add: Let_def)
  qed
qed

text \<open>Checking such a popup again finds the rule satisfied and changes nothing.\<close>

lemma popup_check_lemma:
  assumes "the_rule (placement w) = Some rule" "transient_parent w \<noteq> None" "pl_state (placement w) = Constrained_pending"
    and "pending_pos (placement w) = (rect_x (current info), rect_y (current info))"
    and "slide_x (adjustment rule)" "slide_y (adjustment rule)" "rect_positive (current info)"
    and "mtk_rectangle_contains_rect (work_area_monitor info) (current info)"
  shows "constrain_custom_rule env p True (w, info) = Some (True, (w, info))"
proof -
  obtain parent where parent: "transient_parent w = Some parent" using assms(2) by blast
  have same: "w\<lparr>placement := (placement w)\<lparr>the_rule := Some rule\<rparr>\<rparr> = w"
    using assms(1) by (cases w; cases "placement w") simp
  have follow: "follow_parent parent (placement w) rule = rule" using assms(3) by (simp add: follow_parent_def)
  have adj: "fst (adjusted_unconstrained (placement w) rule (temporary_position parent (placement w) (current info))) =
      current info"
    using assms(3,4) by (simp add: adjusted_unconstrained_def reconstrains_def temporary_position_def)
  show ?thesis
    using assms(1) satisfied_inside [OF assms(7,5,6), of "work_area_monitor info"] assms(8) parent
    by (simp add: constrain_custom_rule_def Let_def [of "placement w"] Let_def follow mtk_rectangle_equal_def same
        split_beta adj)
qed

section \<open>Constraining a popup\<close>

text \<open>A popup that is moved, with neither state nor external constraint.\<close>

definition popup_moved :: "constrain_env \<Rightarrow> constrained_window \<Rightarrow> placement_rule \<Rightarrow> bool" where
  "popup_moved env w rule \<longleftrightarrow>
     sliding_popup w rule \<and> hints_ok w \<and> \<not> minimize_after_placement w \<and>
     \<not> max_horizontally w \<and> \<not> max_vertically w \<and> \<not> is_fullscreen w \<and> external_constraints env = []"

lemma popup_rest:
  assumes "the_rule (placement w) \<noteq> None" "\<not> max_horizontally w" "\<not> max_vertically w" "\<not> is_fullscreen w"
    and "external_constraints env = []" "hints_ok w" "action info = ACTION_MOVE \<or> free_sized w (current info)"
  shows "do_constraints (tl all_constraints) env p c (w, info) = Some (True, (w, info))"
proof -
  have modal: "constrain_modal_dialog env p c (w, info) = Some (True, (w, info))"
    using assms(1) by (simp add: constrain_modal_dialog_def split: option.split)
  have maxi: "constrain_maximization env p c (w, info) = Some (True, (w, info))"
    using assms(2,3) by (simp add: constrain_maximization_def Let_def meta_window_config_is_any_maximized_def)
  have tiling: "constrain_tiling env p c (w, info) = Some (True, (w, info))"
    using assms(3) by (simp add: constrain_tiling_def Let_def meta_window_is_tiled_side_by_side_def)
  have increments: "constrain_size_increments env p c (w, info) = Some (True, (w, info))"
    using assms(7)
  proof
    assume "action info = ACTION_MOVE"
    then show ?thesis by (simp add: constrain_size_increments_def Let_def)
  qed (rule increments_free)
  have limits: "constrain_size_limits env p c (w, info) = Some (True, (w, info))"
    using assms(7)
  proof
    assume "action info = ACTION_MOVE"
    then show ?thesis by (simp add: constrain_size_limits_def Let_def)
  qed (rule limits_free [OF _ assms(2,3)])
  have aspect: "constrain_aspect_ratio env p c (w, info) = Some (True, (w, info))"
    using assms(7)
  proof
    assume "action info = ACTION_MOVE"
    then show ?thesis using assms(6) by (simp add: constrain_aspect_ratio_def Let_def hints_ok_def)
  qed (rule aspect_free)
  have single: "constrain_to_single_monitor env p c (w, info) = Some (True, (w, info))"
    using assms(1) by (simp add: constrain_to_single_monitor_def Let_def)
  have fully: "constrain_fully_onscreen env p c (w, info) = Some (True, (w, info))"
    using assms(1) by (simp add: constrain_fully_onscreen_def Let_def)
  have titlebar: "constrain_titlebar_visible env p c (w, info) = Some (True, (w, info))"
    using assms(1) by (simp add: constrain_titlebar_visible_def Let_def)
  have partially: "constrain_partially_onscreen env p c (w, info) = Some (True, (w, info))"
    using assms(1) by (simp add: constrain_partially_onscreen_def)
  show ?thesis
    by (simp add: all_constraints_def modal maxi tiling fullscreen_none [OF assms(4)] increments limits aspect single
        fully titlebar partially external_none [OF assms(5)])
qed

lemma do_all_head:
  assumes "constrain_custom_rule env p c s = Some (True, s')"
  shows "do_all_constraints env p c s = do_constraints (tl all_constraints) env p c s'"
  using assms by (simp add: do_all_constraints_def all_constraints_def)

lemma update_placement: "placement (update_onscreen_requirements s) = placement (fst s)"
  by (simp add: update_onscreen_requirements_def Let_def)

text \<open>The rectangle that the first pass starts with: a popup that has not been placed yet is put at the
  position that its rule gives.\<close>

definition popup_first ::
  "constrained_window \<Rightarrow> placement_rule \<Rightarrow> bool \<Rightarrow> mtk_rectangle \<Rightarrow> mtk_rectangle" where
  "popup_first w rule calculate new =
     (if \<not> placed w \<and> calculate \<and> \<not> minimized w
      then new\<lparr>rect_x := rect_x (rule_parent rule) + fst (meta_window_process_placement rule),
               rect_y := rect_y (rule_parent rule) + snd (meta_window_process_placement rule)\<rparr>
      else new)"

lemma free_sized_size:
  "rect_width r' = rect_width r \<Longrightarrow> rect_height r' = rect_height r \<Longrightarrow> free_sized w r' = free_sized w r"
  by (simp add: free_sized_def meta_window_frame_rect_to_client_rect_def mtk_rectangle_could_fit_rect_def Let_def
      split: option.split)

lemma free_sized_placement: "free_sized (w\<lparr>placement := pl\<rparr>) r = free_sized w r"
  by (simp add: free_sized_def meta_window_frame_rect_to_client_rect_def get_size_limits_def
      meta_window_client_rect_to_frame_rect_def frame_borders_def Let_def cong: option.case_cong if_cong)

text \<open>Setting up and the first placing of a popup.\<close>

lemma popup_setup:
  assumes "popup_moved env w rule" "action_of flags = Some act" "rect_positive new"
    and "constraining_monitor env w flags new = Some m"
  obtains info where "setup_constraint_info env w flags g cs old new \<noteq> None"
    and "Option.bind (setup_constraint_info env w flags g cs old new) (\<lambda>info. place_window_if_needed env calculate (w, info)) =
      Some (w, info)"
    and "action info = act" "usable_screen_region info = cs" "current info = popup_first w rule calculate new"
    and "work_area_monitor info = work_area_for env m"
proof -
  have w: "the_rule (placement w) = Some rule" "\<not> minimize_after_placement w" "\<not> max_horizontally w"
    "\<not> max_vertically w" "\<not> is_fullscreen w"
    using assms(1) by (simp_all add: popup_moved_def sliding_popup_def)
  note start = start_rect_positive [OF assms(3), of w]
  define info where "info = \<lparr>orig = old, current = new, temporary = old, rel_pos = (0, 0), action = act,
    is_user_action = user_action flags, gravity = g, fixed_dirs = fixed_directions_of (user_action flags) old new,
    work_area_monitor = work_area_for env m, entire_monitor = entire_monitor_of env w m,
    usable_screen_region = cs, usable_monitor_region = onmonitor_region env m, info_flags = flags\<rparr>"
  have s: "setup_constraint_info env w flags g cs old new = Some info"
    using assms(2,4) start unfolding setup_constraint_info_def start_rect_def info_def by (simp add: Let_def)
  have needs: "window_needs_placement w calculate info \<longleftrightarrow> \<not> placed w \<and> calculate \<and> \<not> minimized w"
    using w assms(3)
    by (auto simp: window_needs_placement_def info_def meta_window_config_is_any_maximized_def not_empty)
  let ?rel = "meta_window_process_placement rule"
  have "place_window_if_needed env calculate (w, info) = Some (w,
      if \<not> placed w \<and> calculate \<and> \<not> minimized w
      then info\<lparr>rel_pos := ?rel, current := popup_first w rule calculate new, fixed_dirs := FIXED_DIRECTION_NONE\<rparr>
      else info)"
    unfolding place_window_if_needed_def Let_def fst_conv snd_conv needs
    using w(1,2) by (simp add: popup_first_def info_def)
  then show thesis
    using that [of "if \<not> placed w \<and> calculate \<and> \<not> minimized w
      then info\<lparr>rel_pos := ?rel, current := popup_first w rule calculate new, fixed_dirs := FIXED_DIRECTION_NONE\<rparr>
      else info"] s
    by (auto simp: info_def popup_first_def split: if_splits)
qed

lemma popup_lemma:
  assumes "popup_moved env w rule" "action_of flags = Some act" "rect_positive new"
    and "act = ACTION_MOVE \<or> free_sized w new"
    and "constraining_monitor env w flags new = Some m" "mtk_rectangle_could_fit_rect (work_area_for env m) new"
  obtains w' r rel where "meta_window_constrain env w flags calculate g cs old new =
      Some (w', r, temporary_position (the (transient_parent w)) (placement w) (popup_first w rule calculate new), rel, cs)"
    and "mtk_rectangle_contains_rect (work_area_for env m) r"
    and "rect_width r = rect_width new" "rect_height r = rect_height new"
    and "rect_x r = fst (popup_parent_pos w rule) + fst rel" "rect_y r = snd (popup_parent_pos w rule) + snd rel"
    and "pl_state (placement w') = Constrained_pending" "pending_pos (placement w') = (rect_x r, rect_y r)"
    and "pending_rel (placement w') = rel"
proof -
  have w: "sliding_popup w rule" "hints_ok w" "\<not> minimize_after_placement w" "\<not> max_horizontally w"
    "\<not> max_vertically w" "\<not> is_fullscreen w" "external_constraints env = []"
    using assms(1) by (simp_all add: popup_moved_def)
  let ?first = "popup_first w rule calculate new"
  have size: "rect_width ?first = rect_width new" "rect_height ?first = rect_height new"
    by (simp_all add: popup_first_def)
  obtain info where info: "setup_constraint_info env w flags g cs old new \<noteq> None"
    "Option.bind (setup_constraint_info env w flags g cs old new) (\<lambda>info. place_window_if_needed env calculate (w, info)) =
      Some (w, info)"
    "action info = act" "usable_screen_region info = cs" "current info = ?first"
    "work_area_monitor info = work_area_for env m"
    by (rule popup_setup [OF assms(1-3,5), of g cs old calculate])
  have fit: "mtk_rectangle_could_fit_rect (work_area_monitor info) (current info)" "rect_positive (current info)"
    using assms(3,6) size unfolding info(5,6) by (simp_all add: mtk_rectangle_could_fit_rect_def rect_positive_def)
  let ?w = "\<lambda>info. record_pending (w\<lparr>placement := (placement w)\<lparr>the_rule := Some (popup_rule w rule)\<rparr>\<rparr>) info"
  obtain info' where i: "constrain_custom_rule env 0 False (w, info) = Some (True, (?w info', info'))"
    "mtk_rectangle_contains_rect (work_area_monitor info) (current info')"
    "rect_width (current info') = rect_width (current info)" "rect_height (current info') = rect_height (current info)"
    "popup_at (popup_parent_pos w rule) (popup_start w rule info) info'"
    by (rule popup_pass_lemma [OF w(1) fit(2) _ fit(1), of 0 env]) simp_all
  have same: "info' = (popup_start w rule info)\<lparr>current := current info', rel_pos := rel_pos info'\<rparr>"
    using i(5) by (simp add: popup_at_def)
  have keep: "action info' = act" "usable_screen_region info' = cs" "work_area_monitor info' = work_area_monitor info"
    "temporary info' = temporary_position (the (transient_parent w)) (placement w) ?first"
    using info(3,4,5) by (subst same, simp add: popup_start_def Let_def)+
  have slides: "slide_x (adjustment (popup_rule w rule))" "slide_y (adjustment (popup_rule w rule))"
    "transient_parent w \<noteq> None"
    using w(1) by (simp_all add: popup_rule_same sliding_popup_def)
  have pos: "rect_positive (current info')" using fit(2) i(3,4) by (simp add: rect_positive_def)
  have check: "constrain_custom_rule env 0 True (?w info', info') = Some (True, (?w info', info'))"
    by (rule popup_check_lemma [OF _ _ _ _ slides(1,2) pos]) (simp_all add: record_pending_def slides i(2) keep(3))
  have "rect_width (current info') = rect_width new" "rect_height (current info') = rect_height new"
    using i(3,4) size info(5) by simp_all
  note free = free_sized_size [OF this]
  have sized: "action info' = ACTION_MOVE \<or> free_sized (?w info') (current info')"
    using assms(4) free by (simp add: keep(1) record_pending_def free_sized_placement)
  have rest: "do_constraints (tl all_constraints) env 0 c (?w info', info') = Some (True, (?w info', info'))" for c
    by (rule popup_rest [OF _ _ _ _ _ _ sized])
      (simp_all add: record_pending_def w hints_ok_def [of "w\<lparr>placement := _\<rparr>"] w(2) [unfolded hints_ok_def])
  have "constrain_loop (PRIORITY_MAXIMUM + 1) env 0 (w, info) = Some (?w info', info')"
    using constrain_loop_settled [of env 0 "(w, info)" True "(?w info', info')" PRIORITY_MAXIMUM]
    unfolding do_all_head [OF i(1)] do_all_head [OF check] rest by simp
  moreover obtain info0 where "setup_constraint_info env w flags g cs old new = Some info0"
    "place_window_if_needed env calculate (w, info0) = Some (w, info)"
    using info(1,2) by auto
  ultimately have "meta_window_constrain env w flags calculate g cs old new = Some (constrained_result (?w info') info')"
    using meta_window_constrain_eq by blast
  then show thesis
    using that [of "update_onscreen_requirements (?w info', info')" "current info'" "rel_pos info'"] i keep info(5,6) size
    by (simp add: constrained_result_def popup_at_def update_placement record_pending_def)
qed

section \<open>External constraints\<close>

lemma external_fold_True:
  "fst (fold (\<lambda>f (ok, r). let (ok', r') = f g fl r in (ok \<or> ok', r')) fs (True, rect))"
  by (induction fs arbitrary: rect) (simp_all add: Let_def split_beta)

lemma external_never_refused:
  "constrain_external env p c (w, info) = Some (ok, s) \<Longrightarrow> ok"
  using external_fold_True [of "gravity info" "(move_action (info_flags info), resize_action (info_flags info))"
      "external_constraints env" "current info"]
  by (auto simp: constrain_external_def meta_window_apply_external_constraints_def Let_def split_beta split: if_splits)

end
