(* ===== verification/Constrain_Example.thy ===== *)
theory Constrain_Example
  imports Constrain_Popup
begin

text \<open>
  A window and a popup under constraints, and a popup off the work area that is resized to a
  rectangle nobody has initialised.
\<close>

definition user_move :: move_resize_flags where
  "user_move = \<lparr>user_action = True, move_action = True, resize_action = False, finish_move_resize = False,
     rect_invalid = False\<rparr>"

definition client_configure :: move_resize_flags where
  "client_configure = \<lparr>user_action = False, move_action = True, resize_action = True, finish_move_resize = False,
     rect_invalid = False\<rparr>"

definition client_move :: move_resize_flags where
  "client_move = \<lparr>user_action = False, move_action = True, resize_action = False, finish_move_resize = False,
     rect_invalid = False\<rparr>"

definition panel_region :: "mtk_rectangle list" where
  "panel_region = [mtk_rectangle_new 0 30 800 570]"

text \<open>The user drags with the pointer; the drag is constrained.\<close>

definition dragging :: constrain_env where
  "dragging = one_monitor\<lparr>current_drag := Some (False, False)\<rparr>"

text \<open>A menu below an anchor near the right end of its parent.\<close>

definition menu_rule :: "constraint_adjustment \<Rightarrow> placement_rule" where
  "menu_rule a =
     \<lparr>anchor_rect = mtk_rectangle_new 180 0 20 20,
      placement_gravity = \<lparr>at_top = False, at_bottom = True, at_left = False, at_right = True\<rparr>,
      placement_anchor = \<lparr>at_top = False, at_bottom = True, at_left = True, at_right = False\<rparr>,
      adjustment = a, offset_x = 0, offset_y = 0, rule_width = 60, rule_height = 20, is_reactive = False,
      rule_parent = mtk_rectangle_new 590 100 200 100\<rparr>"

definition menu_window :: "placement_rule \<Rightarrow> constrained_window" where
  "menu_window rule = free_window\<lparr>
     transient_parent := Some \<lparr>parent_config = mtk_rectangle_new 590 100 200 100,
       parent_frame = mtk_rectangle_new 590 100 200 100\<rparr>,
     placement := (placement free_window)\<lparr>the_rule := Some rule\<rparr>\<rparr>"

definition slides :: constraint_adjustment where
  "slides = \<lparr>slide_x = True, slide_y = True, flip_x = False, flip_y = False, resize_x = False, resize_y = False\<rparr>"

definition resizes :: constraint_adjustment where
  "resizes = \<lparr>slide_x = False, slide_y = False, flip_x = False, flip_y = False, resize_x = True, resize_y = False\<rparr>"

lemmas constrain_examples = user_move_def client_configure_def client_move_def panel_region_def dragging_def
  menu_rule_def menu_window_def slides_def resizes_def free_window_def one_monitor_def

lemmas placement_examples = meta_window_process_placement_def temporary_position_def adjusted_unconstrained_def
  reconstrains_def follow_parent_def record_pending_def

lemma menu_slides:
  "map_option (\<lambda>(w, r, _). r)
     (meta_window_constrain one_monitor (menu_window (menu_rule slides)) client_move False META_GRAVITY_NORTH_WEST
        panel_region (mtk_rectangle_new 0 0 60 20) (mtk_rectangle_new 0 0 60 20)) =
   Some (mtk_rectangle_new 740 120 60 20)"
  by code_simp

lemma drag_held:
  "map_option (\<lambda>(w, r, _). r)
     (meta_window_constrain dragging free_window user_move False META_GRAVITY_NORTH_WEST
        panel_region (mtk_rectangle_new 700 100 60 20) (mtk_rectangle_new 795 5 60 20)) =
   Some (mtk_rectangle_new 785 30 60 20)"
  by code_simp

text \<open>The same menu for a parent that is off the work area: the menu is resized to the rectangle that the
  intersection left uninitialised, of which only the size has been set.\<close>

definition off_screen_rule :: placement_rule where
  "off_screen_rule = (menu_rule resizes)\<lparr>rule_parent := mtk_rectangle_new 900 100 200 100\<rparr>"

lemma off_area_menu_uninit:
  "map_option (\<lambda>(w, r, _). r)
     (meta_window_constrain (one_monitor\<lparr>uninit_rect := mtk_rectangle_new 12345 u 7 8\<rparr>)
        (menu_window off_screen_rule) client_move False META_GRAVITY_NORTH_WEST
        panel_region (mtk_rectangle_new 0 0 60 20) (mtk_rectangle_new 0 0 60 20)) =
   Some \<lparr>rect_x = 12345, rect_y = 120, rect_width = 0, rect_height = 20\<rparr>"
  by code_simp

text \<open>The frame that follows the size steps of a terminal.\<close>

definition terminal_window :: constrained_window where
  "terminal_window = free_window\<lparr>hints := (hints free_window)\<lparr>min_width := 24, min_height := 12, base_width := 4,
     base_height := 4, width_step := 10, height_step := 20\<rparr>\<rparr>"

lemma terminal_steps:
  "map_option (\<lambda>(w, r, _). r)
     (meta_window_constrain one_monitor terminal_window client_configure False META_GRAVITY_NORTH_WEST
        panel_region (mtk_rectangle_new 100 100 64 44) (mtk_rectangle_new 100 100 81 70)) =
   Some (mtk_rectangle_new 100 100 74 64)"
  by code_simp

end
