(* ===== verification/Place_Example.thy ===== *)
theory Place_Example
  imports Place_Window Constrain_Example
begin

text \<open>
  Windows being placed on one monitor, and two places that are not as intended: a cascade around the
  centre from right to left, and a window that must not cover a dialog that has the focus.
\<close>

definition shown_window :: "mtk_rectangle \<Rightarrow> meta_window_type \<Rightarrow> meta_window" where
  "shown_window r t = (meta_window.truncate free_window)\<lparr>frame_rect := r, win_type := t\<rparr>"

text \<open>A window of 400 by 300 pixels that has just been created.\<close>

definition created_window :: new_window where
  "created_window = constrained_window.extend
     (free_window\<lparr>frame_rect := mtk_rectangle_new 0 0 400 300, placed := False\<rparr>)
     (new_window.fields 7 False False True True)"

definition desk :: "bool \<Rightarrow> bool \<Rightarrow> (window \<Rightarrow> meta_window) \<Rightarrow> window list \<Rightarrow> window option \<Rightarrow> place_env" where
  "desk ltr centered wins ids f =
     \<lparr>window_of = wins, listed_windows = ids, showing_on_its_workspace = (\<lambda>_. True), is_ltr = ltr,
      center_new_windows = centered, disable_workarounds = False, auto_maximize = False, focus_window = f,
      focus_work_area = mtk_rectangle_new 0 30 800 570, same_application = False, current_monitor = Some 0,
      screen = one_monitor\<rparr>"

text \<open>A window in the top left corner leaves room below it.\<close>

definition corner_desk :: place_env where
  "corner_desk = desk True False (\<lambda>_. shown_window (mtk_rectangle_new 0 30 500 250) META_WINDOW_NORMAL) [1] None"

lemma placed_below_corner:
  "meta_window_place corner_desk created_window False (0, 0) 400 300 = Some ((0, 280), False)"
  by code_simp

text \<open>Two windows fill the work area; the new one goes off the corner of the first, not onto it.\<close>

definition full_desk :: place_env where
  "full_desk = desk True False (\<lambda>_. shown_window (mtk_rectangle_new 0 30 800 570) META_WINDOW_NORMAL) [1, 2] None"

lemma cascaded_on_full:
  "meta_window_place full_desk created_window False (0, 0) 400 300 = Some ((50, 80), False)"
  by code_simp

text \<open>From right to left and around the centre, the windows are sorted by the distance of their left
  corners and compared by their right ones: the small window is visited first, and the new window
  then comes to lie exactly on it.\<close>

definition rtl_desk :: place_env where
  "rtl_desk = desk False True
     (\<lambda>n. if n = 1 then shown_window (mtk_rectangle_new 100 165 500 200) META_WINDOW_NORMAL
          else shown_window (mtk_rectangle_new 540 215 10 20) META_WINDOW_NORMAL) [1, 2] None"

lemma rtl_center_hides:
  "meta_window_place rtl_desk created_window False (0, 0) 400 300 = Some ((150, 215), False)"
  "near_cascade (cascade_of rtl_desk (mtk_rectangle_new 0 30 800 570) 400 300 True) (150, 215)
     (shown_window (mtk_rectangle_new 540 215 10 20) META_WINDOW_NORMAL)"
  by code_simp+

text \<open>A dialog in the middle has the focus, and a window that was denied it is placed over the dialog:
  the first fit does not count dialogs.\<close>

definition dialog_desk :: place_env where
  "dialog_desk = desk True False (\<lambda>_. shown_window (mtk_rectangle_new 100 100 300 200) META_WINDOW_DIALOG) [1] (Some 1)"

lemma denied_window_covers_dialog:
  "meta_window_place dialog_desk created_window True (0, 0) 400 300 = Some ((199, 119), False)"
  "window_overlaps_focus_window dialog_desk created_window (199, 119)"
  by code_simp+

end
