(* ===== verification/Boxes_Struts.thy ===== *)
theory Boxes_Struts
  imports Boxes_Region
begin

text \<open>
  Breaking up struts, from \<open>mutter/src/core/boxes.c\<close>: \<open>get_disjoint_strut_rect_list_in_region\<close>,
  which clips the struts to the region and splits those that intersect. It terminates, and keeps
  exactly the pixels of the struts in the region; that its result is disjoint, as its comment
  says, is refuted.
\<close>

section \<open>The code\<close>

text \<open>The list is built by prepending: the last part comes first.\<close>

definition get_rect_minus_overlap :: "mtk_rectangle \<Rightarrow> mtk_rectangle \<Rightarrow> mtk_rectangle list" where
  "get_rect_minus_overlap rect overlap =
     (let ret = [];
          ret = (if box_left rect < box_left overlap
                 then rect\<lparr>rect_width := box_left overlap - box_left rect\<rparr> # ret else ret);
          ret = (if box_right rect > box_right overlap
                 then rect\<lparr>rect_x := box_right overlap,
                           rect_width := box_right rect - box_right overlap\<rparr> # ret else ret);
          ret = (if box_top rect < box_top overlap
                 then \<lparr>rect_x = rect_x overlap, rect_y = box_top rect, rect_width = rect_width overlap,
                       rect_height = box_top overlap - box_top rect\<rparr> # ret else ret)
      in if box_bottom rect > box_bottom overlap
         then \<lparr>rect_x = rect_x overlap, rect_y = box_bottom overlap, rect_width = rect_width overlap,
               rect_height = box_bottom rect - box_bottom overlap\<rparr> # ret else ret)"

fun clip_struts :: "meta_strut list \<Rightarrow> mtk_rectangle \<Rightarrow> mtk_rectangle list \<Rightarrow> mtk_rectangle list" where
  "clip_struts [] region acc = acc"
| "clip_struts (s # ss) region acc =
     (case mtk_rectangle_intersect (strut_rect s) region (strut_rect s) of
        (True, copy) \<Rightarrow> clip_struts ss region (copy # acc)
      | (False, copy) \<Rightarrow> clip_struts ss region acc)"

definition area_of :: "mtk_rectangle \<Rightarrow> nat" where
  "area_of r = nat (rect_width r) * nat (rect_height r)"

abbreviation areas :: "mtk_rectangle list \<Rightarrow> nat" where
  "areas rs \<equiv> sum_list (map area_of rs)"

subsection \<open>Facts for termination\<close>

lemma intersect_parts:
  assumes "mtk_rectangle_intersect a b d = (True, v)"
  shows "rect_positive a" "rect_positive b" "rect_positive v"
    "mtk_rectangle_contains_rect a v" "mtk_rectangle_contains_rect b v"
  using assms by (auto simp: mtk_rectangle_intersect_def Let_def rect_positive_def
      mtk_rectangle_contains_rect_def split: if_splits)

lemma minus_overlap_margins:
  assumes "0 \<le> a" "0 \<le> b" "0 \<le> c" "0 \<le> d" "0 < w" "0 < h"
  shows "int (areas (get_rect_minus_overlap
      \<lparr>rect_x = x, rect_y = y, rect_width = a + w + b, rect_height = c + h + d\<rparr>
      \<lparr>rect_x = x + a, rect_y = y + c, rect_width = w, rect_height = h\<rparr>)) =
    (a + b) * (c + h + d) + w * (c + d)"
proof -
  have "\<not> 0 < a \<Longrightarrow> a = 0" "\<not> 0 < b \<Longrightarrow> b = 0" "\<not> 0 < c \<Longrightarrow> c = 0" "\<not> 0 < d \<Longrightarrow> d = 0"
    using assms by auto
  then show ?thesis
    using assms by (simp add: get_rect_minus_overlap_def Let_def box_defs area_of_def distrib_left distrib_right)
qed

lemma rect_eta:
  "\<lparr>rect_x = rect_x r, rect_y = rect_y r, rect_width = rect_width r, rect_height = rect_height r\<rparr> = r"
  by (cases r) simp

lemma minus_overlap_area:
  assumes "rect_positive r" "rect_positive v" "mtk_rectangle_contains_rect r v"
  shows "areas (get_rect_minus_overlap r v) + area_of v = area_of r"
proof -
  let ?a = "rect_x v - rect_x r" and ?c = "rect_y v - rect_y r"
  let ?b = "rect_width r - ?a - rect_width v" and ?d = "rect_height r - ?c - rect_height v"
  have "int (areas (get_rect_minus_overlap r v)) =
      (?a + ?b) * rect_height r + rect_width v * (?c + ?d)"
    using minus_overlap_margins [of ?a ?b ?c ?d "rect_width v" "rect_height v" "rect_x r" "rect_y r"] assms
    by (simp add: rect_positive_def mtk_rectangle_contains_rect_def rect_eta)
  also have "\<dots> = rect_width r * rect_height r - rect_width v * rect_height v"
    by (simp add: left_diff_distrib right_diff_distrib)
  finally have i: "int (areas (get_rect_minus_overlap r v)) =
      rect_width r * rect_height r - rect_width v * rect_height v" .
  have "int (area_of r) = rect_width r * rect_height r" "int (area_of v) = rect_width v * rect_height v"
    using assms by (simp_all add: area_of_def rect_positive_def)
  with i show ?thesis by linarith
qed

lemma area_pos: "rect_positive r \<Longrightarrow> 0 < area_of r"
  by (simp add: area_of_def rect_positive_def)

lemma leftover_decreases:
  assumes "mtk_rectangle_intersect a b d = (True, v)" "get_rect_minus_overlap b v @ rest = c # rest'"
  shows "areas rest' < areas (b # rest)"
proof -
  note P = intersect_parts [OF assms(1)]
  have "areas (c # rest') = areas (get_rect_minus_overlap b v @ rest)" using assms(2) by simp
  then show ?thesis using minus_overlap_area [OF P(2,3,5)] area_pos [OF P(3)] by simp
qed

section \<open>The splitting loops\<close>

text \<open>The inner loop. \<open>cur\<close> is the element at \<open>tmp\<close>, \<open>between\<close> the elements from behind it up to
  \<open>compare\<close>, and the last argument the list from \<open>compare\<close> on. After a split \<open>compare\<close> stands on
  what \<open>replace_rect_with_list\<close> returned, the first leftover or else the next element, and the
  loop goes on behind that.\<close>

function disjoint_inner ::
  "mtk_rectangle \<Rightarrow> mtk_rectangle list \<Rightarrow> mtk_rectangle list \<Rightarrow> mtk_rectangle \<times> mtk_rectangle list"
where
  "disjoint_inner cur between [] = (cur, between)"
| "disjoint_inner cur between (cmp # rest) =
     (case mtk_rectangle_intersect cur cmp cur of
        (False, v) \<Rightarrow> disjoint_inner cur (between @ [cmp]) rest
      | (True, overlap) \<Rightarrow>
          (let cur_leftover = get_rect_minus_overlap cur overlap;
               comp_leftover = get_rect_minus_overlap cmp overlap
           in case comp_leftover @ rest of
                [] \<Rightarrow> (overlap, cur_leftover @ between)
              | compare # rest' \<Rightarrow>
                  disjoint_inner overlap (cur_leftover @ between @ [compare]) rest'))"
  by pat_completeness auto
termination
  by (relation "measures [\<lambda>(cur, between, rest). areas rest, \<lambda>(cur, between, rest). length rest]")
     (auto dest!: leftover_decreases [OF sym])

lemma disjoint_inner_areas:
  "disjoint_inner cur between rest = (cur', after) \<Longrightarrow>
   area_of cur' + areas after < area_of cur + areas (between @ rest) \<or> cur' = cur \<and> after = between @ rest"
proof (induction cur between rest rule: disjoint_inner.induct)
  case (2 cur between cmp rest)
  obtain b v where i: "mtk_rectangle_intersect cur cmp cur = (b, v)" by fastforce
  show ?case
  proof (cases b)
    case False
    with 2 i show ?thesis by auto
  next
    case True
    with i have i: "mtk_rectangle_intersect cur cmp cur = (True, v)" by simp
    note P = intersect_parts [OF i]
    note A = minus_overlap_area [OF P(1,3,4)] minus_overlap_area [OF P(2,3,5)] area_pos [OF P(3)]
    show ?thesis
    proof (cases "get_rect_minus_overlap cmp v @ rest")
      case Nil
      with 2(3) i A show ?thesis by auto
    next
      case (Cons c rest')
      then have "areas (c # rest') = areas (get_rect_minus_overlap cmp v @ rest)" by simp
      moreover have "disjoint_inner v (get_rect_minus_overlap cur v @ between @ [c]) rest' = (cur', after)"
        using 2(3) i Cons by simp
      ultimately show ?thesis
        using 2(1) [OF i [symmetric] _ refl refl Cons] A by auto
    qed
  qed
qed auto

text \<open>The outer loop.\<close>

function disjoint_outer :: "mtk_rectangle list \<Rightarrow> mtk_rectangle list" where
  "disjoint_outer [] = []"
| "disjoint_outer (cur # rest) =
     (case disjoint_inner cur [] rest of (cur', after) \<Rightarrow> cur' # disjoint_outer after)"
  by pat_completeness auto
termination
  by (relation "measures [areas, length]") (auto dest!: disjoint_inner_areas [OF sym])

definition get_disjoint_strut_rect_list_in_region ::
  "meta_strut list \<Rightarrow> mtk_rectangle \<Rightarrow> mtk_rectangle list" where
  "get_disjoint_strut_rect_list_in_region old_struts region =
     disjoint_outer (clip_struts old_struts region [])"

section \<open>The pixels of the struts are kept\<close>

definition covered :: "mtk_rectangle list \<Rightarrow> (int \<times> int) set" where
  "covered rs = (\<Union>r\<in>set rs. pixels r)"

lemma covered_simps [simp]:
  "covered [] = {}" "covered (r # rs) = pixels r \<union> covered rs"
  "covered (rs @ ss) = covered rs \<union> covered ss"
  by (auto simp: covered_def)

lemma covered_if: "covered (if c then r # rs else rs) = (if c then pixels r else {}) \<union> covered rs"
  by simp

lemma minus_overlap_mem:
  "(x, y) \<in> covered (get_rect_minus_overlap r v) \<longleftrightarrow>
     (rect_y r \<le> y \<and> y < rect_y r + rect_height r \<and>
        (rect_x r \<le> x \<and> x < rect_x v \<or> rect_x v + rect_width v \<le> x \<and> x < rect_x r + rect_width r)) \<or>
     (rect_x v \<le> x \<and> x < rect_x v + rect_width v \<and>
        (rect_y r \<le> y \<and> y < rect_y v \<or> rect_y v + rect_height v \<le> y \<and> y < rect_y r + rect_height r))"
proof -
  have if_mem: "(x, y) \<in> (if c then pixels s else {}) \<longleftrightarrow> c \<and> (x, y) \<in> pixels s" for c s by simp
  show ?thesis
    unfolding get_rect_minus_overlap_def Let_def covered_if covered_simps(1) Un_iff if_mem mem_pixels box_defs
    by simp linarith
qed

lemma minus_overlap_pixels:
  assumes "mtk_rectangle_contains_rect r v" "rect_positive v"
  shows "covered (get_rect_minus_overlap r v) = pixels r - pixels v"
proof (rule set_eqI)
  fix p :: "int \<times> int"
  obtain x y where p: "p = (x, y)" by fastforce
  show "p \<in> covered (get_rect_minus_overlap r v) \<longleftrightarrow> p \<in> pixels r - pixels v"
    using assms unfolding p minus_overlap_mem Diff_iff mem_pixels mtk_rectangle_contains_rect_def rect_positive_def
    by linarith
qed

lemma intersect_overlap_pixels:
  "mtk_rectangle_intersect a b d = (True, v) \<Longrightarrow> pixels v = pixels a \<inter> pixels b"
  using intersect_pixels [of a b d] by simp

lemma disjoint_inner_covered:
  "disjoint_inner cur between rest = (cur', after) \<Longrightarrow>
   pixels cur' \<union> covered after = pixels cur \<union> covered between \<union> covered rest"
proof (induction cur between rest rule: disjoint_inner.induct)
  case (2 cur between cmp rest)
  obtain b v where i: "mtk_rectangle_intersect cur cmp cur = (b, v)" by fastforce
  show ?case
  proof (cases b)
    case False
    with 2 i show ?thesis by auto
  next
    case True
    with i have i: "mtk_rectangle_intersect cur cmp cur = (True, v)" by simp
    note P = intersect_parts [OF i]
    note C = minus_overlap_pixels [OF P(4,3)] minus_overlap_pixels [OF P(5,3)] intersect_overlap_pixels [OF i]
    show ?thesis
    proof (cases "get_rect_minus_overlap cmp v @ rest")
      case Nil
      with 2(3) i have "cur' = v" "after = get_rect_minus_overlap cur v @ between" by auto
      moreover have "covered (get_rect_minus_overlap cmp v @ rest) = {}" using Nil by simp
      ultimately show ?thesis using C by auto
    next
      case (Cons c rest')
      then have "covered (c # rest') = covered (get_rect_minus_overlap cmp v @ rest)" by simp
      moreover have "disjoint_inner v (get_rect_minus_overlap cur v @ between @ [c]) rest' = (cur', after)"
        using 2(3) i Cons by simp
      ultimately show ?thesis
        using 2(1) [OF i [symmetric] _ refl refl Cons] C by auto
    qed
  qed
qed auto

lemma disjoint_outer_covered: "covered (disjoint_outer rs) = covered rs"
proof (induction rs rule: disjoint_outer.induct)
  case (2 cur rest)
  obtain cur' after where i: "disjoint_inner cur [] rest = (cur', after)" by fastforce
  with 2 [OF i [symmetric]] disjoint_inner_covered [OF i] show ?case by simp
qed simp

lemma clip_struts_covered:
  "covered (clip_struts ss region acc) = covered (map strut_rect ss) \<inter> pixels region \<union> covered acc"
proof (induction ss region acc rule: clip_struts.induct)
  case (2 s ss region acc)
  obtain b v where i: "mtk_rectangle_intersect (strut_rect s) region (strut_rect s) = (b, v)" by fastforce
  show ?case
  proof (cases b)
    case True
    with 2 i intersect_overlap_pixels [of "strut_rect s" region "strut_rect s" v] show ?thesis by auto
  next
    case False
    with 2 i intersect_pixels_empty [of "strut_rect s" region "strut_rect s"] show ?thesis by auto
  qed
qed simp

lemma strut_rects_covered:
  "covered (get_disjoint_strut_rect_list_in_region ss region) = covered (map strut_rect ss) \<inter> pixels region"
  by (simp add: get_disjoint_strut_rect_list_in_region_def disjoint_outer_covered clip_struts_covered)

section \<open>Every part is a real rectangle\<close>

lemma minus_overlap_positive:
  "rect_positive r \<Longrightarrow> rect_positive v \<Longrightarrow> list_all rect_positive (get_rect_minus_overlap r v)"
  by (auto simp: get_rect_minus_overlap_def Let_def rect_positive_def box_defs)

lemma disjoint_inner_positive:
  "disjoint_inner cur between rest = (cur', after) \<Longrightarrow> list_all rect_positive (cur # between @ rest) \<Longrightarrow>
   list_all rect_positive (cur' # after)"
proof (induction cur between rest rule: disjoint_inner.induct)
  case (2 cur between cmp rest)
  obtain b v where i: "mtk_rectangle_intersect cur cmp cur = (b, v)" by fastforce
  show ?case
  proof (cases b)
    case False
    with 2 i show ?thesis by auto
  next
    case True
    with i have i: "mtk_rectangle_intersect cur cmp cur = (True, v)" by simp
    note P = intersect_parts [OF i]
    note C = minus_overlap_positive [OF P(1,3)] minus_overlap_positive [OF P(2,3)]
    show ?thesis
    proof (cases "get_rect_minus_overlap cmp v @ rest")
      case Nil
      with 2(3,4) i C P show ?thesis by auto
    next
      case (Cons c rest')
      have "list_all rect_positive (get_rect_minus_overlap cmp v @ rest)" using C 2(4) by simp
      then have "list_all rect_positive (c # rest')" unfolding Cons .
      moreover have "disjoint_inner v (get_rect_minus_overlap cur v @ between @ [c]) rest' = (cur', after)"
        using 2(3) i Cons by simp
      ultimately show ?thesis
        using 2(1) [OF i [symmetric] _ refl refl Cons] C P 2(4) by simp
    qed
  qed
qed auto

lemma disjoint_outer_positive: "list_all rect_positive rs \<Longrightarrow> list_all rect_positive (disjoint_outer rs)"
proof (induction rs rule: disjoint_outer.induct)
  case (2 cur rest)
  obtain cur' after where i: "disjoint_inner cur [] rest = (cur', after)" by fastforce
  with 2(1) [OF i [symmetric]] 2(2) disjoint_inner_positive [OF i] show ?case by simp
qed simp

lemma clip_struts_positive:
  "list_all rect_positive acc \<Longrightarrow> list_all rect_positive (clip_struts ss region acc)"
proof (induction ss region acc rule: clip_struts.induct)
  case (2 s ss region acc)
  obtain b v where i: "mtk_rectangle_intersect (strut_rect s) region (strut_rect s) = (b, v)" by fastforce
  with 2 intersect_parts(3) [of "strut_rect s" region "strut_rect s" v] show ?case by (cases b) auto
qed simp

lemma strut_rects_positive:
  "list_all rect_positive (get_disjoint_strut_rect_list_in_region ss region)"
  by (simp add: get_disjoint_strut_rect_list_in_region_def disjoint_outer_positive clip_struts_positive)

section \<open>They may overlap\<close>

text \<open>Three nested struts: after the first split nothing is left over of the second, and the
  third is skipped, so that it is never compared with the second.\<close>

definition nested_struts :: "meta_strut list" where
  "nested_struts = map (\<lambda>r. \<lparr>strut_rect = r, strut_side = META_SIDE_TOP\<rparr>)
     [mtk_rectangle_new 12 12 2 2, mtk_rectangle_new 10 10 10 10, mtk_rectangle_new 0 0 30 30]"

lemma nested_struts_result:
  "get_disjoint_strut_rect_list_in_region nested_struts (mtk_rectangle_new 0 0 100 100) =
     [mtk_rectangle_new 10 10 10 10, mtk_rectangle_new 10 20 10 10, mtk_rectangle_new 10 0 10 10,
      mtk_rectangle_new 20 0 10 30, mtk_rectangle_new 0 0 10 30, mtk_rectangle_new 12 12 2 2]"
  by (simp add: get_disjoint_strut_rect_list_in_region_def nested_struts_def mtk_rectangle_new_def
      mtk_rectangle_intersect_def get_rect_minus_overlap_def box_defs)

end
