(* ===== verification/Boxes_Edges.thy ===== *)
theory Boxes_Edges
  imports Boxes_Struts "HOL-Library.Product_Lexorder"
begin

text \<open>
  Edges, from \<open>mutter/src/core/boxes.c\<close>: comparing, intersecting and splitting them, the edges of
  the onscreen region, and the edges between monitors. The abstract view of an edge is the set of
  its unit cells; removing boxes from a list of edges and the edges between monitors are shown
  exact against it. A failed assertion is \<^const>\<open>None\<close>.
\<close>

section \<open>Data\<close>

datatype meta_edge_type = META_EDGE_WINDOW | META_EDGE_MONITOR | META_EDGE_SCREEN

record meta_edge =
  edge_rect :: mtk_rectangle
  side_type :: meta_side
  edge_type :: meta_edge_type

fun side_index :: "meta_side \<Rightarrow> nat" where
  "side_index META_SIDE_LEFT = 1"
| "side_index META_SIDE_RIGHT = 2"
| "side_index META_SIDE_TOP = 4"
| "side_index META_SIDE_BOTTOM = 8"

definition vertical_side :: "meta_side \<Rightarrow> bool" where
  "vertical_side s \<longleftrightarrow> s = META_SIDE_LEFT \<or> s = META_SIDE_RIGHT"

section \<open>Comparisons\<close>

definition meta_rectangle_edge_aligns :: "mtk_rectangle \<Rightarrow> meta_edge \<Rightarrow> bool" where
  "meta_rectangle_edge_aligns rect edge =
     (if vertical_side (side_type edge)
      then box_top rect \<le> box_bottom (edge_rect edge) \<and> box_top (edge_rect edge) \<le> box_bottom rect
      else box_left rect \<le> box_right (edge_rect edge) \<and> box_left (edge_rect edge) \<le> box_right rect)"

definition meta_rectangle_edge_cmp_ignore_type :: "meta_edge \<Rightarrow> meta_edge \<Rightarrow> int option" where
  "meta_rectangle_edge_cmp_ignore_type a b =
     (if \<not> (rect_width (edge_rect a) = 0 \<and> rect_width (edge_rect b) = 0 \<or>
            rect_height (edge_rect a) = 0 \<and> rect_height (edge_rect b) = 0) then None
      else
        (let (ac, bc) =
           (if vertical_side (side_type a)
            then (if rect_x (edge_rect a) = rect_x (edge_rect b)
                  then (rect_y (edge_rect a), rect_y (edge_rect b))
                  else (rect_x (edge_rect a), rect_x (edge_rect b)))
            else (if rect_y (edge_rect a) = rect_y (edge_rect b)
                  then (rect_x (edge_rect a), rect_x (edge_rect b))
                  else (rect_y (edge_rect a), rect_y (edge_rect b))))
         in Some (ac - bc)))"

definition meta_rectangle_edge_cmp :: "meta_edge \<Rightarrow> meta_edge \<Rightarrow> int option" where
  "meta_rectangle_edge_cmp a b =
     (if side_type a = side_type b then meta_rectangle_edge_cmp_ignore_type a b
      else Some (int (side_index (side_type a)) - int (side_index (side_type b))))"

text \<open>\<open>g_list_sort\<close> is a stable sort; on well-formed edges \<open>edge_cmp\<close> orders by this key.\<close>

definition edge_key :: "meta_edge \<Rightarrow> nat \<times> int \<times> int" where
  "edge_key a =
     (if vertical_side (side_type a)
      then (side_index (side_type a), rect_x (edge_rect a), rect_y (edge_rect a))
      else (side_index (side_type a), rect_y (edge_rect a), rect_x (edge_rect a)))"

text \<open>The overlap that the code keeps in a \<open>MetaEdge\<close> has no valid types: only its rectangle is
  ever read.\<close>

definition edges_overlap :: "mtk_rectangle \<Rightarrow> mtk_rectangle \<Rightarrow> bool" where
  "edges_overlap r1 r2 =
     (if rect_width r1 = 0 \<and> rect_width r2 = 0
      then mtk_rectangle_vert_overlap r1 r2 \<and> rect_x r1 = rect_x r2
      else if rect_height r1 = 0 \<and> rect_height r2 = 0
      then mtk_rectangle_horiz_overlap r1 r2 \<and> rect_y r1 = rect_y r2
      else False)"

text \<open>The intersection and its handle type, or \<^const>\<open>None\<close> where the code returns FALSE.\<close>

definition edge_handle_type :: "mtk_rectangle \<Rightarrow> meta_side \<Rightarrow> mtk_rectangle \<Rightarrow> int" where
  "edge_handle_type rect side result =
     (case side of
        META_SIDE_LEFT \<Rightarrow>
          if rect_x result = rect_x rect then 1 else if rect_x result = box_right rect then -1 else 0
      | META_SIDE_RIGHT \<Rightarrow>
          if rect_x result = rect_x rect then -1 else if rect_x result = box_right rect then 1 else 0
      | META_SIDE_TOP \<Rightarrow>
          if rect_y result = rect_y rect then 1 else if rect_y result = box_bottom rect then -1 else 0
      | META_SIDE_BOTTOM \<Rightarrow>
          if rect_y result = rect_y rect then -1 else if rect_y result = box_bottom rect then 1 else 0)"

definition rectangle_and_edge_intersection ::
  "mtk_rectangle \<Rightarrow> meta_edge \<Rightarrow> (mtk_rectangle \<times> int) option" where
  "rectangle_and_edge_intersection rect edge =
     (let rect2 = edge_rect edge;
          x = max (rect_x rect) (rect_x rect2);
          y = max (rect_y rect) (rect_y rect2);
          w = min (box_right rect) (box_right rect2) - x;
          h = min (box_bottom rect) (box_bottom rect2) - y;
          result = \<lparr>rect_x = x, rect_y = y, rect_width = w, rect_height = h\<rparr>
      in if w < 0 \<or> h < 0 \<or> w = 0 \<and> h = 0 then None
         else Some (result, edge_handle_type rect (side_type edge) result))"

section \<open>Building and splitting\<close>

definition add_edges :: "meta_edge list \<Rightarrow> mtk_rectangle \<Rightarrow> bool \<Rightarrow> meta_edge list" where
  "add_edges cur_edges rect rect_is_internal =
     rev (map (\<lambda>(r, s). \<lparr>edge_rect = r, side_type = s, edge_type = META_EDGE_SCREEN\<rparr>)
       [(rect\<lparr>rect_width := 0\<rparr>, if rect_is_internal then META_SIDE_LEFT else META_SIDE_RIGHT),
        (rect\<lparr>rect_x := rect_x rect + rect_width rect, rect_width := 0\<rparr>,
           if rect_is_internal then META_SIDE_RIGHT else META_SIDE_LEFT),
        (rect\<lparr>rect_height := 0\<rparr>, if rect_is_internal then META_SIDE_TOP else META_SIDE_BOTTOM),
        (rect\<lparr>rect_y := rect_y rect + rect_height rect, rect_height := 0\<rparr>,
           if rect_is_internal then META_SIDE_BOTTOM else META_SIDE_TOP)]) @ cur_edges"

definition split_edge ::
  "meta_edge list \<Rightarrow> meta_edge \<Rightarrow> mtk_rectangle \<Rightarrow> meta_edge list option" where
  "split_edge cur_list old_edge remove =
     (let r = edge_rect old_edge
      in if vertical_side (side_type old_edge) then
           (if \<not> mtk_rectangle_vert_overlap r remove then None
            else
              (let l1 = (if box_top r < box_top remove
                         then old_edge\<lparr>edge_rect := r\<lparr>rect_height := box_top remove - box_top r\<rparr>\<rparr> # cur_list
                         else cur_list)
               in Some (if box_bottom r > box_bottom remove
                        then old_edge\<lparr>edge_rect := r\<lparr>rect_y := box_bottom remove,
                               rect_height := box_bottom r - box_bottom remove\<rparr>\<rparr> # l1
                        else l1)))
         else
           (if \<not> mtk_rectangle_horiz_overlap r remove then None
            else
              (let l1 = (if box_left r < box_left remove
                         then old_edge\<lparr>edge_rect := r\<lparr>rect_width := box_left remove - box_left r\<rparr>\<rparr> # cur_list
                         else cur_list)
               in Some (if box_right r > box_right remove
                        then old_edge\<lparr>edge_rect := r\<lparr>rect_x := box_right remove,
                               rect_width := box_right r - box_right remove\<rparr>\<rparr> # l1
                        else l1))))"

text \<open>Pieces are added at the head of the list the loop runs over, where it does not come again:
  \<open>front\<close> are the pieces, \<open>kept\<close> the edges passed and kept.\<close>

fun remove_strut_overlaps ::
  "mtk_rectangle \<Rightarrow> meta_edge list \<Rightarrow> meta_edge list \<Rightarrow> meta_edge list \<Rightarrow> meta_edge list option" where
  "remove_strut_overlaps overlap front kept [] = Some (front @ kept)"
| "remove_strut_overlaps overlap front kept (cur # todo) =
     (if edges_overlap (edge_rect cur) overlap
      then Option.bind (split_edge front cur overlap)
             (\<lambda>front'. remove_strut_overlaps overlap front' kept todo)
      else remove_strut_overlaps overlap front (kept @ [cur]) todo)"

text \<open>The result: the strut edges, the splits of the edge, and whether it is to be removed.\<close>

definition fix_up_edges ::
  "mtk_rectangle \<Rightarrow> meta_edge \<Rightarrow> meta_edge list \<Rightarrow> meta_edge list \<Rightarrow>
   (meta_edge list \<times> meta_edge list \<times> bool) option" where
  "fix_up_edges rect edge strut_edges edge_splits =
     (case rectangle_and_edge_intersection rect edge of
        None \<Rightarrow> Some (strut_edges, edge_splits, False)
      | Some (overlap, handle_type) \<Rightarrow>
          Option.bind
            (if handle_type = 0 \<or> handle_type = 1
             then map_option (\<lambda>l. (l, True)) (split_edge edge_splits edge overlap)
             else Some (edge_splits, False))
            (\<lambda>(splits, removal).
               map_option (\<lambda>es. (es, splits, removal))
                 (if handle_type = -1 \<or> handle_type = 1
                  then remove_strut_overlaps overlap [] [] strut_edges
                  else Some strut_edges)))"

fun remove_box :: "mtk_rectangle \<Rightarrow> meta_edge list \<Rightarrow> meta_edge list \<Rightarrow> meta_edge list \<Rightarrow>
  meta_edge list option" where
  "remove_box rect front kept [] = Some (front @ kept)"
| "remove_box rect front kept (edge # todo) =
     (case rectangle_and_edge_intersection rect edge of
        Some (overlap, handle) \<Rightarrow>
          if handle \<noteq> 1
          then Option.bind (split_edge front edge overlap) (\<lambda>front'. remove_box rect front' kept todo)
          else remove_box rect front (kept @ [edge]) todo
      | None \<Rightarrow> remove_box rect front (kept @ [edge]) todo)"

fun meta_rectangle_remove_intersections_with_boxes_from_edges ::
  "meta_edge list \<Rightarrow> mtk_rectangle list \<Rightarrow> meta_edge list option" where
  "meta_rectangle_remove_intersections_with_boxes_from_edges edges [] = Some edges"
| "meta_rectangle_remove_intersections_with_boxes_from_edges edges (rect # rects) =
     Option.bind (remove_box rect [] [] edges)
       (\<lambda>edges'. meta_rectangle_remove_intersections_with_boxes_from_edges edges' rects)"

section \<open>Onscreen edges\<close>

text \<open>One strut against the edges found so far.\<close>

fun strut_against_edges ::
  "mtk_rectangle \<Rightarrow> meta_edge list \<Rightarrow> meta_edge list \<Rightarrow> meta_edge list \<Rightarrow> meta_edge list \<Rightarrow>
   (meta_edge list \<times> meta_edge list) option" where
  "strut_against_edges strut new_edges front kept [] = Some (new_edges, front @ kept)"
| "strut_against_edges strut new_edges front kept (cur # todo) =
     Option.bind (fix_up_edges strut cur new_edges [])
       (\<lambda>(new_edges', splits, needs_removal).
          if needs_removal
          then strut_against_edges strut new_edges' (splits @ front) kept todo
          else strut_against_edges strut new_edges' front (kept @ [cur]) todo)"

fun add_strut_edges :: "mtk_rectangle list \<Rightarrow> meta_edge list \<Rightarrow> meta_edge list option" where
  "add_strut_edges [] ret = Some ret"
| "add_strut_edges (strut # struts) ret =
     Option.bind (strut_against_edges strut (add_edges [] strut False) [] [] ret)
       (\<lambda>(new_edges, ret'). add_strut_edges struts (new_edges @ ret'))"

definition meta_rectangle_find_onscreen_edges ::
  "mtk_rectangle \<Rightarrow> meta_strut list \<Rightarrow> meta_edge list option" where
  "meta_rectangle_find_onscreen_edges basic_rect all_struts =
     map_option (sort_key edge_key)
       (add_strut_edges (get_disjoint_strut_rect_list_in_region all_struts basic_rect)
          (add_edges [] basic_rect True))"

section \<open>Edges between monitors\<close>

text \<open>The edges of \<open>cur\<close> that touch \<open>compare\<close>, in the order they are prepended; \<open>INT_MIN\<close> marks
  that there is none.\<close>

definition monitor_pair_edges :: "mtk_rectangle \<Rightarrow> mtk_rectangle \<Rightarrow> meta_edge list" where
  "monitor_pair_edges cur compare =
     (if mtk_rectangle_horiz_overlap cur compare then
        (let x = max (rect_x cur) (rect_x compare);
             width = min (box_right cur - x) (box_right compare - x);
             edge = (\<lambda>y s. \<lparr>edge_rect = \<lparr>rect_x = x, rect_y = y, rect_width = width, rect_height = 0\<rparr>,
                            side_type = s, edge_type = META_EDGE_MONITOR\<rparr>)
         in if box_top cur = box_bottom compare then [edge (box_top cur) META_SIDE_TOP]
            else if box_bottom cur = box_top compare then [edge (box_bottom cur) META_SIDE_BOTTOM]
            else [])
      else []) @
     (if mtk_rectangle_vert_overlap cur compare then
        (let y = max (rect_y cur) (rect_y compare);
             height = min (box_bottom cur - y) (box_bottom compare - y);
             edge = (\<lambda>x s. \<lparr>edge_rect = \<lparr>rect_x = x, rect_y = y, rect_width = 0, rect_height = height\<rparr>,
                            side_type = s, edge_type = META_EDGE_MONITOR\<rparr>)
         in if box_left cur = box_right compare then [edge (box_left cur) META_SIDE_LEFT]
            else if box_right cur = box_left compare then [edge (box_right cur) META_SIDE_RIGHT]
            else [])
      else [])"

definition monitor_edges :: "mtk_rectangle list \<Rightarrow> meta_edge list" where
  "monitor_edges monitors =
     fold (\<lambda>cur ret. fold (\<lambda>compare ret. monitor_pair_edges cur compare @ ret) monitors ret) monitors []"

definition meta_rectangle_find_nonintersected_monitor_edges ::
  "mtk_rectangle list \<Rightarrow> meta_strut list \<Rightarrow> meta_edge list option" where
  "meta_rectangle_find_nonintersected_monitor_edges monitor_rects all_struts =
     map_option (sort_key edge_key)
       (meta_rectangle_remove_intersections_with_boxes_from_edges (monitor_edges monitor_rects)
          (rev (map strut_rect all_struts)))"

section \<open>Cells\<close>

text \<open>A cell is a side and a unit segment: below \<open>(x, y)\<close> on a vertical side, to the right of it on
  a horizontal one. A well-formed edge is a thin segment that is not empty.\<close>

type_synonym cell = "meta_side \<times> int \<times> int"

definition wf_seg :: "meta_side \<Rightarrow> mtk_rectangle \<Rightarrow> bool" where
  "wf_seg s r \<longleftrightarrow>
     (if vertical_side s then rect_width r = 0 \<and> 0 < rect_height r
      else rect_height r = 0 \<and> 0 < rect_width r)"

definition in_seg :: "meta_side \<Rightarrow> mtk_rectangle \<Rightarrow> int \<Rightarrow> int \<Rightarrow> bool" where
  "in_seg s r x y \<longleftrightarrow>
     (if vertical_side s then x = rect_x r \<and> rect_y r \<le> y \<and> y < rect_y r + rect_height r
      else y = rect_y r \<and> rect_x r \<le> x \<and> x < rect_x r + rect_width r)"

definition edge_cells :: "meta_edge \<Rightarrow> cell set" where
  "edge_cells e = {(s, x, y). s = side_type e \<and> in_seg s (edge_rect e) x y}"

definition wf_edge :: "meta_edge \<Rightarrow> bool" where
  "wf_edge e \<longleftrightarrow> wf_seg (side_type e) (edge_rect e)"

definition cells :: "meta_edge list \<Rightarrow> cell set" where
  "cells es = (\<Union>e\<in>set es. edge_cells e)"

lemma cells_simps [simp]:
  "cells [] = {}" "cells (e # es) = edge_cells e \<union> cells es" "cells (es @ fs) = cells es \<union> cells fs"
  by (auto simp: cells_def)

lemma mem_edge_cells: "(s, x, y) \<in> edge_cells e \<longleftrightarrow> s = side_type e \<and> in_seg s (edge_rect e) x y"
  by (simp add: edge_cells_def)

text \<open>A box touches a cell that lies in it or on its border; the handle type of the cell.\<close>

definition touches :: "mtk_rectangle \<Rightarrow> cell \<Rightarrow> bool" where
  "touches r c =
     (case c of (s, x, y) \<Rightarrow>
        if vertical_side s
        then rect_x r \<le> x \<and> x \<le> box_right r \<and> rect_y r \<le> y \<and> y < box_bottom r
        else rect_y r \<le> y \<and> y \<le> box_bottom r \<and> rect_x r \<le> x \<and> x < box_right r)"

definition cell_handle :: "mtk_rectangle \<Rightarrow> cell \<Rightarrow> int" where
  "cell_handle r c =
     (case c of (s, x, y) \<Rightarrow>
        edge_handle_type r s \<lparr>rect_x = x, rect_y = y, rect_width = 0, rect_height = 0\<rparr>)"

lemmas edge_view = in_seg_def wf_seg_def touches_def cell_handle_def edge_handle_type_def box_defs

section \<open>Intersecting and splitting\<close>

lemma intersection_none:
  assumes "rectangle_and_edge_intersection r e = None" "wf_edge e" "rect_positive r" "c \<in> edge_cells e"
  shows "\<not> touches r c"
proof -
  obtain s x y where c: "c = (s, x, y)" by (metis surj_pair)
  show ?thesis
    using assms
    by (cases "vertical_side s")
       (auto simp: c mem_edge_cells edge_view wf_edge_def rectangle_and_edge_intersection_def Let_def
        rect_positive_def split: if_splits)
qed

lemma intersection_shape:
  assumes "rectangle_and_edge_intersection r e = Some (v, h)"
  shows "rect_x v = max (rect_x r) (rect_x (edge_rect e))" "rect_y v = max (rect_y r) (rect_y (edge_rect e))"
    "rect_x v + rect_width v = min (box_right r) (box_right (edge_rect e))"
    "rect_y v + rect_height v = min (box_bottom r) (box_bottom (edge_rect e))"
    "0 \<le> rect_width v" "0 \<le> rect_height v" "rect_width v \<noteq> 0 \<or> rect_height v \<noteq> 0"
    "h = edge_handle_type r (side_type e) v"
proof -
  have if_some: "(if c then None else Some z) = Some y \<longleftrightarrow> \<not> c \<and> y = z" for c and y z :: "mtk_rectangle \<times> int"
    by auto
  note A = assms [unfolded rectangle_and_edge_intersection_def Let_def if_some prod.inject]
  then have v: "v = \<lparr>rect_x = max (rect_x r) (rect_x (edge_rect e)), rect_y = max (rect_y r) (rect_y (edge_rect e)),
      rect_width = min (box_right r) (box_right (edge_rect e)) - max (rect_x r) (rect_x (edge_rect e)),
      rect_height = min (box_bottom r) (box_bottom (edge_rect e)) - max (rect_y r) (rect_y (edge_rect e))\<rparr>"
    by blast
  then show "rect_x v = max (rect_x r) (rect_x (edge_rect e))" "rect_y v = max (rect_y r) (rect_y (edge_rect e))"
    "rect_x v + rect_width v = min (box_right r) (box_right (edge_rect e))"
    "rect_y v + rect_height v = min (box_bottom r) (box_bottom (edge_rect e))"
    by simp_all
  have "\<not> (rect_width v < 0 \<or> rect_height v < 0 \<or> rect_width v = 0 \<and> rect_height v = 0)"
    using conjunct1 [OF A] unfolding v mtk_rectangle.simps .
  then show "0 \<le> rect_width v" "0 \<le> rect_height v" "rect_width v \<noteq> 0 \<or> rect_height v \<noteq> 0"
    by (simp_all only: de_Morgan_disj not_less) blast
  show "h = edge_handle_type r (side_type e) v" using A unfolding v by blast
qed

lemma intersection_vertical:
  assumes "rectangle_and_edge_intersection r e = Some (v, h)" "wf_edge e" "vertical_side (side_type e)"
  shows "rect_x v = rect_x (edge_rect e)" "rect_width v = 0" "0 < rect_height v"
    "rect_x r \<le> rect_x (edge_rect e)" "rect_x (edge_rect e) \<le> box_right r"
    "rect_width (edge_rect e) = 0"
  using intersection_shape(1,3,5-7) [OF assms(1)] assms(2,3)
  by (auto simp: wf_edge_def wf_seg_def box_defs)

lemma intersection_horizontal:
  assumes "rectangle_and_edge_intersection r e = Some (v, h)" "wf_edge e" "\<not> vertical_side (side_type e)"
  shows "rect_y v = rect_y (edge_rect e)" "rect_height v = 0" "0 < rect_width v"
    "rect_y r \<le> rect_y (edge_rect e)" "rect_y (edge_rect e) \<le> box_bottom r"
    "rect_height (edge_rect e) = 0" "0 < rect_width (edge_rect e)"
  using intersection_shape(2,4-7) [OF assms(1)] assms(2,3)
  by (auto simp: wf_edge_def wf_seg_def box_defs)

lemma handle_of_seg:
  assumes "vertical_side s \<and> rect_x v = x \<or> \<not> vertical_side s \<and> rect_y v = y"
  shows "edge_handle_type r s v = cell_handle r (s, x, y)"
  using assms by (cases s) (simp_all add: vertical_side_def cell_handle_def edge_handle_type_def)

lemma intersection_some:
  assumes "rectangle_and_edge_intersection r e = Some (v, h)" "wf_edge e"
  shows "wf_seg (side_type e) v"
    and "in_seg (side_type e) v x y \<longleftrightarrow> in_seg (side_type e) (edge_rect e) x y \<and> touches r (side_type e, x, y)"
    and "in_seg (side_type e) (edge_rect e) x y \<Longrightarrow> cell_handle r (side_type e, x, y) = h"
    and "edges_overlap (edge_rect e) v"
proof -
  note S = intersection_shape [OF assms(1)]
  have "wf_seg (side_type e) v \<and>
    (in_seg (side_type e) v x y \<longleftrightarrow> in_seg (side_type e) (edge_rect e) x y \<and> touches r (side_type e, x, y)) \<and>
    (in_seg (side_type e) (edge_rect e) x y \<longrightarrow> cell_handle r (side_type e, x, y) = h) \<and>
    edges_overlap (edge_rect e) v"
  proof (cases "vertical_side (side_type e)")
    case True
    note V = intersection_vertical [OF assms True]
    have "in_seg (side_type e) (edge_rect e) x y \<longrightarrow> cell_handle r (side_type e, x, y) = h"
      using True S(8) V(1) handle_of_seg [of "side_type e" v x y r] by (simp add: in_seg_def)
    then show ?thesis
      using True V S(2,4)
      by (simp add: wf_seg_def in_seg_def touches_def edges_overlap_def mtk_rectangle_vert_overlap_def box_defs)
         linarith
  next
    case False
    note V = intersection_horizontal [OF assms False]
    have "in_seg (side_type e) (edge_rect e) x y \<longrightarrow> cell_handle r (side_type e, x, y) = h"
      using False S(8) V(1) handle_of_seg [of "side_type e" v x y r] by (simp add: in_seg_def)
    then show ?thesis
      using False V S(1,3)
      by (simp add: wf_seg_def in_seg_def touches_def edges_overlap_def mtk_rectangle_horiz_overlap_def box_defs)
         linarith
  qed
  then show "wf_seg (side_type e) v"
    and "in_seg (side_type e) v x y \<longleftrightarrow> in_seg (side_type e) (edge_rect e) x y \<and> touches r (side_type e, x, y)"
    and "in_seg (side_type e) (edge_rect e) x y \<Longrightarrow> cell_handle r (side_type e, x, y) = h"
    and "edges_overlap (edge_rect e) v" by blast+
qed

text \<open>Well-formed edges whose types are in \<open>T\<close>.\<close>

definition edges_ok :: "meta_edge_type set \<Rightarrow> meta_edge list \<Rightarrow> bool" where
  "edges_ok T es \<longleftrightarrow> (\<forall>e\<in>set es. wf_edge e \<and> edge_type e \<in> T)"

lemma edges_ok_simps [simp]:
  "edges_ok T []" "edges_ok T (e # es) \<longleftrightarrow> wf_edge e \<and> edge_type e \<in> T \<and> edges_ok T es"
  "edges_ok T (es @ fs) \<longleftrightarrow> edges_ok T es \<and> edges_ok T fs"
  by (auto simp: edges_ok_def)

lemma split_edge_ok:
  assumes "wf_edge e" "wf_seg (side_type e) v" "edges_overlap (edge_rect e) v" "edge_type e \<in> T"
  shows "\<exists>ps. split_edge l e v = Some (ps @ l) \<and> edges_ok T ps \<and>
    cells ps = {(s, x, y). s = side_type e \<and> in_seg s (edge_rect e) x y \<and> \<not> in_seg s v x y}"
proof -
  define p1 where "p1 = (if vertical_side (side_type e)
    then e\<lparr>edge_rect := (edge_rect e)\<lparr>rect_height := box_top v - box_top (edge_rect e)\<rparr>\<rparr>
    else e\<lparr>edge_rect := (edge_rect e)\<lparr>rect_width := box_left v - box_left (edge_rect e)\<rparr>\<rparr>)"
  define p2 where "p2 = (if vertical_side (side_type e)
    then e\<lparr>edge_rect := (edge_rect e)\<lparr>rect_y := box_bottom v, rect_height := box_bottom (edge_rect e) - box_bottom v\<rparr>\<rparr>
    else e\<lparr>edge_rect := (edge_rect e)\<lparr>rect_x := box_right v, rect_width := box_right (edge_rect e) - box_right v\<rparr>\<rparr>)"
  define b1 where "b1 = (if vertical_side (side_type e) then box_top (edge_rect e) < box_top v
    else box_left (edge_rect e) < box_left v)"
  define b2 where "b2 = (if vertical_side (side_type e) then box_bottom (edge_rect e) > box_bottom v
    else box_right (edge_rect e) > box_right v)"
  let ?ps = "(if b2 then [p2] else []) @ (if b1 then [p1] else [])"
  have side: "side_type p1 = side_type e" "side_type p2 = side_type e"
    "edge_type p1 = edge_type e" "edge_type p2 = edge_type e"
    by (simp_all add: p1_def p2_def)
  have wf: "b1 \<Longrightarrow> wf_edge p1" "b2 \<Longrightarrow> wf_edge p2"
    using assms(1) by (auto simp: p1_def p2_def b1_def b2_def wf_edge_def wf_seg_def box_defs)
  have "split_edge l e v = Some (?ps @ l)"
    using assms(1-3)
    by (cases "vertical_side (side_type e)")
       (simp_all add: split_edge_def Let_def p1_def p2_def b1_def b2_def edges_overlap_def wf_edge_def wf_seg_def)
  moreover have "edges_ok T ?ps" using wf side assms(4) by simp
  moreover have "cells ?ps = {(s, x, y). s = side_type e \<and> in_seg s (edge_rect e) x y \<and> \<not> in_seg s v x y}"
  proof (rule set_eqI)
    fix c :: cell
    obtain s x y where c: "c = (s, x, y)" by (metis surj_pair)
    have m: "c \<in> cells ?ps \<longleftrightarrow> (b2 \<and> c \<in> edge_cells p2) \<or> (b1 \<and> c \<in> edge_cells p1)" by simp
    have "(b2 \<and> in_seg s (edge_rect p2) x y \<or> b1 \<and> in_seg s (edge_rect p1) x y) =
        (in_seg s (edge_rect e) x y \<and> \<not> in_seg s v x y)" if s: "s = side_type e"
    proof (cases "vertical_side (side_type e)")
      case True
      then show ?thesis
        using assms(1-3) unfolding s
        by (auto simp: p1_def p2_def b1_def b2_def in_seg_def wf_edge_def wf_seg_def edges_overlap_def
            mtk_rectangle_vert_overlap_def box_defs)
    next
      case False
      then show ?thesis
        using assms(1-3) unfolding s
        by (auto simp: p1_def p2_def b1_def b2_def in_seg_def wf_edge_def wf_seg_def edges_overlap_def
            mtk_rectangle_horiz_overlap_def box_defs)
    qed
    then show "c \<in> cells ?ps \<longleftrightarrow> c \<in> {(s, x, y). s = side_type e \<and> in_seg s (edge_rect e) x y \<and> \<not> in_seg s v x y}"
      unfolding m unfolding c mem_edge_cells side mem_Collect_eq prod.case by blast
  qed
  ultimately show ?thesis by blast
qed

lemma wf_seg_cong: "vertical_side s = vertical_side t \<Longrightarrow> wf_seg s v = wf_seg t v"
  and in_seg_cong: "vertical_side s = vertical_side t \<Longrightarrow> in_seg s v x y = in_seg t v x y"
  by (simp_all add: wf_seg_def in_seg_def)

lemma overlap_same_line:
  assumes "wf_edge e" "wf_seg s v"
  shows "edges_overlap (edge_rect e) v \<Longrightarrow> vertical_side (side_type e) = vertical_side s"
    and "vertical_side (side_type e) = vertical_side s \<Longrightarrow> in_seg (side_type e) (edge_rect e) x y \<Longrightarrow>
      in_seg s v x y \<Longrightarrow> edges_overlap (edge_rect e) v"
  using assms
  by (auto simp: edges_overlap_def wf_edge_def wf_seg_def in_seg_def mtk_rectangle_vert_overlap_def
      mtk_rectangle_horiz_overlap_def split: if_splits)

text \<open>One step of a loop that replaces an edge by its pieces.\<close>

lemma remove_strut_overlaps_ok:
  assumes "wf_seg s v" "edges_ok T front" "edges_ok T kept" "edges_ok T todo"
  shows "\<exists>es. remove_strut_overlaps v front kept todo = Some es \<and> edges_ok T es \<and>
    cells es = cells front \<union> cells kept \<union>
      {(t, x, y). (t, x, y) \<in> cells todo \<and> \<not> (vertical_side t = vertical_side s \<and> in_seg s v x y)}"
  using assms(2-4)
proof (induction todo arbitrary: front kept)
  case (Cons cur todo)
  then have cur: "wf_edge cur" "edge_type cur \<in> T" and todo: "edges_ok T todo" by simp_all
  have head: "{(t, x, y). (t, x, y) \<in> cells (cur # todo) \<and> \<not> (vertical_side t = vertical_side s \<and> in_seg s v x y)} =
      {(t, x, y). (t, x, y) \<in> edge_cells cur \<and> \<not> (vertical_side t = vertical_side s \<and> in_seg s v x y)} \<union>
      {(t, x, y). (t, x, y) \<in> cells todo \<and> \<not> (vertical_side t = vertical_side s \<and> in_seg s v x y)}"
    by auto
  show ?case
  proof (cases "edges_overlap (edge_rect cur) v")
    case True
    have same: "vertical_side (side_type cur) = vertical_side s"
      by (rule overlap_same_line(1) [OF cur(1) assms(1) True])
    then have "wf_seg (side_type cur) v" using assms(1) wf_seg_cong by blast
    from split_edge_ok [OF cur(1) this True cur(2), of front] obtain ps where
      ps: "split_edge front cur v = Some (ps @ front)" "edges_ok T ps"
        "cells ps = {(s, x, y). s = side_type cur \<and> in_seg s (edge_rect cur) x y \<and> \<not> in_seg s v x y}" by blast
    have "edges_ok T (ps @ front)" using ps(2) Cons.prems(1) by simp
    from Cons.IH [OF this Cons.prems(2) todo] obtain es where
      es: "remove_strut_overlaps v (ps @ front) kept todo = Some es" "edges_ok T es"
        "cells es = cells (ps @ front) \<union> cells kept \<union>
          {(t, x, y). (t, x, y) \<in> cells todo \<and> \<not> (vertical_side t = vertical_side s \<and> in_seg s v x y)}" by blast
    have "cells ps = {(t, x, y). (t, x, y) \<in> edge_cells cur \<and> \<not> (vertical_side t = vertical_side s \<and> in_seg s v x y)}"
      unfolding ps(3) mem_edge_cells using same in_seg_cong [OF same] by auto
    with es ps(1) True show ?thesis unfolding head by auto
  next
    case False
    have "edges_ok T (kept @ [cur])" using Cons.prems(2) cur by simp
    from Cons.IH [OF Cons.prems(1) this todo] obtain es where
      es: "remove_strut_overlaps v front (kept @ [cur]) todo = Some es" "edges_ok T es"
        "cells es = cells front \<union> cells (kept @ [cur]) \<union>
          {(t, x, y). (t, x, y) \<in> cells todo \<and> \<not> (vertical_side t = vertical_side s \<and> in_seg s v x y)}" by blast
    have "\<not> (vertical_side (side_type cur) = vertical_side s \<and> in_seg s v x y)"
      if "in_seg (side_type cur) (edge_rect cur) x y" for x y
      using overlap_same_line(2) [OF cur(1) assms(1) _ that] False by blast
    then have "edge_cells cur = {(t, x, y). (t, x, y) \<in> edge_cells cur \<and> \<not> (vertical_side t = vertical_side s \<and> in_seg s v x y)}"
      by (fastforce simp: mem_edge_cells)
    with es False show ?thesis unfolding head by auto
  qed
qed auto

section \<open>Removing boxes from edges\<close>

text \<open>The cells a box removes: those it touches, unless they are on its side of the same kind.\<close>

definition boxed :: "mtk_rectangle \<Rightarrow> cell \<Rightarrow> bool" where
  "boxed r c \<longleftrightarrow> touches r c \<and> cell_handle r c \<noteq> 1"

lemma edge_boxed:
  assumes "wf_edge e" "rect_positive r" "edge_type e \<in> T"
  shows "(case rectangle_and_edge_intersection r e of
      None \<Rightarrow> edge_cells e \<inter> Collect (boxed r) = {}
    | Some (v, h) \<Rightarrow>
        (if h = 1 then edge_cells e \<inter> Collect (boxed r) = {}
         else \<exists>ps. split_edge l e v = Some (ps @ l) \<and> edges_ok T ps \<and> cells ps = edge_cells e - Collect (boxed r)))"
proof (cases "rectangle_and_edge_intersection r e")
  case None
  with intersection_none [OF None assms(1,2)] show ?thesis by (auto simp: boxed_def)
next
  case (Some p)
  then obtain v h where i: "rectangle_and_edge_intersection r e = Some (v, h)" by (cases p) auto
  note S = intersection_some [OF i assms(1)]
  have handle: "c \<in> edge_cells e \<Longrightarrow> cell_handle r c = h" for c
    using S(3) by (cases c) (auto simp: edge_cells_def)
  have inside: "(s, x, y) \<in> edge_cells e \<Longrightarrow> in_seg s v x y \<longleftrightarrow> touches r (s, x, y)" for s x y
    using S(2) by (auto simp: edge_cells_def)
  show ?thesis
  proof (cases "h = 1")
    case True
    with i handle show ?thesis by (auto simp: boxed_def)
  next
    case False
    from split_edge_ok [OF assms(1) S(1) S(4) assms(3), of l] obtain ps where
      ps: "split_edge l e v = Some (ps @ l)" "edges_ok T ps"
        "cells ps = {(s, x, y). s = side_type e \<and> in_seg s (edge_rect e) x y \<and> \<not> in_seg s v x y}" by blast
    have "cells ps = edge_cells e - Collect (boxed r)"
      unfolding ps(3) using inside handle False by (auto simp: boxed_def mem_edge_cells)
    with i ps(1,2) False show ?thesis by simp
  qed
qed

lemma remove_box_ok:
  assumes "rect_positive r" "edges_ok T front" "edges_ok T kept" "edges_ok T todo"
  shows "\<exists>es. remove_box r front kept todo = Some es \<and> edges_ok T es \<and>
    cells es = cells front \<union> cells kept \<union> (cells todo - Collect (boxed r))"
  using assms(2-4)
proof (induction todo arbitrary: front kept)
  case (Cons cur todo)
  then have cur: "wf_edge cur" "edge_type cur \<in> T" and todo: "edges_ok T todo" by simp_all
  note B = edge_boxed [OF cur(1) assms(1) cur(2), of front]
  have keep: ?case if "remove_box r front kept (cur # todo) = remove_box r front (kept @ [cur]) todo"
    "edge_cells cur \<inter> Collect (boxed r) = {}"
  proof -
    have "edges_ok T (kept @ [cur])" using Cons.prems(2) cur by simp
    from Cons.IH [OF Cons.prems(1) this todo] that show ?thesis by auto
  qed
  show ?case
  proof (cases "rectangle_and_edge_intersection r cur")
    case None
    with B keep show ?thesis by simp
  next
    case (Some p)
    then obtain v h where i: "rectangle_and_edge_intersection r cur = Some (v, h)" by (cases p) auto
    show ?thesis
    proof (cases "h = 1")
      case True
      with B i keep show ?thesis by simp
    next
      case False
      with B i obtain ps where ps: "split_edge front cur v = Some (ps @ front)" "edges_ok T ps"
        "cells ps = edge_cells cur - Collect (boxed r)" by auto
      have "edges_ok T (ps @ front)" using ps(2) Cons.prems(1) by simp
      from Cons.IH [OF this Cons.prems(2) todo] ps i False show ?thesis by auto
    qed
  qed
qed auto

lemma remove_boxes_ok:
  assumes "edges_ok T edges" "list_all rect_positive rects"
  shows "\<exists>es. meta_rectangle_remove_intersections_with_boxes_from_edges edges rects = Some es \<and> edges_ok T es \<and>
    cells es = {c \<in> cells edges. \<forall>r\<in>set rects. \<not> boxed r c}"
  using assms
proof (induction rects arbitrary: edges)
  case (Cons r rects)
  from remove_box_ok [of r T "[]" "[]" edges] Cons.prems obtain es where
    es: "remove_box r [] [] edges = Some es" "edges_ok T es" "cells es = cells edges - Collect (boxed r)" by auto
  from Cons.IH [OF es(2)] Cons.prems(2) es show ?case by auto
qed auto

section \<open>The edges between monitors\<close>

text \<open>A cell between the border pixels of two adjacent monitors, on the side of \<open>a\<close>.\<close>

definition between_monitors :: "mtk_rectangle \<Rightarrow> mtk_rectangle \<Rightarrow> cell \<Rightarrow> bool" where
  "between_monitors a b c =
     (case c of (s, x, y) \<Rightarrow>
       (case s of
          META_SIDE_LEFT \<Rightarrow> x = box_left a \<and> x = box_right b \<and> (x, y) \<in> pixels a \<and> (x - 1, y) \<in> pixels b
        | META_SIDE_RIGHT \<Rightarrow> x = box_right a \<and> x = box_left b \<and> (x - 1, y) \<in> pixels a \<and> (x, y) \<in> pixels b
        | META_SIDE_TOP \<Rightarrow> y = box_top a \<and> y = box_bottom b \<and> (x, y) \<in> pixels a \<and> (x, y - 1) \<in> pixels b
        | META_SIDE_BOTTOM \<Rightarrow> y = box_bottom a \<and> y = box_top b \<and> (x, y - 1) \<in> pixels a \<and> (x, y) \<in> pixels b))"

lemma monitor_pair_ok:
  assumes "rect_positive a" "rect_positive b"
  shows "edges_ok {META_EDGE_MONITOR} (monitor_pair_edges a b)"
    and "c \<in> cells (monitor_pair_edges a b) \<longleftrightarrow> between_monitors a b c"
proof -
  show "edges_ok {META_EDGE_MONITOR} (monitor_pair_edges a b)"
    using assms by (auto simp: monitor_pair_edges_def Let_def wf_edge_def wf_seg_def vertical_side_def
        mtk_rectangle_horiz_overlap_def mtk_rectangle_vert_overlap_def box_defs rect_positive_def)
  obtain s x y where c: "c = (s, x, y)" by (metis surj_pair)
  show "c \<in> cells (monitor_pair_edges a b) \<longleftrightarrow> between_monitors a b c"
    unfolding c using assms
    by (cases s) (auto simp: monitor_pair_edges_def Let_def mem_edge_cells in_seg_def vertical_side_def
        between_monitors_def mem_pixels mtk_rectangle_horiz_overlap_def mtk_rectangle_vert_overlap_def
        box_defs rect_positive_def)
qed

lemma monitor_row_ok:
  assumes "rect_positive a" "list_all rect_positive bs" "edges_ok {META_EDGE_MONITOR} ret"
  shows "edges_ok {META_EDGE_MONITOR} (fold (\<lambda>b ret. monitor_pair_edges a b @ ret) bs ret) \<and>
    cells (fold (\<lambda>b ret. monitor_pair_edges a b @ ret) bs ret) =
      cells ret \<union> {c. \<exists>b\<in>set bs. between_monitors a b c}"
  using assms(2,3)
proof (induction bs arbitrary: ret)
  case (Cons b bs)
  then have "edges_ok {META_EDGE_MONITOR} (monitor_pair_edges a b @ ret)"
    using monitor_pair_ok(1) [OF assms(1)] by simp
  with Cons monitor_pair_ok(2) [OF assms(1), of b] show ?case by auto
qed simp

lemma monitor_edges_ok:
  assumes "list_all rect_positive ms"
  shows "edges_ok {META_EDGE_MONITOR} (monitor_edges ms)"
    and "cells (monitor_edges ms) = {c. \<exists>a\<in>set ms. \<exists>b\<in>set ms. between_monitors a b c}"
proof -
  let ?f = "\<lambda>cur ret. fold (\<lambda>compare ret. monitor_pair_edges cur compare @ ret) ms ret"
  have "edges_ok {META_EDGE_MONITOR} (fold ?f as ret) \<and>
      cells (fold ?f as ret) = cells ret \<union> {c. \<exists>a\<in>set as. \<exists>b\<in>set ms. between_monitors a b c}"
    if "list_all rect_positive as" "edges_ok {META_EDGE_MONITOR} ret" for as ret
    using that
  proof (induction as arbitrary: ret)
    case (Cons a as)
    then show ?case using monitor_row_ok [of a ms ret] assms by auto
  qed simp
  from this [OF assms, of "[]"]
  show "edges_ok {META_EDGE_MONITOR} (monitor_edges ms)"
    and "cells (monitor_edges ms) = {c. \<exists>a\<in>set ms. \<exists>b\<in>set ms. between_monitors a b c}"
    by (simp_all add: monitor_edges_def)
qed

lemma cells_sort [simp]: "cells (sort_key k es) = cells es"
  by (simp add: cells_def)

lemma edges_ok_sort [simp]: "edges_ok T (sort_key k es) = edges_ok T es"
  by (simp add: edges_ok_def)

text \<open>On edges of the two loops the comparison function is the order of the key.\<close>

lemma edge_cmp_key:
  assumes "wf_edge a" "wf_edge b"
  shows "\<exists>n. meta_rectangle_edge_cmp a b = Some n \<and> (n \<le> 0 \<longleftrightarrow> edge_key a \<le> edge_key b)"
proof (cases "side_type a = side_type b")
  case True
  then show ?thesis
    using assms
    by (auto simp: meta_rectangle_edge_cmp_def meta_rectangle_edge_cmp_ignore_type_def edge_key_def
        wf_edge_def wf_seg_def less_eq_prod_def)
next
  case False
  then have "side_index (side_type a) \<noteq> side_index (side_type b)"
    by (cases "side_type a"; cases "side_type b") auto
  then show ?thesis
    using False by (auto simp: meta_rectangle_edge_cmp_def edge_key_def less_eq_prod_def)
qed

section \<open>Onscreen edges\<close>

definition swallowed :: "mtk_rectangle \<Rightarrow> cell \<Rightarrow> bool" where
  "swallowed r c \<longleftrightarrow> touches r c \<and> (cell_handle r c = 0 \<or> cell_handle r c = 1)"

definition faced :: "mtk_rectangle \<Rightarrow> cell \<Rightarrow> bool" where
  "faced r c \<longleftrightarrow> touches r c \<and> (cell_handle r c = -1 \<or> cell_handle r c = 1)"

fun same_place :: "cell \<Rightarrow> cell \<Rightarrow> bool" where
  "same_place (t, x, y) (s, x', y') \<longleftrightarrow> vertical_side t = vertical_side s \<and> x = x' \<and> y = y'"

text \<open>The cells of \<open>N\<close> that are not at the place of a faced cell of \<open>C\<close>.\<close>

definition unfaced :: "mtk_rectangle \<Rightarrow> cell set \<Rightarrow> cell set \<Rightarrow> cell set" where
  "unfaced r C N = {c \<in> N. \<not> (\<exists>d\<in>C. faced r d \<and> same_place c d)}"

lemma unfaced_union: "unfaced r (C \<union> D) N = unfaced r D (unfaced r C N)"
  by (auto simp: unfaced_def)

lemma unfaced_empty [simp]: "unfaced r {} N = N"
  by (simp add: unfaced_def)

lemma fix_up_edges_ok:
  assumes "wf_edge e" "edge_type e \<in> T" "rect_positive r" "edges_ok U new"
  shows "\<exists>new' splits rem. fix_up_edges r e new [] = Some (new', splits, rem) \<and> edges_ok U new' \<and>
    edges_ok T splits \<and> cells new' = unfaced r (edge_cells e) (cells new) \<and>
    (if rem then cells splits = edge_cells e - Collect (swallowed r)
     else edge_cells e \<inter> Collect (swallowed r) = {})"
proof (cases "rectangle_and_edge_intersection r e")
  case None
  with intersection_none [OF None assms(1,3)] assms(4) show ?thesis
    by (auto simp: fix_up_edges_def unfaced_def swallowed_def faced_def)
next
  case (Some p)
  then obtain v h where i: "rectangle_and_edge_intersection r e = Some (v, h)" by (cases p) auto
  note S = intersection_some [OF i assms(1)]
  have handle: "c \<in> edge_cells e \<Longrightarrow> cell_handle r c = h" for c
    using S(3) by (cases c) (auto simp: edge_cells_def)
  have inside: "in_seg (side_type e) v x y \<longleftrightarrow> (side_type e, x, y) \<in> edge_cells e \<and> touches r (side_type e, x, y)" for x y
    using S(2) by (auto simp: edge_cells_def)
  have splits: "\<exists>splits. (if h = 0 \<or> h = 1 then map_option (\<lambda>l. (l, True)) (split_edge [] e v) else Some ([], False)) =
        Some (splits, h = 0 \<or> h = 1) \<and> edges_ok T splits \<and>
      (if h = 0 \<or> h = 1 then cells splits = edge_cells e - Collect (swallowed r)
       else edge_cells e \<inter> Collect (swallowed r) = {})"
  proof (cases "h = 0 \<or> h = 1")
    case True
    from split_edge_ok [OF assms(1) S(1,4) assms(2), of "[]"] obtain ps where
      ps: "split_edge [] e v = Some ps" "edges_ok T ps"
        "cells ps = {(s, x, y). s = side_type e \<and> in_seg s (edge_rect e) x y \<and> \<not> in_seg s v x y}" by auto
    have "cells ps = edge_cells e - Collect (swallowed r)"
      unfolding ps(3) using inside handle True by (auto simp: swallowed_def mem_edge_cells)
    with ps True show ?thesis by simp
  next
    case False
    with handle show ?thesis by (auto simp: swallowed_def)
  qed
  have new: "\<exists>new'. (if h = -1 \<or> h = 1 then remove_strut_overlaps v [] [] new else Some new) = Some new' \<and>
      edges_ok U new' \<and> cells new' = unfaced r (edge_cells e) (cells new)"
  proof (cases "h = -1 \<or> h = 1")
    case True
    from remove_strut_overlaps_ok [OF S(1), of U "[]" "[]" new] assms(4) obtain es where
      es: "remove_strut_overlaps v [] [] new = Some es" "edges_ok U es"
        "cells es = {(t, x, y). (t, x, y) \<in> cells new \<and>
          \<not> (vertical_side t = vertical_side (side_type e) \<and> in_seg (side_type e) v x y)}" by auto
    have "(\<exists>d\<in>edge_cells e. faced r d \<and> same_place (t, x, y) d) \<longleftrightarrow>
        vertical_side t = vertical_side (side_type e) \<and> in_seg (side_type e) v x y" for t x y
    proof -
      have "(\<exists>d\<in>edge_cells e. faced r d \<and> same_place (t, x, y) d) \<longleftrightarrow>
          (side_type e, x, y) \<in> edge_cells e \<and> faced r (side_type e, x, y) \<and> vertical_side t = vertical_side (side_type e)"
        by (auto simp: edge_cells_def)
      then show ?thesis using inside handle True by (auto simp: faced_def)
    qed
    then have "cells es = unfaced r (edge_cells e) (cells new)"
      unfolding es(3) unfaced_def by auto
    with es True show ?thesis by auto
  next
    case False
    then have "unfaced r (edge_cells e) (cells new) = cells new"
      using handle by (auto simp: unfaced_def faced_def)
    with False assms(4) show ?thesis by auto
  qed
  from splits obtain splits where sp: "(if h = 0 \<or> h = 1 then map_option (\<lambda>l. (l, True)) (split_edge [] e v) else Some ([], False)) =
        Some (splits, h = 0 \<or> h = 1)" "edges_ok T splits"
      "if h = 0 \<or> h = 1 then cells splits = edge_cells e - Collect (swallowed r)
       else edge_cells e \<inter> Collect (swallowed r) = {}" by blast
  from new obtain new' where n: "(if h = -1 \<or> h = 1 then remove_strut_overlaps v [] [] new else Some new) = Some new'"
      "edges_ok U new'" "cells new' = unfaced r (edge_cells e) (cells new)" by blast
  have "fix_up_edges r e new [] = Some (new', splits, h = 0 \<or> h = 1)"
    unfolding fix_up_edges_def i option.case prod.case sp(1) Option.bind.simps n(1) by simp
  with sp n show ?thesis by blast
qed

lemma strut_against_edges_ok:
  assumes "rect_positive r" "edges_ok U new" "edges_ok T front" "edges_ok T kept" "edges_ok T todo"
  shows "\<exists>new' ret. strut_against_edges r new front kept todo = Some (new', ret) \<and> edges_ok U new' \<and> edges_ok T ret \<and>
    cells new' = unfaced r (cells todo) (cells new) \<and>
    cells ret = cells front \<union> cells kept \<union> (cells todo - Collect (swallowed r))"
  using assms(2-5)
proof (induction todo arbitrary: new front kept)
  case (Cons cur todo)
  then have cur: "wf_edge cur" "edge_type cur \<in> T" and todo: "edges_ok T todo" by simp_all
  from fix_up_edges_ok [OF cur assms(1) Cons.prems(1)] obtain n splits rem where
    f: "fix_up_edges r cur new [] = Some (n, splits, rem)" "edges_ok U n" "edges_ok T splits"
      "cells n = unfaced r (edge_cells cur) (cells new)"
      "if rem then cells splits = edge_cells cur - Collect (swallowed r)
       else edge_cells cur \<inter> Collect (swallowed r) = {}" by blast
  have un: "unfaced r (cells (cur # todo)) (cells new) = unfaced r (cells todo) (cells n)"
    by (simp add: unfaced_union f(4))
  show ?case
  proof (cases rem)
    case True
    have "edges_ok T (splits @ front)" using f(3) Cons.prems(2) by simp
    from Cons.IH [OF f(2) this Cons.prems(3) todo] obtain new' ret where
      r: "strut_against_edges r n (splits @ front) kept todo = Some (new', ret)" "edges_ok U new'" "edges_ok T ret"
        "cells new' = unfaced r (cells todo) (cells n)"
        "cells ret = cells (splits @ front) \<union> cells kept \<union> (cells todo - Collect (swallowed r))" by blast
    have "cells ret = cells front \<union> cells kept \<union> (cells (cur # todo) - Collect (swallowed r))"
      using r(5) f(5) True by auto
    then show ?thesis unfolding un using r f(1) True by simp
  next
    case False
    have "edges_ok T (kept @ [cur])" using Cons.prems(3) cur by simp
    from Cons.IH [OF f(2) Cons.prems(2) this todo] obtain new' ret where
      r: "strut_against_edges r n front (kept @ [cur]) todo = Some (new', ret)" "edges_ok U new'" "edges_ok T ret"
        "cells new' = unfaced r (cells todo) (cells n)"
        "cells ret = cells front \<union> cells (kept @ [cur]) \<union> (cells todo - Collect (swallowed r))" by blast
    have "cells ret = cells front \<union> cells kept \<union> (cells (cur # todo) - Collect (swallowed r))"
      using r(5) f(5) False by auto
    then show ?thesis unfolding un using r f(1) False by simp
  qed
qed auto

subsection \<open>The edges are the boundary\<close>

text \<open>The pixels on the two sides of a cell; a cell is on the boundary of an area if the area is on
  its inner side only.\<close>

fun inner_px :: "cell \<Rightarrow> int \<times> int" where
  "inner_px (META_SIDE_LEFT, x, y) = (x, y)"
| "inner_px (META_SIDE_RIGHT, x, y) = (x - 1, y)"
| "inner_px (META_SIDE_TOP, x, y) = (x, y)"
| "inner_px (META_SIDE_BOTTOM, x, y) = (x, y - 1)"

fun outer_px :: "cell \<Rightarrow> int \<times> int" where
  "outer_px (META_SIDE_LEFT, x, y) = (x - 1, y)"
| "outer_px (META_SIDE_RIGHT, x, y) = (x, y)"
| "outer_px (META_SIDE_TOP, x, y) = (x, y - 1)"
| "outer_px (META_SIDE_BOTTOM, x, y) = (x, y)"

definition boundary :: "(int \<times> int) set \<Rightarrow> cell \<Rightarrow> bool" where
  "boundary F c \<longleftrightarrow> inner_px c \<in> F \<and> outer_px c \<notin> F"

fun flip_side :: "meta_side \<Rightarrow> meta_side" where
  "flip_side META_SIDE_LEFT = META_SIDE_RIGHT"
| "flip_side META_SIDE_RIGHT = META_SIDE_LEFT"
| "flip_side META_SIDE_TOP = META_SIDE_BOTTOM"
| "flip_side META_SIDE_BOTTOM = META_SIDE_TOP"

lemma same_place_cases: "same_place c d \<Longrightarrow> d = c \<or> inner_px d = outer_px c \<and> outer_px d = inner_px c"
  by (cases c; cases d; cases "fst c"; cases "fst d") (auto simp: vertical_side_def)

lemma flip_place:
  "same_place (s, x, y) (flip_side s, x, y)"
  "inner_px (flip_side s, x, y) = outer_px (s, x, y)" "outer_px (flip_side s, x, y) = inner_px (s, x, y)"
  by (cases s; simp add: vertical_side_def)+

lemma swallowed_px: "rect_positive r \<Longrightarrow> swallowed r c \<longleftrightarrow> inner_px c \<in> pixels r"
  by (cases c; cases "fst c")
     (auto simp: swallowed_def touches_def cell_handle_def edge_handle_type_def vertical_side_def
      mem_pixels box_defs rect_positive_def)

lemma faced_px: "rect_positive r \<Longrightarrow> faced r c \<longleftrightarrow> (inner_px c \<in> pixels r) \<noteq> (outer_px c \<in> pixels r)"
  by (cases c; cases "fst c")
     (auto simp: faced_def touches_def cell_handle_def edge_handle_type_def vertical_side_def
      mem_pixels box_defs rect_positive_def)

lemma add_edges_ok:
  assumes "rect_positive r"
  shows "edges_ok {META_EDGE_SCREEN} (add_edges [] r b)"
    and "c \<in> cells (add_edges [] r True) \<longleftrightarrow> boundary (pixels r) c"
    and "c \<in> cells (add_edges [] r False) \<longleftrightarrow> boundary (- pixels r) c"
proof -
  show "edges_ok {META_EDGE_SCREEN} (add_edges [] r b)"
    using assms by (auto simp: add_edges_def wf_edge_def wf_seg_def vertical_side_def rect_positive_def)
  obtain s x y where c: "c = (s, x, y)" by (metis surj_pair)
  show "c \<in> cells (add_edges [] r True) \<longleftrightarrow> boundary (pixels r) c"
    unfolding c using assms
    by (cases s) (auto simp: add_edges_def mem_edge_cells in_seg_def vertical_side_def boundary_def
        mem_pixels rect_positive_def)
  show "c \<in> cells (add_edges [] r False) \<longleftrightarrow> boundary (- pixels r) c"
    unfolding c using assms
    by (cases s) (auto simp: add_edges_def mem_edge_cells in_seg_def vertical_side_def boundary_def
        mem_pixels rect_positive_def)
qed

lemma boundary_step:
  assumes "rect_positive r" "pixels r \<subseteq> F"
  shows "(Collect (boundary F) - Collect (swallowed r)) \<union> unfaced r (Collect (boundary F)) (Collect (boundary (- pixels r))) =
    Collect (boundary (F - pixels r))"
proof (rule set_eqI)
  fix c :: cell
  have pl: "(\<exists>d\<in>Collect (boundary F). faced r d \<and> same_place c d) \<longleftrightarrow>
      faced r c \<and> (inner_px c \<in> F) \<noteq> (outer_px c \<in> F)"
  proof
    assume "\<exists>d\<in>Collect (boundary F). faced r d \<and> same_place c d"
    then obtain d where d: "boundary F d" "faced r d" "same_place c d" by auto
    from same_place_cases [OF d(3)] d(1,2)
    show "faced r c \<and> (inner_px c \<in> F) \<noteq> (outer_px c \<in> F)"
      by (auto simp: faced_px [OF assms(1)] boundary_def)
  next
    assume f: "faced r c \<and> (inner_px c \<in> F) \<noteq> (outer_px c \<in> F)"
    obtain s x y where c: "c = (s, x, y)" by (metis surj_pair)
    show "\<exists>d\<in>Collect (boundary F). faced r d \<and> same_place c d"
    proof (cases "inner_px c \<in> F")
      case True
      with f show ?thesis by (intro bexI [of _ c]) (auto simp: boundary_def c)
    next
      case False
      with f show ?thesis
        by (intro bexI [of _ "(flip_side s, x, y)"])
           (auto simp: boundary_def c flip_place faced_px [OF assms(1)] simp del: same_place.simps)
    qed
  qed
  show "c \<in> (Collect (boundary F) - Collect (swallowed r)) \<union> unfaced r (Collect (boundary F)) (Collect (boundary (- pixels r))) \<longleftrightarrow>
      c \<in> Collect (boundary (F - pixels r))"
    unfolding unfaced_def mem_Collect_eq pl Un_iff Diff_iff
    using assms(2) by (auto simp: boundary_def swallowed_px [OF assms(1)] faced_px [OF assms(1)])
qed

fun disjoint_rects :: "mtk_rectangle list \<Rightarrow> bool" where
  "disjoint_rects [] = True"
| "disjoint_rects (r # rs) = (list_all (\<lambda>q. \<not> mtk_rectangle_overlap r q) rs \<and> disjoint_rects rs)"

lemma disjoint_rects_covered:
  assumes "rect_positive r" "list_all rect_positive rs" "list_all (\<lambda>q. \<not> mtk_rectangle_overlap r q) rs"
  shows "pixels r \<inter> covered rs = {}"
  using assms(2,3) overlap_iff_pixels [OF assms(1)] by (induction rs) auto

lemma add_strut_edges_ok:
  assumes "list_all rect_positive rs" "disjoint_rects rs" "covered rs \<subseteq> F"
    and "edges_ok {META_EDGE_SCREEN} es" "cells es = Collect (boundary F)"
  shows "\<exists>es'. add_strut_edges rs es = Some es' \<and> edges_ok {META_EDGE_SCREEN} es' \<and>
    cells es' = Collect (boundary (F - covered rs))"
  using assms
proof (induction rs arbitrary: es F)
  case (Cons r rs)
  then have r: "rect_positive r" and rs: "list_all rect_positive rs" "disjoint_rects rs" "pixels r \<subseteq> F" by auto
  note A = add_edges_ok [OF r]
  from strut_against_edges_ok [OF r A(1) [of False] _ _ Cons.prems(4), of "[]" "[]"] obtain new ret where
    s: "strut_against_edges r (add_edges [] r False) [] [] es = Some (new, ret)"
      "edges_ok {META_EDGE_SCREEN} new" "edges_ok {META_EDGE_SCREEN} ret"
      "cells new = unfaced r (cells es) (cells (add_edges [] r False))"
      "cells ret = cells es - Collect (swallowed r)" by auto
  have "cells (add_edges [] r False) = Collect (boundary (- pixels r))" using A(3) by auto
  then have "cells (new @ ret) = Collect (boundary (F - pixels r))"
    using boundary_step [OF r rs(3)] s(4,5) Cons.prems(5) by auto
  moreover have "edges_ok {META_EDGE_SCREEN} (new @ ret)" using s(2,3) by simp
  moreover have "covered rs \<subseteq> F - pixels r"
    using Cons.prems disjoint_rects_covered [OF r rs(1)] by auto
  ultimately obtain es' where "add_strut_edges rs (new @ ret) = Some es'" "edges_ok {META_EDGE_SCREEN} es'"
      "cells es' = Collect (boundary (F - pixels r - covered rs))"
    using Cons.IH [OF rs(1,2)] by blast
  then show ?case using s(1) by (simp add: Diff_eq Int_assoc)
qed auto

lemma onscreen_edges_ok:
  assumes "rect_positive basic" "disjoint_rects (get_disjoint_strut_rect_list_in_region struts basic)"
  shows "\<exists>es. meta_rectangle_find_onscreen_edges basic struts = Some es \<and> sorted (map edge_key es) \<and>
    edges_ok {META_EDGE_SCREEN} es \<and>
    (\<forall>c. c \<in> cells es \<longleftrightarrow> boundary (pixels basic - covered (map strut_rect struts)) c)"
proof -
  let ?ds = "get_disjoint_strut_rect_list_in_region struts basic"
  have ds: "covered ?ds = covered (map strut_rect struts) \<inter> pixels basic" by (rule strut_rects_covered)
  have cells: "cells (add_edges [] basic True) = Collect (boundary (pixels basic))"
    using add_edges_ok(2) [OF assms(1)] by auto
  have sub: "covered ?ds \<subseteq> pixels basic" using ds by blast
  have free: "pixels basic - covered ?ds = pixels basic - covered (map strut_rect struts)" using ds by blast
  from add_strut_edges_ok [OF strut_rects_positive assms(2) sub add_edges_ok(1) [OF assms(1)] cells]
  obtain es where "add_strut_edges ?ds (add_edges [] basic True) = Some es" "edges_ok {META_EDGE_SCREEN} es"
      "cells es = Collect (boundary (pixels basic - covered (map strut_rect struts)))"
    unfolding free by blast
  then show ?thesis by (auto simp: meta_rectangle_find_onscreen_edges_def)
qed

lemma monitor_edges_exact:
  assumes "list_all rect_positive ms" "list_all (\<lambda>s. rect_positive (strut_rect s)) struts"
  shows "\<exists>es. meta_rectangle_find_nonintersected_monitor_edges ms struts = Some es \<and>
    sorted (map edge_key es) \<and> edges_ok {META_EDGE_MONITOR} es \<and>
    (\<forall>c. c \<in> cells es \<longleftrightarrow> (\<exists>a\<in>set ms. \<exists>b\<in>set ms. between_monitors a b c) \<and>
       (\<forall>s\<in>set struts. \<not> boxed (strut_rect s) c))"
proof -
  have "list_all rect_positive (rev (map strut_rect struts))" using assms(2) by (simp add: list_all_iff)
  from remove_boxes_ok [OF monitor_edges_ok(1) [OF assms(1)] this]
  show ?thesis
    unfolding meta_rectangle_find_nonintersected_monitor_edges_def monitor_edges_ok(2) [OF assms(1)]
    by (auto simp: list_all_iff)
qed

text \<open>With struts whose parts overlap, edges inside a strut are left: those of the third strut of
  \<open>nested_struts\<close>, which lies in the second.\<close>

lemma nested_struts_spurious_edge:
  "\<exists>es. meta_rectangle_find_onscreen_edges (mtk_rectangle_new 0 0 100 100) nested_struts = Some es \<and>
     (META_SIDE_RIGHT, 12, 12) \<in> cells es \<and>
     \<not> boundary (pixels (mtk_rectangle_new 0 0 100 100) - covered (map strut_rect nested_struts)) (META_SIDE_RIGHT, 12, 12)"
proof -
  have "\<exists>es. add_strut_edges (get_disjoint_strut_rect_list_in_region nested_struts (mtk_rectangle_new 0 0 100 100))
      (add_edges [] (mtk_rectangle_new 0 0 100 100) True) = Some es \<and> (META_SIDE_RIGHT, 12, 12) \<in> cells es"
    unfolding nested_struts_result
    by (simp add: mtk_rectangle_new_def add_edges_def fix_up_edges_def rectangle_and_edge_intersection_def
        edge_handle_type_def split_edge_def edges_overlap_def box_defs vertical_side_def Let_def
        mtk_rectangle_vert_overlap_def mtk_rectangle_horiz_overlap_def mem_edge_cells in_seg_def)
  moreover have "\<not> boundary (pixels (mtk_rectangle_new 0 0 100 100) - covered (map strut_rect nested_struts)) (META_SIDE_RIGHT, 12, 12)"
    by (simp add: boundary_def nested_struts_def mtk_rectangle_new_def mem_pixels)
  ultimately show ?thesis by (auto simp: meta_rectangle_find_onscreen_edges_def)
qed

end
