(* ===== verification/Edge_Search.thy ===== *)
theory Edge_Search
  imports Boxes_Edges
begin

text \<open>
  The searches of \<open>mutter/src/compositor/edge-resistance.c\<close> in a sorted array of edges: the
  first or last edge at a position, and the edge nearest to a position. An array is the list of
  its edges; an index is a C \<open>int\<close>, which may be -1 or the length, and an access outside the
  array is \<^const>\<open>None\<close>.
\<close>

section \<open>The array\<close>

definition g_array_index :: "meta_edge list \<Rightarrow> int \<Rightarrow> meta_edge option" where
  "g_array_index edges i =
     (if 0 \<le> i \<and> i < int (length edges) then Some (edges ! nat i) else None)"

definition edge_pos :: "bool \<Rightarrow> meta_edge \<Rightarrow> int" where
  "edge_pos horizontal edge = (if horizontal then rect_x (edge_rect edge) else rect_y (edge_rect edge))"

definition compare_at :: "meta_edge list \<Rightarrow> bool \<Rightarrow> int \<Rightarrow> int option" where
  "compare_at edges horizontal i = map_option (edge_pos horizontal) (g_array_index edges i)"

text \<open>The positions of a sorted array.\<close>

definition sorted_edges :: "bool \<Rightarrow> meta_edge list \<Rightarrow> bool" where
  "sorted_edges horizontal edges \<longleftrightarrow> sorted (map (edge_pos horizontal) edges)"

section \<open>The searches\<close>

text \<open>The binary search both functions begin with: the loop keeps \<open>mid\<close> and \<open>compare\<close>.\<close>

function bisect ::
  "meta_edge list \<Rightarrow> bool \<Rightarrow> int \<Rightarrow> int \<Rightarrow> int \<Rightarrow> int \<Rightarrow> int \<Rightarrow> (int \<times> int) option" where
  "bisect edges horizontal position low high mid compare =
     (if low < high then
        (let mid = low + (high - low) sdiv 2
         in Option.bind (compare_at edges horizontal mid)
              (\<lambda>compare.
                 if compare = position then Some (mid, compare)
                 else if compare > position
                 then bisect edges horizontal position low (mid - 1) mid compare
                 else bisect edges horizontal position (mid + 1) high mid compare))
      else Some (mid, compare))"
  by pat_completeness auto

lemma sdiv_half: "low < high \<Longrightarrow> (high - low) sdiv 2 = (high - low) div (2::int)"
  by (simp add: signed_divide_int_def)

termination bisect
  by (relation "measure (\<lambda>(_, _, _, low, high, _, _). nat (high - low))")
     (auto simp: sdiv_half)

declare bisect.simps [simp del]

text \<open>The linear searches: down while the condition holds, and up while it does.\<close>

function walk_down ::
  "meta_edge list \<Rightarrow> bool \<Rightarrow> (int \<Rightarrow> bool) \<Rightarrow> int \<times> int \<Rightarrow> (int \<times> int) option" where
  "walk_down edges horizontal cond (mid, compare) =
     (if cond compare \<and> mid > 0
      then Option.bind (compare_at edges horizontal (mid - 1))
             (\<lambda>compare. walk_down edges horizontal cond (mid - 1, compare))
      else Some (mid, compare))"
  by pat_completeness auto
termination by (relation "measure (\<lambda>(_, _, _, mid, _). nat mid)") auto

function walk_up ::
  "meta_edge list \<Rightarrow> bool \<Rightarrow> (int \<Rightarrow> bool) \<Rightarrow> int \<times> int \<Rightarrow> (int \<times> int) option" where
  "walk_up edges horizontal cond (mid, compare) =
     (if cond compare \<and> mid < int (length edges) - 1
      then Option.bind (compare_at edges horizontal (mid + 1))
             (\<lambda>compare. walk_up edges horizontal cond (mid + 1, compare))
      else Some (mid, compare))"
  by pat_completeness auto
termination by (relation "measure (\<lambda>(edges, _, _, mid, _). nat (int (length edges) - mid))") auto

declare walk_down.simps [simp del] walk_up.simps [simp del]

definition find_index_of_edge_near_position ::
  "meta_edge list \<Rightarrow> int \<Rightarrow> bool \<Rightarrow> bool \<Rightarrow> int option" where
  "find_index_of_edge_near_position edges position want_interval_min horizontal =
     Option.bind (compare_at edges horizontal 0) (\<lambda>compare.
     Option.bind (bisect edges horizontal position 0 (int (length edges) - 1) 0 compare) (\<lambda>start.
     if want_interval_min then
       Option.bind (walk_down edges horizontal (\<lambda>c. c \<ge> position) start) (\<lambda>s1.
       Option.bind (walk_up edges horizontal (\<lambda>c. c < position) s1) (\<lambda>(mid, compare).
       Some (if compare < position then int (length edges) else mid)))
     else
       Option.bind (walk_up edges horizontal (\<lambda>c. c \<le> position) start) (\<lambda>s1.
       Option.bind (walk_down edges horizontal (\<lambda>c. c > position) s1) (\<lambda>(mid, compare).
       Some (if compare > position then -1 else mid)))))"

definition points_on_same_side :: "int \<Rightarrow> int \<Rightarrow> int \<Rightarrow> bool" where
  "points_on_same_side ref pt1 pt2 \<longleftrightarrow> (pt1 - ref) * (pt2 - ref) > 0"

text \<open>The nearest edge. \<open>better\<close> is the update of \<open>best\<close> and \<open>best_dist\<close>; the search to each
  side stops at the first edge that counts.\<close>

definition better :: "int \<Rightarrow> int \<Rightarrow> int \<times> int \<Rightarrow> int \<times> int" where
  "better position compare b =
     (let dist = \<bar>compare - position\<bar> in if dist < snd b then (compare, dist) else b)"

definition side_aligns :: "bool \<Rightarrow> mtk_rectangle \<Rightarrow> meta_edge \<Rightarrow> bool" where
  "side_aligns horizontal new_rect edge =
     (if horizontal then mtk_rectangle_vert_overlap (edge_rect edge) new_rect
      else mtk_rectangle_horiz_overlap (edge_rect edge) new_rect)"

fun search_side ::
  "int \<Rightarrow> int \<Rightarrow> mtk_rectangle \<Rightarrow> bool \<Rightarrow> bool \<Rightarrow> meta_edge list \<Rightarrow> int \<times> int \<Rightarrow> int \<times> int" where
  "search_side position old_position new_rect horizontal only_forward [] b = b"
| "search_side position old_position new_rect horizontal only_forward (edge # edges) b =
     (let compare = edge_pos horizontal edge
      in if side_aligns horizontal new_rect edge \<and>
            (\<not> only_forward \<or> \<not> points_on_same_side position compare old_position)
         then better position compare b
         else search_side position old_position new_rect horizontal only_forward edges b)"

text \<open>\<open>INT_MAX\<close> as the distance before any edge was found.\<close>

definition INT_MAX :: int where "INT_MAX = 2147483647"

definition find_nearest_position ::
  "meta_edge list \<Rightarrow> int \<Rightarrow> int \<Rightarrow> mtk_rectangle \<Rightarrow> bool \<Rightarrow> bool \<Rightarrow> int option" where
  "find_nearest_position edges position old_position new_rect horizontal only_forward =
     Option.bind (compare_at edges horizontal 0) (\<lambda>compare.
     Option.bind (bisect edges horizontal position 0 (int (length edges) - 1) 0 compare) (\<lambda>(mid, _).
     Option.bind (g_array_index edges mid) (\<lambda>edge.
     let compare = edge_pos horizontal edge;
         b = (if meta_rectangle_edge_aligns new_rect edge \<and>
                 (\<not> only_forward \<or> \<not> points_on_same_side position compare old_position)
              then better position compare (old_position, INT_MAX) else (old_position, INT_MAX));
         b = search_side position old_position new_rect horizontal only_forward
               (drop (nat (mid + 1)) edges) b;
         b = search_side position old_position new_rect horizontal only_forward
               (rev (take (nat mid) edges)) b
     in Some (fst b))))"

section \<open>What they find\<close>

lemma compare_at_in: "0 \<le> i \<Longrightarrow> i < int (length es) \<Longrightarrow> compare_at es h i = Some (edge_pos h (es ! nat i))"
  by (simp add: compare_at_def g_array_index_def)

text \<open>A search state is right when \<open>mid\<close> is an index and \<open>compare\<close> the position there.\<close>

definition at_mid :: "meta_edge list \<Rightarrow> bool \<Rightarrow> int \<times> int \<Rightarrow> bool" where
  "at_mid es h s \<longleftrightarrow>
     0 \<le> fst s \<and> fst s < int (length es) \<and> snd s = edge_pos h (es ! nat (fst s))"

lemma bisect_at_mid:
  assumes "at_mid es h (mid, c)" "0 \<le> low" "high < int (length es)"
  shows "\<exists>s. bisect es h p low high mid c = Some s \<and> at_mid es h s"
  using assms
proof (induction es h p low high mid c rule: bisect.induct)
  case (1 es h p low high mid c)
  show ?case
  proof (cases "low < high")
    case True
    define m where "m = low + (high - low) sdiv 2"
    have m: "low \<le> m" "m < high" using True by (simp_all add: m_def sdiv_half)
    then have at: "compare_at es h m = Some (edge_pos h (es ! nat m))" "at_mid es h (m, edge_pos h (es ! nat m))"
      using "1.prems" by (simp_all add: compare_at_in at_mid_def)
    from True m at "1.prems"(2,3) show ?thesis
      unfolding bisect.simps [of es h p low high mid c] m_def [symmetric] Let_def
      using "1.IH"(1) [OF True m_def at(1)] "1.IH"(2) [OF True m_def at(1)] by auto
  qed (use "1.prems" bisect.simps [of es h p low high mid c] in simp)
qed

text \<open>The linear searches stop at the first index, in their direction, where the condition fails,
  or at the end of the array.\<close>

lemma walk_down_result:
  assumes "at_mid es h s"
  shows "\<exists>i. walk_down es h P s = Some (i, edge_pos h (es ! nat i)) \<and> 0 \<le> i \<and> i \<le> fst s \<and>
    (\<forall>j. i < j \<and> j \<le> fst s \<longrightarrow> P (edge_pos h (es ! nat j))) \<and>
    (i = 0 \<or> \<not> P (edge_pos h (es ! nat i)))"
  using assms
proof (induction es h P s rule: walk_down.induct)
  case (1 es h P mid c)
  then have c: "c = edge_pos h (es ! nat mid)" "0 \<le> mid" "mid < int (length es)"
    by (simp_all add: at_mid_def)
  show ?case
  proof (cases "P c \<and> mid > 0")
    case True
    then have at: "compare_at es h (mid - 1) = Some (edge_pos h (es ! nat (mid - 1)))"
      "at_mid es h (mid - 1, edge_pos h (es ! nat (mid - 1)))"
      using c by (simp_all add: compare_at_in at_mid_def)
    from "1.IH" [OF True at] obtain i where
      i: "walk_down es h P (mid - 1, edge_pos h (es ! nat (mid - 1))) = Some (i, edge_pos h (es ! nat i))"
        "0 \<le> i" "i \<le> mid - 1" "\<forall>j. i < j \<and> j \<le> mid - 1 \<longrightarrow> P (edge_pos h (es ! nat j))"
        "i = 0 \<or> \<not> P (edge_pos h (es ! nat i))" by auto
    have "P (edge_pos h (es ! nat j))" if "i < j" "j \<le> mid" for j
      using that i(4) True c by (cases "j = mid") auto
    with i True at show ?thesis
      unfolding walk_down.simps [of es h P mid c] by auto
  next
    case False
    with c show ?thesis unfolding walk_down.simps [of es h P mid c] by auto
  qed
qed

lemma walk_up_result:
  assumes "at_mid es h s"
  shows "\<exists>i. walk_up es h P s = Some (i, edge_pos h (es ! nat i)) \<and> fst s \<le> i \<and> i < int (length es) \<and>
    (\<forall>j. fst s \<le> j \<and> j < i \<longrightarrow> P (edge_pos h (es ! nat j))) \<and>
    (i = int (length es) - 1 \<or> \<not> P (edge_pos h (es ! nat i)))"
  using assms
proof (induction es h P s rule: walk_up.induct)
  case (1 es h P mid c)
  then have c: "c = edge_pos h (es ! nat mid)" "0 \<le> mid" "mid < int (length es)"
    by (simp_all add: at_mid_def)
  show ?case
  proof (cases "P c \<and> mid < int (length es) - 1")
    case True
    then have at: "compare_at es h (mid + 1) = Some (edge_pos h (es ! nat (mid + 1)))"
      "at_mid es h (mid + 1, edge_pos h (es ! nat (mid + 1)))"
      using c by (simp_all add: compare_at_in at_mid_def)
    from "1.IH" [OF True at] obtain i where
      i: "walk_up es h P (mid + 1, edge_pos h (es ! nat (mid + 1))) = Some (i, edge_pos h (es ! nat i))"
        "mid + 1 \<le> i" "i < int (length es)" "\<forall>j. mid + 1 \<le> j \<and> j < i \<longrightarrow> P (edge_pos h (es ! nat j))"
        "i = int (length es) - 1 \<or> \<not> P (edge_pos h (es ! nat i))" by auto
    have "P (edge_pos h (es ! nat j))" if "mid \<le> j" "j < i" for j
      using that i(4) True c by (cases "j = mid") auto
    with i True at show ?thesis
      unfolding walk_up.simps [of es h P mid c] by auto
  next
    case False
    with c show ?thesis unfolding walk_up.simps [of es h P mid c] by auto
  qed
qed

text \<open>A predicate that holds of a prefix only cuts the list there.\<close>

lemma filter_prefix:
  assumes "k \<le> length xs" "\<And>j. j < k \<Longrightarrow> Q (xs ! j)" "\<And>j. k \<le> j \<Longrightarrow> j < length xs \<Longrightarrow> \<not> Q (xs ! j)"
  shows "filter Q xs = take k xs"
proof -
  have "filter Q (take k xs) = take k xs"
    using assms(1,2) by (auto simp: filter_id_conv in_set_conv_nth)
  moreover have "filter Q (drop k xs) = []"
    using assms(1,3) by (auto simp: filter_empty_conv in_set_conv_nth)
  ultimately show ?thesis by (metis append_Nil2 append_take_drop_id filter_append)
qed

lemma sorted_edges_nth:
  assumes "sorted_edges h es" "0 \<le> i" "i \<le> j" "j < int (length es)"
  shows "edge_pos h (es ! nat i) \<le> edge_pos h (es ! nat j)"
  using assms sorted_nth_mono [of "map (edge_pos h) es" "nat i" "nat j"]
  by (simp add: sorted_edges_def)

lemma start_at_mid:
  assumes "es \<noteq> []"
  shows "\<exists>s. bisect es h p 0 (int (length es) - 1) 0 (edge_pos h (es ! 0)) = Some s \<and> at_mid es h s"
  using assms by (intro bisect_at_mid) (auto simp: at_mid_def)

lemma count_prefix:
  assumes "k \<le> int (length es)" "0 \<le> k"
    and "\<And>j. 0 \<le> j \<Longrightarrow> j < k \<Longrightarrow> Q (edge_pos h (es ! nat j))"
    and "\<And>j. k \<le> j \<Longrightarrow> j < int (length es) \<Longrightarrow> \<not> Q (edge_pos h (es ! nat j))"
  shows "filter (\<lambda>e. Q (edge_pos h e)) es = take (nat k) es"
    and "int (length (filter (\<lambda>e. Q (edge_pos h e)) es)) = k"
proof -
  show f: "filter (\<lambda>e. Q (edge_pos h e)) es = take (nat k) es"
  proof (rule filter_prefix)
    show "nat k \<le> length es" using assms(1,2) by simp
    show "Q (edge_pos h (es ! j))" if "j < nat k" for j
      using assms(3) [of "int j"] that by simp
    show "\<not> Q (edge_pos h (es ! j))" if "nat k \<le> j" "j < length es" for j
      using assms(4) [of "int j"] assms(2) that by simp
  qed
  then show "int (length (filter (\<lambda>e. Q (edge_pos h e)) es)) = k" using assms(1,2) by simp
qed

text \<open>The first index whose position is not smaller: the number of smaller positions.\<close>

lemma find_index_min:
  assumes "es \<noteq> []" "sorted_edges h es"
  shows "find_index_of_edge_near_position es p True h =
    Some (int (length (filter (\<lambda>e. edge_pos h e < p) es)))"
proof -
  from start_at_mid [OF assms(1)] obtain s where
    s: "bisect es h p 0 (int (length es) - 1) 0 (edge_pos h (es ! 0)) = Some s" "at_mid es h s" by blast
  from walk_down_result [OF s(2), of "\<lambda>c. c \<ge> p"] obtain i where
    i: "walk_down es h (\<lambda>c. c \<ge> p) s = Some (i, edge_pos h (es ! nat i))" "0 \<le> i" "i \<le> fst s"
      "i = 0 \<or> edge_pos h (es ! nat i) < p" by auto
  have ati: "at_mid es h (i, edge_pos h (es ! nat i))" using i s(2) by (simp add: at_mid_def)
  from walk_up_result [OF this, of "\<lambda>c. c < p"] obtain k where
    k: "walk_up es h (\<lambda>c. c < p) (i, edge_pos h (es ! nat i)) = Some (k, edge_pos h (es ! nat k))"
      "i \<le> k" "k < int (length es)" "\<forall>j. i \<le> j \<and> j < k \<longrightarrow> edge_pos h (es ! nat j) < p"
      "k = int (length es) - 1 \<or> p \<le> edge_pos h (es ! nat k)" by auto
  have low: "edge_pos h (es ! nat j) < p" if "0 \<le> j" "j < k" for j
  proof (cases "j < i")
    case True
    then have "edge_pos h (es ! nat i) < p" using i(4) that by auto
    moreover have "edge_pos h (es ! nat j) \<le> edge_pos h (es ! nat i)"
      using sorted_edges_nth [OF assms(2) that(1)] True k by simp
    ultimately show ?thesis by simp
  qed (use k(4) that in simp)
  define r where "r = (if edge_pos h (es ! nat k) < p then int (length es) else k)"
  have "find_index_of_edge_near_position es p True h = Some r"
    using assms(1) s(1) i(1) k(1) by (simp add: find_index_of_edge_near_position_def compare_at_in r_def)
  moreover have "int (length (filter (\<lambda>e. edge_pos h e < p) es)) = r"
  proof (rule count_prefix(2))
    show "r \<le> int (length es)" "0 \<le> r" using k(2,3) i(2) by (simp_all add: r_def)
    show "edge_pos h (es ! nat j) < p" if "0 \<le> j" "j < r" for j
      using that low k(5) by (cases "j = k") (auto simp: r_def split: if_splits)
    show "\<not> edge_pos h (es ! nat j) < p" if "r \<le> j" "j < int (length es)" for j
      using that sorted_edges_nth [OF assms(2), of k j] k(2) i(2) by (auto simp: r_def split: if_splits)
  qed
  ultimately show ?thesis by simp
qed

text \<open>The last index whose position is not larger: one less than the number of these.\<close>

lemma find_index_max:
  assumes "es \<noteq> []" "sorted_edges h es"
  shows "find_index_of_edge_near_position es p False h =
    Some (int (length (filter (\<lambda>e. edge_pos h e \<le> p) es)) - 1)"
proof -
  from start_at_mid [OF assms(1)] obtain s where
    s: "bisect es h p 0 (int (length es) - 1) 0 (edge_pos h (es ! 0)) = Some s" "at_mid es h s" by blast
  from walk_up_result [OF s(2), of "\<lambda>c. c \<le> p"] obtain i where
    i: "walk_up es h (\<lambda>c. c \<le> p) s = Some (i, edge_pos h (es ! nat i))" "fst s \<le> i" "i < int (length es)"
      "i = int (length es) - 1 \<or> p < edge_pos h (es ! nat i)" by auto
  have i0: "0 \<le> i" using i(2) s(2) by (simp add: at_mid_def)
  have ati: "at_mid es h (i, edge_pos h (es ! nat i))" using i i0 by (simp add: at_mid_def)
  from walk_down_result [OF this, of "\<lambda>c. c > p"] obtain k where
    k: "walk_down es h (\<lambda>c. c > p) (i, edge_pos h (es ! nat i)) = Some (k, edge_pos h (es ! nat k))"
      "0 \<le> k" "k \<le> i" "\<forall>j. k < j \<and> j \<le> i \<longrightarrow> p < edge_pos h (es ! nat j)"
      "k = 0 \<or> edge_pos h (es ! nat k) \<le> p" by auto
  have high: "p < edge_pos h (es ! nat j)" if "k < j" "j < int (length es)" for j
  proof (cases "i < j")
    case True
    then have "p < edge_pos h (es ! nat i)" using i(4) that by auto
    moreover have "edge_pos h (es ! nat i) \<le> edge_pos h (es ! nat j)"
      using sorted_edges_nth [OF assms(2) i0] True that by simp
    ultimately show ?thesis by simp
  qed (use k(4) that in simp)
  define r where "r = (if edge_pos h (es ! nat k) > p then -1 else k)"
  have "find_index_of_edge_near_position es p False h = Some r"
    using assms(1) s(1) i(1) k(1) by (simp add: find_index_of_edge_near_position_def compare_at_in r_def)
  moreover have "int (length (filter (\<lambda>e. edge_pos h e \<le> p) es)) = r + 1"
  proof (rule count_prefix(2))
    show "r + 1 \<le> int (length es)" "0 \<le> r + 1" using k(2,3) i(3) by (simp_all add: r_def)
    show "edge_pos h (es ! nat j) \<le> p" if "0 \<le> j" "j < r + 1" for j
      using that sorted_edges_nth [OF assms(2), of j k] k(2,3) i(3) by (auto simp: r_def split: if_splits)
    show "\<not> edge_pos h (es ! nat j) \<le> p" if "r + 1 \<le> j" "j < int (length es)" for j
      using that high k(5) by (cases "j = k") (auto simp: r_def not_le split: if_splits)
  qed
  ultimately show ?thesis by simp
qed

lemma find_index_range:
  assumes "es \<noteq> []"
  shows "\<exists>i. find_index_of_edge_near_position es p want h = Some i \<and> -1 \<le> i \<and> i \<le> int (length es)"
proof -
  from start_at_mid [OF assms] obtain s where
    s: "bisect es h p 0 (int (length es) - 1) 0 (edge_pos h (es ! 0)) = Some s" "at_mid es h s" by blast
  have down: "\<exists>i. walk_down es h P s = Some (i, edge_pos h (es ! nat i)) \<and> at_mid es h (i, edge_pos h (es ! nat i))"
    if "at_mid es h s" for P s
    using walk_down_result [OF that, of P] that by (auto simp: at_mid_def)
  have up: "\<exists>i. walk_up es h P s = Some (i, edge_pos h (es ! nat i)) \<and> at_mid es h (i, edge_pos h (es ! nat i))"
    if "at_mid es h s" for P s
    using walk_up_result [OF that, of P] that by (auto simp: at_mid_def)
  show ?thesis
  proof (cases want)
    case True
    from down [OF s(2)] obtain i where i: "walk_down es h (\<lambda>c. c \<ge> p) s = Some (i, edge_pos h (es ! nat i))"
      "at_mid es h (i, edge_pos h (es ! nat i))" by blast
    from up [OF i(2)] obtain k where "walk_up es h (\<lambda>c. c < p) (i, edge_pos h (es ! nat i)) = Some (k, edge_pos h (es ! nat k))"
      "at_mid es h (k, edge_pos h (es ! nat k))" by blast
    with True i s(1) assms show ?thesis
      by (simp add: find_index_of_edge_near_position_def compare_at_in at_mid_def)
  next
    case False
    from up [OF s(2)] obtain i where i: "walk_up es h (\<lambda>c. c \<le> p) s = Some (i, edge_pos h (es ! nat i))"
      "at_mid es h (i, edge_pos h (es ! nat i))" by blast
    from down [OF i(2)] obtain k where "walk_down es h (\<lambda>c. c > p) (i, edge_pos h (es ! nat i)) = Some (k, edge_pos h (es ! nat k))"
      "at_mid es h (k, edge_pos h (es ! nat k))" by blast
    with False i s(1) assms show ?thesis
      by (simp add: find_index_of_edge_near_position_def compare_at_in at_mid_def)
  qed
qed

section \<open>The nearest edge\<close>

text \<open>What the search may return besides the old position: the position of an edge the rectangle
  meets, which is not on the near side of the new position when only forward ones count.\<close>

definition snaps_to :: "int \<Rightarrow> int \<Rightarrow> mtk_rectangle \<Rightarrow> bool \<Rightarrow> bool \<Rightarrow> meta_edge \<Rightarrow> bool" where
  "snaps_to p old r h fwd e \<longleftrightarrow>
     (meta_rectangle_edge_aligns r e \<or> side_aligns h r e) \<and>
     (fwd \<longrightarrow> \<not> points_on_same_side p (edge_pos h e) old)"

lemma search_side_result:
  "fst (search_side p old r h fwd es b) = fst b \<or>
   (\<exists>e\<in>set es. snaps_to p old r h fwd e \<and> fst (search_side p old r h fwd es b) = edge_pos h e)"
proof (induction es)
  case (Cons e es)
  show ?case
  proof (cases "side_aligns h r e \<and> (\<not> fwd \<or> \<not> points_on_same_side p (edge_pos h e) old)")
    case True
    then have "snaps_to p old r h fwd e" by (auto simp: snaps_to_def)
    with True show ?thesis by (auto simp: better_def Let_def)
  next
    case False
    then have "search_side p old r h fwd (e # es) b = search_side p old r h fwd es b"
      by (auto simp: Let_def)
    with Cons.IH show ?thesis by auto
  qed
qed simp

lemma find_nearest_result:
  assumes "es \<noteq> []"
  shows "\<exists>q. find_nearest_position es p old r h fwd = Some q \<and>
    (q = old \<or> (\<exists>e\<in>set es. snaps_to p old r h fwd e \<and> q = edge_pos h e))"
proof -
  from start_at_mid [OF assms] obtain mid c where
    s: "bisect es h p 0 (int (length es) - 1) 0 (edge_pos h (es ! 0)) = Some (mid, c)" "at_mid es h (mid, c)"
    by (metis prod.exhaust)
  define e where "e = es ! nat mid"
  have e: "g_array_index es mid = Some e" "e \<in> set es"
    using s(2) by (auto simp: at_mid_def g_array_index_def e_def)
  define b where "b = (if meta_rectangle_edge_aligns r e \<and> (\<not> fwd \<or> \<not> points_on_same_side p (edge_pos h e) old)
    then better p (edge_pos h e) (old, INT_MAX) else (old, INT_MAX))"
  define b1 where "b1 = search_side p old r h fwd (drop (nat (mid + 1)) es) b"
  define b2 where "b2 = search_side p old r h fwd (rev (take (nat mid) es)) b1"
  let ?ok = "\<lambda>q. q = old \<or> (\<exists>e\<in>set es. snaps_to p old r h fwd e \<and> q = edge_pos h e)"
  have "?ok (fst b)" using e(2) by (auto simp: b_def better_def Let_def snaps_to_def)
  moreover have "?ok (fst b1)" if "?ok (fst b)"
    using that search_side_result [of p old r h fwd "drop (nat (mid + 1)) es" b]
    unfolding b1_def [symmetric] by (metis in_set_dropD)
  moreover have "?ok (fst b2)" if "?ok (fst b1)"
    using that search_side_result [of p old r h fwd "rev (take (nat mid) es)" b1]
    unfolding b2_def [symmetric] by (metis in_set_takeD set_rev)
  moreover have "find_nearest_position es p old r h fwd = Some (fst b2)"
    using assms s(1) e(1)
    by (simp add: find_nearest_position_def compare_at_in Let_def b_def b1_def b2_def)
  ultimately show ?thesis by blast
qed

text \<open>With the proposed position on an edge, the search ends beside it, since the indices outside
  of \<open>low\<close> to \<open>high\<close> hold smaller and larger positions.\<close>

lemma bisect_beside:
  assumes "at_mid es h (mid, c)" "0 \<le> low" "high < int (length es)" "low \<le> high + 1"
    and "mid = low - 1 \<or> mid = high + 1 \<or> low = mid" "sorted_edges h es"
    and "0 \<le> k" "k < int (length es)" "edge_pos h (es ! nat k) = p"
    and "\<forall>j. 0 \<le> j \<and> j < low \<longrightarrow> edge_pos h (es ! nat j) < p"
    and "\<forall>j. high < j \<and> j < int (length es) \<longrightarrow> edge_pos h (es ! nat j) > p"
  shows "\<exists>m c'. bisect es h p low high mid c = Some (m, c') \<and> at_mid es h (m, c') \<and>
    (c' = p \<or> m - 1 = k \<or> m + 1 = k)"
  using assms
proof (induction es h p low high mid c rule: bisect.induct)
  case (1 es h p low high mid c)
  have k: "low \<le> k" "k \<le> high" using "1.prems"(7-11) by (metis not_le order_less_irrefl)+
  show ?case
  proof (cases "low < high")
    case True
    define m where "m = low + (high - low) sdiv 2"
    have m: "low \<le> m" "m < high" using True by (simp_all add: m_def sdiv_half)
    then have at: "compare_at es h m = Some (edge_pos h (es ! nat m))" "at_mid es h (m, edge_pos h (es ! nat m))"
      using "1.prems" by (simp_all add: compare_at_in at_mid_def)
    note step = bisect.simps [of es h p low high mid c, folded m_def, unfolded Let_def at(1) Option.bind.bind_lunit]
    consider "edge_pos h (es ! nat m) = p" | "edge_pos h (es ! nat m) > p" | "edge_pos h (es ! nat m) < p"
      by linarith
    then show ?thesis
    proof cases
      case 1
      with True at show ?thesis by (simp add: step)
    next
      case gt: 2
      have "\<forall>j. m - 1 < j \<and> j < int (length es) \<longrightarrow> edge_pos h (es ! nat j) > p"
        using gt sorted_edges_nth [OF "1.prems"(6), of m] m "1.prems"(2) by (smt (verit))
      with "1.IH"(1) [OF True m_def at(1)] gt at(2) m "1.prems" True show ?thesis
        by (simp add: step less_imp_neq [THEN not_sym])
    next
      case lt: 3
      have "\<forall>j. 0 \<le> j \<and> j < m + 1 \<longrightarrow> edge_pos h (es ! nat j) < p"
        using lt sorted_edges_nth [OF "1.prems"(6), of _ m] m "1.prems"(3) by (smt (verit))
      with "1.IH"(2) [OF True m_def at(1)] lt at(2) m "1.prems" True show ?thesis
        by (simp add: step less_imp_neq [OF lt] order_less_not_sym [OF lt])
    qed
  next
    case False
    then have "low = high" "k = low" using "1.prems"(4) k by auto
    moreover have "bisect es h p low high mid c = Some (mid, c)"
      using False by (simp add: bisect.simps [of es h p low high mid c])
    ultimately show ?thesis using "1.prems"(1,5,9) by (auto simp: at_mid_def)
  qed
qed

text \<open>A best of distance 0 is at the position itself, and stays.\<close>

definition best_ok :: "int \<Rightarrow> int \<times> int \<Rightarrow> bool" where
  "best_ok p b \<longleftrightarrow> 0 \<le> snd b \<and> (snd b = 0 \<longrightarrow> fst b = p)"

lemma best_ok_better: "best_ok p b \<Longrightarrow> best_ok p (better p c b)"
  by (simp add: best_ok_def better_def Let_def)

lemma best_ok_search: "best_ok p b \<Longrightarrow> best_ok p (search_side p old r h fwd es b)"
  by (induction es) (simp_all add: Let_def best_ok_better)

lemma better_here: "best_ok p b \<Longrightarrow> better p p b = (p, 0)"
  by (cases b) (auto simp: best_ok_def better_def)

lemma search_keeps: "search_side p old r h fwd es (p, 0) = (p, 0)"
  by (induction es) (simp_all add: Let_def better_def)

lemma search_finds:
  assumes "best_ok p b" "side_aligns h r e" "edge_pos h e = p" "\<forall>x\<in>set xs. edge_pos h x = p"
  shows "search_side p old r h fwd (xs @ e # ys) b = (p, 0)"
  using assms(4)
  by (induction xs) (simp_all add: assms(1-3) better_here points_on_same_side_def)

lemma side_aligns_edge_aligns:
  "side_aligns h r e \<Longrightarrow> vertical_side (side_type e) = h \<Longrightarrow> meta_rectangle_edge_aligns r e"
  by (auto simp: side_aligns_def meta_rectangle_edge_aligns_def mtk_rectangle_vert_overlap_def
      mtk_rectangle_horiz_overlap_def box_defs)

lemma split_above:
  assumes "m < k" "k < length xs"
  shows "drop (m + 1) xs = take (k - m - 1) (drop (m + 1) xs) @ xs ! k # drop (k + 1) xs"
  using assms id_take_nth_drop [of "k - m - 1" "drop (m + 1) xs"] by simp

lemma split_beneath:
  assumes "k < m" "m \<le> length xs"
  shows "rev (take m xs) = rev (drop (k + 1) (take m xs)) @ xs ! k # rev (take k xs)"
  using assms arg_cong [OF id_take_nth_drop [of k "take m xs"], of rev] by simp

lemma find_nearest_exact:
  assumes "sorted_edges h es" "e \<in> set es" "edge_pos h e = p" "side_aligns h r e"
    and "vertical_side (side_type e) = h"
  shows "find_nearest_position es p old r h fwd = Some p"
proof -
  from assms(2) obtain k where k: "k < length es" "es ! k = e" by (auto simp: in_set_conv_nth)
  then have ne: "es \<noteq> []" by auto
  obtain m0 c where s: "bisect es h p 0 (int (length es) - 1) 0 (edge_pos h (es ! 0)) = Some (m0, c)"
    "at_mid es h (m0, c)" "c = p \<or> m0 - 1 = int k \<or> m0 + 1 = int k"
    using bisect_beside [of es h 0 "edge_pos h (es ! 0)" 0 "int (length es) - 1" "int k" p] ne k assms(1,3)
    by (auto simp: at_mid_def)
  define m where "m = nat m0"
  have m: "m < length es" "c = edge_pos h (es ! m)" "m0 = int m" using s(2) by (auto simp: m_def at_mid_def)
  have mid: "edge_pos h (es ! m) = p \<or> m = k + 1 \<or> m + 1 = k" using s(3) m by auto
  have mono: "edge_pos h (es ! i) \<le> edge_pos h (es ! j)" if "i \<le> j" "j < length es" for i j
    using sorted_edges_nth [OF assms(1), of "int i" "int j"] that by simp
  define b where "b = (if meta_rectangle_edge_aligns r (es ! m) \<and> (\<not> fwd \<or> \<not> points_on_same_side p (edge_pos h (es ! m)) old)
    then better p (edge_pos h (es ! m)) (old, INT_MAX) else (old, INT_MAX))"
  have b: "best_ok p b" "m = k \<Longrightarrow> b = (p, 0)"
  proof -
    have "best_ok p (old, INT_MAX)" by (simp add: best_ok_def INT_MAX_def)
    then show "best_ok p b" by (simp add: b_def best_ok_better)
    show "b = (p, 0)" if "m = k"
      using that k assms(3) side_aligns_edge_aligns [OF assms(4,5)] \<open>best_ok p (old, INT_MAX)\<close>
      by (simp add: b_def better_here points_on_same_side_def)
  qed
  define b1 where "b1 = search_side p old r h fwd (drop (m + 1) es) b"
  define b2 where "b2 = search_side p old r h fwd (rev (take m es)) b1"
  have b1: "best_ok p b1" by (simp add: b1_def best_ok_search b(1))
  have "b2 = (p, 0)"
  proof (cases m k rule: linorder_cases)
    case equal
    then show ?thesis by (simp add: b2_def b1_def b(2) search_keeps)
  next
    case less
    have "edge_pos h x = p" if x: "x \<in> set (take (k - m - 1) (drop (m + 1) es))" for x
    proof -
      from x obtain i where i: "i < k - m - 1" "x = es ! (m + 1 + i)"
        using k(1) by (auto simp: in_set_conv_nth)
      then have "edge_pos h (es ! m) = p" using mid less by auto
      moreover have "m + 1 + i \<le> k" using i(1) by linarith
      ultimately show ?thesis using mono [of m "m + 1 + i"] mono [of "m + 1 + i" k] i(2) k assms(3) by simp
    qed
    then have "search_side p old r h fwd
        (take (k - m - 1) (drop (m + 1) es) @ es ! k # drop (k + 1) es) b = (p, 0)"
      unfolding k(2) by (intro search_finds b(1) assms(4,3)) blast
    then have "b1 = (p, 0)" unfolding b1_def by (simp only: split_above [OF less k(1), symmetric])
    then show ?thesis by (simp add: b2_def search_keeps)
  next
    case greater
    have "edge_pos h x = p" if x: "x \<in> set (rev (drop (k + 1) (take m es)))" for x
    proof -
      from x obtain i where i: "i < m - Suc k" "x = es ! (k + 1 + i)"
        using m(1) by (auto simp: in_set_conv_nth)
      then have "edge_pos h (es ! m) = p" using mid greater by auto
      moreover have "k + 1 + i \<le> m" using i(1) by linarith
      ultimately show ?thesis using mono [of k "k + 1 + i"] mono [of "k + 1 + i" m] i(2) k m assms(3) by simp
    qed
    then have "search_side p old r h fwd
        (rev (drop (k + 1) (take m es)) @ es ! k # rev (take k es)) b1 = (p, 0)"
      unfolding k(2) by (intro search_finds b1 assms(4,3)) blast
    then show ?thesis
      unfolding b2_def by (simp only: split_beneath [OF greater less_imp_le [OF m(1)], symmetric])
  qed
  moreover have "find_nearest_position es p old r h fwd = Some (fst b2)"
    using ne s(1) m
    by (simp add: find_nearest_position_def compare_at_in g_array_index_def Let_def b_def b1_def b2_def nat_add_distrib)
  ultimately show ?thesis by simp
qed

end
