(* ===== verification/Edge_Resistance.thy ===== *)
theory Edge_Resistance
  imports Edge_Search
begin

text \<open>
  Edge resistance and snapping of a dragged window
  (\<open>mutter/src/compositor/edge-resistance.c\<close>): one side against an array of edges, all four
  sides, and what a move and a resize make of them. A \<^const>\<open>None\<close> is an access outside
  an array of edges. The window is the part of \<open>MetaWindow\<close> the code reads.
\<close>

section \<open>Data\<close>

record drag_window =
  outer_rect :: mtk_rectangle
  tiled_side_by_side :: bool
  current_work_area :: mtk_rectangle
  width_inc :: int
  height_inc :: int

record resistance_flags =
  flag_snap :: bool
  flag_keyboard_op :: bool
  flag_windows :: bool

record edge_resistance_data =
  left_edges :: "meta_edge list"
  right_edges :: "meta_edge list"
  top_edges :: "meta_edge list"
  bottom_edges :: "meta_edge list"

section \<open>One side\<close>

fun movement_towards_edge :: "meta_side \<Rightarrow> int \<Rightarrow> bool" where
  "movement_towards_edge META_SIDE_LEFT increment = (increment < 0)"
| "movement_towards_edge META_SIDE_TOP increment = (increment < 0)"
| "movement_towards_edge META_SIDE_RIGHT increment = (increment > 0)"
| "movement_towards_edge META_SIDE_BOTTOM increment = (increment > 0)"

definition edge_threshold :: "bool \<Rightarrow> int \<Rightarrow> meta_edge \<Rightarrow> int" where
  "edge_threshold include_windows increment edge =
     (case edge_type edge of
        META_EDGE_WINDOW \<Rightarrow>
          if \<not> include_windows then 0
          else if movement_towards_edge (side_type edge) increment then 16 else 0
      | META_EDGE_MONITOR \<Rightarrow> if movement_towards_edge (side_type edge) increment then 32 else 0
      | META_EDGE_SCREEN \<Rightarrow> if movement_towards_edge (side_type edge) increment then 32 else 0)"

text \<open>The body of the loop: whether it returns at this edge.\<close>

definition edge_stops ::
  "int \<Rightarrow> int \<Rightarrow> mtk_rectangle \<Rightarrow> mtk_rectangle \<Rightarrow> bool \<Rightarrow> bool \<Rightarrow> bool \<Rightarrow> meta_edge \<Rightarrow> bool" where
  "edge_stops old_pos new_pos old_rect new_rect xdir include_windows keyboard_op edge =
     (let compare = edge_pos xdir edge;
          increment = (if new_pos > old_pos then 1 else -1)
      in (meta_rectangle_edge_aligns new_rect edge \<or> meta_rectangle_edge_aligns old_rect edge) \<and>
         (if keyboard_op
          then old_pos < compare \<and> compare < new_pos \<or> old_pos > compare \<and> compare > new_pos
          else \<bar>compare - new_pos\<bar> < edge_threshold include_windows increment edge))"

function resist_loop ::
  "(meta_edge \<Rightarrow> bool) \<Rightarrow> meta_edge list \<Rightarrow> bool \<Rightarrow> bool \<Rightarrow> int \<Rightarrow> int \<Rightarrow> int \<Rightarrow> int option" where
  "resist_loop stops edges xdir increasing new_pos i end =
     (if (increasing \<and> i \<le> end) \<or> (\<not> increasing \<and> i \<ge> end)
      then Option.bind (g_array_index edges i) (\<lambda>edge.
             if stops edge then Some (edge_pos xdir edge)
             else resist_loop stops edges xdir increasing new_pos
                    (i + (if increasing then 1 else -1)) end)
      else Some new_pos)"
  by pat_completeness auto
termination
  by (relation "measure (\<lambda>(_, _, _, increasing, _, i, e). nat (if increasing then e + 1 - i else i + 1 - e))")
     auto

declare resist_loop.simps [simp del]

definition apply_edge_resistance ::
  "int \<Rightarrow> int \<Rightarrow> mtk_rectangle \<Rightarrow> mtk_rectangle \<Rightarrow> meta_edge list \<Rightarrow> bool \<Rightarrow> bool \<Rightarrow> bool \<Rightarrow>
   int option" where
  "apply_edge_resistance old_pos new_pos old_rect new_rect edges xdir include_windows keyboard_op =
     (let increasing = new_pos > old_pos
      in if old_pos = new_pos then Some new_pos
         else Option.bind (find_index_of_edge_near_position edges old_pos increasing xdir) (\<lambda>begin.
              Option.bind (find_index_of_edge_near_position edges new_pos (\<not> increasing) xdir) (\<lambda>end.
              let last_edge = int (length edges) - 1
              in resist_loop
                   (edge_stops old_pos new_pos old_rect new_rect xdir include_windows keyboard_op)
                   edges xdir increasing new_pos
                   (CLAMP begin 0 last_edge) (CLAMP end 0 last_edge))))"

definition apply_edge_snapping ::
  "int \<Rightarrow> int \<Rightarrow> mtk_rectangle \<Rightarrow> meta_edge list \<Rightarrow> bool \<Rightarrow> bool \<Rightarrow> int option" where
  "apply_edge_snapping old_pos new_pos new_rect edges xdir keyboard_op =
     (if old_pos = new_pos then Some new_pos
      else map_option
             (\<lambda>snap_to.
                if \<not> keyboard_op \<and> \<bar>snap_to - old_pos\<bar> \<ge> 8 \<and> \<bar>new_pos - old_pos\<bar> < 8
                then old_pos else snap_to)
             (find_nearest_position edges new_pos old_pos new_rect xdir keyboard_op))"

section \<open>All four sides\<close>

text \<open>The snapping points of a tiled window. The point is a \<open>guint\<close>, so the differences are
  taken modulo $2^{32}$ and \<open>ABS\<close> of them is the identity. The product with a \<open>float\<close> fraction
  is exact where the fraction is a binary one and rounds to the integer where three divides the
  width, so its floor is the integer division.\<close>

definition tile_edges :: "(int \<times> int) list" where
  "tile_edges = [(1, 4), (1, 3), (1, 2), (2, 3), (3, 4)]"

definition horizontal_point :: "mtk_rectangle \<Rightarrow> int \<times> int \<Rightarrow> 32 word" where
  "horizontal_point workarea f =
     word_of_int (rect_x workarea + rect_width workarea * fst f div snd f)"

definition tile_step :: "mtk_rectangle \<Rightarrow> int \<times> int \<Rightarrow> int \<times> int \<Rightarrow> int \<times> int" where
  "tile_step workarea f s =
     (let new_left = fst s; new_right = snd s; point = horizontal_point workarea f
      in if point - word_of_int new_left < 16
         then (sint point, rect_x workarea + rect_width workarea)
         else if point - word_of_int new_right < 16 then (rect_x workarea, sint point)
         else s)"

definition apply_tiled :: "mtk_rectangle \<Rightarrow> int \<Rightarrow> int \<Rightarrow> int \<times> int" where
  "apply_tiled workarea left right = fold (tile_step workarea) tile_edges (left, right)"

text \<open>The new left, right, top and bottom.\<close>

definition new_sides ::
  "edge_resistance_data \<Rightarrow> drag_window \<Rightarrow> mtk_rectangle \<Rightarrow> mtk_rectangle \<Rightarrow> resistance_flags \<Rightarrow>
   bool \<Rightarrow> (int \<times> int \<times> int \<times> int) option" where
  "new_sides edge_data window old_outer new_outer flags is_resize =
     (let keyboard_op = flag_keyboard_op flags;
          snapped = (\<lambda>side edges xdir.
            apply_edge_snapping (side old_outer) (side new_outer) new_outer edges xdir keyboard_op);
          resisted = (\<lambda>side edges xdir.
            apply_edge_resistance (side old_outer) (side new_outer) old_outer new_outer edges xdir
              (flag_windows flags) keyboard_op)
      in if flag_snap flags \<and> \<not> tiled_side_by_side window then
           Option.bind (snapped box_left (left_edges edge_data) True) (\<lambda>new_left.
           Option.bind (snapped box_right (right_edges edge_data) True) (\<lambda>new_right.
           Option.bind (snapped box_top (top_edges edge_data) False) (\<lambda>new_top.
           Option.bind (snapped box_bottom (bottom_edges edge_data) False) (\<lambda>new_bottom.
           Some (new_left, new_right, new_top, new_bottom)))))
         else if flag_snap flags then
           (let (new_left, new_right) =
              apply_tiled (current_work_area window) (rect_x new_outer)
                (rect_x new_outer + rect_width new_outer)
            in Some (new_left, new_right, rect_y new_outer, rect_y new_outer + rect_height new_outer))
         else
           Option.bind
             (if \<not> is_resize \<or> width_inc window = 1 then
                Option.bind (resisted box_left (left_edges edge_data) True) (\<lambda>new_left.
                Option.bind (resisted box_right (right_edges edge_data) True) (\<lambda>new_right.
                Some (new_left, new_right)))
              else Some (rect_x new_outer, rect_x new_outer + rect_width new_outer))
             (\<lambda>(new_left, new_right).
           Option.bind
             (if \<not> is_resize \<or> height_inc window = 1 then
                Option.bind (resisted box_top (top_edges edge_data) False) (\<lambda>new_top.
                Option.bind (resisted box_bottom (bottom_edges edge_data) False) (\<lambda>new_bottom.
                Some (new_top, new_bottom)))
              else Some (rect_y new_outer, rect_y new_outer + rect_height new_outer))
             (\<lambda>(new_top, new_bottom). Some (new_left, new_right, new_top, new_bottom))))"

text \<open>The new rectangle, and whether it was modified.\<close>

definition apply_edge_resistance_to_each_side ::
  "edge_resistance_data \<Rightarrow> drag_window \<Rightarrow> mtk_rectangle \<Rightarrow> mtk_rectangle \<Rightarrow> resistance_flags \<Rightarrow>
   bool \<Rightarrow> (mtk_rectangle \<times> bool) option" where
  "apply_edge_resistance_to_each_side edge_data window old_outer new_outer flags is_resize =
     map_option
       (\<lambda>(new_left, new_right, new_top, new_bottom).
          let modified_rect = \<lparr>rect_x = new_left, rect_y = new_top,
                rect_width = new_right - new_left, rect_height = new_bottom - new_top\<rparr>
          in (modified_rect, \<not> mtk_rectangle_equal new_outer modified_rect))
       (new_sides edge_data window old_outer new_outer flags is_resize)"

section \<open>Moving and resizing\<close>

text \<open>The bodies of the two entry points once the edges of the drag are at hand.\<close>

definition smaller_change :: "resistance_flags \<Rightarrow> int \<Rightarrow> int \<Rightarrow> int" where
  "smaller_change flags change1 change2 =
     (if flag_snap flags \<and> flag_keyboard_op flags \<and> change1 = 0 then change2
      else if flag_snap flags \<and> flag_keyboard_op flags \<and> change2 = 0 then change1
      else if \<bar>change1\<bar> < \<bar>change2\<bar> then change1
      else change2)"

definition resist_move ::
  "edge_resistance_data \<Rightarrow> drag_window \<Rightarrow> int \<times> int \<Rightarrow> resistance_flags \<Rightarrow> (int \<times> int) option" where
  "resist_move edge_data window new_pos flags =
     (let old_outer = outer_rect window;
          proposed_outer = old_outer\<lparr>rect_x := fst new_pos, rect_y := snd new_pos\<rparr>
      in map_option
           (\<lambda>(new_outer, modified).
              if \<not> modified then new_pos
              else
                (let reference = (if flag_snap flags \<and> \<not> flag_keyboard_op flags
                       then proposed_outer else old_outer);
                     smaller_x_change = smaller_change flags
                       (box_left new_outer - box_left reference)
                       (box_right new_outer - box_right reference);
                     smaller_y_change = smaller_change flags
                       (box_top new_outer - box_top reference)
                       (box_bottom new_outer - box_bottom reference)
                 in (rect_x old_outer + smaller_x_change + (box_left reference - box_left old_outer),
                     rect_y old_outer + smaller_y_change + (box_top reference - box_top old_outer))))
           (apply_edge_resistance_to_each_side edge_data window old_outer proposed_outer flags False))"

definition resist_resize ::
  "edge_resistance_data \<Rightarrow> drag_window \<Rightarrow> int \<times> int \<Rightarrow> meta_gravity \<Rightarrow> resistance_flags \<Rightarrow>
   (int \<times> int) option" where
  "resist_resize edge_data window new_size gravity flags =
     (let old_outer = outer_rect window;
          new_outer = meta_rectangle_resize_with_gravity old_outer gravity (fst new_size) (snd new_size)
      in map_option
           (\<lambda>(new_outer, modified).
              if modified then (rect_width new_outer, rect_height new_outer) else new_size)
           (apply_edge_resistance_to_each_side edge_data window old_outer new_outer flags True))"

section \<open>The edges a side passes\<close>

text \<open>The loop is a search in a segment of the array, upwards or downwards.\<close>

definition stop_at :: "bool \<Rightarrow> int \<Rightarrow> meta_edge option \<Rightarrow> int" where
  "stop_at xdir new_pos r = (case r of None \<Rightarrow> new_pos | Some e \<Rightarrow> edge_pos xdir e)"

lemma resist_up:
  assumes "0 \<le> i" "e < int (length es)"
  shows "resist_loop P es h True q i e = Some (stop_at h q (find P (drop (nat i) (take (nat (e + 1)) es))))"
  using assms
proof (induction "nat (e + 1 - i)" arbitrary: i)
  case 0
  then show ?case by (simp add: resist_loop.simps [of P es h True q i e] stop_at_def)
next
  case (Suc n)
  then have "i \<le> e" by simp
  moreover have "resist_loop P es h True q (i + 1) e =
      Some (stop_at h q (find P (drop (nat (i + 1)) (take (nat (e + 1)) es))))"
    using Suc by simp
  moreover have "drop (nat i) (take (nat (e + 1)) es) = es ! nat i # drop (nat (i + 1)) (take (nat (e + 1)) es)"
    using Cons_nth_drop_Suc [of "nat i" "take (nat (e + 1)) es"] Suc.prems \<open>i \<le> e\<close>
    by (simp add: nat_add_distrib)
  ultimately show ?case
    using Suc.prems by (simp add: resist_loop.simps [of P es h True q i e] g_array_index_def stop_at_def)
qed

lemma resist_down:
  assumes "0 \<le> e" "i < int (length es)"
  shows "resist_loop P es h False q i e =
    Some (stop_at h q (find P (rev (drop (nat e) (take (nat (i + 1)) es)))))"
  using assms
proof (induction "nat (i + 1 - e)" arbitrary: i)
  case 0
  then show ?case by (simp add: resist_loop.simps [of P es h False q i e] stop_at_def)
next
  case (Suc n)
  then have ei: "e \<le> i" by simp
  have "resist_loop P es h False q (i - 1) e =
      Some (stop_at h q (find P (rev (drop (nat e) (take (nat (i - 1 + 1)) es)))))"
    using Suc by (intro Suc.hyps(1)) auto
  moreover have "rev (drop (nat e) (take (nat (i + 1)) es)) = es ! nat i # rev (drop (nat e) (take (nat i) es))"
  proof -
    have "nat (i + 1) = Suc (nat i)" "nat i < length es" using Suc.prems ei by auto
    then show ?thesis using ei Suc.prems by (simp add: take_Suc_conv_app_nth)
  qed
  ultimately show ?case
    using Suc.prems ei by (simp add: resist_loop.simps [of P es h False q i e] g_array_index_def stop_at_def)
qed

text \<open>The parts of a sorted array on either side of a position.\<close>

lemma sorted_parts:
  assumes "sorted_edges h es"
  shows "take (length (filter (\<lambda>e. edge_pos h e < p) es)) es = filter (\<lambda>e. edge_pos h e < p) es"
    and "drop (length (filter (\<lambda>e. edge_pos h e < p) es)) es = filter (\<lambda>e. p \<le> edge_pos h e) es"
proof -
  have "es = filter (\<lambda>e. edge_pos h e < p) es @ filter (\<lambda>e. p \<le> edge_pos h e) es"
    using assms
  proof (induction es)
    case (Cons e es)
    show ?case
    proof (cases "edge_pos h e < p")
      case False
      then have "filter (\<lambda>e. edge_pos h e < p) es = []" "filter (\<lambda>e. p \<le> edge_pos h e) es = es"
        using Cons.prems by (auto simp: sorted_edges_def filter_empty_conv filter_id_conv)
      with False show ?thesis by simp
    qed (use Cons in \<open>simp add: sorted_edges_def\<close>)
  qed simp
  then show "take (length (filter (\<lambda>e. edge_pos h e < p) es)) es = filter (\<lambda>e. edge_pos h e < p) es"
    and "drop (length (filter (\<lambda>e. edge_pos h e < p) es)) es = filter (\<lambda>e. p \<le> edge_pos h e) es"
    by (metis append_eq_conv_conj)+
qed

lemma sorted_between:
  assumes "sorted_edges h es" "a \<le> b"
  shows "drop (length (filter (\<lambda>e. edge_pos h e < a) es)) (take (length (filter (\<lambda>e. edge_pos h e \<le> b) es)) es) =
    filter (\<lambda>e. a \<le> edge_pos h e \<and> edge_pos h e \<le> b) es"
proof -
  define fs where "fs = filter (\<lambda>e. edge_pos h e \<le> b) es"
  have le: "(\<lambda>e. edge_pos h e \<le> b) = (\<lambda>e. edge_pos h e < b + 1)" by auto
  have "take (length fs) es = fs"
    unfolding fs_def le by (rule sorted_parts(1) [OF assms(1)])
  moreover have "filter (\<lambda>e. edge_pos h e < a) fs = filter (\<lambda>e. edge_pos h e < a) es"
    using assms(2) by (auto simp: fs_def intro: filter_cong)
  moreover have "sorted_edges h fs"
    using assms(1) by (simp add: sorted_edges_def fs_def sorted_filter)
  ultimately have "drop (length (filter (\<lambda>e. edge_pos h e < a) es)) (take (length fs) es) =
      filter (\<lambda>e. a \<le> edge_pos h e) fs"
    using sorted_parts(2) [of h fs a] by simp
  then show ?thesis by (simp add: fs_def conj_commute)
qed

text \<open>The edges between the old and the new position, in the order of the movement.\<close>

definition crossed :: "bool \<Rightarrow> int \<Rightarrow> int \<Rightarrow> meta_edge list \<Rightarrow> meta_edge list" where
  "crossed h old_pos new_pos es =
     (if new_pos > old_pos
      then filter (\<lambda>e. old_pos \<le> edge_pos h e \<and> edge_pos h e \<le> new_pos) es
      else rev (filter (\<lambda>e. new_pos \<le> edge_pos h e \<and> edge_pos h e \<le> old_pos) es))"

lemma filter_length_less:
  "e \<in> set es \<Longrightarrow> \<not> Q e \<Longrightarrow> length (filter Q es) < length es"
  by (rule length_filter_less)

lemma first_resisting_edge:
  assumes "sorted_edges h es" "e \<in> set es" "edge_pos h e \<ge> min old_pos new_pos"
    and "f \<in> set es" "edge_pos h f \<le> max old_pos new_pos" "old_pos \<noteq> new_pos"
  shows "apply_edge_resistance old_pos new_pos old_rect new_rect es h w kb =
    Some (stop_at h new_pos
      (find (edge_stops old_pos new_pos old_rect new_rect h w kb) (crossed h old_pos new_pos es)))"
proof -
  define a b where "a = min old_pos new_pos" and "b = max old_pos new_pos"
  define lo hi where "lo = length (filter (\<lambda>e. edge_pos h e < a) es)"
    and "hi = length (filter (\<lambda>e. edge_pos h e \<le> b) es)"
  let ?P = "edge_stops old_pos new_pos old_rect new_rect h w kb"
  have ne: "es \<noteq> []" using assms(2) by auto
  have lo: "lo < length es"
    unfolding lo_def using assms(2,3) by (intro filter_length_less [of e]) (auto simp: a_def min_le_iff_disj)
  have hi: "0 < hi" "hi \<le> length es"
    using assms(4,5) by (auto simp: hi_def b_def filter_empty_conv)
  have lo_index: "CLAMP (int lo) 0 (int (length es) - 1) = int lo"
    and hi_index: "CLAMP (int hi - 1) 0 (int (length es) - 1) = int hi - 1"
    using lo hi by (simp_all add: CLAMP_def)
  have between: "drop lo (take hi es) = filter (\<lambda>e. a \<le> edge_pos h e \<and> edge_pos h e \<le> b) es"
    unfolding lo_def hi_def by (rule sorted_between [OF assms(1)]) (simp add: a_def b_def)
  have amin: "find_index_of_edge_near_position es a True h = Some (int lo)"
    and bmax: "find_index_of_edge_near_position es b False h = Some (int hi - 1)"
    unfolding lo_def hi_def by (rule find_index_min find_index_max; rule ne assms(1))+
  show ?thesis
  proof (cases "new_pos > old_pos")
    case True
    then have "a = old_pos" "b = new_pos" by (simp_all add: a_def b_def)
    then show ?thesis
      using True amin bmax lo_index hi_index hi between resist_up [of "int lo" "int hi - 1" es ?P h new_pos]
      by (simp add: apply_edge_resistance_def Let_def crossed_def)
  next
    case False
    then have "a = new_pos" "b = old_pos" by (simp_all add: a_def b_def)
    then show ?thesis
      using False assms(6) amin bmax lo_index hi_index hi between
        resist_down [of "int lo" "int hi - 1" es ?P h new_pos]
      by (simp add: apply_edge_resistance_def Let_def crossed_def)
  qed
qed

section \<open>Bounds\<close>

lemma edge_threshold_le: "edge_threshold w i e \<le> 32"
  by (simp add: edge_threshold_def split: meta_edge_type.split)

text \<open>What one side may become: it stays where it is if it was not moved; the keyboard moves it no
  further than proposed, and the pointer ends less than 32 pixels from the proposed position.\<close>

definition held_back :: "bool \<Rightarrow> int \<Rightarrow> int \<Rightarrow> int \<Rightarrow> bool" where
  "held_back keyboard_op old_pos new_pos q \<longleftrightarrow>
     (if old_pos = new_pos then q = new_pos
      else if keyboard_op then min old_pos new_pos \<le> q \<and> q \<le> max old_pos new_pos
      else \<bar>q - new_pos\<bar> < 32)"

lemma held_back_self [simp]: "held_back kb a b b"
  by (simp add: held_back_def)

lemma held_back_still [simp]: "held_back kb a a q \<longleftrightarrow> q = a"
  by (simp add: held_back_def)

lemma edge_stops_held:
  "old_pos \<noteq> new_pos \<Longrightarrow> edge_stops old_pos new_pos r r' h w kb e \<Longrightarrow> held_back kb old_pos new_pos (edge_pos h e)"
  using edge_threshold_le [of w "if new_pos > old_pos then 1 else -1" e]
  by (auto simp: edge_stops_def held_back_def Let_def split: if_splits)

lemma resistance_held_back:
  assumes "es \<noteq> []"
  shows "\<exists>q. apply_edge_resistance old_pos new_pos r r' es h w kb = Some q \<and>
    held_back kb old_pos new_pos q"
proof (cases "old_pos = new_pos")
  case True
  then show ?thesis by (simp add: apply_edge_resistance_def held_back_def)
next
  case False
  define up where "up \<longleftrightarrow> new_pos > old_pos"
  let ?P = "edge_stops old_pos new_pos r r' h w kb"
  from find_index_range [OF assms] obtain i j where
    i: "find_index_of_edge_near_position es old_pos up h = Some i"
    and j: "find_index_of_edge_near_position es new_pos (\<not> up) h = Some j" by meson
  define i' j' where "i' = CLAMP i 0 (int (length es) - 1)" and "j' = CLAMP j 0 (int (length es) - 1)"
  have in_range: "0 \<le> i'" "i' < int (length es)" "0 \<le> j'" "j' < int (length es)"
    using assms by (auto simp: i'_def j'_def CLAMP_def Suc_le_eq)
  obtain fs where loop: "resist_loop ?P es h up new_pos i' j' = Some (stop_at h new_pos (find ?P fs))"
    using resist_up [of i' j' es ?P h new_pos] resist_down [of j' i' es ?P h new_pos] in_range
    by (cases up) auto
  have "held_back kb old_pos new_pos new_pos" by (simp add: held_back_def)
  moreover have "held_back kb old_pos new_pos (edge_pos h e)" if "find ?P fs = Some e" for e
    using that by (auto simp: find_Some_iff intro: edge_stops_held [OF False])
  ultimately have "held_back kb old_pos new_pos (stop_at h new_pos (find ?P fs))"
    by (cases "find ?P fs") (auto simp: stop_at_def)
  with False i j loop show ?thesis
    by (simp add: apply_edge_resistance_def Let_def up_def i'_def j'_def)
qed

text \<open>The arrays of a drag, each with an edge: the screen's own edges are always in them.\<close>

definition edges_everywhere :: "edge_resistance_data \<Rightarrow> bool" where
  "edges_everywhere d \<longleftrightarrow>
     left_edges d \<noteq> [] \<and> right_edges d \<noteq> [] \<and> top_edges d \<noteq> [] \<and> bottom_edges d \<noteq> []"

lemma sides_held_back:
  assumes "edges_everywhere d" "\<not> flag_snap fl"
  shows "\<exists>l r t b. new_sides d w old new fl resize = Some (l, r, t, b) \<and>
    held_back (flag_keyboard_op fl) (box_left old) (box_left new) l \<and>
    held_back (flag_keyboard_op fl) (box_right old) (box_right new) r \<and>
    held_back (flag_keyboard_op fl) (box_top old) (box_top new) t \<and>
    held_back (flag_keyboard_op fl) (box_bottom old) (box_bottom new) b"
proof -
  note R = resistance_held_back [where r = old and r' = new and w = "flag_windows fl" and kb = "flag_keyboard_op fl"]
  from assms(1) have ne: "left_edges d \<noteq> []" "right_edges d \<noteq> []" "top_edges d \<noteq> []" "bottom_edges d \<noteq> []"
    by (simp_all add: edges_everywhere_def)
  from R [OF ne(1), of "box_left old" "box_left new" True]
    R [OF ne(2), of "box_right old" "box_right new" True]
    R [OF ne(3), of "box_top old" "box_top new" False]
    R [OF ne(4), of "box_bottom old" "box_bottom new" False]
  show ?thesis using assms(2) by (auto simp: new_sides_def Let_def held_back_self box_defs)
qed

lemma held_back_shift:
  "held_back kb (a + k) (b + k) q \<longleftrightarrow> held_back kb a b (q - k)"
  by (auto simp: held_back_def)

lemma held_back_mirror:
  "held_back kb (k - a) (k - b) q \<longleftrightarrow> held_back kb a b (k - q)"
  by (auto simp: held_back_def)

lemma smaller_change_either: "smaller_change fl c d = c \<or> smaller_change fl c d = d"
  by (simp add: smaller_change_def)

text \<open>A move keeps the size, so that both sides of the window stand for its position.\<close>

lemma move_held_back:
  assumes "edges_everywhere d" "\<not> flag_snap fl"
  shows "\<exists>x y. resist_move d w (px, py) fl = Some (x, y) \<and>
    held_back (flag_keyboard_op fl) (rect_x (outer_rect w)) px x \<and>
    held_back (flag_keyboard_op fl) (rect_y (outer_rect w)) py y"
proof -
  let ?kb = "flag_keyboard_op fl"
  define old where "old = outer_rect w"
  define new where "new = old\<lparr>rect_x := px, rect_y := py\<rparr>"
  from sides_held_back [OF assms, where resize = False and w = w and old = old and new = new] obtain l r t b where
    s: "new_sides d w old new fl False = Some (l, r, t, b)"
      "held_back ?kb (box_left old) (box_left new) l" "held_back ?kb (box_right old) (box_right new) r"
      "held_back ?kb (box_top old) (box_top new) t" "held_back ?kb (box_bottom old) (box_bottom new) b"
    by auto
  have x: "held_back ?kb (rect_x old) px l" "held_back ?kb (rect_x old) px (r - rect_width old)"
    and y: "held_back ?kb (rect_y old) py t" "held_back ?kb (rect_y old) py (b - rect_height old)"
    using s(2-5) by (simp_all add: new_def box_defs held_back_shift)
  define cx cy where "cx = smaller_change fl (l - box_left old) (r - box_right old)"
    and "cy = smaller_change fl (t - box_top old) (b - box_bottom old)"
  have "rect_x old + cx = l \<or> rect_x old + cx = r - rect_width old"
    "rect_y old + cy = t \<or> rect_y old + cy = b - rect_height old"
    using smaller_change_either [of fl "l - box_left old" "r - box_right old", folded cx_def]
      smaller_change_either [of fl "t - box_top old" "b - box_bottom old", folded cy_def]
    by (auto simp: box_defs)
  then have c: "held_back ?kb (rect_x old) px (rect_x old + cx)" "held_back ?kb (rect_y old) py (rect_y old + cy)"
    using x y by metis+
  have "resist_move d w (px, py) fl = Some (px, py) \<or>
      resist_move d w (px, py) fl = Some (rect_x old + cx, rect_y old + cy)"
    using s(1) assms(2)
    by (simp add: resist_move_def apply_edge_resistance_to_each_side_def Let_def
        old_def new_def cx_def cy_def box_defs)
  then show ?thesis using c held_back_self unfolding old_def by blast
qed

text \<open>Along an axis whose gravity keeps one side, a resize is held back in the size.\<close>

lemma axis_held_back:
  assumes "resize_axis g pos len plen = (npos, nlen)" "g \<noteq> Mid \<or> plen = len"
    and "held_back kb pos npos l" "held_back kb (pos + len) (npos + nlen) r"
  shows "nlen = plen" and "held_back kb len plen (r - l)"
proof -
  show "nlen = plen" using assms(1,2) by (cases g) (auto simp: Let_def)
  show "held_back kb len plen (r - l)"
  proof (cases g)
    case Low
    then have "l = pos" "held_back kb (len + pos) (plen + pos) r"
      using assms by (simp_all add: add.commute)
    then show ?thesis by (simp add: held_back_shift)
  next
    case High
    then have e: "npos = pos + len - plen" "npos + nlen = pos + len" using assms(1) by auto
    have "r = pos + len" using assms(4) unfolding e(2) by simp
    moreover have "held_back kb (pos + len - len) (pos + len - plen) l"
      using assms(3) unfolding e(1) by simp
    ultimately show ?thesis using held_back_mirror [of kb "pos + len" len plen l] by simp
  next
    case Mid
    then have "plen = len" "npos = pos" "nlen = len" using assms(1,2) by (auto simp: Let_def)
    then show ?thesis using assms(3,4) by simp
  qed
qed

lemma resize_held_back:
  assumes "edges_everywhere d" "\<not> flag_snap fl"
  shows "\<exists>rw rh. resist_resize d w (pw, ph) g fl = Some (rw, rh) \<and>
    (gravity_axis_x g \<noteq> Mid \<or> pw = rect_width (outer_rect w) \<longrightarrow>
       held_back (flag_keyboard_op fl) (rect_width (outer_rect w)) pw rw) \<and>
    (gravity_axis_y g \<noteq> Mid \<or> ph = rect_height (outer_rect w) \<longrightarrow>
       held_back (flag_keyboard_op fl) (rect_height (outer_rect w)) ph rh)"
proof -
  let ?kb = "flag_keyboard_op fl"
  define old where "old = outer_rect w"
  obtain nx nw where ax: "resize_axis (gravity_axis_x g) (rect_x old) (rect_width old) pw = (nx, nw)" by fastforce
  obtain ny nh where ay: "resize_axis (gravity_axis_y g) (rect_y old) (rect_height old) ph = (ny, nh)" by fastforce
  define new where "new = meta_rectangle_resize_with_gravity old g pw ph"
  have new: "new = \<lparr>rect_x = nx, rect_y = ny, rect_width = nw, rect_height = nh\<rparr>"
    by (simp add: new_def meta_rectangle_resize_with_gravity_def ax ay)
  from sides_held_back [OF assms, where resize = True and w = w and old = old and new = new] obtain l r t b where
    s: "new_sides d w old new fl True = Some (l, r, t, b)"
      "held_back ?kb (box_left old) (box_left new) l" "held_back ?kb (box_right old) (box_right new) r"
      "held_back ?kb (box_top old) (box_top new) t" "held_back ?kb (box_bottom old) (box_bottom new) b"
    by auto
  have x: "held_back ?kb (rect_width old) pw (r - l)" if "gravity_axis_x g \<noteq> Mid \<or> pw = rect_width old"
    using axis_held_back(2) [OF ax that] s(2,3) by (simp add: new box_defs)
  have y: "held_back ?kb (rect_height old) ph (b - t)" if "gravity_axis_y g \<noteq> Mid \<or> ph = rect_height old"
    using axis_held_back(2) [OF ay that] s(4,5) by (simp add: new box_defs)
  have "resist_resize d w (pw, ph) g fl = Some (pw, ph) \<or>
      resist_resize d w (pw, ph) g fl = Some (r - l, b - t)"
    using s(1)
    by (simp add: resist_resize_def apply_edge_resistance_to_each_side_def Let_def
        old_def [symmetric] new_def [symmetric])
  then show ?thesis using x y unfolding old_def by auto
qed

section \<open>Snapping\<close>

text \<open>A keyboard snap goes to an edge at the proposed position or beyond it, or stays.\<close>

lemma snap_forward:
  assumes "es \<noteq> []" "old_pos \<noteq> new_pos"
  shows "\<exists>q. apply_edge_snapping old_pos new_pos r es h True = Some q \<and>
    (q = old_pos \<or> (\<exists>e\<in>set es. q = edge_pos h e) \<and>
       (if new_pos > old_pos then new_pos \<le> q else q \<le> new_pos))"
proof -
  from find_nearest_result [OF assms(1), of new_pos old_pos r h True] obtain q where
    q: "find_nearest_position es new_pos old_pos r h True = Some q"
      "q = old_pos \<or> (\<exists>e\<in>set es. snaps_to new_pos old_pos r h True e \<and> q = edge_pos h e)" by blast
  have "if new_pos > old_pos then new_pos \<le> q else q \<le> new_pos"
    if "\<not> points_on_same_side new_pos q old_pos"
    using that assms(2) by (auto simp: points_on_same_side_def zero_less_mult_iff not_less)
  with q assms(2) show ?thesis by (auto simp: apply_edge_snapping_def snaps_to_def)
qed

text \<open>A pointer snap stays where it is proposed when that is on an edge the window meets.\<close>

lemma snap_exact:
  assumes "sorted_edges h es" "e \<in> set es" "edge_pos h e = new_pos" "side_aligns h r e"
    and "vertical_side (side_type e) = h" "kb \<or> old_pos = new_pos \<or> 8 \<le> \<bar>new_pos - old_pos\<bar>"
  shows "apply_edge_snapping old_pos new_pos r es h kb = Some new_pos"
  using find_nearest_exact [OF assms(1-5)] assms(6) by (auto simp: apply_edge_snapping_def)

text \<open>A tiled window: the difference of the point and the side is unsigned, so only a point that is
  at most 15 to the right of the side is near it.\<close>

lemma near_point:
  assumes "0 \<le> a" "a < 2 ^ 31" "0 \<le> b" "b < 2 ^ 31"
  shows "(word_of_int a :: 32 word) - word_of_int b < 16 \<longleftrightarrow> 0 \<le> a - b \<and> a - b < 16"
proof -
  have "uint ((word_of_int a :: 32 word) - word_of_int b) = (a - b) mod 2 ^ 32"
    unfolding wi_hom_sub uint_word_of_int by simp
  then have "(word_of_int a :: 32 word) - word_of_int b < 16 \<longleftrightarrow> (a - b) mod 2 ^ 32 < 16"
    unfolding word_less_def by simp
  also have "\<dots> \<longleftrightarrow> 0 \<le> a - b \<and> a - b < 16"
  proof (cases "0 \<le> a - b")
    case False
    then have "(a - b) mod 2 ^ 32 = a - b + 2 ^ 32"
      using assms mod_pos_pos_trivial [of "a - b + 2 ^ 32" "2 ^ 32"] by simp
    then show ?thesis using assms False by simp
  qed (use assms in simp)
  finally show ?thesis .
qed

lemma tile_step_sides:
  assumes "0 \<le> p" "p < 2 ^ 31" "0 \<le> left" "left < 2 ^ 31" "0 \<le> right" "right < 2 ^ 31"
    and "p = rect_x wa + rect_width wa * fst f div snd f"
  shows "tile_step wa f (left, right) =
    (if left \<le> p \<and> p < left + 16 then (p, rect_x wa + rect_width wa)
     else if right \<le> p \<and> p < right + 16 then (rect_x wa, p)
     else (left, right))"
proof -
  have "sint (horizontal_point wa f) = p"
    using assms(1,2) by (simp add: horizontal_point_def assms(7) [symmetric] sint_sbintrunc' signed_take_bit_int_eq_self)
  moreover have "horizontal_point wa f - word_of_int q < 16 \<longleftrightarrow> q \<le> p \<and> p < q + 16"
    if "0 \<le> q" "q < 2 ^ 31" for q
    using near_point [OF assms(1,2) that] by (auto simp: horizontal_point_def assms(7) [symmetric])
  ultimately show ?thesis using assms(3-6) by (simp add: tile_step_def Let_def)
qed

section \<open>Examples\<close>

text \<open>A screen of 1000 by 800 and the sides of windows at 5, 11 and 20.\<close>

definition vertical_edge :: "int \<Rightarrow> meta_side \<Rightarrow> meta_edge_type \<Rightarrow> meta_edge" where
  "vertical_edge x s ty =
     \<lparr>edge_rect = \<lparr>rect_x = x, rect_y = 0, rect_width = 0, rect_height = 800\<rparr>, side_type = s, edge_type = ty\<rparr>"

definition horizontal_edge :: "int \<Rightarrow> meta_side \<Rightarrow> meta_edge_type \<Rightarrow> meta_edge" where
  "horizontal_edge y s ty =
     \<lparr>edge_rect = \<lparr>rect_x = 0, rect_y = y, rect_width = 1000, rect_height = 0\<rparr>, side_type = s, edge_type = ty\<rparr>"

definition ex_edges :: edge_resistance_data where
  "ex_edges =
     (let xs = [vertical_edge 0 META_SIDE_LEFT META_EDGE_SCREEN, vertical_edge 5 META_SIDE_LEFT META_EDGE_WINDOW,
                vertical_edge 11 META_SIDE_LEFT META_EDGE_WINDOW, vertical_edge 20 META_SIDE_LEFT META_EDGE_WINDOW,
                vertical_edge 1000 META_SIDE_RIGHT META_EDGE_SCREEN];
          ys = [horizontal_edge 0 META_SIDE_TOP META_EDGE_SCREEN, horizontal_edge 800 META_SIDE_BOTTOM META_EDGE_SCREEN]
      in \<lparr>left_edges = xs, right_edges = xs, top_edges = ys, bottom_edges = ys\<rparr>)"

lemma ex_left_edges:
  "left_edges ex_edges =
     [vertical_edge 0 META_SIDE_LEFT META_EDGE_SCREEN, vertical_edge 5 META_SIDE_LEFT META_EDGE_WINDOW,
      vertical_edge 11 META_SIDE_LEFT META_EDGE_WINDOW, vertical_edge 20 META_SIDE_LEFT META_EDGE_WINDOW,
      vertical_edge 1000 META_SIDE_RIGHT META_EDGE_SCREEN]"
  by (simp add: ex_edges_def Let_def)

definition ex_window :: "int \<Rightarrow> drag_window" where
  "ex_window x =
     \<lparr>outer_rect = \<lparr>rect_x = x, rect_y = 100, rect_width = 200, rect_height = 100\<rparr>,
      tiled_side_by_side = False,
      current_work_area = \<lparr>rect_x = 0, rect_y = 0, rect_width = 1000, rect_height = 800\<rparr>,
      width_inc = 1, height_inc = 1\<rparr>"

text \<open>The search for the nearest edge ends at 0, and its first edge upwards is 5, not 11.\<close>

lemma nearest_edge_missed:
  "find_nearest_position (left_edges ex_edges) 10 100
     \<lparr>rect_x = 10, rect_y = 100, rect_width = 200, rect_height = 100\<rparr> True False = Some 5"
  "vertical_edge 11 META_SIDE_LEFT META_EDGE_WINDOW \<in> set (left_edges ex_edges)"
  by code_simp+

text \<open>The right side is past the last edge already, and is made to go one pixel further: no edge is
  passed, but the last one is looked at, and the window shrinks by 20 pixels to it.\<close>

lemma pulled_back_to_last_edge:
  "resist_resize ex_edges (ex_window 820) (201, 100) META_GRAVITY_WEST
     \<lparr>flag_snap = False, flag_keyboard_op = False, flag_windows = True\<rparr> = Some (180, 100)"
  by code_simp

text \<open>A tiled window snaps to the middle from the left of it, and not from one pixel to the right.\<close>

lemma tiled_snap_one_sided:
  "apply_tiled \<lparr>rect_x = 0, rect_y = 0, rect_width = 1000, rect_height = 800\<rparr> 0 490 = (0, 500)"
  "apply_tiled \<lparr>rect_x = 0, rect_y = 0, rect_width = 1000, rect_height = 800\<rparr> 0 501 = (0, 501)"
  by code_simp+

end
