(* ===== verification/Meta_Stack.thy ===== *)
theory Meta_Stack
  imports Meta_Display
begin

text \<open>
  The window stack (\<open>mutter/src/core/stack.c\<close>), which assigns the layers and stack positions
  that \<open>Meta_Display\<close> reads, with the layers of \<open>window.c\<close> and \<open>x11/window-x11.c\<close> and the
  operations of \<open>window.c\<close> that restack. A \<open>MetaWindow *\<close> is the number of the window object
  and \<open>windows\<close> dereferences it. A \<open>Constraint *\<close> is the pair of its windows, above and below,
  which is unique because duplicates are not added. An access outside the array of constraints,
  a dangling constraint and a failed \<open>g_assert\<close> are \<^const>\<open>None\<close>; a failed
  \<open>g_return_if_fail\<close> returns the state as it is.
\<close>

section \<open>State\<close>

record managed_window = meta_window +
  client_x11 :: bool
  surface_has_buffer :: bool
  wm_state_below :: bool
  wm_state_above :: bool
  maximized :: bool
  on_fullscreen_monitor :: bool
  win_group :: "nat option"
  unmanaging :: bool
  transient_for :: "window option"

datatype stack_signal = Changed | Window_added window | Window_removed window

record meta_stack =
  windows :: "window \<Rightarrow> managed_window"
  group_windows :: "nat \<Rightarrow> window list"
  active_workspace :: workspace
  sorted_windows :: "window list"
  freeze_count :: int
  n_positions :: int
  need_resort :: bool
  need_relayer :: bool
  need_constrain :: bool
  stack_signals :: "stack_signal list"

definition meta_stack_new ::
  "(window \<Rightarrow> managed_window) \<Rightarrow> (nat \<Rightarrow> window list) \<Rightarrow> workspace \<Rightarrow> meta_stack" where
  "meta_stack_new ws gs active =
     \<lparr>windows = ws, group_windows = gs, active_workspace = active, sorted_windows = [],
      freeze_count = 0, n_positions = 0, need_resort = False, need_relayer = False,
      need_constrain = False, stack_signals = []\<rparr>"

abbreviation position :: "meta_stack \<Rightarrow> window \<Rightarrow> int" where
  "position st w \<equiv> stack_position (windows st w)"

abbreviation layer :: "meta_stack \<Rightarrow> window \<Rightarrow> int" where
  "layer st w \<equiv> stack_layer (windows st w)"

definition set_position :: "window \<Rightarrow> int \<Rightarrow> meta_stack \<Rightarrow> meta_stack" where
  "set_position w p st = st\<lparr>windows := (windows st)(w := (windows st w)\<lparr>stack_position := p\<rparr>)\<rparr>"

definition set_layer :: "window \<Rightarrow> int \<Rightarrow> meta_stack \<Rightarrow> meta_stack" where
  "set_layer w k st = st\<lparr>windows := (windows st)(w := (windows st w)\<lparr>stack_layer := k\<rparr>)\<rparr>"

definition emit :: "stack_signal \<Rightarrow> meta_stack \<Rightarrow> meta_stack" where
  "emit s st = st\<lparr>stack_signals := stack_signals st @ [s]\<rparr>"

section \<open>Windows and their layers\<close>

definition meta_window_has_transient_type :: "managed_window \<Rightarrow> bool" where
  "meta_window_has_transient_type w \<longleftrightarrow>
     win_type w = META_WINDOW_DIALOG \<or> win_type w = META_WINDOW_MODAL_DIALOG \<or>
     win_type w = META_WINDOW_TOOLBAR \<or> win_type w = META_WINDOW_MENU \<or>
     win_type w = META_WINDOW_UTILITY"

definition window_transient_for_whole_group :: "managed_window \<Rightarrow> bool" where
  "window_transient_for_whole_group w \<longleftrightarrow>
     meta_window_has_transient_type w \<and> transient_for w = None"

definition meta_window_is_in_stack :: "managed_window \<Rightarrow> bool" where
  "meta_window_is_in_stack w \<longleftrightarrow> stack_position w \<ge> 0"

text \<open>The two implementations of \<open>is_stackable\<close>.\<close>

definition meta_window_is_stackable :: "managed_window \<Rightarrow> bool" where
  "meta_window_is_stackable w \<longleftrightarrow>
     (if client_x11 w then \<not> override_redirect w else surface_has_buffer w)"

definition META_LAYER_DESKTOP :: int where "META_LAYER_DESKTOP = 0"
definition META_LAYER_BOTTOM :: int where "META_LAYER_BOTTOM = 1"
definition META_LAYER_NORMAL :: int where "META_LAYER_NORMAL = 2"
definition META_LAYER_TOP :: int where "META_LAYER_TOP = 4"
definition META_LAYER_DOCK :: int where "META_LAYER_DOCK = 4"
definition META_LAYER_OVERRIDE_REDIRECT :: int where "META_LAYER_OVERRIDE_REDIRECT = 7"

lemmas layer_values = META_LAYER_DESKTOP_def META_LAYER_BOTTOM_def META_LAYER_NORMAL_def
  META_LAYER_TOP_def META_LAYER_DOCK_def META_LAYER_OVERRIDE_REDIRECT_def

definition meta_window_get_default_layer :: "managed_window \<Rightarrow> int" where
  "meta_window_get_default_layer w =
     (if wm_state_below w then META_LAYER_BOTTOM
      else if wm_state_above w \<and> \<not> maximized w then META_LAYER_TOP
      else if win_type w = META_WINDOW_DESKTOP then META_LAYER_DESKTOP
      else if win_type w = META_WINDOW_DOCK
      then (if on_fullscreen_monitor w then META_LAYER_BOTTOM else META_LAYER_DOCK)
      else META_LAYER_NORMAL)"

definition get_standalone_layer :: "managed_window \<Rightarrow> int" where
  "get_standalone_layer w =
     (if win_type w \<in> {META_WINDOW_DROPDOWN_MENU, META_WINDOW_POPUP_MENU, META_WINDOW_TOOLTIP,
           META_WINDOW_NOTIFICATION, META_WINDOW_COMBO, META_WINDOW_OVERRIDE_OTHER}
      then META_LAYER_OVERRIDE_REDIRECT
      else meta_window_get_default_layer w)"

definition group_members :: "meta_stack \<Rightarrow> managed_window \<Rightarrow> window list" where
  "group_members st w = (case win_group w of None \<Rightarrow> [] | Some g \<Rightarrow> group_windows st g)"

definition get_maximum_layer_in_group :: "meta_stack \<Rightarrow> managed_window \<Rightarrow> int" where
  "get_maximum_layer_in_group st w =
     fold (\<lambda>v m. let l = get_standalone_layer (windows st v)
                 in if \<not> override_redirect (windows st v) \<and> l > m then l else m)
       (group_members st w) META_LAYER_DESKTOP"

text \<open>The two implementations of \<open>calculate_layer\<close>.\<close>

definition meta_window_calculate_layer :: "meta_stack \<Rightarrow> managed_window \<Rightarrow> int" where
  "meta_window_calculate_layer st w =
     (if client_x11 w then
        (let l = get_standalone_layer w
         in if l \<noteq> META_LAYER_DESKTOP \<and> meta_window_has_transient_type w \<and> transient_for w = None
            then (let group_max = get_maximum_layer_in_group st w
                  in if group_max > l then group_max else l)
            else l)
      else meta_window_get_default_layer w)"

section \<open>Positions\<close>

definition shift_position :: "int \<Rightarrow> int \<Rightarrow> int \<Rightarrow> window \<Rightarrow> meta_stack \<Rightarrow> meta_stack" where
  "shift_position low high delta w st =
     (if low \<le> position st w \<and> position st w \<le> high
      then set_position w (position st w + delta) st else st)"

definition meta_window_set_stack_position_no_sync ::
  "meta_stack \<Rightarrow> window \<Rightarrow> int \<Rightarrow> meta_stack" where
  "meta_window_set_stack_position_no_sync st w p =
     (if position st w < 0 \<or> p < 0 \<or> p \<ge> n_positions st then st
      else if p = position st w then st
      else
        (let (low, high, delta) =
               (if p < position st w then (p, position st w - 1, 1)
                else (position st w + 1, p, - 1));
             st1 = st\<lparr>need_resort := True, need_constrain := True\<rparr>
         in set_position w p (fold (shift_position low high delta) (sorted_windows st1) st1)))"

section \<open>Stacking constraints\<close>

type_synonym constraint = "window \<times> window"

definition add_constraint ::
  "meta_stack \<Rightarrow> window \<Rightarrow> window \<Rightarrow> constraint list list \<Rightarrow> constraint list list option" where
  "add_constraint st a b cs =
     (let i = position st b
      in if 0 \<le> i \<and> nat i < length cs
         then Some (if list_ex (\<lambda>c. fst c = a) (cs ! nat i) then cs
                    else cs[nat i := (a, b) # cs ! nat i])
         else None)"

definition constrain_window ::
  "meta_stack \<Rightarrow> window \<Rightarrow> constraint list list \<Rightarrow> constraint list list option" where
  "constrain_window st w cs =
     (if \<not> meta_window_is_in_stack (windows st w) then Some cs
      else if window_transient_for_whole_group (windows st w)
      then fold_opt (\<lambda>v cs.
             if \<not> meta_window_is_in_stack (windows st v) \<or> override_redirect (windows st v) then Some cs
             else if \<not> meta_window_has_transient_type (windows st v) then add_constraint st w v cs
             else Some cs)
           (if client_x11 (windows st w) then group_members st (windows st w) else []) cs
      else (case transient_for (windows st w) of
              None \<Rightarrow> Some cs
            | Some parent \<Rightarrow>
                if meta_window_is_in_stack (windows st parent)
                then add_constraint st w parent cs else Some cs))"

definition create_constraints ::
  "meta_stack \<Rightarrow> window list \<Rightarrow> constraint list list \<Rightarrow> constraint list list option" where
  "create_constraints st ws cs = fold_opt (constrain_window st) ws cs"

text \<open>The graph: the next nodes of a constraint, and whether it has a previous one. The array
  is indexed by the positions at the time the graph is built.\<close>

record constraint_graph =
  next_nodes :: "constraint \<Rightarrow> constraint list"
  has_prev :: "constraint \<Rightarrow> bool"

definition graph_constraints ::
  "meta_stack \<Rightarrow> constraint list list \<Rightarrow> constraint_graph option" where
  "graph_constraints st cs =
     (if list_all (\<lambda>i. list_all (\<lambda>c. position st (snd c) = int i \<and> 0 \<le> position st (fst c) \<and>
             nat (position st (fst c)) < length cs) (cs ! i)) [0..<length cs]
      then Some \<lparr>next_nodes = (\<lambda>c. rev (cs ! nat (position st (fst c)))),
                 has_prev = (\<lambda>n. list_ex (\<lambda>c. List.member (cs ! nat (position st (fst c))) n) (concat cs))\<rparr>
      else None)"

definition ensure_above :: "meta_stack \<Rightarrow> window \<Rightarrow> window \<Rightarrow> meta_stack option" where
  "ensure_above st a b =
     (let is_transient = meta_window_has_transient_type (windows st a) \<or>
            transient_for (windows st a) = Some b;
          st1 = (if is_transient \<and> layer st a < layer st b
                 then set_layer a (layer st b) st else st)
      in if position st1 a < position st1 b
         then (let st2 = meta_window_set_stack_position_no_sync st1 a (position st1 b)
               in if position st2 b + 1 = position st2 a then Some st2 else None)
         else Some st1)"

text \<open>\<open>traverse_constraint\<close> calls itself on each next node in turn: the nodes still to be
  visited are kept in a list, the next nodes of the one just applied in front.\<close>

function traverse_constraint ::
  "constraint list \<Rightarrow> (constraint \<Rightarrow> constraint list) \<Rightarrow> constraint list \<Rightarrow> constraint list \<Rightarrow>
   meta_stack \<Rightarrow> meta_stack option" where
  "traverse_constraint nodes nexts applied [] st = Some st"
| "traverse_constraint nodes nexts applied (c # todo) st =
     (if c \<in> set applied then traverse_constraint nodes nexts applied todo st
      else if c \<notin> set nodes then None
      else case ensure_above st (fst c) (snd c) of
          None \<Rightarrow> None
        | Some st' \<Rightarrow> traverse_constraint nodes nexts (c # applied) (nexts c @ todo) st')"
  by pat_completeness auto

termination
proof (relation "inv_image (finite_psubset <*lex*> measure length)
    (\<lambda>(nodes, nexts, applied, todo, st). (set nodes - set applied, todo))")
  show "wf (inv_image (finite_psubset <*lex*> measure length)
    (\<lambda>(nodes, nexts, applied, todo, st). (set nodes - set applied, todo)))"
    by (intro wf_inv_image wf_lex_prod wf_finite_psubset wf_measure)
qed (auto simp: finite_psubset_def)

definition apply_constraints ::
  "constraint list list \<Rightarrow> constraint_graph \<Rightarrow> meta_stack \<Rightarrow> meta_stack option" where
  "apply_constraints cs g st =
     (let heads = rev (filter (\<lambda>c. \<not> has_prev g c) (concat cs))
      in traverse_constraint (concat cs) (next_nodes g) [] heads st)"

section \<open>Keeping the stack sorted\<close>

definition relayer_step :: "window \<Rightarrow> meta_stack \<Rightarrow> meta_stack" where
  "relayer_step w st =
     (let old_layer = layer st w;
          new_layer = meta_window_calculate_layer st (windows st w);
          st1 = set_layer w new_layer st
      in if new_layer \<noteq> old_layer then st1\<lparr>need_resort := True, need_constrain := True\<rparr> else st1)"

definition stack_do_relayer :: "meta_stack \<Rightarrow> meta_stack" where
  "stack_do_relayer st =
     (if \<not> need_relayer st then st
      else (fold relayer_step (sorted_windows st) st)\<lparr>need_relayer := False\<rparr>)"

definition stack_do_constrain :: "meta_stack \<Rightarrow> meta_stack option" where
  "stack_do_constrain st =
     (if \<not> need_constrain st then Some st
      else Option.bind (create_constraints st (sorted_windows st) (replicate (nat (n_positions st)) []))
        (\<lambda>cs. Option.bind (graph_constraints st cs)
          (\<lambda>g. map_option (need_constrain_update (\<lambda>_. False)) (apply_constraints cs g st))))"

definition compare_window_position :: "meta_stack \<Rightarrow> window \<Rightarrow> window \<Rightarrow> int" where
  "compare_window_position st a b =
     meta_window_stack_position_compare
       (meta_window.truncate (windows st b)) (meta_window.truncate (windows st a))"

definition stack_do_resort :: "meta_stack \<Rightarrow> meta_stack" where
  "stack_do_resort st =
     (if \<not> need_resort st then st
      else st\<lparr>need_resort := False,
              sorted_windows := g_list_sort (compare_window_position st) (sorted_windows st)\<rparr>)"

definition meta_stack_ensure_sorted :: "meta_stack \<Rightarrow> meta_stack option" where
  "meta_stack_ensure_sorted st = map_option stack_do_resort (stack_do_constrain (stack_do_relayer st))"

definition meta_stack_changed :: "meta_stack \<Rightarrow> meta_stack option" where
  "meta_stack_changed st =
     (if freeze_count st > 0 then Some st
      else map_option (emit Changed) (meta_stack_ensure_sorted st))"

text \<open>Only the sorting that \<open>meta_stack_list_windows\<close> does: tile matches are not stack state.\<close>

definition meta_stack_update_window_tile_matches :: "meta_stack \<Rightarrow> meta_stack option" where
  "meta_stack_update_window_tile_matches st =
     (if freeze_count st > 0 then Some st else meta_stack_ensure_sorted st)"

definition stack_changed_and_tiled :: "meta_stack \<Rightarrow> meta_stack option" where
  "stack_changed_and_tiled st =
     Option.bind (meta_stack_changed st) meta_stack_update_window_tile_matches"

section \<open>Operations\<close>

definition meta_stack_add :: "meta_stack \<Rightarrow> window \<Rightarrow> meta_stack option" where
  "meta_stack_add st w =
     (if \<not> meta_window_is_stackable (windows st w) then Some st
      else
        (let st1 = emit (Window_added w)
               (st\<lparr>sorted_windows := w # sorted_windows st, need_resort := True,
                   need_constrain := True, need_relayer := True\<rparr>);
             st2 = (set_position w (n_positions st1) st1)\<lparr>n_positions := n_positions st1 + 1\<rparr>
         in stack_changed_and_tiled st2))"

definition meta_stack_remove :: "meta_stack \<Rightarrow> window \<Rightarrow> meta_stack option" where
  "meta_stack_remove st w =
     (let st1 = meta_window_set_stack_position_no_sync st w (n_positions st - 1);
          st2 = (set_position w (- 1) st1)\<lparr>n_positions := n_positions st1 - 1\<rparr>;
          st3 = emit (Window_removed w) (st2\<lparr>sorted_windows := remove1 w (sorted_windows st2)\<rparr>)
      in stack_changed_and_tiled st3)"

definition meta_stack_update_layer :: "meta_stack \<Rightarrow> meta_stack option" where
  "meta_stack_update_layer st = stack_changed_and_tiled (st\<lparr>need_relayer := True\<rparr>)"

definition meta_stack_update_transient :: "meta_stack \<Rightarrow> meta_stack option" where
  "meta_stack_update_transient st = stack_changed_and_tiled (st\<lparr>need_constrain := True\<rparr>)"

definition meta_window_get_workspace :: "meta_stack \<Rightarrow> window \<Rightarrow> workspace option" where
  "meta_window_get_workspace st w =
     (if on_all_workspaces (windows st w) then Some (active_workspace st)
      else win_workspace (windows st w))"

text \<open>\<open>meta_window_located_on_workspace\<close>, whose workspace may be NULL here.\<close>

definition located_on :: "meta_stack \<Rightarrow> window \<Rightarrow> workspace option \<Rightarrow> bool" where
  "located_on st v ws \<longleftrightarrow> on_all_workspaces (windows st v) \<or> win_workspace (windows st v) = ws"

text \<open>The bound is read before the stack is sorted.\<close>

definition meta_stack_raise :: "meta_stack \<Rightarrow> window \<Rightarrow> meta_stack option" where
  "meta_stack_raise st0 w =
     (let start = position st0 w
      in Option.bind (meta_stack_ensure_sorted st0)
        (\<lambda>st. let ws = meta_window_get_workspace st w;
                  max_stack_position =
                    fold (\<lambda>v m. if located_on st v ws \<and> position st v > m then position st v else m)
                      (sorted_windows st) start
              in if max_stack_position = position st w then Some st
                 else stack_changed_and_tiled
                   (meta_window_set_stack_position_no_sync st w max_stack_position)))"

definition meta_stack_lower :: "meta_stack \<Rightarrow> window \<Rightarrow> meta_stack option" where
  "meta_stack_lower st0 w =
     (let start = position st0 w
      in Option.bind (meta_stack_ensure_sorted st0)
        (\<lambda>st. let ws = meta_window_get_workspace st w;
                  min_stack_position =
                    fold (\<lambda>v m. if located_on st v ws \<and> position st v < m then position st v else m)
                      (sorted_windows st) start
              in if min_stack_position = position st w then Some st
                 else stack_changed_and_tiled
                   (meta_window_set_stack_position_no_sync st w min_stack_position)))"

definition meta_stack_freeze :: "meta_stack \<Rightarrow> meta_stack" where
  "meta_stack_freeze st = st\<lparr>freeze_count := freeze_count st + 1\<rparr>"

definition meta_stack_thaw :: "meta_stack \<Rightarrow> meta_stack option" where
  "meta_stack_thaw st =
     (if \<not> freeze_count st > 0 then Some st
      else stack_changed_and_tiled (st\<lparr>freeze_count := freeze_count st - 1\<rparr>))"

definition meta_window_set_stack_position :: "meta_stack \<Rightarrow> window \<Rightarrow> int \<Rightarrow> meta_stack option" where
  "meta_window_set_stack_position st w p =
     stack_changed_and_tiled (meta_window_set_stack_position_no_sync st w p)"

definition meta_window_stack_just_below :: "meta_stack \<Rightarrow> window \<Rightarrow> window \<Rightarrow> meta_stack option" where
  "meta_window_stack_just_below st w v =
     (if position st w > position st v then meta_window_set_stack_position st w (position st v)
      else Some st)"

definition meta_window_stack_just_above :: "meta_stack \<Rightarrow> window \<Rightarrow> window \<Rightarrow> meta_stack option" where
  "meta_window_stack_just_above st w v =
     (if position st w < position st v then meta_window_set_stack_position st w (position st v)
      else Some st)"

definition meta_window_update_layer :: "meta_stack \<Rightarrow> window \<Rightarrow> meta_stack option" where
  "meta_window_update_layer st w =
     (let st1 = meta_stack_freeze st
      in Option.bind
        (case (if client_x11 (windows st w) then win_group (windows st w) else None) of
           None \<Rightarrow> meta_stack_update_layer st1
         | Some g \<Rightarrow>
             (let ws = group_windows st1 g
              in if ws = [] then Some st1
                 else Option.bind (fold_opt (\<lambda>_ st. meta_stack_update_layer (meta_stack_freeze st)) ws st1)
                        (fold_opt (\<lambda>_ st. meta_stack_thaw st) ws)))
        meta_stack_thaw)"

text \<open>Following \<open>transient_for\<close> need not end if there is a cycle.\<close>

partial_function (option) check_transient_for_loop ::
  "meta_stack \<Rightarrow> window \<Rightarrow> window option \<Rightarrow> bool option" where
  "check_transient_for_loop st w parent =
     (case parent of
        None \<Rightarrow> Some False
      | Some p \<Rightarrow> if p = w then Some True
                  else check_transient_for_loop st w (transient_for (windows st p)))"

partial_function (option) root_ancestor_from ::
  "meta_stack \<Rightarrow> window \<Rightarrow> window \<Rightarrow> window option" where
  "root_ancestor_from st ancestor w =
     (case transient_for (windows st w) of
        None \<Rightarrow> Some ancestor
      | Some p \<Rightarrow> root_ancestor_from st (if unmanaging (windows st p) then ancestor else p) p)"

declare check_transient_for_loop.simps [code] root_ancestor_from.simps [code]

definition meta_window_find_root_ancestor :: "meta_stack \<Rightarrow> window \<Rightarrow> window option" where
  "meta_window_find_root_ancestor st w = root_ancestor_from st w w"

text \<open>The stacking part of \<open>meta_window_set_transient_for\<close>: \<open>klass_ok\<close> is the answer of the
  window class, \<open>delete\<close> whether an attached window loses its parent and is deleted instead.\<close>

definition meta_window_set_transient_for ::
  "meta_stack \<Rightarrow> window \<Rightarrow> window option \<Rightarrow> bool \<Rightarrow> bool \<Rightarrow> meta_stack option" where
  "meta_window_set_transient_for st w parent klass_ok attached =
     Option.bind (check_transient_for_loop st w parent)
       (\<lambda>loops. if loops then Some st
          else if \<not> klass_ok then Some st
          else if attached \<and> parent = None then Some st
          else
            (let st1 = st\<lparr>windows := (windows st)(w := (windows st w)\<lparr>transient_for := parent\<rparr>)\<rparr>
             in if \<not> override_redirect (windows st w) then meta_stack_update_transient st1
                else Some st1))"

text \<open>\<open>meta_window_raise\<close> after pending visibility changes were flushed.\<close>

definition meta_window_raise :: "meta_stack \<Rightarrow> window \<Rightarrow> meta_stack option" where
  "meta_window_raise st w =
     (if override_redirect (windows st w) then Some st
      else Option.bind (meta_window_find_root_ancestor st w)
        (\<lambda>ancestor. Option.bind (meta_stack_raise st ancestor)
          (\<lambda>st1. if w \<noteq> ancestor then meta_stack_raise st1 w else Some st1)))"

section \<open>Queries\<close>

definition meta_stack_get_top :: "meta_stack \<Rightarrow> (window option \<times> meta_stack) option" where
  "meta_stack_get_top st =
     map_option (\<lambda>st. (case sorted_windows st of [] \<Rightarrow> None | w # _ \<Rightarrow> Some w, st))
       (meta_stack_ensure_sorted st)"

definition neighbour :: "window option \<Rightarrow> bool \<Rightarrow> window \<Rightarrow> meta_stack \<Rightarrow> window option" where
  "neighbour n only_within_layer w st =
     (case n of None \<Rightarrow> None
      | Some v \<Rightarrow> if only_within_layer \<and> layer st v \<noteq> layer st w then None else Some v)"

definition meta_stack_get_above ::
  "meta_stack \<Rightarrow> window \<Rightarrow> bool \<Rightarrow> (window option \<times> meta_stack) option" where
  "meta_stack_get_above st w only_within_layer =
     map_option (\<lambda>st.
       (if w \<notin> set (sorted_windows st) then None
        else (case rev (takeWhile (\<lambda>v. v \<noteq> w) (sorted_windows st)) of
                [] \<Rightarrow> None | v # _ \<Rightarrow> neighbour (Some v) only_within_layer w st), st))
       (meta_stack_ensure_sorted st)"

definition meta_stack_get_below ::
  "meta_stack \<Rightarrow> window \<Rightarrow> bool \<Rightarrow> (window option \<times> meta_stack) option" where
  "meta_stack_get_below st w only_within_layer =
     map_option (\<lambda>st.
       (case dropWhile (\<lambda>v. v \<noteq> w) (sorted_windows st) of
          _ # v # _ \<Rightarrow> neighbour (Some v) only_within_layer w st
        | _ \<Rightarrow> None, st))
       (meta_stack_ensure_sorted st)"

definition meta_stack_list_windows ::
  "meta_stack \<Rightarrow> workspace option \<Rightarrow> (window list \<times> meta_stack) option" where
  "meta_stack_list_windows st ws =
     map_option (\<lambda>st. (rev (filter (\<lambda>w. ws = None \<or> located_on st w ws) (sorted_windows st)), st))
       (meta_stack_ensure_sorted st)"

end
