(* ===== verification/Stack_Order.thy ===== *)
theory Stack_Order
  imports Meta_Stack "HOL-Library.Multiset"
begin

text \<open>
  The invariant of the window stack: the positions of its windows are exactly
  \<open>0 \<dots> n_positions - 1\<close>, and every other window has position \<open>- 1\<close>. Every operation keeps
  it, and none reads outside the array of constraints or fails an assertion. Then the order of
  the sorted list, and that it is the order the annotation layer sees.
\<close>

section \<open>Moving one position\<close>

text \<open>What moving the window at position \<open>a\<close> to position \<open>p\<close> does to position \<open>x\<close>.\<close>

definition slot :: "int \<Rightarrow> int \<Rightarrow> int \<Rightarrow> int" where
  "slot a p x =
     (if x = a then p else if p \<le> x \<and> x < a then x + 1
      else if a < x \<and> x \<le> p then x - 1 else x)"

lemma slot_inverse: "slot p a (slot a p x) = x"
  by (auto simp: slot_def)

lemma slot_range: "0 \<le> a \<Longrightarrow> a < n \<Longrightarrow> 0 \<le> p \<Longrightarrow> p < n \<Longrightarrow> 0 \<le> x \<Longrightarrow> x < n \<Longrightarrow>
  0 \<le> slot a p x \<and> slot a p x < n"
  by (auto simp: slot_def)

lemma slot_bij:
  assumes "0 \<le> a" "a < n" "0 \<le> p" "p < n"
  shows "bij_betw (slot a p) {0..<n} {0..<n}"
proof (rule bij_betw_byWitness [where f' = "slot p a"])
  show "slot a p ` {0..<n} \<subseteq> {0..<n}" "slot p a ` {0..<n} \<subseteq> {0..<n}"
    using slot_range [of a n p] slot_range [of p n a] assms by fastforce+
qed (simp_all add: slot_inverse)

lemma slot_mono: "x \<noteq> a \<Longrightarrow> y \<noteq> a \<Longrightarrow> slot a p x < slot a p y \<longleftrightarrow> x < y"
  by (auto simp: slot_def)

lemma slot_self [simp]: "slot a p a = p"
  by (simp add: slot_def)

section \<open>The invariant\<close>

text \<open>What restacking leaves alone: the windows but for layer and position, and which are in
  the stack.\<close>

definition unplaced :: "managed_window \<Rightarrow> managed_window" where
  "unplaced w = w\<lparr>stack_layer := 0, stack_position := 0\<rparr>"

definition same_stack :: "meta_stack \<Rightarrow> meta_stack \<Rightarrow> bool" where
  "same_stack st st' \<longleftrightarrow>
     (\<forall>v. unplaced (windows st' v) = unplaced (windows st v)) \<and>
     group_windows st' = group_windows st \<and> active_workspace st' = active_workspace st \<and>
     mset (sorted_windows st') = mset (sorted_windows st) \<and>
     n_positions st' = n_positions st \<and> freeze_count st' = freeze_count st"

definition stack_ok :: "meta_stack \<Rightarrow> bool" where
  "stack_ok st \<longleftrightarrow>
     distinct (sorted_windows st) \<and> n_positions st = int (length (sorted_windows st)) \<and>
     bij_betw (position st) (set (sorted_windows st)) {0..<n_positions st} \<and>
     (\<forall>w. w \<notin> set (sorted_windows st) \<longrightarrow> position st w = - 1)"

lemma stack_okD:
  assumes "stack_ok st"
  shows "distinct (sorted_windows st)" "n_positions st = int (length (sorted_windows st))"
    "bij_betw (position st) (set (sorted_windows st)) {0..<n_positions st}"
    "w \<notin> set (sorted_windows st) \<Longrightarrow> position st w = - 1"
  using assms unfolding stack_ok_def by blast+

lemma same_stack_refl [simp]: "same_stack st st"
  by (simp add: same_stack_def)

lemma same_stack_trans: "same_stack st st' \<Longrightarrow> same_stack st' st'' \<Longrightarrow> same_stack st st''"
  by (simp add: same_stack_def)

lemma same_stack_set: "same_stack st st' \<Longrightarrow> set (sorted_windows st') = set (sorted_windows st)"
  unfolding same_stack_def using mset_eq_setD by blast

lemma unplaced_eq:
  assumes "unplaced w' = unplaced w"
  shows "win_type w' = win_type w" "transient_for w' = transient_for w" "client_x11 w' = client_x11 w"
    "override_redirect w' = override_redirect w" "win_group w' = win_group w"
    "on_all_workspaces w' = on_all_workspaces w" "win_workspace w' = win_workspace w"
    "meta_window_has_transient_type w' = meta_window_has_transient_type w"
    "meta_window_is_stackable w' = meta_window_is_stackable w"
    "unmanaging w' = unmanaging w"
    "meta_window_get_default_layer w' = meta_window_get_default_layer w"
    "window_transient_for_whole_group w' = window_transient_for_whole_group w"
  using assms by (cases w; cases w'; simp add: unplaced_def meta_window_has_transient_type_def
      meta_window_is_stackable_def meta_window_get_default_layer_def window_transient_for_whole_group_def)+

lemma same_stack_window: "same_stack st st' \<Longrightarrow> unplaced (windows st' v) = unplaced (windows st v)"
  by (simp add: same_stack_def)

lemmas same_windows = unplaced_eq [OF same_stack_window]

lemma in_stack_iff: "stack_ok st \<Longrightarrow> meta_window_is_in_stack (windows st w) \<longleftrightarrow> w \<in> set (sorted_windows st)"
  unfolding stack_ok_def meta_window_is_in_stack_def
  by (metis atLeastLessThan_iff bij_betwE neg_0_le_iff_le not_one_le_zero)

lemma position_range:
  "stack_ok st \<Longrightarrow> w \<in> set (sorted_windows st) \<Longrightarrow> 0 \<le> position st w \<and> position st w < n_positions st"
  unfolding stack_ok_def by (metis atLeastLessThan_iff bij_betwE)

lemma position_inj:
  "stack_ok st \<Longrightarrow> v \<in> set (sorted_windows st) \<Longrightarrow> w \<in> set (sorted_windows st) \<Longrightarrow>
   position st v = position st w \<longleftrightarrow> v = w"
  unfolding stack_ok_def by (metis bij_betw_imp_inj_on inj_on_eq_iff)

text \<open>The invariant reads only the list, its length and the positions.\<close>

lemma stack_ok_cong:
  assumes "stack_ok st" "mset (sorted_windows st') = mset (sorted_windows st)"
    "n_positions st' = n_positions st" "\<And>w. position st' w = position st w"
  shows "stack_ok st'"
proof -
  have "set (sorted_windows st') = set (sorted_windows st)" "length (sorted_windows st') = length (sorted_windows st)"
    "distinct (sorted_windows st') = distinct (sorted_windows st)"
    using assms(2) by (metis mset_eq_setD, metis mset_eq_length, metis mset_eq_imp_distinct_iff)
  moreover have "bij_betw (position st') S T = bij_betw (position st) S T" for S T
    by (rule bij_betw_cong) (simp add: assms(4))
  ultimately show ?thesis using assms(1) unfolding stack_ok_def by (simp add: assms(3,4)) auto
qed

section \<open>Setting a position\<close>

lemma windows_fold_shift:
  assumes "distinct xs"
  shows "windows (fold (shift_position low high delta) xs st) v =
    (if v \<in> set xs \<and> low \<le> position st v \<and> position st v \<le> high
     then (windows st v)\<lparr>stack_position := position st v + delta\<rparr> else windows st v)"
  using assms
  by (induction xs arbitrary: st) (auto simp: shift_position_def set_position_def)

lemma fold_shift_rest:
  "sorted_windows (fold (shift_position low high delta) xs st) = sorted_windows st"
  "n_positions (fold (shift_position low high delta) xs st) = n_positions st"
  "group_windows (fold (shift_position low high delta) xs st) = group_windows st"
  "active_workspace (fold (shift_position low high delta) xs st) = active_workspace st"
  "freeze_count (fold (shift_position low high delta) xs st) = freeze_count st"
  "need_relayer (fold (shift_position low high delta) xs st) = need_relayer st"
  "need_resort (fold (shift_position low high delta) xs st) = need_resort st"
  "need_constrain (fold (shift_position low high delta) xs st) = need_constrain st"
  by (induction xs arbitrary: st) (auto simp: shift_position_def set_position_def)

lemma set_position_no_sync_window:
  assumes "stack_ok st" "w \<in> set (sorted_windows st)" "0 \<le> p" "p < n_positions st"
  shows "windows (meta_window_set_stack_position_no_sync st w p) v =
    (if v \<in> set (sorted_windows st)
     then (windows st v)\<lparr>stack_position := slot (position st w) p (position st v)\<rparr> else windows st v)"
proof -
  have d: "distinct (sorted_windows st)" using assms(1) by (simp add: stack_ok_def)
  have inj: "v \<in> set (sorted_windows st) \<Longrightarrow> position st v = position st w \<Longrightarrow> v = w"
    using position_inj [OF assms(1) _ assms(2)] by blast
  show ?thesis
    using assms(2-4) position_range [OF assms(1,2)] inj
    by (auto simp: meta_window_set_stack_position_no_sync_def Let_def set_position_def
        windows_fold_shift [OF d] slot_def split: if_splits)
qed

lemma set_position_no_sync_rest:
  "sorted_windows (meta_window_set_stack_position_no_sync st w p) = sorted_windows st"
  "n_positions (meta_window_set_stack_position_no_sync st w p) = n_positions st"
  "group_windows (meta_window_set_stack_position_no_sync st w p) = group_windows st"
  "active_workspace (meta_window_set_stack_position_no_sync st w p) = active_workspace st"
  "freeze_count (meta_window_set_stack_position_no_sync st w p) = freeze_count st"
  "need_relayer (meta_window_set_stack_position_no_sync st w p) = need_relayer st"
  by (auto simp: meta_window_set_stack_position_no_sync_def Let_def set_position_def fold_shift_rest)

lemma set_position_no_sync_need:
  "need_resort st \<Longrightarrow> need_resort (meta_window_set_stack_position_no_sync st w p)"
  "need_constrain st \<Longrightarrow> need_constrain (meta_window_set_stack_position_no_sync st w p)"
  by (auto simp: meta_window_set_stack_position_no_sync_def Let_def set_position_def fold_shift_rest)

lemma set_position_no_sync_noop:
  "need_resort (meta_window_set_stack_position_no_sync st w p) = need_resort st \<Longrightarrow> \<not> need_resort st \<Longrightarrow>
   meta_window_set_stack_position_no_sync st w p = st"
  by (auto simp: meta_window_set_stack_position_no_sync_def Let_def set_position_def fold_shift_rest split: if_splits)

lemma set_position_no_sync_outside:
  "stack_ok st \<Longrightarrow> \<not> (w \<in> set (sorted_windows st) \<and> 0 \<le> p \<and> p < n_positions st) \<Longrightarrow>
   meta_window_set_stack_position_no_sync st w p = st"
  unfolding meta_window_set_stack_position_no_sync_def stack_ok_def by auto

lemma stack_ok_set_position_no_sync:
  assumes "stack_ok st"
  shows "stack_ok (meta_window_set_stack_position_no_sync st w p) \<and>
    same_stack st (meta_window_set_stack_position_no_sync st w p)"
proof (cases "w \<in> set (sorted_windows st) \<and> 0 \<le> p \<and> p < n_positions st")
  case True
  let ?st = "meta_window_set_stack_position_no_sync st w p"
  let ?S = "set (sorted_windows st)"
  have win: "windows ?st v = (if v \<in> ?S
      then (windows st v)\<lparr>stack_position := slot (position st w) p (position st v)\<rparr> else windows st v)" for v
    using set_position_no_sync_window [OF assms] True by blast
  have "bij_betw (slot (position st w) p) {0..<n_positions st} {0..<n_positions st}"
    using slot_bij position_range [OF assms] True by blast
  then have "bij_betw (slot (position st w) p \<circ> position st) ?S {0..<n_positions st}"
    using assms bij_betw_trans unfolding stack_ok_def by blast
  then have "bij_betw (position ?st) ?S {0..<n_positions st}"
    by (rule bij_betw_cong [THEN iffD1, rotated]) (simp add: win)
  then have "stack_ok ?st"
    using assms unfolding stack_ok_def by (simp add: set_position_no_sync_rest win)
  then show ?thesis
    by (auto simp: same_stack_def set_position_no_sync_rest win unplaced_def)
qed (use set_position_no_sync_outside [OF assms] assms in simp)

section \<open>The constraints\<close>

definition constraints_ok :: "meta_stack \<Rightarrow> constraint list list \<Rightarrow> bool" where
  "constraints_ok st cs \<longleftrightarrow> length cs = nat (n_positions st) \<and>
     (\<forall>i < length cs. \<forall>c \<in> set (cs ! i). fst c \<in> set (sorted_windows st) \<and>
        snd c \<in> set (sorted_windows st) \<and> position st (snd c) = int i)"

lemma concat_push:
  "i < length xss \<Longrightarrow> set (concat (xss[i := x # xss ! i])) = insert x (set (concat xss))"
proof (induction xss arbitrary: i)
  case (Cons xs xss)
  then show ?case by (cases i) auto
qed simp

lemma add_constraint_ok:
  assumes "stack_ok st" "constraints_ok st cs" "a \<in> set (sorted_windows st)"
    "b \<in> set (sorted_windows st)"
  shows "\<exists>cs'. add_constraint st a b cs = Some cs' \<and> constraints_ok st cs' \<and>
    set (concat cs') = insert (a, b) (set (concat cs))"
proof -
  let ?i = "nat (position st b)"
  have i: "0 \<le> position st b" "?i < length cs" "position st b = int ?i"
    using position_range [OF assms(1,4)] assms(2) by (auto simp: constraints_ok_def)
  show ?thesis
  proof (cases "list_ex (\<lambda>c. fst c = a) (cs ! ?i)")
    case True
    then obtain c where c: "c \<in> set (cs ! ?i)" "fst c = a" by (auto simp: list_ex_iff)
    have "snd c \<in> set (sorted_windows st)" "position st (snd c) = position st b"
      using assms(2) i c(1) unfolding constraints_ok_def by metis+
    then have "snd c = b" using position_inj [OF assms(1) _ assms(4)] by blast
    then have "(a, b) \<in> set (cs ! ?i)" using c by (cases c) auto
    then have "(a, b) \<in> set (concat cs)" using i(2) by auto
    then show ?thesis using True i(1,2) assms(2) by (auto simp: add_constraint_def Let_def)
  next
    case False
    let ?cs = "cs[?i := (a, b) # cs ! ?i]"
    have "set (concat ?cs) = insert (a, b) (set (concat cs))"
      using i(2) by (rule concat_push)
    moreover have "constraints_ok st ?cs"
      using assms i by (auto simp: constraints_ok_def nth_list_update)
    ultimately show ?thesis using False i(1,2) by (simp add: add_constraint_def Let_def)
  qed
qed

text \<open>The windows a window must be above.\<close>

definition must_be_above :: "meta_stack \<Rightarrow> window \<Rightarrow> window set" where
  "must_be_above st w =
     (if window_transient_for_whole_group (windows st w)
      then {v \<in> set (sorted_windows st). client_x11 (windows st w) \<and>
              v \<in> set (group_members st (windows st w)) \<and>
              \<not> override_redirect (windows st v) \<and> \<not> meta_window_has_transient_type (windows st v)}
      else {v \<in> set (sorted_windows st). transient_for (windows st w) = Some v})"

definition wanted :: "meta_stack \<Rightarrow> constraint set" where
  "wanted st = {(a, b). a \<in> set (sorted_windows st) \<and> b \<in> must_be_above st a}"

lemma fold_constraints_ok:
  assumes "constraints_ok st cs"
    and "\<And>x cs. x \<in> set xs \<Longrightarrow> constraints_ok st cs \<Longrightarrow>
      \<exists>cs'. f x cs = Some cs' \<and> constraints_ok st cs' \<and> set (concat cs') = set (concat cs) \<union> g x"
  shows "\<exists>cs'. fold_opt f xs cs = Some cs' \<and> constraints_ok st cs' \<and>
    set (concat cs') = set (concat cs) \<union> (\<Union>x \<in> set xs. g x)"
  using assms
proof (induction xs arbitrary: cs)
  case (Cons x xs)
  obtain cs1 where 1: "f x cs = Some cs1" "constraints_ok st cs1" "set (concat cs1) = set (concat cs) \<union> g x"
    using Cons.prems by (meson list.set_intros(1))
  obtain cs2 where "fold_opt f xs cs1 = Some cs2" "constraints_ok st cs2"
    "set (concat cs2) = set (concat cs1) \<union> (\<Union>x \<in> set xs. g x)"
    using Cons.IH [OF 1(2)] Cons.prems(2) by (meson list.set_intros(2))
  then show ?case using 1 by auto
qed simp

lemma constrain_window_ok:
  assumes "stack_ok st" "constraints_ok st cs" "w \<in> set (sorted_windows st)"
  shows "\<exists>cs'. constrain_window st w cs = Some cs' \<and> constraints_ok st cs' \<and>
    set (concat cs') = set (concat cs) \<union> Pair w ` must_be_above st w"
proof (cases "window_transient_for_whole_group (windows st w)")
  case True
  let ?f = "\<lambda>v cs. if \<not> meta_window_is_in_stack (windows st v) \<or> override_redirect (windows st v) then Some cs
     else if \<not> meta_window_has_transient_type (windows st v) then add_constraint st w v cs else Some cs"
  let ?g = "\<lambda>v. if v \<in> set (sorted_windows st) \<and> \<not> override_redirect (windows st v) \<and>
     \<not> meta_window_has_transient_type (windows st v) then {(w, v)} else {}"
  let ?ms = "if client_x11 (windows st w) then group_members st (windows st w) else []"
  have "\<exists>cs'. fold_opt ?f ?ms cs = Some cs' \<and> constraints_ok st cs' \<and>
    set (concat cs') = set (concat cs) \<union> (\<Union>v \<in> set ?ms. ?g v)"
  proof (rule fold_constraints_ok [OF assms(2)])
    fix v cs assume "constraints_ok st cs"
    then show "\<exists>cs'. ?f v cs = Some cs' \<and> constraints_ok st cs' \<and> set (concat cs') = set (concat cs) \<union> ?g v"
      using add_constraint_ok [OF assms(1) _ assms(3), of cs v] by (auto simp: in_stack_iff [OF assms(1)])
  qed
  moreover have "(\<Union>v \<in> set ?ms. ?g v) = Pair w ` must_be_above st w"
    using True by (auto simp: must_be_above_def split: if_splits)
  ultimately show ?thesis using True assms(3) by (simp add: constrain_window_def in_stack_iff [OF assms(1)])
next
  case False
  show ?thesis
  proof (cases "transient_for (windows st w)")
    case None
    with False assms show ?thesis
      by (auto simp: constrain_window_def must_be_above_def in_stack_iff [OF assms(1)])
  next
    case (Some p)
    with False assms add_constraint_ok [OF assms, of p] show ?thesis
      by (auto simp: constrain_window_def must_be_above_def in_stack_iff [OF assms(1)])
  qed
qed

lemma create_constraints_ok:
  assumes "stack_ok st"
  shows "\<exists>cs. create_constraints st (sorted_windows st) (replicate (nat (n_positions st)) []) = Some cs \<and>
    constraints_ok st cs \<and> set (concat cs) = wanted st"
proof -
  have "constraints_ok st (replicate (nat (n_positions st)) [])"
    by (simp add: constraints_ok_def)
  from fold_constraints_ok [OF this, of "sorted_windows st" "constrain_window st" "\<lambda>w. Pair w ` must_be_above st w"]
  have "\<exists>cs. create_constraints st (sorted_windows st) (replicate (nat (n_positions st)) []) = Some cs \<and>
    constraints_ok st cs \<and> set (concat cs) = (\<Union>w \<in> set (sorted_windows st). Pair w ` must_be_above st w)"
    using constrain_window_ok [OF assms] unfolding create_constraints_def by auto
  moreover have "(\<Union>w \<in> set (sorted_windows st). Pair w ` must_be_above st w) = wanted st"
    by (auto simp: wanted_def)
  ultimately show ?thesis by simp
qed

text \<open>Which constraints follow one, and which start a chain.\<close>

lemma graph_constraints_ok:
  assumes "stack_ok st" "constraints_ok st cs"
  shows "\<exists>g. graph_constraints st cs = Some g \<and>
    (\<forall>c \<in> set (concat cs). set (next_nodes g c) = {n \<in> set (concat cs). snd n = fst c}) \<and>
    (\<forall>n \<in> set (concat cs). has_prev g n \<longleftrightarrow> (\<exists>c \<in> set (concat cs). snd n = fst c))"
proof -
  have at: "set (cs ! nat (position st w)) = {n \<in> set (concat cs). snd n = w}"
    if w: "w \<in> set (sorted_windows st)" for w
  proof -
    have r: "0 \<le> position st w" "nat (position st w) < length cs"
      using position_range [OF assms(1) w] assms(2) by (auto simp: constraints_ok_def)
    have "n \<in> set (cs ! i) \<Longrightarrow> i < length cs \<Longrightarrow> position st (snd n) = int i \<and> snd n \<in> set (sorted_windows st)" for n i
      using assms(2) unfolding constraints_ok_def by blast
    note at = this
    show ?thesis
    proof (intro equalityI subsetI CollectI conjI)
      fix n assume n: "n \<in> set (cs ! nat (position st w))"
      then show "n \<in> set (concat cs)" using r by auto
      show "snd n = w" using at [OF n r(2)] r(1) position_inj [OF assms(1) _ w] by fastforce
    next
      fix n assume "n \<in> {n \<in> set (concat cs). snd n = w}"
      then obtain ns where "ns \<in> set cs" "n \<in> set ns" "snd n = w" by auto
      then obtain i where "i < length cs" "n \<in> set (cs ! i)" "snd n = w" by (metis in_set_conv_nth)
      then show "n \<in> set (cs ! nat (position st w))" using at [of n i] by (metis nat_int)
    qed
  qed
  have mem: "fst c \<in> set (sorted_windows st)" if c: "c \<in> set (concat cs)" for c
  proof -
    from c obtain ns where "ns \<in> set cs" "c \<in> set ns" by auto
    then obtain i where "i < length cs" "c \<in> set (cs ! i)" by (metis in_set_conv_nth)
    then show ?thesis using assms(2) unfolding constraints_ok_def by blast
  qed
  have "list_all (\<lambda>i. list_all (\<lambda>c. position st (snd c) = int i \<and> 0 \<le> position st (fst c) \<and>
     nat (position st (fst c)) < length cs) (cs ! i)) [0..<length cs]"
    using assms(2) position_range [OF assms(1)]
    by (fastforce simp: constraints_ok_def list_all_iff)
  then show ?thesis using at mem
    by (simp add: graph_constraints_def list_ex_iff) blast
qed

section \<open>Applying constraints\<close>

lemma set_layer_simps [simp]:
  "position (set_layer w k st) v = position st v"
  "layer (set_layer w k st) v = (if v = w then k else layer st v)"
  "sorted_windows (set_layer w k st) = sorted_windows st"
  "n_positions (set_layer w k st) = n_positions st"
  "need_resort (set_layer w k st) = need_resort st"
  "need_constrain (set_layer w k st) = need_constrain st"
  "need_relayer (set_layer w k st) = need_relayer st"
  by (auto simp: set_layer_def)

lemma same_stack_set_layer: "same_stack st (set_layer w k st)"
  by (simp add: same_stack_def set_layer_def unplaced_def)

lemma stack_ok_set_layer [simp]: "stack_ok st \<Longrightarrow> stack_ok (set_layer w k st)"
  by (erule stack_ok_cong) simp_all

text \<open>The layer a window gets when it is put above another.\<close>

definition raised_layer :: "meta_stack \<Rightarrow> window \<Rightarrow> window \<Rightarrow> int" where
  "raised_layer st a b =
     (if (meta_window_has_transient_type (windows st a) \<or> transient_for (windows st a) = Some b) \<and>
         layer st a < layer st b then layer st b else layer st a)"

lemma ensure_above_ok:
  assumes "stack_ok st" and a: "a \<in> set (sorted_windows st)" and b: "b \<in> set (sorted_windows st)"
  shows "\<exists>st'. ensure_above st a b = Some st' \<and> stack_ok st' \<and> same_stack st st' \<and>
    need_relayer st' = need_relayer st \<and> (need_resort st \<longrightarrow> need_resort st') \<and>
    (\<forall>v. layer st' v = (if v = a then raised_layer st a b else layer st v)) \<and>
    (\<forall>v \<in> set (sorted_windows st).
       position st' v = (if position st a < position st b
                         then slot (position st a) (position st b) (position st v) else position st v))"
proof -
  define st1 where "st1 = (if (meta_window_has_transient_type (windows st a) \<or> transient_for (windows st a) = Some b) \<and>
    layer st a < layer st b then set_layer a (layer st b) st else st)"
  have ok1: "stack_ok st1" "same_stack st st1" using assms(1) same_stack_set_layer by (auto simp: st1_def)
  have r: "sorted_windows st1 = sorted_windows st" "n_positions st1 = n_positions st"
    "position st1 v = position st v" "need_relayer st1 = need_relayer st"
    "layer st1 v = (if v = a then raised_layer st a b else layer st v)" "need_resort st1 = need_resort st" for v
    by (auto simp: raised_layer_def st1_def)
  let ?st2 = "meta_window_set_stack_position_no_sync st1 a (position st1 b)"
  have ens: "ensure_above st a b = (if position st a < position st b
      then if position ?st2 b + 1 = position ?st2 a then Some ?st2 else None else Some st1)"
    unfolding ensure_above_def Let_def st1_def [symmetric] r ..
  show ?thesis
  proof (cases "position st a < position st b")
    case True
    have b': "0 \<le> position st1 b" "position st1 b < n_positions st1" "a \<in> set (sorted_windows st1)"
      using position_range [OF assms(1) b] a by (simp_all add: r)
    have w: "windows ?st2 v = (if v \<in> set (sorted_windows st)
        then (windows st1 v)\<lparr>stack_position := slot (position st a) (position st b) (position st v)\<rparr>
        else windows st1 v)" for v
      using set_position_no_sync_window [OF ok1(1) b'(3,1,2), of v] unfolding r .
    have st2: "stack_ok ?st2" "same_stack st ?st2"
      using stack_ok_set_position_no_sync [OF ok1(1)] same_stack_trans [OF ok1(2)] by blast+
    have "position ?st2 b + 1 = position ?st2 a"
      using True a b by (simp add: w slot_def)
    then have "ensure_above st a b = Some ?st2" using True ens by simp
    moreover have "layer ?st2 v = (if v = a then raised_layer st a b else layer st v)" for v
      using r(5) [of v] by (auto simp: w)
    moreover have "v \<in> set (sorted_windows st) \<Longrightarrow>
      position ?st2 v = slot (position st a) (position st b) (position st v)" for v
      by (simp add: w)
    moreover have "need_relayer ?st2 = need_relayer st"
      by (simp only: set_position_no_sync_rest r)
    moreover have "need_resort st \<longrightarrow> need_resort ?st2"
      by (simp add: set_position_no_sync_need r)
    ultimately show ?thesis using True st2 by simp
  next
    case False
    then show ?thesis using ens ok1 r by simp
  qed
qed

lemma traverse_constraint_ok:
  assumes "stack_ok st" "set todo \<subseteq> set nodes" "\<And>c. c \<in> set nodes \<Longrightarrow> set (nexts c) \<subseteq> set nodes"
    and "\<And>c. c \<in> set nodes \<Longrightarrow> fst c \<in> set (sorted_windows st) \<and> snd c \<in> set (sorted_windows st)"
  shows "\<exists>st'. traverse_constraint nodes nexts applied todo st = Some st' \<and> stack_ok st' \<and> same_stack st st' \<and>
    need_relayer st' = need_relayer st \<and> (need_resort st \<longrightarrow> need_resort st')"
  using assms
proof (induction nodes nexts applied todo st rule: traverse_constraint.induct)
  case (2 nodes nexts applied c todo st)
  show ?case
  proof (cases "c \<in> set applied")
    case True
    with 2 show ?thesis by simp
  next
    case False
    have c: "c \<in> set nodes" using "2.prems"(2) by simp
    obtain st' where st': "ensure_above st (fst c) (snd c) = Some st'" "stack_ok st'" "same_stack st st'"
      "need_relayer st' = need_relayer st" "need_resort st \<longrightarrow> need_resort st'"
      using ensure_above_ok [OF "2.prems"(1)] "2.prems"(4) [OF c] by blast
    have "\<exists>st''. traverse_constraint nodes nexts (c # applied) (nexts c @ todo) st' = Some st'' \<and>
      stack_ok st'' \<and> same_stack st' st'' \<and> need_relayer st'' = need_relayer st' \<and>
      (need_resort st' \<longrightarrow> need_resort st'')"
      using "2.IH"(2) [OF False _ st'(1,2)] c "2.prems"(2-4) same_stack_set [OF st'(3)] by auto
    then show ?thesis using False c st' same_stack_trans by fastforce
  qed
qed simp

lemma stack_do_constrain_ok:
  assumes "stack_ok st"
  shows "\<exists>st'. stack_do_constrain st = Some st' \<and> stack_ok st' \<and> same_stack st st' \<and>
    \<not> need_constrain st' \<and> need_relayer st' = need_relayer st \<and> (need_resort st \<longrightarrow> need_resort st')"
proof (cases "need_constrain st")
  case True
  obtain cs where cs: "create_constraints st (sorted_windows st) (replicate (nat (n_positions st)) []) = Some cs"
    "constraints_ok st cs" "set (concat cs) = wanted st" using create_constraints_ok [OF assms] by blast
  obtain g where g: "graph_constraints st cs = Some g"
    "\<forall>c \<in> set (concat cs). set (next_nodes g c) = {n \<in> set (concat cs). snd n = fst c}"
    using graph_constraints_ok [OF assms cs(2)] by blast
  have "\<exists>st'. traverse_constraint (concat cs) (next_nodes g) [] (rev (filter (\<lambda>c. \<not> has_prev g c) (concat cs))) st = Some st' \<and>
      stack_ok st' \<and> same_stack st st' \<and> need_relayer st' = need_relayer st \<and> (need_resort st \<longrightarrow> need_resort st')"
  proof (rule traverse_constraint_ok [OF assms])
    show "fst c \<in> set (sorted_windows st) \<and> snd c \<in> set (sorted_windows st)" if "c \<in> set (concat cs)" for c
      using that unfolding cs(3) by (auto simp: wanted_def must_be_above_def split: if_splits)
  qed (use g(2) in auto)
  then obtain st' where st': "apply_constraints cs g st = Some st'" "stack_ok st'" "same_stack st st'"
    "need_relayer st' = need_relayer st" "need_resort st \<longrightarrow> need_resort st'"
    unfolding apply_constraints_def Let_def by blast
  have "stack_do_constrain st = Some (st'\<lparr>need_constrain := False\<rparr>)"
    using True cs(1) g(1) st'(1) by (simp add: stack_do_constrain_def)
  moreover have "stack_ok (st'\<lparr>need_constrain := False\<rparr>)" using st'(2) by (rule stack_ok_cong) simp_all
  moreover have "same_stack st (st'\<lparr>need_constrain := False\<rparr>)" using st'(3) by (simp add: same_stack_def)
  ultimately show ?thesis using st'(4,5) by simp
qed (use assms in \<open>simp add: stack_do_constrain_def\<close>)

section \<open>Layers and order\<close>

lemma relayer_step_ok:
  "stack_ok st \<Longrightarrow> stack_ok (relayer_step w st) \<and> same_stack st (relayer_step w st)"
  by (auto simp: relayer_step_def Let_def same_stack_set_layer same_stack_def set_layer_def unplaced_def
      intro: stack_ok_cong)

lemma stack_do_relayer_ok:
  assumes "stack_ok st"
  shows "stack_ok (stack_do_relayer st) \<and> same_stack st (stack_do_relayer st) \<and>
    \<not> need_relayer (stack_do_relayer st)"
proof -
  have "stack_ok st' \<Longrightarrow> stack_ok (fold relayer_step xs st') \<and> same_stack st' (fold relayer_step xs st')" for xs st'
  proof (induction xs arbitrary: st')
    case (Cons x xs)
    then show ?case using relayer_step_ok [OF Cons.prems, of x] same_stack_trans by fastforce
  qed simp
  from this [OF assms, of "sorted_windows st"] show ?thesis
    using assms by (auto simp: stack_do_relayer_def same_stack_def intro: stack_ok_cong)
qed

lemma mset_insert_sorted [simp]: "mset (insert_sorted cmp x ys) = add_mset x (mset ys)"
  by (induction ys) auto

lemma mset_g_list_sort [simp]: "mset (g_list_sort cmp xs) = mset xs"
  unfolding g_list_sort_def by (induction xs) simp_all

lemma stack_do_resort_ok:
  "stack_ok st \<Longrightarrow> stack_ok (stack_do_resort st) \<and> same_stack st (stack_do_resort st) \<and>
    \<not> need_resort (stack_do_resort st) \<and> need_constrain (stack_do_resort st) = need_constrain st \<and>
    need_relayer (stack_do_resort st) = need_relayer st"
  by (auto simp: stack_do_resort_def same_stack_def intro: stack_ok_cong)

definition flags_clear :: "meta_stack \<Rightarrow> bool" where
  "flags_clear st \<longleftrightarrow> \<not> need_relayer st \<and> \<not> need_constrain st \<and> \<not> need_resort st"

lemma ensure_sorted_ok:
  assumes "stack_ok st"
  shows "\<exists>st'. meta_stack_ensure_sorted st = Some st' \<and> stack_ok st' \<and> same_stack st st' \<and> flags_clear st'"
proof -
  have 1: "stack_ok (stack_do_relayer st)" "same_stack st (stack_do_relayer st)" "\<not> need_relayer (stack_do_relayer st)"
    using stack_do_relayer_ok [OF assms] by auto
  obtain st2 where 2: "stack_do_constrain (stack_do_relayer st) = Some st2" "stack_ok st2"
    "same_stack (stack_do_relayer st) st2" "\<not> need_constrain st2" "\<not> need_relayer st2"
    using stack_do_constrain_ok [OF 1(1)] 1(3) by auto
  have "same_stack st (stack_do_resort st2)"
    using stack_do_resort_ok [OF 2(2)] 1(2) 2(3) same_stack_trans by blast
  then show ?thesis using 2 stack_do_resort_ok [OF 2(2)]
    by (auto simp: meta_stack_ensure_sorted_def flags_clear_def)
qed

lemma ensure_sorted_id: "flags_clear st \<Longrightarrow> meta_stack_ensure_sorted st = Some st"
  by (simp add: flags_clear_def meta_stack_ensure_sorted_def stack_do_relayer_def stack_do_constrain_def
      stack_do_resort_def)

section \<open>The sorted list\<close>

text \<open>Top to bottom, as the list is kept.\<close>

definition stacked_above :: "meta_stack \<Rightarrow> window \<Rightarrow> window \<Rightarrow> bool" where
  "stacked_above st u v \<longleftrightarrow>
     layer st u > layer st v \<or> layer st u = layer st v \<and> position st u > position st v"

definition in_order :: "meta_stack \<Rightarrow> bool" where
  "in_order st \<longleftrightarrow> sorted_wrt (stacked_above st) (sorted_windows st)"

lemma stacked_above_windows: "windows st' = windows st \<Longrightarrow> stacked_above st' = stacked_above st"
  by (simp add: stacked_above_def fun_eq_iff)

lemma compare_window_position_le:
  "compare_window_position st u v \<le> 0 \<longleftrightarrow>
   stacked_above st u v \<or> layer st u = layer st v \<and> position st u = position st v"
  by (auto simp: compare_window_position_def meta_window_stack_position_compare_def stacked_above_def
      meta_window.truncate_def)

lemma resort_in_order:
  assumes "stack_ok st" "need_resort st"
  shows "in_order (stack_do_resort st)"
proof -
  let ?l = "g_list_sort (compare_window_position st) (sorted_windows st)"
  have s: "sorted_wrt (\<lambda>u v. compare_window_position st u v \<le> 0) ?l"
    by (rule sorted_g_list_sort) (auto simp: compare_window_position_le stacked_above_def)
  have m: "mset ?l = mset (sorted_windows st)" by simp
  have d: "distinct ?l" "set ?l = set (sorted_windows st)"
    using assms(1) mset_eq_imp_distinct_iff [OF m] mset_eq_setD [OF m] by (simp_all add: stack_ok_def)
  have "sorted_wrt (stacked_above st) ?l"
    unfolding sorted_wrt_iff_nth_less
  proof (intro allI impI)
    fix i j assume ij: "i < j" "j < length ?l"
    have "compare_window_position st (?l ! i) (?l ! j) \<le> 0"
      using s ij unfolding sorted_wrt_iff_nth_less by blast
    moreover have "?l ! i \<noteq> ?l ! j" using d(1) ij by (simp add: nth_eq_iff_index_eq)
    moreover have "?l ! i \<in> set (sorted_windows st)" "?l ! j \<in> set (sorted_windows st)"
      using ij d(2) by (metis nth_mem order_less_trans)+
    ultimately show "stacked_above st (?l ! i) (?l ! j)"
      using position_inj [OF assms(1)] by (auto simp: compare_window_position_le)
  qed
  moreover have "stacked_above (stack_do_resort st) = stacked_above st"
    by (rule stacked_above_windows) (simp add: stack_do_resort_def)
  ultimately show ?thesis using assms(2)
    by (simp add: in_order_def) (simp add: stack_do_resort_def)
qed

lemma relayer_fold_flags:
  "need_resort st \<Longrightarrow> need_resort (fold relayer_step xs st)"
  "\<not> need_resort (fold relayer_step xs st) \<Longrightarrow> fold relayer_step xs st = st"
proof -
  have mono: "need_resort st \<Longrightarrow> need_resort (fold relayer_step xs st)" for xs st
    by (induction xs arbitrary: st) (auto simp: relayer_step_def Let_def)
  show "need_resort st \<Longrightarrow> need_resort (fold relayer_step xs st)" by (rule mono)
  show "\<not> need_resort (fold relayer_step xs st) \<Longrightarrow> fold relayer_step xs st = st"
  proof (induction xs arbitrary: st)
    case (Cons x xs)
    have "\<not> need_resort (relayer_step x st)" using Cons.prems mono by auto
    then have "relayer_step x st = st"
      by (auto simp: relayer_step_def Let_def set_layer_def split: if_splits)
    with Cons show ?case by simp
  qed simp
qed

text \<open>Sorting leaves the list in order if it was asked to, or if nothing was to be done.\<close>

lemma ensure_sorted_in_order:
  assumes "stack_ok st" "need_resort st \<or> in_order st \<and> \<not> need_constrain st"
    and "meta_stack_ensure_sorted st = Some st'"
  shows "in_order st'"
proof -
  let ?st1 = "stack_do_relayer st"
  have 1: "stack_ok ?st1" using stack_do_relayer_ok [OF assms(1)] by simp
  obtain st2 where 2: "stack_do_constrain ?st1 = Some st2" "stack_ok st2" "need_resort ?st1 \<longrightarrow> need_resort st2"
    using stack_do_constrain_ok [OF 1] by blast
  have st': "st' = stack_do_resort st2" using assms(3) 2(1) by (simp add: meta_stack_ensure_sorted_def)
  show ?thesis
  proof (cases "need_resort ?st1")
    case True
    then show ?thesis using 2 resort_in_order st' by blast
  next
    case False
    then have "?st1 = st\<lparr>need_relayer := False\<rparr>"
      using relayer_fold_flags(2) [of "sorted_windows st" st] by (auto simp: stack_do_relayer_def split: if_splits)
    then have "in_order ?st1" "\<not> need_constrain ?st1"
      using False assms(2) stacked_above_windows [of "st\<lparr>need_relayer := False\<rparr>" st]
      by (auto simp: in_order_def)
    then have "st2 = ?st1" using 2(1) by (simp add: stack_do_constrain_def)
    with \<open>in_order ?st1\<close> False show ?thesis unfolding st' by (simp add: stack_do_resort_def)
  qed
qed

end
