(* ===== verification/Edge_Cache.thy ===== *)
theory Edge_Cache
  imports Edge_Resistance Stack_Order
begin

text \<open>
  The edges of a window drag (\<open>mutter/src/compositor/edge-resistance.c\<close>): they are computed from
  the window stack, the screen and the monitors when the drag first needs them, and kept until it
  ends. What is shown (\<open>meta_window_should_be_showing\<close>) is a predicate of the environment. A
  \<open>MtkRectangle\<close> that the code leaves uninitialised is an argument. The freeing of edges is not
  modelled.
\<close>

section \<open>Data\<close>

record edge_env =
  should_be_showing :: "window \<Rightarrow> bool"
  display_size :: "int \<times> int"
  ws_monitor_edges :: "meta_edge list"
  ws_screen_edges :: "meta_edge list"
  uninitialised :: "window \<Rightarrow> mtk_rectangle"

record window_drag =
  dragged :: window
  drag_win :: drag_window
  edge_qdata :: "edge_resistance_data option"

section \<open>Collecting\<close>

definition is_window_relevant_for_edges :: "edge_env \<Rightarrow> meta_stack \<Rightarrow> window \<Rightarrow> window \<Rightarrow> bool" where
  "is_window_relevant_for_edges env st drag w =
     (if \<not> should_be_showing env w then False
      else if w = drag then False
      else case win_type (windows st w) of
        META_WINDOW_DESKTOP \<Rightarrow> False
      | META_WINDOW_MENU \<Rightarrow> False
      | META_WINDOW_SPLASHSCREEN \<Rightarrow> False
      | _ \<Rightarrow> True)"

text \<open>The windows that may cover others, from bottom to top, with their stacking positions.\<close>

fun obscuring_windows :: "edge_env \<Rightarrow> meta_stack \<Rightarrow> window \<Rightarrow> int \<Rightarrow> window list \<Rightarrow>
  (mtk_rectangle \<times> int) list" where
  "obscuring_windows env st drag pos [] = []"
| "obscuring_windows env st drag pos (w # ws) =
     (if is_window_relevant_for_edges env st drag w
      then (frame_rect (windows st w), pos) # obscuring_windows env st drag (pos + 1) ws
      else obscuring_windows env st drag (pos + 1) ws)"

definition display_rect :: "edge_env \<Rightarrow> mtk_rectangle" where
  "display_rect env =
     \<lparr>rect_x = 0, rect_y = 0, rect_width = fst (display_size env), rect_height = snd (display_size env)\<rparr>"

definition reduced :: "edge_env \<Rightarrow> meta_stack \<Rightarrow> window \<Rightarrow> mtk_rectangle" where
  "reduced env st w =
     snd (mtk_rectangle_intersect (frame_rect (windows st w)) (display_rect env) (uninitialised env w))"

definition window_edge :: "mtk_rectangle \<Rightarrow> meta_side \<Rightarrow> meta_edge" where
  "window_edge r s = \<lparr>edge_rect = r, side_type = s, edge_type = META_EDGE_WINDOW\<rparr>"

text \<open>The four edges, each prepended.\<close>

definition edges_of_window :: "mtk_rectangle \<Rightarrow> meta_edge list" where
  "edges_of_window r =
     [window_edge (r\<lparr>rect_y := rect_y r + rect_height r, rect_height := 0\<rparr>) META_SIDE_TOP,
      window_edge (r\<lparr>rect_height := 0\<rparr>) META_SIDE_BOTTOM,
      window_edge (r\<lparr>rect_x := rect_x r + rect_width r, rect_width := 0\<rparr>) META_SIDE_LEFT,
      window_edge (r\<lparr>rect_width := 0\<rparr>) META_SIDE_RIGHT]"

fun collect_edges :: "edge_env \<Rightarrow> meta_stack \<Rightarrow> window \<Rightarrow> int \<Rightarrow> (mtk_rectangle \<times> int) list \<Rightarrow>
  meta_edge list \<Rightarrow> window list \<Rightarrow> meta_edge list option" where
  "collect_edges env st drag pos rem edges [] = Some edges"
| "collect_edges env st drag pos rem edges (w # ws) =
     (if is_window_relevant_for_edges env st drag w \<and> win_type (windows st w) \<noteq> META_WINDOW_DOCK
      then
        (let rem = dropWhile (\<lambda>(_, p). pos \<ge> p) rem
         in Option.bind
              (meta_rectangle_remove_intersections_with_boxes_from_edges
                 (edges_of_window (reduced env st w)) (map fst rem))
              (\<lambda>new_edges. collect_edges env st drag (pos + 1) rem (new_edges @ edges) ws))
      else collect_edges env st drag (pos + 1) rem edges ws)"

section \<open>The cache\<close>

text \<open>On thin edges of one orientation \<open>meta_rectangle_edge_cmp_ignore_type\<close> orders by this key,
  and \<open>g_array_sort\<close> is stable.\<close>

definition array_key :: "meta_edge \<Rightarrow> int \<times> int" where
  "array_key e =
     (if vertical_side (side_type e) then (rect_x (edge_rect e), rect_y (edge_rect e))
      else (rect_y (edge_rect e), rect_x (edge_rect e)))"

definition cache_edges ::
  "meta_edge list \<Rightarrow> meta_edge list \<Rightarrow> meta_edge list \<Rightarrow> edge_resistance_data" where
  "cache_edges win_edges mon_edges scr_edges =
     (let edges = win_edges @ mon_edges @ scr_edges;
          vertical = filter (\<lambda>e. vertical_side (side_type e)) edges;
          horizontal = filter (\<lambda>e. \<not> vertical_side (side_type e)) edges
      in \<lparr>left_edges = sort_key array_key vertical, right_edges = sort_key array_key vertical,
          top_edges = sort_key array_key horizontal, bottom_edges = sort_key array_key horizontal\<rparr>)"

text \<open>Listing the windows may sort the stack.\<close>

definition compute_resistance_and_snapping_edges ::
  "edge_env \<Rightarrow> meta_stack \<Rightarrow> window \<Rightarrow> (edge_resistance_data \<times> meta_stack) option" where
  "compute_resistance_and_snapping_edges env st drag =
     Option.bind (meta_stack_list_windows st (Some (active_workspace st))) (\<lambda>(stacked_windows, st).
     Option.bind
       (collect_edges env st drag 0 (obscuring_windows env st drag 0 stacked_windows) []
          stacked_windows) (\<lambda>edges.
     Some (cache_edges (sort_key edge_key edges) (ws_monitor_edges env) (ws_screen_edges env), st)))"

definition meta_window_drag_ensure_edge_resistance_data ::
  "edge_env \<Rightarrow> meta_stack \<Rightarrow> window_drag \<Rightarrow>
   (edge_resistance_data \<times> meta_stack \<times> window_drag) option" where
  "meta_window_drag_ensure_edge_resistance_data env st drag =
     (case edge_qdata drag of
        Some edge_data \<Rightarrow> Some (edge_data, st, drag)
      | None \<Rightarrow>
          map_option (\<lambda>(edge_data, st). (edge_data, st, drag\<lparr>edge_qdata := Some edge_data\<rparr>))
            (compute_resistance_and_snapping_edges env st (dragged drag)))"

definition meta_window_drag_edge_resistance_cleanup :: "window_drag \<Rightarrow> window_drag" where
  "meta_window_drag_edge_resistance_cleanup drag = drag\<lparr>edge_qdata := None\<rparr>"

definition meta_window_drag_edge_resistance_for_move ::
  "edge_env \<Rightarrow> meta_stack \<Rightarrow> window_drag \<Rightarrow> int \<times> int \<Rightarrow> resistance_flags \<Rightarrow>
   ((int \<times> int) \<times> meta_stack \<times> window_drag) option" where
  "meta_window_drag_edge_resistance_for_move env st drag new_pos flags =
     Option.bind (meta_window_drag_ensure_edge_resistance_data env st drag) (\<lambda>(edge_data, st, drag).
     map_option (\<lambda>p. (p, st, drag)) (resist_move edge_data (drag_win drag) new_pos flags))"

definition meta_window_drag_edge_resistance_for_resize ::
  "edge_env \<Rightarrow> meta_stack \<Rightarrow> window_drag \<Rightarrow> int \<times> int \<Rightarrow> meta_gravity \<Rightarrow> resistance_flags \<Rightarrow>
   ((int \<times> int) \<times> meta_stack \<times> window_drag) option" where
  "meta_window_drag_edge_resistance_for_resize env st drag new_size gravity flags =
     Option.bind (meta_window_drag_ensure_edge_resistance_data env st drag) (\<lambda>(edge_data, st, drag).
     map_option (\<lambda>p. (p, st, drag)) (resist_resize edge_data (drag_win drag) new_size gravity flags))"

section \<open>The edges are the visible borders\<close>

text \<open>A box removes the cells whose outer pixel it holds.\<close>

lemma boxed_px: "rect_positive r \<Longrightarrow> boxed r c \<longleftrightarrow> outer_px c \<in> pixels r"
  by (cases c; cases "fst c")
     (auto simp: boxed_def touches_def cell_handle_def edge_handle_type_def vertical_side_def
      mem_pixels box_defs rect_positive_def)

lemma edges_of_window_ok:
  assumes "rect_positive r"
  shows "edges_ok {META_EDGE_WINDOW} (edges_of_window r)"
    and "c \<in> cells (edges_of_window r) \<longleftrightarrow> outer_px c \<in> pixels r \<and> inner_px c \<notin> pixels r"
proof -
  show "edges_ok {META_EDGE_WINDOW} (edges_of_window r)"
    using assms by (auto simp: edges_of_window_def window_edge_def wf_edge_def wf_seg_def
        vertical_side_def rect_positive_def)
  obtain s x y where c: "c = (s, x, y)" by (metis surj_pair)
  show "c \<in> cells (edges_of_window r) \<longleftrightarrow> outer_px c \<in> pixels r \<and> inner_px c \<notin> pixels r"
    unfolding c using assms
    by (cases s) (auto simp: edges_of_window_def window_edge_def mem_edge_cells in_seg_def vertical_side_def
        mem_pixels rect_positive_def)
qed

text \<open>The part of a window on the display.\<close>

definition on_display :: "edge_env \<Rightarrow> meta_stack \<Rightarrow> window \<Rightarrow> bool" where
  "on_display env st w \<longleftrightarrow>
     fst (mtk_rectangle_intersect (frame_rect (windows st w)) (display_rect env) (uninitialised env w))"

text \<open>A cell that borders, from outside, a pixel of \<open>w\<close> on the display that the windows \<open>vs\<close> above
  it do not cover.\<close>

definition borders :: "edge_env \<Rightarrow> meta_stack \<Rightarrow> window \<Rightarrow> window \<Rightarrow> window list \<Rightarrow> cell \<Rightarrow> bool" where
  "borders env st drag w vs c \<longleftrightarrow>
     outer_px c \<in> pixels (reduced env st w) \<and> inner_px c \<notin> pixels (reduced env st w) \<and>
     (\<forall>v\<in>set vs. is_window_relevant_for_edges env st drag v \<longrightarrow>
        outer_px c \<notin> pixels (frame_rect (windows st v)))"

fun visible_borders :: "edge_env \<Rightarrow> meta_stack \<Rightarrow> window \<Rightarrow> window list \<Rightarrow> cell set" where
  "visible_borders env st drag [] = {}"
| "visible_borders env st drag (w # ws) =
     (if is_window_relevant_for_edges env st drag w \<and> win_type (windows st w) \<noteq> META_WINDOW_DOCK
      then Collect (borders env st drag w ws) else {}) \<union> visible_borders env st drag ws"

lemma reduced_on_display:
  assumes "on_display env st w"
  shows "rect_positive (reduced env st w)"
    and "pixels (reduced env st w) = pixels (frame_rect (windows st w)) \<inter> pixels (display_rect env)"
  using assms
  by (auto simp: on_display_def reduced_def mtk_rectangle_intersect_def Let_def rect_positive_def
      mem_pixels split: if_splits)

lemma obscuring_le: "(r, p) \<in> set (obscuring_windows env st drag pos ws) \<Longrightarrow> pos \<le> p"
  by (induction ws arbitrary: pos) (fastforce split: if_splits)+

lemma obscuring_rest:
  "dropWhile (\<lambda>(_, p). p \<le> pos) (obscuring_windows env st drag (pos + 1) ws) =
    obscuring_windows env st drag (pos + 1) ws"
  using obscuring_le [of _ _ env st drag "pos + 1" ws]
  by (cases "obscuring_windows env st drag (pos + 1) ws") force+

lemma obscuring_drop:
  assumes "dropWhile (\<lambda>(_, p). p < pos) rem = obscuring_windows env st drag pos (w # ws)"
  shows "dropWhile (\<lambda>(_, p). p \<le> pos) rem = obscuring_windows env st drag (pos + 1) ws"
proof -
  have "dropWhile (\<lambda>(_, p). p \<le> pos) rem =
      dropWhile (\<lambda>(_, p). p \<le> pos) (dropWhile (\<lambda>(_, p). p < pos) rem)"
    by (induction rem) auto
  also have "\<dots> = obscuring_windows env st drag (pos + 1) ws"
    unfolding assms by (simp add: obscuring_rest)
  finally show ?thesis .
qed

lemma obscuring_shift:
  assumes "dropWhile (\<lambda>(_, p). p < pos) rem = obscuring_windows env st drag pos (w # ws)"
  shows "dropWhile (\<lambda>(_, p). p < pos + 1) rem = obscuring_windows env st drag (pos + 1) ws"
    and "dropWhile (\<lambda>(_, p). p < pos + 1) (dropWhile (\<lambda>(_, p). pos \<ge> p) rem) = obscuring_windows env st drag (pos + 1) ws"
proof -
  have "(\<lambda>(_ :: mtk_rectangle, p). p < pos + 1) = (\<lambda>(_, p). p \<le> pos)" by auto
  then show "dropWhile (\<lambda>(_, p). p < pos + 1) rem = obscuring_windows env st drag (pos + 1) ws"
    and "dropWhile (\<lambda>(_, p). p < pos + 1) (dropWhile (\<lambda>(_, p). pos \<ge> p) rem) = obscuring_windows env st drag (pos + 1) ws"
    using obscuring_drop [OF assms] by (simp_all add: obscuring_rest)
qed

lemma obscuring_set:
  "fst ` set (obscuring_windows env st drag pos ws) =
    {frame_rect (windows st v) | v. v \<in> set ws \<and> is_window_relevant_for_edges env st drag v}"
  by (induction ws arbitrary: pos) auto

text \<open>Every window that counts has a frame with pixels, some of them on the display.\<close>

definition frames_ok :: "edge_env \<Rightarrow> meta_stack \<Rightarrow> window \<Rightarrow> window list \<Rightarrow> bool" where
  "frames_ok env st drag ws \<longleftrightarrow>
     (\<forall>w\<in>set ws. is_window_relevant_for_edges env st drag w \<longrightarrow>
        rect_positive (frame_rect (windows st w)) \<and>
        (win_type (windows st w) \<noteq> META_WINDOW_DOCK \<longrightarrow> on_display env st w))"

lemma collect_edges_ok:
  assumes "frames_ok env st drag ws" "edges_ok {META_EDGE_WINDOW} edges"
    and "dropWhile (\<lambda>(_, p). p < pos) rem = obscuring_windows env st drag pos ws"
  shows "\<exists>es. collect_edges env st drag pos rem edges ws = Some es \<and> edges_ok {META_EDGE_WINDOW} es \<and>
    cells es = cells edges \<union> visible_borders env st drag ws"
  using assms
proof (induction ws arbitrary: pos rem edges)
  case (Cons w ws)
  note rem = obscuring_shift [OF Cons.prems(3)]
  have ok: "frames_ok env st drag ws" using Cons.prems(1) by (simp add: frames_ok_def)
  show ?case
  proof (cases "is_window_relevant_for_edges env st drag w \<and> win_type (windows st w) \<noteq> META_WINDOW_DOCK")
    case True
    then have "on_display env st w" using Cons.prems(1) by (simp add: frames_ok_def)
    note pos = reduced_on_display(1) [OF this]
    define rem' where "rem' = dropWhile (\<lambda>(_, p). pos \<ge> p) rem"
    have rem': "rem' = obscuring_windows env st drag (pos + 1) ws"
      unfolding rem'_def by (rule obscuring_drop [OF Cons.prems(3)])
    have frames: "set (map fst rem') = {frame_rect (windows st v) | v. v \<in> set ws \<and> is_window_relevant_for_edges env st drag v}"
      unfolding rem' using obscuring_set by simp
    then have "list_all rect_positive (map fst rem')"
      using ok unfolding frames_ok_def list_all_iff by auto
    from remove_boxes_ok [OF edges_of_window_ok(1) [OF pos] this] obtain new where
      new: "meta_rectangle_remove_intersections_with_boxes_from_edges (edges_of_window (reduced env st w)) (map fst rem') = Some new"
        "edges_ok {META_EDGE_WINDOW} new"
        "cells new = {c \<in> cells (edges_of_window (reduced env st w)). \<forall>r\<in>set (map fst rem'). \<not> boxed r c}" by blast
    have "cells new = Collect (borders env st drag w ws)"
      unfolding new(3) frames edges_of_window_ok(2) [OF pos] borders_def
      using ok by (auto simp: frames_ok_def boxed_px)
    moreover have "edges_ok {META_EDGE_WINDOW} (new @ edges)" using new(2) Cons.prems(2) by simp
    from Cons.IH [OF ok this rem(2)] obtain es where
      "collect_edges env st drag (pos + 1) rem' (new @ edges) ws = Some es" "edges_ok {META_EDGE_WINDOW} es"
      "cells es = cells (new @ edges) \<union> visible_borders env st drag ws" unfolding rem'_def by blast
    ultimately show ?thesis using True new(1) by (auto simp: rem'_def [symmetric])
  next
    case False
    from Cons.IH [OF ok Cons.prems(2) rem(1)] False show ?thesis by auto
  qed
qed simp

text \<open>The arrays: sorted by position, and with the edges that were put in.\<close>

lemma cache_sorted:
  "sorted_edges True (left_edges (cache_edges a b c))" "sorted_edges True (right_edges (cache_edges a b c))"
  "sorted_edges False (top_edges (cache_edges a b c))" "sorted_edges False (bottom_edges (cache_edges a b c))"
proof -
  have "sorted_edges h (sort_key array_key (filter (\<lambda>e. vertical_side (side_type e) = h) xs))" for h xs
  proof -
    define ys where "ys = sort_key array_key (filter (\<lambda>e. vertical_side (side_type e) = h) xs)"
    have "sorted (map array_key ys)" by (simp add: ys_def)
    then have "sorted_wrt (\<lambda>e f. array_key e \<le> array_key f) ys" by (simp add: sorted_map)
    then have "sorted_edges h ys"
      unfolding sorted_edges_def sorted_map
      by (rule sorted_wrt_mono_rel [rotated])
         (auto simp: ys_def array_key_def edge_pos_def less_eq_prod_def split: if_splits)
    then show ?thesis by (simp add: ys_def)
  qed
  from this [of True] this [of False]
  show "sorted_edges True (left_edges (cache_edges a b c))" "sorted_edges True (right_edges (cache_edges a b c))"
    "sorted_edges False (top_edges (cache_edges a b c))" "sorted_edges False (bottom_edges (cache_edges a b c))"
    by (simp_all add: cache_edges_def Let_def del: filter_append)
qed

lemma cache_set:
  "set (left_edges (cache_edges a b c)) = {e \<in> set a \<union> set b \<union> set c. vertical_side (side_type e)}"
  "right_edges (cache_edges a b c) = left_edges (cache_edges a b c)"
  "set (top_edges (cache_edges a b c)) = {e \<in> set a \<union> set b \<union> set c. \<not> vertical_side (side_type e)}"
  "bottom_edges (cache_edges a b c) = top_edges (cache_edges a b c)"
  by (auto simp: cache_edges_def Let_def)

section \<open>The edges of a drag\<close>

lemma frames_ok_same:
  assumes "same_stack st st'" "frames_ok env st drag ws" "set ws' \<subseteq> set ws"
  shows "frames_ok env st' drag ws'"
proof -
  have "win_type (windows st' v) = win_type (windows st v) \<and> frame_rect (windows st' v) = frame_rect (windows st v)" for v
  proof -
    have "unplaced (windows st' v) = unplaced (windows st v)" using assms(1) by (simp add: same_stack_def)
    from arg_cong [OF this, of win_type] arg_cong [OF this, of frame_rect] show ?thesis
      by (simp add: unplaced_def)
  qed
  then show ?thesis
    using assms(2,3) unfolding frames_ok_def is_window_relevant_for_edges_def on_display_def by auto
qed

lemma listed_windows:
  assumes "stack_ok st"
  shows "\<exists>ws st'. meta_stack_list_windows st (Some (active_workspace st)) = Some (ws, st') \<and>
    same_stack st st' \<and> set ws \<subseteq> set (sorted_windows st)"
proof -
  from ensure_sorted_ok [OF assms] obtain st' where
    st': "meta_stack_ensure_sorted st = Some st'" "same_stack st st'" by blast
  have "set (sorted_windows st') = set (sorted_windows st)"
    using st'(2) by (metis same_stack_def set_mset_mset)
  with st' show ?thesis by (auto simp: meta_stack_list_windows_def)
qed

lemma cache_cells:
  "cells (left_edges (cache_edges a b c) @ top_edges (cache_edges a b c)) = cells a \<union> cells b \<union> cells c"
proof -
  have "set (left_edges (cache_edges a b c) @ top_edges (cache_edges a b c)) = set (a @ b @ c)"
    using cache_set [of a b c] by auto
  then show ?thesis unfolding cells_def by (simp add: Un_assoc)
qed

definition sorted_data :: "edge_resistance_data \<Rightarrow> bool" where
  "sorted_data d \<longleftrightarrow>
     sorted_edges True (left_edges d) \<and> right_edges d = left_edges d \<and>
     sorted_edges False (top_edges d) \<and> bottom_edges d = top_edges d \<and>
     list_all (\<lambda>e. vertical_side (side_type e)) (left_edges d) \<and>
     list_all (\<lambda>e. \<not> vertical_side (side_type e)) (top_edges d)"

lemma compute_edges:
  assumes "stack_ok st" "frames_ok env st drag (sorted_windows st)"
  shows "\<exists>ws st' d. meta_stack_list_windows st (Some (active_workspace st)) = Some (ws, st') \<and>
    compute_resistance_and_snapping_edges env st drag = Some (d, st') \<and> same_stack st st' \<and> sorted_data d \<and>
    cells (left_edges d @ top_edges d) =
      visible_borders env st' drag ws \<union> cells (ws_monitor_edges env) \<union> cells (ws_screen_edges env) \<and>
    set (ws_screen_edges env) \<subseteq> set (left_edges d) \<union> set (top_edges d)"
proof -
  from listed_windows [OF assms(1)] obtain ws st' where
    l: "meta_stack_list_windows st (Some (active_workspace st)) = Some (ws, st')" "same_stack st st'"
      "set ws \<subseteq> set (sorted_windows st)" by blast
  from collect_edges_ok [OF frames_ok_same [OF l(2) assms(2) l(3)], of "[]" 0 "obscuring_windows env st' drag 0 ws"]
  obtain es where es: "collect_edges env st' drag 0 (obscuring_windows env st' drag 0 ws) [] ws = Some es"
    "cells es = visible_borders env st' drag ws"
    using obscuring_rest [of "-1" env st' drag ws] by (auto simp: zle_diff1_eq [of _ 0, simplified])
  define d where "d = cache_edges (sort_key edge_key es) (ws_monitor_edges env) (ws_screen_edges env)"
  have "compute_resistance_and_snapping_edges env st drag = Some (d, st')"
    using l(1) es(1) by (simp add: compute_resistance_and_snapping_edges_def d_def)
  moreover have "sorted_data d"
    using cache_sorted cache_set by (simp add: sorted_data_def d_def list_all_iff)
  moreover have "cells (left_edges d @ top_edges d) =
      visible_borders env st' drag ws \<union> cells (ws_monitor_edges env) \<union> cells (ws_screen_edges env)"
    unfolding d_def cache_cells by (simp add: es(2))
  moreover have "set (ws_screen_edges env) \<subseteq> set (left_edges d) \<union> set (top_edges d)"
    unfolding d_def cache_set by auto
  ultimately show ?thesis using l by blast
qed

text \<open>The screen has edges of both orientations, and so has the cache of a drag.\<close>

definition screen_edged :: "edge_env \<Rightarrow> bool" where
  "screen_edged env \<longleftrightarrow>
     list_ex (\<lambda>e. vertical_side (side_type e)) (ws_screen_edges env) \<and>
     list_ex (\<lambda>e. \<not> vertical_side (side_type e)) (ws_screen_edges env)"

definition drag_ready :: "window_drag \<Rightarrow> bool" where
  "drag_ready drag \<longleftrightarrow> (\<forall>d. edge_qdata drag = Some d \<longrightarrow> edges_everywhere d)"

lemma ensure_edges:
  assumes "stack_ok st" "frames_ok env st (dragged drag) (sorted_windows st)" "screen_edged env" "drag_ready drag"
  shows "\<exists>d st'. meta_window_drag_ensure_edge_resistance_data env st drag =
      Some (d, st', drag\<lparr>edge_qdata := Some d\<rparr>) \<and> same_stack st st' \<and> edges_everywhere d"
proof (cases "edge_qdata drag")
  case None
  from compute_edges [OF assms(1,2)] obtain st' d where
    d: "compute_resistance_and_snapping_edges env st (dragged drag) = Some (d, st')" "same_stack st st'"
      "sorted_data d" "set (ws_screen_edges env) \<subseteq> set (left_edges d) \<union> set (top_edges d)" by blast
  obtain e f where "e \<in> set (ws_screen_edges env)" "vertical_side (side_type e)"
    "f \<in> set (ws_screen_edges env)" "\<not> vertical_side (side_type f)"
    using assms(3) by (auto simp: screen_edged_def list_ex_iff)
  then have "e \<in> set (left_edges d)" "f \<in> set (top_edges d)"
    using d(3,4) by (auto simp: sorted_data_def list_all_iff)
  then have "edges_everywhere d" using d(3) by (auto simp: edges_everywhere_def sorted_data_def)
  with None d(1,2) show ?thesis by (simp add: meta_window_drag_ensure_edge_resistance_data_def)
next
  case (Some d)
  then have "drag\<lparr>edge_qdata := Some d\<rparr> = drag" by (cases drag) simp
  with Some assms(4) show ?thesis
    by (simp add: meta_window_drag_ensure_edge_resistance_data_def drag_ready_def)
qed

text \<open>A window off the display: the four edges are at the uninitialised position.\<close>

lemma off_display_edges:
  assumes "\<not> on_display env st w"
  shows "map (\<lambda>e. (rect_x (edge_rect e), rect_y (edge_rect e))) (edges_of_window (reduced env st w)) =
    replicate 4 (rect_x (uninitialised env w), rect_y (uninitialised env w))"
  using assms
  by (auto simp: on_display_def reduced_def mtk_rectangle_intersect_def Let_def edges_of_window_def
      window_edge_def numeral_eq_Suc split: if_splits)

end
