(* ===== verification/Stack_Reach.thy ===== *)
theory Stack_Reach
  imports Stack_Order
begin

text \<open>
  Every call of the stack as a datatype and the states they reach. What the calls keep is proved
  once, in a locale that asks of a property only that the steps the calls are made of keep it; it
  is interpreted for the transients (which stay a forest), for the order of the sorted list, and
  for the invariant of the positions alone.
\<close>

section \<open>Calls\<close>

datatype stack_call =
    Add window | Remove window | Update_layer | Update_transient
  | Raise window | Lower window | Freeze | Thaw
  | Set_stack_position window int | Just_below window window | Just_above window window
  | Update_window_layer window | Set_transient_for window "window option" bool bool
  | Raise_window window | Query

fun exec_stack :: "stack_call \<Rightarrow> meta_stack \<Rightarrow> meta_stack option" where
  "exec_stack (Add w) st = meta_stack_add st w"
| "exec_stack (Remove w) st = meta_stack_remove st w"
| "exec_stack Update_layer st = meta_stack_update_layer st"
| "exec_stack Update_transient st = meta_stack_update_transient st"
| "exec_stack (Raise w) st = meta_stack_raise st w"
| "exec_stack (Lower w) st = meta_stack_lower st w"
| "exec_stack Freeze st = Some (meta_stack_freeze st)"
| "exec_stack Thaw st = meta_stack_thaw st"
| "exec_stack (Set_stack_position w p) st = meta_window_set_stack_position st w p"
| "exec_stack (Just_below w v) st = meta_window_stack_just_below st w v"
| "exec_stack (Just_above w v) st = meta_window_stack_just_above st w v"
| "exec_stack (Update_window_layer w) st = meta_window_update_layer st w"
| "exec_stack (Set_transient_for w p k a) st = meta_window_set_transient_for st w p k a"
| "exec_stack (Raise_window w) st = meta_window_raise st w"
| "exec_stack Query st = meta_stack_ensure_sorted st"

section \<open>The steps of a call\<close>

text \<open>The states \<open>meta_stack_add\<close> and \<open>meta_stack_remove\<close> prepare before they signal the change.\<close>

definition stack_with :: "window \<Rightarrow> meta_stack \<Rightarrow> meta_stack" where
  "stack_with w st =
     (set_position w (n_positions st) (emit (Window_added w)
       (st\<lparr>sorted_windows := w # sorted_windows st, need_resort := True, need_constrain := True,
           need_relayer := True\<rparr>)))\<lparr>n_positions := n_positions st + 1\<rparr>"

definition stack_without :: "window \<Rightarrow> meta_stack \<Rightarrow> meta_stack" where
  "stack_without w st =
     (let st1 = meta_window_set_stack_position_no_sync st w (n_positions st - 1)
      in emit (Window_removed w) ((set_position w (- 1) st1)
           \<lparr>n_positions := n_positions st - 1, sorted_windows := remove1 w (sorted_windows st)\<rparr>))"

lemma meta_stack_add_eq:
  "meta_stack_add st w =
     (if meta_window_is_stackable (windows st w) then stack_changed_and_tiled (stack_with w st) else Some st)"
  by (simp add: meta_stack_add_def stack_with_def emit_def Let_def)

lemma meta_stack_remove_eq: "meta_stack_remove st w = stack_changed_and_tiled (stack_without w st)"
  by (simp add: meta_stack_remove_def stack_without_def Let_def set_position_def set_position_no_sync_rest)

lemma stack_ok_flags:
  "stack_ok st \<Longrightarrow> stack_ok (st\<lparr>need_relayer := b\<rparr>)" "stack_ok st \<Longrightarrow> stack_ok (st\<lparr>need_constrain := b\<rparr>)"
  "stack_ok st \<Longrightarrow> stack_ok (st\<lparr>freeze_count := n\<rparr>)" "stack_ok st \<Longrightarrow> stack_ok (emit s st)"
  by (erule stack_ok_cong; simp add: emit_def)+

lemma stack_ok_with:
  assumes "stack_ok st" "w \<notin> set (sorted_windows st)"
  shows "stack_ok (stack_with w st)"
proof -
  let ?n = "n_positions st"
  let ?st = "(set_position w ?n (emit (Window_added w)
    (st\<lparr>sorted_windows := w # sorted_windows st, need_resort := True, need_constrain := True, need_relayer := True\<rparr>)))
    \<lparr>n_positions := ?n + 1\<rparr>"
  note w = assms(2)
  have n: "?n \<ge> 0" using assms(1) by (simp add: stack_ok_def)
  have old: "bij_betw (position ?st) (set (sorted_windows st)) {0..<?n}"
    using assms(1) w unfolding stack_ok_def
    by (elim conjE) (rule bij_betw_cong [THEN iffD1, rotated], assumption, auto simp: set_position_def emit_def)
  have "bij_betw (position ?st) (insert w (set (sorted_windows st))) (insert ?n {0..<?n})"
    using notIn_Un_bij_betw [OF w _ old] by (simp add: set_position_def emit_def)
  moreover have "insert ?n {0..<?n} = {0..<?n + 1}" using n by auto
  ultimately have b: "bij_betw (position ?st) (set (sorted_windows ?st)) {0..<n_positions ?st}"
    by (simp add: set_position_def emit_def)
  have "stack_ok ?st" unfolding stack_ok_def
  proof (intro conjI b)
    show "distinct (sorted_windows ?st)" "n_positions ?st = int (length (sorted_windows ?st))"
      "\<forall>v. v \<notin> set (sorted_windows ?st) \<longrightarrow> position ?st v = - 1"
      using assms(1) w by (simp_all add: stack_ok_def set_position_def emit_def)
  qed
  then show ?thesis by (simp add: stack_with_def)
qed

lemma stack_ok_without:
  assumes "stack_ok st" and w: "w \<in> set (sorted_windows st)"
  shows "stack_ok (stack_without w st)"
proof -
  let ?n = "n_positions st" and ?S = "set (sorted_windows st)"
  define st1 where "st1 = meta_window_set_stack_position_no_sync st w (?n - 1)"
  have st1: "stack_ok st1" "sorted_windows st1 = sorted_windows st" "n_positions st1 = ?n"
    using stack_ok_set_position_no_sync [OF assms(1)] set_position_no_sync_rest by (simp_all add: st1_def)
  have n: "0 \<le> ?n - 1" "?n - 1 < ?n" using position_range [OF assms] by auto
  have top: "position st1 w = ?n - 1"
    using set_position_no_sync_window [OF assms n, of w] w by (simp add: st1_def)
  let ?st = "emit (Window_removed w) ((set_position w (- 1) st1)
    \<lparr>n_positions := ?n - 1, sorted_windows := remove1 w (sorted_windows st)\<rparr>)"
  have d: "distinct (sorted_windows st)" using assms(1) by (simp add: stack_ok_def)
  have "bij_betw (position st1) ?S {0..<?n}" using stack_okD(3) [OF st1(1)] unfolding st1(2,3) .
  then have "bij_betw (position st1) (?S - {w}) ({0..<?n} - {?n - 1})"
    using bij_betw_DiffI [of "position st1" ?S "{0..<?n}" "{w}" "{?n - 1}"] w top n by (simp add: bij_betw_def)
  moreover have "{0..<?n} - {?n - 1} = {0..<?n - 1}" using n by auto
  ultimately have b: "bij_betw (position st1) (?S - {w}) {0..<?n - 1}" by simp
  have "bij_betw (position ?st) (?S - {w}) {0..<?n - 1}"
    by (rule bij_betw_cong [THEN iffD1, OF _ b]) (simp add: set_position_def emit_def)
  then have b: "bij_betw (position ?st) (set (sorted_windows ?st)) {0..<n_positions ?st}"
    using d st1(3) by (simp add: set_position_def emit_def)
  have "stack_ok ?st" unfolding stack_ok_def
  proof (intro conjI b)
    show "distinct (sorted_windows ?st)" using d by (simp add: emit_def)
    have "length (sorted_windows st) \<ge> 1" using length_pos_if_in_set [OF w] by linarith
    then show "n_positions ?st = int (length (sorted_windows ?st))"
      using stack_okD(2) [OF assms(1)] w by (simp add: emit_def length_remove1 of_nat_diff)
    show "\<forall>v. v \<notin> set (sorted_windows ?st) \<longrightarrow> position ?st v = - 1"
      using stack_okD(4) [OF st1(1)] st1(2) d by (simp add: set_position_def emit_def)
  qed
  then show ?thesis by (simp add: stack_without_def st1_def Let_def)
qed

section \<open>Transients form a forest\<close>

definition parent_rel :: "meta_stack \<Rightarrow> (window \<times> window) set" where
  "parent_rel st = {(p, w). transient_for (windows st w) = Some p}"

definition forest :: "meta_stack \<Rightarrow> bool" where
  "forest st \<longleftrightarrow> wf (parent_rel st)"

lemma parent_rel_same: "same_stack st st' \<Longrightarrow> parent_rel st' = parent_rel st"
  by (simp add: parent_rel_def same_windows(2))

lemma parent_rel_simps [simp]:
  "parent_rel (st\<lparr>sorted_windows := l\<rparr>) = parent_rel st" "parent_rel (st\<lparr>need_resort := b\<rparr>) = parent_rel st"
  "parent_rel (st\<lparr>need_constrain := b\<rparr>) = parent_rel st" "parent_rel (st\<lparr>need_relayer := b\<rparr>) = parent_rel st"
  "parent_rel (st\<lparr>freeze_count := n\<rparr>) = parent_rel st" "parent_rel (st\<lparr>n_positions := n\<rparr>) = parent_rel st"
  "parent_rel (emit s st) = parent_rel st" "parent_rel (set_position w n st) = parent_rel st"
  by (auto simp: parent_rel_def emit_def set_position_def)

lemma parent_rel_set_position_no_sync [simp]:
  "stack_ok st \<Longrightarrow> parent_rel (meta_window_set_stack_position_no_sync st w p) = parent_rel st"
  by (rule parent_rel_same) (simp add: stack_ok_set_position_no_sync)

text \<open>The loop test ends on a forest, and finds exactly the loops.\<close>

lemma check_transient_for_loop_forest:
  assumes "forest st"
  shows "\<exists>b. check_transient_for_loop st w parent = Some b \<and>
    (b \<longleftrightarrow> (\<exists>p. parent = Some p \<and> (w, p) \<in> (parent_rel st)\<^sup>*))"
proof (cases parent)
  case (Some p)
  have "wf (parent_rel st)" using assms by (simp add: forest_def)
  then have "\<exists>b. check_transient_for_loop st w (Some p) = Some b \<and> (b \<longleftrightarrow> (w, p) \<in> (parent_rel st)\<^sup>*)"
  proof (induction p rule: wf_induct_rule)
    case (less p)
    show ?case
    proof (cases "p = w")
      case True
      then show ?thesis by (intro exI [of _ True], subst check_transient_for_loop.simps) simp
    next
      case False
      show ?thesis
      proof (cases "transient_for (windows st p)")
        case None
        then have "(w, p) \<notin> (parent_rel st)\<^sup>*" using False
          by (auto elim: rtranclE simp: parent_rel_def)
        then show ?thesis using False None
          by (intro exI [of _ False], subst check_transient_for_loop.simps, subst check_transient_for_loop.simps) simp
      next
        case (Some q)
        then have q: "(q, p) \<in> parent_rel st" by (simp add: parent_rel_def)
        have "(w, p) \<in> (parent_rel st)\<^sup>* \<longleftrightarrow> (w, q) \<in> (parent_rel st)\<^sup>*"
          using False Some q by (auto elim: rtranclE simp: parent_rel_def intro: rtrancl_into_rtrancl)
        then show ?thesis using less.IH [OF q] False Some
          by (subst check_transient_for_loop.simps) simp
      qed
    qed
  qed
  then show ?thesis using Some by simp
qed (intro exI [of _ False], subst check_transient_for_loop.simps, simp)

lemma root_ancestor_forest:
  assumes "forest st" shows "\<exists>a. root_ancestor_from st anc w = Some a"
proof -
  have "wf (parent_rel st)" using assms by (simp add: forest_def)
  then show ?thesis
  proof (induction w arbitrary: anc rule: wf_induct_rule)
    case (less w)
    show ?case
      by (subst root_ancestor_from.simps)
        (auto split: option.split intro: less.IH simp: parent_rel_def)
  qed
qed

lemma stack_ok_windows:
  assumes "stack_ok st" "\<And>v. stack_position (f v) = position st v"
  shows "stack_ok (st\<lparr>windows := f\<rparr>)"
  by (rule stack_ok_cong [OF assms(1)]) (simp_all add: assms(2))

lemma set_transient_for_forest:
  assumes "forest st" "check_transient_for_loop st w parent = Some False"
  shows "forest (st\<lparr>windows := (windows st)(w := (windows st w)\<lparr>transient_for := parent\<rparr>)\<rparr>)"
    (is "forest ?st")
proof (cases parent)
  case None
  then have "parent_rel ?st \<subseteq> parent_rel st" by (auto simp: parent_rel_def split: if_splits)
  with assms(1) show ?thesis unfolding forest_def by (rule wf_subset)
next
  case (Some p)
  have "(w, p) \<notin> (parent_rel st)\<^sup>*"
    using check_transient_for_loop_forest [OF assms(1), of w parent] assms(2) Some by auto
  then have "wf (insert (p, w) (parent_rel st))" using assms(1) by (simp add: forest_def)
  moreover have "parent_rel ?st \<subseteq> insert (p, w) (parent_rel st)"
    using Some by (auto simp: parent_rel_def split: if_splits)
  ultimately show ?thesis unfolding forest_def by (rule wf_subset)
qed

section \<open>What every call keeps\<close>

text \<open>A call returns, with a valid stack that is up to date unless it is frozen, and with \<open>Q\<close>.\<close>

definition stack_inv :: "meta_stack \<Rightarrow> bool" where
  "stack_inv st \<longleftrightarrow> stack_ok st \<and> (freeze_count st \<le> 0 \<longrightarrow> flags_clear st)"

definition runs :: "(meta_stack \<Rightarrow> bool) \<Rightarrow> meta_stack option \<Rightarrow> bool" where
  "runs Q r \<longleftrightarrow> (\<exists>st. r = Some st \<and> stack_inv st \<and> Q st)"

lemma runs_Some [simp]: "runs Q (Some st) \<longleftrightarrow> stack_inv st \<and> Q st"
  by (simp add: runs_def)

lemma runs_bind:
  "runs Q r \<Longrightarrow> (\<And>st. stack_inv st \<Longrightarrow> Q st \<Longrightarrow> runs Q (f st)) \<Longrightarrow> runs Q (Option.bind r f)"
  by (auto simp: runs_def)

lemma runs_fold:
  assumes "stack_inv st" "Q st" "\<And>x st. stack_inv st \<Longrightarrow> Q st \<Longrightarrow> runs Q (f x st)"
  shows "runs Q (fold_opt f xs st)"
  using assms(1,2)
proof (induction xs arbitrary: st)
  case (Cons x xs)
  then show ?case using assms(3) by (auto intro!: runs_bind)
qed simp

lemma stack_invD: "stack_inv st \<Longrightarrow> stack_ok st"
  by (simp add: stack_inv_def)

lemma freeze_inv: "stack_inv st \<Longrightarrow> stack_inv (meta_stack_freeze st)"
  by (auto simp: stack_inv_def meta_stack_freeze_def stack_ok_flags flags_clear_def)

text \<open>The calls but those that change transients: their effect on \<open>Q\<close> is not one of these steps.\<close>

fun keeps_transients :: "stack_call \<Rightarrow> bool" where
  "keeps_transients Update_transient \<longleftrightarrow> False"
| "keeps_transients (Set_transient_for w p k a) \<longleftrightarrow> False"
| "keeps_transients c \<longleftrightarrow> True"

text \<open>Windows are added when they are not in the stack and removed when they are, as the callers
  in \<open>window.c\<close> test.\<close>

fun stack_call_enabled :: "stack_call \<Rightarrow> meta_stack \<Rightarrow> bool" where
  "stack_call_enabled (Add w) st \<longleftrightarrow> \<not> meta_window_is_in_stack (windows st w)"
| "stack_call_enabled (Remove w) st \<longleftrightarrow> meta_window_is_in_stack (windows st w)"
| "stack_call_enabled _ st \<longleftrightarrow> True"

locale stack_kept =
  fixes Q :: "meta_stack \<Rightarrow> bool"
  assumes Q_forest: "Q st \<Longrightarrow> forest st"
    and Q_sorted: "stack_ok st \<Longrightarrow> Q st \<Longrightarrow> meta_stack_ensure_sorted st = Some st' \<Longrightarrow> Q st'"
    and Q_moved: "stack_ok st \<Longrightarrow> Q st \<Longrightarrow> Q (meta_window_set_stack_position_no_sync st w p)"
    and Q_relayer: "Q st \<Longrightarrow> Q (st\<lparr>need_relayer := True\<rparr>)"
    and Q_frozen: "Q st \<Longrightarrow> Q (st\<lparr>freeze_count := n\<rparr>)"
    and Q_signal: "Q st \<Longrightarrow> Q (emit s st)"
    and Q_with: "stack_ok st \<Longrightarrow> Q st \<Longrightarrow> w \<notin> set (sorted_windows st) \<Longrightarrow> Q (stack_with w st)"
    and Q_without: "stack_ok st \<Longrightarrow> Q st \<Longrightarrow> w \<in> set (sorted_windows st) \<Longrightarrow> Q (stack_without w st)"
begin

lemma sorted_runs:
  assumes "stack_ok st" "Q st" shows "runs Q (meta_stack_ensure_sorted st)"
  using ensure_sorted_ok [OF assms(1)] Q_sorted [OF assms] by (auto simp: runs_def stack_inv_def)

lemma changed_runs:
  assumes "stack_ok st" "Q st" shows "runs Q (stack_changed_and_tiled st)"
proof (cases "freeze_count st > 0")
  case True
  then show ?thesis using assms
    by (simp add: runs_def stack_inv_def stack_changed_and_tiled_def meta_stack_changed_def
        meta_stack_update_window_tile_matches_def)
next
  case False
  obtain st' where st': "meta_stack_ensure_sorted st = Some st'" "stack_ok st'" "same_stack st st'" "flags_clear st'"
    using ensure_sorted_ok [OF assms(1)] by blast
  then have "stack_changed_and_tiled st = Some (emit Changed st')"
    using False ensure_sorted_id [of "emit Changed st'"]
    by (auto simp: stack_changed_and_tiled_def meta_stack_changed_def same_stack_def flags_clear_def
        meta_stack_update_window_tile_matches_def emit_def)
  moreover have "stack_inv (emit Changed st')"
    using st' stack_ok_flags(4) by (auto simp: stack_inv_def flags_clear_def emit_def)
  ultimately show ?thesis using Q_signal Q_sorted [OF assms st'(1)] by simp
qed

lemma moved_runs:
  "stack_ok st \<Longrightarrow> Q st \<Longrightarrow> runs Q (meta_window_set_stack_position st w p)"
  by (simp add: meta_window_set_stack_position_def changed_runs Q_moved stack_ok_set_position_no_sync)

lemma raise_runs:
  assumes "stack_ok st" "Q st" shows "runs Q (meta_stack_raise st w)"
  unfolding meta_stack_raise_def Let_def
proof (rule runs_bind [OF sorted_runs [OF assms]])
  fix st assume "stack_inv st" "Q st"
  then show "runs Q (if m = n then Some st
    else stack_changed_and_tiled (meta_window_set_stack_position_no_sync st w m))" for m n
    using moved_runs by (simp add: stack_invD meta_window_set_stack_position_def)
qed

lemma lower_runs:
  assumes "stack_ok st" "Q st" shows "runs Q (meta_stack_lower st w)"
  unfolding meta_stack_lower_def Let_def
proof (rule runs_bind [OF sorted_runs [OF assms]])
  fix st assume "stack_inv st" "Q st"
  then show "runs Q (if m = n then Some st
    else stack_changed_and_tiled (meta_window_set_stack_position_no_sync st w m))" for m n
    using moved_runs by (simp add: stack_invD meta_window_set_stack_position_def)
qed

lemma update_layer_runs: "stack_ok st \<Longrightarrow> Q st \<Longrightarrow> runs Q (meta_stack_update_layer st)"
  by (simp add: meta_stack_update_layer_def changed_runs stack_ok_flags Q_relayer)

lemma thaw_runs: "stack_inv st \<Longrightarrow> Q st \<Longrightarrow> runs Q (meta_stack_thaw st)"
  by (simp add: meta_stack_thaw_def changed_runs stack_ok_flags Q_frozen stack_invD)

lemma update_window_layer_runs:
  assumes "stack_inv st" "Q st" shows "runs Q (meta_window_update_layer st w)"
proof -
  let ?st1 = "meta_stack_freeze st"
  have 1: "stack_inv ?st1" "Q ?st1" using freeze_inv [OF assms(1)] assms(2) Q_frozen
    by (simp_all add: meta_stack_freeze_def)
  have 2: "stack_inv s \<Longrightarrow> Q s \<Longrightarrow> runs Q (meta_stack_update_layer (meta_stack_freeze s))" for s
    using freeze_inv Q_frozen by (intro update_layer_runs) (auto simp: meta_stack_freeze_def stack_inv_def)
  have 3: "runs Q (meta_stack_update_layer ?st1)" using 1 by (simp add: update_layer_runs stack_invD)
  have 4: "runs Q (Option.bind (fold_opt (\<lambda>_ st. meta_stack_update_layer (meta_stack_freeze st)) ws ?st1)
    (fold_opt (\<lambda>_ st. meta_stack_thaw st) ws))" for ws :: "window list"
  proof (rule runs_bind)
    show "runs Q (fold_opt (\<lambda>_ st. meta_stack_update_layer (meta_stack_freeze st)) ws ?st1)"
      by (rule runs_fold) (simp_all add: 1 2)
  qed (simp add: runs_fold thaw_runs)
  show ?thesis unfolding meta_window_update_layer_def Let_def
  proof (rule runs_bind)
    show "runs Q (case (if client_x11 (windows st w) then win_group (windows st w) else None) of
        None \<Rightarrow> meta_stack_update_layer ?st1
      | Some g \<Rightarrow> if group_windows ?st1 g = [] then Some ?st1
          else Option.bind (fold_opt (\<lambda>_ st. meta_stack_update_layer (meta_stack_freeze st)) (group_windows ?st1 g) ?st1)
                (fold_opt (\<lambda>_ st. meta_stack_thaw st) (group_windows ?st1 g)))"
      using 1 3 4 by (simp split: option.split)
  qed (simp add: thaw_runs)
qed

lemma raise_window_runs:
  assumes "stack_inv st" "Q st" shows "runs Q (meta_window_raise st w)"
proof -
  obtain a where "meta_window_find_root_ancestor st w = Some a"
    using root_ancestor_forest [OF Q_forest [OF assms(2)]] unfolding meta_window_find_root_ancestor_def by blast
  moreover have "runs Q (Option.bind (meta_stack_raise st a)
      (\<lambda>st1. if w \<noteq> a then meta_stack_raise st1 w else Some st1))"
    using assms by (auto intro!: runs_bind raise_runs simp: stack_invD)
  ultimately show ?thesis using assms by (simp add: meta_window_raise_def)
qed

theorem call_runs:
  assumes "stack_inv st" "Q st" "stack_call_enabled c st" "keeps_transients c"
  shows "runs Q (exec_stack c st)"
proof -
  have ok: "stack_ok st" using assms(1) by (rule stack_invD)
  have "Q (meta_stack_freeze st)" using Q_frozen assms(2) by (simp add: meta_stack_freeze_def)
  with assms ok freeze_inv [OF assms(1)] show ?thesis
    by (cases c) (simp_all add: meta_stack_add_eq meta_stack_remove_eq in_stack_iff changed_runs
        stack_ok_with stack_ok_without Q_with Q_without update_layer_runs raise_runs lower_runs thaw_runs
        moved_runs update_window_layer_runs raise_window_runs sorted_runs meta_window_stack_just_below_def
        meta_window_stack_just_above_def)
qed

end

section \<open>Reachable stacks\<close>

lemma forest_same: "forest st \<Longrightarrow> parent_rel st' = parent_rel st \<Longrightarrow> forest st'"
  by (simp add: forest_def)

lemma parent_rel_with: "parent_rel (stack_with w st) = parent_rel st"
  by (simp add: stack_with_def)

lemma parent_rel_without: "stack_ok st \<Longrightarrow> parent_rel (stack_without w st) = parent_rel st"
  by (simp add: stack_without_def Let_def)

lemma parent_rel_sorted:
  "stack_ok st \<Longrightarrow> meta_stack_ensure_sorted st = Some st' \<Longrightarrow> parent_rel st' = parent_rel st"
  using ensure_sorted_ok parent_rel_same by fastforce

interpretation fo: stack_kept forest
  by unfold_locales (auto intro: forest_same simp: parent_rel_with parent_rel_without parent_rel_sorted)

text \<open>The call that changes a parent keeps the forest, because it refuses loops.\<close>

lemma update_transient_runs:
  assumes "stack_inv st" "forest st" shows "runs forest (meta_stack_update_transient st)"
proof -
  have "stack_ok (st\<lparr>need_constrain := True\<rparr>)" using assms(1) by (simp add: stack_ok_flags stack_invD)
  moreover have "forest (st\<lparr>need_constrain := True\<rparr>)" using assms(2) by (simp add: forest_def)
  ultimately show ?thesis unfolding meta_stack_update_transient_def by (rule fo.changed_runs)
qed

lemma set_transient_for_runs:
  assumes "stack_inv st" "forest st"
  shows "runs forest (meta_window_set_transient_for st w parent k a)"
proof -
  obtain b where b: "check_transient_for_loop st w parent = Some b"
    using check_transient_for_loop_forest [OF assms(2)] by blast
  let ?st = "st\<lparr>windows := (windows st)(w := (windows st w)\<lparr>transient_for := parent\<rparr>)\<rparr>"
  have "stack_ok ?st" using assms(1) by (intro stack_ok_windows) (auto simp: stack_inv_def)
  then have "stack_inv ?st" using assms(1) by (auto simp: stack_inv_def flags_clear_def)
  then show ?thesis using assms b set_transient_for_forest [OF assms(2)] update_transient_runs
    by (auto simp: meta_window_set_transient_for_def Let_def)
qed

theorem exec_stack_runs:
  assumes "stack_inv st" "forest st" "stack_call_enabled c st"
  shows "runs forest (exec_stack c st)"
proof (cases "keeps_transients c")
  case True
  then show ?thesis using fo.call_runs assms by blast
next
  case False
  then show ?thesis using assms by (cases c) (simp_all add: update_transient_runs set_transient_for_runs)
qed

text \<open>Calls in any order among those that \<open>ok\<close> admits, and changes of the windows by others,
  which touch neither layer nor position nor \<open>transient_for\<close>; \<open>okw\<close> restricts the windows.\<close>

inductive stack_reach ::
  "(stack_call \<Rightarrow> bool) \<Rightarrow> (managed_window \<Rightarrow> bool) \<Rightarrow> meta_stack \<Rightarrow> bool" for ok okw where
  new: "\<forall>w. stack_position (ws w) = - 1 \<and> transient_for (ws w) = None \<and> okw (ws w) \<Longrightarrow>
    stack_reach ok okw (meta_stack_new ws gs a)"
| call: "stack_reach ok okw st \<Longrightarrow> ok c \<Longrightarrow> stack_call_enabled c st \<Longrightarrow> exec_stack c st = Some st' \<Longrightarrow>
    stack_reach ok okw st'"
| change: "stack_reach ok okw st \<Longrightarrow> \<forall>w. stack_position (ws w) = position st w \<and> stack_layer (ws w) = layer st w \<and>
    transient_for (ws w) = transient_for (windows st w) \<and> okw (ws w) \<Longrightarrow>
    stack_reach ok okw (st\<lparr>windows := ws, group_windows := gs, active_workspace := a\<rparr>)"

theorem stack_reach_inv: "stack_reach ok okw st \<Longrightarrow> stack_inv st \<and> forest st"
proof (induction rule: stack_reach.induct)
  case (new ws gs a)
  then show ?case
    by (simp add: stack_inv_def stack_ok_def meta_stack_new_def flags_clear_def forest_def parent_rel_def
        bij_betw_def)
next
  case (call st c st')
  then show ?case using exec_stack_runs [of st c] by (auto simp: runs_def)
next
  case (change st ws a gs)
  let ?st = "st\<lparr>windows := ws, group_windows := gs, active_workspace := a\<rparr>"
  have "stack_ok st" using change by (simp add: stack_inv_def)
  then have "stack_ok ?st" by (rule stack_ok_cong) (use change in simp_all)
  moreover have "parent_rel ?st = parent_rel st" using change by (simp add: parent_rel_def)
  ultimately show ?case using change by (simp add: stack_inv_def forest_def flags_clear_def)
qed

end
