(* ===== verification/Stack_Transient.thy ===== *)
theory Stack_Transient
  imports Stack_Reach
begin

text \<open>
  What the stacking order promises: the sorted list is in order, it is the order in which the
  annotation layer composes its ink, and a transient window lies above its parent. Two examples
  show where the code falls short of this.
\<close>

section \<open>The order is kept\<close>

definition order_inv :: "meta_stack \<Rightarrow> bool" where
  "order_inv st \<longleftrightarrow> forest st \<and> (need_resort st \<or> in_order st) \<and> (need_constrain st \<longrightarrow> need_resort st)"

lemma moved_or_same:
  "need_resort (meta_window_set_stack_position_no_sync st w p) \<or>
   meta_window_set_stack_position_no_sync st w p = st"
  using set_position_no_sync_noop set_position_no_sync_need by blast

lemma sorted_wrt_remove1: "sorted_wrt P xs \<Longrightarrow> sorted_wrt P (remove1 x xs)"
  by (induction xs) (auto dest: notin_set_remove1)

lemma in_order_without:
  assumes "in_order st" "w \<in> set (sorted_windows st)" "distinct (sorted_windows st)"
    and "sorted_windows st' = remove1 w (sorted_windows st)"
    and "\<And>v. v \<noteq> w \<Longrightarrow> windows st' v = windows st v"
  shows "in_order st'"
proof -
  have "sorted_wrt (stacked_above st) (remove1 w (sorted_windows st))"
    by (rule sorted_wrt_remove1) (use assms(1) in \<open>simp add: in_order_def\<close>)
  then have "sorted_wrt (stacked_above st') (remove1 w (sorted_windows st))"
  proof (rule sorted_wrt_mono_rel [rotated])
    fix u v assume "u \<in> set (remove1 w (sorted_windows st))" "v \<in> set (remove1 w (sorted_windows st))"
    then have "windows st' u = windows st u" "windows st' v = windows st v"
      by (auto simp: set_remove1_eq [OF assms(3)] assms(5))
    then show "stacked_above st u v \<Longrightarrow> stacked_above st' u v" by (simp add: stacked_above_def)
  qed
  then show ?thesis using assms(4) by (simp add: in_order_def)
qed

lemma order_inv_without:
  assumes "stack_ok st" "order_inv st" "w \<in> set (sorted_windows st)"
  shows "order_inv (stack_without w st)"
proof -
  let ?st1 = "meta_window_set_stack_position_no_sync st w (n_positions st - 1)"
  have f: "forest (stack_without w st)"
    using assms by (auto simp: order_inv_def parent_rel_without intro: forest_same)
  have flags: "need_resort (stack_without w st) = need_resort ?st1"
    "need_constrain (stack_without w st) = need_constrain ?st1"
    "sorted_windows (stack_without w st) = remove1 w (sorted_windows st)"
    by (simp_all add: stack_without_def Let_def emit_def set_position_def)
  show ?thesis
  proof (cases "need_resort ?st1")
    case True
    then show ?thesis using f flags by (simp add: order_inv_def)
  next
    case False
    then have same: "?st1 = st" using moved_or_same by blast
    have "in_order (stack_without w st)"
    proof (rule in_order_without [OF _ assms(3) stack_okD(1) [OF assms(1)] flags(3)])
      show "in_order st" using False same assms(2) by (simp add: order_inv_def)
    qed (simp add: stack_without_def same Let_def emit_def set_position_def)
    then show ?thesis using f flags False same assms(2) by (simp add: order_inv_def)
  qed
qed

lemma in_order_cong:
  assumes "sorted_windows st' = sorted_windows st"
    "\<And>w. layer st' w = layer st w \<and> position st' w = position st w"
  shows "in_order st' = in_order st"
proof -
  have "stacked_above st' = stacked_above st" by (intro ext) (simp add: stacked_above_def assms(2))
  then show ?thesis by (simp add: in_order_def assms(1))
qed

lemma order_inv_cong:
  assumes "order_inv st" "sorted_windows st' = sorted_windows st" "need_resort st' = need_resort st"
    "need_constrain st' = need_constrain st"
    "\<And>w. layer st' w = layer st w \<and> position st' w = position st w \<and>
      transient_for (windows st' w) = transient_for (windows st w)"
  shows "order_inv st'"
proof -
  have "parent_rel st' = parent_rel st" using assms(5) by (simp add: parent_rel_def)
  moreover have "in_order st' = in_order st" using assms(2,5) by (intro in_order_cong) auto
  ultimately show ?thesis using assms(1,3,4) by (simp add: order_inv_def forest_def)
qed

interpretation od: stack_kept order_inv
proof
  fix st st' assume "stack_ok st" "order_inv st" "meta_stack_ensure_sorted st = Some st'"
  moreover have "flags_clear st'" "parent_rel st' = parent_rel st"
    using ensure_sorted_ok parent_rel_sorted calculation by fastforce+
  ultimately show "order_inv st'"
    using ensure_sorted_in_order [of st st'] by (auto simp: order_inv_def flags_clear_def intro: forest_same)
next
  fix st w p assume "stack_ok st" "order_inv st"
  then show "order_inv (meta_window_set_stack_position_no_sync st w p)"
    using moved_or_same [of st w p] by (auto simp: order_inv_def intro: forest_same)
next
  fix st w assume "stack_ok st" "order_inv st" "w \<notin> set (sorted_windows st)"
  then show "order_inv (stack_with w st)"
    using parent_rel_with by (auto simp: order_inv_def stack_with_def emit_def set_position_def intro: forest_same)
qed (auto simp: order_inv_without emit_def intro: order_inv_cong, simp add: order_inv_def)

theorem stack_reach_order: "stack_reach keeps_transients okw st \<Longrightarrow> stack_inv st \<and> order_inv st"
proof (induction rule: stack_reach.induct)
  case (new ws gs a)
  then have "stack_reach keeps_transients okw (meta_stack_new ws gs a)" by (rule stack_reach.new)
  then show ?case using stack_reach_inv
    by (fastforce simp: order_inv_def in_order_def meta_stack_new_def)
next
  case (call st c st')
  then show ?case using od.call_runs [of st c] by (auto simp: runs_def)
next
  case (change st ws a gs)
  let ?st = "st\<lparr>windows := ws, group_windows := gs, active_workspace := a\<rparr>"
  have "stack_inv ?st" using stack_reach_inv stack_reach.change [OF change(1,2)] by blast
  moreover have "order_inv ?st" by (rule order_inv_cong [of st]) (use change in simp_all)
  ultimately show ?case by blast
qed

section \<open>The order the annotation layer sees\<close>

lemma sorted_wrt_unique:
  assumes "sorted_wrt P xs" "sorted_wrt P ys" "set xs = set ys" "\<And>x y. P x y \<Longrightarrow> \<not> P y x"
  shows "xs = ys"
  using assms(1-3)
proof (induction xs arbitrary: ys)
  case (Cons x xs)
  then obtain y ys' where ys: "ys = y # ys'" by (cases ys) auto
  have "x = y"
  proof (rule ccontr)
    assume "x \<noteq> y"
    then have "x \<in> set ys'" "y \<in> set xs" using Cons.prems(3) ys by auto
    then show False using Cons.prems(1,2) ys assms(4) by auto
  qed
  moreover have "x \<notin> set xs" "y \<notin> set ys'" using Cons.prems(1,2) ys assms(4) by auto
  ultimately have "set xs = set ys'" using Cons.prems(3) ys by auto
  then show ?case using Cons \<open>x = y\<close> ys by simp
qed simp

text \<open>The layer sorts with \<open>meta_window_stack_position_compare\<close>, which reads the same windows.\<close>

definition reads_stack :: "'r display_env \<Rightarrow> meta_stack \<Rightarrow> bool" where
  "reads_stack e st \<longleftrightarrow> (\<forall>w. win_of e w = meta_window.truncate (windows st w))"

lemma sort_by_stacking_in_order:
  assumes "stack_ok st" "in_order st" "reads_stack e st" "distinct ws" "set ws \<subseteq> set (sorted_windows st)"
  shows "meta_display_sort_windows_by_stacking e ws = rev (filter (\<lambda>w. w \<in> set ws) (sorted_windows st))"
proof -
  let ?P = "\<lambda>u v. stacked_above st v u"
  let ?l = "meta_display_sort_windows_by_stacking e ws"
  have le: "below_or_equal e u v \<Longrightarrow> u \<noteq> v \<Longrightarrow> u \<in> set ws \<Longrightarrow> v \<in> set ws \<Longrightarrow> ?P u v" for u v
    using position_inj [OF assms(1)] assms(3,5)
    by (auto simp: below_or_equal_def meta_window_stack_position_compare_def reads_stack_def stacked_above_def
        meta_window.truncate_def split: if_splits)
  have "sorted_wrt ?P ?l"
    unfolding sorted_wrt_iff_nth_less
  proof (intro allI impI)
    fix i j assume ij: "i < j" "j < length ?l"
    have "below_or_equal e (?l ! i) (?l ! j)"
      using sorted_by_stacking [of e ws] ij unfolding sorted_wrt_iff_nth_less by blast
    moreover have "?l ! i \<noteq> ?l ! j"
      using distinct_sort_by_stacking [of e ws] assms(4) ij by (simp add: nth_eq_iff_index_eq)
    moreover have "?l ! i \<in> set ws" "?l ! j \<in> set ws"
      using ij set_sort_by_stacking [of e ws] by (metis nth_mem order_less_trans)+
    ultimately show "?P (?l ! i) (?l ! j)" by (rule le)
  qed
  moreover have "sorted_wrt ?P (rev (filter (\<lambda>w. w \<in> set ws) (sorted_windows st)))"
    using assms(2) unfolding in_order_def by (simp add: sorted_wrt_rev sorted_wrt_filter)
  ultimately show ?thesis
    by (rule sorted_wrt_unique) (use assms(5) in \<open>auto simp: stacked_above_def\<close>)
qed

section \<open>Transients above their parents\<close>

definition placed_above :: "meta_stack \<Rightarrow> constraint \<Rightarrow> bool" where
  "placed_above st c \<longleftrightarrow>
     position st (fst c) > position st (snd c) \<and> layer st (fst c) \<ge> layer st (snd c)"

text \<open>Constraints as of windows transient for one window each, without cycles.\<close>

definition forest_constraints :: "meta_stack \<Rightarrow> constraint set \<Rightarrow> bool" where
  "forest_constraints st N \<longleftrightarrow>
     (\<forall>(a, b) \<in> N. a \<in> set (sorted_windows st) \<and> b \<in> set (sorted_windows st) \<and>
        transient_for (windows st a) = Some b) \<and> wf {(b, a). (a, b) \<in> N}"

lemma forest_constraintsD:
  assumes "forest_constraints st N" "(a, b) \<in> N"
  shows "a \<in> set (sorted_windows st)" "b \<in> set (sorted_windows st)" "transient_for (windows st a) = Some b"
  using assms unfolding forest_constraints_def by blast+

lemma forest_constraints_same:
  "same_stack st st' \<Longrightarrow> forest_constraints st N \<Longrightarrow> forest_constraints st' N"
  using same_stack_set by (auto simp: forest_constraints_def same_windows(2))

lemma placed_above_step:
  assumes "stack_ok st" "forest_constraints st N" "(a, b) \<in> N" "ensure_above st a b = Some st'"
  shows "placed_above st' (a, b)"
    and "c \<in> N \<Longrightarrow> c \<noteq> (a, b) \<Longrightarrow> snd c \<noteq> a \<Longrightarrow> placed_above st c \<Longrightarrow> placed_above st' c"
proof -
  have ab: "a \<in> set (sorted_windows st)" "b \<in> set (sorted_windows st)" "transient_for (windows st a) = Some b"
    using forest_constraintsD [OF assms(2,3)] by blast+
  have "a \<noteq> b"
  proof
    assume "a = b"
    then have "(a, a) \<in> {(b, a). (a, b) \<in> N}" using assms(3) by simp
    moreover have "wf {(b, a). (a, b) \<in> N}" using assms(2) by (simp add: forest_constraints_def)
    ultimately show False using wf_not_refl by fast
  qed
  obtain st'' where "ensure_above st a b = Some st''"
    "\<forall>v. layer st'' v = (if v = a then raised_layer st a b else layer st v)"
    "\<forall>v \<in> set (sorted_windows st). position st'' v = (if position st a < position st b
       then slot (position st a) (position st b) (position st v) else position st v)"
    using ensure_above_ok [OF assms(1) ab(1,2)] by blast
  then have lay: "layer st' v = (if v = a then raised_layer st a b else layer st v)"
    and pos: "v \<in> set (sorted_windows st) \<Longrightarrow> position st' v = (if position st a < position st b
       then slot (position st a) (position st b) (position st v) else position st v)" for v
    using assms(4) by auto
  have "position st a \<noteq> position st b" using position_inj [OF assms(1) ab(1,2)] \<open>a \<noteq> b\<close> by simp
  then show "placed_above st' (a, b)"
    using ab(3) \<open>a \<noteq> b\<close> lay [of a] lay [of b] pos [OF ab(1)] pos [OF ab(2)]
    by (cases "position st a < position st b") (simp_all add: placed_above_def raised_layer_def slot_def)
  assume c: "c \<in> N" "c \<noteq> (a, b)" "snd c \<noteq> a" "placed_above st c"
  obtain x y where xy: "c = (x, y)" by (cases c)
  have m: "x \<in> set (sorted_windows st)" "y \<in> set (sorted_windows st)" "transient_for (windows st x) = Some y"
    using forest_constraintsD [OF assms(2), of x y] c(1) xy by blast+
  then have "x \<noteq> a" "y \<noteq> a" using c(2,3) ab(3) xy by auto
  then have "position st x \<noteq> position st a" "position st y \<noteq> position st a"
    using position_inj [OF assms(1)] m ab(1) by auto
  then show "placed_above st' c"
    using c(4) xy pos [OF m(1)] pos [OF m(2)] lay [of x] lay [of y] \<open>x \<noteq> a\<close> \<open>y \<noteq> a\<close>
    by (cases "position st a < position st b") (simp_all add: placed_above_def slot_mono)
qed

text \<open>What holds while the chains are walked: every constraint applied still holds, those that
  follow it are applied or still to come, and the one before it is applied.\<close>

definition walk_inv ::
  "meta_stack \<Rightarrow> constraint set \<Rightarrow> (constraint \<Rightarrow> constraint list) \<Rightarrow> constraint list \<Rightarrow> constraint list \<Rightarrow> bool" where
  "walk_inv st N nexts applied todo \<longleftrightarrow>
     (\<forall>c \<in> set applied. placed_above st c \<and> set (nexts c) \<subseteq> set applied \<union> set todo) \<and>
     (\<forall>c \<in> set applied \<union> set todo. \<forall>q. (snd c, q) \<in> N \<longrightarrow> (snd c, q) \<in> set applied) \<and>
     set applied \<union> set todo \<subseteq> N"

lemma walk_inv_step:
  assumes "stack_ok st" "forest_constraints st N" "c \<notin> set applied"
    and nexts: "\<And>c. c \<in> N \<Longrightarrow> set (nexts c) = {n \<in> N. snd n = fst c}"
    and inv: "walk_inv st N nexts applied (c # todo)" and st': "ensure_above st (fst c) (snd c) = Some st'"
  shows "walk_inv st' N nexts (c # applied) (nexts c @ todo)"
proof -
  obtain a b where c: "c = (a, b)" by (cases c)
  have cN: "(a, b) \<in> N" using inv c by (simp add: walk_inv_def)
  have only: "(a, q) \<in> N \<Longrightarrow> q = b" for q
    using forest_constraintsD [OF assms(2) cN] forest_constraintsD [OF assms(2), of a q] by simp
  have no_child: "snd d \<noteq> a" if "d \<in> set applied" for d
    using that inv cN assms(3) unfolding walk_inv_def c by blast
  have "placed_above st' d" if "d \<in> set applied" for d
  proof (rule placed_above_step(2) [OF assms(1,2) cN])
    show "ensure_above st a b = Some st'" using st' c by simp
    show "d \<in> N" "d \<noteq> (a, b)" "placed_above st d"
      using that inv assms(3) unfolding walk_inv_def c by auto
  qed (rule no_child [OF that])
  moreover have "placed_above st' c"
    using placed_above_step(1) [OF assms(1,2) cN] st' c by simp
  moreover have "set (nexts d) \<subseteq> set (c # applied) \<union> set (nexts c @ todo)" if "d \<in> set (c # applied)" for d
    using that inv unfolding walk_inv_def by auto
  moreover have "(snd d, q) \<in> set (c # applied)"
    if d: "d \<in> set (c # applied) \<union> set (nexts c @ todo)" and q: "(snd d, q) \<in> N" for d q
  proof (cases "d \<in> set (nexts c)")
    case True
    then have "snd d = a" using nexts cN c by simp
    then show ?thesis using only q c by simp
  next
    case False
    then have "d \<in> set applied \<union> set (c # todo)" using d by auto
    then have "(snd d, q) \<in> set applied" using inv q unfolding walk_inv_def by blast
    then show ?thesis by simp
  qed
  moreover have "set (c # applied) \<union> set (nexts c @ todo) \<subseteq> N"
    using inv nexts cN c unfolding walk_inv_def by auto
  ultimately show ?thesis unfolding walk_inv_def by auto
qed

lemma walk_places_all:
  assumes "stack_ok st" "forest_constraints st (set nodes)"
    and "\<And>c. c \<in> set nodes \<Longrightarrow> set (nexts c) = {n \<in> set nodes. snd n = fst c}"
    and "walk_inv st (set nodes) nexts applied todo"
    and "traverse_constraint nodes nexts applied todo st = Some st'"
  shows "\<exists>A. set applied \<union> set todo \<subseteq> A \<and> (\<forall>c \<in> A. placed_above st' c \<and> set (nexts c) \<subseteq> A)"
  using assms
proof (induction nodes nexts applied todo st rule: traverse_constraint.induct)
  case (1 nodes nexts applied st)
  then show ?case by (intro exI [of _ "set applied"]) (auto simp: walk_inv_def)
next
  case (2 nodes nexts applied c todo st)
  show ?case
  proof (cases "c \<in> set applied")
    case True
    have inv: "walk_inv st (set nodes) nexts applied todo"
      using "2.prems"(4) True unfolding walk_inv_def by (simp add: insert_absorb)
    have "traverse_constraint nodes nexts applied todo st = Some st'"
      using "2.prems"(5) True by simp
    from "2.IH"(1) [OF True "2.prems"(1-3) inv this] obtain A where
      "set applied \<union> set todo \<subseteq> A" "\<forall>c \<in> A. placed_above st' c \<and> set (nexts c) \<subseteq> A" by blast
    then show ?thesis using True by (intro exI [of _ A]) auto
  next
    case False
    have cN: "c \<in> set nodes" using "2.prems"(4) by (simp add: walk_inv_def)
    have S: "fst c \<in> set (sorted_windows st)" "snd c \<in> set (sorted_windows st)"
        using forest_constraintsD [OF "2.prems"(2), of "fst c" "snd c"] cN by simp_all
    obtain st1 where st1: "ensure_above st (fst c) (snd c) = Some st1" "stack_ok st1" "same_stack st st1"
      using ensure_above_ok [OF "2.prems"(1) S] by blast
    have inv: "walk_inv st1 (set nodes) nexts (c # applied) (nexts c @ todo)"
      using walk_inv_step [OF "2.prems"(1,2) False "2.prems"(3,4) st1(1)] by blast
    have "traverse_constraint nodes nexts (c # applied) (nexts c @ todo) st1 = Some st'"
      using "2.prems"(5) False cN st1(1) by simp
    from "2.IH"(2) [OF False _ st1(1,2) forest_constraints_same [OF st1(3) "2.prems"(2)] "2.prems"(3) inv this] cN
    obtain A where "set (c # applied) \<union> set (nexts c @ todo) \<subseteq> A"
      "\<forall>c \<in> A. placed_above st' c \<and> set (nexts c) \<subseteq> A" by auto
    then show ?thesis by (intro exI [of _ A]) auto
  qed
qed

text \<open>No window of the stack has to be above its whole group.\<close>

definition no_group_constraints :: "meta_stack \<Rightarrow> bool" where
  "no_group_constraints st \<longleftrightarrow>
     (\<forall>w \<in> set (sorted_windows st). window_transient_for_whole_group (windows st w) \<longrightarrow> must_be_above st w = {})"

lemma wanted_forest:
  assumes "forest st" "no_group_constraints st"
  shows "forest_constraints st (wanted st)"
proof -
  have 1: "(a, b) \<in> wanted st \<Longrightarrow> a \<in> set (sorted_windows st) \<and> b \<in> set (sorted_windows st) \<and>
      transient_for (windows st a) = Some b" for a b
    using assms(2) by (auto simp: wanted_def no_group_constraints_def must_be_above_def split: if_splits)
  have "wf {(b, a). (a, b) \<in> wanted st}"
    by (rule wf_subset [of "parent_rel st"]) (use assms(1) 1 in \<open>auto simp: forest_def parent_rel_def\<close>)
  then show ?thesis using 1 by (auto simp: forest_constraints_def)
qed

lemma constrain_places_transients:
  assumes "stack_ok st" "forest st" "no_group_constraints st" "need_constrain st"
    and "stack_do_constrain st = Some st'" "c \<in> wanted st"
  shows "placed_above st' c"
proof -
  obtain cs where cs: "create_constraints st (sorted_windows st) (replicate (nat (n_positions st)) []) = Some cs"
    "constraints_ok st cs" "set (concat cs) = wanted st" using create_constraints_ok [OF assms(1)] by blast
  obtain g where g: "graph_constraints st cs = Some g"
    "\<forall>c \<in> set (concat cs). set (next_nodes g c) = {n \<in> set (concat cs). snd n = fst c}"
    "\<forall>n \<in> set (concat cs). has_prev g n \<longleftrightarrow> (\<exists>c \<in> set (concat cs). snd n = fst c)"
    using graph_constraints_ok [OF assms(1) cs(2)] by blast
  let ?heads = "rev (filter (\<lambda>c. \<not> has_prev g c) (concat cs))"
  obtain st2 where st2: "traverse_constraint (concat cs) (next_nodes g) [] ?heads st = Some st2"
    "st' = st2\<lparr>need_constrain := False\<rparr>"
    using assms(4,5) cs(1) g(1) by (auto simp: stack_do_constrain_def apply_constraints_def Let_def)
  have F: "forest_constraints st (set (concat cs))" using wanted_forest [OF assms(2,3)] cs(3) by simp
  have "walk_inv st (set (concat cs)) (next_nodes g) [] ?heads"
    using g(3) by (force simp: walk_inv_def)
  from walk_places_all [OF assms(1) F g(2) [rule_format] this st2(1)]
  obtain A where A: "set ?heads \<subseteq> A" "\<forall>c \<in> A. placed_above st2 c \<and> set (next_nodes g c) \<subseteq> A" by auto
  have "wf {(b, a). (a, b) \<in> set (concat cs)}" using F by (simp add: forest_constraints_def)
  then have all: "\<forall>b. (a, b) \<in> set (concat cs) \<longrightarrow> (a, b) \<in> A" for a
  proof (induction a rule: wf_induct_rule)
    case (less a)
    show ?case
    proof (intro allI impI)
      fix b assume ab: "(a, b) \<in> set (concat cs)"
      show "(a, b) \<in> A"
      proof (cases "has_prev g (a, b)")
        case False
        then have "(a, b) \<in> set ?heads" using ab by simp
        then show ?thesis using A(1) by blast
      next
        case True
        then obtain q where q: "(b, q) \<in> set (concat cs)" using g(3) ab by fastforce
        then have "(b, q) \<in> A" using less.IH [of b] ab by blast
        moreover have "(a, b) \<in> set (next_nodes g (b, q))" using g(2) q ab by fastforce
        ultimately show ?thesis using A(2) by blast
      qed
    qed
  qed
  have "c \<in> A" using all [of "fst c"] assms(6) unfolding cs(3) by (cases c) simp
  then have "placed_above st2 c" using A(2) by blast
  then show ?thesis by (simp add: st2(2) placed_above_def)
qed

text \<open>Sorting after a change puts every transient above its parent, and the list in order.\<close>

lemma relayer_keeps_constrain: "need_constrain st \<Longrightarrow> need_constrain (stack_do_relayer st)"
proof -
  have "need_constrain st \<Longrightarrow> need_constrain (fold relayer_step xs st)" for xs st
    by (induction xs arbitrary: st) (auto simp: relayer_step_def Let_def)
  then show "need_constrain st \<Longrightarrow> ?thesis" by (auto simp: stack_do_relayer_def)
qed

text \<open>Recomputing the layers changes nothing that it does not flag.\<close>

lemma relayer_unchanged:
  assumes "\<not> need_constrain (stack_do_relayer st)"
  shows "windows (stack_do_relayer st) = windows st"
proof -
  have mono: "need_constrain st \<Longrightarrow> need_constrain (fold relayer_step xs st)" for xs st
    by (induction xs arbitrary: st) (auto simp: relayer_step_def Let_def)
  have same: "\<not> need_constrain (fold relayer_step xs st) \<Longrightarrow> fold relayer_step xs st = st" for xs st
  proof (induction xs arbitrary: st)
    case (Cons x xs)
    have "\<not> need_constrain (relayer_step x st)" using Cons.prems mono by auto
    then have "relayer_step x st = st"
      by (auto simp: relayer_step_def Let_def set_layer_def split: if_splits)
    with Cons show ?case by simp
  qed simp
  show ?thesis
  proof (cases "need_relayer st")
    case True
    then have "\<not> need_constrain (fold relayer_step (sorted_windows st) st)"
      using assms by (simp add: stack_do_relayer_def)
    from same [OF this] show ?thesis using True by (simp add: stack_do_relayer_def)
  qed (simp add: stack_do_relayer_def)
qed

lemma must_be_above_same:
  assumes "same_stack st st'" shows "must_be_above st' w = must_be_above st w"
proof -
  have "group_windows st' = group_windows st" using assms by (simp add: same_stack_def)
  then have "group_members st' (windows st' w) = group_members st (windows st w)"
    by (simp add: group_members_def same_windows(5) [OF assms] split: option.split)
  then show ?thesis
    by (simp add: must_be_above_def same_windows [OF assms] same_stack_set [OF assms])
qed

lemma sorted_places_transients:
  assumes "stack_ok st" "forest st" "no_group_constraints st" "need_constrain st"
    and "meta_stack_ensure_sorted st = Some st'" "a \<in> set (sorted_windows st)" "b \<in> must_be_above st a"
  shows "placed_above st' (a, b)"
proof -
  let ?st1 = "stack_do_relayer st"
  have 1: "stack_ok ?st1" "same_stack st ?st1" using stack_do_relayer_ok [OF assms(1)] by auto
  obtain st2 where 2: "stack_do_constrain ?st1 = Some st2" "st' = stack_do_resort st2"
    using assms(5) by (auto simp: meta_stack_ensure_sorted_def)
  have "forest ?st1" using assms(2) parent_rel_same [OF 1(2)] by (rule forest_same)
  moreover have "no_group_constraints ?st1"
    using assms(3) same_stack_set [OF 1(2)]
    by (simp add: no_group_constraints_def must_be_above_same [OF 1(2)] same_windows [OF 1(2)])
  moreover have "(a, b) \<in> wanted ?st1"
    using assms(6,7) same_stack_set [OF 1(2)] by (simp add: wanted_def must_be_above_same [OF 1(2)])
  ultimately have "placed_above st2 (a, b)"
    using constrain_places_transients [OF 1(1) _ _ relayer_keeps_constrain [OF assms(4)] 2(1)] by blast
  then show ?thesis by (simp add: 2(2) placed_above_def stack_do_resort_def)
qed

lemma placed_above_stacked: "placed_above st (a, b) \<Longrightarrow> stacked_above st a b"
  by (auto simp: placed_above_def stacked_above_def)

section \<open>Transients in a Wayland session\<close>

text \<open>No window is transient for a whole group, and none is override-redirect.\<close>

definition wayland_window :: "managed_window \<Rightarrow> bool" where
  "wayland_window w \<longleftrightarrow> \<not> client_x11 w \<and> \<not> override_redirect w"

definition wayland_only :: "meta_stack \<Rightarrow> bool" where
  "wayland_only st \<longleftrightarrow> (\<forall>w. wayland_window (windows st w))"

definition transients_placed :: "meta_stack \<Rightarrow> bool" where
  "transients_placed st \<longleftrightarrow>
     (\<forall>a \<in> set (sorted_windows st). \<forall>b \<in> must_be_above st a. placed_above st (a, b))"

definition transient_inv :: "meta_stack \<Rightarrow> bool" where
  "transient_inv st \<longleftrightarrow> forest st \<and> wayland_only st \<and> (need_constrain st \<or> transients_placed st)"

lemma must_be_above_wayland:
  "wayland_only st \<Longrightarrow> must_be_above st a = {v \<in> set (sorted_windows st). transient_for (windows st a) = Some v}"
  by (auto simp: must_be_above_def wayland_only_def wayland_window_def window_transient_for_whole_group_def)

lemma wayland_no_group: "wayland_only st \<Longrightarrow> no_group_constraints st"
  by (auto simp: no_group_constraints_def must_be_above_def wayland_only_def wayland_window_def)

lemma wayland_only_same: "same_stack st st' \<Longrightarrow> wayland_only st \<Longrightarrow> wayland_only st'"
  by (simp add: wayland_only_def wayland_window_def same_windows)

lemma transients_placed_iff:
  "wayland_only st \<Longrightarrow> transients_placed st \<longleftrightarrow>
   (\<forall>a \<in> set (sorted_windows st). \<forall>b \<in> set (sorted_windows st).
      transient_for (windows st a) = Some b \<longrightarrow> placed_above st (a, b))"
  by (auto simp: transients_placed_def must_be_above_wayland)

lemma transients_placed_cong:
  assumes "wayland_only st" "wayland_only st'" "transients_placed st"
    "set (sorted_windows st') \<subseteq> set (sorted_windows st)"
    "\<And>w. w \<in> set (sorted_windows st') \<Longrightarrow> layer st' w = layer st w \<and> position st' w = position st w \<and>
      transient_for (windows st' w) = transient_for (windows st w)"
  shows "transients_placed st'"
  using assms unfolding transients_placed_iff [OF assms(1)] transients_placed_iff [OF assms(2)]
  by (simp add: placed_above_def subset_iff)

lemma transient_inv_cong:
  assumes "transient_inv st" "set (sorted_windows st') = set (sorted_windows st)"
    "need_constrain st' = need_constrain st" "wayland_only st'"
    "\<And>w. layer st' w = layer st w \<and> position st' w = position st w \<and>
      transient_for (windows st' w) = transient_for (windows st w)"
  shows "transient_inv st'"
proof -
  have "parent_rel st' = parent_rel st" using assms(5) by (simp add: parent_rel_def)
  moreover have "transients_placed st \<Longrightarrow> transients_placed st'"
    by (rule transients_placed_cong [of st]) (use assms in \<open>auto simp: transient_inv_def\<close>)
  ultimately show ?thesis using assms(1,3,4) by (auto simp: transient_inv_def forest_def)
qed

lemma moved_constrains_or_same:
  "need_constrain (meta_window_set_stack_position_no_sync st w p) \<or>
   meta_window_set_stack_position_no_sync st w p = st"
  by (auto simp: meta_window_set_stack_position_no_sync_def Let_def set_position_def fold_shift_rest)

lemma transient_inv_sorted:
  assumes "stack_ok st" "transient_inv st" "meta_stack_ensure_sorted st = Some st'"
  shows "transient_inv st'"
proof -
  have st': "stack_ok st'" "same_stack st st'" "parent_rel st' = parent_rel st"
    using ensure_sorted_ok [OF assms(1)] assms(3) parent_rel_sorted [OF assms(1,3)] by auto
  have w: "wayland_only st" "forest st" using assms(2) by (auto simp: transient_inv_def)
  have "transients_placed st'"
  proof (cases "need_constrain (stack_do_relayer st)")
    case True
    let ?st = "stack_do_relayer st"
    have r: "stack_ok ?st" "same_stack st ?st" "\<not> need_relayer ?st" using stack_do_relayer_ok [OF assms(1)] by auto
    have "stack_do_relayer ?st = ?st" using r(3) by (simp add: stack_do_relayer_def)
    then have "meta_stack_ensure_sorted ?st = Some st'" using assms(3) by (simp add: meta_stack_ensure_sorted_def)
    moreover have "no_group_constraints ?st" using wayland_no_group [OF wayland_only_same [OF r(2) w(1)]] .
    moreover have "forest ?st" using w(2) parent_rel_same [OF r(2)] by (rule forest_same)
    ultimately have "placed_above st' (a, b)" if "a \<in> set (sorted_windows ?st)" "b \<in> must_be_above ?st a" for a b
      using sorted_places_transients [OF r(1) _ _ True] that by blast
    then show ?thesis
      using st'(2) r(2) by (simp add: transients_placed_def must_be_above_same same_stack_set)
  next
    case False
    then have nc: "\<not> need_constrain st" using relayer_keeps_constrain by blast
    have same: "layer (stack_do_relayer st) v = layer st v \<and> position (stack_do_relayer st) v = position st v" for v
      using relayer_unchanged [OF False] by simp
    obtain st2 where st2: "stack_do_constrain (stack_do_relayer st) = Some st2" "st' = stack_do_resort st2"
      using assms(3) by (auto simp: meta_stack_ensure_sorted_def)
    have "st2 = stack_do_relayer st" using st2(1) False by (simp add: stack_do_constrain_def)
    then have win: "layer st' v = layer st v \<and> position st' v = position st v" for v
      using st2(2) same by (simp add: stack_do_resort_def)
    show ?thesis
    proof (rule transients_placed_cong [OF w(1) wayland_only_same [OF st'(2) w(1)]])
      show "transients_placed st" using assms(2) nc by (simp add: transient_inv_def)
    qed (use win st'(2) in \<open>auto simp: same_stack_set same_windows(2)\<close>)
  qed
  then show ?thesis
    using st' w wayland_only_same by (auto simp: transient_inv_def intro: forest_same)
qed

lemma transient_inv_without:
  assumes "stack_ok st" "transient_inv st" "w \<in> set (sorted_windows st)"
  shows "transient_inv (stack_without w st)"
proof -
  let ?st1 = "meta_window_set_stack_position_no_sync st w (n_positions st - 1)"
  let ?st = "stack_without w st"
  have same: "same_stack st ?st1" using stack_ok_set_position_no_sync [OF assms(1)] by blast
  have way: "wayland_only ?st"
    using wayland_only_same [OF same] assms(2)
    by (auto simp: transient_inv_def wayland_only_def wayland_window_def stack_without_def emit_def set_position_def Let_def)
  have f: "forest ?st"
    using assms by (auto simp: transient_inv_def parent_rel_without intro: forest_same)
  have nc: "need_constrain ?st = need_constrain ?st1"
    by (simp add: stack_without_def Let_def emit_def set_position_def)
  show ?thesis
  proof (cases "need_constrain ?st1")
    case True
    then show ?thesis using f way nc by (simp add: transient_inv_def)
  next
    case False
    then have eq: "?st1 = st" using moved_constrains_or_same by blast
    have "transients_placed ?st"
    proof (rule transients_placed_cong [OF _ way])
      show "wayland_only st" "transients_placed st" using assms(2) False eq by (auto simp: transient_inv_def)
      show "set (sorted_windows ?st) \<subseteq> set (sorted_windows st)"
        using set_remove1_subset by (fastforce simp: stack_without_def Let_def emit_def)
    qed (use stack_okD(1) [OF assms(1)] in \<open>simp add: stack_without_def Let_def emit_def set_position_def eq\<close>)
    then show ?thesis using f way by (simp add: transient_inv_def)
  qed
qed

interpretation tr: stack_kept transient_inv
proof
  fix st w p assume "stack_ok st" "transient_inv st"
  then show "transient_inv (meta_window_set_stack_position_no_sync st w p)"
    using moved_constrains_or_same [of st w p] stack_ok_set_position_no_sync [of st w p]
    by (auto simp: transient_inv_def intro: forest_same wayland_only_same)
next
  fix st w assume "stack_ok st" "transient_inv st" "w \<notin> set (sorted_windows st)"
  then show "transient_inv (stack_with w st)"
    using parent_rel_with
    by (auto simp: transient_inv_def stack_with_def emit_def set_position_def wayland_only_def
        wayland_window_def intro: forest_same)
next
  fix st s n assume inv: "transient_inv st"
  then have "wayland_only st" by (simp add: transient_inv_def)
  then show "transient_inv (st\<lparr>need_relayer := True\<rparr>)" "transient_inv (st\<lparr>freeze_count := n\<rparr>)"
    "transient_inv (emit s st)"
    by (auto intro!: transient_inv_cong [OF inv] simp: emit_def wayland_only_def)
qed (auto simp: transient_inv_sorted transient_inv_without, simp add: transient_inv_def)

text \<open>Changing a transient asks for the constraints to be applied again.\<close>

lemma transient_update_runs:
  assumes "stack_ok st" "forest st" "wayland_only st"
  shows "runs transient_inv (meta_stack_update_transient st)"
  unfolding meta_stack_update_transient_def
  by (rule tr.changed_runs)
    (use assms in \<open>simp_all add: stack_ok_flags transient_inv_def forest_def wayland_only_def\<close>)

lemma transient_set_runs:
  assumes "stack_inv st" "transient_inv st"
  shows "runs transient_inv (meta_window_set_transient_for st w parent k a)"
proof -
  have st: "forest st" "wayland_only st" "stack_ok st" using assms by (auto simp: transient_inv_def stack_inv_def)
  obtain b where b: "check_transient_for_loop st w parent = Some b"
    using check_transient_for_loop_forest [OF st(1)] by blast
  let ?st = "st\<lparr>windows := (windows st)(w := (windows st w)\<lparr>transient_for := parent\<rparr>)\<rparr>"
  have "stack_ok ?st" using st(3) by (intro stack_ok_windows) auto
  moreover have "wayland_only ?st" using st(2) by (simp add: wayland_only_def wayland_window_def)
  ultimately have "\<not> b \<Longrightarrow> runs transient_inv (meta_stack_update_transient ?st)"
    using transient_update_runs set_transient_for_forest [OF st(1)] b by simp
  moreover have "\<not> override_redirect (windows st w)" using st(2) by (simp add: wayland_only_def wayland_window_def)
  ultimately show ?thesis using assms b by (auto simp: meta_window_set_transient_for_def Let_def)
qed

theorem stack_reach_transients: "stack_reach ok wayland_window st \<Longrightarrow> stack_inv st \<and> transient_inv st"
proof (induction rule: stack_reach.induct)
  case (new ws gs a)
  then have "stack_reach ok wayland_window (meta_stack_new ws gs a)" by (rule stack_reach.new)
  then show ?case using stack_reach_inv new
    by (fastforce simp: transient_inv_def transients_placed_def meta_stack_new_def wayland_only_def)
next
  case (call st c st')
  have "runs transient_inv (exec_stack c st)"
  proof (cases "keeps_transients c")
    case True
    then show ?thesis using tr.call_runs call by blast
  next
    case False
    have "stack_ok st" "forest st" "wayland_only st"
      using call.IH by (simp_all add: stack_inv_def transient_inv_def)
    with False show ?thesis using call.IH transient_update_runs [of st] transient_set_runs [of st]
      by (cases c) simp_all
  qed
  then show ?case using call by (auto simp: runs_def)
next
  case (change st ws a gs)
  let ?st = "st\<lparr>windows := ws, group_windows := gs, active_workspace := a\<rparr>"
  have "stack_inv ?st" using stack_reach_inv stack_reach.change [OF change(1,2)] by blast
  moreover have "transient_inv ?st"
    by (rule transient_inv_cong [of st]) (use change in \<open>auto simp: wayland_only_def\<close>)
  ultimately show ?case by blast
qed

section \<open>Two gaps\<close>

definition plain_window :: managed_window where
  "plain_window = \<lparr>frame_rect = \<lparr>rect_x = 0, rect_y = 0, rect_width = 10, rect_height = 10\<rparr>,
     override_redirect = False, hidden = False, win_type = META_WINDOW_NORMAL,
     on_all_workspaces = False, win_workspace = Some 0, minimized = False, client_pid = 1,
     stack_layer = 0, stack_position = - 1, client_x11 = False, surface_has_buffer = True,
     wm_state_below = False, wm_state_above = False, maximized = False,
     on_fullscreen_monitor = False, win_group = None, unmanaging = False, transient_for = None\<rparr>"

text \<open>A sequence of calls, each of them enabled.\<close>

definition run_calls :: "stack_call list \<Rightarrow> meta_stack \<Rightarrow> meta_stack option" where
  "run_calls = fold_opt (\<lambda>c st. if stack_call_enabled c st then exec_stack c st else None)"

lemma run_calls_reach:
  "stack_reach (\<lambda>_. True) (\<lambda>_. True) st \<Longrightarrow> run_calls cs st = Some st' \<Longrightarrow> stack_reach (\<lambda>_. True) (\<lambda>_. True) st'"
  unfolding run_calls_def
proof (induction cs arbitrary: st)
  case (Cons c cs)
  then show ?case by (auto simp: bind_eq_Some_conv split: if_splits intro: stack_reach.call)
qed simp

definition observe :: "meta_stack \<Rightarrow> window list \<times> (int \<times> int) list \<times> bool list" where
  "observe st = (sorted_windows st, map (\<lambda>w. (layer st w, position st w)) (sorted_windows st),
     [need_relayer st, need_constrain st, need_resort st])"

text \<open>A window \<open>0\<close> kept above the others, then an ordinary window \<open>1\<close> that declares itself its
  dialog: it is promoted to the layer of its parent, but the list is not sorted again.\<close>

definition late_dialog :: "meta_stack option" where
  "late_dialog = run_calls [Add 0, Add 1, Set_transient_for 1 (Some 0) True False]
     (meta_stack_new ((\<lambda>_. plain_window)(0 := plain_window\<lparr>wm_state_above := True\<rparr>)) (\<lambda>_. []) 0)"

lemma late_dialog_result:
  "map_option observe late_dialog = Some ([0, 1], [(4, 0), (4, 1)], [False, False, False])"
  by code_simp

end
