(* ===== verification/Stack_Raise.thy ===== *)
theory Stack_Raise
  imports Stack_Transient
begin

text \<open>
  What raising a window does to the others: the constraints that follow move only windows that
  are transient for it, directly or not; every other window keeps its place relative to the rest.
\<close>

text \<open>A walk moves only the windows of \<open>D\<close> when every other constraint holds already.\<close>

lemma traverse_keeps_order:
  assumes "stack_ok st"
    and "\<And>c. c \<in> set nodes \<Longrightarrow> fst c \<in> set (sorted_windows st) \<and> snd c \<in> set (sorted_windows st)"
    and "\<And>c. c \<in> set nodes \<Longrightarrow> fst c \<notin> D \<Longrightarrow> snd c \<notin> D \<and> position st (snd c) < position st (fst c)"
    and "traverse_constraint nodes nexts applied todo st = Some st'"
    and "x \<in> set (sorted_windows st) - D" "y \<in> set (sorted_windows st) - D"
  shows "position st' x < position st' y \<longleftrightarrow> position st x < position st y"
  using assms
proof (induction nodes nexts applied todo st arbitrary: x y rule: traverse_constraint.induct)
  case (2 nodes nexts applied c todo st)
  show ?case
  proof (cases "c \<in> set applied")
    case True
    have "traverse_constraint nodes nexts applied todo st = Some st'" using "2.prems"(4) True by simp
    from "2.IH"(1) [OF True "2.prems"(1-3) this "2.prems"(5,6)] show ?thesis .
  next
    case False
    have c: "c \<in> set nodes" using "2.prems"(4) False by (simp split: if_splits)
    have S: "fst c \<in> set (sorted_windows st)" "snd c \<in> set (sorted_windows st)"
      using "2.prems"(2) [OF c] by auto
    obtain st1 where st1: "ensure_above st (fst c) (snd c) = Some st1" "stack_ok st1" "same_stack st st1"
      and pos: "\<And>v. v \<in> set (sorted_windows st) \<Longrightarrow> position st1 v =
        (if position st (fst c) < position st (snd c)
         then slot (position st (fst c)) (position st (snd c)) (position st v) else position st v)"
      using ensure_above_ok [OF "2.prems"(1) S] by blast
    have keep: "position st1 u < position st1 v \<longleftrightarrow> position st u < position st v"
      if uv: "u \<in> set (sorted_windows st) - D" "v \<in> set (sorted_windows st) - D" for u v
    proof (cases "fst c \<in> D")
      case True
      then have "position st u \<noteq> position st (fst c)" "position st v \<noteq> position st (fst c)"
        using uv position_inj [OF "2.prems"(1) _ S(1)] by auto
      then show ?thesis using uv pos by (simp add: slot_mono)
    next
      case False
      then show ?thesis using "2.prems"(3) [OF c] uv pos by simp
    qed
    have rest: "traverse_constraint nodes nexts (c # applied) (nexts c @ todo) st1 = Some st'"
      using "2.prems"(4) False c st1(1) by simp
    have "fst d \<in> set (sorted_windows st1) \<and> snd d \<in> set (sorted_windows st1)" if "d \<in> set nodes" for d
      using "2.prems"(2) [OF that] same_stack_set [OF st1(3)] by simp
    moreover have "snd d \<notin> D \<and> position st1 (snd d) < position st1 (fst d)"
      if "d \<in> set nodes" "fst d \<notin> D" for d
      using "2.prems"(3) [OF that] "2.prems"(2) [OF that(1)] that(2) keep [of "snd d" "fst d"] by simp
    ultimately have "position st' x < position st' y \<longleftrightarrow> position st1 x < position st1 y"
      using "2.IH"(2) [OF False _ st1(1,2) _ _ rest, of x y] c "2.prems"(5,6) same_stack_set [OF st1(3)] by simp
    then show ?thesis using keep [OF "2.prems"(5,6)] by simp
  qed
qed simp

lemma constrain_keeps_order:
  assumes "stack_ok st" "stack_do_constrain st = Some st'"
    and "\<And>c. c \<in> wanted st \<Longrightarrow> fst c \<notin> D \<Longrightarrow> snd c \<notin> D \<and> position st (snd c) < position st (fst c)"
    and "x \<in> set (sorted_windows st) - D" "y \<in> set (sorted_windows st) - D"
  shows "position st' x < position st' y \<longleftrightarrow> position st x < position st y"
proof (cases "need_constrain st")
  case True
  obtain cs where cs: "create_constraints st (sorted_windows st) (replicate (nat (n_positions st)) []) = Some cs"
    "set (concat cs) = wanted st" using create_constraints_ok [OF assms(1)] by blast
  obtain g st2 where g: "graph_constraints st cs = Some g" and
    st2: "traverse_constraint (concat cs) (next_nodes g) [] (rev (filter (\<lambda>c. \<not> has_prev g c) (concat cs))) st = Some st2"
    "st' = st2\<lparr>need_constrain := False\<rparr>"
    using True assms(2) cs(1) by (auto simp: stack_do_constrain_def apply_constraints_def Let_def bind_eq_Some_conv)
  have "position st2 x < position st2 y \<longleftrightarrow> position st x < position st y"
  proof (rule traverse_keeps_order [OF assms(1) _ _ st2(1) assms(4,5)])
    fix c assume "c \<in> set (concat cs)"
    then have c: "c \<in> wanted st" by (simp only: cs(2))
    then show "fst c \<in> set (sorted_windows st) \<and> snd c \<in> set (sorted_windows st)"
      by (auto simp: wanted_def must_be_above_def split: if_splits)
    show "fst c \<notin> D \<Longrightarrow> snd c \<notin> D \<and> position st (snd c) < position st (fst c)" using assms(3) c by blast
  qed
  then show ?thesis by (simp add: st2(2))
qed (use assms(2) in \<open>simp add: stack_do_constrain_def\<close>)

text \<open>The windows transient for \<open>w\<close>, directly or not.\<close>

definition descendants :: "meta_stack \<Rightarrow> window \<Rightarrow> window set" where
  "descendants st w = {v. (w, v) \<in> (parent_rel st)\<^sup>+}"

text \<open>Moving a window up leaves the constraints of all but its descendants in place.\<close>

lemma moved_up_constraints:
  assumes "stack_ok st" "transients_placed st" "wayland_only st" and w: "w \<in> set (sorted_windows st)"
    and p: "position st w \<le> p" "p < n_positions st"
    and st1: "st1 = meta_window_set_stack_position_no_sync st w p"
    and c: "c \<in> wanted st1" "fst c \<notin> descendants st w"
  shows "snd c \<notin> descendants st w \<and> position st1 (snd c) < position st1 (fst c)"
proof -
  obtain a b where ab: "c = (a, b)" by (cases c)
  have same: "same_stack st st1" using stack_ok_set_position_no_sync [OF assms(1)] st1 by blast
  have m: "a \<in> set (sorted_windows st)" "b \<in> must_be_above st a"
    using c(1) ab same_stack_set [OF same] by (simp_all add: wanted_def must_be_above_same [OF same])
  then have b: "b \<in> set (sorted_windows st)" "transient_for (windows st a) = Some b"
    using must_be_above_wayland [OF assms(3)] by auto
  then have edge: "(b, a) \<in> parent_rel st" by (simp add: parent_rel_def)
  then have "b \<noteq> w" and bd: "b \<notin> descendants st w"
    using c(2) ab by (auto simp: descendants_def intro: trancl_into_trancl)
  have old: "position st b < position st a" using assms(2) m by (auto simp: transients_placed_def placed_above_def)
  have "0 \<le> p" using p(1) position_range [OF assms(1) w] by simp
  then have pos: "v \<in> set (sorted_windows st) \<Longrightarrow> position st1 v = slot (position st w) p (position st v)" for v
    using set_position_no_sync_window [OF assms(1) w _ p(2), of v] st1 by simp
  have "position st b \<noteq> position st w" using position_inj [OF assms(1) b(1) w] \<open>b \<noteq> w\<close> by simp
  moreover have "position st a = position st w \<or> position st a \<noteq> position st w" by blast
  ultimately have "position st1 b < position st1 a"
    using old p(1) pos [OF b(1)] pos [OF m(1)] by (auto simp: slot_def)
  with bd ab show ?thesis by simp
qed

lemma max_position_fold:
  "(\<forall>v \<in> set xs. P v \<longrightarrow> position st v \<le> fold (\<lambda>v m. if P v \<and> position st v > m then position st v else m) xs m0) \<and>
   m0 \<le> fold (\<lambda>v m. if P v \<and> position st v > m then position st v else m) xs m0 \<and>
   (fold (\<lambda>v m. if P v \<and> position st v > m then position st v else m) xs m0 = m0 \<or>
    (\<exists>v \<in> set xs. fold (\<lambda>v m. if P v \<and> position st v > m then position st v else m) xs m0 = position st v))"
proof (induction xs arbitrary: m0)
  case (Cons x xs)
  show ?case using Cons [of "if P x \<and> position st x > m0 then position st x else m0"]
    by (auto split: if_splits)
qed simp

theorem raise_effect:
  assumes "stack_reach ok wayland_window st" "freeze_count st \<le> 0" and w: "w \<in> set (sorted_windows st)"
    and st': "meta_stack_raise st w = Some st'"
  shows "\<And>v. v \<in> set (sorted_windows st) \<Longrightarrow> located_on st v (meta_window_get_workspace st w) \<Longrightarrow> v \<noteq> w \<Longrightarrow>
      v \<notin> descendants st w \<Longrightarrow> position st' v < position st' w"
    and "\<And>u v. u \<in> set (sorted_windows st) - {w} - descendants st w \<Longrightarrow>
      v \<in> set (sorted_windows st) - {w} - descendants st w \<Longrightarrow>
      position st' u < position st' v \<longleftrightarrow> position st u < position st v"
proof -
  have inv: "stack_ok st" "flags_clear st" "transient_inv st"
    using stack_reach_transients [OF assms(1)] assms(2) by (auto simp: stack_inv_def)
  then have tr: "transients_placed st" "wayland_only st" "forest st"
    by (auto simp: transient_inv_def flags_clear_def)
  let ?P = "\<lambda>v. located_on st v (meta_window_get_workspace st w)"
  define m where "m = fold (\<lambda>v m. if ?P v \<and> position st v > m then position st v else m) (sorted_windows st) (position st w)"
  have m: "\<And>v. v \<in> set (sorted_windows st) \<Longrightarrow> ?P v \<Longrightarrow> position st v \<le> m" "position st w \<le> m" "m < n_positions st"
    using max_position_fold [of "sorted_windows st" ?P st "position st w"] position_range [OF inv(1)] w
    unfolding m_def [symmetric] by auto
  have raise: "(if m = position st w then Some st
      else stack_changed_and_tiled (meta_window_set_stack_position_no_sync st w m)) = Some st'"
    using st' ensure_sorted_id [OF inv(2)] unfolding meta_stack_raise_def Let_def m_def
    by (simp split del: if_split)
  define st1 where "st1 = meta_window_set_stack_position_no_sync st w m"
  have "w \<notin> descendants st w"
    using tr(3) wf_acyclic unfolding forest_def descendants_def acyclic_def by blast
  have s1: "stack_ok st1" "same_stack st st1"
    using stack_ok_set_position_no_sync [OF inv(1)] by (auto simp: st1_def)
  have "0 \<le> m" using m(2) position_range [OF inv(1) w] by simp
  then have pos1: "v \<in> set (sorted_windows st) \<Longrightarrow> position st1 v = slot (position st w) m (position st v)" for v
    using set_position_no_sync_window [OF inv(1) w _ m(3), of v] by (simp add: st1_def)
  have later: "position st' x < position st' y \<longleftrightarrow> position st1 x < position st1 y"
    if xy: "x \<in> set (sorted_windows st) - descendants st w" "y \<in> set (sorted_windows st) - descendants st w" for x y
  proof (cases "m = position st w")
    case True
    then have "st1 = st" by (simp add: st1_def meta_window_set_stack_position_no_sync_def)
    then show ?thesis using raise True by simp
  next
    case False
    have "freeze_count st1 = freeze_count st" using s1(2) by (simp add: same_stack_def)
    then obtain st2 where st2: "meta_stack_ensure_sorted st1 = Some st2" "flags_clear st2" "st' = emit Changed st2"
      using raise False assms(2) ensure_sorted_ok [OF s1(1)] ensure_sorted_id
      by (fastforce simp: st1_def [symmetric] stack_changed_and_tiled_def meta_stack_changed_def
          meta_stack_update_window_tile_matches_def emit_def flags_clear_def same_stack_def
          bind_eq_Some_conv split: if_splits)
    have "need_relayer st1 = need_relayer st" by (simp add: st1_def set_position_no_sync_rest)
    then have "stack_do_relayer st1 = st1" using inv(2) by (simp add: flags_clear_def stack_do_relayer_def)
    then obtain st3 where st3: "stack_do_constrain st1 = Some st3" "st2 = stack_do_resort st3"
      using st2(1) by (auto simp: meta_stack_ensure_sorted_def)
    have "position st3 x < position st3 y \<longleftrightarrow> position st1 x < position st1 y"
    proof (rule constrain_keeps_order [OF s1(1) st3(1)])
      show "x \<in> set (sorted_windows st1) - descendants st w" "y \<in> set (sorted_windows st1) - descendants st w"
        using xy same_stack_set [OF s1(2)] by simp_all
    qed (rule moved_up_constraints [OF inv(1) tr(1,2) w m(2,3) st1_def])
    then show ?thesis by (simp add: st2(3) st3(2) emit_def stack_do_resort_def)
  qed
  show "position st' v < position st' w"
    if "v \<in> set (sorted_windows st)" "?P v" "v \<noteq> w" "v \<notin> descendants st w" for v
  proof -
    have "position st v \<noteq> position st w" using position_inj [OF inv(1) that(1) w] that(3) by simp
    then have "position st1 v < position st1 w"
      using m(1) [OF that(1,2)] m(2) pos1 [OF that(1)] pos1 [OF w] by (auto simp: slot_def)
    then show ?thesis using later [of v w] that w \<open>w \<notin> descendants st w\<close> by simp
  qed
  show "position st' u < position st' v \<longleftrightarrow> position st u < position st v"
    if "u \<in> set (sorted_windows st) - {w} - descendants st w" "v \<in> set (sorted_windows st) - {w} - descendants st w" for u v
  proof -
    have "position st u \<noteq> position st w" "position st v \<noteq> position st w"
      using position_inj [OF inv(1) _ w] that by auto
    then have "position st1 u < position st1 v \<longleftrightarrow> position st u < position st v"
      using pos1 that by (simp add: slot_mono)
    then show ?thesis using later [of u v] that by simp
  qed
qed

end
