(* ===== verification/Stack_Example.thy ===== *)
theory Stack_Example
  imports Stack_Raise
begin

text \<open>Concrete window stacks: a session without transients, and one whose window \<open>1\<close> is a dialog of
  window \<open>0\<close>.\<close>

lemma run_calls_reach_among:
  "stack_reach ok okw st \<Longrightarrow> list_all ok cs \<Longrightarrow> run_calls cs st = Some st' \<Longrightarrow> stack_reach ok okw st'"
  unfolding run_calls_def
proof (induction cs arbitrary: st)
  case (Cons c cs)
  then show ?case by (auto simp: bind_eq_Some_conv split: if_splits intro: stack_reach.call)
qed simp

definition ex_empty :: meta_stack where
  "ex_empty = meta_stack_new (\<lambda>_. plain_window) (\<lambda>_. []) 0"

lemma ex_empty_reach: "stack_reach ok wayland_window ex_empty"
  unfolding ex_empty_def
  by (rule stack_reach.new) (simp add: plain_window_def wayland_window_def)

definition ex_plain :: "meta_stack option" where
  "ex_plain = run_calls [Add 0, Add 1] ex_empty"

definition ex_dialog :: "meta_stack option" where
  "ex_dialog = run_calls [Add 0, Add 1, Add 2, Set_transient_for 1 (Some 0) True False] ex_empty"

definition ex_view :: "meta_stack \<Rightarrow> window list \<times> (int \<times> window option \<times> workspace option) list \<times> int" where
  "ex_view st = (sorted_windows st,
     map (\<lambda>w. (position st w, transient_for (windows st w), meta_window_get_workspace st w)) (sorted_windows st),
     freeze_count st)"

lemma ex_plain_view: "map_option ex_view ex_plain = Some ([1, 0], [(1, None, Some 0), (0, None, Some 0)], 0)"
  by code_simp

lemma ex_dialog_view:
  "map_option ex_view ex_dialog =
     Some ([2, 1, 0], [(2, None, Some 0), (1, Some 0, Some 0), (0, None, Some 0)], 0)"
  by code_simp

lemma ex_plain_stack:
  "stack_reach keeps_transients wayland_window (the ex_plain)" "sorted_windows (the ex_plain) = [1, 0]"
  "freeze_count (the ex_plain) = 0"
proof -
  obtain st where st: "ex_plain = Some st" "sorted_windows st = [1, 0]" "freeze_count st = 0"
    using ex_plain_view by (auto simp: ex_view_def)
  have "stack_reach keeps_transients wayland_window st"
    using run_calls_reach_among [OF ex_empty_reach _ st(1) [unfolded ex_plain_def]] by simp
  then show "stack_reach keeps_transients wayland_window (the ex_plain)" "sorted_windows (the ex_plain) = [1, 0]"
    "freeze_count (the ex_plain) = 0" using st unfolding st(1) option.sel by simp_all
qed

lemma ex_dialog_stack:
  "stack_reach (\<lambda>_. True) wayland_window (the ex_dialog)" "sorted_windows (the ex_dialog) = [2, 1, 0]"
  "freeze_count (the ex_dialog) = 0" "transient_for (windows (the ex_dialog) 1) = Some 0"
  "transient_for (windows (the ex_dialog) 2) = None"
  "located_on (the ex_dialog) 2 (meta_window_get_workspace (the ex_dialog) 0)"
proof -
  obtain st where st: "ex_dialog = Some st" "sorted_windows st = [2, 1, 0]" "freeze_count st = 0"
    "transient_for (windows st 1) = Some 0" "transient_for (windows st 2) = None"
    "meta_window_get_workspace st 2 = Some 0" "meta_window_get_workspace st 0 = Some 0"
    using ex_dialog_view by (auto simp: ex_view_def)
  have "stack_reach (\<lambda>_. True) wayland_window st"
    using run_calls_reach_among [OF ex_empty_reach _ st(1) [unfolded ex_dialog_def]] by (simp add: list_all_iff)
  moreover have "located_on st 2 (Some 0)"
    using st(6) by (auto simp: located_on_def meta_window_get_workspace_def split: if_splits)
  ultimately show "stack_reach (\<lambda>_. True) wayland_window (the ex_dialog)" "sorted_windows (the ex_dialog) = [2, 1, 0]"
    "freeze_count (the ex_dialog) = 0" "transient_for (windows (the ex_dialog) 1) = Some 0"
    "transient_for (windows (the ex_dialog) 2) = None"
    "located_on (the ex_dialog) 2 (meta_window_get_workspace (the ex_dialog) 0)"
    using st unfolding st(1) option.sel by simp_all
qed

end
