(* ===== verification/Edge_Example.thy ===== *)
theory Edge_Example
  imports Edge_Cache Stack_Example
begin

text \<open>Window \<open>1\<close> is dragged over window \<open>0\<close> on a display of 100 by 80.\<close>

definition ex_screen_edges :: "meta_edge list" where
  "ex_screen_edges = add_edges [] \<lparr>rect_x = 0, rect_y = 0, rect_width = 100, rect_height = 80\<rparr> True"

definition drag_env :: edge_env where
  "drag_env =
     \<lparr>should_be_showing = (\<lambda>_. True), display_size = (100, 80), ws_monitor_edges = [],
      ws_screen_edges = ex_screen_edges, uninitialised = (\<lambda>_. mtk_rectangle_new_empty)\<rparr>"

definition ex_drag :: window_drag where
  "ex_drag =
     \<lparr>dragged = 1,
      drag_win = \<lparr>outer_rect = \<lparr>rect_x = 0, rect_y = 0, rect_width = 10, rect_height = 10\<rparr>,
        tiled_side_by_side = False, current_work_area = mtk_rectangle_new 0 0 100 80,
        width_inc = 1, height_inc = 1\<rparr>,
      edge_qdata = None\<rparr>"

definition move_flags :: resistance_flags where
  "move_flags = \<lparr>flag_snap = False, flag_keyboard_op = False, flag_windows = True\<rparr>"

lemma ex_listed:
  "active_workspace (the ex_plain) = 0 \<and>
   (case meta_stack_list_windows (the ex_plain) (Some 0) of None \<Rightarrow> False
    | Some (ws, st) \<Rightarrow> ws = [0, 1] \<and> frame_rect (windows st 0) = mtk_rectangle_new 0 0 10 10 \<and>
        win_type (windows st 0) = META_WINDOW_NORMAL)"
  by code_simp

lemma ex_frames: "frames_ok drag_env (the ex_plain) 1 [1, 0]"
proof -
  have "frame_rect (windows (the ex_plain) 0) = mtk_rectangle_new 0 0 10 10" by code_simp
  then show ?thesis
    by (simp add: frames_ok_def is_window_relevant_for_edges_def on_display_def display_rect_def drag_env_def
        mtk_rectangle_intersect_def mtk_rectangle_new_def rect_positive_def)
qed

lemma ex_screen_edged: "screen_edged drag_env" "drag_ready ex_drag"
  by (simp_all add: screen_edged_def drag_env_def ex_screen_edges_def add_edges_def vertical_side_def
      drag_ready_def ex_drag_def)

end
