(* ===== verification/Ink_Geometry.thy ===== *)
theory Ink_Geometry
  imports Annot_Prelude
begin

text \<open>
  The geometry of ink in \<open>mutter/src/compositor/meta-annotation-layer.c\<close>: ink points,
  strokes and their bounding boxes, the width of a stroke, the shapes a segment is painted
  with, and the eraser's hit test (broad and narrow phase).
\<close>

section \<open>Constants\<close>

definition ANNOT_BASE_WIDTH :: real where "ANNOT_BASE_WIDTH = 6"
definition ANNOT_MIN_PRESSURE :: real where "ANNOT_MIN_PRESSURE = 1 / 10"
definition ANNOT_TILT_DEG_FULL :: real where "ANNOT_TILT_DEG_FULL = 60"
definition ANNOT_TILT_WIDTH_BOOST :: real where "ANNOT_TILT_WIDTH_BOOST = 1875 / 1000"
definition ANNOT_ERASE_WIDTH_FACTOR :: real where "ANNOT_ERASE_WIDTH_FACTOR = 2"
definition ANNOT_ERASE_MIN_RADIUS :: real where "ANNOT_ERASE_MIN_RADIUS = 8"

text \<open>\<open>G_MAXFLOAT\<close>, the largest finite single-precision value.\<close>

definition G_MAXFLOAT :: real where
  "G_MAXFLOAT = 340282346638528859811704183484516925440"

lemmas annot_consts = ANNOT_BASE_WIDTH_def ANNOT_MIN_PRESSURE_def ANNOT_TILT_DEG_FULL_def
  ANNOT_TILT_WIDTH_BOOST_def ANNOT_ERASE_WIDTH_FACTOR_def ANNOT_ERASE_MIN_RADIUS_def

section \<open>Points and strokes\<close>

record ink_point =
  ip_x :: real
  ip_y :: real
  ip_pressure :: real
  ip_tilt_factor :: real

type_synonym rgba = "real \<times> real \<times> real \<times> real"

text \<open>A \<open>Stroke\<close> is a heap object: \<open>stroke_id\<close> is its address, by which the layer's
  \<open>current_stroke\<close> pointer refers to it.\<close>

record stroke =
  stroke_id :: nat
  points :: "ink_point list"
  stroke_rgba :: rgba
  bbox_min_x :: real
  bbox_min_y :: real
  bbox_max_x :: real
  bbox_max_y :: real
  follow_scroll :: bool

definition pressure_to_width_multiplier :: "real \<Rightarrow> real" where
  "pressure_to_width_multiplier pressure =
     (let p1 = (if pressure < ANNOT_MIN_PRESSURE then ANNOT_MIN_PRESSURE else pressure);
          p2 = (if p1 > 1 then 1 else p1)
      in sqrt p2)"

definition ink_point_max_half_width :: "ink_point \<Rightarrow> real" where
  "ink_point_max_half_width p =
     1 / 2 * ANNOT_BASE_WIDTH * pressure_to_width_multiplier (ip_pressure p) * ip_tilt_factor p"

definition stroke_new :: "nat \<Rightarrow> rgba \<Rightarrow> stroke" where
  "stroke_new i c = \<lparr>stroke_id = i, points = [], stroke_rgba = c,
     bbox_min_x = G_MAXFLOAT, bbox_min_y = G_MAXFLOAT,
     bbox_max_x = - G_MAXFLOAT, bbox_max_y = - G_MAXFLOAT, follow_scroll = False\<rparr>"

definition stroke_append_point :: "stroke \<Rightarrow> ink_point \<Rightarrow> stroke" where
  "stroke_append_point s p =
     (let s1 = s\<lparr>points := points s @ [p]\<rparr>;
          r = ink_point_max_half_width p;
          s2 = (if ip_x p - r < bbox_min_x s1 then s1\<lparr>bbox_min_x := ip_x p - r\<rparr> else s1);
          s3 = (if ip_y p - r < bbox_min_y s2 then s2\<lparr>bbox_min_y := ip_y p - r\<rparr> else s2);
          s4 = (if ip_x p + r > bbox_max_x s3 then s3\<lparr>bbox_max_x := ip_x p + r\<rparr> else s3)
      in if ip_y p + r > bbox_max_y s4 then s4\<lparr>bbox_max_y := ip_y p + r\<rparr> else s4)"

lemma stroke_append_simps [simp]:
  "points (stroke_append_point s p) = points s @ [p]"
  "stroke_id (stroke_append_point s p) = stroke_id s"
  "stroke_rgba (stroke_append_point s p) = stroke_rgba s"
  "follow_scroll (stroke_append_point s p) = follow_scroll s"
  by (simp_all add: stroke_append_point_def Let_def)

lemma stroke_append_bbox:
  "bbox_min_x (stroke_append_point s p) = min (bbox_min_x s) (ip_x p - ink_point_max_half_width p)"
  "bbox_min_y (stroke_append_point s p) = min (bbox_min_y s) (ip_y p - ink_point_max_half_width p)"
  "bbox_max_x (stroke_append_point s p) = max (bbox_max_x s) (ip_x p + ink_point_max_half_width p)"
  "bbox_max_y (stroke_append_point s p) = max (bbox_max_y s) (ip_y p + ink_point_max_half_width p)"
  by (simp_all add: stroke_append_point_def Let_def)

section \<open>Width\<close>

lemma pressure_multiplier_bounds:
  "0 < pressure_to_width_multiplier p" "pressure_to_width_multiplier p \<le> 1"
  by (simp_all add: pressure_to_width_multiplier_def Let_def annot_consts)

lemma pressure_multiplier_mono:
  "p \<le> q \<Longrightarrow> pressure_to_width_multiplier p \<le> pressure_to_width_multiplier q"
  by (auto simp: pressure_to_width_multiplier_def Let_def annot_consts)

lemma pressure_multiplier_one [simp]: "1 \<le> p \<Longrightarrow> pressure_to_width_multiplier p = 1"
  by (simp add: pressure_to_width_multiplier_def Let_def annot_consts)

section \<open>Painting\<close>

text \<open>The shapes \<open>draw_segment_on_cr\<close> fills: a disc (\<open>cairo_arc\<close> over the full circle) or a
  quadrilateral (\<open>move_to\<close>, three \<open>line_to\<close>, \<open>close_path\<close>).\<close>

datatype shape =
    Disc (disc_x: real) (disc_y: real) (disc_r: real)
  | Quad "(real \<times> real) list"

text \<open>The source and operator set before a fill: ink is OVER with the stroke's colour, erasing
  is CLEAR with opaque black.\<close>

datatype paint = Over rgba | Clear_Op rgba

type_synonym fill = "paint \<times> shape"

definition draw_segment_on_cr ::
  "rgba \<Rightarrow> real \<Rightarrow> real \<Rightarrow> real \<Rightarrow> real \<Rightarrow> real \<Rightarrow> real \<Rightarrow> real \<Rightarrow> real \<Rightarrow> bool \<Rightarrow> fill list" where
  "draw_segment_on_cr c x1 y1 x2 y2 p1 p2 tilt1 tilt2 erase =
     (let dx = x2 - x1; dy = y2 - y1;
          len2 = dx * dx + dy * dy;
          scale = (if erase then ANNOT_ERASE_WIDTH_FACTOR else 1);
          w1 = ANNOT_BASE_WIDTH * pressure_to_width_multiplier p1 * tilt1 * scale;
          w2 = ANNOT_BASE_WIDTH * pressure_to_width_multiplier p2 * tilt2 * scale;
          pt = (if erase then Clear_Op (0, 0, 0, 1) else Over c)
      in if len2 < 1 / 4 then [(pt, Disc x1 y1 (w1 * (1 / 2)))]
         else
           (let len = sqrt len2; nx = - dy / len; ny = dx / len;
                hx1 = nx * w1 * (1 / 2); hy1 = ny * w1 * (1 / 2);
                hx2 = nx * w2 * (1 / 2); hy2 = ny * w2 * (1 / 2)
            in [(pt, Quad [(x1 + hx1, y1 + hy1), (x2 + hx2, y2 + hy2),
                           (x2 - hx2, y2 - hy2), (x1 - hx1, y1 - hy1)]),
                (pt, Disc x1 y1 (w1 * (1 / 2))),
                (pt, Disc x2 y2 (w2 * (1 / 2)))]))"

fun rasterize_points :: "rgba \<Rightarrow> ink_point list \<Rightarrow> fill list" where
  "rasterize_points c (a # b # ps) =
     draw_segment_on_cr c (ip_x a) (ip_y a) (ip_x b) (ip_y b) (ip_pressure a) (ip_pressure b)
       (ip_tilt_factor a) (ip_tilt_factor b) False @ rasterize_points c (b # ps)"
| "rasterize_points c _ = []"

definition rasterize_stroke_on_cr :: "stroke \<Rightarrow> fill list" where
  "rasterize_stroke_on_cr s =
     (case points s of
        [] \<Rightarrow> []
      | [p] \<Rightarrow> draw_segment_on_cr (stroke_rgba s) (ip_x p) (ip_y p) (ip_x p) (ip_y p)
                 (ip_pressure p) (ip_pressure p) (ip_tilt_factor p) (ip_tilt_factor p) False
      | ps \<Rightarrow> rasterize_points (stroke_rgba s) ps)"

section \<open>Hit testing\<close>

definition point_to_segment_dist_sq ::
  "real \<Rightarrow> real \<Rightarrow> real \<Rightarrow> real \<Rightarrow> real \<Rightarrow> real \<Rightarrow> real" where
  "point_to_segment_dist_sq px py ax ay bx by' =
     (let dx = bx - ax; dy = by' - ay;
          len2 = dx * dx + dy * dy
      in if len2 < 1 / 10 ^ 6 then
           (let ddx = px - ax; ddy = py - ay in ddx * ddx + ddy * ddy)
         else
           (let t0 = ((px - ax) * dx + (py - ay) * dy) / len2;
                t = (if t0 < 0 then 0 else if t0 > 1 then 1 else t0);
                qx = ax + t * dx; qy = ay + t * dy;
                ex = px - qx; ey = py - qy
            in ex * ex + ey * ey))"

definition segment_to_segment_dist ::
  "real \<Rightarrow> real \<Rightarrow> real \<Rightarrow> real \<Rightarrow> real \<Rightarrow> real \<Rightarrow> real \<Rightarrow> real \<Rightarrow> real" where
  "segment_to_segment_dist ax ay bx by' cx cy dx dy =
     (let r1 = (dx - cx) * (ay - cy) - (dy - cy) * (ax - cx);
          r2 = (dx - cx) * (by' - cy) - (dy - cy) * (bx - cx);
          r3 = (bx - ax) * (cy - ay) - (by' - ay) * (cx - ax);
          r4 = (bx - ax) * (dy - ay) - (by' - ay) * (dx - ax)
      in if ((r1 > 0 \<and> r2 < 0) \<or> (r1 < 0 \<and> r2 > 0)) \<and>
            ((r3 > 0 \<and> r4 < 0) \<or> (r3 < 0 \<and> r4 > 0)) then 0
         else
           (let d1 = point_to_segment_dist_sq ax ay cx cy dx dy;
                d2 = point_to_segment_dist_sq bx by' cx cy dx dy;
                d3 = point_to_segment_dist_sq cx cy ax ay bx by';
                d4 = point_to_segment_dist_sq dx dy ax ay bx by';
                m1 = (if d2 < d1 then d2 else d1);
                m2 = (if d3 < m1 then d3 else m1);
                m3 = (if d4 < m2 then d4 else m2)
            in sqrt m3))"

fun polyline_hit :: "real \<Rightarrow> real \<Rightarrow> real \<Rightarrow> real \<Rightarrow> real \<Rightarrow> ink_point list \<Rightarrow> bool" where
  "polyline_hit ax ay bx by' r (p0 # p1 # ps) =
     (if segment_to_segment_dist ax ay bx by' (ip_x p0) (ip_y p0) (ip_x p1) (ip_y p1) \<le> r
      then True else polyline_hit ax ay bx by' r (p1 # ps))"
| "polyline_hit ax ay bx by' r _ = False"

definition narrow_phase_hit :: "stroke \<Rightarrow> real \<Rightarrow> real \<Rightarrow> real \<Rightarrow> real \<Rightarrow> real \<Rightarrow> bool" where
  "narrow_phase_hit s ax ay bx by' r =
     (case points s of
        [] \<Rightarrow> False
      | [p] \<Rightarrow> point_to_segment_dist_sq (ip_x p) (ip_y p) ax ay bx by' \<le> r * r
      | ps \<Rightarrow> polyline_hit ax ay bx by' r ps)"

definition stroke_hit_by_eraser :: "stroke \<Rightarrow> real \<Rightarrow> real \<Rightarrow> real \<Rightarrow> real \<Rightarrow> real \<Rightarrow> bool" where
  "stroke_hit_by_eraser s ax ay bx by' r =
     (if points s = [] then False
      else
        (let ex_min = (if ax < bx then ax else bx) - r;
             ex_max = (if ax > bx then ax else bx) + r;
             ey_min = (if ay < by' then ay else by') - r;
             ey_max = (if ay > by' then ay else by') + r
         in if ex_max < bbox_min_x s \<or> ex_min > bbox_max_x s \<or>
               ey_max < bbox_min_y s \<or> ey_min > bbox_max_y s then False
            else narrow_phase_hit s ax ay bx by' r))"

end
