(* ===== verification/Ink_Hit.thy ===== *)
theory Ink_Hit
  imports Ink_Geometry
begin

text \<open>
  Correctness of the eraser's hit test: the point-to-segment and segment-to-segment
  distances are the Euclidean minima, and the bounding-box broad phase never rejects a stroke
  the narrow phase would hit.
\<close>

section \<open>Points of a segment\<close>

definition dist_sq :: "real \<times> real \<Rightarrow> real \<times> real \<Rightarrow> real" where
  "dist_sq p q = (fst p - fst q)\<^sup>2 + (snd p - snd q)\<^sup>2"

definition seg_point :: "real \<Rightarrow> real \<Rightarrow> real \<Rightarrow> real \<Rightarrow> real \<Rightarrow> real \<times> real" where
  "seg_point ax ay bx by' t = (ax + t * (bx - ax), ay + t * (by' - ay))"

definition seg_len2 :: "real \<Rightarrow> real \<Rightarrow> real \<Rightarrow> real \<Rightarrow> real" where
  "seg_len2 ax ay bx by' = (bx - ax) * (bx - ax) + (by' - ay) * (by' - ay)"

text \<open>The code treats a segment shorter than a thousandth of a pixel as its first point, which
  is exact for a single point and for a segment at least that long.\<close>

definition regular_segment :: "real \<Rightarrow> real \<Rightarrow> real \<Rightarrow> real \<Rightarrow> bool" where
  "regular_segment ax ay bx by' \<longleftrightarrow>
     (bx = ax \<and> by' = ay) \<or> 1 / 10 ^ 6 \<le> seg_len2 ax ay bx by'"

lemma dist_sq_nonneg [simp]: "0 \<le> dist_sq p q"
  by (simp add: dist_sq_def)

lemma dist_sq_commute: "dist_sq p q = dist_sq q p"
  by (simp add: dist_sq_def power2_commute)

lemma seg_point_ends [simp]:
  "seg_point ax ay bx by' 0 = (ax, ay)" "seg_point ax ay bx by' 1 = (bx, by')"
  by (simp_all add: seg_point_def)

lemma point_dist_attained:
  "\<exists>t. 0 \<le> t \<and> t \<le> 1 \<and>
     point_to_segment_dist_sq px py ax ay bx by' = dist_sq (px, py) (seg_point ax ay bx by' t)"
proof (cases "seg_len2 ax ay bx by' < 1 / 10 ^ 6")
  case True
  then show ?thesis
    by (intro exI [of _ 0])
       (simp add: point_to_segment_dist_sq_def seg_len2_def Let_def dist_sq_def power2_eq_square)
next
  case False
  define t0 where
    "t0 = ((px - ax) * (bx - ax) + (py - ay) * (by' - ay)) / seg_len2 ax ay bx by'"
  define t where "t = (if t0 < 0 then 0 else if t0 > 1 then 1 else t0)"
  have "point_to_segment_dist_sq px py ax ay bx by' = dist_sq (px, py) (seg_point ax ay bx by' t)"
    using False
    by (simp add: point_to_segment_dist_sq_def seg_len2_def Let_def dist_sq_def seg_point_def
        t_def t0_def power2_eq_square)
  moreover have "0 \<le> t" "t \<le> 1" by (simp_all add: t_def)
  ultimately show ?thesis by blast
qed

lemma point_dist_nonneg: "0 \<le> point_to_segment_dist_sq px py ax ay bx by'"
  using point_dist_attained [of px py ax ay bx by'] by auto

lemma quadratic_min:
  fixes L c u t :: real
  assumes L: "0 < L" and t: "t = (if c / L < 0 then 0 else if c / L > 1 then 1 else c / L)"
    and u: "0 \<le> u" "u \<le> 1"
  shows "t * t * L - 2 * t * c \<le> u * u * L - 2 * u * c"
proof -
  have key: "(u * u * L - 2 * u * c) - (t * t * L - 2 * t * c) =
      L * (u - t)\<^sup>2 + 2 * ((u - t) * (L * t - c))"
    by (simp add: power2_eq_square algebra_simps)
  have "0 \<le> (u - t) * (L * t - c)"
  proof -
    consider "c / L < 0" | "c / L > 1" | "0 \<le> c / L" "c / L \<le> 1" by linarith
    then show ?thesis
    proof cases
      case 1
      then have "t = 0" "c \<le> 0" using L t by (auto simp: divide_less_0_iff)
      with u show ?thesis by (simp add: mult_nonneg_nonpos)
    next
      case 2
      then have "t = 1" using t by simp
      moreover have "L \<le> c" using 2 L by (simp add: less_divide_eq)
      ultimately have "t = 1" "L \<le> c" by simp_all
      with u show ?thesis by (simp add: mult_nonpos_nonpos)
    next
      case 3
      then have "t = c / L" using t by auto
      with L show ?thesis by simp
    qed
  qed
  then have "0 \<le> L * (u - t)\<^sup>2 + 2 * ((u - t) * (L * t - c))"
    by (rule add_nonneg_nonneg [OF mult_nonneg_nonneg mult_nonneg_nonneg, rotated 3])
       (use L in simp_all)
  with key show ?thesis by linarith
qed

lemma point_dist_minimal:
  assumes rg: "regular_segment ax ay bx by'" and u: "0 \<le> u" "u \<le> 1"
  shows "point_to_segment_dist_sq px py ax ay bx by' \<le> dist_sq (px, py) (seg_point ax ay bx by' u)"
proof (cases "bx = ax \<and> by' = ay")
  case True
  then show ?thesis
    by (simp add: point_to_segment_dist_sq_def dist_sq_def seg_point_def power2_eq_square Let_def)
next
  case False
  define L where "L = seg_len2 ax ay bx by'"
  define c where "c = (px - ax) * (bx - ax) + (py - ay) * (by' - ay)"
  define t where "t = (if c / L < 0 then 0 else if c / L > 1 then 1 else c / L)"
  have len: "\<not> L < 1 / 10 ^ 6" using rg False by (auto simp: regular_segment_def L_def)
  then have L: "0 < L" by simp
  have expand: "dist_sq (px, py) (seg_point ax ay bx by' v) =
      (px - ax)\<^sup>2 + (py - ay)\<^sup>2 + (v * v * L - 2 * v * c)" for v
    by (simp add: dist_sq_def seg_point_def L_def c_def seg_len2_def power2_eq_square
        algebra_simps)
  have "point_to_segment_dist_sq px py ax ay bx by' = dist_sq (px, py) (seg_point ax ay bx by' t)"
    using len
    by (simp add: point_to_segment_dist_sq_def Let_def dist_sq_def seg_point_def t_def c_def
        L_def seg_len2_def power2_eq_square)
  also have "\<dots> \<le> dist_sq (px, py) (seg_point ax ay bx by' u)"
    unfolding expand using quadratic_min [OF L t_def u] by simp
  finally show ?thesis .
qed

section \<open>Distance of two segments\<close>

text \<open>A continuous path in the parameter square that starts inside and ends outside (or on the
  boundary) meets the boundary.\<close>

definition square_depth :: "real \<Rightarrow> real \<Rightarrow> real" where
  "square_depth s t = min (min s (1 - s)) (min t (1 - t))"

lemma exit_square:
  assumes "0 \<le> square_depth s t" and "square_depth s' t' \<le> 0"
  obtains l where "0 \<le> l" "l \<le> 1" "square_depth (s + l * (s' - s)) (t + l * (t' - t)) = 0"
proof -
  let ?g = "\<lambda>l. square_depth (s + l * (s' - s)) (t + l * (t' - t))"
  have "continuous_on {0..1} ?g"
    unfolding square_depth_def by (intro continuous_intros)
  then have "\<exists>l. 0 \<le> l \<and> l \<le> 1 \<and> ?g l = 0"
    using assms by (intro IVT2') auto
  with that show thesis by blast
qed

lemma square_depth_nonneg: "0 \<le> square_depth s t \<longleftrightarrow> 0 \<le> s \<and> s \<le> 1 \<and> 0 \<le> t \<and> t \<le> 1"
  by (auto simp: square_depth_def)

lemma square_depth_zero:
  "square_depth s t = 0 \<Longrightarrow>
   (s = 0 \<or> s = 1 \<or> t = 0 \<or> t = 1) \<and> 0 \<le> s \<and> s \<le> 1 \<and> 0 \<le> t \<and> t \<le> 1"
  by (auto simp: square_depth_def min_def split: if_splits)

text \<open>The four endpoint distances bound the distance on the boundary of the square.\<close>

definition endpoint_min :: "real \<Rightarrow> real \<Rightarrow> real \<Rightarrow> real \<Rightarrow> real \<Rightarrow> real \<Rightarrow> real \<Rightarrow> real \<Rightarrow> real" where
  "endpoint_min ax ay bx by' cx cy dx dy =
     min (min (point_to_segment_dist_sq ax ay cx cy dx dy)
              (point_to_segment_dist_sq bx by' cx cy dx dy))
         (min (point_to_segment_dist_sq cx cy ax ay bx by')
              (point_to_segment_dist_sq dx dy ax ay bx by'))"

definition properly_cross ::
  "real \<Rightarrow> real \<Rightarrow> real \<Rightarrow> real \<Rightarrow> real \<Rightarrow> real \<Rightarrow> real \<Rightarrow> real \<Rightarrow> bool" where
  "properly_cross ax ay bx by' cx cy dx dy \<longleftrightarrow>
     ((dx - cx) * (ay - cy) - (dy - cy) * (ax - cx)) *
     ((dx - cx) * (by' - cy) - (dy - cy) * (bx - cx)) < 0 \<and>
     ((bx - ax) * (cy - ay) - (by' - ay) * (cx - ax)) *
     ((bx - ax) * (dy - ay) - (by' - ay) * (dx - ax)) < 0"

lemma segment_dist_cases:
  "segment_to_segment_dist ax ay bx by' cx cy dx dy =
     (if properly_cross ax ay bx by' cx cy dx dy then 0
      else sqrt (endpoint_min ax ay bx by' cx cy dx dy))"
  by (auto simp: segment_to_segment_dist_def properly_cross_def endpoint_min_def Let_def
      mult_less_0_iff min_def)

lemma endpoint_min_nonneg: "0 \<le> endpoint_min ax ay bx by' cx cy dx dy"
  by (simp add: endpoint_min_def point_dist_nonneg)

lemma boundary_bound:
  assumes nd: "regular_segment ax ay bx by'" "regular_segment cx cy dx dy"
    and b: "square_depth s t = 0"
  shows "endpoint_min ax ay bx by' cx cy dx dy \<le>
         dist_sq (seg_point ax ay bx by' s) (seg_point cx cy dx dy t)"
proof -
  note z = square_depth_zero [OF b]
  let ?P = "seg_point ax ay bx by' s" and ?Q = "seg_point cx cy dx dy t"
  have 1: "s = 0 \<Longrightarrow> point_to_segment_dist_sq ax ay cx cy dx dy \<le> dist_sq ?P ?Q"
    and 2: "s = 1 \<Longrightarrow> point_to_segment_dist_sq bx by' cx cy dx dy \<le> dist_sq ?P ?Q"
    using point_dist_minimal [OF nd(2), of t] z by auto
  have 3: "t = 0 \<Longrightarrow> point_to_segment_dist_sq cx cy ax ay bx by' \<le> dist_sq ?P ?Q"
    and 4: "t = 1 \<Longrightarrow> point_to_segment_dist_sq dx dy ax ay bx by' \<le> dist_sq ?P ?Q"
    using point_dist_minimal [OF nd(1), of s] z by (auto simp: dist_sq_commute [of ?P])
  show ?thesis
    using z 1 2 3 4 unfolding endpoint_min_def by (auto simp: min_le_iff_disj)
qed

text \<open>Towards the crossing of the supporting lines the distance shrinks linearly.\<close>

lemma lines_meet:
  assumes K: "(bx - ax) * (dy - cy) - (by' - ay) * (dx - cx) \<noteq> 0"
  obtains s t where "seg_point ax ay bx by' s = seg_point cx cy dx dy t"
    and "s * ((bx - ax) * (dy - cy) - (by' - ay) * (dx - cx)) =
         (dx - cx) * (ay - cy) - (dy - cy) * (ax - cx)"
    and "t * ((bx - ax) * (dy - cy) - (by' - ay) * (dx - cx)) =
         - ((bx - ax) * (cy - ay) - (by' - ay) * (cx - ax))"
proof -
  define D where "D = (bx - ax) * (dy - cy) - (by' - ay) * (dx - cx)"
  define r1 where "r1 = (dx - cx) * (ay - cy) - (dy - cy) * (ax - cx)"
  define r3 where "r3 = (bx - ax) * (cy - ay) - (by' - ay) * (cx - ax)"
  have D: "D \<noteq> 0" using K by (simp add: D_def)
  have "D * ax + r1 * (bx - ax) = D * cx - r3 * (dx - cx)"
    "D * ay + r1 * (by' - ay) = D * cy - r3 * (dy - cy)"
    unfolding D_def r1_def r3_def by (simp_all add: algebra_simps)
  then have "ax + r1 / D * (bx - ax) = cx + (- r3) / D * (dx - cx)"
    "ay + r1 / D * (by' - ay) = cy + (- r3) / D * (dy - cy)"
    using D by (simp_all add: field_simps)
  then have "seg_point ax ay bx by' (r1 / D) = seg_point cx cy dx dy (- r3 / D)"
    by (simp add: seg_point_def)
  moreover have "r1 / D * D = r1" "- r3 / D * D = - r3" using D by simp_all
  ultimately show thesis
    using that [of "r1 / D" "- r3 / D"] unfolding D_def r1_def r3_def by blast
qed

lemma dist_toward_meet:
  assumes "seg_point ax ay bx by' s' = seg_point cx cy dx dy t'"
  shows "dist_sq (seg_point ax ay bx by' (s + l * (s' - s)))
                 (seg_point cx cy dx dy (t + l * (t' - t))) =
         (1 - l)\<^sup>2 * dist_sq (seg_point ax ay bx by' s) (seg_point cx cy dx dy t)"
proof -
  have x: "ax + s' * (bx - ax) = cx + t' * (dx - cx)"
    and y: "ay + s' * (by' - ay) = cy + t' * (dy - cy)"
    using assms by (simp_all add: seg_point_def)
  have "ax + (s + l * (s' - s)) * (bx - ax) - (cx + (t + l * (t' - t)) * (dx - cx)) =
      (1 - l) * (ax + s * (bx - ax) - (cx + t * (dx - cx)))"
    using x by algebra
  moreover have "ay + (s + l * (s' - s)) * (by' - ay) - (cy + (t + l * (t' - t)) * (dy - cy)) =
      (1 - l) * (ay + s * (by' - ay) - (cy + t * (dy - cy)))"
    using y by algebra
  ultimately show ?thesis
    by (simp add: dist_sq_def seg_point_def power_mult_distrib distrib_left)
qed

lemma crossing_inside:
  fixes D r1 r2 s :: real
  assumes "D \<noteq> 0" "s * D = r1" "r1 - r2 = D" "0 < s" "s < 1"
  shows "r1 * r2 < 0"
proof -
  have r: "r1 = s * D" "r2 = s * D - D" using assms(2,3) by simp_all
  have "r1 * r2 = - (s * (1 - s)) * (D * D)"
    unfolding r by (simp add: algebra_simps)
  moreover have "0 < D * D" using assms(1) by (auto simp: zero_less_mult_iff)
  then have "0 < s * (1 - s) * (D * D)"
    using mult_pos_pos [OF mult_pos_pos [of s "1 - s"], of "D * D"] assms(4,5) by simp
  ultimately show ?thesis by simp
qed

text \<open>Parallel segments: both points can be moved together until one of them is an endpoint.\<close>

lemma parallel_slide:
  assumes K: "(bx - ax) * (dy - cy) - (by' - ay) * (dx - cx) = 0"
    and in_sq: "0 \<le> square_depth s t"
  obtains s' t' where "square_depth s' t' = 0"
    and "dist_sq (seg_point ax ay bx by' s') (seg_point cx cy dx dy t') =
         dist_sq (seg_point ax ay bx by' s) (seg_point cx cy dx dy t)"
proof (cases "dx = cx \<and> dy = cy")
  case True
  have "square_depth s 1 \<le> 0" by (simp add: square_depth_def min_def)
  from exit_square [OF in_sq this] obtain l where
    l: "square_depth (s + l * (s - s)) (t + l * (1 - t)) = 0" by blast
  show thesis
    by (rule that [OF l]) (use True in \<open>simp add: dist_sq_def seg_point_def\<close>)
next
  case False
  let ?ex = "bx - ax" and ?ey = "by' - ay" and ?fx = "dx - cx" and ?fy = "dy - cy"
  define u v where "u = ?fx * ?fx + ?fy * ?fy" and "v = ?ex * ?fx + ?ey * ?fy"
  have u: "u \<noteq> 0" using False by (simp add: u_def sum_squares_eq_zero_iff)
  have dir: "u * ?ex = v * ?fx" "u * ?ey = v * ?fy"
    unfolding u_def v_def using K by algebra+
  define w where "w = (1 - s) / u"
  have "square_depth (s + w * u) (t + w * v) \<le> 0"
    using u by (simp add: square_depth_def w_def min_def)
  from exit_square [OF in_sq this] obtain l where
    l: "square_depth (s + l * (s + w * u - s)) (t + l * (t + w * v - t)) = 0" by blast
  let ?s = "s + l * (w * u)" and ?t = "t + l * (w * v)"
  have "ax + ?s * ?ex - (cx + ?t * ?fx) = ax + s * ?ex - (cx + t * ?fx)"
    "ay + ?s * ?ey - (cy + ?t * ?fy) = ay + s * ?ey - (cy + t * ?fy)"
    using dir by algebra+
  then have "dist_sq (seg_point ax ay bx by' ?s) (seg_point cx cy dx dy ?t) =
      dist_sq (seg_point ax ay bx by' s) (seg_point cx cy dx dy t)"
    unfolding dist_sq_def seg_point_def fst_conv snd_conv by (simp only:)
  with l that [of ?s ?t] show thesis by simp
qed

text \<open>Non-parallel segments that do not properly cross: moving towards the meeting point of the
  supporting lines reaches the boundary of the square, and the distance does not grow.\<close>

lemma crossing_shrinks:
  assumes K: "(bx - ax) * (dy - cy) - (by' - ay) * (dx - cx) \<noteq> 0"
    and nc: "\<not> properly_cross ax ay bx by' cx cy dx dy"
    and in_sq: "0 \<le> square_depth s t"
  obtains s' t' where "square_depth s' t' = 0"
    and "dist_sq (seg_point ax ay bx by' s') (seg_point cx cy dx dy t') \<le>
         dist_sq (seg_point ax ay bx by' s) (seg_point cx cy dx dy t)"
proof -
  define D where "D = (bx - ax) * (dy - cy) - (by' - ay) * (dx - cx)"
  from lines_meet [OF K] obtain s0 t0 where
    meet: "seg_point ax ay bx by' s0 = seg_point cx cy dx dy t0"
    and s0: "s0 * D = (dx - cx) * (ay - cy) - (dy - cy) * (ax - cx)"
    and t0: "t0 * D = - ((bx - ax) * (cy - ay) - (by' - ay) * (cx - ax))"
    unfolding D_def by metis
  have outside: "square_depth s0 t0 \<le> 0"
  proof (rule ccontr)
    assume "\<not> ?thesis"
    then have b: "0 < s0" "s0 < 1" "0 < t0" "t0 < 1" by (auto simp: square_depth_def)
    have D: "D \<noteq> 0" using K by (simp add: D_def)
    have "((dx - cx) * (ay - cy) - (dy - cy) * (ax - cx)) *
        ((dx - cx) * (by' - cy) - (dy - cy) * (bx - cx)) < 0"
      by (rule crossing_inside [OF D s0 _ b(1,2)]) (simp add: D_def algebra_simps)
    moreover have "((bx - ax) * (cy - ay) - (by' - ay) * (cx - ax)) *
        ((bx - ax) * (dy - ay) - (by' - ay) * (dx - ax)) < 0"
      using t0
      by (intro crossing_inside [OF _ _ _ b(3,4), of "- D"]) (use D in \<open>simp_all add: D_def algebra_simps\<close>)
    ultimately show False using nc by (simp add: properly_cross_def)
  qed
  from exit_square [OF in_sq this] obtain l where l: "0 \<le> l" "l \<le> 1"
    "square_depth (s + l * (s0 - s)) (t + l * (t0 - t)) = 0" by blast
  show thesis
  proof (rule that [OF l(3)])
    have "(1 - l)\<^sup>2 \<le> 1" using l(1,2) by (simp add: power_le_one)
    then show "dist_sq (seg_point ax ay bx by' (s + l * (s0 - s)))
        (seg_point cx cy dx dy (t + l * (t0 - t))) \<le>
        dist_sq (seg_point ax ay bx by' s) (seg_point cx cy dx dy t)"
      unfolding dist_toward_meet [OF meet] by (simp add: mult_left_le_one_le)
  qed
qed

lemma segment_dist_minimal:
  assumes rg: "regular_segment ax ay bx by'" "regular_segment cx cy dx dy"
    and st: "0 \<le> s" "s \<le> 1" "0 \<le> t" "t \<le> 1"
  shows "segment_to_segment_dist ax ay bx by' cx cy dx dy \<le>
         sqrt (dist_sq (seg_point ax ay bx by' s) (seg_point cx cy dx dy t))"
proof (cases "properly_cross ax ay bx by' cx cy dx dy")
  case True
  then show ?thesis by (simp add: segment_dist_cases)
next
  case False
  have in_sq: "0 \<le> square_depth s t" using st by (simp add: square_depth_nonneg)
  obtain s' t' where b: "square_depth s' t' = 0" and
    le: "dist_sq (seg_point ax ay bx by' s') (seg_point cx cy dx dy t') \<le>
         dist_sq (seg_point ax ay bx by' s) (seg_point cx cy dx dy t)"
  proof (cases "(bx - ax) * (dy - cy) - (by' - ay) * (dx - cx) = 0")
    case True
    show ?thesis by (rule parallel_slide [OF True in_sq]) (use that in auto)
  next
    case K: False
    show ?thesis by (rule crossing_shrinks [OF K False in_sq]) (use that in auto)
  qed
  have "endpoint_min ax ay bx by' cx cy dx dy \<le>
      dist_sq (seg_point ax ay bx by' s) (seg_point cx cy dx dy t)"
    using boundary_bound [OF rg b] le by linarith
  with False show ?thesis by (simp add: segment_dist_cases)
qed

text \<open>The distance is attained by a pair of points of the two segments.\<close>

definition seg_dist_witness ::
  "real \<Rightarrow> real \<Rightarrow> real \<Rightarrow> real \<Rightarrow> real \<Rightarrow> real \<Rightarrow> real \<Rightarrow> real \<Rightarrow> real \<Rightarrow> bool" where
  "seg_dist_witness ax ay bx by' cx cy dx dy e \<longleftrightarrow>
     (\<exists>s t. 0 \<le> s \<and> s \<le> 1 \<and> 0 \<le> t \<and> t \<le> 1 \<and>
        e = dist_sq (seg_point ax ay bx by' s) (seg_point cx cy dx dy t))"

lemma endpoint_min_attained:
  "seg_dist_witness ax ay bx by' cx cy dx dy (endpoint_min ax ay bx by' cx cy dx dy)"
proof -
  let ?w = "seg_dist_witness ax ay bx by' cx cy dx dy"
  have I: "?w e" if "0 \<le> s" "s \<le> 1" "0 \<le> t" "t \<le> 1"
    "e = dist_sq (seg_point ax ay bx by' s) (seg_point cx cy dx dy t)" for e s t
    using that unfolding seg_dist_witness_def by blast
  have "?w (point_to_segment_dist_sq ax ay cx cy dx dy)"
    using point_dist_attained [of ax ay cx cy dx dy] I [of 0] by auto
  moreover have "?w (point_to_segment_dist_sq bx by' cx cy dx dy)"
    using point_dist_attained [of bx by' cx cy dx dy] I [of 1] by auto
  moreover have "?w (point_to_segment_dist_sq cx cy ax ay bx by')"
    using point_dist_attained [of cx cy ax ay bx by'] I [of _ 0] by (auto simp: dist_sq_commute)
  moreover have "?w (point_to_segment_dist_sq dx dy ax ay bx by')"
    using point_dist_attained [of dx dy ax ay bx by'] I [of _ 1] by (auto simp: dist_sq_commute)
  ultimately show ?thesis by (simp add: endpoint_min_def min_def)
qed

lemma sign_change_between:
  fixes r1 r2 :: real
  assumes "r1 * r2 < 0"
  shows "0 \<le> r1 / (r1 - r2)" "r1 / (r1 - r2) \<le> 1" "r1 - r2 \<noteq> 0"
proof -
  from assms have "(0 < r1 \<and> r2 < 0) \<or> (r1 < 0 \<and> 0 < r2)" by (simp add: mult_less_0_iff)
  then show "0 \<le> r1 / (r1 - r2)" "r1 / (r1 - r2) \<le> 1" "r1 - r2 \<noteq> 0"
    by (auto simp: divide_simps)
qed

lemma crossing_attained:
  assumes "properly_cross ax ay bx by' cx cy dx dy"
  shows "seg_dist_witness ax ay bx by' cx cy dx dy 0"
proof -
  define r1 where "r1 = (dx - cx) * (ay - cy) - (dy - cy) * (ax - cx)"
  define r2 where "r2 = (dx - cx) * (by' - cy) - (dy - cy) * (bx - cx)"
  define r3 where "r3 = (bx - ax) * (cy - ay) - (by' - ay) * (cx - ax)"
  define r4 where "r4 = (bx - ax) * (dy - ay) - (by' - ay) * (dx - ax)"
  have neg: "r1 * r2 < 0" "r3 * r4 < 0"
    using assms by (simp_all add: properly_cross_def r1_def r2_def r3_def r4_def)
  note b1 = sign_change_between [OF neg(1)] and b3 = sign_change_between [OF neg(2)]
  let ?D = "(bx - ax) * (dy - cy) - (by' - ay) * (dx - cx)"
  have D: "r1 - r2 = ?D" "r3 - r4 = - ?D"
    unfolding r1_def r2_def r3_def r4_def by (simp_all add: algebra_simps)
  have K: "?D \<noteq> 0" using b1(3) D(1) by simp
  from lines_meet [OF K] obtain s t where
    meet: "seg_point ax ay bx by' s = seg_point cx cy dx dy t"
    and "s * ?D = r1" "t * ?D = - r3"
    unfolding r1_def r3_def by metis
  then have "s = r1 / (r1 - r2)" "t = r3 / (r3 - r4)"
    unfolding D using K by (simp_all add: field_simps)
  then have "0 \<le> s" "s \<le> 1" "0 \<le> t" "t \<le> 1" using b1(1,2) b3(1,2) by simp_all
  then show ?thesis unfolding seg_dist_witness_def using meet
    by (intro exI [of _ s] exI [of _ t]) (simp add: dist_sq_def)
qed

lemma segment_dist_attained:
  "\<exists>e. segment_to_segment_dist ax ay bx by' cx cy dx dy = sqrt e \<and>
       seg_dist_witness ax ay bx by' cx cy dx dy e"
proof (cases "properly_cross ax ay bx by' cx cy dx dy")
  case True
  then show ?thesis
    by (intro exI [of _ 0]) (simp add: segment_dist_cases crossing_attained)
next
  case False
  then show ?thesis using endpoint_min_attained by (auto simp: segment_dist_cases)
qed

lemma segment_within_iff:
  assumes "regular_segment ax ay bx by'" "regular_segment cx cy dx dy"
  shows "segment_to_segment_dist ax ay bx by' cx cy dx dy \<le> r \<longleftrightarrow>
    (\<exists>s t. 0 \<le> s \<and> s \<le> 1 \<and> 0 \<le> t \<and> t \<le> 1 \<and>
       sqrt (dist_sq (seg_point ax ay bx by' s) (seg_point cx cy dx dy t)) \<le> r)"
  (is "?l \<longleftrightarrow> ?r")
proof
  assume ?l
  with segment_dist_attained [of ax ay bx by' cx cy dx dy] show ?r
    unfolding seg_dist_witness_def by metis
next
  assume ?r
  with segment_dist_minimal [OF assms] show ?l by (meson order_trans)
qed

section \<open>The eraser and the strokes\<close>

text \<open>The bounding box of a stroke contains every point, widened by its half width.\<close>

definition bbox_ok :: "stroke \<Rightarrow> bool" where
  "bbox_ok s \<longleftrightarrow> (\<forall>p \<in> set (points s).
     bbox_min_x s \<le> ip_x p - ink_point_max_half_width p \<and>
     ip_x p + ink_point_max_half_width p \<le> bbox_max_x s \<and>
     bbox_min_y s \<le> ip_y p - ink_point_max_half_width p \<and>
     ip_y p + ink_point_max_half_width p \<le> bbox_max_y s)"

definition tilt_ok :: "stroke \<Rightarrow> bool" where
  "tilt_ok s \<longleftrightarrow> (\<forall>p \<in> set (points s). 0 \<le> ip_tilt_factor p)"

lemma half_width_nonneg: "0 \<le> ip_tilt_factor p \<Longrightarrow> 0 \<le> ink_point_max_half_width p"
  using pressure_multiplier_bounds(1) [of "ip_pressure p"]
  by (simp add: ink_point_max_half_width_def ANNOT_BASE_WIDTH_def)

lemma bbox_ok_new [simp]: "bbox_ok (stroke_new i c)" "tilt_ok (stroke_new i c)"
  by (simp_all add: bbox_ok_def tilt_ok_def stroke_new_def)

lemma bbox_ok_append: "bbox_ok s \<Longrightarrow> bbox_ok (stroke_append_point s p)"
  unfolding bbox_ok_def by (auto simp: stroke_append_bbox min_le_iff_disj le_max_iff_disj)

lemma tilt_ok_append: "tilt_ok s \<Longrightarrow> 0 \<le> ip_tilt_factor p \<Longrightarrow> tilt_ok (stroke_append_point s p)"
  by (simp add: tilt_ok_def)

definition in_bbox :: "stroke \<Rightarrow> real \<times> real \<Rightarrow> bool" where
  "in_bbox s q \<longleftrightarrow> bbox_min_x s \<le> fst q \<and> fst q \<le> bbox_max_x s \<and>
     bbox_min_y s \<le> snd q \<and> snd q \<le> bbox_max_y s"

lemma points_in_bbox:
  "bbox_ok s \<Longrightarrow> tilt_ok s \<Longrightarrow> p \<in> set (points s) \<Longrightarrow> in_bbox s (ip_x p, ip_y p)"
  using half_width_nonneg [of p] by (fastforce simp: bbox_ok_def tilt_ok_def in_bbox_def)

lemma between_lower:
  fixes a b lo :: real
  assumes "lo \<le> a" "lo \<le> b" "0 \<le> t" "t \<le> 1"
  shows "lo \<le> a + t * (b - a)"
proof -
  have "(1 - t) * lo + t * lo \<le> (1 - t) * a + t * b"
    using assms by (intro add_mono mult_left_mono) auto
  then show ?thesis by (simp add: algebra_simps)
qed

lemma between_upper:
  fixes a b hi :: real
  assumes "a \<le> hi" "b \<le> hi" "0 \<le> t" "t \<le> 1"
  shows "a + t * (b - a) \<le> hi"
  using between_lower [of "- hi" "- a" "- b" t] assms by (simp add: algebra_simps)

lemmas between_ends = between_lower between_upper

lemma segment_in_bbox:
  "in_bbox s (ax, ay) \<Longrightarrow> in_bbox s (bx, by') \<Longrightarrow> 0 \<le> t \<Longrightarrow> t \<le> 1 \<Longrightarrow>
   in_bbox s (seg_point ax ay bx by' t)"
  by (simp add: in_bbox_def seg_point_def between_ends)

definition broad_phase_reject ::
  "stroke \<Rightarrow> real \<Rightarrow> real \<Rightarrow> real \<Rightarrow> real \<Rightarrow> real \<Rightarrow> bool" where
  "broad_phase_reject s ax ay bx by' r \<longleftrightarrow>
     max ax bx + r < bbox_min_x s \<or> min ax bx - r > bbox_max_x s \<or>
     max ay by' + r < bbox_min_y s \<or> min ay by' - r > bbox_max_y s"

lemma stroke_hit_phases:
  "stroke_hit_by_eraser s ax ay bx by' r \<longleftrightarrow>
     points s \<noteq> [] \<and> \<not> broad_phase_reject s ax ay bx by' r \<and> narrow_phase_hit s ax ay bx by' r"
  by (auto simp: stroke_hit_by_eraser_def broad_phase_reject_def Let_def max_def min_def)

lemma coord_le_dist:
  "\<bar>fst p - fst q\<bar> \<le> sqrt (dist_sq p q)" "\<bar>snd p - snd q\<bar> \<le> sqrt (dist_sq p q)"
  by (rule real_le_rsqrt, simp add: dist_sq_def)+

text \<open>A point of the eraser's segment is farther than \<open>r\<close> from every point of a rejected box.\<close>

lemma rejected_far:
  assumes rej: "broad_phase_reject s ax ay bx by' r" and q: "in_bbox s q"
    and t: "0 \<le> t" "t \<le> 1" and r: "0 \<le> r"
  shows "r < sqrt (dist_sq (seg_point ax ay bx by' t) q)"
proof -
  let ?p = "seg_point ax ay bx by' t"
  have "min ax bx \<le> fst ?p" "fst ?p \<le> max ax bx" "min ay by' \<le> snd ?p" "snd ?p \<le> max ay by'"
    unfolding seg_point_def using t by (simp_all add: between_ends)
  then have "r < \<bar>fst ?p - fst q\<bar> \<or> r < \<bar>snd ?p - snd q\<bar>"
    using rej q unfolding broad_phase_reject_def in_bbox_def by linarith
  moreover have "\<bar>fst ?p - fst q\<bar> \<le> sqrt (dist_sq ?p q)" "\<bar>snd ?p - snd q\<bar> \<le> sqrt (dist_sq ?p q)"
    by (simp_all add: coord_le_dist)
  ultimately show ?thesis by linarith
qed

lemma polyline_hit_iff:
  "polyline_hit ax ay bx by' r ps \<longleftrightarrow>
     (\<exists>i. Suc i < length ps \<and>
        segment_to_segment_dist ax ay bx by' (ip_x (ps ! i)) (ip_y (ps ! i))
          (ip_x (ps ! Suc i)) (ip_y (ps ! Suc i)) \<le> r)"
proof (induction ax ay bx by' r ps rule: polyline_hit.induct)
  case (1 ax ay bx by' r p0 p1 ps)
  have "(\<exists>i. Suc i < length (p0 # p1 # ps) \<and> P i) \<longleftrightarrow>
      P 0 \<or> (\<exists>i. Suc i < length (p1 # ps) \<and> P (Suc i))" for P
    by (metis Suc_less_eq length_Cons not0_implies_Suc zero_less_Suc)
  from this [of "\<lambda>i. segment_to_segment_dist ax ay bx by' (ip_x ((p0 # p1 # ps) ! i))
      (ip_y ((p0 # p1 # ps) ! i)) (ip_x ((p0 # p1 # ps) ! Suc i))
      (ip_y ((p0 # p1 # ps) ! Suc i)) \<le> r"] 1
  show ?case by auto
qed auto

lemma narrow_hit_not_rejected:
  assumes ok: "bbox_ok s" "tilt_ok s" and r: "0 \<le> r"
    and hit: "narrow_phase_hit s ax ay bx by' r"
  shows "\<not> broad_phase_reject s ax ay bx by' r"
proof
  assume rej: "broad_phase_reject s ax ay bx by' r"
  note inb = points_in_bbox [OF ok]
  show False
  proof (cases "\<exists>p. points s = [p]")
    case True
    then obtain p where p: "points s = [p]" by blast
    from point_dist_attained [of "ip_x p" "ip_y p" ax ay bx by'] obtain t where
      t: "0 \<le> t" "t \<le> 1" and
      d: "point_to_segment_dist_sq (ip_x p) (ip_y p) ax ay bx by' =
        dist_sq (seg_point ax ay bx by' t) (ip_x p, ip_y p)"
      by (metis dist_sq_commute)
    have "sqrt (dist_sq (seg_point ax ay bx by' t) (ip_x p, ip_y p)) \<le> r"
      using hit p d r by (intro real_le_lsqrt) (simp_all add: narrow_phase_hit_def power2_eq_square)
    then show False using rejected_far [OF rej inb [of p] t r] p by simp
  next
    case False
    then have "polyline_hit ax ay bx by' r (points s)"
      using hit by (auto simp: narrow_phase_hit_def split: list.splits)
    then obtain i where i: "Suc i < length (points s)" and
      d: "segment_to_segment_dist ax ay bx by' (ip_x (points s ! i)) (ip_y (points s ! i))
          (ip_x (points s ! Suc i)) (ip_y (points s ! Suc i)) \<le> r"
      unfolding polyline_hit_iff by blast
    from segment_dist_attained [of ax ay bx by'] d obtain u v where
      uv: "0 \<le> u" "u \<le> 1" "0 \<le> v" "v \<le> 1" and
      le: "sqrt (dist_sq (seg_point ax ay bx by' u)
        (seg_point (ip_x (points s ! i)) (ip_y (points s ! i))
          (ip_x (points s ! Suc i)) (ip_y (points s ! Suc i)) v)) \<le> r"
      unfolding seg_dist_witness_def by metis
    show False
      using rejected_far [OF rej segment_in_bbox [OF inb inb uv(3,4)] uv(1,2) r] i le
      by (meson Suc_lessD not_le nth_mem)
  qed
qed

lemma broad_phase_sound:
  assumes "bbox_ok s" "tilt_ok s" "0 \<le> r"
  shows "stroke_hit_by_eraser s ax ay bx by' r \<longleftrightarrow> narrow_phase_hit s ax ay bx by' r"
proof -
  have "narrow_phase_hit s ax ay bx by' r \<Longrightarrow> points s \<noteq> []"
    by (auto simp: narrow_phase_hit_def)
  then show ?thesis
    using narrow_hit_not_rejected [OF assms] by (auto simp: stroke_hit_phases)
qed

text \<open>Every segment of a polyline is a point or not too short.\<close>

definition regular_polyline :: "ink_point list \<Rightarrow> bool" where
  "regular_polyline ps \<longleftrightarrow> (\<forall>i < length ps - 1.
     regular_segment (ip_x (ps ! i)) (ip_y (ps ! i)) (ip_x (ps ! Suc i)) (ip_y (ps ! Suc i)))"

text \<open>Some point of the eraser's segment is within \<open>r\<close> of some point of the polyline.\<close>

definition polyline_within :: "ink_point list \<Rightarrow> real \<Rightarrow> real \<Rightarrow> real \<Rightarrow> real \<Rightarrow> real \<Rightarrow> bool" where
  "polyline_within ps ax ay bx by' r \<longleftrightarrow>
     (\<exists>i u v. Suc i < length ps \<and> 0 \<le> u \<and> u \<le> 1 \<and> 0 \<le> v \<and> v \<le> 1 \<and>
        sqrt (dist_sq (seg_point ax ay bx by' u)
          (seg_point (ip_x (ps ! i)) (ip_y (ps ! i)) (ip_x (ps ! Suc i)) (ip_y (ps ! Suc i)) v)) \<le> r)"

lemma polyline_hit_within:
  assumes "regular_segment ax ay bx by'" "regular_polyline ps"
  shows "polyline_hit ax ay bx by' r ps \<longleftrightarrow> polyline_within ps ax ay bx by' r"
proof -
  have "regular_segment (ip_x (ps ! i)) (ip_y (ps ! i)) (ip_x (ps ! Suc i)) (ip_y (ps ! Suc i))"
    if "Suc i < length ps" for i
    using assms(2) that by (simp add: regular_polyline_def)
  then show ?thesis
    unfolding polyline_hit_iff polyline_within_def
    using segment_within_iff [OF assms(1)] by metis
qed

lemma eraser_exact:
  assumes "bbox_ok s" "tilt_ok s" "0 \<le> r" "2 \<le> length (points s)"
    and "regular_segment ax ay bx by'" "regular_polyline (points s)"
  shows "stroke_hit_by_eraser s ax ay bx by' r \<longleftrightarrow> polyline_within (points s) ax ay bx by' r"
proof -
  have "narrow_phase_hit s ax ay bx by' r \<longleftrightarrow> polyline_hit ax ay bx by' r (points s)"
    using assms(4) by (auto simp: narrow_phase_hit_def split: list.split)
  then show ?thesis
    using broad_phase_sound [OF assms(1-3)] polyline_hit_within [OF assms(5,6)] by simp
qed

lemma fold_append_points:
  "points (fold (\<lambda>p s. stroke_append_point s p) ps s) = points s @ ps"
  "bbox_ok s \<Longrightarrow> bbox_ok (fold (\<lambda>p s. stroke_append_point s p) ps s)"
  "tilt_ok s \<Longrightarrow> list_all (\<lambda>p. 0 \<le> ip_tilt_factor p) ps \<Longrightarrow>
   tilt_ok (fold (\<lambda>p s. stroke_append_point s p) ps s)"
  by (induction ps arbitrary: s) (simp_all add: bbox_ok_append tilt_ok_append)

end
