(* ===== verification/Ink_Surface.thy ===== *)
theory Ink_Surface
  imports Ink_Hit Mtk_Rectangle
begin

text \<open>
  Ink surfaces and what is painted on them
  (\<open>mutter/src/compositor/meta-annotation-layer.c\<close>): the cairo surface of a buffer, the
  \<open>WindowInk\<close> record, and \<open>rasterize_all_strokes_with_ink\<close>, which rebuilds a surface from
  its strokes. A surface is represented by its size and the fills painted since it was last
  cleared, each with the clip rectangle and the translation of its cairo context.
\<close>

section \<open>Surfaces\<close>

record ink_cmd =
  cmd_clip :: "graphene_rect option"
  cmd_offset :: "real \<times> real"
  cmd_fill :: fill

record cairo_surface =
  cs_width :: int
  cs_height :: int
  cs_cmds :: "ink_cmd list"

definition cairo_surface_new_cleared :: "int \<Rightarrow> int \<Rightarrow> cairo_surface" where
  "cairo_surface_new_cleared width height =
     \<lparr>cs_width = width, cs_height = height, cs_cmds = []\<rparr>"

text \<open>A NULL surface is \<^const>\<open>None\<close>.\<close>

definition surface_clear :: "cairo_surface option \<Rightarrow> cairo_surface option" where
  "surface_clear s = map_option (\<lambda>c. c\<lparr>cs_cmds := []\<rparr>) s"

text \<open>Fills through a fresh context: identity transform, no clip.\<close>

definition plain_cmds :: "fill list \<Rightarrow> ink_cmd list" where
  "plain_cmds fs = map (\<lambda>f. \<lparr>cmd_clip = None, cmd_offset = (0, 0), cmd_fill = f\<rparr>) fs"

definition paint_on :: "ink_cmd list \<Rightarrow> cairo_surface \<Rightarrow> cairo_surface" where
  "paint_on cs s = s\<lparr>cs_cmds := cs_cmds s @ cs\<rparr>"

section \<open>Window ink\<close>

text \<open>The \<open>WindowInk\<close> of a window. Its surface and its stroke array exist for as long as the
  record does; its signal connections are implied by its presence in \<open>per_window\<close>.\<close>

record window_ink =
  wi_window :: nat
  wi_surface :: cairo_surface
  wi_strokes :: "stroke list"
  wi_width :: int
  wi_height :: int
  has_editor_region :: bool
  editor_x :: real
  editor_y :: real
  editor_w :: real
  editor_h :: real
  scroll_x :: real
  scroll_y :: real

definition strokes_clear :: "stroke list \<Rightarrow> stroke list" where
  "strokes_clear strokes = []"

definition has_region :: "window_ink option \<Rightarrow> bool" where
  "has_region ink =
     (case ink of None \<Rightarrow> False
      | Some k \<Rightarrow> has_editor_region k \<and> editor_w k > 0 \<and> editor_h k > 0)"

text \<open>The context of follow-scroll strokes: the clip to the editor region and the translation
  from content space to window-local pixels; built only if a stroke needs it.\<close>

definition follow_context ::
  "stroke list \<Rightarrow> window_ink option \<Rightarrow> (graphene_rect \<times> real \<times> real) option" where
  "follow_context strokes ink =
     (case ink of None \<Rightarrow> None
      | Some k \<Rightarrow>
          if has_region ink \<and> list_ex follow_scroll strokes
          then Some (\<lparr>gr_x = editor_x k, gr_y = editor_y k,
                      gr_width = editor_w k, gr_height = editor_h k\<rparr>,
                     editor_x k - scroll_x k, editor_y k - scroll_y k)
          else None)"

definition stroke_cmds ::
  "(graphene_rect \<times> real \<times> real) option \<Rightarrow> stroke \<Rightarrow> ink_cmd list" where
  "stroke_cmds cr_follow s =
     (if follow_scroll s then
        (case cr_follow of
           None \<Rightarrow> []
         | Some (clip, off) \<Rightarrow>
             map (\<lambda>f. \<lparr>cmd_clip = Some clip, cmd_offset = off, cmd_fill = f\<rparr>)
               (rasterize_stroke_on_cr s))
      else plain_cmds (rasterize_stroke_on_cr s))"

definition replay_cmds :: "stroke list \<Rightarrow> window_ink option \<Rightarrow> ink_cmd list" where
  "replay_cmds strokes ink = concat (map (stroke_cmds (follow_context strokes ink)) strokes)"

definition rasterize_all_strokes_with_ink ::
  "cairo_surface option \<Rightarrow> stroke list \<Rightarrow> window_ink option \<Rightarrow> cairo_surface option" where
  "rasterize_all_strokes_with_ink target strokes ink =
     map_option (\<lambda>t. t\<lparr>cs_cmds := replay_cmds strokes ink\<rparr>) target"

definition rasterize_all_strokes ::
  "cairo_surface option \<Rightarrow> stroke list \<Rightarrow> cairo_surface option" where
  "rasterize_all_strokes target strokes = rasterize_all_strokes_with_ink target strokes None"

text \<open>Rebuilding a window's own surface.\<close>

definition window_ink_rasterize :: "window_ink \<Rightarrow> window_ink" where
  "window_ink_rasterize k =
     k\<lparr>wi_surface := the (rasterize_all_strokes_with_ink (Some (wi_surface k)) (wi_strokes k) (Some k))\<rparr>"

lemma window_ink_rasterize_simps [simp]:
  "wi_window (window_ink_rasterize k) = wi_window k"
  "wi_strokes (window_ink_rasterize k) = wi_strokes k"
  "wi_width (window_ink_rasterize k) = wi_width k"
  "wi_height (window_ink_rasterize k) = wi_height k"
  "has_editor_region (window_ink_rasterize k) = has_editor_region k"
  "editor_x (window_ink_rasterize k) = editor_x k"
  "editor_y (window_ink_rasterize k) = editor_y k"
  "editor_w (window_ink_rasterize k) = editor_w k"
  "editor_h (window_ink_rasterize k) = editor_h k"
  "scroll_x (window_ink_rasterize k) = scroll_x k"
  "scroll_y (window_ink_rasterize k) = scroll_y k"
  "wi_surface (window_ink_rasterize k) = (wi_surface k)\<lparr>cs_cmds := replay_cmds (wi_strokes k) (Some k)\<rparr>"
  by (simp_all add: window_ink_rasterize_def rasterize_all_strokes_with_ink_def)

lemma replay_cmds_region_only:
  assumes "has_region (Some k) = has_region (Some k')"
    and "has_region (Some k) \<Longrightarrow> editor_x k = editor_x k' \<and> editor_y k = editor_y k' \<and>
      editor_w k = editor_w k' \<and> editor_h k = editor_h k' \<and>
      scroll_x k = scroll_x k' \<and> scroll_y k = scroll_y k'"
  shows "replay_cmds ss (Some k) = replay_cmds ss (Some k')"
  using assms by (auto simp: replay_cmds_def follow_context_def)

text \<open>Where strokes do not follow the scroll, the editor region and the scroll are irrelevant.\<close>

lemma replay_cmds_plain:
  "\<forall>s \<in> set ss. \<not> follow_scroll s \<Longrightarrow>
   replay_cmds ss ink = plain_cmds (concat (map rasterize_stroke_on_cr ss))"
  by (simp add: replay_cmds_def stroke_cmds_def plain_cmds_def map_concat o_def cong: map_cong)

lemma replay_cmds_Nil [simp]: "replay_cmds [] ink = []"
  by (simp add: replay_cmds_def)

section \<open>Coordinates\<close>

text \<open>The pixel a stored point is painted at: a follow-scroll point is in the editor's content
  space.\<close>

definition shown_at :: "window_ink option \<Rightarrow> bool \<Rightarrow> real \<times> real \<Rightarrow> real \<times> real" where
  "shown_at ink follow p =
     (case ink of
        None \<Rightarrow> p
      | Some k \<Rightarrow>
          if follow then (fst p + (editor_x k - scroll_x k), snd p + (editor_y k - scroll_y k))
          else p)"

section \<open>Erasing\<close>

definition eraser_in_editor :: "window_ink \<Rightarrow> real \<Rightarrow> real \<Rightarrow> bool" where
  "eraser_in_editor k x y \<longleftrightarrow>
     x \<ge> editor_x k \<and> x < editor_x k + editor_w k \<and> y \<ge> editor_y k \<and> y < editor_y k + editor_h k"

text \<open>The test the loop applies to one stroke: a follow-scroll stroke is tested in content
  space, and only if the eraser is in the editor region.\<close>

definition eraser_hits ::
  "window_ink option \<Rightarrow> real \<Rightarrow> real \<Rightarrow> real \<Rightarrow> real \<Rightarrow> real \<Rightarrow> stroke \<Rightarrow> bool" where
  "eraser_hits ink ax ay bx by' r s =
     (if follow_scroll s then
        (case ink of
           None \<Rightarrow> False
         | Some k \<Rightarrow>
             has_region ink \<and> (eraser_in_editor k ax ay \<or> eraser_in_editor k bx by') \<and>
             stroke_hit_by_eraser s
               (ax - editor_x k + scroll_x k) (ay - editor_y k + scroll_y k)
               (bx - editor_x k + scroll_x k) (by' - editor_y k + scroll_y k) r)
      else stroke_hit_by_eraser s ax ay bx by' r)"

text \<open>The loop runs from the last index down and removes at the index it stands on.\<close>

fun erase_loop :: "(stroke \<Rightarrow> bool) \<Rightarrow> nat \<Rightarrow> stroke list \<Rightarrow> nat \<Rightarrow> nat \<times> stroke list" where
  "erase_loop hit 0 strokes removed = (removed, strokes)"
| "erase_loop hit (Suc i) strokes removed =
     (if hit (strokes ! i) then erase_loop hit i (remove_index i strokes) (Suc removed)
      else erase_loop hit i strokes removed)"

definition erase_strokes_hit_by_segment ::
  "stroke list \<Rightarrow> real \<Rightarrow> real \<Rightarrow> real \<Rightarrow> real \<Rightarrow> real \<Rightarrow> window_ink option \<Rightarrow> nat \<times> stroke list" where
  "erase_strokes_hit_by_segment strokes ax ay bx by' eraser_radius ink =
     erase_loop (eraser_hits ink ax ay bx by' eraser_radius) (length strokes) strokes 0"

lemma erase_loop_append:
  "erase_loop hit (length xs) (xs @ ys) n =
     (n + length (filter hit xs), filter (\<lambda>s. \<not> hit s) xs @ ys)"
proof (induction xs arbitrary: ys n rule: rev_induct)
  case (snoc x xs)
  have "erase_loop hit (length (xs @ [x])) ((xs @ [x]) @ ys) n =
      (if hit x then erase_loop hit (length xs) (xs @ ys) (Suc n)
       else erase_loop hit (length xs) (xs @ x # ys) n)"
    by (simp add: nth_append)
  then show ?case using snoc.IH [of ys "Suc n"] snoc.IH [of "x # ys" n] by simp
qed simp

lemma erase_strokes_filter:
  "erase_strokes_hit_by_segment strokes ax ay bx by' r ink =
     (length (filter (eraser_hits ink ax ay bx by' r) strokes),
      filter (\<lambda>s. \<not> eraser_hits ink ax ay bx by' r s) strokes)"
  using erase_loop_append [of _ strokes "[]" 0] by (simp add: erase_strokes_hit_by_segment_def)

end
