(* ===== verification/Clutter_Input.thy ===== *)
theory Clutter_Input
  imports Annot_Prelude
begin

text \<open>
  What the annotation code reads of Clutter's input model: the enumerations of
  \<open>mutter/clutter/clutter/clutter-enums.h\<close>, an input device as the record of what its
  getters return, and an event as the record of what \<open>clutter_event_*\<close> return for it.
\<close>

unbundle bit_operations_syntax

section \<open>Enumerations\<close>

datatype clutter_event_type =
    CLUTTER_NOTHING | CLUTTER_KEY_PRESS | CLUTTER_KEY_RELEASE | CLUTTER_MOTION
  | CLUTTER_ENTER | CLUTTER_LEAVE | CLUTTER_BUTTON_PRESS | CLUTTER_BUTTON_RELEASE
  | CLUTTER_SCROLL | CLUTTER_TOUCH_BEGIN | CLUTTER_TOUCH_UPDATE | CLUTTER_TOUCH_END
  | CLUTTER_TOUCH_CANCEL | CLUTTER_TOUCHPAD_PINCH | CLUTTER_TOUCHPAD_SWIPE
  | CLUTTER_TOUCHPAD_HOLD | CLUTTER_PROXIMITY_IN | CLUTTER_PROXIMITY_OUT
  | CLUTTER_PAD_BUTTON_PRESS | CLUTTER_PAD_BUTTON_RELEASE | CLUTTER_PAD_STRIP
  | CLUTTER_PAD_RING | CLUTTER_PAD_DIAL | CLUTTER_DEVICE_ADDED | CLUTTER_DEVICE_REMOVED
  | CLUTTER_IM_COMMIT | CLUTTER_IM_DELETE | CLUTTER_IM_PREEDIT | CLUTTER_KEY_STATE
  | CLUTTER_EVENT_LAST

datatype clutter_input_device_type =
    CLUTTER_POINTER_DEVICE | CLUTTER_KEYBOARD_DEVICE | CLUTTER_EXTENSION_DEVICE
  | CLUTTER_JOYSTICK_DEVICE | CLUTTER_TABLET_DEVICE | CLUTTER_TOUCHPAD_DEVICE
  | CLUTTER_TOUCHSCREEN_DEVICE | CLUTTER_PEN_DEVICE | CLUTTER_ERASER_DEVICE
  | CLUTTER_CURSOR_DEVICE | CLUTTER_PAD_DEVICE | CLUTTER_N_DEVICE_TYPES

datatype clutter_input_device_tool_type =
    CLUTTER_INPUT_DEVICE_TOOL_NONE | CLUTTER_INPUT_DEVICE_TOOL_PEN
  | CLUTTER_INPUT_DEVICE_TOOL_ERASER | CLUTTER_INPUT_DEVICE_TOOL_BRUSH
  | CLUTTER_INPUT_DEVICE_TOOL_PENCIL | CLUTTER_INPUT_DEVICE_TOOL_AIRBRUSH
  | CLUTTER_INPUT_DEVICE_TOOL_MOUSE | CLUTTER_INPUT_DEVICE_TOOL_LENS

text \<open>Capabilities and modifier states are bit masks.\<close>

definition CLUTTER_INPUT_CAPABILITY_TOUCHPAD :: "32 word" where
  "CLUTTER_INPUT_CAPABILITY_TOUCHPAD = push_bit 2 1"

definition CLUTTER_INPUT_CAPABILITY_TABLET_TOOL :: "32 word" where
  "CLUTTER_INPUT_CAPABILITY_TABLET_TOOL = push_bit 4 1"

definition CLUTTER_BUTTON1_MASK :: "32 word" where
  "CLUTTER_BUTTON1_MASK = push_bit 8 1"

definition CLUTTER_BUTTON_PRIMARY :: nat where
  "CLUTTER_BUTTON_PRIMARY = 1"

text \<open>Indices into an event's axis array (\<open>ClutterInputAxis\<close>).\<close>

definition CLUTTER_INPUT_AXIS_PRESSURE :: nat where
  "CLUTTER_INPUT_AXIS_PRESSURE = 3"

definition CLUTTER_INPUT_AXIS_XTILT :: nat where
  "CLUTTER_INPUT_AXIS_XTILT = 4"

definition CLUTTER_INPUT_AXIS_YTILT :: nat where
  "CLUTTER_INPUT_AXIS_YTILT = 5"

lemmas clutter_consts = CLUTTER_INPUT_CAPABILITY_TOUCHPAD_def
  CLUTTER_INPUT_CAPABILITY_TABLET_TOOL_def CLUTTER_BUTTON1_MASK_def CLUTTER_BUTTON_PRIMARY_def
  CLUTTER_INPUT_AXIS_PRESSURE_def CLUTTER_INPUT_AXIS_XTILT_def CLUTTER_INPUT_AXIS_YTILT_def

section \<open>Devices and events\<close>

text \<open>\<open>dev_dimensions\<close> is \<^const>\<open>None\<close> where \<open>clutter_input_device_get_dimensions\<close> returns
  FALSE. \<open>dev_lname\<close> is the device name after \<open>g_utf8_strdown\<close>, GLib's Unicode case mapping,
  which the code applies before every comparison; \<^const>\<open>None\<close> is a NULL name.\<close>

record clutter_device =
  dev_type :: clutter_input_device_type
  dev_caps :: "32 word"
  dev_dimensions :: "(nat \<times> nat) option"
  dev_lname :: "string option"

text \<open>A NULL device, tool or axis array is \<^const>\<open>None\<close>; the axis array carries its length
  \<open>n_axes\<close>.\<close>

record clutter_event =
  ev_type :: clutter_event_type
  ev_device :: "clutter_device option"
  ev_tool :: "clutter_input_device_tool_type option"
  ev_button :: nat
  ev_state :: "32 word"
  ev_x :: real
  ev_y :: real
  ev_axes :: "real list option"

definition has_cap :: "clutter_device \<Rightarrow> 32 word \<Rightarrow> bool" where
  "has_cap d c \<longleftrightarrow> dev_caps d AND c \<noteq> 0"

section \<open>C strings\<close>

fun str_has_prefix :: "string \<Rightarrow> string \<Rightarrow> bool" where
  "str_has_prefix s [] = True"
| "str_has_prefix [] (c # cs) = False"
| "str_has_prefix (d # ds) (c # cs) = (d = c \<and> str_has_prefix ds cs)"

text \<open>\<open>strstr (s, needle) != NULL\<close>.\<close>

fun strstr :: "string \<Rightarrow> string \<Rightarrow> bool" where
  "strstr [] needle = (needle = [])"
| "strstr (c # s) needle = (str_has_prefix (c # s) needle \<or> strstr s needle)"

definition str_has_suffix :: "string \<Rightarrow> string \<Rightarrow> bool" where
  "str_has_suffix s suf = str_has_prefix (rev s) (rev suf)"

lemma str_has_prefix_iff: "str_has_prefix s p \<longleftrightarrow> (\<exists>t. s = p @ t)"
  by (induction s p rule: str_has_prefix.induct) auto

lemma strstr_iff: "strstr s needle \<longleftrightarrow> (\<exists>p t. s = p @ needle @ t)"
proof (induction s)
  case (Cons c s)
  have "(\<exists>p t. c # s = p @ needle @ t) \<longleftrightarrow>
      (\<exists>t. c # s = needle @ t) \<or> (\<exists>p t. s = p @ needle @ t)"
    by (metis append_Cons append_Nil list.exhaust_sel list.sel(3) tl_append2)
  with Cons show ?case by (simp add: str_has_prefix_iff)
qed simp

end
