(* ===== verification/Annot_Input.thy ===== *)
theory Annot_Input
  imports Clutter_Input
begin

text \<open>
  Device policy, \<open>mutter/src/core/meta-annotation-input.c\<close>: which events belong to the
  annotation overlay, and when a device must not move the core pointer while the overlay
  isolates it; with the two places of \<open>meta-seat-impl.c\<close> that consult it on each motion.
  The file's static variables are the record \<open>annot_input\<close>; its mutex only serialises
  access, so operations are atomic steps here.
\<close>

section \<open>State\<close>

record annot_input =
  non_mouse_isolated :: bool
  tablet_xy_valid :: bool
  last_tablet_x :: real
  last_tablet_y :: real
  tablet_monotonic_us :: int

definition annot_input_init :: annot_input where
  "annot_input_init = \<lparr>non_mouse_isolated = False, tablet_xy_valid = False,
     last_tablet_x = 0, last_tablet_y = 0, tablet_monotonic_us = 0\<rparr>"

text \<open>\<open>1200 * G_TIME_SPAN_MILLISECOND\<close>.\<close>

definition ANNOTATION_RECENT_TABLET_FOR_POINTER_USEC :: int where
  "ANNOTATION_RECENT_TABLET_FOR_POINTER_USEC = 1200 * 1000"

definition meta_annotation_input_get_non_mouse_pointer_isolated :: "annot_input \<Rightarrow> bool" where
  "meta_annotation_input_get_non_mouse_pointer_isolated s = non_mouse_isolated s"

definition meta_annotation_input_set_non_mouse_pointer_isolated ::
  "bool \<Rightarrow> annot_input \<Rightarrow> annot_input" where
  "meta_annotation_input_set_non_mouse_pointer_isolated isolated s =
     (let s1 = s\<lparr>non_mouse_isolated := isolated\<rparr>
      in if \<not> isolated then s1\<lparr>tablet_xy_valid := False\<rparr> else s1)"

text \<open>\<open>now\<close> is the value of \<open>g_get_monotonic_time\<close> at the call.\<close>

definition meta_annotation_input_note_tablet_family_motion ::
  "int \<Rightarrow> real \<Rightarrow> real \<Rightarrow> annot_input \<Rightarrow> annot_input" where
  "meta_annotation_input_note_tablet_family_motion now x y s =
     (if \<not> non_mouse_isolated s then s
      else s\<lparr>tablet_xy_valid := True, last_tablet_x := x, last_tablet_y := y,
             tablet_monotonic_us := now\<rparr>)"

section \<open>Classification\<close>

definition tool_is_drawing_stylus :: "clutter_input_device_tool_type option \<Rightarrow> bool" where
  "tool_is_drawing_stylus tool =
     (case tool of
        None \<Rightarrow> False
      | Some t \<Rightarrow>
          t = CLUTTER_INPUT_DEVICE_TOOL_PEN \<or> t = CLUTTER_INPUT_DEVICE_TOOL_ERASER \<or>
          t = CLUTTER_INPUT_DEVICE_TOOL_BRUSH \<or> t = CLUTTER_INPUT_DEVICE_TOOL_PENCIL \<or>
          t = CLUTTER_INPUT_DEVICE_TOOL_AIRBRUSH)"

definition meta_annotation_input_touchpad_is_pen_digitizer_shim ::
  "clutter_device option \<Rightarrow> clutter_input_device_tool_type option \<Rightarrow> bool" where
  "meta_annotation_input_touchpad_is_pen_digitizer_shim device tool =
     (case device of
        None \<Rightarrow> False
      | Some d \<Rightarrow>
          if dev_type d \<noteq> CLUTTER_TOUCHPAD_DEVICE then False
          else if has_cap d CLUTTER_INPUT_CAPABILITY_TABLET_TOOL then True
          else if tool_is_drawing_stylus tool then True
          else (case dev_lname d of
                  None \<Rightarrow> False
                | Some l \<Rightarrow>
                    l \<noteq> [] \<and>
                    (strstr l ''stylus'' \<or> strstr l ''digitizer'' \<or> strstr l ''wacom'' \<or>
                     strstr l ''ntrig'' \<or> strstr l ''surface pen'' \<or> strstr l ''ms pen'')))"

definition meta_annotation_input_note_from_pointer_if_stylus_class ::
  "clutter_device option \<Rightarrow> clutter_input_device_tool_type option \<Rightarrow> int \<Rightarrow> real \<Rightarrow> real \<Rightarrow>
   annot_input \<Rightarrow> annot_input" where
  "meta_annotation_input_note_from_pointer_if_stylus_class device tool now x y s =
     (if \<not> non_mouse_isolated s then s
      else case device of
        None \<Rightarrow> s
      | Some d \<Rightarrow>
          if dev_type d \<noteq> CLUTTER_POINTER_DEVICE then s
          else if has_cap d CLUTTER_INPUT_CAPABILITY_TABLET_TOOL
          then meta_annotation_input_note_tablet_family_motion now x y s
          else if tool_is_drawing_stylus tool
          then meta_annotation_input_note_tablet_family_motion now x y s
          else s)"

definition device_name_hints_stylus :: "clutter_device \<Rightarrow> bool" where
  "device_name_hints_stylus d =
     (case dev_lname d of
        None \<Rightarrow> False
      | Some l \<Rightarrow>
          if l = [] then False
          else if strstr l ''stylus'' \<or> strstr l ''digitizer'' \<or> strstr l ''wacom'' \<or>
                  strstr l ''elan'' \<or> strstr l ''ntrig'' \<or> strstr l ''tablet'' \<or>
                  strstr l ''surface pen'' \<or> strstr l ''ms pen'' then True
          else if str_has_prefix l ''pen '' \<or> str_has_suffix l '' pen'' then True
          else strstr l '' pen '')"

text \<open>\<open>motion_axes\<close> is the raw axis array of the seat (no length), NULL being \<^const>\<open>None\<close>.\<close>

definition pointer_device_matches_annotation_pointer ::
  "clutter_device \<Rightarrow> clutter_input_device_tool_type option \<Rightarrow> clutter_event option \<Rightarrow>
   (nat \<Rightarrow> real) option \<Rightarrow> bool" where
  "pointer_device_matches_annotation_pointer d tool event motion_axes =
     (if has_cap d CLUTTER_INPUT_CAPABILITY_TABLET_TOOL then True
      else if tool_is_drawing_stylus tool then True
      else if \<not> (has_cap d CLUTTER_INPUT_CAPABILITY_TOUCHPAD \<and>
                 \<not> has_cap d CLUTTER_INPUT_CAPABILITY_TABLET_TOOL) \<and>
              ((case dev_dimensions d of None \<Rightarrow> False | Some (dw, dh) \<Rightarrow> dw > 0 \<and> dh > 0) \<or>
               device_name_hints_stylus d) then True
      else if \<not> has_cap d CLUTTER_INPUT_CAPABILITY_TOUCHPAD then
        (case event of
           Some e \<Rightarrow>
             if ev_type e = CLUTTER_MOTION
             then (case ev_axes e of
                     None \<Rightarrow> False
                   | Some axes \<Rightarrow> CLUTTER_INPUT_AXIS_PRESSURE < length axes \<and>
                                  axes ! CLUTTER_INPUT_AXIS_PRESSURE > 0)
             else (case motion_axes of None \<Rightarrow> False
                   | Some ax \<Rightarrow> ax CLUTTER_INPUT_AXIS_PRESSURE > 0)
         | None \<Rightarrow> (case motion_axes of None \<Rightarrow> False
                   | Some ax \<Rightarrow> ax CLUTTER_INPUT_AXIS_PRESSURE > 0))
      else False)"

section \<open>Freezing the core pointer\<close>

definition recent_tablet :: "int \<Rightarrow> annot_input \<Rightarrow> bool" where
  "recent_tablet now s \<longleftrightarrow>
     tablet_xy_valid s \<and>
     (let age = now - tablet_monotonic_us s
      in age \<ge> 0 \<and> age < ANNOTATION_RECENT_TABLET_FOR_POINTER_USEC)"

definition meta_annotation_input_skip_master_pointer_update ::
  "annot_input \<Rightarrow> int \<Rightarrow> clutter_device option \<Rightarrow> clutter_input_device_tool_type option \<Rightarrow>
   (nat \<Rightarrow> real) option \<Rightarrow> bool" where
  "meta_annotation_input_skip_master_pointer_update s now device tool motion_axes =
     (if \<not> non_mouse_isolated s then False
      else case device of
        None \<Rightarrow> False
      | Some d \<Rightarrow>
          if meta_annotation_input_touchpad_is_pen_digitizer_shim device tool then True
          else if dev_type d = CLUTTER_POINTER_DEVICE \<and>
                  \<not> has_cap d CLUTTER_INPUT_CAPABILITY_TOUCHPAD \<and> recent_tablet now s then True
          else if dev_type d \<noteq> CLUTTER_POINTER_DEVICE then False
          else pointer_device_matches_annotation_pointer d tool None motion_axes)"

definition meta_annotation_input_skip_pointer_motion_coalesced ::
  "annot_input \<Rightarrow> int \<Rightarrow> clutter_device option \<Rightarrow> clutter_input_device_tool_type option \<Rightarrow>
   (nat \<Rightarrow> real) option \<Rightarrow> bool" where
  "meta_annotation_input_skip_pointer_motion_coalesced s now device tool motion_axes =
     (if meta_annotation_input_skip_master_pointer_update s now device tool motion_axes then True
      else if \<not> non_mouse_isolated s then False
      else case device of
        None \<Rightarrow> False
      | Some d \<Rightarrow>
          if meta_annotation_input_touchpad_is_pen_digitizer_shim device tool then True
          else if dev_type d = CLUTTER_TABLET_DEVICE \<or> dev_type d = CLUTTER_PEN_DEVICE \<or>
                  dev_type d = CLUTTER_ERASER_DEVICE \<or> dev_type d = CLUTTER_CURSOR_DEVICE then True
          else if dev_type d \<noteq> CLUTTER_POINTER_DEVICE then False
          else if has_cap d CLUTTER_INPUT_CAPABILITY_TOUCHPAD then False
          else (case motion_axes of None \<Rightarrow> False
                | Some ax \<Rightarrow> ax CLUTTER_INPUT_AXIS_PRESSURE > 0))"

section \<open>Events of the overlay\<close>

definition is_touch_event_type :: "clutter_event_type \<Rightarrow> bool" where
  "is_touch_event_type t \<longleftrightarrow>
     t = CLUTTER_TOUCH_BEGIN \<or> t = CLUTTER_TOUCH_UPDATE \<or>
     t = CLUTTER_TOUCH_END \<or> t = CLUTTER_TOUCH_CANCEL"

definition meta_annotation_event_targets_overlay :: "clutter_event \<Rightarrow> bool" where
  "meta_annotation_event_targets_overlay e =
     (if \<not> (ev_type e = CLUTTER_MOTION \<or> ev_type e = CLUTTER_BUTTON_PRESS \<or>
            ev_type e = CLUTTER_BUTTON_RELEASE \<or> is_touch_event_type (ev_type e) \<or>
            ev_type e = CLUTTER_SCROLL) then False
      else if is_touch_event_type (ev_type e) then True
      else case ev_device e of
        None \<Rightarrow> False
      | Some d \<Rightarrow>
          (case dev_type d of
             CLUTTER_TOUCHSCREEN_DEVICE \<Rightarrow> True
           | CLUTTER_TABLET_DEVICE \<Rightarrow> True
           | CLUTTER_PEN_DEVICE \<Rightarrow> True
           | CLUTTER_ERASER_DEVICE \<Rightarrow> True
           | CLUTTER_CURSOR_DEVICE \<Rightarrow> True
           | CLUTTER_POINTER_DEVICE \<Rightarrow>
               if ev_type e = CLUTTER_SCROLL then False
               else pointer_device_matches_annotation_pointer d (ev_tool e) (Some e) None
           | CLUTTER_TOUCHPAD_DEVICE \<Rightarrow>
               meta_annotation_input_touchpad_is_pen_digitizer_shim (Some d) (ev_tool e)
           | _ \<Rightarrow> False))"

definition meta_annotation_input_event_should_skip_wayland_seat_sync ::
  "annot_input \<Rightarrow> clutter_event \<Rightarrow> bool" where
  "meta_annotation_input_event_should_skip_wayland_seat_sync s e =
     (if \<not> non_mouse_isolated s then False else meta_annotation_event_targets_overlay e)"

section \<open>The seat's motion path\<close>

text \<open>The part of the seat the annotation policy touches: the core pointer position, the
  stylus positions, and the positions announced by \<open>POINTER_POSITION_CHANGED_IN_IMPL\<close>.\<close>

record seat =
  pointer_state :: "real \<times> real"
  stylus_states :: "clutter_device \<rightharpoonup> real \<times> real"
  position_changed :: "(real \<times> real) list"

definition update_device_coords_in_impl ::
  "seat \<Rightarrow> clutter_device \<Rightarrow> real \<times> real \<Rightarrow> bool \<Rightarrow> seat" where
  "update_device_coords_in_impl st d coords freeze_pointer_state =
     (if dev_type d = CLUTTER_TABLET_DEVICE
      then st\<lparr>stylus_states := (stylus_states st)(d \<mapsto> coords)\<rparr>
      else if \<not> freeze_pointer_state then st\<lparr>pointer_state := coords\<rparr>
      else st)"

text \<open>The block shared by the relative and the absolute motion handlers, from the constrained
  coordinates \<open>new_coords\<close> to the signal. The monotonic clock is read by each call; \<open>now\<close>
  stands for all reads of one motion.\<close>

definition notify_motion_note ::
  "annot_input \<Rightarrow> int \<Rightarrow> clutter_device \<Rightarrow> clutter_input_device_tool_type option \<Rightarrow>
   real \<times> real \<Rightarrow> annot_input" where
  "notify_motion_note s now d last_tool new_coords =
     (let (nx, ny) = new_coords;
          s1 = (if dev_type d = CLUTTER_TABLET_DEVICE \<or> dev_type d = CLUTTER_PEN_DEVICE \<or>
                   dev_type d = CLUTTER_ERASER_DEVICE \<or> dev_type d = CLUTTER_CURSOR_DEVICE
                then meta_annotation_input_note_tablet_family_motion now nx ny s
                else if dev_type d = CLUTTER_TOUCHPAD_DEVICE \<and>
                   meta_annotation_input_touchpad_is_pen_digitizer_shim (Some d) last_tool
                then meta_annotation_input_note_tablet_family_motion now nx ny s
                else s)
      in meta_annotation_input_note_from_pointer_if_stylus_class (Some d) last_tool now nx ny s1)"

definition notify_motion_in_impl ::
  "annot_input \<Rightarrow> seat \<Rightarrow> int \<Rightarrow> clutter_device \<Rightarrow> clutter_input_device_tool_type option \<Rightarrow>
   (nat \<Rightarrow> real) option \<Rightarrow> real \<times> real \<Rightarrow> annot_input \<times> seat" where
  "notify_motion_in_impl s st now d last_tool axes new_coords =
     (let s' = notify_motion_note s now d last_tool new_coords;
          freeze_cursor =
            meta_annotation_input_skip_pointer_motion_coalesced s' now (Some d) last_tool axes;
          st1 = update_device_coords_in_impl st d new_coords freeze_cursor
      in (s', if \<not> freeze_cursor
              then st1\<lparr>position_changed := position_changed st1 @ [new_coords]\<rparr> else st1))"

section \<open>Policy facts\<close>

lemmas input_policy_defs = meta_annotation_input_skip_pointer_motion_coalesced_def
  meta_annotation_input_skip_master_pointer_update_def

lemma isolated_note [simp]:
  "non_mouse_isolated (meta_annotation_input_note_tablet_family_motion now x y s) =
   non_mouse_isolated s"
  by (simp add: meta_annotation_input_note_tablet_family_motion_def)

lemma isolated_notify_note [simp]:
  "non_mouse_isolated (notify_motion_note s now d tool c) = non_mouse_isolated s"
  by (simp add: notify_motion_note_def Let_def split_beta
      meta_annotation_input_note_from_pointer_if_stylus_class_def)

lemma not_isolated_no_skip:
  "\<not> non_mouse_isolated s \<Longrightarrow>
   \<not> meta_annotation_input_skip_pointer_motion_coalesced s now d tool axes \<and>
   \<not> meta_annotation_input_skip_master_pointer_update s now d tool axes \<and>
   \<not> meta_annotation_input_event_should_skip_wayland_seat_sync s e"
  by (simp add: input_policy_defs meta_annotation_input_event_should_skip_wayland_seat_sync_def)

lemma not_isolated_note:
  "\<not> non_mouse_isolated s \<Longrightarrow> notify_motion_note s now d tool c = s"
  by (simp add: notify_motion_note_def Let_def split_beta
      meta_annotation_input_note_tablet_family_motion_def
      meta_annotation_input_note_from_pointer_if_stylus_class_def)

text \<open>The tests after the first call of \<open>skip_pointer_motion_coalesced\<close> only add the tablet
  family: the shim and pressure tests are already in \<open>skip_master_pointer_update\<close>.\<close>

definition tablet_family :: "clutter_device \<Rightarrow> bool" where
  "tablet_family d \<longleftrightarrow> dev_type d \<in> {CLUTTER_TABLET_DEVICE, CLUTTER_PEN_DEVICE,
     CLUTTER_ERASER_DEVICE, CLUTTER_CURSOR_DEVICE}"

lemma coalesced_eq:
  "meta_annotation_input_skip_pointer_motion_coalesced s now (Some d) tool axes \<longleftrightarrow>
     meta_annotation_input_skip_master_pointer_update s now (Some d) tool axes \<or>
     (non_mouse_isolated s \<and> tablet_family d)"
  by (auto simp: input_policy_defs tablet_family_def pointer_device_matches_annotation_pointer_def
      split: option.splits)

text \<open>An overlay pointer device: what the routing of a press or motion and the freezing of the
  core pointer both rest on.\<close>

lemma frozen_tablet_family:
  "non_mouse_isolated s \<Longrightarrow> tablet_family d \<Longrightarrow>
   meta_annotation_input_skip_pointer_motion_coalesced s now (Some d) tool axes"
  by (simp add: coalesced_eq)

lemma matches_None_axes:
  "pointer_device_matches_annotation_pointer d tool None None \<Longrightarrow>
   pointer_device_matches_annotation_pointer d tool ev axes"
  by (auto simp: pointer_device_matches_annotation_pointer_def split: if_splits option.splits)

lemma targets_overlay_press_frozen:
  assumes "meta_annotation_event_targets_overlay e" and "ev_type e = CLUTTER_BUTTON_PRESS"
    and "ev_device e = Some d" and "non_mouse_isolated s"
    and "dev_type d \<noteq> CLUTTER_TOUCHSCREEN_DEVICE"
  shows "meta_annotation_input_skip_pointer_motion_coalesced s now (Some d) (ev_tool e) axes"
proof -
  have "pointer_device_matches_annotation_pointer d (ev_tool e) None None"
    if "dev_type d = CLUTTER_POINTER_DEVICE"
    using assms that
    by (auto simp: meta_annotation_event_targets_overlay_def is_touch_event_type_def
        pointer_device_matches_annotation_pointer_def split: if_splits option.splits)
  then show ?thesis
    using assms matches_None_axes
    by (auto simp: coalesced_eq tablet_family_def meta_annotation_event_targets_overlay_def
        is_touch_event_type_def meta_annotation_input_skip_master_pointer_update_def
        split: if_splits clutter_input_device_type.splits)
qed

definition plain_mouse :: "clutter_device \<Rightarrow> bool" where
  "plain_mouse d \<longleftrightarrow>
     dev_type d = CLUTTER_POINTER_DEVICE \<and>
     \<not> has_cap d CLUTTER_INPUT_CAPABILITY_TABLET_TOOL \<and>
     (case dev_dimensions d of None \<Rightarrow> True | Some (w, h) \<Rightarrow> w = 0 \<or> h = 0) \<and>
     \<not> device_name_hints_stylus d"

lemma plain_mouse_no_match:
  "plain_mouse d \<Longrightarrow> \<not> tool_is_drawing_stylus tool \<Longrightarrow>
   \<not> pointer_device_matches_annotation_pointer d tool None None"
  by (auto simp: plain_mouse_def pointer_device_matches_annotation_pointer_def
      split: option.splits prod.splits)

section \<open>Motions\<close>

lemma note_motion_tablet:
  assumes "non_mouse_isolated s" "tablet_family d"
  shows "tablet_xy_valid (notify_motion_note s now d tool c) \<and>
    tablet_monotonic_us (notify_motion_note s now d tool c) = now"
  using assms
  by (cases c) (auto simp: notify_motion_note_def tablet_family_def
      meta_annotation_input_note_tablet_family_motion_def
      meta_annotation_input_note_from_pointer_if_stylus_class_def)

lemma tablet_motion_frozen:
  assumes "non_mouse_isolated s" "tablet_family d"
    and "notify_motion_in_impl s st now d tool axes c = (s', st')"
  shows "pointer_state st' = pointer_state st" "position_changed st' = position_changed st"
proof -
  have "meta_annotation_input_skip_pointer_motion_coalesced (notify_motion_note s now d tool c) now (Some d) tool axes"
    by (rule frozen_tablet_family) (simp_all add: assms)
  with assms(3) show "pointer_state st' = pointer_state st" "position_changed st' = position_changed st"
    by (auto simp: notify_motion_in_impl_def Let_def update_device_coords_in_impl_def split: if_splits)
qed

text \<open>Noting a pointer motion never forgets a recent tablet motion.\<close>

lemma note_keeps_recent:
  assumes "non_mouse_isolated s" "recent_tablet now s" "dev_type d = CLUTTER_POINTER_DEVICE"
  shows "recent_tablet now (notify_motion_note s now d tool c)"
  using assms
  by (cases c) (auto simp: notify_motion_note_def recent_tablet_def
      ANNOTATION_RECENT_TABLET_FOR_POINTER_USEC_def
      meta_annotation_input_note_tablet_family_motion_def
      meta_annotation_input_note_from_pointer_if_stylus_class_def)

lemma emulated_pointer_frozen:
  assumes "non_mouse_isolated s" "tablet_family d"
    and "notify_motion_in_impl s st now d tool axes c = (s', st')"
    and d2: "dev_type d2 = CLUTTER_POINTER_DEVICE" "\<not> has_cap d2 CLUTTER_INPUT_CAPABILITY_TOUCHPAD"
    and t: "now \<le> now2" "now2 < now + ANNOTATION_RECENT_TABLET_FOR_POINTER_USEC"
  shows "snd (notify_motion_in_impl s' st' now2 d2 tool2 axes2 c2) = st'"
proof -
  have s': "s' = notify_motion_note s now d tool c"
    using assms(3) by (simp add: notify_motion_in_impl_def Let_def)
  have iso: "non_mouse_isolated s'" using assms(1) by (simp add: s')
  have "recent_tablet now2 s'"
    using note_motion_tablet [OF assms(1,2), of now tool c] t by (simp add: s' recent_tablet_def)
  then have "recent_tablet now2 (notify_motion_note s' now2 d2 tool2 c2)"
    by (rule note_keeps_recent [OF iso _ d2(1)])
  then have "meta_annotation_input_skip_pointer_motion_coalesced
      (notify_motion_note s' now2 d2 tool2 c2) now2 (Some d2) tool2 axes2"
    using iso d2 by (simp add: coalesced_eq meta_annotation_input_skip_master_pointer_update_def)
  then show ?thesis using d2(1) by (simp add: notify_motion_in_impl_def Let_def update_device_coords_in_impl_def)
qed

lemma plain_mouse_moves:
  assumes m: "plain_mouse d" and t: "\<not> tool_is_drawing_stylus tool" and r: "\<not> recent_tablet now s"
  shows "notify_motion_in_impl s st now d tool None c =
    (s, st\<lparr>pointer_state := c, position_changed := position_changed st @ [c]\<rparr>)"
proof -
  have note_id: "notify_motion_note s now d tool c = s"
    using m t by (cases c) (simp add: notify_motion_note_def plain_mouse_def
        meta_annotation_input_note_from_pointer_if_stylus_class_def)
  have "\<not> meta_annotation_input_skip_pointer_motion_coalesced s now (Some d) tool None"
    using m r plain_mouse_no_match [OF m t]
    by (simp add: coalesced_eq meta_annotation_input_skip_master_pointer_update_def plain_mouse_def
        tablet_family_def meta_annotation_input_touchpad_is_pen_digitizer_shim_def)
  then show ?thesis
    using m by (simp add: notify_motion_in_impl_def note_id update_device_coords_in_impl_def plain_mouse_def)
qed

end
