(* ===== verification/Annot_Layer.thy ===== *)
theory Annot_Layer
  imports Ink_Surface Meta_Display Annot_Input
begin

text \<open>
  The annotation layer of \<open>mutter/src/compositor/meta-annotation-layer.c\<close>: its state, the
  per-window ink, the signal handlers, recomposition, and the public setters. One record is
  \<open>struct _MetaAnnotationLayer\<close>; each operation is a function from the display environment
  and the layer to the layer. Event handling is in \<open>Annot_Events\<close>.
\<close>

section \<open>State\<close>

text \<open>The stage-sized composite: paint operations since it was last cleared. A blit paints an
  ink surface at an offset through successive clip paths, each a union of rectangles; a punch
  clears the given rectangles.\<close>

datatype comp_op =
    Blit "mtk_rectangle list list" cairo_surface int int
  | Punch "graphene_rect list"

record composite =
  comp_width :: int
  comp_height :: int
  comp_ops :: "comp_op list"

definition composite_new_cleared :: "int \<Rightarrow> int \<Rightarrow> composite" where
  "composite_new_cleared width height =
     \<lparr>comp_width = width, comp_height = height, comp_ops = []\<rparr>"

record tap_record =
  tap_time_us :: int
  tap_anchor :: "window option"

record chrome_region =
  cr_id :: string
  cr_rect :: graphene_rect

text \<open>A NULL pointer is \<^const>\<open>None\<close>. \<open>current_stroke\<close> is the address of a stroke, and
  \<open>next_stroke\<close> the allocator's next address. \<open>texture\<close> is what was last uploaded to the
  actor's texture since it was allocated; \<open>recompose_idle\<close> is \<open>recompose_idle_id != 0\<close>.\<close>

record annotation_layer =
  layer_display :: bool
  surface :: "composite option"
  texture :: "composite option"
  unattached_surface :: "cairo_surface option"
  unattached_strokes :: "stroke list"
  stage_width :: int
  stage_height :: int
  per_window :: "window \<Rightarrow> window_ink option"
  active :: bool
  paused :: bool
  pen_rgba :: rgba
  stroke_anchor :: "window option"
  stroke_last_x :: real
  stroke_last_y :: real
  stroke_active :: bool
  last_pressure :: real
  last_tilt_factor :: real
  current_stroke :: "nat option"
  stroke_follow_scroll :: bool
  pen_barrel_buttons :: "32 word"
  last_ink_anchor :: "window option"
  last_ink_present :: bool
  pending_tap :: bool
  pending_tap_press_us :: int
  pending_tap_press_stage_x :: real
  pending_tap_press_stage_y :: real
  pending_tap_anchor :: "window option"
  tap_history :: "tap_record list"
  recompose_idle :: bool
  recompose_dirty :: bool
  chrome_regions :: "chrome_region list option"
  chrome_press_id :: "string option"
  actor_on_stage :: bool
  actor_visible :: bool
  next_stroke :: nat

section \<open>Anchors\<close>

definition set_stroke_anchor :: "window option \<Rightarrow> annotation_layer \<Rightarrow> annotation_layer" where
  "set_stroke_anchor anchor l =
     (if stroke_anchor l = anchor then l else l\<lparr>stroke_anchor := anchor\<rparr>)"

definition set_last_ink_anchor ::
  "window option \<Rightarrow> bool \<Rightarrow> annotation_layer \<Rightarrow> annotation_layer" where
  "set_last_ink_anchor anchor present l =
     (let l1 = (if last_ink_anchor l \<noteq> anchor then l\<lparr>last_ink_anchor := anchor\<rparr> else l)
      in l1\<lparr>last_ink_present := present\<rparr>)"

lemma set_stroke_anchor_eq: "set_stroke_anchor a l = l\<lparr>stroke_anchor := a\<rparr>"
  by (simp add: set_stroke_anchor_def)

lemma set_last_ink_anchor_eq:
  "set_last_ink_anchor a p l = l\<lparr>last_ink_anchor := a, last_ink_present := p\<rparr>"
  by (simp add: set_last_ink_anchor_def)

section \<open>Stroke buffers\<close>

text \<open>A buffer is named by its anchor: \<^const>\<open>None\<close> is the unattached one, a window's is in
  its \<open>WindowInk\<close>.\<close>

definition ink_at :: "annotation_layer \<Rightarrow> window option \<Rightarrow> window_ink option" where
  "ink_at l a = (case a of None \<Rightarrow> None | Some w \<Rightarrow> per_window l w)"

definition strokes_at :: "annotation_layer \<Rightarrow> window option \<Rightarrow> stroke list option" where
  "strokes_at l a =
     (case a of None \<Rightarrow> Some (unattached_strokes l)
      | Some w \<Rightarrow> map_option wi_strokes (per_window l w))"

definition surface_at :: "annotation_layer \<Rightarrow> window option \<Rightarrow> cairo_surface option" where
  "surface_at l a =
     (case a of None \<Rightarrow> unattached_surface l
      | Some w \<Rightarrow> map_option wi_surface (per_window l w))"

definition put_ink :: "window \<Rightarrow> window_ink \<Rightarrow> annotation_layer \<Rightarrow> annotation_layer" where
  "put_ink w k l = l\<lparr>per_window := (per_window l)(w \<mapsto> k)\<rparr>"

definition put_strokes ::
  "window option \<Rightarrow> stroke list \<Rightarrow> annotation_layer \<Rightarrow> annotation_layer" where
  "put_strokes a ss l =
     (case a of
        None \<Rightarrow> l\<lparr>unattached_strokes := ss\<rparr>
      | Some w \<Rightarrow>
          (case per_window l w of None \<Rightarrow> l | Some k \<Rightarrow> put_ink w (k\<lparr>wi_strokes := ss\<rparr>) l))"

definition put_surface ::
  "window option \<Rightarrow> cairo_surface option \<Rightarrow> annotation_layer \<Rightarrow> annotation_layer" where
  "put_surface a s l =
     (case a of
        None \<Rightarrow> l\<lparr>unattached_surface := s\<rparr>
      | Some w \<Rightarrow>
          (case per_window l w of
             None \<Rightarrow> l
           | Some k \<Rightarrow>
               (case s of None \<Rightarrow> l | Some c \<Rightarrow> put_ink w (k\<lparr>wi_surface := c\<rparr>) l)))"

text \<open>Writing through a stroke pointer: the object with that address changes, in whichever
  array it is.\<close>

definition update_stroke :: "nat \<Rightarrow> (stroke \<Rightarrow> stroke) \<Rightarrow> annotation_layer \<Rightarrow> annotation_layer" where
  "update_stroke i f l =
     (let g = map (\<lambda>s. if stroke_id s = i then f s else s)
      in l\<lparr>unattached_strokes := g (unattached_strokes l),
           per_window := (\<lambda>w. map_option (\<lambda>k. k\<lparr>wi_strokes := g (wi_strokes k)\<rparr>) (per_window l w))\<rparr>)"

text \<open>Drop the stroke in flight, as the code does in several places.\<close>

definition drop_stroke :: "annotation_layer \<Rightarrow> annotation_layer" where
  "drop_stroke l =
     set_stroke_anchor None (l\<lparr>stroke_active := False, current_stroke := None\<rparr>)"

definition seal_stroke :: "annotation_layer \<Rightarrow> annotation_layer" where
  "seal_stroke l =
     set_stroke_anchor None
       (l\<lparr>stroke_active := False, current_stroke := None, stroke_follow_scroll := False\<rparr>)"

section \<open>Recomposition\<close>

definition window_is_visible_for_ink :: "meta_window \<Rightarrow> workspace option \<Rightarrow> bool" where
  "window_is_visible_for_ink win ws \<longleftrightarrow> window_is_eligible_anchor win ws \<and> \<not> minimized win"

text \<open>The windows whose ink is composed, bottom to top.\<close>

definition visible_windows :: "'r display_env \<Rightarrow> window list" where
  "visible_windows e =
     filter (\<lambda>w. window_is_visible_for_ink (win_of e w) (active_ws e) \<and>
                 \<not> (rect_width (frame_rect (win_of e w)) < 1 \<or>
                    rect_height (frame_rect (win_of e w)) < 1))
       (meta_display_sort_windows_by_stacking e (rev (all_windows e)))"

definition stage_rect :: "annotation_layer \<Rightarrow> mtk_rectangle" where
  "stage_rect l = \<lparr>rect_x = 0, rect_y = 0, rect_width = stage_width l, rect_height = stage_height l\<rparr>"

definition unattached_region :: "'r region_ops \<Rightarrow> mtk_rectangle \<Rightarrow> mtk_rectangle list \<Rightarrow> 'r" where
  "unattached_region R stage rects =
     fold (\<lambda>fr vis. region_subtract_rectangle R vis fr) rects (region_create_rectangle R stage)"

text \<open>The visible region of each window: from the top down, its frame minus what is covered by
  the windows above it. The result is in the order of \<open>rects\<close>, bottom to top.\<close>

fun visible_regions_rev :: "'r region_ops \<Rightarrow> 'r \<Rightarrow> mtk_rectangle list \<Rightarrow> 'r list" where
  "visible_regions_rev R covered [] = []"
| "visible_regions_rev R covered (fr # rects) =
     region_subtract R (region_create_rectangle R fr) covered #
     visible_regions_rev R (region_union_rectangle R covered fr) rects"

definition visible_regions :: "'r region_ops \<Rightarrow> mtk_rectangle list \<Rightarrow> 'r list" where
  "visible_regions R rects = rev (visible_regions_rev R (region_create R) (rev rects))"

definition compose_ops :: "'r display_env \<Rightarrow> annotation_layer \<Rightarrow> comp_op list" where
  "compose_ops e l =
     (let R = region_lib e;
          wins = visible_windows e;
          rects = map (\<lambda>w. frame_rect (win_of e w)) wins;
          desktop =
            (case unattached_surface l of
               None \<Rightarrow> []
             | Some s \<Rightarrow>
                 [Blit [[stage_rect l], region_rectangles R (unattached_region R (stage_rect l) rects)]
                    s 0 0]);
          inks =
            concat (map (\<lambda>(w, vis).
              case per_window l w of
                None \<Rightarrow> []
              | Some k \<Rightarrow>
                  [Blit [region_rectangles R vis] (wi_surface k)
                     (rect_x (frame_rect (win_of e w))) (rect_y (frame_rect (win_of e w)))])
              (zip wins (visible_regions R rects)));
          chrome =
            (case chrome_regions l of
               None \<Rightarrow> []
             | Some rs \<Rightarrow> if length rs > 0 then [Punch (map cr_rect rs)] else [])
      in desktop @ inks @ chrome)"

definition sync_texture_from_surface :: "annotation_layer \<Rightarrow> annotation_layer" where
  "sync_texture_from_surface l = (case surface l of None \<Rightarrow> l | Some c \<Rightarrow> l\<lparr>texture := Some c\<rparr>)"

definition recompose :: "'r display_env \<Rightarrow> annotation_layer \<Rightarrow> annotation_layer" where
  "recompose e l =
     (case surface l of
        None \<Rightarrow> l
      | Some c \<Rightarrow>
          if \<not> layer_display l then l
          else if \<not> active l \<or> paused l then l\<lparr>recompose_dirty := True\<rparr>
          else
            (let l1 = l\<lparr>recompose_dirty := False\<rparr>
             in sync_texture_from_surface (l1\<lparr>surface := Some (c\<lparr>comp_ops := compose_ops e l1\<rparr>)\<rparr>)))"

definition schedule_recompose :: "annotation_layer \<Rightarrow> annotation_layer" where
  "schedule_recompose l =
     (if surface l = None then l
      else if \<not> active l \<or> paused l then l\<lparr>recompose_dirty := True\<rparr>
      else if recompose_idle l then l
      else l\<lparr>recompose_idle := True\<rparr>)"

definition recompose_idle_cb :: "'r display_env \<Rightarrow> annotation_layer \<Rightarrow> annotation_layer" where
  "recompose_idle_cb e l = recompose e (l\<lparr>recompose_idle := False\<rparr>)"

section \<open>Buffers and window ink\<close>

definition recreate_buffers :: "int \<Rightarrow> int \<Rightarrow> annotation_layer \<Rightarrow> annotation_layer" where
  "recreate_buffers width height l =
     (if width < 1 \<or> height < 1 then l
      else
        (let l1 = l\<lparr>surface := Some (composite_new_cleared width height),
                    unattached_surface := Some (cairo_surface_new_cleared width height),
                    stage_width := width, stage_height := height\<rparr>;
             l2 = l1\<lparr>unattached_surface :=
                       rasterize_all_strokes (unattached_surface l1) (unattached_strokes l1),
                     texture := None\<rparr>
         in schedule_recompose l2))"

definition on_stage_size_changed :: "'r display_env \<Rightarrow> annotation_layer \<Rightarrow> annotation_layer" where
  "on_stage_size_changed e l =
     (let (width_f, height_f) = stage_size e
      in drop_stroke (recreate_buffers \<lceil>width_f\<rceil> \<lceil>height_f\<rceil> l))"

definition window_ink_new :: "window \<Rightarrow> mtk_rectangle \<Rightarrow> window_ink" where
  "window_ink_new win fr =
     \<lparr>wi_window = win,
      wi_surface = cairo_surface_new_cleared (rect_width fr) (rect_height fr),
      wi_strokes = [], wi_width = rect_width fr, wi_height = rect_height fr,
      has_editor_region = False, editor_x = 0, editor_y = 0, editor_w = 0, editor_h = 0,
      scroll_x = 0, scroll_y = 0\<rparr>"

text \<open>The result is the window's ink, NULL if its frame is empty, and the layer.\<close>

definition ensure_window_ink ::
  "'r display_env \<Rightarrow> window \<Rightarrow> annotation_layer \<Rightarrow> window_ink option \<times> annotation_layer" where
  "ensure_window_ink e win l =
     (case per_window l win of
        Some ink \<Rightarrow> (Some ink, l)
      | None \<Rightarrow>
          (let fr = frame_rect (win_of e win)
           in if rect_width fr < 1 \<or> rect_height fr < 1 then (None, l)
              else (Some (window_ink_new win fr), put_ink win (window_ink_new win fr) l)))"

definition window_ink_resize_to_frame :: "'r display_env \<Rightarrow> window_ink \<Rightarrow> window_ink" where
  "window_ink_resize_to_frame e ink =
     (let fr = frame_rect (win_of e (wi_window ink))
      in if rect_width fr < 1 \<or> rect_height fr < 1 then ink
         else if wi_width ink = rect_width fr \<and> wi_height ink = rect_height fr then ink
         else window_ink_rasterize
           (ink\<lparr>wi_surface := cairo_surface_new_cleared (rect_width fr) (rect_height fr),
                wi_width := rect_width fr, wi_height := rect_height fr\<rparr>))"

section \<open>Signal handlers\<close>

text \<open>A window's handlers are connected while it has ink, and are given that ink.\<close>

definition on_window_position_changed :: "window \<Rightarrow> annotation_layer \<Rightarrow> annotation_layer" where
  "on_window_position_changed win l = schedule_recompose l"

definition on_window_size_changed ::
  "'r display_env \<Rightarrow> window \<Rightarrow> annotation_layer \<Rightarrow> annotation_layer" where
  "on_window_size_changed e win l =
     (case per_window l win of
        None \<Rightarrow> l
      | Some ink \<Rightarrow> schedule_recompose (put_ink win (window_ink_resize_to_frame e ink) l))"

definition on_window_min_notify :: "window \<Rightarrow> annotation_layer \<Rightarrow> annotation_layer" where
  "on_window_min_notify win l = schedule_recompose l"

definition on_window_workspace_changed :: "window \<Rightarrow> annotation_layer \<Rightarrow> annotation_layer" where
  "on_window_workspace_changed win l = schedule_recompose l"

definition on_window_unmanaged :: "window \<Rightarrow> annotation_layer \<Rightarrow> annotation_layer" where
  "on_window_unmanaged win l =
     (let l1 = (if stroke_anchor l = Some win then drop_stroke l else l);
          l2 = (if last_ink_anchor l1 = Some win then set_last_ink_anchor None False l1 else l1);
          l3 = (if pending_tap l2 \<and> pending_tap_anchor l2 = Some win
                then l2\<lparr>pending_tap := False\<rparr> else l2);
          l4 = (if list_ex (\<lambda>t. tap_anchor t = Some win) (tap_history l3)
                then l3\<lparr>tap_history := []\<rparr> else l3)
      in schedule_recompose (l4\<lparr>per_window := (per_window l4)(win := None)\<rparr>))"

definition on_display_restacked :: "annotation_layer \<Rightarrow> annotation_layer" where
  "on_display_restacked l = schedule_recompose l"

definition on_active_workspace_changed :: "annotation_layer \<Rightarrow> annotation_layer" where
  "on_active_workspace_changed l = schedule_recompose l"

section \<open>Lifecycle\<close>

definition layer_zeroed :: "bool \<Rightarrow> annotation_layer" where
  "layer_zeroed display =
     \<lparr>layer_display = display, surface = None, texture = None, unattached_surface = None,
      unattached_strokes = [], stage_width = 0, stage_height = 0, per_window = (\<lambda>w. None),
      active = False, paused = False, pen_rgba = (15 / 100, 15 / 100, 15 / 100, 1),
      stroke_anchor = None, stroke_last_x = 0, stroke_last_y = 0, stroke_active = False,
      last_pressure = 1, last_tilt_factor = 1, current_stroke = None,
      stroke_follow_scroll = False, pen_barrel_buttons = 0, last_ink_anchor = None,
      last_ink_present = False, pending_tap = False, pending_tap_press_us = 0,
      pending_tap_press_stage_x = 0, pending_tap_press_stage_y = 0, pending_tap_anchor = None,
      tap_history = [], recompose_idle = False, recompose_dirty = False,
      chrome_regions = None, chrome_press_id = None, actor_on_stage = False,
      actor_visible = False, next_stroke = 0\<rparr>"

type_synonym annot_world = "annotation_layer \<times> annot_input"

definition meta_annotation_layer_new ::
  "'r display_env \<Rightarrow> bool \<Rightarrow> annot_input \<Rightarrow> annot_world" where
  "meta_annotation_layer_new e display g =
     ((on_stage_size_changed e (layer_zeroed display))\<lparr>actor_visible := False\<rparr>,
      meta_annotation_input_set_non_mouse_pointer_isolated False g)"

text \<open>Everything the destructor gives back, before the structure itself is freed.\<close>

definition meta_annotation_layer_destroy :: "annot_world \<Rightarrow> annot_world" where
  "meta_annotation_layer_destroy s =
     (case s of (l, g) \<Rightarrow>
        (let g1 = meta_annotation_input_set_non_mouse_pointer_isolated False g;
             l1 = (if recompose_idle l then l\<lparr>recompose_idle := False\<rparr> else l);
             l2 = set_last_ink_anchor None False (set_stroke_anchor None l1);
             l3 = l2\<lparr>stroke_active := False, current_stroke := None\<rparr>
         in (l3\<lparr>per_window := (\<lambda>w. None), surface := None, unattached_surface := None,
                unattached_strokes := [], texture := None, chrome_regions := None,
                chrome_press_id := None, actor_on_stage := False, actor_visible := False,
                layer_display := False\<rparr>, g1)))"

section \<open>Public setters\<close>

definition meta_annotation_layer_clear :: "'r display_env \<Rightarrow> annotation_layer \<Rightarrow> annotation_layer" where
  "meta_annotation_layer_clear e l =
     (let l1 = l\<lparr>unattached_surface := surface_clear (unattached_surface l),
                 unattached_strokes := strokes_clear (unattached_strokes l)\<rparr>;
          l2 = l1\<lparr>per_window := (\<lambda>w. map_option
                 (\<lambda>k. k\<lparr>wi_surface := (wi_surface k)\<lparr>cs_cmds := []\<rparr>,
                        wi_strokes := strokes_clear (wi_strokes k)\<rparr>) (per_window l1 w))\<rparr>;
          l3 = l2\<lparr>current_stroke := None\<rparr>;
          l4 = l3\<lparr>surface := map_option (\<lambda>c. c\<lparr>comp_ops := []\<rparr>) (surface l3)\<rparr>;
          l5 = l4\<lparr>stroke_active := False\<rparr>;
          l6 = set_last_ink_anchor None False (set_stroke_anchor None l5)
      in recompose e (l6\<lparr>recompose_idle := False\<rparr>))"

definition meta_annotation_layer_undo_last :: "annotation_layer \<Rightarrow> annotation_layer" where
  "meta_annotation_layer_undo_last l =
     (if \<not> last_ink_present l then l
      else
        (let a = last_ink_anchor l
         in case strokes_at l a of
              None \<Rightarrow> schedule_recompose (set_last_ink_anchor None False l)
            | Some strokes \<Rightarrow>
                if length strokes = 0
                then schedule_recompose (set_last_ink_anchor None False l)
                else
                  (let l1 = (if stroke_active l \<and> stroke_anchor l = last_ink_anchor l
                             then seal_stroke l else l);
                       strokes' = remove_index (length strokes - 1) strokes;
                       l2 = put_strokes a strokes' l1;
                       l3 = (case ink_at l2 a of
                               Some k \<Rightarrow>
                                 put_surface a (rasterize_all_strokes_with_ink (surface_at l2 a)
                                   strokes' (Some k)) l2
                             | None \<Rightarrow>
                                 put_surface a (rasterize_all_strokes (surface_at l2 a) strokes') l2);
                       l4 = (if length strokes' = 0 then set_last_ink_anchor None False l3 else l3)
                   in schedule_recompose l4)))"

definition update_actor_visibility :: "'r display_env \<Rightarrow> annotation_layer \<Rightarrow> annotation_layer" where
  "update_actor_visibility e l =
     (if active l \<and> \<not> paused l then
        (let l1 = (if \<not> actor_on_stage l then l\<lparr>actor_on_stage := True\<rparr> else l);
             l2 = (if recompose_dirty l1 then recompose e (l1\<lparr>recompose_idle := False\<rparr>) else l1)
         in l2\<lparr>actor_visible := True\<rparr>)
      else l\<lparr>actor_visible := False\<rparr>)"

definition meta_annotation_layer_set_active ::
  "'r display_env \<Rightarrow> bool \<Rightarrow> annot_world \<Rightarrow> annot_world" where
  "meta_annotation_layer_set_active e act s =
     (case s of (l, g) \<Rightarrow>
        (let l1 = l\<lparr>active := act\<rparr>;
             g1 = meta_annotation_input_set_non_mouse_pointer_isolated act g;
             l2 = (if \<not> act
                   then set_last_ink_anchor None False
                          (l1\<lparr>pen_barrel_buttons := 0, current_stroke := None\<rparr>)
                   else l1)
         in (update_actor_visibility e l2, g1)))"

definition meta_annotation_layer_get_active :: "annotation_layer \<Rightarrow> bool" where
  "meta_annotation_layer_get_active l = active l"

definition meta_annotation_layer_set_paused ::
  "'r display_env \<Rightarrow> bool \<Rightarrow> annotation_layer \<Rightarrow> annotation_layer" where
  "meta_annotation_layer_set_paused e pause l =
     (let was_paused = paused l;
          l1 = l\<lparr>paused := pause\<rparr>;
          l2 = (if \<not> was_paused \<and> pause \<and> stroke_active l1 then drop_stroke l1 else l1);
          l3 = (if \<not> was_paused \<and> pause then l2\<lparr>pen_barrel_buttons := 0\<rparr> else l2)
      in update_actor_visibility e l3)"

definition meta_annotation_layer_set_color ::
  "real \<Rightarrow> real \<Rightarrow> real \<Rightarrow> real \<Rightarrow> annotation_layer \<Rightarrow> annotation_layer" where
  "meta_annotation_layer_set_color r g b a l = l\<lparr>pen_rgba := (r, g, b, a)\<rparr>"

section \<open>Scroll following\<close>

definition set_editor_region :: "int \<Rightarrow> int \<Rightarrow> int \<Rightarrow> int \<Rightarrow> window_ink \<Rightarrow> window_ink" where
  "set_editor_region x y w h ink =
     (if w \<le> 0 \<or> h \<le> 0
      then ink\<lparr>has_editor_region := False, editor_x := 0, editor_y := 0,
               editor_w := 0, editor_h := 0\<rparr>
      else ink\<lparr>has_editor_region := True, editor_x := of_int x, editor_y := of_int y,
               editor_w := of_int w, editor_h := of_int h\<rparr>)"

text \<open>The loop body for one window of the process.\<close>

definition editor_region_step ::
  "'r display_env \<Rightarrow> int \<Rightarrow> int \<Rightarrow> int \<Rightarrow> int \<Rightarrow> window \<Rightarrow> annotation_layer \<Rightarrow> annotation_layer" where
  "editor_region_step e x y w h win l =
     (case ensure_window_ink e win l of
        (None, l1) \<Rightarrow> l1
      | (Some ink, l1) \<Rightarrow>
          (let had_region = has_editor_region ink;
               ink1 = set_editor_region x y w h ink;
               ink2 = (if had_region \<or> has_editor_region ink1 then window_ink_rasterize ink1
                       else ink1);
               l2 = put_ink win ink2 l1
           in if stroke_active l2 \<and> stroke_anchor l2 = Some win then seal_stroke l2 else l2))"

definition meta_annotation_layer_set_window_editor_region ::
  "'r display_env \<Rightarrow> 32 word \<Rightarrow> int \<Rightarrow> int \<Rightarrow> int \<Rightarrow> int \<Rightarrow> annotation_layer \<Rightarrow> annotation_layer" where
  "meta_annotation_layer_set_window_editor_region e pid x y w h l =
     (let windows = (if layer_display l then collect_windows_for_pid e pid else [])
      in if windows = [] then l
         else schedule_recompose (fold (editor_region_step e x y w h) windows l))"

definition scroll_step :: "int \<Rightarrow> int \<Rightarrow> window \<Rightarrow> annotation_layer \<Rightarrow> annotation_layer" where
  "scroll_step sx sy win l =
     (case per_window l win of
        None \<Rightarrow> l
      | Some ink \<Rightarrow>
          if scroll_x ink = of_int sx \<and> scroll_y ink = of_int sy then l
          else
            (let ink1 = ink\<lparr>scroll_x := of_int sx, scroll_y := of_int sy\<rparr>;
                 l1 = (if stroke_active l \<and> stroke_anchor l = Some win \<and> stroke_follow_scroll l
                       then seal_stroke l else l)
             in put_ink win (window_ink_rasterize ink1) l1))"

definition meta_annotation_layer_set_window_scroll ::
  "'r display_env \<Rightarrow> 32 word \<Rightarrow> int \<Rightarrow> int \<Rightarrow> annotation_layer \<Rightarrow> annotation_layer" where
  "meta_annotation_layer_set_window_scroll e pid sx sy l =
     (let windows = (if layer_display l then collect_windows_for_pid e pid else [])
      in if windows = [] then l
         else schedule_recompose (fold (scroll_step sx sy) windows l))"

end
