(* ===== verification/Annot_Events.thy ===== *)
theory Annot_Events
  imports Annot_Layer
begin

text \<open>
  Event handling of the annotation layer: what is read off an event, strokes (begin, continue,
  end), tap gestures, the event entry, and chrome regions
  (\<open>mutter/src/compositor/meta-annotation-layer.c\<close>).
\<close>

unbundle bit_operations_syntax

section \<open>Reading events\<close>

definition pointer_has_draw_button :: "clutter_event \<Rightarrow> bool" where
  "pointer_has_draw_button ev \<longleftrightarrow> ev_state ev AND CLUTTER_BUTTON1_MASK \<noteq> 0"

definition event_is_eraser_tool :: "clutter_event \<Rightarrow> bool" where
  "event_is_eraser_tool ev \<longleftrightarrow> ev_tool ev = Some CLUTTER_INPUT_DEVICE_TOOL_ERASER"

definition erase_is_active :: "annotation_layer \<Rightarrow> clutter_event \<Rightarrow> bool" where
  "erase_is_active l ev \<longleftrightarrow> pen_barrel_buttons l \<noteq> 0 \<or> event_is_eraser_tool ev"

definition handle_tool_modifier_press ::
  "clutter_event \<Rightarrow> bool \<Rightarrow> annotation_layer \<Rightarrow> bool \<times> annotation_layer" where
  "handle_tool_modifier_press ev pressed l =
     (if ev_tool ev = None then (False, l)
      else
        (let btn = ev_button ev
         in if btn = CLUTTER_BUTTON_PRIMARY \<or> btn = 0 then (False, l)
            else if btn \<ge> 32 then (True, l)
            else if pressed
            then (True, l\<lparr>pen_barrel_buttons := pen_barrel_buttons l OR push_bit btn 1\<rparr>)
            else (True, l\<lparr>pen_barrel_buttons := pen_barrel_buttons l AND NOT (push_bit btn 1)\<rparr>)))"

text \<open>The value written to \<open>*out\<close>, or \<^const>\<open>None\<close> where the code returns FALSE.\<close>

definition event_get_pressure :: "clutter_event \<Rightarrow> real option" where
  "event_get_pressure ev =
     (if ev_tool ev = None then None
      else case ev_axes ev of
        None \<Rightarrow> None
      | Some axes \<Rightarrow>
          if CLUTTER_INPUT_AXIS_PRESSURE \<ge> length axes then None
          else Some (axes ! CLUTTER_INPUT_AXIS_PRESSURE))"

definition event_get_tilt_factor :: "clutter_event \<Rightarrow> real option" where
  "event_get_tilt_factor ev =
     (if ev_tool ev = None then None
      else case ev_axes ev of
        None \<Rightarrow> None
      | Some axes \<Rightarrow>
          if CLUTTER_INPUT_AXIS_XTILT \<ge> length axes \<or> CLUTTER_INPUT_AXIS_YTILT \<ge> length axes
          then None
          else
            (let xt = axes ! CLUTTER_INPUT_AXIS_XTILT;
                 yt = axes ! CLUTTER_INPUT_AXIS_YTILT;
                 mag = clampf 0 1 (sqrt (xt * xt + yt * yt) / ANNOT_TILT_DEG_FULL)
             in Some (1 + ANNOT_TILT_WIDTH_BOOST * mag)))"

section \<open>Strokes\<close>

definition stroke_target ::
  "annotation_layer \<Rightarrow> cairo_surface option \<times> stroke list option" where
  "stroke_target l = (surface_at l (stroke_anchor l), strokes_at l (stroke_anchor l))"

definition convert_stage_to_local ::
  "'r display_env \<Rightarrow> annotation_layer \<Rightarrow> real \<Rightarrow> real \<Rightarrow> real \<times> real" where
  "convert_stage_to_local e l stage_x stage_y =
     (case stroke_anchor l of
        Some w \<Rightarrow>
          (let fr = frame_rect (win_of e w)
           in (stage_x - of_int (rect_x fr), stage_y - of_int (rect_y fr)))
      | None \<Rightarrow> (stage_x, stage_y))"

text \<open>The array is that of the current target; the point is appended through the pointer.\<close>

definition append_ink_point :: "ink_point \<Rightarrow> bool \<Rightarrow> annotation_layer \<Rightarrow> annotation_layer" where
  "append_ink_point pt follow l =
     (case snd (stroke_target l) of
        None \<Rightarrow> l
      | Some strokes \<Rightarrow>
          (let l1 = (if current_stroke l = None then
                       (let s = (stroke_new (next_stroke l) (pen_rgba l))\<lparr>follow_scroll := follow\<rparr>
                        in (put_strokes (stroke_anchor l) (strokes @ [s]) l)
                             \<lparr>current_stroke := Some (next_stroke l),
                              next_stroke := Suc (next_stroke l)\<rparr>)
                     else l)
           in update_stroke (the (current_stroke l1)) (\<lambda>s. stroke_append_point s pt) l1))"

definition begin_stroke ::
  "'r display_env \<Rightarrow> real \<Rightarrow> real \<Rightarrow> real option \<Rightarrow> real option \<Rightarrow> bool \<Rightarrow>
   annotation_layer \<Rightarrow> annotation_layer" where
  "begin_stroke e stage_x stage_y pressure tilt_factor erase l =
     (let anchor = (if layer_display l then pick_anchor_window e stage_x stage_y else None);
          l1 = (set_stroke_anchor anchor l)\<lparr>current_stroke := None, stroke_follow_scroll := False\<rparr>;
          l2 = (case anchor of None \<Rightarrow> l1 | Some w \<Rightarrow> snd (ensure_window_ink e w l1));
          (lx, ly) = convert_stage_to_local e l2 stage_x stage_y;
          l3 = l2\<lparr>stroke_last_x := lx, stroke_last_y := ly, stroke_active := True,
                  last_pressure :=
                    (case pressure of Some p \<Rightarrow> if p > 0 then p else 1 | None \<Rightarrow> 1),
                  last_tilt_factor := (case tilt_factor of Some t \<Rightarrow> t | None \<Rightarrow> 1)\<rparr>;
          anchor_ink = ink_at l3 anchor;
          follow = (case anchor_ink of
                      None \<Rightarrow> False
                    | Some k \<Rightarrow> \<not> erase \<and> has_region anchor_ink \<and> eraser_in_editor k lx ly);
          l4 = (if follow then l3\<lparr>stroke_follow_scroll := True\<rparr> else l3)
      in if erase then l4
         else
           (let l5 = set_last_ink_anchor anchor True l4
            in case snd (stroke_target l5) of
                 None \<Rightarrow> l5
               | Some strokes \<Rightarrow>
                   (let (px, py) =
                          (case anchor_ink of
                             Some k \<Rightarrow>
                               if stroke_follow_scroll l5
                               then (stroke_last_x l5 - editor_x k + scroll_x k,
                                     stroke_last_y l5 - editor_y k + scroll_y k)
                               else (stroke_last_x l5, stroke_last_y l5)
                           | None \<Rightarrow> (stroke_last_x l5, stroke_last_y l5))
                    in append_ink_point
                         \<lparr>ip_x = px, ip_y = py, ip_pressure = last_pressure l5,
                          ip_tilt_factor = last_tilt_factor l5\<rparr>
                         (stroke_follow_scroll l5) l5)))"

definition eraser_radius :: "real \<Rightarrow> real \<Rightarrow> real" where
  "eraser_radius p t =
     (let w = ANNOT_BASE_WIDTH * pressure_to_width_multiplier p * t * ANNOT_ERASE_WIDTH_FACTOR;
          r = 1 / 2 * w
      in if r < ANNOT_ERASE_MIN_RADIUS then ANNOT_ERASE_MIN_RADIUS else r)"

definition continue_erase ::
  "real \<Rightarrow> real \<Rightarrow> real \<Rightarrow> real \<Rightarrow> annotation_layer \<Rightarrow> annotation_layer" where
  "continue_erase lx ly p_end t_end l =
     (let l1 = l\<lparr>current_stroke := None\<rparr>; a = stroke_anchor l
      in case stroke_target l of
           (Some target, Some strokes) \<Rightarrow>
             (let (n, strokes') =
                    erase_strokes_hit_by_segment strokes (stroke_last_x l) (stroke_last_y l) lx ly
                      (eraser_radius p_end t_end) (ink_at l a);
                  l2 = put_strokes a strokes' l1
              in if n > 0
                 then put_surface a
                        (rasterize_all_strokes_with_ink (Some target) strokes' (ink_at l2 a)) l2
                 else l2)
         | _ \<Rightarrow> l1)"

definition continue_ink ::
  "real \<Rightarrow> real \<Rightarrow> real \<Rightarrow> real \<Rightarrow> annotation_layer \<Rightarrow> annotation_layer" where
  "continue_ink lx ly p_end t_end l =
     (let a = stroke_anchor l
      in case stroke_target l of
           (Some target, Some strokes) \<Rightarrow>
             (let l1 = put_surface a
                    (Some (paint_on (plain_cmds
                       (draw_segment_on_cr (pen_rgba l) (stroke_last_x l) (stroke_last_y l) lx ly
                          (last_pressure l) p_end (last_tilt_factor l) t_end False)) target)) l;
                  (fdx, fdy) =
                    (case ink_at l a of
                       Some k \<Rightarrow> if stroke_follow_scroll l
                                then (scroll_x k - editor_x k, scroll_y k - editor_y k) else (0, 0)
                     | None \<Rightarrow> (0, 0));
                  l2 = (if current_stroke l1 = None
                        then append_ink_point
                               \<lparr>ip_x = stroke_last_x l + fdx, ip_y = stroke_last_y l + fdy,
                                ip_pressure = last_pressure l,
                                ip_tilt_factor = last_tilt_factor l\<rparr>
                               (stroke_follow_scroll l) l1
                        else l1)
              in append_ink_point
                   \<lparr>ip_x = lx + fdx, ip_y = ly + fdy, ip_pressure = p_end, ip_tilt_factor = t_end\<rparr>
                   (stroke_follow_scroll l) l2)
         | _ \<Rightarrow> l)"

definition continue_stroke ::
  "'r display_env \<Rightarrow> real \<Rightarrow> real \<Rightarrow> real option \<Rightarrow> real option \<Rightarrow> bool \<Rightarrow>
   annotation_layer \<Rightarrow> annotation_layer" where
  "continue_stroke e stage_x stage_y pressure tilt_factor erase l =
     (let (lx, ly) = convert_stage_to_local e l stage_x stage_y;
          p_end = (case pressure of Some p \<Rightarrow> p | None \<Rightarrow> last_pressure l);
          t_end = (case tilt_factor of Some t \<Rightarrow> t | None \<Rightarrow> last_tilt_factor l);
          l1 = (if erase then continue_erase lx ly p_end t_end l
                else continue_ink lx ly p_end t_end l)
      in schedule_recompose
           (l1\<lparr>stroke_last_x := lx, stroke_last_y := ly,
               last_pressure := p_end, last_tilt_factor := t_end\<rparr>))"

definition end_stroke :: "annotation_layer \<Rightarrow> annotation_layer" where
  "end_stroke l = schedule_recompose (seal_stroke l)"

section \<open>Tap gestures\<close>

definition TAP_HISTORY_SIZE :: nat where "TAP_HISTORY_SIZE = 4"
definition TAP_MAX_DURATION_US :: int where "TAP_MAX_DURATION_US = 300 * 1000"
definition TAP_MAX_MOVE_PX :: real where "TAP_MAX_MOVE_PX = 10"
definition TRIPLE_TAP_WINDOW_US :: int where "TRIPLE_TAP_WINDOW_US = 750 * 1000"
definition QUAD_TAP_WINDOW_US :: int where "QUAD_TAP_WINDOW_US = 100 * 1000"

lemmas tap_consts = TAP_HISTORY_SIZE_def TAP_MAX_DURATION_US_def TAP_MAX_MOVE_PX_def
  TRIPLE_TAP_WINDOW_US_def QUAD_TAP_WINDOW_US_def

definition clear_ink_for_anchor :: "window option \<Rightarrow> annotation_layer \<Rightarrow> annotation_layer" where
  "clear_ink_for_anchor anchor l =
     (let l1 = (case anchor of
                  None \<Rightarrow>
                    l\<lparr>unattached_surface := surface_clear (unattached_surface l),
                      unattached_strokes := strokes_clear (unattached_strokes l)\<rparr>
                | Some w \<Rightarrow>
                    (case per_window l w of
                       None \<Rightarrow> l
                     | Some k \<Rightarrow>
                         put_ink w (k\<lparr>wi_surface := (wi_surface k)\<lparr>cs_cmds := []\<rparr>,
                                      wi_strokes := strokes_clear (wi_strokes k)\<rparr>) l));
          l2 = (if stroke_anchor l1 = anchor then drop_stroke l1 else l1);
          l3 = (if last_ink_anchor l2 = anchor \<or>
                   (anchor = None \<and> last_ink_present l2 \<and> last_ink_anchor l2 = None)
                then set_last_ink_anchor None False l2 else l2)
      in schedule_recompose l3)"

definition tap_history_reset :: "annotation_layer \<Rightarrow> annotation_layer" where
  "tap_history_reset l = l\<lparr>tap_history := []\<rparr>"

text \<open>Drop the leading entries older than the quad-tap window.\<close>

definition tap_history_prune :: "int \<Rightarrow> annotation_layer \<Rightarrow> annotation_layer" where
  "tap_history_prune now l =
     l\<lparr>tap_history := dropWhile (\<lambda>t. \<not> now - tap_time_us t \<le> QUAD_TAP_WINDOW_US) (tap_history l)\<rparr>"

definition tap_history_append :: "int \<Rightarrow> window option \<Rightarrow> annotation_layer \<Rightarrow> annotation_layer" where
  "tap_history_append now anchor l =
     (let h = (if length (tap_history l) = TAP_HISTORY_SIZE then tl (tap_history l)
               else tap_history l)
      in l\<lparr>tap_history := h @ [\<lparr>tap_time_us = now, tap_anchor = anchor\<rparr>]\<rparr>)"

definition check_tap_gestures :: "'r display_env \<Rightarrow> annotation_layer \<Rightarrow> annotation_layer" where
  "check_tap_gestures e l =
     (let h = tap_history l; n = length h
      in if n \<ge> TAP_HISTORY_SIZE then tap_history_reset (meta_annotation_layer_clear e l)
         else if n \<ge> 3 then
           (let a = h ! (n - 3); b = h ! (n - 2); c = h ! (n - 1)
            in if tap_anchor a = tap_anchor b \<and> tap_anchor b = tap_anchor c \<and>
                  tap_time_us c - tap_time_us a \<le> TRIPLE_TAP_WINDOW_US
               then tap_history_reset (clear_ink_for_anchor (tap_anchor c) l)
               else l)
         else l)"

definition note_tap_press ::
  "int \<Rightarrow> real \<Rightarrow> real \<Rightarrow> window option \<Rightarrow> annotation_layer \<Rightarrow> annotation_layer" where
  "note_tap_press now stage_x stage_y anchor l =
     l\<lparr>pending_tap := True, pending_tap_press_us := now,
       pending_tap_press_stage_x := stage_x, pending_tap_press_stage_y := stage_y,
       pending_tap_anchor := anchor\<rparr>"

definition tap_moved_away :: "real \<Rightarrow> real \<Rightarrow> annotation_layer \<Rightarrow> bool" where
  "tap_moved_away x y l =
     (let dx = x - pending_tap_press_stage_x l; dy = y - pending_tap_press_stage_y l
      in dx * dx + dy * dy > TAP_MAX_MOVE_PX * TAP_MAX_MOVE_PX)"

definition note_tap_release ::
  "'r display_env \<Rightarrow> int \<Rightarrow> real \<Rightarrow> real \<Rightarrow> annotation_layer \<Rightarrow> annotation_layer" where
  "note_tap_release e now stage_x stage_y l =
     (if \<not> pending_tap l then l
      else
        (let l1 = l\<lparr>pending_tap := False\<rparr>;
             duration = now - pending_tap_press_us l1
         in if duration > TAP_MAX_DURATION_US then l1
            else if tap_moved_away stage_x stage_y l1 then l1
            else check_tap_gestures e
                   (tap_history_append now (pending_tap_anchor l1) (tap_history_prune now l1))))"

definition cancel_tap_pending :: "annotation_layer \<Rightarrow> annotation_layer" where
  "cancel_tap_pending l = l\<lparr>pending_tap := False\<rparr>"

definition cancel_tap_if_moved :: "real \<Rightarrow> real \<Rightarrow> annotation_layer \<Rightarrow> annotation_layer" where
  "cancel_tap_if_moved x y l =
     (if pending_tap l then if tap_moved_away x y l then cancel_tap_pending l else l else l)"

section \<open>Event entry\<close>

text \<open>\<open>now\<close> is \<open>g_get_monotonic_time\<close>, read at most once per event. The result is whether the
  event was consumed.\<close>

definition press_branch ::
  "'r display_env \<Rightarrow> int \<Rightarrow> clutter_event \<Rightarrow> annotation_layer \<Rightarrow> annotation_layer" where
  "press_branch e now ev l =
     (let l1 = begin_stroke e (ev_x ev) (ev_y ev) (event_get_pressure ev)
                 (event_get_tilt_factor ev) (erase_is_active l ev) l
      in note_tap_press now (ev_x ev) (ev_y ev) (stroke_anchor l1) l1)"

definition continue_with ::
  "'r display_env \<Rightarrow> clutter_event \<Rightarrow> annotation_layer \<Rightarrow> annotation_layer" where
  "continue_with e ev l =
     continue_stroke e (ev_x ev) (ev_y ev) (event_get_pressure ev) (event_get_tilt_factor ev)
       (erase_is_active l ev) l"

definition release_branch ::
  "'r display_env \<Rightarrow> int \<Rightarrow> clutter_event \<Rightarrow> annotation_layer \<Rightarrow> annotation_layer" where
  "release_branch e now ev l =
     (let l1 = (if stroke_active l then continue_with e ev l else l)
      in end_stroke (note_tap_release e now (ev_x ev) (ev_y ev) l1))"

text \<open>A button press or release: barrel buttons only set or drop the erase modifier.\<close>

definition button_press_branch ::
  "'r display_env \<Rightarrow> int \<Rightarrow> clutter_event \<Rightarrow> annotation_layer \<Rightarrow> annotation_layer" where
  "button_press_branch e now ev l =
     (if ev_button ev \<noteq> CLUTTER_BUTTON_PRIMARY \<and> ev_tool ev = None then l
      else case handle_tool_modifier_press ev True l of
        (handled, l1) \<Rightarrow> if handled then l1 else press_branch e now ev l1)"

definition button_release_branch ::
  "'r display_env \<Rightarrow> int \<Rightarrow> clutter_event \<Rightarrow> annotation_layer \<Rightarrow> annotation_layer" where
  "button_release_branch e now ev l =
     (case handle_tool_modifier_press ev False l of
        (handled, l1) \<Rightarrow> if handled then l1 else release_branch e now ev l1)"

definition motion_branch ::
  "'r display_env \<Rightarrow> clutter_event \<Rightarrow> annotation_layer \<Rightarrow> annotation_layer" where
  "motion_branch e ev l =
     (let pressure_tip = (case event_get_pressure ev of Some p \<Rightarrow> p > 0 | None \<Rightarrow> False);
          btn = pointer_has_draw_button ev;
          erase = erase_is_active l ev
      in if \<not> stroke_active l \<and> \<not> btn \<and> \<not> pressure_tip then l
         else if \<not> stroke_active l \<and> (btn \<or> pressure_tip)
         then cancel_tap_pending
                (begin_stroke e (ev_x ev) (ev_y ev) (event_get_pressure ev)
                   (event_get_tilt_factor ev) erase l)
         else
           (let l1 = continue_stroke e (ev_x ev) (ev_y ev) (event_get_pressure ev)
                       (event_get_tilt_factor ev) erase l;
                l2 = cancel_tap_if_moved (ev_x ev) (ev_y ev) l1
            in if \<not> (btn \<or> pressure_tip) then end_stroke l2 else l2))"

definition meta_annotation_layer_handle_event ::
  "'r display_env \<Rightarrow> int \<Rightarrow> clutter_event \<Rightarrow> annotation_layer \<Rightarrow> bool \<times> annotation_layer" where
  "meta_annotation_layer_handle_event e now ev l =
     (if \<not> active l \<or> paused l \<or> surface l = None then (False, l)
      else case ev_type ev of
        CLUTTER_BUTTON_PRESS \<Rightarrow>
          (True, button_press_branch e now ev l)
      | CLUTTER_MOTION \<Rightarrow> (True, motion_branch e ev l)
      | CLUTTER_BUTTON_RELEASE \<Rightarrow> (True, button_release_branch e now ev l)
      | CLUTTER_TOUCH_BEGIN \<Rightarrow> (True, press_branch e now ev l)
      | CLUTTER_TOUCH_UPDATE \<Rightarrow>
          (True, if stroke_active l
                 then cancel_tap_if_moved (ev_x ev) (ev_y ev) (continue_with e ev l) else l)
      | CLUTTER_TOUCH_END \<Rightarrow> (True, release_branch e now ev l)
      | CLUTTER_TOUCH_CANCEL \<Rightarrow> (True, end_stroke (cancel_tap_pending l))
      | _ \<Rightarrow> (False, l))"

section \<open>Chrome regions\<close>

definition ensure_chrome_regions :: "annotation_layer \<Rightarrow> chrome_region list" where
  "ensure_chrome_regions l = (case chrome_regions l of None \<Rightarrow> [] | Some rs \<Rightarrow> rs)"

text \<open>The variant of type \<open>a(siiii)\<close> is its list of tuples; NULL is \<^const>\<open>None\<close>.\<close>

definition chrome_region_of :: "string \<times> int \<times> int \<times> int \<times> int \<Rightarrow> chrome_region list" where
  "chrome_region_of t =
     (case t of (i, x, y, w, h) \<Rightarrow>
        if w \<le> 0 \<or> h \<le> 0 then []
        else [\<lparr>cr_id = i,
               cr_rect = \<lparr>gr_x = of_int x, gr_y = of_int y,
                          gr_width = of_int w, gr_height = of_int h\<rparr>\<rparr>])"

definition meta_annotation_layer_set_chrome_regions ::
  "(string \<times> int \<times> int \<times> int \<times> int) list option \<Rightarrow> annotation_layer \<Rightarrow> annotation_layer" where
  "meta_annotation_layer_set_chrome_regions regions l =
     (case regions of
        None \<Rightarrow> l\<lparr>chrome_regions := Some []\<rparr>
      | Some ts \<Rightarrow>
          schedule_recompose (l\<lparr>chrome_regions := Some (concat (map chrome_region_of ts))\<rparr>))"

definition meta_annotation_layer_clear_chrome_regions :: "annotation_layer \<Rightarrow> annotation_layer" where
  "meta_annotation_layer_clear_chrome_regions l =
     schedule_recompose
       (l\<lparr>chrome_regions := map_option (\<lambda>rs. []) (chrome_regions l), chrome_press_id := None\<rparr>)"

text \<open>\<open>graphene_rect_contains_point\<close> is the parameter \<open>contains_point\<close>.\<close>

definition meta_annotation_layer_pick_chrome_region ::
  "(graphene_rect \<Rightarrow> real \<Rightarrow> real \<Rightarrow> bool) \<Rightarrow> annotation_layer \<Rightarrow> real \<Rightarrow> real \<Rightarrow> string option" where
  "meta_annotation_layer_pick_chrome_region contains_point l x y =
     (case chrome_regions l of
        None \<Rightarrow> None
      | Some rs \<Rightarrow> map_option cr_id (find (\<lambda>r. contains_point (cr_rect r) x y) (rev rs)))"

definition meta_annotation_layer_set_chrome_press_active ::
  "string option \<Rightarrow> annotation_layer \<Rightarrow> annotation_layer" where
  "meta_annotation_layer_set_chrome_press_active i l = l\<lparr>chrome_press_id := i\<rparr>"

definition meta_annotation_layer_chrome_press_active ::
  "annotation_layer \<Rightarrow> bool \<times> string option" where
  "meta_annotation_layer_chrome_press_active l = (chrome_press_id l \<noteq> None, chrome_press_id l)"

definition meta_annotation_layer_clear_chrome_press :: "annotation_layer \<Rightarrow> annotation_layer" where
  "meta_annotation_layer_clear_chrome_press l = l\<lparr>chrome_press_id := None\<rparr>"

end
