(* ===== verification/Annot_Store.thy ===== *)
theory Annot_Store
  imports Annot_Events
begin

text \<open>
  The ink buffers of the layer as a keyed store: a buffer is named by its anchor, read with
  \<open>strokes_at\<close> and \<open>surface_at\<close>, and written with \<open>put_strokes\<close> and \<open>put_surface\<close>. The laws
  of such a store are the locale \<open>buffer_store\<close>; both views of the layer are instances. The
  lemmas say what each operation of the layer does to the strokes.
\<close>

section \<open>The interface of a keyed store\<close>

locale buffer_store =
  fixes get :: "'s \<Rightarrow> 'k \<Rightarrow> 'v option"
    and put :: "'k \<Rightarrow> 'v \<Rightarrow> 's \<Rightarrow> 's"
  assumes get_put_same: "get s k \<noteq> None \<Longrightarrow> get (put k v s) k = Some v"
    and get_put_other: "k \<noteq> j \<Longrightarrow> get (put k v s) j = get s j"
    and put_absent: "get s k = None \<Longrightarrow> put k v s = s"
begin

lemma get_put: "get (put k v s) = (if get s k = None then get s else (get s)(k \<mapsto> v))"
  by (rule ext) (auto simp: put_absent get_put_same get_put_other)

lemma dom_put [simp]: "get (put k v s) j = None \<longleftrightarrow> get s j = None"
  by (simp add: get_put)

lemma get_put_put: "get (put k v (put k u s)) = get (put k v s)"
  by (rule ext) (simp add: get_put)

lemma get_put_commute: "k \<noteq> j \<Longrightarrow> get (put k v (put j u s)) = get (put j u (put k v s))"
  by (rule ext) (simp add: get_put)

end

interpretation strokes: buffer_store strokes_at put_strokes
  by unfold_locales
     (auto simp: strokes_at_def put_strokes_def put_ink_def split: option.splits)

section \<open>Frame lemmas\<close>

lemma put_strokes_frame [simp]:
  "surface_at (put_strokes a ss l) = surface_at l"
  "stroke_anchor (put_strokes a ss l) = stroke_anchor l"
  "current_stroke (put_strokes a ss l) = current_stroke l"
  "next_stroke (put_strokes a ss l) = next_stroke l"
  by (auto simp: put_strokes_def put_ink_def surface_at_def fun_eq_iff split: option.splits)

lemma put_surface_frame [simp]:
  "strokes_at (put_surface a s l) = strokes_at l"
  "stroke_anchor (put_surface a s l) = stroke_anchor l"
  "current_stroke (put_surface a s l) = current_stroke l"
  "next_stroke (put_surface a s l) = next_stroke l"
  "pen_rgba (put_surface a s l) = pen_rgba l"
  by (auto simp: put_surface_def put_ink_def strokes_at_def fun_eq_iff split: option.splits)

lemma surface_at_put_surface:
  "surface_at l a \<noteq> None \<Longrightarrow> surface_at (put_surface a (Some c) l) = (surface_at l)(a \<mapsto> c)"
  by (rule ext) (auto simp: put_surface_def put_ink_def surface_at_def split: option.splits)

lemma surface_at_some_iff:
  "surface_at l (Some w) = None \<longleftrightarrow> per_window l w = None"
  "strokes_at l (Some w) = None \<longleftrightarrow> per_window l w = None"
  by (simp_all add: surface_at_def strokes_at_def)

text \<open>Writing a surface that exists.\<close>

definition put_existing_surface ::
  "window option \<Rightarrow> cairo_surface \<Rightarrow> annotation_layer \<Rightarrow> annotation_layer" where
  "put_existing_surface a c l = (if surface_at l a = None then l else put_surface a (Some c) l)"

interpretation surfaces: buffer_store surface_at put_existing_surface
  by unfold_locales (simp_all add: put_existing_surface_def surface_at_put_surface)

lemma strokes_at_update_stroke:
  "strokes_at (update_stroke i f l) a =
     map_option (map (\<lambda>s. if stroke_id s = i then f s else s)) (strokes_at l a)"
  by (simp add: strokes_at_def update_stroke_def Let_def option.map_comp o_def split: option.splits)

lemma update_stroke_frame [simp]:
  "surface_at (update_stroke i f l) = surface_at l"
  "stroke_anchor (update_stroke i f l) = stroke_anchor l"
  "current_stroke (update_stroke i f l) = current_stroke l"
  "next_stroke (update_stroke i f l) = next_stroke l"
  "pen_rgba (update_stroke i f l) = pen_rgba l"
  by (auto simp: update_stroke_def surface_at_def Let_def fun_eq_iff option.map_comp o_def
      split: option.splits)

section \<open>Well-formed stores\<close>

text \<open>Addresses are allocated and distinct, across buffers as well; strokes have points, their
  bounding boxes contain them; unattached strokes never follow the scroll.\<close>

definition stroke_ok :: "nat \<Rightarrow> stroke \<Rightarrow> bool" where
  "stroke_ok n s \<longleftrightarrow> stroke_id s < n \<and> points s \<noteq> [] \<and> bbox_ok s \<and> tilt_ok s"

definition store_ok :: "(window option \<Rightarrow> stroke list option) \<Rightarrow> nat \<Rightarrow> bool" where
  "store_ok S n \<longleftrightarrow>
     (\<forall>a ss. S a = Some ss \<longrightarrow> distinct (map stroke_id ss) \<and> (\<forall>s \<in> set ss. stroke_ok n s)) \<and>
     (\<forall>a b ss ts s t. S a = Some ss \<longrightarrow> S b = Some ts \<longrightarrow> s \<in> set ss \<longrightarrow> t \<in> set ts \<longrightarrow>
        stroke_id s = stroke_id t \<longrightarrow> a = b) \<and>
     (\<forall>ss. S None = Some ss \<longrightarrow> (\<forall>s \<in> set ss. \<not> follow_scroll s))"

lemma store_okD:
  assumes "store_ok S n" "S a = Some ss"
  shows "distinct (map stroke_id ss)"
    and "s \<in> set ss \<Longrightarrow> stroke_ok n s"
    and "S b = Some ts \<Longrightarrow> s \<in> set ss \<Longrightarrow> t \<in> set ts \<Longrightarrow> stroke_id s = stroke_id t \<Longrightarrow> a = b"
  using assms unfolding store_ok_def by blast+

lemma store_ok_unattached: "store_ok S n \<Longrightarrow> S None = Some ss \<Longrightarrow> s \<in> set ss \<Longrightarrow> \<not> follow_scroll s"
  unfolding store_ok_def by blast

text \<open>Removing strokes or whole buffers keeps a store well formed.\<close>

definition substore ::
  "(window option \<Rightarrow> stroke list option) \<Rightarrow> (window option \<Rightarrow> stroke list option) \<Rightarrow> bool" where
  "substore S' S \<longleftrightarrow> (\<forall>a ss'. S' a = Some ss' \<longrightarrow>
     ss' = [] \<or> (\<exists>ss. S a = Some ss \<and> set ss' \<subseteq> set ss \<and>
       (distinct (map stroke_id ss) \<longrightarrow> distinct (map stroke_id ss'))))"

lemma store_ok_sub:
  assumes "store_ok S n" "substore S' S"
  shows "store_ok S' n"
proof -
  have mem: "\<exists>ss. S a = Some ss \<and> s \<in> set ss" if "S' a = Some ss'" "s \<in> set ss'" for a ss' s
    using that assms(2) unfolding substore_def by fastforce
  have dist: "distinct (map stroke_id ss')" if "S' a = Some ss'" for a ss'
  proof -
    from that assms(2) consider "ss' = []"
      | ss where "S a = Some ss" "distinct (map stroke_id ss) \<longrightarrow> distinct (map stroke_id ss')"
      unfolding substore_def by blast
    then show ?thesis by cases (use store_okD(1) [OF assms(1)] in auto)
  qed
  show ?thesis
    unfolding store_ok_def
  proof (intro conjI allI impI ballI)
    show "stroke_ok n s" if "S' a = Some ss'" "s \<in> set ss'" for a ss' s
      using mem [OF that] store_okD(2) [OF assms(1)] by blast
    show "a = b" if "S' a = Some ss" "S' b = Some ts" "s \<in> set ss" "t \<in> set ts"
      "stroke_id s = stroke_id t" for a b ss ts s t
      using mem [OF that(1,3)] mem [OF that(2,4)] that(5) store_okD(3) [OF assms(1)] by blast
    show "\<not> follow_scroll s" if "S' None = Some ss'" "s \<in> set ss'" for ss' s
      using mem [OF that] store_ok_unattached [OF assms(1)] by blast
  qed (rule dist)
qed

lemma substore_refl [simp]: "substore S S"
  by (auto simp: substore_def)

lemma substore_upd:
  "S a = Some ss \<Longrightarrow> set ss' \<subseteq> set ss \<Longrightarrow>
   (distinct (map stroke_id ss) \<Longrightarrow> distinct (map stroke_id ss')) \<Longrightarrow> substore (S(a \<mapsto> ss')) S"
  by (auto simp: substore_def)

lemma substore_filter: "S a = Some ss \<Longrightarrow> substore (S(a \<mapsto> filter P ss)) S"
  by (erule substore_upd) (auto intro: distinct_map_filter)

lemma substore_butlast: "S a = Some ss \<Longrightarrow> substore (S(a \<mapsto> butlast ss)) S"
  by (erule substore_upd) (auto dest: in_set_butlastD distinct_butlast simp: map_butlast)

lemma store_ok_mono: "store_ok S n \<Longrightarrow> n \<le> m \<Longrightarrow> store_ok S m"
  unfolding store_ok_def stroke_ok_def by (meson le_trans less_le_trans)

text \<open>Adding a fresh stroke at the end of a buffer.\<close>

lemma store_ok_snoc:
  assumes ok: "store_ok S n" and a: "S a = Some ss"
    and s: "stroke_id s = n" "points s \<noteq> []" "bbox_ok s" "tilt_ok s"
    and f: "a = None \<Longrightarrow> \<not> follow_scroll s"
  shows "store_ok (S(a \<mapsto> ss @ [s])) (Suc n)"
proof -
  have fresh: "stroke_id t \<noteq> n" if "S b = Some ts" "t \<in> set ts" for b ts t
    using store_okD(2) [OF ok that] by (simp add: stroke_ok_def)
  have old: "stroke_ok (Suc n) t" if "S b = Some ts" "t \<in> set ts" for b ts t
    using store_okD(2) [OF ok that] by (simp add: stroke_ok_def)
  have new: "stroke_ok (Suc n) s" using s by (simp add: stroke_ok_def)
  have dist: "distinct (map stroke_id (ss @ [s]))"
    using store_okD(1) [OF ok a] fresh [OF a] s(1) by fastforce
  have mem: "b = a \<and> t = s \<or> (\<exists>ts'. S b = Some ts' \<and> t \<in> set ts')"
    if "(S(a \<mapsto> ss @ [s])) b = Some ts" "t \<in> set ts" for b ts t
    using that a by (auto split: if_splits)
  show ?thesis
    unfolding store_ok_def
  proof (intro conjI allI impI ballI)
    show "distinct (map stroke_id ts)" if "(S(a \<mapsto> ss @ [s])) b = Some ts" for b ts
      using that dist store_okD(1) [OF ok] by (auto split: if_splits)
    show "stroke_ok (Suc n) t" if "(S(a \<mapsto> ss @ [s])) b = Some ts" "t \<in> set ts" for b ts t
      using mem [OF that] old new by blast
    show "b = c" if "(S(a \<mapsto> ss @ [s])) b = Some ts" "(S(a \<mapsto> ss @ [s])) c = Some us"
      "t \<in> set ts" "u \<in> set us" "stroke_id t = stroke_id u" for b c ts us t u
      using mem [OF that(1,3)] mem [OF that(2,4)] that(5) s(1) fresh store_okD(3) [OF ok]
      by metis
    show "\<not> follow_scroll t" if "(S(a \<mapsto> ss @ [s])) None = Some ts" "t \<in> set ts" for ts t
      using mem [OF that] f store_ok_unattached [OF ok] by blast
  qed
qed

text \<open>Changing one stroke in place.\<close>

lemma store_ok_update:
  assumes ok: "store_ok S n"
    and f: "\<And>s. stroke_ok n s \<Longrightarrow> stroke_id s = i \<Longrightarrow> stroke_ok n (f s)"
    and keep: "\<And>s. stroke_id (f s) = stroke_id s" "\<And>s. follow_scroll (f s) = follow_scroll s"
  shows "store_ok (\<lambda>a. map_option (map (\<lambda>s. if stroke_id s = i then f s else s)) (S a)) n"
proof -
  let ?g = "\<lambda>s. if stroke_id s = i then f s else s"
  have ids: "map stroke_id (map ?g ss) = map stroke_id ss" for ss by (auto simp: keep)
  have id: "stroke_id (?g s) = stroke_id s" "follow_scroll (?g s) = follow_scroll s" for s
    by (simp_all add: keep)
  show ?thesis
    unfolding store_ok_def
  proof (intro conjI allI impI ballI)
    fix a ss assume "map_option (map ?g) (S a) = Some ss"
    then obtain ss0 where S: "S a = Some ss0" "ss = map ?g ss0" by auto
    show "distinct (map stroke_id ss)" using store_okD(1) [OF ok S(1)] ids S(2) by metis
    show "stroke_ok n s" if "s \<in> set ss" for s
      using that store_okD(2) [OF ok S(1)] f S(2) by auto
  next
    fix a b ss ts s t
    assume "map_option (map ?g) (S a) = Some ss" "map_option (map ?g) (S b) = Some ts"
      and st: "s \<in> set ss" "t \<in> set ts" and eq: "stroke_id s = stroke_id t"
    then obtain ss0 ts0 where S: "S a = Some ss0" "ss = map ?g ss0" "S b = Some ts0" "ts = map ?g ts0"
      by auto
    from st(1) S(2) obtain s0 where s0: "s0 \<in> set ss0" "stroke_id s = stroke_id s0"
      by (auto simp: keep)
    from st(2) S(4) obtain t0 where t0: "t0 \<in> set ts0" "stroke_id t = stroke_id t0"
      by (auto simp: keep)
    show "a = b" using store_okD(3) [OF ok S(1,3) s0(1) t0(1)] eq s0(2) t0(2) by simp
  next
    fix ss s assume "map_option (map ?g) (S None) = Some ss" "s \<in> set ss"
    then show "\<not> follow_scroll s" using store_ok_unattached [OF ok] id(2) by fastforce
  qed
qed

end
