(* ===== verification/Annot_Invariant.thy ===== *)
theory Annot_Invariant
  imports Annot_Store
begin

text \<open>
  The well-formedness invariant of the annotation layer and its preservation by every
  operation: no pointer of the layer dangles, the stroke in flight is the last one of its
  target's array and ends where the pen is, and the tap history is bounded. The calls the rest
  of the shell and the signals can make are one datatype; the reachable states are the ones a
  sequence of enabled calls produces from a new layer.
\<close>

section \<open>The invariant\<close>

text \<open>The translation from surface-local to stored coordinates of the stroke in flight.\<close>

definition follow_shift :: "annotation_layer \<Rightarrow> real \<times> real" where
  "follow_shift l =
     (case ink_at l (stroke_anchor l) of
        Some k \<Rightarrow> if stroke_follow_scroll l
                 then (scroll_x k - editor_x k, scroll_y k - editor_y k) else (0, 0)
      | None \<Rightarrow> (0, 0))"

text \<open>The pen's last position as a stored point.\<close>

definition pen_point :: "annotation_layer \<Rightarrow> ink_point" where
  "pen_point l =
     \<lparr>ip_x = stroke_last_x l + fst (follow_shift l), ip_y = stroke_last_y l + snd (follow_shift l),
      ip_pressure = last_pressure l, ip_tilt_factor = last_tilt_factor l\<rparr>"

definition flight_at :: "annotation_layer \<Rightarrow> ink_point \<Rightarrow> bool" where
  "flight_at l q \<longleftrightarrow> (\<forall>i. current_stroke l = Some i \<longrightarrow>
     stroke_active l \<and>
     (\<exists>ss s. strokes_at l (stroke_anchor l) = Some (ss @ [s]) \<and> stroke_id s = i \<and>
        follow_scroll s = stroke_follow_scroll l \<and> last (points s) = q))"

definition flight_ok :: "annotation_layer \<Rightarrow> bool" where
  "flight_ok l \<longleftrightarrow> flight_at l (pen_point l) \<and>
     (stroke_active l \<longrightarrow> stroke_anchor l = None \<longrightarrow> \<not> stroke_follow_scroll l)"

text \<open>Every window the layer points to has ink, hence a connected \<open>unmanaged\<close> handler.\<close>

definition has_ink :: "annotation_layer \<Rightarrow> window option \<Rightarrow> bool" where
  "has_ink l a \<longleftrightarrow> (\<forall>w. a = Some w \<longrightarrow> per_window l w \<noteq> None)"

definition anchors_ok :: "annotation_layer \<Rightarrow> bool" where
  "anchors_ok l \<longleftrightarrow>
     has_ink l (stroke_anchor l) \<and> has_ink l (last_ink_anchor l) \<and>
     (pending_tap l \<longrightarrow> has_ink l (pending_tap_anchor l)) \<and>
     (\<forall>t \<in> set (tap_history l). has_ink l (tap_anchor t)) \<and>
     (\<not> last_ink_present l \<longrightarrow> last_ink_anchor l = None)"

definition ink_wf :: "window \<Rightarrow> window_ink \<Rightarrow> bool" where
  "ink_wf w k \<longleftrightarrow> wi_window k = w \<and> 1 \<le> wi_width k \<and> 1 \<le> wi_height k \<and>
     cs_width (wi_surface k) = wi_width k \<and> cs_height (wi_surface k) = wi_height k"

definition windows_ok :: "annotation_layer \<Rightarrow> bool" where
  "windows_ok l \<longleftrightarrow> (\<forall>w k. per_window l w = Some k \<longrightarrow> ink_wf w k)"

definition misc_ok :: "annotation_layer \<Rightarrow> bool" where
  "misc_ok l \<longleftrightarrow> 1 \<le> last_tilt_factor l \<and> length (tap_history l) < TAP_HISTORY_SIZE \<and>
     (surface l = None \<longleftrightarrow> unattached_surface l = None) \<and> (recompose_idle l \<longrightarrow> surface l \<noteq> None)"

definition layer_ok :: "annotation_layer \<Rightarrow> bool" where
  "layer_ok l \<longleftrightarrow> store_ok (strokes_at l) (next_stroke l) \<and> flight_ok l \<and> anchors_ok l \<and>
     windows_ok l \<and> misc_ok l"

lemma strokes_at_fun:
  "strokes_at l = (\<lambda>a. case a of None \<Rightarrow> Some (unattached_strokes l)
                          | Some w \<Rightarrow> map_option wi_strokes (per_window l w))"
  by (rule ext) (simp add: strokes_at_def)

lemmas ok_defs = layer_ok_def flight_ok_def flight_at_def pen_point_def follow_shift_def
  anchors_ok_def has_ink_def windows_ok_def misc_ok_def strokes_at_fun ink_at_def

lemma layer_okD:
  assumes "layer_ok l"
  shows "store_ok (strokes_at l) (next_stroke l)" "flight_ok l" "anchors_ok l" "windows_ok l"
    "misc_ok l"
  using assms by (simp_all add: layer_ok_def)

text \<open>What the parts of the invariant read.\<close>

lemma strokes_at_cong:
  "unattached_strokes l' = unattached_strokes l \<Longrightarrow> per_window l' = per_window l \<Longrightarrow>
   strokes_at l' = strokes_at l"
  by (simp add: strokes_at_fun cong: option.case_cong)

lemma pen_point_cong:
  "per_window l' = per_window l \<Longrightarrow> stroke_anchor l' = stroke_anchor l \<Longrightarrow>
   stroke_follow_scroll l' = stroke_follow_scroll l \<Longrightarrow> stroke_last_x l' = stroke_last_x l \<Longrightarrow>
   stroke_last_y l' = stroke_last_y l \<Longrightarrow> last_pressure l' = last_pressure l \<Longrightarrow>
   last_tilt_factor l' = last_tilt_factor l \<Longrightarrow> pen_point l' = pen_point l"
  by (simp add: pen_point_def follow_shift_def ink_at_def cong: option.case_cong if_cong)

lemma flight_at_cong:
  "strokes_at l' = strokes_at l \<Longrightarrow> current_stroke l' = current_stroke l \<Longrightarrow>
   stroke_active l' = stroke_active l \<Longrightarrow> stroke_anchor l' = stroke_anchor l \<Longrightarrow>
   stroke_follow_scroll l' = stroke_follow_scroll l \<Longrightarrow> flight_at l' q = flight_at l q"
  by (simp add: flight_at_def)

lemma flight_at_none [simp]: "current_stroke l = None \<Longrightarrow> flight_at l q"
  by (simp add: flight_at_def)

lemma anchors_ok_cong:
  "dom (per_window l') = dom (per_window l) \<Longrightarrow> stroke_anchor l' = stroke_anchor l \<Longrightarrow>
   last_ink_anchor l' = last_ink_anchor l \<Longrightarrow> last_ink_present l' = last_ink_present l \<Longrightarrow>
   pending_tap l' = pending_tap l \<Longrightarrow> pending_tap_anchor l' = pending_tap_anchor l \<Longrightarrow>
   tap_history l' = tap_history l \<Longrightarrow> anchors_ok l' = anchors_ok l"
proof -
  assume d: "dom (per_window l') = dom (per_window l)"
  have "has_ink l' a = has_ink l a" for a
    using d by (auto simp: has_ink_def dom_def split: option.splits)
  then show "stroke_anchor l' = stroke_anchor l \<Longrightarrow> last_ink_anchor l' = last_ink_anchor l \<Longrightarrow>
    last_ink_present l' = last_ink_present l \<Longrightarrow> pending_tap l' = pending_tap l \<Longrightarrow>
    pending_tap_anchor l' = pending_tap_anchor l \<Longrightarrow> tap_history l' = tap_history l \<Longrightarrow> ?thesis"
    by (simp add: anchors_ok_def)
qed

lemma misc_ok_cong:
  "last_tilt_factor l' = last_tilt_factor l \<Longrightarrow> tap_history l' = tap_history l \<Longrightarrow>
   surface l' = surface l \<Longrightarrow> unattached_surface l' = unattached_surface l \<Longrightarrow>
   recompose_idle l' = recompose_idle l \<Longrightarrow> misc_ok l' = misc_ok l"
  by (simp add: misc_ok_def)

lemma layer_ok_cong:
  assumes "unattached_strokes l' = unattached_strokes l" "per_window l' = per_window l"
    "next_stroke l' = next_stroke l" "current_stroke l' = current_stroke l"
    "stroke_active l' = stroke_active l" "stroke_anchor l' = stroke_anchor l"
    "stroke_follow_scroll l' = stroke_follow_scroll l" "stroke_last_x l' = stroke_last_x l"
    "stroke_last_y l' = stroke_last_y l" "last_pressure l' = last_pressure l"
    "last_tilt_factor l' = last_tilt_factor l" "last_ink_anchor l' = last_ink_anchor l"
    "last_ink_present l' = last_ink_present l" "pending_tap l' = pending_tap l"
    "pending_tap_anchor l' = pending_tap_anchor l" "tap_history l' = tap_history l"
    "surface l' = surface l" "unattached_surface l' = unattached_surface l"
    "recompose_idle l' = recompose_idle l"
  shows "layer_ok l' = layer_ok l"
  using assms strokes_at_cong [of l' l] pen_point_cong [of l' l] flight_at_cong [of l' l "pen_point l"]
    anchors_ok_cong [of l' l] misc_ok_cong [of l' l]
  by (simp add: layer_ok_def flight_ok_def windows_ok_def)

text \<open>The fields the invariant does not read.\<close>

lemma layer_ok_irrelevant [simp]:
  "layer_ok (l\<lparr>recompose_dirty := b\<rparr>) = layer_ok l"
  "layer_ok (l\<lparr>texture := t\<rparr>) = layer_ok l"
  "layer_ok (l\<lparr>actor_visible := b\<rparr>) = layer_ok l"
  "layer_ok (l\<lparr>actor_on_stage := b\<rparr>) = layer_ok l"
  "layer_ok (l\<lparr>active := b\<rparr>) = layer_ok l"
  "layer_ok (l\<lparr>paused := b\<rparr>) = layer_ok l"
  "layer_ok (l\<lparr>pen_rgba := c\<rparr>) = layer_ok l"
  "layer_ok (l\<lparr>pen_barrel_buttons := m\<rparr>) = layer_ok l"
  "layer_ok (l\<lparr>chrome_regions := cs\<rparr>) = layer_ok l"
  "layer_ok (l\<lparr>chrome_press_id := i\<rparr>) = layer_ok l"
  by (rule layer_ok_cong; simp)+

lemma has_ink_None [simp]: "has_ink l None"
  by (simp add: has_ink_def)

text \<open>A stroke that ends leaves the rest of the invariant alone.\<close>

lemma layer_ok_no_flight:
  assumes "layer_ok l" "strokes_at l' = strokes_at l" "next_stroke l' = next_stroke l"
    "current_stroke l' = None" "anchors_ok l'" "windows_ok l'" "misc_ok l'"
    "stroke_active l' \<Longrightarrow> stroke_anchor l' = None \<Longrightarrow> \<not> stroke_follow_scroll l'"
  shows "layer_ok l'"
  using assms by (simp add: layer_ok_def flight_ok_def)

lemma layer_ok_weaken:
  assumes ok: "layer_ok l"
  shows "layer_ok (l\<lparr>current_stroke := None\<rparr>)"
    and "layer_ok (l\<lparr>pending_tap := False\<rparr>)"
    and "layer_ok (l\<lparr>tap_history := []\<rparr>)"
    and "layer_ok (l\<lparr>recompose_idle := False\<rparr>)"
    and "layer_ok (drop_stroke l)"
    and "layer_ok (seal_stroke l)"
    and "layer_ok (set_last_ink_anchor None False l)"
proof -
  note D = layer_okD [OF ok]
  have fl: "flight_at l (pen_point l)" "stroke_active l \<Longrightarrow> stroke_anchor l = None \<Longrightarrow> \<not> stroke_follow_scroll l"
    using D(2) by (simp_all add: flight_ok_def)
  have keep: "layer_ok l'" if
    "strokes_at l' = strokes_at l" "next_stroke l' = next_stroke l" "pen_point l' = pen_point l"
    "flight_at l' (pen_point l) = flight_at l (pen_point l)"
    "stroke_active l' = stroke_active l" "stroke_anchor l' = stroke_anchor l"
    "stroke_follow_scroll l' = stroke_follow_scroll l"
    "anchors_ok l'" "windows_ok l'" "misc_ok l'" for l'
    using that D(1) fl by (simp add: layer_ok_def flight_ok_def)
  note parts = windows_ok_def misc_ok_def anchors_ok_def has_ink_def
    drop_stroke_def seal_stroke_def set_stroke_anchor_eq set_last_ink_anchor_eq TAP_HISTORY_SIZE_def
  show "layer_ok (l\<lparr>current_stroke := None\<rparr>)" "layer_ok (drop_stroke l)" "layer_ok (seal_stroke l)"
    by (rule layer_ok_no_flight [OF ok]; (intro strokes_at_cong)?; use D fl in \<open>auto simp: parts\<close>)+
  show "layer_ok (l\<lparr>pending_tap := False\<rparr>)" "layer_ok (l\<lparr>tap_history := []\<rparr>)"
    "layer_ok (l\<lparr>recompose_idle := False\<rparr>)" "layer_ok (set_last_ink_anchor None False l)"
    by (rule keep; (intro strokes_at_cong pen_point_cong flight_at_cong)?;
        use D in \<open>auto simp: parts\<close>)+
qed

lemma layer_ok_surface:
  assumes "layer_ok l" "surface l \<noteq> None"
  shows "layer_ok (l\<lparr>surface := Some c\<rparr>)" "layer_ok (l\<lparr>recompose_idle := True\<rparr>)"
proof -
  have keep: "layer_ok l'" if "surface l' \<noteq> None" "strokes_at l' = strokes_at l"
    "pen_point l' = pen_point l" "flight_at l' (pen_point l) = flight_at l (pen_point l)"
    "next_stroke l' = next_stroke l" "stroke_active l' = stroke_active l"
    "stroke_anchor l' = stroke_anchor l" "stroke_follow_scroll l' = stroke_follow_scroll l"
    "anchors_ok l' = anchors_ok l" "windows_ok l' = windows_ok l" "misc_ok l'" for l'
    using that assms by (simp add: layer_ok_def flight_ok_def)
  show "layer_ok (l\<lparr>surface := Some c\<rparr>)" "layer_ok (l\<lparr>recompose_idle := True\<rparr>)"
    by (rule keep; (intro strokes_at_cong pen_point_cong flight_at_cong anchors_ok_cong)?;
        use assms in \<open>auto simp: windows_ok_def layer_ok_def misc_ok_def\<close>)+
qed

section \<open>Recomposition\<close>

lemma layer_ok_schedule [simp]:
  assumes "layer_ok l"
  shows "layer_ok (schedule_recompose l)"
  using assms layer_ok_surface(2) [OF assms] by (auto simp: schedule_recompose_def)

lemma layer_ok_recompose:
  assumes "layer_ok l"
  shows "layer_ok (recompose e l)"
proof (cases "surface l")
  case None
  then show ?thesis using assms by (simp add: recompose_def)
next
  case (Some c)
  have "layer_ok (l\<lparr>recompose_dirty := False, surface := Some d\<rparr>)" for d
    using layer_ok_surface [of "l\<lparr>recompose_dirty := False\<rparr>"] assms Some by simp
  then show ?thesis using assms Some
    by (simp add: recompose_def Let_def sync_texture_from_surface_def)
qed

lemma layer_ok_visibility: "layer_ok l \<Longrightarrow> layer_ok (update_actor_visibility e l)"
  by (simp add: update_actor_visibility_def Let_def layer_ok_recompose layer_ok_weaken)

end
