(* ===== verification/Annot_Preserve.thy ===== *)
theory Annot_Preserve
  imports Annot_Invariant
begin

text \<open>
  Every operation of the annotation layer preserves \<open>layer_ok\<close>. The operations on strokes are
  split into what they do to the store of strokes and the fact that they keep everything else,
  the chassis of the layer.
\<close>

section \<open>The chassis\<close>

text \<open>A layer without the contents of its ink buffers.\<close>

definition bare_ink :: "window_ink \<Rightarrow> window_ink" where
  "bare_ink k = k\<lparr>wi_strokes := [], wi_surface := (wi_surface k)\<lparr>cs_cmds := []\<rparr>\<rparr>"

definition chassis :: "annotation_layer \<Rightarrow> annotation_layer" where
  "chassis l = l\<lparr>unattached_strokes := [], unattached_surface := surface_clear (unattached_surface l),
     per_window := (\<lambda>w. map_option bare_ink (per_window l w)),
     current_stroke := None, next_stroke := 0\<rparr>"

lemma bare_ink_simps [simp]:
  "bare_ink (k\<lparr>wi_strokes := ss\<rparr>) = bare_ink k"
  "wi_window (bare_ink k) = wi_window k" "wi_width (bare_ink k) = wi_width k"
  "wi_height (bare_ink k) = wi_height k"
  "cs_width (wi_surface (bare_ink k)) = cs_width (wi_surface k)"
  "cs_height (wi_surface (bare_ink k)) = cs_height (wi_surface k)"
  "has_editor_region (bare_ink k) = has_editor_region k"
  "editor_x (bare_ink k) = editor_x k" "editor_y (bare_ink k) = editor_y k"
  "editor_w (bare_ink k) = editor_w k" "editor_h (bare_ink k) = editor_h k"
  "scroll_x (bare_ink k) = scroll_x k" "scroll_y (bare_ink k) = scroll_y k"
  by (simp_all add: bare_ink_def)

lemma ink_wf_bare [simp]: "ink_wf w (bare_ink k) = ink_wf w k"
  by (simp add: ink_wf_def)

lemma bare_ink_surface:
  "cs_width c = cs_width (wi_surface k) \<Longrightarrow> cs_height c = cs_height (wi_surface k) \<Longrightarrow>
   bare_ink (k\<lparr>wi_surface := c\<rparr>) = bare_ink k"
  by (simp add: bare_ink_def)

lemma chassis_reads:
  "anchors_ok (chassis l) = anchors_ok l" "windows_ok (chassis l) = windows_ok l"
  "misc_ok (chassis l) = misc_ok l" "pen_point (chassis l) = pen_point l"
  "stroke_active (chassis l) = stroke_active l" "stroke_anchor (chassis l) = stroke_anchor l"
  "stroke_follow_scroll (chassis l) = stroke_follow_scroll l"
  "last_ink_anchor (chassis l) = last_ink_anchor l"
  "active (chassis l) = active l" "paused (chassis l) = paused l"
proof -
  show "anchors_ok (chassis l) = anchors_ok l"
    by (simp add: chassis_def anchors_ok_def has_ink_def)
  show "windows_ok (chassis l) = windows_ok l"
    by (auto simp: windows_ok_def chassis_def) (metis ink_wf_bare)
  show "misc_ok (chassis l) = misc_ok l"
    by (simp add: chassis_def misc_ok_def surface_clear_def)
  have "follow_shift (chassis l) = follow_shift l"
    by (cases "ink_at l (stroke_anchor l)")
       (auto simp: follow_shift_def ink_at_def chassis_def split: option.splits)
  then show "pen_point (chassis l) = pen_point l"
    by (simp add: pen_point_def) (simp add: chassis_def)
qed (simp_all add: chassis_def)

lemma chassisD:
  assumes "chassis l' = chassis l"
  shows "anchors_ok l' = anchors_ok l" "windows_ok l' = windows_ok l"
    "misc_ok l' = misc_ok l" "pen_point l' = pen_point l"
    "stroke_active l' = stroke_active l" "stroke_anchor l' = stroke_anchor l"
    "stroke_follow_scroll l' = stroke_follow_scroll l"
    "last_ink_anchor l' = last_ink_anchor l"
    "active l' = active l" "paused l' = paused l"
  using chassis_reads [of l] chassis_reads [of l'] assms by simp_all

lemma layer_ok_chassis:
  assumes "layer_ok l" "chassis l' = chassis l"
    and "store_ok (strokes_at l') (next_stroke l')" "flight_at l' (pen_point l)"
  shows "layer_ok l'"
  using assms chassisD [OF assms(2)] by (simp add: layer_ok_def flight_ok_def)

lemma chassis_put_strokes [simp]: "chassis (put_strokes a ss l) = chassis l"
  by (auto simp: put_strokes_def put_ink_def chassis_def fun_eq_iff split: option.splits)

lemma chassis_put_surface:
  "(\<And>c. surface_at l a = Some c \<Longrightarrow>
     \<exists>d. s = Some d \<and> cs_width d = cs_width c \<and> cs_height d = cs_height c) \<Longrightarrow>
   (surface_at l a = None \<Longrightarrow> s = None) \<Longrightarrow> chassis (put_surface a s l) = chassis l"
  by (cases "surface_at l a")
     (auto simp: put_surface_def put_ink_def chassis_def fun_eq_iff surface_at_def surface_clear_def
      bare_ink_surface split: option.splits)

lemma chassis_current [simp]:
  "chassis (l\<lparr>current_stroke := c\<rparr>) = chassis l" "chassis (l\<lparr>next_stroke := n\<rparr>) = chassis l"
  by (simp_all add: chassis_def)

lemma chassis_update_stroke [simp]: "chassis (update_stroke i f l) = chassis l"
  by (auto simp: update_stroke_def chassis_def Let_def fun_eq_iff option.map_comp o_def)

lemma strokes_at_fields [simp]:
  "strokes_at (l\<lparr>current_stroke := c\<rparr>) = strokes_at l"
  "strokes_at (l\<lparr>next_stroke := n\<rparr>) = strokes_at l"
  by (rule strokes_at_cong; simp)+

section \<open>Appending points\<close>

lemma points_stroke_new [simp]: "points (stroke_new i c) = []" "stroke_id (stroke_new i c) = i"
  "stroke_rgba (stroke_new i c) = c"
  by (simp_all add: stroke_new_def)

text \<open>Appending changes nothing but the store.\<close>

lemma chassis_append [simp]: "chassis (append_ink_point pt f l) = chassis l"
  by (simp add: append_ink_point_def Let_def split: option.splits)

lemma update_only_last:
  assumes "store_ok S n" "S a = Some (ss @ [s])" "stroke_id s = i"
  shows "(\<lambda>b. map_option (map (\<lambda>t. if stroke_id t = i then f t else t)) (S b)) =
         S(a \<mapsto> ss @ [f s])"
proof (rule ext)
  fix b
  show "map_option (map (\<lambda>t. if stroke_id t = i then f t else t)) (S b) = (S(a \<mapsto> ss @ [f s])) b"
  proof (cases "b = a")
    case True
    have "stroke_id t \<noteq> i" if "t \<in> set ss" for t
    proof -
      have "stroke_id s \<notin> stroke_id ` set ss" using store_okD(1) [OF assms(1,2)] by simp
      with that assms(3) show ?thesis by (metis imageI)
    qed
    then show ?thesis using True assms(2,3) by (auto intro!: map_idI)
  next
    case False
    have "stroke_id t \<noteq> i" if "S b = Some ts" "t \<in> set ts" for ts t
      using store_okD(3) [OF assms(1) that(1) assms(2) that(2), of s] assms(3) False by auto
    then show ?thesis using False by (cases "S b") (auto intro!: map_idI)
  qed
qed

lemma append_new:
  assumes ok: "store_ok (strokes_at l) (next_stroke l)" and c: "current_stroke l = None"
    and ss: "strokes_at l (stroke_anchor l) = Some ss"
    and s_def: "s = stroke_append_point ((stroke_new (next_stroke l) (pen_rgba l))\<lparr>follow_scroll := f\<rparr>) pt"
  shows "strokes_at (append_ink_point pt f l) = (strokes_at l)(stroke_anchor l \<mapsto> ss @ [s])"
    and "current_stroke (append_ink_point pt f l) = Some (next_stroke l)"
    and "next_stroke (append_ink_point pt f l) = Suc (next_stroke l)"
proof -
  let ?n = "next_stroke l" and ?a = "stroke_anchor l"
  let ?s0 = "(stroke_new ?n (pen_rgba l))\<lparr>follow_scroll := f\<rparr>"
  let ?up = "\<lambda>t. if stroke_id t = ?n then stroke_append_point t pt else t"
  let ?l1 = "(put_strokes ?a (ss @ [?s0]) l)\<lparr>current_stroke := Some ?n, next_stroke := Suc ?n\<rparr>"
  have S1: "strokes_at ?l1 = (strokes_at l)(?a \<mapsto> ss @ [?s0])"
    using ss by (simp add: strokes.get_put)
  have eq: "append_ink_point pt f l = update_stroke ?n (\<lambda>s. stroke_append_point s pt) ?l1"
    using ss c by (simp add: append_ink_point_def stroke_target_def Let_def)
  have fresh: "map ?up ts = ts" if "strokes_at l b = Some ts" for b ts
  proof (rule map_idI)
    fix t assume "t \<in> set ts"
    then show "?up t = t" using store_okD(2) [OF ok that, of t] by (simp add: stroke_ok_def)
  qed
  show "strokes_at (append_ink_point pt f l) = (strokes_at l)(?a \<mapsto> ss @ [s])"
  proof (rule ext)
    fix b
    have "strokes_at (append_ink_point pt f l) b = map_option (map ?up) (strokes_at ?l1 b)"
      unfolding eq by (rule strokes_at_update_stroke)
    also have "\<dots> = ((strokes_at l)(?a \<mapsto> ss @ [s])) b"
      unfolding S1 using fresh ss by (cases "strokes_at l b") (auto simp: s_def)
    finally show "strokes_at (append_ink_point pt f l) b = ((strokes_at l)(?a \<mapsto> ss @ [s])) b" .
  qed
  show "current_stroke (append_ink_point pt f l) = Some ?n"
    "next_stroke (append_ink_point pt f l) = Suc ?n"
    unfolding eq by simp_all
qed

lemma append_more:
  assumes ok: "store_ok (strokes_at l) (next_stroke l)" and c: "current_stroke l = Some i"
    and ss: "strokes_at l (stroke_anchor l) = Some (ss @ [s])" and i: "stroke_id s = i"
  shows "strokes_at (append_ink_point pt f l) =
           (strokes_at l)(stroke_anchor l \<mapsto> ss @ [stroke_append_point s pt])"
    and "current_stroke (append_ink_point pt f l) = Some i"
    and "next_stroke (append_ink_point pt f l) = next_stroke l"
proof -
  have eq: "append_ink_point pt f l = update_stroke i (\<lambda>s. stroke_append_point s pt) l"
    using ss c by (simp add: append_ink_point_def stroke_target_def)
  have "strokes_at (update_stroke i (\<lambda>s. stroke_append_point s pt) l) =
      (\<lambda>b. map_option (map (\<lambda>t. if stroke_id t = i then stroke_append_point t pt else t)) (strokes_at l b))"
    by (rule ext) (rule strokes_at_update_stroke)
  also have "\<dots> = (strokes_at l)(stroke_anchor l \<mapsto> ss @ [stroke_append_point s pt])"
    by (rule update_only_last [OF ok ss i])
  finally show "strokes_at (append_ink_point pt f l) =
      (strokes_at l)(stroke_anchor l \<mapsto> ss @ [stroke_append_point s pt])"
    unfolding eq .
  show "current_stroke (append_ink_point pt f l) = Some i"
    "next_stroke (append_ink_point pt f l) = next_stroke l"
    unfolding eq using c by simp_all
qed

lemma bbox_ok_follow [simp]: "bbox_ok (s\<lparr>follow_scroll := f\<rparr>) = bbox_ok s"
  "tilt_ok (s\<lparr>follow_scroll := f\<rparr>) = tilt_ok s"
  by (simp_all add: bbox_ok_def tilt_ok_def)

text \<open>After appending, the stroke in flight is the last one of the target and ends in the
  point.\<close>

lemma append_ink_point_ok:
  assumes ok: "store_ok (strokes_at l) (next_stroke l)" and fl: "flight_at l q"
    and t: "strokes_at l (stroke_anchor l) \<noteq> None" and act: "stroke_active l"
    and un: "stroke_anchor l = None \<Longrightarrow> \<not> stroke_follow_scroll l"
    and tilt: "0 \<le> ip_tilt_factor pt" and f: "f = stroke_follow_scroll l"
  shows "store_ok (strokes_at (append_ink_point pt f l)) (next_stroke (append_ink_point pt f l))"
    and "flight_at (append_ink_point pt f l) pt"
    and "current_stroke (append_ink_point pt f l) \<noteq> None"
proof -
  let ?a = "stroke_anchor l" and ?l' = "append_ink_point pt f l"
  note same = chassisD(5-7) [OF chassis_append [of pt f l]]
  have "store_ok (strokes_at ?l') (next_stroke ?l') \<and> flight_at ?l' pt \<and> current_stroke ?l' \<noteq> None"
  proof (cases "current_stroke l")
    case None
    from t obtain ss where ss: "strokes_at l ?a = Some ss" by auto
    note N = append_new [OF ok None ss refl, of pt f]
    show ?thesis
      unfolding N flight_at_def same using act f un tilt
      by (auto intro!: store_ok_snoc [OF ok ss] bbox_ok_append tilt_ok_append)
  next
    case (Some i)
    from fl Some obtain ss s where ss: "strokes_at l ?a = Some (ss @ [s])" "stroke_id s = i"
      "follow_scroll s = stroke_follow_scroll l" by (auto simp: flight_at_def)
    note M = append_more [OF ok Some ss(1,2), of pt f]
    have "store_ok (strokes_at ?l') (next_stroke l)"
      using store_ok_update [OF ok, of i "\<lambda>s. stroke_append_point s pt"] tilt
      unfolding M(1) update_only_last [OF ok ss(1,2)]
      by (simp add: stroke_ok_def bbox_ok_append tilt_ok_append)
    then show ?thesis unfolding flight_at_def M same using M(3) act ss(2,3) by auto
  qed
  then show "store_ok (strokes_at ?l') (next_stroke ?l')" "flight_at ?l' pt"
    "current_stroke ?l' \<noteq> None" by simp_all
qed

section \<open>Window ink\<close>

lemma ensure_frame:
  "snd (ensure_window_ink e w l) = l\<lparr>per_window := per_window (snd (ensure_window_ink e w l))\<rparr>"
  by (simp add: ensure_window_ink_def Let_def put_ink_def split: option.splits)

lemma ensure_strokes:
  "substore (strokes_at (snd (ensure_window_ink e w l))) (strokes_at l)"
  by (auto simp: ensure_window_ink_def Let_def put_ink_def substore_def strokes_at_def
      window_ink_new_def split: option.splits)

lemma ensure_has_ink:
  "has_ink l a \<Longrightarrow> has_ink (snd (ensure_window_ink e w l)) a"
  "1 \<le> rect_width (frame_rect (win_of e w)) \<Longrightarrow> 1 \<le> rect_height (frame_rect (win_of e w)) \<Longrightarrow>
   has_ink (snd (ensure_window_ink e w l)) (Some w)"
  by (auto simp: ensure_window_ink_def Let_def put_ink_def has_ink_def split: option.splits)

lemma ensure_windows_ok: "windows_ok l \<Longrightarrow> windows_ok (snd (ensure_window_ink e w l))"
  by (auto simp: ensure_window_ink_def Let_def put_ink_def windows_ok_def ink_wf_def
      window_ink_new_def cairo_surface_new_cleared_def split: option.splits)

lemma ensure_result:
  "fst (ensure_window_ink e w l) = per_window (snd (ensure_window_ink e w l)) w"
  by (simp add: ensure_window_ink_def Let_def put_ink_def split: option.splits)

lemma follow_shift_cong:
  "ink_at l' (stroke_anchor l') = ink_at l (stroke_anchor l) \<Longrightarrow>
   stroke_follow_scroll l' = stroke_follow_scroll l \<Longrightarrow> follow_shift l' = follow_shift l"
  by (simp add: follow_shift_def cong: option.case_cong if_cong)

text \<open>Changing window inks without touching the stroke in flight.\<close>

lemma layer_ok_windows:
  assumes ok: "layer_ok l"
    and st: "store_ok (strokes_at (l\<lparr>per_window := W\<rparr>)) (next_stroke l)"
    and fl: "current_stroke l \<noteq> None \<Longrightarrow>
      strokes_at (l\<lparr>per_window := W\<rparr>) (stroke_anchor l) = strokes_at l (stroke_anchor l) \<and>
      follow_shift (l\<lparr>per_window := W\<rparr>) = follow_shift l"
    and dom: "\<And>w. per_window l w \<noteq> None \<Longrightarrow> W w \<noteq> None"
    and wok: "\<And>w k. W w = Some k \<Longrightarrow> ink_wf w k"
  shows "layer_ok (l\<lparr>per_window := W\<rparr>)"
proof -
  let ?l = "l\<lparr>per_window := W\<rparr>"
  note D = layer_okD [OF ok]
  have "flight_at ?l (pen_point ?l)"
    using D(2) fl by (cases "current_stroke l") (auto simp: flight_ok_def flight_at_def pen_point_def)
  moreover have "has_ink l a \<Longrightarrow> has_ink ?l a" for a using dom by (simp add: has_ink_def)
  then have "anchors_ok ?l" using D(3) by (simp add: anchors_ok_def)
  moreover have "misc_ok ?l = misc_ok l" by (rule misc_ok_cong) simp_all
  ultimately show ?thesis
    using D st wok by (simp add: layer_ok_def flight_ok_def windows_ok_def)
qed

lemma layer_ok_ensure:
  assumes ok: "layer_ok l"
  shows "layer_ok (snd (ensure_window_ink e w l))"
proof -
  let ?W = "per_window (snd (ensure_window_ink e w l))"
  note D = layer_okD [OF ok]
  have keep: "?W v = per_window l v" if "per_window l v \<noteq> None" for v
    using that by (auto simp: ensure_window_ink_def Let_def put_ink_def split: option.splits)
  have at: "strokes_at (l\<lparr>per_window := ?W\<rparr>) a = strokes_at l a \<and>
      ink_at (l\<lparr>per_window := ?W\<rparr>) a = ink_at l a" if "has_ink l a" for a
    using that keep by (cases a) (simp_all add: strokes_at_def ink_at_def has_ink_def)
  have "layer_ok (l\<lparr>per_window := ?W\<rparr>)"
  proof (rule layer_ok_windows [OF ok])
    show "store_ok (strokes_at (l\<lparr>per_window := ?W\<rparr>)) (next_stroke l)"
      using store_ok_sub [OF D(1) ensure_strokes [of e w l]] ensure_frame [of e w l] by simp
    show "strokes_at (l\<lparr>per_window := ?W\<rparr>) (stroke_anchor l) = strokes_at l (stroke_anchor l) \<and>
        follow_shift (l\<lparr>per_window := ?W\<rparr>) = follow_shift l"
      using at [of "stroke_anchor l"] D(3) by (auto simp: anchors_ok_def intro!: follow_shift_cong)
    show "ink_wf v k" if "?W v = Some k" for v k
      using ensure_windows_ok [OF D(4), of e w] that by (simp add: windows_ok_def)
  qed (use keep in auto)
  then show ?thesis by (simp add: ensure_frame [symmetric])
qed

text \<open>Replacing the ink of one window, strokes kept.\<close>

lemma layer_ok_put_ink:
  assumes ok: "layer_ok l" and k: "per_window l w = Some k"
    and k': "wi_strokes k' = wi_strokes k" "ink_wf w k'"
    and fl: "current_stroke l \<noteq> None \<Longrightarrow> stroke_anchor l = Some w \<Longrightarrow> stroke_follow_scroll l \<Longrightarrow>
      scroll_x k' = scroll_x k \<and> scroll_y k' = scroll_y k \<and>
      editor_x k' = editor_x k \<and> editor_y k' = editor_y k"
  shows "layer_ok (put_ink w k' l)"
  unfolding put_ink_def
proof (rule layer_ok_windows [OF ok])
  note D = layer_okD [OF ok]
  let ?l = "l\<lparr>per_window := (per_window l)(w \<mapsto> k')\<rparr>"
  have S: "strokes_at ?l = strokes_at l"
    using k k'(1) by (auto simp: strokes_at_fun fun_eq_iff split: option.splits)
  show "store_ok (strokes_at ?l) (next_stroke l)" unfolding S by (rule D(1))
  have "follow_shift ?l = follow_shift l" if "current_stroke l \<noteq> None"
  proof (cases "stroke_anchor l = Some w")
    case True
    then show ?thesis using fl [OF that True] k by (auto simp: follow_shift_def ink_at_def)
  next
    case False
    then have "ink_at ?l (stroke_anchor l) = ink_at l (stroke_anchor l)"
      by (cases "stroke_anchor l") (auto simp: ink_at_def)
    then show ?thesis by (intro follow_shift_cong) simp_all
  qed
  with S show "current_stroke l \<noteq> None \<Longrightarrow>
      strokes_at ?l (stroke_anchor l) = strokes_at l (stroke_anchor l) \<and>
      follow_shift ?l = follow_shift l" by simp
qed (use k'(2) layer_okD(4) [OF ok] in \<open>auto simp: windows_ok_def split: if_splits\<close>)

lemma ink_wf_rasterize [simp]: "ink_wf w (window_ink_rasterize k) = ink_wf w k"
  by (simp add: ink_wf_def)

lemma ink_wf_resize: "ink_wf w k \<Longrightarrow> ink_wf w (window_ink_resize_to_frame e k)"
  by (simp add: ink_wf_def window_ink_resize_to_frame_def Let_def cairo_surface_new_cleared_def)

lemma resize_keeps [simp]:
  "wi_strokes (window_ink_resize_to_frame e k) = wi_strokes k"
  "scroll_x (window_ink_resize_to_frame e k) = scroll_x k"
  "scroll_y (window_ink_resize_to_frame e k) = scroll_y k"
  "editor_x (window_ink_resize_to_frame e k) = editor_x k"
  "editor_y (window_ink_resize_to_frame e k) = editor_y k"
  by (simp_all add: window_ink_resize_to_frame_def Let_def)

lemma layer_ok_size_changed:
  assumes ok: "layer_ok l"
  shows "layer_ok (on_window_size_changed e w l)"
proof (cases "per_window l w")
  case (Some k)
  have "ink_wf w k" using layer_okD(4) [OF ok] Some by (simp add: windows_ok_def)
  then have "layer_ok (put_ink w (window_ink_resize_to_frame e k) l)"
    by (intro layer_ok_put_ink [OF ok Some] ink_wf_resize) simp_all
  then show ?thesis using Some by (simp add: on_window_size_changed_def)
qed (simp add: on_window_size_changed_def ok)

section \<open>Scroll following\<close>

lemma set_editor_region_simps [simp]:
  "wi_strokes (set_editor_region x y w h k) = wi_strokes k"
  "ink_wf v (set_editor_region x y w h k) = ink_wf v k"
  by (simp_all add: set_editor_region_def ink_wf_def)

lemma seal_fields [simp]:
  "per_window (seal_stroke l) = per_window l" "current_stroke (seal_stroke l) = None"
  "strokes_at (seal_stroke l) = strokes_at l"
  by (simp_all add: seal_stroke_def set_stroke_anchor_eq strokes_at_fun cong: option.case_cong)

lemma seal_put_ink: "seal_stroke (put_ink w k l) = put_ink w k (seal_stroke l)"
  by (simp add: seal_stroke_def set_stroke_anchor_eq put_ink_def)

lemma put_ink_fields [simp]:
  "stroke_active (put_ink w k l) = stroke_active l" "stroke_anchor (put_ink w k l) = stroke_anchor l"
  by (simp_all add: put_ink_def)

lemma flight_active: "layer_ok l \<Longrightarrow> current_stroke l \<noteq> None \<Longrightarrow> stroke_active l"
  by (auto simp: layer_ok_def flight_ok_def flight_at_def)

lemma layer_ok_editor_step:
  assumes ok: "layer_ok l"
  shows "layer_ok (editor_region_step e x y w h win l)"
proof -
  let ?l1 = "snd (ensure_window_ink e win l)"
  have ok1: "layer_ok ?l1" by (rule layer_ok_ensure [OF ok])
  show ?thesis
  proof (cases "fst (ensure_window_ink e win l)")
    case None
    then show ?thesis using ok1
      by (cases "ensure_window_ink e win l") (simp add: editor_region_step_def)
  next
    case (Some k)
    then have pw: "per_window ?l1 win = Some k" using ensure_result [of e win l] by simp
    define k' where "k' = (let k1 = set_editor_region x y w h k
      in if has_editor_region k \<or> has_editor_region k1 then window_ink_rasterize k1 else k1)"
    have k': "wi_strokes k' = wi_strokes k" "ink_wf win k'"
      using layer_okD(4) [OF ok1] pw by (simp_all add: k'_def Let_def windows_ok_def)
    have step: "editor_region_step e x y w h win l =
        (let l2 = put_ink win k' ?l1
         in if stroke_active l2 \<and> stroke_anchor l2 = Some win then seal_stroke l2 else l2)"
      using Some
      by (cases "ensure_window_ink e win l") (simp add: editor_region_step_def k'_def Let_def)
    show ?thesis
    proof (cases "stroke_active ?l1 \<and> stroke_anchor ?l1 = Some win")
      case True
      have "layer_ok (put_ink win k' (seal_stroke ?l1))"
        by (rule layer_ok_put_ink [OF layer_ok_weaken(6) [OF ok1]]) (use pw k' in simp_all)
      with True show ?thesis by (simp add: step seal_put_ink)
    next
      case False
      have "layer_ok (put_ink win k' ?l1)"
        by (rule layer_ok_put_ink [OF ok1 pw k']) (use False flight_active [OF ok1] in auto)
      with False show ?thesis by (auto simp: step)
    qed
  qed
qed

lemma layer_ok_scroll_step:
  assumes ok: "layer_ok l"
  shows "layer_ok (scroll_step sx sy win l)"
proof (cases "per_window l win")
  case (Some k)
  let ?k = "window_ink_rasterize (k\<lparr>scroll_x := of_int sx, scroll_y := of_int sy\<rparr>)"
  have k': "wi_strokes ?k = wi_strokes k" "ink_wf win ?k"
    using layer_okD(4) [OF ok] Some by (simp_all add: windows_ok_def ink_wf_def)
  have "layer_ok (put_ink win ?k (seal_stroke l))"
    by (rule layer_ok_put_ink [OF layer_ok_weaken(6) [OF ok]]) (use Some k' in simp_all)
  moreover have "layer_ok (put_ink win ?k l)"
    if "\<not> (stroke_active l \<and> stroke_anchor l = Some win \<and> stroke_follow_scroll l)"
    by (rule layer_ok_put_ink [OF ok Some k']) (use that flight_active [OF ok] in auto)
  ultimately show ?thesis using Some ok by (simp add: scroll_step_def Let_def)
qed (simp add: scroll_step_def ok)

lemma layer_ok_fold: "(\<And>l w. layer_ok l \<Longrightarrow> layer_ok (f w l)) \<Longrightarrow> layer_ok l \<Longrightarrow> layer_ok (fold f ws l)"
  by (induction ws arbitrary: l) auto

lemma layer_ok_scroll_following:
  assumes "layer_ok l"
  shows "layer_ok (meta_annotation_layer_set_window_editor_region e pid x y w h l)"
    and "layer_ok (meta_annotation_layer_set_window_scroll e pid sx sy l)"
proof -
  have "layer_ok (fold (editor_region_step e x y w h) ws l)" "layer_ok (fold (scroll_step sx sy) ws l)"
    for ws by (intro layer_ok_fold layer_ok_editor_step layer_ok_scroll_step assms; assumption)+
  then show "layer_ok (meta_annotation_layer_set_window_editor_region e pid x y w h l)"
    "layer_ok (meta_annotation_layer_set_window_scroll e pid sx sy l)"
    using assms by (simp_all add: meta_annotation_layer_set_window_editor_region_def
        meta_annotation_layer_set_window_scroll_def Let_def)
qed

end
