(* ===== verification/Annot_Safety.thy ===== *)
theory Annot_Safety
  imports Annot_Preserve
begin

text \<open>
  The rest of the preservation proofs: strokes, tap gestures, the event entry, clear and undo,
  signals; the calls of the layer as one datatype, the reachable states, and the invariant of
  every reachable state.
\<close>

section \<open>Strokes\<close>

lemma chassis_follow_shift:
  assumes "chassis l' = chassis l"
  shows "follow_shift l' = follow_shift l"
proof -
  have "follow_shift (chassis k) = follow_shift k" for k
    by (cases "ink_at k (stroke_anchor k)")
       (auto simp: follow_shift_def ink_at_def chassis_def split: option.splits)
  then show ?thesis using assms by metis
qed

lemma put_surface_exact:
  "surface_at l a = Some c \<Longrightarrow> cs_width d = cs_width c \<Longrightarrow> cs_height d = cs_height c \<Longrightarrow>
   chassis (put_surface a (Some d) l) = chassis l"
  by (rule chassis_put_surface) auto

text \<open>Moving the pen while no stroke is in flight, or to the point where the stroke ends.\<close>

lemma layer_ok_move:
  assumes ok: "store_ok (strokes_at l) (next_stroke l)" "anchors_ok l" "windows_ok l" "misc_ok l"
    and un: "stroke_active l \<Longrightarrow> stroke_anchor l = None \<Longrightarrow> \<not> stroke_follow_scroll l"
    and t: "1 \<le> t"
    and fl: "flight_at l
      \<lparr>ip_x = x + fst (follow_shift l), ip_y = y + snd (follow_shift l),
       ip_pressure = p, ip_tilt_factor = t\<rparr>"
  shows "layer_ok (l\<lparr>stroke_last_x := x, stroke_last_y := y, last_pressure := p,
                      last_tilt_factor := t\<rparr>)"
    (is "layer_ok ?l")
proof -
  have S: "strokes_at ?l = strokes_at l" by (rule strokes_at_cong) simp_all
  have "follow_shift ?l = follow_shift l" by (rule follow_shift_cong) (simp_all add: ink_at_def cong: option.case_cong)
  then have "flight_at ?l (pen_point ?l)"
    using fl by (simp add: flight_at_def pen_point_def S)
  moreover have "anchors_ok ?l = anchors_ok l" by (rule anchors_ok_cong) simp_all
  moreover have "windows_ok ?l = windows_ok l" by (simp add: windows_ok_def)
  moreover have "misc_ok ?l" using ok(4) t by (auto simp: misc_ok_def)
  ultimately show ?thesis using ok S un by (simp add: layer_ok_def flight_ok_def)
qed

lemma continue_erase_ok:
  assumes ok: "layer_ok l"
  shows "layer_ok (continue_erase lx ly p t l)" "current_stroke (continue_erase lx ly p t l) = None"
proof -
  let ?a = "stroke_anchor l" and ?l' = "continue_erase lx ly p t l"
  have "layer_ok ?l' \<and> current_stroke ?l' = None"
  proof (cases "surface_at l ?a = None \<or> strokes_at l ?a = None")
    case True
    then have "?l' = l\<lparr>current_stroke := None\<rparr>"
      by (auto simp: continue_erase_def stroke_target_def Let_def split: option.splits)
    then show ?thesis using layer_ok_weaken(1) [OF ok] by simp
  next
    case False
    then obtain c ss where c: "surface_at l ?a = Some c" and ss: "strokes_at l ?a = Some ss" by auto
    define ss' where
      "ss' = snd (erase_strokes_hit_by_segment ss (stroke_last_x l) (stroke_last_y l) lx ly
        (eraser_radius p t) (ink_at l ?a))"
    define l2 where "l2 = put_strokes ?a ss' (l\<lparr>current_stroke := None\<rparr>)"
    have sub: "set ss' \<subseteq> set ss" "distinct (map stroke_id ss) \<Longrightarrow> distinct (map stroke_id ss')"
      by (auto simp: ss'_def erase_strokes_filter distinct_map_filter)
    have S: "strokes_at l2 = (strokes_at l)(?a \<mapsto> ss')"
      using ss by (simp add: l2_def strokes.get_put)
    have "store_ok (strokes_at l2) (next_stroke l)"
      unfolding S by (rule store_ok_sub [OF layer_okD(1) [OF ok] substore_upd [where S = "strokes_at l" and a = ?a, OF ss sub]])
    then have ok2: "layer_ok l2"
      by (intro layer_ok_chassis [OF ok]) (simp_all add: l2_def)
    have c2: "surface_at l2 ?a = Some c" using c
      by (simp add: l2_def surface_at_def cong: option.case_cong)
    define l3 where "l3 = put_surface ?a (rasterize_all_strokes_with_ink (Some c) ss' (ink_at l2 ?a)) l2"
    have ch: "chassis l3 = chassis l2"
      unfolding l3_def rasterize_all_strokes_with_ink_def
      using c2 by (simp add: put_surface_exact)
    have ok3: "layer_ok l3"
      by (rule layer_ok_chassis [OF ok2 ch]) (use layer_okD(1) [OF ok2] in \<open>simp_all add: l3_def l2_def\<close>)
    have "?l' = l2 \<or> ?l' = l3"
      using c ss by (simp add: continue_erase_def stroke_target_def Let_def l2_def l3_def ss'_def
          split: prod.splits)
    moreover have "current_stroke l2 = None" "current_stroke l3 = None"
      by (simp_all add: l2_def l3_def)
    ultimately show ?thesis using ok2 ok3 by auto
  qed
  then show "layer_ok ?l'" "current_stroke ?l' = None" by simp_all
qed

lemma continue_ink_fold:
  "continue_ink lx ly p t l =
     (let a = stroke_anchor l
      in case stroke_target l of
           (Some target, Some strokes) \<Rightarrow>
             (let l1 = put_surface a
                    (Some (paint_on (plain_cmds
                       (draw_segment_on_cr (pen_rgba l) (stroke_last_x l) (stroke_last_y l) lx ly
                          (last_pressure l) p (last_tilt_factor l) t False)) target)) l;
                  l2 = (if current_stroke l = None
                        then append_ink_point (pen_point l) (stroke_follow_scroll l) l1 else l1)
              in append_ink_point
                   \<lparr>ip_x = lx + fst (follow_shift l), ip_y = ly + snd (follow_shift l),
                    ip_pressure = p, ip_tilt_factor = t\<rparr>
                   (stroke_follow_scroll l) l2)
         | _ \<Rightarrow> l)"
  by (auto simp: continue_ink_def Let_def pen_point_def follow_shift_def split: option.splits prod.splits)

lemma continue_ink_ok:
  assumes ok: "layer_ok l" and act: "stroke_active l" and surf: "surface l \<noteq> None" and t: "1 \<le> t"
    and q_def: "q = \<lparr>ip_x = lx + fst (follow_shift l), ip_y = ly + snd (follow_shift l),
                ip_pressure = p, ip_tilt_factor = t\<rparr>"
  shows "store_ok (strokes_at (continue_ink lx ly p t l)) (next_stroke (continue_ink lx ly p t l))"
    and "flight_at (continue_ink lx ly p t l) q"
    and "chassis (continue_ink lx ly p t l) = chassis l"
proof -
  let ?a = "stroke_anchor l" and ?f = "stroke_follow_scroll l"
  note D = layer_okD [OF ok]
  have tgt: "surface_at l ?a \<noteq> None" "strokes_at l ?a \<noteq> None"
    using D(3,5) surf
    by (auto simp: anchors_ok_def has_ink_def misc_ok_def surface_at_def strokes_at_def split: option.splits)
  then obtain c ss where c: "surface_at l ?a = Some c" and ss: "strokes_at l ?a = Some ss" by auto
  define l1 where "l1 = put_surface ?a
    (Some (paint_on (plain_cmds
       (draw_segment_on_cr (pen_rgba l) (stroke_last_x l) (stroke_last_y l) lx ly
          (last_pressure l) p (last_tilt_factor l) t False)) c)) l"
  define l2 where "l2 = (if current_stroke l = None then append_ink_point (pen_point l) ?f l1 else l1)"
  have eq: "continue_ink lx ly p t l = append_ink_point q ?f l2"
    using c ss by (simp add: continue_ink_fold stroke_target_def Let_def l1_def l2_def q_def)
  have ch1: "chassis l1 = chassis l" unfolding l1_def by (rule put_surface_exact [OF c]) (simp_all add: paint_on_def)
  have ch2: "chassis l2 = chassis l" by (simp add: l2_def ch1)
  note same1 = chassisD [OF ch1] and same2 = chassisD [OF ch2]
  have S1: "strokes_at l1 = strokes_at l" "next_stroke l1 = next_stroke l" "current_stroke l1 = current_stroke l"
    by (simp_all add: l1_def)
  have fl1: "flight_at l1 (pen_point l)"
    using D(2) S1 same1 by (simp add: flight_ok_def flight_at_def)
  have un: "?a = None \<Longrightarrow> \<not> ?f" using D(2) act by (simp add: flight_ok_def)
  have st2: "store_ok (strokes_at l2) (next_stroke l2) \<and> flight_at l2 (pen_point l)"
  proof (cases "current_stroke l = None")
    case True
    have "0 \<le> ip_tilt_factor (pen_point l)" using D(5) by (simp add: pen_point_def misc_ok_def)
    moreover have "store_ok (strokes_at l1) (next_stroke l1)" using D(1) S1 by simp
    moreover have "strokes_at l1 (stroke_anchor l1) \<noteq> None" using tgt(2) S1(1) same1(6) by simp
    moreover have "stroke_active l1" "stroke_anchor l1 = None \<Longrightarrow> \<not> stroke_follow_scroll l1"
      "?f = stroke_follow_scroll l1" using act un same1(5-7) by simp_all
    ultimately show ?thesis
      using append_ink_point_ok(1,2) [OF _ fl1] True unfolding l2_def by simp
  qed (use D(1) S1 fl1 in \<open>auto simp: l2_def\<close>)
  have t2: "strokes_at l2 (stroke_anchor l2) \<noteq> None"
  proof (cases "current_stroke l = None")
    case True
    then show ?thesis
      using append_new(1) [OF _ _ _ refl, of l1 ss "pen_point l" ?f] D(1) S1 ss same1(6) same2(6)
      by (simp add: l2_def)
  qed (use S1 tgt(2) same2(6) in \<open>auto simp: l2_def\<close>)
  have q: "0 \<le> ip_tilt_factor q" using t by (simp add: q_def)
  show "store_ok (strokes_at (continue_ink lx ly p t l)) (next_stroke (continue_ink lx ly p t l))"
    "flight_at (continue_ink lx ly p t l) q"
    unfolding eq
    by (rule append_ink_point_ok [of l2 "pen_point l"]; use st2 t2 same2(5-7) act un q in simp)+
  show "chassis (continue_ink lx ly p t l) = chassis l" unfolding eq by (simp add: ch2)
qed

lemma continue_stroke_ok:
  assumes ok: "layer_ok l" and act: "stroke_active l" and surf: "surface l \<noteq> None"
    and t: "\<And>f. tilt = Some f \<Longrightarrow> 1 \<le> f"
  shows "layer_ok (continue_stroke e x y pr tilt er l)"
proof -
  obtain lx ly where loc: "convert_stage_to_local e l x y = (lx, ly)" by (metis surj_pair)
  define p' where "p' = (case pr of Some p \<Rightarrow> p | None \<Rightarrow> last_pressure l)"
  define t' where "t' = (case tilt of Some t \<Rightarrow> t | None \<Rightarrow> last_tilt_factor l)"
  have t1: "1 \<le> t'" using t layer_okD(5) [OF ok] by (auto simp: t'_def misc_ok_def split: option.splits)
  let ?l1 = "if er then continue_erase lx ly p' t' l else continue_ink lx ly p' t' l"
  have un: "stroke_active l \<Longrightarrow> stroke_anchor l = None \<Longrightarrow> \<not> stroke_follow_scroll l"
    using layer_okD(2) [OF ok] by (simp add: flight_ok_def)
  have "layer_ok (?l1\<lparr>stroke_last_x := lx, stroke_last_y := ly, last_pressure := p',
      last_tilt_factor := t'\<rparr>)"
  proof (cases er)
    case True
    note E = continue_erase_ok [OF ok, of lx ly p' t']
    show ?thesis using True E(2) t1 layer_okD [OF E(1)]
      by (simp add: layer_ok_move flight_ok_def)
  next
    case False
    note C = continue_ink_ok [OF ok act surf t1 refl, of lx ly p']
    note same = chassisD [OF C(3)]
    have "follow_shift (continue_ink lx ly p' t' l) = follow_shift l"
      by (rule chassis_follow_shift [OF C(3)])
    then have "layer_ok ((continue_ink lx ly p' t' l)\<lparr>stroke_last_x := lx, stroke_last_y := ly,
        last_pressure := p', last_tilt_factor := t'\<rparr>)"
      by (intro layer_ok_move) (use C(1,2) t1 un layer_okD [OF ok] same in simp_all)
    then show ?thesis using False by simp
  qed
  moreover have "continue_stroke e x y pr tilt er l = schedule_recompose (?l1\<lparr>stroke_last_x := lx,
      stroke_last_y := ly, last_pressure := p', last_tilt_factor := t'\<rparr>)"
    unfolding continue_stroke_def loc Let_def prod.case p'_def t'_def ..
  ultimately show ?thesis by simp
qed

text \<open>A press starts over with a new anchor and no stroke in flight.\<close>

definition restart ::
  "window option \<Rightarrow> bool \<Rightarrow> real \<Rightarrow> real \<Rightarrow> real \<Rightarrow> real \<Rightarrow> annotation_layer \<Rightarrow> annotation_layer" where
  "restart a f x y p t l =
     l\<lparr>stroke_anchor := a, current_stroke := None, stroke_follow_scroll := f,
       stroke_last_x := x, stroke_last_y := y, stroke_active := True,
       last_pressure := p, last_tilt_factor := t\<rparr>"

lemma layer_ok_restart:
  assumes ok: "layer_ok l" and a: "has_ink l a" and t: "1 \<le> t" and f: "f \<Longrightarrow> a \<noteq> None"
  shows "layer_ok (restart a f x y p t l)"
proof -
  let ?l = "restart a f x y p t l"
  note D = layer_okD [OF ok]
  have "strokes_at ?l = strokes_at l" by (rule strokes_at_cong) (simp_all add: restart_def)
  moreover have "anchors_ok ?l" using D(3) a by (simp add: anchors_ok_def has_ink_def restart_def)
  moreover have "windows_ok ?l" using D(4) by (simp add: windows_ok_def restart_def)
  moreover have "misc_ok ?l" using D(5) t by (auto simp: misc_ok_def restart_def)
  ultimately show ?thesis
    using D(1) f by (auto simp: layer_ok_def flight_ok_def restart_def)
qed

lemma layer_ok_last_ink:
  assumes ok: "layer_ok l" and a: "has_ink l a"
  shows "layer_ok (set_last_ink_anchor a True l)"
proof -
  let ?l = "set_last_ink_anchor a True l"
  note D = layer_okD [OF ok]
  have S: "strokes_at ?l = strokes_at l"
    by (rule strokes_at_cong) (simp_all add: set_last_ink_anchor_eq)
  have "pen_point ?l = pen_point l"
    by (rule pen_point_cong) (simp_all add: set_last_ink_anchor_eq)
  moreover have "flight_at ?l q = flight_at l q" for q
    by (rule flight_at_cong [OF S]) (simp_all add: set_last_ink_anchor_eq)
  moreover have "anchors_ok ?l"
    using D(3) a by (simp add: anchors_ok_def has_ink_def set_last_ink_anchor_eq)
  moreover have "windows_ok ?l = windows_ok l" "misc_ok ?l = misc_ok l"
    by (simp_all add: windows_ok_def misc_ok_def set_last_ink_anchor_eq)
  ultimately show ?thesis
    using D S by (simp add: layer_ok_def flight_ok_def) (simp add: set_last_ink_anchor_eq)
qed

text \<open>The layer with the anchor's ink allocated.\<close>

definition with_ink :: "'r display_env \<Rightarrow> window option \<Rightarrow> annotation_layer \<Rightarrow> annotation_layer" where
  "with_ink e a l = (case a of None \<Rightarrow> l | Some w \<Rightarrow> snd (ensure_window_ink e w l))"

definition begin_anchor :: "'r display_env \<Rightarrow> real \<Rightarrow> real \<Rightarrow> annotation_layer \<Rightarrow> window option" where
  "begin_anchor e x y l = (if layer_display l then pick_anchor_window e x y else None)"

definition local_of :: "'r display_env \<Rightarrow> window option \<Rightarrow> real \<Rightarrow> real \<Rightarrow> real \<times> real" where
  "local_of e a x y =
     (case a of
        Some w \<Rightarrow> (x - of_int (rect_x (frame_rect (win_of e w))),
                   y - of_int (rect_y (frame_rect (win_of e w))))
      | None \<Rightarrow> (x, y))"

definition begin_follows ::
  "'r display_env \<Rightarrow> real \<Rightarrow> real \<Rightarrow> bool \<Rightarrow> annotation_layer \<Rightarrow> bool" where
  "begin_follows e x y erase l =
     (let a = begin_anchor e x y l; (lx, ly) = local_of e a x y
      in case ink_at (with_ink e a l) a of
           None \<Rightarrow> False
         | Some k \<Rightarrow> \<not> erase \<and> has_region (Some k) \<and> eraser_in_editor k lx ly)"

definition begin_restarted ::
  "'r display_env \<Rightarrow> real \<Rightarrow> real \<Rightarrow> real option \<Rightarrow> real option \<Rightarrow> bool \<Rightarrow>
   annotation_layer \<Rightarrow> annotation_layer" where
  "begin_restarted e x y pr tilt erase l =
     (let a = begin_anchor e x y l; (lx, ly) = local_of e a x y
      in restart a (begin_follows e x y erase l) lx ly
           (case pr of Some p \<Rightarrow> if p > 0 then p else 1 | None \<Rightarrow> 1)
           (case tilt of Some t \<Rightarrow> t | None \<Rightarrow> 1) (with_ink e a l))"

lemma ensure_commute:
  "snd (ensure_window_ink e w (l\<lparr>stroke_anchor := a, current_stroke := c, stroke_follow_scroll := f\<rparr>)) =
   (snd (ensure_window_ink e w l))\<lparr>stroke_anchor := a, current_stroke := c, stroke_follow_scroll := f\<rparr>"
  by (simp add: ensure_window_ink_def Let_def put_ink_def split: option.splits)

lemma begin_point:
  "ink_at l (stroke_anchor l) = ink \<Longrightarrow>
   (let (px, py) = (case ink of
        Some k \<Rightarrow> if stroke_follow_scroll l
                 then (stroke_last_x l - editor_x k + scroll_x k,
                       stroke_last_y l - editor_y k + scroll_y k)
                 else (stroke_last_x l, stroke_last_y l)
      | None \<Rightarrow> (stroke_last_x l, stroke_last_y l))
    in append_ink_point \<lparr>ip_x = px, ip_y = py, ip_pressure = last_pressure l,
          ip_tilt_factor = last_tilt_factor l\<rparr> f l) =
   append_ink_point (pen_point l) f l"
  by (cases ink) (simp_all add: pen_point_def follow_shift_def algebra_simps)

lemma begin_stroke_eq:
  "begin_stroke e x y pr tilt erase l =
     (let l4 = begin_restarted e x y pr tilt erase l; a = begin_anchor e x y l
      in if erase then l4
         else
           (let l5 = set_last_ink_anchor a True l4
            in case strokes_at l5 a of
                 None \<Rightarrow> l5
               | Some ss \<Rightarrow> append_ink_point (pen_point l5) (stroke_follow_scroll l5) l5))"
proof -
  let ?a = "begin_anchor e x y l"
  obtain lx ly where loc: "local_of e ?a x y = (lx, ly)" by (metis surj_pair)
  define lE where "lE = with_ink e ?a l"
  define f where "f = begin_follows e x y erase l"
  define p where "p = (case pr of Some p \<Rightarrow> if p > 0 then p else 1 | None \<Rightarrow> 1)"
  define t where "t = (case tilt of Some t \<Rightarrow> t | None \<Rightarrow> 1)"
  have f: "f = (case ink_at lE ?a of None \<Rightarrow> False
      | Some k \<Rightarrow> \<not> erase \<and> has_region (ink_at lE ?a) \<and> eraser_in_editor k lx ly)"
    by (cases "ink_at lE ?a") (simp_all add: f_def begin_follows_def lE_def loc Let_def)
  let ?l1 = "(set_stroke_anchor ?a l)\<lparr>current_stroke := None, stroke_follow_scroll := False\<rparr>"
  have l2: "(case ?a of None \<Rightarrow> ?l1 | Some w \<Rightarrow> snd (ensure_window_ink e w ?l1)) =
      lE\<lparr>stroke_anchor := ?a, current_stroke := None, stroke_follow_scroll := False\<rparr>"
    by (cases ?a) (simp_all add: lE_def with_ink_def set_stroke_anchor_eq ensure_commute)
  have conv: "convert_stage_to_local e
      (lE\<lparr>stroke_anchor := ?a, current_stroke := None, stroke_follow_scroll := False\<rparr>) x y = (lx, ly)"
    using loc by (simp add: convert_stage_to_local_def local_of_def Let_def cong: option.case_cong)
  have R: "begin_restarted e x y pr tilt erase l = restart ?a f lx ly p t lE"
    by (simp add: begin_restarted_def loc f_def p_def t_def lE_def Let_def)
  let ?l3 = "lE\<lparr>stroke_anchor := ?a, current_stroke := None, stroke_follow_scroll := False,
    stroke_last_x := lx, stroke_last_y := ly, stroke_active := True, last_pressure := p,
    last_tilt_factor := t\<rparr>"
  have l4: "(if f then ?l3\<lparr>stroke_follow_scroll := True\<rparr> else ?l3) = restart ?a f lx ly p t lE"
    by (simp add: restart_def)
  have ink3: "ink_at ?l3 ?a = ink_at lE ?a" by (simp add: ink_at_def cong: option.case_cong)
  let ?l5 = "set_last_ink_anchor ?a True (restart ?a f lx ly p t lE)"
  have ink5: "ink_at ?l5 ?a = ink_at lE ?a" "stroke_anchor ?l5 = ?a"
    "stroke_follow_scroll ?l5 = f" "stroke_last_x ?l5 = lx" "stroke_last_y ?l5 = ly"
    by (simp_all add: ink_at_def restart_def set_last_ink_anchor_eq cong: option.case_cong)
  have pt: "(let (px, py) = (case ink_at lE ?a of
        Some k \<Rightarrow> if stroke_follow_scroll ?l5
                 then (stroke_last_x ?l5 - editor_x k + scroll_x k,
                       stroke_last_y ?l5 - editor_y k + scroll_y k)
                 else (stroke_last_x ?l5, stroke_last_y ?l5)
      | None \<Rightarrow> (stroke_last_x ?l5, stroke_last_y ?l5))
    in append_ink_point \<lparr>ip_x = px, ip_y = py, ip_pressure = last_pressure ?l5,
          ip_tilt_factor = last_tilt_factor ?l5\<rparr> (stroke_follow_scroll ?l5) ?l5) =
      append_ink_point (pen_point ?l5) (stroke_follow_scroll ?l5) ?l5"
    by (rule begin_point) (simp add: ink5)
  show ?thesis
    unfolding begin_stroke_def begin_anchor_def [symmetric] Let_def l2 conv prod.case
      p_def [symmetric] t_def [symmetric] ink3 f [symmetric] l4 R stroke_target_def snd_conv
      ink5(2) pt [unfolded Let_def] ..
qed

lemma layer_ok_with_ink:
  assumes "layer_ok l"
  shows "layer_ok (with_ink e a l)"
  using assms by (auto simp: with_ink_def layer_ok_ensure split: option.splits)

lemma begin_anchor_has_ink: "has_ink (with_ink e (begin_anchor e x y l) l) (begin_anchor e x y l)"
proof (cases "begin_anchor e x y l")
  case (Some w)
  then have "pick_anchor_window e x y = Some w" by (auto simp: begin_anchor_def split: if_splits)
  then have "has_ink (snd (ensure_window_ink e w l)) (Some w)"
    using pick_anchor_frame by (intro ensure_has_ink(2)) auto
  then show ?thesis by (simp add: Some with_ink_def)
qed simp

lemma begin_restarted_ok:
  assumes ok: "layer_ok l" and t: "\<And>f. tilt = Some f \<Longrightarrow> 1 \<le> f"
  shows "layer_ok (begin_restarted e x y pr tilt er l)"
    and "has_ink (begin_restarted e x y pr tilt er l) (begin_anchor e x y l)"
    and "current_stroke (begin_restarted e x y pr tilt er l) = None"
    and "stroke_active (begin_restarted e x y pr tilt er l)"
    and "stroke_anchor (begin_restarted e x y pr tilt er l) = begin_anchor e x y l"
    and "surface (begin_restarted e x y pr tilt er l) = surface l"
proof -
  let ?a = "begin_anchor e x y l" and ?lE = "with_ink e (begin_anchor e x y l) l"
  obtain lx ly where loc: "local_of e ?a x y = (lx, ly)" by (metis surj_pair)
  have eq: "begin_restarted e x y pr tilt er l = restart ?a (begin_follows e x y er l) lx ly
      (case pr of Some p \<Rightarrow> if p > 0 then p else 1 | None \<Rightarrow> 1)
      (case tilt of Some t \<Rightarrow> t | None \<Rightarrow> 1) ?lE"
    by (simp add: begin_restarted_def loc Let_def)
  have f: "begin_follows e x y er l \<Longrightarrow> ?a \<noteq> None"
    by (auto simp: begin_follows_def ink_at_def Let_def split: option.splits prod.splits)
  show "layer_ok (begin_restarted e x y pr tilt er l)" unfolding eq
    by (rule layer_ok_restart [OF layer_ok_with_ink [OF ok] begin_anchor_has_ink])
       (use t f in \<open>auto split: option.splits\<close>)
  show "has_ink (begin_restarted e x y pr tilt er l) ?a"
    using begin_anchor_has_ink [of e x y l] unfolding eq by (simp add: has_ink_def restart_def)
  have "surface ?lE = surface l"
    by (simp add: with_ink_def ensure_window_ink_def Let_def put_ink_def split: option.splits)
  then show "surface (begin_restarted e x y pr tilt er l) = surface l"
    "current_stroke (begin_restarted e x y pr tilt er l) = None"
    "stroke_active (begin_restarted e x y pr tilt er l)"
    "stroke_anchor (begin_restarted e x y pr tilt er l) = ?a"
    by (simp_all add: eq restart_def)
qed

lemma last_ink_keeps [simp]:
  "per_window (set_last_ink_anchor a b l) = per_window l"
  "current_stroke (set_last_ink_anchor a b l) = current_stroke l"
  "stroke_active (set_last_ink_anchor a b l) = stroke_active l"
  "stroke_anchor (set_last_ink_anchor a b l) = stroke_anchor l"
  "stroke_follow_scroll (set_last_ink_anchor a b l) = stroke_follow_scroll l"
  "surface (set_last_ink_anchor a b l) = surface l"
  "last_tilt_factor (set_last_ink_anchor a b l) = last_tilt_factor l"
  by (simp_all add: set_last_ink_anchor_eq)

lemma begin_stroke_ok:
  assumes ok: "layer_ok l" and t: "\<And>f. tilt = Some f \<Longrightarrow> 1 \<le> f"
  shows "layer_ok (begin_stroke e x y pr tilt er l)"
    and "stroke_anchor (begin_stroke e x y pr tilt er l) = begin_anchor e x y l"
    and "stroke_active (begin_stroke e x y pr tilt er l)"
    and "\<not> er \<Longrightarrow> current_stroke (begin_stroke e x y pr tilt er l) \<noteq> None"
proof -
  let ?a = "begin_anchor e x y l"
  define l4 where "l4 = begin_restarted e x y pr tilt er l"
  note B = begin_restarted_ok [OF ok t, where e = e and x = x and y = y and pr = pr and er = er
        and tilt = tilt,
      folded l4_def]
  define l5 where "l5 = set_last_ink_anchor ?a True l4"
  have ok5: "layer_ok l5" unfolding l5_def
    using layer_ok_last_ink [of l4 ?a] B(1,2) l4_def by blast
  have f5: "stroke_anchor l5 = ?a" "stroke_active l5" "current_stroke l5 = None"
    using B by (simp_all add: l5_def)
  have tgt: "strokes_at l5 ?a \<noteq> None"
    using B(2) by (cases ?a) (auto simp: strokes_at_def has_ink_def l5_def)
  have eq: "begin_stroke e x y pr tilt er l =
      (if er then l4 else append_ink_point (pen_point l5) (stroke_follow_scroll l5) l5)"
    using tgt by (auto simp: begin_stroke_eq Let_def l4_def l5_def)
  note D = layer_okD [OF ok5]
  note C = chassisD [OF chassis_append [of "pen_point l5" "stroke_follow_scroll l5" l5]]
  have pt: "0 \<le> ip_tilt_factor (pen_point l5)" using D(5) by (simp add: pen_point_def misc_ok_def)
  note A = append_ink_point_ok [OF D(1) flight_at_none [OF f5(3)] _ f5(2) _ pt refl]
  have fl: "stroke_anchor l5 = None \<Longrightarrow> \<not> stroke_follow_scroll l5"
    using D(2) f5(2) by (simp add: flight_ok_def)
  have "layer_ok (append_ink_point (pen_point l5) (stroke_follow_scroll l5) l5)"
    by (rule layer_ok_chassis [OF ok5 chassis_append]) (use A tgt f5(1) fl in auto)
  then show "layer_ok (begin_stroke e x y pr tilt er l)" using B(1) by (simp add: eq)
  show "stroke_anchor (begin_stroke e x y pr tilt er l) = ?a"
    "stroke_active (begin_stroke e x y pr tilt er l)"
    using B(4,5) C(5,6) f5 by (simp_all add: eq)
  show "\<not> er \<Longrightarrow> current_stroke (begin_stroke e x y pr tilt er l) \<noteq> None"
    unfolding eq using A(3) tgt f5(1) fl by simp
qed

lemma end_stroke_ok: "layer_ok l \<Longrightarrow> layer_ok (end_stroke l)"
  by (simp add: end_stroke_def layer_ok_weaken)

end
