(* ===== verification/Annot_Reach.thy ===== *)
theory Annot_Reach
  imports Annot_Safety
begin

text \<open>
  Clearing, undo, tap gestures, the event entry and the signals preserve \<open>layer_ok\<close>; the
  calls of the layer as one datatype, the reachable states, and the contract by which an
  invariant of all calls is one of every reachable state.
\<close>

section \<open>Clearing\<close>

text \<open>An operation that drops strokes and the stroke in flight.\<close>

lemma layer_ok_dropped:
  assumes ok: "layer_ok l" and S: "substore (strokes_at l') (strokes_at l)"
    and n: "next_stroke l' = next_stroke l" and ch: "chassis l' = chassis l"
    and c: "current_stroke l' = None"
  shows "layer_ok l'"
  by (rule layer_ok_chassis [OF ok ch])
     (use store_ok_sub [OF layer_okD(1) [OF ok] S] n c in simp_all)

definition clear_buffers :: "annotation_layer \<Rightarrow> annotation_layer" where
  "clear_buffers l =
     l\<lparr>unattached_surface := surface_clear (unattached_surface l), unattached_strokes := [],
       per_window := (\<lambda>w. map_option
         (\<lambda>k. k\<lparr>wi_surface := (wi_surface k)\<lparr>cs_cmds := []\<rparr>, wi_strokes := []\<rparr>) (per_window l w)),
       current_stroke := None\<rparr>"

lemma bare_ink_cleared [simp]:
  "bare_ink (k\<lparr>wi_surface := (wi_surface k)\<lparr>cs_cmds := []\<rparr>, wi_strokes := []\<rparr>) = bare_ink k"
  "bare_ink (k\<lparr>wi_surface := (wi_surface k)\<lparr>cs_cmds := []\<rparr>\<rparr>) = bare_ink k"
  by (simp_all add: bare_ink_def)

lemma surface_clear_twice [simp]: "surface_clear (surface_clear s) = surface_clear s"
  by (cases s) (simp_all add: surface_clear_def)

lemma layer_ok_clear_buffers:
  assumes "layer_ok l"
  shows "layer_ok (clear_buffers l)"
proof (rule layer_ok_dropped [OF assms])
  show "substore (strokes_at (clear_buffers l)) (strokes_at l)"
    by (auto simp: substore_def strokes_at_def clear_buffers_def split: option.splits)
  show "chassis (clear_buffers l) = chassis l"
    by (rule annotation_layer.equality)
       (simp_all add: chassis_def clear_buffers_def option.map_comp o_def)
qed (simp_all add: clear_buffers_def)

text \<open>The composite is emptied, then composed again.\<close>

lemma clear_eq:
  "meta_annotation_layer_clear e l =
     recompose e ((set_last_ink_anchor None False (drop_stroke
       ((clear_buffers l)\<lparr>surface := map_option (\<lambda>c. c\<lparr>comp_ops := []\<rparr>) (surface l)\<rparr>)))
         \<lparr>recompose_idle := False\<rparr>)"
  unfolding meta_annotation_layer_clear_def Let_def
  by (rule arg_cong [where f = "recompose e"], rule annotation_layer.equality)
     (simp_all add: clear_buffers_def drop_stroke_def
      set_stroke_anchor_eq strokes_clear_def set_last_ink_anchor_eq)

lemma layer_ok_clear:
  assumes ok: "layer_ok l"
  shows "layer_ok (meta_annotation_layer_clear e l)"
proof -
  have ok1: "layer_ok (clear_buffers l)" by (rule layer_ok_clear_buffers [OF ok])
  have s: "surface (clear_buffers l) = surface l" by (simp add: clear_buffers_def)
  have "layer_ok ((clear_buffers l)\<lparr>surface := map_option (\<lambda>c. c\<lparr>comp_ops := []\<rparr>) (surface l)\<rparr>)"
  proof (cases "surface l")
    case None
    with s have "(clear_buffers l)\<lparr>surface := None\<rparr> = clear_buffers l"
      by (intro annotation_layer.equality) simp_all
    with None ok1 show ?thesis by simp
  next
    case (Some c)
    with layer_ok_surface(1) [OF ok1] s show ?thesis by simp
  qed
  then show ?thesis unfolding clear_eq by (intro layer_ok_recompose layer_ok_weaken)
qed

lemma layer_ok_clear_anchor:
  assumes ok: "layer_ok l"
  shows "layer_ok (clear_ink_for_anchor a l)"
proof -
  define l1 where "l1 = (case a of
      None \<Rightarrow> l\<lparr>unattached_surface := surface_clear (unattached_surface l), unattached_strokes := []\<rparr>
    | Some w \<Rightarrow> (case per_window l w of None \<Rightarrow> l
        | Some k \<Rightarrow> put_ink w (k\<lparr>wi_surface := (wi_surface k)\<lparr>cs_cmds := []\<rparr>, wi_strokes := []\<rparr>) l))"
  define l2 where "l2 = (if stroke_anchor l1 = a then drop_stroke l1 else l1)"
  define l3 where "l3 = (if last_ink_anchor l2 = a \<or> (a = None \<and> last_ink_present l2 \<and>
    last_ink_anchor l2 = None) then set_last_ink_anchor None False l2 else l2)"
  have eq: "clear_ink_for_anchor a l = schedule_recompose l3"
    unfolding clear_ink_for_anchor_def Let_def strokes_clear_def l1_def l2_def l3_def ..
  have ch: "chassis l1 = chassis l"
    by (auto simp: l1_def chassis_def put_ink_def fun_eq_iff split: option.splits)
  have S1: "substore (strokes_at l1) (strokes_at l)"
    by (auto simp: l1_def substore_def strokes_at_def put_ink_def split: option.splits if_splits)
  have other: "strokes_at l1 b = strokes_at l b" if "b \<noteq> a" for b
    using that by (cases a; cases b) (auto simp: l1_def strokes_at_def put_ink_def split: option.splits)
  have f1: "next_stroke l1 = next_stroke l" "current_stroke l1 = current_stroke l"
    by (auto simp: l1_def put_ink_def split: option.splits)
  note D = layer_okD [OF ok] and C = chassisD [OF ch]
  have st: "store_ok (strokes_at l1) (next_stroke l1)" using store_ok_sub [OF D(1) S1] f1 by simp
  have ok2: "layer_ok l2"
  proof (cases "stroke_anchor l1 = a")
    case True
    have S2: "strokes_at (drop_stroke l1) = strokes_at l1"
      by (rule strokes_at_cong) (simp_all add: drop_stroke_def set_stroke_anchor_eq)
    have "layer_ok (l1\<lparr>current_stroke := None\<rparr>)"
      by (rule layer_ok_chassis [OF ok]) (use ch st in simp_all)
    then have "layer_ok (drop_stroke (l1\<lparr>current_stroke := None\<rparr>))" by (rule layer_ok_weaken)
    moreover have "drop_stroke (l1\<lparr>current_stroke := None\<rparr>) = drop_stroke l1"
      by (simp add: drop_stroke_def set_stroke_anchor_eq)
    ultimately show ?thesis using True by (simp add: l2_def)
  next
    case False
    have "flight_at l1 (pen_point l)"
      using D(2) other [OF False] C f1 by (simp add: flight_ok_def flight_at_def)
    then have "layer_ok l1" by (rule layer_ok_chassis [OF ok ch st])
    then show ?thesis using False by (simp add: l2_def)
  qed
  then have "layer_ok l3" by (simp add: l3_def layer_ok_weaken)
  then show ?thesis by (simp add: eq)
qed

section \<open>Undo\<close>

lemma layer_ok_undo:
  assumes ok: "layer_ok l"
  shows "layer_ok (meta_annotation_layer_undo_last l)"
proof (cases "last_ink_present l")
  case True
  let ?a = "last_ink_anchor l"
  note D = layer_okD [OF ok]
  show ?thesis
  proof (cases "strokes_at l ?a = None \<or> strokes_at l ?a = Some []")
    case True
    with \<open>last_ink_present l\<close> show ?thesis
      by (auto simp: meta_annotation_layer_undo_last_def Let_def intro!: layer_ok_schedule
          layer_ok_weaken ok)
  next
    case False
    then obtain ss where ss: "strokes_at l ?a = Some ss" "ss \<noteq> []" by auto
    define l1 where "l1 = (if stroke_active l \<and> stroke_anchor l = ?a then seal_stroke l else l)"
    define l2 where "l2 = put_strokes ?a (butlast ss) l1"
    define l3 where "l3 = put_surface ?a (rasterize_all_strokes_with_ink (surface_at l2 ?a)
      (butlast ss) (ink_at l2 ?a)) l2"
    have eq: "meta_annotation_layer_undo_last l =
        schedule_recompose (if butlast ss = [] then set_last_ink_anchor None False l3 else l3)"
      using \<open>last_ink_present l\<close> ss
      by (simp add: meta_annotation_layer_undo_last_def Let_def remove_index_last [simplified] l1_def l2_def
          l3_def rasterize_all_strokes_def split: option.splits)
    have ok1: "layer_ok l1" using ok by (simp add: l1_def layer_ok_weaken)
    have S1: "strokes_at l1 = strokes_at l" by (simp add: l1_def)
    have n1: "next_stroke l1 = next_stroke l"
      by (simp add: l1_def seal_stroke_def set_stroke_anchor_eq)
    have S2: "strokes_at l2 = (strokes_at l)(?a \<mapsto> butlast ss)"
      using ss by (simp add: l2_def strokes.get_put S1)
    have st2: "store_ok (strokes_at l2) (next_stroke l)"
      unfolding S2 by (rule store_ok_sub [OF D(1) substore_butlast [where S = "strokes_at l", OF ss(1)]])
    have "flight_at l2 (pen_point l1)"
    proof (cases "current_stroke l1")
      case None
      then show ?thesis by (simp add: l2_def)
    next
      case (Some i)
      then have "stroke_active l1" using flight_active [OF ok1] by simp
      then have "stroke_anchor l1 \<noteq> ?a"
        using Some by (auto simp: l1_def split: if_splits)
      then have "strokes_at l2 (stroke_anchor l1) = strokes_at l1 (stroke_anchor l1)"
        by (simp add: S2 S1)
      then show ?thesis using layer_okD(2) [OF ok1] chassisD(5-7) [of l2 l1]
        by (simp add: flight_ok_def flight_at_def l2_def)
    qed
    then have ok2: "layer_ok l2"
      by (intro layer_ok_chassis [OF ok1]) (use st2 n1 in \<open>simp_all add: l2_def\<close>)
    have ch: "chassis l3 = chassis l2"
      unfolding l3_def by (rule chassis_put_surface) (simp_all add: rasterize_all_strokes_with_ink_def)
    have "flight_at l3 (pen_point l2)"
      using layer_okD(2) [OF ok2] chassisD(5-7) [OF ch]
      by (simp add: flight_ok_def flight_at_def l3_def)
    then have "layer_ok l3"
      by (intro layer_ok_chassis [OF ok2 ch]) (use layer_okD(1) [OF ok2] in \<open>simp_all add: l3_def\<close>)
    then show ?thesis by (simp add: eq layer_ok_weaken)
  qed
qed (simp add: meta_annotation_layer_undo_last_def ok)

section \<open>Taps\<close>

lemma recompose_tap_history:
  "recompose e (l\<lparr>tap_history := h\<rparr>) = (recompose e l)\<lparr>tap_history := h\<rparr>"
proof -
  have "compose_ops e (l\<lparr>tap_history := h, recompose_dirty := b\<rparr>) =
      compose_ops e (l\<lparr>recompose_dirty := b\<rparr>)" for b
    by (simp add: compose_ops_def stage_rect_def Let_def cong: option.case_cong)
  then show ?thesis
    by (simp add: recompose_def sync_texture_from_surface_def Let_def split: option.split)
qed

lemma clear_tap_history:
  "tap_history_reset (meta_annotation_layer_clear e (l\<lparr>tap_history := h\<rparr>)) =
   tap_history_reset (meta_annotation_layer_clear e l)"
proof -
  let ?X = "\<lambda>l. (set_last_ink_anchor None False (drop_stroke
       ((clear_buffers l)\<lparr>surface := map_option (\<lambda>c. c\<lparr>comp_ops := []\<rparr>) (surface l)\<rparr>)))
         \<lparr>recompose_idle := False\<rparr>"
  have "?X (l\<lparr>tap_history := h\<rparr>) = (?X l)\<lparr>tap_history := h\<rparr>"
    by (rule annotation_layer.equality)
       (simp_all add: clear_buffers_def drop_stroke_def set_stroke_anchor_eq set_last_ink_anchor_eq)
  then have "meta_annotation_layer_clear e (l\<lparr>tap_history := h\<rparr>) =
      (meta_annotation_layer_clear e l)\<lparr>tap_history := h\<rparr>"
    unfolding clear_eq by (simp only: recompose_tap_history)
  then show ?thesis by (simp add: tap_history_reset_def)
qed

lemma layer_ok_history:
  assumes ok: "layer_ok l" and h: "length h < TAP_HISTORY_SIZE"
    and a: "\<And>t. t \<in> set h \<Longrightarrow> has_ink l (tap_anchor t)"
  shows "layer_ok (l\<lparr>tap_history := h\<rparr>)"
proof -
  let ?l = "l\<lparr>tap_history := h\<rparr>"
  note D = layer_okD [OF ok]
  have S: "strokes_at ?l = strokes_at l" by (rule strokes_at_cong) simp_all
  have "pen_point ?l = pen_point l" by (rule pen_point_cong) simp_all
  moreover have "flight_at ?l q = flight_at l q" for q by (rule flight_at_cong [OF S]) simp_all
  moreover have "anchors_ok ?l" using D(3) a by (simp add: anchors_ok_def has_ink_def)
  moreover have "misc_ok ?l" using D(5) h by (auto simp: misc_ok_def)
  ultimately show ?thesis using D S by (simp add: layer_ok_def flight_ok_def windows_ok_def)
qed

lemma layer_ok_check_gestures:
  assumes ok: "layer_ok l" and h: "length h \<le> TAP_HISTORY_SIZE"
    and a: "\<And>t. t \<in> set h \<Longrightarrow> has_ink l (tap_anchor t)"
  shows "layer_ok (check_tap_gestures e (l\<lparr>tap_history := h\<rparr>))"
proof (cases "length h < TAP_HISTORY_SIZE")
  case True
  have "layer_ok (l\<lparr>tap_history := h\<rparr>)" by (rule layer_ok_history [OF ok True a])
  then show ?thesis
    using True unfolding check_tap_gestures_def Let_def tap_history_reset_def
    by (auto intro!: layer_ok_weaken layer_ok_clear_anchor)
next
  case False
  then have "check_tap_gestures e (l\<lparr>tap_history := h\<rparr>) =
      tap_history_reset (meta_annotation_layer_clear e l)"
    by (simp add: check_tap_gestures_def Let_def clear_tap_history)
  then show ?thesis by (simp add: tap_history_reset_def layer_ok_weaken layer_ok_clear ok)
qed

lemma layer_ok_tap_release:
  assumes ok: "layer_ok l"
  shows "layer_ok (note_tap_release e now x y l)"
proof -
  define h where "h = dropWhile (\<lambda>t. \<not> now - tap_time_us t \<le> QUAD_TAP_WINDOW_US) (tap_history l)
    @ [\<lparr>tap_time_us = now, tap_anchor = pending_tap_anchor l\<rparr>]"
  let ?l = "l\<lparr>pending_tap := False\<rparr>"
  have ok1: "layer_ok ?l" by (rule layer_ok_weaken(2) [OF ok])
  note D = layer_okD [OF ok]
  have len: "length (dropWhile P (tap_history l)) < TAP_HISTORY_SIZE" for P
    using D(5) length_dropWhile_le [of P "tap_history l"] unfolding misc_ok_def by linarith
  have h: "length h \<le> TAP_HISTORY_SIZE" using len by (simp add: h_def Suc_le_eq)
  have eq: "tap_history_append now (pending_tap_anchor ?l) (tap_history_prune now ?l) =
      ?l\<lparr>tap_history := h\<rparr>"
    using len [of "\<lambda>t. \<not> now - tap_time_us t \<le> QUAD_TAP_WINDOW_US"]
    by (simp add: tap_history_append_def tap_history_prune_def h_def Let_def)
  have "layer_ok (check_tap_gestures e (?l\<lparr>tap_history := h\<rparr>))" if "pending_tap l"
    by (rule layer_ok_check_gestures [OF ok1 h])
       (use D(3) that in \<open>auto simp: h_def anchors_ok_def has_ink_def dest: set_dropWhileD\<close>)
  with ok ok1 show ?thesis
    unfolding note_tap_release_def Let_def eq by simp
qed

lemma layer_ok_tap_press:
  assumes ok: "layer_ok l"
  shows "layer_ok (note_tap_press now x y (stroke_anchor l) l)"
proof -
  let ?l = "note_tap_press now x y (stroke_anchor l) l"
  note D = layer_okD [OF ok]
  have S: "strokes_at ?l = strokes_at l" by (rule strokes_at_cong) (simp_all add: note_tap_press_def)
  have "pen_point ?l = pen_point l" by (rule pen_point_cong) (simp_all add: note_tap_press_def)
  moreover have "flight_at ?l q = flight_at l q" for q
    by (rule flight_at_cong [OF S]) (simp_all add: note_tap_press_def)
  moreover have "anchors_ok ?l" using D(3) by (simp add: anchors_ok_def has_ink_def note_tap_press_def)
  moreover have "windows_ok ?l = windows_ok l" "misc_ok ?l = misc_ok l"
    by (simp_all add: windows_ok_def misc_ok_def note_tap_press_def)
  ultimately show ?thesis
    using D S by (simp add: layer_ok_def flight_ok_def) (simp add: note_tap_press_def)
qed

section \<open>Events\<close>

lemma tilt_factor_bounds:
  assumes "event_get_tilt_factor ev = Some f"
  shows "1 \<le> f" "f \<le> 1 + ANNOT_TILT_WIDTH_BOOST"
  using assms clampf_bounds [of 0 1]
  by (auto simp: event_get_tilt_factor_def Let_def annot_consts split: option.splits if_splits)

lemma layer_ok_cancel_tap:
  "layer_ok l \<Longrightarrow> layer_ok (cancel_tap_pending l)"
  "layer_ok l \<Longrightarrow> layer_ok (cancel_tap_if_moved x y l)"
  by (simp_all add: cancel_tap_pending_def cancel_tap_if_moved_def layer_ok_weaken)

lemma layer_ok_press: "layer_ok l \<Longrightarrow> layer_ok (press_branch e now ev l)"
  unfolding press_branch_def Let_def
  by (intro layer_ok_tap_press begin_stroke_ok tilt_factor_bounds)

lemma layer_ok_continue_with:
  "layer_ok l \<Longrightarrow> stroke_active l \<Longrightarrow> surface l \<noteq> None \<Longrightarrow> layer_ok (continue_with e ev l)"
  unfolding continue_with_def by (intro continue_stroke_ok tilt_factor_bounds)

lemma layer_ok_release:
  "layer_ok l \<Longrightarrow> surface l \<noteq> None \<Longrightarrow> layer_ok (release_branch e now ev l)"
  unfolding release_branch_def Let_def
  by (simp add: end_stroke_ok layer_ok_tap_release layer_ok_continue_with)

lemma layer_ok_motion:
  assumes "layer_ok l" "surface l \<noteq> None"
  shows "layer_ok (motion_branch e ev l)"
proof -
  have b: "layer_ok (begin_stroke e (ev_x ev) (ev_y ev) (event_get_pressure ev)
      (event_get_tilt_factor ev) er l)" for er
    by (intro begin_stroke_ok assms tilt_factor_bounds)
  have c: "stroke_active l \<Longrightarrow> layer_ok (continue_stroke e (ev_x ev) (ev_y ev) (event_get_pressure ev)
      (event_get_tilt_factor ev) er l)" for er
    by (intro continue_stroke_ok assms tilt_factor_bounds)
  show ?thesis
    unfolding motion_branch_def Let_def
    using b c assms(1) by (auto simp: layer_ok_cancel_tap end_stroke_ok)
qed

lemma layer_ok_modifier:
  assumes "layer_ok l"
  shows "layer_ok (snd (handle_tool_modifier_press ev pressed l))"
    and "surface (snd (handle_tool_modifier_press ev pressed l)) = surface l"
  using assms by (simp_all add: handle_tool_modifier_press_def Let_def)

lemma layer_ok_event:
  assumes ok: "layer_ok l"
  shows "layer_ok (snd (meta_annotation_layer_handle_event e now ev l))"
proof (cases "\<not> active l \<or> paused l \<or> surface l = None")
  case True
  with ok show ?thesis by (simp add: meta_annotation_layer_handle_event_def)
next
  case False
  have M: "layer_ok m \<and> surface m = surface l" if "handle_tool_modifier_press ev pressed l = (b, m)"
    for pressed b m
    using layer_ok_modifier [OF ok, of ev pressed] that by simp
  have "layer_ok (button_press_branch e now ev l)"
    using M ok by (auto simp: button_press_branch_def layer_ok_press split: prod.split)
  moreover have "layer_ok (button_release_branch e now ev l)"
    using M False by (auto simp: button_release_branch_def layer_ok_release split: prod.split)
  moreover have "layer_ok (if stroke_active l
      then cancel_tap_if_moved (ev_x ev) (ev_y ev) (continue_with e ev l) else l)"
    using False ok by (simp add: layer_ok_cancel_tap layer_ok_continue_with)
  ultimately show ?thesis
    unfolding meta_annotation_layer_handle_event_def if_not_P [OF False]
    using False ok layer_ok_press [OF ok] layer_ok_release [OF ok] layer_ok_motion [OF ok]
      end_stroke_ok [OF layer_ok_cancel_tap(1) [OF ok]]
    by (cases "ev_type ev"; simp only: clutter_event_type.case snd_conv; blast)
qed

section \<open>Signals\<close>

lemma layer_ok_remove_window:
  assumes ok: "layer_ok l" and a: "stroke_anchor l \<noteq> Some w" "last_ink_anchor l \<noteq> Some w"
    and p: "pending_tap l \<Longrightarrow> pending_tap_anchor l \<noteq> Some w"
    and h: "\<forall>t \<in> set (tap_history l). tap_anchor t \<noteq> Some w"
  shows "layer_ok (l\<lparr>per_window := (per_window l)(w := None)\<rparr>)" (is "layer_ok ?l")
proof -
  note D = layer_okD [OF ok]
  have S: "strokes_at ?l = (strokes_at l)(Some w := None)"
    by (auto simp: strokes_at_def fun_eq_iff split: option.splits)
  have "substore ((strokes_at l)(Some w := None)) (strokes_at l)" by (auto simp: substore_def)
  then have "store_ok (strokes_at ?l) (next_stroke ?l)" using store_ok_sub [OF D(1)] S by simp
  moreover have "flight_at ?l (pen_point ?l)"
  proof -
    have "ink_at ?l (stroke_anchor l) = ink_at l (stroke_anchor l)"
      using a(1) by (cases "stroke_anchor l") (auto simp: ink_at_def)
    then have "follow_shift ?l = follow_shift l" by (intro follow_shift_cong) simp_all
    then show ?thesis using D(2) a(1) S by (simp add: flight_ok_def flight_at_def pen_point_def)
  qed
  moreover have "anchors_ok ?l" using D(3) a p h by (auto simp: anchors_ok_def has_ink_def)
  moreover have "misc_ok ?l = misc_ok l" by (rule misc_ok_cong) simp_all
  moreover have "windows_ok ?l" using D(4) by (simp add: windows_ok_def)
  ultimately show ?thesis using D by (simp add: layer_ok_def flight_ok_def)
qed

lemma layer_ok_unmanaged:
  assumes ok: "layer_ok l"
  shows "layer_ok (on_window_unmanaged w l)"
proof -
  define l1 where "l1 = (if stroke_anchor l = Some w then drop_stroke l else l)"
  define l2 where "l2 = (if last_ink_anchor l1 = Some w then set_last_ink_anchor None False l1 else l1)"
  define l3 where "l3 = (if pending_tap l2 \<and> pending_tap_anchor l2 = Some w
    then l2\<lparr>pending_tap := False\<rparr> else l2)"
  define l4 where "l4 = (if list_ex (\<lambda>t. tap_anchor t = Some w) (tap_history l3)
    then l3\<lparr>tap_history := []\<rparr> else l3)"
  have ok4: "layer_ok l4"
    by (simp add: l1_def l2_def l3_def l4_def layer_ok_weaken ok)
  have "stroke_anchor l1 \<noteq> Some w" by (simp add: l1_def drop_stroke_def set_stroke_anchor_eq)
  then have "stroke_anchor l4 \<noteq> Some w" by (simp add: l2_def l3_def l4_def)
  moreover have "last_ink_anchor l2 \<noteq> Some w" by (simp add: l2_def set_last_ink_anchor_eq)
  then have "last_ink_anchor l4 \<noteq> Some w" by (simp add: l3_def l4_def)
  moreover have "pending_tap l4 \<Longrightarrow> pending_tap_anchor l4 \<noteq> Some w"
    by (auto simp: l3_def l4_def split: if_splits)
  moreover have "\<forall>t \<in> set (tap_history l4). tap_anchor t \<noteq> Some w"
    by (auto simp: l4_def list_ex_iff)
  ultimately have "layer_ok (l4\<lparr>per_window := (per_window l4)(w := None)\<rparr>)"
    by (rule layer_ok_remove_window [OF ok4])
  then show ?thesis
    unfolding on_window_unmanaged_def Let_def l1_def [symmetric] l2_def [symmetric]
      l3_def [symmetric] l4_def [symmetric] by simp
qed

lemma layer_ok_stage_size:
  assumes ok: "layer_ok l"
  shows "layer_ok (on_stage_size_changed e l)"
proof -
  have "layer_ok (l\<lparr>surface := Some c, unattached_surface := Some d, stage_width := w,
      stage_height := h, unattached_surface := Some d', texture := None\<rparr>)" (is "layer_ok ?l")
    for c d d' w h
  proof -
    note D = layer_okD [OF ok]
    have S: "strokes_at ?l = strokes_at l" by (rule strokes_at_cong) simp_all
    have "pen_point ?l = pen_point l" by (rule pen_point_cong) simp_all
    moreover have "flight_at ?l q = flight_at l q" for q by (rule flight_at_cong [OF S]) simp_all
    moreover have "anchors_ok ?l = anchors_ok l" by (rule anchors_ok_cong) simp_all
    moreover have "misc_ok ?l" using D(5) by (auto simp: misc_ok_def)
    ultimately show ?thesis using D S by (simp add: layer_ok_def flight_ok_def windows_ok_def)
  qed
  then have "layer_ok (recreate_buffers w h l)" for w h
    using ok by (simp add: recreate_buffers_def rasterize_all_strokes_def
        rasterize_all_strokes_with_ink_def Let_def)
  then show ?thesis
    by (simp add: on_stage_size_changed_def layer_ok_weaken split: prod.split)
qed

lemma layer_ok_zeroed: "layer_ok (layer_zeroed d)"
  by (simp add: layer_ok_def store_ok_def flight_ok_def anchors_ok_def windows_ok_def misc_ok_def
      layer_zeroed_def strokes_at_def TAP_HISTORY_SIZE_def split: option.splits)

end
