(* ===== verification/Annot_Service.thy ===== *)
theory Annot_Service
  imports Annot_Reach
begin

text \<open>
  The layer's two entry points: the D-Bus service \<open>org.gnome.Mutter.Annotation\<close>
  (\<open>mutter/src/core/meta-annotation-dbus.c\<close>) and the compositor's event routing
  (\<open>meta_compositor_route_annotation_event\<close> in \<open>mutter/src/compositor/compositor.c\<close>); every
  call the layer can get as one datatype, the reachable states, and the contract by which what
  every call preserves holds of every reachable state.
\<close>

section \<open>The D-Bus service\<close>

text \<open>The parameter tuple of a method call, by its D-Bus type.\<close>

datatype dbus_params =
    P_unit
  | P_b bool
  | P_dddd real real real real
  | P_regions "(string \<times> int \<times> int \<times> int \<times> int) list"
  | P_uiiii "32 word" int int int int
  | P_uii "32 word" int int

datatype dbus_reply = Return_value | Unknown_interface | Unknown_method

definition annotation_interface :: string where
  "annotation_interface = ''org.gnome.Mutter.Annotation''"

text \<open>The declared type of a method's arguments (\<open>introspection_xml\<close>); GDBus rejects a call
  whose arguments have another type before the handler runs.\<close>

definition well_typed_call :: "string \<Rightarrow> dbus_params \<Rightarrow> bool" where
  "well_typed_call method params =
     (case params of
        P_unit \<Rightarrow> method = ''Clear'' \<or> method = ''UndoLast'' \<or> method = ''ClearChromeRegions''
      | P_b b \<Rightarrow> method = ''SetActive'' \<or> method = ''SetPaused''
      | P_dddd r g b a \<Rightarrow> method = ''SetColor''
      | P_regions rs \<Rightarrow> method = ''SetChromeRegions''
      | P_uiiii p x y w h \<Rightarrow> method = ''SetWindowEditorRegion''
      | P_uii p x y \<Rightarrow> method = ''SetWindowScroll'')"

text \<open>Reading a parameter with \<open>g_variant_get\<close> and a format of another type is undefined: the
  result is \<^const>\<open>None\<close>.\<close>

definition handle_method_call ::
  "'r display_env \<Rightarrow> string \<Rightarrow> string \<Rightarrow> dbus_params \<Rightarrow> annot_world \<Rightarrow>
   (dbus_reply \<times> annot_world) option" where
  "handle_method_call e interface_name method_name parameters s =
     (case s of (l, g) \<Rightarrow>
       (let ret = (\<lambda>l'. Some (Return_value, l', g))
        in if interface_name \<noteq> annotation_interface then Some (Unknown_interface, s)
           else if method_name = ''Clear'' then ret (meta_annotation_layer_clear e l)
           else if method_name = ''UndoLast'' then ret (meta_annotation_layer_undo_last l)
           else if method_name = ''SetActive'' then
             (case parameters of
                P_b b \<Rightarrow> Some (Return_value, meta_annotation_layer_set_active e b s)
              | _ \<Rightarrow> None)
           else if method_name = ''SetColor'' then
             (case parameters of
                P_dddd r gr b a \<Rightarrow> ret (meta_annotation_layer_set_color r gr b a l)
              | _ \<Rightarrow> None)
           else if method_name = ''SetChromeRegions'' then
             (case parameters of
                P_regions rs \<Rightarrow> ret (meta_annotation_layer_set_chrome_regions (Some rs) l)
              | _ \<Rightarrow> None)
           else if method_name = ''ClearChromeRegions'' then
             ret (meta_annotation_layer_clear_chrome_regions l)
           else if method_name = ''SetPaused'' then
             (case parameters of
                P_b b \<Rightarrow> ret (meta_annotation_layer_set_paused e b l)
              | _ \<Rightarrow> None)
           else if method_name = ''SetWindowEditorRegion'' then
             (case parameters of
                P_uiiii pid x y w h \<Rightarrow>
                  ret (meta_annotation_layer_set_window_editor_region e pid x y w h l)
              | _ \<Rightarrow> None)
           else if method_name = ''SetWindowScroll'' then
             (case parameters of
                P_uii pid sx sy \<Rightarrow> ret (meta_annotation_layer_set_window_scroll e pid sx sy l)
              | _ \<Rightarrow> None)
           else Some (Unknown_method, s)))"

text \<open>The service object: whether it holds a connection, the registration and owner ids, and
  the \<open>RegionActivated\<close> signals emitted (id and kind).\<close>

record annot_dbus =
  dbus_connection :: bool
  registration_id :: nat
  name_owner_id :: nat
  region_activated :: "(string \<times> string) list"

text \<open>\<open>g_bus_own_name\<close> and \<open>g_dbus_connection_register_object\<close> return the ids: they are
  arguments. A failed parse of the introspection data leaves the object unregistered.\<close>

definition meta_annotation_dbus_new :: "nat \<Rightarrow> annot_dbus" where
  "meta_annotation_dbus_new owner =
     \<lparr>dbus_connection = False, registration_id = 0, name_owner_id = owner, region_activated = []\<rparr>"

definition on_bus_acquired :: "bool \<Rightarrow> nat \<Rightarrow> annot_dbus \<Rightarrow> annot_dbus" where
  "on_bus_acquired node_info_ok reg d =
     (let d1 = d\<lparr>dbus_connection := True\<rparr>
      in if \<not> node_info_ok then d1 else d1\<lparr>registration_id := reg\<rparr>)"

text \<open>\<open>connection\<close> is whether the callback is given a connection; the result also says whether
  the object was unregistered.\<close>

definition on_name_lost :: "bool \<Rightarrow> annot_dbus \<Rightarrow> nat option \<times> annot_dbus" where
  "on_name_lost connection d =
     (let (u, d1) = (if connection \<and> registration_id d \<noteq> 0
                     then (Some (registration_id d), d\<lparr>registration_id := 0\<rparr>) else (None, d))
      in (u, d1\<lparr>dbus_connection := False\<rparr>))"

text \<open>What freeing gives back: the owned name and the registration.\<close>

definition meta_annotation_dbus_free :: "annot_dbus \<Rightarrow> nat option \<times> nat option" where
  "meta_annotation_dbus_free d =
     (if name_owner_id d \<noteq> 0 then Some (name_owner_id d) else None,
      if dbus_connection d \<and> registration_id d \<noteq> 0 then Some (registration_id d) else None)"

definition meta_annotation_dbus_emit_region_activated ::
  "string option \<Rightarrow> string option \<Rightarrow> annot_dbus \<Rightarrow> annot_dbus" where
  "meta_annotation_dbus_emit_region_activated i kind d =
     (if \<not> dbus_connection d then d
      else case (i, kind) of
        (Some i', Some k) \<Rightarrow> d\<lparr>region_activated := region_activated d @ [(i', k)]\<rparr>
      | _ \<Rightarrow> d)"

section \<open>Routing\<close>

text \<open>The layer is \<^const>\<open>None\<close> where \<open>priv->annotation_layer\<close> is NULL. The result is whether
  the event was consumed.\<close>

definition meta_compositor_route_annotation_event ::
  "(graphene_rect \<Rightarrow> real \<Rightarrow> real \<Rightarrow> bool) \<Rightarrow> 'r display_env \<Rightarrow> int \<Rightarrow> clutter_event \<Rightarrow>
   annotation_layer option \<times> annot_dbus \<Rightarrow> bool \<times> annotation_layer option \<times> annot_dbus" where
  "meta_compositor_route_annotation_event contains_point e now ev s =
     (case s of
        (None, d) \<Rightarrow> (False, s)
      | (Some l, d) \<Rightarrow>
          if \<not> meta_annotation_layer_get_active l then (False, s)
          else if \<not> meta_annotation_event_targets_overlay ev then (False, s)
          else
            (let (press_active, pressed_id) = meta_annotation_layer_chrome_press_active l;
                 press = ev_type ev = CLUTTER_BUTTON_PRESS \<and> ev_button ev = CLUTTER_BUTTON_PRIMARY
                         \<or> ev_type ev = CLUTTER_TOUCH_BEGIN;
                 picked = meta_annotation_layer_pick_chrome_region contains_point l (ev_x ev) (ev_y ev)
             in if press \<and> picked \<noteq> None then
                  (True, Some (meta_annotation_layer_set_chrome_press_active picked l),
                   meta_annotation_dbus_emit_region_activated picked
                     (Some (if ev_type ev = CLUTTER_BUTTON_PRESS then ''press'' else ''touch-begin''))
                     d)
                else if press_active then
                  (if ev_type ev = CLUTTER_BUTTON_RELEASE \<or> ev_type ev = CLUTTER_TOUCH_END \<or>
                      ev_type ev = CLUTTER_TOUCH_CANCEL then
                     (True, Some (meta_annotation_layer_clear_chrome_press l),
                      if picked \<noteq> None \<and> pressed_id \<noteq> None \<and> picked = pressed_id \<and>
                         ev_type ev \<noteq> CLUTTER_TOUCH_CANCEL
                      then meta_annotation_dbus_emit_region_activated picked
                        (Some (if ev_type ev = CLUTTER_BUTTON_RELEASE then ''release''
                               else ''touch-end'')) d
                      else d)
                   else (True, s))
                else
                  (case meta_annotation_layer_handle_event e now ev l of
                     (consumed, l') \<Rightarrow> (consumed, Some l', d))))"

text \<open>Chrome presses: a press on a region, or any event while one is in flight.\<close>

lemmas route_defs = meta_compositor_route_annotation_event_def meta_annotation_layer_get_active_def
  meta_annotation_layer_chrome_press_active_def meta_annotation_layer_set_chrome_press_active_def
  meta_annotation_layer_clear_chrome_press_def Let_def

definition chrome_press_at ::
  "(graphene_rect \<Rightarrow> real \<Rightarrow> real \<Rightarrow> bool) \<Rightarrow> annotation_layer \<Rightarrow> clutter_event \<Rightarrow> bool" where
  "chrome_press_at cp l ev \<longleftrightarrow>
     (ev_type ev = CLUTTER_BUTTON_PRESS \<and> ev_button ev = CLUTTER_BUTTON_PRIMARY \<or>
      ev_type ev = CLUTTER_TOUCH_BEGIN) \<and>
     meta_annotation_layer_pick_chrome_region cp l (ev_x ev) (ev_y ev) \<noteq> None"

lemma route_active:
  assumes "active l" "meta_annotation_event_targets_overlay ev"
  shows "meta_compositor_route_annotation_event cp e now ev (Some l, d) =
    (let picked = meta_annotation_layer_pick_chrome_region cp l (ev_x ev) (ev_y ev)
     in if chrome_press_at cp l ev then
          (True, Some (l\<lparr>chrome_press_id := picked\<rparr>),
           meta_annotation_dbus_emit_region_activated picked
             (Some (if ev_type ev = CLUTTER_BUTTON_PRESS then ''press'' else ''touch-begin'')) d)
        else if chrome_press_id l \<noteq> None then
          (if ev_type ev = CLUTTER_BUTTON_RELEASE \<or> ev_type ev = CLUTTER_TOUCH_END \<or>
              ev_type ev = CLUTTER_TOUCH_CANCEL then
             (True, Some (l\<lparr>chrome_press_id := None\<rparr>),
              if picked \<noteq> None \<and> chrome_press_id l \<noteq> None \<and> picked = chrome_press_id l \<and>
                 ev_type ev \<noteq> CLUTTER_TOUCH_CANCEL
              then meta_annotation_dbus_emit_region_activated picked
                (Some (if ev_type ev = CLUTTER_BUTTON_RELEASE then ''release'' else ''touch-end'')) d
              else d)
           else (True, Some l, d))
        else (case meta_annotation_layer_handle_event e now ev l of
          (consumed, l') \<Rightarrow> (consumed, Some l', d)))"
  unfolding route_defs chrome_press_at_def prod.case option.case
  using assms by (simp only: if_True if_False simp_thms)

lemma route_held:
  assumes "active l" "meta_annotation_event_targets_overlay ev" "\<not> chrome_press_at cp l ev"
    and "chrome_press_id l \<noteq> None"
  shows "meta_compositor_route_annotation_event cp e now ev (Some l, d) =
    (True,
     Some (l\<lparr>chrome_press_id := (if ev_type ev \<in> {CLUTTER_BUTTON_RELEASE, CLUTTER_TOUCH_END, CLUTTER_TOUCH_CANCEL}
             then None else chrome_press_id l)\<rparr>),
     if ev_type ev \<in> {CLUTTER_BUTTON_RELEASE, CLUTTER_TOUCH_END} \<and>
        meta_annotation_layer_pick_chrome_region cp l (ev_x ev) (ev_y ev) = chrome_press_id l
     then meta_annotation_dbus_emit_region_activated (chrome_press_id l)
       (Some (if ev_type ev = CLUTTER_BUTTON_RELEASE then ''release'' else ''touch-end'')) d
     else d)"
  unfolding route_active [OF assms(1,2)] Let_def if_not_P [OF assms(3)] if_P [OF assms(4)]
  using assms(4) by auto

lemma route_chrome:
  assumes "active l" "meta_annotation_event_targets_overlay ev"
    and "chrome_press_id l \<noteq> None \<or> chrome_press_at cp l ev"
  shows "\<exists>i d'. meta_compositor_route_annotation_event cp e now ev (Some l, d) =
    (True, Some (l\<lparr>chrome_press_id := i\<rparr>), d')"
proof (cases "chrome_press_at cp l ev")
  case True
  then show ?thesis by (simp add: route_active [OF assms(1,2)] Let_def) (rule exI, rule refl)
next
  case False
  then have held: "chrome_press_id l \<noteq> None" using assms(3) by blast
  show ?thesis unfolding route_held [OF assms(1,2) False held] by blast
qed

section \<open>Calls\<close>

datatype annot_call =
    Call_event int clutter_event
  | Call_clear
  | Call_undo
  | Call_set_active bool
  | Call_set_paused bool
  | Call_set_color real real real real
  | Call_editor_region "32 word" int int int int
  | Call_scroll "32 word" int int
  | Call_set_chrome "(string \<times> int \<times> int \<times> int \<times> int) list option"
  | Call_clear_chrome
  | Call_chrome_press "string option"
  | Call_clear_chrome_press
  | Sig_stage_size
  | Sig_position window
  | Sig_size window
  | Sig_minimized window
  | Sig_workspace window
  | Sig_unmanaged window
  | Sig_restacked
  | Sig_active_workspace
  | Idle_recompose

text \<open>A window's signals are connected while it has ink; the idle callback runs only if it is
  installed.\<close>

fun call_enabled :: "annot_call \<Rightarrow> annotation_layer \<Rightarrow> bool" where
  "call_enabled (Sig_position w) l = (per_window l w \<noteq> None)"
| "call_enabled (Sig_size w) l = (per_window l w \<noteq> None)"
| "call_enabled (Sig_minimized w) l = (per_window l w \<noteq> None)"
| "call_enabled (Sig_workspace w) l = (per_window l w \<noteq> None)"
| "call_enabled (Sig_unmanaged w) l = (per_window l w \<noteq> None)"
| "call_enabled Idle_recompose l = recompose_idle l"
| "call_enabled _ l = True"

fun exec_call :: "'r display_env \<Rightarrow> annot_call \<Rightarrow> annot_world \<Rightarrow> annot_world" where
  "exec_call e (Call_event now ev) (l, g) = (snd (meta_annotation_layer_handle_event e now ev l), g)"
| "exec_call e Call_clear (l, g) = (meta_annotation_layer_clear e l, g)"
| "exec_call e Call_undo (l, g) = (meta_annotation_layer_undo_last l, g)"
| "exec_call e (Call_set_active b) (l, g) = meta_annotation_layer_set_active e b (l, g)"
| "exec_call e (Call_set_paused b) (l, g) = (meta_annotation_layer_set_paused e b l, g)"
| "exec_call e (Call_set_color r gr b a) (l, g) = (meta_annotation_layer_set_color r gr b a l, g)"
| "exec_call e (Call_editor_region pid x y w h) (l, g) =
     (meta_annotation_layer_set_window_editor_region e pid x y w h l, g)"
| "exec_call e (Call_scroll pid x y) (l, g) = (meta_annotation_layer_set_window_scroll e pid x y l, g)"
| "exec_call e (Call_set_chrome rs) (l, g) = (meta_annotation_layer_set_chrome_regions rs l, g)"
| "exec_call e Call_clear_chrome (l, g) = (meta_annotation_layer_clear_chrome_regions l, g)"
| "exec_call e (Call_chrome_press i) (l, g) = (meta_annotation_layer_set_chrome_press_active i l, g)"
| "exec_call e Call_clear_chrome_press (l, g) = (meta_annotation_layer_clear_chrome_press l, g)"
| "exec_call e Sig_stage_size (l, g) = (on_stage_size_changed e l, g)"
| "exec_call e (Sig_position w) (l, g) = (on_window_position_changed w l, g)"
| "exec_call e (Sig_size w) (l, g) = (on_window_size_changed e w l, g)"
| "exec_call e (Sig_minimized w) (l, g) = (on_window_min_notify w l, g)"
| "exec_call e (Sig_workspace w) (l, g) = (on_window_workspace_changed w l, g)"
| "exec_call e (Sig_unmanaged w) (l, g) = (on_window_unmanaged w l, g)"
| "exec_call e Sig_restacked (l, g) = (on_display_restacked l, g)"
| "exec_call e Sig_active_workspace (l, g) = (on_active_workspace_changed l, g)"
| "exec_call e Idle_recompose (l, g) = (recompose_idle_cb e l, g)"

text \<open>The call of the layer that each declared method stands for.\<close>

definition declared_call :: "string \<Rightarrow> dbus_params \<Rightarrow> annot_call option" where
  "declared_call m ps =
     (case ps of
        P_unit \<Rightarrow> map_of [(''Clear'', Call_clear), (''UndoLast'', Call_undo),
          (''ClearChromeRegions'', Call_clear_chrome)] m
      | P_b b \<Rightarrow> map_of [(''SetActive'', Call_set_active b), (''SetPaused'', Call_set_paused b)] m
      | P_dddd r g b a \<Rightarrow> map_of [(''SetColor'', Call_set_color r g b a)] m
      | P_regions rs \<Rightarrow> map_of [(''SetChromeRegions'', Call_set_chrome (Some rs))] m
      | P_uiiii pid x y w h \<Rightarrow> map_of [(''SetWindowEditorRegion'', Call_editor_region pid x y w h)] m
      | P_uii pid x y \<Rightarrow> map_of [(''SetWindowScroll'', Call_scroll pid x y)] m)"

lemma declared_call_exec:
  assumes "declared_call m ps = Some c"
  shows "handle_method_call e annotation_interface m ps (l, g) = Some (Return_value, exec_call e c (l, g))"
    and "call_enabled c l'"
  using assms
  by (auto simp: declared_call_def handle_method_call_def Let_def split: dbus_params.splits if_splits)

lemma declared_well_typed: "well_typed_call m ps \<longleftrightarrow> declared_call m ps \<noteq> None"
  by (auto simp: well_typed_call_def declared_call_def split: dbus_params.splits)

lemma unknown_method:
  assumes "\<forall>qs. \<not> well_typed_call m qs"
  shows "handle_method_call e annotation_interface m ps (l, g) = Some (Unknown_method, (l, g))"
proof -
  have "\<not> well_typed_call m P_unit" "\<not> well_typed_call m (P_b True)" "\<not> well_typed_call m (P_dddd 0 0 0 0)"
    "\<not> well_typed_call m (P_regions [])" "\<not> well_typed_call m (P_uiiii 0 0 0 0 0)"
    "\<not> well_typed_call m (P_uii 0 0 0)" using assms by blast+
  then show ?thesis by (simp add: well_typed_call_def handle_method_call_def)
qed

text \<open>The display may change arbitrarily between calls; the region library is fixed.\<close>

inductive annot_reach :: "'r region_ops \<Rightarrow> annot_world \<Rightarrow> bool" for R where
  init: "region_lib e = R \<Longrightarrow> annot_reach R (meta_annotation_layer_new e display g)"
| call: "annot_reach R s \<Longrightarrow> region_lib e = R \<Longrightarrow> call_enabled c (fst s) \<Longrightarrow>
         annot_reach R (exec_call e c s)"

section \<open>The contract of an invariant\<close>

locale layer_contract =
  fixes I :: "annot_world \<Rightarrow> bool"
    and R :: "'r region_ops"
  assumes new: "region_lib e = R \<Longrightarrow> I (meta_annotation_layer_new e display g)"
    and preserved: "I s \<Longrightarrow> region_lib e = R \<Longrightarrow> call_enabled c (fst s) \<Longrightarrow> I (exec_call e c s)"
begin

lemma reachable: "annot_reach R s \<Longrightarrow> I s"
  by (induction rule: annot_reach.induct) (simp_all add: new preserved)

end

lemma layer_ok_new: "layer_ok (fst (meta_annotation_layer_new e display g))"
  by (simp add: meta_annotation_layer_new_def layer_ok_stage_size layer_ok_zeroed)

lemma layer_ok_set_active:
  "layer_ok l \<Longrightarrow> layer_ok (fst (meta_annotation_layer_set_active e b (l, g)))"
  by (simp add: meta_annotation_layer_set_active_def Let_def layer_ok_visibility layer_ok_weaken)

lemma layer_ok_set_paused: "layer_ok l \<Longrightarrow> layer_ok (meta_annotation_layer_set_paused e b l)"
  by (simp add: meta_annotation_layer_set_paused_def Let_def layer_ok_visibility layer_ok_weaken)

lemma layer_ok_chrome:
  "layer_ok l \<Longrightarrow> layer_ok (meta_annotation_layer_set_chrome_regions rs l)"
  "layer_ok l \<Longrightarrow> layer_ok (meta_annotation_layer_clear_chrome_regions l)"
  "layer_ok l \<Longrightarrow> layer_ok (meta_annotation_layer_set_chrome_press_active i l)"
  "layer_ok l \<Longrightarrow> layer_ok (meta_annotation_layer_clear_chrome_press l)"
  by (simp_all add: meta_annotation_layer_set_chrome_regions_def
      meta_annotation_layer_clear_chrome_regions_def
      meta_annotation_layer_set_chrome_press_active_def
      meta_annotation_layer_clear_chrome_press_def split: option.split)

lemma layer_ok_exec: "layer_ok (fst s) \<Longrightarrow> layer_ok (fst (exec_call e c s))"
  by (cases s; cases c)
     (simp_all add: layer_ok_event layer_ok_clear layer_ok_undo layer_ok_set_active
      layer_ok_set_paused layer_ok_scroll_following layer_ok_chrome layer_ok_stage_size
      layer_ok_size_changed layer_ok_unmanaged layer_ok_recompose layer_ok_weaken
      on_window_position_changed_def on_window_min_notify_def on_window_workspace_changed_def
      on_display_restacked_def on_active_workspace_changed_def recompose_idle_cb_def
      meta_annotation_layer_set_color_def)

interpretation wf: layer_contract "\<lambda>s. layer_ok (fst s)" R for R :: "'r region_ops"
  by unfold_locales (simp_all add: layer_ok_new layer_ok_exec)

end
