(* ===== verification/Annot_Live.thy ===== *)
theory Annot_Live
  imports Annot_Service
begin

text \<open>
  What drawing, erasing and undo do to a buffer: ink painted live is what a replay of the stored
  strokes paints; erasing keeps the survivors in order and repaints them; undo removes the last
  stroke; a point stored in the editor's content space is shown where the pen was.
\<close>

section \<open>Replay\<close>

definition in_sync :: "annotation_layer \<Rightarrow> window option \<Rightarrow> bool" where
  "in_sync l a \<longleftrightarrow>
     (case (surface_at l a, strokes_at l a) of
        (Some c, Some ss) \<Rightarrow> cs_cmds c = replay_cmds ss (ink_at l a)
      | _ \<Rightarrow> False)"

lemma in_sync_iff:
  "in_sync l a \<longleftrightarrow> (\<exists>c ss. surface_at l a = Some c \<and> strokes_at l a = Some ss \<and>
     cs_cmds c = replay_cmds ss (ink_at l a))"
  by (auto simp: in_sync_def split: option.splits)

lemma rasterize_points_snoc:
  "ps \<noteq> [] \<Longrightarrow> rasterize_points c (ps @ [q]) = rasterize_points c ps @
     draw_segment_on_cr c (ip_x (last ps)) (ip_y (last ps)) (ip_x q) (ip_y q)
       (ip_pressure (last ps)) (ip_pressure q) (ip_tilt_factor (last ps)) (ip_tilt_factor q) False"
  by (induction c ps rule: rasterize_points.induct) auto

lemma rasterize_stroke_points:
  "length (points s) \<ge> 2 \<Longrightarrow>
   rasterize_stroke_on_cr s = rasterize_points (stroke_rgba s) (points s)"
  by (auto simp: rasterize_stroke_on_cr_def split: list.split)

lemma plain_cmds_append [simp]: "plain_cmds (xs @ ys) = plain_cmds xs @ plain_cmds ys"
  "plain_cmds [] = []"
  by (simp_all add: plain_cmds_def)

lemma replay_cmds_snoc:
  "\<not> follow_scroll s \<Longrightarrow>
   replay_cmds (ss @ [s]) ink = replay_cmds ss ink @ plain_cmds (rasterize_stroke_on_cr s)"
proof -
  assume s: "\<not> follow_scroll s"
  then have "follow_context (ss @ [s]) ink = follow_context ss ink"
    by (simp add: follow_context_def cong: option.case_cong)
  with s show ?thesis by (simp add: replay_cmds_def stroke_cmds_def)
qed

lemma replay_cmds_cong:
  "(\<And>k. ink = Some k \<Longrightarrow> \<exists>k'. ink' = Some k' \<and> bare_ink k' = bare_ink k) \<Longrightarrow>
   (ink = None \<Longrightarrow> ink' = None) \<Longrightarrow> replay_cmds ss ink' = replay_cmds ss ink"
proof (cases ink)
  case (Some k)
  assume "\<And>k. ink = Some k \<Longrightarrow> \<exists>k'. ink' = Some k' \<and> bare_ink k' = bare_ink k"
  with Some obtain k' where k': "ink' = Some k'" "bare_ink k' = bare_ink k" by auto
  have "has_editor_region k' = has_editor_region k" "editor_x k' = editor_x k"
    "editor_y k' = editor_y k" "editor_w k' = editor_w k" "editor_h k' = editor_h k"
    "scroll_x k' = scroll_x k" "scroll_y k' = scroll_y k"
    using k'(2) by (metis bare_ink_simps)+
  then show ?thesis
    unfolding Some k'(1) by (intro replay_cmds_region_only) (simp_all add: has_region_def)
qed simp

lemma chassis_ink_at:
  assumes "chassis l' = chassis l"
  shows "map_option bare_ink (ink_at l' a) = map_option bare_ink (ink_at l a)"
proof -
  have "map_option bare_ink (ink_at k a) = per_window (chassis k) w"
    if "a = Some w" for k w using that by (simp add: chassis_def ink_at_def)
  then show ?thesis using assms by (cases a) (simp_all add: ink_at_def)
qed

lemma chassis_replay:
  assumes "chassis l' = chassis l"
  shows "replay_cmds ss (ink_at l' a) = replay_cmds ss (ink_at l a)"
  using chassis_ink_at [OF assms, of a]
  by (intro replay_cmds_cong) (auto simp: option.map_sel split: option.splits)

section \<open>Drawing\<close>

text \<open>The buffer while a stroke that does not follow the scroll is drawn: what was there,
  then the segments of the stroke in flight.\<close>

definition drawing :: "ink_cmd list \<Rightarrow> stroke list \<Rightarrow> nat \<Rightarrow> annotation_layer \<Rightarrow> bool" where
  "drawing base ss n l \<longleftrightarrow>
     (\<exists>c s. surface_at l (stroke_anchor l) = Some c \<and> strokes_at l (stroke_anchor l) = Some (ss @ [s]) \<and>
        current_stroke l = Some (stroke_id s) \<and> \<not> follow_scroll s \<and> stroke_rgba s = pen_rgba l \<and>
        length (points s) = n \<and> cs_cmds c = base @ plain_cmds (rasterize_points (stroke_rgba s) (points s)))"

lemma drawing_continue_ink:
  assumes ok: "layer_ok l" and d: "drawing base ss n l"
  shows "drawing base ss (Suc n) (continue_ink lx ly p t l)"
proof -
  let ?a = "stroke_anchor l"
  from d obtain c s where c: "surface_at l ?a = Some c" and ss: "strokes_at l ?a = Some (ss @ [s])"
    and cur: "current_stroke l = Some (stroke_id s)" and nf: "\<not> follow_scroll s"
    and rgba: "stroke_rgba s = pen_rgba l"
    and n: "length (points s) = n"
    and cmds: "cs_cmds c = base @ plain_cmds (rasterize_points (stroke_rgba s) (points s))"
    unfolding drawing_def by auto
  note D = layer_okD [OF ok]
  have fl: "follow_scroll s = stroke_follow_scroll l" "last (points s) = pen_point l"
    using D(2) cur ss by (auto simp: flight_ok_def flight_at_def)
  have ne: "points s \<noteq> []" using store_okD(2) [OF D(1) ss, of s] by (simp add: stroke_ok_def)
  define segs where "segs = draw_segment_on_cr (pen_rgba l) (stroke_last_x l) (stroke_last_y l) lx ly
      (last_pressure l) p (last_tilt_factor l) t False"
  define l1 where "l1 = put_surface ?a (Some (paint_on (plain_cmds segs) c)) l"
  define q where "q = \<lparr>ip_x = lx + fst (follow_shift l), ip_y = ly + snd (follow_shift l),
    ip_pressure = p, ip_tilt_factor = t\<rparr>"
  have shift: "follow_shift l = (0, 0)"
    using fl(1) nf by (simp add: follow_shift_def split: option.split)
  have eq: "continue_ink lx ly p t l = append_ink_point q (stroke_follow_scroll l) l1"
    using c ss cur by (simp add: continue_ink_fold stroke_target_def Let_def l1_def q_def segs_def)
  have l1: "strokes_at l1 = strokes_at l" "next_stroke l1 = next_stroke l"
    "current_stroke l1 = Some (stroke_id s)" "stroke_anchor l1 = ?a" "pen_rgba l1 = pen_rgba l"
    using cur by (simp_all add: l1_def)
  have surf1: "surface_at l1 ?a = Some (paint_on (plain_cmds segs) c)"
    using c by (simp add: l1_def surface_at_put_surface)
  have ch: "append_ink_point q f l1 = update_stroke (stroke_id s) (\<lambda>s. stroke_append_point s q) l1" for f
    using l1 ss by (simp add: append_ink_point_def stroke_target_def)
  have S: "strokes_at (append_ink_point q f l1) = (strokes_at l)(?a \<mapsto> ss @ [stroke_append_point s q])" for f
    using append_more(1) [of l1 "stroke_id s" ss s q f] D(1) l1 ss by simp
  have "rasterize_points (stroke_rgba s) (points s @ [q]) =
      rasterize_points (stroke_rgba s) (points s) @ segs"
    using rasterize_points_snoc [OF ne, of "stroke_rgba s" q] fl(2) rgba
    by (simp add: segs_def pen_point_def q_def shift)
  then show ?thesis
    unfolding drawing_def eq
    using S [of "stroke_follow_scroll l"] surf1 l1 nf rgba cmds n
    by (auto simp: ch paint_on_def)
qed

lemma schedule_reads [simp]:
  "strokes_at (schedule_recompose l) = strokes_at l" "surface_at (schedule_recompose l) = surface_at l"
  "ink_at (schedule_recompose l) = ink_at l"
  "stroke_anchor (schedule_recompose l) = stroke_anchor l"
  "current_stroke (schedule_recompose l) = current_stroke l"
  "stroke_active (schedule_recompose l) = stroke_active l"
  "pen_rgba (schedule_recompose l) = pen_rgba l"
  "per_window (schedule_recompose l) = per_window l"
  "last_ink_anchor (schedule_recompose l) = last_ink_anchor l"
  "last_ink_present (schedule_recompose l) = last_ink_present l"
  "surface (schedule_recompose l) = surface l"
  by (auto simp: schedule_recompose_def strokes_at_def surface_at_def ink_at_def fun_eq_iff
      split: option.split)

lemma move_reads [simp]:
  "strokes_at (l\<lparr>stroke_last_x := x, stroke_last_y := y, last_pressure := p, last_tilt_factor := t\<rparr>) =
   strokes_at l"
  "surface_at (l\<lparr>stroke_last_x := x, stroke_last_y := y, last_pressure := p, last_tilt_factor := t\<rparr>) =
   surface_at l"
  "ink_at (l\<lparr>stroke_last_x := x, stroke_last_y := y, last_pressure := p, last_tilt_factor := t\<rparr>) =
   ink_at l"
  by (auto simp: strokes_at_def surface_at_def ink_at_def fun_eq_iff split: option.split)

lemma drawing_continue:
  assumes ok: "layer_ok l" and d: "drawing base ss n l"
  shows "drawing base ss (Suc n) (continue_stroke e x y pr tilt False l)"
  using drawing_continue_ink [OF ok d]
  by (simp add: continue_stroke_def Let_def drawing_def split: prod.split)

text \<open>A gesture: the pen moves, drawing.\<close>

definition pen_moves ::
  "'r display_env \<Rightarrow> (real \<times> real \<times> real option \<times> real option) list \<Rightarrow> annotation_layer \<Rightarrow> annotation_layer" where
  "pen_moves e ms l = fold (\<lambda>(x, y, pr, tilt). continue_stroke e x y pr tilt False) ms l"

definition tilts_ok :: "(real \<times> real \<times> real option \<times> real option) list \<Rightarrow> bool" where
  "tilts_ok ms \<longleftrightarrow> list_all (\<lambda>(x, y, pr, tilt). case tilt of None \<Rightarrow> True | Some t \<Rightarrow> 1 \<le> t) ms"

text \<open>What a gesture keeps: the invariant, the target, and everything the replay reads but the
  strokes.\<close>

definition gesture :: "window option \<Rightarrow> window_ink option \<Rightarrow> annotation_layer \<Rightarrow> bool" where
  "gesture a k l \<longleftrightarrow> layer_ok l \<and> stroke_active l \<and> surface l \<noteq> None \<and> stroke_anchor l = a \<and>
     (\<forall>ss. replay_cmds ss (ink_at l a) = replay_cmds ss k)"

lemma chassis_surface: "chassis l' = chassis l \<Longrightarrow> surface l' = surface l"
proof -
  have "surface (chassis k) = surface k" for k by (simp add: chassis_def)
  then show "chassis l' = chassis l \<Longrightarrow> surface l' = surface l" by metis
qed

lemma gesture_continue:
  assumes g: "gesture a k l" and t: "\<And>f. tilt = Some f \<Longrightarrow> 1 \<le> f"
  shows "gesture a k (continue_stroke e x y pr tilt False l)"
proof -
  have G: "layer_ok l" "stroke_active l" "surface l \<noteq> None" "stroke_anchor l = a"
    "\<And>ss. replay_cmds ss (ink_at l a) = replay_cmds ss k"
    using g by (simp_all add: gesture_def)
  have t1: "1 \<le> (case tilt of None \<Rightarrow> last_tilt_factor l | Some t \<Rightarrow> t)"
    using t layer_okD(5) [OF G(1)] by (auto simp: misc_ok_def split: option.split)
  have ch: "chassis (continue_ink lx ly p (case tilt of None \<Rightarrow> last_tilt_factor l | Some t \<Rightarrow> t) l)
      = chassis l" for lx ly p
    by (rule continue_ink_ok(3) [OF G(1-3) t1 refl])
  note C = chassisD(5,6) [OF ch] chassis_surface [OF ch] chassis_replay [OF ch]
  have "layer_ok (continue_stroke e x y pr tilt False l)"
    by (rule continue_stroke_ok [OF G(1-3) t])
  moreover have "stroke_active (continue_stroke e x y pr tilt False l) \<and>
      surface (continue_stroke e x y pr tilt False l) \<noteq> None \<and>
      stroke_anchor (continue_stroke e x y pr tilt False l) = a \<and>
      (\<forall>ss. replay_cmds ss (ink_at (continue_stroke e x y pr tilt False l) a) = replay_cmds ss k)"
    using G C by (simp add: continue_stroke_def Let_def split: prod.split)
  ultimately show ?thesis by (simp add: gesture_def)
qed

lemma gesture_moves:
  assumes "gesture a k l" "drawing base ss n l" "tilts_ok ms"
  shows "gesture a k (pen_moves e ms l)" "drawing base ss (n + length ms) (pen_moves e ms l)"
proof -
  have "gesture a k (pen_moves e ms l) \<and> drawing base ss (n + length ms) (pen_moves e ms l)"
    using assms
  proof (induction ms arbitrary: l n)
    case (Cons m ms)
    obtain x y pr tilt where m: "m = (x, y, pr, tilt)" by (cases m) auto
    have t: "tilt = Some f \<Longrightarrow> 1 \<le> f" for f using Cons.prems(3) m by (simp add: tilts_ok_def)
    have "gesture a k (continue_stroke e x y pr tilt False l)"
      by (rule gesture_continue [OF Cons.prems(1) t])
    moreover have "drawing base ss (Suc n) (continue_stroke e x y pr tilt False l)"
      using Cons.prems(1,2) by (intro drawing_continue) (simp_all add: gesture_def)
    ultimately show ?case
      using Cons.IH [of "continue_stroke e x y pr tilt False l" "Suc n"] Cons.prems(3)
      by (simp add: pen_moves_def m tilts_ok_def)
  qed (simp add: pen_moves_def)
  then show "gesture a k (pen_moves e ms l)" "drawing base ss (n + length ms) (pen_moves e ms l)"
    by simp_all
qed

lemma drawing_in_sync:
  assumes d: "drawing (replay_cmds ss k) ss n l" and n: "2 \<le> n" and g: "gesture a k l"
  shows "in_sync l a"
proof -
  from d g obtain c s where "surface_at l a = Some c" "strokes_at l a = Some (ss @ [s])"
    "\<not> follow_scroll s" "length (points s) = n"
    "cs_cmds c = replay_cmds ss k @ plain_cmds (rasterize_points (stroke_rgba s) (points s))"
    unfolding drawing_def gesture_def by auto
  then show ?thesis
    using n g by (simp add: in_sync_iff replay_cmds_snoc rasterize_stroke_points gesture_def)
qed

text \<open>The press that starts the gesture.\<close>

lemma last_ink_reads [simp]:
  "strokes_at (set_last_ink_anchor a b l) = strokes_at l"
  "surface_at (set_last_ink_anchor a b l) = surface_at l"
  "ink_at (set_last_ink_anchor a b l) = ink_at l"
  "next_stroke (set_last_ink_anchor a b l) = next_stroke l"
  "pen_rgba (set_last_ink_anchor a b l) = pen_rgba l"
  by (auto simp: set_last_ink_anchor_eq strokes_at_def surface_at_def ink_at_def fun_eq_iff
      split: option.split)

lemma surface_at_fields [simp]:
  "surface_at (l\<lparr>current_stroke := c, next_stroke := n\<rparr>) = surface_at l"
  "surface_at (l\<lparr>current_stroke := c\<rparr>) = surface_at l"
  by (auto simp: surface_at_def fun_eq_iff split: option.split)

lemma restart_reads [simp]:
  "strokes_at (restart a f x y p t l) = strokes_at l" "surface_at (restart a f x y p t l) = surface_at l"
  "ink_at (restart a f x y p t l) = ink_at l" "next_stroke (restart a f x y p t l) = next_stroke l"
  "pen_rgba (restart a f x y p t l) = pen_rgba l" "surface (restart a f x y p t l) = surface l"
  by (auto simp: restart_def strokes_at_def surface_at_def ink_at_def fun_eq_iff split: option.split)

lemma begin_draws:
  assumes ok: "layer_ok l" and t: "\<And>f. tilt = Some f \<Longrightarrow> 1 \<le> f" and s: "surface l \<noteq> None"
    and sync: "in_sync (with_ink e (begin_anchor e x y l) l) (begin_anchor e x y l)"
    and nf: "\<not> begin_follows e x y False l"
  defines "a \<equiv> begin_anchor e x y l"
  obtains ss where "drawing (replay_cmds ss (ink_at (with_ink e a l) a)) ss 1
      (begin_stroke e x y pr tilt False l)"
    and "gesture a (ink_at (with_ink e a l) a) (begin_stroke e x y pr tilt False l)"
proof -
  define l4 where "l4 = begin_restarted e x y pr tilt False l"
  define l5 where "l5 = set_last_ink_anchor a True l4"
  note B = begin_restarted_ok [OF ok t, where e = e and x = x and y = y and pr = pr and er = False
      and tilt = tilt, folded l4_def a_def]
  obtain lx ly where loc: "local_of e a x y = (lx, ly)" by (metis surj_pair)
  have l4: "strokes_at l4 = strokes_at (with_ink e a l)" "surface_at l4 = surface_at (with_ink e a l)"
    "ink_at l4 = ink_at (with_ink e a l)" "stroke_follow_scroll l4 = False"
    using loc nf by (simp_all add: l4_def begin_restarted_def a_def Let_def)
      (simp add: restart_def)
  from sync obtain c ss where c: "surface_at l5 a = Some c" and ss: "strokes_at l5 a = Some ss"
    and cmds: "cs_cmds c = replay_cmds ss (ink_at (with_ink e a l) a)"
    unfolding in_sync_iff l5_def using l4 a_def by auto
  have f5: "stroke_anchor l5 = a" "current_stroke l5 = None" "stroke_follow_scroll l5 = False"
    "layer_ok l5"
    using B l4 layer_ok_last_ink [of l4 a] by (simp_all add: l5_def)
  have eq: "begin_stroke e x y pr tilt False l = append_ink_point (pen_point l5) False l5"
  proof -
    have "strokes_at l4 a = Some ss" using ss by (simp add: l5_def)
    then show ?thesis using f5(3)
      by (simp add: begin_stroke_eq Let_def l4_def [symmetric] a_def [symmetric] l5_def)
  qed
  let ?b = "begin_stroke e x y pr tilt False l"
  have ch: "chassis ?b = chassis l5" by (simp add: eq)
  note A = append_new [OF layer_okD(1) [OF f5(4)] f5(2) _ refl, of ss "pen_point l5" False]
  have surf: "surface_at ?b = surface_at l5"
  proof -
    have "surface_at (append_ink_point pt f l5) = surface_at l5" for pt f
      using ss f5 by (simp add: append_ink_point_def stroke_target_def Let_def)
    then show ?thesis by (simp add: eq)
  qed
  have rgba: "pen_rgba ?b = pen_rgba l5"
    using ss f5 by (simp add: eq append_ink_point_def stroke_target_def Let_def put_strokes_def put_ink_def
        split: option.split)
  have "drawing (replay_cmds ss (ink_at (with_ink e a l) a)) ss 1 ?b"
    using A ss f5 c cmds surf rgba chassisD(6) [OF ch]
    by (simp add: drawing_def eq) 
  moreover have "gesture a (ink_at (with_ink e a l) a) ?b"
    using begin_stroke_ok(1,3) [OF ok t, where e = e and x = x and y = y and pr = pr and er = False
      and tilt = tilt] chassisD(6) [OF ch] f5 chassis_surface [OF ch] s B(6) chassis_replay [OF ch, of _ a] l4
    by (simp add: gesture_def l5_def)
  ultimately show thesis by (rule that)
qed

end
