(* ===== verification/Annot_Mode.thy ===== *)
theory Annot_Mode
  imports Annot_Service
begin

text \<open>
  The modes of the layer: which operations can change \<open>active\<close>, \<open>paused\<close> and the actor's
  visibility, and the invariants of the reachable states that follow: the pointer is isolated
  exactly while the layer is active, and the actor is shown exactly while the layer is active
  and not paused.
\<close>

section \<open>Operations that keep the mode\<close>

definition mode :: "annotation_layer \<Rightarrow> bool \<times> bool \<times> bool" where
  "mode l = (active l, paused l, actor_visible l)"

lemma mode_recompose [simp]: "mode (recompose e l) = mode l"
  by (simp add: mode_def recompose_def sync_texture_from_surface_def Let_def split: option.split)

lemma mode_schedule [simp]: "mode (schedule_recompose l) = mode l"
  by (simp add: mode_def schedule_recompose_def)

lemma mode_anchors [simp]:
  "mode (set_stroke_anchor a l) = mode l" "mode (set_last_ink_anchor a p l) = mode l"
  "mode (drop_stroke l) = mode l" "mode (seal_stroke l) = mode l"
  by (simp_all add: mode_def set_stroke_anchor_eq set_last_ink_anchor_eq drop_stroke_def
      seal_stroke_def)

lemma mode_chassis: "chassis l' = chassis l \<Longrightarrow> mode l' = mode l"
proof -
  have "mode (chassis k) = mode k" for k by (simp add: mode_def chassis_def)
  then show "chassis l' = chassis l \<Longrightarrow> mode l' = mode l" by metis
qed

lemma mode_append [simp]: "mode (append_ink_point pt f l) = mode l"
  by (rule mode_chassis) simp

lemma mode_put [simp]:
  "mode (put_strokes a ss l) = mode l" "mode (put_surface a s l) = mode l"
  "mode (put_ink w k l) = mode l"
  by (auto simp: mode_def put_strokes_def put_surface_def put_ink_def split: option.split)

lemma mode_ensure [simp]: "mode (snd (ensure_window_ink e w l)) = mode l"
  by (subst ensure_frame) (simp add: mode_def)

lemma mode_fields [simp]:
  "mode (l\<lparr>current_stroke := c\<rparr>) = mode l" "mode (l\<lparr>pending_tap := b\<rparr>) = mode l"
  "mode (l\<lparr>tap_history := h\<rparr>) = mode l" "mode (l\<lparr>recompose_idle := b\<rparr>) = mode l"
  "mode (l\<lparr>per_window := W\<rparr>) = mode l" "mode (l\<lparr>pen_barrel_buttons := m\<rparr>) = mode l"
  "mode (l\<lparr>chrome_regions := cs\<rparr>) = mode l" "mode (l\<lparr>chrome_press_id := i\<rparr>) = mode l"
  "mode (l\<lparr>pen_rgba := c'\<rparr>) = mode l" "mode (l\<lparr>unattached_surface := us\<rparr>) = mode l"
  "mode (l\<lparr>texture := t\<rparr>) = mode l" "mode (l\<lparr>surface := s\<rparr>) = mode l"
  "mode (l\<lparr>stroke_last_x := x\<rparr>) = mode l" "mode (l\<lparr>stroke_last_y := x\<rparr>) = mode l"
  "mode (l\<lparr>last_pressure := x\<rparr>) = mode l" "mode (l\<lparr>last_tilt_factor := x\<rparr>) = mode l"
  by (simp_all add: mode_def)

lemma mode_restart [simp]: "mode (restart a f x y p t l) = mode l"
  by (simp add: restart_def mode_def)

lemma mode_begin [simp]: "mode (begin_stroke e x y pr tilt er l) = mode l"
proof -
  have "mode (with_ink e a l) = mode l" for a
    by (simp add: with_ink_def split: option.split)
  then show ?thesis
    by (simp add: begin_stroke_eq begin_restarted_def Let_def split: prod.split option.split)
qed

lemma mode_continue [simp]: "mode (continue_stroke e x y pr tilt er l) = mode l"
proof -
  have "mode (continue_erase lx ly p t l) = mode l" for lx ly p t
    by (simp add: continue_erase_def Let_def split: prod.split option.split)
  moreover have "mode (continue_ink lx ly p t l) = mode l" for lx ly p t
    by (simp add: continue_ink_fold Let_def split: prod.split option.split)
  ultimately show ?thesis
    by (simp add: continue_stroke_def Let_def split: prod.split)
qed

lemma mode_clear [simp]: "mode (meta_annotation_layer_clear e l) = mode l"
  by (simp add: clear_eq) (simp add: clear_buffers_def mode_def)

lemma mode_clear_anchor [simp]: "mode (clear_ink_for_anchor a l) = mode l"
proof -
  have "mode (case a of
      None \<Rightarrow> l\<lparr>unattached_surface := surface_clear (unattached_surface l),
                unattached_strokes := strokes_clear (unattached_strokes l)\<rparr>
    | Some w \<Rightarrow> (case per_window l w of None \<Rightarrow> l
        | Some k \<Rightarrow> put_ink w (k\<lparr>wi_surface := (wi_surface k)\<lparr>cs_cmds := []\<rparr>,
            wi_strokes := strokes_clear (wi_strokes k)\<rparr>) l)) = mode l"
    by (auto split: option.split) (simp add: mode_def)
  moreover have "mode (let l2 = (if stroke_anchor l1 = a then drop_stroke l1 else l1);
      l3 = (if last_ink_anchor l2 = a \<or> (a = None \<and> last_ink_present l2 \<and> last_ink_anchor l2 = None)
            then set_last_ink_anchor None False l2 else l2)
    in schedule_recompose l3) = mode l1" for l1
    by (simp add: Let_def)
  ultimately show ?thesis
    unfolding clear_ink_for_anchor_def Let_def by (rule trans [rotated])
qed

lemma mode_undo [simp]: "mode (meta_annotation_layer_undo_last l) = mode l"
  by (simp add: meta_annotation_layer_undo_last_def Let_def split: option.split)

lemma mode_taps [simp]:
  "mode (note_tap_release e now x y l) = mode l" "mode (note_tap_press now x y a l) = mode l"
  "mode (cancel_tap_pending l) = mode l" "mode (cancel_tap_if_moved x y l) = mode l"
  "mode (end_stroke l) = mode l"
proof -
  show "mode (note_tap_release e now x y l) = mode l"
    by (simp add: note_tap_release_def check_tap_gestures_def tap_history_append_def
        tap_history_prune_def tap_history_reset_def Let_def)
qed (simp_all add: note_tap_press_def cancel_tap_pending_def cancel_tap_if_moved_def end_stroke_def
  mode_def [of "l\<lparr>pending_tap := _\<rparr>"], simp add: mode_def)

lemma mode_event [simp]: "mode (snd (meta_annotation_layer_handle_event e now ev l)) = mode l"
proof -
  have m: "mode (snd (handle_tool_modifier_press ev b l)) = mode l" for b
    by (simp add: handle_tool_modifier_press_def Let_def)
  have p: "mode (press_branch e now ev l') = mode l'" for l'
    by (simp add: press_branch_def Let_def)
  have c: "mode (continue_with e ev l') = mode l'" for l' by (simp add: continue_with_def)
  have r: "mode (release_branch e now ev l') = mode l'" for l'
    by (simp add: release_branch_def Let_def c)
  have b1: "mode (button_press_branch e now ev l) = mode l"
    using m [of True]
    by (cases "handle_tool_modifier_press ev True l") (simp add: button_press_branch_def p)
  have b2: "mode (button_release_branch e now ev l) = mode l"
    using m [of False]
    by (cases "handle_tool_modifier_press ev False l") (simp add: button_release_branch_def r)
  have mo: "mode (motion_branch e ev l) = mode l" by (simp add: motion_branch_def Let_def)
  show ?thesis
    by (simp add: meta_annotation_layer_handle_event_def p c r b1 b2 mo
        split: clutter_event_type.split)
qed

lemma mode_fold: "(\<And>w l. mode (f w l) = mode l) \<Longrightarrow> mode (fold f ws l) = mode l"
  by (induction ws arbitrary: l) auto

lemma mode_scroll_following [simp]:
  "mode (meta_annotation_layer_set_window_editor_region e pid x y w h l) = mode l"
  "mode (meta_annotation_layer_set_window_scroll e pid sx sy l) = mode l"
proof -
  have "mode (editor_region_step e x y w h win l) = mode l" for win l
  proof -
    have "mode (snd (ensure_window_ink e win l)) = mode l" by simp
    then show ?thesis
      by (cases "ensure_window_ink e win l")
         (simp add: editor_region_step_def Let_def split: option.split)
  qed
  moreover have "mode (scroll_step sx sy win l) = mode l" for win l
    by (simp add: scroll_step_def Let_def split: option.split)
  ultimately show "mode (meta_annotation_layer_set_window_editor_region e pid x y w h l) = mode l"
    "mode (meta_annotation_layer_set_window_scroll e pid sx sy l) = mode l"
    by (simp_all add: meta_annotation_layer_set_window_editor_region_def
        meta_annotation_layer_set_window_scroll_def Let_def mode_fold)
qed

lemma mode_signals [simp]:
  "mode (on_stage_size_changed e l) = mode l" "mode (on_window_size_changed e w l) = mode l"
  "mode (on_window_unmanaged w l) = mode l"
  "mode (meta_annotation_layer_set_chrome_regions rs l) = mode l"
  "mode (meta_annotation_layer_clear_chrome_regions l) = mode l"
proof -
  have "mode (recreate_buffers w h l) = mode l" for w h
    by (simp add: recreate_buffers_def Let_def) (simp add: mode_def)
  then show "mode (on_stage_size_changed e l) = mode l"
    by (simp add: on_stage_size_changed_def split: prod.split)
  show "mode (meta_annotation_layer_clear_chrome_regions l) = mode l"
    by (simp add: meta_annotation_layer_clear_chrome_regions_def)
qed (simp_all add: on_window_size_changed_def on_window_unmanaged_def Let_def
  meta_annotation_layer_set_chrome_regions_def split: option.split)

section \<open>Mode invariants\<close>

definition mode_ok :: "annot_world \<Rightarrow> bool" where
  "mode_ok s \<longleftrightarrow> non_mouse_isolated (snd s) = active (fst s) \<and>
     actor_visible (fst s) = (active (fst s) \<and> \<not> paused (fst s))"

lemma mode_ok_cong: "mode l' = mode l \<Longrightarrow> mode_ok (l', g) = mode_ok (l, g)"
  by (simp add: mode_def mode_ok_def)

lemma visibility_active [simp]:
  "active (update_actor_visibility e l) = active l"
  "paused (update_actor_visibility e l) = paused l"
  "actor_visible (update_actor_visibility e l) = (active l \<and> \<not> paused l)"
  using mode_recompose [of e "l\<lparr>recompose_idle := False\<rparr>"]
    mode_recompose [of e "l\<lparr>actor_on_stage := True, recompose_idle := False\<rparr>"]
  by (simp_all add: update_actor_visibility_def Let_def mode_def)

lemma set_isolated [simp]:
  "non_mouse_isolated (meta_annotation_input_set_non_mouse_pointer_isolated b g) = b"
  by (simp add: meta_annotation_input_set_non_mouse_pointer_isolated_def Let_def)

lemma mode_ok_exec: "mode_ok s \<Longrightarrow> mode_ok (exec_call e c s)"
proof (cases s)
  case (Pair l g)
  assume ok: "mode_ok s"
  have "active (set_last_ink_anchor a p l') = active l'" "paused (set_last_ink_anchor a p l') = paused l'"
    "active (drop_stroke l') = active l'" "paused (drop_stroke l') = paused l'" for a p l'
    by (simp_all add: set_last_ink_anchor_eq drop_stroke_def set_stroke_anchor_eq)
  note keep = this
  have "mode_ok (meta_annotation_layer_set_active e b (l, g))" for b
    by (simp add: mode_ok_def meta_annotation_layer_set_active_def Let_def keep)
  moreover have "mode_ok (meta_annotation_layer_set_paused e b l, g)" for b
    using ok Pair by (simp add: mode_ok_def meta_annotation_layer_set_paused_def Let_def keep)
  moreover have "mode_ok (l', g)" if "mode l' = mode l" for l'
    using ok Pair mode_ok_cong [OF that] by simp
  ultimately show ?thesis
    unfolding Pair
    by (cases c) (simp_all add: recompose_idle_cb_def on_window_position_changed_def
      on_window_min_notify_def on_window_workspace_changed_def on_display_restacked_def
      on_active_workspace_changed_def meta_annotation_layer_set_color_def
      meta_annotation_layer_set_chrome_press_active_def
      meta_annotation_layer_clear_chrome_press_def)
qed

lemma mode_ok_new: "mode_ok (meta_annotation_layer_new e display g)"
proof -
  have "mode (on_stage_size_changed e (layer_zeroed display)) = mode (layer_zeroed display)" by simp
  then show ?thesis
    by (simp add: mode_ok_def mode_def meta_annotation_layer_new_def layer_zeroed_def)
qed

interpretation md: layer_contract mode_ok R for R :: "'r region_ops"
  by unfold_locales (simp_all add: mode_ok_new mode_ok_exec)

section \<open>What a change of mode keeps\<close>

lemma recompose_keeps:
  "stroke_active (recompose e l) = stroke_active l" "stroke_anchor (recompose e l) = stroke_anchor l"
  "stroke_last_x (recompose e l) = stroke_last_x l" "stroke_last_y (recompose e l) = stroke_last_y l"
  "chrome_press_id (recompose e l) = chrome_press_id l"
  by (simp_all add: recompose_def sync_texture_from_surface_def Let_def split: option.split)

lemma visibility_keeps:
  "stroke_active (update_actor_visibility e l) = stroke_active l"
  "stroke_anchor (update_actor_visibility e l) = stroke_anchor l"
  "stroke_last_x (update_actor_visibility e l) = stroke_last_x l"
  "stroke_last_y (update_actor_visibility e l) = stroke_last_y l"
  "chrome_press_id (update_actor_visibility e l) = chrome_press_id l"
  by (simp_all add: update_actor_visibility_def Let_def recompose_keeps)

lemma set_active_keeps:
  "active (fst (meta_annotation_layer_set_active e b (l, g))) = b"
  "stroke_active (fst (meta_annotation_layer_set_active e b (l, g))) = stroke_active l"
  "stroke_anchor (fst (meta_annotation_layer_set_active e b (l, g))) = stroke_anchor l"
  "stroke_last_x (fst (meta_annotation_layer_set_active e b (l, g))) = stroke_last_x l"
  "stroke_last_y (fst (meta_annotation_layer_set_active e b (l, g))) = stroke_last_y l"
  "chrome_press_id (fst (meta_annotation_layer_set_active e b (l, g))) = chrome_press_id l"
  by (simp_all add: meta_annotation_layer_set_active_def Let_def visibility_keeps set_last_ink_anchor_eq)

end
