(* ===== verification/Annot_Compose.thy ===== *)
theory Annot_Compose
  imports Annot_Layer
begin

text \<open>
  What recomposition shows at a pixel. The composite is a list of paint operations; its abstract
  meaning is, for each pixel, the ink surfaces (and the position on them) that were painted
  there since the pixel was last cleared. Cairo's regions are a parameter: the laws the code
  relies on are \<open>region_laws\<close>, and a rectangle-list implementation satisfies them.
\<close>

section \<open>Regions\<close>

definition in_rect :: "int \<times> int \<Rightarrow> mtk_rectangle \<Rightarrow> bool" where
  "in_rect p r \<longleftrightarrow> mtk_rectangle_contains_point r (fst p) (snd p)"

definition region_mem :: "'r region_ops \<Rightarrow> 'r \<Rightarrow> int \<times> int \<Rightarrow> bool" where
  "region_mem R r p \<longleftrightarrow> list_ex (in_rect p) (region_rectangles R r)"

text \<open>The documented behaviour of cairo's region operations on sets of pixels.\<close>

definition region_laws :: "'r region_ops \<Rightarrow> bool" where
  "region_laws R \<longleftrightarrow>
     (\<forall>p. \<not> region_mem R (region_create R) p) \<and>
     (\<forall>r p. region_mem R (region_create_rectangle R r) p \<longleftrightarrow> in_rect p r) \<and>
     (\<forall>a b p. region_mem R (region_subtract R a b) p \<longleftrightarrow> region_mem R a p \<and> \<not> region_mem R b p) \<and>
     (\<forall>a r p. region_mem R (region_subtract_rectangle R a r) p \<longleftrightarrow> region_mem R a p \<and> \<not> in_rect p r) \<and>
     (\<forall>a r p. region_mem R (region_union_rectangle R a r) p \<longleftrightarrow> region_mem R a p \<or> in_rect p r)"

lemma region_lawsD:
  assumes "region_laws R"
  shows "\<not> region_mem R (region_create R) p"
    and "region_mem R (region_create_rectangle R r) p \<longleftrightarrow> in_rect p r"
    and "region_mem R (region_subtract R a b) p \<longleftrightarrow> region_mem R a p \<and> \<not> region_mem R b p"
    and "region_mem R (region_subtract_rectangle R a r) p \<longleftrightarrow> region_mem R a p \<and> \<not> in_rect p r"
    and "region_mem R (region_union_rectangle R a r) p \<longleftrightarrow> region_mem R a p \<or> in_rect p r"
  using assms by (simp_all add: region_laws_def del: split_paired_All)

lemma in_rect_iff:
  "in_rect (px, py) r \<longleftrightarrow>
     rect_x r \<le> px \<and> px < rect_x r + rect_width r \<and> rect_y r \<le> py \<and> py < rect_y r + rect_height r"
  by (simp add: in_rect_def mtk_rectangle_contains_point_def mtk_rectangle_contains_pointf_def)
     linarith

text \<open>An implementation: regions as lists of rectangles.\<close>

definition rect_minus :: "mtk_rectangle \<Rightarrow> mtk_rectangle \<Rightarrow> mtk_rectangle list" where
  "rect_minus a b =
     (let top = max (rect_y a) (min (rect_y b) (rect_y a + rect_height a));
          bottom = max top (min (rect_y b + rect_height b) (rect_y a + rect_height a))
      in [\<lparr>rect_x = rect_x a, rect_y = rect_y a, rect_width = rect_width a,
           rect_height = top - rect_y a\<rparr>,
          \<lparr>rect_x = rect_x a, rect_y = bottom, rect_width = rect_width a,
           rect_height = rect_y a + rect_height a - bottom\<rparr>,
          \<lparr>rect_x = rect_x a, rect_y = top,
           rect_width = min (rect_x b) (rect_x a + rect_width a) - rect_x a,
           rect_height = bottom - top\<rparr>,
          \<lparr>rect_x = max (rect_x b + max 0 (rect_width b)) (rect_x a), rect_y = top,
           rect_width = rect_x a + rect_width a - max (rect_x b + max 0 (rect_width b)) (rect_x a),
           rect_height = bottom - top\<rparr>])"

definition rect_list_regions :: "mtk_rectangle list region_ops" where
  "rect_list_regions =
     \<lparr>region_create = [], region_create_rectangle = (\<lambda>r. [r]),
      region_subtract = (\<lambda>a b. fold (\<lambda>r rs. concat (map (\<lambda>q. rect_minus q r) rs)) b a),
      region_subtract_rectangle = (\<lambda>a r. concat (map (\<lambda>q. rect_minus q r) a)),
      region_union_rectangle = (\<lambda>a r. r # a), region_rectangles = (\<lambda>a. a)\<rparr>"

lemma list_ex_simps_2:
  "list_ex P [a, b, c, d] \<longleftrightarrow> P a \<or> P b \<or> P c \<or> P d"
  by simp

lemma rect_minus_mem: "list_ex (in_rect p) (rect_minus a b) \<longleftrightarrow> in_rect p a \<and> \<not> in_rect p b"
proof (cases p)
  case (Pair px py)
  define t where "t = max (rect_y a) (min (rect_y b) (rect_y a + rect_height a))"
  define u where "u = max t (min (rect_y b + rect_height b) (rect_y a + rect_height a))"
  define v where "v = max (rect_x b + max 0 (rect_width b)) (rect_x a)"
  define m where "m = min (rect_x b) (rect_x a + rect_width a)"
  have y1: "rect_y a \<le> py \<and> py < t \<longleftrightarrow>
      rect_y a \<le> py \<and> py < rect_y a + rect_height a \<and> py < rect_y b"
    unfolding t_def by linarith
  have y2: "u \<le> py \<and> py < rect_y a + rect_height a \<longleftrightarrow>
      rect_y a \<le> py \<and> py < rect_y a + rect_height a \<and> \<not> py < rect_y b \<and>
        \<not> py < rect_y b + rect_height b"
    unfolding u_def t_def by linarith
  have y3: "t \<le> py \<and> py < u \<longleftrightarrow>
      rect_y a \<le> py \<and> py < rect_y a + rect_height a \<and> \<not> py < rect_y b \<and>
        py < rect_y b + rect_height b"
    unfolding u_def t_def by linarith
  have x1: "rect_x a \<le> px \<and> px < m \<longleftrightarrow>
      rect_x a \<le> px \<and> px < rect_x a + rect_width a \<and> px < rect_x b"
    unfolding m_def by linarith
  have x2: "v \<le> px \<longleftrightarrow> rect_x a \<le> px \<and> \<not> px < rect_x b \<and> \<not> px < rect_x b + rect_width b"
    unfolding v_def by linarith
  have b: "in_rect (px, py) b \<longleftrightarrow> \<not> px < rect_x b \<and> px < rect_x b + rect_width b \<and>
      \<not> py < rect_y b \<and> py < rect_y b + rect_height b"
    by (auto simp: in_rect_iff)
  have pieces:
    "in_rect (px, py) \<lparr>rect_x = rect_x a, rect_y = rect_y a, rect_width = rect_width a,
       rect_height = t - rect_y a\<rparr> \<longleftrightarrow> (rect_x a \<le> px \<and> px < rect_x a + rect_width a) \<and>
       (rect_y a \<le> py \<and> py < t)"
    "in_rect (px, py) \<lparr>rect_x = rect_x a, rect_y = u, rect_width = rect_width a,
       rect_height = rect_y a + rect_height a - u\<rparr> \<longleftrightarrow>
       (rect_x a \<le> px \<and> px < rect_x a + rect_width a) \<and> (u \<le> py \<and> py < rect_y a + rect_height a)"
    "in_rect (px, py) \<lparr>rect_x = rect_x a, rect_y = t, rect_width = m - rect_x a,
       rect_height = u - t\<rparr> \<longleftrightarrow> (rect_x a \<le> px \<and> px < m) \<and> (t \<le> py \<and> py < u)"
    "in_rect (px, py) \<lparr>rect_x = v, rect_y = t, rect_width = rect_x a + rect_width a - v,
       rect_height = u - t\<rparr> \<longleftrightarrow> (v \<le> px \<and> px < rect_x a + rect_width a) \<and> (t \<le> py \<and> py < u)"
    by (auto simp: in_rect_iff)
  have "list_ex (in_rect (px, py)) (rect_minus a b) \<longleftrightarrow>
      (rect_x a \<le> px \<and> px < rect_x a + rect_width a) \<and> (rect_y a \<le> py \<and> py < t) \<or>
      (rect_x a \<le> px \<and> px < rect_x a + rect_width a) \<and> (u \<le> py \<and> py < rect_y a + rect_height a) \<or>
      (rect_x a \<le> px \<and> px < m) \<and> (t \<le> py \<and> py < u) \<or>
      (v \<le> px \<and> px < rect_x a + rect_width a) \<and> (t \<le> py \<and> py < u)"
    unfolding rect_minus_def Let_def t_def [symmetric] u_def [symmetric] v_def [symmetric]
      m_def [symmetric] list_ex_simps_2 pieces ..
  also have "\<dots> \<longleftrightarrow> in_rect (px, py) a \<and> \<not> in_rect (px, py) b"
    unfolding y1 y2 y3 x1 x2 b in_rect_iff [of px py a] by blast
  finally show ?thesis unfolding Pair .
qed

lemma rects_minus_mem:
  "list_ex (in_rect p) (concat (map (\<lambda>q. rect_minus q r) rs)) \<longleftrightarrow>
   list_ex (in_rect p) rs \<and> \<not> in_rect p r"
  by (induction rs) (auto simp: rect_minus_mem)

lemma rects_fold_mem:
  "list_ex (in_rect p) (fold (\<lambda>r rs. concat (map (\<lambda>q. rect_minus q r) rs)) b a) \<longleftrightarrow>
   list_ex (in_rect p) a \<and> \<not> list_ex (in_rect p) b"
  by (induction b arbitrary: a) (auto simp: rects_minus_mem)

lemma rect_list_region_laws: "region_laws rect_list_regions"
proof -
  have "region_mem rect_list_regions r p = list_ex (in_rect p) r" for r p
    by (simp add: region_mem_def rect_list_regions_def)
  then show ?thesis
    unfolding region_laws_def
    by (auto simp: rect_list_regions_def rects_minus_mem rects_fold_mem)
qed

section \<open>Pixels of the composite\<close>

definition clip_allows :: "int \<times> int \<Rightarrow> mtk_rectangle list list \<Rightarrow> bool" where
  "clip_allows p clips \<longleftrightarrow> list_all (\<lambda>rects. list_ex (in_rect p) rects) clips"

definition punches :: "int \<times> int \<Rightarrow> graphene_rect \<Rightarrow> bool" where
  "punches p r \<longleftrightarrow>
     gr_x r \<le> of_int (fst p) \<and> of_int (fst p) < gr_x r + gr_width r \<and>
     gr_y r \<le> of_int (snd p) \<and> of_int (snd p) < gr_y r + gr_height r"

text \<open>The surfaces painted at a pixel since it was last cleared, with the position on them.\<close>

fun shown_after :: "int \<times> int \<Rightarrow> comp_op \<Rightarrow> (cairo_surface \<times> int \<times> int) list \<Rightarrow>
  (cairo_surface \<times> int \<times> int) list" where
  "shown_after p (Blit clips s dx dy) shown =
     (if clip_allows p clips then shown @ [(s, fst p - dx, snd p - dy)] else shown)"
| "shown_after p (Punch rects) shown = (if list_ex (punches p) rects then [] else shown)"

definition shown_at_pixel ::
  "int \<times> int \<Rightarrow> comp_op list \<Rightarrow> (cairo_surface \<times> int \<times> int) list" where
  "shown_at_pixel p ops = fold (shown_after p) ops []"

section \<open>The specification\<close>

text \<open>The topmost visible window whose frame has the pixel.\<close>

definition topmost_visible :: "'r display_env \<Rightarrow> int \<times> int \<Rightarrow> window option" where
  "topmost_visible e p =
     find (\<lambda>w. in_rect p (frame_rect (win_of e w))) (rev (visible_windows e))"

definition chrome_at :: "annotation_layer \<Rightarrow> int \<times> int \<Rightarrow> bool" where
  "chrome_at l p =
     (case chrome_regions l of None \<Rightarrow> False | Some rs \<Rightarrow> list_ex (\<lambda>r. punches p (cr_rect r)) rs)"

text \<open>What the user should see: nothing under the dock; the ink of the topmost window; the
  desktop's ink where no window is.\<close>

definition ink_shown :: "'r display_env \<Rightarrow> annotation_layer \<Rightarrow> int \<times> int \<Rightarrow>
  (cairo_surface \<times> int \<times> int) list" where
  "ink_shown e l p =
     (if chrome_at l p then []
      else case topmost_visible e p of
        Some w \<Rightarrow>
          (case per_window l w of
             None \<Rightarrow> []
           | Some k \<Rightarrow> [(wi_surface k, fst p - rect_x (frame_rect (win_of e w)),
                         snd p - rect_y (frame_rect (win_of e w)))])
      | None \<Rightarrow>
          (case unattached_surface l of None \<Rightarrow> [] | Some s \<Rightarrow> [(s, fst p, snd p)]))"

section \<open>Correctness\<close>

lemma region_clip: "clip_allows p [region_rectangles R r] = region_mem R r p"
  by (simp add: clip_allows_def region_mem_def)

lemma unattached_region_mem:
  assumes "region_laws R"
  shows "region_mem R (unattached_region R stage rects) p \<longleftrightarrow>
    in_rect p stage \<and> (\<forall>r \<in> set rects. \<not> in_rect p r)"
proof -
  have "region_mem R (fold (\<lambda>fr vis. region_subtract_rectangle R vis fr) rects v) p \<longleftrightarrow>
      region_mem R v p \<and> (\<forall>r \<in> set rects. \<not> in_rect p r)" for v
    by (induction rects arbitrary: v) (auto simp: region_lawsD [OF assms])
  then show ?thesis by (simp add: unattached_region_def region_lawsD [OF assms])
qed

lemma visible_regions_rev_length [simp]:
  "length (visible_regions_rev R c rects) = length rects"
  by (induction R c rects rule: visible_regions_rev.induct) auto

text \<open>Walking down the stack, only the first rectangle with the pixel is visible there.\<close>

lemma visible_rev_at:
  assumes R: "region_laws R"
  shows "filter (\<lambda>(w, v). region_mem R v p) (zip ws (visible_regions_rev R c (map f ws))) \<in>
    (if region_mem R c p then {[]}
     else case find (\<lambda>w. in_rect p (f w)) ws of None \<Rightarrow> {[]} | Some w \<Rightarrow> {[(w, v)] | v. True})"
proof (induction ws arbitrary: c)
  case (Cons w ws)
  have head: "region_mem R (region_subtract R (region_create_rectangle R (f w)) c) p \<longleftrightarrow>
      in_rect p (f w) \<and> \<not> region_mem R c p"
    using region_lawsD [OF R] by blast
  have cov: "region_mem R (region_union_rectangle R c (f w)) p \<longleftrightarrow>
      region_mem R c p \<or> in_rect p (f w)"
    using region_lawsD [OF R] by blast
  show ?case
    using Cons.IH [of "region_union_rectangle R c (f w)"] head cov by (auto split: if_splits)
qed simp

lemma fold_blits:
  "fold (shown_after p) (concat (map (\<lambda>(w, vis). case W w of None \<Rightarrow> []
      | Some k \<Rightarrow> [Blit [region_rectangles R vis] (wi_surface k) (dx w) (dy w)]) xs)) shown =
   shown @ concat (map (\<lambda>(w, vis). case W w of None \<Rightarrow> []
      | Some k \<Rightarrow> [(wi_surface k, fst p - dx w, snd p - dy w)])
     (filter (\<lambda>(w, v). region_mem R v p) xs))"
  by (induction xs arbitrary: shown) (auto simp: region_clip split: option.split)

lemma zip_visible_regions:
  "zip wins (visible_regions R (map f wins)) =
   rev (zip (rev wins) (visible_regions_rev R (region_create R) (map f (rev wins))))"
  by (simp add: visible_regions_def rev_map zip_rev [symmetric])

lemma topmost_none:
  "topmost_visible e p = None \<longleftrightarrow>
     (\<forall>w \<in> set (visible_windows e). \<not> in_rect p (frame_rect (win_of e w)))"
  by (auto simp: topmost_visible_def find_None_iff)

lemma visible_filter:
  assumes R: "region_laws R"
  shows "filter (\<lambda>(w, v). region_mem R v p)
      (zip (visible_windows e) (visible_regions R (map (\<lambda>w. frame_rect (win_of e w)) (visible_windows e)))) \<in>
    (case topmost_visible e p of None \<Rightarrow> {[]} | Some w \<Rightarrow> {[(w, v)] | v. True})"
proof -
  have "\<not> region_mem R (region_create R) p" by (rule region_lawsD [OF R])
  then have "filter (\<lambda>(w, v). region_mem R v p) (zip (rev (visible_windows e))
      (visible_regions_rev R (region_create R)
        (map (\<lambda>w. frame_rect (win_of e w)) (rev (visible_windows e))))) \<in>
    (case topmost_visible e p of None \<Rightarrow> {[]} | Some w \<Rightarrow> {[(w, v)] | v. True})"
    using visible_rev_at [OF R, of p "rev (visible_windows e)" "region_create R"]
    unfolding topmost_visible_def by simp
  then show ?thesis
    unfolding zip_visible_regions rev_filter [symmetric] by (auto split: option.splits)
qed

lemma compose_shows:
  assumes R: "region_laws (region_lib e)" and p: "in_rect p (stage_rect l)"
  shows "shown_at_pixel p (compose_ops e l) = ink_shown e l p"
proof -
  let ?R = "region_lib e" and ?f = "\<lambda>w. frame_rect (win_of e w)"
  let ?xs = "zip (visible_windows e) (visible_regions ?R (map ?f (visible_windows e)))"
  let ?hit = "filter (\<lambda>(w, v). region_mem ?R v p) ?xs"
  define desktop where "desktop = (case unattached_surface l of None \<Rightarrow> []
    | Some s \<Rightarrow> [Blit [[stage_rect l], region_rectangles ?R
        (unattached_region ?R (stage_rect l) (map ?f (visible_windows e)))] s 0 0])"
  define under where "under = (case unattached_surface l of None \<Rightarrow> []
    | Some s \<Rightarrow> if topmost_visible e p = None then [(s, fst p, snd p)] else [])"
  define top where "top = concat (map (\<lambda>(w, vis). case per_window l w of None \<Rightarrow> []
      | Some k \<Rightarrow> [(wi_surface k, fst p - rect_x (?f w), snd p - rect_y (?f w))]) ?hit)"
  have desk: "fold (shown_after p) desktop [] = under"
    using p unattached_region_mem [OF R, of "stage_rect l" "map ?f (visible_windows e)" p]
    by (auto simp: desktop_def under_def topmost_none clip_allows_def region_mem_def
        split: option.split)
  have inks: "fold (shown_after p) (concat (map (\<lambda>(w, vis). case per_window l w of None \<Rightarrow> []
      | Some k \<Rightarrow> [Blit [region_rectangles ?R vis] (wi_surface k) (rect_x (?f w)) (rect_y (?f w))]) ?xs))
      under = under @ top"
    unfolding top_def by (rule fold_blits)
  have chrome: "fold (shown_after p) (case chrome_regions l of None \<Rightarrow> []
      | Some rs \<Rightarrow> if length rs > 0 then [Punch (map cr_rect rs)] else []) shown =
      (if chrome_at l p then [] else shown)" for shown
    by (auto simp: chrome_at_def list_ex_iff split: option.split)
  have "shown_at_pixel p (compose_ops e l) = (if chrome_at l p then [] else under @ top)"
    unfolding shown_at_pixel_def compose_ops_def Let_def desktop_def [symmetric] fold_append o_apply
      desk inks chrome ..
  moreover have "under @ top = ink_shown e l p" if "\<not> chrome_at l p"
  proof (cases "topmost_visible e p")
    case None
    have hit: "?hit = []" using visible_filter [OF R, where p = p and e = e] None by simp
    have "top = []" unfolding top_def hit by simp
    then show ?thesis using None that by (simp add: under_def ink_shown_def split: option.split)
  next
    case (Some w)
    then obtain v where hit: "?hit = [(w, v)]"
      using visible_filter [OF R, where p = p and e = e] by auto
    have "top = (case per_window l w of None \<Rightarrow> []
      | Some k \<Rightarrow> [(wi_surface k, fst p - rect_x (?f w), snd p - rect_y (?f w))])"
      unfolding top_def hit by simp
    then show ?thesis using Some that by (simp add: under_def ink_shown_def split: option.split)
  qed
  ultimately show ?thesis by (simp add: ink_shown_def)
qed

end
