(* ===== verification/Annot_Effects.thy ===== *)
theory Annot_Effects
  imports Annot_Live Annot_Mode Annot_Compose
begin

text \<open>
  The effect of the buffer operations, one by one: erasing, undo, clearing, scroll updates, a
  resize of a window or of the stage, and a window's end.
\<close>

section \<open>Erasing\<close>

definition survivors ::
  "annotation_layer \<Rightarrow> real \<Rightarrow> real \<Rightarrow> real \<Rightarrow> real \<Rightarrow> stroke list \<Rightarrow> stroke list" where
  "survivors l lx ly p t ss =
     filter (\<lambda>s. \<not> eraser_hits (ink_at l (stroke_anchor l)) (stroke_last_x l) (stroke_last_y l) lx ly
       (eraser_radius p t) s) ss"

lemma erase_effect:
  assumes c: "surface_at l (stroke_anchor l) = Some c" and ss: "strokes_at l (stroke_anchor l) = Some ss"
  shows "strokes_at (continue_erase lx ly p t l) =
           (strokes_at l)(stroke_anchor l \<mapsto> survivors l lx ly p t ss)"
    and "survivors l lx ly p t ss \<noteq> ss \<Longrightarrow> in_sync (continue_erase lx ly p t l) (stroke_anchor l)"
    and "survivors l lx ly p t ss = ss \<Longrightarrow>
         surface_at (continue_erase lx ly p t l) (stroke_anchor l) = Some c"
proof -
  let ?a = "stroke_anchor l" and ?l' = "continue_erase lx ly p t l"
  let ?hit = "eraser_hits (ink_at l ?a) (stroke_last_x l) (stroke_last_y l) lx ly (eraser_radius p t)"
  define ss' where "ss' = survivors l lx ly p t ss"
  define l2 where "l2 = put_strokes ?a ss' (l\<lparr>current_stroke := None\<rparr>)"
  have E: "erase_strokes_hit_by_segment ss (stroke_last_x l) (stroke_last_y l) lx ly
      (eraser_radius p t) (ink_at l ?a) = (length (filter ?hit ss), ss')"
    by (simp add: erase_strokes_filter ss'_def survivors_def)
  have eq: "?l' = (if length (filter ?hit ss) > 0
      then put_surface ?a (rasterize_all_strokes_with_ink (Some c) ss' (ink_at l2 ?a)) l2 else l2)"
    unfolding continue_erase_def Let_def stroke_target_def c ss prod.case option.case E l2_def ..
  have S2: "strokes_at l2 = (strokes_at l)(?a \<mapsto> ss')" using ss by (simp add: l2_def strokes.get_put)
  have c2: "surface_at l2 ?a = Some c" using c by (simp add: l2_def)
  show "strokes_at ?l' = (strokes_at l)(?a \<mapsto> survivors l lx ly p t ss)"
    using S2 by (simp add: eq ss'_def)
  have none: "length (filter ?hit ss) = 0 \<longleftrightarrow> ss' = ss"
    unfolding ss'_def survivors_def by (auto simp: filter_empty_conv filter_id_conv)
  have repl: "in_sync (put_surface ?a (rasterize_all_strokes_with_ink (Some c) ss' (ink_at l2 ?a)) l2) ?a"
  proof -
    let ?d = "c\<lparr>cs_cmds := replay_cmds ss' (ink_at l2 ?a)\<rparr>"
    have "chassis (put_surface ?a (Some ?d) l2) = chassis l2" by (rule put_surface_exact [OF c2]) simp_all
    note replay = chassis_replay [OF this]
    show ?thesis
      using c2 S2 by (simp add: in_sync_iff rasterize_all_strokes_with_ink_def surface_at_put_surface replay)
  qed
  show "survivors l lx ly p t ss \<noteq> ss \<Longrightarrow> in_sync ?l' ?a"
    using none repl unfolding eq ss'_def [symmetric] by simp
  show "survivors l lx ly p t ss = ss \<Longrightarrow> surface_at ?l' ?a = Some c"
    using none c2 unfolding eq ss'_def [symmetric] by simp
qed

lemma in_sync_moved [simp]:
  "in_sync (schedule_recompose l) a = in_sync l a"
  "in_sync (l\<lparr>stroke_last_x := x, stroke_last_y := y, last_pressure := p, last_tilt_factor := t\<rparr>) a =
   in_sync l a"
  by (simp_all add: in_sync_iff)

section \<open>Undo\<close>

lemma undo_effect:
  assumes pr: "last_ink_present l" and ss: "strokes_at l (last_ink_anchor l) = Some (ss @ [s])"
  shows "strokes_at (meta_annotation_layer_undo_last l) = (strokes_at l)(last_ink_anchor l \<mapsto> ss)"
    and "surface_at l (last_ink_anchor l) \<noteq> None \<Longrightarrow>
         in_sync (meta_annotation_layer_undo_last l) (last_ink_anchor l)"
    and "last_ink_present (meta_annotation_layer_undo_last l) \<longleftrightarrow> ss \<noteq> []"
    and "ss \<noteq> [] \<Longrightarrow> last_ink_anchor (meta_annotation_layer_undo_last l) = last_ink_anchor l"
    and "stroke_active (meta_annotation_layer_undo_last l) \<longleftrightarrow>
      stroke_active l \<and> stroke_anchor l \<noteq> last_ink_anchor l"
    and "stroke_active l \<Longrightarrow> stroke_anchor l = last_ink_anchor l \<Longrightarrow>
      current_stroke (meta_annotation_layer_undo_last l) = None"
proof -
  let ?a = "last_ink_anchor l"
  define l1 where "l1 = (if stroke_active l \<and> stroke_anchor l = ?a then seal_stroke l else l)"
  define l2 where "l2 = put_strokes ?a ss l1"
  define l3 where "l3 = put_surface ?a (rasterize_all_strokes_with_ink (surface_at l2 ?a) ss (ink_at l2 ?a)) l2"
  have rm: "remove_index (length ss) (ss @ [s]) = ss"
    using remove_index_append_Cons [of ss s "[]"] by simp
  have eq: "meta_annotation_layer_undo_last l =
      schedule_recompose (if ss = [] then set_last_ink_anchor None False l3 else l3)"
    using pr ss
    by (simp add: meta_annotation_layer_undo_last_def Let_def rm l1_def l2_def l3_def
        rasterize_all_strokes_def split: option.splits)
  have S1: "strokes_at l1 = strokes_at l" by (simp add: l1_def)
  have F1: "last_ink_present l1 = last_ink_present l" "last_ink_anchor l1 = ?a"
    "surface_at l1 = surface_at l"
    by (auto simp: l1_def seal_stroke_def set_stroke_anchor_eq surface_at_def fun_eq_iff
        split: option.split)
  have S2: "strokes_at l2 = (strokes_at l)(?a \<mapsto> ss)" using ss by (simp add: l2_def strokes.get_put S1)
  show "strokes_at (meta_annotation_layer_undo_last l) = (strokes_at l)(?a \<mapsto> ss)"
    using S2 by (simp add: eq l3_def)
  have L: "last_ink_present l3 = last_ink_present l" "last_ink_anchor l3 = ?a"
    using F1 by (auto simp: l3_def l2_def put_surface_def put_strokes_def put_ink_def split: option.split)
  show "last_ink_present (meta_annotation_layer_undo_last l) \<longleftrightarrow> ss \<noteq> []"
    using L pr by (simp add: eq set_last_ink_anchor_eq)
  show "ss \<noteq> [] \<Longrightarrow> last_ink_anchor (meta_annotation_layer_undo_last l) = ?a"
    using L by (simp add: eq)
  have A: "stroke_active l3 = stroke_active l1" "current_stroke l3 = current_stroke l1"
    by (simp_all add: l3_def l2_def put_surface_def put_strokes_def put_ink_def split: option.split)
  have A1: "stroke_active l1 \<longleftrightarrow> stroke_active l \<and> stroke_anchor l \<noteq> ?a"
    "stroke_active l \<Longrightarrow> stroke_anchor l = ?a \<Longrightarrow> current_stroke l1 = None"
    by (auto simp: l1_def seal_stroke_def set_stroke_anchor_eq)
  show "stroke_active (meta_annotation_layer_undo_last l) \<longleftrightarrow> stroke_active l \<and> stroke_anchor l \<noteq> ?a"
    using A A1 by (simp add: eq set_last_ink_anchor_eq)
  show "stroke_active l \<Longrightarrow> stroke_anchor l = ?a \<Longrightarrow> current_stroke (meta_annotation_layer_undo_last l) = None"
    using A A1 by (simp add: eq set_last_ink_anchor_eq)
  show "in_sync (meta_annotation_layer_undo_last l) ?a" if "surface_at l ?a \<noteq> None"
  proof -
    from that obtain c where "surface_at l ?a = Some c" by blast
    then have c: "surface_at l2 ?a = Some c" by (simp add: l2_def F1)
    let ?d = "c\<lparr>cs_cmds := replay_cmds ss (ink_at l2 ?a)\<rparr>"
    have l3: "l3 = put_surface ?a (Some ?d) l2" by (simp add: l3_def c rasterize_all_strokes_with_ink_def)
    have "chassis l3 = chassis l2" unfolding l3 by (rule put_surface_exact [OF c]) simp_all
    note replay = chassis_replay [OF this]
    have "in_sync l3 ?a" using c S2 by (simp add: in_sync_iff l3 surface_at_put_surface replay [unfolded l3])
    then show ?thesis by (simp add: eq in_sync_iff)
  qed
qed

lemma undo_drained:
  assumes "last_ink_present l" and "strokes_at l (last_ink_anchor l) \<in> {None, Some []}"
  shows "strokes_at (meta_annotation_layer_undo_last l) = strokes_at l"
    and "\<not> last_ink_present (meta_annotation_layer_undo_last l)"
proof -
  have "meta_annotation_layer_undo_last l = schedule_recompose (set_last_ink_anchor None False l)"
    using assms by (auto simp: meta_annotation_layer_undo_last_def Let_def)
  then show "strokes_at (meta_annotation_layer_undo_last l) = strokes_at l"
    "\<not> last_ink_present (meta_annotation_layer_undo_last l)"
    by (simp_all add: set_last_ink_anchor_eq strokes_at_def fun_eq_iff split: option.split)
qed

lemma undo_nothing: "\<not> last_ink_present l \<Longrightarrow> meta_annotation_layer_undo_last l = l"
  by (simp add: meta_annotation_layer_undo_last_def)

section \<open>Clearing\<close>

lemma recompose_reads [simp]:
  "strokes_at (recompose e l) = strokes_at l" "surface_at (recompose e l) = surface_at l"
  "per_window (recompose e l) = per_window l"
  "current_stroke (recompose e l) = current_stroke l" "stroke_active (recompose e l) = stroke_active l"
  "stroke_anchor (recompose e l) = stroke_anchor l"
  "last_ink_present (recompose e l) = last_ink_present l"
  "recompose_idle (recompose e l) = recompose_idle l"
proof -
  show *: "per_window (recompose e l) = per_window l"
    by (simp add: recompose_def sync_texture_from_surface_def Let_def split: option.split)
  have "unattached_strokes (recompose e l) = unattached_strokes l"
    "unattached_surface (recompose e l) = unattached_surface l"
    by (simp_all add: recompose_def sync_texture_from_surface_def Let_def split: option.split)
  with * show "strokes_at (recompose e l) = strokes_at l" "surface_at (recompose e l) = surface_at l"
    by (auto simp: strokes_at_def surface_at_def fun_eq_iff split: option.split)
qed (simp_all add: recompose_def sync_texture_from_surface_def Let_def split: option.split)

lemma clear_effect:
  "strokes_at (meta_annotation_layer_clear e l) a = map_option (\<lambda>ss. []) (strokes_at l a)"
  "surface_at (meta_annotation_layer_clear e l) a = map_option (\<lambda>c. c\<lparr>cs_cmds := []\<rparr>) (surface_at l a)"
  "\<not> stroke_active (meta_annotation_layer_clear e l)"
  "current_stroke (meta_annotation_layer_clear e l) = None"
  "\<not> last_ink_present (meta_annotation_layer_clear e l)"
  "\<not> recompose_idle (meta_annotation_layer_clear e l)"
  unfolding clear_eq
  by (auto simp: strokes_at_def surface_at_def clear_buffers_def drop_stroke_def set_stroke_anchor_eq
      set_last_ink_anchor_eq surface_clear_def option.map_comp o_def split: option.split)

section \<open>Scroll updates and resizes\<close>

lemma scroll_step_effect:
  assumes "per_window l w = Some k" and "(scroll_x k, scroll_y k) \<noteq> (of_int sx, of_int sy)"
  shows "in_sync (scroll_step sx sy w l) (Some w)"
    and "strokes_at (scroll_step sx sy w l) = strokes_at l"
    and "v \<noteq> w \<Longrightarrow> per_window (scroll_step sx sy w l) v = per_window l v"
proof -
  define k1 where "k1 = window_ink_rasterize (k\<lparr>scroll_x := of_int sx, scroll_y := of_int sy\<rparr>)"
  define l1 where "l1 = (if stroke_active l \<and> stroke_anchor l = Some w \<and> stroke_follow_scroll l
    then seal_stroke l else l)"
  have eq: "scroll_step sx sy w l = put_ink w k1 l1"
    using assms by (auto simp: scroll_step_def Let_def k1_def l1_def)
  have pw: "per_window l1 = per_window l" "unattached_strokes l1 = unattached_strokes l"
    by (simp_all add: l1_def) (simp add: seal_stroke_def set_stroke_anchor_eq)
  have "replay_cmds (wi_strokes k) (Some (k\<lparr>scroll_x := of_int sx, scroll_y := of_int sy\<rparr>)) =
      replay_cmds (wi_strokes k) (Some k1)"
    by (rule replay_cmds_region_only) (simp_all add: k1_def has_region_def)
  then show "in_sync (scroll_step sx sy w l) (Some w)"
    by (simp add: in_sync_iff eq put_ink_def surface_at_def strokes_at_def ink_at_def k1_def)
  show "strokes_at (scroll_step sx sy w l) = strokes_at l"
    using assms(1) pw by (auto simp: eq put_ink_def strokes_at_def k1_def fun_eq_iff split: option.split)
  show "v \<noteq> w \<Longrightarrow> per_window (scroll_step sx sy w l) v = per_window l v"
    by (simp add: eq put_ink_def pw)
qed

lemma window_resize_effect:
  assumes "per_window l w = Some k" and "wi_window k = w"
    and "1 \<le> rect_width (frame_rect (win_of e w))" "1 \<le> rect_height (frame_rect (win_of e w))"
    and "(wi_width k, wi_height k) \<noteq> (rect_width (frame_rect (win_of e w)), rect_height (frame_rect (win_of e w)))"
  shows "in_sync (on_window_size_changed e w l) (Some w)"
    and "strokes_at (on_window_size_changed e w l) = strokes_at l"
    and "\<exists>c. surface_at (on_window_size_changed e w l) (Some w) = Some c \<and>
         cs_width c = rect_width (frame_rect (win_of e w)) \<and>
         cs_height c = rect_height (frame_rect (win_of e w))"
proof -
  let ?fr = "frame_rect (win_of e w)"
  define k0 where "k0 = k\<lparr>wi_surface := cairo_surface_new_cleared (rect_width ?fr) (rect_height ?fr),
    wi_width := rect_width ?fr, wi_height := rect_height ?fr\<rparr>"
  have eq: "on_window_size_changed e w l = schedule_recompose (put_ink w (window_ink_rasterize k0) l)"
    using assms by (auto simp: on_window_size_changed_def window_ink_resize_to_frame_def Let_def k0_def)
  have "replay_cmds (wi_strokes k0) (Some k0) =
      replay_cmds (wi_strokes k0) (Some (window_ink_rasterize k0))"
    by (rule replay_cmds_region_only) (simp_all add: has_region_def)
  then show "in_sync (on_window_size_changed e w l) (Some w)"
    by (simp add: eq in_sync_iff put_ink_def) (simp add: surface_at_def strokes_at_def ink_at_def)
  show "strokes_at (on_window_size_changed e w l) = strokes_at l"
    using assms(1) by (auto simp: eq put_ink_def strokes_at_def k0_def fun_eq_iff split: option.split)
  show "\<exists>c. surface_at (on_window_size_changed e w l) (Some w) = Some c \<and>
      cs_width c = rect_width ?fr \<and> cs_height c = rect_height ?fr"
    by (simp add: eq put_ink_def)
       (simp add: surface_at_def k0_def cairo_surface_new_cleared_def)
qed

lemma stage_resize_effect:
  assumes "stage_size e = (w, h)" "1 \<le> \<lceil>w\<rceil>" "1 \<le> \<lceil>h\<rceil>"
  shows "in_sync (on_stage_size_changed e l) None"
    and "strokes_at (on_stage_size_changed e l) = strokes_at l"
    and "stage_rect (on_stage_size_changed e l) =
         \<lparr>rect_x = 0, rect_y = 0, rect_width = \<lceil>w\<rceil>, rect_height = \<lceil>h\<rceil>\<rparr>"
    and "\<not> stroke_active (on_stage_size_changed e l)"
proof -
  define l2 where "l2 = l\<lparr>surface := Some (composite_new_cleared \<lceil>w\<rceil> \<lceil>h\<rceil>),
    stage_width := \<lceil>w\<rceil>, stage_height := \<lceil>h\<rceil>,
    unattached_surface := Some ((cairo_surface_new_cleared \<lceil>w\<rceil> \<lceil>h\<rceil>)
      \<lparr>cs_cmds := replay_cmds (unattached_strokes l) None\<rparr>), texture := None\<rparr>"
  have eq: "on_stage_size_changed e l = drop_stroke (schedule_recompose l2)"
    using assms unfolding on_stage_size_changed_def recreate_buffers_def l2_def
    by (simp add: Let_def rasterize_all_strokes_def rasterize_all_strokes_with_ink_def)
  have D: "strokes_at (drop_stroke l') = strokes_at l'" "surface_at (drop_stroke l') = surface_at l'"
    "ink_at (drop_stroke l') = ink_at l'" "stage_width (drop_stroke l') = stage_width l'"
    "stage_height (drop_stroke l') = stage_height l'" "\<not> stroke_active (drop_stroke l')" for l'
    by (auto simp: drop_stroke_def set_stroke_anchor_eq strokes_at_def surface_at_def ink_at_def
        fun_eq_iff split: option.split)
  show "in_sync (on_stage_size_changed e l) None"
    by (simp add: eq in_sync_iff D) (simp add: l2_def surface_at_def strokes_at_def ink_at_def)
  show "strokes_at (on_stage_size_changed e l) = strokes_at l"
    by (simp add: eq D) (auto simp: l2_def strokes_at_def fun_eq_iff split: option.split)
  have "stage_width (schedule_recompose l') = stage_width l'"
    "stage_height (schedule_recompose l') = stage_height l'" for l'
    by (simp_all add: schedule_recompose_def)
  then show "stage_rect (on_stage_size_changed e l) =
      \<lparr>rect_x = 0, rect_y = 0, rect_width = \<lceil>w\<rceil>, rect_height = \<lceil>h\<rceil>\<rparr>"
    by (simp add: eq D stage_rect_def l2_def)
  show "\<not> stroke_active (on_stage_size_changed e l)" by (simp add: eq D)
qed

section \<open>A window's end\<close>

lemma unmanaged_effect:
  assumes "layer_ok l"
  shows "per_window (on_window_unmanaged w l) = (per_window l)(w := None)"
    and "stroke_anchor (on_window_unmanaged w l) \<noteq> Some w"
    and "last_ink_anchor (on_window_unmanaged w l) \<noteq> Some w"
    and "pending_tap (on_window_unmanaged w l) \<Longrightarrow>
         pending_tap_anchor (on_window_unmanaged w l) \<noteq> Some w"
    and "t \<in> set (tap_history (on_window_unmanaged w l)) \<Longrightarrow> tap_anchor t \<noteq> Some w"
proof -
  show pw: "per_window (on_window_unmanaged w l) = (per_window l)(w := None)"
    by (simp add: on_window_unmanaged_def Let_def drop_stroke_def set_stroke_anchor_eq
        set_last_ink_anchor_eq)
  have "anchors_ok (on_window_unmanaged w l)"
    using layer_ok_unmanaged [OF assms] by (rule layer_okD)
  then show "stroke_anchor (on_window_unmanaged w l) \<noteq> Some w"
    "last_ink_anchor (on_window_unmanaged w l) \<noteq> Some w"
    "pending_tap (on_window_unmanaged w l) \<Longrightarrow> pending_tap_anchor (on_window_unmanaged w l) \<noteq> Some w"
    "t \<in> set (tap_history (on_window_unmanaged w l)) \<Longrightarrow> tap_anchor t \<noteq> Some w"
    by (auto simp: anchors_ok_def has_ink_def pw)
qed

end
