(* ===== verification/Annot_Gestures.thy ===== *)
theory Annot_Gestures
  imports Annot_Effects
begin

text \<open>
  Operations that act on several buffers or several events: a scroll update for all windows of
  a process, clearing one anchor's ink, and the tap gestures.
\<close>

section \<open>Scroll updates\<close>

definition scrolled :: "int \<Rightarrow> int \<Rightarrow> window_ink \<Rightarrow> window_ink" where
  "scrolled sx sy k =
     (if scroll_x k = of_int sx \<and> scroll_y k = of_int sy then k
      else window_ink_rasterize (k\<lparr>scroll_x := of_int sx, scroll_y := of_int sy\<rparr>))"

lemma scrolled_simps [simp]:
  "scroll_x (scrolled sx sy k) = of_int sx" "scroll_y (scrolled sx sy k) = of_int sy"
  "wi_strokes (scrolled sx sy k) = wi_strokes k"
  "scrolled sx sy (scrolled sx sy k) = scrolled sx sy k"
  by (simp_all add: scrolled_def)

lemma seal_windows [simp]:
  "per_window (seal_stroke l) = per_window l" "unattached_strokes (seal_stroke l) = unattached_strokes l"
  "unattached_surface (seal_stroke l) = unattached_surface l"
  by (simp_all add: seal_stroke_def set_stroke_anchor_eq)

lemma scroll_step_frame [simp]:
  "per_window (scroll_step sx sy w l) =
     (per_window l)(w := map_option (scrolled sx sy) (per_window l w))"
  "unattached_strokes (scroll_step sx sy w l) = unattached_strokes l"
  "unattached_surface (scroll_step sx sy w l) = unattached_surface l"
  by (auto simp: scroll_step_def Let_def put_ink_def scrolled_def fun_eq_iff split: option.split)

lemma scroll_fold:
  "per_window (fold (scroll_step sx sy) ws l) w =
     (if w \<in> set ws then map_option (scrolled sx sy) (per_window l w) else per_window l w)"
  "unattached_strokes (fold (scroll_step sx sy) ws l) = unattached_strokes l"
  "unattached_surface (fold (scroll_step sx sy) ws l) = unattached_surface l"
  by (induction ws arbitrary: l) (auto simp: option.map_comp o_def)

lemma scroll_update_windows:
  "per_window (meta_annotation_layer_set_window_scroll e pid sx sy l) w =
     (if layer_display l \<and> w \<in> set (collect_windows_for_pid e pid)
      then map_option (scrolled sx sy) (per_window l w) else per_window l w)"
  "unattached_strokes (meta_annotation_layer_set_window_scroll e pid sx sy l) = unattached_strokes l"
  "unattached_surface (meta_annotation_layer_set_window_scroll e pid sx sy l) = unattached_surface l"
  by (auto simp: meta_annotation_layer_set_window_scroll_def Let_def scroll_fold)
     (simp_all add: schedule_recompose_def scroll_fold)

lemma in_sync_window:
  "in_sync l (Some w) \<longleftrightarrow> (\<exists>k. per_window l w = Some k \<and>
     cs_cmds (wi_surface k) = replay_cmds (wi_strokes k) (Some k))"
  by (auto simp: in_sync_iff surface_at_def strokes_at_def ink_at_def)

lemma scrolled_in_sync:
  assumes "cs_cmds (wi_surface k) = replay_cmds (wi_strokes k) (Some k)"
  shows "cs_cmds (wi_surface (scrolled sx sy k)) =
    replay_cmds (wi_strokes (scrolled sx sy k)) (Some (scrolled sx sy k))"
proof (cases "scroll_x k = of_int sx \<and> scroll_y k = of_int sy")
  case False
  let ?k = "k\<lparr>scroll_x := of_int sx, scroll_y := of_int sy\<rparr>"
  have "replay_cmds (wi_strokes k) (Some ?k) = replay_cmds (wi_strokes k) (Some (window_ink_rasterize ?k))"
    by (rule replay_cmds_region_only) (simp_all add: has_region_def)
  moreover have "scrolled sx sy k = window_ink_rasterize ?k" using False by (auto simp: scrolled_def)
  ultimately show ?thesis by simp
qed (simp add: scrolled_def assms)

lemma scroll_update_in_sync:
  assumes "in_sync l a"
  shows "in_sync (meta_annotation_layer_set_window_scroll e pid sx sy l) a"
proof (cases a)
  case None
  then show ?thesis using assms
    by (simp add: in_sync_iff surface_at_def strokes_at_def ink_at_def scroll_update_windows)
next
  case (Some w)
  with assms show ?thesis
    by (auto simp: in_sync_window scroll_update_windows scrolled_in_sync)
qed

lemma scroll_update_strokes:
  "strokes_at (meta_annotation_layer_set_window_scroll e pid sx sy l) = strokes_at l"
  by (rule ext) (simp add: strokes_at_def scroll_update_windows option.map_comp o_def
      split: option.split)

section \<open>Clearing one anchor\<close>

lemma clear_anchor_effect:
  "strokes_at (clear_ink_for_anchor a l) = (strokes_at l)(a := map_option (\<lambda>ss. []) (strokes_at l a))"
  "surface_at (clear_ink_for_anchor a l) =
     (surface_at l)(a := map_option (\<lambda>c. c\<lparr>cs_cmds := []\<rparr>) (surface_at l a))"
proof -
  define l1 where "l1 = (case a of
      None \<Rightarrow> l\<lparr>unattached_surface := surface_clear (unattached_surface l),
                unattached_strokes := strokes_clear (unattached_strokes l)\<rparr>
    | Some w \<Rightarrow> (case per_window l w of None \<Rightarrow> l
        | Some k \<Rightarrow> put_ink w (k\<lparr>wi_surface := (wi_surface k)\<lparr>cs_cmds := []\<rparr>,
            wi_strokes := strokes_clear (wi_strokes k)\<rparr>) l))"
  define l2 where "l2 = (if stroke_anchor l1 = a then drop_stroke l1 else l1)"
  have eq: "clear_ink_for_anchor a l = schedule_recompose
      (if last_ink_anchor l2 = a \<or> (a = None \<and> last_ink_present l2 \<and> last_ink_anchor l2 = None)
       then set_last_ink_anchor None False l2 else l2)"
    unfolding clear_ink_for_anchor_def Let_def l1_def [symmetric] l2_def [symmetric] ..
  have D: "strokes_at (drop_stroke l') = strokes_at l'" "surface_at (drop_stroke l') = surface_at l'" for l'
    by (auto simp: drop_stroke_def set_stroke_anchor_eq strokes_at_def surface_at_def fun_eq_iff
        split: option.split)
  show "strokes_at (clear_ink_for_anchor a l) = (strokes_at l)(a := map_option (\<lambda>ss. []) (strokes_at l a))"
    by (simp add: eq l2_def D)
       (auto simp: l1_def strokes_at_def put_ink_def strokes_clear_def fun_eq_iff split: option.split)
  show "surface_at (clear_ink_for_anchor a l) =
      (surface_at l)(a := map_option (\<lambda>c. c\<lparr>cs_cmds := []\<rparr>) (surface_at l a))"
    by (simp add: eq l2_def D)
       (auto simp: l1_def surface_at_def put_ink_def surface_clear_def fun_eq_iff split: option.split)
qed

section \<open>Taps\<close>

lemma tap_history_reads [simp]:
  "strokes_at (l\<lparr>tap_history := h\<rparr>) = strokes_at l" "surface_at (l\<lparr>tap_history := h\<rparr>) = surface_at l"
  "strokes_at (l\<lparr>pending_tap := b\<rparr>) = strokes_at l" "surface_at (l\<lparr>pending_tap := b\<rparr>) = surface_at l"
  "strokes_at (note_tap_press now x y a l) = strokes_at l"
  "surface_at (note_tap_press now x y a l) = surface_at l"
  by (auto simp: note_tap_press_def strokes_at_def surface_at_def fun_eq_iff split: option.split)

text \<open>A release that counts as a tap, with the history it leaves to be checked.\<close>

definition valid_tap :: "int \<Rightarrow> real \<Rightarrow> real \<Rightarrow> annotation_layer \<Rightarrow> bool" where
  "valid_tap now x y l \<longleftrightarrow> pending_tap l \<and>
     now - pending_tap_press_us l \<le> TAP_MAX_DURATION_US \<and> \<not> tap_moved_away x y l"

lemma valid_tap_release:
  "valid_tap now x y l \<Longrightarrow> note_tap_release e now x y l =
     check_tap_gestures e (tap_history_append now (pending_tap_anchor l)
       (tap_history_prune now (l\<lparr>pending_tap := False\<rparr>)))"
  by (simp add: valid_tap_def note_tap_release_def tap_moved_away_def Let_def)

lemma recent_first_keeps:
  "now - tap_time_us t \<le> QUAD_TAP_WINDOW_US \<Longrightarrow>
   dropWhile (\<lambda>t. \<not> now - tap_time_us t \<le> QUAD_TAP_WINDOW_US) (t # ts) = t # ts"
  by simp

lemma triple_tap:
  assumes v: "valid_tap now x y l" and h: "tap_history l = [t1, t2]"
    and r: "now - tap_time_us t1 \<le> QUAD_TAP_WINDOW_US"
    and a: "tap_anchor t1 = a" "tap_anchor t2 = a" "pending_tap_anchor l = a"
  shows "strokes_at (note_tap_release e now x y l) =
      (strokes_at l)(a := map_option (\<lambda>ss. []) (strokes_at l a))"
    and "surface_at (note_tap_release e now x y l) =
      (surface_at l)(a := map_option (\<lambda>c. c\<lparr>cs_cmds := []\<rparr>) (surface_at l a))"
    and "tap_history (note_tap_release e now x y l) = []"
proof -
  define l' where "l' = l\<lparr>pending_tap := False,
    tap_history := [t1, t2, \<lparr>tap_time_us = now, tap_anchor = a\<rparr>]\<rparr>"
  have "tap_history_append now a (tap_history_prune now (l\<lparr>pending_tap := False\<rparr>)) = l'"
    using h r by (simp add: tap_history_append_def tap_history_prune_def l'_def TAP_HISTORY_SIZE_def)
  then have eq: "note_tap_release e now x y l = check_tap_gestures e l'"
    using valid_tap_release [OF v] a by simp
  have "check_tap_gestures e l' = tap_history_reset (clear_ink_for_anchor a l')"
    using a r by (simp add: check_tap_gestures_def Let_def l'_def tap_consts)
  with eq have eq': "note_tap_release e now x y l = tap_history_reset (clear_ink_for_anchor a l')"
    by simp
  have S: "strokes_at l' = strokes_at l" "surface_at l' = surface_at l"
    by (simp_all add: l'_def)
  show "strokes_at (note_tap_release e now x y l) =
      (strokes_at l)(a := map_option (\<lambda>ss. []) (strokes_at l a))"
    "surface_at (note_tap_release e now x y l) =
      (surface_at l)(a := map_option (\<lambda>c. c\<lparr>cs_cmds := []\<rparr>) (surface_at l a))"
    "tap_history (note_tap_release e now x y l) = []"
    unfolding eq' tap_history_reset_def by (simp_all add: clear_anchor_effect S)
qed

lemma quad_tap:
  assumes v: "valid_tap now x y l" and h: "tap_history l = [t1, t2, t3]"
    and r: "now - tap_time_us t1 \<le> QUAD_TAP_WINDOW_US"
  shows "strokes_at (note_tap_release e now x y l) a = map_option (\<lambda>ss. []) (strokes_at l a)"
    and "surface_at (note_tap_release e now x y l) a = map_option (\<lambda>c. c\<lparr>cs_cmds := []\<rparr>) (surface_at l a)"
    and "tap_history (note_tap_release e now x y l) = []"
proof -
  define l' where "l' = l\<lparr>pending_tap := False,
    tap_history := [t1, t2, t3, \<lparr>tap_time_us = now, tap_anchor = pending_tap_anchor l\<rparr>]\<rparr>"
  have "tap_history_append now (pending_tap_anchor l) (tap_history_prune now (l\<lparr>pending_tap := False\<rparr>)) = l'"
    using h r by (simp add: tap_history_append_def tap_history_prune_def l'_def TAP_HISTORY_SIZE_def)
  then have "note_tap_release e now x y l = check_tap_gestures e l'"
    using valid_tap_release [OF v] by simp
  moreover have "check_tap_gestures e l' = tap_history_reset (meta_annotation_layer_clear e l')"
    by (simp add: check_tap_gestures_def Let_def l'_def TAP_HISTORY_SIZE_def)
  ultimately have eq: "note_tap_release e now x y l =
      (meta_annotation_layer_clear e l')\<lparr>tap_history := []\<rparr>" by (simp add: tap_history_reset_def)
  have "strokes_at l' = strokes_at l" "surface_at l' = surface_at l" by (simp_all add: l'_def)
  then show "strokes_at (note_tap_release e now x y l) a = map_option (\<lambda>ss. []) (strokes_at l a)"
    "surface_at (note_tap_release e now x y l) a = map_option (\<lambda>c. c\<lparr>cs_cmds := []\<rparr>) (surface_at l a)"
    "tap_history (note_tap_release e now x y l) = []"
    by (simp_all add: eq clear_effect)
qed

text \<open>A press and a release at the same place, within the tap duration.\<close>

definition tap_at ::
  "'r display_env \<Rightarrow> int \<times> real \<times> real \<times> window option \<Rightarrow> annotation_layer \<Rightarrow> annotation_layer" where
  "tap_at e t l = (case t of (now, x, y, a) \<Rightarrow>
     note_tap_release e now x y (note_tap_press now x y a l))"

lemma slow_tap:
  assumes "\<forall>t \<in> set (tap_history l). QUAD_TAP_WINDOW_US < now - tap_time_us t"
  shows "strokes_at (tap_at e (now, x, y, a) l) = strokes_at l"
    and "surface_at (tap_at e (now, x, y, a) l) = surface_at l"
    and "tap_history (tap_at e (now, x, y, a) l) = [\<lparr>tap_time_us = now, tap_anchor = a\<rparr>]"
proof -
  let ?l = "note_tap_press now x y a l"
  have v: "valid_tap now x y ?l"
    by (simp add: valid_tap_def note_tap_press_def tap_moved_away_def tap_consts)
  have drop: "dropWhile (\<lambda>t. \<not> now - tap_time_us t \<le> QUAD_TAP_WINDOW_US) (tap_history l) = []"
    using assms by (auto simp: dropWhile_eq_Nil_conv)
  have "tap_at e (now, x, y, a) l =
      ?l\<lparr>pending_tap := False, tap_history := [\<lparr>tap_time_us = now, tap_anchor = a\<rparr>]\<rparr>"
    unfolding tap_at_def prod.case valid_tap_release [OF v]
    by (simp add: tap_history_append_def tap_history_prune_def TAP_HISTORY_SIZE_def
        check_tap_gestures_def note_tap_press_def drop del: dropWhile_eq_Nil_conv not_le)
  then show "strokes_at (tap_at e (now, x, y, a) l) = strokes_at l"
    "surface_at (tap_at e (now, x, y, a) l) = surface_at l"
    "tap_history (tap_at e (now, x, y, a) l) = [\<lparr>tap_time_us = now, tap_anchor = a\<rparr>]"
    by simp_all
qed

fun slow_taps :: "(int \<times> real \<times> real \<times> window option) list \<Rightarrow> bool" where
  "slow_taps (t # u # ts) = (QUAD_TAP_WINDOW_US < fst u - fst t \<and> slow_taps (u # ts))"
| "slow_taps ts = True"

lemma slow_taps_effect:
  assumes "slow_taps ts" "ts \<noteq> [] \<Longrightarrow> \<forall>t \<in> set (tap_history l). QUAD_TAP_WINDOW_US < fst (hd ts) - tap_time_us t"
  shows "strokes_at (fold (tap_at e) ts l) = strokes_at l \<and> surface_at (fold (tap_at e) ts l) = surface_at l"
  using assms
proof (induction ts arbitrary: l)
  case (Cons t ts)
  obtain now x y a where t: "t = (now, x, y, a)" by (cases t) auto
  have *: "\<forall>t \<in> set (tap_history l). QUAD_TAP_WINDOW_US < now - tap_time_us t"
    using Cons.prems(2) t by simp
  note T = slow_tap [OF *, of e x y a, folded t]
  have "slow_taps ts" using Cons.prems(1) by (cases ts) simp_all
  moreover have "ts \<noteq> [] \<Longrightarrow> \<forall>t' \<in> set (tap_history (tap_at e t l)). QUAD_TAP_WINDOW_US < fst (hd ts) - tap_time_us t'"
    using Cons.prems(1) T(3) t by (cases ts) simp_all
  ultimately show ?case using Cons.IH [of "tap_at e t l"] T by simp
qed simp

end
