(* ===== verification/Annot_Fresh.thy ===== *)
theory Annot_Fresh
  imports Annot_Effects
begin

text \<open>
  No repaint is lost: after every call the uploaded texture shows the current composition, or an
  idle recomposition is installed, or the layer is hidden and marked dirty, which makes its next
  showing recompose. Only \<open>set_chrome_regions (NULL)\<close> breaks this, and moves of windows the layer
  has no signal connected to.
\<close>

section \<open>What the texture has to show\<close>

text \<open>A blit of a surface without paint shows nothing.\<close>

fun paints :: "comp_op \<Rightarrow> bool" where
  "paints (Blit clips s x y) = (cs_cmds s \<noteq> [])"
| "paints (Punch rs) = True"

definition up_to_date :: "'r display_env \<Rightarrow> annotation_layer \<Rightarrow> bool" where
  "up_to_date e l \<longleftrightarrow>
     (case surface l of
        None \<Rightarrow> True
      | Some c \<Rightarrow> texture l = Some c \<and> filter paints (comp_ops c) = filter paints (compose_ops e l))"

definition repaint_due :: "annotation_layer \<Rightarrow> bool" where
  "repaint_due l \<longleftrightarrow> recompose_idle l \<or> (\<not> active l \<or> paused l) \<and> recompose_dirty l"

definition settled :: "'r display_env \<Rightarrow> annotation_layer \<Rightarrow> bool" where
  "settled e l \<longleftrightarrow> (layer_display l \<longrightarrow> up_to_date e l \<or> repaint_due l)"

section \<open>What it depends on\<close>

definition painted_ink :: "window_ink option \<Rightarrow> cairo_surface option" where
  "painted_ink k =
     (case k of
        None \<Rightarrow> None
      | Some i \<Rightarrow> if cs_cmds (wi_surface i) = [] then None else Some (wi_surface i))"

definition picture where
  "picture l = ((layer_display l, surface l, texture l, unattached_surface l, stage_width l, stage_height l),
     (\<lambda>w. painted_ink (per_window l w)),
     (chrome_regions l, active l, paused l, recompose_idle l, recompose_dirty l))"

lemma picture_compose:
  assumes "unattached_surface l' = unattached_surface l" "stage_rect l' = stage_rect l"
    and "\<And>w. painted_ink (per_window l' w) = painted_ink (per_window l w)"
    and "chrome_regions l' = chrome_regions l"
  shows "filter paints (compose_ops e l') = filter paints (compose_ops e l)"
proof -
  have ink: "filter paints (case per_window k w of None \<Rightarrow> []
        | Some i \<Rightarrow> [Blit [region_rectangles (region_lib e) vis] (wi_surface i) x y]) =
      (case painted_ink (per_window k w) of None \<Rightarrow> []
        | Some s \<Rightarrow> [Blit [region_rectangles (region_lib e) vis] s x y])" for k w vis x y
    by (simp add: painted_ink_def split: option.split)
  have cat: "filter paints (concat (map f ps)) = concat (map (\<lambda>p. filter paints (f p)) ps)"
    for f and ps :: "(window \<times> 'r) list"
    by (induction ps) simp_all
  show ?thesis
    using assms by (simp add: compose_ops_def Let_def filter_append cat split_beta ink cong: option.case_cong)
qed

lemma picture_settled: "picture l' = picture l \<Longrightarrow> settled e l' = settled e l"
proof -
  assume p: "picture l' = picture l"
  then have "\<And>w. painted_ink (per_window l' w) = painted_ink (per_window l w)"
    by (simp add: picture_def fun_eq_iff)
  with p picture_compose [of l' l e] show ?thesis
    by (simp add: settled_def up_to_date_def repaint_due_def picture_def stage_rect_def cong: option.case_cong)
qed

lemma settled_pic: "settled e l \<Longrightarrow> picture l' = picture l \<Longrightarrow> settled e l'"
  using picture_settled [of l' l e] by blast

section \<open>Repaints\<close>

lemma settled_schedule [simp]: "settled e (schedule_recompose l)"
  by (simp add: settled_def up_to_date_def repaint_due_def schedule_recompose_def)

lemma compose_ops_frame [simp]:
  "compose_ops e (l\<lparr>surface := s\<rparr>) = compose_ops e l"
  "compose_ops e (l\<lparr>texture := t\<rparr>) = compose_ops e l"
  "compose_ops e (l\<lparr>recompose_dirty := b\<rparr>) = compose_ops e l"
  by (simp_all add: compose_ops_def stage_rect_def cong: option.case_cong)

lemma recompose_up_to_date:
  "layer_display l \<Longrightarrow> active l \<Longrightarrow> \<not> paused l \<Longrightarrow> up_to_date e (recompose e l)"
  by (simp add: up_to_date_def recompose_def sync_texture_from_surface_def Let_def split: option.split)

lemma settled_recompose [simp]: "settled e (recompose e l)"
proof (cases "layer_display l \<and> active l \<and> \<not> paused l")
  case True
  then show ?thesis using recompose_up_to_date [of l e] by (simp add: settled_def)
next
  case False
  then show ?thesis
    by (auto simp: settled_def up_to_date_def repaint_due_def recompose_def split: option.split)
qed

lemma settled_visibility:
  assumes "up_to_date e l \<or> recompose_idle l \<or> recompose_dirty l \<or> \<not> layer_display l"
  shows "settled e (update_actor_visibility e l)"
proof (cases "active l \<and> \<not> paused l \<and> recompose_dirty l")
  case True
  have "settled e ((recompose e (l1\<lparr>recompose_idle := False\<rparr>))\<lparr>actor_visible := True\<rparr>)" for l1
    by (rule settled_pic [OF settled_recompose [of e "l1\<lparr>recompose_idle := False\<rparr>"]])
       (simp add: picture_def)
  with True show ?thesis by (simp add: update_actor_visibility_def Let_def)
next
  case False
  have "settled e l" using assms False by (auto simp: settled_def repaint_due_def)
  moreover have "picture (update_actor_visibility e l) = picture l"
    using False by (auto simp: update_actor_visibility_def Let_def picture_def)
  ultimately show ?thesis using picture_settled by blast
qed

section \<open>Operations that show nothing new\<close>

lemma picture_fields [simp]:
  "picture (l\<lparr>current_stroke := c\<rparr>) = picture l" "picture (l\<lparr>pending_tap := b\<rparr>) = picture l"
  "picture (l\<lparr>tap_history := h\<rparr>) = picture l" "picture (l\<lparr>pen_barrel_buttons := m\<rparr>) = picture l"
  "picture (l\<lparr>chrome_press_id := i\<rparr>) = picture l" "picture (l\<lparr>pen_rgba := c'\<rparr>) = picture l"
  "picture (l\<lparr>next_stroke := n\<rparr>) = picture l" "picture (l\<lparr>unattached_strokes := ss\<rparr>) = picture l"
  by (simp_all add: picture_def)

lemma picture_anchors [simp]:
  "picture (set_stroke_anchor a l) = picture l" "picture (set_last_ink_anchor a p l) = picture l"
  "picture (drop_stroke l) = picture l" "picture (seal_stroke l) = picture l"
  by (simp_all add: picture_def set_stroke_anchor_eq set_last_ink_anchor_eq drop_stroke_def
      seal_stroke_def)

lemma picture_put_strokes [simp]: "picture (put_strokes a ss l) = picture l"
  by (auto simp: put_strokes_def put_ink_def picture_def painted_ink_def fun_eq_iff split: option.split)

lemma picture_update_stroke [simp]: "picture (update_stroke i f l) = picture l"
  by (simp add: update_stroke_def Let_def picture_def painted_ink_def fun_eq_iff split: option.split)

lemma picture_append [simp]: "picture (append_ink_point pt f l) = picture l"
proof -
  have "picture (l1\<lparr>current_stroke := a, next_stroke := b\<rparr>) = picture l1" for l1 a b
    by (simp add: picture_def)
  then show ?thesis by (simp add: append_ink_point_def Let_def split: option.split)
qed

lemma picture_ensure [simp]: "picture (snd (ensure_window_ink e w l)) = picture l"
  by (auto simp: ensure_window_ink_def Let_def put_ink_def picture_def painted_ink_def fun_eq_iff
      window_ink_new_def cairo_surface_new_cleared_def split: option.split)

lemma picture_begin [simp]: "picture (begin_stroke e x y pr tilt er l) = picture l"
proof -
  have "picture (restart a f x y p t k) = picture k" for a f x y p t k
    by (simp add: restart_def picture_def)
  moreover have "picture (with_ink e a k) = picture k" for a k
    by (simp add: with_ink_def split: option.split)
  ultimately show ?thesis
    by (simp add: begin_stroke_eq begin_restarted_def Let_def split: prod.split option.split)
qed

lemma settled_continue [simp]: "settled e' (continue_stroke e x y pr tilt er l)"
  by (simp add: continue_stroke_def Let_def split: prod.split)

lemma settled_end [simp]: "settled e (end_stroke l)"
  by (simp add: end_stroke_def)

lemma picture_modifier [simp]: "picture (snd (handle_tool_modifier_press ev b l)) = picture l"
  by (simp add: handle_tool_modifier_press_def Let_def)

lemma picture_taps [simp]:
  "picture (note_tap_press now x y a l) = picture l" "picture (cancel_tap_pending l) = picture l"
  "picture (cancel_tap_if_moved x y l) = picture l"
  by (simp_all add: note_tap_press_def cancel_tap_pending_def cancel_tap_if_moved_def picture_def)

lemma settled_moved [simp]:
  "settled e' (cancel_tap_if_moved x y (continue_stroke e x' y' pr tilt er l))"
  by (rule settled_pic [OF settled_continue picture_taps(3)])

lemma settled_motion: "settled e l \<Longrightarrow> settled e (motion_branch e ev l)"
proof -
  assume s: "settled e l"
  show ?thesis
    unfolding motion_branch_def Let_def by (simp add: settled_pic [OF s])
qed

lemma settled_press: "settled e l \<Longrightarrow> settled e (press_branch e now ev l)"
  by (erule settled_pic) (simp add: press_branch_def Let_def)

lemma settled_release: "settled e (release_branch e now ev l)"
  by (simp add: release_branch_def Let_def)

lemma settled_button_press: "settled e l \<Longrightarrow> settled e (button_press_branch e now ev l)"
proof -
  assume s: "settled e l"
  obtain b k where m: "handle_tool_modifier_press ev True l = (b, k)" by fastforce
  have "settled e k" using settled_pic [OF s] picture_modifier [of ev True l] m by simp
  then show ?thesis using s by (simp add: button_press_branch_def m settled_press)
qed

lemma settled_button_release: "settled e l \<Longrightarrow> settled e (button_release_branch e now ev l)"
proof -
  assume s: "settled e l"
  obtain b k where m: "handle_tool_modifier_press ev False l = (b, k)" by fastforce
  have "settled e k" using settled_pic [OF s] picture_modifier [of ev False l] m by simp
  then show ?thesis by (simp add: button_release_branch_def m settled_release)
qed

lemma settled_event: "settled e l \<Longrightarrow> settled e (snd (meta_annotation_layer_handle_event e now ev l))"
proof -
  assume s: "settled e l"
  have "settled e (if stroke_active l then cancel_tap_if_moved x y (continue_with e ev l) else l)" for x y
    using s by (simp add: continue_with_def)
  then show ?thesis
    using s settled_button_press [OF s] settled_button_release [OF s] settled_press [OF s]
      settled_motion [OF s]
    by (simp add: meta_annotation_layer_handle_event_def settled_release continue_with_def
        split: clutter_event_type.split)
qed

section \<open>Every call\<close>

lemma picture_display: "picture l' = picture l \<Longrightarrow> layer_display l' = layer_display l"
  by (simp add: picture_def)

lemma settled_set_active:
  assumes "settled e l"
  shows "settled e (fst (meta_annotation_layer_set_active e b (l, g)))"
proof -
  let ?l1 = "l\<lparr>active := b\<rparr>"
  have up: "up_to_date e k \<or> recompose_idle k \<or> recompose_dirty k \<or> \<not> layer_display k"
    if "k = ?l1 \<or> k = set_last_ink_anchor None False (?l1\<lparr>pen_barrel_buttons := 0, current_stroke := None\<rparr>)" for k
  proof -
    have "compose_ops e k = compose_ops e l" "surface k = surface l" "texture k = texture l"
      "recompose_idle k = recompose_idle l" "recompose_dirty k = recompose_dirty l"
      "layer_display k = layer_display l"
      using that by (auto simp: set_last_ink_anchor_eq compose_ops_def stage_rect_def cong: option.case_cong)
    with assms show ?thesis
      by (auto simp: settled_def repaint_due_def up_to_date_def cong: option.case_cong)
  qed
  show ?thesis using settled_visibility [OF up]
    by (simp add: meta_annotation_layer_set_active_def Let_def)
qed

lemma settled_set_paused:
  assumes "settled e l"
  shows "settled e (meta_annotation_layer_set_paused e b l)"
proof -
  define k where "k = (let l2 = (if \<not> paused l \<and> b \<and> stroke_active (l\<lparr>paused := b\<rparr>)
        then drop_stroke (l\<lparr>paused := b\<rparr>) else l\<lparr>paused := b\<rparr>)
      in if \<not> paused l \<and> b then l2\<lparr>pen_barrel_buttons := 0\<rparr> else l2)"
  have "compose_ops e k = compose_ops e l" "surface k = surface l" "texture k = texture l"
      "recompose_idle k = recompose_idle l" "recompose_dirty k = recompose_dirty l"
      "layer_display k = layer_display l"
    by (auto simp: k_def Let_def drop_stroke_def set_stroke_anchor_eq compose_ops_def stage_rect_def
        cong: option.case_cong)
  with assms have "up_to_date e k \<or> recompose_idle k \<or> recompose_dirty k \<or> \<not> layer_display k"
    by (auto simp: settled_def repaint_due_def up_to_date_def cong: option.case_cong)
  then have "settled e (update_actor_visibility e k)" by (rule settled_visibility)
  then show ?thesis unfolding meta_annotation_layer_set_paused_def k_def Let_def by simp
qed

lemma settled_undo: "settled e l \<Longrightarrow> settled e (meta_annotation_layer_undo_last l)"
  by (simp add: meta_annotation_layer_undo_last_def Let_def split: option.split)

lemma settled_new: "settled e (fst (meta_annotation_layer_new e' display g))"
proof -
  have "surface (layer_zeroed d) = None" "active (layer_zeroed d) = False" for d
    by (simp_all add: layer_zeroed_def)
  then have z: "settled e (layer_zeroed d)" for d by (simp add: settled_def up_to_date_def)
  have "settled e (recreate_buffers w h (layer_zeroed d))" for w h d
    using z by (simp add: recreate_buffers_def Let_def)
  then have "settled e (drop_stroke (recreate_buffers w h (layer_zeroed d)))" for w h d
    by (rule settled_pic) simp
  then have "settled e (on_stage_size_changed e' (layer_zeroed display))"
    by (simp add: on_stage_size_changed_def split: prod.split)
  then have "settled e ((on_stage_size_changed e' (layer_zeroed display))\<lparr>actor_visible := False\<rparr>)"
    by (rule settled_pic) (simp add: picture_def)
  then show ?thesis by (simp add: meta_annotation_layer_new_def)
qed

lemma settled_stage: "settled e l \<Longrightarrow> settled e (on_stage_size_changed e' l)"
proof -
  assume s: "settled e l"
  have "settled e (recreate_buffers w h l)" for w h using s by (simp add: recreate_buffers_def Let_def)
  then have "settled e (drop_stroke (recreate_buffers w h l))" for w h
    by (rule settled_pic) simp
  then show ?thesis by (simp add: on_stage_size_changed_def split: prod.split)
qed

theorem settled_exec:
  assumes s: "settled e (fst s)" and "c \<noteq> Call_set_chrome None" and "call_enabled c (fst s)"
  shows "settled e (fst (exec_call e c s))"
proof (cases s)
  case (Pair l g)
  then have l: "settled e l" using s by simp
  show ?thesis
    using assms(2,3) l unfolding Pair
    by (cases c)
       (auto simp: settled_event clear_eq settled_undo settled_set_active settled_set_paused settled_stage
        meta_annotation_layer_set_color_def settled_pic [OF l]
        meta_annotation_layer_set_window_editor_region_def meta_annotation_layer_set_window_scroll_def
        meta_annotation_layer_set_chrome_regions_def meta_annotation_layer_clear_chrome_regions_def
        meta_annotation_layer_set_chrome_press_active_def meta_annotation_layer_clear_chrome_press_def
        on_window_position_changed_def on_window_size_changed_def on_window_min_notify_def
        on_window_workspace_changed_def on_window_unmanaged_def on_display_restacked_def
        on_active_workspace_changed_def recompose_idle_cb_def Let_def split: option.split)
qed

text \<open>The signals that announce a change of the display.\<close>

fun display_signal :: "annot_call \<Rightarrow> bool" where
  "display_signal (Sig_position w) = True"
| "display_signal (Sig_size w) = True"
| "display_signal (Sig_minimized w) = True"
| "display_signal (Sig_workspace w) = True"
| "display_signal (Sig_unmanaged w) = True"
| "display_signal Sig_restacked = True"
| "display_signal Sig_active_workspace = True"
| "display_signal _ = False"

lemma settled_signal:
  assumes "display_signal c" "call_enabled c (fst s)"
  shows "settled e (fst (exec_call e c s))"
  using assms
  by (cases s; cases c)
     (auto simp: on_window_position_changed_def on_window_size_changed_def on_window_min_notify_def
      on_window_workspace_changed_def on_window_unmanaged_def on_display_restacked_def
      on_active_workspace_changed_def Let_def split: option.split)

text \<open>A history of the overlay in which every change of the display is announced by a signal the
  layer is connected to; the last argument is the display as it is now.\<close>

inductive announced_run :: "'r display_env \<Rightarrow> annot_world \<Rightarrow> bool" where
  start: "announced_run e (meta_annotation_layer_new e display g)"
| call: "announced_run e s \<Longrightarrow> call_enabled c (fst s) \<Longrightarrow> c \<noteq> Call_set_chrome None \<Longrightarrow>
         announced_run e (exec_call e c s)"
| change: "announced_run e s \<Longrightarrow> display_signal c \<Longrightarrow> call_enabled c (fst s) \<Longrightarrow>
           announced_run e' (exec_call e' c s)"

lemma announced_run_settled: "announced_run e s \<Longrightarrow> settled e (fst s)"
  by (induction rule: announced_run.induct) (simp_all add: settled_new settled_exec settled_signal)

end
