(* ===== verification/Annot_Display.thy ===== *)
theory Annot_Display
  imports Annot_Mode
begin

text \<open>
  Where the overlay sits in Mutter's event path: \<open>meta_display_handle_event\<close> of
  \<open>mutter/src/core/events.c\<close>, which asks the device policy before it updates Wayland and offers
  each event to the router before windows and Wayland clients; and the two places that hide the
  pen's cursor (\<open>mutter/src/backends/meta-sprite.c\<close>,
  \<open>mutter/src/wayland/meta-wayland-tablet-tool.c\<close>). The other handlers on the path are
  represented by the answers they give for the event at hand and by the record of the calls made.
\<close>

unbundle bit_operations_syntax

section \<open>The event path\<close>

text \<open>What the other handlers and getters answer. \<open>stage_has_grab\<close>, \<open>stage_has_key_focus\<close>, the
  window drag and the pad OSD are asked at several places; they may answer differently.\<close>

record dispatch =
  captured_input :: bool
  a11y_grabbed :: bool
  has_text_input :: bool
  drag_at_text_input :: bool
  text_input_handled :: bool
  pad_osd_at_pad :: bool
  mode_switch_button_group :: int
  pad_mapper_handled :: bool
  tool_mapper_handled :: bool
  flag_synthetic :: bool
  grab_at_entry :: bool
  grab_at_window :: bool
  grab_at_route :: bool
  key_focus_at_window :: bool
  key_focus_at_entry :: bool
  focus_window :: "window option"
  actor_window :: "window option"
  current_time_missing :: bool
  drag_at_keys :: bool
  keybinding_handled :: bool
  mouse_button_mods :: int
  compositor_modifiers :: "32 word"
  pad_osd_at_route :: bool
  ungrabbed_handled :: bool
  close_dialog_visible :: bool
  event_time_missing :: bool
  wayland_handled :: bool

text \<open>The calls that are made, in order.\<close>

datatype display_call =
    Process_captured_input | A11y_notify_clients | A11y_notify_motion | Seat_a11y_update
  | Text_input_update | Wayland_compositor_update | Pad_action_mapper | Tool_action_mapper
  | Reset_idle_time | Set_user_time window | Process_keybinding "window option"
  | Route_annotation | Handle_ungrabbed window | Check_alive window | Wayland_handle

text \<open>\<open>CLUTTER_EVENT_STOP\<close> and \<open>CLUTTER_EVENT_PROPAGATE\<close> end the function.\<close>

datatype flow = Go | Event_stop | Event_propagate

type_synonym stage_result = "flow \<times> display_call list"

definition and_then :: "stage_result \<Rightarrow> stage_result \<Rightarrow> stage_result" where
  "and_then r k =
     (case fst r of Go \<Rightarrow> (fst k, snd r @ snd k) | _ \<Rightarrow> r)"

definition is_key_event :: "clutter_event_type \<Rightarrow> bool" where
  "is_key_event t \<longleftrightarrow> t = CLUTTER_KEY_PRESS \<or> t = CLUTTER_KEY_RELEASE"

definition get_window_for_event :: "dispatch \<Rightarrow> clutter_event \<Rightarrow> window option" where
  "get_window_for_event q ev =
     (if grab_at_window q then None
      else if is_key_event (ev_type ev)
      then (if key_focus_at_window q then focus_window q else None)
      else actor_window q)"

definition handle_idletime_for_event :: "dispatch \<Rightarrow> clutter_event \<Rightarrow> display_call list" where
  "handle_idletime_for_event q ev =
     (if flag_synthetic q \<or> ev_type ev = CLUTTER_ENTER \<or> ev_type ev = CLUTTER_LEAVE then []
      else [Reset_idle_time])"

text \<open>From the entry up to the update of the Wayland seat.\<close>

definition display_capture :: "dispatch \<Rightarrow> annot_input \<Rightarrow> clutter_event \<Rightarrow> stage_result" where
  "display_capture q g ev =
     and_then (if captured_input q then Event_stop else Go, [Process_captured_input])
     (and_then
       (if is_key_event (ev_type ev)
        then (if a11y_grabbed q then Event_stop else Go, [A11y_notify_clients])
        else (Go, if ev_type ev = CLUTTER_MOTION \<and> ev_tool ev = None then [A11y_notify_motion] else []))
     (and_then (Go, [Seat_a11y_update])
     (and_then
       (if has_text_input q \<and> \<not> drag_at_text_input q
        then (if text_input_handled q then Event_stop else Go, [Text_input_update])
        else (Go, []))
       (Go, if \<not> meta_annotation_input_event_should_skip_wayland_seat_sync g ev
            then [Wayland_compositor_update] else []))))"

text \<open>Action mappers and the idle time.\<close>

definition is_pad_event :: "clutter_event_type \<Rightarrow> bool" where
  "is_pad_event t \<longleftrightarrow> t = CLUTTER_PAD_BUTTON_PRESS \<or> t = CLUTTER_PAD_BUTTON_RELEASE \<or>
     t = CLUTTER_PAD_RING \<or> t = CLUTTER_PAD_STRIP \<or> t = CLUTTER_PAD_DIAL"

definition display_mappers :: "dispatch \<Rightarrow> clutter_event \<Rightarrow> stage_result" where
  "display_mappers q ev =
     and_then
       (if is_pad_event (ev_type ev) then
          (let is_mode_switch =
                 (ev_type ev = CLUTTER_PAD_BUTTON_PRESS \<or> ev_type ev = CLUTTER_PAD_BUTTON_RELEASE) \<and>
                 mode_switch_button_group q \<ge> 0;
               handle_pad_event = (\<not> pad_osd_at_pad q \<or> is_mode_switch)
           in if handle_pad_event
              then (if pad_mapper_handled q then Event_stop else Go, [Pad_action_mapper])
              else (Go, []))
        else if ev_type ev = CLUTTER_BUTTON_PRESS \<or> ev_type ev = CLUTTER_BUTTON_RELEASE then
          (let tablet = (case ev_device ev of None \<Rightarrow> False
                         | Some d \<Rightarrow> has_cap d CLUTTER_INPUT_CAPABILITY_TABLET_TOOL)
           in (if tablet \<and> tool_mapper_handled q \<or> ev_button ev = 0 then Event_stop else Go,
               if tablet then [Tool_action_mapper] else []))
        else (Go, []))
       (Go, if ev_type ev \<noteq> CLUTTER_DEVICE_ADDED \<and> ev_type ev \<noteq> CLUTTER_DEVICE_REMOVED
            then handle_idletime_for_event q ev else [Pad_action_mapper])"

text \<open>User time, key bindings, and the reasons to leave the event to Clutter.\<close>

definition display_focus :: "'r display_env \<Rightarrow> dispatch \<Rightarrow> clutter_event \<Rightarrow> stage_result" where
  "display_focus e q ev =
     (let window = get_window_for_event q ev
      in and_then
           (Go, case window of
                  None \<Rightarrow> []
                | Some w \<Rightarrow>
                    if \<not> override_redirect (win_of e w) \<and>
                       (ev_type ev = CLUTTER_KEY_PRESS \<or> ev_type ev = CLUTTER_BUTTON_PRESS \<or>
                        ev_type ev = CLUTTER_TOUCH_BEGIN) \<and>
                       \<not> current_time_missing q
                    then [Set_user_time w] else [])
         (and_then
           (if \<not> drag_at_keys q
            then (if keybinding_handled q then Event_stop else Go, [Process_keybinding window])
            else (Go, []))
         (if \<not> grab_at_entry q \<and> is_key_event (ev_type ev) \<and> \<not> key_focus_at_entry q
          then (Event_propagate, [])
          else if ev_type ev = CLUTTER_SCROLL \<and> mouse_button_mods q > 0 \<and>
                  ev_state ev AND compositor_modifiers q = compositor_modifiers q
          then (Event_propagate, [])
          else if pad_osd_at_route q then (Event_propagate, [])
          else if grab_at_route q then (Event_propagate, [])
          else (Go, []))))"

text \<open>After the router declined the event.\<close>

definition display_deliver :: "dispatch \<Rightarrow> clutter_event \<Rightarrow> stage_result" where
  "display_deliver q ev =
     (let window = get_window_for_event q ev
      in and_then
           (case window of
              None \<Rightarrow> (Go, [])
            | Some w \<Rightarrow>
                (if ungrabbed_handled q then Event_stop
                 else if close_dialog_visible q then Event_propagate else Go, [Handle_ungrabbed w]))
         (and_then
           (Go, case window of
                  None \<Rightarrow> []
                | Some w \<Rightarrow> if ev_type ev = CLUTTER_MOTION \<and> \<not> event_time_missing q
                            then [Check_alive w] else [])
           (if wayland_handled q then Event_stop else Event_propagate, [Wayland_handle])))"

text \<open>The whole function; its result is how it ends, the calls made, and the overlay's state.\<close>

definition meta_display_handle_event ::
  "(graphene_rect \<Rightarrow> real \<Rightarrow> real \<Rightarrow> bool) \<Rightarrow> 'r display_env \<Rightarrow> dispatch \<Rightarrow> int \<Rightarrow> annot_input \<Rightarrow>
   clutter_event \<Rightarrow> annotation_layer option \<times> annot_dbus \<Rightarrow>
   stage_result \<times> annotation_layer option \<times> annot_dbus" where
  "meta_display_handle_event cp e q now g ev s =
     (let early = and_then (display_capture q g ev)
                    (and_then (display_mappers q ev) (display_focus e q ev))
      in case fst early of
           Go \<Rightarrow>
             (let (consumed, s') = meta_compositor_route_annotation_event cp e now ev s
              in (and_then early
                    (if consumed then (Event_stop, [Route_annotation])
                     else and_then (Go, [Route_annotation]) (display_deliver q ev)), s'))
         | _ \<Rightarrow> (early, s))"

section \<open>The pen's cursor\<close>

text \<open>\<open>meta_sprite_update_cursor\<close>: what the sprite's renderer is given, and what the cursor
  tracker is told; \<^const>\<open>None\<close> where no call is made. A cursor is an argument.\<close>

definition meta_sprite_update_cursor ::
  "annot_input \<Rightarrow> bool \<Rightarrow> bool \<Rightarrow> bool \<Rightarrow> bool \<Rightarrow> 'c option \<Rightarrow> 'c option option \<times> 'c option option"
where
  "meta_sprite_update_cursor g has_current_actor has_renderer role_pointer pointer_visible cursor =
     (if \<not> has_current_actor then (None, None)
      else if \<not> has_renderer then (None, None)
      else if role_pointer
      then (Some (if pointer_visible then cursor else None), Some cursor)
      else (Some (if non_mouse_isolated g then None else cursor), None))"

datatype cursor_source = CURSOR_SOURCE_UNSET | CURSOR_SOURCE_SHAPE | CURSOR_SOURCE_SURFACE

text \<open>The cursor a tablet tool shows: of its surface, of a shape, or none. A cursor object is
  named by how the backend makes it.\<close>

datatype 's tool_cursor =
    Surface_cursor 's | Shape_cursor nat | Cursor_none | Cursor_default

record 's tablet_tool =
  tool_focus_surface :: bool
  tool_cursor_source :: cursor_source
  tool_cursor_surface :: "'s option"
  tool_cursor_shape :: nat
  tool_current :: bool
  tool_cursor :: "'s tool_cursor option"

definition tablet_tool_new_cursor :: "annot_input \<Rightarrow> 's tablet_tool \<Rightarrow> 's tool_cursor option" where
  "tablet_tool_new_cursor g tool =
     (if tool_focus_surface tool then
        (case tool_cursor_source tool of
           CURSOR_SOURCE_SURFACE \<Rightarrow>
             (case tool_cursor_surface tool of
                Some s \<Rightarrow> Some (Surface_cursor s)
              | None \<Rightarrow> Some Cursor_none)
         | CURSOR_SOURCE_SHAPE \<Rightarrow> Some (Shape_cursor (tool_cursor_shape tool))
         | CURSOR_SOURCE_UNSET \<Rightarrow> None)
      else if tool_current tool
      then Some (if non_mouse_isolated g then Cursor_none else Cursor_default)
      else None)"

text \<open>The result also says whether the sprite must draw its cursor again.\<close>

definition meta_wayland_tablet_tool_update_cursor ::
  "annot_input \<Rightarrow> 's tablet_tool \<Rightarrow> bool \<times> 's tablet_tool" where
  "meta_wayland_tablet_tool_update_cursor g tool =
     (let cursor = tablet_tool_new_cursor g tool
      in (cursor \<noteq> tool_cursor tool, tool\<lparr>tool_cursor := cursor\<rparr>))"

section \<open>Calls of the stages\<close>

lemma set_and_then:
  "set (snd (and_then r k)) = set (snd r) \<union> (if fst r = Go then set (snd k) else {})"
  by (cases "fst r") (simp_all add: and_then_def)

lemma fst_and_then: "fst (and_then r k) = (if fst r = Go then fst k else fst r)"
  by (cases "fst r") (simp_all add: and_then_def)

lemma and_then_Go: "fst r = Go \<Longrightarrow> and_then r k = (fst k, snd r @ snd k)"
  by (simp add: and_then_def)

definition client_calls :: "display_call set" where
  "client_calls = {Wayland_compositor_update, Wayland_handle} \<union> range Handle_ungrabbed \<union> range Check_alive"

lemma capture_calls:
  "set (snd (display_capture q g ev)) \<inter> client_calls \<subseteq>
     (if meta_annotation_input_event_should_skip_wayland_seat_sync g ev then {} else {Wayland_compositor_update})"
  by (auto simp: display_capture_def set_and_then client_calls_def split: if_splits)

lemma mappers_calls: "set (snd (display_mappers q ev)) \<inter> client_calls = {}"
  by (auto simp: display_mappers_def set_and_then client_calls_def handle_idletime_for_event_def
      Let_def split: if_splits)

lemma focus_calls: "set (snd (display_focus e q ev)) \<inter> client_calls = {}"
  by (auto simp: display_focus_def set_and_then client_calls_def Let_def
      split: if_splits option.splits)

section \<open>The layer consumes what the policy claims\<close>

lemma handled_events:
  assumes "active l" "\<not> paused l" "surface l \<noteq> None" "meta_annotation_event_targets_overlay ev"
    and "ev_type ev \<noteq> CLUTTER_SCROLL"
  shows "fst (meta_annotation_layer_handle_event e now ev l)"
  using assms unfolding meta_annotation_event_targets_overlay_def is_touch_event_type_def
    meta_annotation_layer_handle_event_def
  by (auto split: if_splits)

lemma routed_events:
  assumes "active l" "\<not> paused l" "surface l \<noteq> None" "meta_annotation_event_targets_overlay ev"
    and "ev_type ev \<noteq> CLUTTER_SCROLL"
  shows "fst (meta_compositor_route_annotation_event cp e now ev (Some l, d))"
proof (cases "chrome_press_id l \<noteq> None \<or> chrome_press_at cp l ev")
  case True
  from route_chrome [OF assms(1,4) True, of e now d] show ?thesis by auto
next
  case False
  then have "\<not> chrome_press_at cp l ev" "\<not> chrome_press_id l \<noteq> None" by auto
  then show ?thesis using handled_events [OF assms, of e now]
    by (simp add: route_active [OF assms(1,4)] Let_def split_beta)
qed

lemma route_inactive:
  "\<not> active l \<Longrightarrow> meta_compositor_route_annotation_event cp e now ev (Some l, d) = (False, Some l, d)"
  by (simp add: route_defs)

lemma overlay_hides_event:
  assumes "active l" "\<not> paused l" "surface l \<noteq> None" "non_mouse_isolated g"
    and "meta_annotation_event_targets_overlay ev" "ev_type ev \<noteq> CLUTTER_SCROLL"
  shows "set (snd (fst (meta_display_handle_event cp e q now g ev (Some l, d)))) \<inter> client_calls = {}"
proof -
  have skip: "meta_annotation_input_event_should_skip_wayland_seat_sync g ev"
    using assms(4,5) by (simp add: meta_annotation_input_event_should_skip_wayland_seat_sync_def)
  let ?early = "and_then (display_capture q g ev) (and_then (display_mappers q ev) (display_focus e q ev))"
  have early: "set (snd ?early) \<inter> client_calls = {}"
    using capture_calls [of q g ev] mappers_calls [of q ev] focus_calls [of e q ev] skip
    by (auto simp: set_and_then)
  have route: "Route_annotation \<notin> client_calls" by (auto simp: client_calls_def)
  obtain s' where s': "meta_compositor_route_annotation_event cp e now ev (Some l, d) = (True, s')"
    using routed_events [OF assms(1-3,5,6), of cp e now d] by (metis prod.collapse)
  show ?thesis
    using early route
    by (cases "fst ?early") (auto simp: meta_display_handle_event_def Let_def s' set_and_then)
qed

text \<open>With the overlay off, the path is the one without an overlay.\<close>

lemma overlay_off_path:
  assumes "\<not> active l" "\<not> non_mouse_isolated g"
  shows "meta_display_handle_event cp e q now g ev (Some l, d) =
    (fst (meta_display_handle_event cp e q now annot_input_init ev (None, d)), Some l, d)"
proof -
  have "display_capture q g ev = display_capture q annot_input_init ev"
    using assms(2)
    by (simp add: display_capture_def meta_annotation_input_event_should_skip_wayland_seat_sync_def
        annot_input_init_def)
  moreover have "meta_compositor_route_annotation_event cp e now ev (None, d) = (False, None, d)"
    by (simp add: meta_compositor_route_annotation_event_def)
  ultimately show ?thesis
    by (simp add: meta_display_handle_event_def Let_def route_inactive [OF assms(1)] split: flow.split)
qed

lemma pen_cursor_hidden:
  assumes "non_mouse_isolated g"
  shows "fst (meta_sprite_update_cursor g True True False visible cursor) = Some None"
    and "\<not> tool_focus_surface tool \<Longrightarrow> tool_current tool \<Longrightarrow>
      tool_cursor (snd (meta_wayland_tablet_tool_update_cursor g tool)) = Some Cursor_none"
  using assms
  by (simp_all add: meta_sprite_update_cursor_def meta_wayland_tablet_tool_update_cursor_def
      tablet_tool_new_cursor_def Let_def)

end
