(* ===== verification/Anno_Motion.thy ===== *)
theory Anno_Motion
  imports Annot_Prelude
begin

text \<open>
  The scroll matcher \<open>native/anno-motion.c\<close>, a program of its own: it reads two greyscale images
  of the same size and searches the shift between them with the least mean squared difference.
  Every read of a buffer is bounds-checked in the model: an access outside it would be the result
  \<^const>\<open>None\<close>. Files and the allocator are arguments of \<open>anno_motion_main\<close>.
\<close>

section \<open>Reading and comparing\<close>

definition byte_at :: "8 word list \<Rightarrow> int \<Rightarrow> int option" where
  "byte_at buf i = (if 0 \<le> i \<and> nat i < length buf then Some (uint (buf ! nat i)) else None)"

text \<open>\<open>files\<close> gives the contents of the files that can be opened; the result is the buffer, or
  \<^const>\<open>None\<close> where the code returns -1.\<close>

definition read_raw :: "(string \<Rightarrow> 8 word list option) \<Rightarrow> string \<Rightarrow> nat \<Rightarrow> 8 word list option" where
  "read_raw files path len =
     (case files path of
        None \<Rightarrow> None
      | Some f \<Rightarrow> (let buf = take len f in if length buf = len then Some buf else None))"

definition ssd_pixel ::
  "8 word list \<Rightarrow> 8 word list \<Rightarrow> int \<Rightarrow> int \<Rightarrow> int \<Rightarrow> int \<Rightarrow> int \<Rightarrow> real \<times> int \<Rightarrow> (real \<times> int) option"
where
  "ssd_pixel prev cur w sx y yy x acc =
     (let xx = x + sx
      in if xx < 0 \<or> xx \<ge> w then Some acc
         else case (byte_at prev (y * w + x), byte_at cur (yy * w + xx)) of
           (Some p, Some c) \<Rightarrow>
             (let d = p - c in Some (fst acc + of_int d * of_int d, snd acc + 1))
         | _ \<Rightarrow> None)"

definition ssd_row ::
  "8 word list \<Rightarrow> 8 word list \<Rightarrow> int \<Rightarrow> int \<Rightarrow> int \<Rightarrow> int \<Rightarrow> int \<Rightarrow> real \<times> int \<Rightarrow> (real \<times> int) option"
where
  "ssd_row prev cur w h sx sy y acc =
     (let yy = y + sy
      in if yy < 0 \<or> yy \<ge> h then Some acc
         else fold_opt (ssd_pixel prev cur w sx y yy) [0..w - 1] acc)"

definition ssd_shift ::
  "8 word list \<Rightarrow> 8 word list \<Rightarrow> int \<Rightarrow> int \<Rightarrow> int \<Rightarrow> int \<Rightarrow> real option" where
  "ssd_shift prev cur w h sx sy =
     (case fold_opt (ssd_row prev cur w h sx sy) [0..h - 1] (0, 0) of
        None \<Rightarrow> None
      | Some (s, count) \<Rightarrow> Some (if count \<le> 0 then 10 ^ 30 else s / of_int count))"

section \<open>The search\<close>

text \<open>The literal \<open>1e300\<close>, above every difference.\<close>

definition ERR_START :: real where "ERR_START = 10 ^ 300"

record motion_best =
  best_err :: real
  second_err :: real
  best_sx :: int
  best_sy :: int

definition motion_init :: motion_best where
  "motion_init = \<lparr>best_err = ERR_START, second_err = ERR_START, best_sx = 0, best_sy = 0\<rparr>"

definition motion_update :: "int \<Rightarrow> int \<Rightarrow> real \<Rightarrow> motion_best \<Rightarrow> motion_best" where
  "motion_update sx sy err st =
     (if err < best_err st
      then st\<lparr>second_err := best_err st, best_err := err, best_sx := sx, best_sy := sy\<rparr>
      else if err < second_err st then st\<lparr>second_err := err\<rparr>
      else st)"

text \<open>The largest shift that is tried in each direction.\<close>

definition motion_window :: "int \<Rightarrow> int \<Rightarrow> int" where
  "motion_window w h =
     (let m = (if w < h then w sdiv 8 else h sdiv 8);
          m = (if m > 48 then 48 else m)
      in if m < 4 then 4 else m)"

definition motion_step ::
  "8 word list \<Rightarrow> 8 word list \<Rightarrow> int \<Rightarrow> int \<Rightarrow> int \<Rightarrow> int \<Rightarrow> motion_best \<Rightarrow> motion_best option" where
  "motion_step a b w h sy sx st =
     (case ssd_shift a b w h sx sy of
        None \<Rightarrow> None
      | Some err \<Rightarrow> Some (motion_update sx sy err st))"

definition motion_search ::
  "8 word list \<Rightarrow> 8 word list \<Rightarrow> int \<Rightarrow> int \<Rightarrow> motion_best option" where
  "motion_search a b w h =
     (let m = motion_window w h
      in fold_opt (\<lambda>sy. fold_opt (motion_step a b w h sy) [-m..m]) [-m..m] motion_init)"

definition motion_confidence :: "real \<Rightarrow> real \<Rightarrow> real" where
  "motion_confidence b s =
     (let c = (if s > b * (10000001 / 10000000) \<and> s < 10 ^ 290
               then 1 - b / s else 0);
          c = (if c < 0 then 0 else c);
          c = (if c > 1 then 1 else c)
      in if b < 1 / 10 ^ 6 then c * (25 / 100) else c)"

section \<open>The program\<close>

text \<open>\<open>atoi\<close> of the C library: leading white space, an optional sign, then decimal digits. C leaves a
  number undefined that does not fit; in glibc \<open>atoi\<close> is \<open>strtol\<close>, which stops at the bounds of a 64-bit
  \<open>long\<close>, cast to \<open>int\<close>, which keeps its lower 32 bits.\<close>

definition is_space :: "char \<Rightarrow> bool" where
  "is_space c \<longleftrightarrow> c = CHR '' '' \<or> (9 \<le> (of_char c :: nat) \<and> of_char c \<le> (13 :: nat))"

definition is_digit :: "char \<Rightarrow> bool" where
  "is_digit c \<longleftrightarrow> 48 \<le> (of_char c :: nat) \<and> of_char c \<le> (57 :: nat)"

definition digits_value :: "string \<Rightarrow> int" where
  "digits_value s = foldl (\<lambda>n c. 10 * n + (of_char c - 48)) 0 (takeWhile is_digit s)"

definition strtol :: "string \<Rightarrow> int" where
  "strtol s = max (- (2 ^ 63)) (min (2 ^ 63 - 1)
     (case dropWhile is_space s of
        [] \<Rightarrow> 0
      | c # t \<Rightarrow>
          if c = CHR ''-'' then - digits_value t
          else if c = CHR ''+'' then digits_value t
          else digits_value (c # t)))"

definition atoi :: "string \<Rightarrow> int" where
  "atoi s = (strtol s + 2 ^ 31) mod 2 ^ 32 - 2 ^ 31"

lemma atoi_wraps: "atoi ''4294967312'' = 16" "atoi ''99999999999999999999'' = - 1"
  by code_simp+

text \<open>How the process ends; the printed line is the arguments of \<open>Match\<close>.\<close>

datatype motion_exit =
    Usage | Invalid_dimensions | Oom | Read_error
  | Match (match_dx: int) (match_dy: int) (match_c: real) (match_mse: real)

fun motion_exit_code :: "motion_exit \<Rightarrow> int" where
  "motion_exit_code Usage = 2"
| "motion_exit_code Invalid_dimensions = 2"
| "motion_exit_code Oom = 1"
| "motion_exit_code Read_error = 1"
| "motion_exit_code (Match dx dy c mse) = 0"

definition motion_dims_ok :: "int \<Rightarrow> int \<Rightarrow> bool" where
  "motion_dims_ok w h \<longleftrightarrow> \<not> (w \<le> 8 \<or> h \<le> 8 \<or> w > 4096 \<or> h > 4096)"

text \<open>\<open>mem\<close> is whether both allocations succeed; \<^const>\<open>None\<close> would be a read outside a buffer.\<close>

definition anno_motion_main ::
  "(string \<Rightarrow> 8 word list option) \<Rightarrow> bool \<Rightarrow> string list \<Rightarrow> motion_exit option" where
  "anno_motion_main files mem argv =
     (if length argv \<noteq> 5 then Some Usage
      else
        (let w = atoi (argv ! 1); h = atoi (argv ! 2)
         in if \<not> motion_dims_ok w h then Some Invalid_dimensions
            else if \<not> mem then Some Oom
            else case read_raw files (argv ! 3) (nat w * nat h) of
              None \<Rightarrow> Some Read_error
            | Some a \<Rightarrow>
                (case read_raw files (argv ! 4) (nat w * nat h) of
                   None \<Rightarrow> Some Read_error
                 | Some b \<Rightarrow>
                     (case motion_search a b w h of
                        None \<Rightarrow> None
                      | Some st \<Rightarrow>
                          Some (Match (best_sx st) (best_sy st)
                                  (motion_confidence (best_err st) (second_err st)) (best_err st))))))"

section \<open>The mean squared difference\<close>

definition pixel_at :: "8 word list \<Rightarrow> int \<Rightarrow> int \<Rightarrow> int \<Rightarrow> int" where
  "pixel_at buf w x y = uint (buf ! nat (y * w + x))"

text \<open>The pixels of \<open>prev\<close> whose image under the shift is in the frame.\<close>

definition overlap_row :: "int \<Rightarrow> int \<Rightarrow> int list" where
  "overlap_row n s = filter (\<lambda>x. 0 \<le> x + s \<and> x + s < n) [0..n - 1]"

definition shift_diffs :: "8 word list \<Rightarrow> 8 word list \<Rightarrow> int \<Rightarrow> int \<Rightarrow> int \<Rightarrow> int \<Rightarrow> real list" where
  "shift_diffs prev cur w h sx sy =
     concat (map (\<lambda>y. map (\<lambda>x.
       (of_int (pixel_at prev w x y - pixel_at cur w (x + sx) (y + sy)))\<^sup>2) (overlap_row w sx))
       (overlap_row h sy))"

definition shift_mse :: "8 word list \<Rightarrow> 8 word list \<Rightarrow> int \<Rightarrow> int \<Rightarrow> int \<Rightarrow> int \<Rightarrow> real" where
  "shift_mse prev cur w h sx sy =
     (let ds = shift_diffs prev cur w h sx sy
      in if ds = [] then 10 ^ 30 else sum_list ds / of_nat (length ds))"

definition image_ok :: "8 word list \<Rightarrow> int \<Rightarrow> int \<Rightarrow> bool" where
  "image_ok buf w h \<longleftrightarrow> 0 \<le> w \<and> 0 \<le> h \<and> length buf = nat w * nat h"

lemma byte_at_pixel:
  assumes "image_ok buf w h" "0 \<le> x" "x < w" "0 \<le> y" "y < h"
  shows "byte_at buf (y * w + x) = Some (pixel_at buf w x y)"
proof -
  have "y * w + x < (y + 1) * w" using assms(3) by (simp add: algebra_simps)
  also have "\<dots> \<le> h * w" using assms(1,5) by (intro mult_right_mono) (auto simp: image_ok_def)
  finally have "y * w + x < w * h" by (simp add: mult.commute)
  moreover have "0 \<le> y * w + x" using assms by (simp add: image_ok_def)
  ultimately show ?thesis
    using assms(1) by (simp add: byte_at_def pixel_at_def image_ok_def flip: nat_mult_distrib)
qed

lemma ssd_row_pixels:
  assumes "image_ok prev w h" "image_ok cur w h" "0 \<le> y" "y < h" "0 \<le> yy" "yy < h"
    and "\<forall>x\<in>set xs. 0 \<le> x \<and> x < w"
  shows "fold_opt (ssd_pixel prev cur w sx y yy) xs (s, n) =
    (let ds = map (\<lambda>x. (of_int (pixel_at prev w x y - pixel_at cur w (x + sx) yy))\<^sup>2)
                (filter (\<lambda>x. 0 \<le> x + sx \<and> x + sx < w) xs)
     in Some (s + sum_list ds, n + of_nat (length ds)))"
  using assms(7)
proof (induction xs arbitrary: s n)
  case (Cons x xs)
  then have x: "0 \<le> x" "x < w" by auto
  show ?case
  proof (cases "0 \<le> x + sx \<and> x + sx < w")
    case True
    then have "byte_at prev (y * w + x) = Some (pixel_at prev w x y)"
      "byte_at cur (yy * w + (x + sx)) = Some (pixel_at cur w (x + sx) yy)"
      using x assms byte_at_pixel by auto
    with True Cons show ?thesis
      by (simp add: ssd_pixel_def Let_def power2_eq_square algebra_simps)
  next
    case False
    with Cons show ?thesis by (auto simp: ssd_pixel_def Let_def)
  qed
qed (simp add: Let_def)

lemma ssd_rows:
  assumes "image_ok prev w h" "image_ok cur w h" and "\<forall>y\<in>set ys. 0 \<le> y \<and> y < h"
  shows "fold_opt (ssd_row prev cur w h sx sy) ys (s, n) =
    (let ds = concat (map (\<lambda>y. map (\<lambda>x.
                (of_int (pixel_at prev w x y - pixel_at cur w (x + sx) (y + sy)))\<^sup>2) (overlap_row w sx))
                (filter (\<lambda>y. 0 \<le> y + sy \<and> y + sy < h) ys))
     in Some (s + sum_list ds, n + of_nat (length ds)))"
  using assms(3)
proof (induction ys arbitrary: s n)
  case (Cons y ys)
  show ?case
  proof (cases "0 \<le> y + sy \<and> y + sy < h")
    case True
    have "ssd_row prev cur w h sx sy y (s, n) =
        (let ds = map (\<lambda>x. (of_int (pixel_at prev w x y - pixel_at cur w (x + sx) (y + sy)))\<^sup>2)
                    (overlap_row w sx)
         in Some (s + sum_list ds, n + of_nat (length ds)))"
      using True Cons.prems ssd_row_pixels [OF assms(1,2), of y "y + sy" "[0..w - 1]"]
      by (simp add: ssd_row_def overlap_row_def)
    with True Cons show ?thesis by (simp add: Let_def algebra_simps)
  next
    case False
    with Cons show ?thesis by (auto simp: ssd_row_def Let_def)
  qed
qed (simp add: Let_def)

theorem ssd_shift_mse:
  assumes "image_ok prev w h" "image_ok cur w h"
  shows "ssd_shift prev cur w h sx sy = Some (shift_mse prev cur w h sx sy)"
  using ssd_rows [OF assms, of "[0..h - 1]"]
  by (simp add: ssd_shift_def shift_mse_def shift_diffs_def overlap_row_def Let_def)

section \<open>The search finds the least difference\<close>

definition motion_shifts :: "int \<Rightarrow> (int \<times> int) list" where
  "motion_shifts m = List.product [-m..m] [-m..m]"

lemma motion_shifts_set: "(sy, sx) \<in> set (motion_shifts m) \<longleftrightarrow> \<bar>sy\<bar> \<le> m \<and> \<bar>sx\<bar> \<le> m"
  by (auto simp: motion_shifts_def)

lemma motion_shifts_distinct: "distinct (motion_shifts m)"
  by (simp add: motion_shifts_def distinct_product)

lemma motion_window_bounds: "4 \<le> motion_window w h" "motion_window w h \<le> 48"
  by (simp_all add: motion_window_def Let_def)

text \<open>The state after the shifts \<open>ps\<close>, whose differences are \<open>E\<close>.\<close>

definition search_ok :: "(int \<times> int \<Rightarrow> real) \<Rightarrow> (int \<times> int) list \<Rightarrow> motion_best \<Rightarrow> bool" where
  "search_ok E ps st \<longleftrightarrow>
     (if ps = [] then st = motion_init
      else (best_sy st, best_sx st) \<in> set ps \<and> best_err st = E (best_sy st, best_sx st) \<and>
        (\<forall>p\<in>set ps. best_err st \<le> E p) \<and>
        (\<forall>p\<in>set ps. p \<noteq> (best_sy st, best_sx st) \<longrightarrow> second_err st \<le> E p) \<and>
        best_err st \<le> second_err st \<and>
        (second_err st = ERR_START \<or>
           (\<exists>p\<in>set ps. p \<noteq> (best_sy st, best_sx st) \<and> second_err st = E p)))"

lemma search_okD:
  "search_ok E ps st \<Longrightarrow> ps \<noteq> [] \<Longrightarrow> (best_sy st, best_sx st) \<in> set ps \<and>
   best_err st = E (best_sy st, best_sx st) \<and> (\<forall>p\<in>set ps. best_err st \<le> E p)"
  unfolding search_ok_def by (drule (1) iffD1 [OF if_not_P]) blast

lemma search_ok_update:
  assumes ok: "search_ok E ps st" and new: "(sy, sx) \<notin> set ps" and le: "E (sy, sx) < ERR_START"
  shows "search_ok E (ps @ [(sy, sx)]) (motion_update sx sy (E (sy, sx)) st)"
proof (cases "ps = []")
  case True
  with ok le show ?thesis by (simp add: search_ok_def motion_update_def motion_init_def)
next
  case False
  with ok have I: "(best_sy st, best_sx st) \<in> set ps" "best_err st = E (best_sy st, best_sx st)"
      "\<And>p. p \<in> set ps \<Longrightarrow> best_err st \<le> E p"
      "\<And>p. p \<in> set ps \<Longrightarrow> p \<noteq> (best_sy st, best_sx st) \<Longrightarrow> second_err st \<le> E p"
      "best_err st \<le> second_err st"
      "second_err st = ERR_START \<or> (\<exists>p\<in>set ps. p \<noteq> (best_sy st, best_sx st) \<and> second_err st = E p)"
    by (auto simp: search_ok_def)
  have ne: "(best_sy st, best_sx st) \<noteq> (sy, sx)" using I(1) new by auto
  consider "E (sy, sx) < best_err st" | "best_err st \<le> E (sy, sx)" "E (sy, sx) < second_err st"
    | "second_err st \<le> E (sy, sx)" by linarith
  then show ?thesis
  proof cases
    case 1
    have "\<And>p. p \<in> set ps \<Longrightarrow> E (sy, sx) \<le> E p" using I(3) 1 by force
    with 1 I(1-3) ne show ?thesis
      by (auto simp: search_ok_def motion_update_def)
  next
    case 2
    have "\<And>p. p \<in> set ps \<Longrightarrow> p \<noteq> (best_sy st, best_sx st) \<Longrightarrow> E (sy, sx) \<le> E p"
      using I(4) 2 by force
    with 2 I(1-3) ne show ?thesis
      by (auto simp: search_ok_def motion_update_def)
  next
    case 3
    with I ne show ?thesis
      by (auto simp: search_ok_def motion_update_def)
  qed
qed

lemma fold_opt_product:
  "fold_opt (\<lambda>y. fold_opt (f y) xs) ys s = fold_opt (\<lambda>(y, x). f y x) (List.product ys xs) s"
proof (induction ys arbitrary: s)
  case (Cons y ys)
  have "fold_opt (\<lambda>(y, x). f y x) (map (Pair y) xs) s = fold_opt (f y) xs s" for s
    by (induction xs arbitrary: s) (auto split: Option.bind_split)
  with Cons show ?case by (auto simp: fold_opt_append split: Option.bind_split)
qed simp

lemma search_fold:
  assumes "\<forall>(sy, sx)\<in>set ps. ssd_shift a b w h sx sy = Some (E (sy, sx)) \<and> E (sy, sx) < ERR_START"
    and "distinct ps"
  shows "\<exists>st. fold_opt (\<lambda>(sy, sx). motion_step a b w h sy sx) ps motion_init = Some st \<and> search_ok E ps st"
  using assms
proof (induction ps rule: rev_induct)
  case Nil
  then show ?case by (simp add: search_ok_def)
next
  case (snoc p ps)
  then obtain st where st: "fold_opt (\<lambda>(sy, sx). motion_step a b w h sy sx) ps motion_init = Some st"
      "search_ok E ps st" by auto
  obtain sy sx where p: "p = (sy, sx)" by fastforce
  with snoc.prems have "ssd_shift a b w h sx sy = Some (E (sy, sx))" "E (sy, sx) < ERR_START"
      "(sy, sx) \<notin> set ps" by auto
  then have "motion_step a b w h sy sx st = Some (motion_update sx sy (E (sy, sx)) st)"
      "search_ok E (ps @ [(sy, sx)]) (motion_update sx sy (E (sy, sx)) st)"
    using search_ok_update [OF st(2)] by (simp_all add: motion_step_def)
  then show ?case by (simp add: p fold_opt_append st(1))
qed

section \<open>Size of the differences\<close>

lemma pixel_at_range: "0 \<le> pixel_at buf w x y \<and> pixel_at buf w x y \<le> 255"
proof -
  have "uint (v :: 8 word) < 256" for v using uint_bounded [of v] by simp
  then show ?thesis using uint_nonnegative by (simp add: pixel_at_def flip: zle_add1_eq_le) (simp add: add_nonneg_pos)
qed

lemma diff_sq_range: "(of_int (pixel_at a w x y - pixel_at b w x' y'))\<^sup>2 \<le> (65025 :: real)"
proof -
  have "\<bar>pixel_at a w x y - pixel_at b w x' y'\<bar> \<le> 255"
    using pixel_at_range [of a w x y] pixel_at_range [of b w x' y'] by linarith
  then have "\<bar>real_of_int (pixel_at a w x y - pixel_at b w x' y')\<bar> \<le> 255" by linarith
  then have "\<bar>real_of_int (pixel_at a w x y - pixel_at b w x' y')\<bar>\<^sup>2 \<le> 255\<^sup>2"
    by (intro power_mono) auto
  then show ?thesis by simp
qed

lemma shift_diffs_range: "d \<in> set (shift_diffs a b w h sx sy) \<Longrightarrow> 0 \<le> d \<and> d \<le> 65025"
  using diff_sq_range by (fastforce simp: shift_diffs_def)

lemma sum_list_le_const: "(\<And>x. x \<in> set xs \<Longrightarrow> x \<le> c) \<Longrightarrow> sum_list xs \<le> c * real (length xs)"
  by (induction xs) (auto simp: algebra_simps intro: add_mono)

lemma shift_mse_range: "0 \<le> shift_mse a b w h sx sy \<and> shift_mse a b w h sx sy < ERR_START"
proof -
  let ?ds = "shift_diffs a b w h sx sy"
  have "0 \<le> sum_list ?ds" using shift_diffs_range by (auto intro: sum_list_nonneg)
  moreover have "sum_list ?ds \<le> 65025 * real (length ?ds)"
    using shift_diffs_range by (auto intro: sum_list_le_const)
  then have "?ds \<noteq> [] \<Longrightarrow> sum_list ?ds / real (length ?ds) \<le> 65025"
    by (simp add: divide_le_eq)
  ultimately show ?thesis by (auto simp: shift_mse_def Let_def ERR_START_def intro: le_less_trans)
qed

lemma sum_list_Ints: "(\<And>x. x \<in> set xs \<Longrightarrow> x \<in> \<int>) \<Longrightarrow> sum_list xs \<in> \<int>"
  by (induction xs) auto

text \<open>The accumulated sum is an integer a \<open>double\<close> holds exactly.\<close>

lemma shift_sum_exact:
  assumes "0 \<le> w" "w \<le> 4096" "0 \<le> h" "h \<le> 4096"
  shows "sum_list (shift_diffs a b w h sx sy) \<in> \<int> \<and> sum_list (shift_diffs a b w h sx sy) \<le> 2 ^ 53"
proof -
  let ?ds = "shift_diffs a b w h sx sy"
  have row: "length (overlap_row n s) \<le> 4096" if "n \<le> 4096" for n s :: int
    using length_filter_le [of "\<lambda>x. 0 \<le> x + s \<and> x + s < n" "[0..n - 1]"] that
    by (simp add: overlap_row_def)
  have len: "length ?ds = length (overlap_row h sy) * length (overlap_row w sx)"
    by (simp add: shift_diffs_def length_concat comp_def sum_list_triv)
  have "length ?ds \<le> 4096 * 4096" unfolding len using row assms by (intro mult_le_mono) auto
  then have "real (length ?ds) \<le> 4096 * 4096" by linarith
  moreover have "sum_list ?ds \<le> 65025 * real (length ?ds)"
    using shift_diffs_range by (auto intro: sum_list_le_const)
  moreover have "d \<in> \<int>" if "d \<in> set ?ds" for d using that by (auto simp: shift_diffs_def)
  then have "sum_list ?ds \<in> \<int>" by (rule sum_list_Ints)
  ultimately show ?thesis by simp
qed

section \<open>What a run reports\<close>

lemma motion_search_ok:
  assumes "image_ok a w h" "image_ok b w h"
  shows "\<exists>st. motion_search a b w h = Some st \<and>
    search_ok (\<lambda>(sy, sx). shift_mse a b w h sx sy) (motion_shifts (motion_window w h)) st"
proof -
  have "\<forall>(sy, sx)\<in>set (motion_shifts (motion_window w h)).
      ssd_shift a b w h sx sy = Some ((\<lambda>(sy, sx). shift_mse a b w h sx sy) (sy, sx)) \<and>
      (\<lambda>(sy, sx). shift_mse a b w h sx sy) (sy, sx) < ERR_START"
    unfolding ssd_shift_mse [OF assms] using shift_mse_range by auto
  from search_fold [OF this motion_shifts_distinct] show ?thesis
    by (simp add: motion_search_def motion_shifts_def Let_def fold_opt_product)
qed

lemma motion_shifts_nonempty: "motion_shifts (motion_window w h) \<noteq> []"
proof -
  have "(0, 0) \<in> set (motion_shifts (motion_window w h))"
    using motion_window_bounds(1) [of w h] by (simp add: motion_shifts_set)
  then show ?thesis by auto
qed

lemma search_ok_final:
  assumes "search_ok (\<lambda>(sy, sx). shift_mse a b w h sx sy) (motion_shifts (motion_window w h)) st"
  shows "best_err st = shift_mse a b w h (best_sx st) (best_sy st)"
    and "\<bar>best_sy st\<bar> \<le> motion_window w h" and "\<bar>best_sx st\<bar> \<le> motion_window w h"
    and "\<bar>sx\<bar> \<le> motion_window w h \<Longrightarrow> \<bar>sy\<bar> \<le> motion_window w h \<Longrightarrow>
      best_err st \<le> shift_mse a b w h sx sy"
proof -
  let ?E = "\<lambda>(sy, sx). shift_mse a b w h sx sy" and ?S = "set (motion_shifts (motion_window w h))"
  have I: "(best_sy st, best_sx st) \<in> ?S" "best_err st = ?E (best_sy st, best_sx st)"
    "\<forall>p\<in>?S. best_err st \<le> ?E p"
    using search_okD [OF assms motion_shifts_nonempty] by blast+
  show "best_err st = shift_mse a b w h (best_sx st) (best_sy st)" using I(2) by simp
  show "\<bar>best_sy st\<bar> \<le> motion_window w h" "\<bar>best_sx st\<bar> \<le> motion_window w h"
    using I(1) by (simp_all add: motion_shifts_set)
  show "best_err st \<le> shift_mse a b w h sx sy"
    if "\<bar>sx\<bar> \<le> motion_window w h" "\<bar>sy\<bar> \<le> motion_window w h"
    using bspec [OF I(3), of "(sy, sx)"] that by (simp add: motion_shifts_set)
qed

lemma confidence_bounds: "0 \<le> motion_confidence b s \<and> motion_confidence b s \<le> 1"
  by (simp add: motion_confidence_def Let_def)

lemma confidence_flat: "b < 1 / 10 ^ 6 \<Longrightarrow> motion_confidence b s \<le> 1 / 4"
  by (simp add: motion_confidence_def Let_def)

lemma read_raw_length: "read_raw files path n = Some buf \<Longrightarrow> length buf = n"
  by (auto simp: read_raw_def Let_def split: option.splits if_splits)

lemma dims_image_ok:
  "motion_dims_ok w h \<Longrightarrow> length buf = nat w * nat h \<Longrightarrow> image_ok buf w h"
  by (simp add: motion_dims_ok_def image_ok_def)

text \<open>The inputs of a run that gets to the search.\<close>

definition motion_inputs ::
  "(string \<Rightarrow> 8 word list option) \<Rightarrow> string list \<Rightarrow> int \<Rightarrow> int \<Rightarrow> 8 word list \<Rightarrow> 8 word list \<Rightarrow> bool"
where
  "motion_inputs files argv w h a b \<longleftrightarrow>
     length argv = 5 \<and> w = atoi (argv ! 1) \<and> h = atoi (argv ! 2) \<and> motion_dims_ok w h \<and>
     read_raw files (argv ! 3) (nat w * nat h) = Some a \<and>
     read_raw files (argv ! 4) (nat w * nat h) = Some b"

lemma motion_inputs_ok:
  "motion_inputs files argv w h a b \<Longrightarrow> image_ok a w h \<and> image_ok b w h"
  by (auto simp: motion_inputs_def dest!: read_raw_length intro: dims_image_ok)

lemma main_runs:
  assumes "motion_inputs files argv w h a b" "motion_search a b w h = Some st"
  shows "anno_motion_main files True argv =
    Some (Match (best_sx st) (best_sy st) (motion_confidence (best_err st) (second_err st)) (best_err st))"
  using assms by (auto simp: anno_motion_main_def motion_inputs_def Let_def)

lemma main_cases:
  "length argv \<noteq> 5 \<and> anno_motion_main files mem argv = Some Usage \<or>
   length argv = 5 \<and> \<not> motion_dims_ok (atoi (argv ! 1)) (atoi (argv ! 2)) \<and>
     anno_motion_main files mem argv = Some Invalid_dimensions \<or>
   \<not> mem \<and> anno_motion_main files mem argv = Some Oom \<or>
   mem \<and> (\<nexists>a b. motion_inputs files argv (atoi (argv ! 1)) (atoi (argv ! 2)) a b) \<and>
     anno_motion_main files mem argv = Some Read_error \<or>
   mem \<and> (\<exists>a b st. motion_inputs files argv (atoi (argv ! 1)) (atoi (argv ! 2)) a b \<and>
     motion_search a b (atoi (argv ! 1)) (atoi (argv ! 2)) = Some st \<and>
     anno_motion_main files mem argv = Some (Match (best_sx st) (best_sy st)
       (motion_confidence (best_err st) (second_err st)) (best_err st)))"
  (is "?U \<or> ?I \<or> ?O \<or> ?R \<or> ?M")
proof (cases "length argv = 5 \<and> motion_dims_ok (atoi (argv ! 1)) (atoi (argv ! 2)) \<and> mem")
  case True
  show ?thesis
  proof (cases "\<exists>a b. motion_inputs files argv (atoi (argv ! 1)) (atoi (argv ! 2)) a b")
    case ex: True
    then obtain a b where ab: "motion_inputs files argv (atoi (argv ! 1)) (atoi (argv ! 2)) a b" by blast
    then obtain st where st: "motion_search a b (atoi (argv ! 1)) (atoi (argv ! 2)) = Some st"
      using motion_search_ok motion_inputs_ok by blast
    have "mem = True" using True by simp
    with main_runs [OF ab st] ab st have ?M by blast
    then show ?thesis by blast
  next
    case False
    with True have ?R
      by (auto simp: anno_motion_main_def motion_inputs_def Let_def split: option.split)
    then show ?thesis by blast
  qed
next
  case False
  then show ?thesis by (auto simp: anno_motion_main_def Let_def)
qed

text \<open>\<open>cur\<close> shows \<open>prev\<close> moved by \<open>(dx, dy)\<close>, as far as both frames see it.\<close>

definition moved_by :: "8 word list \<Rightarrow> 8 word list \<Rightarrow> int \<Rightarrow> int \<Rightarrow> int \<Rightarrow> int \<Rightarrow> bool" where
  "moved_by prev cur w h dx dy \<longleftrightarrow>
     (\<forall>x y. 0 \<le> x \<and> x < w \<and> 0 \<le> x + dx \<and> x + dx < w \<and> 0 \<le> y \<and> y < h \<and> 0 \<le> y + dy \<and> y + dy < h
        \<longrightarrow> pixel_at prev w x y = pixel_at cur w (x + dx) (y + dy))"

lemma overlap_row_nonempty: "\<bar>s\<bar> < n \<Longrightarrow> overlap_row n s \<noteq> []"
proof -
  assume "\<bar>s\<bar> < n"
  then have "max 0 (- s) \<in> set (overlap_row n s)" by (auto simp: overlap_row_def)
  then show ?thesis by auto
qed

lemma shift_diffs_nonempty: "\<bar>dx\<bar> < w \<Longrightarrow> \<bar>dy\<bar> < h \<Longrightarrow> shift_diffs a b w h dx dy \<noteq> []"
  using overlap_row_nonempty [of dx w] overlap_row_nonempty [of dy h]
  by (auto simp: shift_diffs_def neq_Nil_conv)

lemma shift_mse_zero_iff:
  assumes "\<bar>dx\<bar> < w" "\<bar>dy\<bar> < h"
  shows "shift_mse a b w h dx dy = 0 \<longleftrightarrow> moved_by a b w h dx dy"
proof -
  let ?ds = "shift_diffs a b w h dx dy"
  have "shift_mse a b w h dx dy = 0 \<longleftrightarrow> sum_list ?ds = 0"
    using shift_diffs_nonempty [OF assms, of a b] by (simp add: shift_mse_def Let_def)
  also have "\<dots> \<longleftrightarrow> (\<forall>d\<in>set ?ds. d = 0)"
    using shift_diffs_range by (subst sum_list_nonneg_eq_0_iff) auto
  also have "\<dots> \<longleftrightarrow> moved_by a b w h dx dy"
    by (auto simp: shift_diffs_def overlap_row_def moved_by_def)
  finally show ?thesis .
qed

lemma motion_window_less:
  "motion_dims_ok w h \<Longrightarrow> motion_window w h < w \<and> motion_window w h < h"
proof -
  assume "motion_dims_ok w h"
  then have "8 < w" "8 < h" by (auto simp: motion_dims_ok_def)
  moreover from this have "w sdiv 8 = w div 8" "h sdiv 8 = h div 8"
    by (simp_all add: signed_divide_int_def)
  ultimately show ?thesis by (auto simp: motion_window_def Let_def)
qed

end
