(* ===== verification/Annot_Example.thy ===== *)
theory Annot_Example
  imports Annot_Gestures Annot_Fresh Annot_Display Anno_Motion
begin

text \<open>
  A concrete display, event and layer, at which the properties of the root theory are
  instantiated: one window on a stage of 800 by 600, cairo's regions as rectangle lists.
\<close>

definition ex_window :: meta_window where
  "ex_window = \<lparr>frame_rect = \<lparr>rect_x = 100, rect_y = 100, rect_width = 200, rect_height = 150\<rparr>,
     override_redirect = False, hidden = False, win_type = META_WINDOW_NORMAL,
     on_all_workspaces = False, win_workspace = Some 0, minimized = False, client_pid = 42,
     stack_layer = 2, stack_position = 0\<rparr>"

definition ex_env :: "mtk_rectangle list display_env" where
  "ex_env = \<lparr>win_of = (\<lambda>w. ex_window), all_windows = [7], active_ws = Some 0,
     stage_size = (800, 600), region_lib = rect_list_regions\<rparr>"

definition ex_tablet :: clutter_device where
  "ex_tablet = \<lparr>dev_type = CLUTTER_TABLET_DEVICE, dev_caps = push_bit 4 1,
     dev_dimensions = Some (300, 200), dev_lname = Some ''wacom intuos''\<rparr>"

definition ex_pen_event :: "clutter_event_type \<Rightarrow> real \<Rightarrow> real \<Rightarrow> clutter_event" where
  "ex_pen_event t x y = \<lparr>ev_type = t, ev_device = Some ex_tablet,
     ev_tool = Some CLUTTER_INPUT_DEVICE_TOOL_PEN, ev_button = CLUTTER_BUTTON_PRIMARY,
     ev_state = push_bit 8 1, ev_x = x, ev_y = y, ev_axes = Some [0, 0, 0, 1 / 2, 0, 0]\<rparr>"

lemmas ex_defs = ex_window_def ex_env_def ex_tablet_def ex_pen_event_def

text \<open>Activated, then pressed inside the window.\<close>

definition ex_active :: annot_world where
  "ex_active = exec_call ex_env (Call_set_active True)
     (meta_annotation_layer_new ex_env True annot_input_init)"

definition ex_pressed :: annot_world where
  "ex_pressed = exec_call ex_env (Call_event 0 (ex_pen_event CLUTTER_BUTTON_PRESS 150 150)) ex_active"

lemma ex_region_lib [simp]: "region_lib ex_env = rect_list_regions"
  by (simp add: ex_env_def)

lemma ex_active_reach: "annot_reach rect_list_regions ex_active"
  unfolding ex_active_def by (intro annot_reach.intros) simp_all

lemma ex_pressed_reach: "annot_reach rect_list_regions ex_pressed"
  unfolding ex_pressed_def by (intro annot_reach.call ex_active_reach) simp_all

lemma ex_pick: "pick_anchor_window ex_env 150 150 = Some 7"
  by (simp add: pick_anchor_window_def ex_defs meta_display_sort_windows_by_stacking_def
      window_is_eligible_anchor_def meta_window_located_on_workspace_def
      mtk_rectangle_contains_pointf_def)

lemma ex_new: "fst (meta_annotation_layer_new ex_env True g) =
  (layer_zeroed True)\<lparr>surface := Some (composite_new_cleared 800 600),
    unattached_surface := Some (cairo_surface_new_cleared 800 600), stage_width := 800,
    stage_height := 600, recompose_dirty := True\<rparr>"
  by (simp add: meta_annotation_layer_new_def on_stage_size_changed_def recreate_buffers_def
      schedule_recompose_def drop_stroke_def set_stroke_anchor_eq layer_zeroed_def Let_def
      rasterize_all_strokes_def rasterize_all_strokes_with_ink_def ex_env_def
      cairo_surface_new_cleared_def)

lemma ex_active_fields:
  "active (fst ex_active)" "\<not> paused (fst ex_active)" "surface (fst ex_active) \<noteq> None"
  "layer_display (fst ex_active)" "per_window (fst ex_active) = (\<lambda>w. None)"
  "unattached_strokes (fst ex_active) = []" "pen_barrel_buttons (fst ex_active) = 0"
proof -
  obtain l g where new: "meta_annotation_layer_new ex_env True annot_input_init = (l, g)" by fastforce
  have l: "l = (layer_zeroed True)\<lparr>surface := Some (composite_new_cleared 800 600),
    unattached_surface := Some (cairo_surface_new_cleared 800 600), stage_width := 800,
    stage_height := 600, recompose_dirty := True\<rparr>"
    using ex_new [of annot_input_init] new by simp
  have "fst ex_active = update_actor_visibility ex_env (l\<lparr>active := True\<rparr>)"
    by (simp add: ex_active_def new meta_annotation_layer_set_active_def Let_def)
  then show "active (fst ex_active)" "\<not> paused (fst ex_active)" "surface (fst ex_active) \<noteq> None"
    "layer_display (fst ex_active)" "per_window (fst ex_active) = (\<lambda>w. None)"
    "unattached_strokes (fst ex_active) = []" "pen_barrel_buttons (fst ex_active) = 0"
    by (simp_all add: l update_actor_visibility_def Let_def recompose_def
        sync_texture_from_surface_def layer_zeroed_def composite_new_cleared_def)
qed

lemma ex_pressed_eq:
  "fst ex_pressed = note_tap_press 0 150 150 (stroke_anchor (begin_stroke ex_env 150 150 (Some (1 / 2)) (Some 1) False (fst ex_active)))
     (begin_stroke ex_env 150 150 (Some (1 / 2)) (Some 1) False (fst ex_active))"
proof -
  obtain l g where a: "ex_active = (l, g)" by fastforce
  note F = ex_active_fields [unfolded a fst_conv]
  show ?thesis using F
    by (auto simp: ex_pressed_def a meta_annotation_layer_handle_event_def ex_pen_event_def
        button_press_branch_def handle_tool_modifier_press_def press_branch_def Let_def
        event_get_pressure_def event_get_tilt_factor_def clutter_consts erase_is_active_def
        event_is_eraser_tool_def clampf_def)
qed

lemma ex_active_ok: "layer_ok (fst ex_active)"
  by (rule wf.reachable [OF ex_active_reach])

lemma ex_pressed_fields:
  "stroke_active (fst ex_pressed)" "current_stroke (fst ex_pressed) \<noteq> None"
  "stroke_anchor (fst ex_pressed) = Some 7"
  using begin_stroke_ok(2-4) [OF ex_active_ok, where e = ex_env and x = 150 and y = 150 and
      pr = "Some (1 / 2)" and tilt = "Some 1" and er = False] ex_pick ex_active_fields
  by (simp_all add: ex_pressed_eq note_tap_press_def begin_anchor_def)

lemma ex_ensure:
  "per_window l = (\<lambda>w. None) \<Longrightarrow> ensure_window_ink ex_env 7 l =
     (Some (window_ink_new 7 (frame_rect ex_window)), put_ink 7 (window_ink_new 7 (frame_rect ex_window)) l)"
  by (simp add: ensure_window_ink_def ex_env_def Let_def) (simp add: ex_window_def)

text \<open>An active layer with one stroke in the window's buffer, being drawn.\<close>

definition ex_stroke :: stroke where
  "ex_stroke = fold (\<lambda>p s. stroke_append_point s p)
     [\<lparr>ip_x = 10, ip_y = 10, ip_pressure = 1, ip_tilt_factor = 1\<rparr>,
      \<lparr>ip_x = 40, ip_y = 10, ip_pressure = 1, ip_tilt_factor = 1\<rparr>] (stroke_new 0 (0, 0, 0, 1))"

definition ex_ink :: window_ink where
  "ex_ink = window_ink_rasterize ((window_ink_new 7 (frame_rect ex_window))\<lparr>wi_strokes := [ex_stroke]\<rparr>)"

definition ex_layer :: annotation_layer where
  "ex_layer = (layer_zeroed True)\<lparr>active := True, surface := Some (composite_new_cleared 800 600),
     unattached_surface := Some (cairo_surface_new_cleared 800 600), stage_width := 800,
     stage_height := 600, per_window := (\<lambda>w. None)(7 \<mapsto> ex_ink), stroke_active := True,
     stroke_anchor := Some 7, stroke_last_x := 40, stroke_last_y := 10, current_stroke := Some 0,
     next_stroke := 1, last_ink_anchor := Some 7, last_ink_present := True\<rparr>"

lemma ex_layer_fields [simp]:
  "layer_display ex_layer" "active ex_layer" "\<not> paused ex_layer"
  "surface ex_layer = Some (composite_new_cleared 800 600)"
  "unattached_surface ex_layer = Some (cairo_surface_new_cleared 800 600)"
  "unattached_strokes ex_layer = []" "per_window ex_layer = (\<lambda>w. None)(7 \<mapsto> ex_ink)"
  "stage_width ex_layer = 800" "stage_height ex_layer = 600"
  "stroke_active ex_layer" "stroke_anchor ex_layer = Some 7" "current_stroke ex_layer = Some 0"
  "stroke_last_x ex_layer = 40" "stroke_last_y ex_layer = 10"
  "last_ink_anchor ex_layer = Some 7" "last_ink_present ex_layer" "chrome_regions ex_layer = None"
  "chrome_press_id ex_layer = None" "pending_tap ex_layer = False" "tap_history ex_layer = []"
  "pen_barrel_buttons ex_layer = 0"
  by (simp_all add: ex_layer_def layer_zeroed_def)

lemma ex_ink_fields [simp]:
  "wi_strokes ex_ink = [ex_stroke]" "wi_window ex_ink = 7" "wi_width ex_ink = 200"
  "wi_height ex_ink = 150" "has_editor_region ex_ink = False" "scroll_x ex_ink = 0" "scroll_y ex_ink = 0"
  by (simp_all add: ex_ink_def window_ink_new_def ex_window_def)

lemma ex_stroke_fields [simp]:
  "points ex_stroke = [\<lparr>ip_x = 10, ip_y = 10, ip_pressure = 1, ip_tilt_factor = 1\<rparr>,
      \<lparr>ip_x = 40, ip_y = 10, ip_pressure = 1, ip_tilt_factor = 1\<rparr>]"
  "follow_scroll ex_stroke = False" "stroke_id ex_stroke = 0"
  by (simp_all add: ex_stroke_def stroke_new_def)

lemma ex_layer_buffers [simp]:
  "strokes_at ex_layer (Some 7) = Some [ex_stroke]" "strokes_at ex_layer None = Some []"
  "surface_at ex_layer (Some 7) = Some (wi_surface ex_ink)" "ink_at ex_layer (Some 7) = Some ex_ink"
  by (simp_all add: strokes_at_def surface_at_def ink_at_def)

lemma ex_visible [simp]: "visible_windows ex_env = [7]"
  by (simp add: visible_windows_def ex_defs meta_display_sort_windows_by_stacking_def
      window_is_visible_for_ink_def window_is_eligible_anchor_def meta_window_located_on_workspace_def)

lemma ex_win_of [simp]: "win_of ex_env w = ex_window"
  by (simp add: ex_env_def)

lemma ex_frame [simp]:
  "frame_rect ex_window = \<lparr>rect_x = 100, rect_y = 100, rect_width = 200, rect_height = 150\<rparr>"
  by (simp add: ex_window_def)

lemma ex_ink_shown:
  "ink_shown ex_env ex_layer (150, 150) = [(wi_surface ex_ink, 50, 50)]"
  by (simp add: ink_shown_def chrome_at_def topmost_visible_def in_rect_iff)

lemma ex_layer_ok: "layer_ok ex_layer"
  by (auto simp: ok_defs ex_layer_def layer_zeroed_def TAP_HISTORY_SIZE_def store_ok_def stroke_ok_def
      ink_wf_def cairo_surface_new_cleared_def window_ink_new_def ex_ink_def tilt_ok_def
      bbox_ok_def ink_point_max_half_width_def annot_consts stroke_append_bbox ex_stroke_def stroke_new_def
      G_MAXFLOAT_def follow_shift_def split: option.splits if_splits)

lemma ex_active_isolated: "non_mouse_isolated (snd ex_active)"
  using md.reachable [OF ex_active_reach] ex_active_fields(1) by (simp add: mode_ok_def split: prod.splits)

text \<open>A window without ink is moved over the window with ink: no signal of the moved window is
  connected, and the texture still shows the ink of the window below.\<close>

definition ex_two :: "int \<Rightarrow> mtk_rectangle list display_env" where
  "ex_two x = ex_env\<lparr>all_windows := [7, 8],
     win_of := (\<lambda>w. if w = 8
       then ex_window\<lparr>frame_rect := \<lparr>rect_x = x, rect_y = 100, rect_width = 200, rect_height = 150\<rparr>,
              stack_position := 1\<rparr>
       else ex_window)\<rparr>"

text \<open>Handlers of other parts of the shell that all let the event through.\<close>

definition ex_dispatch :: dispatch where
  "ex_dispatch = \<lparr>captured_input = False, a11y_grabbed = False, has_text_input = False,
     drag_at_text_input = False, text_input_handled = False, pad_osd_at_pad = False,
     mode_switch_button_group = 0, pad_mapper_handled = False, tool_mapper_handled = False,
     flag_synthetic = False, grab_at_entry = False, grab_at_window = False, grab_at_route = False,
     key_focus_at_window = False, key_focus_at_entry = False, focus_window = None,
     actor_window = Some 7, current_time_missing = False, drag_at_keys = False,
     keybinding_handled = False, mouse_button_mods = 0, compositor_modifiers = 0,
     pad_osd_at_route = False, ungrabbed_handled = False, close_dialog_visible = False,
     event_time_missing = False, wayland_handled = False\<rparr>"

text \<open>Two black images of 9 by 9 pixels.\<close>

definition ex_files :: "string \<Rightarrow> 8 word list option" where
  "ex_files path = Some (replicate 81 0)"

definition ex_argv :: "string list" where
  "ex_argv = [''anno-motion'', ''9'', ''9'', ''prev.raw'', ''cur.raw'']"

lemma ex_motion_inputs:
  "motion_inputs ex_files ex_argv 9 9 (replicate 81 0) (replicate 81 0)"
  by (simp add: motion_inputs_def ex_argv_def ex_files_def atoi_def strtol_def is_space_def digits_value_def
      is_digit_def motion_dims_ok_def read_raw_def)

lemma ex_still: "moved_by (replicate 81 0) (replicate 81 0) 9 9 0 0"
  by (simp add: moved_by_def)

end
