(* ===== verification/Workspace_Layout.thy ===== *)
theory Workspace_Layout
  imports Annot_Prelude
begin

text \<open>
  How workspaces are laid out and walked through: the grid of
  \<open>meta_workspace_manager_calc_workspace_layout\<close> (\<open>core/meta-workspace-manager.c\<close>), the neighbour of
  a workspace, the direction that a switch is animated in and the sound that it makes
  (\<open>core/workspace.c\<close>). A workspace is its index. The grid is an array of \<open>rows * cols\<close> cells,
  allocated uninitialised: the values it starts with are an argument.
\<close>

section \<open>The grid\<close>

datatype meta_display_corner =
  META_DISPLAY_TOPLEFT | META_DISPLAY_TOPRIGHT | META_DISPLAY_BOTTOMLEFT | META_DISPLAY_BOTTOMRIGHT

record layout_config =
  rows_of_workspaces :: int
  columns_of_workspaces :: int
  vertical_workspaces :: bool
  starting_corner :: meta_display_corner
  workspace_layout_overridden :: bool

record workspace_layout =
  layout_rows :: int
  layout_cols :: int
  layout_grid :: "int list"
  grid_area :: int
  layout_row :: int
  layout_col :: int

text \<open>The number of rows and columns; C's division truncates.\<close>

definition layout_dims :: "layout_config \<Rightarrow> int \<Rightarrow> int \<times> int" where
  "layout_dims cfg num_workspaces =
     (let rows = rows_of_workspaces cfg; cols = columns_of_workspaces cfg;
          cols = (if rows \<le> 0 \<and> cols \<le> 0 then num_workspaces else cols);
          rows = (if rows \<le> 0
                  then num_workspaces sdiv cols + (if num_workspaces smod cols > 0 then 1 else 0)
                  else rows);
          cols = (if cols \<le> 0
                  then num_workspaces sdiv rows + (if num_workspaces smod rows > 0 then 1 else 0)
                  else cols);
          rows = (if rows < 1 then 1 else rows);
          cols = (if cols < 1 then 1 else cols)
      in (rows, cols))"

text \<open>The order in which the loops visit the cells, one pair of loops for each starting corner and
  direction.\<close>

fun fill_order :: "meta_display_corner \<Rightarrow> bool \<Rightarrow> nat \<Rightarrow> nat \<Rightarrow> (nat \<times> nat) list" where
  "fill_order META_DISPLAY_TOPLEFT v rows cols =
     (if v then [(r, c). c \<leftarrow> [0..<cols], r \<leftarrow> [0..<rows]]
      else [(r, c). r \<leftarrow> [0..<rows], c \<leftarrow> [0..<cols]])"
| "fill_order META_DISPLAY_TOPRIGHT v rows cols =
     (if v then [(r, c). c \<leftarrow> rev [0..<cols], r \<leftarrow> [0..<rows]]
      else [(r, c). r \<leftarrow> [0..<rows], c \<leftarrow> rev [0..<cols]])"
| "fill_order META_DISPLAY_BOTTOMLEFT v rows cols =
     (if v then [(r, c). c \<leftarrow> [0..<cols], r \<leftarrow> rev [0..<rows]]
      else [(r, c). r \<leftarrow> rev [0..<rows], c \<leftarrow> [0..<cols]])"
| "fill_order META_DISPLAY_BOTTOMRIGHT v rows cols =
     (if v then [(r, c). c \<leftarrow> rev [0..<cols], r \<leftarrow> rev [0..<rows]]
      else [(r, c). r \<leftarrow> rev [0..<rows], c \<leftarrow> rev [0..<cols]])"

text \<open>\<open>grid[r*cols+c] = i; ++i\<close>\<close>

fun fill_grid :: "nat \<Rightarrow> int \<Rightarrow> (nat \<times> nat) list \<Rightarrow> int list \<Rightarrow> int list" where
  "fill_grid cols i [] grid = grid"
| "fill_grid cols i ((r, c) # cells) grid = fill_grid cols (i + 1) cells (grid[r * cols + c := i])"

text \<open>The last loop looks for the current workspace and marks the cells beyond the last workspace.\<close>

fun mark_cells ::
  "nat \<Rightarrow> int \<Rightarrow> int \<Rightarrow> (nat \<times> nat) list \<Rightarrow> int list \<times> int \<times> int \<Rightarrow> int list \<times> int \<times> int" where
  "mark_cells cols n cur [] st = st"
| "mark_cells cols n cur ((r, c) # cells) (grid, row, col) =
     mark_cells cols n cur cells
       (if grid ! (r * cols + c) = cur then (grid, int r, int c)
        else if grid ! (r * cols + c) \<ge> n then (grid[r * cols + c := -1], row, col)
        else (grid, row, col))"

definition meta_workspace_manager_calc_workspace_layout ::
  "(nat \<Rightarrow> int) \<Rightarrow> layout_config \<Rightarrow> int \<Rightarrow> int \<Rightarrow> workspace_layout" where
  "meta_workspace_manager_calc_workspace_layout junk cfg num_workspaces current_space =
     (let (rows, cols) = layout_dims cfg num_workspaces; R = nat rows; C = nat cols;
          grid = fill_grid C 0 (fill_order (starting_corner cfg) (vertical_workspaces cfg) R C)
                   (map junk [0..<R * C]);
          (grid, row, col) = mark_cells C num_workspaces current_space
                               [(r, c). r \<leftarrow> [0..<R], c \<leftarrow> [0..<C]] (grid, 0, 0)
      in \<lparr>layout_rows = rows, layout_cols = cols, layout_grid = grid, grid_area = rows * cols,
          layout_row = row, layout_col = col\<rparr>)"

text \<open>Setting the layout. A call with a dimension of zero or with two negative ones is refused with
  a critical warning, and a layout that was overridden is kept. Overriding first clears the mark of
  an earlier override.\<close>

definition meta_workspace_manager_update_workspace_layout ::
  "meta_display_corner \<Rightarrow> bool \<Rightarrow> int \<Rightarrow> int \<Rightarrow> layout_config \<Rightarrow> layout_config" where
  "meta_workspace_manager_update_workspace_layout corner vertical_layout n_rows n_columns cfg =
     (if \<not> (n_rows > 0 \<or> n_columns > 0) then cfg
      else if \<not> (n_rows \<noteq> 0 \<and> n_columns \<noteq> 0) then cfg
      else if workspace_layout_overridden cfg then cfg
      else cfg\<lparr>vertical_workspaces := vertical_layout, starting_corner := corner,
               rows_of_workspaces := n_rows, columns_of_workspaces := n_columns\<rparr>)"

definition meta_workspace_manager_override_workspace_layout ::
  "meta_display_corner \<Rightarrow> bool \<Rightarrow> int \<Rightarrow> int \<Rightarrow> layout_config \<Rightarrow> layout_config" where
  "meta_workspace_manager_override_workspace_layout corner vertical_layout n_rows n_columns cfg =
     (meta_workspace_manager_update_workspace_layout corner vertical_layout n_rows n_columns
        (cfg\<lparr>workspace_layout_overridden := False\<rparr>))\<lparr>workspace_layout_overridden := True\<rparr>"

section \<open>Walking through the grid\<close>

datatype meta_motion_direction =
    META_MOTION_UP | META_MOTION_DOWN | META_MOTION_LEFT | META_MOTION_RIGHT
  | META_MOTION_UP_LEFT | META_MOTION_UP_RIGHT | META_MOTION_DOWN_LEFT | META_MOTION_DOWN_RIGHT

fun motion_step :: "bool \<Rightarrow> meta_motion_direction \<Rightarrow> int \<times> int \<Rightarrow> int \<times> int" where
  "motion_step ltr META_MOTION_LEFT (row, col) = (row, col - (if ltr then 1 else -1))"
| "motion_step ltr META_MOTION_RIGHT (row, col) = (row, col + (if ltr then 1 else -1))"
| "motion_step ltr META_MOTION_UP (row, col) = (row - 1, col)"
| "motion_step ltr META_MOTION_DOWN (row, col) = (row + 1, col)"
| "motion_step ltr _ (row, col) = (row, col)"

definition clamp_into :: "int \<Rightarrow> int \<Rightarrow> int" where
  "clamp_into n i = (let i = (if i < 0 then 0 else i) in if i \<ge> n then n - 1 else i)"

text \<open>The index that \<open>meta_workspace_get_neighbor\<close> looks up.\<close>

definition meta_workspace_get_neighbor ::
  "(nat \<Rightarrow> int) \<Rightarrow> layout_config \<Rightarrow> bool \<Rightarrow> int \<Rightarrow> int \<Rightarrow> meta_motion_direction \<Rightarrow> int" where
  "meta_workspace_get_neighbor junk cfg ltr num_workspaces current_space direction =
     (let layout = meta_workspace_manager_calc_workspace_layout junk cfg num_workspaces current_space;
          (row, col) = motion_step ltr direction (layout_row layout, layout_col layout);
          col = clamp_into (layout_cols layout) col;
          row = clamp_into (layout_rows layout) row;
          i = layout_grid layout ! nat (row * layout_cols layout + col)
      in if i < 0 then current_space else i)"

text \<open>The direction of a switch, as \<open>meta_workspace_activate_with_focus\<close> finds it from the places
  of the two workspaces; no direction is \<open>0\<close>.\<close>

definition switch_direction ::
  "bool \<Rightarrow> workspace_layout \<Rightarrow> workspace_layout \<Rightarrow> meta_motion_direction option" where
  "switch_direction ltr layout1 layout2 =
     (let direction =
            (if \<not> ltr then
               (if layout_col layout1 > layout_col layout2 then Some META_MOTION_RIGHT
                else if layout_col layout1 < layout_col layout2 then Some META_MOTION_LEFT else None)
             else
               (if layout_col layout1 < layout_col layout2 then Some META_MOTION_RIGHT
                else if layout_col layout1 > layout_col layout2 then Some META_MOTION_LEFT else None));
          direction =
            (if layout_row layout1 < layout_row layout2
             then Some (case direction of None \<Rightarrow> META_MOTION_DOWN
                        | Some d \<Rightarrow> if d = META_MOTION_RIGHT then META_MOTION_DOWN_RIGHT
                                    else META_MOTION_DOWN_LEFT)
             else direction)
      in if layout_row layout1 > layout_row layout2
         then Some (case direction of None \<Rightarrow> META_MOTION_UP
                    | Some d \<Rightarrow> if d = META_MOTION_RIGHT then META_MOTION_UP_RIGHT
                                else META_MOTION_UP_LEFT)
         else direction)"

text \<open>The sound of a switch. The search for the destination runs over as many cells as there are
  workspaces; reading beyond the grid is \<open>Sound_overrun\<close>.\<close>

datatype switch_sound = Switch_left | Switch_right | Switch_up | Switch_down
datatype sound_search = Sound_at nat | Sound_missing | Sound_overrun

fun find_destination :: "int list \<Rightarrow> nat \<Rightarrow> int \<Rightarrow> nat \<Rightarrow> sound_search" where
  "find_destination grid 0 dest i = Sound_missing"
| "find_destination grid (Suc n) dest i =
     (if i \<ge> length grid then Sound_overrun
      else if grid ! i = dest then Sound_at i
      else find_destination grid n dest (Suc i))"

definition workspace_switch_sound ::
  "(nat \<Rightarrow> int) \<Rightarrow> layout_config \<Rightarrow> int \<Rightarrow> int \<Rightarrow> int \<Rightarrow> switch_sound option option" where
  "workspace_switch_sound junk cfg n_workspaces from_idx to_idx =
     (let layout = meta_workspace_manager_calc_workspace_layout junk cfg n_workspaces from_idx
      in case find_destination (layout_grid layout) (nat n_workspaces) to_idx 0 of
           Sound_overrun \<Rightarrow> None
         | Sound_missing \<Rightarrow> Some None
         | Sound_at i \<Rightarrow>
             (let y = int i div layout_cols layout; x = int i mod layout_cols layout
              in Some (if x < layout_col layout then Some Switch_left
                       else if x > layout_col layout then Some Switch_right
                       else if y < layout_row layout then Some Switch_up
                       else if y > layout_row layout then Some Switch_down
                       else None)))"

section \<open>The grid numbers the workspaces\<close>

abbreviation (input) cell_index :: "nat \<Rightarrow> nat \<times> nat \<Rightarrow> nat" where
  "cell_index cols rc \<equiv> fst rc * cols + snd rc"

lemma cell_less: "r < R \<Longrightarrow> c < C \<Longrightarrow> r * C + c < R * (C::nat)"
  by (metis Suc_leI add_less_cancel_left less_le_trans mult_Suc mult_le_mono1 add.commute)

lemma cell_div: "c < C \<Longrightarrow> (r * C + c) div C = r \<and> (r * C + c) mod C = (c::nat)"
  by simp

lemma cell_of: "j < R * C \<Longrightarrow> j div C < R \<and> j mod (C::nat) < C"
  by (cases "C = 0") (simp_all add: less_mult_imp_div_less)

definition cells_ok :: "nat \<Rightarrow> nat \<Rightarrow> (nat \<times> nat) list \<Rightarrow> bool" where
  "cells_ok R C cs \<longleftrightarrow> distinct cs \<and> set cs = {..<R} \<times> {..<C}"

lemma cells_ok_rows: "distinct rs \<Longrightarrow> distinct cs \<Longrightarrow> set rs = {..<R} \<Longrightarrow> set cs = {..<C} \<Longrightarrow>
    cells_ok R C [(r, c). r \<leftarrow> rs, c \<leftarrow> cs]"
  unfolding cells_ok_def by (auto simp: distinct_product simp flip: product_concat_map)

lemma distinct_concat_cols:
  "distinct rs \<Longrightarrow> distinct cs \<Longrightarrow> distinct [(r, c). c \<leftarrow> cs, r \<leftarrow> rs]"
  by (induction cs) (auto simp: distinct_map inj_on_def)

lemma cells_ok_cols: "distinct rs \<Longrightarrow> distinct cs \<Longrightarrow> set rs = {..<R} \<Longrightarrow> set cs = {..<C} \<Longrightarrow>
    cells_ok R C [(r, c). c \<leftarrow> cs, r \<leftarrow> rs]"
  by (auto simp: cells_ok_def distinct_concat_cols)

lemma fill_order_ok: "cells_ok R C (fill_order corner v R C)"
  by (cases corner; cases v; simp) (auto intro!: cells_ok_rows cells_ok_cols)

lemma cells_ok_index:
  assumes "cells_ok R C cs"
  shows "distinct (map (cell_index C) cs)" "\<forall>j\<in>set (map (cell_index C) cs). j < R * C"
    "set (map (cell_index C) cs) = {..<R * C}" "length cs = R * C"
proof -
  have inj: "inj_on (cell_index C) ({..<R} \<times> {..<C})"
    by (rule inj_on_inverseI [where g = "\<lambda>j. (j div C, j mod C)"]) auto
  show d: "distinct (map (cell_index C) cs)"
    using assms inj by (simp add: cells_ok_def distinct_map)
  show lt: "\<forall>j\<in>set (map (cell_index C) cs). j < R * C"
    using assms by (auto simp: cells_ok_def cell_less)
  show s: "set (map (cell_index C) cs) = {..<R * C}"
  proof (rule equalityI)
    show "set (map (cell_index C) cs) \<subseteq> {..<R * C}" using lt by auto
    show "{..<R * C} \<subseteq> set (map (cell_index C) cs)"
    proof
      fix j assume "j \<in> {..<R * C}"
      then have "(j div C, j mod C) \<in> set cs"
        using assms cell_of [of j R C] by (simp add: cells_ok_def)
      then have "cell_index C (j div C, j mod C) \<in> set (map (cell_index C) cs)" by force
      then show "j \<in> set (map (cell_index C) cs)" by simp
    qed
  qed
  show "length cs = R * C" using distinct_card [OF d] s by simp
qed

lemma fill_grid_length [simp]: "length (fill_grid C i cs grid) = length grid"
  by (induction C i cs grid rule: fill_grid.induct) auto

lemma fill_grid_other:
  "j \<notin> set (map (cell_index C) cs) \<Longrightarrow> fill_grid C i cs grid ! j = grid ! j"
  by (induction C i cs grid rule: fill_grid.induct) auto

lemma fill_grid_nth:
  "distinct (map (cell_index C) cs) \<Longrightarrow> \<forall>j\<in>set (map (cell_index C) cs). j < length grid \<Longrightarrow> k < length cs \<Longrightarrow>
   fill_grid C i cs grid ! cell_index C (cs ! k) = i + int k"
proof (induction C i cs grid arbitrary: k rule: fill_grid.induct)
  case (2 C i r c cs grid)
  show ?case
  proof (cases k)
    case 0
    then show ?thesis using 2(2,3) by (simp add: fill_grid_other)
  next
    case (Suc k')
    then show ?thesis using 2 by simp
  qed
qed simp

definition numbering :: "nat \<Rightarrow> int list \<Rightarrow> bool" where
  "numbering n g \<longleftrightarrow> length g = n \<and> distinct g \<and> set g = {0..<int n}"

lemma fill_grid_numbering:
  assumes "cells_ok R C cs" "length grid = R * C"
  shows "numbering (R * C) (fill_grid C 0 cs grid)"
proof -
  let ?g = "fill_grid C 0 cs grid"
  note i = cells_ok_index [OF assms(1)]
  have "{0..<int (R * C)} \<subseteq> set ?g"
  proof
    fix v assume "v \<in> {0..<int (R * C)}"
    then obtain k where k: "v = int k" "k < length cs"
      using i(4) by (metis atLeastLessThan_iff nonneg_int_cases of_nat_less_iff)
    have "?g ! cell_index C (cs ! k) = v" "cell_index C (cs ! k) < length ?g"
      using fill_grid_nth [of C cs grid k 0] i k assms(2) by auto
    then show "v \<in> set ?g" by (metis nth_mem)
  qed
  moreover have "card (set ?g) \<le> R * C" using card_length [of ?g] assms(2) by simp
  ultimately have s: "set ?g = {0..<int (R * C)}"
    using card_seteq [of "set ?g" "{0..<int (R * C)}"] by (metis List.finite_set card_atLeastLessThan_int diff_zero nat_int)
  then have "card (set ?g) = length ?g"
    by (metis assms(2) card_atLeastLessThan_int diff_zero fill_grid_length nat_int)
  then have "distinct ?g" by (rule card_distinct)
  with s show ?thesis by (simp add: numbering_def assms(2))
qed

lemma numbering_pos: "numbering n g \<Longrightarrow> 0 \<le> v \<Longrightarrow> v < int n \<Longrightarrow> \<exists>!j. j < n \<and> g ! j = v"
  unfolding numbering_def by (metis atLeastLessThan_iff in_set_conv_nth nth_eq_iff_index_eq)

lemma numbering_range: "numbering n g \<Longrightarrow> j < n \<Longrightarrow> 0 \<le> g ! j \<and> g ! j < int n"
  unfolding numbering_def by (metis atLeastLessThan_iff nth_mem)

section \<open>Marking\<close>

definition marked :: "int \<Rightarrow> int \<Rightarrow> int" where
  "marked n v = (if v \<ge> n then -1 else v)"

lemma mark_cells_grid:
  assumes "cur < n" "distinct (map (cell_index C) cs)" "\<forall>j\<in>set (map (cell_index C) cs). j < length grid"
    and "mark_cells C n cur cs (grid, row, col) = (grid', row', col')"
  shows "length grid' = length grid \<and>
    (\<forall>j < length grid. grid' ! j = (if j \<in> set (map (cell_index C) cs) then marked n (grid ! j) else grid ! j))"
  using assms(2-4)
proof (induction cs arbitrary: grid row col)
  case (Cons rc cs)
  obtain r c where rc: "rc = (r, c)" by fastforce
  define j0 where "j0 = r * C + c"
  define g1 where "g1 = (if grid ! j0 \<ge> n then grid[j0 := -1] else grid)"
  obtain row1 col1 where st: "mark_cells C n cur cs (g1, row1, col1) = (grid', row', col')"
    using Cons.prems(3) assms(1) by (auto simp: rc g1_def j0_def split: if_splits)
  have len: "length g1 = length grid" by (simp add: g1_def)
  have "length grid' = length g1 \<and> (\<forall>j < length g1. grid' ! j =
      (if j \<in> set (map (cell_index C) cs) then marked n (g1 ! j) else g1 ! j))"
    using Cons.prems(1,2) st by (intro Cons.IH [where row = row1 and col = col1]) (auto simp: len)
  moreover have "g1 ! j = (if j = j0 then marked n (grid ! j) else grid ! j)" if "j < length grid" for j
    using that by (auto simp: g1_def marked_def)
  moreover have "j0 \<notin> set (map (cell_index C) cs)" using Cons.prems(1) by (auto simp: rc j0_def)
  ultimately show ?case by (auto simp: rc j0_def len)
qed auto

lemma mark_cells_place:
  assumes "0 \<le> cur" "cur < n" "distinct (map (cell_index C) cs)" "\<forall>j\<in>set (map (cell_index C) cs). j < length grid"
    and "inj_on ((!) grid) {..<length grid}"
    and "mark_cells C n cur cs (grid, row, col) = (grid', row', col')"
  shows "(row', col') = (case find (\<lambda>rc. grid ! cell_index C rc = cur) cs of
           Some (r, c) \<Rightarrow> (int r, int c) | None \<Rightarrow> (row, col))"
proof -
  have gen: "(row', col') = (case find (\<lambda>rc. grid ! cell_index C rc = cur) cs of
           Some (r, c) \<Rightarrow> (int r, int c) | None \<Rightarrow> (row, col))"
    if "distinct (map (cell_index C) cs)" "\<forall>j\<in>set (map (cell_index C) cs). j < length grid \<and> g ! j = grid ! j"
      and "mark_cells C n cur cs (g, row, col) = (grid', row', col')" "length g = length grid" for g row col
    using that
  proof (induction cs arbitrary: g row col)
    case (Cons rc cs)
    obtain r c where rc: "rc = (r, c)" by fastforce
    let ?j = "r * C + c"
    have j: "?j < length grid" "g ! ?j = grid ! ?j" using Cons.prems(2) by (auto simp: rc)
    show ?case
    proof (cases "grid ! ?j = cur")
      case True
      have none: "find (\<lambda>rc. grid ! cell_index C rc = cur) cs = None"
      proof -
        have "grid ! cell_index C x \<noteq> cur" if x: "x \<in> set cs" for x
        proof
          assume "grid ! cell_index C x = cur"
          moreover have "cell_index C x < length grid" using Cons.prems(2) x by simp
          ultimately have "cell_index C x = ?j"
            using True j(1) by (intro inj_onD [OF assms(5)]) auto
          with Cons.prems(1) x show False by (force simp: rc)
        qed
        then show ?thesis by (force simp: find_None_iff)
      qed
      have "(row', col') = (case find (\<lambda>rc. grid ! cell_index C rc = cur) cs of
           Some (r, c) \<Rightarrow> (int r, int c) | None \<Rightarrow> (int r, int c))"
        using Cons.prems True j by (intro Cons.IH [where g = g]) (auto simp: rc)
      with none True show ?thesis by (simp add: rc)
    next
      case False
      let ?g = "if g ! ?j \<ge> n then g[?j := -1] else g"
      have ne: "?j \<notin> set (map (cell_index C) cs)" using Cons.prems(1) by (auto simp: rc)
      have "(row', col') = (case find (\<lambda>rc. grid ! cell_index C rc = cur) cs of
           Some (r, c) \<Rightarrow> (int r, int c) | None \<Rightarrow> (row, col))"
      proof (rule Cons.IH [where g = ?g])
        show "mark_cells C n cur cs (?g, row, col) = (grid', row', col')"
          using Cons.prems(3) False j by (simp add: rc split: if_splits)
        show "\<forall>j\<in>set (map (cell_index C) cs). j < length grid \<and> ?g ! j = grid ! j"
        proof
          fix j assume j: "j \<in> set (map (cell_index C) cs)"
          with ne have "j \<noteq> ?j" by metis
          with j Cons.prems(2) show "j < length grid \<and> ?g ! j = grid ! j" by (auto simp: rc)
        qed
      qed (use Cons.prems in \<open>auto simp: rc\<close>)
      with False show ?thesis by (simp add: rc)
    qed
  qed auto
  show ?thesis using assms by (intro gen [where g = grid]) auto
qed

section \<open>The layout\<close>

lemma sdiv_pos: "0 \<le> a \<Longrightarrow> 0 < b \<Longrightarrow> a sdiv b = a div (b::int)"
  by (cases "a = 0") (auto simp: signed_divide_int_def)

lemma smod_pos: "0 \<le> a \<Longrightarrow> 0 < b \<Longrightarrow> a smod b = a mod (b::int)"
  by (cases "a = 0") (auto simp: signed_modulo_int_def)

lemma round_up_covers:
  fixes n d :: int
  assumes "0 < d" "0 \<le> n"
  shows "n \<le> (n sdiv d + (if n smod d > 0 then 1 else 0)) * d"
proof -
  define q r where "q = n div d" and "r = n mod d"
  have "n = q * d + r" "0 \<le> r" "r < d" "n sdiv d = q" "n smod d = r"
    using assms by (simp_all add: q_def r_def sdiv_pos smod_pos)
  then show ?thesis by (auto simp: algebra_simps)
qed

lemma layout_dims_pos:
  "0 < fst (layout_dims cfg n)" "0 < snd (layout_dims cfg n)"
  by (auto simp: layout_dims_def Let_def)

text \<open>The grid has room for every workspace unless both dimensions are fixed and too small.\<close>

definition roomy_layout :: "layout_config \<Rightarrow> int \<Rightarrow> bool" where
  "roomy_layout cfg n \<longleftrightarrow> rows_of_workspaces cfg \<le> 0 \<or> columns_of_workspaces cfg \<le> 0 \<or>
     n \<le> rows_of_workspaces cfg * columns_of_workspaces cfg"

lemma layout_dims_room:
  assumes "0 < n" "roomy_layout cfg n"
  shows "n \<le> fst (layout_dims cfg n) * snd (layout_dims cfg n)"
proof -
  let ?r = "rows_of_workspaces cfg" and ?c = "columns_of_workspaces cfg"
  have up: "n sdiv d + (if n smod d > 0 then 1 else 0) \<ge> 1" if "0 < d" for d
  proof (rule ccontr)
    assume "\<not> ?thesis"
    then have "(n sdiv d + (if n smod d > 0 then 1 else 0)) * d \<le> 0"
      using that by (intro mult_nonpos_nonneg) linarith+
    with round_up_covers [of d n] assms(1) that show False by linarith
  qed
  consider "?r \<le> 0" "?c \<le> 0" | "?r \<le> 0" "0 < ?c" | "0 < ?r" "?c \<le> 0" | "0 < ?r" "0 < ?c" by linarith
  then show ?thesis
  proof cases
    case 1 then show ?thesis using round_up_covers [of n n] up [of n] assms(1)
      by (simp add: layout_dims_def Let_def)
  next
    case 2 then show ?thesis using round_up_covers [of ?c n] up [of ?c] assms(1)
      by (simp add: layout_dims_def Let_def)
  next
    case 3 then show ?thesis using round_up_covers [of ?r n] up [of ?r] assms(1)
      by (simp add: layout_dims_def Let_def mult.commute)
  next
    case 4 then show ?thesis using assms(2) by (simp add: layout_dims_def Let_def roomy_layout_def)
  qed
qed

definition base_grid :: "(nat \<Rightarrow> int) \<Rightarrow> layout_config \<Rightarrow> int \<Rightarrow> int list" where
  "base_grid junk cfg n = (let R = nat (fst (layout_dims cfg n)); C = nat (snd (layout_dims cfg n)) in
     fill_grid C 0 (fill_order (starting_corner cfg) (vertical_workspaces cfg) R C) (map junk [0..<R * C]))"

abbreviation (input) grid_size :: "layout_config \<Rightarrow> int \<Rightarrow> int" where
  "grid_size cfg n \<equiv> fst (layout_dims cfg n) * snd (layout_dims cfg n)"

lemma base_grid_numbering: "numbering (nat (grid_size cfg n)) (base_grid junk cfg n)"
  using fill_grid_numbering [OF fill_order_ok] layout_dims_pos [of cfg n]
  by (simp add: base_grid_def Let_def nat_mult_distrib)

lemma calc_parts:
  fixes junk :: "nat \<Rightarrow> int" and cfg :: layout_config
  assumes "0 \<le> cur" "cur < n"
  defines "L \<equiv> meta_workspace_manager_calc_workspace_layout junk cfg n cur"
    and "R \<equiv> fst (layout_dims cfg n)" and "C \<equiv> snd (layout_dims cfg n)" and "g \<equiv> base_grid junk cfg n"
  shows "layout_rows L = R" "layout_cols L = C" "grid_area L = R * C" "layout_grid L = map (marked n) g"
    "cur < R * C \<Longrightarrow> 0 \<le> layout_row L \<and> layout_row L < R \<and> 0 \<le> layout_col L \<and> layout_col L < C \<and>
       g ! nat (layout_row L * C + layout_col L) = cur"
    "R * C \<le> cur \<Longrightarrow> layout_row L = 0 \<and> layout_col L = 0"
proof -
  let ?R = "nat R" and ?C = "nat C"
  define rowmajor where "rowmajor = [(r, c). r \<leftarrow> [0..<?R], c \<leftarrow> [0..<?C]]"
  have ok: "cells_ok ?R ?C rowmajor" unfolding rowmajor_def by (rule cells_ok_rows) auto
  note idx = cells_ok_index [OF ok]
  have pos: "0 < R" "0 < C" unfolding R_def C_def by (rule layout_dims_pos)+
  have area: "nat (R * C) = ?R * ?C" using pos by (simp add: nat_mult_distrib)
  have num: "numbering (?R * ?C) g" using base_grid_numbering [of cfg n junk] area by (simp add: g_def R_def C_def)
  then have len: "length g = ?R * ?C" by (simp add: numbering_def)
  obtain grid' row' col' where m: "mark_cells ?C n cur rowmajor (g, 0, 0) = (grid', row', col')"
    by (metis prod_cases3)
  have L: "L = \<lparr>layout_rows = R, layout_cols = C, layout_grid = grid', grid_area = R * C, layout_row = row',
      layout_col = col'\<rparr>"
    using m unfolding L_def meta_workspace_manager_calc_workspace_layout_def rowmajor_def g_def base_grid_def R_def C_def
    by (simp add: Let_def case_prod_beta)
  show "layout_rows L = R" "layout_cols L = C" "grid_area L = R * C" by (simp_all add: L)
  have G: "length grid' = length g \<and> (\<forall>j < length g. grid' ! j =
      (if j \<in> set (map (cell_index ?C) rowmajor) then marked n (g ! j) else g ! j))"
    using idx(1,2) len by (intro mark_cells_grid [OF assms(2) _ _ m]) auto
  show "layout_grid L = map (marked n) g"
    using G idx(3) len by (simp add: L list_eq_iff_nth_eq)
  have inj: "inj_on ((!) g) {..<length g}"
    using num by (auto simp: numbering_def inj_on_def nth_eq_iff_index_eq)
  have P: "(row', col') = (case find (\<lambda>rc. g ! cell_index ?C rc = cur) rowmajor of
           Some (r, c) \<Rightarrow> (int r, int c) | None \<Rightarrow> (0, 0))"
    using idx(1,2) len by (intro mark_cells_place [OF assms(1,2) _ _ inj m]) auto
  show "0 \<le> layout_row L \<and> layout_row L < R \<and> 0 \<le> layout_col L \<and> layout_col L < C \<and>
       g ! nat (layout_row L * C + layout_col L) = cur" if "cur < R * C"
  proof -
    have "cur < int (?R * ?C)" using that pos by simp
    then obtain j where "j < ?R * ?C" "g ! j = cur" using numbering_pos [OF num assms(1)] by blast
    moreover from this idx(3) have "j \<in> set (map (cell_index ?C) rowmajor)" by simp
    ultimately have "\<exists>rc\<in>set rowmajor. g ! cell_index ?C rc = cur" by force
    then have "find (\<lambda>rc. g ! cell_index ?C rc = cur) rowmajor \<noteq> None" unfolding find_None_iff by blast
    then obtain r c where f: "find (\<lambda>rc. g ! cell_index ?C rc = cur) rowmajor = Some (r, c)" by fastforce
    then obtain i where i: "i < length rowmajor" "g ! cell_index ?C (rowmajor ! i) = cur" "(r, c) = rowmajor ! i"
      unfolding find_Some_iff by blast
    have "(r, c) \<in> set rowmajor" unfolding i(3) using i(1) by (rule nth_mem)
    then have "r < ?R" "c < ?C" using ok by (auto simp: cells_ok_def)
    then have "int r < R" "int c < C" by simp_all
    moreover have "row' = int r" "col' = int c" using P f by simp_all
    moreover have "g ! (r * ?C + c) = cur" using i(2) unfolding i(3) [symmetric] by simp
    moreover have "nat (int r * C + int c) = r * ?C + c" using pos by (simp add: nat_add_distrib nat_mult_distrib)
    ultimately show ?thesis using pos by (simp add: L)
  qed
  show "layout_row L = 0 \<and> layout_col L = 0" if "R * C \<le> cur"
  proof -
    have "g ! cell_index ?C rc \<noteq> cur" if "rc \<in> set rowmajor" for rc
      using numbering_range [OF num, of "cell_index ?C rc"] idx(2) that \<open>R * C \<le> cur\<close> area pos
      by (auto simp: nat_mult_distrib dest!: bspec [of "set rowmajor"])
    then have "find (\<lambda>rc. g ! cell_index ?C rc = cur) rowmajor = None" by (force simp: find_None_iff)
    with P show ?thesis by (simp add: L)
  qed
qed

lemma cell_inside: "0 \<le> a \<Longrightarrow> a < R \<Longrightarrow> 0 \<le> b \<Longrightarrow> b < C \<Longrightarrow> nat (a * C + b) < nat (R * C)" for a b :: int
proof -
  assume h: "0 \<le> a" "a < R" "0 \<le> b" "b < C"
  then have "(a + 1) * C \<le> R * C" by (intro mult_right_mono) auto
  moreover have "0 \<le> a * C" using h by simp
  ultimately show ?thesis using h by (simp add: algebra_simps)
qed

lemma place_unique:
  assumes "0 \<le> k" "k < n" "0 \<le> r" "r < fst (layout_dims cfg n)" "0 \<le> c" "c < snd (layout_dims cfg n)"
    and "base_grid junk cfg n ! nat (r * snd (layout_dims cfg n) + c) = k"
  shows "layout_row (meta_workspace_manager_calc_workspace_layout junk cfg n k) = r"
    "layout_col (meta_workspace_manager_calc_workspace_layout junk cfg n k) = c"
proof -
  let ?R = "fst (layout_dims cfg n)" and ?C = "snd (layout_dims cfg n)"
  let ?L = "meta_workspace_manager_calc_workspace_layout junk cfg n k"
  have num: "numbering (nat (grid_size cfg n)) (base_grid junk cfg n)" by (rule base_grid_numbering)
  have "k < grid_size cfg n"
    using numbering_range [OF num cell_inside [OF assms(3-6)]] assms(1,7) by (simp split: if_splits)
  note P = calc_parts(5) [OF assms(1,2) this, where junk = junk]
  have "nat (layout_row ?L * ?C + layout_col ?L) < nat (grid_size cfg n)" using P by (intro cell_inside) auto
  then have "nat (layout_row ?L * ?C + layout_col ?L) = nat (r * ?C + c)"
    using num P assms(7) cell_inside [OF assms(3-6)]
      nth_eq_iff_index_eq [of "base_grid junk cfg n" "nat (layout_row ?L * ?C + layout_col ?L)" "nat (r * ?C + c)"]
    by (simp add: numbering_def)
  moreover have "0 \<le> layout_row ?L * ?C + layout_col ?L" "0 \<le> r * ?C + c" using P assms(3-6) by simp_all
  ultimately have eq: "layout_row ?L * ?C + layout_col ?L = r * ?C + c" by simp
  have parts: "(a * ?C + b) div ?C = a \<and> (a * ?C + b) mod ?C = b" if "0 \<le> b" "b < ?C" for a b using that by simp
  have L: "(r * ?C + c) div ?C = layout_row ?L \<and> (r * ?C + c) mod ?C = layout_col ?L"
    unfolding eq [symmetric] using P by (intro parts) auto
  note parts [OF assms(5,6), of r]
  with L show "layout_row ?L = r" "layout_col ?L = c" by linarith+
qed

definition cardinal :: "meta_motion_direction \<Rightarrow> bool" where
  "cardinal d \<longleftrightarrow> d \<in> {META_MOTION_UP, META_MOTION_DOWN, META_MOTION_LEFT, META_MOTION_RIGHT}"

fun opposite :: "meta_motion_direction \<Rightarrow> meta_motion_direction" where
  "opposite META_MOTION_UP = META_MOTION_DOWN"
| "opposite META_MOTION_DOWN = META_MOTION_UP"
| "opposite META_MOTION_LEFT = META_MOTION_RIGHT"
| "opposite META_MOTION_RIGHT = META_MOTION_LEFT"
| "opposite META_MOTION_UP_LEFT = META_MOTION_DOWN_RIGHT"
| "opposite META_MOTION_UP_RIGHT = META_MOTION_DOWN_LEFT"
| "opposite META_MOTION_DOWN_LEFT = META_MOTION_UP_RIGHT"
| "opposite META_MOTION_DOWN_RIGHT = META_MOTION_UP_LEFT"

lemma opposite_step: "motion_step ltr d (r, c) = (r', c') \<Longrightarrow> motion_step ltr (opposite d) (r', c') = (r, c)"
  by (cases d) auto

lemma opposite_cardinal: "cardinal d \<Longrightarrow> cardinal (opposite d)"
  by (auto simp: cardinal_def)

text \<open>A step in one of the four directions goes to the next cell, or nowhere.\<close>

lemma clamped_step:
  assumes "cardinal d" "0 \<le> r" "r < R" "0 \<le> c" "c < C" "motion_step ltr d (r, c) = (r', c')"
  shows "0 \<le> r' \<and> r' < R \<and> 0 \<le> c' \<and> c' < C \<and> clamp_into R r' = r' \<and> clamp_into C c' = c' \<or>
    \<not> (0 \<le> r' \<and> r' < R \<and> 0 \<le> c' \<and> c' < C) \<and> clamp_into R r' = r \<and> clamp_into C c' = c"
  using assms by (auto simp: cardinal_def clamp_into_def Let_def split: if_splits)

lemma neighbor_cell:
  fixes junk :: "nat \<Rightarrow> int" and cfg :: layout_config
  assumes "0 \<le> cur" "cur < n" "cur < grid_size cfg n" "cardinal d"
  defines "L \<equiv> meta_workspace_manager_calc_workspace_layout junk cfg n cur"
  assumes "motion_step ltr d (layout_row L, layout_col L) = (r, c)"
  shows "meta_workspace_get_neighbor junk cfg ltr n cur d =
    (if 0 \<le> r \<and> r < fst (layout_dims cfg n) \<and> 0 \<le> c \<and> c < snd (layout_dims cfg n) \<and>
        base_grid junk cfg n ! nat (r * snd (layout_dims cfg n) + c) < n
     then base_grid junk cfg n ! nat (r * snd (layout_dims cfg n) + c) else cur)"
proof -
  let ?R = "fst (layout_dims cfg n)" and ?C = "snd (layout_dims cfg n)" and ?g = "base_grid junk cfg n"
  note P = calc_parts [OF assms(1,2), where junk = junk and cfg = cfg, folded L_def]
  have place: "0 \<le> layout_row L" "layout_row L < ?R" "0 \<le> layout_col L" "layout_col L < ?C"
    "?g ! nat (layout_row L * ?C + layout_col L) = cur" using P(5) [OF assms(3)] by auto
  have num: "numbering (nat (grid_size cfg n)) ?g" by (rule base_grid_numbering)
  have inside: "nat (a * ?C + b) < length ?g \<and> 0 \<le> ?g ! nat (a * ?C + b)"
    if "0 \<le> a" "a < ?R" "0 \<le> b" "b < ?C" for a b
    using num numbering_range [OF num cell_inside [OF that]] cell_inside [OF that] by (simp add: numbering_def)
  have N: "meta_workspace_get_neighbor junk cfg ltr n cur d =
      (let i = map (marked n) ?g ! nat (clamp_into ?R r * ?C + clamp_into ?C c) in if i < 0 then cur else i)"
    unfolding meta_workspace_get_neighbor_def L_def [symmetric] Let_def assms(6) by (simp add: P)
  show ?thesis
    using clamped_step [OF assms(4) place(1-4) assms(6)] inside [of r c] inside [OF place(1-4)] place(5) assms(1,2)
    unfolding N by (auto simp: Let_def marked_def)
qed

lemma neighbor_in_range:
  assumes "0 \<le> cur" "cur < n"
  shows "0 \<le> meta_workspace_get_neighbor junk cfg ltr n cur d \<and> meta_workspace_get_neighbor junk cfg ltr n cur d < n"
proof -
  let ?R = "fst (layout_dims cfg n)" and ?C = "snd (layout_dims cfg n)" and ?g = "base_grid junk cfg n"
  let ?L = "meta_workspace_manager_calc_workspace_layout junk cfg n cur"
  note P = calc_parts [OF assms, where junk = junk and cfg = cfg]
  obtain r c where s: "motion_step ltr d (layout_row ?L, layout_col ?L) = (r, c)" by fastforce
  have N: "meta_workspace_get_neighbor junk cfg ltr n cur d =
      (let i = map (marked n) ?g ! nat (clamp_into ?R r * ?C + clamp_into ?C c) in if i < 0 then cur else i)"
    unfolding meta_workspace_get_neighbor_def Let_def s by (simp add: P)
  have cl: "0 \<le> clamp_into m i \<and> clamp_into m i < m" if "0 < m" for m i
    using that by (auto simp: clamp_into_def Let_def)
  have num: "numbering (nat (grid_size cfg n)) ?g" by (rule base_grid_numbering)
  have "nat (clamp_into ?R r * ?C + clamp_into ?C c) < length ?g"
    using num cell_inside [of "clamp_into ?R r" ?R "clamp_into ?C c" ?C] cl [OF layout_dims_pos(1)]
      cl [OF layout_dims_pos(2)] by (simp add: numbering_def)
  then show ?thesis unfolding N using assms by (auto simp: Let_def marked_def)
qed

text \<open>Going somewhere and back, and the direction that the switch is shown in.\<close>

lemma neighbor_there_and_back:
  assumes "0 \<le> cur" "cur < n" "roomy_layout cfg n" "cardinal d"
    and "j = meta_workspace_get_neighbor junk cfg ltr n cur d" "j \<noteq> cur"
  shows "meta_workspace_get_neighbor junk cfg ltr n j (opposite d) = cur"
    "switch_direction ltr (meta_workspace_manager_calc_workspace_layout junk cfg n cur)
       (meta_workspace_manager_calc_workspace_layout junk cfg n j) = Some d"
proof -
  let ?calc = "meta_workspace_manager_calc_workspace_layout junk cfg n"
  let ?R = "fst (layout_dims cfg n)" and ?C = "snd (layout_dims cfg n)" and ?g = "base_grid junk cfg n"
  have room: "n \<le> grid_size cfg n" using layout_dims_room assms(1-3) by force
  then have cur: "cur < grid_size cfg n" using assms(2) by simp
  note P = calc_parts(5) [OF assms(1,2) cur, where junk = junk]
  obtain r c where s: "motion_step ltr d (layout_row (?calc cur), layout_col (?calc cur)) = (r, c)" by fastforce
  have j: "0 \<le> r" "r < ?R" "0 \<le> c" "c < ?C" "?g ! nat (r * ?C + c) = j"
    using neighbor_cell [OF assms(1,2) cur assms(4) s] assms(5,6) by (auto split: if_splits)
  have jr: "0 \<le> j" "j < n" using neighbor_in_range [OF assms(1,2)] assms(5) by auto
  note pl = place_unique [OF jr j]
  have back_step: "motion_step ltr (opposite d) (layout_row (?calc j), layout_col (?calc j)) =
      (layout_row (?calc cur), layout_col (?calc cur))"
    using opposite_step [OF s] by (simp add: pl)
  show "meta_workspace_get_neighbor junk cfg ltr n j (opposite d) = cur"
    using neighbor_cell [OF jr _ opposite_cardinal [OF assms(4)] back_step] jr room P assms(2) by simp
  show "switch_direction ltr (?calc cur) (?calc j) = Some d"
    using s assms(4) by (auto simp: switch_direction_def Let_def pl cardinal_def split: if_splits)
qed

section \<open>Examples\<close>

text \<open>The layout that the manager starts with: one row, as many columns as needed.\<close>

definition default_layout :: layout_config where
  "default_layout = \<lparr>rows_of_workspaces = 1, columns_of_workspaces = -1, vertical_workspaces = False,
     starting_corner = META_DISPLAY_TOPLEFT, workspace_layout_overridden = False\<rparr>"

definition bottom_right_layout :: layout_config where
  "bottom_right_layout =
     meta_workspace_manager_override_workspace_layout META_DISPLAY_BOTTOMRIGHT False 2 2 default_layout"

definition narrow_layout :: layout_config where
  "narrow_layout = meta_workspace_manager_override_workspace_layout META_DISPLAY_TOPLEFT False 1 2 default_layout"

lemma bottom_right_grid:
  "layout_grid (meta_workspace_manager_calc_workspace_layout (\<lambda>_. 77) bottom_right_layout 3 0) = [-1, 2, 1, 0]"
  by code_simp

text \<open>The search for the destination of a switch stops after as many cells as there are workspaces:
  with a cell left empty at the beginning of the grid the first workspace is not found, and no sound
  is played. With fewer cells than workspaces it reads behind the grid.\<close>

lemma switch_sound_misses:
  "workspace_switch_sound (\<lambda>_. 77) bottom_right_layout 3 1 0 = Some None"
  "workspace_switch_sound (\<lambda>_. 77) bottom_right_layout 3 0 1 = Some (Some Switch_left)"
  by code_simp+

lemma switch_sound_overruns: "workspace_switch_sound (\<lambda>_. 77) narrow_layout 3 0 2 = None"
  by code_simp

text \<open>A workspace without a cell is taken to be in the first one.\<close>

lemma neighbor_off_grid: "meta_workspace_get_neighbor (\<lambda>_. 77) narrow_layout True 4 3 META_MOTION_RIGHT = 1"
  by code_simp

lemma neighbor_examples:
  "meta_workspace_get_neighbor (\<lambda>_. 77) default_layout True 4 2 META_MOTION_RIGHT = 3"
  "meta_workspace_get_neighbor (\<lambda>_. 77) default_layout True 4 3 META_MOTION_RIGHT = 3"
  "meta_workspace_get_neighbor (\<lambda>_. 77) bottom_right_layout True 3 1 META_MOTION_UP = 1"
  by code_simp+

end
