(* ===== verification/Workspace_Areas.thy ===== *)
theory Workspace_Areas
  imports Boxes_Place Boxes_Edges
begin

text \<open>
  The work areas of a workspace: \<open>ensure_work_areas_validated\<close> and
  \<open>meta_workspace_set_builtin_struts\<close> of \<open>core/workspace.c\<close>, with the lookups of
  \<open>backends/meta-monitor-manager.c\<close> and \<open>backends/meta-logical-monitor.c\<close> that they use. Logical
  monitors are the positions of their rectangles in the manager's list. The main result is that the
  work area of a monitor is a largest rectangle of the monitor that no strut of its sides covers,
  and that it lies in the regions that the constraints keep windows in.
\<close>

section \<open>Looking up monitors\<close>

datatype meta_display_direction =
  META_DISPLAY_UP | META_DISPLAY_DOWN | META_DISPLAY_LEFT | META_DISPLAY_RIGHT

fun meta_logical_monitor_has_neighbor ::
  "mtk_rectangle \<Rightarrow> mtk_rectangle \<Rightarrow> meta_display_direction \<Rightarrow> bool" where
  "meta_logical_monitor_has_neighbor m other META_DISPLAY_RIGHT \<longleftrightarrow>
     rect_x other = rect_x m + rect_width m \<and> mtk_rectangle_vert_overlap other m"
| "meta_logical_monitor_has_neighbor m other META_DISPLAY_LEFT \<longleftrightarrow>
     rect_x m = rect_x other + rect_width other \<and> mtk_rectangle_vert_overlap other m"
| "meta_logical_monitor_has_neighbor m other META_DISPLAY_UP \<longleftrightarrow>
     rect_y m = rect_y other + rect_height other \<and> mtk_rectangle_horiz_overlap other m"
| "meta_logical_monitor_has_neighbor m other META_DISPLAY_DOWN \<longleftrightarrow>
     rect_y other = rect_y m + rect_height m \<and> mtk_rectangle_horiz_overlap other m"

definition meta_monitor_manager_get_logical_monitor_neighbor ::
  "mtk_rectangle list \<Rightarrow> mtk_rectangle \<Rightarrow> meta_display_direction \<Rightarrow> mtk_rectangle option" where
  "meta_monitor_manager_get_logical_monitor_neighbor monitors m direction =
     find (\<lambda>other. meta_logical_monitor_has_neighbor m other direction) monitors"

text \<open>The loop of \<open>meta_monitor_manager_get_logical_monitor_from_rect\<close>: the monitor that the centre
  is on, otherwise the one with the largest part of the rectangle, otherwise the primary one.\<close>

fun best_monitor ::
  "mtk_rectangle \<Rightarrow> int \<Rightarrow> int \<Rightarrow> nat option \<times> int \<Rightarrow> (nat \<times> mtk_rectangle) list \<Rightarrow> nat option" where
  "best_monitor rect cx cy (best, area) [] = best"
| "best_monitor rect cx cy (best, area) ((i, m) # ms) =
     (if mtk_rectangle_contains_point m cx cy then Some i
      else case mtk_rectangle_intersect m rect mtk_rectangle_new_empty of
        (False, v) \<Rightarrow> best_monitor rect cx cy (best, area) ms
      | (True, v) \<Rightarrow>
          if mtk_rectangle_area v > area then best_monitor rect cx cy (Some i, mtk_rectangle_area v) ms
          else best_monitor rect cx cy (best, area) ms)"

definition meta_monitor_manager_get_logical_monitor_from_rect ::
  "mtk_rectangle list \<Rightarrow> nat option \<Rightarrow> mtk_rectangle \<Rightarrow> nat option" where
  "meta_monitor_manager_get_logical_monitor_from_rect monitors primary rect =
     (case best_monitor rect (rect_x rect + rect_width rect sdiv 2) (rect_y rect + rect_height rect sdiv 2)
             (None, 0) (enumerate 0 monitors) of
        Some i \<Rightarrow> Some i
      | None \<Rightarrow> primary)"

section \<open>Struts of the shell\<close>

text \<open>What \<open>meta_workspace_set_builtin_struts\<close> makes of one strut: a strut at a side of its monitor
  without a neighbour reaches to the edge of the display. A missing monitor is dereferenced by the
  search for its neighbour, unless there are no monitors to search.\<close>

fun strut_direction :: "meta_side \<Rightarrow> meta_display_direction" where
  "strut_direction META_SIDE_TOP = META_DISPLAY_UP"
| "strut_direction META_SIDE_BOTTOM = META_DISPLAY_DOWN"
| "strut_direction META_SIDE_LEFT = META_DISPLAY_LEFT"
| "strut_direction META_SIDE_RIGHT = META_DISPLAY_RIGHT"

definition strut_has_neighbor :: "mtk_rectangle list \<Rightarrow> nat option \<Rightarrow> meta_strut \<Rightarrow> bool option" where
  "strut_has_neighbor monitors primary strut =
     (case meta_monitor_manager_get_logical_monitor_from_rect monitors primary (strut_rect strut) of
        None \<Rightarrow> if monitors = [] then Some False else None
      | Some m \<Rightarrow> Some (meta_monitor_manager_get_logical_monitor_neighbor monitors (monitors ! m)
                          (strut_direction (strut_side strut)) \<noteq> None))"

definition extend_strut ::
  "mtk_rectangle \<Rightarrow> mtk_rectangle list \<Rightarrow> nat option \<Rightarrow> meta_strut \<Rightarrow> meta_strut option" where
  "extend_strut display_rect monitors primary strut =
     map_option (\<lambda>has_neighbor.
       if has_neighbor then strut
       else let rect = strut_rect strut in strut\<lparr>strut_rect := (case strut_side strut of
              META_SIDE_TOP \<Rightarrow> rect\<lparr>rect_height := rect_height rect + rect_y rect, rect_y := 0\<rparr>
            | META_SIDE_BOTTOM \<Rightarrow> rect\<lparr>rect_height := rect_height display_rect - rect_y rect\<rparr>
            | META_SIDE_LEFT \<Rightarrow> rect\<lparr>rect_width := rect_width rect + rect_x rect, rect_x := 0\<rparr>
            | META_SIDE_RIGHT \<Rightarrow> rect\<lparr>rect_width := rect_width display_rect - rect_x rect\<rparr>)\<rparr>)
       (strut_has_neighbor monitors primary strut)"

fun extend_struts ::
  "mtk_rectangle \<Rightarrow> mtk_rectangle list \<Rightarrow> nat option \<Rightarrow> meta_strut list \<Rightarrow> meta_strut list option" where
  "extend_struts display_rect monitors primary [] = Some []"
| "extend_struts display_rect monitors primary (s # ss) =
     (case extend_strut display_rect monitors primary s of
        None \<Rightarrow> None
      | Some s' \<Rightarrow> map_option (\<lambda>l. s' # l) (extend_struts display_rect monitors primary ss))"

text \<open>The comparison of the two lists, which X11 windows use for their struts too.\<close>

fun strut_lists_equal :: "meta_strut list \<Rightarrow> meta_strut list \<Rightarrow> bool" where
  "strut_lists_equal [] [] = True"
| "strut_lists_equal (a # l) (b # m) =
     (if strut_side a \<noteq> strut_side b \<or> \<not> mtk_rectangle_equal (strut_rect a) (strut_rect b) then False
      else strut_lists_equal l m)"
| "strut_lists_equal _ _ = False"

section \<open>Work areas\<close>

record monitor_data =
  logical_monitor_region :: "mtk_rectangle list"
  logical_monitor_work_area :: mtk_rectangle

record work_areas =
  wa_struts :: "meta_strut list"
  wa_monitors :: "monitor_data list"
  work_area_screen :: mtk_rectangle
  screen_region :: "mtk_rectangle list"
  screen_edges :: "meta_edge list"
  wa_monitor_edges :: "meta_edge list"

definition MIN_SANE_AREA :: int where "MIN_SANE_AREA = 100"

text \<open>One axis of the checks that force the work area of the screen to be sane.\<close>

definition sane_axis :: "int \<Rightarrow> int \<Rightarrow> int \<Rightarrow> int \<times> int" where
  "sane_axis pos len display_len =
     (if len < MIN_SANE_AREA \<and> len \<noteq> display_len then
        (if len < 1 then ((display_len - MIN_SANE_AREA) sdiv 2, MIN_SANE_AREA)
         else let amount = (MIN_SANE_AREA - len) sdiv 2 in (pos - amount, len + 2 * amount))
      else (pos, len))"

definition screen_work_area :: "mtk_rectangle \<Rightarrow> mtk_rectangle list \<Rightarrow> mtk_rectangle" where
  "screen_work_area display_rect region =
     (let area = (if region = [] then mtk_rectangle_new 0 0 (-1) (-1)
                  else meta_rectangle_clip_to_region region FIXED_DIRECTION_NONE display_rect);
          (x, w) = sane_axis (rect_x area) (rect_width area) (rect_width display_rect);
          (y, h) = sane_axis (rect_y area) (rect_height area) (rect_height display_rect)
      in mtk_rectangle_new x y w h)"

definition monitor_work_area :: "mtk_rectangle \<Rightarrow> mtk_rectangle list \<Rightarrow> mtk_rectangle" where
  "monitor_work_area m region =
     (if region = [] then mtk_rectangle_new (rect_x m) (rect_y m) (-1) (-1)
      else meta_rectangle_clip_to_region region FIXED_DIRECTION_NONE m)"

text \<open>The regions of the monitors, in their order; a failed assertion is \<^const>\<open>None\<close>.\<close>

fun monitor_regions :: "meta_strut list \<Rightarrow> mtk_rectangle list \<Rightarrow> mtk_rectangle list list option" where
  "monitor_regions struts [] = Some []"
| "monitor_regions struts (m # ms) =
     (case meta_rectangle_get_minimal_spanning_set_for_region m struts of
        None \<Rightarrow> None
      | Some region \<Rightarrow> map_option (\<lambda>rs. region # rs) (monitor_regions struts ms))"

text \<open>All that \<open>ensure_work_areas_validated\<close> computes, from the display's rectangle, the rectangles of
  the logical monitors and the struts of the workspace.\<close>

definition compute_work_areas ::
  "mtk_rectangle \<Rightarrow> mtk_rectangle list \<Rightarrow> meta_strut list \<Rightarrow> work_areas option" where
  "compute_work_areas display_rect monitors struts =
     (case monitor_regions struts monitors of
        None \<Rightarrow> None
      | Some regions \<Rightarrow>
     (case meta_rectangle_get_minimal_spanning_set_for_region display_rect struts of
        None \<Rightarrow> None
      | Some region \<Rightarrow>
          (let area = screen_work_area display_rect region in
           case meta_rectangle_find_onscreen_edges display_rect struts of
             None \<Rightarrow> None
           | Some edges \<Rightarrow>
          (case meta_rectangle_find_nonintersected_monitor_edges (rev monitors) struts of
             None \<Rightarrow> None
           | Some medges \<Rightarrow>
               Some \<lparr>wa_struts = struts,
                     wa_monitors = map (\<lambda>(m, r). \<lparr>logical_monitor_region = r,
                                                   logical_monitor_work_area = monitor_work_area m r\<rparr>)
                                       (zip monitors regions),
                     work_area_screen = area,
                     screen_region = (if region = [] then [area] else region),
                     screen_edges = edges, wa_monitor_edges = medges\<rparr>))))"

section \<open>The work area of a monitor is a largest free rectangle\<close>

lemma spanning_set_some:
  assumes "rect_positive basic" "\<forall>s\<in>set struts. rect_positive (strut_rect s)"
  obtains rs where "meta_rectangle_get_minimal_spanning_set_for_region basic struts = Some rs"
    "\<forall>r\<in>set rs. rect_positive r"
    "\<And>w. rect_positive w \<Longrightarrow> meta_rectangle_contained_in_region rs w \<longleftrightarrow> in_region basic struts w"
  using spanning_set_correct [OF assms] that
  by (metis option.inject mtk_rectangle_new_empty_def assms(1))

text \<open>A strut aligned with the screen is aligned with every monitor of it, so that the region of a
  monitor is part of the region of the screen.\<close>

lemma align_mono:
  "mtk_rectangle_contains_rect display m \<Longrightarrow> check_strut_align s display \<Longrightarrow> check_strut_align s m"
  by (auto simp: check_strut_align_def contains_rect_box split: meta_side.splits)

lemma in_region_mono:
  "mtk_rectangle_contains_rect display m \<Longrightarrow> in_region m struts w \<Longrightarrow> in_region display struts w"
  unfolding in_region_def using align_mono contains_rect_trans by blast

lemma contains_rect_area:
  "mtk_rectangle_contains_rect a b \<Longrightarrow> rect_positive b \<Longrightarrow> mtk_rectangle_area b \<le> mtk_rectangle_area a"
  unfolding mtk_rectangle_contains_rect_def mtk_rectangle_area_def rect_positive_def by (intro mult_mono) auto

lemma contains_overlap: "mtk_rectangle_contains_rect a b \<Longrightarrow> rect_positive b \<Longrightarrow> mtk_rectangle_overlap a b"
  by (auto simp: mtk_rectangle_contains_rect_def mtk_rectangle_overlap_def rect_positive_def)

lemma intersect_inside:
  assumes "mtk_rectangle_contains_rect a b" "rect_positive b"
  shows "snd (mtk_rectangle_intersect a b d) = b"
  using assms by (cases b) (auto simp: mtk_rectangle_intersect_def Let_def mtk_rectangle_contains_rect_def
      rect_positive_def max_def min_def)

text \<open>A rectangle is free for a basic rectangle if it is in it and no aligned strut touches it;
  a largest free rectangle has no free rectangle with more area.\<close>

definition largest_free :: "mtk_rectangle \<Rightarrow> meta_strut list \<Rightarrow> mtk_rectangle \<Rightarrow> bool" where
  "largest_free basic struts area \<longleftrightarrow>
     rect_positive area \<and> in_region basic struts area \<and>
     (\<forall>r. rect_positive r \<and> in_region basic struts r \<longrightarrow> mtk_rectangle_area r \<le> mtk_rectangle_area area)"

lemma largest_free_pixels:
  assumes "largest_free basic struts area" "\<forall>s\<in>set struts. rect_positive (strut_rect s)"
  shows "pixels area \<subseteq> pixels basic"
    and "\<forall>s\<in>set struts. check_strut_align s basic \<longrightarrow> pixels (strut_rect s) \<inter> pixels area = {}"
    and "\<forall>f. rect_positive f \<and> pixels f \<subseteq> pixels basic \<and>
      (\<forall>s\<in>set struts. check_strut_align s basic \<longrightarrow> pixels (strut_rect s) \<inter> pixels f = {}) \<longrightarrow>
      mtk_rectangle_area f \<le> mtk_rectangle_area area"
proof -
  have region: "in_region basic struts f \<longleftrightarrow> pixels f \<subseteq> pixels basic \<and>
      (\<forall>s\<in>set struts. check_strut_align s basic \<longrightarrow> pixels (strut_rect s) \<inter> pixels f = {})"
    if "rect_positive f" for f
    using that assms(2) overlap_iff_pixels contains_rect_iff_pixels [OF that] unfolding in_region_def by auto
  then show "pixels area \<subseteq> pixels basic"
    "\<forall>s\<in>set struts. check_strut_align s basic \<longrightarrow> pixels (strut_rect s) \<inter> pixels area = {}"
    "\<forall>f. rect_positive f \<and> pixels f \<subseteq> pixels basic \<and>
      (\<forall>s\<in>set struts. check_strut_align s basic \<longrightarrow> pixels (strut_rect s) \<inter> pixels f = {}) \<longrightarrow>
      mtk_rectangle_area f \<le> mtk_rectangle_area area"
    using assms(1) region [of area] by (auto simp: largest_free_def)
qed

lemma clip_largest_free:
  assumes "rect_positive basic" "\<forall>s\<in>set struts. rect_positive (strut_rect s)"
    and "meta_rectangle_get_minimal_spanning_set_for_region basic struts = Some rs" "rs \<noteq> []"
  shows "largest_free basic struts (meta_rectangle_clip_to_region rs FIXED_DIRECTION_NONE basic)"
    and "meta_rectangle_clip_to_region rs FIXED_DIRECTION_NONE basic \<in> set rs"
proof -
  obtain rs' where rs': "meta_rectangle_get_minimal_spanning_set_for_region basic struts = Some rs'"
    "\<forall>r\<in>set rs'. rect_positive r"
    "\<And>w. rect_positive w \<Longrightarrow> meta_rectangle_contained_in_region rs' w \<longleftrightarrow> in_region basic struts w"
    by (rule spanning_set_some [OF assms(1,2)]) blast
  then have pos: "\<forall>r\<in>set rs. rect_positive r"
    and span: "\<And>w. rect_positive w \<Longrightarrow> (\<exists>r\<in>set rs. mtk_rectangle_contains_rect r w) \<longleftrightarrow> in_region basic struts w"
    using assms(3) by (simp_all add: region_queries)
  have inside: "mtk_rectangle_contains_rect basic r" if "r \<in> set rs" for r
    using span [of r] pos that contains_rect_refl in_region_def by blast
  let ?area = "meta_rectangle_clip_to_region rs FIXED_DIRECTION_NONE basic"
  have *: "?area \<in> set rs \<and> mtk_rectangle_area c \<le> mtk_rectangle_area ?area" if c: "c \<in> set rs" for c
  proof -
    have o: "mtk_rectangle_overlap basic c" using inside pos c by (intro contains_overlap) auto
    obtain r where "r \<in> set rs" "?area = snd (mtk_rectangle_intersect basic r mtk_rectangle_new_empty)"
      "mtk_rectangle_area (snd (mtk_rectangle_intersect basic c mtk_rectangle_new_empty)) \<le> mtk_rectangle_area ?area"
      by (rule clip_is_intersection [OF c o assms(1) pos])
    then show ?thesis using inside pos c by (simp add: intersect_inside)
  qed
  show mem: "?area \<in> set rs" using * assms(4) by (meson hd_in_set)
  show "largest_free basic struts ?area"
    unfolding largest_free_def
  proof (intro conjI allI impI)
    show "rect_positive ?area" using mem pos by blast
    then show "in_region basic struts ?area" using span mem contains_rect_refl by blast
    fix r assume "rect_positive r \<and> in_region basic struts r"
    then obtain c where "c \<in> set rs" "mtk_rectangle_contains_rect c r" "rect_positive r" using span by blast
    with * contains_rect_area [of c r] show "mtk_rectangle_area r \<le> mtk_rectangle_area ?area" by fastforce
  qed
qed

text \<open>The work area of the screen is made sane: as wide as the display, or at least 99 pixels wide. An
  odd amount that is missing is halved downwards, so that 51 pixels become 99.\<close>

lemma sane_axis_bounds:
  "0 \<le> display_len \<Longrightarrow> snd (sane_axis pos len display_len) = display_len \<or> 99 \<le> snd (sane_axis pos len display_len)"
  by (auto simp: sane_axis_def Let_def MIN_SANE_AREA_def signed_divide_int_def)

lemma sane_axis_short: "sane_axis 10 51 800 = (-14, 99)"
  by code_simp

lemma empty_screen_area: "rect_positive display \<Longrightarrow> rect_positive (screen_work_area display [])"
  by (simp add: screen_work_area_def sane_axis_def MIN_SANE_AREA_def Let_def rect_positive_def mtk_rectangle_new_def)

lemma monitor_regions_nth:
  "monitor_regions struts ms = Some rs \<Longrightarrow>
   length rs = length ms \<and>
   (\<forall>i<length ms. meta_rectangle_get_minimal_spanning_set_for_region (ms ! i) struts = Some (rs ! i))"
proof (induction ms arbitrary: rs)
  case (Cons m ms)
  then show ?case by (auto simp: nth_Cons' less_Suc_eq_0_disj split: option.splits)
qed simp

lemma monitor_regions_some:
  "\<forall>m\<in>set ms. rect_positive m \<Longrightarrow> \<forall>s\<in>set struts. rect_positive (strut_rect s) \<Longrightarrow> monitor_regions struts ms \<noteq> None"
proof (induction ms)
  case (Cons m ms)
  then show ?case using spanning_set_correct [of m struts m] by auto
qed simp

text \<open>The desktop: monitors that lie on the display, struts with pixels.\<close>

definition sound_desktop :: "mtk_rectangle \<Rightarrow> mtk_rectangle list \<Rightarrow> meta_strut list \<Rightarrow> bool" where
  "sound_desktop display monitors struts \<longleftrightarrow>
     rect_positive display \<and> (\<forall>m\<in>set monitors. rect_positive m \<and> mtk_rectangle_contains_rect display m) \<and>
     (\<forall>s\<in>set struts. rect_positive (strut_rect s))"

lemma compute_work_areas_some:
  assumes "sound_desktop display monitors struts"
    and "disjoint_rects (get_disjoint_strut_rect_list_in_region struts display)"
  obtains A where "compute_work_areas display monitors struts = Some A"
proof -
  have pos: "rect_positive display" "\<forall>m\<in>set monitors. rect_positive m" "\<forall>s\<in>set struts. rect_positive (strut_rect s)"
    using assms(1) by (auto simp: sound_desktop_def)
  obtain regions where r: "monitor_regions struts monitors = Some regions"
    using monitor_regions_some [OF pos(2,3)] by blast
  obtain region where s: "meta_rectangle_get_minimal_spanning_set_for_region display struts = Some region"
    using spanning_set_correct [OF pos(1,3,1)] by blast
  obtain es where e: "meta_rectangle_find_onscreen_edges display struts = Some es"
    using onscreen_edges_ok [OF pos(1) assms(2)] by blast
  obtain mes where m: "meta_rectangle_find_nonintersected_monitor_edges (rev monitors) struts = Some mes"
    using monitor_edges_exact [of "rev monitors" struts] pos by (auto simp: list_all_iff)
  show thesis using that r s e m by (simp add: compute_work_areas_def Let_def)
qed

lemma compute_work_areas_parts:
  assumes "compute_work_areas display monitors struts = Some A" "i < length monitors"
  shows "length (wa_monitors A) = length monitors" "wa_struts A = struts"
    and "meta_rectangle_get_minimal_spanning_set_for_region (monitors ! i) struts =
      Some (logical_monitor_region (wa_monitors A ! i))"
    and "logical_monitor_work_area (wa_monitors A ! i) =
      monitor_work_area (monitors ! i) (logical_monitor_region (wa_monitors A ! i))"
    and "\<exists>region. meta_rectangle_get_minimal_spanning_set_for_region display struts = Some region \<and>
      (region \<noteq> [] \<longrightarrow> screen_region A = region) \<and> (region = [] \<longrightarrow> screen_region A = [work_area_screen A]) \<and>
      work_area_screen A = screen_work_area display region"
  using assms monitor_regions_nth [of struts monitors]
  by (auto simp: compute_work_areas_def Let_def split: option.splits if_splits)

text \<open>The facts of one monitor: its work area is a largest free rectangle of it, in its region and in
  the one of the screen; if nothing is free, the region is empty and the work area has a negative
  size.\<close>

lemma work_area_lemma:
  assumes "sound_desktop display monitors struts" "compute_work_areas display monitors struts = Some A"
    and "i < length monitors"
  defines "D \<equiv> wa_monitors A ! i"
  shows "logical_monitor_region D \<noteq> [] \<Longrightarrow>
      largest_free (monitors ! i) struts (logical_monitor_work_area D) \<and>
      logical_monitor_work_area D \<in> set (logical_monitor_region D) \<and>
      meta_rectangle_contained_in_region (screen_region A) (logical_monitor_work_area D)"
    and "logical_monitor_region D = [] \<longleftrightarrow> \<not> (\<exists>r. rect_positive r \<and> in_region (monitors ! i) struts r)"
    and "\<forall>r\<in>set (logical_monitor_region D). rect_positive r"
    and "list_all rect_positive (screen_region A)"
proof -
  let ?m = "monitors ! i"
  have pos: "rect_positive display" "rect_positive ?m" "\<forall>s\<in>set struts. rect_positive (strut_rect s)"
    "mtk_rectangle_contains_rect display ?m"
    using assms(1,3) by (auto simp: sound_desktop_def)
  note P = compute_work_areas_parts [OF assms(2,3), folded D_def]
  obtain rs where rs: "meta_rectangle_get_minimal_spanning_set_for_region ?m struts = Some rs"
    "\<forall>r\<in>set rs. rect_positive r"
    "\<And>w. rect_positive w \<Longrightarrow> meta_rectangle_contained_in_region rs w \<longleftrightarrow> in_region ?m struts w"
    by (rule spanning_set_some [OF pos(2,3)]) blast
  have rs_eq: "logical_monitor_region D = rs" using rs(1) P(3) by simp
  then show "\<forall>r\<in>set (logical_monitor_region D). rect_positive r" using rs(2) by simp
  have free: "rs = [] \<longleftrightarrow> \<not> (\<exists>r. rect_positive r \<and> in_region ?m struts r)"
  proof
    assume "rs = []"
    then show "\<not> (\<exists>r. rect_positive r \<and> in_region ?m struts r)" using rs(3) by (auto simp: region_queries)
  next
    assume n: "\<not> (\<exists>r. rect_positive r \<and> in_region ?m struts r)"
    show "rs = []"
    proof (rule ccontr)
      assume "rs \<noteq> []"
      then have "hd rs \<in> set rs" by simp
      with rs(2,3) n contains_rect_refl show False unfolding region_queries by blast
    qed
  qed
  then show "logical_monitor_region D = [] \<longleftrightarrow> \<not> (\<exists>r. rect_positive r \<and> in_region ?m struts r)" by (simp add: rs_eq)
  obtain region where reg: "meta_rectangle_get_minimal_spanning_set_for_region display struts = Some region"
    "region \<noteq> [] \<longrightarrow> screen_region A = region" "region = [] \<longrightarrow> screen_region A = [work_area_screen A]"
    "work_area_screen A = screen_work_area display region"
    using P(5) by blast
  obtain rs' where "meta_rectangle_get_minimal_spanning_set_for_region display struts = Some rs'"
    "\<forall>r\<in>set rs'. rect_positive r"
    "\<And>w. rect_positive w \<Longrightarrow> meta_rectangle_contained_in_region rs' w \<longleftrightarrow> in_region display struts w"
    by (rule spanning_set_some [OF pos(1,3)]) blast
  then have span: "\<forall>r\<in>set region. rect_positive r"
    "\<And>w. rect_positive w \<Longrightarrow> meta_rectangle_contained_in_region region w \<longleftrightarrow> in_region display struts w"
    using reg(1) by simp_all
  show "logical_monitor_region D \<noteq> [] \<Longrightarrow>
      largest_free ?m struts (logical_monitor_work_area D) \<and>
      logical_monitor_work_area D \<in> set (logical_monitor_region D) \<and>
      meta_rectangle_contained_in_region (screen_region A) (logical_monitor_work_area D)"
  proof -
    assume ne: "logical_monitor_region D \<noteq> []"
    then have area: "logical_monitor_work_area D = meta_rectangle_clip_to_region rs FIXED_DIRECTION_NONE ?m"
      using P(4) by (simp add: rs_eq monitor_work_area_def)
    note L = clip_largest_free [OF pos(2,3) rs(1) ne [unfolded rs_eq], folded area]
    then have "in_region display struts (logical_monitor_work_area D)"
      using in_region_mono [OF pos(4)] by (simp add: largest_free_def)
    then have "meta_rectangle_contained_in_region region (logical_monitor_work_area D)"
      using span(2) L(1) by (simp add: largest_free_def)
    moreover then have "region \<noteq> []" by (auto simp: region_queries)
    ultimately show ?thesis using L reg(2) by (simp add: rs_eq)
  qed
  show "list_all rect_positive (screen_region A)"
    using span reg(2-4) empty_screen_area [OF pos(1)] by (cases "region = []") (simp_all add: list_all_iff)
qed

end
