(* ===== verification/Workspace_State.thy ===== *)
theory Workspace_State
  imports Meta_Display Workspace_Areas
begin

text \<open>
  Workspaces and the windows on them: the state of the workspace manager
  (\<open>core/meta-workspace-manager.c\<close>), of the workspaces (\<open>core/workspace.c\<close>) and the part of a
  window's state that says where it is (\<open>core/window.c\<close>). A failed \<open>g_assert\<close> is
  \<^const>\<open>None\<close>, a failed \<open>g_return_if_fail\<close> leaves the state as it is. Focus, sounds, queued
  updates and the signals that others may listen to are not part of the state; an operation is what
  it does when no handler calls back.
\<close>

section \<open>State\<close>

record member_window = meta_window +
  on_all_requested :: bool
  always_sticky :: bool
  is_unmanaging :: bool
  is_constructing :: bool
  off_primary :: bool
  win_struts :: "meta_strut list"

text \<open>The work areas are \<^const>\<open>None\<close> while \<open>work_areas_invalid\<close> is set: all of them are cleared with
  the flag, and \<open>ensure_work_areas_validated\<close> asserts that they are.\<close>

record meta_workspace =
  ws_windows :: "window list"
  mru_list :: "window list"
  builtin_struts :: "meta_strut list"
  ws_areas :: "work_areas option"
  showing_desktop :: bool

text \<open>\<open>wm_listed\<close> are the windows in the tables of the display in the order of their addresses;
  \<open>wm_fresh\<close> is a number that no workspace has had.\<close>

record workspace_manager =
  wm_win :: "window \<Rightarrow> member_window"
  wm_parent :: "window \<Rightarrow> window option"
  wm_listed :: "window list"
  wm_workspaces :: "workspace list"
  wm_of :: "workspace \<Rightarrow> meta_workspace"
  wm_active :: "workspace option"
  wm_fresh :: workspace
  wm_display :: mtk_rectangle
  wm_monitors :: "mtk_rectangle list"
  wm_primary :: "nat option"
  only_on_primary :: bool

definition update_workspace ::
  "workspace \<Rightarrow> (meta_workspace \<Rightarrow> meta_workspace) \<Rightarrow> workspace_manager \<Rightarrow> workspace_manager" where
  "update_workspace ws f st = st\<lparr>wm_of := (wm_of st)(ws := f (wm_of st ws))\<rparr>"

definition update_window ::
  "window \<Rightarrow> (member_window \<Rightarrow> member_window) \<Rightarrow> workspace_manager \<Rightarrow> workspace_manager" where
  "update_window w f st = st\<lparr>wm_win := (wm_win st)(w := f (wm_win st w))\<rparr>"

lemma update_workspace_fields [simp]:
  "wm_win (update_workspace ws f st) = wm_win st" "wm_parent (update_workspace ws f st) = wm_parent st"
  "wm_listed (update_workspace ws f st) = wm_listed st"
  "wm_workspaces (update_workspace ws f st) = wm_workspaces st" "wm_active (update_workspace ws f st) = wm_active st"
  "wm_fresh (update_workspace ws f st) = wm_fresh st" "wm_display (update_workspace ws f st) = wm_display st"
  "wm_monitors (update_workspace ws f st) = wm_monitors st" "wm_primary (update_workspace ws f st) = wm_primary st"
  "only_on_primary (update_workspace ws f st) = only_on_primary st"
  "wm_of (update_workspace ws f st) = (wm_of st)(ws := f (wm_of st ws))"
  by (simp_all add: update_workspace_def)

lemma update_window_fields [simp]:
  "wm_of (update_window w f st) = wm_of st" "wm_parent (update_window w f st) = wm_parent st"
  "wm_listed (update_window w f st) = wm_listed st"
  "wm_workspaces (update_window w f st) = wm_workspaces st" "wm_active (update_window w f st) = wm_active st"
  "wm_fresh (update_window w f st) = wm_fresh st" "wm_display (update_window w f st) = wm_display st"
  "wm_monitors (update_window w f st) = wm_monitors st" "wm_primary (update_window w f st) = wm_primary st"
  "only_on_primary (update_window w f st) = only_on_primary st"
  "wm_win (update_window w f st) = (wm_win st)(w := f (wm_win st w))"
  by (simp_all add: update_window_def)

abbreviation located_on_ws :: "workspace_manager \<Rightarrow> window \<Rightarrow> workspace \<Rightarrow> bool" where
  "located_on_ws st w ws \<equiv> on_all_workspaces (wm_win st w) \<or> win_workspace (wm_win st w) = Some ws"

text \<open>\<open>meta_display_list_windows\<close> with the default flags.\<close>

definition meta_display_list_windows :: "workspace_manager \<Rightarrow> window list" where
  "meta_display_list_windows st =
     filter (\<lambda>w. \<not> is_unmanaging (wm_win st w) \<and> \<not> override_redirect (wm_win st w)) (wm_listed st)"

definition meta_workspace_list_windows :: "workspace_manager \<Rightarrow> workspace \<Rightarrow> window list" where
  "meta_workspace_list_windows st ws = rev (filter (\<lambda>w. located_on_ws st w ws) (meta_display_list_windows st))"

section \<open>The cached work areas\<close>

definition workspace_struts :: "workspace_manager \<Rightarrow> workspace \<Rightarrow> meta_strut list" where
  "workspace_struts st ws =
     rev (concat (map (\<lambda>w. win_struts (wm_win st w)) (meta_workspace_list_windows st ws))) @
     builtin_struts (wm_of st ws)"

definition ensure_work_areas_validated :: "workspace \<Rightarrow> workspace_manager \<Rightarrow> workspace_manager option" where
  "ensure_work_areas_validated ws st =
     (if ws_areas (wm_of st ws) \<noteq> None then Some st
      else map_option (\<lambda>A. update_workspace ws (\<lambda>s. s\<lparr>ws_areas := Some A\<rparr>) st)
             (compute_work_areas (wm_display st) (wm_monitors st) (workspace_struts st ws)))"

definition meta_workspace_invalidate_work_area :: "workspace \<Rightarrow> workspace_manager \<Rightarrow> workspace_manager" where
  "meta_workspace_invalidate_work_area ws st = update_workspace ws (\<lambda>s. s\<lparr>ws_areas := None\<rparr>) st"

definition meta_workspace_get_work_area_for_monitor ::
  "workspace \<Rightarrow> nat \<Rightarrow> workspace_manager \<Rightarrow> (mtk_rectangle \<times> workspace_manager) option" where
  "meta_workspace_get_work_area_for_monitor ws m st =
     map_option (\<lambda>st'. (logical_monitor_work_area (wa_monitors (the (ws_areas (wm_of st' ws))) ! m), st'))
       (ensure_work_areas_validated ws st)"

definition meta_workspace_get_work_area_all_monitors ::
  "workspace \<Rightarrow> workspace_manager \<Rightarrow> (mtk_rectangle \<times> workspace_manager) option" where
  "meta_workspace_get_work_area_all_monitors ws st =
     map_option (\<lambda>st'. (work_area_screen (the (ws_areas (wm_of st' ws))), st')) (ensure_work_areas_validated ws st)"

definition meta_workspace_get_onscreen_region ::
  "workspace \<Rightarrow> workspace_manager \<Rightarrow> (mtk_rectangle list \<times> workspace_manager) option" where
  "meta_workspace_get_onscreen_region ws st =
     map_option (\<lambda>st'. (screen_region (the (ws_areas (wm_of st' ws))), st')) (ensure_work_areas_validated ws st)"

definition meta_workspace_get_onmonitor_region ::
  "workspace \<Rightarrow> nat \<Rightarrow> workspace_manager \<Rightarrow> (mtk_rectangle list \<times> workspace_manager) option" where
  "meta_workspace_get_onmonitor_region ws m st =
     map_option (\<lambda>st'. (logical_monitor_region (wa_monitors (the (ws_areas (wm_of st' ws))) ! m), st'))
       (ensure_work_areas_validated ws st)"

text \<open>The struts of the shell. The caller's list is changed in place: the second result.\<close>

definition meta_workspace_set_builtin_struts ::
  "workspace \<Rightarrow> meta_strut list \<Rightarrow> workspace_manager \<Rightarrow> (workspace_manager \<times> meta_strut list) option" where
  "meta_workspace_set_builtin_struts ws struts st =
     map_option (\<lambda>struts'.
         (if strut_lists_equal struts' (builtin_struts (wm_of st ws)) then st
          else meta_workspace_invalidate_work_area ws
                 (update_workspace ws (\<lambda>s. s\<lparr>builtin_struts := struts'\<rparr>) st), struts'))
       (extend_struts (wm_display st) (wm_monitors st) (wm_primary st) struts)"

definition meta_workspace_manager_reload_work_areas :: "workspace_manager \<Rightarrow> workspace_manager" where
  "meta_workspace_manager_reload_work_areas st = fold meta_workspace_invalidate_work_area (wm_workspaces st) st"

text \<open>A change of the monitors, with the handler \<open>on_monitors_changed_internal\<close> of the display.\<close>

definition monitors_changed ::
  "mtk_rectangle \<Rightarrow> mtk_rectangle list \<Rightarrow> nat option \<Rightarrow> workspace_manager \<Rightarrow> workspace_manager" where
  "monitors_changed display monitors primary st = meta_workspace_manager_reload_work_areas
     (st\<lparr>wm_display := display, wm_monitors := monitors, wm_primary := primary\<rparr>)"

section \<open>Adding and removing windows\<close>

definition meta_workspace_add_window :: "window \<Rightarrow> workspace \<Rightarrow> workspace_manager \<Rightarrow> workspace_manager option" where
  "meta_workspace_add_window w ws st =
     (if w \<in> set (mru_list (wm_of st ws)) then Some st
      else let st1 = update_workspace ws (\<lambda>s. s\<lparr>mru_list := w # mru_list s, ws_windows := w # ws_windows s\<rparr>) st
           in Some (if win_struts (wm_win st w) \<noteq> [] then meta_workspace_invalidate_work_area ws st1 else st1))"

definition meta_workspace_remove_window :: "window \<Rightarrow> workspace \<Rightarrow> workspace_manager \<Rightarrow> workspace_manager option" where
  "meta_workspace_remove_window w ws st =
     (let st1 = update_workspace ws
                  (\<lambda>s. s\<lparr>ws_windows := remove1 w (ws_windows s), mru_list := remove1 w (mru_list s)\<rparr>) st
      in if w \<in> set (mru_list (wm_of st1 ws)) then None
         else Some (if win_struts (wm_win st w) \<noteq> [] then meta_workspace_invalidate_work_area ws st1 else st1))"

text \<open>The two loops of \<open>set_workspace_state\<close>, over the workspace of the window or over all.\<close>

definition on_workspaces ::
  "(workspace \<Rightarrow> workspace_manager \<Rightarrow> workspace_manager option) \<Rightarrow> window \<Rightarrow> workspace_manager \<Rightarrow>
   workspace_manager option" where
  "on_workspaces f w st =
     (case win_workspace (wm_win st w) of
        Some ws \<Rightarrow> f ws st
      | None \<Rightarrow> if on_all_workspaces (wm_win st w) then fold_opt f (wm_workspaces st) st else Some st)"

definition set_workspace_state ::
  "window \<Rightarrow> bool \<Rightarrow> workspace option \<Rightarrow> workspace_manager \<Rightarrow> workspace_manager option" where
  "set_workspace_state w on_all ws st =
     (let win = wm_win st w in
      if (if on_all then ws \<noteq> None else \<not> is_unmanaging win \<and> ws = None) then None
      else if override_redirect win \<and> \<not> (is_constructing win \<and> on_all \<or> is_unmanaging win) then Some st
      else if on_all = on_all_workspaces win \<and> ws = win_workspace win \<and> \<not> is_constructing win then Some st
      else Option.bind (on_workspaces (meta_workspace_remove_window w) w st)
             (\<lambda>st1. on_workspaces (meta_workspace_add_window w) w
                (update_window w (\<lambda>v. v\<lparr>on_all_workspaces := on_all, win_workspace := ws\<rparr>) st1)))"

definition should_be_on_all_workspaces :: "window \<Rightarrow> workspace_manager \<Rightarrow> bool" where
  "should_be_on_all_workspaces w st =
     (let win = wm_win st w in
      always_sticky win \<or> on_all_requested win \<or> override_redirect win \<or>
      only_on_primary st \<and> \<not> is_unmanaging win \<and> off_primary win)"

definition meta_window_on_all_workspaces_changed :: "window \<Rightarrow> workspace_manager \<Rightarrow> workspace_manager option" where
  "meta_window_on_all_workspaces_changed w st =
     (let on_all = should_be_on_all_workspaces w st
      in if on_all_workspaces (wm_win st w) = on_all then Some st
         else set_workspace_state w on_all (if on_all then None else wm_active st) st)"

section \<open>Families of windows\<close>

text \<open>The windows that \<open>meta_window_foreach_ancestor\<close> visits; with a loop of parents it does not
  return.\<close>

partial_function (option) ancestors :: "workspace_manager \<Rightarrow> window \<Rightarrow> window list option" where
  "ancestors st w =
     (case wm_parent st w of
        None \<Rightarrow> Some []
      | Some p \<Rightarrow> Option.bind (ancestors st p) (\<lambda>as. Some (p # as)))"

declare ancestors.simps [code]

text \<open>The walk of \<open>meta_window_is_ancestor_of_transient\<close> stops at the window it looks for.\<close>

partial_function (option) meta_window_is_ancestor_of_transient ::
  "workspace_manager \<Rightarrow> window \<Rightarrow> window \<Rightarrow> bool option" where
  "meta_window_is_ancestor_of_transient st w transient =
     (case wm_parent st transient of
        None \<Rightarrow> Some False
      | Some p \<Rightarrow> if p = w then Some True else meta_window_is_ancestor_of_transient st w p)"

declare meta_window_is_ancestor_of_transient.simps [code]

text \<open>\<open>meta_window_foreach_transient\<close> goes through the windows listed at its start and asks of each,
  as it comes to it, whether it is a transient.\<close>

definition foreach_transient ::
  "(window \<Rightarrow> workspace_manager \<Rightarrow> workspace_manager option) \<Rightarrow> window \<Rightarrow> workspace_manager \<Rightarrow>
   workspace_manager option" where
  "foreach_transient f w st =
     fold_opt (\<lambda>t st. Option.bind (meta_window_is_ancestor_of_transient st w t)
                 (\<lambda>b. if b then f t st else Some st))
       (meta_display_list_windows st) st"

definition foreach_ancestor ::
  "(window \<Rightarrow> workspace_manager \<Rightarrow> workspace_manager option) \<Rightarrow> window \<Rightarrow> workspace_manager \<Rightarrow>
   workspace_manager option" where
  "foreach_ancestor f w st = Option.bind (ancestors st w) (\<lambda>as. fold_opt f as st)"

text \<open>\<open>foreach_modal_ancestor\<close>: the parents as long as they are modal dialogs, and one more.\<close>

fun modal_prefix :: "workspace_manager \<Rightarrow> window list \<Rightarrow> window list" where
  "modal_prefix st [] = []"
| "modal_prefix st (p # ps) =
     (if win_type (wm_win st p) = META_WINDOW_MODAL_DIALOG then p # modal_prefix st ps else [p])"

definition foreach_modal_ancestor ::
  "(window \<Rightarrow> workspace_manager \<Rightarrow> workspace_manager option) \<Rightarrow> window \<Rightarrow> workspace_manager \<Rightarrow>
   workspace_manager option" where
  "foreach_modal_ancestor f w st =
     (if win_type (wm_win st w) \<noteq> META_WINDOW_MODAL_DIALOG then Some st
      else Option.bind (ancestors st w) (\<lambda>as. fold_opt f (modal_prefix st as) st))"

section \<open>Sticking and changing workspaces\<close>

definition request_all :: "bool \<Rightarrow> window \<Rightarrow> workspace_manager \<Rightarrow> workspace_manager" where
  "request_all b w st = update_window w (\<lambda>v. v\<lparr>on_all_requested := b\<rparr>) st"

definition window_stick_impl :: "window \<Rightarrow> workspace_manager \<Rightarrow> workspace_manager option" where
  "window_stick_impl w st =
     (if on_all_requested (wm_win st w) then Some st
      else meta_window_on_all_workspaces_changed w (request_all True w st))"

definition window_unstick_impl :: "window \<Rightarrow> workspace_manager \<Rightarrow> workspace_manager option" where
  "window_unstick_impl w st =
     (if \<not> on_all_requested (wm_win st w) then Some st
      else meta_window_on_all_workspaces_changed w (request_all False w st))"

definition stick_with ::
  "(window \<Rightarrow> workspace_manager \<Rightarrow> workspace_manager option) \<Rightarrow> window \<Rightarrow> workspace_manager \<Rightarrow>
   workspace_manager option" where
  "stick_with f w st =
     (if override_redirect (wm_win st w) then Some st
      else Option.bind (f w st)
        (\<lambda>st1. Option.bind (foreach_transient f w st1) (foreach_modal_ancestor f w)))"

definition meta_window_stick :: "window \<Rightarrow> workspace_manager \<Rightarrow> workspace_manager option" where
  "meta_window_stick = stick_with window_stick_impl"

definition meta_window_unstick :: "window \<Rightarrow> workspace_manager \<Rightarrow> workspace_manager option" where
  "meta_window_unstick = stick_with window_unstick_impl"

definition meta_window_change_workspace_without_transients ::
  "workspace \<Rightarrow> window \<Rightarrow> workspace_manager \<Rightarrow> workspace_manager option" where
  "meta_window_change_workspace_without_transients ws w st =
     (if is_unmanaging (wm_win st w) then Some st
      else Option.bind (if on_all_requested (wm_win st w) then meta_window_unstick w st else Some st)
        (\<lambda>st1. if on_all_workspaces (wm_win st1 w) then Some st1
               else if win_workspace (wm_win st1 w) = Some ws then Some st1
               else set_workspace_state w False (Some ws) st1))"

definition meta_window_change_workspace ::
  "window \<Rightarrow> workspace \<Rightarrow> workspace_manager \<Rightarrow> workspace_manager option" where
  "meta_window_change_workspace w ws st =
     (if override_redirect (wm_win st w) then Some st
      else Option.bind (meta_window_change_workspace_without_transients ws w st)
        (\<lambda>st1. Option.bind (foreach_transient (meta_window_change_workspace_without_transients ws) w st1)
                 (foreach_ancestor (meta_window_change_workspace_without_transients ws) w)))"

section \<open>Workspaces come and go\<close>

definition empty_workspace :: meta_workspace where
  "empty_workspace = \<lparr>ws_windows = [], mru_list = [], builtin_struts = [], ws_areas = None, showing_desktop = False\<rparr>"

text \<open>\<open>meta_workspace_new\<close> gives back the new workspace, which is listed before the sticky windows
  are added to it.\<close>

definition meta_workspace_new :: "workspace_manager \<Rightarrow> (workspace \<times> workspace_manager) option" where
  "meta_workspace_new st =
     (let ws = wm_fresh st;
          st1 = st\<lparr>wm_fresh := Suc ws, wm_workspaces := wm_workspaces st @ [ws],
                   wm_of := (wm_of st)(ws := empty_workspace)\<rparr>
      in map_option (\<lambda>st'. (ws, st'))
           (fold_opt (\<lambda>w. meta_workspace_add_window w ws)
              (filter (\<lambda>w. located_on_ws st1 w ws) (meta_display_list_windows st1)) st1))"

definition assert_workspace_empty :: "workspace \<Rightarrow> workspace_manager \<Rightarrow> bool" where
  "assert_workspace_empty ws st \<longleftrightarrow> list_all (\<lambda>w. on_all_workspaces (wm_win st w)) (ws_windows (wm_of st ws))"

definition meta_workspace_remove :: "workspace \<Rightarrow> workspace_manager \<Rightarrow> workspace_manager option" where
  "meta_workspace_remove ws st =
     (if wm_active st = Some ws then Some st
      else if \<not> assert_workspace_empty ws st then None
      else Some (st\<lparr>wm_workspaces := remove1 ws (wm_workspaces st)\<rparr>))"

definition meta_workspace_relocate_windows :: "workspace \<Rightarrow> workspace \<Rightarrow> workspace_manager \<Rightarrow> workspace_manager option" where
  "meta_workspace_relocate_windows ws new_home st =
     (if ws = new_home then Some st
      else Option.bind
        (fold_opt (\<lambda>w st. if on_all_workspaces (wm_win st w) then Some st
                          else meta_window_change_workspace w new_home st)
           (ws_windows (wm_of st ws)) st)
        (\<lambda>st1. if assert_workspace_empty ws st1 then Some st1 else None))"

text \<open>\<open>meta_workspace_activate_with_focus\<close>: \<open>dragged\<close> is the window that the user is moving. A
  workspace that is not listed is refused.\<close>

definition meta_workspace_activate ::
  "window option \<Rightarrow> workspace \<Rightarrow> workspace_manager \<Rightarrow> workspace_manager option" where
  "meta_workspace_activate dragged ws st =
     (if ws \<notin> set (wm_workspaces st) then Some st
      else if wm_active st = Some ws then Some st
      else let st1 = st\<lparr>wm_active := Some ws\<rparr>
           in if wm_active st = None then Some st1
              else case dragged of
                None \<Rightarrow> Some st1
              | Some w \<Rightarrow> if located_on_ws st1 w ws then Some st1 else meta_window_change_workspace w ws st1)"

text \<open>The workspace next to one in the list: the one before it, otherwise the one behind it.\<close>

fun list_neighbour :: "workspace option \<Rightarrow> workspace \<Rightarrow> workspace list \<Rightarrow> workspace option" where
  "list_neighbour before ws [] = None"
| "list_neighbour before ws (x # xs) =
     (if x = ws then (case before of
         Some b \<Rightarrow> Some b
       | None \<Rightarrow> (case xs of [] \<Rightarrow> None | y # _ \<Rightarrow> Some y))
      else list_neighbour (Some x) ws xs)"

definition meta_workspace_manager_remove_workspace ::
  "window option \<Rightarrow> workspace \<Rightarrow> workspace_manager \<Rightarrow> workspace_manager option" where
  "meta_workspace_manager_remove_workspace dragged ws st =
     (case list_neighbour None ws (wm_workspaces st) of
        None \<Rightarrow> Some st
      | Some neighbour \<Rightarrow>
          Option.bind (meta_workspace_relocate_windows ws neighbour st)
            (\<lambda>st1. Option.bind
               (if wm_active st1 = Some ws then meta_workspace_activate dragged neighbour st1 else Some st1)
               (meta_workspace_remove ws)))"

definition meta_workspace_manager_append_new_workspace ::
  "window option \<Rightarrow> bool \<Rightarrow> workspace_manager \<Rightarrow> (workspace \<times> workspace_manager) option" where
  "meta_workspace_manager_append_new_workspace dragged activate st =
     Option.bind (meta_workspace_new st)
       (\<lambda>(ws, st1). map_option (\<lambda>st'. (ws, st'))
          (if activate then meta_workspace_activate dragged ws st1 else Some st1))"

text \<open>The new number must be positive; \<open>extras\<close> are collected from the front and so are in reverse
  order.\<close>

definition meta_workspace_manager_update_num_workspaces ::
  "window option \<Rightarrow> int \<Rightarrow> workspace_manager \<Rightarrow> workspace_manager option" where
  "meta_workspace_manager_update_num_workspaces dragged new_num st =
     (if \<not> new_num > 0 then None
      else if int (length (wm_workspaces st)) = new_num then Some st
      else if wm_workspaces st = [] then None
      else
        let kept = take (nat new_num) (wm_workspaces st);
            extras = rev (drop (nat new_num) (wm_workspaces st));
            last_remaining = last kept
        in Option.bind (fold_opt (\<lambda>ws. meta_workspace_relocate_windows ws last_remaining) extras st)
          (\<lambda>st1. Option.bind
             (if list_ex (\<lambda>ws. wm_active st1 = Some ws) extras
              then meta_workspace_activate dragged last_remaining st1 else Some st1)
          (\<lambda>st2. Option.bind (fold_opt meta_workspace_remove extras st2)
          (\<lambda>st3. fold_opt (\<lambda>_ st. map_option snd (meta_workspace_new st))
                   [0..<nat new_num - length (wm_workspaces st)] st3))))"

definition insert_at :: "nat \<Rightarrow> 'a \<Rightarrow> 'a list \<Rightarrow> 'a list" where
  "insert_at n x xs = take n xs @ x # drop n xs"

definition meta_workspace_manager_reorder_workspace ::
  "workspace \<Rightarrow> int \<Rightarrow> workspace_manager \<Rightarrow> workspace_manager" where
  "meta_workspace_manager_reorder_workspace ws new_index st =
     (if \<not> (new_index \<ge> 0 \<and> new_index < int (length (wm_workspaces st))) then st
      else if ws \<notin> set (wm_workspaces st) then st
      else if nat new_index < length (wm_workspaces st) \<and> wm_workspaces st ! nat new_index = ws then st
      else st\<lparr>wm_workspaces := insert_at (nat new_index) ws (remove1 ws (wm_workspaces st))\<rparr>)"

definition meta_window_change_workspace_by_index ::
  "window \<Rightarrow> int \<Rightarrow> bool \<Rightarrow> workspace_manager \<Rightarrow> workspace_manager option" where
  "meta_window_change_workspace_by_index w space_index add_new st =
     (if override_redirect (wm_win st w) then Some st
      else if space_index = -1 then meta_window_stick w st
      else if 0 \<le> space_index \<and> nat space_index < length (wm_workspaces st)
      then meta_window_change_workspace w (wm_workspaces st ! nat space_index) st
      else if add_new then Option.bind (meta_workspace_manager_append_new_workspace None False st)
                            (\<lambda>(ws, st1). meta_window_change_workspace w ws st1)
      else Some st)"

text \<open>Showing the desktop.\<close>

definition meta_workspace_manager_show_desktop :: "bool \<Rightarrow> workspace_manager \<Rightarrow> workspace_manager" where
  "meta_workspace_manager_show_desktop b st =
     (case wm_active st of
        None \<Rightarrow> st
      | Some ws \<Rightarrow> if showing_desktop (wm_of st ws) = b then st
                  else update_workspace ws (\<lambda>s. s\<lparr>showing_desktop := b\<rparr>) st)"

text \<open>\<open>meta_window_make_most_recent\<close> on one workspace: to the front, or in front of the first sticky
  window.\<close>

definition most_recent_on :: "window \<Rightarrow> workspace \<Rightarrow> workspace \<Rightarrow> workspace_manager \<Rightarrow> workspace_manager" where
  "most_recent_on w target ws st =
     (let mru = mru_list (wm_of st ws); win = wm_win st w in
      if w \<notin> set mru then st
      else if ws = target \<or> on_all_requested win
      then update_workspace ws (\<lambda>s. s\<lparr>mru_list := w # remove1 w mru\<rparr>) st
      else if \<not> on_all_workspaces win then st
      else
        let others = takeWhile (\<lambda>v. win_workspace (wm_win st v) \<noteq> None) mru;
            rest = dropWhile (\<lambda>v. win_workspace (wm_win st v) \<noteq> None) mru
        in if rest \<noteq> [] \<and> hd rest = w then st
           else update_workspace ws (\<lambda>s. s\<lparr>mru_list := remove1 w others @ w # remove1 w rest\<rparr>) st)"

definition meta_window_make_most_recent :: "window \<Rightarrow> workspace \<Rightarrow> workspace_manager \<Rightarrow> workspace_manager" where
  "meta_window_make_most_recent w target st = fold (most_recent_on w target) (wm_workspaces st) st"

section \<open>Windows come and go\<close>

text \<open>\<open>meta_window_get_workspaces\<close> and the struts of a window.\<close>

definition meta_window_get_workspaces :: "window \<Rightarrow> workspace_manager \<Rightarrow> workspace list option" where
  "meta_window_get_workspaces w st =
     (let win = wm_win st w in
      if on_all_workspaces win then Some (wm_workspaces st)
      else case win_workspace win of
        Some ws \<Rightarrow> Some [ws]
      | None \<Rightarrow> if is_constructing win then Some [] else None)"

definition invalidate_work_areas :: "window \<Rightarrow> workspace_manager \<Rightarrow> workspace_manager option" where
  "invalidate_work_areas w st =
     map_option (\<lambda>wss. fold meta_workspace_invalidate_work_area wss st) (meta_window_get_workspaces w st)"

text \<open>\<open>meta_window_update_struts\<close> with the new struts that the X11 client asks for.\<close>

definition meta_window_update_struts :: "window \<Rightarrow> meta_strut list \<Rightarrow> workspace_manager \<Rightarrow> workspace_manager option" where
  "meta_window_update_struts w struts st =
     (if override_redirect (wm_win st w) then Some st
      else let st1 = update_window w (\<lambda>v. v\<lparr>win_struts := struts\<rparr>) st
           in if strut_lists_equal (win_struts (wm_win st w)) struts then Some st1
              else invalidate_work_areas w st1)"

text \<open>The part of \<open>meta_window_constructed\<close> that puts a new window on a workspace. The initial
  workspace of the startup notification is \<^const>\<open>None\<close> if there is none; \<open>(int) 0xFFFFFFFF\<close>, which is
  \<open>-1\<close>, means all.\<close>

definition initial_place :: "int option \<Rightarrow> window \<Rightarrow> workspace_manager \<Rightarrow> workspace_manager option" where
  "initial_place initial w st =
     (case initial of
        None \<Rightarrow> Some st
      | Some i \<Rightarrow>
          if i = -1 then set_workspace_state w True None (request_all True w st)
          else if on_all_workspaces (wm_win st w) then set_workspace_state w True None st
          else if 0 \<le> i \<and> nat i < length (wm_workspaces st)
          then set_workspace_state w False (Some (wm_workspaces st ! nat i)) st
          else Some st)"

definition default_place :: "meta_strut list \<Rightarrow> window \<Rightarrow> workspace_manager \<Rightarrow> workspace_manager option" where
  "default_place struts w st =
     (if \<not> override_redirect (wm_win st w) \<and> win_workspace (wm_win st w) = None then
        Option.bind
          (case wm_parent st w of
             Some p \<Rightarrow> set_workspace_state w (on_all_workspaces (wm_win st p)) (win_workspace (wm_win st p)) st
           | None \<Rightarrow> if on_all_workspaces (wm_win st w) then set_workspace_state w True None st
                     else set_workspace_state w False (wm_active st) st)
          (meta_window_update_struts w struts)
      else Some st)"

text \<open>A window as it is when its construction starts, in the tables of the display; \<open>struts\<close> are those
  its client has set.\<close>

definition new_member :: "member_window \<Rightarrow> member_window" where
  "new_member v = v\<lparr>on_all_workspaces := False, win_workspace := None, on_all_requested := False,
     is_unmanaging := False, is_constructing := True, win_struts := []\<rparr>"

definition meta_window_construct ::
  "window \<Rightarrow> member_window \<Rightarrow> window option \<Rightarrow> int option \<Rightarrow> meta_strut list \<Rightarrow> workspace_manager \<Rightarrow>
   workspace_manager option" where
  "meta_window_construct w v parent initial struts st =
     (let st1 = (update_window w (\<lambda>_. new_member v) st)\<lparr>
                  wm_parent := (wm_parent st)(w := parent), wm_listed := insort w (wm_listed st)\<rparr>;
          st2 = (if win_type v = META_WINDOW_DESKTOP \<or> win_type v = META_WINDOW_DOCK
                 then request_all True w st1 else st1);
          st3 = update_window w (\<lambda>u. u\<lparr>on_all_workspaces := should_be_on_all_workspaces w st2\<rparr>) st2
      in Option.bind (initial_place initial w st3)
           (\<lambda>st4. map_option (update_window w (\<lambda>u. u\<lparr>is_constructing := False\<rparr>)) (default_place struts w st4)))"

text \<open>\<open>meta_window_unmanage\<close>, after the attached dialogs of the window have been unmanaged by calls of
  their own.\<close>

definition forgotten :: "window \<Rightarrow> workspace_manager \<Rightarrow> bool" where
  "forgotten w st \<longleftrightarrow> win_workspace (wm_win st w) = None \<and>
     list_all (\<lambda>ws. w \<notin> set (ws_windows (wm_of st ws)) \<and> w \<notin> set (mru_list (wm_of st ws))) (wm_workspaces st)"

definition meta_window_unmanage :: "window \<Rightarrow> workspace_manager \<Rightarrow> workspace_manager option" where
  "meta_window_unmanage w st =
     (let st1 = update_window w (\<lambda>u. u\<lparr>is_unmanaging := True\<rparr>) st
      in Option.bind (if only_on_primary st1 then meta_window_on_all_workspaces_changed w st1 else Some st1)
        (\<lambda>st2. Option.bind
           (if win_struts (wm_win st2 w) \<noteq> []
            then invalidate_work_areas w (update_window w (\<lambda>u. u\<lparr>win_struts := []\<rparr>) st2) else Some st2)
        (\<lambda>st3. Option.bind (set_workspace_state w False None st3)
        (\<lambda>st4. if forgotten w st4
               then Some (st4\<lparr>wm_listed := remove1 w (wm_listed st4), wm_parent := (wm_parent st4)(w := None)\<rparr>)
               else None))))"

text \<open>What makes a window stick or come back besides requests: it is sticky by type, or it leaves the
  primary monitor. A user who moves it back gets it on the active workspace.\<close>

definition set_always_sticky :: "window \<Rightarrow> bool \<Rightarrow> workspace_manager \<Rightarrow> workspace_manager option" where
  "set_always_sticky w b st =
     (if always_sticky (wm_win st w) = b then Some st
      else meta_window_on_all_workspaces_changed w (update_window w (\<lambda>u. u\<lparr>always_sticky := b\<rparr>) st))"

definition meta_window_update_monitor ::
  "window \<Rightarrow> bool \<Rightarrow> bool \<Rightarrow> workspace_manager \<Rightarrow> workspace_manager option" where
  "meta_window_update_monitor w off user_op st =
     Option.bind (meta_window_on_all_workspaces_changed w (update_window w (\<lambda>u. u\<lparr>off_primary := off\<rparr>) st))
       (\<lambda>st1. if only_on_primary st1 \<and> user_op \<and> \<not> off \<and> wm_active st1 \<noteq> win_workspace (wm_win st1 w)
              then (case wm_active st1 of
                      Some ws \<Rightarrow> meta_window_change_workspace w ws st1
                    | None \<Rightarrow> Some st1)
              else Some st1)"

end
