(* ===== verification/Workspace_Members.thy ===== *)
theory Workspace_Members
  imports Workspace_State
begin

text \<open>
  The invariants that \<open>core/window.c\<close> states above \<open>set_workspace_state\<close>: a window is in the lists of
  the workspaces that it is on and of no other. The theory says what one move of a window does, and
  that the operations that move whole families of windows keep whatever a single move keeps.
\<close>

section \<open>The invariant\<close>

definition lists_ok :: "workspace_manager \<Rightarrow> bool" where
  "lists_ok st \<longleftrightarrow>
     distinct (wm_workspaces st) \<and> (\<forall>x\<in>set (wm_workspaces st). x < wm_fresh st) \<and>
     (\<exists>a\<in>set (wm_workspaces st). wm_active st = Some a) \<and> distinct (wm_listed st) \<and>
     (\<forall>x\<in>set (wm_workspaces st).
        distinct (ws_windows (wm_of st x)) \<and> distinct (mru_list (wm_of st x)) \<and>
        set (mru_list (wm_of st x)) = set (ws_windows (wm_of st x)) \<and>
        set (ws_windows (wm_of st x)) \<subseteq> set (wm_listed st))"

definition inward :: "workspace_manager \<Rightarrow> window \<Rightarrow> bool" where
  "inward st v \<longleftrightarrow>
     (\<forall>x. win_workspace (wm_win st v) = Some x \<longrightarrow> x \<in> set (wm_workspaces st) \<and> \<not> on_all_workspaces (wm_win st v)) \<and>
     (\<forall>x\<in>set (wm_workspaces st). v \<in> set (ws_windows (wm_of st x)) \<longrightarrow> located_on_ws st v x)"

definition outward :: "workspace_manager \<Rightarrow> window \<Rightarrow> bool" where
  "outward st v \<longleftrightarrow> (\<forall>x\<in>set (wm_workspaces st). located_on_ws st v x \<longrightarrow> v \<in> set (ws_windows (wm_of st x)))"

text \<open>Windows with override-redirect stay out of the lists, but for those that the startup
  notification put there; they count as being on all workspaces.\<close>

definition at_home :: "workspace_manager \<Rightarrow> window \<Rightarrow> bool" where
  "at_home st v \<longleftrightarrow>
     \<not> is_unmanaging (wm_win st v) \<and> \<not> is_constructing (wm_win st v) \<and> inward st v \<and>
     (if override_redirect (wm_win st v) then on_all_workspaces (wm_win st v)
      else outward st v \<and> (on_all_workspaces (wm_win st v) \<or> win_workspace (wm_win st v) \<noteq> None))"

definition members_ok :: "workspace_manager \<Rightarrow> bool" where
  "members_ok st \<longleftrightarrow> lists_ok st \<and> (\<forall>v\<in>set (wm_listed st). at_home st v)"

text \<open>Parents: no loops, and no parent is gone. That loops are refused is proved of
  \<open>meta_window_set_transient_for\<close> with the window stack.\<close>

definition parents_ok :: "workspace_manager \<Rightarrow> bool" where
  "parents_ok st \<longleftrightarrow>
     (\<exists>rank :: window \<Rightarrow> nat. \<forall>w p. wm_parent st w = Some p \<longrightarrow> rank p < rank w) \<and>
     (\<forall>w p. wm_parent st w = Some p \<longrightarrow> w \<in> set (wm_listed st) \<and> p \<in> set (wm_listed st))"

text \<open>A cached work area is the one of the current struts.\<close>

definition coherent :: "workspace_manager \<Rightarrow> bool" where
  "coherent st \<longleftrightarrow>
     (\<forall>x\<in>set (wm_workspaces st). \<forall>A. ws_areas (wm_of st x) = Some A \<longrightarrow>
        compute_work_areas (wm_display st) (wm_monitors st) (workspace_struts st x) = Some A)"

section \<open>Moving one window\<close>

definition dropped :: "window \<Rightarrow> bool \<Rightarrow> meta_workspace \<Rightarrow> meta_workspace" where
  "dropped w invalid s = s\<lparr>ws_windows := remove1 w (ws_windows s), mru_list := remove1 w (mru_list s),
     ws_areas := (if invalid then None else ws_areas s)\<rparr>"

definition joined :: "window \<Rightarrow> bool \<Rightarrow> meta_workspace \<Rightarrow> meta_workspace" where
  "joined w invalid s = s\<lparr>mru_list := w # mru_list s, ws_windows := w # ws_windows s,
     ws_areas := (if invalid then None else ws_areas s)\<rparr>"

lemma remove_window_eq:
  "distinct (mru_list (wm_of st ws)) \<Longrightarrow>
   meta_workspace_remove_window w ws st = Some (update_workspace ws (dropped w (win_struts (wm_win st w) \<noteq> [])) st)"
  by (auto simp: meta_workspace_remove_window_def Let_def dropped_def meta_workspace_invalidate_work_area_def
      update_workspace_def)

lemma add_window_eq:
  "w \<notin> set (mru_list (wm_of st ws)) \<Longrightarrow>
   meta_workspace_add_window w ws st = Some (update_workspace ws (joined w (win_struts (wm_win st w) \<noteq> [])) st)"
  by (auto simp: meta_workspace_add_window_def Let_def joined_def meta_workspace_invalidate_work_area_def
      update_workspace_def)

lemma fold_opt_workspaces:
  assumes "distinct xs" "\<forall>x\<in>set xs. P (wm_of st x)"
    and "\<And>x s. x \<in> set xs \<Longrightarrow> P (wm_of s x) \<Longrightarrow> wm_win s = wm_win st \<Longrightarrow> f x s = Some (update_workspace x h s)"
  shows "fold_opt f xs st = Some (st\<lparr>wm_of := (\<lambda>y. if y \<in> set xs then h (wm_of st y) else wm_of st y)\<rparr>)"
  using assms
proof (induction xs arbitrary: st)
  case (Cons x xs)
  let ?s = "update_workspace x h st"
  have "f x st = Some ?s" using Cons.prems(2,3) by simp
  moreover have "fold_opt f xs ?s = Some (?s\<lparr>wm_of := (\<lambda>y. if y \<in> set xs then h (wm_of ?s y) else wm_of ?s y)\<rparr>)"
    using Cons.prems by (intro Cons.IH) auto
  moreover have "(\<lambda>y. if y \<in> set xs then h (wm_of ?s y) else wm_of ?s y) =
      (\<lambda>y. if y \<in> set (x # xs) then h (wm_of st y) else wm_of st y)"
    using Cons.prems(1) by auto
  ultimately show ?case by (simp add: update_workspace_def)
qed (simp add: update_workspace_def)

definition places :: "workspace_manager \<Rightarrow> window \<Rightarrow> workspace set" where
  "places st w = (case win_workspace (wm_win st w) of Some x \<Rightarrow> {x}
     | None \<Rightarrow> if on_all_workspaces (wm_win st w) then set (wm_workspaces st) else {})"

lemma on_workspaces_eq:
  assumes "distinct (wm_workspaces st)" "\<forall>x\<in>places st w. P (wm_of st x)"
    and "\<And>x s. P (wm_of s x) \<Longrightarrow> wm_win s = wm_win st \<Longrightarrow> f x s = Some (update_workspace x h s)"
  shows "on_workspaces f w st = Some (st\<lparr>wm_of := (\<lambda>y. if y \<in> places st w then h (wm_of st y) else wm_of st y)\<rparr>)"
proof (cases "win_workspace (wm_win st w)")
  case None
  then show ?thesis
    using fold_opt_workspaces [of "wm_workspaces st" P st f h] assms
    by (auto simp: on_workspaces_def places_def split: if_splits)
next
  case (Some x)
  then have p: "places st w = {x}" by (simp add: places_def)
  then have "f x st = Some (update_workspace x h st)" using assms(2,3) by simp
  with Some p show ?thesis by (simp add: on_workspaces_def update_workspace_def fun_upd_def cong: if_cong)
qed

text \<open>What a move does to the state.\<close>

definition moved :: "window \<Rightarrow> bool \<Rightarrow> workspace option \<Rightarrow> workspace_manager \<Rightarrow> workspace_manager \<Rightarrow> bool" where
  "moved w oa ws st st' \<longleftrightarrow>
     st' = st\<lparr>wm_win := (wm_win st)(w := (wm_win st w)\<lparr>on_all_workspaces := oa, win_workspace := ws\<rparr>),
              wm_of := wm_of st'\<rparr> \<and>
     (\<forall>y\<in>set (wm_workspaces st).
        distinct (ws_windows (wm_of st' y)) \<and> distinct (mru_list (wm_of st' y)) \<and>
        set (mru_list (wm_of st' y)) = set (ws_windows (wm_of st' y)) \<and>
        set (ws_windows (wm_of st' y)) =
          (set (ws_windows (wm_of st y)) - {w}) \<union> (if oa \<or> ws = Some y then {w} else {}) \<and>
        builtin_struts (wm_of st' y) = builtin_struts (wm_of st y) \<and>
        (ws_areas (wm_of st' y) = ws_areas (wm_of st y) \<or> ws_areas (wm_of st' y) = None) \<and>
        (win_struts (wm_win st w) \<noteq> [] \<and> located_on_ws st w y \<noteq> (oa \<or> ws = Some y) \<longrightarrow>
           ws_areas (wm_of st' y) = None))"

text \<open>The targets that \<open>set_workspace_state\<close> accepts.\<close>

definition target_ok :: "workspace_manager \<Rightarrow> window \<Rightarrow> bool \<Rightarrow> workspace option \<Rightarrow> bool" where
  "target_ok st w oa ws \<longleftrightarrow>
     (oa \<longrightarrow> ws = None) \<and> (\<not> oa \<longrightarrow> is_unmanaging (wm_win st w) \<or> ws \<noteq> None) \<and>
     (\<forall>x. ws = Some x \<longrightarrow> x \<in> set (wm_workspaces st))"

lemma set_workspace_state_moved:
  assumes "lists_ok st" "inward st w" "target_ok st w oa ws"
    and "override_redirect (wm_win st w) \<longrightarrow> is_constructing (wm_win st w) \<and> oa \<or> is_unmanaging (wm_win st w)"
    and "is_constructing (wm_win st w) \<or> outward st w \<or> oa \<noteq> on_all_workspaces (wm_win st w)"
  obtains st' where "set_workspace_state w oa ws st = Some st'" "moved w oa ws st st'"
proof (cases "oa = on_all_workspaces (wm_win st w) \<and> ws = win_workspace (wm_win st w) \<and> \<not> is_constructing (wm_win st w)")
  case True
  then have "set_workspace_state w oa ws st = Some st"
    using assms(3,4) by (auto simp: set_workspace_state_def Let_def target_ok_def)
  moreover have "moved w oa ws st st"
    using True assms(1,2,5) unfolding moved_def lists_ok_def inward_def outward_def
    by (auto simp: fun_upd_idem)
  ultimately show thesis by (rule that)
next
  case False
  let ?bad = "win_struts (wm_win st w) \<noteq> []"
  have lists: "distinct (wm_workspaces st)"
    "\<And>x. x \<in> set (wm_workspaces st) \<Longrightarrow> distinct (ws_windows (wm_of st x)) \<and> distinct (mru_list (wm_of st x)) \<and>
        set (mru_list (wm_of st x)) = set (ws_windows (wm_of st x))"
    using assms(1) by (simp_all add: lists_ok_def)
  have pl: "places st w \<subseteq> set (wm_workspaces st)"
    using assms(2) by (auto simp: places_def inward_def split: option.splits)
  define st1 where "st1 = st\<lparr>wm_of := (\<lambda>y. if y \<in> places st w then dropped w ?bad (wm_of st y) else wm_of st y)\<rparr>"
  have rem: "on_workspaces (meta_workspace_remove_window w) w st = Some st1"
    unfolding st1_def
    by (rule on_workspaces_eq [where P = "\<lambda>s. distinct (mru_list s)"])
      (use lists pl in \<open>auto simp: remove_window_eq\<close>)
  define st2 where "st2 = update_window w (\<lambda>v. v\<lparr>on_all_workspaces := oa, win_workspace := ws\<rparr>) st1"
  have gone: "w \<notin> set (ws_windows (wm_of st1 x)) \<and> w \<notin> set (mru_list (wm_of st1 x))" if "x \<in> set (wm_workspaces st)" for x
    using that lists(2) [OF that] assms(2)
    by (auto simp: st1_def dropped_def places_def inward_def split: option.splits if_splits)
  have pl2: "places st2 w = (case ws of Some x \<Rightarrow> {x} | None \<Rightarrow> if oa then set (wm_workspaces st) else {})"
    by (simp add: places_def st2_def st1_def split: option.split)
  have sub: "places st2 w \<subseteq> set (wm_workspaces st)"
    using assms(3) by (auto simp: pl2 target_ok_def split: option.splits)
  define st3 where "st3 = st2\<lparr>wm_of := (\<lambda>y. if y \<in> places st2 w then joined w ?bad (wm_of st2 y) else wm_of st2 y)\<rparr>"
  have add: "on_workspaces (meta_workspace_add_window w) w st2 = Some st3"
    unfolding st3_def
  proof (rule on_workspaces_eq [where P = "\<lambda>s. w \<notin> set (mru_list s)"])
    show "distinct (wm_workspaces st2)" using lists(1) by (simp add: st2_def st1_def)
    show "\<forall>x\<in>places st2 w. w \<notin> set (mru_list (wm_of st2 x))"
      using gone sub by (auto simp: st2_def)
    fix x and s :: workspace_manager assume "w \<notin> set (mru_list (wm_of s x))" "wm_win s = wm_win st2"
    then show "meta_workspace_add_window w x s = Some (update_workspace x (joined w ?bad) s)"
      by (simp add: add_window_eq st2_def st1_def)
  qed
  have g1: "\<not> (if oa then ws \<noteq> None else \<not> is_unmanaging (wm_win st w) \<and> ws = None)"
    using assms(3) by (auto simp: target_ok_def)
  have g2: "\<not> (override_redirect (wm_win st w) \<and> \<not> (is_constructing (wm_win st w) \<and> oa \<or> is_unmanaging (wm_win st w)))"
    using assms(4) by blast
  have "set_workspace_state w oa ws st = Some st3"
    unfolding set_workspace_state_def Let_def if_not_P [OF g1] if_not_P [OF g2] if_not_P [OF False] rem
    using add by (simp add: st2_def)
  moreover have "moved w oa ws st st3"
    unfolding moved_def
  proof (intro conjI ballI)
    show "st3 = st\<lparr>wm_win := (wm_win st)(w := (wm_win st w)\<lparr>on_all_workspaces := oa, win_workspace := ws\<rparr>), wm_of := wm_of st3\<rparr>"
      by (simp add: st3_def st2_def st1_def update_window_def)
  next
    fix y assume y: "y \<in> set (wm_workspaces st)"
    note L = lists(2) [OF y] and G = gone [OF y]
    have in1: "y \<in> places st w \<longleftrightarrow> located_on_ws st w y"
      using y assms(2) by (auto simp: places_def inward_def split: option.splits)
    have in2: "y \<in> places st2 w \<longleftrightarrow> oa \<or> ws = Some y"
      using y assms(3) by (auto simp: pl2 target_ok_def split: option.splits)
    have of: "wm_of st3 y = (let s = (if located_on_ws st w y then dropped w ?bad (wm_of st y) else wm_of st y)
        in if oa \<or> ws = Some y then joined w ?bad s else s)"
      using in1 in2 by (simp add: st3_def st2_def st1_def Let_def)
    have out: "\<not> located_on_ws st w y \<Longrightarrow> w \<notin> set (ws_windows (wm_of st y))"
      using assms(2) y unfolding inward_def by blast
    show "distinct (ws_windows (wm_of st3 y))" "distinct (mru_list (wm_of st3 y))"
      "set (mru_list (wm_of st3 y)) = set (ws_windows (wm_of st3 y))"
      "set (ws_windows (wm_of st3 y)) = (set (ws_windows (wm_of st y)) - {w}) \<union> (if oa \<or> ws = Some y then {w} else {})"
      "builtin_struts (wm_of st3 y) = builtin_struts (wm_of st y)"
      "ws_areas (wm_of st3 y) = ws_areas (wm_of st y) \<or> ws_areas (wm_of st3 y) = None"
      "win_struts (wm_win st w) \<noteq> [] \<and> located_on_ws st w y \<noteq> (oa \<or> ws = Some y) \<longrightarrow> ws_areas (wm_of st3 y) = None"
      using L out unfolding of by (auto simp: Let_def dropped_def joined_def)
  qed
  ultimately show thesis by (rule that)
qed

section \<open>What a move keeps\<close>

lemma moved_fields:
  assumes "moved w oa ws st st'"
  shows "wm_parent st' = wm_parent st" "wm_listed st' = wm_listed st" "wm_workspaces st' = wm_workspaces st"
    "wm_active st' = wm_active st" "wm_fresh st' = wm_fresh st" "wm_display st' = wm_display st"
    "wm_monitors st' = wm_monitors st" "wm_primary st' = wm_primary st" "only_on_primary st' = only_on_primary st"
    "wm_win st' = (wm_win st)(w := (wm_win st w)\<lparr>on_all_workspaces := oa, win_workspace := ws\<rparr>)"
proof -
  from assms have "st' = st\<lparr>wm_win := (wm_win st)(w := (wm_win st w)\<lparr>on_all_workspaces := oa, win_workspace := ws\<rparr>),
      wm_of := wm_of st'\<rparr>"
    unfolding moved_def by blast
  then obtain f where f: "st' = st\<lparr>wm_win := (wm_win st)(w := (wm_win st w)\<lparr>on_all_workspaces := oa, win_workspace := ws\<rparr>),
      wm_of := f\<rparr>" by blast
  show "wm_parent st' = wm_parent st" "wm_listed st' = wm_listed st" "wm_workspaces st' = wm_workspaces st"
    "wm_active st' = wm_active st" "wm_fresh st' = wm_fresh st" "wm_display st' = wm_display st"
    "wm_monitors st' = wm_monitors st" "wm_primary st' = wm_primary st" "only_on_primary st' = only_on_primary st"
    "wm_win st' = (wm_win st)(w := (wm_win st w)\<lparr>on_all_workspaces := oa, win_workspace := ws\<rparr>)"
    unfolding f by simp_all
qed

lemma moved_lists:
  assumes "moved w oa ws st st'" "y \<in> set (wm_workspaces st)"
  shows "distinct (ws_windows (wm_of st' y))" "distinct (mru_list (wm_of st' y))"
    "set (mru_list (wm_of st' y)) = set (ws_windows (wm_of st' y))"
    "set (ws_windows (wm_of st' y)) = (set (ws_windows (wm_of st y)) - {w}) \<union> (if oa \<or> ws = Some y then {w} else {})"
    "builtin_struts (wm_of st' y) = builtin_struts (wm_of st y)"
    "ws_areas (wm_of st' y) = ws_areas (wm_of st y) \<or> ws_areas (wm_of st' y) = None"
    "win_struts (wm_win st w) \<noteq> [] \<Longrightarrow> located_on_ws st w y \<noteq> (oa \<or> ws = Some y) \<Longrightarrow> ws_areas (wm_of st' y) = None"
proof -
  note m = bspec [OF conjunct2 [OF assms(1) [unfolded moved_def]] assms(2)]
  show "distinct (ws_windows (wm_of st' y))" "distinct (mru_list (wm_of st' y))"
    "set (mru_list (wm_of st' y)) = set (ws_windows (wm_of st' y))"
    "set (ws_windows (wm_of st' y)) = (set (ws_windows (wm_of st y)) - {w}) \<union> (if oa \<or> ws = Some y then {w} else {})"
    "builtin_struts (wm_of st' y) = builtin_struts (wm_of st y)"
    "ws_areas (wm_of st' y) = ws_areas (wm_of st y) \<or> ws_areas (wm_of st' y) = None"
    using m by - (elim conjE, assumption)+
  show "win_struts (wm_win st w) \<noteq> [] \<Longrightarrow> located_on_ws st w y \<noteq> (oa \<or> ws = Some y) \<Longrightarrow> ws_areas (wm_of st' y) = None"
    using m by (elim conjE) (erule mp, rule conjI)
qed

lemma moved_lists_ok:
  assumes "lists_ok st" "w \<in> set (wm_listed st)" "moved w oa ws st st'"
  shows "lists_ok st'"
  using assms(1,2) moved_lists [OF assms(3)] unfolding lists_ok_def moved_fields [OF assms(3)] by auto

lemma moved_at_home:
  assumes "moved w oa ws st st'" "v \<noteq> w"
  shows "at_home st' v = at_home st v"
proof -
  have v: "wm_win st' v = wm_win st v" using assms by (simp add: moved_fields)
  have "v \<in> set (ws_windows (wm_of st' x)) \<longleftrightarrow> v \<in> set (ws_windows (wm_of st x))" if "x \<in> set (wm_workspaces st)" for x
    using moved_lists(4) [OF assms(1) that] assms(2) by auto
  then show ?thesis
    unfolding at_home_def inward_def outward_def v moved_fields(3) [OF assms(1)] by auto
qed

lemma moved_settles:
  assumes "moved w oa ws st st'" "target_ok st w oa ws" "\<forall>x\<in>set (wm_workspaces st). set (ws_windows (wm_of st x)) \<subseteq> L"
  shows "inward st' w" "outward st' w"
proof -
  have w: "on_all_workspaces (wm_win st' w) = oa" "win_workspace (wm_win st' w) = ws"
    using assms(1) by (simp_all add: moved_fields)
  show "inward st' w" "outward st' w"
    using assms(2) moved_lists(4) [OF assms(1)]
    unfolding inward_def outward_def w moved_fields(3) [OF assms(1)] target_ok_def by auto
qed

text \<open>The struts of a workspace only depend on the windows that have some.\<close>

definition listed_struts :: "workspace_manager \<Rightarrow> workspace \<Rightarrow> window \<Rightarrow> meta_strut list" where
  "listed_struts st x w =
     (if \<not> is_unmanaging (wm_win st w) \<and> \<not> override_redirect (wm_win st w) \<and> located_on_ws st w x
      then win_struts (wm_win st w) else [])"

lemma concat_map_filter: "concat (map f (filter P xs)) = concat (map (\<lambda>x. if P x then f x else []) xs)"
  by (induction xs) auto

lemma workspace_struts_alt:
  "workspace_struts st x =
     rev (concat (map (listed_struts st x) (rev (wm_listed st)))) @ builtin_struts (wm_of st x)"
proof -
  have "meta_workspace_list_windows st x =
      filter (\<lambda>w. \<not> is_unmanaging (wm_win st w) \<and> \<not> override_redirect (wm_win st w) \<and> located_on_ws st w x) (rev (wm_listed st))"
    by (simp add: meta_workspace_list_windows_def meta_display_list_windows_def rev_filter conj_assoc)
  then show ?thesis
    unfolding workspace_struts_def listed_struts_def [abs_def] by (simp add: concat_map_filter)
qed

lemma workspace_struts_cong:
  assumes "wm_listed st' = wm_listed st" "builtin_struts (wm_of st' x) = builtin_struts (wm_of st x)"
    and "\<And>v. v \<in> set (wm_listed st) \<Longrightarrow> listed_struts st' x v = listed_struts st x v"
  shows "workspace_struts st' x = workspace_struts st x"
proof -
  have m: "map (listed_struts st' x) (rev (wm_listed st)) = map (listed_struts st x) (rev (wm_listed st))"
    using assms(3) by (intro map_cong) simp_all
  show ?thesis unfolding workspace_struts_alt assms(1,2) m by (rule refl)
qed

lemma coherent_cong:
  assumes "coherent st" "wm_workspaces st' = wm_workspaces st" "wm_display st' = wm_display st"
    and "wm_monitors st' = wm_monitors st"
    and "\<And>x. x \<in> set (wm_workspaces st) \<Longrightarrow> ws_areas (wm_of st' x) \<noteq> None \<Longrightarrow>
       ws_areas (wm_of st' x) = ws_areas (wm_of st x) \<and> workspace_struts st' x = workspace_struts st x"
  shows "coherent st'"
  using assms unfolding coherent_def by (metis option.distinct(1))

lemma moved_coherent:
  assumes "coherent st" "moved w oa ws st st'"
  shows "coherent st'"
proof (rule coherent_cong [OF assms(1)])
  fix x assume x: "x \<in> set (wm_workspaces st)" "ws_areas (wm_of st' x) \<noteq> None"
  note L = moved_lists [OF assms(2) x(1)] and F = moved_fields [OF assms(2)]
  have "workspace_struts st' x = workspace_struts st x"
  proof (rule workspace_struts_cong)
    fix v
    show "listed_struts st' x v = listed_struts st x v"
      using L(7) x(2) by (cases "v = w"; cases "win_struts (wm_win st w) = []") (auto simp: F listed_struts_def)
  qed (simp_all add: F L(5))
  with L(6) x(2) show "ws_areas (wm_of st' x) = ws_areas (wm_of st x) \<and> workspace_struts st' x = workspace_struts st x"
    by auto
qed (simp_all add: moved_fields [OF assms(2)])

lemma moved_parents:
  "parents_ok st \<Longrightarrow> moved w oa ws st st' \<Longrightarrow> parents_ok st'"
  unfolding parents_ok_def by (simp add: moved_fields)

lemma moved_members:
  assumes "members_ok st" "w \<in> set (wm_listed st)" "moved w oa ws st st'" "target_ok st w oa ws"
    and "\<not> override_redirect (wm_win st w)"
  shows "members_ok st'"
proof -
  have l: "lists_ok st'" using assms(1-3) moved_lists_ok by (auto simp: members_ok_def)
  have h: "at_home st w" using assms(1,2) by (simp add: members_ok_def)
  have "inward st' w" "outward st' w" using moved_settles [OF assms(3,4)] by blast+
  then have "at_home st' w"
    using h assms(4,5) by (auto simp: at_home_def moved_fields [OF assms(3)] target_ok_def)
  then show ?thesis
    using assms(1) l moved_at_home [OF assms(3)] unfolding members_ok_def moved_fields(2) [OF assms(3)] by metis
qed

lemma moved_exists:
  assumes "members_ok st" "w \<in> set (wm_listed st)" "target_ok st w oa ws" "\<not> override_redirect (wm_win st w)"
  obtains st' where "set_workspace_state w oa ws st = Some st'" "moved w oa ws st st'"
  using assms by (auto simp: members_ok_def at_home_def intro: set_workspace_state_moved [of st w oa ws])

section \<open>Families return\<close>

lemma ancestors_exist:
  assumes "parents_ok st"
  shows "\<exists>as. ancestors st w = Some as \<and> set as \<subseteq> set (wm_listed st)"
proof -
  obtain rank :: "window \<Rightarrow> nat" where r: "\<And>w p. wm_parent st w = Some p \<Longrightarrow> rank p < rank w"
    using assms by (auto simp: parents_ok_def)
  show ?thesis
  proof (induction "rank w" arbitrary: w rule: less_induct)
    case less
    show ?case
    proof (cases "wm_parent st w")
      case None
      then show ?thesis by (simp add: ancestors.simps [of st w])
    next
      case (Some p)
      with less [of p] r obtain as where "ancestors st p = Some as" "set as \<subseteq> set (wm_listed st)" by blast
      moreover have "p \<in> set (wm_listed st)" using Some assms by (auto simp: parents_ok_def)
      ultimately show ?thesis using Some by (simp add: ancestors.simps [of st w])
    qed
  qed
qed

lemma is_ancestor_exists:
  assumes "parents_ok st"
  shows "\<exists>b. meta_window_is_ancestor_of_transient st w t = Some b"
proof -
  obtain rank :: "window \<Rightarrow> nat" where r: "\<And>w p. wm_parent st w = Some p \<Longrightarrow> rank p < rank w"
    using assms by (auto simp: parents_ok_def)
  show ?thesis
  proof (induction "rank t" arbitrary: t rule: less_induct)
    case less
    show ?case
      using less r by (cases "wm_parent st t") (auto simp: meta_window_is_ancestor_of_transient.simps [of st w t])
  qed
qed

lemma modal_prefix_subset: "set (modal_prefix st as) \<subseteq> set as"
  by (induction as) auto

section \<open>What the operations on families keep\<close>

text \<open>A property of the state that every move to one of some workspaces keeps. If a window sticks by
  request, the active workspace, to which it would come back, is one of them.\<close>

locale workspace_kept =
  fixes P :: "workspace_manager \<Rightarrow> bool"
    and L :: "window list"
    and homes :: "workspace set"
  assumes sound: "P st \<Longrightarrow> members_ok st \<and> parents_ok st \<and> wm_listed st = L \<and> homes \<subseteq> set (wm_workspaces st)"
    and moves: "P st \<Longrightarrow> w \<in> set L \<Longrightarrow> \<not> override_redirect (wm_win st w) \<Longrightarrow> target_ok st w oa ws \<Longrightarrow>
      (\<forall>x. ws = Some x \<longrightarrow> x \<in> homes) \<Longrightarrow> moved w oa ws st st' \<Longrightarrow> P st'"
    and requests: "P st \<Longrightarrow> w \<in> set L \<Longrightarrow> P (request_all False w st)"
    and comes_back: "P st \<Longrightarrow> w \<in> set L \<Longrightarrow> on_all_requested (wm_win st w) \<Longrightarrow> wm_active st \<in> Some ` homes"
begin

lemma set_state_keeps:
  assumes "P st" "w \<in> set L" "\<not> override_redirect (wm_win st w)" "target_ok st w oa ws"
    and "\<forall>x. ws = Some x \<longrightarrow> x \<in> homes"
  obtains st' where "set_workspace_state w oa ws st = Some st'" "moved w oa ws st st'" "P st'"
proof -
  have ok: "members_ok st" "w \<in> set (wm_listed st)" using sound [OF assms(1)] assms(2) by auto
  obtain st' where s: "set_workspace_state w oa ws st = Some st'" "moved w oa ws st st'"
    by (rule moved_exists [OF ok assms(4,3)])
  then show thesis using that moves [OF assms s(2)] by blast
qed

lemma listed_alive: "P st \<Longrightarrow> w \<in> set L \<Longrightarrow> at_home st w"
  using sound [of st] by (auto simp: members_ok_def)

lemma on_all_changed_keeps:
  assumes "P st" "w \<in> set L" "should_be_on_all_workspaces w st \<or> wm_active st \<in> Some ` homes"
  shows "\<exists>st'. meta_window_on_all_workspaces_changed w st = Some st' \<and> P st'"
proof (cases "on_all_workspaces (wm_win st w) = should_be_on_all_workspaces w st")
  case True
  then show ?thesis using assms(1) by (simp add: meta_window_on_all_workspaces_changed_def)
next
  case False
  let ?oa = "should_be_on_all_workspaces w st" and ?ws = "if should_be_on_all_workspaces w st then None else wm_active st"
  have nor: "\<not> override_redirect (wm_win st w)"
    using False listed_alive [OF assms(1,2)] by (auto simp: at_home_def should_be_on_all_workspaces_def Let_def)
  have t: "target_ok st w ?oa ?ws" "\<forall>x. ?ws = Some x \<longrightarrow> x \<in> homes"
    using assms(3) sound [OF assms(1)] by (auto simp: target_ok_def)
  obtain st' where "set_workspace_state w ?oa ?ws st = Some st'" "P st'"
    by (rule set_state_keeps [OF assms(1,2) nor t]) blast
  then show ?thesis using False by (simp add: meta_window_on_all_workspaces_changed_def Let_def)
qed

lemma unstick_impl_keeps:
  assumes "P st" "w \<in> set L"
  shows "\<exists>st'. window_unstick_impl w st = Some st' \<and> P st'"
  using assms requests [OF assms] on_all_changed_keeps [of "request_all False w st" w]
    comes_back [OF assms]
  by (auto simp: window_unstick_impl_def request_all_def)

lemma foreach_transient_keeps:
  assumes "P st" "\<And>t s. t \<in> set L \<Longrightarrow> P s \<Longrightarrow> \<exists>s'. f t s = Some s' \<and> P s'"
  shows "\<exists>st'. foreach_transient f w st = Some st' \<and> P st'"
  unfolding foreach_transient_def
proof (rule fold_opt_invariant [of P, OF assms(1)])
  fix t s assume t: "t \<in> set (meta_display_list_windows st)" and s: "P s"
  have "t \<in> set L" using t sound [OF assms(1)] by (auto simp: meta_display_list_windows_def)
  moreover obtain b where "meta_window_is_ancestor_of_transient s w t = Some b"
    using is_ancestor_exists sound [OF s] by blast
  ultimately show "\<exists>s'. Option.bind (meta_window_is_ancestor_of_transient s w t)
      (\<lambda>b. if b then f t s else Some s) = Some s' \<and> P s'"
    using assms(2) s by simp
qed

lemma foreach_ancestor_keeps:
  assumes "P st" "\<And>t s. t \<in> set L \<Longrightarrow> P s \<Longrightarrow> \<exists>s'. f t s = Some s' \<and> P s'"
  shows "\<exists>st'. foreach_ancestor f w st = Some st' \<and> P st'"
proof -
  obtain as where a: "ancestors st w = Some as" "set as \<subseteq> set L"
    using ancestors_exist sound [OF assms(1)] by metis
  have "\<exists>s'. fold_opt f as st = Some s' \<and> P s'"
    using a(2) assms by (intro fold_opt_invariant) auto
  then show ?thesis by (simp add: foreach_ancestor_def a(1))
qed

lemma foreach_modal_keeps:
  assumes "P st" "\<And>t s. t \<in> set L \<Longrightarrow> P s \<Longrightarrow> \<exists>s'. f t s = Some s' \<and> P s'"
  shows "\<exists>st'. foreach_modal_ancestor f w st = Some st' \<and> P st'"
proof -
  obtain as where a: "ancestors st w = Some as" "set as \<subseteq> set L"
    using ancestors_exist sound [OF assms(1)] by metis
  have "\<exists>s'. fold_opt f (modal_prefix st as) st = Some s' \<and> P s'"
    using a(2) modal_prefix_subset [of st as] assms by (intro fold_opt_invariant) auto
  then show ?thesis using assms(1) by (simp add: foreach_modal_ancestor_def a(1))
qed

lemma stick_with_keeps:
  assumes "P st" "w \<in> set L" "\<And>t s. t \<in> set L \<Longrightarrow> P s \<Longrightarrow> \<exists>s'. f t s = Some s' \<and> P s'"
  shows "\<exists>st'. stick_with f w st = Some st' \<and> P st'"
proof -
  obtain s1 where 1: "f w st = Some s1" "P s1" using assms by blast
  obtain s2 where 2: "foreach_transient f w s1 = Some s2" "P s2"
    using foreach_transient_keeps [where f = f, OF 1(2) assms(3)] by blast
  obtain s3 where 3: "foreach_modal_ancestor f w s2 = Some s3" "P s3"
    using foreach_modal_keeps [where f = f, OF 2(2) assms(3)] by blast
  show ?thesis using assms(1) 1 2 3 by (simp add: stick_with_def)
qed

lemma unstick_keeps: "P st \<Longrightarrow> w \<in> set L \<Longrightarrow> \<exists>st'. meta_window_unstick w st = Some st' \<and> P st'"
  unfolding meta_window_unstick_def by (rule stick_with_keeps) (simp_all add: unstick_impl_keeps)

lemma without_transients_keeps:
  assumes "P st" "w \<in> set L" "x \<in> homes"
  shows "\<exists>st'. meta_window_change_workspace_without_transients x w st = Some st' \<and> P st' \<and>
    (on_all_workspaces (wm_win st' w) \<or> win_workspace (wm_win st' w) = Some x)"
proof -
  have alive: "\<not> is_unmanaging (wm_win st w)" using listed_alive [OF assms(1,2)] by (simp add: at_home_def)
  obtain s1 where 1: "(if on_all_requested (wm_win st w) then meta_window_unstick w st else Some st) = Some s1" "P s1"
    using unstick_keeps [OF assms(1,2)] assms(1) by (cases "on_all_requested (wm_win st w)") auto
  show ?thesis
  proof (cases "on_all_workspaces (wm_win s1 w) \<or> win_workspace (wm_win s1 w) = Some x")
    case True
    then show ?thesis using alive 1 by (auto simp: meta_window_change_workspace_without_transients_def)
  next
    case False
    have nor: "\<not> override_redirect (wm_win s1 w)"
      using False listed_alive [OF 1(2) assms(2)] by (auto simp: at_home_def)
    have t: "target_ok s1 w False (Some x)" "\<forall>y. Some x = Some y \<longrightarrow> y \<in> homes"
      using assms(3) sound [OF 1(2)] by (auto simp: target_ok_def)
    obtain s2 where "set_workspace_state w False (Some x) s1 = Some s2" "moved w False (Some x) s1 s2" "P s2"
      by (rule set_state_keeps [OF 1(2) assms(2) nor t])
    then show ?thesis using alive 1 False
      by (auto simp: meta_window_change_workspace_without_transients_def moved_fields)
  qed
qed

lemma family_follows:
  assumes "P st" "x \<in> homes"
  shows "\<exists>st'. Option.bind (foreach_transient (meta_window_change_workspace_without_transients x) w st)
      (foreach_ancestor (meta_window_change_workspace_without_transients x) w) = Some st' \<and> P st'"
proof -
  have step: "\<And>t s. t \<in> set L \<Longrightarrow> P s \<Longrightarrow>
      \<exists>s'. meta_window_change_workspace_without_transients x t s = Some s' \<and> P s'"
    using without_transients_keeps assms(2) by blast
  obtain s1 where 1: "foreach_transient (meta_window_change_workspace_without_transients x) w st = Some s1" "P s1"
    using foreach_transient_keeps [where f = "meta_window_change_workspace_without_transients x", OF assms(1) step] by blast
  show ?thesis
    using foreach_ancestor_keeps [where f = "meta_window_change_workspace_without_transients x", OF 1(2) step]
    by (simp add: 1(1))
qed

lemma change_workspace_keeps:
  assumes "P st" "w \<in> set L" "x \<in> homes"
  shows "\<exists>st'. meta_window_change_workspace w x st = Some st' \<and> P st'"
proof -
  obtain s1 where "meta_window_change_workspace_without_transients x w st = Some s1" "P s1"
    using without_transients_keeps [OF assms] by blast
  with family_follows [OF this(2) assms(3)] assms(1) show ?thesis by (simp add: meta_window_change_workspace_def)
qed

end

end
