(* ===== verification/Workspace_Desks.thy ===== *)
theory Workspace_Desks
  imports Workspace_Members
begin

text \<open>
  The operations of the workspace manager keep the invariant of the windows' lists and of the cached
  work areas, and none of their assertions fails: changing workspaces, sticking, relocating the
  windows of a workspace that goes, new workspaces, and windows that are constructed and unmanaged.
\<close>

definition desk_inv :: "workspace_manager \<Rightarrow> bool" where
  "desk_inv st \<longleftrightarrow> members_ok st \<and> parents_ok st \<and> coherent st"

lemma desk_inv_active:
  assumes "desk_inv st"
  obtains a where "wm_active st = Some a" "a \<in> set (wm_workspaces st)"
  using assms by (auto simp: desk_inv_def members_ok_def lists_ok_def)

lemma moved_desk_inv:
  assumes "desk_inv st" "w \<in> set (wm_listed st)" "\<not> override_redirect (wm_win st w)" "target_ok st w oa ws"
    and "moved w oa ws st st'"
  shows "desk_inv st'"
  using assms moved_members moved_parents moved_coherent unfolding desk_inv_def by metis

section \<open>Changes that leave every window where it is\<close>

text \<open>Two states in which every window is in the same place.\<close>

definition same_places :: "workspace_manager \<Rightarrow> workspace_manager \<Rightarrow> bool" where
  "same_places st st' \<longleftrightarrow>
     wm_listed st' = wm_listed st \<and> wm_workspaces st' = wm_workspaces st \<and> wm_fresh st' = wm_fresh st \<and>
     (\<forall>v\<in>set (wm_listed st).
        on_all_workspaces (wm_win st' v) = on_all_workspaces (wm_win st v) \<and>
        win_workspace (wm_win st' v) = win_workspace (wm_win st v) \<and>
        is_unmanaging (wm_win st' v) = is_unmanaging (wm_win st v) \<and>
        is_constructing (wm_win st' v) = is_constructing (wm_win st v) \<and>
        override_redirect (wm_win st' v) = override_redirect (wm_win st v)) \<and>
     (\<forall>x\<in>set (wm_workspaces st). ws_windows (wm_of st' x) = ws_windows (wm_of st x) \<and>
        distinct (mru_list (wm_of st' x)) = distinct (mru_list (wm_of st x)) \<and>
        set (mru_list (wm_of st' x)) = set (mru_list (wm_of st x)))"

lemma same_places_refl: "same_places st st"
  by (simp add: same_places_def)

lemma same_places_members:
  assumes "same_places st st'" "members_ok st" "\<exists>a\<in>set (wm_workspaces st). wm_active st' = Some a"
  shows "members_ok st'"
  using assms unfolding same_places_def members_ok_def lists_ok_def at_home_def inward_def outward_def
  by auto

lemma request_all_desk:
  assumes "desk_inv st"
  shows "desk_inv (request_all b w st)"
proof -
  have "same_places st (request_all b w st)" by (simp add: same_places_def request_all_def)
  moreover obtain a where "wm_active st = Some a" "a \<in> set (wm_workspaces st)"
    by (rule desk_inv_active [OF assms])
  ultimately have "members_ok (request_all b w st)"
    using assms same_places_members [of st "request_all b w st"] by (simp add: desk_inv_def request_all_def)
  moreover have "coherent (request_all b w st)"
  proof (rule coherent_cong)
    show "coherent st" using assms by (simp add: desk_inv_def)
    fix x
    have "workspace_struts (request_all b w st) x = workspace_struts st x"
      by (rule workspace_struts_cong) (auto simp: request_all_def listed_struts_def)
    then show "ws_areas (wm_of (request_all b w st) x) = ws_areas (wm_of st x) \<and>
        workspace_struts (request_all b w st) x = workspace_struts st x"
      by (simp add: request_all_def)
  qed (simp_all add: request_all_def)
  moreover have "parents_ok (request_all b w st)"
    using assms by (simp add: desk_inv_def parents_ok_def request_all_def)
  ultimately show ?thesis by (simp add: desk_inv_def)
qed

section \<open>Families on any workspace\<close>

definition desk_with :: "window list \<Rightarrow> workspace list \<Rightarrow> workspace option \<Rightarrow> workspace_manager \<Rightarrow> bool" where
  "desk_with L WS A st \<longleftrightarrow> desk_inv st \<and> wm_listed st = L \<and> wm_workspaces st = WS \<and> wm_active st = A"

lemma request_all_with: "desk_with L WS A st \<Longrightarrow> desk_with L WS A (request_all b w st)"
  using request_all_desk by (simp add: desk_with_def) (simp add: request_all_def)

interpretation dk: workspace_kept "desk_with L WS A" L "set WS" for L WS A
proof
  fix st assume "desk_with L WS A st"
  then show "members_ok st \<and> parents_ok st \<and> wm_listed st = L \<and> set WS \<subseteq> set (wm_workspaces st)"
    by (simp add: desk_with_def desk_inv_def)
next
  fix st w oa ws st'
  assume "desk_with L WS A st" "w \<in> set L" "\<not> override_redirect (wm_win st w)" "target_ok st w oa ws" "moved w oa ws st st'"
  then show "desk_with L WS A st'" using moved_desk_inv by (auto simp: desk_with_def moved_fields)
next
  fix st w assume "desk_with L WS A st"
  then show "desk_with L WS A (request_all False w st)" by (rule request_all_with)
next
  fix st w assume "desk_with L WS A st"
  then show "wm_active st \<in> Some ` set WS"
    by (auto simp: desk_with_def elim!: desk_inv_active)
qed

lemma change_workspace_desk:
  assumes "desk_inv st" "w \<in> set (wm_listed st)" "x \<in> set (wm_workspaces st)"
  shows "\<exists>st'. meta_window_change_workspace w x st = Some st' \<and>
    desk_with (wm_listed st) (wm_workspaces st) (wm_active st) st'"
  using assms by (intro dk.change_workspace_keeps) (simp_all add: desk_with_def)

lemma on_all_changed_desk:
  assumes "desk_inv st" "w \<in> set (wm_listed st)"
  shows "\<exists>st'. meta_window_on_all_workspaces_changed w st = Some st' \<and>
    desk_with (wm_listed st) (wm_workspaces st) (wm_active st) st'"
  using assms by (intro dk.on_all_changed_keeps) (auto simp: desk_with_def elim!: desk_inv_active)

lemma stick_desk:
  assumes "desk_inv st" "w \<in> set (wm_listed st)"
  shows "\<exists>st'. meta_window_stick w st = Some st' \<and> desk_with (wm_listed st) (wm_workspaces st) (wm_active st) st'"
proof -
  have step: "\<exists>s'. window_stick_impl t s = Some s' \<and> desk_with (wm_listed st) (wm_workspaces st) (wm_active st) s'"
    if "t \<in> set (wm_listed st)" "desk_with (wm_listed st) (wm_workspaces st) (wm_active st) s" for t s
  proof (cases "on_all_requested (wm_win s t)")
    case True
    then show ?thesis using that(2) by (simp add: window_stick_impl_def)
  next
    case False
    have "\<exists>s'. meta_window_on_all_workspaces_changed t (request_all True t s) = Some s' \<and>
        desk_with (wm_listed st) (wm_workspaces st) (wm_active st) s'"
      using that(1) request_all_with [OF that(2)]
      by (intro dk.on_all_changed_keeps) (simp_all add: request_all_def should_be_on_all_workspaces_def Let_def)
    then show ?thesis using False by (simp add: window_stick_impl_def)
  qed
  show ?thesis
    unfolding meta_window_stick_def
    by (rule dk.stick_with_keeps) (use assms step in \<open>auto simp: desk_with_def\<close>)
qed

lemma unstick_desk:
  assumes "desk_inv st" "w \<in> set (wm_listed st)"
  shows "\<exists>st'. meta_window_unstick w st = Some st' \<and> desk_with (wm_listed st) (wm_workspaces st) (wm_active st) st'"
  using assms by (intro dk.unstick_keeps) (simp_all add: desk_with_def)

section \<open>Relocating the windows of a workspace\<close>

text \<open>While windows are moved off the workspaces \<open>X\<close>: of those on one of them, the workspaces \<open>R\<close> and the
  windows \<open>E\<close> are still to be done. Unsticking brings windows to the active workspace: either that is
  not one of \<open>X\<close>, or no window sticks by request.\<close>

definition leaving ::
  "window list \<Rightarrow> workspace list \<Rightarrow> workspace option \<Rightarrow> workspace set \<Rightarrow> bool \<Rightarrow> workspace set \<Rightarrow> window set \<Rightarrow>
   workspace_manager \<Rightarrow> bool" where
  "leaving L WS A X none R E st \<longleftrightarrow> desk_with L WS A st \<and>
     (\<forall>v\<in>set L. \<forall>x\<in>X. win_workspace (wm_win st v) = Some x \<longrightarrow> x \<in> R \<or> v \<in> E) \<and> (A \<notin> Some ` X \<or> none) \<and>
     (none \<longrightarrow> (\<forall>v\<in>set L. \<not> on_all_requested (wm_win st v)))"

interpretation lv: workspace_kept "leaving L WS A X none R E" L "set WS - X" for L WS A X none R E
proof
  fix st assume "leaving L WS A X none R E st"
  then show "members_ok st \<and> parents_ok st \<and> wm_listed st = L \<and> set WS - X \<subseteq> set (wm_workspaces st)"
    by (auto simp: leaving_def desk_with_def desk_inv_def)
next
  fix st w oa tgt st'
  assume "leaving L WS A X none R E st" "w \<in> set L" "\<not> override_redirect (wm_win st w)" "target_ok st w oa tgt"
    "\<forall>x. tgt = Some x \<longrightarrow> x \<in> set WS - X" "moved w oa tgt st st'"
  then show "leaving L WS A X none R E st'"
    using dk.moves [of L WS A st w oa tgt st'] by (auto simp: leaving_def desk_with_def moved_fields)
next
  fix st w assume "leaving L WS A X none R E st"
  then show "leaving L WS A X none R E (request_all False w st)"
    using request_all_with [of L WS A st False w] by (simp add: leaving_def) (simp add: request_all_def)
next
  fix st w assume a: "leaving L WS A X none R E st" "w \<in> set L" "on_all_requested (wm_win st w)"
  then have "wm_active st = A" "A \<notin> Some ` X" "desk_inv st" "wm_workspaces st = WS"
    by (auto simp: leaving_def desk_with_def)
  then show "wm_active st \<in> Some ` (set WS - X)" by (auto elim!: desk_inv_active)
qed

lemma relocate_loop:
  assumes "leaving L WS A X none R (set xs) st" "set xs \<subseteq> set L" "x \<in> set WS - X"
  shows "\<exists>st'. fold_opt (\<lambda>w st. if on_all_workspaces (wm_win st w) then Some st
      else meta_window_change_workspace w x st) xs st = Some st' \<and> leaving L WS A X none R {} st'"
  using assms
proof (induction xs arbitrary: st)
  case (Cons w xs)
  have w: "w \<in> set L" using Cons.prems(2) by simp
  have less: "leaving L WS A X none R (set xs) s" if "leaving L WS A X none R (set (w # xs)) s"
      "\<forall>y\<in>X. win_workspace (wm_win s w) \<noteq> Some y" for s
    using that by (auto simp: leaving_def)
  have home: "at_home s w" if "leaving L WS A X none R E s" for E s
    using lv.listed_alive [OF that w] .
  show ?case
  proof (cases "on_all_workspaces (wm_win st w)")
    case True
    then have "\<forall>y\<in>X. win_workspace (wm_win st w) \<noteq> Some y"
      using home [OF Cons.prems(1)] by (auto simp: at_home_def inward_def)
    then show ?thesis using Cons True less by simp
  next
    case False
    then have nor: "\<not> override_redirect (wm_win st w)" using home [OF Cons.prems(1)] by (auto simp: at_home_def)
    obtain s1 where 1: "meta_window_change_workspace_without_transients x w st = Some s1"
      "leaving L WS A X none R (set (w # xs)) s1"
      "on_all_workspaces (wm_win s1 w) \<or> win_workspace (wm_win s1 w) = Some x"
      using lv.without_transients_keeps [OF Cons.prems(1) w Cons.prems(3)] by blast
    then have "leaving L WS A X none R (set xs) s1"
      using home [OF 1(2)] Cons.prems(3) by (intro less) (auto simp: at_home_def inward_def)
    then obtain s2 where 2: "Option.bind (foreach_transient (meta_window_change_workspace_without_transients x) w s1)
        (foreach_ancestor (meta_window_change_workspace_without_transients x) w) = Some s2"
      "leaving L WS A X none R (set xs) s2"
      using lv.family_follows [OF _ Cons.prems(3)] by blast
    then have "meta_window_change_workspace w x st = Some s2"
      using 1(1) nor by (simp add: meta_window_change_workspace_def)
    then show ?thesis using False 2(2) Cons by simp
  qed
qed simp

text \<open>Whether the windows of a workspace can leave it: it is not active, or nothing sticks by request.\<close>

definition none_requested :: "workspace_manager \<Rightarrow> bool" where
  "none_requested st \<longleftrightarrow> (\<forall>v\<in>set (wm_listed st). \<not> on_all_requested (wm_win st v))"

definition can_empty :: "workspace_manager \<Rightarrow> workspace \<Rightarrow> bool" where
  "can_empty st ws \<longleftrightarrow> wm_active st \<noteq> Some ws \<or> none_requested st"

text \<open>A workspace without windows of its own.\<close>

definition nobody_on :: "workspace \<Rightarrow> workspace_manager \<Rightarrow> bool" where
  "nobody_on ws st \<longleftrightarrow> (\<forall>v\<in>set (wm_listed st). win_workspace (wm_win st v) \<noteq> Some ws)"

lemma nobody_on_empty:
  assumes "desk_inv st" "ws \<in> set (wm_workspaces st)"
  shows "nobody_on ws st \<longleftrightarrow> assert_workspace_empty ws st"
proof -
  have h: "\<forall>v\<in>set (wm_listed st). at_home st v" and sub: "set (ws_windows (wm_of st ws)) \<subseteq> set (wm_listed st)"
    using assms by (auto simp: desk_inv_def members_ok_def lists_ok_def)
  show ?thesis
    unfolding nobody_on_def assert_workspace_empty_def list_all_iff
  proof (intro iffI ballI)
    fix v assume "\<forall>v\<in>set (wm_listed st). win_workspace (wm_win st v) \<noteq> Some ws" "v \<in> set (ws_windows (wm_of st ws))"
    then show "on_all_workspaces (wm_win st v)" using h sub assms(2) unfolding at_home_def inward_def by blast
  next
    fix v assume a: "\<forall>w\<in>set (ws_windows (wm_of st ws)). on_all_workspaces (wm_win st w)" "v \<in> set (wm_listed st)"
    show "win_workspace (wm_win st v) \<noteq> Some ws"
    proof
      assume w: "win_workspace (wm_win st v) = Some ws"
      then have "\<not> on_all_workspaces (wm_win st v)" using h a(2) by (auto simp: at_home_def inward_def)
      moreover then have "v \<in> set (ws_windows (wm_of st ws))"
        using h a(2) w assms(2) by (auto simp: at_home_def outward_def split: if_splits)
      ultimately show False using a(1) by blast
    qed
  qed
qed

lemma own_windows_listed:
  assumes "desk_inv st" "ws \<in> set (wm_workspaces st)"
  shows "set (ws_windows (wm_of st ws)) \<subseteq> set (wm_listed st)"
    and "v \<in> set (wm_listed st) \<Longrightarrow> win_workspace (wm_win st v) = Some ws \<Longrightarrow> v \<in> set (ws_windows (wm_of st ws))"
  using assms by (auto simp: desk_inv_def members_ok_def lists_ok_def at_home_def inward_def outward_def split: if_splits)

lemma relocate_leaving:
  assumes "leaving L WS A X none (insert ws R) {} st" "ws \<in> set WS \<inter> X" "x \<in> set WS - X"
  shows "\<exists>st'. meta_workspace_relocate_windows ws x st = Some st' \<and> leaving L WS A X none R {} st'"
proof -
  have i: "desk_inv st" "wm_listed st = L" "wm_workspaces st = WS"
    using assms(1) by (simp_all add: leaving_def desk_with_def)
  have ws: "ws \<in> set (wm_workspaces st)" using assms(2) i(3) by simp
  note own = own_windows_listed [OF i(1) ws]
  have "leaving L WS A X none (R - {ws}) (set (ws_windows (wm_of st ws))) st"
    using assms(1) own(2) i(2) by (auto simp: leaving_def)
  then obtain st' where st': "fold_opt (\<lambda>w st. if on_all_workspaces (wm_win st w) then Some st
      else meta_window_change_workspace w x st) (ws_windows (wm_of st ws)) st = Some st'"
    "leaving L WS A X none (R - {ws}) {} st'"
    using relocate_loop own(1) i(2) assms(3) by blast
  then have "nobody_on ws st'" "desk_inv st'" "ws \<in> set (wm_workspaces st')" "leaving L WS A X none R {} st'"
    using assms(2) by (auto simp: leaving_def desk_with_def nobody_on_def)
  moreover from this have "assert_workspace_empty ws st'" using nobody_on_empty by blast
  ultimately show ?thesis using st'(1) assms(2,3) by (auto simp: meta_workspace_relocate_windows_def)
qed

lemma leaving_nobody: "leaving L WS A X none {} {} st \<Longrightarrow> x \<in> X \<Longrightarrow> nobody_on x st"
  by (auto simp: leaving_def desk_with_def nobody_on_def)

lemma relocate_all:
  assumes "leaving L WS A X none (set xs) {} st" "set xs \<subseteq> set WS \<inter> X" "x \<in> set WS - X"
  shows "\<exists>st'. fold_opt (\<lambda>ws. meta_workspace_relocate_windows ws x) xs st = Some st' \<and> leaving L WS A X none {} {} st'"
  using assms
proof (induction xs arbitrary: st)
  case (Cons ws xs)
  then obtain s1 where "meta_workspace_relocate_windows ws x st = Some s1" "leaving L WS A X none (set xs) {} s1"
    using relocate_leaving [of L WS A X none ws "set xs" st x] by auto
  with Cons show ?case by simp
qed simp

lemma relocate_desk:
  assumes "desk_inv st" "ws \<in> set (wm_workspaces st)" "x \<in> set (wm_workspaces st)" "x \<noteq> ws" "can_empty st ws"
  shows "\<exists>st'. meta_workspace_relocate_windows ws x st = Some st' \<and>
    leaving (wm_listed st) (wm_workspaces st) (wm_active st) {ws} (none_requested st) {} {} st'"
  using assms
  by (intro relocate_leaving [of _ _ _ "{ws}"]) (auto simp: leaving_def desk_with_def can_empty_def none_requested_def)

end
