(* ===== verification/Workspace_Manage.thy ===== *)
theory Workspace_Manage
  imports Workspace_Desks "HOL-Library.Multiset"
begin

text \<open>
  Workspaces that come and go: what \<open>core/meta-workspace-manager.c\<close> does keeps the invariant.
\<close>

section \<open>Activation\<close>

lemma set_active_desk:
  assumes "desk_inv st" "ws \<in> set (wm_workspaces st)"
  shows "desk_inv (st\<lparr>wm_active := Some ws\<rparr>)"
proof -
  let ?s = "st\<lparr>wm_active := Some ws\<rparr>"
  have "same_places st ?s" by (simp add: same_places_def)
  then have "members_ok ?s" using same_places_members [of st ?s] assms by (simp add: desk_inv_def)
  moreover have "workspace_struts ?s x = workspace_struts st x" for x
    by (rule workspace_struts_cong) (auto simp: listed_struts_def)
  ultimately show ?thesis using assms(1) by (simp add: desk_inv_def coherent_def parents_ok_def)
qed

lemma activate_desk:
  assumes "desk_inv st" "ws \<in> set (wm_workspaces st)" "set_option dragged \<subseteq> set (wm_listed st)"
  shows "\<exists>st'. meta_workspace_activate dragged ws st = Some st' \<and>
    desk_with (wm_listed st) (wm_workspaces st) (Some ws) st'"
proof (cases "wm_active st = Some ws")
  case True
  then show ?thesis using assms(1,2) by (simp add: meta_workspace_activate_def desk_with_def)
next
  case False
  let ?s = "st\<lparr>wm_active := Some ws\<rparr>"
  have s: "desk_inv ?s" by (rule set_active_desk [OF assms(1,2)])
  obtain a where a: "wm_active st = Some a" by (rule desk_inv_active [OF assms(1)])
  show ?thesis
  proof (cases dragged)
    case None
    then show ?thesis using assms(2) False s a by (simp add: meta_workspace_activate_def desk_with_def Let_def)
  next
    case (Some w)
    obtain s' where "meta_window_change_workspace w ws ?s = Some s'"
      "desk_with (wm_listed ?s) (wm_workspaces ?s) (wm_active ?s) s'"
      using change_workspace_desk [OF s, of w ws] assms(2,3) Some by auto
    then show ?thesis using assms(2) False s a Some
      by (simp add: meta_workspace_activate_def desk_with_def Let_def)
  qed
qed

text \<open>Activation when the workspaces \<open>X\<close> have been left.\<close>

lemma activate_leaving:
  assumes "leaving L WS A X none {} {} st" "n \<in> set WS - X" "set_option dragged \<subseteq> set L"
  shows "\<exists>st'. meta_workspace_activate dragged n st = Some st' \<and> leaving L WS (Some n) X False {} {} st'"
proof -
  have i: "desk_inv st" "wm_listed st = L" "wm_workspaces st = WS" "wm_active st = A"
    using assms(1) by (simp_all add: leaving_def desk_with_def)
  obtain a where a: "A = Some a" using i(4) by (metis desk_inv_active [OF i(1)])
  let ?s = "st\<lparr>wm_active := Some n\<rparr>"
  have "desk_inv ?s" using set_active_desk i assms(2) by auto
  then have s: "leaving L WS (Some n) X False {} {} ?s"
    using assms(1,2) i by (auto simp: leaving_def desk_with_def)
  show ?thesis
  proof (cases "A = Some n")
    case True
    then have "leaving L WS (Some n) X False {} {} st" using assms(1,2) by (auto simp: leaving_def)
    then show ?thesis using True i assms(2) by (simp add: meta_workspace_activate_def)
  next
    case False
    show ?thesis
    proof (cases "\<exists>w. dragged = Some w \<and> \<not> located_on_ws ?s w n")
      case True
      then obtain w where w: "dragged = Some w" "\<not> located_on_ws ?s w n" "w \<in> set L" using assms(3) by auto
      then obtain s2 where "meta_window_change_workspace w n ?s = Some s2" "leaving L WS (Some n) X False {} {} s2"
        using lv.change_workspace_keeps [OF s w(3) assms(2)] by blast
      then show ?thesis using False w i a assms(2) by (simp add: meta_workspace_activate_def Let_def)
    next
      case stays: False
      then have "meta_workspace_activate dragged n st = Some ?s"
        using False i a assms(2) by (auto simp: meta_workspace_activate_def Let_def split: option.splits)
      then show ?thesis using s by blast
    qed
  qed
qed

section \<open>Removal\<close>

lemma listed_remove_workspace:
  assumes "desk_inv st" "ws \<in> set (wm_workspaces st)" "wm_active st \<noteq> Some ws" "nobody_on ws st"
  shows "meta_workspace_remove ws st = Some (st\<lparr>wm_workspaces := remove1 ws (wm_workspaces st)\<rparr>)"
    "desk_inv (st\<lparr>wm_workspaces := remove1 ws (wm_workspaces st)\<rparr>)"
proof -
  let ?s = "st\<lparr>wm_workspaces := remove1 ws (wm_workspaces st)\<rparr>"
  show "meta_workspace_remove ws st = Some ?s"
    using assms nobody_on_empty by (simp add: meta_workspace_remove_def)
  have d: "distinct (wm_workspaces st)" using assms(1) by (simp add: desk_inv_def members_ok_def lists_ok_def)
  then have wss: "set (wm_workspaces ?s) = set (wm_workspaces st) - {ws}" by simp
  have "lists_ok ?s"
    using assms(1,3) d unfolding desk_inv_def members_ok_def lists_ok_def wss by auto
  moreover have "at_home ?s v" if "v \<in> set (wm_listed st)" for v
  proof -
    have "win_workspace (wm_win st v) \<noteq> Some ws" using assms(4) that by (simp add: nobody_on_def)
    moreover have "at_home st v" using assms(1) that by (simp add: desk_inv_def members_ok_def)
    ultimately show ?thesis unfolding at_home_def inward_def outward_def wss by auto
  qed
  moreover have "workspace_struts ?s x = workspace_struts st x" for x
    by (rule workspace_struts_cong) (auto simp: listed_struts_def)
  ultimately show "desk_inv ?s"
    using assms(1) wss by (auto simp: desk_inv_def members_ok_def coherent_def parents_ok_def)
qed

lemma list_neighbour_in:
  "list_neighbour b ws xs = Some n \<Longrightarrow> ws \<in> set xs \<and> n \<in> insert (the b) (set xs) \<and> (b = None \<longrightarrow> n \<in> set xs) \<and>
     (distinct xs \<and> b \<noteq> Some ws \<longrightarrow> n \<noteq> ws)"
proof (induction b ws xs rule: list_neighbour.induct)
  case (2 b ws x xs)
  then show ?case by (auto split: if_splits option.splits list.splits)
qed simp

text \<open>Removing a workspace: its windows go to a neighbour, which becomes active if need be. Nothing
  happens to the only workspace or to one that is not listed.\<close>

lemma remove_workspace_desk:
  assumes "desk_inv st" "set_option dragged \<subseteq> set (wm_listed st)" "can_empty st ws"
  shows "\<exists>st'. meta_workspace_manager_remove_workspace dragged ws st = Some st' \<and> desk_inv st' \<and>
    wm_listed st' = wm_listed st \<and>
    (list_neighbour None ws (wm_workspaces st) = None \<longrightarrow> st' = st) \<and>
    (list_neighbour None ws (wm_workspaces st) \<noteq> None \<longrightarrow> wm_workspaces st' = remove1 ws (wm_workspaces st))"
proof (cases "list_neighbour None ws (wm_workspaces st)")
  case None
  then show ?thesis using assms(1) by (simp add: meta_workspace_manager_remove_workspace_def)
next
  case (Some n)
  have d: "distinct (wm_workspaces st)" using assms(1) by (simp add: desk_inv_def members_ok_def lists_ok_def)
  have n: "ws \<in> set (wm_workspaces st)" "n \<in> set (wm_workspaces st)" "n \<noteq> ws"
    using list_neighbour_in [OF Some] d by auto
  obtain s1 where 1: "meta_workspace_relocate_windows ws n st = Some s1"
    "leaving (wm_listed st) (wm_workspaces st) (wm_active st) {ws} (none_requested st) {} {} s1"
    using relocate_desk [OF assms(1) n assms(3)] by blast
  have l: "leaving (wm_listed st) (wm_workspaces st) (wm_active st) {ws} (none_requested st) {} {} s1"
    and act: "wm_active s1 = wm_active st"
    using 1(2) by (simp_all add: leaving_def desk_with_def)
  have "\<exists>s2. (if wm_active s1 = Some ws then meta_workspace_activate dragged n s1 else Some s1) = Some s2 \<and>
      desk_inv s2 \<and> wm_listed s2 = wm_listed st \<and> wm_workspaces s2 = wm_workspaces st \<and> wm_active s2 \<noteq> Some ws \<and>
      nobody_on ws s2"
  proof (cases "wm_active s1 = Some ws")
    case True
    obtain s2 where s2: "meta_workspace_activate dragged n s1 = Some s2"
      "leaving (wm_listed st) (wm_workspaces st) (Some n) {ws} False {} {} s2"
      using activate_leaving [OF l _ assms(2), of n] n by auto
    have "nobody_on ws s2" by (rule leaving_nobody [OF s2(2)]) simp
    then show ?thesis using True s2 n(3) by (simp add: leaving_def desk_with_def)
  next
    case False
    have "nobody_on ws s1" by (rule leaving_nobody [OF l]) simp
    then show ?thesis using False l by (simp add: leaving_def desk_with_def)
  qed
  then obtain s2 where 2: "(if wm_active s1 = Some ws then meta_workspace_activate dragged n s1 else Some s1) = Some s2"
    "desk_inv s2" "wm_listed s2 = wm_listed st" "wm_workspaces s2 = wm_workspaces st" "wm_active s2 \<noteq> Some ws"
    "nobody_on ws s2" by blast
  have ws: "ws \<in> set (wm_workspaces s2)" using n 2(4) by simp
  show ?thesis
    using Some 1(1) 2 listed_remove_workspace [OF 2(2) ws 2(5,6)]
    by (simp add: meta_workspace_manager_remove_workspace_def)
qed

section \<open>New workspaces\<close>

lemma fold_add_windows:
  assumes "distinct xs" "set xs \<inter> set (mru_list (wm_of st ws)) = {}" "ws_areas (wm_of st ws) = None"
  shows "fold_opt (\<lambda>w. meta_workspace_add_window w ws) xs st =
    Some (update_workspace ws (\<lambda>s. s\<lparr>mru_list := rev xs @ mru_list s, ws_windows := rev xs @ ws_windows s\<rparr>) st)"
  using assms
proof (induction xs arbitrary: st)
  case (Cons w xs)
  let ?s = "update_workspace ws (\<lambda>s. s\<lparr>mru_list := w # mru_list s, ws_windows := w # ws_windows s\<rparr>) st"
  have "meta_workspace_add_window w ws st = Some ?s"
    using Cons.prems(2,3)
    by (cases "wm_of st ws") (auto simp: meta_workspace_add_window_def meta_workspace_invalidate_work_area_def
        update_workspace_def Let_def)
  moreover have "fold_opt (\<lambda>w. meta_workspace_add_window w ws) xs ?s =
      Some (update_workspace ws (\<lambda>s. s\<lparr>mru_list := rev xs @ mru_list s, ws_windows := rev xs @ ws_windows s\<rparr>) ?s)"
    using Cons.prems by (intro Cons.IH) auto
  ultimately show ?case by (simp add: update_workspace_def)
qed (simp add: update_workspace_def)

lemma new_workspace_desk:
  assumes "desk_inv st"
  shows "\<exists>st'. meta_workspace_new st = Some (wm_fresh st, st') \<and> desk_inv st' \<and> wm_listed st' = wm_listed st \<and>
    wm_workspaces st' = wm_workspaces st @ [wm_fresh st] \<and> wm_active st' = wm_active st"
proof -
  let ?ws = "wm_fresh st"
  define s1 where "s1 = st\<lparr>wm_fresh := Suc ?ws, wm_workspaces := wm_workspaces st @ [?ws],
                   wm_of := (wm_of st)(?ws := empty_workspace)\<rparr>"
  define xs where "xs = filter (\<lambda>w. located_on_ws s1 w ?ws) (meta_display_list_windows s1)"
  define s2 where "s2 = update_workspace ?ws (\<lambda>s. s\<lparr>mru_list := rev xs @ mru_list s, ws_windows := rev xs @ ws_windows s\<rparr>) s1"
  have inv: "members_ok st" "parents_ok st" "coherent st" using assms by (simp_all add: desk_inv_def)
  then have dl: "distinct (wm_listed st)" and h: "\<And>v. v \<in> set (wm_listed st) \<Longrightarrow> at_home st v"
    and fresh: "?ws \<notin> set (wm_workspaces st)"
    by (auto simp: members_ok_def lists_ok_def)
  have dx: "distinct xs" using dl by (simp add: xs_def s1_def meta_display_list_windows_def)
  have "fold_opt (\<lambda>w. meta_workspace_add_window w ?ws) xs s1 = Some s2"
    unfolding s2_def by (rule fold_add_windows [OF dx]) (simp_all add: s1_def empty_workspace_def)
  then have "meta_workspace_new st = Some (?ws, s2)"
    unfolding meta_workspace_new_def Let_def s1_def [symmetric] xs_def [symmetric] by simp
  moreover have of: "wm_of s2 x = (if x = ?ws then empty_workspace\<lparr>mru_list := rev xs, ws_windows := rev xs\<rparr> else wm_of st x)" for x
    by (simp add: s2_def s1_def empty_workspace_def)
  have F: "wm_win s2 = wm_win st" "wm_listed s2 = wm_listed st" "wm_workspaces s2 = wm_workspaces st @ [?ws]"
    "wm_active s2 = wm_active st" "wm_parent s2 = wm_parent st" "wm_fresh s2 = Suc ?ws" "wm_display s2 = wm_display st"
    "wm_monitors s2 = wm_monitors st"
    by (simp_all add: s2_def s1_def)
  have xs: "v \<in> set xs \<longleftrightarrow> v \<in> set (wm_listed st) \<and> \<not> override_redirect (wm_win st v) \<and> on_all_workspaces (wm_win st v)" for v
  proof (cases "v \<in> set (wm_listed st)")
    case True
    then have "\<not> is_unmanaging (wm_win st v)" "win_workspace (wm_win st v) \<noteq> Some ?ws"
      using h [OF True] fresh by (auto simp: at_home_def inward_def)
    then show ?thesis by (auto simp: xs_def s1_def meta_display_list_windows_def)
  qed (simp add: xs_def s1_def meta_display_list_windows_def)
  have old: "wm_of s2 x = wm_of st x" if "x \<in> set (wm_workspaces st)" for x using that fresh of by auto
  have new: "ws_windows (wm_of s2 ?ws) = rev xs" "mru_list (wm_of s2 ?ws) = rev xs" by (simp_all add: of)
  have "lists_ok s2"
    unfolding lists_ok_def F
  proof (intro conjI)
    show "distinct (wm_workspaces st @ [?ws])" "\<forall>x\<in>set (wm_workspaces st @ [?ws]). x < Suc ?ws"
      "\<exists>a\<in>set (wm_workspaces st @ [?ws]). wm_active st = Some a" "distinct (wm_listed st)"
      using inv(1) fresh by (auto simp: members_ok_def lists_ok_def less_SucI)
    have "distinct (ws_windows (wm_of s2 x)) \<and> distinct (mru_list (wm_of s2 x)) \<and>
        set (mru_list (wm_of s2 x)) = set (ws_windows (wm_of s2 x)) \<and> set (ws_windows (wm_of s2 x)) \<subseteq> set (wm_listed st)"
      if "x \<in> set (wm_workspaces st)" for x
      using inv(1) that old [OF that] by (simp add: members_ok_def lists_ok_def)
    moreover have "set xs \<subseteq> set (wm_listed st)" using xs by blast
    ultimately show "\<forall>x\<in>set (wm_workspaces st @ [?ws]). distinct (ws_windows (wm_of s2 x)) \<and>
        distinct (mru_list (wm_of s2 x)) \<and> set (mru_list (wm_of s2 x)) = set (ws_windows (wm_of s2 x)) \<and>
        set (ws_windows (wm_of s2 x)) \<subseteq> set (wm_listed st)"
      using dx new by simp
  qed
  moreover have "at_home s2 v" if v: "v \<in> set (wm_listed st)" for v
  proof -
    note hv = h [OF v]
    have nf: "win_workspace (wm_win st v) \<noteq> Some ?ws" using hv fresh by (auto simp: at_home_def inward_def)
    have mem: "v \<in> set (ws_windows (wm_of s2 ?ws)) \<longleftrightarrow> \<not> override_redirect (wm_win st v) \<and> on_all_workspaces (wm_win st v)"
      using v xs [of v] by (simp add: new)
    have i: "inward s2 v" using hv mem old unfolding at_home_def inward_def F by auto
    have "outward st v \<Longrightarrow> \<not> override_redirect (wm_win st v) \<Longrightarrow> outward s2 v"
      using mem old nf unfolding outward_def F by auto
    with i hv show ?thesis unfolding at_home_def F by (simp split: if_splits)
  qed
  moreover have "coherent s2"
    unfolding coherent_def
  proof (intro ballI allI impI)
    fix x A assume x: "x \<in> set (wm_workspaces s2)" "ws_areas (wm_of s2 x) = Some A"
    then have x': "x \<in> set (wm_workspaces st)" "x \<noteq> ?ws" by (auto simp: F of empty_workspace_def split: if_splits)
    have "workspace_struts s2 x = workspace_struts st x"
      by (rule workspace_struts_cong) (use x' in \<open>auto simp: F of listed_struts_def\<close>)
    then show "compute_work_areas (wm_display s2) (wm_monitors s2) (workspace_struts s2 x) = Some A"
      using inv(3) x x' by (simp add: coherent_def F of)
  qed
  moreover have "parents_ok s2" using inv(2) by (simp add: parents_ok_def F)
  ultimately show ?thesis by (simp add: desk_inv_def members_ok_def F)
qed

lemma append_workspace_desk:
  assumes "desk_inv st" "set_option dragged \<subseteq> set (wm_listed st)"
  shows "\<exists>st'. meta_workspace_manager_append_new_workspace dragged b st = Some (wm_fresh st, st') \<and> desk_inv st' \<and>
    wm_listed st' = wm_listed st \<and> wm_workspaces st' = wm_workspaces st @ [wm_fresh st]"
proof -
  obtain s1 where 1: "meta_workspace_new st = Some (wm_fresh st, s1)" "desk_inv s1" "wm_listed s1 = wm_listed st"
    "wm_workspaces s1 = wm_workspaces st @ [wm_fresh st]"
    using new_workspace_desk [OF assms(1)] by blast
  obtain s2 where "meta_workspace_activate dragged (wm_fresh st) s1 = Some s2"
    "desk_with (wm_listed s1) (wm_workspaces s1) (Some (wm_fresh st)) s2"
    using activate_desk [OF 1(2)] 1(3,4) assms(2) by (metis in_set_conv_decomp)
  with 1 show ?thesis by (cases b) (simp_all add: meta_workspace_manager_append_new_workspace_def desk_with_def)
qed

section \<open>The number of workspaces\<close>

lemma remove_all_desk:
  assumes "desk_inv st" "distinct xs" "set xs \<subseteq> set (wm_workspaces st)" "wm_active st \<notin> Some ` set xs"
    and "\<forall>x\<in>set xs. nobody_on x st"
  shows "\<exists>st'. fold_opt meta_workspace_remove xs st = Some st' \<and> desk_inv st' \<and> wm_listed st' = wm_listed st \<and>
    wm_workspaces st' = filter (\<lambda>x. x \<notin> set xs) (wm_workspaces st)"
  using assms
proof (induction xs arbitrary: st)
  case (Cons x xs)
  let ?s = "st\<lparr>wm_workspaces := remove1 x (wm_workspaces st)\<rparr>"
  have d: "distinct (wm_workspaces st)" using Cons.prems(1) by (simp add: desk_inv_def members_ok_def lists_ok_def)
  have x: "meta_workspace_remove x st = Some ?s" "desk_inv ?s"
    using listed_remove_workspace [of st x] Cons.prems by auto
  have "\<exists>st'. fold_opt meta_workspace_remove xs ?s = Some st' \<and> desk_inv st' \<and> wm_listed st' = wm_listed ?s \<and>
      wm_workspaces st' = filter (\<lambda>x. x \<notin> set xs) (wm_workspaces ?s)"
    using Cons.prems x(2) d by (intro Cons.IH) (auto simp: nobody_on_def)
  moreover have "filter (\<lambda>x. x \<notin> set xs) (remove1 x (wm_workspaces st)) =
      filter (\<lambda>y. y \<notin> set (x # xs)) (wm_workspaces st)"
    using d by (auto simp: distinct_remove1_removeAll removeAll_filter_not_eq intro!: filter_cong)
  ultimately show ?case using x(1) by simp
qed simp

lemma new_workspaces_desk:
  assumes "desk_inv st"
  shows "\<exists>st' ys. fold_opt (\<lambda>_ st. map_option snd (meta_workspace_new st)) ns st = Some st' \<and> desk_inv st' \<and>
    wm_listed st' = wm_listed st \<and> wm_workspaces st' = wm_workspaces st @ ys \<and> length ys = length ns"
  using assms
proof (induction ns arbitrary: st)
  case (Cons n ns)
  obtain s1 where 1: "meta_workspace_new st = Some (wm_fresh st, s1)" "desk_inv s1" "wm_listed s1 = wm_listed st"
    "wm_workspaces s1 = wm_workspaces st @ [wm_fresh st]"
    using new_workspace_desk [OF Cons.prems] by blast
  then obtain s2 ys where "fold_opt (\<lambda>_ st. map_option snd (meta_workspace_new st)) ns s1 = Some s2" "desk_inv s2"
    "wm_listed s2 = wm_listed s1" "wm_workspaces s2 = wm_workspaces s1 @ ys" "length ys = length ns"
    using Cons.IH by blast
  with 1 show ?case by auto
qed simp

lemma filter_not_drop:
  assumes "distinct xs" "set ys = set (drop n xs)"
  shows "filter (\<lambda>x. x \<notin> set ys) xs = take n xs"
proof -
  have "set (take n xs) \<inter> set (drop n xs) = {}" using assms(1) by (rule set_take_disj_set_drop_if_distinct) simp
  then have "filter (\<lambda>x. x \<notin> set ys) (take n xs) = take n xs" "filter (\<lambda>x. x \<notin> set ys) (drop n xs) = []"
    unfolding assms(2) by (auto simp: filter_id_conv filter_empty_conv)
  then show ?thesis by (metis append_Nil2 append_take_drop_id filter_append)
qed

lemma update_num_desk:
  assumes "desk_inv st" "set_option dragged \<subseteq> set (wm_listed st)" "0 < n"
    and "\<forall>ws\<in>set (drop (nat n) (wm_workspaces st)). can_empty st ws"
  shows "\<exists>st'. meta_workspace_manager_update_num_workspaces dragged n st = Some st' \<and> desk_inv st' \<and>
    wm_listed st' = wm_listed st \<and> int (length (wm_workspaces st')) = n \<and>
    take (length (wm_workspaces st)) (wm_workspaces st') = take (nat n) (wm_workspaces st)"
proof (cases "int (length (wm_workspaces st)) = n")
  case True
  then show ?thesis using assms(1,3) by (auto simp: meta_workspace_manager_update_num_workspaces_def)
next
  case False
  let ?WS = "wm_workspaces st" and ?L = "wm_listed st"
  define xs where "xs = rev (drop (nat n) ?WS)"
  define home where "home = last (take (nat n) ?WS)"
  have d: "distinct ?WS" and ne: "?WS \<noteq> []"
    using assms(1) by (auto simp: desk_inv_def members_ok_def lists_ok_def)
  have xs: "set xs \<subseteq> set ?WS" "distinct xs" using d by (auto simp: xs_def dest: in_set_dropD)
  have "home \<in> set (take (nat n) ?WS)" using ne assms(3) unfolding home_def by (intro last_in_set) simp
  moreover have "set (take (nat n) ?WS) \<inter> set (drop (nat n) ?WS) = {}"
    by (rule set_take_disj_set_drop_if_distinct [OF d]) simp
  ultimately have home: "home \<in> set ?WS - set xs" by (auto simp: xs_def dest: in_set_takeD)
  have none: "wm_active st \<notin> Some ` set xs \<or> none_requested st"
    using assms(4) by (auto simp: xs_def can_empty_def)
  then have "leaving ?L ?WS (wm_active st) (set xs) (none_requested st) (set xs) {} st"
    using assms(1) by (auto simp: leaving_def desk_with_def none_requested_def)
  then obtain s1 where 1: "fold_opt (\<lambda>ws. meta_workspace_relocate_windows ws home) xs st = Some s1"
    "leaving ?L ?WS (wm_active st) (set xs) (none_requested st) {} {} s1"
    using relocate_all [OF _ _ home] xs(1) by blast
  have act: "wm_active s1 = wm_active st" using 1(2) by (simp add: leaving_def desk_with_def)
  have "\<exists>s2 A no. (if list_ex (\<lambda>ws. wm_active s1 = Some ws) xs then meta_workspace_activate dragged home s1 else Some s1)
      = Some s2 \<and> leaving ?L ?WS A (set xs) no {} {} s2 \<and> A \<notin> Some ` set xs"
  proof (cases "wm_active s1 \<in> Some ` set xs")
    case True
    then have "list_ex (\<lambda>ws. wm_active s1 = Some ws) xs" by (auto simp: list_ex_iff)
    moreover obtain s2 where "meta_workspace_activate dragged home s1 = Some s2"
      "leaving ?L ?WS (Some home) (set xs) False {} {} s2"
      using activate_leaving [OF 1(2) home assms(2)] by blast
    ultimately show ?thesis using home by auto
  next
    case False
    then have "\<not> list_ex (\<lambda>ws. wm_active s1 = Some ws) xs" by (auto simp: list_ex_iff)
    with False 1(2) act show ?thesis by auto
  qed
  then obtain s2 A no where 2: "(if list_ex (\<lambda>ws. wm_active s1 = Some ws) xs
      then meta_workspace_activate dragged home s1 else Some s1) = Some s2"
    "leaving ?L ?WS A (set xs) no {} {} s2" "A \<notin> Some ` set xs" by blast
  have i2: "desk_inv s2" "wm_listed s2 = ?L" "wm_workspaces s2 = ?WS" "wm_active s2 \<notin> Some ` set xs"
    using 2(2,3) by (simp_all add: leaving_def desk_with_def)
  have "\<forall>x\<in>set xs. nobody_on x s2" using leaving_nobody [OF 2(2)] by blast
  then obtain s3 where 3: "fold_opt meta_workspace_remove xs s2 = Some s3" "desk_inv s3" "wm_listed s3 = ?L"
    "wm_workspaces s3 = filter (\<lambda>x. x \<notin> set xs) ?WS"
    using remove_all_desk [OF i2(1) xs(2) _ i2(4)] xs(1) i2(2,3) by metis
  have kept: "wm_workspaces s3 = take (nat n) ?WS"
    using filter_not_drop [OF d, of xs "nat n"] 3(4) by (simp add: xs_def)
  obtain s4 ys where 4: "fold_opt (\<lambda>_ st. map_option snd (meta_workspace_new st)) [0..<nat n - length ?WS] s3 = Some s4"
    "desk_inv s4" "wm_listed s4 = ?L" "wm_workspaces s4 = take (nat n) ?WS @ ys" "length ys = nat n - length ?WS"
    using new_workspaces_desk [OF 3(2), of "[0..<nat n - length ?WS]"] 3(3) kept by auto
  have "meta_workspace_manager_update_num_workspaces dragged n st = Some s4"
    using False assms(3) ne 1(1) 2(1) 3(1) 4(1)
    unfolding meta_workspace_manager_update_num_workspaces_def Let_def xs_def [symmetric] home_def [symmetric]
    by simp
  moreover have "take (length ?WS) (wm_workspaces s4) = take (nat n) ?WS"
    using 4(4,5) by (cases "nat n \<le> length ?WS") simp_all
  moreover have "int (length (wm_workspaces s4)) = n" using 4(4,5) assms(3) by simp
  ultimately show ?thesis using 4(2,3) by blast
qed

section \<open>Order\<close>

lemma reorder_desk:
  assumes "desk_inv st"
  shows "desk_inv (meta_workspace_manager_reorder_workspace ws i st)"
    and "mset (wm_workspaces (meta_workspace_manager_reorder_workspace ws i st)) = mset (wm_workspaces st)"
    and "wm_listed (meta_workspace_manager_reorder_workspace ws i st) = wm_listed st"
proof -
  let ?s = "meta_workspace_manager_reorder_workspace ws i st"
  have new: "mset (insert_at k ws (remove1 ws (wm_workspaces st))) = mset (wm_workspaces st)"
    if "ws \<in> set (wm_workspaces st)" for k
  proof -
    have "mset (insert_at k ws (remove1 ws (wm_workspaces st))) = add_mset ws (mset (remove1 ws (wm_workspaces st)))"
      unfolding insert_at_def by (metis append_take_drop_id mset.simps(2) mset_append union_mset_add_mset_right)
    then show ?thesis using that by simp
  qed
  then show m: "mset (wm_workspaces ?s) = mset (wm_workspaces st)"
    by (simp add: meta_workspace_manager_reorder_workspace_def)
  show L: "wm_listed ?s = wm_listed st" by (simp add: meta_workspace_manager_reorder_workspace_def)
  have S: "set (wm_workspaces ?s) = set (wm_workspaces st)" using m by (metis set_mset_mset)
  have D: "distinct (wm_workspaces ?s) = distinct (wm_workspaces st)" using m by (metis mset_eq_imp_distinct_iff)
  have F: "wm_win ?s = wm_win st" "wm_of ?s = wm_of st" "wm_parent ?s = wm_parent st" "wm_active ?s = wm_active st"
    "wm_fresh ?s = wm_fresh st" "wm_display ?s = wm_display st" "wm_monitors ?s = wm_monitors st"
    by (simp_all add: meta_workspace_manager_reorder_workspace_def)
  have W: "workspace_struts ?s = workspace_struts st"
    by (rule ext, rule workspace_struts_cong) (auto simp: F L listed_struts_def)
  show "desk_inv ?s"
    using assms unfolding desk_inv_def members_ok_def lists_ok_def at_home_def inward_def outward_def coherent_def
      parents_ok_def F L S D W .
qed

end
