(* ===== verification/Workspace_Windows.thy ===== *)
theory Workspace_Windows
  imports Workspace_Manage
begin

text \<open>
  Windows that are constructed and unmanaged, struts and cached work areas, and the lists of most
  recently used windows.
\<close>

section \<open>Invalidating work areas\<close>

definition invalidated :: "workspace set \<Rightarrow> workspace_manager \<Rightarrow> workspace_manager" where
  "invalidated X st = st\<lparr>wm_of := (\<lambda>y. if y \<in> X then (wm_of st y)\<lparr>ws_areas := None\<rparr> else wm_of st y)\<rparr>"

lemma fold_invalidate: "fold meta_workspace_invalidate_work_area xs st = invalidated (set xs) st"
proof (induction xs arbitrary: st)
  case (Cons x xs)
  have "invalidated (set xs) (meta_workspace_invalidate_work_area x st) = invalidated (insert x (set xs)) st"
    by (auto simp: invalidated_def meta_workspace_invalidate_work_area_def update_workspace_def fun_eq_iff
        intro!: arg_cong [where f = "\<lambda>f. wm_of_update (\<lambda>_. f) st"])
  then show ?case using Cons by simp
qed (simp add: invalidated_def)

lemma invalidated_fields [simp]:
  "wm_win (invalidated X st) = wm_win st" "wm_parent (invalidated X st) = wm_parent st"
  "wm_listed (invalidated X st) = wm_listed st" "wm_workspaces (invalidated X st) = wm_workspaces st"
  "wm_active (invalidated X st) = wm_active st" "wm_fresh (invalidated X st) = wm_fresh st"
  "wm_display (invalidated X st) = wm_display st" "wm_monitors (invalidated X st) = wm_monitors st"
  "only_on_primary (invalidated X st) = only_on_primary st"
  "ws_windows (wm_of (invalidated X st) x) = ws_windows (wm_of st x)"
  "mru_list (wm_of (invalidated X st) x) = mru_list (wm_of st x)"
  "builtin_struts (wm_of (invalidated X st) x) = builtin_struts (wm_of st x)"
  "ws_areas (wm_of (invalidated X st) x) = (if x \<in> X then None else ws_areas (wm_of st x))"
  by (simp_all add: invalidated_def)

lemma strut_lists_equal_iff: "strut_lists_equal l m \<longleftrightarrow> l = m"
  by (induction l m rule: strut_lists_equal.induct) (auto simp: mtk_rectangle_equal_def)

text \<open>A change that keeps the places of the windows and only touches the caches of workspaces whose
  struts it changes.\<close>

lemma same_places_desk:
  assumes "desk_inv st" "same_places st st'" "wm_active st' = wm_active st" "wm_parent st' = wm_parent st"
    and "\<And>x A. x \<in> set (wm_workspaces st) \<Longrightarrow> ws_areas (wm_of st' x) = Some A \<Longrightarrow>
      compute_work_areas (wm_display st') (wm_monitors st') (workspace_struts st' x) = Some A"
  shows "desk_inv st'"
proof -
  obtain a where "wm_active st = Some a" "a \<in> set (wm_workspaces st)" by (rule desk_inv_active [OF assms(1)])
  then have "members_ok st'"
    using same_places_members [OF assms(2)] assms(1,3) by (simp add: desk_inv_def)
  then show ?thesis
    using assms unfolding desk_inv_def coherent_def parents_ok_def same_places_def by simp
qed

lemma invalidated_same_places: "same_places st (invalidated X st)"
  by (simp add: same_places_def)

lemma workspace_struts_invalidated: "workspace_struts (invalidated X st) x = workspace_struts st x"
  by (rule workspace_struts_cong) (auto simp: listed_struts_def)

lemma invalidated_desk: "desk_inv st \<Longrightarrow> desk_inv (invalidated X st)"
  by (rule same_places_desk [OF _ invalidated_same_places])
    (auto simp: workspace_struts_invalidated desk_inv_def coherent_def split: if_splits)

section \<open>The struts of a window\<close>

lemma get_workspaces_at_home:
  assumes "at_home st w"
  shows "meta_window_get_workspaces w st = Some (if on_all_workspaces (wm_win st w) then wm_workspaces st
      else [the (win_workspace (wm_win st w))])"
  using assms by (auto simp: meta_window_get_workspaces_def Let_def at_home_def split: option.splits if_splits)

lemma set_get_workspaces:
  assumes "meta_window_get_workspaces w st = Some xs" "x \<in> set (wm_workspaces st)"
    and "is_constructing (wm_win st w) \<or> True"
  shows "located_on_ws st w x \<longrightarrow> x \<in> set xs"
  using assms by (auto simp: meta_window_get_workspaces_def Let_def split: if_splits option.splits)

lemma update_struts_places: "same_places st (update_window w (\<lambda>v. v\<lparr>win_struts := s\<rparr>) st)"
  by (auto simp: same_places_def)

lemma update_struts_desk:
  assumes "desk_inv st" "meta_window_get_workspaces w st = Some xs"
  shows "desk_inv (invalidated (set xs) (update_window w (\<lambda>v. v\<lparr>win_struts := s\<rparr>) st))"
proof -
  let ?s = "invalidated (set xs) (update_window w (\<lambda>v. v\<lparr>win_struts := s\<rparr>) st)"
  have "same_places st ?s" by (auto simp: same_places_def)
  then show ?thesis
  proof (rule same_places_desk [OF assms(1)])
    fix x A assume x: "x \<in> set (wm_workspaces st)" "ws_areas (wm_of ?s x) = Some A"
    then have nx: "x \<notin> set xs" "ws_areas (wm_of st x) = Some A" by (auto split: if_splits)
    then have "\<not> located_on_ws st w x" using set_get_workspaces [OF assms(2) x(1)] by blast
    then have "workspace_struts ?s x = workspace_struts st x"
      by (intro workspace_struts_cong) (auto simp: listed_struts_def)
    then show "compute_work_areas (wm_display ?s) (wm_monitors ?s) (workspace_struts ?s x) = Some A"
      using assms(1) x(1) nx(2) by (simp add: desk_inv_def coherent_def)
  qed simp_all
qed

lemma meta_window_update_struts_desk:
  assumes "desk_inv st" "override_redirect (wm_win st w) \<or> meta_window_get_workspaces w st = Some xs"
  shows "\<exists>st'. meta_window_update_struts w s st = Some st' \<and> desk_inv st' \<and> same_places st st'"
proof (cases "override_redirect (wm_win st w)")
  case True
  then show ?thesis using assms(1) by (simp add: meta_window_update_struts_def same_places_refl)
next
  case False
  let ?u = "update_window w (\<lambda>v. v\<lparr>win_struts := s\<rparr>) st"
  show ?thesis
  proof (cases "win_struts (wm_win st w) = s")
    case True
    then have "?u = st" by (auto simp: update_window_def)
    then show ?thesis using True False assms(1)
      by (simp add: meta_window_update_struts_def Let_def strut_lists_equal_iff same_places_refl)
  next
    case changed: False
    have "meta_window_get_workspaces w ?u = Some xs"
      using assms(2) False
      by (cases "win_workspace (wm_win st w)"; cases "on_all_workspaces (wm_win st w)")
        (auto simp: meta_window_get_workspaces_def Let_def split: if_splits)
    then have "meta_window_update_struts w s st = Some (invalidated (set xs) ?u)"
      using False changed
      by (simp add: meta_window_update_struts_def Let_def strut_lists_equal_iff invalidate_work_areas_def fold_invalidate)
    moreover have "desk_inv (invalidated (set xs) ?u)" using update_struts_desk assms False by blast
    moreover have "same_places st (invalidated (set xs) ?u)" by (auto simp: same_places_def)
    ultimately show ?thesis by blast
  qed
qed

section \<open>The caches\<close>

lemma ensure_validated_desk:
  assumes "desk_inv st" "ws \<in> set (wm_workspaces st)" "ensure_work_areas_validated ws st = Some st'"
  shows "desk_inv st'" "same_places st st'"
    and "compute_work_areas (wm_display st) (wm_monitors st) (workspace_struts st ws) = ws_areas (wm_of st' ws)"
    and "ws_areas (wm_of st' ws) \<noteq> None"
proof -
  have "desk_inv st' \<and> same_places st st' \<and> ws_areas (wm_of st' ws) \<noteq> None \<and>
      compute_work_areas (wm_display st) (wm_monitors st) (workspace_struts st ws) = ws_areas (wm_of st' ws)"
  proof (cases "ws_areas (wm_of st ws)")
    case (Some A)
    then show ?thesis
      using assms same_places_refl by (auto simp: ensure_work_areas_validated_def desk_inv_def coherent_def)
  next
    case None
    then obtain A where A: "compute_work_areas (wm_display st) (wm_monitors st) (workspace_struts st ws) = Some A"
      "st' = update_workspace ws (\<lambda>s. s\<lparr>ws_areas := Some A\<rparr>) st"
      using assms(3) by (auto simp: ensure_work_areas_validated_def)
    have same: "same_places st st'" by (auto simp: A(2) same_places_def)
    moreover have "desk_inv st'"
    proof (rule same_places_desk [OF assms(1) same])
      fix x B assume "x \<in> set (wm_workspaces st)" "ws_areas (wm_of st' x) = Some B"
      moreover have "workspace_struts st' x = workspace_struts st x"
        by (rule workspace_struts_cong) (auto simp: A(2) listed_struts_def)
      ultimately show "compute_work_areas (wm_display st') (wm_monitors st') (workspace_struts st' x) = Some B"
        using assms(1) A by (auto simp: desk_inv_def coherent_def split: if_splits)
    qed (simp_all add: A(2))
    ultimately show ?thesis using A by simp
  qed
  then show "desk_inv st'" "same_places st st'" "ws_areas (wm_of st' ws) \<noteq> None"
    "compute_work_areas (wm_display st) (wm_monitors st) (workspace_struts st ws) = ws_areas (wm_of st' ws)" by blast+
qed

lemma builtin_struts_desk:
  assumes "desk_inv st" "meta_workspace_set_builtin_struts ws s st = Some (st', s')"
  shows "desk_inv st' \<and> same_places st st'"
proof (cases "s' = builtin_struts (wm_of st ws)")
  case True
  then show ?thesis using assms
    by (auto simp: meta_workspace_set_builtin_struts_def strut_lists_equal_iff same_places_refl)
next
  case False
  let ?b = "update_workspace ws (\<lambda>s. s\<lparr>builtin_struts := s'\<rparr>) st"
  have st': "st' = invalidated {ws} ?b"
    using assms(2) False fold_invalidate [of "[ws]" ?b]
    by (auto simp: meta_workspace_set_builtin_struts_def strut_lists_equal_iff)
  have same: "same_places st st'" by (auto simp: st' same_places_def)
  moreover have "desk_inv st'"
  proof (rule same_places_desk [OF assms(1) same])
    fix x A assume x: "x \<in> set (wm_workspaces st)" "ws_areas (wm_of st' x) = Some A"
    then have "x \<noteq> ws" by (auto simp: st' split: if_splits)
    then have "workspace_struts st' x = workspace_struts st x"
      by (intro workspace_struts_cong) (auto simp: st' listed_struts_def)
    then show "compute_work_areas (wm_display st') (wm_monitors st') (workspace_struts st' x) = Some A"
      using assms(1) x \<open>x \<noteq> ws\<close> by (auto simp: st' desk_inv_def coherent_def split: if_splits)
  qed (simp_all add: st')
  ultimately show ?thesis by blast
qed

lemma monitors_changed_desk:
  assumes "desk_inv st"
  shows "desk_inv (monitors_changed d ms p st)" "same_places st (monitors_changed d ms p st)"
proof -
  let ?s = "monitors_changed d ms p st"
  have s: "?s = invalidated (set (wm_workspaces st)) (st\<lparr>wm_display := d, wm_monitors := ms, wm_primary := p\<rparr>)"
    by (simp add: monitors_changed_def meta_workspace_manager_reload_work_areas_def fold_invalidate)
  show same: "same_places st ?s" by (simp add: s same_places_def)
  show "desk_inv ?s" by (rule same_places_desk [OF assms same]) (simp_all add: s)
qed

lemma show_desktop_desk:
  assumes "desk_inv st"
  shows "desk_inv (meta_workspace_manager_show_desktop b st)" "same_places st (meta_workspace_manager_show_desktop b st)"
proof -
  let ?s = "meta_workspace_manager_show_desktop b st"
  have F: "wm_win ?s = wm_win st" "wm_listed ?s = wm_listed st" "wm_workspaces ?s = wm_workspaces st"
    "wm_active ?s = wm_active st" "wm_parent ?s = wm_parent st" "wm_display ?s = wm_display st"
    "wm_monitors ?s = wm_monitors st" "wm_fresh ?s = wm_fresh st"
    "ws_windows (wm_of ?s x) = ws_windows (wm_of st x)" "mru_list (wm_of ?s x) = mru_list (wm_of st x)"
    "builtin_struts (wm_of ?s x) = builtin_struts (wm_of st x)" "ws_areas (wm_of ?s x) = ws_areas (wm_of st x)" for x
    by (auto simp: meta_workspace_manager_show_desktop_def split: option.splits)
  show same: "same_places st ?s" by (simp add: F same_places_def)
  have "workspace_struts ?s x = workspace_struts st x" for x
    by (rule workspace_struts_cong) (auto simp: F listed_struts_def)
  then show "desk_inv ?s"
    using assms by (intro same_places_desk [OF assms same]) (auto simp: F desk_inv_def coherent_def)
qed

section \<open>The most recently used windows\<close>

lemma most_recent_on_effect:
  assumes "distinct (mru_list (wm_of st ws))"
  shows "\<exists>mru. most_recent_on w target ws st = update_workspace ws (\<lambda>s. s\<lparr>mru_list := mru\<rparr>) st \<and>
    distinct mru \<and> set mru = set (mru_list (wm_of st ws))"
proof -
  let ?mru = "mru_list (wm_of st ws)" and ?P = "\<lambda>v. win_workspace (wm_win st v) \<noteq> None"
  let ?o = "takeWhile ?P ?mru" and ?r = "dropWhile ?P ?mru"
  have split: "?mru = ?o @ ?r" by simp
  have same: "st = update_workspace ws (\<lambda>s. s\<lparr>mru_list := ?mru\<rparr>) st" by (simp add: update_workspace_def)
  consider "w \<notin> set ?mru" | "w \<in> set ?mru" "ws = target \<or> on_all_requested (wm_win st w)"
    | "w \<in> set ?mru" "\<not> (ws = target \<or> on_all_requested (wm_win st w))"
      "\<not> on_all_workspaces (wm_win st w) \<or> ?r \<noteq> [] \<and> hd ?r = w"
    | "w \<in> set ?mru" "\<not> (ws = target \<or> on_all_requested (wm_win st w))"
      "\<not> (\<not> on_all_workspaces (wm_win st w) \<or> ?r \<noteq> [] \<and> hd ?r = w)" by blast
  then show ?thesis
  proof cases
    case 1
    then have "most_recent_on w target ws st = st" by (simp add: most_recent_on_def Let_def)
    then show ?thesis using same assms by metis
  next
    case 2
    then show ?thesis using assms by (auto simp: most_recent_on_def Let_def)
  next
    case 3
    then have "most_recent_on w target ws st = st" by (auto simp: most_recent_on_def Let_def)
    then show ?thesis using same assms by metis
  next
    case 4
    let ?new = "remove1 w ?o @ w # remove1 w ?r"
    have e: "most_recent_on w target ws st = update_workspace ws (\<lambda>s. s\<lparr>mru_list := ?new\<rparr>) st"
    proof -
      have p: "w \<in> set ?mru" "\<not> (ws = target \<or> on_all_requested (wm_win st w))"
        "on_all_workspaces (wm_win st w)" "\<not> (?r \<noteq> [] \<and> hd ?r = w)" using 4 by blast+
      show ?thesis
        unfolding most_recent_on_def Let_def
        by (simp only: p(1,3) if_not_P [OF p(2)] if_not_P [OF p(4)] not_True_eq_False if_False)
    qed
    have d: "distinct ?o" "distinct ?r" "set ?o \<inter> set ?r = {}"
      using assms split distinct_append by metis+
    then have "distinct ?new" by (auto simp: distinct_remove1)
    moreover have "set ?new = set ?mru"
    proof -
      have "set ?new = insert w (set ?o \<union> set ?r)" using d by auto
      also have "set ?o \<union> set ?r = set ?mru" by (metis set_append split)
      finally show ?thesis using 4(1) by auto
    qed
    ultimately show ?thesis using e by blast
  qed
qed

lemma make_most_recent_desk:
  assumes "desk_inv st"
  shows "desk_inv (meta_window_make_most_recent w target st)" "same_places st (meta_window_make_most_recent w target st)"
proof -
  define P where "P s \<longleftrightarrow> desk_inv s \<and> same_places st s" for s
  have "P (fold (most_recent_on w target) xs s)" if "P s" "set xs \<subseteq> set (wm_workspaces st)" for xs s
    using that
  proof (induction xs arbitrary: s)
    case (Cons x xs)
    have i: "desk_inv s" "same_places st s" and x: "x \<in> set (wm_workspaces s)"
      using Cons.prems by (auto simp: P_def same_places_def)
    have dm: "distinct (mru_list (wm_of s x))" using i(1) x by (simp add: desk_inv_def members_ok_def lists_ok_def)
    obtain mru where m: "most_recent_on w target x s = update_workspace x (\<lambda>s. s\<lparr>mru_list := mru\<rparr>) s"
      "distinct mru" "set mru = set (mru_list (wm_of s x))"
      using most_recent_on_effect [OF dm] by blast
    let ?s = "update_workspace x (\<lambda>s. s\<lparr>mru_list := mru\<rparr>) s"
    have same: "same_places s ?s" using m dm by (auto simp: same_places_def)
    have "workspace_struts ?s y = workspace_struts s y" for y
      by (rule workspace_struts_cong) (auto simp: listed_struts_def)
    then have "desk_inv ?s"
      using i(1) by (intro same_places_desk [OF i(1) same]) (auto simp: desk_inv_def coherent_def split: if_splits)
    moreover have "same_places st ?s" using i(2) same by (auto simp: same_places_def)
    ultimately show ?case using Cons.IH [of ?s] Cons.prems(2) by (simp add: m(1) P_def)
  qed simp
  then show "desk_inv (meta_window_make_most_recent w target st)" "same_places st (meta_window_make_most_recent w target st)"
    using assms same_places_refl by (auto simp: meta_window_make_most_recent_def P_def)
qed

section \<open>Sticky by type or by monitor\<close>

text \<open>A change of a window that is neither its place nor its struts.\<close>

lemma update_other_desk:
  assumes "desk_inv st"
    and "\<And>v. on_all_workspaces (f v) = on_all_workspaces v \<and> win_workspace (f v) = win_workspace v \<and>
      is_unmanaging (f v) = is_unmanaging v \<and> is_constructing (f v) = is_constructing v \<and>
      override_redirect (f v) = override_redirect v \<and> win_struts (f v) = win_struts v"
  shows "desk_inv (update_window w f st)"
proof -
  have same: "same_places st (update_window w f st)" using assms(2) by (auto simp: same_places_def)
  have "workspace_struts (update_window w f st) x = workspace_struts st x" for x
    using assms(2) by (intro workspace_struts_cong) (auto simp: listed_struts_def)
  then show ?thesis
    using assms(1) by (intro same_places_desk [OF assms(1) same]) (auto simp: desk_inv_def coherent_def)
qed

lemma always_sticky_desk:
  assumes "desk_inv st" "w \<in> set (wm_listed st)"
  shows "\<exists>st'. set_always_sticky w b st = Some st' \<and> desk_inv st' \<and> wm_listed st' = wm_listed st \<and>
    wm_workspaces st' = wm_workspaces st"
proof (cases "always_sticky (wm_win st w) = b")
  case True
  then show ?thesis using assms by (simp add: set_always_sticky_def)
next
  case False
  have "desk_inv (update_window w (\<lambda>u. u\<lparr>always_sticky := b\<rparr>) st)" by (rule update_other_desk [OF assms(1)]) simp
  from on_all_changed_desk [OF this, of w] False assms(2) show ?thesis
    by (auto simp: set_always_sticky_def desk_with_def)
qed

lemma update_monitor_desk:
  assumes "desk_inv st" "w \<in> set (wm_listed st)"
  shows "\<exists>st'. meta_window_update_monitor w off user st = Some st' \<and> desk_inv st' \<and> wm_listed st' = wm_listed st \<and>
    wm_workspaces st' = wm_workspaces st"
proof -
  have "desk_inv (update_window w (\<lambda>u. u\<lparr>off_primary := off\<rparr>) st)" by (rule update_other_desk [OF assms(1)]) simp
  from on_all_changed_desk [OF this, of w] assms(2)
  obtain s1 where 1: "meta_window_on_all_workspaces_changed w (update_window w (\<lambda>u. u\<lparr>off_primary := off\<rparr>) st) = Some s1"
    "desk_inv s1" "wm_listed s1 = wm_listed st" "wm_workspaces s1 = wm_workspaces st"
    by (auto simp: desk_with_def)
  obtain a where a: "wm_active s1 = Some a" "a \<in> set (wm_workspaces s1)" by (rule desk_inv_active [OF 1(2)])
  obtain s2 where "meta_window_change_workspace w a s1 = Some s2" "desk_with (wm_listed s1) (wm_workspaces s1) (wm_active s1) s2"
    using change_workspace_desk [OF 1(2), of w a] assms(2) a(2) 1(3) by auto
  with 1 a show ?thesis by (auto simp: meta_window_update_monitor_def desk_with_def)
qed

end
