(* ===== verification/Workspace_Life.thy ===== *)
theory Workspace_Life
  imports Workspace_Windows
begin

text \<open>
  A window from its construction, which puts it on a workspace, to the call that unmanages it, which
  takes it off every one (\<open>meta_window_constructed\<close> and \<open>meta_window_unmanage\<close> of \<open>core/window.c\<close>).
\<close>

section \<open>Construction\<close>

text \<open>The state while a window is constructed: all other windows are at home.\<close>

definition building :: "window \<Rightarrow> workspace_manager \<Rightarrow> bool" where
  "building w st \<longleftrightarrow>
     lists_ok st \<and> parents_ok st \<and> coherent st \<and> w \<in> set (wm_listed st) \<and>
     (\<forall>v\<in>set (wm_listed st) - {w}. at_home st v) \<and> inward st w \<and>
     \<not> is_unmanaging (wm_win st w) \<and> is_constructing (wm_win st w) \<and> wm_parent st w \<noteq> Some w \<and>
     (win_workspace (wm_win st w) \<noteq> None \<longrightarrow> outward st w) \<and>
     (override_redirect (wm_win st w) \<longrightarrow> on_all_workspaces (wm_win st w))"

text \<open>The states that a construction reaches from one: the same windows and workspaces.\<close>

definition builds :: "window \<Rightarrow> workspace_manager \<Rightarrow> workspace_manager \<Rightarrow> bool" where
  "builds w st st' \<longleftrightarrow> building w st' \<and> wm_listed st' = wm_listed st \<and> wm_workspaces st' = wm_workspaces st \<and>
     wm_active st' = wm_active st \<and> wm_parent st' = wm_parent st \<and>
     override_redirect (wm_win st' w) = override_redirect (wm_win st w)"

lemma building_own_lists: "lists_ok st \<Longrightarrow> \<forall>x\<in>set (wm_workspaces st). set (ws_windows (wm_of st x)) \<subseteq> set (wm_listed st)"
  by (simp add: lists_ok_def)

lemma building_moves:
  assumes "building w st" "target_ok st w oa ws" "override_redirect (wm_win st w) \<longrightarrow> oa"
  shows "\<exists>st'. set_workspace_state w oa ws st = Some st' \<and> builds w st st' \<and> outward st' w \<and>
    on_all_workspaces (wm_win st' w) = oa \<and> win_workspace (wm_win st' w) = ws"
proof -
  note b = assms(1) [unfolded building_def]
  obtain st' where s: "set_workspace_state w oa ws st = Some st'" "moved w oa ws st st'"
    by (rule set_workspace_state_moved [of st w oa ws]) (use b assms(2,3) in auto)
  note F = moved_fields [OF s(2)]
  have set: "inward st' w" "outward st' w"
    using moved_settles [OF s(2) assms(2) building_own_lists] b by blast+
  have "lists_ok st'" using moved_lists_ok [OF _ _ s(2)] b by blast
  moreover have "parents_ok st'" using moved_parents [OF _ s(2)] b by blast
  moreover have "coherent st'" using moved_coherent [OF _ s(2)] b by blast
  moreover have "\<forall>v\<in>set (wm_listed st') - {w}. at_home st' v"
    using b moved_at_home [OF s(2)] by (simp add: F)
  ultimately have "building w st'"
    unfolding building_def using set b assms(3) by (simp add: F)
  then show ?thesis using s(1) set(2) unfolding builds_def by (simp add: F)
qed

lemma request_all_builds:
  assumes "building w st"
  shows "builds w st (request_all b w st)"
proof -
  note m = assms [unfolded building_def]
  let ?s = "request_all b w st"
  have "workspace_struts ?s x = workspace_struts st x" for x
    by (rule workspace_struts_cong) (auto simp: request_all_def listed_struts_def)
  then have "coherent ?s" using m by (simp add: coherent_def) (simp add: request_all_def)
  moreover have "lists_ok ?s" "parents_ok ?s" using m by (simp_all add: request_all_def lists_ok_def parents_ok_def)
  moreover have h: "inward ?s v = inward st v" "outward ?s v = outward st v" for v
    by (auto simp: inward_def outward_def request_all_def)
  moreover have "at_home ?s v = at_home st v" for v
    unfolding at_home_def h by (auto simp: request_all_def)
  ultimately have "building w ?s" unfolding building_def using m by (simp add: h) (simp add: request_all_def)
  then show ?thesis by (simp add: builds_def) (simp add: request_all_def)
qed

lemma builds_trans: "builds w a b \<Longrightarrow> builds w b c \<Longrightarrow> builds w a c"
  by (simp add: builds_def)

lemma initial_place_builds:
  assumes "building w st"
  shows "\<exists>st'. initial_place initial w st = Some st' \<and> builds w st st'"
proof (cases initial)
  case None
  then show ?thesis using assms by (simp add: initial_place_def builds_def)
next
  case (Some i)
  have all: "\<exists>st'. set_workspace_state w True None s = Some st' \<and> builds w s st'" if "building w s" for s
    using building_moves [OF that, of True None] by (auto simp: target_ok_def)
  consider "i = -1" | "i \<noteq> -1" "on_all_workspaces (wm_win st w)"
    | "i \<noteq> -1" "\<not> on_all_workspaces (wm_win st w)" "0 \<le> i \<and> nat i < length (wm_workspaces st)"
    | "i \<noteq> -1" "\<not> on_all_workspaces (wm_win st w)" "\<not> (0 \<le> i \<and> nat i < length (wm_workspaces st))" by blast
  then show ?thesis
  proof cases
    case 1
    note r = request_all_builds [OF assms, of True]
    then have "building w (request_all True w st)" by (simp add: builds_def)
    from all [OF this] obtain st' where "set_workspace_state w True None (request_all True w st) = Some st'"
      "builds w (request_all True w st) st'" by blast
    then show ?thesis using 1 Some builds_trans [OF r] by (auto simp: initial_place_def)
  next
    case 2
    then show ?thesis using Some all [OF assms] by (simp add: initial_place_def)
  next
    case 3
    have "\<not> override_redirect (wm_win st w)" using assms 3(2) by (auto simp: building_def)
    then have "\<exists>st'. set_workspace_state w False (Some (wm_workspaces st ! nat i)) st = Some st' \<and> builds w st st'"
      using building_moves [OF assms, of False "Some (wm_workspaces st ! nat i)"] 3(3)
      by (auto simp: target_ok_def)
    then show ?thesis using 3 Some by (simp add: initial_place_def)
  next
    case 4
    then show ?thesis using Some assms by (auto simp: initial_place_def builds_def)
  qed
qed

text \<open>Once the window has a place, the rest of the construction keeps the invariant.\<close>

definition built :: "window \<Rightarrow> workspace_manager \<Rightarrow> workspace_manager" where
  "built w st = update_window w (\<lambda>u. u\<lparr>is_constructing := False\<rparr>) st"

lemma built_desk:
  assumes "building w st" "override_redirect (wm_win st w) \<or> outward st w \<and>
      (on_all_workspaces (wm_win st w) \<or> win_workspace (wm_win st w) \<noteq> None)"
  shows "desk_inv (built w st)"
proof -
  note m = assms(1) [unfolded building_def]
  let ?s = "built w st"
  have "workspace_struts ?s x = workspace_struts st x" for x
    by (rule workspace_struts_cong) (auto simp: built_def listed_struts_def)
  then have "coherent ?s" using m by (simp add: coherent_def) (simp add: built_def)
  moreover have "lists_ok ?s" "parents_ok ?s" using m by (simp_all add: built_def lists_ok_def parents_ok_def)
  moreover have h: "inward ?s v = inward st v" "outward ?s v = outward st v" for v
    by (auto simp: inward_def outward_def built_def)
  moreover have "at_home ?s v" if "v \<in> set (wm_listed st)" for v
  proof (cases "v = w")
    case True
    then show ?thesis unfolding at_home_def h using m assms(2) by (auto simp: built_def)
  next
    case False
    then have "at_home st v" using m that by blast
    with False show ?thesis unfolding at_home_def h by (auto simp: built_def)
  qed
  moreover have "wm_listed ?s = wm_listed st" by (simp add: built_def)
  ultimately show ?thesis by (simp add: desk_inv_def members_ok_def)
qed

lemma invalidated_built: "invalidated X (built w st) = built w (invalidated X st)"
  by (rule workspace_manager.equality) (simp_all add: invalidated_def built_def cong: if_cong)

lemma update_struts_built:
  assumes "on_all_workspaces (wm_win st w) \<or> win_workspace (wm_win st w) \<noteq> None"
  shows "meta_window_update_struts w s (built w st) = map_option (built w) (meta_window_update_struts w s st)"
proof -
  have u: "update_window w (\<lambda>v. v\<lparr>win_struts := s\<rparr>) (built w st) = built w (update_window w (\<lambda>v. v\<lparr>win_struts := s\<rparr>) st)"
    by (rule workspace_manager.equality) (auto simp: built_def fun_eq_iff intro!: member_window.equality)
  have g: "meta_window_get_workspaces w (built w t) = meta_window_get_workspaces w t"
    if "on_all_workspaces (wm_win t w) \<or> win_workspace (wm_win t w) \<noteq> None" for t
    using that by (auto simp: meta_window_get_workspaces_def built_def Let_def split: option.splits)
  have i: "invalidate_work_areas w (built w t) = map_option (built w) (invalidate_work_areas w t)"
    if "on_all_workspaces (wm_win t w) \<or> win_workspace (wm_win t w) \<noteq> None" for t
    using g [OF that] by (cases "meta_window_get_workspaces w t")
      (simp_all add: invalidate_work_areas_def fold_invalidate invalidated_built)
  have f: "override_redirect (wm_win (built w st) w) = override_redirect (wm_win st w)"
    "win_struts (wm_win (built w st) w) = win_struts (wm_win st w)" by (simp_all add: built_def)
  show ?thesis
    unfolding meta_window_update_struts_def Let_def u f using i assms by simp
qed

lemma default_place_builds:
  assumes "building w st"
  shows "\<exists>st'. map_option (built w) (default_place struts w st) = Some st' \<and> desk_inv st' \<and>
    wm_listed st' = wm_listed st \<and> wm_workspaces st' = wm_workspaces st"
proof -
  note m = assms [unfolded building_def]
  let ?win = "wm_win st w"
  show ?thesis
  proof (cases "\<not> override_redirect ?win \<and> win_workspace ?win = None")
    case False
    then have "desk_inv (built w st)" using m by (intro built_desk [OF assms]) auto
    moreover have "default_place struts w st = Some st"
      unfolding default_place_def if_not_P [OF False] by (rule refl)
    ultimately show ?thesis by (simp add: built_def)
  next
    case True
    obtain a where a: "wm_active st = Some a" "a \<in> set (wm_workspaces st)" using m by (auto simp: lists_ok_def)
    define oa where "oa = (case wm_parent st w of Some p \<Rightarrow> on_all_workspaces (wm_win st p)
        | None \<Rightarrow> on_all_workspaces ?win)"
    define ws where "ws = (case wm_parent st w of Some p \<Rightarrow> win_workspace (wm_win st p)
        | None \<Rightarrow> if on_all_workspaces ?win then None else wm_active st)"
    have "target_ok st w oa ws \<and> (oa \<or> ws \<noteq> None)"
    proof (cases "wm_parent st w")
      case None
      then show ?thesis using a by (auto simp: oa_def ws_def target_ok_def)
    next
      case (Some p)
      then have "at_home st p" using m by (auto simp: parents_ok_def)
      then show ?thesis using Some
        by (auto simp: oa_def ws_def target_ok_def at_home_def inward_def split: if_splits)
    qed
    with building_moves [OF assms, of oa ws] True obtain s1 where
      1: "set_workspace_state w oa ws st = Some s1" "builds w st s1" "outward s1 w"
        "on_all_workspaces (wm_win s1 w) \<or> win_workspace (wm_win s1 w) \<noteq> None" by auto
    then have d: "desk_inv (built w s1)" by (intro built_desk) (auto simp: builds_def)
    have f: "wm_listed (built w s1) = wm_listed st" "wm_workspaces (built w s1) = wm_workspaces st"
      using 1(2) by (simp_all add: built_def builds_def)
    have "at_home (built w s1) w" using d 1(2) f(1) by (auto simp: desk_inv_def members_ok_def builds_def building_def)
    from meta_window_update_struts_desk [OF d disjI2 [OF get_workspaces_at_home [OF this]]]
    obtain s2 where 2: "meta_window_update_struts w struts (built w s1) = Some s2" "desk_inv s2" "same_places (built w s1) s2"
      by blast
    have e: "default_place struts w st = meta_window_update_struts w struts s1"
    proof -
      have "(case wm_parent st w of
             Some p \<Rightarrow> set_workspace_state w (on_all_workspaces (wm_win st p)) (win_workspace (wm_win st p)) st
           | None \<Rightarrow> if on_all_workspaces (wm_win st w) then set_workspace_state w True None st
                     else set_workspace_state w False (wm_active st) st) = set_workspace_state w oa ws st"
        by (auto simp: oa_def ws_def split: option.splits)
      then show ?thesis using True by (simp add: default_place_def 1(1))
    qed
    show ?thesis using 2 f unfolding e update_struts_built [OF 1(4), symmetric] by (simp add: same_places_def)
  qed
qed

text \<open>A new number in the rank of the parents: above that of its own parent, and no window has it as a
  parent.\<close>

lemma parents_new:
  assumes "parents_ok st" "w \<notin> set (wm_listed st)" "set_option parent \<subseteq> set (wm_listed st)"
    and "wm_parent st' = (wm_parent st)(w := parent)" "set (wm_listed st') = insert w (set (wm_listed st))"
  shows "parents_ok st'"
proof -
  obtain rank :: "window \<Rightarrow> nat" where r: "\<And>w p. wm_parent st w = Some p \<Longrightarrow> rank p < rank w"
    and l: "\<And>w p. wm_parent st w = Some p \<Longrightarrow> w \<in> set (wm_listed st) \<and> p \<in> set (wm_listed st)"
    using assms(1) by (auto simp: parents_ok_def)
  let ?r = "rank(w := (case parent of None \<Rightarrow> 0 | Some p \<Rightarrow> Suc (rank p)))"
  have "?r p < ?r v" if "wm_parent st' v = Some p" for v p
  proof (cases "v = w")
    case True
    then show ?thesis using that assms(2-4) by auto
  next
    case False
    then have "wm_parent st v = Some p" using that assms(4) by simp
    with False show ?thesis using r l [of v p] assms(2) by auto
  qed
  moreover have "v \<in> set (wm_listed st') \<and> p \<in> set (wm_listed st')" if "wm_parent st' v = Some p" for v p
    using that assms(3,4,5) l by (auto split: if_splits)
  ultimately show ?thesis unfolding parents_ok_def by blast
qed

text \<open>The state in which a construction starts.\<close>

definition started ::
  "window \<Rightarrow> member_window \<Rightarrow> window option \<Rightarrow> workspace_manager \<Rightarrow> workspace_manager" where
  "started w v parent st =
     (let st1 = (update_window w (\<lambda>_. new_member v) st)\<lparr>
                  wm_parent := (wm_parent st)(w := parent), wm_listed := insort w (wm_listed st)\<rparr>;
          st2 = (if win_type v = META_WINDOW_DESKTOP \<or> win_type v = META_WINDOW_DOCK
                 then request_all True w st1 else st1)
      in update_window w (\<lambda>u. u\<lparr>on_all_workspaces := should_be_on_all_workspaces w st2\<rparr>) st2)"

lemma started_fields:
  "wm_parent (started w v parent st) = (wm_parent st)(w := parent)"
  "wm_listed (started w v parent st) = insort w (wm_listed st)"
  "wm_workspaces (started w v parent st) = wm_workspaces st" "wm_active (started w v parent st) = wm_active st"
  "wm_fresh (started w v parent st) = wm_fresh st" "wm_display (started w v parent st) = wm_display st"
  "wm_monitors (started w v parent st) = wm_monitors st" "wm_of (started w v parent st) = wm_of st"
  "u \<noteq> w \<Longrightarrow> wm_win (started w v parent st) u = wm_win st u"
  "win_workspace (wm_win (started w v parent st) w) = None" "win_struts (wm_win (started w v parent st) w) = []"
  "is_unmanaging (wm_win (started w v parent st) w) = False" "is_constructing (wm_win (started w v parent st) w) = True"
  "override_redirect (wm_win (started w v parent st) w) = override_redirect v"
  by (simp_all add: started_def Let_def request_all_def new_member_def)

lemma started_on_all: "override_redirect v \<Longrightarrow> on_all_workspaces (wm_win (started w v parent st) w)"
  by (simp add: started_def Let_def request_all_def new_member_def should_be_on_all_workspaces_def)

lemma concat_map_insort_nil: "f w = [] \<Longrightarrow> concat (map f (rev (insort w xs))) = concat (map f (rev xs))"
  by (induction xs) auto

lemma started_building:
  assumes "desk_inv st" "w \<notin> set (wm_listed st)" "set_option parent \<subseteq> set (wm_listed st)"
  shows "building w (started w v parent st)"
proof -
  let ?s = "started w v parent st"
  note F = started_fields [where w = w and v = v and parent = parent and st = st]
  have mem: "members_ok st" "parents_ok st" "coherent st" using assms(1) by (simp_all add: desk_inv_def)
  then have L: "lists_ok st" by (simp add: members_ok_def)
  have "lists_ok ?s" using L assms(2) by (auto simp: lists_ok_def F set_insort_key distinct_insort)
  moreover have "parents_ok ?s"
    by (rule parents_new [OF mem(2) assms(2,3)]) (simp_all add: F set_insort_key)
  moreover have "coherent ?s"
  proof (rule coherent_cong [OF mem(3)])
    fix x
    have same: "listed_struts ?s x u = listed_struts st x u" if "u \<noteq> w" for u
      using that by (simp add: listed_struts_def F)
    have m: "map (listed_struts ?s x) (rev (wm_listed st)) = map (listed_struts st x) (rev (wm_listed st))"
    proof (rule map_cong [OF refl])
      fix u assume "u \<in> set (rev (wm_listed st))"
      then have "u \<noteq> w" using assms(2) by auto
      then show "listed_struts ?s x u = listed_struts st x u" by (rule same)
    qed
    have "listed_struts ?s x w = []" by (simp add: listed_struts_def F)
    then have "workspace_struts ?s x = workspace_struts st x"
      by (simp add: workspace_struts_alt F concat_map_insort_nil m)
    then show "ws_areas (wm_of ?s x) = ws_areas (wm_of st x) \<and> workspace_struts ?s x = workspace_struts st x"
      by (simp add: F)
  qed (simp_all add: F)
  moreover have "\<forall>u\<in>set (wm_listed ?s) - {w}. at_home ?s u"
    using mem(1) by (auto simp: F set_insort_key members_ok_def at_home_def inward_def outward_def)
  moreover have "inward ?s w"
    using L assms(2) by (auto simp: inward_def F lists_ok_def)
  moreover have "wm_parent ?s w \<noteq> Some w" using assms(2,3) by (auto simp: F)
  ultimately show ?thesis
    using started_on_all [of v w parent st] by (simp add: building_def F set_insort_key)
qed

lemma construct_desk:
  assumes "desk_inv st" "w \<notin> set (wm_listed st)" "set_option parent \<subseteq> set (wm_listed st)"
  shows "\<exists>st'. meta_window_construct w v parent initial struts st = Some st' \<and> desk_inv st' \<and>
    set (wm_listed st') = insert w (set (wm_listed st)) \<and> wm_workspaces st' = wm_workspaces st"
proof -
  note b = started_building [OF assms, of v]
  obtain s1 where 1: "initial_place initial w (started w v parent st) = Some s1" "builds w (started w v parent st) s1"
    using initial_place_builds [OF b] by blast
  then have "building w s1" by (simp add: builds_def)
  from default_place_builds [OF this, of struts] obtain s2 where
    2: "map_option (built w) (default_place struts w s1) = Some s2" "desk_inv s2"
      "wm_listed s2 = wm_listed s1" "wm_workspaces s2 = wm_workspaces s1" by blast
  have "meta_window_construct w v parent initial struts st = Some s2"
    using 1(1) 2(1) by (simp add: meta_window_construct_def started_def Let_def built_def [abs_def])
  then show ?thesis using 2 1(2) by (simp add: builds_def started_fields set_insort_key)
qed

end
