(* ===== verification/Workspace_Unmanage.thy ===== *)
theory Workspace_Unmanage
  imports Workspace_Life
begin

text \<open>
  Unmanaging a window: whatever workspaces it is on forget it, and the work areas that its struts
  shaped are computed anew.
\<close>

text \<open>The state while a window leaves. Its struts stop to count with the flag \<open>unmanaging\<close>, and the caches
  follow when they are invalidated; until then they are right for the window as it was.\<close>

definition alive :: "window \<Rightarrow> workspace_manager \<Rightarrow> workspace_manager" where
  "alive w st = update_window w (\<lambda>u. u\<lparr>is_unmanaging := False\<rparr>) st"

definition parting :: "window \<Rightarrow> workspace_manager \<Rightarrow> bool" where
  "parting w st \<longleftrightarrow>
     lists_ok st \<and> parents_ok st \<and> coherent (alive w st) \<and> w \<in> set (wm_listed st) \<and>
     (\<forall>v\<in>set (wm_listed st) - {w}. at_home st v) \<and> inward st w \<and> is_unmanaging (wm_win st w) \<and>
     \<not> is_constructing (wm_win st w) \<and>
     (if override_redirect (wm_win st w) then on_all_workspaces (wm_win st w)
      else outward st w \<and> (on_all_workspaces (wm_win st w) \<or> win_workspace (wm_win st w) \<noteq> None))"

definition parts :: "window \<Rightarrow> workspace_manager \<Rightarrow> workspace_manager \<Rightarrow> bool" where
  "parts w st st' \<longleftrightarrow> parting w st' \<and> wm_listed st' = wm_listed st \<and> wm_workspaces st' = wm_workspaces st \<and>
     wm_active st' = wm_active st \<and> wm_parent st' = wm_parent st"

lemma alive_fields [simp]:
  "wm_of (alive w st) = wm_of st" "wm_parent (alive w st) = wm_parent st" "wm_listed (alive w st) = wm_listed st"
  "wm_workspaces (alive w st) = wm_workspaces st" "wm_display (alive w st) = wm_display st"
  "wm_monitors (alive w st) = wm_monitors st"
  "wm_win (alive w st) = (wm_win st)(w := (wm_win st w)\<lparr>is_unmanaging := False\<rparr>)"
  by (simp_all add: alive_def)

lemma moved_alive:
  assumes "moved w oa ws st st'"
  shows "moved w oa ws (alive w st) (alive w st')"
proof -
  have "alive w st' = (alive w st)\<lparr>wm_win := (wm_win (alive w st))
      (w := (wm_win (alive w st) w)\<lparr>on_all_workspaces := oa, win_workspace := ws\<rparr>), wm_of := wm_of (alive w st')\<rparr>"
    by (rule workspace_manager.equality)
      (auto simp: moved_fields [OF assms] alive_def fun_eq_iff intro!: member_window.equality)
  then show ?thesis using assms unfolding moved_def by simp
qed

lemma parting_moves:
  assumes "parting w st" "target_ok st w oa ws" "oa \<noteq> on_all_workspaces (wm_win st w)" "oa \<or> ws \<noteq> None"
    and "\<not> override_redirect (wm_win st w)"
  shows "\<exists>st'. set_workspace_state w oa ws st = Some st' \<and> parts w st st'"
proof -
  note b = assms(1) [unfolded parting_def]
  obtain st' where s: "set_workspace_state w oa ws st = Some st'" "moved w oa ws st st'"
    by (rule set_workspace_state_moved [of st w oa ws]) (use b assms(2,3,5) in auto)
  note F = moved_fields [OF s(2)]
  have set: "inward st' w" "outward st' w"
    using moved_settles [OF s(2) assms(2) building_own_lists] b by blast+
  have "lists_ok st'" using moved_lists_ok [OF _ _ s(2)] b by blast
  moreover have "parents_ok st'" using moved_parents [OF _ s(2)] b by blast
  moreover have "coherent (alive w st')" using moved_coherent [OF _ moved_alive [OF s(2)]] b by blast
  moreover have "\<forall>v\<in>set (wm_listed st') - {w}. at_home st' v"
    using b moved_at_home [OF s(2)] by (simp add: F)
  ultimately have "parting w st'" unfolding parting_def using set b assms(4,5) by (simp add: F)
  then show ?thesis using s(1) unfolding parts_def by (simp add: F)
qed

text \<open>The parting of a window that was at home starts.\<close>

definition parting_start :: "window \<Rightarrow> workspace_manager \<Rightarrow> workspace_manager" where
  "parting_start w st = update_window w (\<lambda>u. u\<lparr>is_unmanaging := True\<rparr>) st"

lemma parting_starts:
  assumes "desk_inv st" "w \<in> set (wm_listed st)"
  shows "parts w st (parting_start w st)"
proof -
  let ?s = "parting_start w st"
  have h: "inward ?s v = inward st v" "outward ?s v = outward st v" for v
    by (auto simp: inward_def outward_def parting_start_def)
  have m: "lists_ok st" "parents_ok st" "coherent st" "\<And>v. v \<in> set (wm_listed st) \<Longrightarrow> at_home st v"
    using assms(1) by (simp_all add: desk_inv_def members_ok_def)
  have w: "at_home st w" by (rule m(4) [OF assms(2)])
  have "is_unmanaging (wm_win st w) = False" using w by (simp add: at_home_def)
  then have "(wm_win st w)\<lparr>is_unmanaging := False\<rparr> = wm_win st w" by (intro member_window.equality) simp_all
  then have "alive w ?s = st"
    by (intro workspace_manager.equality) (simp_all add: alive_def parting_start_def fun_upd_idem)
  moreover have "lists_ok ?s" "parents_ok ?s"
    using m(1,2) by (simp_all add: parting_start_def lists_ok_def parents_ok_def)
  moreover have "at_home ?s v" if "v \<in> set (wm_listed st)" "v \<noteq> w" for v
    using m(4) [OF that(1)] that(2) unfolding at_home_def h by (auto simp: parting_start_def)
  moreover have "inward ?s w" "\<not> is_constructing (wm_win ?s w)"
    "if override_redirect (wm_win ?s w) then on_all_workspaces (wm_win ?s w)
      else outward ?s w \<and> (on_all_workspaces (wm_win ?s w) \<or> win_workspace (wm_win ?s w) \<noteq> None)"
    using w unfolding at_home_def h by (auto simp: parting_start_def)
  ultimately show ?thesis unfolding parts_def parting_def
    using m(3) assms(2) by (simp add: parting_start_def)
qed

lemma parting_on_all_changed:
  assumes "parting w st"
  shows "\<exists>st'. meta_window_on_all_workspaces_changed w st = Some st' \<and> parts w st st'"
proof (cases "on_all_workspaces (wm_win st w) = should_be_on_all_workspaces w st")
  case True
  then show ?thesis using assms by (simp add: meta_window_on_all_workspaces_changed_def parts_def)
next
  case False
  let ?oa = "should_be_on_all_workspaces w st" and ?ws = "if should_be_on_all_workspaces w st then None else wm_active st"
  have nor: "\<not> override_redirect (wm_win st w)"
    using False assms by (auto simp: parting_def should_be_on_all_workspaces_def Let_def)
  have "target_ok st w ?oa ?ws" "?oa \<or> ?ws \<noteq> None"
    using assms by (auto simp: target_ok_def parting_def lists_ok_def)
  with parting_moves [OF assms _ _ _ nor, of ?oa ?ws] False show ?thesis
    by (auto simp: meta_window_on_all_workspaces_changed_def Let_def)
qed

lemma update_struts_coherent:
  assumes "coherent st" "meta_window_get_workspaces w st = Some xs"
  shows "coherent (invalidated (set xs) (update_window w (\<lambda>v. v\<lparr>win_struts := s\<rparr>) st))"
proof (rule coherent_cong [OF assms(1)])
  let ?s = "invalidated (set xs) (update_window w (\<lambda>v. v\<lparr>win_struts := s\<rparr>) st)"
  fix x assume x: "x \<in> set (wm_workspaces st)" "ws_areas (wm_of ?s x) \<noteq> None"
  then have nx: "x \<notin> set xs" by (auto split: if_splits)
  then have "\<not> located_on_ws st w x" using set_get_workspaces [OF assms(2) x(1)] by blast
  then have "workspace_struts ?s x = workspace_struts st x"
    by (intro workspace_struts_cong) (auto simp: listed_struts_def)
  with nx show "ws_areas (wm_of ?s x) = ws_areas (wm_of st x) \<and> workspace_struts ?s x = workspace_struts st x" by simp
qed simp_all

lemma parting_struts_cleared:
  assumes "parting w st"
  shows "\<exists>st'. (if win_struts (wm_win st w) \<noteq> []
      then invalidate_work_areas w (update_window w (\<lambda>u. u\<lparr>win_struts := []\<rparr>) st) else Some st) = Some st' \<and>
    parts w st st' \<and> win_struts (wm_win st' w) = []"
proof (cases "win_struts (wm_win st w) = []")
  case True
  then show ?thesis using assms by (simp add: parts_def)
next
  case False
  note m = assms [unfolded parting_def]
  let ?u = "update_window w (\<lambda>u. u\<lparr>win_struts := []\<rparr>) st"
  have "on_all_workspaces (wm_win st w) \<or> win_workspace (wm_win st w) \<noteq> None" using m by presburger
  then obtain xs where xs: "meta_window_get_workspaces w (alive w st) = Some xs" "meta_window_get_workspaces w ?u = Some xs"
    by (cases "on_all_workspaces (wm_win st w)") (auto simp: meta_window_get_workspaces_def Let_def)
  let ?s = "invalidated (set xs) ?u"
  have e: "invalidate_work_areas w ?u = Some ?s" by (simp add: invalidate_work_areas_def xs(2) fold_invalidate)
  have a: "alive w ?s = invalidated (set xs) (update_window w (\<lambda>u. u\<lparr>win_struts := []\<rparr>) (alive w st))"
    by (rule workspace_manager.equality)
      (auto simp: alive_def invalidated_def fun_eq_iff intro!: member_window.equality)
  have "coherent (alive w ?s)" unfolding a using update_struts_coherent xs(1) m by blast
  moreover have h: "inward ?s v = inward st v" "outward ?s v = outward st v" for v
    by (auto simp: inward_def outward_def)
  moreover have "lists_ok ?s" "parents_ok ?s" using m by (simp_all add: lists_ok_def parents_ok_def)
  moreover have "at_home ?s v" if "v \<in> set (wm_listed st) - {w}" for v
  proof -
    have "at_home st v" using m that by blast
    then show ?thesis using that unfolding at_home_def h by auto
  qed
  ultimately have "parting w ?s" unfolding parting_def h using m by (auto split: if_splits)
  then show ?thesis using False e by (simp add: parts_def)
qed

lemma alive_coherent:
  assumes "coherent (alive w st)" "win_struts (wm_win st w) = []"
  shows "coherent st"
proof (rule coherent_cong [OF assms(1)])
  fix x
  have "workspace_struts st x = workspace_struts (alive w st) x"
    using assms(2) by (intro workspace_struts_cong) (auto simp: listed_struts_def)
  then show "ws_areas (wm_of st x) = ws_areas (wm_of (alive w st) x) \<and> workspace_struts st x = workspace_struts (alive w st) x"
    by simp
qed simp_all

lemma concat_map_remove_nil: "f w = [] \<Longrightarrow> concat (map f (rev (remove1 w xs))) = concat (map f (rev xs))"
  by (induction xs) auto

lemma unlisted_desk:
  assumes "lists_ok st" "parents_ok st" "coherent st" "\<forall>v\<in>set (wm_listed st) - {w}. at_home st v"
    and "\<forall>x\<in>set (wm_workspaces st). w \<notin> set (ws_windows (wm_of st x))" "win_struts (wm_win st w) = []"
    and "\<forall>v. wm_parent st v \<noteq> Some w"
  shows "desk_inv (st\<lparr>wm_listed := remove1 w (wm_listed st), wm_parent := (wm_parent st)(w := None)\<rparr>)"
proof -
  let ?s = "st\<lparr>wm_listed := remove1 w (wm_listed st), wm_parent := (wm_parent st)(w := None)\<rparr>"
  have d: "set (remove1 w (wm_listed st)) = set (wm_listed st) - {w}" using assms(1) by (simp add: lists_ok_def)
  have "lists_ok ?s" using assms(1,5) d by (auto simp: lists_ok_def distinct_remove1)
  moreover have "at_home ?s v" if "v \<in> set (wm_listed ?s)" for v
  proof -
    have "at_home st v" using assms(4) that d by simp
    moreover have "inward ?s v = inward st v" "outward ?s v = outward st v" by (simp_all add: inward_def outward_def)
    ultimately show ?thesis unfolding at_home_def by auto
  qed
  moreover have "parents_ok ?s"
  proof -
    obtain rank :: "window \<Rightarrow> nat" where r: "\<forall>w p. wm_parent st w = Some p \<longrightarrow> rank p < rank w"
      using assms(2) by (auto simp: parents_ok_def)
    have "\<forall>v p. wm_parent ?s v = Some p \<longrightarrow> rank p < rank v" using r by simp
    moreover have "\<forall>v p. wm_parent ?s v = Some p \<longrightarrow> v \<in> set (wm_listed ?s) \<and> p \<in> set (wm_listed ?s)"
      using assms(2,7) d by (auto simp: parents_ok_def split: if_splits)
    ultimately show ?thesis unfolding parents_ok_def by blast
  qed
  moreover have "coherent ?s"
  proof (rule coherent_cong [OF assms(3)])
    fix x
    have l: "listed_struts ?s x = listed_struts st x" by (simp add: fun_eq_iff listed_struts_def)
    have "listed_struts st x w = []" using assms(6) by (simp add: listed_struts_def)
    then have "workspace_struts ?s x = workspace_struts st x"
      by (simp add: workspace_struts_alt l concat_map_remove_nil)
    then show "ws_areas (wm_of ?s x) = ws_areas (wm_of st x) \<and> workspace_struts ?s x = workspace_struts st x" by simp
  qed simp_all
  ultimately show ?thesis by (simp add: desk_inv_def members_ok_def)
qed

lemma unmanage_desk:
  assumes "desk_inv st" "w \<in> set (wm_listed st)" "\<forall>v. wm_parent st v \<noteq> Some w"
  shows "\<exists>st'. meta_window_unmanage w st = Some st' \<and> desk_inv st' \<and>
    wm_listed st' = remove1 w (wm_listed st) \<and> wm_workspaces st' = wm_workspaces st \<and>
    (\<forall>x\<in>set (wm_workspaces st). w \<notin> set (ws_windows (wm_of st' x)) \<and> w \<notin> set (mru_list (wm_of st' x)))"
proof -
  let ?s1 = "parting_start w st"
  note p1 = parting_starts [OF assms(1,2)]
  then have "parting w ?s1" by (simp add: parts_def)
  then obtain s2 where 2: "(if only_on_primary ?s1 then meta_window_on_all_workspaces_changed w ?s1 else Some ?s1) = Some s2"
    "parts w ?s1 s2"
    using parting_on_all_changed [of w ?s1] by (cases "only_on_primary ?s1") (auto simp: parts_def)
  then have "parting w s2" by (simp add: parts_def)
  from parting_struts_cleared [OF this] obtain s3 where
    3: "(if win_struts (wm_win s2 w) \<noteq> []
      then invalidate_work_areas w (update_window w (\<lambda>u. u\<lparr>win_struts := []\<rparr>) s2) else Some s2) = Some s3"
    "parts w s2 s3" "win_struts (wm_win s3 w) = []" by blast
  have m: "parting w s3" using 3(2) by (simp add: parts_def)
  note m' = m [unfolded parting_def]
  have f3: "wm_listed s3 = wm_listed st" "wm_workspaces s3 = wm_workspaces st" "wm_parent s3 = wm_parent st"
    using p1 2(2) 3(2) by (simp_all add: parts_def)
  have t: "target_ok s3 w False None" using m' by (simp add: target_ok_def)
  have o: "outward s3 w \<or> False \<noteq> on_all_workspaces (wm_win s3 w)"
    using m' by (cases "override_redirect (wm_win s3 w)") simp_all
  obtain s4 where 4: "set_workspace_state w False None s3 = Some s4" "moved w False None s3 s4"
    by (rule set_workspace_state_moved [of s3 w False None]) (use m' t o in blast)+
  note F = moved_fields [OF 4(2)]
  have gone: "w \<notin> set (ws_windows (wm_of s4 x)) \<and> w \<notin> set (mru_list (wm_of s4 x))" if "x \<in> set (wm_workspaces st)" for x
    using moved_lists(3,4) [OF 4(2), of x] that f3(2) by simp
  have fg: "forgotten w s4" using gone f3(2) by (simp add: forgotten_def F list_all_iff)
  let ?s5 = "s4\<lparr>wm_listed := remove1 w (wm_listed s4), wm_parent := (wm_parent s4)(w := None)\<rparr>"
  have "meta_window_unmanage w st = Some ?s5"
    using 2(1) 3(1) 4(1) fg
    by (simp add: meta_window_unmanage_def Let_def parting_start_def [symmetric])
  moreover have "desk_inv ?s5"
  proof (rule unlisted_desk)
    show "lists_ok s4" using moved_lists_ok [OF _ _ 4(2)] m' by blast
    show "parents_ok s4" using moved_parents [OF _ 4(2)] m' by blast
    show "coherent s4" using moved_coherent [OF _ 4(2)] alive_coherent [OF _ 3(3)] m' by blast
    show "\<forall>v\<in>set (wm_listed s4) - {w}. at_home s4 v" using moved_at_home [OF 4(2)] m' by (simp add: F)
    show "\<forall>x\<in>set (wm_workspaces s4). w \<notin> set (ws_windows (wm_of s4 x))" using gone f3(2) by (simp add: F)
    show "win_struts (wm_win s4 w) = []" using 3(3) by (simp add: F)
    show "\<forall>v. wm_parent s4 v \<noteq> Some w" using assms(3) f3(3) by (simp add: F)
  qed
  ultimately show ?thesis using gone f3 by (simp add: F)
qed

end
