(* ===== verification/Workspace_Reach.thy ===== *)
theory Workspace_Reach
  imports Workspace_Unmanage
begin

text \<open>
  The calls that the rest of Mutter makes on the workspace manager, its workspaces and the places of
  the windows, and the states that they reach from the start (\<open>meta_workspace_manager_new\<close>). In every
  reachable state the invariant of the lists and of the caches holds, and every allowed call returns.
\<close>

section \<open>The start\<close>

definition meta_workspace_manager_new ::
  "int \<Rightarrow> mtk_rectangle \<Rightarrow> mtk_rectangle list \<Rightarrow> nat option \<Rightarrow> (window \<Rightarrow> member_window) \<Rightarrow> bool \<Rightarrow>
   workspace_manager option" where
  "meta_workspace_manager_new num display monitors primary wins on_primary =
     (let st = \<lparr>wm_win = wins, wm_parent = (\<lambda>_. None), wm_listed = [], wm_workspaces = [],
                wm_of = (\<lambda>_. empty_workspace), wm_active = None, wm_fresh = 0, wm_display = display,
                wm_monitors = monitors, wm_primary = primary, only_on_primary = on_primary\<rparr>
      in Option.bind (meta_workspace_new st)
        (\<lambda>(_, st1). Option.bind (meta_workspace_manager_update_num_workspaces None num st1)
        (\<lambda>st2. map_option meta_workspace_manager_reload_work_areas
                 (meta_workspace_activate None (hd (wm_workspaces st2)) st2))))"

text \<open>Without windows new workspaces are empty.\<close>

definition bare :: "workspace_manager \<Rightarrow> bool" where
  "bare st \<longleftrightarrow> wm_listed st = [] \<and> distinct (wm_workspaces st) \<and> (\<forall>x\<in>set (wm_workspaces st). x < wm_fresh st) \<and>
     (\<forall>x. wm_of st x = empty_workspace) \<and> (\<forall>v. wm_parent st v = None) \<and> wm_active st = None"

lemma new_bare:
  assumes "bare st"
  shows "\<exists>st'. meta_workspace_new st = Some (wm_fresh st, st') \<and> bare st' \<and>
    wm_workspaces st' = wm_workspaces st @ [wm_fresh st]"
  using assms by (auto simp: bare_def meta_workspace_new_def Let_def meta_display_list_windows_def less_SucI)

lemma news_bare:
  assumes "bare st"
  shows "\<exists>st' ys. fold_opt (\<lambda>_ st. map_option snd (meta_workspace_new st)) ns st = Some st' \<and> bare st' \<and>
    wm_workspaces st' = wm_workspaces st @ ys \<and> length ys = length ns"
  using assms
proof (induction ns arbitrary: st)
  case (Cons n ns)
  obtain s1 where 1: "meta_workspace_new st = Some (wm_fresh st, s1)" "bare s1"
    "wm_workspaces s1 = wm_workspaces st @ [wm_fresh st]"
    using new_bare [OF Cons.prems] by blast
  obtain s2 ys where "fold_opt (\<lambda>_ st. map_option snd (meta_workspace_new st)) ns s1 = Some s2" "bare s2"
    "wm_workspaces s2 = wm_workspaces s1 @ ys" "length ys = length ns"
    using Cons.IH [OF 1(2)] by blast
  with 1 show ?case by (intro exI [of _ s2] exI [of _ "wm_fresh st # ys"]) simp
qed simp

lemma update_num_bare:
  assumes "bare st" "length (wm_workspaces st) = 1" "0 < n"
  shows "\<exists>st'. meta_workspace_manager_update_num_workspaces dragged n st = Some st' \<and> bare st' \<and>
    int (length (wm_workspaces st')) = n"
proof (cases "n = 1")
  case True
  then show ?thesis using assms by (simp add: meta_workspace_manager_update_num_workspaces_def)
next
  case False
  obtain st' ys where s: "fold_opt (\<lambda>_ st. map_option snd (meta_workspace_new st)) [0..<nat n - 1] st = Some st'"
    "bare st'" "wm_workspaces st' = wm_workspaces st @ ys" "length ys = length [0..<nat n - 1]"
    using news_bare [OF assms(1)] by blast
  have "drop (nat n) (wm_workspaces st) = []" "wm_workspaces st \<noteq> []" using assms(2,3) by auto
  then have "meta_workspace_manager_update_num_workspaces dragged n st = Some st'"
    using assms(2,3) False s(1) by (simp add: meta_workspace_manager_update_num_workspaces_def Let_def)
  then show ?thesis using s assms(2,3) False by simp
qed

lemma new_manager_desk:
  assumes "0 < num"
  shows "\<exists>st. meta_workspace_manager_new num display monitors primary wins on_primary = Some st \<and> desk_inv st \<and>
    int (length (wm_workspaces st)) = num \<and> wm_listed st = [] \<and> wm_active st = Some (hd (wm_workspaces st))"
proof -
  let ?st = "\<lparr>wm_win = wins, wm_parent = (\<lambda>_. None), wm_listed = [], wm_workspaces = [],
                wm_of = (\<lambda>_. empty_workspace), wm_active = None, wm_fresh = 0, wm_display = display,
                wm_monitors = monitors, wm_primary = primary, only_on_primary = on_primary\<rparr>"
  obtain s1 where 1: "meta_workspace_new ?st = Some (0, s1)" "bare s1" "length (wm_workspaces s1) = 1"
    using new_bare [of ?st] by (auto simp: bare_def)
  obtain s2 where 2: "meta_workspace_manager_update_num_workspaces None num s1 = Some s2" "bare s2"
    "int (length (wm_workspaces s2)) = num" using update_num_bare [OF 1(2,3) assms] by blast
  have ne: "wm_workspaces s2 \<noteq> []" using 2(3) assms by auto
  let ?s = "s2\<lparr>wm_active := Some (hd (wm_workspaces s2))\<rparr>"
  have act: "meta_workspace_activate None (hd (wm_workspaces s2)) s2 = Some ?s"
    using 2(2) ne by (simp add: meta_workspace_activate_def Let_def bare_def)
  have "lists_ok ?s" using 2(2) ne by (auto simp: lists_ok_def bare_def empty_workspace_def)
  moreover have "parents_ok ?s" "coherent ?s"
    using 2(2) by (auto simp: parents_ok_def coherent_def bare_def empty_workspace_def)
  ultimately have "desk_inv ?s" using 2(2) by (simp add: desk_inv_def members_ok_def bare_def)
  then have "desk_inv (meta_workspace_manager_reload_work_areas ?s)"
    using invalidated_desk by (simp add: meta_workspace_manager_reload_work_areas_def fold_invalidate)
  moreover have "meta_workspace_manager_new num display monitors primary wins on_primary =
      Some (meta_workspace_manager_reload_work_areas ?s)"
    by (simp add: meta_workspace_manager_new_def Let_def 1(1) 2(1) act)
  ultimately show ?thesis
    using 2 by (simp add: meta_workspace_manager_reload_work_areas_def fold_invalidate bare_def)
qed

section \<open>Parents and preferences\<close>

text \<open>\<open>check_transient_for_loop\<close> along the parents of the windows.\<close>

partial_function (option) parent_loop :: "workspace_manager \<Rightarrow> window \<Rightarrow> window option \<Rightarrow> bool option" where
  "parent_loop st w parent =
     (case parent of
        None \<Rightarrow> Some False
      | Some p \<Rightarrow> if p = w then Some True else parent_loop st w (wm_parent st p))"

declare parent_loop.simps [code]

text \<open>\<open>meta_window_set_transient_for\<close>: the window sticks if its new parent is on all workspaces;
  \<open>klass_ok\<close> is the answer of the window class, and an attached window that loses its parent is
  deleted instead.\<close>

definition desk_set_transient_for ::
  "window \<Rightarrow> window option \<Rightarrow> bool \<Rightarrow> bool \<Rightarrow> workspace_manager \<Rightarrow> workspace_manager option" where
  "desk_set_transient_for w parent klass_ok attached st =
     Option.bind (parent_loop st w parent)
       (\<lambda>loops. if loops then Some st
          else if \<not> klass_ok then Some st
          else if attached \<and> parent = None then Some st
          else let st1 = st\<lparr>wm_parent := (wm_parent st)(w := parent)\<rparr>
               in case parent of
                    Some p \<Rightarrow> if on_all_workspaces (wm_win st1 p) then meta_window_stick w st1 else Some st1
                  | None \<Rightarrow> Some st1)"

text \<open>The preference for workspaces on the primary monitor only, and the listener of every window.\<close>

definition set_only_on_primary :: "bool \<Rightarrow> workspace_manager \<Rightarrow> workspace_manager option" where
  "set_only_on_primary b st =
     fold_opt meta_window_on_all_workspaces_changed (wm_listed st) (st\<lparr>only_on_primary := b\<rparr>)"

text \<open>The windows above one, as a set; they are those of \<^const>\<open>ancestors\<close>.\<close>

definition above_set :: "workspace_manager \<Rightarrow> window \<Rightarrow> window set" where
  "above_set st w = set (the (ancestors st w))"

lemma above_set_step:
  assumes "parents_ok st"
  shows "above_set st w = (case wm_parent st w of None \<Rightarrow> {} | Some p \<Rightarrow> insert p (above_set st p))"
proof (cases "wm_parent st w")
  case None
  then show ?thesis by (simp add: above_set_def ancestors.simps [of st w])
next
  case (Some p)
  obtain as where "ancestors st p = Some as" using ancestors_exist [OF assms] by blast
  then show ?thesis using Some by (simp add: above_set_def ancestors.simps [of st w])
qed

lemma parent_loop_above:
  assumes "parents_ok st"
  shows "parent_loop st w (Some p) = Some (p = w \<or> w \<in> above_set st p)"
proof -
  obtain rank :: "window \<Rightarrow> nat" where r: "\<And>w p. wm_parent st w = Some p \<Longrightarrow> rank p < rank w"
    using assms by (auto simp: parents_ok_def)
  show ?thesis
  proof (induction "rank p" arbitrary: p rule: less_induct)
    case less
    show ?case
    proof (cases "p = w")
      case True
      then show ?thesis by (subst parent_loop.simps) simp
    next
      case False
      have rec: "parent_loop st w (Some p) = parent_loop st w (wm_parent st p)"
        using False by (simp add: parent_loop.simps [of st w "Some p"])
      show ?thesis
      proof (cases "wm_parent st p")
        case None
        then show ?thesis using False rec above_set_step [OF assms, of p]
          by (simp add: parent_loop.simps [of st w None])
      next
        case (Some q)
        then show ?thesis using False rec less [of q] r [OF Some] above_set_step [OF assms, of p] by auto
      qed
    qed
  qed
qed

lemma reparented_parents:
  assumes "parents_ok st" "w \<in> set (wm_listed st)" "\<forall>p. parent = Some p \<longrightarrow> p \<noteq> w \<and> w \<notin> above_set st p \<and> p \<in> set (wm_listed st)"
  shows "parents_ok (st\<lparr>wm_parent := (wm_parent st)(w := parent)\<rparr>)"
proof -
  obtain rank :: "window \<Rightarrow> nat" where r: "\<And>w p. wm_parent st w = Some p \<Longrightarrow> rank p < rank w"
    and l: "\<And>w p. wm_parent st w = Some p \<Longrightarrow> w \<in> set (wm_listed st) \<and> p \<in> set (wm_listed st)"
    using assms(1) by (auto simp: parents_ok_def)
  define below_w where "below_w v \<longleftrightarrow> v = w \<or> w \<in> above_set st v" for v
  define lift where "lift = (case parent of None \<Rightarrow> 0 | Some p \<Rightarrow> Suc (rank p))"
  define r' where "r' v = (if below_w v then rank v + lift else rank v)" for v
  have "r' q < r' v" if e: "((wm_parent st)(w := parent)) v = Some q" for v q
  proof (cases "v = w")
    case True
    then have p: "parent = Some q" using e by simp
    then have "\<not> below_w q" using assms(3) by (auto simp: below_w_def)
    then show ?thesis using True p by (simp add: r'_def lift_def below_w_def)
  next
    case False
    then have q: "wm_parent st v = Some q" using e by simp
    have "below_w v \<longleftrightarrow> below_w q"
      using False q above_set_step [OF assms(1), of v] by (auto simp: below_w_def)
    then show ?thesis using r [OF q] by (simp add: r'_def)
  qed
  moreover have "v \<in> set (wm_listed st) \<and> q \<in> set (wm_listed st)"
    if "((wm_parent st)(w := parent)) v = Some q" for v q
    using that l assms(2,3) by (auto split: if_splits)
  ultimately show ?thesis unfolding parents_ok_def by (intro conjI exI [of _ r'] allI impI) simp_all
qed

lemma set_transient_desk:
  assumes "desk_inv st" "w \<in> set (wm_listed st)" "set_option parent \<subseteq> set (wm_listed st)"
  shows "\<exists>st'. desk_set_transient_for w parent k a st = Some st' \<and> desk_inv st' \<and> wm_listed st' = wm_listed st \<and>
    wm_workspaces st' = wm_workspaces st"
proof -
  have po: "parents_ok st" using assms(1) by (simp add: desk_inv_def)
  obtain l where loop: "parent_loop st w parent = Some l"
    "\<not> l \<longrightarrow> (\<forall>p. parent = Some p \<longrightarrow> p \<noteq> w \<and> w \<notin> above_set st p)"
    by (cases parent) (auto simp: parent_loop.simps [of st w None] parent_loop_above [OF po])
  let ?s = "st\<lparr>wm_parent := (wm_parent st)(w := parent)\<rparr>"
  show ?thesis
  proof (cases "l \<or> \<not> k \<or> a \<and> parent = None")
    case True
    then have "desk_set_transient_for w parent k a st = Some st"
      by (auto simp: desk_set_transient_for_def loop(1))
    then show ?thesis using assms(1) by simp
  next
    case False
    then have g: "\<not> l" "k" "\<not> (a \<and> parent = None)" by blast+
    have e: "desk_set_transient_for w parent k a st = (case parent of
        Some p \<Rightarrow> if on_all_workspaces (wm_win ?s p) then meta_window_stick w ?s else Some ?s | None \<Rightarrow> Some ?s)"
      by (simp only: desk_set_transient_for_def loop(1) Option.bind.bind_lunit Let_def g if_False not_True_eq_False)
    have "parents_ok ?s" using loop(2) g assms(3) by (intro reparented_parents [OF po assms(2)]) auto
    moreover have "workspace_struts ?s x = workspace_struts st x" for x
      by (rule workspace_struts_cong) (auto simp: listed_struts_def)
    moreover have "members_ok ?s"
      using assms(1) by (intro same_places_members [of st ?s])
        (auto simp: same_places_def desk_inv_def members_ok_def lists_ok_def)
    ultimately have d: "desk_inv ?s" using assms(1) by (simp add: desk_inv_def coherent_def)
    obtain s2 where "meta_window_stick w ?s = Some s2" "desk_with (wm_listed st) (wm_workspaces st) (wm_active st) s2"
      using stick_desk [OF d, of w] assms(2) by auto
    then show ?thesis using d unfolding e by (cases parent) (auto simp: desk_with_def)
  qed
qed

lemma only_on_primary_desk:
  assumes "desk_inv st"
  shows "\<exists>st'. set_only_on_primary b st = Some st' \<and> desk_inv st' \<and> wm_listed st' = wm_listed st \<and>
    wm_workspaces st' = wm_workspaces st"
proof -
  let ?s = "st\<lparr>only_on_primary := b\<rparr>"
  have same: "same_places st ?s" by (simp add: same_places_def)
  have "workspace_struts ?s x = workspace_struts st x" for x
    by (rule workspace_struts_cong) (auto simp: listed_struts_def)
  then have d: "desk_with (wm_listed st) (wm_workspaces st) (wm_active st) ?s"
    using same_places_desk [OF assms same] assms by (simp add: desk_with_def desk_inv_def coherent_def)
  have "\<exists>s'. fold_opt meta_window_on_all_workspaces_changed (wm_listed st) ?s = Some s' \<and>
      desk_with (wm_listed st) (wm_workspaces st) (wm_active st) s'"
  proof (rule fold_opt_invariant [where P = "desk_with (wm_listed st) (wm_workspaces st) (wm_active st)", OF d])
    fix w s assume "w \<in> set (wm_listed st)" "desk_with (wm_listed st) (wm_workspaces st) (wm_active st) s"
    then show "\<exists>s'. meta_window_on_all_workspaces_changed w s = Some s' \<and>
        desk_with (wm_listed st) (wm_workspaces st) (wm_active st) s'"
      using on_all_changed_desk [of s w] by (simp add: desk_with_def)
  qed
  then show ?thesis by (auto simp: set_only_on_primary_def desk_with_def)
qed

end
