(* ===== verification/Workspace_Desk.thy ===== *)
theory Workspace_Desk
  imports Workspace_Areas Constrain_Maximize Place_Window
begin

text \<open>
  Work areas, constraints and placement together: the desktop that \<open>core/workspace.c\<close> computes is one
  in which maximized windows fill a largest free rectangle of their monitor, and in which new windows
  stay where they are placed.
\<close>

section \<open>The desktop\<close>

text \<open>\<open>meta_window_get_work_area_for_logical_monitor\<close>: the intersection over the workspaces that the
  window is on.\<close>

definition meta_window_get_work_area_for_logical_monitor ::
  "mtk_rectangle list \<Rightarrow> work_areas list \<Rightarrow> nat \<Rightarrow> mtk_rectangle" where
  "meta_window_get_work_area_for_logical_monitor monitors workspaces m =
     fold (\<lambda>A area. snd (mtk_rectangle_intersect area (logical_monitor_work_area (wa_monitors A ! m)) area))
       workspaces (monitors ! m)"

text \<open>What the constraints read, for a window on the workspaces \<open>As\<close> while the workspace with the
  areas \<open>A\<close> is the active one.\<close>

definition desktop_env ::
  "constrain_env \<Rightarrow> mtk_rectangle list \<Rightarrow> nat option \<Rightarrow> work_areas list \<Rightarrow> work_areas \<Rightarrow> constrain_env" where
  "desktop_env env monitors primary As A = env\<lparr>
     monitor_from_rect := meta_monitor_manager_get_logical_monitor_from_rect monitors primary,
     primary_monitor := primary, n_monitors := int (length monitors), monitor_rect := (\<lambda>m. monitors ! m),
     work_area_for := meta_window_get_work_area_for_logical_monitor monitors As,
     onmonitor_region := (\<lambda>m. logical_monitor_region (wa_monitors A ! m)), all_struts := wa_struts A\<rparr>"

lemma desktop_env_fields [simp]:
  "work_area_for (desktop_env env monitors primary As A) = meta_window_get_work_area_for_logical_monitor monitors As"
  "onmonitor_region (desktop_env env monitors primary As A) m = logical_monitor_region (wa_monitors A ! m)"
  "monitor_from_rect (desktop_env env monitors primary As A) =
     meta_monitor_manager_get_logical_monitor_from_rect monitors primary"
  by (simp_all add: desktop_env_def)

text \<open>A window on one workspace has the work area of that workspace.\<close>

lemma work_area_one_workspace:
  assumes "sound_desktop display monitors struts" "compute_work_areas display monitors struts = Some A"
    and "m < length monitors" "logical_monitor_region (wa_monitors A ! m) \<noteq> []"
  shows "meta_window_get_work_area_for_logical_monitor monitors [A] m = logical_monitor_work_area (wa_monitors A ! m)"
  using work_area_lemma(1) [OF assms]
  by (simp add: meta_window_get_work_area_for_logical_monitor_def largest_free_def in_region_def intersect_inside)

lemma in_own_region: "r \<in> set rs \<Longrightarrow> meta_rectangle_contained_in_region rs r"
  by (simp add: region_queries contains_self)

section \<open>Maximized windows\<close>

lemma maximized_covers_lemma:
  assumes "sound_desktop display monitors struts" "compute_work_areas display monitors struts = Some A"
    and "m < length monitors" "logical_monitor_region (wa_monitors A ! m) \<noteq> []"
    and "env = desktop_env base monitors primary [A] A"
    and "plainly_maximized env w" "action_of flags \<noteq> None"
    and "constraining_monitor env w flags (start_rect w new) = Some m"
    and "mtk_rectangle_could_fit_rect (logical_monitor_work_area (wa_monitors A ! m)) (fst (get_size_limits w))"
  obtains w' r where "meta_window_constrain env w flags calculate g (screen_region A) old new =
      Some (w', r, old, (0, 0), screen_region A)"
    and "largest_free (monitors ! m) struts r"
proof -
  note W = work_area_lemma [OF assms(1-3)]
  note area = work_area_one_workspace [OF assms(1-4)]
  have free: "largest_free (monitors ! m) struts (work_area_for env m)"
    using W(1) [OF assms(4)] area assms(5) by simp
  have "roomy_area w (screen_region A) (onmonitor_region env m) (work_area_for env m)"
      using W(1) [OF assms(4)] W(4) assms(9) in_own_region unfolding assms(5) desktop_env_fields area
    by (simp add: roomy_area_def largest_free_def)
  from maximized_fills_lemma [OF assms(6-8) this] that free show thesis by blast
qed

section \<open>New windows\<close>

text \<open>On monitors that do not overlap, a rectangle with pixels on one of them is found to be there.\<close>

definition monitors_apart :: "mtk_rectangle list \<Rightarrow> bool" where
  "monitors_apart monitors \<longleftrightarrow>
     (\<forall>i<length monitors. \<forall>j<length monitors. i \<noteq> j \<longrightarrow> pixels (monitors ! i) \<inter> pixels (monitors ! j) = {})"

lemma best_monitor_inside:
  assumes "(cx, cy) \<in> pixels m"
    and "\<forall>(i, m')\<in>set ms. (cx, cy) \<in> pixels m' \<longleftrightarrow> i = k" "(k, m) \<in> set ms"
  shows "best_monitor rect cx cy (best, area) ms = Some k"
  using assms(2,3)
proof (induction rect cx cy "(best, area)" ms arbitrary: best area rule: best_monitor.induct)
  case (2 rect cx cy best area i m' ms)
  show ?case
  proof (cases "(cx, cy) \<in> pixels m'")
    case True
    with 2(4) have "i = k" by auto
    with True show ?thesis by (simp add: pixels_def)
  next
    case False
    then have no: "\<not> mtk_rectangle_contains_point m' cx cy" by (simp add: pixels_def)
    have "i \<noteq> k" using 2(4) False by auto
    then have mem: "(k, m) \<in> set ms" using 2(5) by auto
    have rest: "\<forall>(i, m')\<in>set ms. (cx, cy) \<in> pixels m' \<longleftrightarrow> i = k" using 2(4) by auto
    obtain b v where i: "mtk_rectangle_intersect m' rect mtk_rectangle_new_empty = (b, v)" by fastforce
    show ?thesis
      using 2(1-3) [OF no i [symmetric]] i no mem rest
      by (cases b) auto
  qed
qed simp

lemma center_inside:
  "rect_positive r \<Longrightarrow> (rect_x r + rect_width r sdiv 2, rect_y r + rect_height r sdiv 2) \<in> pixels r"
  proof -
  assume "rect_positive r"
  then have "0 < rect_width r" "0 < rect_height r" by (simp_all add: rect_positive_def)
  moreover from this have "rect_width r div 2 < rect_width r" "rect_height r div 2 < rect_height r" by linarith+
  ultimately show ?thesis by (simp add: mem_pixels signed_divide_int_def)
qed

lemma monitor_found:
  assumes "monitors_apart monitors" "m < length monitors" "rect_positive r" "mtk_rectangle_contains_rect (monitors ! m) r"
  shows "meta_monitor_manager_get_logical_monitor_from_rect monitors primary r = Some m"
proof -
  let ?c = "(rect_x r + rect_width r sdiv 2, rect_y r + rect_height r sdiv 2)"
  have c: "?c \<in> pixels (monitors ! m)" using center_inside [OF assms(3)] contains_rect_pixels [OF assms(4)] by blast
  have "\<forall>(i, m')\<in>set (enumerate 0 monitors). ?c \<in> pixels m' \<longleftrightarrow> i = m"
  proof clarify
    fix i m' assume "(i, m') \<in> set (enumerate 0 monitors)"
    then have i: "i < length monitors" "m' = monitors ! i" by (simp_all add: in_set_enumerate_eq)
    show "?c \<in> pixels m' \<longleftrightarrow> i = m" using c i assms(1,2) unfolding monitors_apart_def by blast
  qed
  moreover have "(m, monitors ! m) \<in> set (enumerate 0 monitors)" using assms(2) by (simp add: in_set_enumerate_eq)
  ultimately show ?thesis
    unfolding meta_monitor_manager_get_logical_monitor_from_rect_def
    using best_monitor_inside [OF c] by simp
qed

lemma desktop_sound_monitor:
  assumes "sound_desktop display monitors struts" "compute_work_areas display monitors struts = Some A"
    and "m < length monitors" "logical_monitor_region (wa_monitors A ! m) \<noteq> []" "monitors_apart monitors"
  shows "sound_monitor (desktop_env base monitors primary [A] A) (screen_region A) m"
proof -
  note W = work_area_lemma [OF assms(1-3)]
  have "mtk_rectangle_contains_rect (monitors ! m) (logical_monitor_work_area (wa_monitors A ! m))"
    using W(1) [OF assms(4)] by (simp add: largest_free_def in_region_def)
  then have found: "\<forall>r. rect_positive r \<and> mtk_rectangle_contains_rect (logical_monitor_work_area (wa_monitors A ! m)) r \<longrightarrow>
      meta_monitor_manager_get_logical_monitor_from_rect monitors primary r = Some m"
    using monitor_found [OF assms(5,3)] contains_rect_trans by blast
  show ?thesis
    using W(1) [OF assms(4)] W(4) found in_own_region
    unfolding sound_monitor_def desktop_env_fields work_area_one_workspace [OF assms(1-4)] by simp
qed

lemma inside_free:
  assumes "largest_free basic struts area" "mtk_rectangle_contains_rect area r" "rect_positive r"
    and "s \<in> set struts" "check_strut_align s basic" "rect_positive (strut_rect s)"
  shows "pixels r \<inter> pixels (strut_rect s) = {}"
proof -
  have "pixels (strut_rect s) \<inter> pixels area = {}"
    using assms(1,4-6) overlap_iff_pixels by (auto simp: largest_free_def in_region_def)
  then show ?thesis using contains_rect_pixels [OF assms(2)] by blast
qed

lemma new_window_desk_lemma:
  assumes "sound_desktop display monitors struts" "compute_work_areas display monitors struts = Some A"
    and "m < length monitors" "logical_monitor_region (wa_monitors A ! m) \<noteq> []" "monitors_apart monitors"
    and "screen p = desktop_env base monitors primary [A] A"
    and "mapped_freely p w" "placing_monitor p w = Some m"
    and "action_of flags \<noteq> None" "constraining_monitor (screen p) (constrained_window.truncate w) flags new \<noteq> None"
    and "rect_positive new" "\<And>x y. free_sized (constrained_window.truncate w) (new\<lparr>rect_x := x, rect_y := y\<rparr>)"
    and "find_first_fit p (find_windows_relevant_for_placement p w) (place_area p m) (rect_width new) (rect_height new) \<noteq> None"
  obtains w' r where "meta_window_constrain (placing_env p w) (constrained_window.truncate w) flags True g (screen_region A) old new =
      Some (w', r, old, (0, 0), screen_region A)"
    and "rect_width r = rect_width new" "rect_height r = rect_height new"
    and "mtk_rectangle_contains_rect (monitors ! m) r"
    and "\<forall>s\<in>set struts. check_strut_align s (monitors ! m) \<longrightarrow> pixels r \<inter> pixels (strut_rect s) = {}"
    and "\<forall>v\<in>set (find_windows_relevant_for_placement p w). is_obstacle v \<longrightarrow> pixels r \<inter> pixels (frame_rect v) = {}"
proof -
  have sound: "sound_monitor (screen p) (screen_region A) m"
    unfolding assms(6) by (rule desktop_sound_monitor [OF assms(1-5)])
  have area: "place_area p m = logical_monitor_work_area (wa_monitors A ! m)"
    unfolding place_area_def assms(6) desktop_env_fields by (rule work_area_one_workspace [OF assms(1-4)])
  have free: "largest_free (monitors ! m) struts (place_area p m)"
    using work_area_lemma(1) [OF assms(1-4)] area by simp
  have struts: "\<forall>s\<in>set struts. rect_positive (strut_rect s)" using assms(1) by (simp add: sound_desktop_def)
  show thesis
  proof (rule new_window_lemma [OF assms(7,8) sound assms(9-13), of g old])
    fix w' r
    assume c: "meta_window_constrain (placing_env p w) (constrained_window.truncate w) flags True g (screen_region A) old new =
        Some (w', r, old, (0, 0), screen_region A)"
      "rect_width r = rect_width new" "rect_height r = rect_height new"
      "mtk_rectangle_contains_rect (place_area p m) r"
      "\<forall>v\<in>set (find_windows_relevant_for_placement p w). is_obstacle v \<longrightarrow> pixels r \<inter> pixels (frame_rect v) = {}"
    have pos: "rect_positive r" using c(2,3) assms(11) by (simp add: rect_positive_def)
    have "\<forall>s\<in>set struts. check_strut_align s (monitors ! m) \<longrightarrow> pixels r \<inter> pixels (strut_rect s) = {}"
      using inside_free [OF free c(4) pos] struts by blast
    moreover have "mtk_rectangle_contains_rect (monitors ! m) r"
      using free c(4) contains_rect_trans by (auto simp: largest_free_def in_region_def)
    ultimately show thesis using that c by blast
  qed
qed

section \<open>An example\<close>

text \<open>Two monitors side by side, a panel at the top of the left one and a dock at its left side.\<close>

definition desk_display :: mtk_rectangle where "desk_display = mtk_rectangle_new 0 0 1600 600"

definition desk_monitors :: "mtk_rectangle list" where
  "desk_monitors = [mtk_rectangle_new 0 0 800 600, mtk_rectangle_new 800 0 800 600]"

definition desk_struts :: "meta_strut list" where
  "desk_struts = [\<lparr>strut_rect = mtk_rectangle_new 0 0 800 30, strut_side = META_SIDE_TOP\<rparr>,
     \<lparr>strut_rect = mtk_rectangle_new 0 30 60 570, strut_side = META_SIDE_LEFT\<rparr>]"

definition desk_areas :: work_areas where
  "desk_areas = the (compute_work_areas desk_display desk_monitors desk_struts)"

lemma desk_computes: "compute_work_areas desk_display desk_monitors desk_struts = Some desk_areas"
  unfolding desk_areas_def by code_simp

lemma desk_sound: "sound_desktop desk_display desk_monitors desk_struts"
  by code_simp

lemma desk_work_area: "logical_monitor_work_area (wa_monitors desk_areas ! 0) = mtk_rectangle_new 60 30 740 570"
  by code_simp

lemma desk_region: "logical_monitor_region (wa_monitors desk_areas ! 0) \<noteq> []"
  by code_simp

end
