(* ===== verification/Workspace_Calls.thy ===== *)
theory Workspace_Calls
  imports Workspace_Reach Workspace_Desk
begin

text \<open>
  The calls on workspaces and on the places of windows, the conditions under which they are made, and
  the states that they reach. Every reachable state satisfies the invariant of \<open>core/window.c\<close>.
\<close>

section \<open>Calls\<close>

datatype desk_call =
    Construct window member_window "window option" "int option" "meta_strut list"
  | Unmanage window
  | Set_parent window "window option" bool bool
  | Change_workspace window workspace
  | Change_workspace_by_index window int bool
  | Stick window
  | Unstick window
  | Always_sticky window bool
  | Update_monitor window bool bool
  | Only_on_primary bool
  | Update_struts window "meta_strut list"
  | Make_most_recent window workspace
  | Activate "window option" workspace
  | Append_workspace "window option" bool
  | Remove_workspace "window option" workspace
  | Update_num "window option" int
  | Reorder workspace int
  | Show_desktop bool
  | Set_builtin_struts workspace "meta_strut list"
  | Monitors_changed mtk_rectangle "mtk_rectangle list" "nat option"
  | Get_work_area workspace nat

fun desk_run :: "desk_call \<Rightarrow> workspace_manager \<Rightarrow> workspace_manager option" where
  "desk_run (Construct w v parent initial struts) st = meta_window_construct w v parent initial struts st"
| "desk_run (Unmanage w) st = meta_window_unmanage w st"
| "desk_run (Set_parent w parent k a) st = desk_set_transient_for w parent k a st"
| "desk_run (Change_workspace w ws) st = meta_window_change_workspace w ws st"
| "desk_run (Change_workspace_by_index w i add) st = meta_window_change_workspace_by_index w i add st"
| "desk_run (Stick w) st = meta_window_stick w st"
| "desk_run (Unstick w) st = meta_window_unstick w st"
| "desk_run (Always_sticky w b) st = set_always_sticky w b st"
| "desk_run (Update_monitor w off user) st = meta_window_update_monitor w off user st"
| "desk_run (Only_on_primary b) st = set_only_on_primary b st"
| "desk_run (Update_struts w s) st = meta_window_update_struts w s st"
| "desk_run (Make_most_recent w ws) st = Some (meta_window_make_most_recent w ws st)"
| "desk_run (Activate dragged ws) st = meta_workspace_activate dragged ws st"
| "desk_run (Append_workspace dragged b) st = map_option snd (meta_workspace_manager_append_new_workspace dragged b st)"
| "desk_run (Remove_workspace dragged ws) st = meta_workspace_manager_remove_workspace dragged ws st"
| "desk_run (Update_num dragged n) st = meta_workspace_manager_update_num_workspaces dragged n st"
| "desk_run (Reorder ws i) st = Some (meta_workspace_manager_reorder_workspace ws i st)"
| "desk_run (Show_desktop b) st = Some (meta_workspace_manager_show_desktop b st)"
| "desk_run (Set_builtin_struts ws s) st = map_option fst (meta_workspace_set_builtin_struts ws s st)"
| "desk_run (Monitors_changed d ms p) st = Some (monitors_changed d ms p st)"
| "desk_run (Get_work_area ws m) st = map_option snd (meta_workspace_get_work_area_for_monitor ws m st)"

text \<open>When a call is made: on windows that are managed and, where the code does not check it, on
  workspaces that are listed. A window is unmanaged after those that have it as their parent, and a
  workspace is not removed while it is active and some window sticks by request.\<close>

definition managed :: "workspace_manager \<Rightarrow> window option \<Rightarrow> bool" where
  "managed st w \<longleftrightarrow> (case w of None \<Rightarrow> True | Some v \<Rightarrow> v \<in> set (wm_listed st))"

fun desk_allowed :: "desk_call \<Rightarrow> workspace_manager \<Rightarrow> bool" where
  "desk_allowed (Construct w v parent initial struts) st \<longleftrightarrow> w \<notin> set (wm_listed st) \<and> managed st parent"
| "desk_allowed (Unmanage w) st \<longleftrightarrow> w \<in> set (wm_listed st) \<and> list_all (\<lambda>v. wm_parent st v \<noteq> Some w) (wm_listed st)"
| "desk_allowed (Set_parent w parent k a) st \<longleftrightarrow> w \<in> set (wm_listed st) \<and> managed st parent"
| "desk_allowed (Change_workspace w ws) st \<longleftrightarrow> w \<in> set (wm_listed st) \<and> ws \<in> set (wm_workspaces st)"
| "desk_allowed (Change_workspace_by_index w i add) st \<longleftrightarrow> w \<in> set (wm_listed st)"
| "desk_allowed (Stick w) st \<longleftrightarrow> w \<in> set (wm_listed st)"
| "desk_allowed (Unstick w) st \<longleftrightarrow> w \<in> set (wm_listed st)"
| "desk_allowed (Always_sticky w b) st \<longleftrightarrow> w \<in> set (wm_listed st)"
| "desk_allowed (Update_monitor w off user) st \<longleftrightarrow> w \<in> set (wm_listed st)"
| "desk_allowed (Only_on_primary b) st \<longleftrightarrow> True"
| "desk_allowed (Update_struts w s) st \<longleftrightarrow> w \<in> set (wm_listed st)"
| "desk_allowed (Make_most_recent w ws) st \<longleftrightarrow> True"
| "desk_allowed (Activate dragged ws) st \<longleftrightarrow> managed st dragged"
| "desk_allowed (Append_workspace dragged b) st \<longleftrightarrow> managed st dragged"
| "desk_allowed (Remove_workspace dragged ws) st \<longleftrightarrow> managed st dragged \<and> can_empty st ws"
| "desk_allowed (Update_num dragged n) st \<longleftrightarrow>
     managed st dragged \<and> 0 < n \<and> list_all (can_empty st) (drop (nat n) (wm_workspaces st))"
| "desk_allowed (Reorder ws i) st \<longleftrightarrow> True"
| "desk_allowed (Show_desktop b) st \<longleftrightarrow> True"
| "desk_allowed (Set_builtin_struts ws s) st \<longleftrightarrow> wm_monitors st = [] \<or> wm_primary st \<noteq> None"
| "desk_allowed (Monitors_changed d ms p) st \<longleftrightarrow> True"
| "desk_allowed (Get_work_area ws m) st \<longleftrightarrow> ws \<in> set (wm_workspaces st) \<and>
     compute_work_areas (wm_display st) (wm_monitors st) (workspace_struts st ws) \<noteq> None"

inductive desk_reachable :: "workspace_manager \<Rightarrow> bool" where
  new: "0 < num \<Longrightarrow> meta_workspace_manager_new num display monitors primary wins on_primary = Some st \<Longrightarrow>
     desk_reachable st"
| call: "desk_reachable st \<Longrightarrow> desk_allowed c st \<Longrightarrow> desk_run c st = Some st' \<Longrightarrow> desk_reachable st'"

section \<open>Every call returns and keeps the invariant\<close>

lemma managed_iff: "managed st w \<longleftrightarrow> set_option w \<subseteq> set (wm_listed st)"
  by (cases w) (simp_all add: managed_def)

lemma by_index_desk:
  assumes "desk_inv st" "w \<in> set (wm_listed st)"
  shows "\<exists>st'. meta_window_change_workspace_by_index w i add st = Some st' \<and> desk_inv st'"
proof -
  have change: "\<exists>st'. meta_window_change_workspace w ws s = Some st' \<and> desk_inv st'"
    if "desk_inv s" "w \<in> set (wm_listed s)" "ws \<in> set (wm_workspaces s)" for ws s
    using change_workspace_desk [OF that] by (auto simp: desk_with_def)
  obtain s1 where 1: "meta_workspace_manager_append_new_workspace None False st = Some (wm_fresh st, s1)" "desk_inv s1"
    "wm_listed s1 = wm_listed st" "wm_workspaces s1 = wm_workspaces st @ [wm_fresh st]"
    using append_workspace_desk [OF assms(1), of None False] by auto
  obtain s2 where "meta_window_change_workspace w (wm_fresh st) s1 = Some s2" "desk_inv s2"
    using change [OF 1(2), of "wm_fresh st"] 1(3,4) assms(2) by auto
  then show ?thesis
    using assms change [OF assms] stick_desk [OF assms] 1(1)
    by (auto simp: meta_window_change_workspace_by_index_def desk_with_def)
qed

lemma extend_struts_exist:
  assumes "monitors = [] \<or> primary \<noteq> None"
  shows "\<exists>s. extend_struts display monitors primary struts = Some s"
proof (induction struts)
  case (Cons a struts)
  have "strut_has_neighbor monitors primary a \<noteq> None"
    using assms by (auto simp: strut_has_neighbor_def meta_monitor_manager_get_logical_monitor_from_rect_def split: option.splits)
  then show ?case using Cons by (auto simp: extend_strut_def)
qed simp

lemma family_calls:
  assumes "desk_inv st" "w \<in> set (wm_listed st)"
  shows "\<exists>st'. meta_window_stick w st = Some st' \<and> desk_inv st'"
    and "\<exists>st'. meta_window_unstick w st = Some st' \<and> desk_inv st'"
    and "ws \<in> set (wm_workspaces st) \<Longrightarrow> \<exists>st'. meta_window_change_workspace w ws st = Some st' \<and> desk_inv st'"
  using stick_desk [OF assms] unstick_desk [OF assms] change_workspace_desk [OF assms]
  by (auto simp: desk_with_def)

lemma no_child:
  assumes "desk_inv st" "list_all (\<lambda>v. wm_parent st v \<noteq> Some w) (wm_listed st)"
  shows "\<forall>v. wm_parent st v \<noteq> Some w"
  using assms by (auto simp: list_all_iff desk_inv_def parents_ok_def)

lemma every_call_returns:
  assumes i: "desk_inv st" and a: "desk_allowed c st"
  shows "\<exists>st'. desk_run c st = Some st' \<and> desk_inv st'"
proof (cases c)
  case (Construct w v parent initial struts)
  then show ?thesis using a construct_desk [OF i, of w parent v initial struts] by (auto simp: managed_iff)
next
  case (Unmanage w)
  then show ?thesis using a unmanage_desk [OF i, of w] no_child [OF i, of w] by auto
next
  case (Set_parent w parent k b)
  then show ?thesis using a set_transient_desk [OF i, of w parent k b] by (auto simp: managed_iff)
next
  case (Update_struts w s)
  then have "at_home st w" using a i by (simp add: desk_inv_def members_ok_def)
  from meta_window_update_struts_desk [OF i disjI2 [OF get_workspaces_at_home [OF this]], of s] Update_struts
  show ?thesis by auto
next
  case (Activate dragged ws)
  show ?thesis
  proof (cases "ws \<in> set (wm_workspaces st)")
    case True
    then show ?thesis using a i Activate activate_desk [OF i True, of dragged] by (auto simp: managed_iff desk_with_def)
  qed (simp add: Activate meta_workspace_activate_def i)
next
  case (Append_workspace dragged b)
  then show ?thesis using a append_workspace_desk [OF i, of dragged b] by (auto simp: managed_iff)
next
  case (Remove_workspace dragged ws)
  then show ?thesis using a remove_workspace_desk [OF i, of dragged ws] by (auto simp: managed_iff)
next
  case (Update_num dragged n)
  then show ?thesis using a update_num_desk [OF i, of dragged n] by (auto simp: managed_iff list_all_iff)
next
  case (Set_builtin_struts ws s)
  then obtain s' where s': "extend_struts (wm_display st) (wm_monitors st) (wm_primary st) s = Some s'"
    using a extend_struts_exist by (metis desk_allowed.simps(19))
  then obtain st' where "meta_workspace_set_builtin_struts ws s st = Some (st', s')"
    by (simp add: meta_workspace_set_builtin_struts_def)
  then show ?thesis using Set_builtin_struts builtin_struts_desk [OF i] by auto
next
  case (Get_work_area ws m)
  then obtain A where A: "compute_work_areas (wm_display st) (wm_monitors st) (workspace_struts st ws) = Some A"
    "ws \<in> set (wm_workspaces st)" using a by auto
  then obtain st' where "ensure_work_areas_validated ws st = Some st'"
    by (cases "ws_areas (wm_of st ws)") (simp_all add: ensure_work_areas_validated_def)
  then show ?thesis using ensure_validated_desk(1) [OF i A(2)] Get_work_area
    by (auto simp: meta_workspace_get_work_area_for_monitor_def)
next
  case (Change_workspace w ws)
  then show ?thesis using a family_calls(3) [OF i, of w ws] by simp
next
  case (Change_workspace_by_index w k add)
  then show ?thesis using a by_index_desk [OF i, of w k add] by simp
next
  case (Stick w)
  then show ?thesis using a family_calls(1) [OF i, of w] by simp
next
  case (Unstick w)
  then show ?thesis using a family_calls(2) [OF i, of w] by simp
next
  case (Always_sticky w b)
  then show ?thesis using a always_sticky_desk [OF i, of w b] by auto
next
  case (Update_monitor w off user)
  then show ?thesis using a update_monitor_desk [OF i, of w off user] by auto
next
  case (Only_on_primary b)
  then show ?thesis using only_on_primary_desk [OF i, of b] by auto
next
  case (Make_most_recent w ws)
  then show ?thesis using make_most_recent_desk(1) [OF i] by simp
next
  case (Reorder ws k)
  then show ?thesis using reorder_desk(1) [OF i] by simp
next
  case (Show_desktop b)
  then show ?thesis using show_desktop_desk(1) [OF i] by simp
next
  case (Monitors_changed d ms p)
  then show ?thesis using monitors_changed_desk(1) [OF i] by simp
qed

lemma desk_reachable_inv: "desk_reachable st \<Longrightarrow> desk_inv st"
proof (induction rule: desk_reachable.induct)
  case (new num display monitors primary wins on_primary st)
  then show ?case using new_manager_desk [OF new(1), of display monitors primary wins on_primary] by auto
next
  case (call st c st')
  then show ?case using every_call_returns [of st c] by auto
qed

section \<open>What the invariant says\<close>

lemma desk_inv_homes:
  assumes "desk_inv st"
  shows "\<exists>a\<in>set (wm_workspaces st). wm_active st = Some a" "distinct (wm_workspaces st)"
    and "\<forall>x\<in>set (wm_workspaces st). set (ws_windows (wm_of st x)) \<subseteq> set (wm_listed st) \<and>
      set (mru_list (wm_of st x)) \<subseteq> set (wm_listed st)"
    and "\<forall>w\<in>set (wm_listed st). \<not> override_redirect (wm_win st w) \<longrightarrow>
       (case win_workspace (wm_win st w) of
          None \<Rightarrow> on_all_workspaces (wm_win st w)
        | Some x \<Rightarrow> \<not> on_all_workspaces (wm_win st w) \<and> x \<in> set (wm_workspaces st)) \<and>
       (\<forall>x\<in>set (wm_workspaces st).
          count_list (ws_windows (wm_of st x)) w = (if located_on_ws st w x then 1 else 0) \<and>
          count_list (mru_list (wm_of st x)) w = (if located_on_ws st w x then 1 else 0))"
proof -
  have l: "lists_ok st" and h: "\<And>w. w \<in> set (wm_listed st) \<Longrightarrow> at_home st w"
    using assms by (simp_all add: desk_inv_def members_ok_def)
  show "\<exists>a\<in>set (wm_workspaces st). wm_active st = Some a" "distinct (wm_workspaces st)"
    "\<forall>x\<in>set (wm_workspaces st). set (ws_windows (wm_of st x)) \<subseteq> set (wm_listed st) \<and>
      set (mru_list (wm_of st x)) \<subseteq> set (wm_listed st)"
    using l by (simp_all add: lists_ok_def)
  show "\<forall>w\<in>set (wm_listed st). \<not> override_redirect (wm_win st w) \<longrightarrow>
       (case win_workspace (wm_win st w) of
          None \<Rightarrow> on_all_workspaces (wm_win st w)
        | Some x \<Rightarrow> \<not> on_all_workspaces (wm_win st w) \<and> x \<in> set (wm_workspaces st)) \<and>
       (\<forall>x\<in>set (wm_workspaces st).
          count_list (ws_windows (wm_of st x)) w = (if located_on_ws st w x then 1 else 0) \<and>
          count_list (mru_list (wm_of st x)) w = (if located_on_ws st w x then 1 else 0))"
  proof (intro ballI impI conjI)
    fix w assume w: "w \<in> set (wm_listed st)" "\<not> override_redirect (wm_win st w)"
    have io: "inward st w" "outward st w" "on_all_workspaces (wm_win st w) \<or> win_workspace (wm_win st w) \<noteq> None"
      using h [OF w(1)] w(2) by (auto simp: at_home_def)
    then show "case win_workspace (wm_win st w) of
          None \<Rightarrow> on_all_workspaces (wm_win st w)
        | Some x \<Rightarrow> \<not> on_all_workspaces (wm_win st w) \<and> x \<in> set (wm_workspaces st)"
      by (auto simp: inward_def split: option.split)
    fix x assume x: "x \<in> set (wm_workspaces st)"
    have "w \<in> set (ws_windows (wm_of st x)) \<longleftrightarrow> located_on_ws st w x"
      using io(1,2) x unfolding inward_def outward_def by blast
    moreover have "distinct (ws_windows (wm_of st x))" "distinct (mru_list (wm_of st x))"
      "set (mru_list (wm_of st x)) = set (ws_windows (wm_of st x))"
      using l x by (simp_all add: lists_ok_def)
    ultimately show "count_list (ws_windows (wm_of st x)) w = (if located_on_ws st w x then 1 else 0)"
      "count_list (mru_list (wm_of st x)) w = (if located_on_ws st w x then 1 else 0)"
      by (simp_all add: count_list_distinct)
  qed
qed

lemma validated_now:
  assumes "desk_inv st" "ws \<in> set (wm_workspaces st)"
  shows "map_option (\<lambda>st'. the (ws_areas (wm_of st' ws))) (ensure_work_areas_validated ws st) =
    compute_work_areas (wm_display st) (wm_monitors st) (workspace_struts st ws)"
proof (cases "ws_areas (wm_of st ws)")
  case None
  then show ?thesis by (simp add: ensure_work_areas_validated_def option.map_comp o_def option.map_ident)
next
  case (Some A)
  then have "compute_work_areas (wm_display st) (wm_monitors st) (workspace_struts st ws) = Some A"
    using assms by (simp add: desk_inv_def coherent_def)
  with Some show ?thesis by (simp add: ensure_work_areas_validated_def)
qed

lemma workspace_getters:
  fixes ws st
  defines "cached \<equiv> map_option (\<lambda>st'. the (ws_areas (wm_of st' ws))) (ensure_work_areas_validated ws st)"
  shows "map_option fst (meta_workspace_get_work_area_for_monitor ws m st) =
      map_option (\<lambda>A. logical_monitor_work_area (wa_monitors A ! m)) cached"
    and "map_option fst (meta_workspace_get_work_area_all_monitors ws st) = map_option work_area_screen cached"
    and "map_option fst (meta_workspace_get_onscreen_region ws st) = map_option screen_region cached"
    and "map_option fst (meta_workspace_get_onmonitor_region ws m st) =
      map_option (\<lambda>A. logical_monitor_region (wa_monitors A ! m)) cached"
  by (simp_all add: cached_def option.map_comp o_def meta_workspace_get_work_area_for_monitor_def
      meta_workspace_get_work_area_all_monitors_def meta_workspace_get_onscreen_region_def
      meta_workspace_get_onmonitor_region_def)

end
