(* ===== verification/Workspace_Example.thy ===== *)
theory Workspace_Example
  imports Workspace_Calls Place_Example
begin

text \<open>
  Two workspaces over the desktop of the examples, with a window and its dialog, and a dock; and a
  reachable state in which a workspace cannot be removed; and a new window on a desktop with a dock.
\<close>

section \<open>Running calls\<close>

fun desk_runs :: "desk_call list \<Rightarrow> workspace_manager \<Rightarrow> workspace_manager option" where
  "desk_runs [] st = Some st"
| "desk_runs (c # cs) st = (if desk_allowed c st then Option.bind (desk_run c st) (desk_runs cs) else None)"

lemma desk_runs_reachable: "desk_reachable st \<Longrightarrow> desk_runs cs st = Some st' \<Longrightarrow> desk_reachable st'"
proof (induction cs arbitrary: st)
  case (Cons c cs)
  then obtain s where "desk_allowed c st" "desk_run c st = Some s" "desk_runs cs s = Some st'"
    by (auto split: if_splits bind_splits)
  then show ?case using Cons.IH desk_reachable.call [OF Cons.prems(1)] by blast
qed simp

definition a_member :: "meta_window_type \<Rightarrow> member_window" where
  "a_member type = \<lparr>frame_rect = mtk_rectangle_new 0 0 100 100, override_redirect = False, hidden = False,
     win_type = type, on_all_workspaces = False, win_workspace = None, minimized = False, client_pid = 0,
     stack_layer = 0, stack_position = 0, on_all_requested = False, always_sticky = False, is_unmanaging = False,
     is_constructing = False, off_primary = False, win_struts = []\<rparr>"

definition two_workspaces :: "workspace_manager option" where
  "two_workspaces = meta_workspace_manager_new 2 desk_display desk_monitors (Some 0)
     (\<lambda>_. a_member META_WINDOW_NORMAL) False"

lemma runs_two_reachable:
  assumes "Option.bind two_workspaces (desk_runs cs) = Some st"
  shows "desk_reachable st"
proof -
  obtain s where s: "two_workspaces = Some s" "desk_runs cs s = Some st" using assms by (auto split: bind_splits)
  from s(1) have "desk_reachable s" unfolding two_workspaces_def by (rule desk_reachable.new [rotated]) simp
  then show ?thesis using s(2) by (rule desk_runs_reachable)
qed

section \<open>A window, its dialog and a dock\<close>

definition ex_desk :: "workspace_manager option" where
  "ex_desk = Option.bind two_workspaces (desk_runs
     [Construct 1 (a_member META_WINDOW_NORMAL) None None [],
      Construct 2 (a_member META_WINDOW_DIALOG) (Some 1) None [],
      Construct 3 (a_member META_WINDOW_DOCK) None None (rev desk_struts)])"

lemma ex_desk_state:
  "ex_desk \<noteq> None" "wm_workspaces (the ex_desk) = [0, 1]" "wm_listed (the ex_desk) = [1, 2, 3]"
  "desk_allowed (Change_workspace 1 1) (the ex_desk)" "workspace_struts (the ex_desk) 0 = desk_struts"
  "wm_display (the ex_desk) = desk_display" "wm_monitors (the ex_desk) = desk_monitors"
  by code_simp+

lemma ex_desk_reachable: "desk_reachable (the ex_desk)"
  using ex_desk_state(1) by (auto simp: ex_desk_def intro: runs_two_reachable)

lemma ex_desk_moved:
  assumes "desk_run (Change_workspace 1 1) (the ex_desk) = Some st"
  shows "\<not> override_redirect (wm_win st 2)" "win_workspace (wm_win st 2) = Some 1" "2 \<in> set (wm_listed st)"
    "wm_workspaces st = [0, 1]"
proof -
  have "map_option (\<lambda>st. (override_redirect (wm_win st 2), win_workspace (wm_win st 2), 2 \<in> set (wm_listed st),
      wm_workspaces st)) (desk_run (Change_workspace 1 1) (the ex_desk)) = Some (False, Some 1, True, [0, 1])"
    by code_simp
  then show "\<not> override_redirect (wm_win st 2)" "win_workspace (wm_win st 2) = Some 1" "2 \<in> set (wm_listed st)"
    "wm_workspaces st = [0, 1]"
    using assms by simp_all
qed

section \<open>A workspace that cannot be removed\<close>

text \<open>A modal dialog that is made sticky makes its parent sticky too, but not the parent's other child.
  Removing the active workspace moves that child, and with it the parent, which is no longer sticky
  and so is put on the active workspace first, as is the dialog after it. The workspace is not empty
  and the assertion fails. Any other workspace can be removed.\<close>

definition stuck_desk :: "workspace_manager option" where
  "stuck_desk = Option.bind two_workspaces (desk_runs
     [Construct 1 (a_member META_WINDOW_NORMAL) None None [],
      Construct 2 (a_member META_WINDOW_NORMAL) (Some 1) None [],
      Construct 3 (a_member META_WINDOW_MODAL_DIALOG) (Some 1) None [],
      Stick 3])"

lemma removing_active_fails:
  "stuck_desk \<noteq> None \<and> desk_reachable (the stuck_desk) \<and> wm_active (the stuck_desk) = Some 0 \<and>
   meta_workspace_manager_remove_workspace None 0 (the stuck_desk) = None \<and>
   meta_workspace_manager_remove_workspace None 1 (the stuck_desk) \<noteq> None"
proof -
  have "stuck_desk \<noteq> None \<and> wm_active (the stuck_desk) = Some 0 \<and>
      Option.is_none (meta_workspace_manager_remove_workspace None 0 (the stuck_desk)) \<and>
      \<not> Option.is_none (meta_workspace_manager_remove_workspace None 1 (the stuck_desk))"
    by code_simp
  moreover from this have "desk_reachable (the stuck_desk)"
    by (auto simp: stuck_desk_def intro: runs_two_reachable)
  ultimately show ?thesis by (simp add: Option.is_none_def)
qed

section \<open>A window between the dock and the panel\<close>

lemma desk_apart: "monitors_apart desk_monitors"
  unfolding monitors_apart_def
  by (auto simp: desk_monitors_def less_Suc_eq mem_pixels mtk_rectangle_new_def)

definition dock_desk :: place_env where
  "dock_desk = (desk True False (\<lambda>_. shown_window (mtk_rectangle_new 60 30 500 250) META_WINDOW_NORMAL) [1] None)
     \<lparr>screen := desktop_env one_monitor desk_monitors (Some 0) [desk_areas] desk_areas\<rparr>"

lemma placed_below_on_dock_desk:
  "map_option (\<lambda>(w, r, _). r)
     (meta_window_constrain (placing_env dock_desk created_window) (constrained_window.truncate created_window)
        client_configure True META_GRAVITY_NORTH_WEST (screen_region desk_areas) (mtk_rectangle_new 0 0 400 300)
        (mtk_rectangle_new 0 0 400 300)) = Some (mtk_rectangle_new 60 280 400 300)"
  by code_simp

end
