(* ===== verification/Spec2Isabelle.thy ===== *)
theory Spec2Isabelle
  imports Mtk_Transform Place_Example Constrain_Example Edge_Example Stack_Example Boxes_Place Boxes_Edges Annot_Example
  Workspace_Layout Workspace_Example
begin

text \<open>
  A verification development for the annotation fork of Mutter and GNOME Shell. The fork adds an
  overlay on which a pen draws over the desktop: ink belongs to the window under the pen, moves,
  scrolls, restacks and closes with it, and the pen must not move the pointer meanwhile. The
  sources are under \<open>src/mutter\<close>; file names below are relative to it unless noted.

  \<^bold>\<open>The program's parts and how they interact.\<close>

  \<^item> The compositor (\<open>src/compositor/compositor.c\<close>) offers each event to the overlay first,
    through \<open>meta_compositor_route_annotation_event\<close>: dock chrome is hit tested, then the
    annotation layer handles the event.
  \<^item> The annotation layer (\<open>src/compositor/meta-annotation-layer.c\<close>) owns the ink: one buffer per
    window and one for the bare desktop, each a list of strokes and a surface they are painted on;
    it composes them into the actor's texture. Signals of windows, stage and display call it back.
  \<^item> The device policy (\<open>src/core/meta-annotation-input.c\<close>) decides which devices and events belong
    to the overlay and when the core pointer must stand still; the layer switches it on and off,
    and the native seat (\<open>src/backends/native/meta-seat-impl.c\<close>) asks it on each motion.
  \<^item> The D-Bus service (\<open>src/core/meta-annotation-dbus.c\<close>) turns the shell extension's method calls
    into calls of the layer, and emits \<open>RegionActivated\<close>.
  \<^item> Windows and their stacking (\<open>src/core/window.c\<close>, \<open>display.c\<close>) decide the anchor of a stroke
    and the order of the ink; rectangles and transforms (\<open>mtk/mtk/mtk-rectangle.c\<close>,
    \<open>mtk-monitor-transform.[ch]\<close>) and screen regions (\<open>src/core/boxes.c\<close>) are the geometry below.
  \<^item> Every event of the display enters at \<open>meta_display_handle_event\<close> (\<open>src/core/events.c\<close>), which
    asks the router above, and the policy which parts of the seat may see what the overlay took.
  \<^item> The scroll matcher (\<open>src/native/anno-motion.c\<close> at the root of the repository) is a program of
    its own: the shell extension runs it on two screenshots to learn how far a client scrolled,
    and passes the answer on through the service.

  \<^bold>\<open>Theories.\<close>

  \<^item> \<open>Annot_Prelude\<close>: conventions, theorem collections, generic facts on lists.
  \<^item> \<open>Mtk_Rectangle\<close>, \<open>Mtk_Transform\<close>: the rectangle operations against pixel sets, 32-bit bounds,
    the group of monitor transforms (locales \<open>transform_action\<close>, \<open>faithful_action\<close>).
  \<^item> \<open>Boxes_Region\<close>, \<open>Boxes_Place\<close>: spanning sets, expansion, clamping, clipping, shoving.
  \<^item> \<open>Boxes_Struts\<close>, \<open>Boxes_Edges\<close>: struts cut into disjoint rectangles, the edges windows snap
    to, and the boundary those edges trace.
  \<^item> \<open>Edge_Search\<close>, \<open>Edge_Resistance\<close>, \<open>Edge_Cache\<close>: how a dragged window resists and snaps to edges
    (\<open>src/compositor/edge-resistance.c\<close>): the searches in the sorted arrays, one side, all sides, a
    move and a resize, and the edges of a drag computed from the window stack; \<open>Edge_Example\<close>: one
    drag. \<open>apply_edge_resistance\<close> is related to a plain scan of the edges passed, and the arrays
    to the borders of what is visible. The product in \<open>points_on_same_side\<close> stays in an \<open>int\<close>
    for coordinates below 16384 in absolute value. \<open>cache_edges\<close> sorts without the assertion of the
    comparison that edges have a width or a height of 0, which the edges of \<open>boxes.c\<close> do.
  \<^item> \<open>Window_Constraints\<close>, \<open>Constrain_Window\<close>: the constraints on a window's rectangle and
    \<open>meta_window_constrain\<close> (\<open>src/core/constraints.c\<close>), with the conversions of \<open>window.c\<close>;
    \<open>Constrain_Region\<close>: every pass returns and gives the workspace's region back;
    \<open>Constrain_Reach\<close>, \<open>Constrain_Move\<close>: windows that the user moves stay within reach;
    \<open>Constrain_Maximize\<close>, \<open>Constrain_Popup\<close>: maximized windows and popups;
    \<open>Constrain_Example\<close>: windows on one monitor. The loop of \<open>meta_window_constrain\<close> runs once
    for each of the priorities 0 to 5, which is all that the code does.
  \<^item> \<open>Window_Place\<close>: where a new window goes (\<open>src/core/place.c\<close>); \<open>Place_Cascade\<close>: the cascade,
    with the locale \<open>cascade_search\<close> interpreted for the orders from the left (\<open>nw\<close>), from the
    right (\<open>ne\<close>) and around the centre (\<open>ce\<close>); \<open>Place_Fit\<close>: the first fit and the place beside
    the focus window; \<open>Place_Window\<close>: placing composed with the constraints;
    \<open>Place_Example\<close>: windows on one monitor. The cascade's loop is a \<open>function\<close> whose termination
    is proved by the room that is left and the windows that are left.
    \<open>window_distance\<close> squares in \<open>int\<close>, where the code's 32 bits are enough for corners that are
    less than 32768 pixels apart.
  \<^item> \<open>Workspace_Areas\<close>: the work areas of a workspace (\<open>src/core/workspace.c\<close>);
    \<open>Workspace_Desk\<close>: they are the screen that constraints and placement work on;
    \<open>Workspace_State\<close>: workspaces, the windows on them, and the operations of \<open>workspace.c\<close>,
    \<open>meta-workspace-manager.c\<close> and \<open>window.c\<close> that move windows between them, each returning the
    state or, after a failed assertion, nothing; \<open>Workspace_Members\<close>: the invariant stated in
    \<open>window.c\<close> and the effect of moving one window; \<open>Workspace_Windows\<close>, \<open>Workspace_Desks\<close>,
    \<open>Workspace_Manage\<close>, \<open>Workspace_Life\<close>, \<open>Workspace_Unmanage\<close>, \<open>Workspace_Reach\<close>: families of windows,
    workspaces, new and closing windows, parents and preferences keep it; \<open>Workspace_Calls\<close>: the
    calls and what they reach (\<open>inductive desk_reachable\<close>); \<open>Workspace_Example\<close>: two workspaces;
    \<open>Workspace_Layout\<close>: the grid of workspaces and walking through it.
  \<^item> \<open>Clutter_Input\<close>, \<open>Meta_Display\<close>: the event, device and window attributes the code reads; the
    stacking order and the choice of an anchor.
  \<^item> \<open>Meta_Stack\<close>: the window stack of \<open>src/core/stack.c\<close> with the layers of windows and the
    restacking calls of \<open>window.c\<close>; \<open>Stack_Order\<close>: the invariant of its positions, and that
    constraints are built and applied without error; \<open>Stack_Reach\<close>: its calls
    (\<open>stack_call\<close>), the reachable stacks (\<open>inductive stack_reach\<close>) and the locale
    \<open>stack_kept\<close>, in which what the steps of a call keep is shown to hold after every call,
    interpreted for the forest of transients (\<open>fo\<close>), the order of the list (\<open>od\<close>) and the
    place of transients (\<open>tr\<close>); \<open>Stack_Transient\<close>, \<open>Stack_Raise\<close>: those invariants, the
    agreement with the overlay's order, and what raising moves; \<open>Stack_Example\<close>: two sessions.
  \<^item> \<open>Ink_Geometry\<close>, \<open>Ink_Hit\<close>: strokes, bounding boxes, painted shapes, the eraser's two-phase hit
    test and its exactness.
  \<^item> \<open>Ink_Surface\<close>: surfaces, replay of strokes with editor clip and scroll, erasing in an array.
  \<^item> \<open>Annot_Input\<close>: the device policy and the seat's two motion handlers.
  \<^item> \<open>Annot_Layer\<close>, \<open>Annot_Events\<close>: \<open>struct _MetaAnnotationLayer\<close> as a record and every operation of
    the file as a function on it.
  \<^item> \<open>Annot_Store\<close>: the buffers as a keyed store (locale \<open>buffer_store\<close>, interpreted for strokes and
    for surfaces).
  \<^item> \<open>Annot_Invariant\<close>, \<open>Annot_Preserve\<close>, \<open>Annot_Safety\<close>, \<open>Annot_Reach\<close>: the invariant
    \<open>layer_ok\<close> and its preservation by every operation.
  \<^item> \<open>Annot_Service\<close>: the D-Bus service, the router, every call the layer can get as the datatype
    \<open>annot_call\<close>, the reachable states (\<open>inductive annot_reach\<close>), and the contract
    (locale \<open>layer_contract\<close>) by which what every call keeps holds of every reachable state;
    it is interpreted for \<open>layer_ok\<close> (\<open>wf\<close>) and for the mode invariant of \<open>Annot_Mode\<close> (\<open>md\<close>).
  \<^item> \<open>Annot_Display\<close>: the event path of \<open>src/core/events.c\<close> around the overlay, as the trace of the
    calls it makes, and the pen cursors of \<open>meta-sprite.c\<close> and \<open>meta-wayland-tablet-tool.c\<close>.
  \<^item> \<open>Annot_Fresh\<close>: repaints scheduled by signals and calls (\<open>inductive announced_run\<close>), and the
    claim that the texture catches up with the ink.
  \<^item> \<open>Anno_Motion\<close>: the scroll matcher \<open>src/native/anno-motion.c\<close>, from its argument vector and
    files to its output line and exit status; \<open>atoi\<close> is that of glibc on 64-bit machines.
  \<^item> \<open>Annot_Compose\<close>: what recomposition shows at a pixel; \<open>Annot_Live\<close>: live ink against replayed
    ink; \<open>Annot_Effects\<close>, \<open>Annot_Gestures\<close>: the effect of each buffer operation and of tap gestures.
  \<^item> \<open>Annot_Example\<close>: one concrete display and layer, where the witnesses live.

  \<^bold>\<open>How state corresponds to the code.\<close> A record field is a struct field under its name. A NULL
  pointer is \<^const>\<open>None\<close>; a window is the number of its object and \<open>win_of\<close> dereferences it; a
  stroke keeps its address (\<open>stroke_id\<close>), because \<open>current_stroke\<close> points into an array and writes
  go through it. The file-scope state of the device policy is the record \<open>annot_input\<close>, threaded
  through the calls that change it; its mutex only serialises access, so operations are atomic
  steps. A cairo surface is its size and the list of fills painted since it was cleared, each with
  the clip and translation of its context; the composite is the list of its blits and punches.
  Time is an argument. An idle source is the flag \<open>recompose_idle\<close>; its run is a call of its own.

  \<^bold>\<open>Numbers.\<close> \<open>float\<close> and \<open>double\<close> are \<^typ>\<open>real\<close>: rounding is idealised away. \<open>int\<close> is \<^typ>\<open>int\<close>,
  signed overflow being undefined in C; \<open>rect_within\<close> bounds coordinates, and rectangle
  results are shown to stay in 32 bits under it. Bit masks and process ids are words.
  Division and remainder of \<open>int\<close> are \<open>sdiv\<close> and \<open>smod\<close>, which truncate as C does. All
  loops are total functions, by structural recursion or a measure, but for the walks along parents,
  which are \<open>partial_function\<close>s shown to end where parents form no loop; no fuel is used. A failed
  \<open>g_assert\<close> is \<^const>\<open>None\<close>.

  \<^bold>\<open>Parameters.\<close> Cairo's regions are \<open>region_ops\<close>, with cairo's documented set semantics as the
  hypothesis \<open>region_laws\<close>; \<open>rect_list_region_laws\<close> shows that lists of rectangles satisfy it.
  \<open>graphene_rect_contains_point\<close> and rounding to integers are arguments where they are used.

  \<^bold>\<open>What the lemmas show.\<close> Safety: no pointer of a reachable layer dangles, whatever order calls,
  events and signals come in. Picture: the texture is the topmost ink at every pixel, what is
  painted live is what a replay paints, and no announced change is left unpainted. Editing: erasing,
  undoing, clearing, closing, resizing and scrolling change exactly the strokes they should. Input:
  the pointer is isolated exactly while the layer is active, the tablet never moves it, a plain mouse
  is never held, clients get nothing that the overlay consumed but scrolls, and an overlay that is off leaves
  the event path as it was. Stacking: positions
  never get out of step, dialogs stay above their windows, raising puts a window on top of its
  layer, and the overlay sees the order the compositor draws in. Workspaces:
  every window is on the workspaces it says and in their lists, and work areas are those of the
  struts that are there. Windows: a new window for which there is a place covers no other and no
  strut, one that is moved stays within reach, a maximized one covers a largest free rectangle, a
  popup slides back into the work area, each under the conditions stated with it. Gestures: which taps clear, and which never do. Geometry: the eraser
  is exact, regions, placement and edges meet the contracts stated in their sources, rectangles
  are sets of pixels, transforms are invertible. Scroll matcher: it ends without an undefined
  read, finds the shift of least mean error, and its confidence is characterised.

  \<^bold>\<open>Not modelled.\<close>

  \<^item> Code that the fork inherits and leaves as it was: the X11 and Wayland servers, the backends,
    Clutter, Cogl, St, and the window management outside the files named above. What the modelled
    code asks of it is a record field, an argument or an answer given with the call.
  \<^item> Cairo's rasterisation, graphene, GDBus and the clock: parameters as said above.
  \<^item> The shell extension, the legacy application and the scripts, which are not C.
  \<^item> Of \<open>boxes.c\<close>, the textual dumps and the functions that only free lists.
  \<^item> Construction and freeing of GObjects, except where freeing leaves or clears a pointer the
    invariant is about; the rounding of floating point; the mutex of the device policy.
  \<^item> Of windows being constrained and placed: how monitors are laid out, which windows show, and what
    minimizing or queueing a window does beyond its flag. Quotients of doubles by zero in the aspect
    constraint give no result in the model.
  \<^item> Of workspaces: focus, sounds, accessibility and the handlers of signals. While
    \<open>set_workspace_state\<close> runs, a handler that asked for work areas would have them computed and
    cached before the window's place is set; a call of the model does everything before the next.
  \<^item> Tile matches and the bookkeeping of X11 groups beside the stack: \<open>group_windows\<close> is given.
\<close>

section \<open>Reachable layers\<close>

text \<open>
  C1. Memory safety and well-formedness of every reachable layer: each window the layer points
  to (the stroke's, the last ink's, a pending tap's, a recorded tap's) still has ink, so its
  \<open>unmanaged\<close> handler is connected and no pointer can dangle; the stroke in flight belongs
  to an active gesture and is the last stroke of the array it is drawn into; stroke objects are
  never shared between buffers; every stored stroke has points and a bounding box that covers
  its ink; window surfaces have the size the layer believes; the tap history stays below its
  capacity.
\<close>

theorem reachable_layer_safe:
  assumes "annot_reach R (l, g)"
  shows "has_ink l (stroke_anchor l) \<and> has_ink l (last_ink_anchor l) \<and>
    (pending_tap l \<longrightarrow> has_ink l (pending_tap_anchor l)) \<and>
    (\<forall>t \<in> set (tap_history l). has_ink l (tap_anchor t)) \<and>
    length (tap_history l) < TAP_HISTORY_SIZE \<and>
    (\<forall>i. current_stroke l = Some i \<longrightarrow> stroke_active l \<and>
      (\<exists>ss s. strokes_at l (stroke_anchor l) = Some (ss @ [s]) \<and> stroke_id s = i)) \<and>
    (\<forall>a ss. strokes_at l a = Some ss \<longrightarrow> (\<forall>s \<in> set ss. points s \<noteq> [] \<and> bbox_ok s)) \<and>
    (\<forall>a b ss ts s t. strokes_at l a = Some ss \<longrightarrow> strokes_at l b = Some ts \<longrightarrow>
      s \<in> set ss \<longrightarrow> t \<in> set ts \<longrightarrow> stroke_id s = stroke_id t \<longrightarrow> a = b) \<and>
    (\<forall>w k. per_window l w = Some k \<longrightarrow> wi_window k = w \<and>
      cs_width (wi_surface k) = wi_width k \<and> cs_height (wi_surface k) = wi_height k)"
proof -
  have ok: "layer_ok l" using wf.reachable [OF assms] by simp
  note D = layer_okD [OF ok]
  have "\<forall>i. current_stroke l = Some i \<longrightarrow> stroke_active l \<and>
      (\<exists>ss s. strokes_at l (stroke_anchor l) = Some (ss @ [s]) \<and> stroke_id s = i)"
    using D(2) by (auto simp: flight_ok_def flight_at_def)
  moreover have "\<forall>a ss. strokes_at l a = Some ss \<longrightarrow> (\<forall>s \<in> set ss. points s \<noteq> [] \<and> bbox_ok s)"
    using store_okD(2) [OF D(1)] by (auto simp: stroke_ok_def)
  moreover have "\<forall>a b ss ts s t. strokes_at l a = Some ss \<longrightarrow> strokes_at l b = Some ts \<longrightarrow>
      s \<in> set ss \<longrightarrow> t \<in> set ts \<longrightarrow> stroke_id s = stroke_id t \<longrightarrow> a = b"
    using store_okD(3) [OF D(1)] by blast
  moreover have "\<forall>w k. per_window l w = Some k \<longrightarrow> wi_window k = w \<and>
      cs_width (wi_surface k) = wi_width k \<and> cs_height (wi_surface k) = wi_height k"
    using D(4) by (auto simp: windows_ok_def ink_wf_def)
  ultimately show ?thesis using D(3,5) by (simp add: anchors_ok_def misc_ok_def)
qed

theorem reachable_layer_safe_witness:
  "annot_reach rect_list_regions ex_pressed \<and>
   (\<exists>ss s. strokes_at (fst ex_pressed) (Some 7) = Some (ss @ [s]) \<and>
      current_stroke (fst ex_pressed) = Some (stroke_id s) \<and> points s \<noteq> [])"
proof -
  obtain l g where p: "ex_pressed = (l, g)" by fastforce
  note reach = ex_pressed_reach [unfolded p] and F = ex_pressed_fields [unfolded p fst_conv]
  obtain i where i: "current_stroke l = Some i" using F(2) by auto
  note safe = reachable_layer_safe [OF reach]
  then obtain ss s where s: "strokes_at l (Some 7) = Some (ss @ [s])" "stroke_id s = i"
    using i F(3) by auto
  with safe have "points s \<noteq> []" by auto
  then show ?thesis using s i reach by (auto simp: p)
qed

text \<open>
  C2. What recomposition uploads, pixel by pixel: for any region library that keeps cairo's
  documented laws, the texture shows at every pixel of the stage nothing under the dock's chrome,
  otherwise the ink of the topmost visible window whose frame has the pixel (at the position
  relative to that frame), otherwise the desktop's ink. A window without ink hides the ink of the
  windows below it.
\<close>

theorem recompose_shows_topmost_ink:
  assumes "region_laws (region_lib e)"
    and "surface l \<noteq> None" "layer_display l" "active l" "\<not> paused l"
    and "in_rect p (stage_rect l)"
  shows "\<exists>t. texture (recompose e l) = Some t \<and> shown_at_pixel p (comp_ops t) = ink_shown e l p"
proof -
  let ?l = "l\<lparr>recompose_dirty := False\<rparr>"
  have "stage_rect ?l = stage_rect l" "ink_shown e ?l p = ink_shown e l p"
    by (simp_all add: stage_rect_def ink_shown_def chrome_at_def cong: option.case_cong)
  then show ?thesis
    using compose_shows [OF assms(1), of p ?l] assms
    by (auto simp: recompose_def Let_def sync_texture_from_surface_def)
qed

theorem recompose_shows_topmost_ink_witness:
  "\<exists>t. texture (recompose ex_env ex_layer) = Some t \<and>
     shown_at_pixel (150, 150) (comp_ops t) = [(wi_surface ex_ink, 50, 50)]"
  using recompose_shows_topmost_ink [of ex_env ex_layer "(150, 150)"]
  by (simp add: rect_list_region_laws in_rect_iff stage_rect_def ex_ink_shown)

text \<open>
  C3. No repaint is lost: as long as every change of the display is announced by a signal the layer
  is connected to, a shown layer either has a texture of the current composition, or an idle
  recomposition is installed whose run makes it so. (\<open>set_chrome_regions (NULL)\<close> is excluded: it
  forgets to schedule. A move of a window without ink is not announced, see
  \<open>unannounced_move_leaves_stale_ink\<close>.)
\<close>

theorem no_repaint_is_lost:
  assumes "announced_run e (l, g)" and "layer_display l" "active l" "\<not> paused l"
  shows "up_to_date e (if recompose_idle l then recompose_idle_cb e l else l)"
proof (cases "recompose_idle l")
  case True
  then show ?thesis
    using assms(2-4) recompose_up_to_date [of "l\<lparr>recompose_idle := False\<rparr>" e]
    by (simp add: recompose_idle_cb_def)
next
  case False
  then show ?thesis
    using announced_run_settled [OF assms(1)] assms(2-4) by (simp add: settled_def repaint_due_def)
qed

theorem no_repaint_is_lost_witness:
  "let l = on_display_restacked (fst ex_active)
   in recompose_idle l \<and> up_to_date ex_env (recompose_idle_cb ex_env l)"
proof -
  obtain l0 g0 where new: "meta_annotation_layer_new ex_env True annot_input_init = (l0, g0)" by fastforce
  have run: "announced_run ex_env (meta_annotation_layer_new ex_env True annot_input_init)"
    by (rule announced_run.start)
  have act: "announced_run ex_env ex_active"
    unfolding ex_active_def by (rule announced_run.call [OF run]) simp_all
  obtain l g where a: "ex_active = (l, g)" by fastforce
  have "announced_run ex_env (exec_call ex_env Sig_restacked ex_active)"
    by (rule announced_run.call [OF act]) simp_all
  then have r: "announced_run ex_env (on_display_restacked l, g)" by (simp add: a)
  have f: "active l" "\<not> paused l" "surface l \<noteq> None" "layer_display l"
    using ex_active_fields by (simp_all add: a)
  then have "recompose_idle (on_display_restacked l)" "active (on_display_restacked l)"
    "\<not> paused (on_display_restacked l)" "layer_display (on_display_restacked l)"
    by (auto simp: on_display_restacked_def schedule_recompose_def)
  with no_repaint_is_lost [OF r] show ?thesis by (simp add: a Let_def)
qed

text \<open>Moving a window that has no ink over one that has: no signal tells the layer, and the texture
  keeps showing the ink of the window that is now covered.\<close>

lemma unannounced_move_leaves_stale_ink:
  "\<exists>t. texture (recompose (ex_two 500) ex_layer) = Some t \<and>
     shown_at_pixel (150, 150) (comp_ops t) = [(wi_surface ex_ink, 50, 50)] \<and>
     ink_shown (ex_two 100) (recompose (ex_two 500) ex_layer) (150, 150) = [] \<and>
     \<not> call_enabled (Sig_position 8) (recompose (ex_two 500) ex_layer)"
proof -
  have vis: "visible_windows (ex_two x) = [7, 8]" for x
    by (simp add: visible_windows_def ex_two_def ex_env_def meta_display_sort_windows_by_stacking_def
        window_is_visible_for_ink_def window_is_eligible_anchor_def meta_window_located_on_workspace_def
        ex_window_def meta_window_stack_position_compare_def)
  have laws: "region_laws (region_lib (ex_two x))" for x
    by (simp add: ex_two_def rect_list_region_laws)
  have keep: "per_window (recompose (ex_two 500) ex_layer) = per_window ex_layer"
      "chrome_regions (recompose (ex_two 500) ex_layer) = None"
    by (simp_all add: recompose_def sync_texture_from_surface_def Let_def)
  have "ink_shown (ex_two 500) ex_layer (150, 150) = [(wi_surface ex_ink, 50, 50)]"
    by (simp add: ink_shown_def chrome_at_def topmost_visible_def vis in_rect_iff) (simp add: ex_two_def)
  moreover have "ink_shown (ex_two 100) (recompose (ex_two 500) ex_layer) (150, 150) = []"
    by (simp add: ink_shown_def chrome_at_def topmost_visible_def vis in_rect_iff keep) (simp add: ex_two_def)
  moreover have "shown_at_pixel (150, 150) (compose_ops (ex_two 500) ex_layer) =
      ink_shown (ex_two 500) ex_layer (150, 150)"
    by (rule compose_shows [OF laws]) (simp add: stage_rect_def in_rect_iff)
  ultimately show ?thesis by (simp add: recompose_def sync_texture_from_surface_def Let_def)
qed

text \<open>
  C4. Ink drawn live is ink that will be replayed. On a reachable layer that has its surface, let the
  surface of the buffer under the pen hold exactly what \<open>rasterize_all_strokes\<close> paints from its
  stored strokes. Then a press and one or more motions, with tilt factors of at least 1, drawing (not
  erasing) a stroke that does not follow the scroll, leave it so: repainting from the stored strokes
  gives the picture that was drawn. (A press without a motion stores a point and paints nothing.)
\<close>

theorem live_ink_is_replayed_ink:
  assumes "annot_reach R (l, g)" and "surface l \<noteq> None"
    and "tilts_ok ((x, y, pr, tilt) # ms)" and "ms \<noteq> []"
    and "in_sync (with_ink e (begin_anchor e x y l) l) (begin_anchor e x y l)"
    and "\<not> begin_follows e x y False l"
  shows "in_sync (pen_moves e ms (begin_stroke e x y pr tilt False l)) (begin_anchor e x y l)"
proof -
  have ok: "layer_ok l" using wf.reachable [OF assms(1)] by simp
  have t: "tilt = Some f \<Longrightarrow> 1 \<le> f" for f using assms(3) by (simp add: tilts_ok_def)
  have ms: "tilts_ok ms" using assms(3) by (simp add: tilts_ok_def)
  from begin_draws [OF ok t assms(2,5,6), where pr = pr and tilt = tilt] obtain ss where
    d: "drawing (replay_cmds ss (ink_at (with_ink e (begin_anchor e x y l) l) (begin_anchor e x y l))) ss 1
      (begin_stroke e x y pr tilt False l)"
    and g: "gesture (begin_anchor e x y l) (ink_at (with_ink e (begin_anchor e x y l) l) (begin_anchor e x y l))
      (begin_stroke e x y pr tilt False l)" by auto
  note M = gesture_moves [OF g d ms]
  have "2 \<le> 1 + length ms" using assms(4) by (cases ms) auto
  then show ?thesis by (rule drawing_in_sync [OF M(2) _ M(1)])
qed

theorem live_ink_is_replayed_ink_witness:
  "in_sync (pen_moves ex_env [(160, 155, Some 1, None), (170, 150, Some (1 / 2), Some 2)]
     (begin_stroke ex_env 150 150 (Some (1 / 2)) (Some 1) False (fst ex_active))) (Some 7)"
proof -
  have a: "begin_anchor ex_env 150 150 (fst ex_active) = Some 7"
    using ex_pick ex_active_fields by (simp add: begin_anchor_def)
  have "in_sync (with_ink ex_env (Some 7) (fst ex_active)) (Some 7)"
    "\<not> begin_follows ex_env 150 150 False (fst ex_active)"
    using ex_active_fields a
    by (simp_all add: begin_follows_def with_ink_def ex_ensure in_sync_iff ink_at_def surface_at_def
        strokes_at_def put_ink_def window_ink_new_def cairo_surface_new_cleared_def has_region_def
        split: prod.split)
  then show ?thesis
    using live_ink_is_replayed_ink [of rect_list_regions "fst ex_active" "snd ex_active" 150 150
        "Some (1 / 2)" "Some 1" "[(160, 155, Some 1, None), (170, 150, Some (1 / 2), Some 2)]" ex_env]
      ex_active_reach ex_active_fields a
    by (simp add: tilts_ok_def)
qed

section \<open>The eraser\<close>

text \<open>
  C5. The eraser's hit test is exact: for a stroke built by appending two or more points, the
  bounding-box rejection followed by the segment tests reports a hit exactly when some point of
  the eraser's path comes within the radius of some point of the stroke's polyline.
\<close>

theorem eraser_hits_exactly:
  assumes "2 \<le> length ps" and "list_all (\<lambda>p. 0 \<le> ip_tilt_factor p) ps" and "0 \<le> r"
    and "regular_segment ax ay bx by'" and "regular_polyline ps"
  shows "stroke_hit_by_eraser (fold (\<lambda>p s. stroke_append_point s p) ps (stroke_new i c)) ax ay bx by' r
    \<longleftrightarrow> polyline_within ps ax ay bx by' r"
proof -
  let ?s = "fold (\<lambda>p s. stroke_append_point s p) ps (stroke_new i c)"
  have "points (stroke_new i c) = []" by (simp add: stroke_new_def)
  then have "points ?s = ps" "bbox_ok ?s" "tilt_ok ?s"
    using fold_append_points [where ps = ps and s = "stroke_new i c"] assms(2) by simp_all
  then show ?thesis using eraser_exact [of ?s r ax ay bx by'] assms by simp
qed

theorem eraser_hits_exactly_witness: "stroke_hit_by_eraser ex_stroke 20 0 20 30 8"
proof -
  have "polyline_within (points ex_stroke) 20 0 20 30 8"
    unfolding polyline_within_def ex_stroke_fields
    by (rule exI [of _ 0], rule exI [of _ "1 / 3"], rule exI [of _ "1 / 3"])
       (simp add: seg_point_def dist_sq_def)
  then show ?thesis
    using eraser_hits_exactly [of "points ex_stroke" 8 20 0 20 30 0 "(0, 0, 0, 1)"]
    unfolding ex_stroke_fields ex_stroke_def
    by (simp add: regular_segment_def regular_polyline_def seg_len2_def)
qed

text \<open>
  \<open>segment_to_segment_dist\<close> is the distance between the two segments: it is attained at
  points of them, and no pair of points is closer. Segments shorter than a micro-pixel but not
  degenerate, which the code treats as points, are excluded.
\<close>

theorem segment_distance_is_minimum:
  assumes "regular_segment ax ay bx by'" "regular_segment cx cy dx dy"
  shows "(\<exists>s t. 0 \<le> s \<and> s \<le> 1 \<and> 0 \<le> t \<and> t \<le> 1 \<and>
      segment_to_segment_dist ax ay bx by' cx cy dx dy =
      sqrt (dist_sq (seg_point ax ay bx by' s) (seg_point cx cy dx dy t))) \<and>
    (\<forall>s t. 0 \<le> s \<and> s \<le> 1 \<and> 0 \<le> t \<and> t \<le> 1 \<longrightarrow>
      segment_to_segment_dist ax ay bx by' cx cy dx dy \<le>
      sqrt (dist_sq (seg_point ax ay bx by' s) (seg_point cx cy dx dy t)))"
  using segment_dist_attained [of ax ay bx by' cx cy dx dy] segment_dist_minimal [OF assms]
  unfolding seg_dist_witness_def by blast

theorem segment_distance_is_minimum_witness:
  "segment_to_segment_dist 0 0 10 0 0 3 10 7 \<le> sqrt (dist_sq (seg_point 0 0 10 0 0) (seg_point 0 3 10 7 0))"
proof -
  have "regular_segment 0 0 10 0" "regular_segment 0 3 10 7"
    by (simp_all add: regular_segment_def seg_len2_def)
  from segment_distance_is_minimum [OF this] show ?thesis
    by (blast intro: order_refl zero_le_one)
qed

text \<open>
  C6. One motion with the eraser: of the buffer under the pen exactly the strokes the eraser's
  segment hits go, the others stay in order, every other buffer is untouched, and if anything was
  removed the surface is repainted from the survivors, otherwise it is left as it was.
\<close>

theorem erasing_keeps_survivors:
  assumes "surface_at l (stroke_anchor l) = Some c" and "strokes_at l (stroke_anchor l) = Some ss"
    and "convert_stage_to_local e l x y = (lx, ly)"
  shows "let r = eraser_radius (case pr of Some p \<Rightarrow> p | None \<Rightarrow> last_pressure l)
        (case tilt of Some t \<Rightarrow> t | None \<Rightarrow> last_tilt_factor l);
      ss' = filter (\<lambda>s. \<not> eraser_hits (ink_at l (stroke_anchor l)) (stroke_last_x l) (stroke_last_y l)
        lx ly r s) ss;
      l' = continue_stroke e x y pr tilt True l
    in strokes_at l' = (strokes_at l)(stroke_anchor l \<mapsto> ss') \<and>
       (if ss' = ss then surface_at l' (stroke_anchor l) = Some c else in_sync l' (stroke_anchor l))"
proof -
  let ?p = "case pr of Some p \<Rightarrow> p | None \<Rightarrow> last_pressure l"
  let ?t = "case tilt of Some t \<Rightarrow> t | None \<Rightarrow> last_tilt_factor l"
  have "continue_stroke e x y pr tilt True l = schedule_recompose ((continue_erase lx ly ?p ?t l)
      \<lparr>stroke_last_x := lx, stroke_last_y := ly, last_pressure := ?p, last_tilt_factor := ?t\<rparr>)"
    using assms(3) by (simp add: continue_stroke_def Let_def)
  then show ?thesis
    using erase_effect [OF assms(1,2), where lx = lx and ly = ly and p = ?p and t = ?t]
    unfolding Let_def survivors_def by simp
qed

theorem erasing_keeps_survivors_witness:
  "let l' = continue_stroke ex_env 200 400 (Some 1) None True ex_layer
   in \<exists>ss'. strokes_at l' (Some 7) = Some ss' \<and> strokes_at l' None = Some []"
proof -
  obtain lx ly where loc: "convert_stage_to_local ex_env ex_layer 200 400 = (lx, ly)" by fastforce
  show ?thesis
    using erasing_keeps_survivors [OF _ _ loc, of "wi_surface ex_ink" "[ex_stroke]" "Some 1" None]
    by (simp add: Let_def)
qed

section \<open>Undo, clear, and a window's end\<close>



text \<open>
  C8. When a window is unmanaged, a reachable layer drops its ink and every pointer to it: the
  stroke's anchor, the last ink's, a pending tap's and every recorded tap's; the ink of all other
  windows and the desktop's strokes are kept.
\<close>

theorem window_close_leaves_no_pointer:
  assumes "annot_reach R (l, g)"
  shows "let l' = on_window_unmanaged w l
    in per_window l' = (per_window l)(w := None) \<and> unattached_strokes l' = unattached_strokes l \<and>
       stroke_anchor l' \<noteq> Some w \<and> last_ink_anchor l' \<noteq> Some w \<and>
       (pending_tap l' \<longrightarrow> pending_tap_anchor l' \<noteq> Some w) \<and>
       (\<forall>t \<in> set (tap_history l'). tap_anchor t \<noteq> Some w)"
proof -
  have ok: "layer_ok l" using wf.reachable [OF assms] by simp
  have "unattached_strokes (on_window_unmanaged w l) = unattached_strokes l"
    by (simp add: on_window_unmanaged_def Let_def schedule_recompose_def drop_stroke_def
        set_stroke_anchor_eq set_last_ink_anchor_eq)
  then show ?thesis using unmanaged_effect [OF ok, where w = w] by (simp add: Let_def)
qed

theorem window_close_leaves_no_pointer_witness:
  "per_window (on_window_unmanaged 7 (fst ex_pressed)) 7 = None \<and>
   stroke_anchor (on_window_unmanaged 7 (fst ex_pressed)) \<noteq> Some 7"
  using window_close_leaves_no_pointer [of rect_list_regions "fst ex_pressed" "snd ex_pressed" 7]
    ex_pressed_reach by (simp add: Let_def)

text \<open>
  \<open>Clear\<close> leaves no ink anywhere: every buffer that existed still exists, without strokes and
  with nothing painted; no stroke is in flight and there is nothing to undo.
\<close>

theorem clear_empties_everything:
  "let l' = meta_annotation_layer_clear e l
   in strokes_at l' a = map_option (\<lambda>ss. []) (strokes_at l a) \<and>
      surface_at l' a = map_option (\<lambda>c. c\<lparr>cs_cmds := []\<rparr>) (surface_at l a) \<and>
      \<not> stroke_active l' \<and> current_stroke l' = None \<and> meta_annotation_layer_undo_last l' = l'"
  using clear_effect [of e l] by (simp add: Let_def undo_nothing)

section \<open>Scroll following and resizes\<close>

text \<open>
  C9. A stroke that follows an editor's scroll is stored in the editor's content space, and in
  every reachable layer the newest stored point of the stroke in flight is painted exactly where
  the pen last was: the translation a replay uses takes it back there.
\<close>

theorem follow_scroll_point_under_pen:
  assumes "annot_reach R (l, g)" and "current_stroke l = Some i"
  shows "\<exists>ss s. strokes_at l (stroke_anchor l) = Some (ss @ [s]) \<and> stroke_id s = i \<and>
    shown_at (ink_at l (stroke_anchor l)) (follow_scroll s)
      (ip_x (last (points s)), ip_y (last (points s))) = (stroke_last_x l, stroke_last_y l)"
proof -
  have "flight_ok l" using layer_okD(2) [of l] wf.reachable [OF assms(1)] by simp
  then obtain ss s where s: "strokes_at l (stroke_anchor l) = Some (ss @ [s])" "stroke_id s = i"
      "follow_scroll s = stroke_follow_scroll l" "last (points s) = pen_point l"
    using assms(2) by (auto simp: flight_ok_def flight_at_def)
  then show ?thesis
    by (intro exI [of _ ss] exI [of _ s])
       (simp add: shown_at_def pen_point_def follow_shift_def split: option.split)
qed

theorem follow_scroll_point_under_pen_witness:
  "\<exists>ss s. strokes_at (fst ex_pressed) (Some 7) = Some (ss @ [s]) \<and>
    shown_at (ink_at (fst ex_pressed) (Some 7)) (follow_scroll s)
      (ip_x (last (points s)), ip_y (last (points s))) =
    (stroke_last_x (fst ex_pressed), stroke_last_y (fst ex_pressed))"
proof -
  obtain i where "current_stroke (fst ex_pressed) = Some i" using ex_pressed_fields(2) by auto
  then show ?thesis
    using follow_scroll_point_under_pen [of rect_list_regions "fst ex_pressed" "snd ex_pressed" i]
      ex_pressed_reach ex_pressed_fields(3) by auto
qed

text \<open>
  A scroll update of a process: every window of the process that has ink gets the new
  offset, no stored stroke of any buffer changes, no other window's ink changes, and every buffer
  whose surface showed its strokes still does.
\<close>

theorem scroll_update_repaints:
  "let l' = meta_annotation_layer_set_window_scroll e pid sx sy l
   in strokes_at l' = strokes_at l \<and>
      (\<forall>a. in_sync l a \<longrightarrow> in_sync l' a) \<and>
      (\<forall>w k. layer_display l \<longrightarrow> w \<in> set (collect_windows_for_pid e pid) \<longrightarrow>
         per_window l w = Some k \<longrightarrow>
         (\<exists>k'. per_window l' w = Some k' \<and> scroll_x k' = of_int sx \<and> scroll_y k' = of_int sy)) \<and>
      (\<forall>w. w \<notin> set (collect_windows_for_pid e pid) \<longrightarrow> per_window l' w = per_window l w)"
  by (fastforce simp: Let_def scroll_update_strokes scroll_update_in_sync scroll_update_windows)

theorem scroll_update_repaints_witness:
  "\<exists>k'. per_window (meta_annotation_layer_set_window_scroll ex_env 42 0 35 ex_layer) 7 = Some k' \<and>
     scroll_y k' = 35 \<and> in_sync (meta_annotation_layer_set_window_scroll ex_env 42 0 35 ex_layer) (Some 7)"
proof -
  have "in_sync ex_layer (Some 7)"
    by (simp add: in_sync_window) (simp add: ex_ink_def window_ink_new_def replay_cmds_def
        follow_context_def has_region_def)
  moreover have "7 \<in> set (collect_windows_for_pid ex_env 42)"
    by (simp add: collect_windows_for_pid_def ex_defs)
  ultimately show ?thesis
    using scroll_update_repaints [of ex_env 42 0 35 ex_layer] by (fastforce simp: Let_def)
qed

text \<open>
  When a window with ink gets a new non-empty size, its surface is reallocated at that size
  and repainted from its strokes, and no stored stroke changes.
\<close>

theorem window_resize_repaints:
  assumes "per_window l w = Some k" and "wi_window k = w" and "frame_rect (win_of e w) = fr"
    and "1 \<le> rect_width fr" "1 \<le> rect_height fr"
    and "(wi_width k, wi_height k) \<noteq> (rect_width fr, rect_height fr)"
  shows "let l' = on_window_size_changed e w l
    in strokes_at l' = strokes_at l \<and> in_sync l' (Some w) \<and>
       (\<exists>c. surface_at l' (Some w) = Some c \<and> cs_width c = rect_width fr \<and> cs_height c = rect_height fr)"
  using window_resize_effect [of l w k e] assms by (simp add: Let_def)

theorem window_resize_repaints_witness:
  "in_sync (on_window_size_changed (ex_env\<lparr>win_of := (\<lambda>w. ex_window\<lparr>frame_rect :=
      \<lparr>rect_x = 0, rect_y = 0, rect_width = 640, rect_height = 480\<rparr>\<rparr>)\<rparr>) 7 ex_layer) (Some 7)"
  using window_resize_repaints [of ex_layer 7 ex_ink "ex_env\<lparr>win_of := (\<lambda>w. ex_window\<lparr>frame_rect :=
      \<lparr>rect_x = 0, rect_y = 0, rect_width = 640, rect_height = 480\<rparr>\<rparr>)\<rparr>"
      "\<lparr>rect_x = 0, rect_y = 0, rect_width = 640, rect_height = 480\<rparr>"]
  by (simp add: Let_def)

text \<open>
  A stage resize rounds the stage's size up, reallocates the desktop's surface and repaints
  it from the desktop's strokes; no stored stroke of any buffer is lost, and the stroke in flight
  ends.
\<close>

theorem stage_resize_repaints:
  assumes "stage_size e = (w, h)" "1 \<le> \<lceil>w\<rceil>" "1 \<le> \<lceil>h\<rceil>"
  shows "let l' = on_stage_size_changed e l
    in in_sync l' None \<and> strokes_at l' = strokes_at l \<and> \<not> stroke_active l' \<and>
       stage_rect l' = \<lparr>rect_x = 0, rect_y = 0, rect_width = \<lceil>w\<rceil>, rect_height = \<lceil>h\<rceil>\<rparr>"
  using stage_resize_effect [OF assms] by (simp add: Let_def)

theorem stage_resize_repaints_witness:
  "stage_rect (on_stage_size_changed (ex_env\<lparr>stage_size := (1366 + 1 / 2, 768)\<rparr>) ex_layer) =
     \<lparr>rect_x = 0, rect_y = 0, rect_width = 1367, rect_height = 768\<rparr>"
proof -
  have "\<lceil>1366 + 1 / 2 :: real\<rceil> = 1367" by (simp add: ceiling_eq_iff)
  then show ?thesis
    using stage_resize_repaints [of "ex_env\<lparr>stage_size := (1366 + 1 / 2, 768)\<rparr>" "1366 + 1 / 2" 768 ex_layer]
    by (simp add: Let_def)
qed

section \<open>Modes and routing\<close>

text \<open>
  C10. In every reachable state the pointer is isolated exactly while the layer is active, and
  the overlay is shown exactly while it is active and not paused. So no sequence of calls leaves the
  pointer isolated by an overlay that is switched off; a paused overlay is hidden, but it is still
  active and does keep the pointer isolated.
\<close>

theorem pointer_isolated_while_active:
  assumes "annot_reach R (l, g)"
  shows "meta_annotation_input_get_non_mouse_pointer_isolated g = meta_annotation_layer_get_active l \<and>
    actor_visible l = (active l \<and> \<not> paused l)"
  using md.reachable [OF assms]
  by (simp add: mode_ok_def meta_annotation_input_get_non_mouse_pointer_isolated_def
      meta_annotation_layer_get_active_def)

theorem pointer_isolated_while_active_witness:
  "meta_annotation_input_get_non_mouse_pointer_isolated (snd ex_active)"
  using pointer_isolated_while_active [of rect_list_regions "fst ex_active" "snd ex_active"]
    ex_active_reach ex_active_fields(1) by (simp add: meta_annotation_layer_get_active_def)

text \<open>
  C11. The anchor of a stroke is the topmost eligible window under the pen: the window picked is
  eligible and its frame contains the point, every other such window is below it or at the same
  place of the stacking order, and none is picked only if there is none.
\<close>

theorem anchor_is_topmost_window:
  "(pick_anchor_window e x y = None \<longleftrightarrow> (\<forall>w. \<not> anchor_candidate e x y w)) \<and>
   (\<forall>w. pick_anchor_window e x y = Some w \<longrightarrow> anchor_candidate e x y w \<and>
      (\<forall>v. anchor_candidate e x y v \<longrightarrow> v \<noteq> w \<longrightarrow>
         meta_window_stack_position_compare (win_of e v) (win_of e w) \<le> 0))"
  using pick_anchor_topmost [of e x y] pick_anchor_none [of e x y]
  by (simp add: below_or_equal_def)

theorem anchor_is_topmost_window_witness: "anchor_candidate ex_env 150 150 7"
  using anchor_is_topmost_window [of ex_env 150 150] ex_pick by simp

text \<open>
  A hidden overlay does nothing: in every reachable state whose overlay is not shown, no
  event is consumed or changes the layer, and a recomposition uploads nothing.
\<close>

theorem hidden_layer_ignores_events:
  assumes "annot_reach R (l, g)" and "\<not> actor_visible l"
  shows "meta_annotation_layer_handle_event e now ev l = (False, l) \<and>
    texture (recompose e l) = texture l \<and> surface (recompose e l) = surface l"
  using md.reachable [OF assms(1)] assms(2)
  by (auto simp: mode_ok_def meta_annotation_layer_handle_event_def recompose_def split: option.split)

theorem hidden_layer_ignores_events_witness:
  "meta_annotation_layer_handle_event ex_env 0 (ex_pen_event CLUTTER_BUTTON_PRESS 150 150)
     (fst (meta_annotation_layer_new ex_env True annot_input_init)) =
   (False, fst (meta_annotation_layer_new ex_env True annot_input_init))"
proof -
  let ?s = "meta_annotation_layer_new ex_env True annot_input_init"
  have "annot_reach rect_list_regions (fst ?s, snd ?s)" by (simp add: annot_reach.init)
  moreover have "\<not> actor_visible (fst ?s)" by (simp add: ex_new layer_zeroed_def)
  ultimately show ?thesis using hidden_layer_ignores_events by blast
qed

text \<open>
  C12. The dock shields the layer. While a chrome press is in flight, or when a press lands on a
  chrome region, every routed event is consumed by the router, and of the layer at most the
  recorded chrome press changes: no event reaches the drawing code. A primary button press or a touch
  begin on a region records and announces it, as press or touch-begin. While a press is in flight and
  nothing is pressed anew, a release or touch end forgets the press and announces it again, as release
  or touch-end, exactly if it is on the region that was pressed; a cancelled touch forgets it without
  an announcement; every other event changes and announces nothing.
\<close>

theorem chrome_press_shields_layer:
  assumes "active l" and "meta_annotation_event_targets_overlay ev"
    and "chrome_press_id l \<noteq> None \<or> chrome_press_at cp l ev"
  shows "let picked = meta_annotation_layer_pick_chrome_region cp l (ev_x ev) (ev_y ev)
    in \<exists>i d'. meta_compositor_route_annotation_event cp e now ev (Some l, d) =
        (True, Some (l\<lparr>chrome_press_id := i\<rparr>), d') \<and>
      (if chrome_press_at cp l ev then
         i = picked \<and>
         d' = meta_annotation_dbus_emit_region_activated picked
           (Some (if ev_type ev = CLUTTER_BUTTON_PRESS then ''press'' else ''touch-begin'')) d
       else if ev_type ev = CLUTTER_BUTTON_RELEASE \<or> ev_type ev = CLUTTER_TOUCH_END then
         i = None \<and>
         d' = (if picked = chrome_press_id l
               then meta_annotation_dbus_emit_region_activated (chrome_press_id l)
                 (Some (if ev_type ev = CLUTTER_BUTTON_RELEASE then ''release'' else ''touch-end'')) d
               else d)
       else if ev_type ev = CLUTTER_TOUCH_CANCEL then i = None \<and> d' = d
       else i = chrome_press_id l \<and> d' = d)"
proof (cases "chrome_press_at cp l ev")
  case True
  show ?thesis
    unfolding Let_def route_active [OF assms(1,2)] if_P [OF True] by (intro exI conjI) (rule refl)+
next
  case False
  then have held: "chrome_press_id l \<noteq> None" using assms(3) by blast
  show ?thesis
    unfolding Let_def route_held [OF assms(1,2) False held] if_not_P [OF False]
    by (intro exI conjI, rule refl) simp
qed

theorem chrome_press_shields_layer_witness:
  "\<exists>i d'. meta_compositor_route_annotation_event (\<lambda>r x y. True) ex_env 0
      (ex_pen_event CLUTTER_BUTTON_RELEASE 150 150)
      (Some (ex_layer\<lparr>chrome_press_id := Some ''pen''\<rparr>), meta_annotation_dbus_new 1) =
    (True, Some (ex_layer\<lparr>chrome_press_id := i\<rparr>), d') \<and> i = None"
  using chrome_press_shields_layer [of "ex_layer\<lparr>chrome_press_id := Some ''pen''\<rparr>"
      "ex_pen_event CLUTTER_BUTTON_RELEASE 150 150" "\<lambda>r x y. True" ex_env 0
      "meta_annotation_dbus_new 1"]
  by (simp add: ex_pen_event_def ex_tablet_def meta_annotation_event_targets_overlay_def
      is_touch_event_type_def chrome_press_at_def Let_def)

text \<open>
  A chrome press outlives a deactivation: after \<open>SetActive (false)\<close> and \<open>SetActive (true)\<close>
  the recorded press is still there, so a pen press that starts on no chrome region is swallowed
  and starts no stroke.
\<close>

theorem chrome_press_survives_deactivation:
  assumes "chrome_press_id l = Some i" and "meta_annotation_event_targets_overlay ev"
    and "ev_type ev = CLUTTER_BUTTON_PRESS"
  shows "let (l', g') = meta_annotation_layer_set_active e True
          (meta_annotation_layer_set_active e False (l, g))
    in chrome_press_id l' = Some i \<and>
       (meta_annotation_layer_pick_chrome_region cp l' (ev_x ev) (ev_y ev) = None \<longrightarrow>
        meta_compositor_route_annotation_event cp e now ev (Some l', d) = (True, Some l', d))"
proof -
  obtain l' g' where s: "meta_annotation_layer_set_active e True
      (meta_annotation_layer_set_active e False (l, g)) = (l', g')" by fastforce
  have "chrome_press_id l' = Some i" "active l'"
    using s assms(1) set_active_keeps [of e True "fst (meta_annotation_layer_set_active e False (l, g))"
        "snd (meta_annotation_layer_set_active e False (l, g))"]
      set_active_keeps [of e False l g] by (metis fst_conv prod.collapse)+
  then show ?thesis
    using assms(2,3) by (simp add: s meta_compositor_route_annotation_event_def Let_def
        meta_annotation_layer_get_active_def meta_annotation_layer_chrome_press_active_def)
qed

theorem chrome_press_survives_deactivation_witness:
  "chrome_press_id (fst (meta_annotation_layer_set_active ex_env True
     (meta_annotation_layer_set_active ex_env False
        (ex_layer\<lparr>chrome_press_id := Some ''toggle''\<rparr>, annot_input_init)))) = Some ''toggle''"
  using chrome_press_survives_deactivation [of "ex_layer\<lparr>chrome_press_id := Some ''toggle''\<rparr>" "''toggle''"
      "ex_pen_event CLUTTER_BUTTON_PRESS 150 150" ex_env annot_input_init "\<lambda>r x y. True" 0
      "meta_annotation_dbus_new 1"]
  by (simp add: case_prod_unfold Let_def ex_pen_event_def ex_tablet_def
      meta_annotation_event_targets_overlay_def is_touch_event_type_def)

text \<open>
  C13. Pausing ends the stroke in flight, deactivating does not: after \<open>SetPaused (true)\<close> no
  gesture is active, whereas a gesture that is active when the layer is deactivated is still
  active, at its old anchor and last position, when the layer is activated again, so the next
  motion draws on from there without a press.
\<close>

theorem deactivation_keeps_gesture:
  assumes "stroke_active l" and "\<not> paused l"
  shows "\<not> stroke_active (meta_annotation_layer_set_paused e True l) \<and>
    (let l' = fst (meta_annotation_layer_set_active e True (meta_annotation_layer_set_active e False (l, g)))
     in stroke_active l' \<and> stroke_anchor l' = stroke_anchor l \<and>
        stroke_last_x l' = stroke_last_x l \<and> stroke_last_y l' = stroke_last_y l)"
proof -
  have "\<not> stroke_active (meta_annotation_layer_set_paused e True l)"
    using assms by (simp add: meta_annotation_layer_set_paused_def Let_def visibility_keeps
        drop_stroke_def set_stroke_anchor_eq)
  then show ?thesis
    using assms(1) set_active_keeps [of e True "fst (meta_annotation_layer_set_active e False (l, g))"
        "snd (meta_annotation_layer_set_active e False (l, g))"]
      set_active_keeps [of e False l g] by (simp add: Let_def)
qed

theorem deactivation_keeps_gesture_witness:
  "stroke_active (fst (meta_annotation_layer_set_active ex_env True
     (meta_annotation_layer_set_active ex_env False (ex_layer, annot_input_init)))) \<and>
   \<not> stroke_active (meta_annotation_layer_set_paused ex_env True ex_layer)"
  using deactivation_keeps_gesture [of ex_layer ex_env annot_input_init] by (simp add: Let_def)

section \<open>The window stack\<close>

text \<open>
  C14. The window stack is always well formed. Whatever calls reached it, with whatever groups and
  transients: its windows are distinct, their positions are exactly \<open>0\<close> to \<open>n_positions - 1\<close>,
  a window is in the list just when its position says so, an unfrozen stack has no work
  pending, and every call that its caller may make returns, so that no array of constraints is
  read outside its bounds and no assertion fails.
\<close>

theorem stack_positions_contiguous:
  assumes "stack_reach ok okw st"
  shows "distinct (sorted_windows st) \<and> n_positions st = int (length (sorted_windows st)) \<and>
    inj_on (position st) (set (sorted_windows st)) \<and>
    position st ` set (sorted_windows st) = {0..<n_positions st} \<and>
    (\<forall>w. meta_window_is_in_stack (windows st w) \<longleftrightarrow> w \<in> set (sorted_windows st)) \<and>
    (freeze_count st \<le> 0 \<longrightarrow> \<not> need_relayer st \<and> \<not> need_constrain st \<and> \<not> need_resort st) \<and>
    (\<forall>c. stack_call_enabled c st \<longrightarrow> (\<exists>st'. exec_stack c st = Some st'))"
proof -
  have st: "stack_inv st" "stack_ok st" "forest st"
    using stack_reach_inv [OF assms] by (auto simp: stack_inv_def)
  have "\<exists>st'. exec_stack c st = Some st'" if "stack_call_enabled c st" for c
    using exec_stack_runs [OF st(1,3) that] by (auto simp: runs_def)
  then show ?thesis
    using stack_okD(1,2) [OF st(2)] bij_betw_imp_inj_on [OF stack_okD(3) [OF st(2)]]
      bij_betw_imp_surj_on [OF stack_okD(3) [OF st(2)]] in_stack_iff [OF st(2)] st(1)
    by (simp add: stack_inv_def flags_clear_def)
qed

theorem stack_positions_contiguous_witness:
  "position (the ex_dialog) ` {2, 1, 0} = {0..<n_positions (the ex_dialog)} \<and>
   (\<exists>st'. exec_stack (Remove 1) (the ex_dialog) = Some st')"
proof -
  note c = stack_positions_contiguous [OF ex_dialog_stack(1)]
  then have "stack_call_enabled (Remove 1) (the ex_dialog)" by (simp add: ex_dialog_stack(2))
  with c show ?thesis unfolding ex_dialog_stack(2) by (metis list.simps(15) set_empty2 list.set(1))
qed

text \<open>
  C15. Dialogs stay above their windows. In a session of Wayland clients, however calls, restacking and
  changes of parents are mixed: whenever the stack is not frozen, a window that is transient for
  another one of the stack has the higher position and at least its layer, so every comparison
  of the two puts it above.
\<close>

theorem transients_above_parents:
  assumes "stack_reach ok wayland_window st" and "freeze_count st \<le> 0"
    and "a \<in> set (sorted_windows st)" and "b \<in> set (sorted_windows st)"
    and "transient_for (windows st a) = Some b"
  shows "position st b < position st a \<and> layer st b \<le> layer st a \<and>
    meta_window_stack_position_compare (meta_window.truncate (windows st b))
      (meta_window.truncate (windows st a)) = - 1"
proof -
  have "transients_placed st" "wayland_only st"
    using stack_reach_transients [OF assms(1)] assms(2)
    by (auto simp: stack_inv_def transient_inv_def flags_clear_def)
  then have "placed_above st (a, b)" using assms(3-5) by (simp add: transients_placed_iff)
  then show ?thesis
    by (auto simp: placed_above_def meta_window_stack_position_compare_def meta_window.truncate_def)
qed

theorem transients_above_parents_witness:
  "position (the ex_dialog) 0 < position (the ex_dialog) 1"
  using transients_above_parents [OF ex_dialog_stack(1), of 1 0] ex_dialog_stack(2-4) by simp

text \<open>
  C16. The overlay stacks its ink as the compositor stacks the windows. In a session in which no window
  is transient for another, the stack's list is sorted by layer and then position, top first, whenever
  it is not frozen (with transients it need not be, see \<open>late_dialog_result\<close>); sorting any of its
  windows, at the layers and positions they have there, with the comparison the annotation layer
  uses gives the list's order, bottom first; and the anchor of a stroke is the first eligible window of the list
  under the pen.
\<close>

theorem overlay_order_is_stack_order:
  assumes "stack_reach keeps_transients okw st" and "freeze_count st \<le> 0"
    and "reads_stack e st" and "distinct (all_windows e)"
    and "set (all_windows e) \<subseteq> set (sorted_windows st)"
  shows "sorted_wrt (\<lambda>u v. layer st v < layer st u \<or>
      layer st u = layer st v \<and> position st v < position st u) (sorted_windows st) \<and>
    meta_display_sort_windows_by_stacking e (all_windows e) =
      rev (filter (\<lambda>w. w \<in> set (all_windows e)) (sorted_windows st)) \<and>
    pick_anchor_window e x y =
      find (\<lambda>w. window_is_eligible_anchor (win_of e w) (active_ws e) \<and>
                mtk_rectangle_contains_pointf (frame_rect (win_of e w)) x y)
        (filter (\<lambda>w. w \<in> set (all_windows e)) (sorted_windows st))"
proof -
  have st: "stack_ok st" "in_order st"
    using stack_reach_order [OF assms(1)] assms(2) by (auto simp: stack_inv_def order_inv_def flags_clear_def)
  have "sorted_wrt (stacked_above st) (sorted_windows st)" using st(2) by (simp add: in_order_def)
  moreover have "stacked_above st = (\<lambda>u v. layer st v < layer st u \<or> layer st u = layer st v \<and> position st v < position st u)"
    by (simp add: stacked_above_def fun_eq_iff)
  moreover have "meta_display_sort_windows_by_stacking e (rev (all_windows e)) =
      rev (filter (\<lambda>w. w \<in> set (all_windows e)) (sorted_windows st))"
    using sort_by_stacking_in_order [OF st assms(3), of "rev (all_windows e)"] assms(4,5) by simp
  ultimately show ?thesis
    using sort_by_stacking_in_order [OF st assms(3-5)] by (simp add: pick_anchor_window_def)
qed

theorem overlay_order_is_stack_order_witness:
  "meta_display_sort_windows_by_stacking
     (ex_env\<lparr>win_of := \<lambda>w. meta_window.truncate (windows (the ex_plain) w), all_windows := [1, 0]\<rparr>) [1, 0] = [0, 1]"
  using overlay_order_is_stack_order [OF ex_plain_stack(1), of
    "ex_env\<lparr>win_of := \<lambda>w. meta_window.truncate (windows (the ex_plain) w), all_windows := [1, 0]\<rparr>"]
    ex_plain_stack(2,3) by (simp add: reads_stack_def)

text \<open>
  C17. Transient loops are refused. In every reachable state following \<open>transient_for\<close> ends, from
  any window; the test for a loop returns and answers exactly whether the new parent descends
  from the window; and however \<open>meta_window_set_transient_for\<close> is called, it returns and the
  transients still form a forest.
\<close>

theorem transient_loops_refused:
  assumes "stack_reach ok okw st"
  shows "(\<exists>a. meta_window_find_root_ancestor st w = Some a) \<and>
    check_transient_for_loop st w parent =
      Some (\<exists>p. parent = Some p \<and> (w, p) \<in> {(q, v). transient_for (windows st v) = Some q}\<^sup>*) \<and>
    (\<exists>st'. meta_window_set_transient_for st w parent klass_ok attached = Some st' \<and>
       wf {(q, v). transient_for (windows st' v) = Some q})"
proof -
  have st: "stack_inv st" "forest st" using stack_reach_inv [OF assms] by auto
  obtain st' where "meta_window_set_transient_for st w parent klass_ok attached = Some st'" "forest st'"
    using set_transient_for_runs [OF st, of w parent klass_ok attached] by (auto simp: runs_def)
  then show ?thesis
    using root_ancestor_forest [OF st(2)] check_transient_for_loop_forest [OF st(2), of w parent]
    by (simp add: meta_window_find_root_ancestor_def forest_def parent_rel_def)
qed

theorem transient_loops_refused_witness:
  "check_transient_for_loop (the ex_dialog) 0 (Some 1) = Some True"
proof -
  have "(0, 1) \<in> {(q, v). transient_for (windows (the ex_dialog) v) = Some q}"
    using ex_dialog_stack(4) by simp
  then have "(0, 1) \<in> {(q, v). transient_for (windows (the ex_dialog) v) = Some q}\<^sup>*" by (rule r_into_rtrancl)
  then show ?thesis
    using transient_loops_refused [OF ex_dialog_stack(1), of 0 "Some 1" True False] by simp
qed

text \<open>
  C18. Raising a window puts it on top of its layer: in an unfrozen session of Wayland clients
  \<open>meta_stack_raise\<close> gives it a higher position than every window of its workspace but those that are
  transient for it, directly or not, so that by the stacking comparison, which looks at layers first,
  it is above each of them that is not in a higher layer; and the positions of no two other windows
  change their order.
\<close>

theorem raise_puts_window_on_top:
  assumes "stack_reach ok wayland_window st" and "freeze_count st \<le> 0"
    and "w \<in> set (sorted_windows st)"
  shows "\<exists>st'. meta_stack_raise st w = Some st' \<and>
    (\<forall>v \<in> set (sorted_windows st) - {w} - descendants st w.
       (located_on st v (meta_window_get_workspace st w) \<longrightarrow> position st' v < position st' w \<and>
          (layer st' v \<le> layer st' w \<longrightarrow> meta_window_stack_position_compare
             (meta_window.truncate (windows st' v)) (meta_window.truncate (windows st' w)) = - 1)) \<and>
       (\<forall>u \<in> set (sorted_windows st) - {w} - descendants st w.
          position st' u < position st' v \<longleftrightarrow> position st u < position st v))"
proof -
  obtain st' where st': "meta_stack_raise st w = Some st'"
    using fo.raise_runs [of st w] stack_reach_inv [OF assms(1)] by (auto simp: runs_def stack_inv_def)
  have sel: "stack_layer (meta_window.truncate (windows st' v)) = layer st' v"
    "stack_position (meta_window.truncate (windows st' v)) = position st' v" for v
    by (simp_all add: meta_window.truncate_def)
  show ?thesis
    using st' raise_effect [OF assms st']
    by (intro exI [of _ st']) (auto simp: meta_window_stack_position_compare_def sel)
qed

theorem raise_puts_window_on_top_witness:
  "\<exists>st'. meta_stack_raise (the ex_dialog) 0 = Some st' \<and> position st' 2 < position st' 0"
proof -
  have "2 \<notin> descendants (the ex_dialog) 0"
    using ex_dialog_stack(5) by (auto simp: descendants_def parent_rel_def elim: tranclE)
  then show ?thesis
    using raise_puts_window_on_top [OF ex_dialog_stack(1), of 0] ex_dialog_stack(2,3,6) by auto
qed

section \<open>Tap gestures\<close>

text \<open>
  C19. Taps clear ink. Let a tap be valid: a press is pending, its release comes at most 300 ms later
  and has not moved away. If the history holds two taps on the same anchor as this one, the first
  at most 100 ms ago, the strokes and the picture of that anchor are cleared and no other's. If the
  history holds three taps, the first at most 100 ms ago, the strokes and the pictures of all
  buffers are cleared. Either way the history is empty afterwards, so that counting starts anew.
\<close>

theorem tap_gestures_clear:
  assumes "valid_tap now x y l" and "now - tap_time_us t1 \<le> QUAD_TAP_WINDOW_US"
  shows "let l' = note_tap_release e now x y l; a = pending_tap_anchor l
    in (tap_history l = [t1, t2] \<longrightarrow> tap_anchor t1 = a \<longrightarrow> tap_anchor t2 = a \<longrightarrow>
          strokes_at l' = (strokes_at l)(a := map_option (\<lambda>ss. []) (strokes_at l a)) \<and>
          surface_at l' = (surface_at l)(a := map_option (\<lambda>c. c\<lparr>cs_cmds := []\<rparr>) (surface_at l a)) \<and>
          tap_history l' = []) \<and>
       (tap_history l = [t1, t2, t3] \<longrightarrow>
          (\<forall>b. strokes_at l' b = map_option (\<lambda>ss. []) (strokes_at l b) \<and>
               surface_at l' b = map_option (\<lambda>c. c\<lparr>cs_cmds := []\<rparr>) (surface_at l b)) \<and>
          tap_history l' = [])"
  using triple_tap [OF assms(1) _ assms(2), of t2 "pending_tap_anchor l" e] quad_tap [OF assms(1) _ assms(2), of t2 t3 e]
  by (simp add: Let_def)

theorem tap_gestures_clear_witness:
  "let t = \<lparr>tap_time_us = 0, tap_anchor = Some 7\<rparr>;
     l = ex_layer\<lparr>pending_tap := True, pending_tap_anchor := Some 7, tap_history := [t, t],
       pending_tap_press_us := 60000, pending_tap_press_stage_x := 150, pending_tap_press_stage_y := 150\<rparr>
   in strokes_at (note_tap_release ex_env 90000 150 150 l) (Some 7) = Some []"
proof -
  define t where "t = \<lparr>tap_time_us = 0, tap_anchor = Some (7 :: nat)\<rparr>"
  define l where "l = ex_layer\<lparr>pending_tap := True, pending_tap_anchor := Some 7, tap_history := [t, t],
       pending_tap_press_us := 60000, pending_tap_press_stage_x := 150, pending_tap_press_stage_y := 150\<rparr>"
  have "valid_tap 90000 150 150 l" "90000 - tap_time_us t \<le> QUAD_TAP_WINDOW_US"
    by (simp_all add: valid_tap_def l_def t_def tap_moved_away_def tap_consts)
  from tap_gestures_clear [OF this, of ex_env t t] have
    "strokes_at (note_tap_release ex_env 90000 150 150 l) (Some 7) = map_option (\<lambda>ss. []) (strokes_at l (Some 7))"
    by (simp add: Let_def l_def t_def)
  moreover have "strokes_at l (Some 7) = Some [ex_stroke]" by (simp add: l_def strokes_at_def)
  ultimately show ?thesis unfolding Let_def t_def [symmetric] l_def [symmetric] by simp
qed

text \<open>
  Taps that come more than 100 ms apart never clear anything, however many there are and on
  whatever anchors: the history is pruned with the quad-tap window, so the 750 ms of the
  triple-tap window never comes into play.
\<close>

theorem slow_taps_never_clear:
  assumes "slow_taps ts" and "tap_history l = []"
  shows "strokes_at (fold (tap_at e) ts l) = strokes_at l \<and> surface_at (fold (tap_at e) ts l) = surface_at l"
  using slow_taps_effect [OF assms(1), of l e] assms(2) by simp

theorem slow_taps_never_clear_witness:
  "strokes_at (fold (tap_at ex_env) [(0, 150, 150, Some 7), (200000, 150, 150, Some 7),
     (400000, 150, 150, Some 7)] ex_layer) (Some 7) = Some [ex_stroke]"
  using slow_taps_never_clear [of "[(0, 150, 150, Some 7), (200000, 150, 150, Some 7),
     (400000, 150, 150, Some 7)]" ex_layer ex_env]
  by (simp add: tap_consts)

section \<open>The event path\<close>

text \<open>
  C20. While the overlay is active, not paused and has its surface, the events it claims, except
  scrolls, never reach a client, whatever the other handlers on Mutter's event path answer: the
  Wayland seat is not updated for them, no window handles them, and no Wayland client gets them.
  (Scrolls of a claimed device are passed on to Wayland's handling.)
\<close>

theorem overlay_shields_clients:
  assumes "annot_reach R (l, g)" and "active l" "\<not> paused l" "surface l \<noteq> None"
    and "meta_annotation_event_targets_overlay ev" "ev_type ev \<noteq> CLUTTER_SCROLL"
    and "meta_display_handle_event cp e q now g ev (Some l, d) = ((f, calls), s')"
  shows "Wayland_compositor_update \<notin> set calls \<and> Wayland_handle \<notin> set calls \<and>
    (\<forall>w. Handle_ungrabbed w \<notin> set calls \<and> Check_alive w \<notin> set calls)"
proof -
  have "non_mouse_isolated g" using md.reachable [OF assms(1)] assms(2) by (simp add: mode_ok_def)
  from overlay_hides_event [OF assms(2-4) this assms(5,6), of cp e q now d] assms(7)
  show ?thesis by (auto simp: client_calls_def)
qed

theorem overlay_shields_clients_witness:
  "Wayland_handle \<notin> set (snd (fst (meta_display_handle_event (\<lambda>r x y. False) ex_env ex_dispatch 0
     (snd ex_active) (ex_pen_event CLUTTER_BUTTON_PRESS 150 150) (Some (fst ex_active), meta_annotation_dbus_new 1))))"
proof -
  have reach: "annot_reach rect_list_regions (fst ex_active, snd ex_active)" using ex_active_reach by simp
  have "meta_annotation_event_targets_overlay (ex_pen_event CLUTTER_BUTTON_PRESS 150 150)"
    "ev_type (ex_pen_event CLUTTER_BUTTON_PRESS 150 150) \<noteq> CLUTTER_SCROLL"
    by (simp_all add: meta_annotation_event_targets_overlay_def is_touch_event_type_def ex_defs)
  note shield = overlay_shields_clients [OF reach ex_active_fields(1-3) this]
  obtain f calls s' where r: "meta_display_handle_event (\<lambda>r x y. False) ex_env ex_dispatch 0
     (snd ex_active) (ex_pen_event CLUTTER_BUTTON_PRESS 150 150) (Some (fst ex_active), meta_annotation_dbus_new 1)
     = ((f, calls), s')" by (metis prod.collapse)
  from shield [OF r] r show ?thesis by simp
qed

text \<open>
  C21. While the overlay is switched off, the event path is the one of a Mutter without it: the same
  handlers are called in the same order with the same outcome, and the overlay's state is left
  alone.
\<close>

theorem overlay_off_is_upstream:
  assumes "annot_reach R (l, g)" and "\<not> active l"
  shows "meta_display_handle_event cp e q now g ev (Some l, d) =
    (fst (meta_display_handle_event cp e q now annot_input_init ev (None, d)), Some l, d)"
  by (rule overlay_off_path) (use md.reachable [OF assms(1)] assms(2) in \<open>simp_all add: mode_ok_def\<close>)

theorem overlay_off_is_upstream_witness:
  "\<exists>l g. meta_annotation_layer_new ex_env True annot_input_init = (l, g) \<and>
     meta_display_handle_event (\<lambda>r x y. False) ex_env ex_dispatch 0 g
       (ex_pen_event CLUTTER_MOTION 150 150) (Some l, meta_annotation_dbus_new 1) =
     (fst (meta_display_handle_event (\<lambda>r x y. False) ex_env ex_dispatch 0 annot_input_init
       (ex_pen_event CLUTTER_MOTION 150 150) (None, meta_annotation_dbus_new 1)), Some l, meta_annotation_dbus_new 1)"
proof -
  obtain l g where new: "meta_annotation_layer_new ex_env True annot_input_init = (l, g)" by fastforce
  have "annot_reach rect_list_regions (l, g)"
    unfolding new [symmetric] by (rule annot_reach.init) simp
  moreover have "\<not> active l" using ex_new [of annot_input_init] new by (simp add: layer_zeroed_def)
  ultimately show ?thesis using overlay_off_is_upstream new by blast
qed

section \<open>The core pointer\<close>

text \<open>
  While the overlay is off it does not affect input at all: every motion moves the device's
  coordinates and announces the new position, the policy's own state does not change, and no
  event is kept from the Wayland seat.
\<close>

theorem overlay_off_pointer_unaffected:
  assumes "\<not> non_mouse_isolated s"
  shows "notify_motion_in_impl s st now d tool axes c =
      (s, (update_device_coords_in_impl st d c False)\<lparr>position_changed := position_changed st @ [c]\<rparr>) \<and>
    \<not> meta_annotation_input_event_should_skip_wayland_seat_sync s ev"
  using not_isolated_no_skip [OF assms] not_isolated_note [OF assms]
  by (simp add: notify_motion_in_impl_def Let_def update_device_coords_in_impl_def)

theorem overlay_off_pointer_unaffected_witness:
  "fst (notify_motion_in_impl annot_input_init \<lparr>pointer_state = (0, 0), stylus_states = (\<lambda>d. None),
     position_changed = []\<rparr> 5 ex_tablet None None (3, 4)) = annot_input_init"
  using overlay_off_pointer_unaffected [of annot_input_init "\<lparr>pointer_state = (0, 0),
     stylus_states = (\<lambda>d. None), position_changed = []\<rparr>" 5 ex_tablet None None "(3, 4)"
     "ex_pen_event CLUTTER_MOTION 0 0"]
  by (simp add: annot_input_init_def)

text \<open>
  C22. While it is on, a tablet, pen, eraser or cursor device never moves the core pointer and
  announces no position; and for 1.2 seconds after such a motion no plain pointer device (which
  may be the kernel's emulation of the same pen) moves it either.
\<close>

theorem tablet_never_moves_core_pointer:
  assumes "non_mouse_isolated s" and "tablet_family d"
    and "notify_motion_in_impl s st now d tool axes c = (s', st')"
  shows "pointer_state st' = pointer_state st \<and> position_changed st' = position_changed st \<and>
    (\<forall>d2 now2 tool2 axes2 c2. dev_type d2 = CLUTTER_POINTER_DEVICE \<longrightarrow>
       \<not> has_cap d2 CLUTTER_INPUT_CAPABILITY_TOUCHPAD \<longrightarrow>
       now \<le> now2 \<longrightarrow> now2 < now + ANNOTATION_RECENT_TABLET_FOR_POINTER_USEC \<longrightarrow>
       snd (notify_motion_in_impl s' st' now2 d2 tool2 axes2 c2) = st')"
  using tablet_motion_frozen [OF assms] emulated_pointer_frozen [OF assms] by blast

theorem tablet_never_moves_core_pointer_witness:
  "pointer_state (snd (notify_motion_in_impl (annot_input_init\<lparr>non_mouse_isolated := True\<rparr>)
     \<lparr>pointer_state = (8, 9), stylus_states = (\<lambda>d. None), position_changed = []\<rparr> 5 ex_tablet None None (3, 4)))
   = (8, 9)"
proof -
  obtain s' st' where m: "notify_motion_in_impl (annot_input_init\<lparr>non_mouse_isolated := True\<rparr>)
     \<lparr>pointer_state = (8, 9), stylus_states = (\<lambda>d. None), position_changed = []\<rparr> 5 ex_tablet None None (3, 4)
     = (s', st')" by fastforce
  show ?thesis
    using tablet_never_moves_core_pointer [OF _ _ m] m by (simp add: tablet_family_def ex_tablet_def)
qed

text \<open>
  Routing and freezing agree: if a button press of a device belongs to the overlay and the
  device is not a touchscreen, then while the overlay is on no motion of that device with that
  tool moves the core pointer.
\<close>

theorem routed_press_freezes_pointer:
  assumes "meta_annotation_event_targets_overlay ev" and "ev_type ev = CLUTTER_BUTTON_PRESS"
    and "ev_device ev = Some d" and "dev_type d \<noteq> CLUTTER_TOUCHSCREEN_DEVICE"
    and "non_mouse_isolated s"
  shows "pointer_state (snd (notify_motion_in_impl s st now d (ev_tool ev) axes c)) = pointer_state st \<and>
    position_changed (snd (notify_motion_in_impl s st now d (ev_tool ev) axes c)) = position_changed st"
proof -
  have "non_mouse_isolated (notify_motion_note s now d (ev_tool ev) c)" using assms(5) by simp
  note targets_overlay_press_frozen [OF assms(1-3) this assms(4), of now axes]
  then show ?thesis by (simp add: notify_motion_in_impl_def Let_def update_device_coords_in_impl_def)
qed

theorem routed_press_freezes_pointer_witness:
  "pointer_state (snd (notify_motion_in_impl (annot_input_init\<lparr>non_mouse_isolated := True\<rparr>)
     \<lparr>pointer_state = (8, 9), stylus_states = (\<lambda>d. None), position_changed = []\<rparr> 5 ex_tablet
     (Some CLUTTER_INPUT_DEVICE_TOOL_PEN) None (3, 4))) = (8, 9)"
  using routed_press_freezes_pointer [of "ex_pen_event CLUTTER_BUTTON_PRESS 1 1" ex_tablet
      "annot_input_init\<lparr>non_mouse_isolated := True\<rparr>"
      "\<lparr>pointer_state = (8, 9), stylus_states = (\<lambda>d. None), position_changed = []\<rparr>" 5 None "(3, 4)"]
  by (simp add: ex_pen_event_def ex_tablet_def meta_annotation_event_targets_overlay_def is_touch_event_type_def)

text \<open>
  C23. An ordinary mouse keeps working while the overlay is on: its presses are not routed to the
  overlay, and unless a tablet moved within the last 1.2 seconds its motions move the pointer.
\<close>

theorem plain_mouse_keeps_working:
  assumes "plain_mouse d" and "\<not> tool_is_drawing_stylus tool" and "\<not> recent_tablet now s"
    and "ev_type ev = CLUTTER_BUTTON_PRESS" and "ev_device ev = Some d" and "ev_tool ev = tool"
  shows "meta_compositor_route_annotation_event cp e now ev (Some l, dd) = (False, Some l, dd) \<and>
    notify_motion_in_impl s st now d tool None c =
      (s, st\<lparr>pointer_state := c, position_changed := position_changed st @ [c]\<rparr>)"
proof -
  note no = plain_mouse_no_match [OF assms(1,2)]
  have "\<not> pointer_device_matches_annotation_pointer d tool (Some ev) None"
    using assms(4) no by (simp add: pointer_device_matches_annotation_pointer_def split: if_splits)
  then have "\<not> meta_annotation_event_targets_overlay ev"
    using assms by (simp add: meta_annotation_event_targets_overlay_def is_touch_event_type_def plain_mouse_def)
  moreover have "notify_motion_in_impl s st now d tool None c =
      (s, st\<lparr>pointer_state := c, position_changed := position_changed st @ [c]\<rparr>)"
    by (rule plain_mouse_moves [OF assms(1-3)])
  ultimately show ?thesis
    by (simp add: meta_compositor_route_annotation_event_def)
qed

theorem plain_mouse_keeps_working_witness:
  "let d = \<lparr>dev_type = CLUTTER_POINTER_DEVICE, dev_caps = 1, dev_dimensions = None, dev_lname = Some ''usb mouse''\<rparr>
   in pointer_state (snd (notify_motion_in_impl (annot_input_init\<lparr>non_mouse_isolated := True\<rparr>)
     \<lparr>pointer_state = (8, 9), stylus_states = (\<lambda>d. None), position_changed = []\<rparr> 5 d None None (3, 4))) = (3, 4)"
  using plain_mouse_keeps_working [of "\<lparr>dev_type = CLUTTER_POINTER_DEVICE, dev_caps = 1,
      dev_dimensions = None, dev_lname = Some ''usb mouse''\<rparr>" None 5
      "annot_input_init\<lparr>non_mouse_isolated := True\<rparr>"
      "(ex_pen_event CLUTTER_BUTTON_PRESS 1 1)\<lparr>ev_tool := None, ev_device := Some \<lparr>dev_type = CLUTTER_POINTER_DEVICE,
        dev_caps = 1, dev_dimensions = None, dev_lname = Some ''usb mouse''\<rparr>\<rparr>"
      "\<lambda>r x y. True" ex_env ex_layer "meta_annotation_dbus_new 1"
      "\<lparr>pointer_state = (8, 9), stylus_states = (\<lambda>d. None), position_changed = []\<rparr>" "(3, 4)"]
  by (simp add: ex_pen_event_def plain_mouse_def tool_is_drawing_stylus_def recent_tablet_def
      annot_input_init_def has_cap_def clutter_consts device_name_hints_stylus_def str_has_suffix_def)

section \<open>Pen details\<close>

text \<open>
  A barrel button of a tool, numbered 2 to 31, toggles exactly its own bit of the modifier
  mask and is consumed; a primary button, button 0 and buttons without a tool are left to the
  drawing code. A non-zero mask means erasing.
\<close>

theorem barrel_button_is_one_bit:
  assumes "ev_tool ev = Some tool" and "2 \<le> ev_button ev" and "ev_button ev < 32"
  shows "let (handled, l') = handle_tool_modifier_press ev pressed l
    in handled \<and>
       (\<forall>n < 32. bit (pen_barrel_buttons l') n =
          (if n = ev_button ev then pressed else bit (pen_barrel_buttons l) n)) \<and>
       (pressed \<longrightarrow> erase_is_active l' ev2)"
proof -
  let ?m = "pen_barrel_buttons (snd (handle_tool_modifier_press ev pressed l))"
  have bits: "bit ?m n = (if n = ev_button ev then pressed else bit (pen_barrel_buttons l) n)" if "n < 32" for n
    using assms that
    by (auto simp: handle_tool_modifier_press_def Let_def clutter_consts bit_simps)
  then have "pressed \<Longrightarrow> bit ?m (ev_button ev)" using assms(3) by simp
  then have "pressed \<Longrightarrow> ?m \<noteq> 0" by (metis bit_0_eq bot_apply bot_bool_def)
  moreover have "fst (handle_tool_modifier_press ev pressed l)"
    using assms by (simp add: handle_tool_modifier_press_def Let_def clutter_consts)
  ultimately show ?thesis using bits by (simp add: case_prod_unfold erase_is_active_def)
qed

theorem barrel_button_is_one_bit_witness:
  "bit (pen_barrel_buttons (snd (handle_tool_modifier_press
     ((ex_pen_event CLUTTER_BUTTON_PRESS 1 1)\<lparr>ev_button := 2\<rparr>) True ex_layer))) 2"
  using barrel_button_is_one_bit [of "(ex_pen_event CLUTTER_BUTTON_PRESS 1 1)\<lparr>ev_button := 2\<rparr>"
      CLUTTER_INPUT_DEVICE_TOOL_PEN True ex_layer "ex_pen_event CLUTTER_BUTTON_PRESS 1 1"]
  by (simp add: case_prod_unfold Let_def ex_pen_event_def)

text \<open>
  Whatever the device reports, ink and eraser sizes stay in range: a tilt factor read from
  an event is between 1 and 2.875, the half width of a point drawn with it is positive and at most
  8.625 pixels and grows with the pressure, and the eraser's radius is between 8 and 17.25 pixels.
\<close>

theorem ink_and_eraser_sizes:
  assumes "event_get_tilt_factor ev = Some t"
  shows "1 \<le> t \<and> t \<le> 2875 / 1000 \<and>
    (\<forall>x y p. 0 < ink_point_max_half_width \<lparr>ip_x = x, ip_y = y, ip_pressure = p, ip_tilt_factor = t\<rparr> \<and>
       ink_point_max_half_width \<lparr>ip_x = x, ip_y = y, ip_pressure = p, ip_tilt_factor = t\<rparr> \<le> 8625 / 1000) \<and>
    (\<forall>x y p q. p \<le> q \<longrightarrow>
       ink_point_max_half_width \<lparr>ip_x = x, ip_y = y, ip_pressure = p, ip_tilt_factor = t\<rparr> \<le>
       ink_point_max_half_width \<lparr>ip_x = x, ip_y = y, ip_pressure = q, ip_tilt_factor = t\<rparr>) \<and>
    (\<forall>p. 8 \<le> eraser_radius p t \<and> eraser_radius p t \<le> 1725 / 100)"
proof -
  have t: "1 \<le> t" "t \<le> 2875 / 1000"
    using tilt_factor_bounds [OF assms] by (simp_all add: annot_consts)
  have m: "0 < pressure_to_width_multiplier p * t" "pressure_to_width_multiplier p * t \<le> 2875 / 1000" for p
    using t pressure_multiplier_bounds [of p] mult_mono [of "pressure_to_width_multiplier p" 1 t "2875 / 1000"]
    by simp_all
  have "8 \<le> eraser_radius p t \<and> eraser_radius p t \<le> 1725 / 100" for p
    using m(2) [of p] by (simp add: eraser_radius_def Let_def annot_consts mult.commute)
  moreover have "pressure_to_width_multiplier p * t \<le> pressure_to_width_multiplier q * t" if "p \<le> q" for p q
    using pressure_multiplier_mono [OF that] t by (simp add: mult_right_mono)
  moreover have "ink_point_max_half_width \<lparr>ip_x = x, ip_y = y, ip_pressure = p, ip_tilt_factor = t\<rparr> =
      3 * (pressure_to_width_multiplier p * t)" for x y p
    by (simp add: ink_point_max_half_width_def annot_consts)
  ultimately show ?thesis using m t by (simp add: mult.commute)
qed

theorem ink_and_eraser_sizes_witness: "eraser_radius (1 / 2) 1 \<le> 1725 / 100"
proof -
  have "event_get_tilt_factor (ex_pen_event CLUTTER_MOTION 0 0) = Some 1"
    by (simp add: ex_pen_event_def event_get_tilt_factor_def clutter_consts clampf_def)
  from ink_and_eraser_sizes [OF this] show ?thesis by blast
qed

section \<open>The service\<close>

text \<open>
  C24. The D-Bus service is a faithful front end: the calls that GDBus lets through are exactly those
  that \<open>declared_call\<close> gives a meaning, method by method, as a call of the layer: \<open>SetActive\<close> as
  \<open>set_active\<close>, \<open>SetPaused\<close> as \<open>set_paused\<close>, \<open>UndoLast\<close> as \<open>undo_last\<close>, and so on; each returns a
  value and does that call, with its arguments, and nothing else, so that the reachable states are
  closed under the service; a method that is not declared, and any other interface, is answered with
  an error and changes nothing.
\<close>

theorem service_calls_are_layer_calls:
  assumes "annot_reach R s" and "region_lib e = R"
  shows "(well_typed_call m ps \<longleftrightarrow> declared_call m ps \<noteq> None) \<and>
    (\<forall>c. declared_call m ps = Some c \<longrightarrow>
       handle_method_call e annotation_interface m ps s = Some (Return_value, exec_call e c s) \<and>
       annot_reach R (exec_call e c s)) \<and>
    (\<forall>i. i \<noteq> annotation_interface \<longrightarrow> handle_method_call e i m ps s = Some (Unknown_interface, s)) \<and>
    ((\<forall>qs. \<not> well_typed_call m qs) \<longrightarrow>
       handle_method_call e annotation_interface m ps s = Some (Unknown_method, s))"
proof -
  obtain l g where s: "s = (l, g)" by fastforce
  have "annot_reach R (exec_call e c s)" if "declared_call m ps = Some c" for c
    using assms declared_call_exec(2) [OF that] by (rule annot_reach.call)
  moreover have "handle_method_call e i m ps s = Some (Unknown_interface, s)" if "i \<noteq> annotation_interface" for i
    using that by (simp add: handle_method_call_def s Let_def)
  ultimately show ?thesis
    using declared_call_exec(1) [of m ps] unknown_method [of m e ps l g] declared_well_typed s by blast
qed

theorem service_calls_are_layer_calls_witness:
  "handle_method_call ex_env annotation_interface ''SetPaused'' (P_b True) ex_pressed =
     Some (Return_value, exec_call ex_env (Call_set_paused True) ex_pressed)"
proof -
  have "declared_call ''SetPaused'' (P_b True) = Some (Call_set_paused True)" by (simp add: declared_call_def)
  with service_calls_are_layer_calls [OF ex_pressed_reach ex_region_lib] show ?thesis by blast
qed

section \<open>The scroll matcher\<close>

text \<open>
  C25. The matcher reports the best shift: on two readable images of the given size it exits with a
  shift inside its window whose mean squared difference no shift of the window undercuts, that
  difference, and a confidence between 0 and 1.
\<close>

theorem motion_finds_best_shift:
  assumes "motion_inputs files argv w h a b"
  shows "\<exists>dx dy c. anno_motion_main files True argv = Some (Match dx dy c (shift_mse a b w h dx dy)) \<and>
    \<bar>dx\<bar> \<le> motion_window w h \<and> \<bar>dy\<bar> \<le> motion_window w h \<and> 0 \<le> c \<and> c \<le> 1 \<and>
    (\<forall>sx sy. \<bar>sx\<bar> \<le> motion_window w h \<longrightarrow> \<bar>sy\<bar> \<le> motion_window w h \<longrightarrow>
       shift_mse a b w h dx dy \<le> shift_mse a b w h sx sy)"
proof -
  obtain st where st: "motion_search a b w h = Some st"
    "search_ok (\<lambda>(sy, sx). shift_mse a b w h sx sy) (motion_shifts (motion_window w h)) st"
    using motion_search_ok motion_inputs_ok [OF assms] by blast
  note F = search_ok_final [OF st(2)]
  with main_runs [OF assms st(1)] confidence_bounds show ?thesis by force
qed

theorem motion_finds_best_shift_witness:
  "\<exists>dx dy c m. anno_motion_main ex_files True ex_argv = Some (Match dx dy c m) \<and> \<bar>dx\<bar> \<le> 4 \<and> 0 \<le> c \<and>
     m \<le> shift_mse (replicate 81 0) (replicate 81 0) 9 9 1 0"
proof -
  have w: "motion_window 9 9 = 4" by (simp add: motion_window_def)
  show ?thesis using motion_finds_best_shift [OF ex_motion_inputs] unfolding w by force
qed

text \<open>
  C26. Whatever its arguments, files and memory, the matcher ends, and without having read outside an
  image; it exits with 0 exactly when it printed a match, which happens exactly when there are four
  arguments, the two numbers that \<open>atoi\<close> makes of the sizes are above 8 and at most 4096, memory was
  there, and both files could be read. (\<open>atoi\<close> is that of glibc, which takes 4294967312 for 16.)
\<close>

theorem motion_always_ends_defined:
  "\<exists>r. anno_motion_main files mem argv = Some r \<and>
     (motion_exit_code r = 0) = (mem \<and>
        (\<exists>a b. motion_inputs files argv (atoi (argv ! 1)) (atoi (argv ! 2)) a b))"
  using main_cases [of argv files mem] by (auto simp: motion_inputs_def)

text \<open>
  If the second image shows the first one moved by a shift of the window, exactly, the matcher
  reports a shift that explains the images exactly, this one if no other does; but the confidence
  it gives is at most a quarter, because a perfect match is taken for a flat image. The extension's
  default threshold is 0.45.
\<close>

theorem exact_scroll_gets_low_confidence:
  assumes "motion_inputs files argv w h a b" and "moved_by a b w h dx dy"
    and "\<bar>dx\<bar> \<le> motion_window w h" "\<bar>dy\<bar> \<le> motion_window w h"
  shows "\<exists>dx' dy' c. anno_motion_main files True argv = Some (Match dx' dy' c 0) \<and> c \<le> 1 / 4 \<and>
    moved_by a b w h dx' dy' \<and>
    ((\<forall>sx sy. \<bar>sx\<bar> \<le> motion_window w h \<longrightarrow> \<bar>sy\<bar> \<le> motion_window w h \<longrightarrow> moved_by a b w h sx sy \<longrightarrow>
        sx = dx \<and> sy = dy) \<longrightarrow> dx' = dx \<and> dy' = dy)"
proof -
  obtain st where st: "motion_search a b w h = Some st"
    "search_ok (\<lambda>(sy, sx). shift_mse a b w h sx sy) (motion_shifts (motion_window w h)) st"
    using motion_search_ok motion_inputs_ok [OF assms(1)] by blast
  have less: "motion_window w h < w" "motion_window w h < h"
    using motion_window_less assms(1) by (auto simp: motion_inputs_def)
  note best = search_ok_final(1) [OF st(2)] and range = search_ok_final(2,3) [OF st(2)]
  have le: "best_err st \<le> shift_mse a b w h dx dy" by (rule search_ok_final(4) [OF st(2) assms(3,4)])
  have "shift_mse a b w h dx dy = 0" using shift_mse_zero_iff assms(2-4) less by simp
  then have zero: "best_err st = 0" using le best shift_mse_range [of a b w h "best_sx st" "best_sy st"] by linarith
  then have "moved_by a b w h (best_sx st) (best_sy st)"
    using shift_mse_zero_iff [of "best_sx st" w "best_sy st" h a b] range less best by simp
  moreover have "motion_confidence (best_err st) (second_err st) \<le> 1 / 4"
    by (rule confidence_flat) (simp add: zero)
  ultimately show ?thesis using main_runs [OF assms(1) st(1)] zero range by fastforce
qed

theorem exact_scroll_gets_low_confidence_witness:
  "\<exists>dx dy c. anno_motion_main ex_files True ex_argv = Some (Match dx dy c 0) \<and> c \<le> 1 / 4"
proof -
  have "\<bar>0::int\<bar> \<le> motion_window 9 9" by (simp add: motion_window_def)
  from exact_scroll_gets_low_confidence [OF ex_motion_inputs ex_still this this] show ?thesis by blast
qed

section \<open>Screen regions\<close>

text \<open>
  C27. The minimal spanning set describes the region: for a screen and struts with positive sizes
  the computation succeeds, its rectangles are positive, and a window lies in the screen and
  clear of every aligned strut exactly when one rectangle of the set contains it.
\<close>

theorem spanning_set_describes_region:
  assumes "rect_positive basic" and "list_all (\<lambda>s. rect_positive (strut_rect s)) struts"
  shows "\<exists>rs. meta_rectangle_get_minimal_spanning_set_for_region basic struts = Some rs \<and>
    list_all rect_positive rs \<and>
    (\<forall>w. rect_positive w \<longrightarrow>
       (meta_rectangle_contained_in_region rs w \<longleftrightarrow> in_region basic struts w))"
proof -
  have struts: "\<forall>s \<in> set struts. rect_positive (strut_rect s)" using assms(2) by (simp add: list_all_iff)
  from spanning_set_correct [OF assms(1) struts assms(1)] obtain rs where
    rs: "meta_rectangle_get_minimal_spanning_set_for_region basic struts = Some rs"
      "\<forall>r \<in> set rs. rect_positive r" by blast
  have "meta_rectangle_contained_in_region rs w \<longleftrightarrow> in_region basic struts w" if "rect_positive w" for w
    using spanning_set_correct [OF assms(1) struts that] rs(1) by auto
  with rs show ?thesis by (auto simp: list_all_iff)
qed

theorem spanning_set_describes_region_witness:
  "\<exists>rs. meta_rectangle_get_minimal_spanning_set_for_region (mtk_rectangle_new 0 0 800 600)
      [\<lparr>strut_rect = mtk_rectangle_new 0 0 800 30, strut_side = META_SIDE_TOP\<rparr>] = Some rs \<and>
    meta_rectangle_contained_in_region rs (mtk_rectangle_new 10 40 100 100) \<and>
    \<not> meta_rectangle_contained_in_region rs (mtk_rectangle_new 10 20 100 100)"
proof -
  let ?b = "mtk_rectangle_new 0 0 800 600"
  let ?s = "[\<lparr>strut_rect = mtk_rectangle_new 0 0 800 30, strut_side = META_SIDE_TOP\<rparr>]"
  have "rect_positive ?b" "list_all (\<lambda>s. rect_positive (strut_rect s)) ?s"
    by (simp_all add: rect_positive_def mtk_rectangle_new_def)
  from spanning_set_describes_region [OF this] obtain rs where
    "meta_rectangle_get_minimal_spanning_set_for_region ?b ?s = Some rs"
    and "\<And>w. rect_positive w \<Longrightarrow> meta_rectangle_contained_in_region rs w \<longleftrightarrow> in_region ?b ?s w"
    by blast
  then show ?thesis
    by (auto simp: rect_positive_def in_region_def rect_defs check_strut_align_def)
qed

text \<open>
  Expanding a window along one direction stays clear of every strut on the sides of that
  direction, whatever the order of the struts.
\<close>

theorem expansion_avoids_struts:
  assumes "s \<in> set struts"
    and "strut_side s \<in> (case d of META_DIRECTION_HORIZONTAL \<Rightarrow> {META_SIDE_LEFT, META_SIDE_RIGHT}
      | META_DIRECTION_VERTICAL \<Rightarrow> {META_SIDE_TOP, META_SIDE_BOTTOM})"
  shows "\<not> mtk_rectangle_overlap (strut_rect s)
    (meta_rectangle_expand_to_avoiding_struts rect expand_to d struts)"
  unfolding meta_rectangle_expand_to_avoiding_struts_def by (rule foldl_avoid [OF assms])

theorem expansion_avoids_struts_witness:
  "\<not> mtk_rectangle_overlap (mtk_rectangle_new 0 0 800 30)
    (meta_rectangle_expand_to_avoiding_struts (mtk_rectangle_new 10 40 100 100)
      (mtk_rectangle_new 0 0 800 600) META_DIRECTION_VERTICAL
      [\<lparr>strut_rect = mtk_rectangle_new 0 0 800 30, strut_side = META_SIDE_TOP\<rparr>])"
  using expansion_avoids_struts [of "\<lparr>strut_rect = mtk_rectangle_new 0 0 800 30, strut_side = META_SIDE_TOP\<rparr>"
      "[\<lparr>strut_rect = mtk_rectangle_new 0 0 800 30, strut_side = META_SIDE_TOP\<rparr>]" META_DIRECTION_VERTICAL]
  by simp

text \<open>
  Shoving brings a window into the region without changing its size whenever some rectangle
  of the spanning set is big enough and agrees with the fixed directions, and leaves a window
  that is already inside where it is.
\<close>

theorem shove_into_region:
  assumes "rect_positive rect" and "list_all rect_positive rs" and "c \<in> set rs"
    and "\<not> fixed_misfit fixed rect c" and "mtk_rectangle_could_fit_rect c rect"
  shows "let out = meta_rectangle_shove_into_region rs fixed rect
    in meta_rectangle_contained_in_region rs out \<and>
       rect_width out = rect_width rect \<and> rect_height out = rect_height rect \<and>
       (meta_rectangle_contained_in_region rs rect \<longrightarrow> out = rect)"
proof -
  have "\<forall>c\<in>set rs. rect_positive c" using assms(2) by (simp add: list_all_iff)
  then show ?thesis
    using shove_into_region_contained [OF assms(1) _ assms(3-5)] shove_into_region_stable [OF assms(1)]
    by (simp add: Let_def)
qed

theorem shove_into_region_witness:
  "meta_rectangle_contained_in_region [mtk_rectangle_new 0 30 800 570]
    (meta_rectangle_shove_into_region [mtk_rectangle_new 0 30 800 570] FIXED_DIRECTION_NONE
      (mtk_rectangle_new 750 10 100 100))"
  using shove_into_region [of "mtk_rectangle_new 750 10 100 100" "[mtk_rectangle_new 0 30 800 570]"
      "mtk_rectangle_new 0 30 800 570" FIXED_DIRECTION_NONE]
  by (simp add: Let_def rect_positive_def mtk_rectangle_new_def fixed_misfit_def FIXED_DIRECTION_NONE_def
      mtk_rectangle_could_fit_rect_def region_queries)

text \<open>
  Clamping makes a window small enough for the region without growing or moving it, whenever
  some rectangle of the set can hold the minimum size.
\<close>

theorem clamp_into_region:
  assumes "rect_positive rect" and "list_all rect_positive rs" and "c \<in> set rs"
    and "\<not> fixed_misfit fixed rect c" and "mtk_rectangle_could_fit_rect c min_size"
  shows "let out = meta_rectangle_clamp_to_fit_into_region rs fixed rect min_size
    in meta_rectangle_could_fit_in_region rs out \<and>
       rect_width out \<le> rect_width rect \<and> rect_height out \<le> rect_height rect \<and>
       rect_x out = rect_x rect \<and> rect_y out = rect_y rect"
proof -
  have "\<forall>c\<in>set rs. rect_positive c" using assms(2) by (simp add: list_all_iff)
  then show ?thesis using clamp_fits [OF assms(1) _ assms(3-5)] by (simp add: Let_def)
qed

theorem clamp_into_region_witness:
  "meta_rectangle_could_fit_in_region [mtk_rectangle_new 0 30 800 570]
    (meta_rectangle_clamp_to_fit_into_region [mtk_rectangle_new 0 30 800 570] FIXED_DIRECTION_NONE
      (mtk_rectangle_new 0 0 1000 1000) (mtk_rectangle_new 0 0 1 1))"
  using clamp_into_region [of "mtk_rectangle_new 0 0 1000 1000" "[mtk_rectangle_new 0 30 800 570]"
      "mtk_rectangle_new 0 30 800 570" FIXED_DIRECTION_NONE "mtk_rectangle_new 0 0 1 1"]
  by (simp add: Let_def rect_positive_def mtk_rectangle_new_def fixed_misfit_def FIXED_DIRECTION_NONE_def
      mtk_rectangle_could_fit_rect_def region_queries)

text \<open>
  Clipping a window that overlaps the region gives its intersection with one rectangle of the
  set, and with no other rectangle of the set is the intersection larger.
\<close>

theorem clip_is_largest_intersection:
  assumes "c \<in> set rs" and "mtk_rectangle_overlap rect c"
    and "rect_positive rect" and "list_all rect_positive rs"
  shows "let out = meta_rectangle_clip_to_region rs FIXED_DIRECTION_NONE rect
    in (\<exists>r. r \<in> set rs \<and> mtk_rectangle_overlap rect r \<and>
          out = snd (mtk_rectangle_intersect rect r mtk_rectangle_new_empty)) \<and>
       mtk_rectangle_area (snd (mtk_rectangle_intersect rect c mtk_rectangle_new_empty)) \<le> mtk_rectangle_area out"
proof -
  have "\<forall>c\<in>set rs. rect_positive c" using assms(4) by (simp add: list_all_iff)
  from clip_is_intersection [OF assms(1-3) this] show ?thesis by (metis (no_types, lifting))
qed

theorem clip_is_largest_intersection_witness:
  "\<exists>r. r \<in> set [mtk_rectangle_new 0 30 800 570] \<and>
    meta_rectangle_clip_to_region [mtk_rectangle_new 0 30 800 570] FIXED_DIRECTION_NONE
      (mtk_rectangle_new 10 10 100 100) =
    snd (mtk_rectangle_intersect (mtk_rectangle_new 10 10 100 100) r mtk_rectangle_new_empty)"
  using clip_is_largest_intersection [of "mtk_rectangle_new 0 30 800 570" "[mtk_rectangle_new 0 30 800 570]"
      "mtk_rectangle_new 10 10 100 100"]
  by (simp add: Let_def rect_positive_def mtk_rectangle_new_def mtk_rectangle_overlap_def)

text \<open>
  Resizing with gravity keeps what the gravity names: the west or north edge, the east or
  south edge, or the centre exactly (the size then being off by at most one), and static gravity
  keeps the origin.
\<close>

theorem resize_keeps_gravity_point:
  "let r' = meta_rectangle_resize_with_gravity r g w h
   in (case gravity_axis_x g of
         Low \<Rightarrow> box_left r' = box_left r \<and> rect_width r' = w
       | High \<Rightarrow> box_right r' = box_right r \<and> rect_width r' = w
       | Mid \<Rightarrow> box_left r' + box_right r' = box_left r + box_right r \<and> \<bar>rect_width r' - w\<bar> \<le> 1) \<and>
      (case gravity_axis_y g of
         Low \<Rightarrow> box_top r' = box_top r \<and> rect_height r' = h
       | High \<Rightarrow> box_bottom r' = box_bottom r \<and> rect_height r' = h
       | Mid \<Rightarrow> box_top r' + box_bottom r' = box_top r + box_bottom r \<and> \<bar>rect_height r' - h\<bar> \<le> 1)"
proof -
  obtain x' w' where x: "resize_axis (gravity_axis_x g) (rect_x r) (rect_width r) w = (x', w')" by fastforce
  obtain y' h' where y: "resize_axis (gravity_axis_y g) (rect_y r) (rect_height r) h = (y', h')" by fastforce
  have "meta_rectangle_resize_with_gravity r g w h =
      \<lparr>rect_x = x', rect_y = y', rect_width = w', rect_height = h'\<rparr>"
    by (simp add: meta_rectangle_resize_with_gravity_def x y)
  then show ?thesis
    using resize_axis_spec(3) [of "rect_x r" "rect_width r" w x' w'] x
      resize_axis_spec(3) [of "rect_y r" "rect_height r" h y' h'] y
    by (cases "gravity_axis_x g"; cases "gravity_axis_y g") (auto simp: box_defs)
qed

section \<open>Edges\<close>

text \<open>
  C28. The onscreen edges are the boundary of the free area: for a screen and struts whose parts
  \<open>get_disjoint_strut_rect_list_in_region\<close> really made disjoint, the computation ends without a
  failed assertion, its edges are sorted screen edges, and a unit of an edge is there exactly when
  the screen minus the struts is on its inner side and not on its outer side. (Nested struts can
  defeat the splitting: \<open>nested_struts_spurious_edge\<close>.)
\<close>

theorem onscreen_edges_are_boundary:
  assumes "rect_positive basic" and "disjoint_rects (get_disjoint_strut_rect_list_in_region struts basic)"
  shows "\<exists>es. meta_rectangle_find_onscreen_edges basic struts = Some es \<and> sorted (map edge_key es) \<and>
    edges_ok {META_EDGE_SCREEN} es \<and>
    (\<forall>c. c \<in> cells es \<longleftrightarrow> boundary (pixels basic - covered (map strut_rect struts)) c)"
  by (rule onscreen_edges_ok [OF assms])

theorem onscreen_edges_are_boundary_witness:
  "\<exists>es. meta_rectangle_find_onscreen_edges (mtk_rectangle_new 0 0 800 600)
      [\<lparr>strut_rect = mtk_rectangle_new 0 0 800 30, strut_side = META_SIDE_TOP\<rparr>] = Some es \<and>
    (META_SIDE_TOP, 5, 30) \<in> cells es \<and> (META_SIDE_TOP, 5, 0) \<notin> cells es"
proof -
  let ?b = "mtk_rectangle_new 0 0 800 600"
  let ?s = "[\<lparr>strut_rect = mtk_rectangle_new 0 0 800 30, strut_side = META_SIDE_TOP\<rparr>]"
  have "rect_positive ?b" "disjoint_rects (get_disjoint_strut_rect_list_in_region ?s ?b)"
    by (simp_all add: rect_positive_def mtk_rectangle_new_def get_disjoint_strut_rect_list_in_region_def
        mtk_rectangle_intersect_def)
  from onscreen_edges_are_boundary [OF this] show ?thesis
    by (auto simp: boundary_def mem_pixels mtk_rectangle_new_def)
qed

text \<open>
  The monitor edges are exact: sorted monitor edges whose units are those between the border
  pixels of two adjacent monitors, except where a strut covers or touches them; a strut keeps the
  units on its own side of the same kind.
\<close>

theorem monitor_edges_between_monitors:
  assumes "list_all rect_positive ms" and "list_all (\<lambda>s. rect_positive (strut_rect s)) struts"
  shows "\<exists>es. meta_rectangle_find_nonintersected_monitor_edges ms struts = Some es \<and>
    sorted (map edge_key es) \<and> edges_ok {META_EDGE_MONITOR} es \<and>
    (\<forall>c. c \<in> cells es \<longleftrightarrow> (\<exists>a\<in>set ms. \<exists>b\<in>set ms. between_monitors a b c) \<and>
       (\<forall>s\<in>set struts. \<not> boxed (strut_rect s) c))"
  by (rule monitor_edges_exact [OF assms])

theorem monitor_edges_between_monitors_witness:
  "\<exists>es. meta_rectangle_find_nonintersected_monitor_edges
      [mtk_rectangle_new 0 0 800 600, mtk_rectangle_new 800 0 640 480] [] = Some es \<and>
    (META_SIDE_RIGHT, 800, 10) \<in> cells es \<and> (META_SIDE_RIGHT, 800, 500) \<notin> cells es"
proof -
  have "list_all rect_positive [mtk_rectangle_new 0 0 800 600, mtk_rectangle_new 800 0 640 480]"
    "list_all (\<lambda>s. rect_positive (strut_rect s)) []"
    by (simp_all add: rect_positive_def mtk_rectangle_new_def)
  from monitor_edges_between_monitors [OF this] show ?thesis
    by (auto simp: between_monitors_def mem_pixels mtk_rectangle_new_def box_defs)
qed

section \<open>Dragging a window along edges\<close>

text \<open>
  C29. Edge resistance stops a side at the first edge that resists. For a sorted array with edges
  at or beyond each end of the movement, the two index searches and the loop between them are
  the plain scan of the edges between the old and the new position, in the order of the
  movement: the side stops at the first that resists, and else goes where it is proposed; no
  access is outside the array. (A side that is past the last edge already is pulled back to it:
  \<open>pulled_back_to_last_edge\<close>.)
\<close>

theorem resistance_stops_at_first_edge:
  assumes "sorted_edges h es" and "old_pos \<noteq> new_pos"
    and "e \<in> set es" and "min old_pos new_pos \<le> edge_pos h e"
    and "f \<in> set es" and "edge_pos h f \<le> max old_pos new_pos"
  shows "apply_edge_resistance old_pos new_pos old_rect new_rect es h include_windows keyboard_op =
    Some (case find (edge_stops old_pos new_pos old_rect new_rect h include_windows keyboard_op)
                 (if new_pos > old_pos
                  then filter (\<lambda>e. old_pos \<le> edge_pos h e \<and> edge_pos h e \<le> new_pos) es
                  else rev (filter (\<lambda>e. new_pos \<le> edge_pos h e \<and> edge_pos h e \<le> old_pos) es)) of
            None \<Rightarrow> new_pos
          | Some e \<Rightarrow> edge_pos h e)"
  using first_resisting_edge [OF assms(1,3-6,2)] unfolding stop_at_def crossed_def .

theorem resistance_stops_at_first_edge_witness:
  "apply_edge_resistance 30 2 (mtk_rectangle_new 30 100 200 100) (mtk_rectangle_new 2 100 200 100)
     (left_edges ex_edges) True True False = Some 11"
proof -
  have "sorted_edges True (left_edges ex_edges)"
    "vertical_edge 0 META_SIDE_LEFT META_EDGE_SCREEN \<in> set (left_edges ex_edges)"
    "vertical_edge 1000 META_SIDE_RIGHT META_EDGE_SCREEN \<in> set (left_edges ex_edges)"
    by (simp_all add: sorted_edges_def ex_left_edges vertical_edge_def edge_pos_def)
  from resistance_stops_at_first_edge [OF this(1) _ this(3) _ this(2), of 30 2
      "mtk_rectangle_new 30 100 200 100" "mtk_rectangle_new 2 100 200 100" True False]
  show ?thesis
    by (simp add: ex_left_edges vertical_edge_def edge_pos_def edge_stops_def edge_threshold_def
        meta_rectangle_edge_aligns_def vertical_side_def box_defs mtk_rectangle_new_def)
qed

text \<open>
  C30. A dragged window meets the visible borders and nothing else. Whatever calls led to the
  stack, if the windows that count have pixels and are on the display, the edges of the drag are
  computed without failed assertion, in sorted arrays, the same for opposite sides, and a unit
  of an edge is in them exactly when it is of the monitors' or the screen's edges or borders,
  from outside, a pixel of a window on the display that no window above covers; docks cover
  but have no edges, and the dragged window does neither.
\<close>

theorem drag_meets_visible_borders:
  assumes "stack_reach ok okw st" and "frames_ok env st drag (sorted_windows st)"
  shows "\<exists>ws st' d. meta_stack_list_windows st (Some (active_workspace st)) = Some (ws, st') \<and>
    compute_resistance_and_snapping_edges env st drag = Some (d, st') \<and> sorted_data d \<and>
    cells (left_edges d @ top_edges d) =
      visible_borders env st' drag ws \<union> cells (ws_monitor_edges env) \<union> cells (ws_screen_edges env)"
proof -
  have "stack_ok st" using stack_reach_inv [OF assms(1)] by (simp add: stack_inv_def)
  from compute_edges [OF this assms(2)] show ?thesis by blast
qed

theorem drag_meets_visible_borders_witness:
  "\<exists>st' d. compute_resistance_and_snapping_edges drag_env (the ex_plain) 1 = Some (d, st') \<and>
    (META_SIDE_LEFT, 10, 3) \<in> cells (left_edges d @ top_edges d)"
proof -
  have "frames_ok drag_env (the ex_plain) 1 (sorted_windows (the ex_plain))"
    unfolding ex_plain_stack(2) by (rule ex_frames)
  from drag_meets_visible_borders [OF ex_plain_stack(1) this] obtain ws st' d where
    d: "meta_stack_list_windows (the ex_plain) (Some (active_workspace (the ex_plain))) = Some (ws, st')"
      "compute_resistance_and_snapping_edges drag_env (the ex_plain) 1 = Some (d, st')"
      "cells (left_edges d @ top_edges d) = visible_borders drag_env st' 1 ws \<union> cells (ws_monitor_edges drag_env) \<union>
         cells (ws_screen_edges drag_env)" by blast
  from ex_listed d(1) have ws: "ws = [0, 1]" "frame_rect (windows st' 0) = mtk_rectangle_new 0 0 10 10"
    "win_type (windows st' 0) = META_WINDOW_NORMAL" by auto
  have "(META_SIDE_LEFT, 10, 3) \<in> visible_borders drag_env st' 1 ws"
    unfolding ws(1)
    by (simp add: ws borders_def reduced_def is_window_relevant_for_edges_def drag_env_def display_rect_def
        mtk_rectangle_intersect_def mtk_rectangle_new_def mem_pixels)
  with d(2,3) show ?thesis by blast
qed

text \<open>
  C31. Edge resistance never takes a window far from where it is dragged. On every reachable stack, with
  a screen that has edges of both directions, if every window that counts for the edges has pixels
  and, unless it is a dock, lies at least partly on the display, and the drag has no edges yet or
  at least one in each of its four arrays, a move or resize without snapping returns; in each direction a
  window that is not moved stays, a key press moves it between where it was and where the key
  would put it, and the pointer's window is less than 32 pixels from the pointer's place; so is
  a size along an axis where the gravity keeps one side. The drag keeps its edges for the next
  step.
\<close>

theorem drag_stays_near:
  assumes "stack_reach ok okw st" and "frames_ok env st (dragged drag) (sorted_windows st)"
    and "screen_edged env" and "drag_ready drag" and "\<not> flag_snap flags"
  shows "(\<exists>x y st' drag'.
      meta_window_drag_edge_resistance_for_move env st drag (px, py) flags = Some ((x, y), st', drag') \<and>
      held_back (flag_keyboard_op flags) (rect_x (outer_rect (drag_win drag))) px x \<and>
      held_back (flag_keyboard_op flags) (rect_y (outer_rect (drag_win drag))) py y \<and>
      edge_qdata drag' \<noteq> None \<and> drag_ready drag') \<and>
    (\<exists>w h st' drag'.
      meta_window_drag_edge_resistance_for_resize env st drag (pw, ph) g flags = Some ((w, h), st', drag') \<and>
      (gravity_axis_x g \<noteq> Mid \<or> pw = rect_width (outer_rect (drag_win drag)) \<longrightarrow>
         held_back (flag_keyboard_op flags) (rect_width (outer_rect (drag_win drag))) pw w) \<and>
      (gravity_axis_y g \<noteq> Mid \<or> ph = rect_height (outer_rect (drag_win drag)) \<longrightarrow>
         held_back (flag_keyboard_op flags) (rect_height (outer_rect (drag_win drag))) ph h) \<and>
      edge_qdata drag' \<noteq> None \<and> drag_ready drag')"
proof -
  have "stack_ok st" using stack_reach_inv [OF assms(1)] by (simp add: stack_inv_def)
  from ensure_edges [OF this assms(2-4)] obtain d st' where
    d: "meta_window_drag_ensure_edge_resistance_data env st drag = Some (d, st', drag\<lparr>edge_qdata := Some d\<rparr>)"
      "edges_everywhere d" by blast
  from move_held_back [OF d(2) assms(5), of "drag_win drag" px py]
    resize_held_back [OF d(2) assms(5), of "drag_win drag" pw ph g] d
  show ?thesis
    by (auto simp: meta_window_drag_edge_resistance_for_move_def
        meta_window_drag_edge_resistance_for_resize_def drag_ready_def)
qed

theorem drag_stays_near_witness:
  "\<exists>x y st' drag'. meta_window_drag_edge_resistance_for_move drag_env (the ex_plain) ex_drag (5, 0) move_flags =
      Some ((x, y), st', drag') \<and> \<bar>x - 5\<bar> < 32 \<and> y = 0"
proof -
  have "frames_ok drag_env (the ex_plain) (dragged ex_drag) (sorted_windows (the ex_plain))"
    unfolding ex_plain_stack(2) using ex_frames by (simp add: ex_drag_def)
  moreover have "\<not> flag_snap move_flags" by (simp add: move_flags_def)
  ultimately obtain x y st' drag' where
    "meta_window_drag_edge_resistance_for_move drag_env (the ex_plain) ex_drag (5, 0) move_flags = Some ((x, y), st', drag')"
    "held_back (flag_keyboard_op move_flags) (rect_x (outer_rect (drag_win ex_drag))) 5 x"
    "held_back (flag_keyboard_op move_flags) (rect_y (outer_rect (drag_win ex_drag))) 0 y"
    using drag_stays_near [OF ex_plain_stack(1) _ ex_screen_edged, of move_flags 5 0] by blast
  moreover from this(2,3) have "\<bar>x - 5\<bar> < 32 \<and> y = 0"
    by (simp add: held_back_def ex_drag_def move_flags_def)
  ultimately show ?thesis by blast
qed

section \<open>Workspaces\<close>

text \<open>
  C32. Every window is on the workspaces it says. From every state reached by calls on workspaces and on
  the places of windows, every call that may be made returns: no assertion fails. Afterwards the
  active workspace is listed, the lists hold only managed windows, and every managed window without
  override-redirect is either on all workspaces or on one that is listed, and is once in the window
  list and once in the most-recently-used list of each workspace it is on and in no other. A call
  may be made on managed windows and, where the code does not look, on listed workspaces; new
  windows are new; a window is unmanaged after those that have it as their parent; a workspace is
  removed unless it is active while some window sticks by request; the number of workspaces asked for
  is positive; struts are set with a primary monitor or no monitor, and work areas asked for
  where the struts' edges can be computed.
\<close>

theorem workspace_calls_keep_windows_home:
  assumes "desk_reachable st" and "desk_allowed c st"
  shows "\<exists>st'. desk_run c st = Some st' \<and>
    (\<exists>a\<in>set (wm_workspaces st'). wm_active st' = Some a) \<and> distinct (wm_workspaces st') \<and>
    (\<forall>x\<in>set (wm_workspaces st'). set (ws_windows (wm_of st' x)) \<subseteq> set (wm_listed st') \<and>
       set (mru_list (wm_of st' x)) \<subseteq> set (wm_listed st')) \<and>
    (\<forall>w\<in>set (wm_listed st'). \<not> override_redirect (wm_win st' w) \<longrightarrow>
       (case win_workspace (wm_win st' w) of
          None \<Rightarrow> on_all_workspaces (wm_win st' w)
        | Some x \<Rightarrow> \<not> on_all_workspaces (wm_win st' w) \<and> x \<in> set (wm_workspaces st')) \<and>
       (\<forall>x\<in>set (wm_workspaces st').
          count_list (ws_windows (wm_of st' x)) w = (if located_on_ws st' w x then 1 else 0) \<and>
          count_list (mru_list (wm_of st' x)) w = (if located_on_ws st' w x then 1 else 0)))"
proof -
  obtain st' where st': "desk_run c st = Some st'" "desk_inv st'"
    using every_call_returns [OF desk_reachable_inv [OF assms(1)] assms(2)] by blast
  then show ?thesis using desk_inv_homes [OF st'(2)] by blast
qed

theorem workspace_calls_keep_windows_home_witness:
  "\<exists>st'. desk_run (Change_workspace 1 1) (the ex_desk) = Some st' \<and>
     count_list (ws_windows (wm_of st' 1)) 2 = 1 \<and> count_list (ws_windows (wm_of st' 0)) 2 = 0"
proof -
  from workspace_calls_keep_windows_home [OF ex_desk_reachable ex_desk_state(4)] obtain st' where
    s: "desk_run (Change_workspace 1 1) (the ex_desk) = Some st'"
      "\<forall>w\<in>set (wm_listed st'). \<not> override_redirect (wm_win st' w) \<longrightarrow>
       (case win_workspace (wm_win st' w) of
          None \<Rightarrow> on_all_workspaces (wm_win st' w)
        | Some x \<Rightarrow> \<not> on_all_workspaces (wm_win st' w) \<and> x \<in> set (wm_workspaces st')) \<and>
       (\<forall>x\<in>set (wm_workspaces st').
          count_list (ws_windows (wm_of st' x)) w = (if located_on_ws st' w x then 1 else 0) \<and>
          count_list (mru_list (wm_of st' x)) w = (if located_on_ws st' w x then 1 else 0))"
    by blast
  from ex_desk_moved [OF s(1)] bspec [OF s(2), of 2] have "count_list (ws_windows (wm_of st' 1)) 2 = 1" "count_list (ws_windows (wm_of st' 0)) 2 = 0"
    by simp_all
  with s(1) show ?thesis by blast
qed

section \<open>Constraining a window\<close>

text \<open>
  C33. Constraining a window always returns and gives the workspace back its region. The
  constraints on visibility expand the shared region in place, with amounts that depend on the
  window, and shrink it again: for a placed window without popup rule or server-side frame, with
  hints that divide by no zero, \<open>meta_window_constrain\<close> returns on any monitor, for any
  rectangle, gravity and action, and the region is the one it was given, though an axis of a
  part that is smaller than what must stay visible is not expanded.
\<close>

theorem constraining_gives_region_back:
  assumes "plain_frame w" and "hints_ok w" and "placed w" and "\<not> minimize_after_placement w"
    and "action_of flags \<noteq> None" and "constraining_monitor env w flags (start_rect w new) \<noteq> None"
  shows "\<exists>w' r. meta_window_constrain env w flags calculate g cs old new = Some (w', r, old, (0, 0), cs)"
  using constrain_returns_lemma [OF assms] by blast

theorem constraining_gives_region_back_witness:
  "\<exists>w' r. meta_window_constrain one_monitor terminal_window client_configure False META_GRAVITY_NORTH_WEST
     panel_region (mtk_rectangle_new 100 100 64 44) (mtk_rectangle_new 795 595 81 70) =
     Some (w', r, mtk_rectangle_new 100 100 64 44, (0, 0), panel_region)"
  by (rule constraining_gives_region_back)
    (simp_all add: terminal_window_def constrain_examples plain_frame_def frame_borders_def hints_ok_def action_of_def
      constraining_monitor_def G_MAXINT_def)

text \<open>
  C34. A window that the user moves stays within reach. Let the window be placed, not maximized in
  either direction, not fullscreen, not to be minimized, no desktop or dock and no attached dialog,
  without server-side frame, placement rule and external constraints, its hints dividing by no
  zero; let the regions have pixels and the old place be within their reach. A move by the user,
  not in a resizing drag, of a rectangle that keeps its size, returns that size and a position at
  which, of each side, a quarter between 10 and 75 pixels, or all of a smaller side, is level with
  one rectangle of the region; while a constrained drag holds its titlebar, its top is not above that
  rectangle. A position within reach is returned as it is. The monitor must be found; external
  constraints, which may place the window elsewhere, are excluded.
\<close>

theorem user_move_keeps_window_reachable:
  assumes "floating env w" and "action_of flags = Some ACTION_MOVE" and "user_action flags"
    and "\<forall>d. current_drag env = Some d \<longrightarrow> \<not> snd d" and "constraining_monitor env w flags new \<noteq> None"
    and "rect_positive new" and "rect_width old = rect_width new" and "rect_height old = rect_height new"
    and "list_all rect_positive cs" and "reachable_at env w cs old"
  shows "\<exists>w' r. meta_window_constrain env w flags calculate g cs old new = Some (w', r, old, (0, 0), cs) \<and>
    rect_width r = rect_width new \<and> rect_height r = rect_height new \<and> (reachable_at env w cs new \<longrightarrow> r = new) \<and>
    (\<exists>c\<in>set cs.
       min (rect_width r) (CLAMP (rect_width r sdiv 4) 10 75)
         \<le> min (rect_x r + rect_width r) (rect_x c + rect_width c) - max (rect_x r) (rect_x c) \<and>
       min (rect_height r) (CLAMP (rect_height r sdiv 4) 10 75)
         \<le> min (rect_y r + rect_height r) (rect_y c + rect_height c) - max (rect_y r) (rect_y c) \<and>
       (titlebar_held env w \<longrightarrow> rect_y c \<le> rect_y r))"
proof -
  obtain w' r where r: "meta_window_constrain env w flags calculate g cs old new = Some (w', r, old, (0, 0), cs)"
    "reachable_at env w cs r" "rect_width r = rect_width new" "rect_height r = rect_height new"
    "reachable_at env w cs new \<Longrightarrow> r = new"
    by (rule user_move_lemma [OF assms, where calculate = calculate and g = g]) blast
  have "within_reach (\<not> titlebar_held env w) cs r" using r(2) by (cases "titlebar_held env w") (simp_all add: reachable_at_def)
  moreover have "rect_positive r" using assms(6) r(3,4) by (simp add: rect_positive_def)
  ultimately show ?thesis
    using within_reach_visible [of r "\<not> titlebar_held env w" cs] r(1,3-5) unfolding amount_onscreen_def shared_def
    by blast
qed

theorem user_move_keeps_window_reachable_witness:
  "\<exists>w' r. meta_window_constrain dragging free_window user_move False META_GRAVITY_NORTH_WEST panel_region
     (mtk_rectangle_new 700 100 60 20) (mtk_rectangle_new 795 5 60 20) =
     Some (w', r, mtk_rectangle_new 700 100 60 20, (0, 0), panel_region) \<and>
     rect_width r = 60 \<and> rect_x r \<le> 785 \<and> 30 \<le> rect_y r"
proof -
  have f: "floating dragging free_window" "titlebar_held dragging free_window" "action_of user_move = Some ACTION_MOVE"
    by (simp_all add: constrain_examples floating_def plain_frame_def frame_borders_def hints_ok_def is_desktop_or_dock_def
        titlebar_held_def action_of_def G_MAXINT_def)
  have cs: "list_all rect_positive panel_region" by (simp add: panel_region_def rect_positive_def mtk_rectangle_new_def)
  have "meta_rectangle_contained_in_region panel_region (mtk_rectangle_new 700 100 60 20)"
    by (simp add: panel_region_def mtk_rectangle_contains_rect_def mtk_rectangle_new_def)
  then have old: "reachable_at dragging free_window panel_region (mtk_rectangle_new 700 100 60 20)"
    using contained_within_reach [OF cs] by (simp add: reachable_at_def)
  have new: "user_action user_move" "\<forall>d. current_drag dragging = Some d \<longrightarrow> \<not> snd d"
    "constraining_monitor dragging free_window user_move (mtk_rectangle_new 795 5 60 20) \<noteq> None"
    "rect_positive (mtk_rectangle_new 795 5 60 20)"
    "rect_width (mtk_rectangle_new 700 100 60 20) = rect_width (mtk_rectangle_new 795 5 60 20)"
    "rect_height (mtk_rectangle_new 700 100 60 20) = rect_height (mtk_rectangle_new 795 5 60 20)"
    by (simp_all add: constraining_monitor_def constrain_examples rect_positive_def mtk_rectangle_new_def)
  have size: "rect_width (mtk_rectangle_new 795 5 60 20) = 60" by (simp add: mtk_rectangle_new_def)
  obtain w' r c where r: "meta_window_constrain dragging free_window user_move False META_GRAVITY_NORTH_WEST panel_region
      (mtk_rectangle_new 700 100 60 20) (mtk_rectangle_new 795 5 60 20) =
      Some (w', r, mtk_rectangle_new 700 100 60 20, (0, 0), panel_region)" "rect_width r = 60"
    "c \<in> set panel_region" "rect_y c \<le> rect_y r"
    "min (rect_width r) (CLAMP (rect_width r sdiv 4) 10 75)
         \<le> min (rect_x r + rect_width r) (rect_x c + rect_width c) - max (rect_x r) (rect_x c)"
    using user_move_keeps_window_reachable [OF f(1,3) new cs old, where calculate = False and
        g = META_GRAVITY_NORTH_WEST] f(2) unfolding size by blast
  have "rect_x c = 0" "rect_y c = 30" "rect_width c = 800"
    using r(3) by (simp_all add: panel_region_def mtk_rectangle_new_def)
  moreover have "CLAMP (60 sdiv 4) 10 (75 :: int) = 15" by (simp add: CLAMP_def signed_divide_int_def)
  ultimately show ?thesis using r by auto
qed

text \<open>
  A maximized window fills the work area. If the work area of the monitor is no smaller than the
  window's minimum and lies in the regions of the workspace and the monitor, a placed window
  without server-side frame, rule, fullscreen mode, attached dialogs and external constraints that is
  maximized in both directions is given exactly the work area, whatever rectangle, gravity, action,
  size steps, maximum size and aspect ratio it asks for.
\<close>

theorem maximized_window_fills_work_area:
  assumes "plainly_maximized env w" and "action_of flags \<noteq> None"
    and "constraining_monitor env w flags (start_rect w new) = Some m"
    and "roomy_area w cs (onmonitor_region env m) (work_area_for env m)"
  shows "\<exists>w'. meta_window_constrain env w flags calculate g cs old new = Some (w', work_area_for env m, old, (0, 0), cs)"
  using maximized_fills_lemma [OF assms] by metis

theorem maximized_window_fills_work_area_witness:
  "\<exists>w'. meta_window_constrain one_monitor (terminal_window\<lparr>max_horizontally := True, max_vertically := True\<rparr>)
     client_configure False META_GRAVITY_CENTER panel_region (mtk_rectangle_new 100 100 64 44)
     (mtk_rectangle_new (-20) 0 81 70) =
     Some (w', mtk_rectangle_new 0 30 800 570, mtk_rectangle_new 100 100 64 44, (0, 0), panel_region)"
proof -
  let ?w = "terminal_window\<lparr>max_horizontally := True, max_vertically := True\<rparr>"
  have "plainly_maximized one_monitor ?w"
    by (simp add: terminal_window_def constrain_examples plainly_maximized_def plain_frame_def frame_borders_def
        hints_ok_def G_MAXINT_def)
  moreover have "constraining_monitor one_monitor ?w client_configure (start_rect ?w (mtk_rectangle_new (-20) 0 81 70)) = Some 0"
    by (simp add: constraining_monitor_def terminal_window_def constrain_examples)
  moreover have "roomy_area ?w panel_region (onmonitor_region one_monitor 0) (work_area_for one_monitor 0)"
    by (simp add: roomy_area_def terminal_window_def constrain_examples get_size_limits_def frame_borders_def Let_def
        meta_window_client_rect_to_frame_rect_def rect_positive_def mtk_rectangle_could_fit_rect_def
        mtk_rectangle_contains_rect_def mtk_rectangle_new_def G_MAXINT_def)
  ultimately show ?thesis
    using maximized_window_fills_work_area [of one_monitor ?w client_configure "mtk_rectangle_new (-20) 0 81 70" 0
        panel_region False META_GRAVITY_CENTER "mtk_rectangle_new 100 100 64 44"]
    by (simp add: action_of_def client_configure_def one_monitor_def [unfolded mtk_rectangle_new_def] mtk_rectangle_new_def)
qed

text \<open>
  C35. A maximized window covers a largest free rectangle of its monitor. Let the display, its
  monitors and the struts have pixels, the monitors lie on the display, and the work areas be those
  that \<open>workspace.c\<close> computes, with room left on the monitor. A placed window that is maximized in
  both directions, on one workspace, the active one, and neither fullscreen nor tiled as maximized
  nor an attached dialog nor to be minimized, without server-side frame, placement rule and
  external constraints, with hints that divide by no zero and a minimum size no bigger than the
  work area, is given a rectangle of the monitor that no strut touches which reaches the
  monitor's edge on the strut's side, and no other such rectangle has more pixels; whatever
  rectangle, gravity, size steps, maximum size and aspect ratio it asks for.
\<close>

theorem maximized_window_covers_free_area:
  assumes "sound_desktop display monitors struts" and "compute_work_areas display monitors struts = Some A"
    and "m < length monitors" and "logical_monitor_region (wa_monitors A ! m) \<noteq> []"
    and "env = desktop_env base monitors primary [A] A"
    and "plainly_maximized env w" and "action_of flags \<noteq> None"
    and "constraining_monitor env w flags (start_rect w new) = Some m"
    and "mtk_rectangle_could_fit_rect (logical_monitor_work_area (wa_monitors A ! m)) (fst (get_size_limits w))"
  shows "\<exists>w' r. meta_window_constrain env w flags calculate g (screen_region A) old new =
      Some (w', r, old, (0, 0), screen_region A) \<and>
    pixels r \<subseteq> pixels (monitors ! m) \<and>
    (\<forall>s\<in>set struts. check_strut_align s (monitors ! m) \<longrightarrow> pixels (strut_rect s) \<inter> pixels r = {}) \<and>
    (\<forall>f. rect_positive f \<and> pixels f \<subseteq> pixels (monitors ! m) \<and>
       (\<forall>s\<in>set struts. check_strut_align s (monitors ! m) \<longrightarrow> pixels (strut_rect s) \<inter> pixels f = {}) \<longrightarrow>
       mtk_rectangle_area f \<le> mtk_rectangle_area r)"
proof -
  obtain w' r where r: "meta_window_constrain env w flags calculate g (screen_region A) old new =
      Some (w', r, old, (0, 0), screen_region A)" "largest_free (monitors ! m) struts r"
    by (rule maximized_covers_lemma [OF assms, of calculate g old]) blast
  have "\<forall>s\<in>set struts. rect_positive (strut_rect s)" using assms(1) by (simp add: sound_desktop_def)
  from largest_free_pixels [OF r(2) this] r(1) show ?thesis by blast
qed

theorem maximized_window_covers_free_area_witness:
  "\<exists>w' r. meta_window_constrain (desktop_env one_monitor desk_monitors (Some 0) [desk_areas] desk_areas)
      (terminal_window\<lparr>max_horizontally := True, max_vertically := True\<rparr>) client_configure False META_GRAVITY_CENTER
      (screen_region desk_areas) (mtk_rectangle_new 100 100 64 44) (mtk_rectangle_new (-20) 0 81 70) =
      Some (w', r, mtk_rectangle_new 100 100 64 44, (0, 0), screen_region desk_areas) \<and>
    pixels (mtk_rectangle_new 0 0 800 30) \<inter> pixels r = {}"
proof -
  let ?w = "terminal_window\<lparr>max_horizontally := True, max_vertically := True\<rparr>"
  let ?env = "desktop_env one_monitor desk_monitors (Some 0) [desk_areas] desk_areas"
  have w: "plainly_maximized ?env ?w"
    by (simp add: terminal_window_def constrain_examples plainly_maximized_def plain_frame_def frame_borders_def
        hints_ok_def G_MAXINT_def desktop_env_def)
  have m: "constraining_monitor ?env ?w client_configure (start_rect ?w (mtk_rectangle_new (-20) 0 81 70)) = Some 0"
    "mtk_rectangle_could_fit_rect (logical_monitor_work_area (wa_monitors desk_areas ! 0)) (fst (get_size_limits ?w))"
    "action_of client_configure \<noteq> None"
    by code_simp+
  have panel: "\<lparr>strut_rect = mtk_rectangle_new 0 0 800 30, strut_side = META_SIDE_TOP\<rparr> \<in> set desk_struts"
    "check_strut_align \<lparr>strut_rect = mtk_rectangle_new 0 0 800 30, strut_side = META_SIDE_TOP\<rparr> (desk_monitors ! 0)"
    "0 < length desk_monitors"
    by (simp_all add: desk_struts_def desk_monitors_def check_strut_align_def box_defs mtk_rectangle_new_def)
  from maximized_window_covers_free_area [OF desk_sound desk_computes panel(3) desk_region refl w m(3,1,2),
      of False META_GRAVITY_CENTER "mtk_rectangle_new 100 100 64 44"] panel(1,2)
  show ?thesis by fastforce
qed

text \<open>
  C36. A popup that may slide ends on the work area. Let a popup have a parent and a rule that lets it
  slide in both directions and that is to be applied anew: its state is invalidated or not constrained
  yet, or it is reactive and the last constraint is finished. Let it be neither maximized nor
  fullscreen nor to be minimized, its hints divide by no zero, no external constraints apply, and
  the rectangle have pixels and be no bigger than the work area of the monitor found. Then a move,
  or a resize to a size that the hints allow as it is, whether the popup has been placed before or
  is placed now, returns a rectangle of that size inside the work area, at the parent's position plus
  the relative position, which is recorded as pending; until the client answers, the temporary
  rectangle holds.
\<close>

theorem popup_slides_into_work_area:
  assumes "popup_moved env w rule" and "action_of flags = Some act" and "rect_positive new"
    and "act = ACTION_MOVE \<or> free_sized w new"
    and "constraining_monitor env w flags new = Some m" and "mtk_rectangle_could_fit_rect (work_area_for env m) new"
  shows "\<exists>w' r rel. meta_window_constrain env w flags calculate g cs old new =
      Some (w', r, temporary_position (the (transient_parent w)) (placement w) (popup_first w rule calculate new), rel, cs) \<and>
    mtk_rectangle_contains_rect (work_area_for env m) r \<and>
    rect_width r = rect_width new \<and> rect_height r = rect_height new \<and>
    (rect_x r, rect_y r) =
      (fst (popup_parent_pos w rule) + fst rel, snd (popup_parent_pos w rule) + snd rel) \<and>
    pl_state (placement w') = Constrained_pending \<and>
    pending_pos (placement w') = (rect_x r, rect_y r) \<and> pending_rel (placement w') = rel"
  by (rule popup_lemma [OF assms, of calculate g cs old]) auto

theorem popup_slides_into_work_area_witness:
  "\<exists>w' r rel. meta_window_constrain one_monitor (menu_window (menu_rule slides)\<lparr>placed := False\<rparr>) client_configure True
      META_GRAVITY_NORTH_WEST panel_region (mtk_rectangle_new 0 0 60 20) (mtk_rectangle_new 0 0 60 20) =
      Some (w', r, mtk_rectangle_new 770 120 60 20, rel, panel_region) \<and>
    mtk_rectangle_contains_rect (mtk_rectangle_new 0 30 800 570) r \<and> rect_x r = 590 + fst rel"
proof -
  let ?w = "menu_window (menu_rule slides)\<lparr>placed := False\<rparr>"
  have w: "popup_moved one_monitor ?w (menu_rule slides)"
    by (simp add: popup_moved_def sliding_popup_def reconstrains_def hints_ok_def constrain_examples G_MAXINT_def)
  have a: "action_of client_configure = Some ACTION_MOVE_AND_RESIZE" by (simp add: action_of_def client_configure_def)
  have m: "constraining_monitor one_monitor ?w client_configure (mtk_rectangle_new 0 0 60 20) = Some 0"
    by (simp add: constraining_monitor_def constrain_examples)
  have p: "rect_positive (mtk_rectangle_new 0 0 60 20)"
    "mtk_rectangle_could_fit_rect (work_area_for one_monitor 0) (mtk_rectangle_new 0 0 60 20)"
    by (simp_all add: rect_positive_def mtk_rectangle_could_fit_rect_def mtk_rectangle_new_def one_monitor_def)
  have f: "ACTION_MOVE_AND_RESIZE = ACTION_MOVE \<or> free_sized ?w (mtk_rectangle_new 0 0 60 20)"
    by code_simp
  have t: "temporary_position (the (transient_parent ?w)) (placement ?w)
      (popup_first ?w (menu_rule slides) True (mtk_rectangle_new 0 0 60 20)) = mtk_rectangle_new 770 120 60 20"
    "fst (popup_parent_pos ?w (menu_rule slides)) = 590"
    "work_area_for one_monitor 0 = mtk_rectangle_new 0 30 800 570"
    by code_simp+
  show ?thesis
    using popup_slides_into_work_area [OF w a p(1) f m p(2), of True META_GRAVITY_NORTH_WEST panel_region
        "mtk_rectangle_new 0 0 60 20"]
    unfolding t by blast
qed

section \<open>Placing a new window\<close>

text \<open>
  C37. A cascade ends, inside the work area, and hides no window. The search over the windows in the
  order of their distance always returns; if the first position is in the work area the result
  is; and it is the first position (also when there is no space for another cascade) or at least
  15 pixels off the leading corner of every window, horizontally or vertically. It holds from
  left to right, and from right to left unless windows are centred: there a window can end on
  another (\<open>rtl_center_hides\<close>).
\<close>

theorem cascade_leaves_corners_clear:
  assumes "is_ltr p \<or> \<not> centered" and "c_origin (cascade_of p area width height centered) = (x0, y0)"
    and "mtk_rectangle_contains_rect area (mtk_rectangle_new x0 y0 width height)"
  shows "\<exists>x y. find_next_cascade p area ws width height centered = (x, y) \<and>
    mtk_rectangle_contains_rect area (mtk_rectangle_new x y width height) \<and>
    ((x, y) = (x0, y0) \<or>
     (\<forall>v\<in>set ws.
        15 \<le> \<bar>leading_corner (is_ltr p) (rect_x (frame_rect v)) (rect_width (frame_rect v)) - leading_corner (is_ltr p) x width\<bar> \<or>
        15 \<le> \<bar>rect_y (frame_rect v) - y\<bar>))"
proof -
  obtain x y where pos: "find_next_cascade p area ws width height centered = (x, y)" by (metis surj_pair)
  have "(x, y) = (x0, y0) \<or> (\<forall>v\<in>set ws. \<not> near_cascade (cascade_of p area width height centered) (x, y) v)"
    using find_next_cascade_clear [OF assms(1), of area ws width height] assms(2) pos by simp
  then show ?thesis
    using pos find_next_cascade_inside [OF assms(3,2) pos] unfolding near_cascade_leading by fastforce
qed

theorem cascade_leaves_corners_clear_witness:
  "\<exists>x y. find_next_cascade full_desk (mtk_rectangle_new 0 30 800 570)
     [shown_window (mtk_rectangle_new 0 30 800 570) META_WINDOW_NORMAL] 400 300 False = (x, y) \<and>
     mtk_rectangle_contains_rect (mtk_rectangle_new 0 30 800 570) (mtk_rectangle_new x y 400 300)"
proof -
  have "is_ltr full_desk \<or> \<not> False"
    "c_origin (cascade_of full_desk (mtk_rectangle_new 0 30 800 570) 400 300 False) = (0, 30)"
    "mtk_rectangle_contains_rect (mtk_rectangle_new 0 30 800 570) (mtk_rectangle_new 0 30 400 300)"
    by (simp_all add: full_desk_def desk_def cascade_of_def mtk_rectangle_new_def mtk_rectangle_contains_rect_def)
  from cascade_leaves_corners_clear [OF this] show ?thesis by blast
qed

section \<open>Work areas and new windows\<close>

text \<open>
  C38. A work area is never stale. In every state reached by calls on workspaces and on the places of
  windows, whatever of the work areas of a listed workspace is asked for (the area of a monitor or of the screen, the region of the screen
  or of a monitor) is what is computed from the display, the monitors and the struts of the windows
  that are on the workspace now, though it is cached and recomputed only after an invalidation; and
  it is given whenever that computation has a result.
\<close>

theorem work_area_never_stale:
  assumes "desk_reachable st" and "ws \<in> set (wm_workspaces st)"
    and "now = compute_work_areas (wm_display st) (wm_monitors st) (workspace_struts st ws)"
  shows "map_option fst (meta_workspace_get_work_area_for_monitor ws m st) =
      map_option (\<lambda>A. logical_monitor_work_area (wa_monitors A ! m)) now \<and>
    map_option fst (meta_workspace_get_work_area_all_monitors ws st) = map_option work_area_screen now \<and>
    map_option fst (meta_workspace_get_onscreen_region ws st) = map_option screen_region now \<and>
    map_option fst (meta_workspace_get_onmonitor_region ws m st) =
      map_option (\<lambda>A. logical_monitor_region (wa_monitors A ! m)) now"
  using validated_now [OF desk_reachable_inv [OF assms(1)] assms(2)] assms(3) by (simp add: workspace_getters)

theorem work_area_never_stale_witness:
  "map_option fst (meta_workspace_get_work_area_for_monitor 0 0 (the ex_desk)) = Some (mtk_rectangle_new 60 30 740 570)"
  using work_area_never_stale [OF ex_desk_reachable, of 0 _ 0] desk_computes desk_work_area by (simp add: ex_desk_state)

text \<open>
  A new window covers no other if there is a place for it. Unless new windows are to be centred, a
  normal window that asks for no position, has no parent and was not denied the focus is placed in the work area where its
  pixels are disjoint from those of every normal window, utility, toolbar and menu that shows
  on its workspace; only if none of the places tried (the share of the middle, below each window
  and beside each) is free is it cascaded, from the first corner or at least 15 pixels off the
  leading corner of every window.
\<close>

theorem new_window_avoids_others:
  assumes "placed_freely p w" and "placing_monitor p w = Some m"
    and "ws = find_windows_relevant_for_placement p w" and "area = place_area p m"
  shows "\<exists>x y queued. meta_window_place p w False pos width height = Some ((x, y), queued) \<and>
    (mtk_rectangle_contains_rect area (mtk_rectangle_new x y width height) \<and>
       (\<forall>v\<in>set ws. is_obstacle v \<longrightarrow> pixels (mtk_rectangle_new x y width height) \<inter> pixels (frame_rect v) = {}) \<or>
     (\<forall>r\<in>set (candidates (is_ltr p) ws area width height). \<not> is_free_place area ws r) \<and>
       ((x, y) = first_corner (is_ltr p) area width \<or>
        (\<forall>v\<in>set ws.
           15 \<le> \<bar>leading_corner (is_ltr p) (rect_x (frame_rect v)) (rect_width (frame_rect v)) - leading_corner (is_ltr p) x width\<bar> \<or>
           15 \<le> \<bar>rect_y (frame_rect v) - y\<bar>)))"
  using new_window_place_lemma [OF assms(1,2), of pos width height] unfolding assms(3,4) near_cascade_leading
  by (smt (verit, best))

theorem new_window_avoids_others_witness:
  "\<exists>x y queued. meta_window_place corner_desk created_window False (0, 0) 400 300 = Some ((x, y), queued) \<and>
     pixels (mtk_rectangle_new x y 400 300) \<inter> pixels (mtk_rectangle_new 0 30 500 250) = {}"
proof -
  have "placed_freely corner_desk created_window" "placing_monitor corner_desk created_window = Some 0" by code_simp+
  note place = new_window_avoids_others [OF this refl refl, of "(0, 0)" 400 300]
  have ws: "set (find_windows_relevant_for_placement corner_desk created_window) =
      {shown_window (mtk_rectangle_new 0 30 500 250) META_WINDOW_NORMAL}"
    by (simp add: find_windows_relevant_for_placement_def corner_desk_def desk_def created_window_def
        constrained_window.extend_def new_window.fields_def free_window_def shown_window_def meta_window.truncate_def
        meta_window_located_on_workspace_def)
  have obstacle: "is_obstacle (shown_window (mtk_rectangle_new 0 30 500 250) META_WINDOW_NORMAL)"
    "frame_rect (shown_window (mtk_rectangle_new 0 30 500 250) META_WINDOW_NORMAL) = mtk_rectangle_new 0 30 500 250"
    by (simp_all add: is_obstacle_def shown_window_def)
  have "below_place (center_tile_rect_in_area True (mtk_rectangle_new 0 0 400 300) (place_area corner_desk 0))
      (shown_window (mtk_rectangle_new 0 30 500 250) META_WINDOW_NORMAL) = mtk_rectangle_new 0 280 400 300"
    by (simp add: below_place_def center_tile_rect_in_area_def shown_window_def mtk_rectangle_new_def Let_def)
  then have "mtk_rectangle_new 0 280 400 300 \<in> set (candidates (is_ltr corner_desk)
      (find_windows_relevant_for_placement corner_desk created_window) (place_area corner_desk 0) 400 300)"
    using ws by (simp add: candidates_def Let_def corner_desk_def desk_def)
  moreover have "is_free_place (place_area corner_desk 0) (find_windows_relevant_for_placement corner_desk created_window)
      (mtk_rectangle_new 0 280 400 300)"
    by code_simp
  ultimately show ?thesis using place ws obstacle by auto
qed

text \<open>
  A new window is shown where it was placed. Let new windows not be centred, and the window be
  neither maximized nor fullscreen nor an attached dialog, without server-side frame and external
  constraints, its size steps 1 and its aspect ratio free. If one of the places tried is free, the
  work area is part of the regions of the workspace and the monitor and the hints of the client
  allow the size it asks for, mapping the window, with \<open>place.c\<close> called from within
  \<open>meta_window_constrain\<close>, ends with the size asked for at a place in the work area that is
  disjoint from every other normal window, utility, toolbar and menu.
\<close>

theorem new_window_stays_where_placed:
  assumes "mapped_freely p w" and "placing_monitor p w = Some m" and "sound_monitor (screen p) cs m"
    and "action_of flags \<noteq> None" and "constraining_monitor (screen p) (constrained_window.truncate w) flags new \<noteq> None"
    and "rect_positive new" and "\<forall>x y. free_sized (constrained_window.truncate w) (new\<lparr>rect_x := x, rect_y := y\<rparr>)"
    and "\<exists>r\<in>set (candidates (is_ltr p) (find_windows_relevant_for_placement p w) (place_area p m)
      (rect_width new) (rect_height new)). is_free_place (place_area p m) (find_windows_relevant_for_placement p w) r"
  shows "\<exists>w' r. meta_window_constrain (placing_env p w) (constrained_window.truncate w) flags True g cs old new =
      Some (w', r, old, (0, 0), cs) \<and>
    rect_width r = rect_width new \<and> rect_height r = rect_height new \<and>
    mtk_rectangle_contains_rect (place_area p m) r \<and>
    (\<forall>v\<in>set (find_windows_relevant_for_placement p w). is_obstacle v \<longrightarrow> pixels r \<inter> pixels (frame_rect v) = {})"
proof -
  have "find_first_fit p (find_windows_relevant_for_placement p w) (place_area p m) (rect_width new) (rect_height new) \<noteq> None"
    using assms(8) find_first_fit_none by metis
  then show ?thesis
    by (rule new_window_lemma [OF assms(1-6) assms(7) [rule_format], of g old]) blast
qed

theorem new_window_stays_where_placed_witness:
  "\<exists>w' r. meta_window_constrain (placing_env corner_desk created_window) (constrained_window.truncate created_window)
      client_configure True META_GRAVITY_NORTH_WEST panel_region (mtk_rectangle_new 0 0 400 300)
      (mtk_rectangle_new 0 0 400 300) = Some (w', r, mtk_rectangle_new 0 0 400 300, (0, 0), panel_region) \<and>
    mtk_rectangle_contains_rect (mtk_rectangle_new 0 30 800 570) r"
proof -
  have w: "constrained_window.truncate created_window =
      free_window\<lparr>frame_rect := mtk_rectangle_new 0 0 400 300, placed := False\<rparr>"
    by (simp add: created_window_def constrained_window.extend_def constrained_window.truncate_def new_window.fields_def
        free_window_def)
  have mapped: "mapped_freely corner_desk created_window" "placing_monitor corner_desk created_window = Some 0"
    by code_simp+
  have area: "place_area corner_desk 0 = mtk_rectangle_new 0 30 800 570" "screen corner_desk = one_monitor"
    by (simp_all add: place_area_def corner_desk_def desk_def one_monitor_def)
  have sound: "sound_monitor (screen corner_desk) panel_region 0"
    unfolding area sound_monitor_def
    by (simp add: one_monitor_def panel_region_def rect_positive_def mtk_rectangle_contains_rect_def mtk_rectangle_new_def)
  have flags: "action_of client_configure \<noteq> None"
    "constraining_monitor (screen corner_desk) (constrained_window.truncate created_window) client_configure
       (mtk_rectangle_new 0 0 400 300) \<noteq> None"
    unfolding area w by (simp_all add: action_of_def client_configure_def constraining_monitor_def one_monitor_def free_window_def)
  have sizes: "\<forall>x y. free_sized (constrained_window.truncate created_window)
      ((mtk_rectangle_new 0 0 400 300)\<lparr>rect_x := x, rect_y := y\<rparr>)"
    unfolding w
    by (simp add: free_sized_def free_window_def mtk_rectangle_new_def get_size_limits_def frame_borders_def Let_def
        meta_window_client_rect_to_frame_rect_def meta_window_frame_rect_to_client_rect_def
        mtk_rectangle_could_fit_rect_def G_MAXINT_def)
  have pos: "rect_positive (mtk_rectangle_new 0 0 400 300)" by (simp add: rect_positive_def mtk_rectangle_new_def)
  have free: "\<exists>r\<in>set (candidates (is_ltr corner_desk) (find_windows_relevant_for_placement corner_desk created_window)
      (place_area corner_desk 0) (rect_width (mtk_rectangle_new 0 0 400 300)) (rect_height (mtk_rectangle_new 0 0 400 300))).
      is_free_place (place_area corner_desk 0) (find_windows_relevant_for_placement corner_desk created_window) r"
    by code_simp
  from new_window_stays_where_placed [OF mapped sound flags pos sizes free, of META_GRAVITY_NORTH_WEST
      "mtk_rectangle_new 0 0 400 300"]
  show ?thesis unfolding area by blast
qed



section \<open>Rectangles and transforms\<close>

text \<open>
  Intersection, containment and overlap of rectangles are those of their pixel sets, and a
  failed intersection means that no pixel is shared.
\<close>

theorem rectangles_are_pixel_sets:
  "(fst (mtk_rectangle_intersect a b d) \<longrightarrow>
      pixels (snd (mtk_rectangle_intersect a b d)) = pixels a \<inter> pixels b) \<and>
   (\<not> fst (mtk_rectangle_intersect a b d) \<longrightarrow> pixels a \<inter> pixels b = {}) \<and>
   (rect_positive b \<longrightarrow> (mtk_rectangle_contains_rect a b \<longleftrightarrow> pixels b \<subseteq> pixels a)) \<and>
   (rect_positive a \<longrightarrow> rect_positive b \<longrightarrow>
      (mtk_rectangle_overlap a b \<longleftrightarrow> pixels a \<inter> pixels b \<noteq> {}))"
  by (simp add: intersect_pixels intersect_pixels_empty contains_rect_iff_pixels overlap_iff_pixels)

theorem rectangles_are_pixel_sets_witness:
  "pixels (snd (mtk_rectangle_intersect (mtk_rectangle_new 0 0 10 10) (mtk_rectangle_new 5 5 10 10)
     mtk_rectangle_new_empty)) = pixels (mtk_rectangle_new 0 0 10 10) \<inter> pixels (mtk_rectangle_new 5 5 10 10)"
  using rectangles_are_pixel_sets [of "mtk_rectangle_new 0 0 10 10" "mtk_rectangle_new 5 5 10 10"
      mtk_rectangle_new_empty]
  by (simp add: mtk_rectangle_intersect_def mtk_rectangle_new_def mtk_rectangle_new_empty_def)

text \<open>
  The union of two rectangles is the least rectangle containing both, and with coordinates
  bounded by a sixth of \<open>2 ^ 31\<close> neither it nor the intersection overflows.
\<close>

theorem union_is_least_and_fits:
  assumes "rect_within B a" "rect_within B b" "6 * B < 2 ^ 31"
  shows "(\<forall>c. mtk_rectangle_contains_rect c (mtk_rectangle_union a b) \<longleftrightarrow>
      mtk_rectangle_contains_rect c a \<and> mtk_rectangle_contains_rect c b) \<and>
    rect_int32 (mtk_rectangle_union a b) \<and>
    (\<forall>d. rect_within B d \<longrightarrow> rect_int32 (snd (mtk_rectangle_intersect a b d)))"
  using union_least rect_within_int32 [OF union_within [OF assms(1,2)]]
    rect_within_int32 [OF intersect_within [OF assms(1,2)]] assms(3) by simp

theorem union_is_least_and_fits_witness:
  "rect_int32 (mtk_rectangle_union (mtk_rectangle_new 0 0 10 10) (mtk_rectangle_new 5 5 10 10))"
  using union_is_least_and_fits [of 100 "mtk_rectangle_new 0 0 10 10" "mtk_rectangle_new 5 5 10 10"]
  by (simp add: rect_within_def mtk_rectangle_new_def)

text \<open>
  Monitor transforms form a group acting on points: composition is one transform after the
  other and associative, and the inverse undoes a transform from either side.
\<close>

theorem transforms_act_as_group:
  "mtk_monitor_transform_transform_point (mtk_monitor_transform_transform s t) p =
     mtk_monitor_transform_transform_point t (mtk_monitor_transform_transform_point s p) \<and>
   mtk_monitor_transform_transform (mtk_monitor_transform_transform s t) u =
     mtk_monitor_transform_transform s (mtk_monitor_transform_transform t u) \<and>
   mtk_monitor_transform_transform t (mtk_monitor_transform_invert t) = MTK_MONITOR_TRANSFORM_NORMAL \<and>
   mtk_monitor_transform_transform (mtk_monitor_transform_invert t) t = MTK_MONITOR_TRANSFORM_NORMAL \<and>
   mtk_monitor_transform_transform_point (mtk_monitor_transform_invert t)
     (mtk_monitor_transform_transform_point t p) = p"
  by (simp add: transform_point_comp mtf.comp_assoc mtf.comp_inv mtf.comp_inv_left mtf.act_inv_left)

text \<open>
  C40. Transforming a rectangle into a monitor's coordinates and back gives the rectangle again,
  the area being turned with it.
\<close>

theorem rectangle_transform_roundtrip:
  "mtk_rectangle_transform
     (mtk_rectangle_transform r t
        (if mtk_monitor_transform_is_rotated t then h else w)
        (if mtk_monitor_transform_is_rotated t then w else h))
     (mtk_monitor_transform_invert t) w h = r"
  by (rule rect_transform_comp_dims)

text \<open>
  Transform names round-trip in both directions: every transform is read back from its name,
  and any accepted name is the one that is printed.
\<close>

theorem transform_names_roundtrip:
  "mtk_monitor_transform_from_string (mtk_monitor_transform_to_string t) = Some t \<and>
   (\<forall>n u. mtk_monitor_transform_from_string n = Some u \<longrightarrow> mtk_monitor_transform_to_string u = n)"
  by (cases t) (auto simp: mtk_monitor_transform_from_string_def split: if_splits)

theorem transform_names_roundtrip_witness:
  "mtk_monitor_transform_from_string (mtk_monitor_transform_to_string MTK_MONITOR_TRANSFORM_FLIPPED_270) =
     Some MTK_MONITOR_TRANSFORM_FLIPPED_270"
  using transform_names_roundtrip [of MTK_MONITOR_TRANSFORM_FLIPPED_270] by simp

end
